(* ===== verification/Prelude.thy ===== *)
theory Prelude
  imports Main "HOL-Library.Word"
begin

text \<open>
  Shared vocabulary of the development: byte strings, the result of a Go call (a value, an
  error value or a run-time panic), big-endian integers as \<open>encoding/binary\<close> writes them,
  and the list lemmas about taking, dropping and padding that every codec proof uses.

  Go's \<open>int\<close> is \<open>int\<close> (lengths and geometry sizes, far below the 64-bit bound);
  \<open>uint8\<close>, \<open>uint32\<close> and \<open>uint64\<close> are words, so that conversions such as
  \<open>uint32(len(b))\<close> truncate in the model where they truncate in the code.
\<close>

type_synonym byte = "8 word"
type_synonym bytes = "byte list"
type_synonym u16 = "16 word"
type_synonym u32 = "32 word"
type_synonym u64 = "64 word"

named_theorems codec_simps \<open>round trips and lengths of the integer and field codecs\<close>
named_theorems go_simps \<open>evaluation of the result type\<close>

section \<open>Results of Go calls\<close>

text \<open>A call returns a value (\<open>Inr\<close>), returns an error (\<open>Inl (Err e)\<close>) or panics.\<close>

datatype 'e fail = Panic | Err 'e

type_synonym ('e, 'a) go = "'e fail + 'a"

definition go_bind :: "('e, 'a) go \<Rightarrow> ('a \<Rightarrow> ('e, 'b) go) \<Rightarrow> ('e, 'b) go" where
  "go_bind r f = (case r of Inl e \<Rightarrow> Inl e | Inr x \<Rightarrow> f x)"

lemma go_bind_simps [simp, go_simps]:
  "go_bind (Inr x) f = f x"
  "go_bind (Inl e) f = Inl e"
  by (simp_all add: go_bind_def)

lemma go_bind_Inr_iff [go_simps]:
  "go_bind r f = Inr y \<longleftrightarrow> (\<exists>x. r = Inr x \<and> f x = Inr y)"
  by (cases r) simp_all

lemma go_bind_Panic_iff [go_simps]:
  "go_bind r f = Inl Panic \<longleftrightarrow> r = Inl Panic \<or> (\<exists>x. r = Inr x \<and> f x = Inl Panic)"
  by (cases r) simp_all

text \<open>A method call through a nil pointer or a nil interface value panics.\<close>

definition deref :: "'a option \<Rightarrow> ('e, 'a) go" where
  "deref p = (case p of None \<Rightarrow> Inl Panic | Some x \<Rightarrow> Inr x)"

lemma deref_simps [simp, go_simps]:
  "deref None = Inl Panic"
  "deref (Some x) = Inr x"
  by (simp_all add: deref_def)

section \<open>Big-endian integers\<close>

text \<open>The \<open>n\<close> low-order bytes of \<open>x\<close>, most significant first, and the value of a byte string.\<close>

fun be_enc :: "nat \<Rightarrow> nat \<Rightarrow> bytes" where
  "be_enc 0 x = []"
| "be_enc (Suc n) x = word_of_nat (x div 256 ^ n) # be_enc n x"

fun be_dec :: "bytes \<Rightarrow> nat" where
  "be_dec [] = 0"
| "be_dec (b # bs) = unat b * 256 ^ length bs + be_dec bs"

lemma length_be_enc [simp, codec_simps]: "length (be_enc n x) = n"
  by (induction n) simp_all

lemma unat_word_of_nat_byte: "unat (word_of_nat x :: byte) = x mod 256"
  by (simp add: unat_of_nat)

lemma be_dec_enc [simp, codec_simps]: "be_dec (be_enc n x) = x mod 256 ^ n"
proof (induction n)
  case 0
  then show ?case by simp
next
  case (Suc n)
  have "x mod 256 ^ Suc n = (x div 256 ^ n mod 256) * 256 ^ n + x mod 256 ^ n"
    by (metis mod_mult2_eq mult.commute power_Suc2 add.commute)
  with Suc show ?case by (simp add: unat_word_of_nat_byte)
qed

lemma unat_lt_byte: "unat (b :: byte) < 256"
proof -
  have "unat b < 2 ^ LENGTH(8)" by (rule unsigned_less)
  then show ?thesis by simp
qed

lemma be_dec_bound: "be_dec bs < 256 ^ length bs"
proof (induction bs)
  case Nil
  then show ?case by simp
next
  case (Cons b bs)
  have b: "unat b < 256" using unat_lt_byte .
  have "be_dec (b # bs) < unat b * 256 ^ length bs + 256 ^ length bs"
    using Cons by simp
  also have "\<dots> = Suc (unat b) * 256 ^ length bs" by simp
  also have "\<dots> \<le> 256 * 256 ^ length bs"
    using b by (intro mult_le_mono1) simp
  finally show ?case by simp
qed

lemma div_power_mod:
  fixes x :: nat
  shows "x mod 256 ^ Suc n div 256 ^ n = x div 256 ^ n mod 256"
proof -
  have "x mod 256 ^ Suc n = 256 ^ n * (x div 256 ^ n mod 256) + x mod 256 ^ n"
    by (simp add: mod_mult2_eq [symmetric] mult.commute)
  then show ?thesis by simp
qed

lemma be_enc_mod: "be_enc n (x mod 256 ^ n) = be_enc n x"
proof (induction n arbitrary: x)
  case 0
  then show ?case by simp
next
  case (Suc n)
  have hd: "word_of_nat (x div 256 ^ n mod 256) = (word_of_nat (x div 256 ^ n) :: byte)"
    by (simp add: word_of_nat_eq_iff take_bit_eq_mod)
  have "be_enc n (x mod 256 ^ Suc n) = be_enc n (x mod 256 ^ Suc n mod 256 ^ n)"
    by (rule Suc [symmetric])
  also have "x mod 256 ^ Suc n mod 256 ^ n = x mod 256 ^ n"
    by (simp add: mod_mod_cancel)
  also have "be_enc n (x mod 256 ^ n) = be_enc n x"
    by (rule Suc)
  finally show ?case using hd by (simp only: be_enc.simps div_power_mod)
qed

lemma be_enc_dec [simp, codec_simps]: "length bs = n \<Longrightarrow> be_enc n (be_dec bs) = bs"
proof (induction bs arbitrary: n)
  case Nil
  then show ?case by simp
next
  case (Cons b bs)
  obtain m where n: "n = Suc m" and m: "length bs = m" using Cons.prems by auto
  have lt: "be_dec bs < 256 ^ m" using be_dec_bound [of bs] m by simp
  have hd: "be_dec (b # bs) div 256 ^ m = unat b"
    using lt m by simp
  have tl: "be_enc m (be_dec (b # bs)) = be_enc m (be_dec bs)"
    using be_enc_mod [of m "be_dec (b # bs)"] be_enc_mod [of m "be_dec bs"] m by simp
  show ?case using hd tl Cons.IH [OF m] n by simp
qed

section \<open>The integer accessors of encoding/binary\<close>

text \<open>
  \<open>PutUint16\<close>, \<open>PutUint32\<close>, \<open>PutUint64\<close> as the bytes they write, and the readers on a
  prefix. The readers panic on a slice that is too short.
\<close>

definition put16 :: "u16 \<Rightarrow> bytes" where "put16 w = be_enc 2 (unat w)"
definition put32 :: "u32 \<Rightarrow> bytes" where "put32 w = be_enc 4 (unat w)"
definition put64 :: "u64 \<Rightarrow> bytes" where "put64 w = be_enc 8 (unat w)"

definition get16 :: "bytes \<Rightarrow> ('e, u16) go" where
  "get16 b = (if length b < 2 then Inl Panic else Inr (word_of_nat (be_dec (take 2 b))))"
definition get32 :: "bytes \<Rightarrow> ('e, u32) go" where
  "get32 b = (if length b < 4 then Inl Panic else Inr (word_of_nat (be_dec (take 4 b))))"
definition get64 :: "bytes \<Rightarrow> ('e, u64) go" where
  "get64 b = (if length b < 8 then Inl Panic else Inr (word_of_nat (be_dec (take 8 b))))"

text \<open>One contract for the three widths: what is read back is what was written.\<close>

locale int_codec =
  fixes put :: "'w \<Rightarrow> bytes"
    and get :: "bytes \<Rightarrow> ('e, 'w) go"
    and width :: nat
  assumes length_put: "length (put w) = width"
    and get_put: "get (put w @ rest) = Inr w"
    and get_short: "length b < width \<Longrightarrow> get b = Inl Panic"
    and put_get: "get b = Inr w \<Longrightarrow> take width b = put w"
begin

lemma get_put_exact: "get (put w) = Inr w"
  using get_put [of w "[]"] by simp

lemma put_inject: "put v = put w \<longleftrightarrow> v = w"
  using get_put_exact by (metis sum.inject(2))

lemma take_put: "take width (put w @ rest) = put w"
  by (simp add: length_put)

lemma drop_put: "drop width (put w @ rest) = rest"
  by (simp add: length_put)

lemma get_Inr_length: "get b = Inr w \<Longrightarrow> width \<le> length b"
  using get_short [of b] by (metis not_le_imp_less sum.distinct(1))

end

lemma word_of_nat_unat_mod: "word_of_nat (unat w mod 2 ^ LENGTH('a)) = (w :: 'a::len word)"
proof -
  have "unat w < 2 ^ LENGTH('a)" by (rule unsigned_less)
  then show ?thesis by simp
qed

lemma unat_word_of_nat_be_dec:
  "256 ^ length b = (2::nat) ^ LENGTH('a) \<Longrightarrow> unat (word_of_nat (be_dec b) :: 'a::len word) = be_dec b"
  using be_dec_bound [of b] by (simp add: unat_of_nat)

interpretation be16: int_codec put16 get16 2
proof unfold_locales
  fix w :: u16 and rest
  show "get16 (put16 w @ rest) = Inr w"
    using word_of_nat_unat_mod [of w] by (simp add: put16_def get16_def)
next
  fix b :: bytes and w :: u16
  assume g: "get16 b = Inr w"
  then have l: "2 \<le> length b" by (auto simp: get16_def split: if_splits)
  then have "unat w = be_dec (take 2 b)"
    using g unat_word_of_nat_be_dec [of "take 2 b", where 'a = 16] by (auto simp: get16_def)
  with l show "take 2 b = put16 w" by (simp add: put16_def)
qed (simp_all add: put16_def get16_def)

interpretation be32: int_codec put32 get32 4
proof unfold_locales
  fix w :: u32 and rest
  show "get32 (put32 w @ rest) = Inr w"
    using word_of_nat_unat_mod [of w] by (simp add: put32_def get32_def)
next
  fix b :: bytes and w :: u32
  assume g: "get32 b = Inr w"
  then have l: "4 \<le> length b" by (auto simp: get32_def split: if_splits)
  then have "unat w = be_dec (take 4 b)"
    using g unat_word_of_nat_be_dec [of "take 4 b", where 'a = 32] by (auto simp: get32_def)
  with l show "take 4 b = put32 w" by (simp add: put32_def)
qed (simp_all add: put32_def get32_def)

interpretation be64: int_codec put64 get64 8
proof unfold_locales
  fix w :: u64 and rest
  show "get64 (put64 w @ rest) = Inr w"
    using word_of_nat_unat_mod [of w] by (simp add: put64_def get64_def)
next
  fix b :: bytes and w :: u64
  assume g: "get64 b = Inr w"
  then have l: "8 \<le> length b" by (auto simp: get64_def split: if_splits)
  then have "unat w = be_dec (take 8 b)"
    using g unat_word_of_nat_be_dec [of "take 8 b", where 'a = 64] by (auto simp: get64_def)
  with l show "take 8 b = put64 w" by (simp add: put64_def)
qed (simp_all add: put64_def get64_def)

lemmas int_codec_simps [simp, codec_simps] =
  be16.length_put be16.get_put be16.get_put_exact
  be32.length_put be32.get_put be32.get_put_exact
  be64.length_put be64.get_put be64.get_put_exact

section \<open>Byte strings\<close>

text \<open>\<open>utils.CtIsZero\<close> (core/utils/ctIsZero.go): the OR of all bytes is zero.\<close>

fun CtIsZero_loop :: "byte \<Rightarrow> bytes \<Rightarrow> byte" where
  "CtIsZero_loop acc [] = acc"
| "CtIsZero_loop acc (v # b) = CtIsZero_loop (Bit_Operations.or acc v) b"

definition CtIsZero :: "bytes \<Rightarrow> bool" where
  "CtIsZero b \<longleftrightarrow> CtIsZero_loop 0 b = 0"

lemma or_eq_0_byte: "Bit_Operations.or a b = 0 \<longleftrightarrow> a = 0 \<and> b = (0 :: byte)"
  by (fact or_eq_0_iff)

lemma CtIsZero_loop_0: "CtIsZero_loop s b = 0 \<longleftrightarrow> s = 0 \<and> (\<forall>v \<in> set b. v = 0)"
  by (induction b arbitrary: s) (auto simp: or_eq_0_byte)

lemma CtIsZero_iff: "CtIsZero b \<longleftrightarrow> b = replicate (length b) 0"
  by (metis CtIsZero_def CtIsZero_loop_0 in_set_replicate replicate_eqI)

lemma CtIsZero_replicate [simp]: "CtIsZero (replicate n 0)"
  by (simp add: CtIsZero_iff)

lemma CtIsZero_Nil [simp]: "CtIsZero []"
  by (simp add: CtIsZero_iff)

text \<open>\<open>copy(dst[:n], src)\<close> into a fresh zeroed array of \<open>n\<close> bytes.\<close>

definition copy_into :: "nat \<Rightarrow> bytes \<Rightarrow> bytes" where
  "copy_into n src = take n src @ replicate (n - length src) 0"

lemma length_copy_into [simp]: "length (copy_into n src) = n"
  by (simp add: copy_into_def)

lemma copy_into_exact [simp]: "length src = n \<Longrightarrow> copy_into n src = src"
  by (simp add: copy_into_def)

text \<open>
  \<open>b[lo:hi]\<close> with bounds of type int, of a slice whose capacity is its length, and
  \<open>make([]byte, n)\<close>.
\<close>

definition go_slice :: "bytes \<Rightarrow> int \<Rightarrow> int \<Rightarrow> ('e, bytes) go" where
  "go_slice b lo hi =
     (if 0 \<le> lo \<and> lo \<le> hi \<and> hi \<le> int (length b)
      then Inr (take (nat (hi - lo)) (drop (nat lo) b)) else Inl Panic)"

definition make_bytes :: "int \<Rightarrow> ('e, bytes) go" where
  "make_bytes n = (if n < 0 then Inl Panic else Inr (replicate (nat n) 0))"

text \<open>\<open>copy(dst, src)\<close> into an existing slice.\<close>

definition copy_over :: "bytes \<Rightarrow> bytes \<Rightarrow> bytes" where
  "copy_over dst src = take (length dst) src @ drop (length src) dst"

lemma length_copy_over [simp]: "length (copy_over dst src) = length dst"
  by (simp add: copy_over_def)

lemma copy_over_exact [simp]: "length src = length dst \<Longrightarrow> copy_over dst src = src"
  by (simp add: copy_over_def)

lemma go_slice_int: "go_slice b (int lo) (int hi) =
    (if lo \<le> hi \<and> hi \<le> length b then Inr (take (hi - lo) (drop lo b)) else Inl Panic)"
  by (auto simp: go_slice_def nat_diff_distrib)

lemma go_slice_0_int: "go_slice b 0 (int hi) = (if hi \<le> length b then Inr (take hi b) else Inl Panic)"
  by (auto simp: go_slice_def)

lemma go_slice_middle:
  "go_slice (a @ b @ d) (int (length a)) (int (length a) + int (length b)) = Inr b"
  by (simp add: go_slice_def)

lemma go_slice_at:
  "lo = int (length a) \<Longrightarrow> hi = lo + int (length b) \<Longrightarrow> go_slice (a @ b @ d) lo hi = Inr b"
  by (simp add: go_slice_def)

lemma go_slice_prefix: "n = int (length a) \<Longrightarrow> go_slice (a @ b) 0 n = Inr a"
  by (simp add: go_slice_def)

lemma go_slice_suffix: "n = int (length a) \<Longrightarrow> m = int (length a + length b) \<Longrightarrow> go_slice (a @ b) n m = Inr b"
  by (simp add: go_slice_def)

lemma make_bytes_int [simp, go_simps]: "make_bytes (int n) = Inr (replicate n 0)"
  by (simp add: make_bytes_def)

text \<open>An error that the caller turns into a panic.\<close>

definition or_panic :: "'a option \<Rightarrow> ('e, 'a) go" where
  "or_panic v = (case v of None \<Rightarrow> Inl Panic | Some a \<Rightarrow> Inr a)"

definition or_err :: "'e \<Rightarrow> 'a option \<Rightarrow> ('e, 'a) go" where
  "or_err e v = (case v of None \<Rightarrow> Inl (Err e) | Some a \<Rightarrow> Inr a)"

lemma or_panic_simps [simp, go_simps]: "or_panic None = Inl Panic" "or_panic (Some a) = Inr a"
  by (simp_all add: or_panic_def)

lemma or_err_simps [simp, go_simps]: "or_err e None = Inl (Err e)" "or_err e (Some a) = Inr a"
  by (simp_all add: or_err_def)

end
