(* ===== verification/SphinxGeometry.thy ===== *)
theory SphinxGeometry
  imports Prelude
begin

text \<open>
  The Sphinx packet geometry of core/sphinx/geo/geo.go: the record \<open>Geometry\<close>, the factory
  that derives its lengths from a NIKE or KEM scheme and a payload size, and \<open>Validate\<close>.
  The NIKE and KEM schemes come from the hpqc library, outside the repository: a scheme is a
  record of what the code asks of it (its name and the sizes), and the registries
  \<open>schemes.ByName\<close> are parameters.
\<close>

section \<open>Sizes\<close>

text \<open>core/sphinx/constants/constants.go and core/sphinx/internal/crypto/crypto.go.\<close>

definition NodeIDLength :: nat where "NodeIDLength = 32"
definition RecipientIDLength :: nat where "RecipientIDLength = 32"
definition SURBIDLength :: nat where "SURBIDLength = 16"
definition CommandTagLength :: nat where "CommandTagLength = 1"
definition MACLength :: nat where "MACLength = 32"
definition SPRPKeyLength :: nat where "SPRPKeyLength = 48"
definition SPRPIVLength :: nat where "SPRPIVLength = 16"

definition surbReplyLength :: int where
  "surbReplyLength = int CommandTagLength + int SURBIDLength"
definition sphinxPlaintextHeaderLength :: int where "sphinxPlaintextHeaderLength = 1 + 1"
definition adLength :: int where "adLength = 2"
definition payloadTagLength :: int where "payloadTagLength = 32"

lemmas sphinx_sizes = NodeIDLength_def RecipientIDLength_def SURBIDLength_def
  CommandTagLength_def MACLength_def SPRPKeyLength_def SPRPIVLength_def surbReplyLength_def
  sphinxPlaintextHeaderLength_def adLength_def payloadTagLength_def

section \<open>Schemes and the geometry\<close>

record nike_scheme =
  nikeSchemeName :: string
  nikePublicKeySize :: int

record kem_scheme =
  kemSchemeName :: string
  kemCiphertextSize :: int

record Geometry =
  PacketLength :: int
  NrHops :: int
  HeaderLength :: int
  RoutingInfoLength :: int
  PerHopRoutingInfoLength :: int
  SURBLength :: int
  SphinxPlaintextHeaderLength :: int
  PayloadTagLength :: int
  ForwardPayloadLength :: int
  UserForwardPayloadLength :: int
  NextNodeHopLength :: int
  SPRPKeyMaterialLength :: int
  NIKEName :: string
  KEMName :: string

datatype geo_err =
    GeoNil | GeoNoScheme | GeoBothSchemes | GeoInvalidNIKE string | GeoInvalidKEM string
  | GeoPacketLength0 | GeoNrHops0 | GeoHeaderLength0 | GeoRoutingInfoLength0
  | GeoPerHopRoutingInfoLength0

text \<open>
  \<open>Geometry.Validate\<close>; the result is the returned error, \<open>None\<close> for nil. The receiver may
  itself be a nil pointer.
\<close>

definition Geometry_Validate ::
  "(string \<Rightarrow> nike_scheme option) \<Rightarrow> (string \<Rightarrow> kem_scheme option) \<Rightarrow> Geometry option
     \<Rightarrow> geo_err option" where
  "Geometry_Validate nikeByName kemByName gp =
     (case gp of None \<Rightarrow> Some GeoNil | Some g \<Rightarrow>
       if NIKEName g = [] \<and> KEMName g = [] then Some GeoNoScheme
       else if NIKEName g \<noteq> [] \<and> KEMName g \<noteq> [] then Some GeoBothSchemes
       else if NIKEName g \<noteq> [] \<and> nikeByName (NIKEName g) = None
         then Some (GeoInvalidNIKE (NIKEName g))
       else if NIKEName g = [] \<and> kemByName (KEMName g) = None
         then Some (GeoInvalidKEM (KEMName g))
       else if PacketLength g = 0 then Some GeoPacketLength0
       else if NrHops g = 0 then Some GeoNrHops0
       else if HeaderLength g = 0 then Some GeoHeaderLength0
       else if RoutingInfoLength g = 0 then Some GeoRoutingInfoLength0
       else if PerHopRoutingInfoLength g = 0 then Some GeoPerHopRoutingInfoLength0
       else None)"

section \<open>The factory\<close>

record geometryFactory =
  f_nike :: "nike_scheme option"
  f_kem :: "kem_scheme option"
  f_nrHops :: int
  f_forwardPayloadLength :: int
  f_sprpKeyMaterialLength :: int
  f_sphinxPlaintextHeaderLength :: int
  f_nextNodeHopLength :: int

definition perHopRoutingInfoLength :: "geometryFactory \<Rightarrow> ('e, int) go" where
  "perHopRoutingInfoLength f =
     (case f_nike f of
        None \<Rightarrow> go_bind (deref (f_kem f))
          (\<lambda>k. Inr (f_nextNodeHopLength f + surbReplyLength + kemCiphertextSize k))
      | Some n \<Rightarrow> Inr (f_nextNodeHopLength f + surbReplyLength))"

definition routingInfoLength :: "geometryFactory \<Rightarrow> ('e, int) go" where
  "routingInfoLength f = go_bind (perHopRoutingInfoLength f) (\<lambda>p. Inr (p * f_nrHops f))"

definition headerLength :: "geometryFactory \<Rightarrow> ('e, int) go" where
  "headerLength f =
     (case (f_nike f, f_kem f) of
        (None, None) \<Rightarrow> Inl Panic
      | (Some n, Some k) \<Rightarrow> Inl Panic
      | (Some n, None) \<Rightarrow> go_bind (routingInfoLength f)
          (\<lambda>r. Inr (adLength + nikePublicKeySize n + r + int MACLength))
      | (None, Some k) \<Rightarrow> go_bind (routingInfoLength f)
          (\<lambda>r. Inr (adLength + kemCiphertextSize k + r + int MACLength)))"

definition packetLength :: "geometryFactory \<Rightarrow> ('e, int) go" where
  "packetLength f =
     go_bind (headerLength f) (\<lambda>h. Inr (h + payloadTagLength + f_forwardPayloadLength f))"

definition surbLength :: "geometryFactory \<Rightarrow> ('e, int) go" where
  "surbLength f =
     go_bind (headerLength f) (\<lambda>h. Inr (h + int NodeIDLength + f_sprpKeyMaterialLength f))"

definition deriveForwardPayloadLength :: "geometryFactory \<Rightarrow> int \<Rightarrow> ('e, int) go" where
  "deriveForwardPayloadLength f user =
     go_bind (surbLength f) (\<lambda>s. Inr (user + (sphinxPlaintextHeaderLength + s)))"

definition nextNodeHopLength :: int where
  "nextNodeHopLength = int CommandTagLength + int NodeIDLength + int MACLength"

definition nike_factory :: "nike_scheme \<Rightarrow> int \<Rightarrow> geometryFactory" where
  "nike_factory nike nrHops =
     \<lparr>f_nike = Some nike, f_kem = None, f_nrHops = nrHops, f_forwardPayloadLength = 0,
      f_sprpKeyMaterialLength = int SPRPKeyLength + int SPRPIVLength,
      f_sphinxPlaintextHeaderLength = sphinxPlaintextHeaderLength,
      f_nextNodeHopLength = nextNodeHopLength\<rparr>"

definition kem_factory :: "kem_scheme \<Rightarrow> int \<Rightarrow> geometryFactory" where
  "kem_factory kem nrHops =
     \<lparr>f_nike = None, f_kem = Some kem, f_nrHops = nrHops, f_forwardPayloadLength = 0,
      f_sprpKeyMaterialLength = int SPRPKeyLength + int SPRPIVLength,
      f_sphinxPlaintextHeaderLength = sphinxPlaintextHeaderLength,
      f_nextNodeHopLength = nextNodeHopLength\<rparr>"

definition GeometryFromUserForwardPayloadLength ::
  "nike_scheme \<Rightarrow> int \<Rightarrow> bool \<Rightarrow> int \<Rightarrow> ('e, Geometry) go" where
  "GeometryFromUserForwardPayloadLength nike user withSURB nrHops =
     (let f0 = nike_factory nike nrHops in
      go_bind (if withSURB then deriveForwardPayloadLength f0 user else Inr user) (\<lambda>fwd.
      let f = f0\<lparr>f_forwardPayloadLength := fwd\<rparr> in
      go_bind (headerLength f) (\<lambda>h. go_bind (packetLength f) (\<lambda>p.
      go_bind (surbLength f) (\<lambda>s. go_bind (routingInfoLength f) (\<lambda>r.
      go_bind (perHopRoutingInfoLength f) (\<lambda>ph.
      Inr \<lparr>PacketLength = p, NrHops = nrHops, HeaderLength = h, RoutingInfoLength = r,
           PerHopRoutingInfoLength = ph, SURBLength = s,
           SphinxPlaintextHeaderLength = sphinxPlaintextHeaderLength,
           PayloadTagLength = payloadTagLength, ForwardPayloadLength = fwd,
           UserForwardPayloadLength = user, NextNodeHopLength = f_nextNodeHopLength f,
           SPRPKeyMaterialLength = f_sprpKeyMaterialLength f,
           NIKEName = nikeSchemeName nike, KEMName = []\<rparr>)))))))"

definition KEMGeometryFromUserForwardPayloadLength ::
  "kem_scheme \<Rightarrow> int \<Rightarrow> bool \<Rightarrow> int \<Rightarrow> ('e, Geometry) go" where
  "KEMGeometryFromUserForwardPayloadLength kem user withSURB nrHops =
     (let f0 = kem_factory kem nrHops in
      go_bind (if withSURB then deriveForwardPayloadLength f0 user else Inr user) (\<lambda>fwd.
      let f = f0\<lparr>f_forwardPayloadLength := fwd\<rparr> in
      go_bind (headerLength f) (\<lambda>h. go_bind (packetLength f) (\<lambda>p.
      go_bind (surbLength f) (\<lambda>s. go_bind (routingInfoLength f) (\<lambda>r.
      go_bind (perHopRoutingInfoLength f) (\<lambda>ph.
      Inr \<lparr>PacketLength = p, NrHops = nrHops, HeaderLength = h, RoutingInfoLength = r,
           PerHopRoutingInfoLength = ph, SURBLength = s,
           SphinxPlaintextHeaderLength = sphinxPlaintextHeaderLength,
           PayloadTagLength = payloadTagLength, ForwardPayloadLength = fwd,
           UserForwardPayloadLength = user, NextNodeHopLength = f_nextNodeHopLength f,
           SPRPKeyMaterialLength = f_sprpKeyMaterialLength f,
           NIKEName = [], KEMName = kemSchemeName kem\<rparr>)))))))"

lemmas geo_factory_defs = perHopRoutingInfoLength_def routingInfoLength_def headerLength_def
  packetLength_def surbLength_def deriveForwardPayloadLength_def nextNodeHopLength_def
  nike_factory_def kem_factory_def Let_def

section \<open>Lemmas\<close>

text \<open>The public constructors never hit the panics of the factory methods.\<close>

lemma nike_geometry_total:
  "\<exists>g. GeometryFromUserForwardPayloadLength nike user withSURB nrHops = Inr g"
  by (simp add: GeometryFromUserForwardPayloadLength_def geo_factory_defs)

lemma kem_geometry_total:
  "\<exists>g. KEMGeometryFromUserForwardPayloadLength kem user withSURB nrHops = Inr g"
  by (simp add: KEMGeometryFromUserForwardPayloadLength_def geo_factory_defs)

definition layers_add_up :: "int \<Rightarrow> bool \<Rightarrow> Geometry \<Rightarrow> bool" where
  "layers_add_up keySize withSURB g \<longleftrightarrow>
     RoutingInfoLength g = NrHops g * PerHopRoutingInfoLength g
   \<and> HeaderLength g = 2 + keySize + RoutingInfoLength g + 32
   \<and> PacketLength g = HeaderLength g + PayloadTagLength g + ForwardPayloadLength g
   \<and> SURBLength g = HeaderLength g + 32 + SPRPKeyMaterialLength g
   \<and> ForwardPayloadLength g =
       UserForwardPayloadLength g + (if withSURB then SphinxPlaintextHeaderLength g + SURBLength g else 0)
   \<and> NextNodeHopLength g + 17 \<le> PerHopRoutingInfoLength g"

lemma nike_layers_add_up:
  "GeometryFromUserForwardPayloadLength nike user withSURB nrHops = Inr g \<Longrightarrow>
   layers_add_up (nikePublicKeySize nike) withSURB g"
  by (auto simp: GeometryFromUserForwardPayloadLength_def geo_factory_defs layers_add_up_def
      sphinx_sizes split: if_splits)

lemma kem_layers_add_up:
  "KEMGeometryFromUserForwardPayloadLength kem user withSURB nrHops = Inr g \<Longrightarrow>
   0 \<le> kemCiphertextSize kem \<Longrightarrow> layers_add_up (kemCiphertextSize kem) withSURB g"
  by (auto simp: KEMGeometryFromUserForwardPayloadLength_def geo_factory_defs layers_add_up_def
      sphinx_sizes split: if_splits)

text \<open>
  The packet geometry a NIKE scheme yields is consistent: the constructor never panics, the
  layers add up exactly (routing info = hops * per-hop, header = AD + public key + routing info +
  MAC, packet = header + tag + payload, and with a SURB the payload holds the plaintext header, a
  SURB and the user payload), a next-hop plus a SURB-reply command fit a hop, and \<open>Validate\<close>
  accepts it whenever the scheme is registered and the sizes are not degenerate.
\<close>

theorem sphinx_geometry_consistent:
  assumes "0 < nrHops" and "0 \<le> nikePublicKeySize nike" and "0 \<le> user"
    and "nikeSchemeName nike \<noteq> []" and "nikeByName (nikeSchemeName nike) = Some nike"
  shows "\<exists>g. (GeometryFromUserForwardPayloadLength nike user withSURB nrHops :: (geo_err, Geometry) go) = Inr g
    \<and> layers_add_up (nikePublicKeySize nike) withSURB g
    \<and> UserForwardPayloadLength g = user \<and> NrHops g = nrHops
    \<and> Geometry_Validate nikeByName kemByName (Some g) = None"
proof -
  obtain g where g: "(GeometryFromUserForwardPayloadLength nike user withSURB nrHops
      :: (geo_err, Geometry) go) = Inr g"
    using nike_geometry_total by blast
  have "UserForwardPayloadLength g = user \<and> NrHops g = nrHops \<and> KEMName g = []
      \<and> NIKEName g = nikeSchemeName nike \<and> PerHopRoutingInfoLength g = 82"
    using g by (auto simp: GeometryFromUserForwardPayloadLength_def geo_factory_defs
        sphinx_sizes split: if_splits)
  moreover from nike_layers_add_up [OF g] have l: "layers_add_up (nikePublicKeySize nike) withSURB g" .
  moreover have "PayloadTagLength g = 32 \<and> SphinxPlaintextHeaderLength g = 2 \<and> SPRPKeyMaterialLength g = 64"
    using g by (auto simp: GeometryFromUserForwardPayloadLength_def geo_factory_defs
        sphinx_sizes split: if_splits)
  ultimately have "Geometry_Validate nikeByName kemByName (Some g) = None"
    using assms by (auto simp: Geometry_Validate_def layers_add_up_def split: if_splits)
  with g l show ?thesis
    using \<open>UserForwardPayloadLength g = user \<and> NrHops g = nrHops \<and> KEMName g = []
      \<and> NIKEName g = nikeSchemeName nike \<and> PerHopRoutingInfoLength g = 82\<close> by blast
qed

definition x25519 :: nike_scheme where
  "x25519 = \<lparr>nikeSchemeName = ''x25519'', nikePublicKeySize = 32\<rparr>"

theorem sphinx_geometry_consistent_witness:
  "\<exists>g. (GeometryFromUserForwardPayloadLength x25519 2000 True 5 :: (geo_err, Geometry) go) = Inr g
    \<and> layers_add_up 32 True g \<and> UserForwardPayloadLength g = 2000 \<and> NrHops g = 5
    \<and> Geometry_Validate (\<lambda>n. Some x25519) (\<lambda>n. None) (Some g) = None"
  using sphinx_geometry_consistent [of 5 x25519 2000 "\<lambda>n. Some x25519" True "\<lambda>n. None"]
  by (simp add: x25519_def)

end
