(* ===== verification/PigeonholeGeometry.thy ===== *)
theory PigeonholeGeometry
  imports SphinxGeometry
begin

text \<open>
  The Pigeonhole geometry of pigeonhole/geo/geometry.go: from the plaintext payload size of a Box
  to the sizes of every envelope that carries one, and back from the payload a Sphinx packet can
  hold. The sizes the code takes from the hpqc and chacha20poly1305 libraries are the fields of
  \<open>hpqc\<close>; the trunnel format of the repository fixes the DEK to 60 bytes.
\<close>

record hpqc =
  BoxIDSize :: nat
  SignatureSize :: nat
  DEKSize :: nat
  NonceSize :: nat
  AEADOverhead :: nat

record PGeometry =
  MaxPlaintextPayloadLength :: int
  CourierQueryReadLength :: int
  CourierQueryWriteLength :: int
  CourierQueryReplyReadLength :: int
  CourierQueryReplyWriteLength :: int
  PNIKEName :: string
  SignatureSchemeName :: string

definition bacapEncryptionOverhead :: int where "bacapEncryptionOverhead = 16"
definition lengthPrefixSize :: int where "lengthPrefixSize = 4"
definition signatureSchemeName :: string where "signatureSchemeName = ''Ed25519''"
definition messageTypeSize :: int where "messageTypeSize = 1"
definition errorCodeFieldSize :: int where "errorCodeFieldSize = 1"
definition successFieldSize :: int where "successFieldSize = 1"
definition payloadLenFieldSize :: int where "payloadLenFieldSize = 4"
definition errorLenFieldSize :: int where "errorLenFieldSize = 2"
definition timestampFieldSize :: int where "timestampFieldSize = 8"
definition ciphertextLenFieldSize :: int where "ciphertextLenFieldSize = 4"
definition intermediateReplicasSize :: int where "intermediateReplicasSize = 2"
definition replyIndexSize :: int where "replyIndexSize = 1"
definition epochSize :: int where "epochSize = 8"
definition senderPubkeyLenSize :: int where "senderPubkeyLenSize = 2"
definition queryTypeSize :: int where "queryTypeSize = 1"

definition mkemEncryptionOverhead :: "hpqc \<Rightarrow> int" where
  "mkemEncryptionOverhead x = int (NonceSize x) + int (AEADOverhead x)"

lemmas pigeonhole_sizes = bacapEncryptionOverhead_def lengthPrefixSize_def messageTypeSize_def
  errorCodeFieldSize_def successFieldSize_def payloadLenFieldSize_def errorLenFieldSize_def
  timestampFieldSize_def ciphertextLenFieldSize_def intermediateReplicasSize_def
  replyIndexSize_def epochSize_def senderPubkeyLenSize_def queryTypeSize_def
  mkemEncryptionOverhead_def

section \<open>Sizes of the layers\<close>

definition replicaWriteFixedOverhead :: "hpqc \<Rightarrow> int" where
  "replicaWriteFixedOverhead x = int (BoxIDSize x) + int (SignatureSize x) + payloadLenFieldSize"

definition calculateCourierEnvelopeOverhead :: "hpqc \<Rightarrow> int \<Rightarrow> int \<Rightarrow> int" where
  "calculateCourierEnvelopeOverhead x ignored senderPubkeySize =
     intermediateReplicasSize + int (DEKSize x) + int (DEKSize x) + replyIndexSize + epochSize
       + senderPubkeyLenSize + ciphertextLenFieldSize + senderPubkeySize"

definition calculateCourierQueryWrapperOverhead :: "int \<Rightarrow> nike_scheme \<Rightarrow> int" where
  "calculateCourierQueryWrapperOverhead ignored scheme = queryTypeSize"

definition CalculateBoxCiphertextLength :: "PGeometry \<Rightarrow> int" where
  "CalculateBoxCiphertextLength g =
     MaxPlaintextPayloadLength g + lengthPrefixSize + bacapEncryptionOverhead"

definition PaddedPayloadLength :: "PGeometry \<Rightarrow> int" where
  "PaddedPayloadLength g = MaxPlaintextPayloadLength g + lengthPrefixSize"

definition ReplicaInnerMessageWriteSize :: "hpqc \<Rightarrow> PGeometry \<Rightarrow> int" where
  "ReplicaInnerMessageWriteSize x g =
     messageTypeSize + (replicaWriteFixedOverhead x + CalculateBoxCiphertextLength g)"

definition ReplicaInnerMessagePaddedSize :: "hpqc \<Rightarrow> PGeometry \<Rightarrow> int" where
  "ReplicaInnerMessagePaddedSize x g = ReplicaInnerMessageWriteSize x g + lengthPrefixSize"

definition ReplicaReplyInnerMessageReadSize :: "hpqc \<Rightarrow> PGeometry \<Rightarrow> int" where
  "ReplicaReplyInnerMessageReadSize x g =
     messageTypeSize + (errorCodeFieldSize + int (BoxIDSize x) + int (SignatureSize x)
       + payloadLenFieldSize + CalculateBoxCiphertextLength g)"

definition ReplicaReplyInnerMessagePaddedSize :: "hpqc \<Rightarrow> PGeometry \<Rightarrow> int" where
  "ReplicaReplyInnerMessagePaddedSize x g = ReplicaReplyInnerMessageReadSize x g + lengthPrefixSize"

definition CalculateCourierEnvelopeCiphertextSizeRead :: "hpqc \<Rightarrow> PGeometry \<Rightarrow> int" where
  "CalculateCourierEnvelopeCiphertextSizeRead x g =
     ReplicaInnerMessagePaddedSize x g + mkemEncryptionOverhead x"

definition CalculateCourierEnvelopeCiphertextSizeWrite :: "hpqc \<Rightarrow> PGeometry \<Rightarrow> int" where
  "CalculateCourierEnvelopeCiphertextSizeWrite x g =
     ReplicaInnerMessagePaddedSize x g + mkemEncryptionOverhead x"

definition CalculateEnvelopeReplySizeRead :: "hpqc \<Rightarrow> PGeometry \<Rightarrow> int" where
  "CalculateEnvelopeReplySizeRead x g =
     ReplicaReplyInnerMessagePaddedSize x g + (int (NonceSize x) + int (AEADOverhead x))"

definition CalculateEnvelopeReplySizeWrite :: "hpqc \<Rightarrow> PGeometry \<Rightarrow> int" where
  "CalculateEnvelopeReplySizeWrite x g = CalculateEnvelopeReplySizeRead x g"

text \<open>
  \<open>NIKEScheme\<close> looks the name up and panics on an unknown one.
\<close>

definition NIKEScheme :: "(string \<Rightarrow> nike_scheme option) \<Rightarrow> PGeometry \<Rightarrow> ('e, nike_scheme) go" where
  "NIKEScheme nikeByName g = deref (nikeByName (PNIKEName g))"

definition calculateCourierQueryLength ::
  "hpqc \<Rightarrow> (string \<Rightarrow> nike_scheme option) \<Rightarrow> PGeometry \<Rightarrow> ('e, int) go" where
  "calculateCourierQueryLength x nikeByName g =
     go_bind (NIKEScheme nikeByName g) (\<lambda>s.
       let ct = ReplicaInnerMessagePaddedSize x g + mkemEncryptionOverhead x;
           env = calculateCourierEnvelopeOverhead x ct (nikePublicKeySize s) + ct
       in Inr (env + calculateCourierQueryWrapperOverhead env s))"

definition calculateCourierQueryReplyLength :: "hpqc \<Rightarrow> PGeometry \<Rightarrow> int" where
  "calculateCourierQueryReplyLength x g =
     (let ct = ReplicaReplyInnerMessagePaddedSize x g + mkemEncryptionOverhead x;
          rep = successFieldSize + timestampFieldSize + ciphertextLenFieldSize + ct
      in errorLenFieldSize + rep)"

text \<open>The four named calculators all go through these two.\<close>

definition calculateCourierQueryReadLength ::
  "hpqc \<Rightarrow> (string \<Rightarrow> nike_scheme option) \<Rightarrow> PGeometry \<Rightarrow> ('e, int) go" where
  "calculateCourierQueryReadLength = calculateCourierQueryLength"

definition calculateCourierQueryWriteLength ::
  "hpqc \<Rightarrow> (string \<Rightarrow> nike_scheme option) \<Rightarrow> PGeometry \<Rightarrow> ('e, int) go" where
  "calculateCourierQueryWriteLength = calculateCourierQueryLength"

definition calculateCourierQueryReplyReadLength :: "hpqc \<Rightarrow> PGeometry \<Rightarrow> int" where
  "calculateCourierQueryReplyReadLength = calculateCourierQueryReplyLength"

definition calculateCourierQueryReplyWriteLength :: "hpqc \<Rightarrow> PGeometry \<Rightarrow> int" where
  "calculateCourierQueryReplyWriteLength = calculateCourierQueryReplyLength"

section \<open>Constructors\<close>

definition NewPGeometry ::
  "hpqc \<Rightarrow> (string \<Rightarrow> nike_scheme option) \<Rightarrow> int \<Rightarrow> nike_scheme \<Rightarrow> ('e, PGeometry) go" where
  "NewPGeometry x nikeByName boxPayloadLength nike =
     (let g = \<lparr>MaxPlaintextPayloadLength = boxPayloadLength, CourierQueryReadLength = 0,
               CourierQueryWriteLength = 0, CourierQueryReplyReadLength = 0,
               CourierQueryReplyWriteLength = 0, PNIKEName = nikeSchemeName nike,
               SignatureSchemeName = signatureSchemeName\<rparr> in
      go_bind (calculateCourierQueryReadLength x nikeByName g) (\<lambda>r.
      let g = g\<lparr>CourierQueryReadLength := r\<rparr> in
      go_bind (calculateCourierQueryWriteLength x nikeByName g) (\<lambda>w.
      let g = g\<lparr>CourierQueryWriteLength := w\<rparr>;
          g = g\<lparr>CourierQueryReplyReadLength := calculateCourierQueryReplyReadLength x g\<rparr>;
          g = g\<lparr>CourierQueryReplyWriteLength := calculateCourierQueryReplyWriteLength x g\<rparr>
      in Inr g)))"

datatype pgeo_err = SphinxTooSmall int int

definition sphinx_total_overhead :: "hpqc \<Rightarrow> nike_scheme \<Rightarrow> int" where
  "sphinx_total_overhead x nike =
     queryTypeSize + calculateCourierEnvelopeOverhead x 0 (nikePublicKeySize nike)
       + mkemEncryptionOverhead x + messageTypeSize + replicaWriteFixedOverhead x
       + bacapEncryptionOverhead + lengthPrefixSize + lengthPrefixSize"

definition NewGeometryFromSphinx ::
  "hpqc \<Rightarrow> (string \<Rightarrow> nike_scheme option) \<Rightarrow> Geometry \<Rightarrow> nike_scheme
     \<Rightarrow> (pgeo_err, PGeometry) go" where
  "NewGeometryFromSphinx x nikeByName sphinxGeo nike =
     (let targetSize = UserForwardPayloadLength sphinxGeo;
          totalOverhead = sphinx_total_overhead x nike;
          boxPayloadLength = targetSize - totalOverhead
      in if boxPayloadLength \<le> 0 then Inl (Err (SphinxTooSmall targetSize totalOverhead))
         else NewPGeometry x nikeByName boxPayloadLength nike)"

fun maxInt_loop :: "int \<Rightarrow> int list \<Rightarrow> int" where
  "maxInt_loop m [] = m"
| "maxInt_loop m (v # vs) = maxInt_loop (if m < v then v else m) vs"

definition maxInt :: "int list \<Rightarrow> int" where
  "maxInt values = (case values of [] \<Rightarrow> 0 | v # vs \<Rightarrow> maxInt_loop v vs)"

definition ToSphinxGeometry ::
  "(string \<Rightarrow> nike_scheme option) \<Rightarrow> PGeometry \<Rightarrow> int \<Rightarrow> bool \<Rightarrow> ('e, Geometry) go" where
  "ToSphinxGeometry nikeByName g nrHops withSURB =
     go_bind (NIKEScheme nikeByName g) (\<lambda>s.
       GeometryFromUserForwardPayloadLength s
         (maxInt [CourierQueryReadLength g, CourierQueryWriteLength g,
                  CourierQueryReplyReadLength g, CourierQueryReplyWriteLength g])
         withSURB nrHops)"

datatype pgeo_invalid =
    PGeoNil | PGeoPayloadNotPositive | PGeoNoNIKE | PGeoInvalidNIKE string | PGeoSignatureScheme

definition PGeometry_Validate ::
  "(string \<Rightarrow> nike_scheme option) \<Rightarrow> PGeometry option \<Rightarrow> (pgeo_invalid, unit) go" where
  "PGeometry_Validate nikeByName gp =
     (case gp of None \<Rightarrow> Inl (Err PGeoNil) | Some g \<Rightarrow>
       if MaxPlaintextPayloadLength g \<le> 0 then Inl (Err PGeoPayloadNotPositive)
       else if PNIKEName g = [] then Inl (Err PGeoNoNIKE)
       else go_bind (NIKEScheme nikeByName g) (\<lambda>s.
         if SignatureSchemeName g \<noteq> signatureSchemeName then Inl (Err PGeoSignatureScheme)
         else Inr ()))"

lemmas pigeonhole_layers = replicaWriteFixedOverhead_def calculateCourierEnvelopeOverhead_def
  calculateCourierQueryWrapperOverhead_def CalculateBoxCiphertextLength_def
  ReplicaInnerMessageWriteSize_def ReplicaInnerMessagePaddedSize_def
  ReplicaReplyInnerMessageReadSize_def ReplicaReplyInnerMessagePaddedSize_def
  CalculateCourierEnvelopeCiphertextSizeRead_def CalculateCourierEnvelopeCiphertextSizeWrite_def
  CalculateEnvelopeReplySizeRead_def CalculateEnvelopeReplySizeWrite_def NIKEScheme_def
  calculateCourierQueryLength_def calculateCourierQueryReplyLength_def
  calculateCourierQueryReadLength_def calculateCourierQueryWriteLength_def
  calculateCourierQueryReplyReadLength_def calculateCourierQueryReplyWriteLength_def Let_def

section \<open>Lemmas\<close>

lemma maxInt_loop_eq: "maxInt_loop m vs = Max (set (m # vs))"
proof (induction vs arbitrary: m)
  case Nil
  then show ?case by simp
next
  case (Cons v vs)
  have "Max (set (max m v # vs)) = Max (set (m # v # vs))"
    by (cases "vs = []") (simp_all add: max.assoc)
  with Cons [of "max m v"] show ?case by (auto simp: max_def)
qed

lemma maxInt_eq: "vs \<noteq> [] \<Longrightarrow> maxInt vs = Max (set vs)"
  by (cases vs) (auto simp del: set_simps simp add: maxInt_def maxInt_loop_eq)

lemma NewPGeometry_Inr:
  assumes "nikeByName (nikeSchemeName nike) = Some s"
  shows "\<exists>g. NewPGeometry x nikeByName n nike = Inr g
    \<and> MaxPlaintextPayloadLength g = n \<and> PNIKEName g = nikeSchemeName nike
    \<and> SignatureSchemeName g = signatureSchemeName
    \<and> CourierQueryReadLength g = CourierQueryWriteLength g
    \<and> CourierQueryReplyReadLength g = CourierQueryReplyWriteLength g
    \<and> CourierQueryWriteLength g =
        n + sphinx_total_overhead x (nike\<lparr>nikePublicKeySize := nikePublicKeySize s\<rparr>)
    \<and> CourierQueryReplyReadLength g = errorLenFieldSize + successFieldSize + timestampFieldSize
        + ciphertextLenFieldSize + CalculateEnvelopeReplySizeRead x g"
  using assms
  by (simp add: NewPGeometry_def pigeonhole_layers sphinx_total_overhead_def pigeonhole_sizes)

text \<open>
  C26. Deriving a Pigeonhole geometry from a Sphinx geometry is exact: when the packet is large
  enough, the largest query the geometry admits, a CourierQuery carrying a write (and the equally
  long one carrying a read), fills the Sphinx payload to the byte, and the Box payload is positive;
  when it is too small, the error reports the sizes and no geometry is made.
\<close>

theorem NewGeometryFromSphinx_exact:
  assumes reg: "nikeByName (nikeSchemeName nike) = Some nike"
  shows "if UserForwardPayloadLength sg \<le> sphinx_total_overhead x nike
     then NewGeometryFromSphinx x nikeByName sg nike =
            Inl (Err (SphinxTooSmall (UserForwardPayloadLength sg) (sphinx_total_overhead x nike)))
     else \<exists>g. NewGeometryFromSphinx x nikeByName sg nike = Inr g
            \<and> 0 < MaxPlaintextPayloadLength g
            \<and> CourierQueryWriteLength g = UserForwardPayloadLength sg
            \<and> CourierQueryReadLength g = CourierQueryWriteLength g
            \<and> PGeometry_Validate nikeByName (Some g) = (if nikeSchemeName nike = []
                then Inl (Err PGeoNoNIKE) else Inr ())"
proof (cases "UserForwardPayloadLength sg \<le> sphinx_total_overhead x nike")
  case True
  then show ?thesis by (simp add: NewGeometryFromSphinx_def Let_def)
next
  case False
  let ?n = "UserForwardPayloadLength sg - sphinx_total_overhead x nike"
  obtain g where g: "(NewPGeometry x nikeByName ?n nike :: (pgeo_err, PGeometry) go) = Inr g"
      "MaxPlaintextPayloadLength g = ?n" "PNIKEName g = nikeSchemeName nike"
      "SignatureSchemeName g = signatureSchemeName"
      "CourierQueryReadLength g = CourierQueryWriteLength g"
      "CourierQueryWriteLength g = UserForwardPayloadLength sg"
    using NewPGeometry_Inr [of nikeByName nike nike x ?n, OF reg] by auto
  have "PGeometry_Validate nikeByName (Some g) =
      (if nikeSchemeName nike = [] then Inl (Err PGeoNoNIKE) else Inr ())"
    using False reg g(2-4) by (simp add: PGeometry_Validate_def NIKEScheme_def)
  moreover have "NewGeometryFromSphinx x nikeByName sg nike = Inr g"
    using False g(1) by (simp add: NewGeometryFromSphinx_def Let_def)
  moreover have "0 < MaxPlaintextPayloadLength g" using False g(2) by simp
  ultimately show ?thesis using False g(5,6) by simp
qed

definition hpqc_sizes :: hpqc where
  "hpqc_sizes = \<lparr>BoxIDSize = 32, SignatureSize = 64, DEKSize = 60, NonceSize = 24, AEADOverhead = 16\<rparr>"

theorem NewGeometryFromSphinx_exact_witness:
  "\<exists>sg g. (GeometryFromUserForwardPayloadLength x25519 2000 True 5 :: (geo_err, Geometry) go) = Inr sg
    \<and> NewGeometryFromSphinx hpqc_sizes (\<lambda>n. Some x25519) sg x25519 = Inr g
    \<and> CourierQueryWriteLength g = 2000"
proof -
  obtain sg where sg: "(GeometryFromUserForwardPayloadLength x25519 2000 True 5 :: (geo_err, Geometry) go) = Inr sg"
      "UserForwardPayloadLength sg = 2000"
    by (simp add: GeometryFromUserForwardPayloadLength_def geo_factory_defs)
  have "sphinx_total_overhead hpqc_sizes x25519 < 2000"
    by (simp add: sphinx_total_overhead_def pigeonhole_layers pigeonhole_sizes hpqc_sizes_def x25519_def)
  with sg NewGeometryFromSphinx_exact [of "\<lambda>n. Some x25519" x25519 sg hpqc_sizes]
  show ?thesis by (auto split: if_splits)
qed

text \<open>
  Going back, \<open>ToSphinxGeometry\<close> makes room for every message of the geometry: the user
  payload of the resulting packets is at least each of the four query and reply lengths.
\<close>

theorem ToSphinxGeometry_accommodates:
  assumes "ToSphinxGeometry nikeByName g nrHops withSURB = Inr sg"
  shows "CourierQueryReadLength g \<le> UserForwardPayloadLength sg
    \<and> CourierQueryWriteLength g \<le> UserForwardPayloadLength sg
    \<and> CourierQueryReplyReadLength g \<le> UserForwardPayloadLength sg
    \<and> CourierQueryReplyWriteLength g \<le> UserForwardPayloadLength sg"
proof -
  have "UserForwardPayloadLength sg = Max (set [CourierQueryReadLength g,
      CourierQueryWriteLength g, CourierQueryReplyReadLength g, CourierQueryReplyWriteLength g])"
    using assms
    by (auto simp: ToSphinxGeometry_def go_simps GeometryFromUserForwardPayloadLength_def
        geo_factory_defs maxInt_eq split: if_splits)
  then show ?thesis by (simp del: Max_insert add: Max_ge)
qed

theorem ToSphinxGeometry_accommodates_witness:
  "\<exists>g sg. (NewPGeometry hpqc_sizes (\<lambda>n. Some x25519) 1000 x25519 :: (geo_err, PGeometry) go) = Inr g
    \<and> (ToSphinxGeometry (\<lambda>n. Some x25519) g 5 True :: (geo_err, Geometry) go) = Inr sg
    \<and> CourierQueryWriteLength g \<le> UserForwardPayloadLength sg"
proof -
  obtain g where g: "(NewPGeometry hpqc_sizes (\<lambda>n. Some x25519) 1000 x25519
      :: (geo_err, PGeometry) go) = Inr g"
    using NewPGeometry_Inr [of "\<lambda>n. Some x25519" x25519 x25519 hpqc_sizes 1000] by blast
  obtain sg where sg: "(ToSphinxGeometry (\<lambda>n. Some x25519) g 5 True
      :: (geo_err, Geometry) go) = Inr sg"
    using nike_geometry_total by (fastforce simp: ToSphinxGeometry_def NIKEScheme_def)
  from g sg ToSphinxGeometry_accommodates [OF sg] show ?thesis by blast
qed

end
