(* ===== verification/WireTypes.thy ===== *)
theory WireTypes
  imports PigeonholeGeometry
begin

text \<open>
  The data of the link protocol, core/wire/commands: command identifiers and fixed lengths
  (constants.go), the \<open>Commands\<close> set a session is built with (commands.go), and the command
  structures of the four files as the constructors of one datatype, the \<open>Command\<close> interface.

  A field of pointer type is an option (nil is \<open>None\<close>); a nil byte slice and an empty one are
  the empty list. The PKI signature schemes come from hpqc: \<open>sign_scheme\<close> holds the three
  operations the package calls. The two command lists a set is built from are only read by its
  constructor, which takes their longest element; they are local to the constructors here.
\<close>

section \<open>Identifiers and lengths (constants.go)\<close>

definition cmdOverhead :: nat where "cmdOverhead = 1 + 1 + 4"

definition retreiveMessageLength :: nat where "retreiveMessageLength = 4"
definition messageBaseLength :: nat where "messageBaseLength = 4"
definition getConsensusLength :: nat where "getConsensusLength = 8"
definition consensusBaseLength :: nat where "consensusBaseLength = 1"
definition consensus2BaseLength :: nat where "consensus2BaseLength = 1 + 4 + 4"
definition postDescriptorStatusLength :: nat where "postDescriptorStatusLength = 1"
definition postDescriptorLength :: nat where "postDescriptorLength = 8"
definition certStatusLength :: nat where "certStatusLength = 1"
definition revealStatusLength :: nat where "revealStatusLength = 1"
definition sigStatusLength :: nat where "sigStatusLength = 1"
definition voteStatusLength :: nat where "voteStatusLength = 1"
definition replicaMessageReplyLength :: nat where "replicaMessageReplyLength = 1"
definition replicaWriteReplyLength :: nat where "replicaWriteReplyLength = 1"
definition messageDeliveredLength :: nat where "messageDeliveredLength = 4"

lemmas wire_lengths [simp] = cmdOverhead_def retreiveMessageLength_def messageBaseLength_def
  getConsensusLength_def consensusBaseLength_def consensus2BaseLength_def
  postDescriptorStatusLength_def postDescriptorLength_def certStatusLength_def
  revealStatusLength_def sigStatusLength_def voteStatusLength_def
  replicaMessageReplyLength_def replicaWriteReplyLength_def messageDeliveredLength_def

datatype commandID =
    id_noOp | id_disconnect | id_sendPacket | id_sendRetrievePacket | id_sendRetrievePacketReply
  | id_messageDelivered | id_replicaMessage | id_replicaMessageReply
  | id_postReplicaDescriptorStatus | id_postReplicaDescriptor | id_replicaWrite
  | id_replicaWriteReply | id_retreiveMessage | id_message | id_getConsensus | id_consensus
  | id_postDescriptor | id_postDescriptorStatus | id_vote | id_voteStatus | id_getVote
  | id_reveal | id_revealStatus | id_sig | id_sigStatus | id_certificate | id_certStatus
  | id_consensus2 | id_getConsensus2 | id_replicaDecoy

text \<open>The byte of each identifier, and the identifier of a byte, if it has one.\<close>

fun id_byte :: "commandID \<Rightarrow> byte" where
  "id_byte id_noOp = 0"
| "id_byte id_disconnect = 1"
| "id_byte id_sendPacket = 2"
| "id_byte id_sendRetrievePacket = 3"
| "id_byte id_sendRetrievePacketReply = 4"
| "id_byte id_messageDelivered = 5"
| "id_byte id_replicaMessage = 8"
| "id_byte id_replicaMessageReply = 9"
| "id_byte id_postReplicaDescriptorStatus = 10"
| "id_byte id_postReplicaDescriptor = 11"
| "id_byte id_replicaWrite = 12"
| "id_byte id_replicaWriteReply = 13"
| "id_byte id_retreiveMessage = 16"
| "id_byte id_message = 17"
| "id_byte id_getConsensus = 18"
| "id_byte id_consensus = 19"
| "id_byte id_postDescriptor = 20"
| "id_byte id_postDescriptorStatus = 21"
| "id_byte id_vote = 22"
| "id_byte id_voteStatus = 23"
| "id_byte id_getVote = 24"
| "id_byte id_reveal = 25"
| "id_byte id_revealStatus = 26"
| "id_byte id_sig = 27"
| "id_byte id_sigStatus = 28"
| "id_byte id_certificate = 29"
| "id_byte id_certStatus = 30"
| "id_byte id_consensus2 = 31"
| "id_byte id_getConsensus2 = 32"
| "id_byte id_replicaDecoy = 33"

definition all_ids :: "commandID list" where
  "all_ids = [id_noOp, id_disconnect, id_sendPacket, id_sendRetrievePacket,
     id_sendRetrievePacketReply, id_messageDelivered, id_replicaMessage, id_replicaMessageReply,
     id_postReplicaDescriptorStatus, id_postReplicaDescriptor, id_replicaWrite,
     id_replicaWriteReply, id_retreiveMessage, id_message, id_getConsensus, id_consensus,
     id_postDescriptor, id_postDescriptorStatus, id_vote, id_voteStatus, id_getVote, id_reveal,
     id_revealStatus, id_sig, id_sigStatus, id_certificate, id_certStatus, id_consensus2,
     id_getConsensus2, id_replicaDecoy]"

definition byte_id :: "byte \<Rightarrow> commandID option" where
  "byte_id v = find (\<lambda>i. id_byte i = v) all_ids"

lemma byte_id_id_byte [simp]: "byte_id (id_byte i) = Some i"
  by (cases i) (simp_all add: byte_id_def all_ids_def)

lemma set_all_ids: "i \<in> set all_ids"
  by (cases i) (simp_all add: all_ids_def)

lemma byte_id_Some_iff: "byte_id v = Some i \<longleftrightarrow> v = id_byte i"
  by (auto simp: byte_id_def find_Some_iff)
    (metis byte_id_def byte_id_id_byte find_Some_iff)

section \<open>Schemes, command sets, commands\<close>

record 'pk sign_scheme =
  PublicKeySize :: nat
  UnmarshalBinaryPublicKey :: "bytes \<Rightarrow> 'pk option"
  MarshalBinary :: "'pk \<Rightarrow> bytes option"

text \<open>A \<open>sign.PublicKey\<close> value knows its scheme.\<close>

record 'pk sign_pubkey =
  pkScheme :: "'pk sign_scheme"
  pkKey :: 'pk

record 'pk Commands =
  cgeo :: "Geometry option"
  pkiSignatureScheme :: "'pk sign_scheme option"
  replicaNikeScheme :: "nike_scheme option"
  MaxMessageLenServerToClient :: int
  MaxMessageLenClientToServer :: int
  shouldPad :: bool

type_synonym 'pk cmds = "'pk Commands option"

datatype 'pk Command =
    NoOp "'pk cmds"
  | Disconnect "'pk cmds"
  | SendRetrievePacket "Geometry option" "'pk cmds" bytes
  | SendRetrievePacketReply "'pk cmds" "Geometry option" bytes bytes
  | SendPacket bytes "'pk cmds"
  | RetrieveMessage u32 "'pk cmds"
  | MessageDelivered u32 "'pk cmds"
  | Message "Geometry option" "'pk cmds" u32 bytes bytes
  | GetConsensus2 "'pk cmds" u64
  | Consensus2 "'pk cmds" byte u32 u32 bytes
  | PostReplicaDescriptorStatus byte
  | PostReplicaDescriptor u64 bytes
  | GetConsensus u64 "'pk cmds" bool
  | GetVote "'pk cmds" u64 "'pk sign_pubkey"
  | Consensus byte bytes
  | PostDescriptor u64 bytes
  | PostDescriptorStatus byte
  | Reveal u64 "'pk sign_pubkey" bytes
  | RevealStatus byte
  | Vote u64 "'pk sign_pubkey" bytes
  | VoteStatus byte
  | Cert u64 "'pk sign_pubkey" bytes
  | CertStatus byte
  | Sig u64 "'pk sign_pubkey" bytes
  | SigStatus byte
  | ReplicaWrite "'pk cmds" "PGeometry option" "bytes option" "bytes option" bytes
  | ReplicaWriteReply "'pk cmds" byte
  | ReplicaDecoy "'pk cmds"
  | ReplicaMessage "'pk cmds" "PGeometry option" "nike_scheme option" bytes "bytes option" bytes
  | ReplicaMessageReply "'pk cmds" "PGeometry option" byte "bytes option" byte bytes

datatype wire_err =
    errInvalidCommand      \<comment> \<open>wire: invalid wire protocol command\<close>
  | errWtfInvalidCommand   \<comment> \<open>the error the Reveal and RevealStatus parsers make\<close>
  | errMessageTooShort     \<comment> \<open>the error of the ReplicaMessage parser\<close>
  | errUnmarshalPublicKey  \<comment> \<open>whatever the scheme's UnmarshalBinaryPublicKey returned\<close>

text \<open>
  \<open>padToMaxCommandSize\<close>. It is called through the command's \<open>Cmds\<close> pointer, and reads a field
  of it first, so a nil pointer panics.
\<close>

definition padToMaxCommandSize :: "'pk cmds \<Rightarrow> bytes \<Rightarrow> bool \<Rightarrow> (wire_err, bytes) go" where
  "padToMaxCommandSize cp data isUpstream =
     go_bind (deref cp) (\<lambda>c.
       if \<not> shouldPad c then Inr data
       else let maxMessageLen = (if isUpstream then MaxMessageLenClientToServer c
                                 else MaxMessageLenServerToClient c);
                paddingSize = maxMessageLen - int (length data)
            in if maxMessageLen = 0 then Inr data
               else if paddingSize \<le> 0 then Inr data
               else Inr (data @ replicate (nat paddingSize) 0))"

text \<open>The common header: identifier, reserved zero byte, 32-bit length.\<close>

definition cmd_header :: "commandID \<Rightarrow> u32 \<Rightarrow> bytes" where
  "cmd_header i n = [id_byte i, 0] @ put32 n"

text \<open>\<open>uint32(n)\<close> of a length.\<close>

definition u32_of :: "nat \<Rightarrow> u32" where "u32_of n = word_of_nat n"

lemma length_cmd_header [simp, codec_simps]: "length (cmd_header i n) = 6"
  by (simp add: cmd_header_def)

lemma be_enc_zero: "be_enc n 0 = replicate n 0"
  by (induction n) simp_all

lemma cmd_header_0: "cmd_header i 0 = [id_byte i, 0, 0, 0, 0, 0]"
  by (simp add: cmd_header_def put32_def be_enc_zero eval_nat_numeral)

lemma unat_u32_of: "n < 2 ^ 32 \<Longrightarrow> unat (u32_of n) = n"
  by (simp add: u32_of_def unat_of_nat)

end
