(* ===== verification/WireEncode.thy ===== *)
theory WireEncode
  imports WireTypes
begin

text \<open>
  Serialisation of the link commands: \<open>ToBytes\<close> and \<open>Length\<close> of every command structure of
  core/wire/commands, and the three constructors of command sets (commands.go), which size the
  padding from the longest command of each direction.
\<close>

section \<open>commands.go\<close>

definition NoOp_ToBytes :: "'pk cmds \<Rightarrow> (wire_err, bytes) go" where
  "NoOp_ToBytes cmds = padToMaxCommandSize cmds (cmd_header id_noOp 0) True"

definition NoOp_Length :: int where "NoOp_Length = int cmdOverhead"

definition Disconnect_ToBytes :: "'pk cmds \<Rightarrow> (wire_err, bytes) go" where
  "Disconnect_ToBytes cmds = padToMaxCommandSize cmds (cmd_header id_disconnect 0) True"

definition Disconnect_Length :: int where "Disconnect_Length = int cmdOverhead"

definition SendRetrievePacket_ToBytes ::
  "Geometry option \<Rightarrow> 'pk cmds \<Rightarrow> bytes \<Rightarrow> (wire_err, bytes) go" where
  "SendRetrievePacket_ToBytes gp cmds pkt =
     go_bind (deref gp) (\<lambda>g.
       if int (length pkt) \<noteq> PacketLength g then Inl Panic
       else padToMaxCommandSize cmds
              (cmd_header id_sendRetrievePacket (u32_of (length pkt)) @ pkt) True)"

definition SendRetrievePacket_Length :: "Geometry option \<Rightarrow> (wire_err, int) go" where
  "SendRetrievePacket_Length gp =
     go_bind (deref gp) (\<lambda>g. Inr (int cmdOverhead + PacketLength g))"

definition SendRetrievePacketReply_ToBytes ::
  "'pk cmds \<Rightarrow> bytes \<Rightarrow> bytes \<Rightarrow> (wire_err, bytes) go" where
  "SendRetrievePacketReply_ToBytes cmds surbid payload =
     padToMaxCommandSize cmds
       (cmd_header id_sendRetrievePacketReply (u32_of (SURBIDLength + length payload))
          @ copy_into SURBIDLength surbid @ payload) False"

definition SendRetrievePacketReply_Length :: "Geometry option \<Rightarrow> (wire_err, int) go" where
  "SendRetrievePacketReply_Length gp =
     go_bind (deref gp)
       (\<lambda>g. Inr (int cmdOverhead + int SURBIDLength + UserForwardPayloadLength g))"

section \<open>old_client_commands.go\<close>

definition messageLength :: nat where "messageLength = messageBaseLength + SURBIDLength"

definition SendPacket_ToBytes :: "bytes \<Rightarrow> 'pk cmds \<Rightarrow> (wire_err, bytes) go" where
  "SendPacket_ToBytes pkt cmds =
     padToMaxCommandSize cmds (cmd_header id_sendPacket (u32_of (length pkt)) @ pkt) True"

definition SendPacket_Length :: "'pk cmds \<Rightarrow> (wire_err, int) go" where
  "SendPacket_Length cmds =
     go_bind (deref cmds) (\<lambda>c. go_bind (deref (cgeo c))
       (\<lambda>g. Inr (int cmdOverhead + PacketLength g)))"

definition RetrieveMessage_ToBytes :: "u32 \<Rightarrow> 'pk cmds \<Rightarrow> (wire_err, bytes) go" where
  "RetrieveMessage_ToBytes seq cmds =
     padToMaxCommandSize cmds
       (cmd_header id_retreiveMessage (u32_of retreiveMessageLength) @ put32 seq) True"

definition RetrieveMessage_Length :: int where "RetrieveMessage_Length = int cmdOverhead + 4"

definition MessageDelivered_ToBytes :: "u32 \<Rightarrow> 'pk cmds \<Rightarrow> (wire_err, bytes) go" where
  "MessageDelivered_ToBytes seq cmds =
     padToMaxCommandSize cmds
       (cmd_header id_messageDelivered (u32_of messageDeliveredLength) @ put32 seq) True"

definition MessageDelivered_Length :: int where
  "MessageDelivered_Length = int cmdOverhead + int messageDeliveredLength"

definition Message_ToBytes ::
  "Geometry option \<Rightarrow> 'pk cmds \<Rightarrow> u32 \<Rightarrow> bytes \<Rightarrow> bytes \<Rightarrow> (wire_err, bytes) go" where
  "Message_ToBytes gp cmds seq surbid payload =
     go_bind (deref gp) (\<lambda>g.
       if int (length payload) \<noteq> PayloadTagLength g + ForwardPayloadLength g then Inl Panic
       else padToMaxCommandSize cmds
              (cmd_header id_message (u32_of (messageLength + length payload))
                 @ put32 seq @ copy_into SURBIDLength surbid @ payload) False)"

definition Message_Length :: "Geometry option \<Rightarrow> (wire_err, int) go" where
  "Message_Length gp =
     go_bind (deref gp) (\<lambda>g. Inr (int cmdOverhead + 4 + int SURBIDLength + PacketLength g))"

section \<open>pki_commands.go\<close>

definition GetConsensus2_ToBytes :: "'pk cmds \<Rightarrow> u64 \<Rightarrow> (wire_err, bytes) go" where
  "GetConsensus2_ToBytes cmds epoch =
     padToMaxCommandSize cmds
       (cmd_header id_getConsensus2 (u32_of getConsensusLength) @ put64 epoch) True"

definition GetConsensus2_Length :: int where
  "GetConsensus2_Length = int cmdOverhead + int getConsensusLength"

definition Consensus2_ToBytes ::
  "'pk cmds \<Rightarrow> byte \<Rightarrow> u32 \<Rightarrow> u32 \<Rightarrow> bytes \<Rightarrow> (wire_err, bytes) go" where
  "Consensus2_ToBytes cmds err chunkNum chunkTotal payload =
     padToMaxCommandSize cmds
       (cmd_header id_consensus2 (u32_of (consensus2BaseLength + length payload))
          @ [err] @ put32 chunkNum @ put32 chunkTotal @ payload) False"

definition PostReplicaDescriptorStatus_ToBytes :: "byte \<Rightarrow> (wire_err, bytes) go" where
  "PostReplicaDescriptorStatus_ToBytes err =
     Inr (cmd_header id_postReplicaDescriptorStatus (u32_of postDescriptorStatusLength) @ [err])"

definition PostReplicaDescriptor_ToBytes :: "u64 \<Rightarrow> bytes \<Rightarrow> (wire_err, bytes) go" where
  "PostReplicaDescriptor_ToBytes epoch payload =
     Inr (cmd_header id_postReplicaDescriptor (u32_of postDescriptorLength + u32_of (length payload))
            @ put64 epoch @ payload)"

definition voteOverhead :: "'pk sign_scheme \<Rightarrow> nat" where
  "voteOverhead scheme = 8 + PublicKeySize scheme"
definition revealOverhead :: "'pk sign_scheme \<Rightarrow> nat" where
  "revealOverhead scheme = 8 + PublicKeySize scheme"
definition certOverhead :: "'pk sign_scheme \<Rightarrow> nat" where
  "certOverhead scheme = 8 + PublicKeySize scheme"
definition sigOverhead :: "'pk sign_scheme \<Rightarrow> nat" where
  "sigOverhead scheme = 8 + PublicKeySize scheme"

lemmas wire_overheads [simp] = voteOverhead_def revealOverhead_def certOverhead_def sigOverhead_def

definition GetConsensus_ToBytes :: "u64 \<Rightarrow> 'pk cmds \<Rightarrow> bool \<Rightarrow> (wire_err, bytes) go" where
  "GetConsensus_ToBytes epoch cmds mixnetTransmission =
     (let out = cmd_header id_getConsensus (u32_of getConsensusLength) @ put64 epoch
      in if mixnetTransmission then padToMaxCommandSize cmds out True else Inr out)"

definition GetConsensus_Length :: int where
  "GetConsensus_Length = int cmdOverhead + int getConsensusLength"

text \<open>\<open>MarshalBinary\<close> of a public key; the callers panic when it fails.\<close>

definition marshal_key :: "'pk sign_pubkey \<Rightarrow> (wire_err, bytes) go" where
  "marshal_key pk = deref (MarshalBinary (pkScheme pk) (pkKey pk))"

definition GetVote_ToBytes :: "u64 \<Rightarrow> 'pk sign_pubkey \<Rightarrow> (wire_err, bytes) go" where
  "GetVote_ToBytes epoch pk =
     go_bind (marshal_key pk) (\<lambda>blob.
       Inr (cmd_header id_getVote (u32_of (voteOverhead (pkScheme pk))) @ put64 epoch @ blob))"

definition GetVote_Length :: "'pk cmds \<Rightarrow> (wire_err, int) go" where
  "GetVote_Length cmds =
     go_bind (deref cmds) (\<lambda>c. go_bind (deref (pkiSignatureScheme c))
       (\<lambda>s. Inr (int cmdOverhead + 8 + int (PublicKeySize s))))"

definition Consensus_ToBytes :: "byte \<Rightarrow> bytes \<Rightarrow> (wire_err, bytes) go" where
  "Consensus_ToBytes err payload =
     Inr (cmd_header id_consensus (u32_of (consensusBaseLength + length payload)) @ [err] @ payload)"

definition PostDescriptor_ToBytes :: "u64 \<Rightarrow> bytes \<Rightarrow> (wire_err, bytes) go" where
  "PostDescriptor_ToBytes epoch payload =
     Inr (cmd_header id_postDescriptor (u32_of postDescriptorLength + u32_of (length payload))
            @ put64 epoch @ payload)"

definition PostDescriptorStatus_ToBytes :: "byte \<Rightarrow> (wire_err, bytes) go" where
  "PostDescriptorStatus_ToBytes err =
     Inr (cmd_header id_postDescriptorStatus (u32_of postDescriptorStatusLength) @ [err])"

definition Reveal_ToBytes :: "u64 \<Rightarrow> 'pk sign_pubkey \<Rightarrow> bytes \<Rightarrow> (wire_err, bytes) go" where
  "Reveal_ToBytes epoch pk payload =
     go_bind (marshal_key pk) (\<lambda>blob.
       Inr (cmd_header id_reveal (u32_of (revealOverhead (pkScheme pk) + length payload))
              @ put64 epoch @ copy_into (PublicKeySize (pkScheme pk)) blob @ payload))"

definition RevealStatus_ToBytes :: "byte \<Rightarrow> (wire_err, bytes) go" where
  "RevealStatus_ToBytes err =
     Inr (cmd_header id_revealStatus (u32_of revealStatusLength) @ [err])"

definition Vote_ToBytes :: "u64 \<Rightarrow> 'pk sign_pubkey \<Rightarrow> bytes \<Rightarrow> (wire_err, bytes) go" where
  "Vote_ToBytes epoch pk payload =
     go_bind (marshal_key pk) (\<lambda>blob.
       Inr (cmd_header id_vote (u32_of (voteOverhead (pkScheme pk) + length payload))
              @ put64 epoch @ blob @ payload))"

definition VoteStatus_ToBytes :: "byte \<Rightarrow> (wire_err, bytes) go" where
  "VoteStatus_ToBytes err =
     Inr (cmd_header id_voteStatus (u32_of voteStatusLength) @ [err])"

definition Cert_ToBytes :: "u64 \<Rightarrow> 'pk sign_pubkey \<Rightarrow> bytes \<Rightarrow> (wire_err, bytes) go" where
  "Cert_ToBytes epoch pk payload =
     go_bind (marshal_key pk) (\<lambda>blob.
       Inr (cmd_header id_certificate (u32_of (certOverhead (pkScheme pk) + length payload))
              @ put64 epoch @ blob @ payload))"

definition CertStatus_ToBytes :: "byte \<Rightarrow> (wire_err, bytes) go" where
  "CertStatus_ToBytes err =
     Inr (cmd_header id_certStatus (u32_of certStatusLength) @ [err])"

definition Sig_ToBytes :: "u64 \<Rightarrow> 'pk sign_pubkey \<Rightarrow> bytes \<Rightarrow> (wire_err, bytes) go" where
  "Sig_ToBytes epoch pk payload =
     go_bind (marshal_key pk) (\<lambda>blob.
       Inr (cmd_header id_sig (u32_of (sigOverhead (pkScheme pk) + length payload))
              @ put64 epoch @ blob @ payload))"

definition SigStatus_ToBytes :: "byte \<Rightarrow> (wire_err, bytes) go" where
  "SigStatus_ToBytes err =
     Inr (cmd_header id_sigStatus (u32_of sigStatusLength) @ [err])"

section \<open>storage_replica_commands.go\<close>

text \<open>Padding that is skipped for a nil \<open>Cmds\<close>, as the replica commands do it.\<close>

definition pad_unless_nil :: "'pk cmds \<Rightarrow> bytes \<Rightarrow> bool \<Rightarrow> (wire_err, bytes) go" where
  "pad_unless_nil cmds out isUpstream =
     (case cmds of None \<Rightarrow> Inr out | Some c \<Rightarrow> padToMaxCommandSize (Some c) out isUpstream)"

definition HybridKeySize :: "nike_scheme option \<Rightarrow> (wire_err, int) go" where
  "HybridKeySize sp = go_bind (deref sp) (\<lambda>s. Inr (nikePublicKeySize s))"

definition ReplicaWrite_ToBytes ::
  "hpqc \<Rightarrow> 'pk cmds \<Rightarrow> bytes option \<Rightarrow> bytes option \<Rightarrow> bytes \<Rightarrow> (wire_err, bytes) go" where
  "ReplicaWrite_ToBytes x cmds boxID signature payload =
     go_bind (deref boxID) (\<lambda>b. go_bind (deref signature) (\<lambda>s.
       pad_unless_nil cmds
         (cmd_header id_replicaWrite (u32_of (BoxIDSize x + SignatureSize x + length payload))
            @ b @ s @ payload) True))"

definition ReplicaWrite_Length :: "hpqc \<Rightarrow> PGeometry option \<Rightarrow> bytes \<Rightarrow> int" where
  "ReplicaWrite_Length x pg payload =
     (let payloadSize = (case pg of Some g \<Rightarrow> CalculateBoxCiphertextLength g
                                  | None \<Rightarrow> int (length payload))
      in int cmdOverhead + int (BoxIDSize x) + int (SignatureSize x) + payloadSize)"

definition ReplicaWriteReply_ToBytes :: "'pk cmds \<Rightarrow> byte \<Rightarrow> (wire_err, bytes) go" where
  "ReplicaWriteReply_ToBytes cmds err =
     pad_unless_nil cmds
       (cmd_header id_replicaWriteReply (u32_of replicaWriteReplyLength) @ [err]) True"

definition ReplicaWriteReply_Length :: int where
  "ReplicaWriteReply_Length = int cmdOverhead + int replicaWriteReplyLength"

definition ReplicaDecoy_ToBytes :: "'pk cmds \<Rightarrow> (wire_err, bytes) go" where
  "ReplicaDecoy_ToBytes cmds = pad_unless_nil cmds (cmd_header id_replicaDecoy 0) True"

definition ReplicaDecoy_Length :: int where "ReplicaDecoy_Length = int cmdOverhead"

text \<open>\<open>EnvelopeHash\<close>: the BLAKE2b-256 hash \<open>H\<close> over the sender key and the ciphertext.\<close>

definition ReplicaMessage_EnvelopeHash :: "(bytes \<Rightarrow> bytes) \<Rightarrow> bytes \<Rightarrow> bytes \<Rightarrow> bytes" where
  "ReplicaMessage_EnvelopeHash H senderEPubKey ciphertext =
     copy_into 32 (H (senderEPubKey @ ciphertext))"

definition ReplicaMessage_ToBytes ::
  "hpqc \<Rightarrow> 'pk cmds \<Rightarrow> bytes \<Rightarrow> bytes option \<Rightarrow> bytes \<Rightarrow> (wire_err, bytes) go" where
  "ReplicaMessage_ToBytes x cmds senderEPubKey dek ciphertext =
     (case dek of None \<Rightarrow> Inl Panic | Some d \<Rightarrow>
       padToMaxCommandSize cmds
         (cmd_header id_replicaMessage
            (u32_of (length senderEPubKey + DEKSize x + length ciphertext))
          @ senderEPubKey @ d @ ciphertext) True)"

definition ReplicaMessage_Length ::
  "hpqc \<Rightarrow> PGeometry option \<Rightarrow> nike_scheme option \<Rightarrow> (wire_err, int) go" where
  "ReplicaMessage_Length x pg scheme =
     go_bind (deref pg) (\<lambda>g. go_bind (HybridKeySize scheme) (\<lambda>hk.
       Inr (int cmdOverhead + int (DEKSize x) + hk
              + CalculateCourierEnvelopeCiphertextSizeWrite x g)))"

definition ReplicaMessageReply_ToBytes ::
  "'pk cmds \<Rightarrow> byte \<Rightarrow> bytes option \<Rightarrow> byte \<Rightarrow> bytes \<Rightarrow> (wire_err, bytes) go" where
  "ReplicaMessageReply_ToBytes cmds err envelopeHash replicaID reply =
     go_bind (deref envelopeHash) (\<lambda>h.
       pad_unless_nil cmds
         (cmd_header id_replicaMessageReply (u32_of (1 + 32 + 1 + length reply))
            @ [err] @ h @ [replicaID] @ reply) False)"

definition ReplicaMessageReply_Length :: "hpqc \<Rightarrow> PGeometry option \<Rightarrow> (wire_err, int) go" where
  "ReplicaMessageReply_Length x pg =
     go_bind (deref pg) (\<lambda>g. Inr (int cmdOverhead + 1 + 32 + 1 + CalculateEnvelopeReplySizeRead x g))"

section \<open>The Command interface\<close>

fun ToBytes :: "hpqc \<Rightarrow> 'pk Command \<Rightarrow> (wire_err, bytes) go" where
  "ToBytes x (NoOp c) = NoOp_ToBytes c"
| "ToBytes x (Disconnect c) = Disconnect_ToBytes c"
| "ToBytes x (SendRetrievePacket g c p) = SendRetrievePacket_ToBytes g c p"
| "ToBytes x (SendRetrievePacketReply c g s p) = SendRetrievePacketReply_ToBytes c s p"
| "ToBytes x (SendPacket p c) = SendPacket_ToBytes p c"
| "ToBytes x (RetrieveMessage q c) = RetrieveMessage_ToBytes q c"
| "ToBytes x (MessageDelivered q c) = MessageDelivered_ToBytes q c"
| "ToBytes x (Message g c q s p) = Message_ToBytes g c q s p"
| "ToBytes x (GetConsensus2 c e) = GetConsensus2_ToBytes c e"
| "ToBytes x (Consensus2 c e n t p) = Consensus2_ToBytes c e n t p"
| "ToBytes x (PostReplicaDescriptorStatus e) = PostReplicaDescriptorStatus_ToBytes e"
| "ToBytes x (PostReplicaDescriptor e p) = PostReplicaDescriptor_ToBytes e p"
| "ToBytes x (GetConsensus e c m) = GetConsensus_ToBytes e c m"
| "ToBytes x (GetVote c e k) = GetVote_ToBytes e k"
| "ToBytes x (Consensus e p) = Consensus_ToBytes e p"
| "ToBytes x (PostDescriptor e p) = PostDescriptor_ToBytes e p"
| "ToBytes x (PostDescriptorStatus e) = PostDescriptorStatus_ToBytes e"
| "ToBytes x (Reveal e k p) = Reveal_ToBytes e k p"
| "ToBytes x (RevealStatus e) = RevealStatus_ToBytes e"
| "ToBytes x (Vote e k p) = Vote_ToBytes e k p"
| "ToBytes x (VoteStatus e) = VoteStatus_ToBytes e"
| "ToBytes x (Cert e k p) = Cert_ToBytes e k p"
| "ToBytes x (CertStatus e) = CertStatus_ToBytes e"
| "ToBytes x (Sig e k p) = Sig_ToBytes e k p"
| "ToBytes x (SigStatus e) = SigStatus_ToBytes e"
| "ToBytes x (ReplicaWrite c g b s p) = ReplicaWrite_ToBytes x c b s p"
| "ToBytes x (ReplicaWriteReply c e) = ReplicaWriteReply_ToBytes c e"
| "ToBytes x (ReplicaDecoy c) = ReplicaDecoy_ToBytes c"
| "ToBytes x (ReplicaMessage c g n k d t) = ReplicaMessage_ToBytes x c k d t"
| "ToBytes x (ReplicaMessageReply c g e h i r) = ReplicaMessageReply_ToBytes c e h i r"

fun Command_Length :: "hpqc \<Rightarrow> 'pk Command \<Rightarrow> (wire_err, int) go" where
  "Command_Length x (NoOp c) = Inr NoOp_Length"
| "Command_Length x (Disconnect c) = Inr Disconnect_Length"
| "Command_Length x (SendRetrievePacket g c p) = SendRetrievePacket_Length g"
| "Command_Length x (SendRetrievePacketReply c g s p) = SendRetrievePacketReply_Length g"
| "Command_Length x (SendPacket p c) = SendPacket_Length c"
| "Command_Length x (RetrieveMessage q c) = Inr RetrieveMessage_Length"
| "Command_Length x (MessageDelivered q c) = Inr MessageDelivered_Length"
| "Command_Length x (Message g c q s p) = Message_Length g"
| "Command_Length x (GetConsensus2 c e) = Inr GetConsensus2_Length"
| "Command_Length x (GetConsensus e c m) = Inr GetConsensus_Length"
| "Command_Length x (GetVote c e k) = GetVote_Length c"
| "Command_Length x (ReplicaWrite c g b s p) = Inr (ReplicaWrite_Length x g p)"
| "Command_Length x (ReplicaWriteReply c e) = Inr ReplicaWriteReply_Length"
| "Command_Length x (ReplicaDecoy c) = Inr ReplicaDecoy_Length"
| "Command_Length x (ReplicaMessage c g n k d t) = ReplicaMessage_Length x g n"
| "Command_Length x (ReplicaMessageReply c g e h i r) = ReplicaMessageReply_Length x g"
| "Command_Length x _ = Inr 0"

section \<open>Command sets\<close>

text \<open>
  The loop of \<open>calcMaxMessageLenServerToClient\<close> and \<open>calcMaxMessageLenClientToServer\<close>.
\<close>

fun calcMaxMessageLen :: "hpqc \<Rightarrow> int \<Rightarrow> 'pk Command list \<Rightarrow> (wire_err, int) go" where
  "calcMaxMessageLen x m [] = Inr m"
| "calcMaxMessageLen x m (c # cs) =
     go_bind (Command_Length x c) (\<lambda>l. calcMaxMessageLen x (if l > m then l else m) cs)"

definition mixnetClientToServer :: "Geometry option \<Rightarrow> 'pk Commands \<Rightarrow> 'pk Command list" where
  "mixnetClientToServer g c =
     [NoOp None, SendPacket [] (Some c), Disconnect None, RetrieveMessage 0 None,
      MessageDelivered 0 None, GetConsensus 0 None False, GetConsensus2 None 0,
      SendRetrievePacket g (Some c) []]"

definition mixnetServerToClient :: "Geometry option \<Rightarrow> 'pk Commands \<Rightarrow> 'pk Command list" where
  "mixnetServerToClient g c =
     [Consensus 0 [], Consensus2 None 0 0 0 [], Message g (Some c) 0 (replicate SURBIDLength 0) [],
      SendRetrievePacketReply (Some c) g (replicate SURBIDLength 0) []]"

definition NewMixnetCommands :: "hpqc \<Rightarrow> Geometry option \<Rightarrow> (wire_err, 'pk Commands) go" where
  "NewMixnetCommands x g =
     (let c = \<lparr>cgeo = g, pkiSignatureScheme = None, replicaNikeScheme = None,
               MaxMessageLenServerToClient = 0, MaxMessageLenClientToServer = 0,
               shouldPad = True\<rparr> in
      go_bind (calcMaxMessageLen x 0 (mixnetClientToServer g c)) (\<lambda>up.
      go_bind (calcMaxMessageLen x 0 (mixnetServerToClient g c)) (\<lambda>down.
      Inr (c\<lparr>MaxMessageLenClientToServer := up, MaxMessageLenServerToClient := down\<rparr>))))"

definition replicaCommandList ::
  "hpqc \<Rightarrow> PGeometry \<Rightarrow> nike_scheme \<Rightarrow> bytes \<Rightarrow> 'pk Commands \<Rightarrow> 'pk Command list" where
  "replicaCommandList x pg scheme payload c =
     [ReplicaMessage (Some c) (Some pg) (Some scheme)
        (replicate (nat (nikePublicKeySize scheme)) 0) (Some (replicate (DEKSize x) 0)) payload,
      ReplicaMessageReply (Some c) (Some pg) 0 None 0 [],
      ReplicaWrite (Some c) (Some pg) None None [],
      ReplicaWriteReply (Some c) 0, ReplicaDecoy (Some c), NoOp (Some c), Disconnect (Some c)]"

text \<open>
  \<open>make\<close> with a negative length panics; an error of \<open>NewGeometryFromSphinx\<close> is turned into a
  panic.
\<close>

definition NewStorageReplicaCommands ::
  "hpqc \<Rightarrow> (string \<Rightarrow> nike_scheme option) \<Rightarrow> Geometry \<Rightarrow> nike_scheme
     \<Rightarrow> (wire_err, 'pk Commands) go" where
  "NewStorageReplicaCommands x nikeByName g scheme =
     (if PacketLength g < 0 \<or> nikePublicKeySize scheme < 0 then Inl Panic
      else
        let c = \<lparr>cgeo = Some g, pkiSignatureScheme = None, replicaNikeScheme = Some scheme,
                 MaxMessageLenServerToClient = 0, MaxMessageLenClientToServer = 0,
                 shouldPad = True\<rparr>;
            payload = replicate (nat (PacketLength g)) 0
        in case NewGeometryFromSphinx x nikeByName g scheme of
             Inl e \<Rightarrow> Inl Panic
           | Inr pg \<Rightarrow>
               go_bind (calcMaxMessageLen x 0 (replicaCommandList x pg scheme payload c)) (\<lambda>m.
               Inr (c\<lparr>MaxMessageLenClientToServer := m, MaxMessageLenServerToClient := m\<rparr>)))"

definition NewPKICommands :: "'pk sign_scheme option \<Rightarrow> 'pk Commands" where
  "NewPKICommands scheme =
     \<lparr>cgeo = None, pkiSignatureScheme = scheme, replicaNikeScheme = None,
      MaxMessageLenServerToClient = 50000000, MaxMessageLenClientToServer = 50000000,
      shouldPad = False\<rparr>"

definition MaxCommandSize :: "'pk Commands \<Rightarrow> int" where
  "MaxCommandSize c =
     (if MaxMessageLenServerToClient c > MaxMessageLenClientToServer c
      then MaxMessageLenServerToClient c else MaxMessageLenClientToServer c)"

lemmas to_bytes_defs = NoOp_ToBytes_def Disconnect_ToBytes_def SendRetrievePacket_ToBytes_def
  SendRetrievePacketReply_ToBytes_def SendPacket_ToBytes_def RetrieveMessage_ToBytes_def
  MessageDelivered_ToBytes_def Message_ToBytes_def GetConsensus2_ToBytes_def
  Consensus2_ToBytes_def PostReplicaDescriptorStatus_ToBytes_def
  PostReplicaDescriptor_ToBytes_def GetConsensus_ToBytes_def GetVote_ToBytes_def
  Consensus_ToBytes_def PostDescriptor_ToBytes_def PostDescriptorStatus_ToBytes_def
  Reveal_ToBytes_def RevealStatus_ToBytes_def Vote_ToBytes_def VoteStatus_ToBytes_def
  Cert_ToBytes_def CertStatus_ToBytes_def Sig_ToBytes_def SigStatus_ToBytes_def
  ReplicaWrite_ToBytes_def ReplicaWriteReply_ToBytes_def ReplicaDecoy_ToBytes_def
  ReplicaMessage_ToBytes_def ReplicaMessageReply_ToBytes_def

lemmas command_length_defs = NoOp_Length_def Disconnect_Length_def SendRetrievePacket_Length_def
  SendRetrievePacketReply_Length_def SendPacket_Length_def RetrieveMessage_Length_def
  MessageDelivered_Length_def Message_Length_def GetConsensus2_Length_def
  GetConsensus_Length_def ReplicaWrite_Length_def ReplicaWriteReply_Length_def
  ReplicaDecoy_Length_def ReplicaMessage_Length_def ReplicaMessageReply_Length_def
  HybridKeySize_def

section \<open>The sizes the constructors choose\<close>

lemma calcMaxMessageLen_bound:
  "calcMaxMessageLen x m cs = Inr n \<Longrightarrow>
     m \<le> n \<and> (\<forall>c \<in> set cs. \<exists>l. Command_Length x c = Inr l \<and> l \<le> n)"
proof (induction cs arbitrary: m)
  case Nil
  then show ?case by simp
next
  case (Cons c cs)
  then obtain l where l: "Command_Length x c = Inr l"
      "calcMaxMessageLen x (if l > m then l else m) cs = Inr n"
    by (auto simp: go_bind_Inr_iff)
  from Cons.IH [OF l(2)] l(1) show ?case by (auto split: if_splits)
qed

lemma NewMixnetCommands_Inr:
  "NewMixnetCommands x (Some g) = Inr c \<longleftrightarrow>
     c = \<lparr>cgeo = Some g, pkiSignatureScheme = None, replicaNikeScheme = None,
          MaxMessageLenServerToClient =
            max (max 0 (26 + PacketLength g)) (22 + UserForwardPayloadLength g),
          MaxMessageLenClientToServer = max 14 (6 + PacketLength g), shouldPad = True\<rparr>"
  by (auto simp: NewMixnetCommands_def mixnetClientToServer_def mixnetServerToClient_def
      command_length_defs Let_def max_def SURBIDLength_def)

end
