(* ===== verification/WireDecode.thy ===== *)
theory WireDecode
  imports WireEncode
begin

text \<open>
  Parsing of the link commands: \<open>Commands.FromBytes\<close> (commands.go) and the \<open>...FromBytes\<close>
  parser of every command.

  Slicing in Go is bounded by the capacity of the slice, not by its length, when both bounds are
  written. \<open>FromBytes\<close> shortens its argument to the announced length and hands it on, so a parser
  can read past that length into the bytes that follow it in the same array. The parameter
  \<open>spare\<close> is those bytes: what the backing array holds after the slice. Only the parsers that
  index beyond what they have checked take it.
\<close>

text \<open>\<open>b[lo:hi]\<close> of a slice \<open>b\<close> followed by \<open>spare\<close> in its array.\<close>

definition reslice :: "bytes \<Rightarrow> bytes \<Rightarrow> nat \<Rightarrow> nat \<Rightarrow> (wire_err, bytes) go" where
  "reslice b spare lo hi =
     (if lo \<le> hi \<and> hi \<le> length b + length spare
      then Inr (take (hi - lo) (drop lo (b @ spare))) else Inl Panic)"

section \<open>commands.go\<close>

definition sendRetrievePacketFromBytes :: "bytes \<Rightarrow> 'pk Commands \<Rightarrow> (wire_err, 'pk Command) go" where
  "sendRetrievePacketFromBytes b cmds = Inr (SendRetrievePacket (cgeo cmds) (Some cmds) b)"

text \<open>\<open>b[16:]\<close> has the upper bound \<open>len(b)\<close> and panics on a shorter body.\<close>

definition sendRetrievePacketReplyFromBytes ::
  "bytes \<Rightarrow> bytes \<Rightarrow> 'pk Commands \<Rightarrow> (wire_err, 'pk Command) go" where
  "sendRetrievePacketReplyFromBytes b spare cmds =
     go_bind (reslice b spare 0 SURBIDLength) (\<lambda>s.
     go_bind (reslice b spare SURBIDLength (length b)) (\<lambda>p.
       Inr (SendRetrievePacketReply (Some cmds) (cgeo cmds) s p)))"

section \<open>old_client_commands.go\<close>

definition sendPacketFromBytes :: "bytes \<Rightarrow> 'pk Commands \<Rightarrow> (wire_err, 'pk Command) go" where
  "sendPacketFromBytes b cmds = Inr (SendPacket b (Some cmds))"

definition retreiveMessageFromBytes :: "bytes \<Rightarrow> 'pk Commands \<Rightarrow> (wire_err, 'pk Command) go" where
  "retreiveMessageFromBytes b cmds =
     (if length b \<noteq> retreiveMessageLength then Inl (Err errInvalidCommand)
      else go_bind (get32 (take 4 b)) (\<lambda>q. Inr (RetrieveMessage q (Some cmds))))"

definition messageDeliveredFromBytes :: "bytes \<Rightarrow> 'pk Commands \<Rightarrow> (wire_err, 'pk Command) go" where
  "messageDeliveredFromBytes b cmds =
     (if length b \<noteq> messageDeliveredLength then Inl (Err errInvalidCommand)
      else go_bind (get32 (take 4 b)) (\<lambda>q. Inr (MessageDelivered q (Some cmds))))"

text \<open>\<open>c.geo\<close> may be nil (a PKI session); the result has no \<open>Geo\<close>.\<close>

definition messageFromBytes :: "bytes \<Rightarrow> 'pk Commands \<Rightarrow> (wire_err, 'pk Command) go" where
  "messageFromBytes b cmds =
     go_bind (deref (cgeo cmds)) (\<lambda>g.
       if int (length b) \<noteq> int messageBaseLength + int SURBIDLength
                             + PayloadTagLength g + ForwardPayloadLength g
       then Inl (Err errInvalidCommand)
       else go_bind (get32 (take 4 b)) (\<lambda>seq.
              let b = drop messageBaseLength b in
              if length b < SURBIDLength then Inl Panic
              else Inr (Message None (Some cmds) seq (take SURBIDLength b) (drop SURBIDLength b))))"

section \<open>pki_commands.go\<close>

definition getConsensus2FromBytes :: "bytes \<Rightarrow> 'pk Commands \<Rightarrow> (wire_err, 'pk Command) go" where
  "getConsensus2FromBytes b cmds =
     (if length b \<noteq> getConsensusLength then Inl (Err errInvalidCommand)
      else go_bind (get64 (take 8 b)) (\<lambda>e. Inr (GetConsensus2 (Some cmds) e)))"

text \<open>The check is against the base length of \<open>Consensus\<close>, one byte, not of \<open>Consensus2\<close>.\<close>

definition consensus2FromBytes :: "bytes \<Rightarrow> bytes \<Rightarrow> (wire_err, 'pk Command) go" where
  "consensus2FromBytes b spare =
     (if length b < consensusBaseLength then Inl (Err errInvalidCommand)
      else go_bind (reslice b spare 1 5) (\<lambda>s1. go_bind (get32 s1) (\<lambda>num.
           go_bind (reslice b spare 5 9) (\<lambda>s2. go_bind (get32 s2) (\<lambda>total.
             Inr (Consensus2 None (b ! 0) num total (drop consensus2BaseLength b)))))))"

definition postReplicaDescriptorStatusFromBytes :: "bytes \<Rightarrow> (wire_err, 'pk Command) go" where
  "postReplicaDescriptorStatusFromBytes b =
     (if length b \<noteq> postDescriptorStatusLength then Inl (Err errInvalidCommand)
      else Inr (PostReplicaDescriptorStatus (b ! 0)))"

definition postReplicaDescriptorFromBytes :: "bytes \<Rightarrow> (wire_err, 'pk Command) go" where
  "postReplicaDescriptorFromBytes b =
     (if length b < postDescriptorLength then Inl (Err errInvalidCommand)
      else go_bind (get64 (take 8 b)) (\<lambda>e.
             Inr (PostReplicaDescriptor e (drop postDescriptorLength b))))"

definition getConsensusFromBytes :: "bytes \<Rightarrow> 'pk Commands \<Rightarrow> (wire_err, 'pk Command) go" where
  "getConsensusFromBytes b cmds =
     (if length b \<noteq> getConsensusLength then Inl (Err errInvalidCommand)
      else go_bind (get64 (take 8 b)) (\<lambda>e. Inr (GetConsensus e (Some cmds) False)))"

text \<open>A scheme's \<open>UnmarshalBinaryPublicKey\<close>, its error passed on.\<close>

definition unmarshal_key :: "'pk sign_scheme \<Rightarrow> bytes \<Rightarrow> (wire_err, 'pk sign_pubkey) go" where
  "unmarshal_key scheme blob =
     (case UnmarshalBinaryPublicKey scheme blob of
        None \<Rightarrow> Inl (Err errUnmarshalPublicKey)
      | Some k \<Rightarrow> Inr \<lparr>pkScheme = scheme, pkKey = k\<rparr>)"

text \<open>The scheme of the session is an interface value; calling it when it is nil panics.\<close>

definition getVoteFromBytes :: "bytes \<Rightarrow> 'pk sign_scheme option \<Rightarrow> (wire_err, 'pk Command) go" where
  "getVoteFromBytes b sp =
     go_bind (deref sp) (\<lambda>scheme.
       if length b \<noteq> voteOverhead scheme then Inl (Err errInvalidCommand)
       else go_bind (get64 (take 8 b)) (\<lambda>e.
            go_bind (unmarshal_key scheme (take (PublicKeySize scheme) (drop 8 b))) (\<lambda>k.
              Inr (GetVote None e k))))"

definition consensusFromBytes :: "bytes \<Rightarrow> (wire_err, 'pk Command) go" where
  "consensusFromBytes b =
     (if length b < consensusBaseLength then Inl (Err errInvalidCommand)
      else Inr (Consensus (b ! 0) (drop consensusBaseLength b)))"

definition postDescriptorFromBytes :: "bytes \<Rightarrow> (wire_err, 'pk Command) go" where
  "postDescriptorFromBytes b =
     (if length b < postDescriptorLength then Inl (Err errInvalidCommand)
      else go_bind (get64 (take 8 b)) (\<lambda>e. Inr (PostDescriptor e (drop postDescriptorLength b))))"

definition postDescriptorStatusFromBytes :: "bytes \<Rightarrow> (wire_err, 'pk Command) go" where
  "postDescriptorStatusFromBytes b =
     (if length b \<noteq> postDescriptorStatusLength then Inl (Err errInvalidCommand)
      else Inr (PostDescriptorStatus (b ! 0)))"

definition revealFromBytes :: "bytes \<Rightarrow> 'pk sign_scheme option \<Rightarrow> (wire_err, 'pk Command) go" where
  "revealFromBytes b sp =
     go_bind (deref sp) (\<lambda>scheme.
       if length b < revealOverhead scheme then Inl (Err errWtfInvalidCommand)
       else go_bind (get64 (take 8 b)) (\<lambda>e.
            go_bind (unmarshal_key scheme (take (PublicKeySize scheme) (drop 8 b))) (\<lambda>k.
              Inr (Reveal e k (drop (revealOverhead scheme) b)))))"

definition revealStatusFromBytes :: "bytes \<Rightarrow> (wire_err, 'pk Command) go" where
  "revealStatusFromBytes b =
     (if length b \<noteq> revealStatusLength then Inl (Err errWtfInvalidCommand)
      else Inr (RevealStatus (b ! 0)))"

definition voteFromBytes :: "bytes \<Rightarrow> 'pk sign_scheme option \<Rightarrow> (wire_err, 'pk Command) go" where
  "voteFromBytes b sp =
     go_bind (deref sp) (\<lambda>scheme.
       if length b < voteOverhead scheme then Inl (Err errInvalidCommand)
       else go_bind (get64 (take 8 b)) (\<lambda>e.
            go_bind (unmarshal_key scheme (take (PublicKeySize scheme) (drop 8 b))) (\<lambda>k.
              Inr (Vote e k (drop (voteOverhead scheme) b)))))"

definition voteStatusFromBytes :: "bytes \<Rightarrow> (wire_err, 'pk Command) go" where
  "voteStatusFromBytes b =
     (if length b \<noteq> voteStatusLength then Inl (Err errInvalidCommand)
      else Inr (VoteStatus (b ! 0)))"

definition certFromBytes :: "bytes \<Rightarrow> 'pk sign_scheme option \<Rightarrow> (wire_err, 'pk Command) go" where
  "certFromBytes b sp =
     go_bind (deref sp) (\<lambda>scheme.
       if length b < certOverhead scheme then Inl (Err errInvalidCommand)
       else go_bind (get64 (take 8 b)) (\<lambda>e.
            go_bind (unmarshal_key scheme (take (PublicKeySize scheme) (drop 8 b))) (\<lambda>k.
              Inr (Cert e k (drop (certOverhead scheme) b)))))"

definition certStatusFromBytes :: "bytes \<Rightarrow> (wire_err, 'pk Command) go" where
  "certStatusFromBytes b =
     (if length b \<noteq> certStatusLength then Inl (Err errInvalidCommand)
      else Inr (CertStatus (b ! 0)))"

definition sigFromBytes :: "bytes \<Rightarrow> 'pk sign_scheme option \<Rightarrow> (wire_err, 'pk Command) go" where
  "sigFromBytes b sp =
     go_bind (deref sp) (\<lambda>scheme.
       if length b < sigOverhead scheme then Inl (Err errInvalidCommand)
       else go_bind (get64 (take 8 b)) (\<lambda>e.
            go_bind (unmarshal_key scheme (take (PublicKeySize scheme) (drop 8 b))) (\<lambda>k.
              Inr (Sig e k (drop (sigOverhead scheme) b)))))"

definition sigStatusFromBytes :: "bytes \<Rightarrow> (wire_err, 'pk Command) go" where
  "sigStatusFromBytes b =
     (if length b \<noteq> sigStatusLength then Inl (Err errInvalidCommand)
      else Inr (SigStatus (b ! 0)))"

section \<open>storage_replica_commands.go\<close>

definition replicaWriteFromBytes ::
  "hpqc \<Rightarrow> bytes \<Rightarrow> 'pk Commands \<Rightarrow> (wire_err, 'pk Command) go" where
  "replicaWriteFromBytes x b cmds =
     (if length b < BoxIDSize x + SignatureSize x then Inl (Err errInvalidCommand)
      else Inr (ReplicaWrite (Some cmds) None
             (Some (take (BoxIDSize x) b))
             (Some (take (SignatureSize x) (drop (BoxIDSize x) b)))
             (drop (BoxIDSize x + SignatureSize x) b)))"

definition replicaWriteReplyFromBytes :: "bytes \<Rightarrow> 'pk Commands \<Rightarrow> (wire_err, 'pk Command) go" where
  "replicaWriteReplyFromBytes b cmds =
     (if length b \<noteq> postDescriptorStatusLength then Inl (Err errInvalidCommand)
      else Inr (ReplicaWriteReply (Some cmds) (b ! 0)))"

definition replicaDecoyFromBytes :: "bytes \<Rightarrow> 'pk Commands \<Rightarrow> (wire_err, 'pk Command) go" where
  "replicaDecoyFromBytes b cmds = Inr (ReplicaDecoy (Some cmds))"

definition replicaMessageFromBytes ::
  "hpqc \<Rightarrow> bytes \<Rightarrow> 'pk Commands \<Rightarrow> (wire_err, 'pk Command) go" where
  "replicaMessageFromBytes x b cmds =
     go_bind (HybridKeySize (replicaNikeScheme cmds)) (\<lambda>hk.
       if int (length b) < hk + int (DEKSize x) + 4 then Inl (Err errMessageTooShort)
       else if hk < 0 then Inl Panic
       else let h = nat hk in
            Inr (ReplicaMessage (Some cmds) None (replicaNikeScheme cmds) (take h b)
                   (Some (take (DEKSize x) (drop h b))) (drop (h + DEKSize x) b)))"

definition replicaMessageReplyFromBytes :: "bytes \<Rightarrow> 'pk Commands \<Rightarrow> (wire_err, 'pk Command) go" where
  "replicaMessageReplyFromBytes b cmds =
     (if length b < 1 + 32 + 1 then Inl (Err errInvalidCommand)
      else Inr (ReplicaMessageReply (Some cmds) None (b ! 0)
             (Some (take 32 (drop 1 b))) (b ! (1 + 32)) (drop (1 + 32 + 1) b)))"

section \<open>FromBytes\<close>

text \<open>The commands with an empty body that are handled before the parsers.\<close>

datatype 'pk inline_result = Inline "(wire_err, 'pk Command) go" | FallThrough

definition FromBytes_inline :: "'pk Commands \<Rightarrow> commandID option \<Rightarrow> 'pk inline_result" where
  "FromBytes_inline c i =
     (case i of
        Some id_noOp \<Rightarrow> Inline (Inr (NoOp (Some c)))
      | Some id_disconnect \<Rightarrow> Inline (Inr (Disconnect (Some c)))
      | Some id_replicaDecoy \<Rightarrow> Inline (Inr (ReplicaDecoy (Some c)))
      | Some id_sendPacket \<Rightarrow> FallThrough
      | Some id_postDescriptor \<Rightarrow> FallThrough
      | Some id_sendRetrievePacket \<Rightarrow> FallThrough
      | Some id_sendRetrievePacketReply \<Rightarrow> FallThrough
      | _ \<Rightarrow> Inline (Inl (Err errInvalidCommand)))"

text \<open>The second switch, over the body \<open>b\<close> of the announced length.\<close>

definition FromBytes_dispatch ::
  "hpqc \<Rightarrow> 'pk Commands \<Rightarrow> commandID option \<Rightarrow> bytes \<Rightarrow> bytes \<Rightarrow> (wire_err, 'pk Command) go" where
  "FromBytes_dispatch x c i b spare =
     (case i of
        Some id_consensus2 \<Rightarrow> consensus2FromBytes b spare
      | Some id_postReplicaDescriptor \<Rightarrow> postReplicaDescriptorFromBytes b
      | Some id_postReplicaDescriptorStatus \<Rightarrow> postReplicaDescriptorStatusFromBytes b
      | Some id_replicaWrite \<Rightarrow> replicaWriteFromBytes x b c
      | Some id_replicaWriteReply \<Rightarrow> replicaWriteReplyFromBytes b c
      | Some id_replicaMessage \<Rightarrow> replicaMessageFromBytes x b c
      | Some id_replicaMessageReply \<Rightarrow> replicaMessageReplyFromBytes b c
      | Some id_replicaDecoy \<Rightarrow> replicaDecoyFromBytes b c
      | Some id_sendRetrievePacket \<Rightarrow> sendRetrievePacketFromBytes b c
      | Some id_sendRetrievePacketReply \<Rightarrow> sendRetrievePacketReplyFromBytes b spare c
      | Some id_sendPacket \<Rightarrow> sendPacketFromBytes b c
      | Some id_retreiveMessage \<Rightarrow> retreiveMessageFromBytes b c
      | Some id_messageDelivered \<Rightarrow> messageDeliveredFromBytes b c
      | Some id_message \<Rightarrow> messageFromBytes b c
      | Some id_getConsensus \<Rightarrow> getConsensusFromBytes b c
      | Some id_getConsensus2 \<Rightarrow> getConsensus2FromBytes b c
      | Some id_consensus \<Rightarrow> consensusFromBytes b
      | Some id_postDescriptor \<Rightarrow> postDescriptorFromBytes b
      | Some id_postDescriptorStatus \<Rightarrow> postDescriptorStatusFromBytes b
      | Some id_getVote \<Rightarrow> getVoteFromBytes b (pkiSignatureScheme c)
      | Some id_vote \<Rightarrow> voteFromBytes b (pkiSignatureScheme c)
      | Some id_voteStatus \<Rightarrow> voteStatusFromBytes b
      | Some id_certificate \<Rightarrow> certFromBytes b (pkiSignatureScheme c)
      | Some id_certStatus \<Rightarrow> certStatusFromBytes b
      | Some id_reveal \<Rightarrow> revealFromBytes b (pkiSignatureScheme c)
      | Some id_revealStatus \<Rightarrow> revealStatusFromBytes b
      | Some id_sig \<Rightarrow> sigFromBytes b (pkiSignatureScheme c)
      | Some id_sigStatus \<Rightarrow> sigStatusFromBytes b
      | _ \<Rightarrow> Inl (Err errInvalidCommand))"

definition FromBytes ::
  "hpqc \<Rightarrow> 'pk Commands \<Rightarrow> bytes \<Rightarrow> bytes \<Rightarrow> (wire_err, 'pk Command) go" where
  "FromBytes x c b spare =
     (if length b < cmdOverhead then Inl (Err errInvalidCommand)
      else let i = byte_id (b ! 0) in
        if b ! 1 \<noteq> 0 then Inl (Err errInvalidCommand)
        else go_bind (get32 (take 4 (drop 2 b))) (\<lambda>cmdLen.
          let b = drop cmdOverhead b in
          if u32_of (length b) < cmdLen then Inl (Err errInvalidCommand)
          else let padding = drop (unat cmdLen) b in
            if \<not> CtIsZero padding then Inl (Err errInvalidCommand)
            else let b = take (unat cmdLen) b in
              (if cmdLen = 0
               then (case FromBytes_inline c i of
                       Inline r \<Rightarrow> r
                     | FallThrough \<Rightarrow> FromBytes_dispatch x c i b (padding @ spare))
               else FromBytes_dispatch x c i b (padding @ spare))))"

lemmas from_bytes_defs = sendRetrievePacketFromBytes_def sendRetrievePacketReplyFromBytes_def
  sendPacketFromBytes_def retreiveMessageFromBytes_def messageDeliveredFromBytes_def
  messageFromBytes_def getConsensus2FromBytes_def consensus2FromBytes_def
  postReplicaDescriptorStatusFromBytes_def postReplicaDescriptorFromBytes_def
  getConsensusFromBytes_def getVoteFromBytes_def consensusFromBytes_def
  postDescriptorFromBytes_def postDescriptorStatusFromBytes_def revealFromBytes_def
  revealStatusFromBytes_def voteFromBytes_def voteStatusFromBytes_def certFromBytes_def
  certStatusFromBytes_def sigFromBytes_def sigStatusFromBytes_def replicaWriteFromBytes_def
  replicaWriteReplyFromBytes_def replicaDecoyFromBytes_def
  replicaMessageReplyFromBytes_def

end
