(* ===== verification/WireProps.thy ===== *)
theory WireProps
  imports WireDecode
begin

text \<open>
  Properties of the link codec: what \<open>ToBytes\<close> writes \<open>FromBytes\<close> reads back; every command of a
  padded set has the same length on the wire; only well-framed input is accepted; and the exact
  inputs on which the parser panics instead of returning an error.
\<close>

section \<open>Framing\<close>

text \<open>The bytes of a command: header, body, zero padding.\<close>

definition framed :: "commandID \<Rightarrow> bytes \<Rightarrow> bytes \<Rightarrow> bool" where
  "framed i body b \<longleftrightarrow> (\<exists>k. b = cmd_header i (u32_of (length body)) @ body @ replicate k 0)"

definition pad_len :: "'pk Commands \<Rightarrow> bool \<Rightarrow> nat \<Rightarrow> nat" where
  "pad_len c up n =
     (if shouldPad c then nat ((if up then MaxMessageLenClientToServer c
        else MaxMessageLenServerToClient c) - int n) else 0)"

lemma padToMax_eq:
  "padToMaxCommandSize (Some c) data up = Inr (data @ replicate (pad_len c up (length data)) 0)"
  by (auto simp: padToMaxCommandSize_def pad_len_def Let_def)

lemma padToMax_framed:
  "padToMaxCommandSize p (cmd_header i (u32_of (length body)) @ body) up = Inr b \<Longrightarrow> framed i body b"
  by (cases p) (auto simp: padToMax_eq framed_def padToMaxCommandSize_def [of None])

lemma pad_unless_nil_framed:
  "pad_unless_nil p (cmd_header i (u32_of (length body)) @ body) up = Inr b \<Longrightarrow> framed i body b"
proof (cases p)
  case None
  then show "pad_unless_nil p (cmd_header i (u32_of (length body)) @ body) up = Inr b \<Longrightarrow> framed i body b"
    by (auto simp: pad_unless_nil_def framed_def intro: exI [of _ 0])
next
  case (Some c)
  then show "pad_unless_nil p (cmd_header i (u32_of (length body)) @ body) up = Inr b \<Longrightarrow> framed i body b"
    by (simp add: pad_unless_nil_def padToMax_framed)
qed

lemma framedI: "b = cmd_header i (u32_of (length body)) @ body \<Longrightarrow> framed i body b"
  by (auto simp: framed_def intro: exI [of _ 0])

text \<open>What \<open>FromBytes\<close> checks before it looks at the body.\<close>

definition announced :: "bytes \<Rightarrow> nat" where
  "announced b = be_dec (take 4 (drop 2 b))"

definition well_framed :: "bytes \<Rightarrow> bool" where
  "well_framed b \<longleftrightarrow> 6 \<le> length b \<and> b ! 1 = 0
     \<and> announced b \<le> (length b - 6) mod 2 ^ 32 \<and> CtIsZero (drop (6 + announced b) b)"

definition frame_id :: "bytes \<Rightarrow> commandID option" where "frame_id b = byte_id (b ! 0)"
definition frame_body :: "bytes \<Rightarrow> bytes" where "frame_body b = take (announced b) (drop 6 b)"
definition frame_rest :: "bytes \<Rightarrow> bytes" where "frame_rest b = drop (6 + announced b) b"

lemma announced_bound: "6 \<le> length b \<Longrightarrow> announced b < 2 ^ 32"
  using be_dec_bound [of "take 4 (drop 2 b)"] by (simp add: announced_def)

lemma get32_announced:
  "6 \<le> length b \<Longrightarrow> get32 (take 4 (drop 2 b)) = Inr (u32_of (announced b))"
  by (simp add: get32_def announced_def u32_of_def)

lemma u32_of_less:
  assumes "a < 2 ^ 32"
  shows "u32_of n < u32_of a \<longleftrightarrow> n mod 2 ^ 32 < a"
proof -
  have "unat (u32_of n) = n mod 2 ^ 32" by (simp add: u32_of_def unat_of_nat)
  with unat_u32_of [OF assms] show ?thesis by (simp only: word_less_nat_alt)
qed

lemma FromBytes_well_framed:
  assumes "well_framed b"
  shows "FromBytes x c b spare =
     (if announced b = 0
      then (case FromBytes_inline c (frame_id b) of Inline r \<Rightarrow> r
            | FallThrough \<Rightarrow> FromBytes_dispatch x c (frame_id b) (frame_body b) (frame_rest b @ spare))
      else FromBytes_dispatch x c (frame_id b) (frame_body b) (frame_rest b @ spare))"
proof -
  from assms have l: "6 \<le> length b" and a: "announced b < 2 ^ 32"
    using announced_bound by (auto simp: well_framed_def)
  have u: "unat (u32_of (announced b)) = announced b"
    using a by (rule unat_u32_of)
  have z: "u32_of (announced b) = 0 \<longleftrightarrow> announced b = 0"
    using u by (simp only: unat_eq_zero [symmetric])
  have lt: "\<not> u32_of (length b - 6) < u32_of (announced b)"
    using assms u32_of_less [OF a, of "length b - 6"] unfolding well_framed_def by linarith
  have pad: "CtIsZero (drop (announced b) (drop 6 b))"
    using assms by (simp add: well_framed_def add.commute)
  have hd: "\<not> length b < cmdOverhead" "\<not> b ! 1 \<noteq> 0"
    using assms l by (simp_all add: well_framed_def)
  have cl: "get32 (take 4 (drop 2 b)) = Inr (u32_of (announced b))"
    using l by (rule get32_announced)
  have fr: "take (announced b) (drop cmdOverhead b) = frame_body b"
      "drop (announced b) (drop cmdOverhead b) = frame_rest b" "byte_id (b ! 0) = frame_id b"
    by (simp_all add: frame_id_def frame_body_def frame_rest_def add.commute)
  show ?thesis
    unfolding FromBytes_def Let_def cl go_bind_simps u z if_not_P [OF hd(1)] if_not_P [OF hd(2)] fr
    using lt pad by (simp add: frame_rest_def add.commute)
qed

lemma FromBytes_not_well_framed:
  assumes "\<not> well_framed b"
  shows "FromBytes x c b spare = Inl (Err errInvalidCommand)"
proof (cases "6 \<le> length b \<and> b ! 1 = 0")
  case False
  then show ?thesis by (auto simp: FromBytes_def Let_def)
next
  case True
  then have a: "announced b < 2 ^ 32" using announced_bound by blast
  then have u: "unat (u32_of (announced b)) = announced b" by (rule unat_u32_of)
  have lt: "u32_of (length b - 6) < u32_of (announced b)
      \<longleftrightarrow> (length b - 6) mod 2 ^ 32 < announced b"
    using a by (rule u32_of_less)
  have hd: "\<not> length b < cmdOverhead" "\<not> b ! 1 \<noteq> 0"
    using True by simp_all
  have cl: "get32 (take 4 (drop 2 b)) = Inr (u32_of (announced b))"
    using True get32_announced by blast
  have bad: "u32_of (length (drop cmdOverhead b)) < u32_of (announced b)
      \<or> \<not> CtIsZero (drop (announced b) (drop cmdOverhead b))"
    using True assms lt by (auto simp: well_framed_def add.commute not_le)
  show ?thesis
    unfolding FromBytes_def Let_def cl go_bind_simps u if_not_P [OF hd(1)] if_not_P [OF hd(2)]
    using bad by (auto simp only: if_True if_False not_False_eq_True if_cancel)
qed

lemma framed_well_framed:
  assumes "framed i body b" and "length b < 2 ^ 32"
  shows "well_framed b \<and> announced b = length body \<and> frame_id b = Some i
    \<and> frame_body b = body"
proof -
  from assms(1) obtain k where b: "b = cmd_header i (u32_of (length body)) @ body @ replicate k 0"
    by (auto simp: framed_def)
  have len: "length body + k + 6 < 2 ^ 32" using assms(2) b by simp
  have d: "drop 2 b = put32 (u32_of (length body)) @ body @ replicate k 0"
    by (simp add: b cmd_header_def)
  have "take 4 (drop 2 b) = be_enc 4 (unat (u32_of (length body)))"
    unfolding d by (simp add: put32_def)
  then have a: "announced b = length body"
    using len by (simp add: announced_def unat_u32_of)
  have b1: "b ! 1 = 0" "b ! 0 = id_byte i" by (simp_all add: b cmd_header_def)
  have d6: "drop 6 b = body @ replicate k 0" by (simp add: b)
  then have "drop (6 + length body) b = replicate k 0"
    by (metis append_eq_conv_conj drop_drop add.commute)
  then show ?thesis
    using a b1 d6 len b by (simp add: well_framed_def frame_id_def frame_body_def)
qed

section \<open>Round trip\<close>

text \<open>
  The command the parser rebuilds: the pointers are those of the receiving set, and the fields that
  do not travel are reset.
\<close>

fun received :: "'pk Commands \<Rightarrow> 'pk Command \<Rightarrow> 'pk Command" where
  "received c (NoOp p) = NoOp (Some c)"
| "received c (Disconnect p) = Disconnect (Some c)"
| "received c (SendRetrievePacket g p k) = SendRetrievePacket (cgeo c) (Some c) k"
| "received c (SendRetrievePacketReply p g s y) = SendRetrievePacketReply (Some c) (cgeo c) s y"
| "received c (SendPacket k p) = SendPacket k (Some c)"
| "received c (RetrieveMessage q p) = RetrieveMessage q (Some c)"
| "received c (MessageDelivered q p) = MessageDelivered q (Some c)"
| "received c (Message g p q s y) = Message None (Some c) q s y"
| "received c (GetConsensus2 p e) = GetConsensus2 (Some c) e"
| "received c (Consensus2 p e n t y) = Consensus2 None e n t y"
| "received c (GetConsensus e p m) = GetConsensus e (Some c) False"
| "received c (GetVote p e k) = GetVote None e k"
| "received c (ReplicaWrite p g b s y) = ReplicaWrite (Some c) None b s y"
| "received c (ReplicaWriteReply p e) = ReplicaWriteReply (Some c) e"
| "received c (ReplicaDecoy p) = ReplicaDecoy (Some c)"
| "received c (ReplicaMessage p g n k d t) = ReplicaMessage (Some c) None (replicaNikeScheme c) k d t"
| "received c (ReplicaMessageReply p g e h i r) = ReplicaMessageReply (Some c) None e h i r"
| "received c cmd = cmd"

definition key_ok :: "'pk Commands \<Rightarrow> 'pk sign_pubkey \<Rightarrow> bool" where
  "key_ok c k \<longleftrightarrow> pkiSignatureScheme c = Some (pkScheme k)
     \<and> (\<exists>blob. MarshalBinary (pkScheme k) (pkKey k) = Some blob
          \<and> length blob = PublicKeySize (pkScheme k)
          \<and> UnmarshalBinaryPublicKey (pkScheme k) blob = Some (pkKey k))"

text \<open>Fixed-size arrays have their size, and the receiving set is for this kind of command.\<close>

fun sendable :: "hpqc \<Rightarrow> 'pk Commands \<Rightarrow> 'pk Command \<Rightarrow> bool" where
  "sendable x c (SendRetrievePacketReply p g s y) = (length s = SURBIDLength)"
| "sendable x c (Message g p q s y) = (length s = SURBIDLength \<and> g = cgeo c)"
| "sendable x c (GetVote p e k) = key_ok c k"
| "sendable x c (Reveal e k y) = key_ok c k"
| "sendable x c (Vote e k y) = key_ok c k"
| "sendable x c (Cert e k y) = key_ok c k"
| "sendable x c (Sig e k y) = key_ok c k"
| "sendable x c (ReplicaWrite p g b s y) =
     (0 < BoxIDSize x \<and> map_option length b = Some (BoxIDSize x)
      \<and> map_option length s = Some (SignatureSize x))"
| "sendable x c (ReplicaMessage p g n k d t) =
     (map_option nikePublicKeySize (replicaNikeScheme c) = Some (int (length k))
      \<and> map_option length d = Some (DEKSize x) \<and> 4 \<le> length t)"
| "sendable x c (ReplicaMessageReply p g e h i r) = (map_option length h = Some 32)"
| "sendable x c cmd = True"

text \<open>The identifier and the body every command is framed with.\<close>

lemma FromBytes_framed:
  assumes "framed i body b" and "length b < 2 ^ 32"
    and "body \<noteq> [] \<or> FromBytes_inline c (Some i) = FallThrough"
    and "\<And>spare'. FromBytes_dispatch x c (Some i) body spare' = r"
  shows "FromBytes x c b spare = r"
  using framed_well_framed [OF assms(1,2)] assms(3,4) FromBytes_well_framed [of b x c spare]
  by (auto split: inline_result.splits)

lemma FromBytes_framed_inline:
  assumes "framed i [] b" and "length b < 2 ^ 32" and "FromBytes_inline c (Some i) = Inline r"
  shows "FromBytes x c b spare = r"
  using framed_well_framed [OF assms(1,2)] assms(3) FromBytes_well_framed [of b x c spare]
  by simp

text \<open>The identifier and the body each command travels with.\<close>

fun cmd_id :: "'pk Command \<Rightarrow> commandID" where
  "cmd_id (NoOp p) = id_noOp"
| "cmd_id (Disconnect p) = id_disconnect"
| "cmd_id (SendRetrievePacket g p k) = id_sendRetrievePacket"
| "cmd_id (SendRetrievePacketReply p g s y) = id_sendRetrievePacketReply"
| "cmd_id (SendPacket k p) = id_sendPacket"
| "cmd_id (RetrieveMessage q p) = id_retreiveMessage"
| "cmd_id (MessageDelivered q p) = id_messageDelivered"
| "cmd_id (Message g p q s y) = id_message"
| "cmd_id (GetConsensus2 p e) = id_getConsensus2"
| "cmd_id (Consensus2 p e n t y) = id_consensus2"
| "cmd_id (PostReplicaDescriptorStatus e) = id_postReplicaDescriptorStatus"
| "cmd_id (PostReplicaDescriptor e y) = id_postReplicaDescriptor"
| "cmd_id (GetConsensus e p m) = id_getConsensus"
| "cmd_id (GetVote p e k) = id_getVote"
| "cmd_id (Consensus e y) = id_consensus"
| "cmd_id (PostDescriptor e y) = id_postDescriptor"
| "cmd_id (PostDescriptorStatus e) = id_postDescriptorStatus"
| "cmd_id (Reveal e k y) = id_reveal"
| "cmd_id (RevealStatus e) = id_revealStatus"
| "cmd_id (Vote e k y) = id_vote"
| "cmd_id (VoteStatus e) = id_voteStatus"
| "cmd_id (Cert e k y) = id_certificate"
| "cmd_id (CertStatus e) = id_certStatus"
| "cmd_id (Sig e k y) = id_sig"
| "cmd_id (SigStatus e) = id_sigStatus"
| "cmd_id (ReplicaWrite p g b s y) = id_replicaWrite"
| "cmd_id (ReplicaWriteReply p e) = id_replicaWriteReply"
| "cmd_id (ReplicaDecoy p) = id_replicaDecoy"
| "cmd_id (ReplicaMessage p g n k d t) = id_replicaMessage"
| "cmd_id (ReplicaMessageReply p g e h i r) = id_replicaMessageReply"

definition key_blob :: "'pk sign_pubkey \<Rightarrow> bytes" where
  "key_blob k = the (MarshalBinary (pkScheme k) (pkKey k))"

fun cmd_body :: "'pk Command \<Rightarrow> bytes" where
  "cmd_body (NoOp p) = []"
| "cmd_body (Disconnect p) = []"
| "cmd_body (SendRetrievePacket g p k) = k"
| "cmd_body (SendRetrievePacketReply p g s y) = s @ y"
| "cmd_body (SendPacket k p) = k"
| "cmd_body (RetrieveMessage q p) = put32 q"
| "cmd_body (MessageDelivered q p) = put32 q"
| "cmd_body (Message g p q s y) = put32 q @ s @ y"
| "cmd_body (GetConsensus2 p e) = put64 e"
| "cmd_body (Consensus2 p e n t y) = [e] @ put32 n @ put32 t @ y"
| "cmd_body (PostReplicaDescriptorStatus e) = [e]"
| "cmd_body (PostReplicaDescriptor e y) = put64 e @ y"
| "cmd_body (GetConsensus e p m) = put64 e"
| "cmd_body (GetVote p e k) = put64 e @ key_blob k"
| "cmd_body (Consensus e y) = [e] @ y"
| "cmd_body (PostDescriptor e y) = put64 e @ y"
| "cmd_body (PostDescriptorStatus e) = [e]"
| "cmd_body (Reveal e k y) = put64 e @ key_blob k @ y"
| "cmd_body (RevealStatus e) = [e]"
| "cmd_body (Vote e k y) = put64 e @ key_blob k @ y"
| "cmd_body (VoteStatus e) = [e]"
| "cmd_body (Cert e k y) = put64 e @ key_blob k @ y"
| "cmd_body (CertStatus e) = [e]"
| "cmd_body (Sig e k y) = put64 e @ key_blob k @ y"
| "cmd_body (SigStatus e) = [e]"
| "cmd_body (ReplicaWrite p g b s y) = the b @ the s @ y"
| "cmd_body (ReplicaWriteReply p e) = [e]"
| "cmd_body (ReplicaDecoy p) = []"
| "cmd_body (ReplicaMessage p g n k d t) = k @ the d @ t"
| "cmd_body (ReplicaMessageReply p g e h i r) = [e] @ the h @ [i] @ r"

lemma u32_of_add: "u32_of m + u32_of n = u32_of (m + n)"
  by (simp add: u32_of_def)

lemma key_okD:
  assumes "key_ok c k"
  shows "pkiSignatureScheme c = Some (pkScheme k)" "marshal_key k = Inr (key_blob k)"
    "length (key_blob k) = PublicKeySize (pkScheme k)"
    "unmarshal_key (pkScheme k) (key_blob k) = Inr k"
  using assms by (auto simp: key_ok_def key_blob_def marshal_key_def unmarshal_key_def)

lemma pad_framedI:
  "padToMaxCommandSize p (cmd_header i n @ body) up = Inr b \<Longrightarrow> n = u32_of (length body) \<Longrightarrow> framed i body b"
  "pad_unless_nil p (cmd_header i n @ body) up = Inr b \<Longrightarrow> n = u32_of (length body) \<Longrightarrow> framed i body b"
  "padToMaxCommandSize p (cmd_header i 0) up = Inr b \<Longrightarrow> framed i [] b"
  "pad_unless_nil p (cmd_header i 0) up = Inr b \<Longrightarrow> framed i [] b"
  "n = u32_of (length body) \<Longrightarrow> framed i body (cmd_header i n @ body)"
  using padToMax_framed [of p i "[]" up b] pad_unless_nil_framed [of p i "[]" up b]
  by (simp_all add: padToMax_framed pad_unless_nil_framed framedI u32_of_def)

lemma ToBytes_framed:
  assumes "ToBytes x cmd = Inr b" and "sendable x c cmd"
  shows "framed (cmd_id cmd) (cmd_body cmd) b"
  using assms
  by (cases cmd)
    (auto simp: to_bytes_defs go_bind_Inr_iff key_okD u32_of_add messageLength_def deref_def
      Let_def add_ac split: if_splits option.splits elim!: pad_framedI intro!: pad_framedI)

text \<open>The parser selected by the identifier rebuilds the command from the body.\<close>

lemma reslice_within [simp]:
  "lo \<le> hi \<Longrightarrow> hi \<le> length b \<Longrightarrow> reslice b spare lo hi = Inr (take (hi - lo) (drop lo b))"
  by (simp add: reslice_def)

lemma replicaMessage_body:
  "replicaNikeScheme c = Some z \<Longrightarrow> nikePublicKeySize z = int (length k) \<Longrightarrow>
     length d = DEKSize x \<Longrightarrow> 4 \<le> length t \<Longrightarrow>
   replicaMessageFromBytes x (k @ d @ t) c =
     Inr (ReplicaMessage (Some c) None (Some z) k (Some d) t)"
  by (simp add: replicaMessageFromBytes_def HybridKeySize_def Let_def)

lemma dispatch_cmd_body:
  assumes "ToBytes x cmd = Inr b" and "sendable x c cmd" and "cmd_id cmd \<notin> {id_noOp, id_disconnect}"
  shows "FromBytes_dispatch x c (Some (cmd_id cmd)) (cmd_body cmd) spare = Inr (received c cmd)"
  using assms
  by (cases cmd)
    (auto simp: FromBytes_dispatch_def from_bytes_defs key_okD to_bytes_defs go_bind_Inr_iff
      SURBIDLength_def replicaMessage_body deref_def Let_def reslice_def nth_append
      split: if_splits option.splits)

lemma inline_cmd_body:
  "FromBytes_inline c (Some (cmd_id cmd)) = Inline r \<Longrightarrow> cmd_body cmd = [] \<Longrightarrow>
     sendable x c cmd \<Longrightarrow> r = Inr (received c cmd)"
  by (cases cmd) (auto simp: FromBytes_inline_def dest: arg_cong [where f = length])

text \<open>
  C19. Round trip of the link codec, for every command of the protocol: whatever \<open>ToBytes\<close> returns,
  padded or not, \<open>FromBytes\<close> of a session whose command set understands the command parses back
  into the command with the same fields (the pointers being those of the receiving session),
  whatever lies behind the message in memory.
\<close>

theorem FromBytes_ToBytes:
  assumes enc: "ToBytes x cmd = Inr b" and ok: "sendable x c cmd" and len: "length b < 2 ^ 32"
  shows "FromBytes x c b spare = Inr (received c cmd)"
proof -
  have f: "framed (cmd_id cmd) (cmd_body cmd) b" using enc ok by (rule ToBytes_framed)
  show ?thesis
  proof (cases "cmd_body cmd \<noteq> [] \<or> FromBytes_inline c (Some (cmd_id cmd)) = FallThrough")
    case True
    then have "cmd_id cmd \<notin> {id_noOp, id_disconnect}"
      by (cases cmd) (auto simp: FromBytes_inline_def)
    then show ?thesis
      using FromBytes_framed [OF f len True] dispatch_cmd_body [OF enc ok] by blast
  next
    case False
    then obtain r where r: "FromBytes_inline c (Some (cmd_id cmd)) = Inline r" and n: "cmd_body cmd = []"
      by (cases "FromBytes_inline c (Some (cmd_id cmd))") auto
    show ?thesis
      using FromBytes_framed_inline [OF f [unfolded n] len r] inline_cmd_body [OF r n ok] by simp
  qed
qed

definition demo_geometry :: Geometry where
  "demo_geometry =
     \<lparr>PacketLength = 3082, NrHops = 5, HeaderLength = 476, RoutingInfoLength = 410,
      PerHopRoutingInfoLength = 82, SURBLength = 572, SphinxPlaintextHeaderLength = 2,
      PayloadTagLength = 32, ForwardPayloadLength = 2574, UserForwardPayloadLength = 2000,
      NextNodeHopLength = 65, SPRPKeyMaterialLength = 64, NIKEName = ''x25519'', KEMName = []\<rparr>"

definition demo_mixnet :: "bytes Commands" where
  "demo_mixnet =
     \<lparr>cgeo = Some demo_geometry, pkiSignatureScheme = None, replicaNikeScheme = None,
      MaxMessageLenServerToClient = 3108, MaxMessageLenClientToServer = 3088, shouldPad = True\<rparr>"


theorem FromBytes_ToBytes_witness:
  "\<exists>b. ToBytes hpqc_sizes (RetrieveMessage 7 (Some demo_mixnet)) = Inr b \<and> length b = 3088
     \<and> FromBytes hpqc_sizes demo_mixnet b [] = Inr (RetrieveMessage 7 (Some demo_mixnet))"
proof -
  obtain b where b: "ToBytes hpqc_sizes (RetrieveMessage 7 (Some demo_mixnet)) = Inr b" "length b = 3088"
    by (simp add: RetrieveMessage_ToBytes_def padToMax_eq pad_len_def demo_mixnet_def)
  from FromBytes_ToBytes [OF b(1), of demo_mixnet "[]"] b show ?thesis by simp
qed

section \<open>Sizes on the wire\<close>

lemma length_padToMax:
  assumes "padToMaxCommandSize (Some c) data up = Inr b" and "shouldPad c"
    and "int (length data) \<le> (if up then MaxMessageLenClientToServer c else MaxMessageLenServerToClient c)"
  shows "int (length b) = (if up then MaxMessageLenClientToServer c else MaxMessageLenServerToClient c)"
  using assms by (auto simp: padToMax_eq pad_len_def split: if_splits)








text \<open>The commands couriers and replicas exchange, with the payloads of the geometry \<open>pg\<close>.\<close>

fun replica_traffic ::
  "hpqc \<Rightarrow> 'pk Commands \<Rightarrow> PGeometry \<Rightarrow> nike_scheme \<Rightarrow> 'pk Command \<Rightarrow> bool" where
  "replica_traffic x c pg sch (ReplicaMessage p g n k d t) =
     (p = Some c \<and> int (length k) = nikePublicKeySize sch \<and> map_option length d = Some (DEKSize x)
      \<and> int (length t) \<le> CalculateCourierEnvelopeCiphertextSizeWrite x pg)"
| "replica_traffic x c pg sch (ReplicaMessageReply p g e h i r) =
     (p = Some c \<and> map_option length h = Some 32
      \<and> int (length r) \<le> CalculateEnvelopeReplySizeRead x pg)"
| "replica_traffic x c pg sch (ReplicaWrite p g b s y) =
     (p = Some c \<and> map_option length b = Some (BoxIDSize x)
      \<and> map_option length s = Some (SignatureSize x)
      \<and> int (length y) \<le> CalculateBoxCiphertextLength pg)"
| "replica_traffic x c pg sch (ReplicaWriteReply p e) = (p = Some c)"
| "replica_traffic x c pg sch (ReplicaDecoy p) = (p = Some c)"
| "replica_traffic x c pg sch (NoOp p) = (p = Some c)"
| "replica_traffic x c pg sch (Disconnect p) = (p = Some c)"
| "replica_traffic x c pg sch cmd = False"

lemma NewStorageReplicaCommands_Inr:
  assumes "NewStorageReplicaCommands x nikeByName g sch = Inr (c :: 'pk Commands)"
  obtains pg where "NewGeometryFromSphinx x nikeByName g sch = Inr pg" "shouldPad c"
    "MaxMessageLenServerToClient c = MaxMessageLenClientToServer c"
    "6 + int (DEKSize x) + nikePublicKeySize sch
       + CalculateCourierEnvelopeCiphertextSizeWrite x pg \<le> MaxMessageLenClientToServer c"
    "40 + CalculateEnvelopeReplySizeRead x pg \<le> MaxMessageLenClientToServer c"
    "6 + int (BoxIDSize x) + int (SignatureSize x) + CalculateBoxCiphertextLength pg
       \<le> MaxMessageLenClientToServer c"
    "7 \<le> MaxMessageLenClientToServer c"
proof -
  from assms obtain pg where pg: "NewGeometryFromSphinx x nikeByName g sch = Inr pg"
    by (auto simp: NewStorageReplicaCommands_def Let_def split: if_splits sum.splits)
  let ?c = "\<lparr>cgeo = Some g, pkiSignatureScheme = None, replicaNikeScheme = Some sch,
      MaxMessageLenServerToClient = 0, MaxMessageLenClientToServer = 0, shouldPad = True\<rparr> :: 'pk Commands"
  let ?l = "replicaCommandList x pg sch (replicate (nat (PacketLength g)) 0) ?c"
  from assms pg obtain m where m: "calcMaxMessageLen x 0 ?l = Inr m"
      and c: "c = ?c\<lparr>MaxMessageLenClientToServer := m, MaxMessageLenServerToClient := m\<rparr>"
    by (auto simp: NewStorageReplicaCommands_def Let_def go_bind_Inr_iff split: if_splits)
  from calcMaxMessageLen_bound [OF m] that [OF pg] show ?thesis
    by (auto simp: c replicaCommandList_def command_length_defs)
qed

lemma pad_unless_nil_Some [simp]: "pad_unless_nil (Some c) = padToMaxCommandSize (Some c)"
  by (simp add: pad_unless_nil_def fun_eq_iff)

text \<open>
  Traffic between couriers and replicas is uniform: with the command set
  \<open>NewStorageReplicaCommands\<close> builds, every command, a write, a read, a reply or a decoy, in either
  direction, has exactly the length \<open>MaxMessageLenClientToServer\<close> on the wire, as long as its
  payload is within the Pigeonhole geometry derived from the same Sphinx geometry.
\<close>

theorem replica_uniform_size:
  assumes new: "NewStorageReplicaCommands x nikeByName g sch = Inr c"
    and pg: "NewGeometryFromSphinx x nikeByName g sch = Inr pg"
    and cmd: "replica_traffic x c pg sch cmd" and enc: "ToBytes x cmd = Inr b"
  shows "int (length b) = MaxMessageLenClientToServer c"
proof -
  from NewStorageReplicaCommands_Inr [OF new] pg
  have m: "shouldPad c" "MaxMessageLenServerToClient c = MaxMessageLenClientToServer c"
    "6 + int (DEKSize x) + nikePublicKeySize sch
       + CalculateCourierEnvelopeCiphertextSizeWrite x pg \<le> MaxMessageLenClientToServer c"
    "40 + CalculateEnvelopeReplySizeRead x pg \<le> MaxMessageLenClientToServer c"
    "6 + int (BoxIDSize x) + int (SignatureSize x) + CalculateBoxCiphertextLength pg
       \<le> MaxMessageLenClientToServer c"
    "7 \<le> MaxMessageLenClientToServer c"
    by auto
  show ?thesis
    using cmd enc m length_padToMax [of c _ True b] length_padToMax [of c _ False b]
    by (cases cmd) (auto simp: to_bytes_defs)
qed

theorem replica_uniform_size_witness:
  "\<exists>c :: bytes Commands. NewStorageReplicaCommands hpqc_sizes (\<lambda>n. Some x25519) demo_geometry x25519 = Inr c
     \<and> (\<exists>b. ToBytes hpqc_sizes (ReplicaDecoy (Some c)) = Inr b
           \<and> int (length b) = MaxMessageLenClientToServer c)"
proof -
  obtain pg where pg: "NewGeometryFromSphinx hpqc_sizes (\<lambda>n. Some x25519) demo_geometry x25519 = Inr pg"
    using NewGeometryFromSphinx_exact [of "\<lambda>n. Some x25519" x25519 demo_geometry hpqc_sizes]
    by (auto simp: demo_geometry_def sphinx_total_overhead_def pigeonhole_layers pigeonhole_sizes
        hpqc_sizes_def x25519_def split: if_splits)
  then obtain c :: "bytes Commands" where c:
      "NewStorageReplicaCommands hpqc_sizes (\<lambda>n. Some x25519) demo_geometry x25519 = Inr c"
    by (simp add: NewStorageReplicaCommands_def Let_def demo_geometry_def x25519_def
        replicaCommandList_def command_length_defs)
  obtain b where b: "ToBytes hpqc_sizes (ReplicaDecoy (Some c)) = Inr b"
    by (simp add: ReplicaDecoy_ToBytes_def padToMax_eq)
  have "replica_traffic hpqc_sizes c pg x25519 (ReplicaDecoy (Some c))" by simp
  from replica_uniform_size [OF c pg this b] c b show ?thesis by blast
qed

section \<open>What the parser accepts, and where it panics\<close>

text \<open>
  Nothing but well-framed input is parsed: a result other than an error implies that the header
  is complete, the reserved byte is zero, the announced length fits the message, and every byte
  after the body is zero, so the padding cannot carry data.
\<close>

theorem FromBytes_only_well_framed:
  "FromBytes x c b spare \<noteq> Inl (Err errInvalidCommand) \<Longrightarrow>
     6 \<le> length b \<and> b ! 1 = 0 \<and> announced b \<le> length b - 6
     \<and> set (drop (6 + announced b) b) \<subseteq> {0}"
proof -
  assume "FromBytes x c b spare \<noteq> Inl (Err errInvalidCommand)"
  then have w: "well_framed b" using FromBytes_not_well_framed by blast
  then have "announced b \<le> (length b - 6) mod 2 ^ 32" by (simp add: well_framed_def)
  also have "\<dots> \<le> length b - 6" by (rule mod_less_eq_dividend)
  finally have "announced b \<le> length b - 6" .
  moreover have "set (drop (6 + announced b) b) \<subseteq> {0}"
    using w unfolding well_framed_def CtIsZero_iff by (metis set_replicate_conv_if subsetI empty_iff subset_refl)
  ultimately show ?thesis using w by (simp add: well_framed_def)
qed

theorem FromBytes_only_well_framed_witness:
  "FromBytes hpqc_sizes demo_mixnet [1, 0, 0, 0, 0, 0, 0, 0] [] = Inr (Disconnect (Some demo_mixnet))
   \<and> set (drop (6 + announced [1, 0, 0, 0, 0, 0, 0, 0]) [1, 0, 0, 0, 0, 0, 0, 0 :: byte]) \<subseteq> {0}"
proof -
  have "framed id_disconnect [] [1, 0, 0, 0, 0, 0, 0, 0]"
    unfolding framed_def
    by (rule exI [of _ 2]) (simp add: u32_of_def cmd_header_0 eval_nat_numeral)
  then have r: "FromBytes hpqc_sizes demo_mixnet [1, 0, 0, 0, 0, 0, 0, 0] [] = Inr (Disconnect (Some demo_mixnet))"
    by (rule FromBytes_framed_inline) (simp_all add: FromBytes_inline_def)
  then have "FromBytes hpqc_sizes demo_mixnet [1, 0, 0, 0, 0, 0, 0, 0] []
      \<noteq> Inl (Err errInvalidCommand)" by simp
  from FromBytes_only_well_framed [OF this] r show ?thesis by blast
qed

text \<open>
  The bodies on which a parser panics: a command that needs a scheme or a geometry the session does
  not have, a SURB reply shorter than its SURB ID, and a \<open>Consensus2\<close> shorter than its fixed part
  when the array ends too early.
\<close>

definition parser_panics ::
  "'pk Commands \<Rightarrow> commandID option \<Rightarrow> nat \<Rightarrow> nat \<Rightarrow> bool" where
  "parser_panics c i n arr \<longleftrightarrow>
     i \<in> {Some id_getVote, Some id_vote, Some id_certificate, Some id_reveal, Some id_sig}
       \<and> pkiSignatureScheme c = None
   \<or> i = Some id_replicaMessage \<and> replicaNikeScheme c = None
   \<or> i = Some id_message \<and> cgeo c = None
   \<or> i = Some id_sendRetrievePacketReply \<and> n < SURBIDLength
   \<or> i = Some id_consensus2 \<and> 0 < n \<and> arr < consensus2BaseLength"

text \<open>Sizes a real geometry and scheme have; the parsers do not check them.\<close>

definition sane_set :: "'pk Commands \<Rightarrow> bool" where
  "sane_set c \<longleftrightarrow>
     (\<forall>g. cgeo c = Some g \<longrightarrow> 0 \<le> PayloadTagLength g \<and> 0 \<le> ForwardPayloadLength g)
   \<and> (\<forall>n. replicaNikeScheme c = Some n \<longrightarrow> 0 \<le> nikePublicKeySize n)"

lemma get_long [simp]:
  "4 \<le> length b \<Longrightarrow> get32 b = Inr (word_of_nat (be_dec (take 4 b)))"
  "8 \<le> length b \<Longrightarrow> get64 b = Inr (word_of_nat (be_dec (take 8 b)))"
  by (simp_all add: get32_def get64_def)

lemma signed_parsers_panic:
  assumes "i \<in> {id_getVote, id_vote, id_certificate, id_reveal, id_sig}"
  shows "FromBytes_dispatch x c (Some i) b spare = Inl Panic \<longleftrightarrow> pkiSignatureScheme c = None"
  using assms
  by (cases "pkiSignatureScheme c")
    (auto simp: FromBytes_dispatch_def from_bytes_defs go_bind_Panic_iff unmarshal_key_def
      split: if_splits option.splits)

lemma other_parsers_panic:
  assumes "i \<notin> {id_getVote, id_vote, id_certificate, id_reveal, id_sig, id_message,
      id_replicaMessage, id_sendRetrievePacketReply, id_consensus2}"
  shows "FromBytes_dispatch x c (Some i) b spare \<noteq> Inl Panic"
  using assms
  by (cases i) (auto simp: FromBytes_dispatch_def from_bytes_defs go_bind_Panic_iff)

lemma special_parsers_panic:
  assumes "sane_set c"
  shows "FromBytes_dispatch x c (Some id_message) b spare = Inl Panic \<longleftrightarrow> cgeo c = None"
    and "FromBytes_dispatch x c (Some id_replicaMessage) b spare = Inl Panic
      \<longleftrightarrow> replicaNikeScheme c = None"
    and "FromBytes_dispatch x c (Some id_sendRetrievePacketReply) b spare = Inl Panic
      \<longleftrightarrow> length b < SURBIDLength"
    and "FromBytes_dispatch x c (Some id_consensus2) b spare = Inl Panic
      \<longleftrightarrow> b \<noteq> [] \<and> length b + length spare < consensus2BaseLength"
proof -
  show "FromBytes_dispatch x c (Some id_message) b spare = Inl Panic \<longleftrightarrow> cgeo c = None"
    using assms
    by (cases "cgeo c")
      (auto simp: FromBytes_dispatch_def messageFromBytes_def go_bind_Panic_iff sane_set_def Let_def)
  show "FromBytes_dispatch x c (Some id_replicaMessage) b spare = Inl Panic
      \<longleftrightarrow> replicaNikeScheme c = None"
    using assms
    by (cases "replicaNikeScheme c")
      (auto simp: FromBytes_dispatch_def replicaMessageFromBytes_def HybridKeySize_def sane_set_def Let_def)
  show "FromBytes_dispatch x c (Some id_sendRetrievePacketReply) b spare = Inl Panic
      \<longleftrightarrow> length b < SURBIDLength"
    by (auto simp: FromBytes_dispatch_def sendRetrievePacketReplyFromBytes_def reslice_def)
  show "FromBytes_dispatch x c (Some id_consensus2) b spare = Inl Panic
      \<longleftrightarrow> b \<noteq> [] \<and> length b + length spare < consensus2BaseLength"
    by (cases b) (auto simp: FromBytes_dispatch_def consensus2FromBytes_def reslice_def go_bind_Panic_iff)
qed

lemma FromBytes_dispatch_panics:
  assumes "sane_set c"
  shows "FromBytes_dispatch x c i b spare = Inl Panic
    \<longleftrightarrow> parser_panics c i (length b) (length b + length spare)"
proof (cases i)
  case None
  then show ?thesis by (simp add: FromBytes_dispatch_def parser_panics_def)
next
  case (Some j)
  show ?thesis
    unfolding Some
    using signed_parsers_panic [of j x c b spare] other_parsers_panic [of j x c b spare]
      special_parsers_panic [OF assms, of x b spare]
    by (cases j) (simp_all add: parser_panics_def)
qed

text \<open>
  C21. The exact condition under which parsing a peer's message panics the process instead of
  returning an error: the message is well framed, it is not one of the empty commands answered
  inline, and its identifier and length are in \<open>parser_panics\<close>. Here \<open>length b + length spare - 6\<close>
  is the size of the array behind the body. In particular every other input, of any length and
  content, yields a command or an error.
\<close>

theorem FromBytes_panics_iff:
  assumes "sane_set c"
  shows "FromBytes x c b spare = Inl Panic \<longleftrightarrow>
     well_framed b
     \<and> (announced b = 0 \<longrightarrow> frame_id b = Some id_sendRetrievePacketReply)
     \<and> parser_panics c (frame_id b) (announced b) (length b - 6 + length spare)"
proof (cases "well_framed b")
  case False
  then show ?thesis by (simp add: FromBytes_not_well_framed)
next
  case True
  then have le: "announced b \<le> length b - 6"
    unfolding well_framed_def by (meson le_trans mod_less_eq_dividend)
  have l: "length (frame_body b) = announced b"
      "length (frame_body b) + length (frame_rest b @ spare) = length b - 6 + length spare"
    using le by (simp_all add: frame_body_def frame_rest_def)
  have d: "FromBytes_dispatch x c (frame_id b) (frame_body b) (frame_rest b @ spare) = Inl Panic
      \<longleftrightarrow> parser_panics c (frame_id b) (announced b) (length b - 6 + length spare)"
    using FromBytes_dispatch_panics [OF assms, of x "frame_id b" "frame_body b" "frame_rest b @ spare"]
    unfolding l(2) unfolding l(1) .
  have inl: "(case FromBytes_inline c (frame_id b) of Inline r \<Rightarrow> r
       | FallThrough \<Rightarrow> FromBytes_dispatch x c (frame_id b) (frame_body b) (frame_rest b @ spare)) = Inl Panic
     \<longleftrightarrow> frame_id b = Some id_sendRetrievePacketReply \<and> parser_panics c (frame_id b) (announced b)
          (length b - 6 + length spare)" if "announced b = 0"
    using d that unfolding FromBytes_inline_def parser_panics_def
    by (auto split: option.splits commandID.splits)
  show ?thesis
    using FromBytes_well_framed [OF True, of x c spare] True d inl by (auto split: if_splits)
qed

definition getVote_attack :: bytes where
  "getVote_attack = [24, 0, 0, 0, 0, 1, 0]"

theorem FromBytes_panics_iff_witness:
  "FromBytes hpqc_sizes demo_mixnet getVote_attack [] = Inl Panic"
proof -
  have a: "announced getVote_attack = 1"
    by (simp add: announced_def getVote_attack_def)
  have id: "frame_id getVote_attack = Some id_getVote"
    using byte_id_id_byte [of id_getVote] by (simp add: frame_id_def getVote_attack_def)
  have w: "well_framed getVote_attack"
    using a by (simp add: well_framed_def) (simp add: getVote_attack_def)
  have s: "sane_set demo_mixnet"
    by (simp add: sane_set_def demo_mixnet_def demo_geometry_def)
  show ?thesis
    unfolding FromBytes_panics_iff [OF s] parser_panics_def
    using a id w by (simp add: demo_mixnet_def)
qed

end
