(* ===== verification/SphinxCommands.thy ===== *)
theory SphinxCommands
  imports SphinxGeometry
begin

text \<open>
  The per-hop routing commands of a Sphinx packet (core/sphinx/commands/commands.go), and the loop
  that reads a hop's block of them, which \<open>unwrapNike\<close> (core/sphinx/sphinx.go) and \<open>unwrapKem\<close>
  (kemsphinx.go) share. The arrays of a command are byte strings; \<open>wf_command\<close> says they have
  their size.
\<close>

datatype RoutingCommand =
    NextNodeHop bytes bytes   \<comment> \<open>ID, MAC\<close>
  | Recipient bytes
  | SURBReply bytes
  | NodeDelay u32

datatype sphinx_err =
    errInvalidRoutingCommand | errCmdNextNodeHop | errCmdOversized | errCmdNoCapacity
  | errInvalidPath | errGenerateKeyPair | errRandom | errPayloadLength int int
  | errTruncatedPacket | errUnknownVersion | errUnmarshalGroupElement | errDecapsulate
  | errMACMismatch | errNullHadRest | errTwoNextNode | errTwoSURBReply
  | errTruncatedPayload | errInvalidTag | errTruncatedSURB | errInvalidSURBKeys

definition cmd_null :: byte where "cmd_null = 0"
definition cmd_nextNodeHop :: byte where "cmd_nextNodeHop = 1"
definition cmd_recipient :: byte where "cmd_recipient = 2"
definition cmd_surbReply :: byte where "cmd_surbReply = 3"
definition cmd_nodeDelay :: byte where "cmd_nodeDelay = 0x80"

lemmas cmd_bytes [simp] = cmd_null_def cmd_nextNodeHop_def cmd_recipient_def cmd_surbReply_def
  cmd_nodeDelay_def

section \<open>Serialising\<close>

definition NextNodeHop_ToBytes :: "bytes \<Rightarrow> bytes \<Rightarrow> bytes \<Rightarrow> bytes" where
  "NextNodeHop_ToBytes ident mac b = b @ [cmd_nextNodeHop] @ ident @ mac"

definition Recipient_ToBytes :: "bytes \<Rightarrow> bytes \<Rightarrow> bytes" where
  "Recipient_ToBytes ident b = b @ [cmd_recipient] @ ident"

definition SURBReply_ToBytes :: "bytes \<Rightarrow> bytes \<Rightarrow> bytes" where
  "SURBReply_ToBytes ident b = b @ [cmd_surbReply] @ ident"

definition NodeDelay_ToBytes :: "u32 \<Rightarrow> bytes \<Rightarrow> bytes" where
  "NodeDelay_ToBytes d b = b @ [cmd_nodeDelay] @ put32 d"

fun routing_ToBytes :: "RoutingCommand \<Rightarrow> bytes \<Rightarrow> bytes" where
  "routing_ToBytes (NextNodeHop i m) b = NextNodeHop_ToBytes i m b"
| "routing_ToBytes (Recipient i) b = Recipient_ToBytes i b"
| "routing_ToBytes (SURBReply i) b = SURBReply_ToBytes i b"
| "routing_ToBytes (NodeDelay d) b = NodeDelay_ToBytes d b"

section \<open>Parsing\<close>

type_synonym parsed = "RoutingCommand option \<times> bytes option"

text \<open>
  The length check is against the geometry, the two copies against the constants. The second copy
  starts at 32 and runs to the end of the block, so a block shorter than 32 bytes panics there
  whatever its capacity.
\<close>

definition nextNodeHopFromBytes :: "bytes \<Rightarrow> Geometry \<Rightarrow> (sphinx_err, parsed) go" where
  "nextNodeHopFromBytes b g =
     (if int (length b) < NextNodeHopLength g - 1 then Inl (Err errInvalidRoutingCommand)
      else go_bind (go_slice b (NextNodeHopLength g - 1) (int (length b))) (\<lambda>rest.
        if length b < NodeIDLength then Inl Panic
        else Inr (Some (NextNodeHop (take NodeIDLength b)
                                    (copy_into MACLength (drop NodeIDLength b))), Some rest)))"

definition recipeientFromBytes :: "bytes \<Rightarrow> (sphinx_err, parsed) go" where
  "recipeientFromBytes b =
     (if length b < RecipientIDLength then Inl (Err errInvalidRoutingCommand)
      else Inr (Some (Recipient (take RecipientIDLength b)), Some (drop RecipientIDLength b)))"

definition surbReplyFromBytes :: "bytes \<Rightarrow> (sphinx_err, parsed) go" where
  "surbReplyFromBytes b =
     (if length b < SURBIDLength then Inl (Err errInvalidRoutingCommand)
      else Inr (Some (SURBReply (take SURBIDLength b)), Some (drop SURBIDLength b)))"

definition nodeDelayFromBytes :: "bytes \<Rightarrow> (sphinx_err, parsed) go" where
  "nodeDelayFromBytes b =
     (if length b < 4 then Inl (Err errInvalidRoutingCommand)
      else go_bind (get32 (take 4 b)) (\<lambda>d. Inr (Some (NodeDelay d), Some (drop 4 b))))"

fun routing_FromBytes :: "bytes \<Rightarrow> Geometry \<Rightarrow> (sphinx_err, parsed) go" where
  "routing_FromBytes [] g = Inr (None, None)"
| "routing_FromBytes (ident # b) g =
     (if b = [] then
        (if ident \<noteq> cmd_null then Inl (Err errInvalidRoutingCommand) else Inr (None, None))
      else if ident = cmd_null then
        (if \<not> CtIsZero b then Inl (Err errInvalidRoutingCommand) else Inr (None, None))
      else if ident = cmd_nextNodeHop then nextNodeHopFromBytes b g
      else if ident = cmd_recipient then recipeientFromBytes b
      else if ident = cmd_surbReply then surbReplyFromBytes b
      else if ident = cmd_nodeDelay then nodeDelayFromBytes b
      else Inl (Err errInvalidRoutingCommand))"

lemmas routing_parsers = nextNodeHopFromBytes_def recipeientFromBytes_def surbReplyFromBytes_def
  nodeDelayFromBytes_def

lemma routing_FromBytes_shorter:
  assumes "routing_FromBytes b g = Inr (Some cmd, rest)"
  shows "\<exists>r. rest = Some r \<and> length r < length b"
proof (cases b)
  case Nil
  with assms show ?thesis by simp
next
  case (Cons v w)
  with assms show ?thesis
    by (auto simp: routing_parsers go_slice_def go_bind_Inr_iff split: if_splits)
qed

text \<open>The loop of \<open>unwrapNike\<close> and \<open>unwrapKem\<close> over a hop's block.\<close>

record hop_commands =
  nextNode :: "(bytes \<times> bytes) option"
  surbReply :: "bytes option"
  hopCmds :: "RoutingCommand list"

definition no_commands :: hop_commands where
  "no_commands = \<lparr>nextNode = None, surbReply = None, hopCmds = []\<rparr>"

text \<open>The type switch in the loop body: at most one next hop and one SURB reply.\<close>

fun note_command :: "RoutingCommand \<Rightarrow> hop_commands \<Rightarrow> (sphinx_err, hop_commands) go" where
  "note_command (NextNodeHop i m) st =
     (if nextNode st \<noteq> None then Inl (Err errTwoNextNode)
      else Inr (st\<lparr>nextNode := Some (i, m), hopCmds := hopCmds st @ [NextNodeHop i m]\<rparr>))"
| "note_command (SURBReply i) st =
     (if surbReply st \<noteq> None then Inl (Err errTwoSURBReply)
      else Inr (st\<lparr>surbReply := Some i, hopCmds := hopCmds st @ [SURBReply i]\<rparr>))"
| "note_command cmd st = Inr (st\<lparr>hopCmds := hopCmds st @ [cmd]\<rparr>)"

function parse_commands ::
  "Geometry \<Rightarrow> bytes \<Rightarrow> hop_commands \<Rightarrow> (sphinx_err, hop_commands) go" where
  "parse_commands g cmdBuf st =
     (case routing_FromBytes cmdBuf g of
        Inl e \<Rightarrow> Inl e
      | Inr (None, rest) \<Rightarrow> if rest \<noteq> None then Inl (Err errNullHadRest) else Inr st
      | Inr (Some cmd, rest) \<Rightarrow>
          (case note_command cmd st of
             Inl e \<Rightarrow> Inl e
           | Inr st' \<Rightarrow> parse_commands g (case rest of None \<Rightarrow> [] | Some r \<Rightarrow> r) st'))"
  by pat_completeness auto
termination
  by (relation "measure (\<lambda>(g, b, st). length b)") (auto dest: routing_FromBytes_shorter)

declare parse_commands.simps [simp del]

section \<open>Lemmas\<close>

fun wf_command :: "RoutingCommand \<Rightarrow> bool" where
  "wf_command (NextNodeHop i m) = (length i = NodeIDLength \<and> length m = MACLength)"
| "wf_command (Recipient i) = (length i = RecipientIDLength)"
| "wf_command (SURBReply i) = (length i = SURBIDLength)"
| "wf_command (NodeDelay d) = True"

fun is_next :: "RoutingCommand \<Rightarrow> bool" where
  "is_next (NextNodeHop i m) = True" | "is_next cmd = False"

fun is_surb :: "RoutingCommand \<Rightarrow> bool" where
  "is_surb (SURBReply i) = True" | "is_surb cmd = False"

definition command_block :: "RoutingCommand list \<Rightarrow> bytes" where
  "command_block cmds = concat (map (\<lambda>cmd. routing_ToBytes cmd []) cmds)"

lemma command_block_simps [simp]:
  "command_block [] = []"
  "command_block (cmd # cmds) = routing_ToBytes cmd [] @ command_block cmds"
  "command_block (xs @ ys) = command_block xs @ command_block ys"
  by (simp_all add: command_block_def)

lemmas routing_writers = NextNodeHop_ToBytes_def Recipient_ToBytes_def SURBReply_ToBytes_def
  NodeDelay_ToBytes_def

lemma routing_ToBytes_append: "routing_ToBytes cmd b = b @ routing_ToBytes cmd []"
  by (cases cmd) (simp_all add: routing_writers)

lemma routing_FromBytes_ToBytes:
  assumes "wf_command cmd" and "NextNodeHopLength g = nextNodeHopLength"
  shows "routing_FromBytes (routing_ToBytes cmd [] @ r) g = Inr (Some cmd, Some r)"
  using assms
  by (cases cmd)
    (auto simp: routing_writers routing_parsers nextNodeHopLength_def sphinx_sizes go_slice_def
      copy_into_def simp flip: length_0_conv)

lemma routing_FromBytes_zeros: "routing_FromBytes (replicate k 0) g = Inr (None, None)"
  by (cases k) simp_all

fun note_commands :: "RoutingCommand list \<Rightarrow> hop_commands \<Rightarrow> (sphinx_err, hop_commands) go" where
  "note_commands [] st = Inr st"
| "note_commands (cmd # cmds) st = go_bind (note_command cmd st) (note_commands cmds)"

lemma parse_commands_block:
  assumes "NextNodeHopLength g = nextNodeHopLength" and "\<forall>cmd \<in> set cmds. wf_command cmd"
  shows "parse_commands g (command_block cmds @ replicate k 0) st = note_commands cmds st"
  using assms(2)
proof (induction cmds arbitrary: st)
  case Nil
  then show ?case by (simp add: parse_commands.simps routing_FromBytes_zeros)
next
  case (Cons cmd cmds)
  then show ?case
    using routing_FromBytes_ToBytes [OF _ assms(1), of cmd "command_block cmds @ replicate k 0"]
    by (subst parse_commands.simps) (simp add: go_bind_def split: sum.split)
qed

definition one_at_most :: "('a \<Rightarrow> bool) \<Rightarrow> 'a list \<Rightarrow> bool" where
  "one_at_most P xs \<longleftrightarrow> length (filter P xs) \<le> 1"

text \<open>What a hop learns from its block.\<close>

fun next_of :: "RoutingCommand list \<Rightarrow> (bytes \<times> bytes) option" where
  "next_of [] = None"
| "next_of (NextNodeHop i m # cmds) = Some (i, m)"
| "next_of (cmd # cmds) = next_of cmds"

fun surb_of :: "RoutingCommand list \<Rightarrow> bytes option" where
  "surb_of [] = None"
| "surb_of (SURBReply i # cmds) = Some i"
| "surb_of (cmd # cmds) = surb_of cmds"

lemma next_of_None: "next_of cmds = None \<longleftrightarrow> filter is_next cmds = []"
  by (induction cmds rule: next_of.induct) simp_all

lemma surb_of_None: "surb_of cmds = None \<longleftrightarrow> filter is_surb cmds = []"
  by (induction cmds rule: surb_of.induct) simp_all

lemma none_at_most_one:
  "next_of cmds = None \<Longrightarrow> length (filter is_next cmds) \<le> Suc 0"
  "surb_of cmds = None \<Longrightarrow> length (filter is_surb cmds) \<le> Suc 0"
  by (simp_all add: next_of_None surb_of_None)

lemma note_commands_ok:
  assumes "one_at_most is_next cmds" "one_at_most is_surb cmds"
    and "nextNode st = None \<or> filter is_next cmds = []"
    and "surbReply st = None \<or> filter is_surb cmds = []"
  shows "note_commands cmds st = Inr (st\<lparr>
      nextNode := (case next_of cmds of None \<Rightarrow> nextNode st | Some n \<Rightarrow> Some n),
      surbReply := (case surb_of cmds of None \<Rightarrow> surbReply st | Some i \<Rightarrow> Some i),
      hopCmds := hopCmds st @ cmds\<rparr>)"
  using assms
proof (induction cmds arbitrary: st)
  case Nil
  then show ?case by simp
next
  case (Cons cmd cmds)
  then show ?case
    by (cases cmd) (auto simp: one_at_most_def none_at_most_one simp flip: next_of_None surb_of_None split: option.split)
qed

lemma parse_commands_ok:
  assumes "NextNodeHopLength g = nextNodeHopLength" and "\<forall>cmd \<in> set cmds. wf_command cmd"
    and "one_at_most is_next cmds" "one_at_most is_surb cmds"
  shows "parse_commands g (command_block cmds @ replicate k 0) no_commands =
     Inr \<lparr>nextNode = next_of cmds, surbReply = surb_of cmds, hopCmds = cmds\<rparr>"
  using assms note_commands_ok [OF assms(3,4), of no_commands]
  by (simp add: parse_commands_block no_commands_def split: option.split)

end
