(* ===== verification/SphinxPacket.thy ===== *)
theory SphinxPacket
  imports SphinxCommands
begin

text \<open>
  Building and unwrapping Sphinx packets and single-use reply blocks (core/sphinx/sphinx.go,
  kemsphinx.go, surb.go, and the key derivation of internal/crypto/crypto.go).

  The primitives come from hpqc, the Go library, bsaes and aez; \<open>crypto\<close> holds the operations the
  code calls. Randomness is an argument: the client's key pair, the bytes read for the hops a path
  leaves out, the payload key of a SURB, the ciphertexts of a KEM. The NIKE and the KEM variants
  repeat the same code around different elements; what they share is one definition here, with the
  KEM's ciphertext size as an option.

  Slices of a packet are taken with capacity equal to length. \<open>unwrap\<close> only slices below
  \<open>HeaderLength\<close> when the geometry adds up, so with such a geometry capacity plays no role.
\<close>

section \<open>Primitives\<close>

record ('pub, 'priv) crypto =
  nikeScheme :: nike_scheme
  DerivePublicKey :: "'priv \<Rightarrow> 'pub"
  DeriveSecret :: "'priv \<Rightarrow> 'pub \<Rightarrow> bytes"
  PublicKeyBytes :: "'pub \<Rightarrow> bytes"
  UnmarshalPublicKey :: "bytes \<Rightarrow> 'pub option"   \<comment> \<open>and FromBytes on an empty key\<close>
  BlindKey :: "'pub \<Rightarrow> 'priv \<Rightarrow> 'pub option"      \<comment> \<open>PublicKey.Blind, in place\<close>
  SchemeBlind :: "'pub \<Rightarrow> 'priv \<Rightarrow> 'pub"          \<comment> \<open>Scheme.Blind\<close>
  PrivateKeyFromSeed :: "bytes \<Rightarrow> 'priv"         \<comment> \<open>GeneratePrivateKey on a seeded reader\<close>
  CiphertextSize :: int                          \<comment> \<open>of the KEM\<close>
  Decapsulate :: "'priv \<Rightarrow> bytes \<Rightarrow> bytes option"
  hkdf_expand :: "bytes \<Rightarrow> bytes \<Rightarrow> nat \<Rightarrow> bytes"
  hmac_sha256 :: "bytes \<Rightarrow> bytes \<Rightarrow> bytes"
  aes_ctr :: "bytes \<Rightarrow> bytes \<Rightarrow> nat \<Rightarrow> bytes"      \<comment> \<open>that many bytes of key stream\<close>
  aez_encrypt :: "bytes \<Rightarrow> bytes \<Rightarrow> bytes \<Rightarrow> bytes"
  aez_decrypt :: "bytes \<Rightarrow> bytes \<Rightarrow> bytes \<Rightarrow> bytes option"
  sha512_256 :: "bytes \<Rightarrow> bytes"

definition MACKeyLength :: nat where "MACKeyLength = 32"
definition StreamKeyLength :: nat where "StreamKeyLength = 32"
definition StreamIVLength :: nat where "StreamIVLength = 16"
definition privateKeySeedSize :: nat where "privateKeySeedSize = 32"

definition kdfInfo :: bytes where
  "kdfInfo = map of_char ''katzenpost-kdf-v0-hkdf-sha256''"

record 'priv PacketKeys =
  HeaderMAC :: bytes
  HeaderEncryption :: bytes
  HeaderEncryptionIV :: bytes
  PayloadEncryption :: bytes
  BlindingFactor :: "'priv option"

definition okmLength :: nat where
  "okmLength = MACKeyLength + StreamKeyLength + StreamIVLength + SPRPKeyLength + privateKeySeedSize"

definition KDF :: "('pub, 'priv) crypto \<Rightarrow> bytes \<Rightarrow> bool \<Rightarrow> ('e, 'priv PacketKeys) go" where
  "KDF c ikm blinding =
     (let okm = hkdf_expand c ikm kdfInfo okmLength in
      if length okm \<noteq> okmLength then Inl Panic
      else let p1 = drop MACKeyLength okm;
               p2 = drop StreamKeyLength p1;
               p3 = drop StreamIVLength p2;
               p4 = drop SPRPKeyLength p3
           in Inr \<lparr>HeaderMAC = take MACKeyLength okm,
                   HeaderEncryption = take StreamKeyLength p1,
                   HeaderEncryptionIV = take StreamIVLength p2,
                   PayloadEncryption = take SPRPKeyLength p3,
                   BlindingFactor = (if blinding
                     then Some (PrivateKeyFromSeed c (take privateKeySeedSize p4)) else None)\<rparr>)"

definition SPRPEncrypt :: "('pub, 'priv) crypto \<Rightarrow> bytes \<Rightarrow> bytes \<Rightarrow> bytes \<Rightarrow> bytes" where
  "SPRPEncrypt c key iv msg = aez_encrypt c key iv msg"

definition SPRPDecrypt :: "('pub, 'priv) crypto \<Rightarrow> bytes \<Rightarrow> bytes \<Rightarrow> bytes \<Rightarrow> ('e, bytes) go" where
  "SPRPDecrypt c key iv msg = or_panic (aez_decrypt c key iv msg)"

text \<open>\<open>Stream.KeyStream\<close>: the stream XORed onto zeros.\<close>

definition KeyStream :: "('pub, 'priv) crypto \<Rightarrow> bytes \<Rightarrow> bytes \<Rightarrow> nat \<Rightarrow> bytes" where
  "KeyStream c key iv n = aes_ctr c key iv n"

definition xorBytes :: "bytes \<Rightarrow> bytes \<Rightarrow> ('e, bytes) go" where
  "xorBytes a b = (if length a \<noteq> length b then Inl Panic
                   else Inr (map2 (\<lambda>x y. Bit_Operations.xor x y) a b))"

definition v0AD :: bytes where "v0AD = [0, 0]"

section \<open>Paths\<close>

record 'pub PathHop =
  hopID :: bytes
  hopKey :: 'pub
  hopCommands :: "RoutingCommand list"

type_synonym sprp_key = "bytes \<times> bytes"

text \<open>\<open>commandsToBytes\<close>: the block is a slice of capacity \<open>PerHopRoutingInfoLength\<close>.\<close>

fun append_commands :: "RoutingCommand list \<Rightarrow> bytes \<Rightarrow> (sphinx_err, bytes) go" where
  "append_commands [] b = Inr b"
| "append_commands (cmd # cmds) b =
     (case cmd of NextNodeHop i m \<Rightarrow> Inl (Err errCmdNextNodeHop)
      | _ \<Rightarrow> append_commands cmds (routing_ToBytes cmd b))"

definition commandsToBytes :: "Geometry \<Rightarrow> RoutingCommand list \<Rightarrow> bool \<Rightarrow> (sphinx_err, bytes) go" where
  "commandsToBytes g cmds isTerminal =
     (if PerHopRoutingInfoLength g < 0 then Inl Panic
      else go_bind (append_commands cmds []) (\<lambda>b.
        if int (length b) > PerHopRoutingInfoLength g then Inl (Err errCmdOversized)
        else if \<not> isTerminal \<and> PerHopRoutingInfoLength g - int (length b) < NextNodeHopLength g
          then Inl (Err errCmdNoCapacity)
        else Inr b))"

section \<open>Key material\<close>

text \<open>The inner loop: the shared secret of a hop, blinded by every earlier hop's factor.\<close>

fun blind_secret ::
  "('pub, 'priv) crypto \<Rightarrow> bytes \<Rightarrow> 'priv PacketKeys list \<Rightarrow> (sphinx_err, bytes) go" where
  "blind_secret c s [] = Inr s"
| "blind_secret c s (k # ks) =
     go_bind (or_panic (UnmarshalPublicKey c s)) (\<lambda>pubkey.
     go_bind (or_panic (BlindingFactor k)) (\<lambda>f.
       blind_secret c (PublicKeyBytes c (SchemeBlind c pubkey f)) ks))"

text \<open>The loop over the hops after the first; \<open>clientPublicKey\<close> is blinded in place.\<close>

fun derive_hops ::
  "('pub, 'priv) crypto \<Rightarrow> 'priv \<Rightarrow> 'pub \<Rightarrow> 'priv PacketKeys list \<Rightarrow> 'pub list
     \<Rightarrow> 'pub PathHop list \<Rightarrow> (sphinx_err, 'priv PacketKeys list \<times> 'pub list) go" where
  "derive_hops c clientPrivateKey clientPublicKey keys groupElements [] = Inr (keys, groupElements)"
| "derive_hops c clientPrivateKey clientPublicKey keys groupElements (h # hs) =
     go_bind (blind_secret c (DeriveSecret c clientPrivateKey (hopKey h)) keys) (\<lambda>sharedSecret.
     go_bind (KDF c sharedSecret True) (\<lambda>k.
     go_bind (or_panic (BlindingFactor (last keys))) (\<lambda>f.
     go_bind (or_panic (BlindKey c clientPublicKey f)) (\<lambda>blinded.
     go_bind (or_panic (UnmarshalPublicKey c (PublicKeyBytes c blinded))) (\<lambda>ge.
       derive_hops c clientPrivateKey blinded (keys @ [k]) (groupElements @ [ge]) hs)))))"

definition derive_keys ::
  "('pub, 'priv) crypto \<Rightarrow> 'pub \<times> 'priv \<Rightarrow> 'pub PathHop list
     \<Rightarrow> (sphinx_err, 'priv PacketKeys list \<times> 'pub list) go" where
  "derive_keys c pair path =
     (case path of [] \<Rightarrow> Inl Panic
      | h # hs \<Rightarrow>
          go_bind (KDF c (DeriveSecret c (snd pair) (hopKey h)) True) (\<lambda>k.
          go_bind (or_panic (UnmarshalPublicKey c (PublicKeyBytes c (fst pair)))) (\<lambda>ge.
            derive_hops c (snd pair) (fst pair) [k] [ge] hs)))"

text \<open>The KEM variant encapsulates to every hop; the random results are the arguments.\<close>

fun kem_keys ::
  "('pub, 'priv) crypto \<Rightarrow> (bytes \<times> bytes) list \<Rightarrow> (sphinx_err, 'priv PacketKeys list \<times> bytes list) go" where
  "kem_keys c [] = Inr ([], [])"
| "kem_keys c ((ct, sharedSecret) # es) =
     go_bind (KDF c sharedSecret False) (\<lambda>k.
     go_bind (kem_keys c es) (\<lambda>(ks, cts). Inr (k # ks, ct # cts)))"

section \<open>The header\<close>

text \<open>The keystream loop: for each hop the part that covers the header and the padding.\<close>

fun key_streams ::
  "('pub, 'priv) crypto \<Rightarrow> Geometry \<Rightarrow> int \<Rightarrow> bytes \<Rightarrow> 'priv PacketKeys list
     \<Rightarrow> (sphinx_err, (bytes \<times> bytes) list) go" where
  "key_streams c g i prevPad [] = Inr []"
| "key_streams c g i prevPad (k # ks) =
     go_bind (make_bytes (RoutingInfoLength g + PerHopRoutingInfoLength g)) (\<lambda>z.
     let keyStream = KeyStream c (HeaderEncryption k) (HeaderEncryptionIV k) (length z);
         ksLen = int (length keyStream) - (i + 1) * PerHopRoutingInfoLength g in
     go_bind (go_slice keyStream 0 ksLen) (\<lambda>riKeyStream.
     go_bind (go_slice keyStream ksLen (int (length keyStream))) (\<lambda>raw.
     go_bind (go_slice raw 0 (int (length prevPad))) (\<lambda>covered.
     go_bind (xorBytes covered prevPad) (\<lambda>x.
     let riPadding = x @ drop (length prevPad) raw in
     go_bind (key_streams c g (i + 1) riPadding ks) (\<lambda>rest.
       Inr ((riKeyStream, riPadding) # rest)))))))"

text \<open>What the routing block of one hop is made from.\<close>

record 'priv hop_material =
  m_ID :: bytes
  m_commands :: "RoutingCommand list"
  m_keys :: "'priv PacketKeys"
  m_element :: bytes          \<comment> \<open>group element or KEM ciphertext\<close>
  m_keyStream :: bytes
  m_prevPadding :: bytes      \<comment> \<open>padding of the hop before, empty for the first\<close>

text \<open>
  One hop's fragment: its commands, the next hop unless it is the last, zeros up to the block size;
  and with a KEM the next ciphertext over the end of it.
\<close>

definition hop_fragment ::
  "Geometry \<Rightarrow> int option \<Rightarrow> RoutingCommand list \<Rightarrow> (bytes \<times> bytes \<times> bytes) option
     \<Rightarrow> (sphinx_err, bytes) go" where
  "hop_fragment g ctSize cmds next =
     go_bind (commandsToBytes g cmds (next = None)) (\<lambda>b.
     let b = (case next of None \<Rightarrow> b
              | Some (ident, mac, ct) \<Rightarrow>
                  NextNodeHop_ToBytes (copy_into NodeIDLength ident) (copy_into MACLength mac) b);
         b = b @ replicate (nat (PerHopRoutingInfoLength g - int (length b))) 0 in
     case (next, ctSize) of
       (Some (ident, mac, ct), Some n) \<Rightarrow>
         go_bind (go_slice b (PerHopRoutingInfoLength g - n) (int (length b))) (\<lambda>tail.
           Inr (take (nat (PerHopRoutingInfoLength g - n)) b @ copy_over tail ct))
     | _ \<Rightarrow> Inr b)"

text \<open>
  The loop that builds the routing information, from the last hop to the first. The result of each
  round is the routing information and the MAC over it.
\<close>

fun build_routing ::
  "('pub, 'priv) crypto \<Rightarrow> Geometry \<Rightarrow> int option \<Rightarrow> bytes \<Rightarrow> 'priv hop_material list
     \<Rightarrow> (sphinx_err, bytes \<times> bytes) go" where
  "build_routing c g ctSize skipped [] = Inr (skipped, [])"
| "build_routing c g ctSize skipped (h # hs) =
     go_bind (build_routing c g ctSize skipped hs) (\<lambda>(routingInfo, mac).
     go_bind (hop_fragment g ctSize (m_commands h)
               (case hs of [] \<Rightarrow> None | h' # _ \<Rightarrow> Some (m_ID h', mac, m_element h'))) (\<lambda>riFragment.
     go_bind (xorBytes (riFragment @ routingInfo) (m_keyStream h)) (\<lambda>routingInfo.
       Inr (routingInfo, hmac_sha256 c (HeaderMAC (m_keys h))
              (v0AD @ m_element h @ routingInfo @ m_prevPadding h)))))"

fun hop_materials ::
  "bytes \<Rightarrow> 'pub PathHop list \<Rightarrow> 'priv PacketKeys list \<Rightarrow> bytes list \<Rightarrow> (bytes \<times> bytes) list
     \<Rightarrow> 'priv hop_material list" where
  "hop_materials prev (h # hs) (k # ks) (e # es) ((s, p) # ss) =
     \<lparr>m_ID = hopID h, m_commands = hopCommands h, m_keys = k, m_element = e, m_keyStream = s,
      m_prevPadding = prev\<rparr> # hop_materials p hs ks es ss"
| "hop_materials prev _ _ _ _ = []"

text \<open>Everything of \<open>createHeader\<close> and \<open>createKEMHeader\<close> after the keys are known.\<close>

definition assemble_header ::
  "('pub, 'priv) crypto \<Rightarrow> Geometry \<Rightarrow> int option \<Rightarrow> sphinx_err fail \<Rightarrow> (nat \<Rightarrow> bytes option)
     \<Rightarrow> 'pub PathHop list \<Rightarrow> 'priv PacketKeys list \<Rightarrow> bytes list
     \<Rightarrow> (sphinx_err, bytes \<times> sprp_key list) go" where
  "assemble_header c g ctSize onRandomError random path keys elements =
     go_bind (key_streams c g 0 [] keys) (\<lambda>streams.
     go_bind (if NrHops g - int (length path) > 0
              then go_bind (make_bytes ((NrHops g - int (length path)) * PerHopRoutingInfoLength g))
                (\<lambda>z. case random (length z) of None \<Rightarrow> Inl onRandomError | Some r \<Rightarrow> Inr r)
              else Inr []) (\<lambda>skipped.
     go_bind (make_bytes (PerHopRoutingInfoLength g)) (\<lambda>zeroBytes.
     go_bind (build_routing c g ctSize skipped (hop_materials [] path keys elements streams))
       (\<lambda>(routingInfo, mac).
     go_bind (make_bytes (HeaderLength g)) (\<lambda>_.
     go_bind (or_panic (case elements of [] \<Rightarrow> None | e # _ \<Rightarrow> Some e)) (\<lambda>element0.
       Inr (v0AD @ element0 @ routingInfo @ mac,
            map (\<lambda>k. (PayloadEncryption k, HeaderEncryptionIV k)) keys)))))))"

definition createHeader ::
  "('pub, 'priv) crypto \<Rightarrow> Geometry \<Rightarrow> ('pub \<times> 'priv) option \<Rightarrow> (nat \<Rightarrow> bytes option)
     \<Rightarrow> 'pub PathHop list \<Rightarrow> (sphinx_err, bytes \<times> sprp_key list) go" where
  "createHeader c g keypair random path =
     (if int (length path) > NrHops g then Inl (Err errInvalidPath)
      else go_bind (or_err errGenerateKeyPair keypair) (\<lambda>pair.
        go_bind (derive_keys c pair path) (\<lambda>(keys, groupElements).
          assemble_header c g None (Err errRandom) random path keys
            (map (PublicKeyBytes c) groupElements))))"

text \<open>\<open>es\<close> are the results of encapsulating to the hops, in order.\<close>

definition createKEMHeader ::
  "('pub, 'priv) crypto \<Rightarrow> Geometry \<Rightarrow> (bytes \<times> bytes) list \<Rightarrow> (nat \<Rightarrow> bytes option)
     \<Rightarrow> 'pub PathHop list \<Rightarrow> (sphinx_err, bytes \<times> sprp_key list) go" where
  "createKEMHeader c g es random path =
     (if int (length path) > NrHops g then Inl (Err errInvalidPath)
      else go_bind (kem_keys c es) (\<lambda>(keys, cts).
        assemble_header c g (Some (CiphertextSize c)) Panic random path keys cts))"

section \<open>Packets\<close>

text \<open>The layers of the payload, the last hop's first.\<close>

fun encrypt_layers :: "('pub, 'priv) crypto \<Rightarrow> sprp_key list \<Rightarrow> bytes \<Rightarrow> bytes" where
  "encrypt_layers c [] b = b"
| "encrypt_layers c ((key, iv) # ks) b = SPRPEncrypt c key iv (encrypt_layers c ks b)"

definition seal_payload ::
  "('pub, 'priv) crypto \<Rightarrow> Geometry \<Rightarrow> bytes \<Rightarrow> sprp_key list \<Rightarrow> bytes \<Rightarrow> (sphinx_err, bytes) go" where
  "seal_payload c g hdr sprpKeys payload =
     go_bind (make_bytes (PerHopRoutingInfoLength g)) (\<lambda>zeroBytes.
     go_bind (make_bytes (int (length hdr) + PayloadTagLength g + int (length payload))) (\<lambda>_.
     go_bind (go_slice zeroBytes 0 (PayloadTagLength g)) (\<lambda>tag.
       Inr (hdr @ copy_over (tag @ payload) (encrypt_layers c sprpKeys (tag @ payload))))))"

definition newNikePacket ::
  "('pub, 'priv) crypto \<Rightarrow> Geometry \<Rightarrow> ('pub \<times> 'priv) option \<Rightarrow> (nat \<Rightarrow> bytes option)
     \<Rightarrow> 'pub PathHop list \<Rightarrow> bytes \<Rightarrow> (sphinx_err, bytes) go" where
  "newNikePacket c g keypair random path payload =
     (if int (length payload) \<noteq> ForwardPayloadLength g
      then Inl (Err (errPayloadLength (int (length payload)) (ForwardPayloadLength g)))
      else go_bind (createHeader c g keypair random path) (\<lambda>(hdr, sprpKeys).
        seal_payload c g hdr sprpKeys payload))"

definition newKEMPacket ::
  "('pub, 'priv) crypto \<Rightarrow> Geometry \<Rightarrow> (bytes \<times> bytes) list \<Rightarrow> (nat \<Rightarrow> bytes option)
     \<Rightarrow> 'pub PathHop list \<Rightarrow> bytes \<Rightarrow> (sphinx_err, bytes) go" where
  "newKEMPacket c g es random path payload =
     (if int (length payload) \<noteq> ForwardPayloadLength g
      then Inl (Err (errPayloadLength (int (length payload)) (ForwardPayloadLength g)))
      else go_bind (createKEMHeader c g es random path) (\<lambda>(hdr, sprpKeys).
        seal_payload c g hdr sprpKeys payload))"

section \<open>Unwrapping\<close>

text \<open>The results of \<open>Unwrap\<close>, with the packet it may have rewritten in place; nil is \<open>None\<close>.\<close>

record unwrapped =
  u_payload :: "bytes option"
  u_replayTag :: bytes
  u_commands :: "RoutingCommand list"
  u_packet :: bytes

text \<open>An error comes with the replay tag, once that is known.\<close>

type_synonym unwrap_err = "sphinx_err \<times> bytes option"

definition with_tag :: "bytes option \<Rightarrow> (sphinx_err, 'a) go \<Rightarrow> (unwrap_err, 'a) go" where
  "with_tag tag r = (case r of Inr a \<Rightarrow> Inr a | Inl Panic \<Rightarrow> Inl Panic
                     | Inl (Err e) \<Rightarrow> Inl (Err (e, tag)))"

text \<open>
  The payload branch of the last hop: a tag of zeros is checked and removed, unless the payload is
  a SURB reply.
\<close>

definition open_payload :: "Geometry \<Rightarrow> bool \<Rightarrow> bytes \<Rightarrow> (sphinx_err, bytes) go" where
  "open_payload g isReply payload =
     (if int (length payload) < PayloadTagLength g then Inl (Err errTruncatedPayload)
      else if isReply then Inr payload
      else go_bind (go_slice payload 0 (PayloadTagLength g)) (\<lambda>tag.
        if \<not> CtIsZero tag then Inl (Err errInvalidTag)
        else go_slice payload (PayloadTagLength g) (int (length payload))))"

text \<open>
  The end of \<open>Unwrap\<close>: with a next hop the packet is rewritten in place for it, with the element
  \<open>nextElement\<close> makes; without one the payload is opened.
\<close>

definition finish_unwrap ::
  "Geometry \<Rightarrow> bytes \<Rightarrow> int \<Rightarrow> bytes \<Rightarrow> bytes \<Rightarrow> bytes \<Rightarrow> bytes \<Rightarrow> bytes \<Rightarrow> bytes \<Rightarrow> hop_commands
     \<Rightarrow> (sphinx_err, bytes) go \<Rightarrow> (sphinx_err, unwrapped) go" where
  "finish_unwrap g pkt riOff ri newRoutingInfo pktMac sealed payload replayTag st nextElement =
     (case nextNode st of
       Some (ident, nextMAC) \<Rightarrow>
         go_bind nextElement (\<lambda>element.
         go_bind (go_slice pkt 2 riOff) (\<lambda>oldElement.
           Inr \<lparr>u_payload = None, u_replayTag = replayTag, u_commands = hopCmds st,
                u_packet = take 2 pkt @ copy_over oldElement element
                   @ copy_over ri newRoutingInfo @ copy_over pktMac nextMAC
                   @ copy_over sealed payload\<rparr>))
     | None \<Rightarrow>
         go_bind (open_payload g (surbReply st \<noteq> None) payload) (\<lambda>payload.
           Inr \<lparr>u_payload = Some payload, u_replayTag = replayTag, u_commands = hopCmds st,
                u_packet = pkt\<rparr>))"

text \<open>
  From the derived keys on, both variants do the same: check the MAC, decrypt the routing block,
  read the commands, decrypt the payload, and forward or deliver. \<open>nextElement\<close> makes the element
  for the next hop out of the ciphertext found in the block.
\<close>

definition unwrap_keyed ::
  "('pub, 'priv) crypto \<Rightarrow> Geometry \<Rightarrow> int \<Rightarrow> int \<Rightarrow> 'priv PacketKeys \<Rightarrow> bytes
     \<Rightarrow> (bytes \<Rightarrow> (sphinx_err, bytes) go) \<Rightarrow> bytes \<Rightarrow> (sphinx_err, unwrapped) go" where
  "unwrap_keyed c g elemSize ctSize keys replayTag nextElement pkt =
     (let geOff = 2;
          riOff = geOff + elemSize;
          macOff = riOff + RoutingInfoLength g;
          payloadOff = macOff + int MACLength in
     go_bind (go_slice pkt 0 macOff) (\<lambda>maced.
     let mac = hmac_sha256 c (HeaderMAC keys) maced in
     go_bind (go_slice pkt macOff (macOff + int MACLength)) (\<lambda>pktMac.
     if pktMac \<noteq> mac then Inl (Err errMACMismatch)
     else go_bind (make_bytes (RoutingInfoLength g + PerHopRoutingInfoLength g)) (\<lambda>b0.
     go_bind (go_slice b0 0 (RoutingInfoLength g)) (\<lambda>dst.
     go_bind (go_slice pkt riOff (riOff + RoutingInfoLength g)) (\<lambda>ri.
     let b1 = copy_over dst ri @ drop (length dst) b0 in
     go_bind (xorBytes b1 (KeyStream c (HeaderEncryption keys) (HeaderEncryptionIV keys) (length b1))) (\<lambda>b.
     go_bind (go_slice b (PerHopRoutingInfoLength g) (int (length b))) (\<lambda>newRoutingInfo.
     go_bind (go_slice b 0 (PerHopRoutingInfoLength g - ctSize)) (\<lambda>cmdBuf.
     go_bind (go_slice b (PerHopRoutingInfoLength g - ctSize) (PerHopRoutingInfoLength g)) (\<lambda>kemCiphertext.
     go_bind (parse_commands g cmdBuf no_commands) (\<lambda>st.
     go_bind (go_slice pkt payloadOff (int (length pkt))) (\<lambda>sealed.
     go_bind (if sealed = [] then Inr sealed
              else SPRPDecrypt c (PayloadEncryption keys) (HeaderEncryptionIV keys) sealed) (\<lambda>payload.
     finish_unwrap g pkt riOff ri newRoutingInfo pktMac sealed payload replayTag st
       (nextElement kemCiphertext))))))))))))))"

text \<open>The checks before any key is derived, and the element of this hop.\<close>

definition unwrap_element :: "Geometry \<Rightarrow> int \<Rightarrow> bytes \<Rightarrow> (sphinx_err, bytes) go" where
  "unwrap_element g elemSize pkt =
     (if int (length pkt) < HeaderLength g then Inl (Err errTruncatedPacket)
      else go_bind (go_slice pkt 0 2) (\<lambda>ad.
        if ad \<noteq> v0AD then Inl (Err errUnknownVersion)
        else go_slice pkt 2 (2 + elemSize)))"

definition unwrapNike ::
  "('pub, 'priv) crypto \<Rightarrow> Geometry \<Rightarrow> 'priv \<Rightarrow> bytes \<Rightarrow> (unwrap_err, unwrapped) go" where
  "unwrapNike c g privKey pkt =
     (let elemSize = nikePublicKeySize (nikeScheme c) in
     go_bind (with_tag None (unwrap_element g elemSize pkt)) (\<lambda>element.
     go_bind (or_err (errUnmarshalGroupElement, None) (UnmarshalPublicKey c element)) (\<lambda>groupElement.
     let sharedSecret = DeriveSecret c privKey groupElement;
         replayTag = sha512_256 c (PublicKeyBytes c groupElement) in
     go_bind (KDF c sharedSecret True) (\<lambda>keys.
       with_tag (Some replayTag) (unwrap_keyed c g elemSize 0 keys replayTag
         (\<lambda>_. go_bind (or_panic (BlindingFactor keys)) (\<lambda>f.
               go_bind (or_panic (BlindKey c groupElement f)) (\<lambda>blinded.
                 Inr (PublicKeyBytes c blinded)))) pkt)))))"

definition unwrapKem ::
  "('pub, 'priv) crypto \<Rightarrow> Geometry \<Rightarrow> 'priv \<Rightarrow> bytes \<Rightarrow> (unwrap_err, unwrapped) go" where
  "unwrapKem c g privKey pkt =
     (let elemSize = CiphertextSize c in
     go_bind (with_tag None (unwrap_element g elemSize pkt)) (\<lambda>kemCiphertext.
     go_bind (or_err (errDecapsulate, None) (Decapsulate c privKey kemCiphertext)) (\<lambda>sharedSecret.
     let replayTag = sha512_256 c kemCiphertext in
     go_bind (KDF c sharedSecret False) (\<lambda>keys.
       with_tag (Some replayTag)
         (unwrap_keyed c g elemSize elemSize keys replayTag (\<lambda>ct. Inr ct) pkt)))))"

section \<open>Single-use reply blocks (surb.go)\<close>

definition sprpKeyMaterialLength :: nat where
  "sprpKeyMaterialLength = SPRPKeyLength + SPRPIVLength"

text \<open>
  What follows the header in \<open>newNikeSURB\<close> and \<open>newKemSURB\<close>: the keys, last hop first and the
  payload key at the end; and the SURB. \<open>keyPayload\<close> is the random payload key.
\<close>

definition surb_keys :: "sprp_key list \<Rightarrow> bytes \<Rightarrow> bytes" where
  "surb_keys sprpKeys keyPayload = concat (map (\<lambda>(key, iv). key @ iv) (rev sprpKeys)) @ keyPayload"

definition finish_surb ::
  "Geometry \<Rightarrow> 'pub PathHop list \<Rightarrow> bytes \<Rightarrow> bytes \<times> sprp_key list \<Rightarrow> (sphinx_err, bytes \<times> bytes) go" where
  "finish_surb g path keyPayload = (\<lambda>(hdr, sprpKeys).
     go_bind (make_bytes (SURBLength g)) (\<lambda>_.
     go_bind (or_panic (case path of [] \<Rightarrow> None | h # _ \<Rightarrow> Some (hopID h))) (\<lambda>ident.
       Inr (hdr @ ident @ keyPayload, surb_keys sprpKeys keyPayload))))"

definition newNikeSURB ::
  "('pub, 'priv) crypto \<Rightarrow> Geometry \<Rightarrow> bytes option \<Rightarrow> ('pub \<times> 'priv) option
     \<Rightarrow> (nat \<Rightarrow> bytes option) \<Rightarrow> 'pub PathHop list \<Rightarrow> (sphinx_err, bytes \<times> bytes) go" where
  "newNikeSURB c g keyPayload keypair random path =
     go_bind (or_err errRandom keyPayload) (\<lambda>kp.
     go_bind (createHeader c g keypair random path) (finish_surb g path kp))"

definition newKemSURB ::
  "('pub, 'priv) crypto \<Rightarrow> Geometry \<Rightarrow> bytes option \<Rightarrow> (bytes \<times> bytes) list
     \<Rightarrow> (nat \<Rightarrow> bytes option) \<Rightarrow> 'pub PathHop list \<Rightarrow> (sphinx_err, bytes \<times> bytes) go" where
  "newKemSURB c g keyPayload es random path =
     go_bind (or_err errRandom keyPayload) (\<lambda>kp.
     go_bind (createKEMHeader c g es random path) (finish_surb g path kp))"

definition NewPacketFromSURB ::
  "('pub, 'priv) crypto \<Rightarrow> Geometry \<Rightarrow> bytes \<Rightarrow> bytes \<Rightarrow> (sphinx_err, bytes \<times> bytes) go" where
  "NewPacketFromSURB c g surb payload =
     (let idOff = HeaderLength g;
          keyOff = idOff + int NodeIDLength;
          ivOff = keyOff + int SPRPKeyLength in
     if int (length surb) \<noteq> SURBLength g then Inl (Err errTruncatedSURB)
     else go_bind (go_slice surb 0 (HeaderLength g)) (\<lambda>hdr.
     go_bind (go_slice surb idOff keyOff) (\<lambda>ident.
     go_bind (go_slice surb keyOff ivOff) (\<lambda>key.
     go_bind (go_slice surb ivOff (int (length surb))) (\<lambda>iv.
     go_bind (seal_payload c g hdr [(copy_into SPRPKeyLength key, copy_into SPRPIVLength iv)] payload)
       (\<lambda>pkt. Inr (pkt, copy_into NodeIDLength ident)))))))"

text \<open>
  The loop of \<open>DecryptSURBPayload\<close> over the keys that are left; it decrypts with the last and
  undoes a hop's decryption with the others.
\<close>

fun surb_layers ::
  "('pub, 'priv) crypto \<Rightarrow> nat \<Rightarrow> bytes \<Rightarrow> bytes \<Rightarrow> (sphinx_err, bytes) go" where
  "surb_layers c 0 k b = Inr b"
| "surb_layers c (Suc n) k b =
     (let key = take SPRPKeyLength k;
          iv = copy_into SPRPIVLength (drop SPRPKeyLength k);
          k' = drop sprpKeyMaterialLength k in
      if n = 0 then go_bind (SPRPDecrypt c key iv b) (surb_layers c n k')
      else surb_layers c n k' (SPRPEncrypt c key iv b))"

definition DecryptSURBPayload ::
  "('pub, 'priv) crypto \<Rightarrow> Geometry \<Rightarrow> bytes \<Rightarrow> bytes \<Rightarrow> (sphinx_err, bytes) go" where
  "DecryptSURBPayload c g payload keys =
     (let nrHops = length keys div sprpKeyMaterialLength in
     if length keys mod sprpKeyMaterialLength \<noteq> 0 \<or> nrHops < 1 then Inl (Err errInvalidSURBKeys)
     else if int (length payload) < PayloadTagLength g then Inl (Err errTruncatedPayload)
     else go_bind (surb_layers c nrHops keys payload) (\<lambda>b.
     go_bind (go_slice b 0 (PayloadTagLength g)) (\<lambda>tag.
       if \<not> CtIsZero tag then Inl (Err errInvalidTag)
       else go_slice b (PayloadTagLength g) (int (length b)))))"

section \<open>The exported operations (new_sphinx.go)\<close>

text \<open>A \<open>Sphinx\<close> value has one of the two schemes; with neither, the KEM branch runs.\<close>

record sphinx =
  has_nike :: bool
  has_kem :: bool

definition Unwrap ::
  "sphinx \<Rightarrow> ('pub, 'priv) crypto \<Rightarrow> Geometry \<Rightarrow> 'priv \<Rightarrow> bytes \<Rightarrow> (unwrap_err, unwrapped) go" where
  "Unwrap s c g privKey pkt =
     (if \<not> has_nike s then (if has_kem s then unwrapKem c g privKey pkt else Inl Panic)
      else if \<not> has_kem s then unwrapNike c g privKey pkt
      else Inl Panic)"

lemmas sphinx_lengths = MACKeyLength_def StreamKeyLength_def StreamIVLength_def
  privateKeySeedSize_def okmLength_def sprpKeyMaterialLength_def sphinx_sizes

end
