(* ===== verification/SphinxPath.thy ===== *)
theory SphinxPath
  imports SphinxPacket
begin

text \<open>
  Properties of the Sphinx packet format: a packet built for a path is unwrapped by the hops of that
  path, each learning its own commands and nothing but the next hop, at constant size, and the last
  one recovering the payload; a reply built from a SURB travels the same way and is opened by the
  keys kept with the SURB.
\<close>

section \<open>What the primitives are relied on for\<close>

definition crypto_laws :: "('pub, 'priv) crypto \<Rightarrow> bool" where
  "crypto_laws c \<longleftrightarrow>
     (\<forall>ikm info n. length (hkdf_expand c ikm info n) = n)
   \<and> (\<forall>key msg. length (hmac_sha256 c key msg) = MACLength)
   \<and> (\<forall>key iv n. length (aes_ctr c key iv n) = n)
   \<and> (\<forall>key iv msg. length (aez_encrypt c key iv msg) = length msg)
   \<and> (\<forall>key iv msg. aez_decrypt c key iv (aez_encrypt c key iv msg) = Some msg)
   \<and> (\<forall>key iv ct. \<exists>msg. aez_decrypt c key iv ct = Some msg \<and> aez_encrypt c key iv msg = ct)"

text \<open>A NIKE with blinding: the secret commutes, and blinding a key blinds the secret.\<close>

definition nike_laws :: "('pub, 'priv) crypto \<Rightarrow> bool" where
  "nike_laws c \<longleftrightarrow>
     (\<forall>pub. int (length (PublicKeyBytes c pub)) = nikePublicKeySize (nikeScheme c))
   \<and> (\<forall>pub. UnmarshalPublicKey c (PublicKeyBytes c pub) = Some pub)
   \<and> (\<forall>a b. DeriveSecret c a (DerivePublicKey c b) = DeriveSecret c b (DerivePublicKey c a))
   \<and> (\<forall>a pub. \<exists>q. UnmarshalPublicKey c (DeriveSecret c a pub) = Some q
        \<and> (\<forall>f. DeriveSecret c a (SchemeBlind c pub f) = PublicKeyBytes c (SchemeBlind c q f)))
   \<and> (\<forall>pub f. BlindKey c pub f = Some (SchemeBlind c pub f))"

section \<open>Key streams\<close>

abbreviation xor_map :: "bytes \<Rightarrow> bytes \<Rightarrow> bytes" where
  "xor_map \<equiv> map2 (\<lambda>x y. Bit_Operations.xor x y)"

lemma xor_map_cancel: "length a = length k \<Longrightarrow> xor_map (xor_map a k) k = a"
  by (induction a k rule: list_induct2) (simp_all add: xor.assoc)

lemma xor_map_zeros: "length k = n \<Longrightarrow> xor_map (replicate n 0) k = k"
  by (induction k arbitrary: n) auto

lemma xor_map_append:
  "length a = length k \<Longrightarrow> xor_map (a @ b) (k @ l) = xor_map a k @ xor_map b l"
  by simp

lemma xorBytes_ok: "length a = length b \<Longrightarrow> xorBytes a b = Inr (xor_map a b)"
  by (simp add: xorBytes_def)

text \<open>How the key streams of consecutive hops fit: each hop's padding is the next one's tail.\<close>

definition per_hop :: "Geometry \<Rightarrow> nat" where "per_hop g = nat (PerHopRoutingInfoLength g)"
definition ri_len :: "Geometry \<Rightarrow> nat" where "ri_len g = nat (RoutingInfoLength g)"

definition hop_stream :: "('pub, 'priv) crypto \<Rightarrow> Geometry \<Rightarrow> 'priv PacketKeys \<Rightarrow> bytes" where
  "hop_stream c g k = KeyStream c (HeaderEncryption k) (HeaderEncryptionIV k) (ri_len g + per_hop g)"

definition padding_of :: "('pub, 'priv) crypto \<Rightarrow> Geometry \<Rightarrow> 'priv hop_material \<Rightarrow> bytes" where
  "padding_of c g m = xor_map (m_prevPadding m @ replicate (per_hop g) 0)
     (drop (length (m_keyStream m)) (hop_stream c g (m_keys m)))"

fun linked :: "('pub, 'priv) crypto \<Rightarrow> Geometry \<Rightarrow> 'priv hop_material list \<Rightarrow> bool" where
  "linked c g [] = True"
| "linked c g (m # ms) \<longleftrightarrow>
     length (m_prevPadding m) + length (m_keyStream m) = ri_len g
   \<and> m_keyStream m = take (length (m_keyStream m)) (hop_stream c g (m_keys m))
   \<and> (case ms of [] \<Rightarrow> True | m' # _ \<Rightarrow> m_prevPadding m' = padding_of c g m)
   \<and> linked c g ms"

lemma length_hop_stream: "crypto_laws c \<Longrightarrow> length (hop_stream c g k) = ri_len g + per_hop g"
  by (simp add: hop_stream_def KeyStream_def crypto_laws_def)

lemma key_streams_cons:
  assumes laws: "crypto_laws c"
    and P: "PerHopRoutingInfoLength g = int p"
    and R: "RoutingInfoLength g = int (n * p)" and i: "i < n" and pad: "length prevPad = i * p"
  shows "key_streams c g (int i) prevPad (k # ks) =
    (let ksLen = n * p - i * p; s = hop_stream c g k;
         pad = xor_map (prevPad @ replicate p 0) (drop ksLen s) in
     go_bind (key_streams c g (int (Suc i)) pad ks) (\<lambda>rest. Inr ((take ksLen s, pad) # rest)))"
proof -
  let ?s = "hop_stream c g k" and ?l = "n * p - i * p"
  have le: "i * p + p \<le> n * p" using i by (metis Suc_leI add.commute mult_Suc mult_le_mono1)
  have lens: "ri_len g = n * p" "per_hop g = p"
    by (simp_all only: ri_len_def per_hop_def P R nat_int)
  have ls: "length ?s = n * p + p"
    using length_hop_stream [OF laws, of g k] by (simp add: lens)
  have s: "KeyStream c (HeaderEncryption k) (HeaderEncryptionIV k) (n * p + p) = ?s"
    by (simp add: hop_stream_def lens)
  have mk: "(make_bytes (RoutingInfoLength g + PerHopRoutingInfoLength g) :: (sphinx_err, bytes) go)
      = Inr (replicate (n * p + p) 0)"
    unfolding P R of_nat_add [symmetric] by (rule make_bytes_int)
  have l: "int (length ?s) - (int i + 1) * PerHopRoutingInfoLength g = int ?l"
  proof -
    have "int ?l = int (n * p) - int (i * p)" using le i by (intro of_nat_diff) simp
    then show ?thesis unfolding ls P by (simp add: algebra_simps)
  qed
  have s1: "(go_slice ?s 0 (int ?l) :: (sphinx_err, bytes) go) = Inr (take ?l ?s)"
    using ls by (subst go_slice_0_int) simp
  have s2: "(go_slice ?s (int ?l) (int (length ?s)) :: (sphinx_err, bytes) go) = Inr (drop ?l ?s)"
    using ls by (subst go_slice_int) simp
  have dl: "length (drop ?l ?s) = i * p + p" using ls le by simp
  have s3: "(go_slice (drop ?l ?s) 0 (int (i * p)) :: (sphinx_err, bytes) go)
      = Inr (take (i * p) (drop ?l ?s))"
    using dl pad by (subst go_slice_0_int) simp
  have x: "xor_map (prevPad @ replicate p 0) (drop ?l ?s)
      = xor_map (take (i * p) (drop ?l ?s)) prevPad @ drop (i * p) (drop ?l ?s)"
  proof -
    have "xor_map (prevPad @ replicate p 0) (take (i * p) (drop ?l ?s) @ drop (i * p) (drop ?l ?s))
        = xor_map prevPad (take (i * p) (drop ?l ?s))
          @ xor_map (replicate p 0) (drop (i * p) (drop ?l ?s))"
      using dl pad by (intro xor_map_append) simp
    also have "xor_map (replicate p 0) (drop (i * p) (drop ?l ?s)) = drop (i * p) (drop ?l ?s)"
      using dl by (intro xor_map_zeros) simp
    also have "xor_map prevPad (take (i * p) (drop ?l ?s)) = xor_map (take (i * p) (drop ?l ?s)) prevPad"
      by (simp add: zip_commute [of prevPad] xor.commute case_prod_unfold comp_def)
    finally show ?thesis by (simp only: append_take_drop_id)
  qed
  have x3: "(xorBytes (take (i * p) (drop ?l ?s)) prevPad :: (sphinx_err, bytes) go)
      = Inr (xor_map (take (i * p) (drop ?l ?s)) prevPad)"
    using dl pad by (intro xorBytes_ok) simp
  show ?thesis
    unfolding key_streams.simps mk go_bind_simps Let_def length_replicate s l s1 s2 s3 x3 pad x
    by (simp add: add.commute)
qed

lemma key_streams_linked:
  assumes laws: "crypto_laws c"
    and P: "PerHopRoutingInfoLength g = int p"
    and R: "RoutingInfoLength g = int (n * p)"
    and "i + length ks \<le> n" and "length prevPad = i * p"
    and "length path = length ks" and "length es = length ks"
  shows "\<exists>ss. key_streams c g (int i) prevPad ks = Inr ss \<and>
     (let ms = hop_materials prevPad path ks es ss in
       linked c g ms \<and> map m_keys ms = ks \<and> map m_element ms = es
       \<and> map m_ID ms = map hopID path \<and> map m_commands ms = map hopCommands path
       \<and> (ms \<noteq> [] \<longrightarrow> m_prevPadding (hd ms) = prevPad))"
  using assms(4-)
proof (induction ks arbitrary: i prevPad path es)
  case Nil
  then show ?case by simp
next
  case (Cons k ks)
  obtain h hs e es' where l: "path = h # hs" "es = e # es'" "length hs = length ks" "length es' = length ks"
    using Cons.prems(3,4) by (auto simp: length_Suc_conv)
  let ?l = "n * p - i * p" and ?s = "hop_stream c g k"
  define pad where "pad = xor_map (prevPad @ replicate p 0) (drop ?l ?s)"
  have i: "i < n" using Cons.prems(1) by simp
  then have le: "i * p + p \<le> n * p" by (metis Suc_leI add.commute mult_Suc mult_le_mono1)
  have lens: "ri_len g = n * p" "per_hop g = p"
    by (simp_all only: ri_len_def per_hop_def P R nat_int)
  have ls: "length ?s = n * p + p" using length_hop_stream [OF laws, of g k] by (simp add: lens)
  then have lpad: "length pad = Suc i * p" using le Cons.prems(2) by (simp add: pad_def)
  obtain ss where ss: "key_streams c g (int (Suc i)) pad ks = Inr ss"
      "linked c g (hop_materials pad hs ks es' ss)"
      "map m_keys (hop_materials pad hs ks es' ss) = ks"
      "map m_element (hop_materials pad hs ks es' ss) = es'"
      "map m_ID (hop_materials pad hs ks es' ss) = map hopID hs"
      "map m_commands (hop_materials pad hs ks es' ss) = map hopCommands hs"
      "hop_materials pad hs ks es' ss \<noteq> [] \<longrightarrow> m_prevPadding (hd (hop_materials pad hs ks es' ss)) = pad"
    using Cons.IH [of "Suc i" pad hs es'] Cons.prems(1) lpad l(3,4) by (auto simp: Let_def)
  have k: "key_streams c g (int i) prevPad (k # ks) = Inr ((take ?l ?s, pad) # ss)"
    using key_streams_cons [OF laws P R i Cons.prems(2), of k ks] ss(1)
    by (simp add: Let_def pad_def)
  have "length (take ?l ?s) = ?l" using ls by simp
  then show ?case
    using k ss(2-) l le Cons.prems(2)
    by (auto simp: Let_def lens padding_of_def pad_def split: list.splits)
qed

section \<open>Routing blocks\<close>

text \<open>
  The commands of a path fit: arrays have their size, there is no next hop among them and at most
  one SURB reply, and the block, with the next hop the header adds, fits the hop's space \<open>room\<close>.
\<close>

definition commands_fit :: "nat \<Rightarrow> bool \<Rightarrow> RoutingCommand list \<Rightarrow> bool" where
  "commands_fit room isTerminal cmds \<longleftrightarrow>
     (\<forall>cmd \<in> set cmds. wf_command cmd \<and> \<not> is_next cmd) \<and> one_at_most is_surb cmds
   \<and> length (command_block cmds) + (if isTerminal then 0 else nat nextNodeHopLength) \<le> room"

fun path_fits :: "nat \<Rightarrow> RoutingCommand list list \<Rightarrow> bool" where
  "path_fits room [] = True"
| "path_fits room (cmds # rest) \<longleftrightarrow> commands_fit room (rest = []) cmds \<and> path_fits room rest"

lemma append_commands_ok:
  "\<forall>cmd \<in> set cmds. \<not> is_next cmd \<Longrightarrow> append_commands cmds b = Inr (b @ command_block cmds)"
proof (induction cmds arbitrary: b)
  case Nil
  then show ?case by simp
next
  case (Cons cmd cmds)
  then show ?case
    using routing_ToBytes_append [of cmd b] by (cases cmd) simp_all
qed

definition geometry_usable :: "nat \<Rightarrow> nat \<Rightarrow> Geometry \<Rightarrow> bool" where
  "geometry_usable elemSize ctSize g \<longleftrightarrow>
     0 \<le> PerHopRoutingInfoLength g \<and> 0 \<le> NrHops g
   \<and> RoutingInfoLength g = NrHops g * PerHopRoutingInfoLength g
   \<and> HeaderLength g = 2 + int elemSize + RoutingInfoLength g + int MACLength
   \<and> NextNodeHopLength g = nextNodeHopLength
   \<and> 0 \<le> PayloadTagLength g \<and> PayloadTagLength g \<le> PerHopRoutingInfoLength g
   \<and> int ctSize \<le> PerHopRoutingInfoLength g
   \<and> PacketLength g = HeaderLength g + PayloadTagLength g + ForwardPayloadLength g
   \<and> SURBLength g = HeaderLength g + int NodeIDLength + int sprpKeyMaterialLength"

definition ct_len :: "int option \<Rightarrow> nat" where
  "ct_len ctSize = (case ctSize of None \<Rightarrow> 0 | Some n \<Rightarrow> nat n)"

text \<open>The commands a hop reads, once the header has added the next hop.\<close>

definition with_next :: "RoutingCommand list \<Rightarrow> (bytes \<times> bytes \<times> bytes) option \<Rightarrow> RoutingCommand list" where
  "with_next cmds next = (case next of None \<Rightarrow> cmds | Some (i, m, ct) \<Rightarrow> cmds @ [NextNodeHop i m])"

lemma hop_fragment_ok:
  assumes g: "PerHopRoutingInfoLength g = int p" "NextNodeHopLength g = nextNodeHopLength"
    and ct: "ct_len ctSize \<le> p" "\<forall>n. ctSize = Some n \<longrightarrow> 0 \<le> n"
    and fit: "commands_fit (p - ct_len ctSize) (next = None) cmds"
    and nx: "\<forall>i m e. next = Some (i, m, e) \<longrightarrow> length i = NodeIDLength \<and> length m = MACLength
         \<and> (\<forall>n. ctSize = Some n \<longrightarrow> length e = nat n)"
  shows "\<exists>f k. hop_fragment g ctSize cmds next = Inr f \<and> length f = p
     \<and> take (p - ct_len ctSize) f = command_block (with_next cmds next) @ replicate k 0
     \<and> (\<forall>i m e n. next = Some (i, m, e) \<longrightarrow> ctSize = Some n \<longrightarrow> drop (p - ct_len ctSize) f = e)"
proof -
  let ?b = "command_block cmds" and ?w = "command_block (with_next cmds next)"
  let ?room = "p - ct_len ctSize"
  have no: "\<forall>cmd \<in> set cmds. \<not> is_next cmd" using fit by (auto simp: commands_fit_def)
  have lw: "length ?w = length ?b + (if next = None then 0 else nat nextNodeHopLength)"
    using nx by (auto simp: with_next_def routing_writers nextNodeHopLength_def sphinx_sizes)
  then have room: "length ?w \<le> ?room" using fit by (simp add: commands_fit_def)
  then have wp: "length ?w \<le> p" by simp
  have "commandsToBytes g cmds (next = None) = Inr ?b"
    using lw wp g append_commands_ok [OF no, of "[]"]
    by (auto simp: commandsToBytes_def nextNodeHopLength_def sphinx_sizes split: if_splits)
  moreover have "(case next of None \<Rightarrow> ?b | Some (i, m, e) \<Rightarrow>
      NextNodeHop_ToBytes (copy_into NodeIDLength i) (copy_into MACLength m) ?b) = ?w"
    using nx by (auto simp: with_next_def routing_writers split: option.split)
  moreover define f0 where "f0 = ?w @ replicate (p - length ?w) (0 :: byte)"
  ultimately have h: "hop_fragment g ctSize cmds next =
     (case (next, ctSize) of (Some (i, m, e), Some n) \<Rightarrow>
        go_bind (go_slice f0 (int p - n) (int p)) (\<lambda>tail.
          Inr (take (nat (int p - n)) f0 @ copy_over tail e))
      | _ \<Rightarrow> Inr f0)"
    using wp g(1)
    by (auto simp: hop_fragment_def Let_def nat_diff_distrib split: option.split)
  have l0: "length f0 = p" using wp by (simp add: f0_def)
  have t0: "take ?room f0 = ?w @ replicate (?room - length ?w) 0"
    using room by (simp add: f0_def)
  show ?thesis
  proof (cases "\<exists>i m e n. next = Some (i, m, e) \<and> ctSize = Some n")
    case False
    then have "hop_fragment g ctSize cmds next = Inr f0"
      using h by (auto split: option.splits)
    then show ?thesis using False l0 t0 by blast
  next
    case True
    then obtain i m e n where n: "next = Some (i, m, e)" "ctSize = Some n" by blast
    then obtain k where k: "n = int k" "k \<le> p" "ct_len ctSize = k"
      using ct nonneg_int_cases by (auto simp: ct_len_def)
    have le: "length e = k" using nx n k(1) by simp
    have "hop_fragment g ctSize cmds next = Inr (take (p - k) f0 @ e)"
    proof -
      have "(go_slice f0 (int p - int k) (int p) :: (sphinx_err, bytes) go) = Inr (drop (p - k) f0)"
        using k l0 go_slice_int [of f0 "p - k" p] by (simp add: of_nat_diff)
      then show ?thesis using h n k l0 le by (simp add: nat_diff_distrib)
    qed
    moreover have "length (take (p - k) f0 @ e) = p" using l0 le k by simp
    moreover have "take ?room (take (p - k) f0 @ e) = take ?room f0" using l0 k by simp
    moreover have "drop ?room (take (p - k) f0 @ e) = e" using l0 k by simp
    ultimately show ?thesis using t0 n by auto
  qed
qed

text \<open>The next hop as the loop sees it.\<close>

definition next_hop ::
  "'priv hop_material list \<Rightarrow> bytes \<Rightarrow> (bytes \<times> bytes \<times> bytes) option" where
  "next_hop ms mac = (case ms of [] \<Rightarrow> None | m # _ \<Rightarrow> Some (m_ID m, mac, m_element m))"

text \<open>A list of hop materials that starts where the padding of the earlier hops ends.\<close>

definition materials_fit ::
  "('pub, 'priv) crypto \<Rightarrow> Geometry \<Rightarrow> int option \<Rightarrow> nat \<Rightarrow> bytes \<Rightarrow> 'priv hop_material list \<Rightarrow> bool" where
  "materials_fit c g ctSize p skipped ms \<longleftrightarrow>
     linked c g ms \<and> path_fits (p - ct_len ctSize) (map m_commands ms)
   \<and> (\<forall>m \<in> set ms. length (m_ID m) = NodeIDLength
        \<and> (\<forall>n. ctSize = Some n \<longrightarrow> length (m_element m) = nat n))
   \<and> (ms \<noteq> [] \<longrightarrow> length (m_prevPadding (hd ms)) + length ms * p + length skipped = ri_len g)"

lemma materials_fit_tl:
  assumes "crypto_laws c" and "per_hop g = p" and "materials_fit c g ctSize p skipped (m # ms)"
  shows "materials_fit c g ctSize p skipped ms"
  using assms length_hop_stream [OF assms(1), of g "m_keys m"]
  by (cases ms) (auto simp: materials_fit_def padding_of_def)

lemma build_routing_cons:
  assumes laws: "crypto_laws c"
    and g: "PerHopRoutingInfoLength g = int p" "NextNodeHopLength g = nextNodeHopLength"
    and ct: "ct_len ctSize \<le> p" "\<forall>n. ctSize = Some n \<longrightarrow> 0 \<le> n"
    and fit: "materials_fit c g ctSize p skipped (m # ms)"
    and tl: "build_routing c g ctSize skipped ms = Inr (ri, mac)"
      "length ri = length skipped + length ms * p" "ms \<noteq> [] \<longrightarrow> length mac = MACLength"
  shows "\<exists>f k. build_routing c g ctSize skipped (m # ms) =
       Inr (xor_map (f @ ri) (m_keyStream m),
            hmac_sha256 c (HeaderMAC (m_keys m))
              (v0AD @ m_element m @ xor_map (f @ ri) (m_keyStream m) @ m_prevPadding m))
     \<and> length f = p \<and> length (f @ ri) = length (m_keyStream m)
     \<and> take (p - ct_len ctSize) f = command_block (with_next (m_commands m) (next_hop ms mac)) @ replicate k 0
     \<and> (\<forall>m' ms' n. ms = m' # ms' \<longrightarrow> ctSize = Some n \<longrightarrow> drop (p - ct_len ctSize) f = m_element m')"
proof -
  have fit1: "commands_fit (p - ct_len ctSize) (next_hop ms mac = None) (m_commands m)"
    using fit by (cases ms) (auto simp: materials_fit_def next_hop_def)
  have nx: "\<forall>i m' e. next_hop ms mac = Some (i, m', e) \<longrightarrow> length i = NodeIDLength
      \<and> length m' = MACLength \<and> (\<forall>n. ctSize = Some n \<longrightarrow> length e = nat n)"
    using fit tl(3) by (auto simp: materials_fit_def next_hop_def split: list.splits)
  obtain f k where f: "hop_fragment g ctSize (m_commands m) (next_hop ms mac) = Inr f" "length f = p"
      "take (p - ct_len ctSize) f = command_block (with_next (m_commands m) (next_hop ms mac)) @ replicate k 0"
      "\<forall>i m' e n. next_hop ms mac = Some (i, m', e) \<longrightarrow> ctSize = Some n \<longrightarrow> drop (p - ct_len ctSize) f = e"
    using hop_fragment_ok [OF g ct fit1 nx] by blast
  have l: "length (f @ ri) = length (m_keyStream m)"
    using fit tl(2) f(2) by (auto simp: materials_fit_def)
  have nh: "(case ms of [] \<Rightarrow> None | h' # _ \<Rightarrow> Some (m_ID h', mac, m_element h')) = next_hop ms mac"
    by (simp add: next_hop_def)
  have "build_routing c g ctSize skipped (m # ms) =
       Inr (xor_map (f @ ri) (m_keyStream m),
            hmac_sha256 c (HeaderMAC (m_keys m))
              (v0AD @ m_element m @ xor_map (f @ ri) (m_keyStream m) @ m_prevPadding m))"
    unfolding build_routing.simps tl(1) go_bind_simps prod.case nh f(1) xorBytes_ok [OF l] ..
  with f l show ?thesis by (auto simp: next_hop_def)
qed

lemma build_routing_ok:
  assumes laws: "crypto_laws c"
    and g: "PerHopRoutingInfoLength g = int p" "NextNodeHopLength g = nextNodeHopLength"
    and ct: "ct_len ctSize \<le> p" "\<forall>n. ctSize = Some n \<longrightarrow> 0 \<le> n"
    and "materials_fit c g ctSize p skipped ms"
  shows "\<exists>ri mac. build_routing c g ctSize skipped ms = Inr (ri, mac)
     \<and> length ri = length skipped + length ms * p \<and> (ms \<noteq> [] \<longrightarrow> length mac = MACLength)"
  using assms(6)
proof (induction ms)
  case Nil
  then show ?case by simp
next
  case (Cons m ms)
  have p: "per_hop g = p" by (simp only: per_hop_def g nat_int)
  obtain ri mac where tl: "build_routing c g ctSize skipped ms = Inr (ri, mac)"
      "length ri = length skipped + length ms * p" "ms \<noteq> [] \<longrightarrow> length mac = MACLength"
    using Cons.IH [OF materials_fit_tl [OF laws p Cons.prems]] by blast
  obtain f where f: "build_routing c g ctSize skipped (m # ms) =
       Inr (xor_map (f @ ri) (m_keyStream m), hmac_sha256 c (HeaderMAC (m_keys m))
              (v0AD @ m_element m @ xor_map (f @ ri) (m_keyStream m) @ m_prevPadding m))"
      "length f = p" "length (f @ ri) = length (m_keyStream m)"
    using build_routing_cons [OF laws g ct Cons.prems tl] by blast
  have "length (xor_map (f @ ri) (m_keyStream m)) = length skipped + length (m # ms) * p"
    using f(2,3) tl(2) by simp
  then show ?case using f(1) laws by (simp add: crypto_laws_def)
qed

section \<open>One hop\<close>

text \<open>What the payload of a hop decrypts to; the empty payload is left alone.\<close>

definition peel :: "('pub, 'priv) crypto \<Rightarrow> 'priv PacketKeys \<Rightarrow> bytes \<Rightarrow> bytes" where
  "peel c k b = the (aez_decrypt c (PayloadEncryption k) (HeaderEncryptionIV k) b)"

lemma length_peel: "crypto_laws c \<Longrightarrow> length (peel c k b) = length b"
  unfolding crypto_laws_def peel_def by (metis option.sel)

lemma peel_step:
  "crypto_laws c \<Longrightarrow> (if b = [] then Inr b
     else SPRPDecrypt c (PayloadEncryption k) (HeaderEncryptionIV k) b) = Inr (peel c k b)"
  using length_peel [of c k b]
  unfolding SPRPDecrypt_def peel_def crypto_laws_def
  by (metis length_0_conv option.sel or_panic_simps(2))

text \<open>The packet as a hop receives it.\<close>

definition packet_at :: "'priv hop_material \<Rightarrow> bytes \<Rightarrow> bytes \<Rightarrow> bytes \<Rightarrow> bytes" where
  "packet_at m ri mac sealed = v0AD @ m_element m @ (ri @ m_prevPadding m) @ mac @ sealed"

lemma next_of_fit:
  "commands_fit room isTerminal cmds \<Longrightarrow> next_of (with_next cmds nx) = map_option (\<lambda>(i, m, e). (i, m)) nx"
proof -
  assume fit: "commands_fit room isTerminal cmds"
  then have no: "\<forall>cmd \<in> set cmds. \<not> is_next cmd" by (auto simp: commands_fit_def)
  have "next_of (cmds @ xs) = next_of xs" for xs
    using no by (induction cmds rule: next_of.induct) auto
  from this [of "[]"] this show ?thesis by (cases nx) (auto simp: with_next_def)
qed

lemma surb_of_fit: "surb_of (with_next cmds nx) = surb_of cmds"
proof -
  have "surb_of (cmds @ [NextNodeHop i m]) = surb_of cmds" for i m
    by (induction cmds rule: surb_of.induct) simp_all
  then show ?thesis by (auto simp: with_next_def split: option.split)
qed

lemma parse_hop:
  assumes "NextNodeHopLength g = nextNodeHopLength" and fit: "commands_fit room isTerminal cmds"
    and "\<forall>i m e. nx = Some (i, m, e) \<longrightarrow> length i = NodeIDLength \<and> length m = MACLength"
  shows "parse_commands g (command_block (with_next cmds nx) @ replicate k 0) no_commands =
     Inr \<lparr>nextNode = map_option (\<lambda>(i, m, e). (i, m)) nx, surbReply = surb_of cmds,
          hopCmds = with_next cmds nx\<rparr>"
proof -
  have wf: "\<forall>cmd \<in> set (with_next cmds nx). wf_command cmd"
    using fit assms(3) by (auto simp: commands_fit_def with_next_def split: option.splits)
  have f: "filter is_next cmds = []" using fit by (auto simp: commands_fit_def filter_empty_conv)
  have "one_at_most is_next (with_next cmds nx)"
    using f by (auto simp: one_at_most_def with_next_def split: option.split)
  moreover have "one_at_most is_surb (with_next cmds nx)"
    using fit by (auto simp: one_at_most_def with_next_def commands_fit_def split: option.split)
  ultimately show ?thesis
    using parse_commands_ok [OF assms(1) wf] next_of_fit [OF fit] surb_of_fit by simp
qed

definition deliver ::
  "('pub, 'priv) crypto \<Rightarrow> Geometry \<Rightarrow> 'priv hop_material \<Rightarrow> bytes \<Rightarrow> bytes \<Rightarrow> bytes \<Rightarrow>
     (sphinx_err, unwrapped) go" where
  "deliver c g m tag pkt sealed =
     go_bind (open_payload g (surb_of (m_commands m) \<noteq> None) (peel c (m_keys m) sealed)) (\<lambda>payload.
       Inr \<lparr>u_payload = Some payload, u_replayTag = tag, u_commands = m_commands m, u_packet = pkt\<rparr>)"

lemma unwrap_keyed_ok:
  assumes laws: "crypto_laws c"
    and g: "PerHopRoutingInfoLength g = int p" "NextNodeHopLength g = nextNodeHopLength"
      "RoutingInfoLength g = int (ri_len g)"
    and ct: "ct_len ctSize \<le> p" "\<forall>n. ctSize = Some n \<longrightarrow> 0 \<le> n"
    and fit: "materials_fit c g ctSize p skipped (m # ms)"
    and tl: "build_routing c g ctSize skipped ms = Inr (ri', mac')"
    and hd: "build_routing c g ctSize skipped (m # ms) = Inr (ri, mac)"
    and es: "length (m_element m) = es"
    and nextE: "\<forall>m' ms' e. ms = m' # ms' \<longrightarrow> (ctSize \<noteq> None \<longrightarrow> e = m_element m')
         \<longrightarrow> nextElement e = Inr (m_element m') \<and> length (m_element m') = es"
  shows "unwrap_keyed c g (int es) (int (ct_len ctSize)) (m_keys m) tag nextElement
           (packet_at m ri mac sealed) =
     (case ms of [] \<Rightarrow> deliver c g m tag (packet_at m ri mac sealed) sealed
      | m' # ms' \<Rightarrow> Inr \<lparr>u_payload = None, u_replayTag = tag,
          u_commands = m_commands m @ [NextNodeHop (m_ID m') mac'],
          u_packet = packet_at m' ri' mac' (peel c (m_keys m) sealed)\<rparr>)"
proof -
  have p: "per_hop g = p" by (simp only: per_hop_def g nat_int)
  have fit': "materials_fit c g ctSize p skipped ms" by (rule materials_fit_tl [OF laws p fit])
  have tl2: "length ri' = length skipped + length ms * p" "ms \<noteq> [] \<longrightarrow> length mac' = MACLength"
    using build_routing_ok [OF laws g(1,2) ct fit'] tl by auto
  obtain f k where f: "build_routing c g ctSize skipped (m # ms) =
       Inr (xor_map (f @ ri') (m_keyStream m), hmac_sha256 c (HeaderMAC (m_keys m))
              (v0AD @ m_element m @ xor_map (f @ ri') (m_keyStream m) @ m_prevPadding m))"
      "length f = p" "length (f @ ri') = length (m_keyStream m)"
      "take (p - ct_len ctSize) f = command_block (with_next (m_commands m) (next_hop ms mac')) @ replicate k 0"
      "\<forall>m' ms' n. ms = m' # ms' \<longrightarrow> ctSize = Some n \<longrightarrow> drop (p - ct_len ctSize) f = m_element m'"
    using build_routing_cons [OF laws g(1,2) ct fit tl tl2] by blast
  let ?ks = "m_keyStream m" and ?pp = "m_prevPadding m" and ?e = "m_element m"
  let ?R = "ri @ ?pp" and ?pkt = "packet_at m ri mac sealed" and ?s = "hop_stream c g (m_keys m)"
  have ri: "ri = xor_map (f @ ri') ?ks" and mac: "mac = hmac_sha256 c (HeaderMAC (m_keys m)) (v0AD @ ?e @ ?R)"
    using hd f(1) by simp_all
  have lmac: "length mac = MACLength" using mac laws by (simp add: crypto_laws_def)
  have link: "length ?pp + length ?ks = ri_len g" "?ks = take (length ?ks) ?s"
    using fit by (auto simp: materials_fit_def)
  have lri: "length ri = length ?ks" using ri f(3) by simp
  have lR: "length ?R = ri_len g" using link(1) lri by simp
  have v: "length v0AD = 2" by (simp add: v0AD_def)
  have pkt: "?pkt = (v0AD @ ?e @ ?R) @ mac @ sealed" "?pkt = (v0AD @ ?e) @ ?R @ (mac @ sealed)"
      "?pkt = v0AD @ ?e @ (?R @ mac @ sealed)" "?pkt = (v0AD @ ?e @ ?R @ mac) @ sealed"
    by (simp_all add: packet_at_def)
  have RL: "RoutingInfoLength g = int (length ?R)" by (simp only: g(3) lR)
  have off: "2 + int es + RoutingInfoLength g = int (length (v0AD @ ?e @ ?R))"
      "2 + int es = int (length (v0AD @ ?e))"
      "2 + int es + RoutingInfoLength g + int MACLength = int (length (v0AD @ ?e @ ?R @ mac))"
    using v es lmac RL by simp_all
  have s1: "(go_slice ?pkt 0 (2 + int es + RoutingInfoLength g) :: (sphinx_err, bytes) go) = Inr (v0AD @ ?e @ ?R)"
    unfolding pkt(1) off(1) by (rule go_slice_prefix) simp
  have s2: "(go_slice ?pkt (2 + int es + RoutingInfoLength g)
      (2 + int es + RoutingInfoLength g + int MACLength) :: (sphinx_err, bytes) go) = Inr mac"
    unfolding pkt(1) by (rule go_slice_at) (use off(1) lmac in simp_all)
  have s3: "(go_slice ?pkt (2 + int es) (2 + int es + RoutingInfoLength g) :: (sphinx_err, bytes) go) = Inr ?R"
    unfolding pkt(2) by (rule go_slice_at) (use off(2) RL in simp_all)
  have s4: "(go_slice ?pkt (2 + int es + RoutingInfoLength g + int MACLength) (int (length ?pkt))
      :: (sphinx_err, bytes) go) = Inr sealed"
    unfolding pkt(4) off(3) by (rule go_slice_suffix) simp_all
  have s5: "(go_slice ?pkt 2 (2 + int es) :: (sphinx_err, bytes) go) = Inr ?e"
    unfolding pkt(3) by (rule go_slice_at) (use v es in simp_all)
  have mk: "(make_bytes (RoutingInfoLength g + PerHopRoutingInfoLength g) :: (sphinx_err, bytes) go)
      = Inr (replicate (ri_len g + p) 0)"
    unfolding g(1,3) of_nat_add [symmetric] by (rule make_bytes_int)
  have s6: "(go_slice (replicate (ri_len g + p) 0) 0 (RoutingInfoLength g) :: (sphinx_err, bytes) go)
      = Inr (replicate (ri_len g) 0)"
    unfolding g(3) go_slice_0_int by simp
  have b1: "copy_over (replicate (ri_len g) 0) ?R @ drop (length (replicate (ri_len g) (0::byte))) (replicate (ri_len g + p) 0)
      = ?R @ replicate p 0"
    using lR by simp
  have ls: "length ?s = ri_len g + p" using length_hop_stream [OF laws, of g "m_keys m"] p by simp
  have b: "xor_map (?R @ replicate p 0) ?s = f @ ri' @ padding_of c g m"
  proof -
    have sp: "?s = ?ks @ drop (length ?ks) ?s" using link(2) by (metis append_take_drop_id)
    have "xor_map (?R @ replicate p 0) ?s = xor_map (ri @ (?pp @ replicate p 0)) (?ks @ drop (length ?ks) ?s)"
      using sp by simp
    also have "\<dots> = xor_map ri ?ks @ padding_of c g m"
      using lri by (subst xor_map_append) (simp_all add: padding_of_def p)
    also have "xor_map ri ?ks = f @ ri'" using ri f(3) xor_map_cancel by simp
    finally show ?thesis by simp
  qed
  have x: "(xorBytes (?R @ replicate p 0) (KeyStream c (HeaderEncryption (m_keys m))
      (HeaderEncryptionIV (m_keys m)) (length (?R @ replicate p (0::byte)))) :: (sphinx_err, bytes) go)
      = Inr (f @ ri' @ padding_of c g m)"
  proof -
    have n: "length (?R @ replicate p (0::byte)) = ri_len g + p"
      using lR by (simp only: length_append length_replicate)
    have "KeyStream c (HeaderEncryption (m_keys m)) (HeaderEncryptionIV (m_keys m)) (ri_len g + p) = ?s"
      by (simp only: hop_stream_def p)
    then show ?thesis unfolding n by (metis n b ls xorBytes_ok)
  qed
  let ?b = "f @ ri' @ padding_of c g m" and ?t = "ct_len ctSize"
  have s7: "(go_slice ?b (PerHopRoutingInfoLength g) (int (length ?b)) :: (sphinx_err, bytes) go)
      = Inr (ri' @ padding_of c g m)"
    by (rule go_slice_suffix) (use f(2) g(1) in simp_all)
  have pt: "PerHopRoutingInfoLength g - int ?t = int (p - ?t)" using g(1) ct(1) by (simp add: of_nat_diff)
  have s8: "(go_slice ?b 0 (PerHopRoutingInfoLength g - int ?t) :: (sphinx_err, bytes) go) = Inr (take (p - ?t) f)"
    unfolding pt go_slice_0_int using f(2) by simp
  have s9: "(go_slice ?b (PerHopRoutingInfoLength g - int ?t) (PerHopRoutingInfoLength g) :: (sphinx_err, bytes) go)
      = Inr (drop (p - ?t) f)"
    unfolding pt unfolding g(1) go_slice_int using f(2) by simp
  have fit1: "commands_fit (p - ?t) (ms = []) (m_commands m)"
    using fit by (cases ms) (auto simp: materials_fit_def)
  have nx: "\<forall>i m' e. next_hop ms mac' = Some (i, m', e) \<longrightarrow> length i = NodeIDLength \<and> length m' = MACLength"
    using fit tl2(2) by (auto simp: materials_fit_def next_hop_def split: list.splits)
  have pc: "parse_commands g (take (p - ?t) f) no_commands =
      Inr \<lparr>nextNode = map_option (\<lambda>(i, m, e). (i, m)) (next_hop ms mac'),
           surbReply = surb_of (m_commands m), hopCmds = with_next (m_commands m) (next_hop ms mac')\<rparr>"
    unfolding f(4) by (rule parse_hop [OF g(2) fit1 nx])
  have tk: "take 2 ?pkt = v0AD" by (simp add: packet_at_def v0AD_def)
  note eval = unwrap_keyed_def finish_unwrap_def Let_def tk s1 s2 s3 s4 s5 mk s6 b1 x s7 s8 s9 pc go_bind_simps
  show ?thesis
  proof (cases ms)
    case Nil
    then show ?thesis
      unfolding eval
      by (simp add: mac [symmetric] peel_step [OF laws] next_hop_def with_next_def deliver_def)
  next
    case (Cons m' ms')
    have lp: "length (padding_of c g m) = length ?pp + p"
      using ls link(1) p by (simp add: padding_of_def)
    have "m_prevPadding m' = padding_of c g m" using fit Cons by (simp add: materials_fit_def)
    moreover have "length (ri' @ padding_of c g m) = ri_len g"
      using tl2(1) fit lp Cons by (simp add: materials_fit_def)
    moreover have "nextElement (drop (p - ?t) f) = Inr (m_element m')" "length (m_element m') = es"
      using nextE f(5) Cons by auto
    ultimately show ?thesis
      using Cons es lR lmac tl2(2) length_peel [OF laws, of "m_keys m" sealed]
      unfolding eval
      by (simp add: mac [symmetric] peel_step [OF laws] next_hop_def with_next_def
          packet_at_def [of m'])
  qed
qed

section \<open>The whole path\<close>

text \<open>A packet handed from hop to hop, each unwrapping it with its own key.\<close>

fun relay ::
  "('priv \<Rightarrow> bytes \<Rightarrow> (unwrap_err, unwrapped) go) \<Rightarrow> 'priv list \<Rightarrow> bytes \<Rightarrow> (unwrap_err, unwrapped list) go" where
  "relay unwrap [] pkt = Inr []"
| "relay unwrap (sk # sks) pkt =
     go_bind (unwrap sk pkt) (\<lambda>r. go_bind (relay unwrap sks (u_packet r)) (\<lambda>rs. Inr (r # rs)))"

text \<open>
  What the hops of a path get: each but the last its commands and the next hop, no payload, and a
  packet of the same length to forward; the last its commands and the payload.
\<close>

fun routed :: "nat \<Rightarrow> bytes \<Rightarrow> 'pub PathHop list \<Rightarrow> unwrapped list \<Rightarrow> bool" where
  "routed len payload [] rs \<longleftrightarrow> rs = []"
| "routed len payload [h] rs \<longleftrightarrow>
     (\<exists>r. rs = [r] \<and> u_payload r = Some payload \<and> u_commands r = hopCommands h)"
| "routed len payload (h # h' # hs) rs \<longleftrightarrow>
     (\<exists>r rs' mac. rs = r # rs' \<and> u_payload r = None \<and> length (u_packet r) = len
        \<and> u_commands r = hopCommands h @ [NextNodeHop (hopID h') mac]
        \<and> routed len payload (h' # hs) rs')"

text \<open>A private key derives the keys of a hop from its element, and the element of the next hop.\<close>

definition opens ::
  "('pub, 'priv) crypto \<Rightarrow> Geometry \<Rightarrow> int option \<Rightarrow> nat
     \<Rightarrow> ('priv \<Rightarrow> bytes \<Rightarrow> (unwrap_err, unwrapped) go)
     \<Rightarrow> 'priv \<Rightarrow> 'priv hop_material \<Rightarrow> 'priv hop_material list \<Rightarrow> bool" where
  "opens c g ctSize es unwrap sk m ms \<longleftrightarrow> length (m_element m) = es
   \<and> (\<exists>tag nextElement.
       (\<forall>rest. HeaderLength g \<le> int (2 + es + length rest) \<longrightarrow>
          unwrap sk (v0AD @ m_element m @ rest) =
            with_tag (Some tag) (unwrap_keyed c g (int es) (int (ct_len ctSize)) (m_keys m) tag
              nextElement (v0AD @ m_element m @ rest)))
     \<and> (\<forall>m' ms' e. ms = m' # ms' \<longrightarrow> (ctSize \<noteq> None \<longrightarrow> e = m_element m')
          \<longrightarrow> nextElement e = Inr (m_element m') \<and> length (m_element m') = es))"

fun opens_all ::
  "('pub, 'priv) crypto \<Rightarrow> Geometry \<Rightarrow> int option \<Rightarrow> nat
     \<Rightarrow> ('priv \<Rightarrow> bytes \<Rightarrow> (unwrap_err, unwrapped) go)
     \<Rightarrow> 'priv list \<Rightarrow> 'priv hop_material list \<Rightarrow> bool" where
  "opens_all c g ctSize es unwrap (sk # sks) (m # ms) \<longleftrightarrow>
     opens c g ctSize es unwrap sk m ms \<and> opens_all c g ctSize es unwrap sks ms"
| "opens_all c g ctSize es unwrap sks ms \<longleftrightarrow> sks = [] \<and> ms = []"

definition peel_all :: "('pub, 'priv) crypto \<Rightarrow> 'priv PacketKeys list \<Rightarrow> bytes \<Rightarrow> bytes" where
  "peel_all c ks b = fold (peel c) ks b"

lemma with_tag_Inr [simp]: "with_tag tag (Inr a) = Inr a"
  by (simp add: with_tag_def)

lemma relay_ok:
  assumes laws: "crypto_laws c"
    and g: "geometry_usable es (ct_len ctSize) g" "PerHopRoutingInfoLength g = int p"
    and ct: "\<forall>n. ctSize = Some n \<longrightarrow> 0 \<le> n"
    and "materials_fit c g ctSize p skipped ms" and "opens_all c g ctSize es unwrap sks ms"
    and "build_routing c g ctSize skipped ms = Inr (ri, mac)" and "ms \<noteq> []"
    and "map m_ID ms = map hopID path" and "map m_commands ms = map hopCommands path"
    and "open_payload g (surb_of (m_commands (last ms)) \<noteq> None) (peel_all c (map m_keys ms) sealed) = Inr P"
    and "len = nat (HeaderLength g) + length sealed"
  shows "\<exists>rs. relay unwrap sks (packet_at (hd ms) ri mac sealed) = Inr rs \<and> routed len P path rs"
  using assms(5-)
proof (induction ms arbitrary: sks ri mac path sealed)
  case Nil
  then show ?case by simp
next
  case (Cons m ms)
  have gp: "NextNodeHopLength g = nextNodeHopLength" "ct_len ctSize \<le> p"
    using g by (simp_all add: geometry_usable_def)
  have R: "0 \<le> RoutingInfoLength g" using g by (simp add: geometry_usable_def)
  then have ril: "RoutingInfoLength g = int (ri_len g)" by (simp add: ri_len_def)
  have p: "per_hop g = p" by (simp only: per_hop_def g(2) nat_int)
  have H: "HeaderLength g = 2 + int es + int (ri_len g) + int MACLength"
    using g(1) ril by (simp add: geometry_usable_def)
  obtain sk sks' where sks: "sks = sk # sks'" "opens c g ctSize es unwrap sk m ms"
      "opens_all c g ctSize es unwrap sks' ms"
    using Cons.prems(2) by (cases sks) auto
  obtain h hs where path: "path = h # hs" "m_ID m = hopID h" "m_commands m = hopCommands h"
      "map m_ID ms = map hopID hs" "map m_commands ms = map hopCommands hs"
    using Cons.prems(5,6) by (cases path) auto
  have fit': "materials_fit c g ctSize p skipped ms"
    by (rule materials_fit_tl [OF laws p Cons.prems(1)])
  obtain ri' mac' where tl: "build_routing c g ctSize skipped ms = Inr (ri', mac')"
      "length ri' = length skipped + length ms * p" "ms \<noteq> [] \<longrightarrow> length mac' = MACLength"
    using build_routing_ok [OF laws g(2) gp ct fit'] by blast
  have lr: "length ri + length (m_prevPadding m) = ri_len g" "length mac = MACLength"
    using build_routing_ok [OF laws g(2) gp ct Cons.prems(1)] Cons.prems(1,3)
    by (auto simp: materials_fit_def)
  obtain tag nextE where op: "length (m_element m) = es"
      "\<forall>rest. HeaderLength g \<le> int (2 + es + length rest) \<longrightarrow>
          unwrap sk (v0AD @ m_element m @ rest) =
            with_tag (Some tag) (unwrap_keyed c g (int es) (int (ct_len ctSize)) (m_keys m) tag
              nextE (v0AD @ m_element m @ rest))"
      "\<forall>m' ms' e. ms = m' # ms' \<longrightarrow> (ctSize \<noteq> None \<longrightarrow> e = m_element m')
          \<longrightarrow> nextE e = Inr (m_element m') \<and> length (m_element m') = es"
    using sks(2) unfolding opens_def by blast
  have "unwrap sk (packet_at m ri mac sealed) = with_tag (Some tag)
      (unwrap_keyed c g (int es) (int (ct_len ctSize)) (m_keys m) tag nextE (packet_at m ri mac sealed))"
    unfolding packet_at_def using H lr by (intro op(2) [rule_format]) simp
  then have u: "unwrap sk (packet_at m ri mac sealed) = with_tag (Some tag)
     (case ms of [] \<Rightarrow> deliver c g m tag (packet_at m ri mac sealed) sealed
      | m' # ms' \<Rightarrow> Inr \<lparr>u_payload = None, u_replayTag = tag,
          u_commands = m_commands m @ [NextNodeHop (m_ID m') mac'],
          u_packet = packet_at m' ri' mac' (peel c (m_keys m) sealed)\<rparr>)"
    using unwrap_keyed_ok [OF laws g(2) gp(1) ril gp(2) ct Cons.prems(1) tl(1) Cons.prems(3) op(1,3)]
    by metis
  show ?case
  proof (cases ms)
    case Nil
    then have "sks' = []" "hs = []" using sks(3) path(4) by (cases sks', auto)
    then show ?thesis
      using u Nil sks(1) path Cons.prems(7) by (simp add: deliver_def peel_all_def)
  next
    case (Cons m' ms')
    then obtain h' hs' where hs: "hs = h' # hs'" "m_ID m' = hopID h'" using path(4) by (cases hs) auto
    have op': "open_payload g (surb_of (m_commands (last ms)) \<noteq> None)
        (peel_all c (map m_keys ms) (peel c (m_keys m) sealed)) = Inr P"
      using Cons.prems(7) Cons by (simp add: peel_all_def)
    have ne: "ms \<noteq> []" using Cons by simp
    have len': "len = nat (HeaderLength g) + length (peel c (m_keys m) sealed)"
      using Cons.prems(8) length_peel [OF laws] by simp
    obtain rs where rs: "relay unwrap sks' (packet_at (hd ms) ri' mac' (peel c (m_keys m) sealed)) = Inr rs"
        "routed len P hs rs"
      using Cons.IH [OF fit' sks(3) tl(1) ne path(4,5) op' len'] by blast
    have "length (packet_at m' ri' mac' (peel c (m_keys m) sealed)) = len"
    proof -
      have "length (m_prevPadding m') + length ri' = ri_len g"
        using fit' tl(2) Cons by (simp add: materials_fit_def)
      moreover have "length (m_element m') = es" using op(3) Cons by auto
      ultimately show ?thesis
        using tl(3) Cons H len' by (simp add: packet_at_def v0AD_def nat_add_distrib)
    qed
    then show ?thesis using u Cons sks(1) path hs rs by auto
  qed
qed

section \<open>Headers and sealed payloads\<close>

definition random_source :: "(nat \<Rightarrow> bytes option) \<Rightarrow> bool" where
  "random_source random \<longleftrightarrow> (\<forall>n. \<exists>r. random n = Some r \<and> length r = n)"

definition sprp_keys_of :: "'priv PacketKeys list \<Rightarrow> sprp_key list" where
  "sprp_keys_of keys = map (\<lambda>k. (PayloadEncryption k, HeaderEncryptionIV k)) keys"

lemma assemble_header_ok:
  assumes laws: "crypto_laws c"
    and g: "geometry_usable es (ct_len ctSize) g" "PerHopRoutingInfoLength g = int p"
    and ct: "\<forall>n. ctSize = Some n \<longrightarrow> int es = n"
    and rnd: "random_source random"
    and path: "path \<noteq> []" "int (length path) \<le> NrHops g" "length keys = length path"
      "length elements = length path" "\<forall>e \<in> set elements. length e = es"
      "\<forall>h \<in> set path. length (hopID h) = NodeIDLength"
      "path_fits (p - ct_len ctSize) (map hopCommands path)"
  shows "\<exists>skipped ms ri mac.
     assemble_header c g ctSize onErr random path keys elements =
       Inr (v0AD @ hd elements @ ri @ mac, sprp_keys_of keys)
     \<and> build_routing c g ctSize skipped ms = Inr (ri, mac)
     \<and> materials_fit c g ctSize p skipped ms \<and> ms \<noteq> []
     \<and> m_prevPadding (hd ms) = [] \<and> length ri = ri_len g \<and> length mac = MACLength
     \<and> map m_keys ms = keys \<and> map m_element ms = elements
     \<and> map m_ID ms = map hopID path \<and> map m_commands ms = map hopCommands path"
proof -
  define n where "n = nat (NrHops g)"
  have N: "NrHops g = int n" using g by (simp add: n_def geometry_usable_def)
  have R: "RoutingInfoLength g = int (n * p)" using g N by (simp add: geometry_usable_def)
  have rl: "ri_len g = n * p" by (simp only: ri_len_def R nat_int)
  have le: "length path \<le> n" using path(2) N by simp
  have "0 + length keys \<le> n" "length ([] :: bytes) = 0 * p" "length path = length keys"
    "length elements = length keys"
    using path(3,4) le by simp_all
  note K = key_streams_linked [OF laws g(2) R this, unfolded int_ops(1)]
  obtain ss where ss: "key_streams c g 0 [] keys = Inr ss"
      "linked c g (hop_materials [] path keys elements ss)"
      "map m_keys (hop_materials [] path keys elements ss) = keys"
      "map m_element (hop_materials [] path keys elements ss) = elements"
      "map m_ID (hop_materials [] path keys elements ss) = map hopID path"
      "map m_commands (hop_materials [] path keys elements ss) = map hopCommands path"
      "hop_materials [] path keys elements ss \<noteq> [] \<longrightarrow>
         m_prevPadding (hd (hop_materials [] path keys elements ss)) = []"
    using K unfolding Let_def by blast
  let ?ms = "hop_materials [] path keys elements ss"
  have lms: "length ?ms = length path" using ss(3) path(3) by (metis length_map)
  then have ne: "?ms \<noteq> []" using path(1) by auto
  define skip where "skip = (n - length path) * p"
  have "\<exists>skipped. length skipped = skip \<and>
     (if NrHops g - int (length path) > 0
      then go_bind (make_bytes ((NrHops g - int (length path)) * PerHopRoutingInfoLength g))
        (\<lambda>z. case random (length z) of None \<Rightarrow> Inl onErr | Some r \<Rightarrow> Inr r)
      else Inr []) = Inr skipped"
  proof (cases "n = length path")
    case True
    then show ?thesis by (simp add: N skip_def)
  next
    case False
    have m: "(NrHops g - int (length path)) * PerHopRoutingInfoLength g = int skip"
      using le by (simp add: N g(2) skip_def of_nat_diff)
    obtain r where "random skip = Some r" "length r = skip"
      using rnd unfolding random_source_def by blast
    with m False le show ?thesis by (simp add: N)
  qed
  then obtain skipped where sk: "length skipped = skip"
      "(if NrHops g - int (length path) > 0
      then go_bind (make_bytes ((NrHops g - int (length path)) * PerHopRoutingInfoLength g))
        (\<lambda>z. case random (length z) of None \<Rightarrow> Inl onErr | Some r \<Rightarrow> Inr r)
      else Inr []) = Inr skipped" by blast
  have tot: "length path * p + skip = n * p"
    using le by (simp add: skip_def flip: add_mult_distrib)
  have fit: "materials_fit c g ctSize p skipped ?ms"
    unfolding materials_fit_def
  proof (intro conjI ballI allI impI)
    fix m assume m: "m \<in> set ?ms"
    then have "m_ID m \<in> set (map hopID path)" unfolding ss(5) [symmetric] by simp
    then show "length (m_ID m) = NodeIDLength" using path(6) by auto
    fix k assume "ctSize = Some k"
    moreover have "m_element m \<in> set elements" using m arg_cong [OF ss(4), of set] by auto
    ultimately show "length (m_element m) = nat k" using path(5) ct by force
  qed (use ss path(7) lms tot sk(1) rl ne in simp_all)
  have gp: "NextNodeHopLength g = nextNodeHopLength" "ct_len ctSize \<le> p"
    using g by (simp_all add: geometry_usable_def)
  have ct': "\<forall>n. ctSize = Some n \<longrightarrow> 0 \<le> n" using ct by auto
  obtain ri mac where br: "build_routing c g ctSize skipped ?ms = Inr (ri, mac)"
      "length ri = length skipped + length ?ms * p" "?ms \<noteq> [] \<longrightarrow> length mac = MACLength"
    using build_routing_ok [OF laws g(2) gp ct' fit] by blast
  obtain e es' where e: "elements = e # es'" using path(1,4) by (cases elements) auto
  have hl: "HeaderLength g = int (2 + es + n * p + MACLength)"
    using g R by (simp add: geometry_usable_def)
  have "assemble_header c g ctSize onErr random path keys elements =
      Inr (v0AD @ hd elements @ ri @ mac, sprp_keys_of keys)"
    unfolding assemble_header_def ss(1) sk(2) [unfolded g(2)] go_bind_simps g(2) make_bytes_int
      br(1) prod.case hl
    by (simp add: sprp_keys_of_def e)
  moreover have "length ri = ri_len g" using br(2) sk(1) lms tot rl by simp
  ultimately show ?thesis using br fit ne ss(3-7) by blast
qed

lemma length_encrypt_layers:
  "crypto_laws c \<Longrightarrow> length (encrypt_layers c ks b) = length b"
  by (induction c ks b rule: encrypt_layers.induct) (simp_all add: SPRPEncrypt_def crypto_laws_def)

lemma seal_payload_ok:
  assumes laws: "crypto_laws c" and g: "geometry_usable es ct g"
  shows "seal_payload c g hdr ks payload =
     Inr (hdr @ encrypt_layers c ks (replicate (nat (PayloadTagLength g)) 0 @ payload))"
proof -
  define t where "t = nat (PayloadTagLength g)"
  define p where "p = nat (PerHopRoutingInfoLength g)"
  have P: "PayloadTagLength g = int t" "PerHopRoutingInfoLength g = int p" "t \<le> p"
    using g by (auto simp: geometry_usable_def t_def p_def)
  have "(make_bytes (int (length hdr) + PayloadTagLength g + int (length payload)) :: (sphinx_err, bytes) go)
      = Inr (replicate (length hdr + t + length payload) 0)"
    unfolding P of_nat_add [symmetric] by (rule make_bytes_int)
  moreover have "(go_slice (replicate p 0) 0 (PayloadTagLength g) :: (sphinx_err, bytes) go) = Inr (replicate t 0)"
    using P by (simp add: go_slice_0_int min_def)
  ultimately show ?thesis
    unfolding seal_payload_def P(2) make_bytes_int go_bind_simps
    using length_encrypt_layers [OF laws] by (simp add: t_def)
qed

lemma peel_all_encrypt:
  assumes "crypto_laws c"
  shows "peel_all c keys (encrypt_layers c (sprp_keys_of keys) b) = b"
  using assms
  by (induction keys)
    (simp_all add: peel_all_def sprp_keys_of_def peel_def SPRPEncrypt_def crypto_laws_def)

lemma open_payload_ok:
  assumes g: "geometry_usable es ct g"
  shows "open_payload g False (replicate (nat (PayloadTagLength g)) 0 @ payload) = Inr payload"
proof -
  define t where "t = nat (PayloadTagLength g)"
  have P: "PayloadTagLength g = int t" using g by (auto simp: geometry_usable_def t_def)
  show ?thesis
    unfolding open_payload_def P nat_int
    by (simp add: go_slice_0_int go_slice_int del: of_nat_add)
qed

section \<open>The NIKE variant\<close>

lemma KDF_ok:
  "crypto_laws c \<Longrightarrow> \<exists>k. KDF c s b = Inr k \<and> (BlindingFactor k \<noteq> None \<longleftrightarrow> b)
     \<and> length (PayloadEncryption k) = SPRPKeyLength \<and> length (HeaderEncryptionIV k) = SPRPIVLength"
  by (auto simp: KDF_def crypto_laws_def Let_def sphinx_lengths)

text \<open>The keys a path's private keys derive from a group element blinded hop by hop.\<close>

fun nike_chain ::
  "('pub, 'priv) crypto \<Rightarrow> 'pub \<Rightarrow> 'priv list \<Rightarrow> 'priv PacketKeys list \<Rightarrow> 'pub list \<Rightarrow> bool" where
  "nike_chain c G (sk # sks) (k # ks) (ge # ges) \<longleftrightarrow>
     ge = G \<and> (KDF c (DeriveSecret c sk G) True :: (sphinx_err, 'priv PacketKeys) go) = Inr k
     \<and> nike_chain c (SchemeBlind c G (the (BlindingFactor k))) sks ks ges"
| "nike_chain c G sks ks ges \<longleftrightarrow> sks = [] \<and> ks = [] \<and> ges = []"

fun blinded :: "('pub, 'priv) crypto \<Rightarrow> 'pub \<Rightarrow> 'priv PacketKeys list \<Rightarrow> 'pub" where
  "blinded c G [] = G"
| "blinded c G (k # ks) = blinded c (SchemeBlind c G (the (BlindingFactor k))) ks"

lemma blinded_append [simp]: "blinded c G (ks @ [k]) = SchemeBlind c (blinded c G ks) (the (BlindingFactor k))"
  by (induction c G ks rule: blinded.induct) simp_all

lemma blind_secret_ok:
  assumes "nike_laws c" and "\<forall>k \<in> set ks. BlindingFactor k \<noteq> None"
  shows "blind_secret c (DeriveSecret c sk G) ks = Inr (DeriveSecret c sk (blinded c G ks))"
  using assms(2)
proof (induction ks arbitrary: G)
  case Nil
  then show ?case by simp
next
  case (Cons k ks)
  obtain q where q: "UnmarshalPublicKey c (DeriveSecret c sk G) = Some q"
      "\<forall>f. DeriveSecret c sk (SchemeBlind c G f) = PublicKeyBytes c (SchemeBlind c q f)"
    using assms(1) unfolding nike_laws_def by blast
  obtain f where f: "BlindingFactor k = Some f" using Cons.prems by auto
  have "blind_secret c (DeriveSecret c sk G) (k # ks)
      = blind_secret c (DeriveSecret c sk (SchemeBlind c G f)) ks"
    using q f by simp
  then show ?case using Cons f by simp
qed

end
