(* ===== verification/SphinxProps.thy ===== *)
theory SphinxProps
  imports SphinxPath
begin

text \<open>
  The end-to-end properties of the Sphinx packet format: a packet built for a path is unwrapped by
  the hops of that path, each learning its own commands and nothing but the next hop, at constant
  size, and the last one recovering the payload; a reply built from a SURB travels the same way and
  is opened by the keys kept with the SURB; both for the NIKE and the KEM variant.
\<close>

section \<open>The keys of a NIKE path\<close>

lemma derive_hops_ok:
  assumes laws: "crypto_laws c" and nl: "nike_laws c"
    and "keys \<noteq> []" and "\<forall>k \<in> set keys. BlindingFactor k \<noteq> None"
    and "pub = blinded c (DerivePublicKey c x) (butlast keys)"
    and "map hopKey hs = map (DerivePublicKey c) sks"
  shows "\<exists>ks gs. derive_hops c x pub keys ges hs = Inr (keys @ ks, ges @ gs)
     \<and> nike_chain c (SchemeBlind c pub (the (BlindingFactor (last keys)))) sks ks gs"
  using assms(3-)
proof (induction hs arbitrary: pub keys ges sks)
  case Nil
  then show ?case by simp
next
  case (Cons h hs)
  obtain sk sks' where sks: "sks = sk # sks'" "hopKey h = DerivePublicKey c sk"
      "map hopKey hs = map (DerivePublicKey c) sks'"
    using Cons.prems(4) by (cases sks) auto
  obtain f where f: "BlindingFactor (last keys) = Some f" using Cons.prems(1,2) by fastforce
  let ?G = "SchemeBlind c pub f"
  have G: "blinded c (DerivePublicKey c x) keys = ?G"
    using blinded_append [of c "DerivePublicKey c x" "butlast keys" "last keys"] Cons.prems(1,3) f by simp
  have sec: "DeriveSecret c x (hopKey h) = DeriveSecret c sk (DerivePublicKey c x)"
    using nl sks(2) unfolding nike_laws_def by metis
  have s: "blind_secret c (DeriveSecret c x (hopKey h)) keys = Inr (DeriveSecret c sk ?G)"
    unfolding sec blind_secret_ok [OF nl Cons.prems(2)] G ..
  obtain k where k: "(KDF c (DeriveSecret c sk ?G) True :: (sphinx_err, 'b PacketKeys) go) = Inr k"
      "BlindingFactor k \<noteq> None"
    using KDF_ok [OF laws] by blast
  have b: "BlindKey c pub f = Some ?G" "UnmarshalPublicKey c (PublicKeyBytes c ?G) = Some ?G"
    using nl by (simp_all add: nike_laws_def)
  have ne: "keys @ [k] \<noteq> []" "\<forall>k' \<in> set (keys @ [k]). BlindingFactor k' \<noteq> None"
    "?G = blinded c (DerivePublicKey c x) (butlast (keys @ [k]))"
    using Cons.prems(2) k(2) G by simp_all
  obtain ks gs where r: "derive_hops c x ?G (keys @ [k]) (ges @ [?G]) hs
      = Inr ((keys @ [k]) @ ks, (ges @ [?G]) @ gs)"
      "nike_chain c (SchemeBlind c ?G (the (BlindingFactor k))) sks' ks gs"
    using Cons.IH [OF ne sks(3), of "ges @ [?G]"] by auto
  have "derive_hops c x pub keys ges (h # hs) = Inr (keys @ (k # ks), ges @ (?G # gs))"
    using r(1) by (simp add: s k f b)
  moreover have "nike_chain c (SchemeBlind c pub (the (BlindingFactor (last keys)))) sks (k # ks) (?G # gs)"
    using r(2) sks(1) f k by simp
  ultimately show ?case by blast
qed

lemma derive_keys_ok:
  assumes laws: "crypto_laws c" and nl: "nike_laws c"
    and "path \<noteq> []" and "map hopKey path = map (DerivePublicKey c) sks"
  shows "\<exists>ks gs. derive_keys c (DerivePublicKey c x, x) path = Inr (ks, gs)
     \<and> nike_chain c (DerivePublicKey c x) sks ks gs"
proof -
  obtain h hs sk sks' where p: "path = h # hs" "sks = sk # sks'" "hopKey h = DerivePublicKey c sk"
      "map hopKey hs = map (DerivePublicKey c) sks'"
    using assms(3,4) by (cases path; cases sks) auto
  let ?G = "DerivePublicKey c x"
  have sec: "DeriveSecret c x (hopKey h) = DeriveSecret c sk ?G"
    using nl p(3) unfolding nike_laws_def by metis
  obtain k where k: "(KDF c (DeriveSecret c sk ?G) True :: (sphinx_err, 'b PacketKeys) go) = Inr k"
      "BlindingFactor k \<noteq> None"
    using KDF_ok [OF laws] by blast
  have "UnmarshalPublicKey c (PublicKeyBytes c ?G) = Some ?G" using nl by (simp add: nike_laws_def)
  moreover obtain ks gs where "derive_hops c x ?G [k] [?G] hs = Inr ([k] @ ks, [?G] @ gs)"
      "nike_chain c (SchemeBlind c ?G (the (BlindingFactor k))) sks' ks gs"
    using derive_hops_ok [OF laws nl, of "[k]" ?G x hs sks' "[?G]"] k(2) p(4) by auto
  ultimately show ?thesis using p sec k by (auto simp: derive_keys_def)
qed

lemma nike_chain_lengths:
  "nike_chain c G sks ks gs \<Longrightarrow> length ks = length sks \<and> length gs = length sks"
  by (induction c G sks ks gs rule: nike_chain.induct) auto

lemma KDF_any_error:
  "(KDF c s b :: ('e, 'p PacketKeys) go) = Inr k \<Longrightarrow> (KDF c s b :: ('f, 'p PacketKeys) go) = Inr k"
  by (auto simp: KDF_def Let_def split: if_splits)

lemma KDF_facts:
  "(KDF c s b :: ('e, 'p PacketKeys) go) = Inr k \<Longrightarrow> crypto_laws c \<Longrightarrow>
     (BlindingFactor k \<noteq> None \<longleftrightarrow> b) \<and> length (PayloadEncryption k) = SPRPKeyLength
     \<and> length (HeaderEncryptionIV k) = SPRPIVLength"
  by (cases b) (auto simp: KDF_def crypto_laws_def Let_def sphinx_lengths)

lemma unwrap_element_ok:
  assumes "geometry_usable es ct g" and "length e = es"
    and "HeaderLength g \<le> int (2 + es + length rest)"
  shows "unwrap_element g (int es) (v0AD @ e @ rest) = Inr e"
proof -
  have v: "length v0AD = 2" by (simp add: v0AD_def)
  have "(go_slice (v0AD @ e @ rest) 0 2 :: (sphinx_err, bytes) go) = Inr v0AD"
    by (rule go_slice_prefix) (simp add: v)
  moreover have "(go_slice (v0AD @ e @ rest) 2 (2 + int es) :: (sphinx_err, bytes) go) = Inr e"
    by (rule go_slice_at) (simp_all add: v assms)
  ultimately show ?thesis using assms v by (simp add: unwrap_element_def)
qed

lemma nike_opens:
  assumes laws: "crypto_laws c" and nl: "nike_laws c"
    and es: "nikePublicKeySize (nikeScheme c) = int es"
    and g: "geometry_usable es 0 g"
    and k: "(KDF c (DeriveSecret c sk G) True :: (sphinx_err, 'b PacketKeys) go) = Inr k"
    and m: "m_keys m = k" "m_element m = PublicKeyBytes c G"
    and next_m: "ms \<noteq> [] \<Longrightarrow>
      m_element (hd ms) = PublicKeyBytes c (SchemeBlind c G (the (BlindingFactor k)))"
  shows "opens c g None es (unwrapNike c g) sk m ms"
proof -
  have lb: "length (PublicKeyBytes c pub) = es" for pub
  proof -
    have "int (length (PublicKeyBytes c pub)) = int es"
      using nl es unfolding nike_laws_def by simp
    then show ?thesis by simp
  qed
  obtain f where f: "BlindingFactor k = Some f"
    using KDF_facts [OF k laws] by auto
  let ?tag = "sha512_256 c (PublicKeyBytes c G)"
  let ?next = "\<lambda>_ :: bytes. (go_bind (or_panic (BlindingFactor k)) (\<lambda>f.
               go_bind (or_panic (BlindKey c G f)) (\<lambda>blinded.
                 Inr (PublicKeyBytes c blinded))) :: (sphinx_err, bytes) go)"
  have "unwrapNike c g sk (v0AD @ m_element m @ rest) =
      with_tag (Some ?tag) (unwrap_keyed c g (int es) (int (ct_len None)) (m_keys m) ?tag ?next
        (v0AD @ m_element m @ rest))"
    if "HeaderLength g \<le> int (2 + es + length rest)" for rest
  proof -
    have u: "UnmarshalPublicKey c (PublicKeyBytes c G) = Some G" using nl by (simp add: nike_laws_def)
    show ?thesis
      unfolding unwrapNike_def Let_def es m unwrap_element_ok [OF g lb that] with_tag_Inr
        go_bind_simps u or_err_simps KDF_any_error [OF k]
      by (simp add: ct_len_def)
  qed
  moreover have "?next e = Inr (PublicKeyBytes c (SchemeBlind c G f))" for e
    using nl f by (simp add: nike_laws_def)
  ultimately show ?thesis
    unfolding opens_def using lb m next_m f
    by (intro conjI exI [of _ ?tag] exI [of _ ?next]) auto
qed

lemma nike_chain_opens:
  assumes laws: "crypto_laws c" and nl: "nike_laws c"
    and es: "nikePublicKeySize (nikeScheme c) = int es"
    and g: "geometry_usable es 0 g"
  shows "nike_chain c G sks ks gs \<Longrightarrow> map m_keys ms = ks \<Longrightarrow> map m_element ms = map (PublicKeyBytes c) gs
     \<Longrightarrow> opens_all c g None es (unwrapNike c g) sks ms"
proof (induction sks arbitrary: G ks gs ms)
  case Nil
  then show ?case by simp
next
  case (Cons sk sks)
  obtain k ks' ge ges where l: "ks = k # ks'" "gs = ge # ges"
    using Cons.prems(1) by (cases ks; cases gs) auto
  obtain m ms' where ms: "ms = m # ms'" "m_keys m = k" "map m_keys ms' = ks'"
      "m_element m = PublicKeyBytes c G" "map m_element ms' = map (PublicKeyBytes c) ges"
    using Cons.prems l by (cases ms) auto
  have next_m: "m_element (hd ms') = PublicKeyBytes c (SchemeBlind c G (the (BlindingFactor k)))"
    if ne: "ms' \<noteq> []"
  proof -
    obtain ge' ges' where "ges = ge' # ges'" using ne ms(5) by (cases ges) auto
    moreover from this have "ge' = SchemeBlind c G (the (BlindingFactor k))"
      using Cons.prems(1) l by (cases sks; cases ks') auto
    ultimately show ?thesis using ms(5) ne by (cases ms') auto
  qed
  have k: "(KDF c (DeriveSecret c sk G) True :: (sphinx_err, _) go) = Inr k"
    using Cons.prems(1) l by simp
  have nc: "nike_chain c (SchemeBlind c G (the (BlindingFactor k))) sks ks' ges"
    using Cons.prems(1) l by simp
  have "opens c g None es (unwrapNike c g) sk m ms'"
    by (rule nike_opens [OF laws nl es g k ms(2,4) next_m])
  moreover have "opens_all c g None es (unwrapNike c g) sks ms'"
    by (rule Cons.IH [OF nc ms(3,5)])
  ultimately show ?case using ms(1) by simp
qed

definition key_sizes :: "sprp_key list \<Rightarrow> bool" where
  "key_sizes ks \<longleftrightarrow> (\<forall>(key, iv) \<in> set ks. length key = SPRPKeyLength \<and> length iv = SPRPIVLength)"

lemma nike_chain_key_sizes:
  assumes "crypto_laws c"
  shows "nike_chain c G sks ks gs \<Longrightarrow> key_sizes (sprp_keys_of ks)"
proof (induction sks arbitrary: G ks gs)
  case Nil
  then show ?case by (simp add: key_sizes_def sprp_keys_of_def)
next
  case (Cons sk sks)
  obtain k ks' ge ges where l: "ks = k # ks'" "gs = ge # ges"
    using Cons.prems by (cases ks; cases gs) auto
  moreover have "key_sizes (sprp_keys_of ks')"
  proof (rule Cons.IH)
    show "nike_chain c (SchemeBlind c G (the (BlindingFactor k))) sks ks' ges"
      using Cons.prems l by simp
  qed
  moreover have "(KDF c (DeriveSecret c sk G) True :: (sphinx_err, _) go) = Inr k"
    using Cons.prems l by simp
  then have "length (PayloadEncryption k) = SPRPKeyLength \<and> length (HeaderEncryptionIV k) = SPRPIVLength"
    using KDF_facts [OF _ assms] by blast
  ultimately show ?case by (simp add: key_sizes_def sprp_keys_of_def)
qed

section \<open>Delivery\<close>

text \<open>The paths a caller may use.\<close>

definition path_ok :: "Geometry \<Rightarrow> nat \<Rightarrow> 'pub PathHop list \<Rightarrow> bool" where
  "path_ok g room path \<longleftrightarrow> path \<noteq> [] \<and> int (length path) \<le> NrHops g
   \<and> (\<forall>h \<in> set path. length (hopID h) = NodeIDLength)
   \<and> path_fits room (map hopCommands path)"

lemma nike_header_ok:
  assumes laws: "crypto_laws c" and nl: "nike_laws c" and rnd: "random_source random"
    and es: "nikePublicKeySize (nikeScheme c) = int es"
    and g: "geometry_usable es 0 g" and p: "PerHopRoutingInfoLength g = int p"
    and path: "path_ok g p path" and keys: "map hopKey path = map (DerivePublicKey c) sks"
  shows "\<exists>keys skipped ms ri mac.
     createHeader c g (Some (DerivePublicKey c x, x)) random path =
       Inr (v0AD @ m_element (hd ms) @ ri @ mac, sprp_keys_of keys)
     \<and> build_routing c g None skipped ms = Inr (ri, mac)
     \<and> materials_fit c g None p skipped ms \<and> ms \<noteq> []
     \<and> m_prevPadding (hd ms) = [] \<and> length (m_element (hd ms)) = es
     \<and> length ri = ri_len g \<and> length mac = MACLength \<and> map m_keys ms = keys
     \<and> map m_ID ms = map hopID path \<and> map m_commands ms = map hopCommands path
     \<and> opens_all c g None es (unwrapNike c g) sks ms \<and> key_sizes (sprp_keys_of keys)"
proof -
  have pp: "path \<noteq> []" "int (length path) \<le> NrHops g" "\<forall>h \<in> set path. length (hopID h) = NodeIDLength"
    "path_fits (p - ct_len None) (map hopCommands path)"
    using path by (simp_all add: path_ok_def ct_len_def)
  obtain ks gs where k: "derive_keys c (DerivePublicKey c x, x) path = Inr (ks, gs)"
      "nike_chain c (DerivePublicKey c x) sks ks gs"
    using derive_keys_ok [OF laws nl pp(1) keys] by blast
  have len: "length sks = length path" using keys by (metis length_map)
  have g0: "geometry_usable es (ct_len None) g" using g by (simp add: ct_len_def)
  have "\<forall>pub. int (length (PublicKeyBytes c pub)) = int es"
    using nl unfolding nike_laws_def es by blast
  then have lb: "\<forall>e \<in> set (map (PublicKeyBytes c) gs). length e = es" by auto
  have ll: "length ks = length path" "length (map (PublicKeyBytes c) gs) = length path"
    using nike_chain_lengths [OF k(2)] len by simp_all
  obtain skipped ms ri mac where a: "assemble_header c g None (Err errRandom) random path ks
        (map (PublicKeyBytes c) gs) =
       Inr (v0AD @ hd (map (PublicKeyBytes c) gs) @ ri @ mac, sprp_keys_of ks)"
      "build_routing c g None skipped ms = Inr (ri, mac)"
      "materials_fit c g None p skipped ms" "ms \<noteq> []"
      "m_prevPadding (hd ms) = []" "length ri = ri_len g" "length mac = MACLength"
      "map m_keys ms = ks" "map m_element ms = map (PublicKeyBytes c) gs"
      "map m_ID ms = map hopID path" "map m_commands ms = map hopCommands path"
    using assemble_header_ok [OF laws g0 p _ rnd pp(1,2) ll lb pp(3,4), of "Err errRandom"] by auto
  have hd: "hd (map (PublicKeyBytes c) gs) = m_element (hd ms)"
    using a(4) by (simp flip: a(9) add: hd_map)
  have "length (m_element (hd ms)) = es"
    using lb hd a(4,9) by (metis hd_in_set map_is_Nil_conv)
  moreover have "opens_all c g None es (unwrapNike c g) sks ms"
    by (rule nike_chain_opens [OF laws nl es g k(2) a(8,9)])
  moreover have "createHeader c g (Some (DerivePublicKey c x, x)) random path =
       Inr (v0AD @ m_element (hd ms) @ ri @ mac, sprp_keys_of ks)"
    using pp(2) by (simp add: createHeader_def k(1) a(1) hd)
  moreover have "key_sizes (sprp_keys_of ks)" by (rule nike_chain_key_sizes [OF laws k(2)])
  ultimately show ?thesis using a by blast
qed

lemma packet_at_first:
  "m_prevPadding m = [] \<Longrightarrow> packet_at m ri mac sealed = (v0AD @ m_element m @ ri @ mac) @ sealed"
  by (simp add: packet_at_def)

lemma last_commands:
  "map m_commands ms = map hopCommands path \<Longrightarrow> ms \<noteq> [] \<Longrightarrow> m_commands (last ms) = hopCommands (last path)"
  by (metis last_map map_is_Nil_conv)

text \<open>The core of both delivery theorems: a header with its keys, and a payload under it.\<close>

lemma deliver_sealed:
  assumes laws: "crypto_laws c"
    and g: "geometry_usable es (ct_len ctSize) g" "PerHopRoutingInfoLength g = int p"
    and ct: "\<forall>n. ctSize = Some n \<longrightarrow> 0 \<le> n"
    and hdr: "build_routing c g ctSize skipped ms = Inr (ri, mac)"
      "materials_fit c g ctSize p skipped ms" "ms \<noteq> []" "m_prevPadding (hd ms) = []"
      "map m_ID ms = map hopID path" "map m_commands ms = map hopCommands path"
      "opens_all c g ctSize es unwrap sks ms"
    and surb: "surb_of (hopCommands (last path)) = None"
    and len: "len = nat (HeaderLength g) + nat (PayloadTagLength g) + length payload"
  shows "\<exists>rs. relay unwrap sks ((v0AD @ m_element (hd ms) @ ri @ mac)
        @ encrypt_layers c (sprp_keys_of (map m_keys ms))
            (replicate (nat (PayloadTagLength g)) 0 @ payload)) = Inr rs
     \<and> routed len payload path rs"
proof -
  let ?sealed = "encrypt_layers c (sprp_keys_of (map m_keys ms))
            (replicate (nat (PayloadTagLength g)) 0 @ payload)"
  have "open_payload g (surb_of (m_commands (last ms)) \<noteq> None) (peel_all c (map m_keys ms) ?sealed)
      = Inr payload"
    using open_payload_ok [OF g(1), of payload] last_commands [OF hdr(6,3)] surb
    by (simp add: peel_all_encrypt [OF laws])
  moreover have "len = nat (HeaderLength g) + length ?sealed"
    using len by (simp add: length_encrypt_layers [OF laws])
  ultimately show ?thesis
    using relay_ok [OF laws g ct hdr(2,7,1,3,5,6)]
    unfolding packet_at_first [OF hdr(4), symmetric] by blast
qed

lemma nike_geometry_usable:
  assumes "GeometryFromUserForwardPayloadLength nike user withSURB nrHops = Inr g"
    and "0 \<le> nrHops" and "nikePublicKeySize nike = int es"
  shows "geometry_usable es 0 g \<and> PerHopRoutingInfoLength g = int 82 \<and> NrHops g = nrHops"
  using assms
  by (auto simp: GeometryFromUserForwardPayloadLength_def geo_factory_defs geometry_usable_def
      sphinx_lengths split: if_splits)

lemma nike_packet_delivered:
  assumes laws: "crypto_laws c" and nl: "nike_laws c" and rnd: "random_source random"
    and geo: "GeometryFromUserForwardPayloadLength (nikeScheme c) user withSURB nrHops = Inr g"
    and path: "path_ok g 82 path" and keys: "map hopKey path = map (DerivePublicKey c) sks"
    and surb: "surb_of (hopCommands (last path)) = None"
    and len: "int (length payload) = ForwardPayloadLength g"
  shows "\<exists>pkt rs. newNikePacket c g (Some (DerivePublicKey c x, x)) random path payload = Inr pkt
     \<and> int (length pkt) = PacketLength g
     \<and> relay (unwrapNike c g) sks pkt = Inr rs \<and> routed (length pkt) payload path rs"
proof -
  have hops: "0 \<le> nrHops"
    using path geo unfolding path_ok_def
    by (auto simp: GeometryFromUserForwardPayloadLength_def geo_factory_defs split: if_splits)
  obtain es where es: "nikePublicKeySize (nikeScheme c) = int es"
    using nl unfolding nike_laws_def by metis
  from nike_geometry_usable [OF geo hops es]
  have g: "geometry_usable es 0 g" "PerHopRoutingInfoLength g = int 82" by simp_all
  then have g0: "geometry_usable es (ct_len None) g" by (simp add: ct_len_def)
  obtain ks skipped ms ri mac where h: "createHeader c g (Some (DerivePublicKey c x, x)) random path =
       Inr (v0AD @ m_element (hd ms) @ ri @ mac, sprp_keys_of ks)"
      "build_routing c g None skipped ms = Inr (ri, mac)"
      "materials_fit c g None 82 skipped ms" "ms \<noteq> []" "m_prevPadding (hd ms) = []"
      "length (m_element (hd ms)) = es" "length ri = ri_len g" "length mac = MACLength"
      "map m_keys ms = ks" "map m_ID ms = map hopID path"
      "map m_commands ms = map hopCommands path"
      "opens_all c g None es (unwrapNike c g) sks ms"
    using nike_header_ok [OF laws nl rnd es g path keys] by blast
  let ?hdr = "v0AD @ m_element (hd ms) @ ri @ mac"
  let ?sealed = "encrypt_layers c (sprp_keys_of ks) (replicate (nat (PayloadTagLength g)) 0 @ payload)"
  have R: "RoutingInfoLength g = int (ri_len g)" using g by (simp add: geometry_usable_def ri_len_def)
  have H: "HeaderLength g = int (length ?hdr)"
    using g(1) h(6-8) by (simp add: geometry_usable_def R v0AD_def)
  have p: "newNikePacket c g (Some (DerivePublicKey c x, x)) random path payload = Inr (?hdr @ ?sealed)"
    using len by (simp add: newNikePacket_def h(1) seal_payload_ok [OF laws g(1)])
  have "int (length (?hdr @ ?sealed)) = PacketLength g"
    using g(1) H len by (simp add: length_encrypt_layers [OF laws] geometry_usable_def)
  moreover have "length (?hdr @ ?sealed) = nat (HeaderLength g) + nat (PayloadTagLength g) + length payload"
    unfolding H by (simp add: length_encrypt_layers [OF laws])
  from deliver_sealed [OF laws g0 g(2) _ h(2-5,10-12) surb this]
  obtain rs where "relay (unwrapNike c g) sks (?hdr @ ?sealed) = Inr rs"
      "routed (length (?hdr @ ?sealed)) payload path rs"
    unfolding h(9) by auto
  ultimately show ?thesis using p by blast
qed

text \<open>
  C1. Delivery. A Sphinx packet made for a path (NIKE variant) has exactly the geometry's length;
  handed from hop to hop, every hop's \<open>Unwrap\<close> succeeds: an intermediate hop gets its own commands
  plus the identity of the next hop, no payload, and a packet of the same length to forward, and the
  last hop gets its commands and the payload unchanged. The hypotheses are those of the crypto
  library, a geometry from the constructor, and a path whose commands fit.
\<close>

theorem sphinx_delivers:
  assumes laws: "crypto_laws c" and nl: "nike_laws c" and rnd: "random_source random"
    and geo: "GeometryFromUserForwardPayloadLength (nikeScheme c) user withSURB nrHops = Inr g"
    and path: "path_ok g 82 path" and keys: "map hopKey path = map (DerivePublicKey c) sks"
    and surb: "surb_of (hopCommands (last path)) = None"
    and len: "int (length payload) = ForwardPayloadLength g"
  shows "\<exists>pkt rs. newNikePacket c g (Some (DerivePublicKey c x, x)) random path payload = Inr pkt
     \<and> int (length pkt) = PacketLength g
     \<and> relay (unwrapNike c g) sks pkt = Inr rs \<and> routed (length pkt) payload path rs"
  by (rule nike_packet_delivered [OF assms])

text \<open>A toy suite that satisfies the laws, and a path of two hops, for the witnesses.\<close>

definition demo_crypto :: "(byte, byte) crypto" where
  "demo_crypto = \<lparr>nikeScheme = \<lparr>nikeSchemeName = ''demo'', nikePublicKeySize = 1\<rparr>,
     DerivePublicKey = (\<lambda>a. a), DeriveSecret = (\<lambda>a b. [a * b]), PublicKeyBytes = (\<lambda>p. [p]),
     UnmarshalPublicKey = (\<lambda>b. case b of [] \<Rightarrow> None | v # _ \<Rightarrow> Some v),
     BlindKey = (\<lambda>p f. Some (p * f)), SchemeBlind = (\<lambda>p f. p * f),
     PrivateKeyFromSeed = (\<lambda>b. hd b), CiphertextSize = 1,
     Decapsulate = (\<lambda>a b. Some (map (\<lambda>v. a + v) b)),
     hkdf_expand = (\<lambda>ikm info n. replicate n (sum_list ikm)),
     hmac_sha256 = (\<lambda>k m. replicate 32 (sum_list k + sum_list m)),
     aes_ctr = (\<lambda>k iv n. replicate n (sum_list k)),
     aez_encrypt = (\<lambda>k iv m. map (\<lambda>v. v + sum_list k) m),
     aez_decrypt = (\<lambda>k iv m. Some (map (\<lambda>v. v - sum_list k) m)),
     sha512_256 = (\<lambda>m. replicate 32 (sum_list m))\<rparr>"

definition demo_path :: "RoutingCommand list \<Rightarrow> byte PathHop list" where
  "demo_path cmds = [\<lparr>hopID = replicate 32 1, hopKey = 5, hopCommands = [NodeDelay 7]\<rparr>,
     \<lparr>hopID = replicate 32 2, hopKey = 6, hopCommands = cmds\<rparr>]"

lemma demo_crypto_laws: "crypto_laws demo_crypto" "nike_laws demo_crypto"
proof -
  have "map (\<lambda>v. v - s) (map (\<lambda>v. v + s) m) = m" for s and m :: bytes
    by (simp add: comp_def)
  moreover have "map (\<lambda>v. v + s) (map (\<lambda>v. v - s) m) = m" for s and m :: bytes
    by (simp add: comp_def)
  ultimately show "crypto_laws demo_crypto"
    by (simp add: crypto_laws_def demo_crypto_def sphinx_lengths)
  show "nike_laws demo_crypto"
    by (simp add: nike_laws_def demo_crypto_def mult.commute mult.assoc)
qed

definition demo_geometry3 :: Geometry where
  "demo_geometry3 = (case (GeometryFromUserForwardPayloadLength (nikeScheme demo_crypto) 100 False 3
     :: (geo_err, Geometry) go) of Inr g \<Rightarrow> g | Inl e \<Rightarrow> undefined)"

lemma demo_geometry3:
  "(GeometryFromUserForwardPayloadLength (nikeScheme demo_crypto) 100 False 3 :: (geo_err, Geometry) go)
     = Inr demo_geometry3"
  "ForwardPayloadLength demo_geometry3 = 100" "NrHops demo_geometry3 = 3"
  by (simp_all add: demo_geometry3_def GeometryFromUserForwardPayloadLength_def geo_factory_defs
      demo_crypto_def)

lemma demo_path_ok:
  "path_ok demo_geometry3 82 (demo_path [Recipient (replicate 32 4)])"
  "path_ok demo_geometry3 82 (demo_path [Recipient (replicate 32 4), SURBReply (replicate 16 9)])"
  by (simp_all add: path_ok_def demo_path_def demo_geometry3(3) commands_fit_def one_at_most_def
      routing_writers sphinx_lengths nextNodeHopLength_def)

lemma demo_random: "random_source (\<lambda>n. Some (replicate n 3))"
  by (simp add: random_source_def)

theorem sphinx_delivers_witness:
  "\<exists>pkt rs. newNikePacket demo_crypto demo_geometry3 (Some (3, 3)) (\<lambda>n. Some (replicate n 3))
       (demo_path [Recipient (replicate 32 4)]) (replicate 100 8) = Inr pkt
     \<and> int (length pkt) = PacketLength demo_geometry3
     \<and> relay (unwrapNike demo_crypto demo_geometry3) [5, 6] pkt = Inr rs
     \<and> routed (length pkt) (replicate 100 8) (demo_path [Recipient (replicate 32 4)]) rs"
  using sphinx_delivers [OF demo_crypto_laws demo_random demo_geometry3(1) demo_path_ok(1),
      of "[5, 6]" "replicate 100 8" 3]
  by (simp add: demo_path_def demo_crypto_def demo_geometry3(2))

section \<open>Replies\<close>

fun encrypt_up :: "('pub, 'priv) crypto \<Rightarrow> sprp_key list \<Rightarrow> bytes \<Rightarrow> bytes" where
  "encrypt_up c [] b = b"
| "encrypt_up c ((key, iv) # ks) b = encrypt_up c ks (SPRPEncrypt c key iv b)"

lemma surb_layers_ok:
  assumes "key_sizes ks" and "length key = SPRPKeyLength" "length iv = SPRPIVLength"
  shows "surb_layers c (Suc (length ks)) (concat (map (\<lambda>(key, iv). key @ iv) ks) @ key @ iv) b
     = SPRPDecrypt c key iv (encrypt_up c ks b)"
  using assms(1)
proof (induction ks arbitrary: b)
  case Nil
  then show ?case
    using assms(2,3) by (auto simp: copy_into_def go_bind_def SPRPDecrypt_def or_panic_def split: option.split)
next
  case (Cons k ks)
  obtain key' iv' where k: "k = (key', iv')" "length key' = SPRPKeyLength" "length iv' = SPRPIVLength"
    using Cons.prems by (cases k) (auto simp: key_sizes_def)
  let ?rest = "concat (map (\<lambda>(key, iv). key @ iv) ks) @ key @ iv"
  have "surb_layers c (Suc (length (k # ks))) (key' @ iv' @ ?rest) b
      = surb_layers c (Suc (length ks)) ?rest (SPRPEncrypt c key' iv' b)"
    using k(2,3) by (subst surb_layers.simps)
      (simp add: copy_into_def sprpKeyMaterialLength_def Let_def del: surb_layers.simps)
  moreover have "key_sizes ks" using Cons.prems by (simp add: key_sizes_def)
  ultimately show ?case using Cons.IH k(1) by (simp del: surb_layers.simps)
qed

lemma encrypt_up_append:
  "encrypt_up c (ks @ [(key, iv)]) b = SPRPEncrypt c key iv (encrypt_up c ks b)"
  by (induction c ks b rule: encrypt_up.induct) simp_all

lemma encrypt_up_peel:
  assumes "crypto_laws c"
  shows "encrypt_up c (rev (sprp_keys_of keys)) (peel_all c keys b) = b"
proof (induction keys arbitrary: b)
  case Nil
  then show ?case by (simp add: sprp_keys_of_def peel_all_def)
next
  case (Cons k keys)
  have "SPRPEncrypt c (PayloadEncryption k) (HeaderEncryptionIV k) (peel c k b) = b"
    using assms unfolding crypto_laws_def SPRPEncrypt_def peel_def by (metis option.sel)
  then show ?case
    using Cons [of "peel c k b"]
    by (simp add: sprp_keys_of_def peel_all_def encrypt_up_append)
qed

lemma length_surb_keys:
  assumes "key_sizes ks"
  shows "length (concat (map (\<lambda>(key, iv). key @ iv) ks)) = sprpKeyMaterialLength * length ks"
  using assms
  by (induction ks) (auto simp: key_sizes_def sprpKeyMaterialLength_def)

lemma DecryptSURBPayload_ok:
  assumes laws: "crypto_laws c" and g: "geometry_usable es ct g"
    and ks: "key_sizes (sprp_keys_of keys)" and kp: "length kp = sprpKeyMaterialLength"
    and sealed: "sealed = SPRPEncrypt c (take SPRPKeyLength kp) (drop SPRPKeyLength kp)
        (replicate (nat (PayloadTagLength g)) 0 @ payload)"
  shows "DecryptSURBPayload c g (peel_all c keys sealed) (surb_keys (sprp_keys_of keys) kp) = Inr payload"
proof -
  let ?rks = "rev (sprp_keys_of keys)" and ?key = "take SPRPKeyLength kp" and ?iv = "drop SPRPKeyLength kp"
  define t where "t = nat (PayloadTagLength g)"
  have T: "PayloadTagLength g = int t" using g by (auto simp: geometry_usable_def t_def)
  have rk: "key_sizes ?rks" using ks by (simp add: key_sizes_def)
  have l: "length (surb_keys (sprp_keys_of keys) kp) = sprpKeyMaterialLength * Suc (length ?rks)"
    using length_surb_keys [OF rk] kp by (simp add: surb_keys_def)
  have pos: "0 < sprpKeyMaterialLength" by (simp add: sphinx_lengths)
  have n: "length (surb_keys (sprp_keys_of keys) kp) div sprpKeyMaterialLength = Suc (length ?rks)"
    "length (surb_keys (sprp_keys_of keys) kp) mod sprpKeyMaterialLength = 0"
    unfolding l using pos by simp_all
  have klen: "length ?key = SPRPKeyLength" "length ?iv = SPRPIVLength"
    using kp by (simp_all add: sprpKeyMaterialLength_def)
  have sk: "surb_keys (sprp_keys_of keys) kp = concat (map (\<lambda>(key, iv). key @ iv) ?rks) @ ?key @ ?iv"
    by (simp add: surb_keys_def)
  have plen: "length (peel_all c keys sealed) = length sealed"
    unfolding peel_all_def
    by (induction keys arbitrary: sealed) (simp_all add: length_peel [OF laws])
  have "surb_layers c (Suc (length ?rks)) (surb_keys (sprp_keys_of keys) kp) (peel_all c keys sealed)
      = SPRPDecrypt c ?key ?iv sealed"
    unfolding sk surb_layers_ok [OF rk klen] encrypt_up_peel [OF laws] ..
  also have "\<dots> = Inr (replicate t 0 @ payload)"
    using laws by (simp add: sealed SPRPDecrypt_def SPRPEncrypt_def crypto_laws_def t_def)
  finally have s: "surb_layers c (Suc (length ?rks)) (surb_keys (sprp_keys_of keys) kp)
      (peel_all c keys sealed) = Inr (replicate t 0 @ payload)" .
  have le: "\<not> int (length (peel_all c keys sealed)) < PayloadTagLength g"
    using laws unfolding plen T by (simp add: sealed SPRPEncrypt_def crypto_laws_def t_def)
  show ?thesis
    unfolding DecryptSURBPayload_def Let_def n s
    using le by (simp add: T go_slice_0_int go_slice_int del: of_nat_add)
qed

text \<open>The common part of the reply theorems.\<close>

lemma reply_sealed:
  assumes laws: "crypto_laws c"
    and g: "geometry_usable es (ct_len ctSize) g" "PerHopRoutingInfoLength g = int p"
    and ct: "\<forall>n. ctSize = Some n \<longrightarrow> 0 \<le> n"
    and hdr: "build_routing c g ctSize skipped ms = Inr (ri, mac)"
      "materials_fit c g ctSize p skipped ms" "ms \<noteq> []" "m_prevPadding (hd ms) = []"
      "map m_ID ms = map hopID path" "map m_commands ms = map hopCommands path"
      "opens_all c g ctSize es unwrap sks ms"
    and hlen: "HeaderLength g = int (length (v0AD @ m_element (hd ms) @ ri @ mac))"
    and path: "path \<noteq> []" "length (hopID (hd path)) = NodeIDLength"
    and ks: "key_sizes (sprp_keys_of (map m_keys ms))"
    and surb: "surb_of (hopCommands (last path)) = Some surbID"
    and kp: "length kp = sprpKeyMaterialLength"
  shows "\<exists>surb k. finish_surb g path kp (v0AD @ m_element (hd ms) @ ri @ mac, sprp_keys_of (map m_keys ms))
       = Inr (surb, k)
     \<and> int (length surb) = SURBLength g
     \<and> (\<forall>payload. \<exists>pkt rs reply. NewPacketFromSURB c g surb payload = Inr (pkt, hopID (hd path))
          \<and> relay unwrap sks pkt = Inr rs \<and> routed (length pkt) reply path rs
          \<and> DecryptSURBPayload c g reply k = Inr payload)"
proof -
  let ?hdr = "v0AD @ m_element (hd ms) @ ri @ mac" and ?keys = "map m_keys ms"
  let ?key = "take SPRPKeyLength kp" and ?iv = "drop SPRPKeyLength kp"
  let ?surb = "?hdr @ hopID (hd path) @ kp"
  have kl: "length ?key = SPRPKeyLength" "length ?iv = SPRPIVLength"
    using kp by (simp_all add: sprpKeyMaterialLength_def)
  have sl: "SURBLength g = int (length ?surb)"
    using g(1) path(2) kp hlen by (simp add: geometry_usable_def)
  have fin: "finish_surb g path kp (?hdr, sprp_keys_of ?keys) = Inr (?surb, surb_keys (sprp_keys_of ?keys) kp)"
    unfolding finish_surb_def sl make_bytes_int using path(1) by (cases path) simp_all
  have "\<exists>pkt rs reply. NewPacketFromSURB c g ?surb payload = Inr (pkt, hopID (hd path))
          \<and> relay unwrap sks pkt = Inr rs \<and> routed (length pkt) reply path rs
          \<and> DecryptSURBPayload c g reply (surb_keys (sprp_keys_of ?keys) kp) = Inr payload" for payload
  proof -
    let ?plain = "replicate (nat (PayloadTagLength g)) 0 @ payload"
    define sealed where "sealed = SPRPEncrypt c ?key ?iv ?plain"
    have ls: "length sealed = length ?plain"
      using laws by (simp add: sealed_def SPRPEncrypt_def crypto_laws_def)
    have kpd: "kp = ?key @ ?iv" by simp
    have o1: "(go_slice ?surb 0 (HeaderLength g) :: (sphinx_err, bytes) go) = Inr ?hdr"
      by (rule go_slice_prefix [OF hlen])
    have o2: "(go_slice ?surb (HeaderLength g) (HeaderLength g + int NodeIDLength) :: (sphinx_err, bytes) go)
        = Inr (hopID (hd path))"
      by (rule go_slice_at [OF hlen]) (simp add: path(2))
    have s3: "?surb = (?hdr @ hopID (hd path)) @ ?key @ ?iv"
      "?surb = (?hdr @ hopID (hd path) @ ?key) @ ?iv" by simp_all
    have o3: "(go_slice ?surb (HeaderLength g + int NodeIDLength)
        (HeaderLength g + int NodeIDLength + int SPRPKeyLength) :: (sphinx_err, bytes) go) = Inr ?key"
      unfolding s3(1) hlen by (rule go_slice_at) (simp_all add: path(2) kl del: length_take)
    have o4: "(go_slice ?surb (HeaderLength g + int NodeIDLength + int SPRPKeyLength) (int (length ?surb))
        :: (sphinx_err, bytes) go) = Inr ?iv"
      unfolding s3(2) hlen by (rule go_slice_suffix) (simp_all add: path(2) kp sprpKeyMaterialLength_def)
    have seal: "seal_payload c g ?hdr [(?key, ?iv)] payload = Inr (?hdr @ sealed)"
      unfolding seal_payload_ok [OF laws g(1)] by (simp add: sealed_def)
    have pkt: "NewPacketFromSURB c g ?surb payload = Inr (?hdr @ sealed, hopID (hd path))"
      unfolding NewPacketFromSURB_def Let_def sl o1 o2 o3 o4 go_bind_simps
        copy_into_exact [OF kl(1)] copy_into_exact [OF kl(2)] copy_into_exact [OF path(2)] seal
      by simp
    let ?reply = "peel_all c ?keys sealed"
    have lp: "length (peel_all c ks b) = length b" for ks b
      unfolding peel_all_def by (induction ks arbitrary: b) (simp_all add: length_peel [OF laws])
    have tag: "PayloadTagLength g \<le> int (length ?reply)"
      using g(1) unfolding lp ls by (simp add: geometry_usable_def)
    have "open_payload g (surb_of (m_commands (last ms)) \<noteq> None) ?reply = Inr ?reply"
      using tag surb last_commands [OF hdr(6,3)] by (simp add: open_payload_def)
    moreover have "length (?hdr @ sealed) = nat (HeaderLength g) + length sealed"
      unfolding hlen by simp
    ultimately obtain rs where "relay unwrap sks (?hdr @ sealed) = Inr rs"
        "routed (length (?hdr @ sealed)) ?reply path rs"
      using relay_ok [OF laws g ct hdr(2,7,1,3,5,6)]
      unfolding packet_at_first [OF hdr(4), symmetric] by blast
    moreover have "DecryptSURBPayload c g ?reply (surb_keys (sprp_keys_of ?keys) kp) = Inr payload"
      by (rule DecryptSURBPayload_ok [OF laws g(1) ks kp sealed_def])
    ultimately show ?thesis using pkt by blast
  qed
  with fin sl show ?thesis by (metis (no_types, lifting))
qed

text \<open>
  C2. Replies. From a SURB made for a return path that ends in a SURB reply, whoever holds it can
  build a packet for any payload, without knowing the path beyond the first hop it is told; the
  packet travels the path like any other, and what the last hop is left with is opened to the
  original payload by the keys its maker kept.
\<close>

theorem surb_replies:
  assumes laws: "crypto_laws c" and nl: "nike_laws c" and rnd: "random_source random"
    and geo: "GeometryFromUserForwardPayloadLength (nikeScheme c) user withSURB nrHops = Inr g"
    and path: "path_ok g 82 path" and keys: "map hopKey path = map (DerivePublicKey c) sks"
    and surb: "surb_of (hopCommands (last path)) = Some surbID"
    and kp: "length kp = sprpKeyMaterialLength"
  shows "\<exists>surb k. newNikeSURB c g (Some kp) (Some (DerivePublicKey c x, x)) random path = Inr (surb, k)
     \<and> int (length surb) = SURBLength g
     \<and> (\<forall>payload. \<exists>pkt rs reply. NewPacketFromSURB c g surb payload = Inr (pkt, hopID (hd path))
          \<and> relay (unwrapNike c g) sks pkt = Inr rs \<and> routed (length pkt) reply path rs
          \<and> DecryptSURBPayload c g reply k = Inr payload)"
proof -
  have hops: "0 \<le> nrHops"
    using path geo unfolding path_ok_def
    by (auto simp: GeometryFromUserForwardPayloadLength_def geo_factory_defs split: if_splits)
  obtain es where es: "nikePublicKeySize (nikeScheme c) = int es"
    using nl unfolding nike_laws_def by metis
  from nike_geometry_usable [OF geo hops es]
  have g: "geometry_usable es 0 g" "PerHopRoutingInfoLength g = int 82" by simp_all
  then have g0: "geometry_usable es (ct_len None) g" by (simp add: ct_len_def)
  obtain ks skipped ms ri mac where h: "createHeader c g (Some (DerivePublicKey c x, x)) random path =
       Inr (v0AD @ m_element (hd ms) @ ri @ mac, sprp_keys_of ks)"
      "build_routing c g None skipped ms = Inr (ri, mac)"
      "materials_fit c g None 82 skipped ms" "ms \<noteq> []" "m_prevPadding (hd ms) = []"
      "length (m_element (hd ms)) = es" "length ri = ri_len g" "length mac = MACLength"
      "map m_keys ms = ks" "map m_ID ms = map hopID path"
      "map m_commands ms = map hopCommands path"
      "opens_all c g None es (unwrapNike c g) sks ms" "key_sizes (sprp_keys_of ks)"
    using nike_header_ok [OF laws nl rnd es g path keys] by blast
  have R: "RoutingInfoLength g = int (ri_len g)" using g by (simp add: geometry_usable_def ri_len_def)
  have H: "HeaderLength g = int (length (v0AD @ m_element (hd ms) @ ri @ mac))"
    using g(1) h(6-8) by (simp add: geometry_usable_def R v0AD_def)
  have p: "path \<noteq> []" "length (hopID (hd path)) = NodeIDLength"
    using path by (simp_all add: path_ok_def)
  have ks: "key_sizes (sprp_keys_of (map m_keys ms))" using h(9,13) by simp
  have "newNikeSURB c g (Some kp) (Some (DerivePublicKey c x, x)) random path
      = finish_surb g path kp (v0AD @ m_element (hd ms) @ ri @ mac, sprp_keys_of (map m_keys ms))"
    by (simp add: newNikeSURB_def h(1,9))
  then show ?thesis
    using reply_sealed [OF laws g0 g(2) _ h(2-5,10-12) H p ks surb kp] by simp
qed

theorem surb_replies_witness:
  "\<exists>surb k. newNikeSURB demo_crypto demo_geometry3 (Some (replicate 64 1)) (Some (3, 3))
       (\<lambda>n. Some (replicate n 3))
       (demo_path [Recipient (replicate 32 4), SURBReply (replicate 16 9)]) = Inr (surb, k)
     \<and> int (length surb) = SURBLength demo_geometry3
     \<and> (\<forall>payload. \<exists>pkt rs reply.
          NewPacketFromSURB demo_crypto demo_geometry3 surb payload = Inr (pkt, replicate 32 1)
          \<and> relay (unwrapNike demo_crypto demo_geometry3) [5, 6] pkt = Inr rs
          \<and> routed (length pkt) reply
               (demo_path [Recipient (replicate 32 4), SURBReply (replicate 16 9)]) rs
          \<and> DecryptSURBPayload demo_crypto demo_geometry3 reply k = Inr payload)"
  using surb_replies [OF demo_crypto_laws demo_random demo_geometry3(1) demo_path_ok(2),
      of "[5, 6]" "replicate 16 9" "replicate 64 1" 3]
  by (simp add: demo_path_def demo_crypto_def sphinx_lengths)

end
