(* ===== verification/SphinxKemProps.thy ===== *)
theory SphinxKemProps
  imports SphinxProps
begin

text \<open>Delivery and replies for the KEM variant, by the same lemmas as the NIKE variant.\<close>

section \<open>The keys of a KEM path\<close>

text \<open>What a hop's private key makes of what was encapsulated to it.\<close>

definition encapsulated ::
  "('pub, 'priv) crypto \<Rightarrow> 'priv \<Rightarrow> bytes \<times> bytes \<Rightarrow> bool" where
  "encapsulated c sk e \<longleftrightarrow>
     int (length (fst e)) = CiphertextSize c \<and> Decapsulate c sk (fst e) = Some (snd e)"

lemma kem_keys_ok:
  assumes laws: "crypto_laws c"
  shows "\<exists>ks. kem_keys c es = Inr (ks, map fst es) \<and> length ks = length es
     \<and> key_sizes (sprp_keys_of ks)
     \<and> (\<forall>i < length es. (KDF c (snd (es ! i)) False :: (sphinx_err, _) go) = Inr (ks ! i))"
proof (induction es)
  case Nil
  then show ?case by (simp add: key_sizes_def sprp_keys_of_def)
next
  case (Cons e es)
  obtain ct ss where e: "e = (ct, ss)" by (cases e) blast
  obtain k where k: "(KDF c ss False :: (sphinx_err, _) go) = Inr k" using KDF_ok [OF laws] by blast
  have kl: "length (PayloadEncryption k) = SPRPKeyLength \<and> length (HeaderEncryptionIV k) = SPRPIVLength"
    using KDF_facts [OF k laws] by blast
  obtain ks where ks: "kem_keys c es = Inr (ks, map fst es)" "length ks = length es"
      "key_sizes (sprp_keys_of ks)"
      "\<forall>i < length es. (KDF c (snd (es ! i)) False :: (sphinx_err, _) go) = Inr (ks ! i)"
    using Cons by blast
  have "kem_keys c (e # es) = Inr (k # ks, map fst (e # es))" using ks(1) k e by simp
  moreover have "key_sizes (sprp_keys_of (k # ks))"
    using ks(3) kl by (simp add: key_sizes_def sprp_keys_of_def)
  moreover have "\<forall>i < length (e # es). (KDF c (snd ((e # es) ! i)) False :: (sphinx_err, _) go)
      = Inr ((k # ks) ! i)"
    using ks(4) k e by (auto simp: nth_Cons split: nat.split)
  ultimately show ?case using ks(2) by (metis length_Cons)
qed

lemma kem_opens:
  assumes n: "CiphertextSize c = int n" and g: "geometry_usable n n g"
    and e: "encapsulated c sk (ct, ss)"
    and k: "(KDF c ss False :: (sphinx_err, _) go) = Inr k"
    and m: "m_keys m = k" "m_element m = ct"
    and next_m: "ms \<noteq> [] \<Longrightarrow> length (m_element (hd ms)) = n"
  shows "opens c g (Some (int n)) n (unwrapKem c g) sk m ms"
proof -
  let ?tag = "sha512_256 c ct"
  let ?next = "\<lambda>ct :: bytes. (Inr ct :: (sphinx_err, bytes) go)"
  have l: "length ct = n" "Decapsulate c sk ct = Some ss"
    using e n by (simp_all add: encapsulated_def)
  have "unwrapKem c g sk (v0AD @ m_element m @ rest) =
      with_tag (Some ?tag) (unwrap_keyed c g (int n) (int (ct_len (Some (int n)))) (m_keys m) ?tag ?next
        (v0AD @ m_element m @ rest))"
    if "HeaderLength g \<le> int (2 + n + length rest)" for rest
    unfolding unwrapKem_def Let_def n m unwrap_element_ok [OF g l(1) that] with_tag_Inr
      go_bind_simps l(2) or_err_simps KDF_any_error [OF k]
    by (simp add: ct_len_def)
  then show ?thesis
    unfolding opens_def using l m next_m
    by (intro conjI exI [of _ ?tag] exI [of _ ?next]) auto
qed

lemma kem_opens_all:
  assumes n: "CiphertextSize c = int n" and g: "geometry_usable n n g"
  shows "list_all2 (encapsulated c) sks es \<Longrightarrow> length ks = length es \<Longrightarrow>
     \<forall>i < length es. (KDF c (snd (es ! i)) False :: (sphinx_err, _) go) = Inr (ks ! i) \<Longrightarrow>
     map m_keys ms = ks \<Longrightarrow> map m_element ms = map fst es \<Longrightarrow>
     opens_all c g (Some (int n)) n (unwrapKem c g) sks ms"
proof (induction sks es arbitrary: ks ms rule: list_all2_induct)
  case Nil
  then show ?case by simp
next
  case (Cons sk sks e es)
  obtain m ms' k ks' where l: "ms = m # ms'" "ks = k # ks'" "m_keys m = k" "map m_keys ms' = ks'"
      "m_element m = fst e" "map m_element ms' = map fst es" "length ks' = length es"
    using Cons.prems by (cases ms; cases ks) auto
  have k: "(KDF c (snd e) False :: (sphinx_err, _) go) = Inr k"
    using Cons.prems(2) l(2) by (metis length_Cons nth_Cons_0 zero_less_Suc)
  have rest: "\<forall>i < length es. (KDF c (snd (es ! i)) False :: (sphinx_err, _) go) = Inr (ks' ! i)"
    using Cons.prems(2) l(2) by (metis Suc_less_eq length_Cons nth_Cons_Suc)
  have "length (m_element (hd ms')) = n" if ne: "ms' \<noteq> []"
  proof -
    obtain e' es' where "es = e' # es'" using ne l(6) by (cases es) auto
    then show ?thesis using Cons.hyps(2) l(6) ne n
      by (cases ms'; cases sks) (auto simp: encapsulated_def)
  qed
  moreover have "encapsulated c sk (fst e, snd e)" using Cons.hyps(1) by simp
  ultimately have "opens c g (Some (int n)) n (unwrapKem c g) sk m ms'"
    using kem_opens [OF n g _ k l(3,5)] by blast
  moreover have "opens_all c g (Some (int n)) n (unwrapKem c g) sks ms'"
    by (rule Cons.IH [OF l(7) rest l(4,6)])
  ultimately show ?case using l(1) by simp
qed

lemma kem_geometry_usable:
  assumes "KEMGeometryFromUserForwardPayloadLength kem user withSURB nrHops = Inr g"
    and "0 \<le> nrHops" and "kemCiphertextSize kem = int n"
  shows "geometry_usable n n g \<and> PerHopRoutingInfoLength g = int (82 + n) \<and> NrHops g = nrHops"
  using assms
  by (auto simp: KEMGeometryFromUserForwardPayloadLength_def geo_factory_defs geometry_usable_def
      sphinx_lengths split: if_splits)

lemma kem_header_ok:
  assumes laws: "crypto_laws c" and rnd: "random_source random"
    and n: "CiphertextSize c = int n"
    and g: "geometry_usable n n g" and p: "PerHopRoutingInfoLength g = int (82 + n)"
    and path: "path_ok g 82 path" and enc: "list_all2 (encapsulated c) sks es"
    and len: "length es = length path"
  shows "\<exists>skipped ms ri mac.
     createKEMHeader c g es random path =
       Inr (v0AD @ m_element (hd ms) @ ri @ mac, sprp_keys_of (map m_keys ms))
     \<and> build_routing c g (Some (int n)) skipped ms = Inr (ri, mac)
     \<and> materials_fit c g (Some (int n)) (82 + n) skipped ms \<and> ms \<noteq> []
     \<and> m_prevPadding (hd ms) = []
     \<and> map m_ID ms = map hopID path \<and> map m_commands ms = map hopCommands path
     \<and> opens_all c g (Some (int n)) n (unwrapKem c g) sks ms
     \<and> key_sizes (sprp_keys_of (map m_keys ms))
     \<and> HeaderLength g = int (length (v0AD @ m_element (hd ms) @ ri @ mac))"
proof -
  have cl: "ct_len (Some (int n)) = n" by (simp add: ct_len_def)
  have pp: "path \<noteq> []" "int (length path) \<le> NrHops g" "\<forall>h \<in> set path. length (hopID h) = NodeIDLength"
    "path_fits (82 + n - ct_len (Some (int n))) (map hopCommands path)"
    using path by (simp_all add: path_ok_def cl)
  obtain ks where k: "kem_keys c es = Inr (ks, map fst es)" "length ks = length es"
      "key_sizes (sprp_keys_of ks)"
      "\<forall>i < length es. (KDF c (snd (es ! i)) False :: (sphinx_err, _) go) = Inr (ks ! i)"
    using kem_keys_ok [OF laws] by blast
  have g0: "geometry_usable n (ct_len (Some (int n))) g" using g by (simp add: cl)
  have lb: "\<forall>e \<in> set (map fst es). length e = n"
    using enc by (induction rule: list_all2_induct) (auto simp: encapsulated_def n)
  have ll: "length ks = length path" "length (map fst es) = length path" using k(2) len by simp_all
  obtain skipped ms ri mac where a: "assemble_header c g (Some (int n)) Panic random path ks (map fst es) =
       Inr (v0AD @ hd (map fst es) @ ri @ mac, sprp_keys_of ks)"
      "build_routing c g (Some (int n)) skipped ms = Inr (ri, mac)"
      "materials_fit c g (Some (int n)) (82 + n) skipped ms" "ms \<noteq> []"
      "m_prevPadding (hd ms) = []" "length ri = ri_len g" "length mac = MACLength"
      "map m_keys ms = ks" "map m_element ms = map fst es"
      "map m_ID ms = map hopID path" "map m_commands ms = map hopCommands path"
    using assemble_header_ok [OF laws g0 p _ rnd pp(1,2) ll lb pp(3,4), of Panic] by auto
  have hd: "hd (map fst es) = m_element (hd ms)"
    using a(4) by (simp flip: a(9) add: hd_map)
  have le: "length (m_element (hd ms)) = n"
    using lb hd a(4,9) by (metis hd_in_set map_is_Nil_conv)
  have R: "RoutingInfoLength g = int (ri_len g)" using g by (simp add: geometry_usable_def ri_len_def)
  have H: "HeaderLength g = int (length (v0AD @ m_element (hd ms) @ ri @ mac))"
    using g a(6,7) le by (simp add: geometry_usable_def R v0AD_def)
  have "createKEMHeader c g es random path =
       Inr (v0AD @ m_element (hd ms) @ ri @ mac, sprp_keys_of (map m_keys ms))"
    using pp(2) by (simp add: createKEMHeader_def k(1) n a(1,8) hd)
  moreover have "opens_all c g (Some (int n)) n (unwrapKem c g) sks ms"
    by (rule kem_opens_all [OF n g enc k(2,4) a(8,9)])
  ultimately show ?thesis using a H k(3) by blast
qed

text \<open>
  C25. Delivery with a KEM: the counterpart of \<open>sphinx_delivers\<close>. Each hop finds the KEM ciphertext
  for the next one at the end of its block, so its commands have to fit in what is left; the code
  does not check this, the hypothesis \<open>path_ok\<close> does.
\<close>

theorem kem_sphinx_delivers:
  assumes laws: "crypto_laws c" and rnd: "random_source random"
    and geo: "KEMGeometryFromUserForwardPayloadLength kem user withSURB nrHops = Inr g"
    and size: "kemCiphertextSize kem = CiphertextSize c" "0 \<le> CiphertextSize c"
    and path: "path_ok g 82 path"
    and enc: "list_all2 (encapsulated c) sks es" and lene: "length es = length path"
    and surb: "surb_of (hopCommands (last path)) = None"
    and len: "int (length payload) = ForwardPayloadLength g"
  shows "\<exists>pkt rs. newKEMPacket c g es random path payload = Inr pkt
     \<and> int (length pkt) = PacketLength g
     \<and> relay (unwrapKem c g) sks pkt = Inr rs \<and> routed (length pkt) payload path rs"
proof -
  obtain n where n: "CiphertextSize c = int n" using size(2) nonneg_int_cases by blast
  have hops: "0 \<le> nrHops"
    using path geo unfolding path_ok_def
    by (auto simp: KEMGeometryFromUserForwardPayloadLength_def geo_factory_defs split: if_splits)
  from kem_geometry_usable [OF geo hops] size(1) n
  have g: "geometry_usable n n g" "PerHopRoutingInfoLength g = int (82 + n)" by simp_all
  then have g0: "geometry_usable n (ct_len (Some (int n))) g" by (simp add: ct_len_def)
  obtain skipped ms ri mac where h: "createKEMHeader c g es random path =
       Inr (v0AD @ m_element (hd ms) @ ri @ mac, sprp_keys_of (map m_keys ms))"
     "build_routing c g (Some (int n)) skipped ms = Inr (ri, mac)"
     "materials_fit c g (Some (int n)) (82 + n) skipped ms" "ms \<noteq> []"
     "m_prevPadding (hd ms) = []"
     "map m_ID ms = map hopID path" "map m_commands ms = map hopCommands path"
     "opens_all c g (Some (int n)) n (unwrapKem c g) sks ms"
     "HeaderLength g = int (length (v0AD @ m_element (hd ms) @ ri @ mac))"
    using kem_header_ok [OF laws rnd n g path enc lene] by blast
  let ?hdr = "v0AD @ m_element (hd ms) @ ri @ mac"
  let ?sealed = "encrypt_layers c (sprp_keys_of (map m_keys ms))
    (replicate (nat (PayloadTagLength g)) 0 @ payload)"
  have p: "newKEMPacket c g es random path payload = Inr (?hdr @ ?sealed)"
    using len by (simp add: newKEMPacket_def h(1) seal_payload_ok [OF laws g(1)])
  have "int (length (?hdr @ ?sealed)) = PacketLength g"
    using g(1) h(9) len by (simp add: length_encrypt_layers [OF laws] geometry_usable_def)
  moreover have "length (?hdr @ ?sealed) = nat (HeaderLength g) + nat (PayloadTagLength g) + length payload"
    unfolding h(9) by (simp add: length_encrypt_layers [OF laws])
  from deliver_sealed [OF laws g0 g(2) _ h(2-8) surb this]
  obtain rs where "relay (unwrapKem c g) sks (?hdr @ ?sealed) = Inr rs"
      "routed (length (?hdr @ ?sealed)) payload path rs"
    by auto
  ultimately show ?thesis using p by blast
qed

definition demo_kem :: kem_scheme where
  "demo_kem = \<lparr>kemSchemeName = ''demo'', kemCiphertextSize = 1\<rparr>"

definition demo_kem_geometry :: Geometry where
  "demo_kem_geometry = (case (KEMGeometryFromUserForwardPayloadLength demo_kem 100 False 3
     :: (geo_err, Geometry) go) of Inr g \<Rightarrow> g | Inl e \<Rightarrow> undefined)"

lemma demo_kem_geometry:
  "(KEMGeometryFromUserForwardPayloadLength demo_kem 100 False 3 :: (geo_err, Geometry) go)
     = Inr demo_kem_geometry"
  "ForwardPayloadLength demo_kem_geometry = 100" "NrHops demo_kem_geometry = 3"
  "kemCiphertextSize demo_kem = CiphertextSize demo_crypto" "0 \<le> CiphertextSize demo_crypto"
  by (simp_all add: demo_kem_geometry_def KEMGeometryFromUserForwardPayloadLength_def geo_factory_defs
      demo_kem_def demo_crypto_def)

lemma demo_kem_path_ok:
  "path_ok demo_kem_geometry 82 (demo_path [Recipient (replicate 32 4)])"
  "path_ok demo_kem_geometry 82 (demo_path [Recipient (replicate 32 4), SURBReply (replicate 16 9)])"
  "list_all2 (encapsulated demo_crypto) [5, 6] [([1], [6]), ([2], [8])]"
  "length [([1], [6]), ([2 :: byte], [8 :: byte])] = length (demo_path cmds)"
  by (simp_all add: path_ok_def demo_path_def demo_kem_geometry(3) commands_fit_def one_at_most_def
      routing_writers sphinx_lengths nextNodeHopLength_def encapsulated_def demo_crypto_def)

theorem kem_sphinx_delivers_witness:
  "\<exists>pkt rs. newKEMPacket demo_crypto demo_kem_geometry [([1], [6]), ([2], [8])]
       (\<lambda>n. Some (replicate n 3)) (demo_path [Recipient (replicate 32 4)]) (replicate 100 8) = Inr pkt
     \<and> int (length pkt) = PacketLength demo_kem_geometry
     \<and> relay (unwrapKem demo_crypto demo_kem_geometry) [5, 6] pkt = Inr rs
     \<and> routed (length pkt) (replicate 100 8) (demo_path [Recipient (replicate 32 4)]) rs"
  by (rule kem_sphinx_delivers [OF demo_crypto_laws(1) demo_random demo_kem_geometry(1,4,5)
      demo_kem_path_ok(1,3,4)])
    (simp_all add: demo_path_def demo_kem_geometry(2))

text \<open>Replies with a KEM: the counterpart of \<open>surb_replies\<close>.\<close>

theorem kem_surb_replies:
  assumes laws: "crypto_laws c" and rnd: "random_source random"
    and geo: "KEMGeometryFromUserForwardPayloadLength kem user withSURB nrHops = Inr g"
    and size: "kemCiphertextSize kem = CiphertextSize c" "0 \<le> CiphertextSize c"
    and path: "path_ok g 82 path"
    and enc: "list_all2 (encapsulated c) sks es" and lene: "length es = length path"
    and surb: "surb_of (hopCommands (last path)) = Some surbID"
    and kp: "length kp = sprpKeyMaterialLength"
  shows "\<exists>surb k. newKemSURB c g (Some kp) es random path = Inr (surb, k)
     \<and> int (length surb) = SURBLength g
     \<and> (\<forall>payload. \<exists>pkt rs reply. NewPacketFromSURB c g surb payload = Inr (pkt, hopID (hd path))
          \<and> relay (unwrapKem c g) sks pkt = Inr rs \<and> routed (length pkt) reply path rs
          \<and> DecryptSURBPayload c g reply k = Inr payload)"
proof -
  obtain n where n: "CiphertextSize c = int n" using size(2) nonneg_int_cases by blast
  have hops: "0 \<le> nrHops"
    using path geo unfolding path_ok_def
    by (auto simp: KEMGeometryFromUserForwardPayloadLength_def geo_factory_defs split: if_splits)
  from kem_geometry_usable [OF geo hops] size(1) n
  have g: "geometry_usable n n g" "PerHopRoutingInfoLength g = int (82 + n)" by simp_all
  then have g0: "geometry_usable n (ct_len (Some (int n))) g" by (simp add: ct_len_def)
  obtain skipped ms ri mac where h: "createKEMHeader c g es random path =
       Inr (v0AD @ m_element (hd ms) @ ri @ mac, sprp_keys_of (map m_keys ms))"
     "build_routing c g (Some (int n)) skipped ms = Inr (ri, mac)"
     "materials_fit c g (Some (int n)) (82 + n) skipped ms" "ms \<noteq> []"
     "m_prevPadding (hd ms) = []"
     "map m_ID ms = map hopID path" "map m_commands ms = map hopCommands path"
     "opens_all c g (Some (int n)) n (unwrapKem c g) sks ms"
     "HeaderLength g = int (length (v0AD @ m_element (hd ms) @ ri @ mac))"
     "key_sizes (sprp_keys_of (map m_keys ms))"
    using kem_header_ok [OF laws rnd n g path enc lene] by blast
  have p: "path \<noteq> []" "length (hopID (hd path)) = NodeIDLength"
    using path by (simp_all add: path_ok_def)
  have "newKemSURB c g (Some kp) es random path
      = finish_surb g path kp (v0AD @ m_element (hd ms) @ ri @ mac, sprp_keys_of (map m_keys ms))"
    by (simp add: newKemSURB_def h(1))
  then show ?thesis
    using reply_sealed [OF laws g0 g(2) _ h(2-9) p h(10) surb kp] by simp
qed

theorem kem_surb_replies_witness:
  "\<exists>surb k. newKemSURB demo_crypto demo_kem_geometry (Some (replicate 64 1)) [([1], [6]), ([2], [8])]
       (\<lambda>n. Some (replicate n 3))
       (demo_path [Recipient (replicate 32 4), SURBReply (replicate 16 9)]) = Inr (surb, k)
     \<and> int (length surb) = SURBLength demo_kem_geometry
     \<and> (\<forall>payload. \<exists>pkt rs reply.
          NewPacketFromSURB demo_crypto demo_kem_geometry surb payload
            = Inr (pkt, hopID (hd (demo_path [Recipient (replicate 32 4), SURBReply (replicate 16 9)])))
          \<and> relay (unwrapKem demo_crypto demo_kem_geometry) [5, 6] pkt = Inr rs
          \<and> routed (length pkt) reply
               (demo_path [Recipient (replicate 32 4), SURBReply (replicate 16 9)]) rs
          \<and> DecryptSURBPayload demo_crypto demo_kem_geometry reply k = Inr payload)"
  by (rule kem_surb_replies [OF demo_crypto_laws(1) demo_random demo_kem_geometry(1,4,5)
      demo_kem_path_ok(2,3,4)])
    (simp_all add: demo_path_def sphinx_lengths)

end
