(* ===== verification/SphinxSafety.thy ===== *)
theory SphinxSafety
  imports SphinxKemProps
begin

text \<open>
  What \<open>Unwrap\<close> guarantees for any packet, whoever made it: a packet that is accepted has a valid
  MAC under the key of its own element, its commands hold at most one next hop and one SURB reply,
  and it is either forwarded at the same length or delivered unchanged, never both.
\<close>

lemma go_slice_Inr:
  "go_slice b lo hi = Inr r \<longleftrightarrow>
     0 \<le> lo \<and> lo \<le> hi \<and> hi \<le> int (length b) \<and> r = take (nat (hi - lo)) (drop (nat lo) b)"
  by (auto simp: go_slice_def)

lemma if_error_Inr: "(if b then Inl e else x) = Inr r \<longleftrightarrow> \<not> b \<and> x = Inr r"
  by simp

definition commands_noted :: "hop_commands \<Rightarrow> bool" where
  "commands_noted st \<longleftrightarrow> nextNode st = next_of (hopCmds st) \<and> surbReply st = surb_of (hopCmds st)
     \<and> one_at_most is_next (hopCmds st) \<and> one_at_most is_surb (hopCmds st)"

lemma next_of_append: "next_of (xs @ ys) = (case next_of xs of None \<Rightarrow> next_of ys | Some n \<Rightarrow> Some n)"
  by (induction xs rule: next_of.induct) simp_all

lemma surb_of_append: "surb_of (xs @ ys) = (case surb_of xs of None \<Rightarrow> surb_of ys | Some n \<Rightarrow> Some n)"
  by (induction xs rule: surb_of.induct) simp_all

lemma note_command_keeps:
  assumes "note_command cmd st = Inr st'" and "commands_noted st"
  shows "commands_noted st'"
proof -
  have n: "\<forall>a b. next_of (hopCmds st) \<noteq> Some (a, b) \<Longrightarrow> filter is_next (hopCmds st) = []"
    and s: "\<forall>i. surb_of (hopCmds st) \<noteq> Some i \<Longrightarrow> filter is_surb (hopCmds st) = []"
    unfolding next_of_None [symmetric] surb_of_None [symmetric]
    by (metis not_None_eq surj_pair, metis not_None_eq)
  show ?thesis
    using assms n s
    by (cases cmd)
      (auto simp: commands_noted_def next_of_append surb_of_append one_at_most_def
        split: if_splits option.splits)
qed

lemma parse_commands_keeps:
  "parse_commands g b st = Inr st' \<Longrightarrow> commands_noted st \<Longrightarrow> commands_noted st'"
proof (induction g b st rule: parse_commands.induct)
  case (1 g b st)
  show ?case
  proof (cases "routing_FromBytes b g")
    case (Inl e)
    then show ?thesis using "1.prems" by (simp add: parse_commands.simps [of g b])
  next
    case (Inr pr)
    obtain cmd rest where pr: "pr = (cmd, rest)" by (cases pr) blast
    show ?thesis
    proof (cases cmd)
      case None
      then show ?thesis
        using "1.prems" Inr pr by (simp add: parse_commands.simps [of g b] split: if_splits)
    next
      case (Some a)
      then obtain st1 where "note_command a st = Inr st1"
          "parse_commands g (case rest of None \<Rightarrow> [] | Some r \<Rightarrow> r) st1 = Inr st'"
        using "1.prems" Inr pr
        by (simp add: parse_commands.simps [of g b] split: sum.splits)
      then show ?thesis
        using "1.IH" Inr pr Some "1.prems"(2) note_command_keeps by blast
    qed
  qed
qed

text \<open>The outcome of an accepted packet; \<open>elemSize\<close> is the size of its element.\<close>

definition header_authentic ::
  "('pub, 'priv) crypto \<Rightarrow> Geometry \<Rightarrow> int \<Rightarrow> 'priv PacketKeys \<Rightarrow> bytes \<Rightarrow> bool" where
  "header_authentic c g elemSize keys pkt \<longleftrightarrow>
     (let macOff = nat (2 + elemSize + RoutingInfoLength g) in
      take MACLength (drop macOff pkt) = hmac_sha256 c (HeaderMAC keys) (take macOff pkt))"

definition accepted :: "bytes \<Rightarrow> unwrapped \<Rightarrow> bool" where
  "accepted pkt r \<longleftrightarrow>
     length (u_packet r) = length pkt
   \<and> one_at_most is_next (u_commands r) \<and> one_at_most is_surb (u_commands r)
   \<and> (if next_of (u_commands r) = None then u_payload r \<noteq> None \<and> u_packet r = pkt
      else u_payload r = None)"

lemma no_commands_noted: "commands_noted no_commands"
  by (simp add: commands_noted_def no_commands_def one_at_most_def)

lemma finish_unwrap_sound:
  assumes "finish_unwrap g pkt riOff ri newRI mac sealed payload tag st el = Inr r"
    and "commands_noted st"
    and "go_slice pkt riOff macOff = Inr ri" "go_slice pkt macOff payOff = Inr mac"
    and "go_slice pkt payOff (int (length pkt)) = Inr sealed"
  shows "accepted pkt r \<and> u_replayTag r = tag"
proof (cases "nextNode st")
  case None
  then show ?thesis
    using assms(1,2) by (auto simp: finish_unwrap_def accepted_def commands_noted_def go_bind_Inr_iff)
next
  case (Some n)
  then obtain element old where r: "(go_slice pkt 2 riOff :: (sphinx_err, _) go) = Inr old"
      "r = \<lparr>u_payload = None, u_replayTag = tag, u_commands = hopCmds st,
            u_packet = take 2 pkt @ copy_over old element @ copy_over ri newRI
              @ copy_over mac (snd n) @ copy_over sealed payload\<rparr>"
    using assms(1) by (cases n) (fastforce simp: finish_unwrap_def go_bind_Inr_iff)
  have "length (u_packet r) = length pkt"
    using r assms(3-5) by (auto simp: go_slice_Inr)
  then show ?thesis
    using Some r(2) assms(2) by (cases n) (auto simp: accepted_def commands_noted_def, metis)
qed

lemma unwrap_keyed_sound:
  assumes "unwrap_keyed c g elemSize ctSize keys tag nextElement pkt = Inr r"
  shows "accepted pkt r \<and> header_authentic c g elemSize keys pkt \<and> u_replayTag r = tag"
proof -
  let ?riOff = "2 + elemSize"
  let ?macOff = "?riOff + RoutingInfoLength g"
  let ?payOff = "?macOff + int MACLength"
  obtain maced mac ri cmdBuf st sealed newRI payload el where s:
      "(go_slice pkt 0 ?macOff :: (sphinx_err, _) go) = Inr maced"
      "(go_slice pkt ?macOff ?payOff :: (sphinx_err, _) go) = Inr mac"
      "mac = hmac_sha256 c (HeaderMAC keys) maced"
      "(go_slice pkt ?riOff (?riOff + RoutingInfoLength g) :: (sphinx_err, _) go) = Inr ri"
      "parse_commands g cmdBuf no_commands = Inr st"
      "(go_slice pkt ?payOff (int (length pkt)) :: (sphinx_err, _) go) = Inr sealed"
      "finish_unwrap g pkt ?riOff ri newRI mac sealed payload tag st el = Inr r"
    using assms
    unfolding unwrap_keyed_def Let_def go_bind_Inr_iff if_error_Inr not_not
    by (elim exE conjE) (rule that, assumption+)
  have "commands_noted st" using parse_commands_keeps [OF s(5) no_commands_noted] .
  moreover have "header_authentic c g elemSize keys pkt"
    using s(1-3) by (auto simp: header_authentic_def Let_def go_slice_Inr)
  ultimately show ?thesis using finish_unwrap_sound [OF s(7) _ s(4,2,6)] by blast
qed

lemma with_tag_InrD: "with_tag tag r = Inr a \<Longrightarrow> r = Inr a"
  by (auto simp: with_tag_def split: sum.splits fail.splits)

lemma with_tag_ErrD: "with_tag tag r = Inl (Err (e, t)) \<Longrightarrow> t = tag"
  by (auto simp: with_tag_def split: sum.splits fail.splits)

lemma with_tag_Panic [simp]: "with_tag tag r = Inl Panic \<longleftrightarrow> r = Inl Panic"
  by (auto simp: with_tag_def split: sum.splits fail.splits)

lemma unwrap_element_facts:
  "unwrap_element g elemSize pkt = Inr element \<Longrightarrow>
     element = take (nat elemSize) (drop 2 pkt) \<and> take 2 pkt = v0AD"
  by (auto simp: unwrap_element_def go_bind_Inr_iff go_slice_Inr split: if_splits)

text \<open>
  C23. Soundness of \<open>Unwrap\<close> on arbitrary input (NIKE variant). A packet is accepted only if it has
  version 0 and a group element whose shared secret with the node's key authenticates the whole
  header, and then the result is a well-formed decision: deliver with a payload and the packet
  untouched, or forward with exactly one next hop, no payload and a packet of the same length. An
  error carries no replay tag exactly if it comes before the group element is known - the packet is too short, of
  another version, or its element is none -, and every later error carries the tag of the element.
\<close>

theorem unwrapNike_sound:
  "case unwrapNike c g sk pkt of
     Inr r \<Rightarrow> accepted pkt r \<and> take 2 pkt = v0AD
       \<and> (\<exists>G k. UnmarshalPublicKey c (take (nat (nikePublicKeySize (nikeScheme c))) (drop 2 pkt)) = Some G
            \<and> (KDF c (DeriveSecret c sk G) True :: (unwrap_err, _) go) = Inr k
            \<and> header_authentic c g (nikePublicKeySize (nikeScheme c)) k pkt
            \<and> u_replayTag r = sha512_256 c (PublicKeyBytes c G))
   | Inl (Err (e, None)) \<Rightarrow> e \<in> {errTruncatedPacket, errUnknownVersion, errUnmarshalGroupElement}
       \<and> \<not> (\<exists>element G. unwrap_element g (nikePublicKeySize (nikeScheme c)) pkt = Inr element \<and> UnmarshalPublicKey c element = Some G)
   | Inl (Err (e, Some t)) \<Rightarrow>
       (\<exists>element G. unwrap_element g (nikePublicKeySize (nikeScheme c)) pkt = Inr element \<and> UnmarshalPublicKey c element = Some G
          \<and> element = take (nat (nikePublicKeySize (nikeScheme c))) (drop 2 pkt) \<and> t = sha512_256 c (PublicKeyBytes c G))
   | Inl Panic \<Rightarrow> True"
proof -
  let ?n = "nikePublicKeySize (nikeScheme c)"
  show ?thesis
  proof (cases "with_tag None (unwrap_element g ?n pkt)")
    case (Inl e)
    then show ?thesis
      by (auto simp: unwrapNike_def Let_def with_tag_def unwrap_element_def go_bind_def go_slice_def
          split: sum.splits fail.splits if_splits)
  next
    case (Inr element)
    then have el: "element = take (nat ?n) (drop 2 pkt)" "take 2 pkt = v0AD"
      using unwrap_element_facts [OF with_tag_InrD] by blast+
    show ?thesis
    proof (cases "UnmarshalPublicKey c element")
      case None
      then show ?thesis using Inr with_tag_InrD [OF Inr] by (auto simp: unwrapNike_def Let_def)
    next
      case (Some G)
      show ?thesis
      proof (cases "KDF c (DeriveSecret c sk G) True :: (unwrap_err, _) go")
        case (Inl e)
        then have "e = Panic" by (auto simp: KDF_def Let_def split: if_splits)
        then show ?thesis using Inr Some Inl by (simp add: unwrapNike_def Let_def)
      next
        case k: (Inr k)
        let ?tag = "sha512_256 c (PublicKeyBytes c G)"
        obtain nx where u: "unwrapNike c g sk pkt = with_tag (Some ?tag) (unwrap_keyed c g ?n 0 k ?tag nx pkt)"
          using Inr Some k by (simp add: unwrapNike_def Let_def)
        have "unwrap_element g ?n pkt = Inr element" using Inr by (rule with_tag_InrD)
        then show ?thesis
          using u k Some el with_tag_ErrD [of "Some ?tag"] with_tag_InrD [of "Some ?tag"]
            unwrap_keyed_sound [of c g ?n 0 k ?tag nx pkt]
          by (fastforce split: sum.splits fail.splits option.splits)
      qed
    qed
  qed
qed

section \<open>No panic\<close>

lemma go_bind_no_panic:
  "m \<noteq> Inl Panic \<Longrightarrow> (\<And>a. m = Inr a \<Longrightarrow> f a \<noteq> Inl Panic) \<Longrightarrow> go_bind m f \<noteq> Inl Panic"
  by (cases m) auto

lemma routing_FromBytes_no_panic:
  "NextNodeHopLength g = nextNodeHopLength \<Longrightarrow> routing_FromBytes b g \<noteq> Inl Panic"
  by (cases b)
    (auto simp: routing_parsers nextNodeHopLength_def sphinx_sizes go_bind_Panic_iff go_slice_def
      get32_def)

lemma note_command_no_panic: "note_command cmd st \<noteq> Inl Panic"
  by (cases cmd) auto

lemma parse_commands_no_panic:
  "NextNodeHopLength g = nextNodeHopLength \<Longrightarrow> parse_commands g b st \<noteq> Inl Panic"
proof (induction g b st rule: parse_commands.induct)
  case (1 g b st)
  then show ?case
    using routing_FromBytes_no_panic [of g b] note_command_no_panic
    by (subst parse_commands.simps)
      (auto split: sum.splits option.splits)
qed

lemma unwrap_keyed_no_panic:
  assumes laws: "crypto_laws c" and g: "geometry_usable es ct g"
    and len: "HeaderLength g \<le> int (length pkt)"
    and el: "\<And>b. nextElement b \<noteq> Inl Panic"
  shows "unwrap_keyed c g (int es) (int ct) keys tag nextElement pkt \<noteq> Inl Panic"
proof -
  have geo: "0 \<le> RoutingInfoLength g" "0 \<le> PerHopRoutingInfoLength g"
      "int ct \<le> PerHopRoutingInfoLength g" "2 + int es + RoutingInfoLength g + int MACLength \<le> int (length pkt)"
      "NextNodeHopLength g = nextNodeHopLength" "0 \<le> PayloadTagLength g"
    using g len by (simp_all add: geometry_usable_def)
  have fin: "finish_unwrap g pkt (2 + int es) ri newRI mac sealed payload tag st (nextElement b) \<noteq> Inl Panic"
    for ri newRI mac sealed payload st b
    using el geo
    by (auto simp: finish_unwrap_def go_bind_Panic_iff open_payload_def go_slice_def
        split: option.splits)
  have dec: "(SPRPDecrypt c k iv b :: (sphinx_err, bytes) go) \<noteq> Inl Panic" for k iv b
  proof -
    obtain msg where "aez_decrypt c k iv b = Some msg" using laws unfolding crypto_laws_def by blast
    then show ?thesis by (simp add: SPRPDecrypt_def)
  qed
  show ?thesis
    unfolding unwrap_keyed_def Let_def
    using geo laws fin dec parse_commands_no_panic [OF geo(5)]
    by (auto simp: go_bind_Panic_iff go_slice_def make_bytes_def xorBytes_def KeyStream_def crypto_laws_def)
qed

lemma KDF_no_panic: "crypto_laws c \<Longrightarrow> KDF c ikm b \<noteq> Inl Panic"
  by (auto simp: KDF_def crypto_laws_def Let_def)

lemma unwrap_element_no_panic:
  assumes "geometry_usable es ct g"
  shows "unwrap_element g (int es) pkt \<noteq> Inl Panic"
proof -
  have "0 \<le> RoutingInfoLength g" "HeaderLength g = 2 + int es + RoutingInfoLength g + int MACLength"
    using assms by (simp_all add: geometry_usable_def)
  then show ?thesis by (auto simp: unwrap_element_def go_bind_Panic_iff go_slice_def)
qed

text \<open>
  C22. No packet, of any length and content, makes a mix node panic: with a geometry from the
  constructor, \<open>Unwrap\<close> returns a result or an error for every byte string.
\<close>

theorem unwrapNike_never_panics:
  assumes laws: "crypto_laws c" and nl: "nike_laws c"
    and geo: "GeometryFromUserForwardPayloadLength (nikeScheme c) user withSURB nrHops = Inr g"
    and hops: "0 \<le> nrHops"
  shows "unwrapNike c g sk pkt \<noteq> Inl Panic"
proof -
  obtain es where es: "nikePublicKeySize (nikeScheme c) = int es"
    using nl unfolding nike_laws_def by metis
  have g: "geometry_usable es 0 g" using nike_geometry_usable [OF geo hops es] by blast
  have el: "with_tag None (unwrap_element g (int es) pkt) \<noteq> Inl Panic"
    using unwrap_element_no_panic [OF g] by simp
  have next_el: "(go_bind (or_panic (BlindingFactor k)) (\<lambda>f. go_bind (or_panic (BlindKey c G f))
      (\<lambda>blinded. Inr (PublicKeyBytes c blinded))) :: (sphinx_err, bytes) go) \<noteq> Inl Panic"
    if k: "(KDF c ikm True :: (unwrap_err, _) go) = Inr k" for k G ikm
  proof -
    obtain f where "BlindingFactor k = Some f" using KDF_facts [OF k laws] by auto
    then show ?thesis using nl by (simp add: nike_laws_def)
  qed
  show ?thesis
    unfolding unwrapNike_def Let_def es
  proof (intro go_bind_no_panic el)
    fix element G k
    assume e: "with_tag None (unwrap_element g (int es) pkt) = Inr element"
      and k: "(KDF c (DeriveSecret c sk G) True :: (unwrap_err, _) go) = Inr k"
    from e have "HeaderLength g \<le> int (length pkt)"
      by (auto simp: with_tag_def unwrap_element_def split: if_splits sum.splits fail.splits)
    from unwrap_keyed_no_panic [OF laws g this next_el [OF k]]
    show "with_tag (Some (sha512_256 c (PublicKeyBytes c G)))
       (unwrap_keyed c g (int es) 0 k (sha512_256 c (PublicKeyBytes c G))
         (\<lambda>_. go_bind (or_panic (BlindingFactor k)) (\<lambda>f.
               go_bind (or_panic (BlindKey c G f)) (\<lambda>blinded.
                 Inr (PublicKeyBytes c blinded)))) pkt) \<noteq> Inl Panic" by simp
  qed (simp_all add: or_err_def KDF_no_panic [OF laws] split: option.splits)
qed

theorem unwrapNike_never_panics_witness:
  "unwrapNike demo_crypto demo_geometry3 5 [0, 0, 1] \<noteq> Inl Panic"
  by (rule unwrapNike_never_panics [OF demo_crypto_laws demo_geometry3(1)]) simp

end
