(* ===== verification/CopyStream.thy ===== *)
theory CopyStream
  imports PigeonholeGeometry "HOL-Library.Sublist"
begin

text \<open>
  The copy stream of Pigeonhole (pigeonhole/copy_stream.go) over the two wire records it uses
  (trunnel_messages.go). The client turns a sequence of courier envelopes into elements that each
  fit a box; the courier turns the boxes it reads back into envelopes.

  A loop of the encoder does not end when the chunk size is zero, and panics when it is negative;
  the loops are partial functions, \<open>None\<close> when they do not return.
\<close>

section \<open>Wire records\<close>

datatype trunnel_err = dataTooShort | arrayLengthViolated | integerViolated | inputTooLong

text \<open>The loop that reads an array one byte at a time.\<close>

fun read_bytes :: "nat \<Rightarrow> bytes \<Rightarrow> (trunnel_err, bytes \<times> bytes) go" where
  "read_bytes 0 cur = Inr ([], cur)"
| "read_bytes (Suc n) cur =
     (case cur of [] \<Rightarrow> Inl (Err dataTooShort)
      | v # rest \<Rightarrow> go_bind (read_bytes n rest) (\<lambda>(vs, r). Inr (v # vs, r)))"

text \<open>A fixed-width integer after its length check.\<close>

definition read_u16 :: "bytes \<Rightarrow> (trunnel_err, u16 \<times> bytes) go" where
  "read_u16 cur = (if length cur < 2 then Inl (Err dataTooShort)
                   else go_bind (get16 cur) (\<lambda>v. Inr (v, drop 2 cur)))"

definition read_u32 :: "bytes \<Rightarrow> (trunnel_err, u32 \<times> bytes) go" where
  "read_u32 cur = (if length cur < 4 then Inl (Err dataTooShort)
                   else go_bind (get32 cur) (\<lambda>v. Inr (v, drop 4 cur)))"

definition read_u64 :: "bytes \<Rightarrow> (trunnel_err, u64 \<times> bytes) go" where
  "read_u64 cur = (if length cur < 8 then Inl (Err dataTooShort)
                   else go_bind (get64 cur) (\<lambda>v. Inr (v, drop 8 cur)))"

text \<open>A counted array: the count is checked against what is left before anything is allocated.\<close>

definition read_counted :: "nat \<Rightarrow> bytes \<Rightarrow> (trunnel_err, bytes \<times> bytes) go" where
  "read_counted n cur = (if length cur < n then Inl (Err dataTooShort) else read_bytes n cur)"

record CourierEnvelope =
  IntermediateReplicas :: bytes
  Dek1 :: bytes
  Dek2 :: bytes
  ReplyIndex :: byte
  Epoch :: u64
  SenderPubkeyLen :: u16
  SenderPubkey :: bytes
  CiphertextLen :: u32
  Ciphertext :: bytes

definition CourierEnvelope_Parse :: "bytes \<Rightarrow> (trunnel_err, CourierEnvelope \<times> bytes) go" where
  "CourierEnvelope_Parse data =
     go_bind (read_bytes 2 data) (\<lambda>(reps, cur).
     go_bind (read_bytes 60 cur) (\<lambda>(dek1, cur).
     go_bind (read_bytes 60 cur) (\<lambda>(dek2, cur).
     go_bind (read_bytes 1 cur) (\<lambda>(ix, cur).
     go_bind (read_u64 cur) (\<lambda>(epoch, cur).
     go_bind (read_u16 cur) (\<lambda>(pkLen, cur).
     go_bind (read_counted (unat pkLen) cur) (\<lambda>(pk, cur).
     go_bind (read_u32 cur) (\<lambda>(ctLen, cur).
     go_bind (read_counted (unat ctLen) cur) (\<lambda>(ct, cur).
       Inr (\<lparr>IntermediateReplicas = reps, Dek1 = dek1, Dek2 = dek2, ReplyIndex = hd ix,
             Epoch = epoch, SenderPubkeyLen = pkLen, SenderPubkey = pk, CiphertextLen = ctLen,
             Ciphertext = ct\<rparr>, cur))))))))))"

definition CourierEnvelope_encodeBinary :: "CourierEnvelope \<Rightarrow> bytes" where
  "CourierEnvelope_encodeBinary c =
     IntermediateReplicas c @ Dek1 c @ Dek2 c @ [ReplyIndex c] @ put64 (Epoch c)
     @ put16 (SenderPubkeyLen c) @ take (unat (SenderPubkeyLen c)) (SenderPubkey c)
     @ put32 (CiphertextLen c) @ take (unat (CiphertextLen c)) (Ciphertext c)"

text \<open>The checks on the three arrays never fail in Go, where their type fixes the length.\<close>

definition CourierEnvelope_validate :: "CourierEnvelope \<Rightarrow> bool" where
  "CourierEnvelope_validate c \<longleftrightarrow>
     length (IntermediateReplicas c) = 2 \<and> length (Dek1 c) = 60 \<and> length (Dek2 c) = 60
   \<and> length (SenderPubkey c) = unat (SenderPubkeyLen c) \<and> length (Ciphertext c) = unat (CiphertextLen c)"

definition CourierEnvelope_MarshalBinary :: "CourierEnvelope \<Rightarrow> (trunnel_err, bytes) go" where
  "CourierEnvelope_MarshalBinary c =
     (if CourierEnvelope_validate c then Inr (CourierEnvelope_encodeBinary c)
      else Inl (Err arrayLengthViolated))"

record CopyStreamElement =
  Flags :: byte
  EnvelopeLen :: u32
  EnvelopeData :: bytes

definition CopyStreamElement_Parse :: "bytes \<Rightarrow> (trunnel_err, CopyStreamElement \<times> bytes) go" where
  "CopyStreamElement_Parse data =
     go_bind (read_bytes 1 data) (\<lambda>(fl, cur).
     go_bind (read_u32 cur) (\<lambda>(len, cur).
     go_bind (read_counted (unat len) cur) (\<lambda>(dat, cur).
       Inr (\<lparr>Flags = hd fl, EnvelopeLen = len, EnvelopeData = dat\<rparr>, cur))))"

definition CopyStreamElement_encodeBinary :: "CopyStreamElement \<Rightarrow> bytes" where
  "CopyStreamElement_encodeBinary c =
     [Flags c] @ put32 (EnvelopeLen c) @ take (unat (EnvelopeLen c)) (EnvelopeData c)"

definition CopyStreamElement_MarshalBinary :: "CopyStreamElement \<Rightarrow> (trunnel_err, bytes) go" where
  "CopyStreamElement_MarshalBinary c =
     (if length (EnvelopeData c) \<noteq> unat (EnvelopeLen c) then Inl (Err arrayLengthViolated)
      else Inr (CopyStreamElement_encodeBinary c))"

section \<open>The encoder\<close>

definition CopyStreamFlagStart :: byte where "CopyStreamFlagStart = 0x01"
definition CopyStreamFlagFinal :: byte where "CopyStreamFlagFinal = 0x02"
definition CopyStreamElementOverhead :: int where "CopyStreamElementOverhead = 5"

record CopyStreamEncoder =
  buffer :: bytes
  maxChunkSize :: int
  isFirstChunk :: bool

definition NewCopyStreamEncoder :: "PGeometry \<Rightarrow> CopyStreamEncoder" where
  "NewCopyStreamEncoder g =
     \<lparr>buffer = [], maxChunkSize = MaxPlaintextPayloadLength g - CopyStreamElementOverhead,
      isFirstChunk = True\<rparr>"

definition SuppressStart :: "CopyStreamEncoder \<Rightarrow> CopyStreamEncoder" where
  "SuppressStart e = e\<lparr>isFirstChunk := False\<rparr>"

text \<open>
  One round of an encoder loop: take \<open>n\<close> bytes off the buffer and wrap them. An element that cannot
  be marshalled is skipped.
\<close>

definition emit_chunk :: "int \<Rightarrow> bool \<Rightarrow> CopyStreamEncoder \<Rightarrow> (unit, CopyStreamEncoder \<times> bytes list) go" where
  "emit_chunk n final e =
     go_bind (make_bytes n) (\<lambda>chunk0.
     go_bind (go_slice (buffer e) 0 n) (\<lambda>src.
     go_bind (go_slice (buffer e) n (int (length (buffer e)))) (\<lambda>rest.
     let chunkData = copy_over chunk0 src;
         flags = (if isFirstChunk e then CopyStreamFlagStart else 0);
         flags = (if final then Bit_Operations.or flags CopyStreamFlagFinal else flags);
         e' = e\<lparr>buffer := rest, isFirstChunk := False\<rparr>;
         elem = \<lparr>Flags = flags, EnvelopeLen = word_of_nat (length chunkData), EnvelopeData = chunkData\<rparr>
     in case CopyStreamElement_MarshalBinary elem of
          Inl _ \<Rightarrow> Inr (e', [])
        | Inr b \<Rightarrow> Inr (e', [b]))))"

partial_function (option) extract_loop ::
  "CopyStreamEncoder \<Rightarrow> (unit, CopyStreamEncoder \<times> bytes list) go option" where
  "extract_loop e =
     (if int (length (buffer e)) > maxChunkSize e
      then (case emit_chunk (maxChunkSize e) False e of
              Inl x \<Rightarrow> Some (Inl x)
            | Inr (e', out) \<Rightarrow>
                Option.bind (extract_loop e') (\<lambda>r. Some (go_bind r (\<lambda>(e'', more). Inr (e'', out @ more)))))
      else Some (Inr (e, [])))"

definition extractElements :: "CopyStreamEncoder \<Rightarrow> (unit, CopyStreamEncoder \<times> bytes list) go option" where
  "extractElements e = extract_loop e"

text \<open>\<open>AddEnvelope\<close>; the unit error is the one for an envelope that cannot be marshalled.\<close>

definition AddEnvelope ::
  "CopyStreamEncoder \<Rightarrow> CourierEnvelope option \<Rightarrow> (unit, CopyStreamEncoder \<times> bytes list) go option" where
  "AddEnvelope e envelope =
     (case envelope of None \<Rightarrow> Some (Inl (Err ()))
      | Some c \<Rightarrow>
         (case CourierEnvelope_MarshalBinary c of
            Inl _ \<Rightarrow> Some (Inl (Err ()))
          | Inr envelopeBytes \<Rightarrow>
              extractElements (e\<lparr>buffer := buffer e @ put32 (word_of_nat (length envelopeBytes))
                                             @ envelopeBytes\<rparr>)))"

definition Flush :: "CopyStreamEncoder \<Rightarrow> (unit, CopyStreamEncoder \<times> bytes list) go option" where
  "Flush e =
     (if buffer e = [] then Some (Inr (e, []))
      else Option.bind (extract_loop e) (\<lambda>r. Some (go_bind r (\<lambda>(e', out).
        go_bind (emit_chunk (int (length (buffer e'))) True e') (\<lambda>(e'', last).
          Inr (e'', out @ last))))))"

partial_function (option) flush_loop ::
  "CopyStreamEncoder \<Rightarrow> (unit, CopyStreamEncoder \<times> bytes list) go option" where
  "flush_loop e =
     (if buffer e \<noteq> []
      then (let chunkSize = (if maxChunkSize e > int (length (buffer e))
                             then int (length (buffer e)) else maxChunkSize e) in
            case emit_chunk chunkSize False e of
              Inl x \<Rightarrow> Some (Inl x)
            | Inr (e', out) \<Rightarrow>
                Option.bind (flush_loop e') (\<lambda>r. Some (go_bind r (\<lambda>(e'', more). Inr (e'', out @ more)))))
      else Some (Inr (e, [])))"

definition FlushWithoutFinal :: "CopyStreamEncoder \<Rightarrow> (unit, CopyStreamEncoder \<times> bytes list) go option" where
  "FlushWithoutFinal e = flush_loop e"

definition GetBuffer :: "CopyStreamEncoder \<Rightarrow> bytes" where
  "GetBuffer e = buffer e"

definition SetBuffer :: "CopyStreamEncoder \<Rightarrow> bytes option \<Rightarrow> CopyStreamEncoder" where
  "SetBuffer e state = (case state of None \<Rightarrow> e | Some b \<Rightarrow> e\<lparr>buffer := b\<rparr>)"

section \<open>The decoder\<close>

datatype decode_err =
    elementTooLarge int int | envelopeTooLarge nat int | envelopeParse trunnel_err | trailingBytes nat

text \<open>\<open>DecodeAvailable\<close>: an element and the rest of the buffer, if a whole one is there.\<close>

definition DecodeAvailable ::
  "int \<Rightarrow> bytes \<Rightarrow> (decode_err, (CopyStreamElement \<times> bytes) option) go" where
  "DecodeAvailable maxElementSize buf =
     (if int (length buf) < CopyStreamElementOverhead then Inr None
      else go_bind (go_slice buf 1 5) (\<lambda>l. go_bind (get32 l) (\<lambda>len.
        let totalSize = CopyStreamElementOverhead + int (unat len) in
        if maxElementSize > 0 \<and> totalSize > maxElementSize
        then Inl (Err (elementTooLarge totalSize maxElementSize))
        else (case CopyStreamElement_Parse buf of
                Inr (elem, remaining) \<Rightarrow> Inr (Some (elem, remaining))
              | Inl Panic \<Rightarrow> Inl Panic
              | Inl (Err dataTooShort) \<Rightarrow> Inr None
              | Inl (Err er) \<Rightarrow> Inl (Err (envelopeParse er))))))"

definition IsStart :: "CopyStreamElement \<Rightarrow> bool" where
  "IsStart el \<longleftrightarrow> Bit_Operations.and (Flags el) CopyStreamFlagStart \<noteq> 0"

definition IsFinal :: "CopyStreamElement \<Rightarrow> bool" where
  "IsFinal el \<longleftrightarrow> Bit_Operations.and (Flags el) CopyStreamFlagFinal \<noteq> 0"

text \<open>What one round of the second loop of \<open>DecodeEnvelopes\<close> takes off the envelope buffer.\<close>

definition parse_envelope ::
  "int \<Rightarrow> bytes \<Rightarrow> (decode_err, (CourierEnvelope \<times> bytes) option) go" where
  "parse_envelope maxEnvelopeSize buf =
     (if length buf < 4 then Inr None
      else go_bind (get32 (take 4 buf)) (\<lambda>envelopeLen.
        if maxEnvelopeSize > 0 \<and> int (unat envelopeLen) > maxEnvelopeSize
        then Inl (Err (envelopeTooLarge (unat envelopeLen) maxEnvelopeSize))
        else let totalSize = 4 + unat envelopeLen in
        if length buf < totalSize then Inr None
        else (case CourierEnvelope_Parse (take (unat envelopeLen) (drop 4 buf)) of
                Inl Panic \<Rightarrow> Inl Panic
              | Inl (Err er) \<Rightarrow> Inl (Err (envelopeParse er))
              | Inr (envelope, remaining) \<Rightarrow>
                  if length remaining > 0 then Inl (Err (trailingBytes (length remaining)))
                  else Inr (Some (envelope, drop totalSize buf)))))"

lemma read_bytes_eq:
  "read_bytes n cur = (if length cur < n then Inl (Err dataTooShort) else Inr (take n cur, drop n cur))"
  by (induction n cur rule: read_bytes.induct) (auto split: list.split)

lemma DecodeAvailable_shorter:
  "DecodeAvailable m buf = Inr (Some (el, r)) \<Longrightarrow> length r < length buf"
  by (auto simp: DecodeAvailable_def CopyStreamElement_Parse_def read_counted_def read_u32_def
      read_bytes_eq go_bind_Inr_iff Let_def
      split: if_splits sum.splits fail.splits trunnel_err.splits)

lemma parse_envelope_shorter:
  "parse_envelope m buf = Inr (Some (c, r)) \<Longrightarrow> length r < length buf"
  by (auto simp: parse_envelope_def go_bind_Inr_iff Let_def
      split: if_splits sum.splits fail.splits)

text \<open>
  The two loops of \<open>DecodeEnvelopes\<close>: what they collected, the error that stopped them if one did,
  and the buffer they leave.
\<close>

function drain_elements ::
  "int \<Rightarrow> bytes \<Rightarrow> CopyStreamElement list \<times> decode_err fail option \<times> bytes" where
  "drain_elements m buf =
     (case DecodeAvailable m buf of
        Inl e \<Rightarrow> ([], Some e, buf)
      | Inr None \<Rightarrow> ([], None, buf)
      | Inr (Some (el, r)) \<Rightarrow> (let (els, e, r') = drain_elements m r in (el # els, e, r')))"
  by pat_completeness auto
termination
  by (relation "measure (\<lambda>(m, b). length b)") (auto dest: DecodeAvailable_shorter)

function drain_envelopes ::
  "int \<Rightarrow> bytes \<Rightarrow> CourierEnvelope list \<times> decode_err fail option \<times> bytes" where
  "drain_envelopes m buf =
     (case parse_envelope m buf of
        Inl e \<Rightarrow> ([], Some e, buf)
      | Inr None \<Rightarrow> ([], None, buf)
      | Inr (Some (c, r)) \<Rightarrow> (let (cs, e, r') = drain_envelopes m r in (c # cs, e, r')))"
  by pat_completeness auto
termination
  by (relation "measure (\<lambda>(m, b). length b)") (auto dest: parse_envelope_shorter)

declare drain_elements.simps [simp del] drain_envelopes.simps [simp del]

record CopyStreamEnvelopeDecoder =
  elementBuffer :: bytes
  maxElementSize :: int
  envelopeBuffer :: bytes
  sawFinal :: bool
  maxEnvelopeSize :: int

definition NewCopyStreamEnvelopeDecoder :: "PGeometry \<Rightarrow> CopyStreamEnvelopeDecoder" where
  "NewCopyStreamEnvelopeDecoder g =
     \<lparr>elementBuffer = [], maxElementSize = MaxPlaintextPayloadLength g, envelopeBuffer = [],
      sawFinal = False, maxEnvelopeSize = CourierQueryWriteLength g\<rparr>"

definition AddBoxData :: "CopyStreamEnvelopeDecoder \<Rightarrow> bytes \<Rightarrow> CopyStreamEnvelopeDecoder" where
  "AddBoxData d b = d\<lparr>elementBuffer := elementBuffer d @ b\<rparr>"

text \<open>\<open>DecodeEnvelopes\<close>: the decoder after the call, the envelopes, and the error if there was one.\<close>

definition DecodeEnvelopes ::
  "CopyStreamEnvelopeDecoder \<Rightarrow>
     CopyStreamEnvelopeDecoder \<times> CourierEnvelope list \<times> decode_err fail option" where
  "DecodeEnvelopes d =
     (let (els, err, buf) = drain_elements (maxElementSize d) (elementBuffer d);
          d1 = d\<lparr>elementBuffer := buf,
                 envelopeBuffer := envelopeBuffer d @ concat (map EnvelopeData els),
                 sawFinal := sawFinal d \<or> (\<exists>el \<in> set els. IsFinal el)\<rparr> in
      if err \<noteq> None then (d1, [], err)
      else let (cs, err, buf) = drain_envelopes (maxEnvelopeSize d) (envelopeBuffer d1) in
           (d1\<lparr>envelopeBuffer := buf\<rparr>, cs, err))"

definition decoder_Remaining :: "CopyStreamEnvelopeDecoder \<Rightarrow> nat" where
  "decoder_Remaining d = length (elementBuffer d) + length (envelopeBuffer d)"

end
