(* ===== verification/CopyStreamProps.thy ===== *)
theory CopyStreamProps
  imports CopyStream
begin

text \<open>
  The copy stream carries what it is given: any sequence of envelopes, encoded into elements that
  fit a box and read back in pieces of any size, comes out as the same sequence. Both levels of
  framing, elements in boxes and envelopes in elements, are interpretations of one interface.
\<close>

section \<open>Self-delimiting frames\<close>

text \<open>
  A frame format: a parser that recognises a whole frame whatever follows it and asks for more on a
  proper prefix, and a loop that drains a buffer with it.
\<close>

locale frame_stream =
  fixes enc :: "'a \<Rightarrow> bytes"
    and ok :: "'a \<Rightarrow> bool"
    and parse :: "bytes \<Rightarrow> (decode_err, ('a \<times> bytes) option) go"
    and drain :: "bytes \<Rightarrow> 'a list \<times> decode_err fail option \<times> bytes"
  assumes parse_nil: "parse [] = Inr None"
    and parse_enc: "ok a \<Longrightarrow> parse (enc a @ r) = Inr (Some (a, r))"
    and parse_short: "ok a \<Longrightarrow> strict_prefix b (enc a) \<Longrightarrow> parse b = Inr None"
    and drain_rec: "drain b = (case parse b of
           Inl e \<Rightarrow> ([], Some e, b) | Inr None \<Rightarrow> ([], None, b)
         | Inr (Some (a, r)) \<Rightarrow> (let (as, e, r') = drain r in (a # as, e, r')))"
begin

definition stream :: "'a list \<Rightarrow> bytes" where
  "stream as = concat (map enc as)"

text \<open>What is left is nothing, or a proper prefix of the next frame.\<close>

definition leftover :: "bytes \<Rightarrow> 'a list \<Rightarrow> bool" where
  "leftover r as \<longleftrightarrow> (case as of [] \<Rightarrow> r = [] | a # _ \<Rightarrow> strict_prefix r (enc a))"

lemma stream_simps [simp]:
  "stream [] = []" "stream (a # as) = enc a @ stream as" "stream (xs @ ys) = stream xs @ stream ys"
  by (simp_all add: stream_def)

lemma drain_short: "ok a \<Longrightarrow> strict_prefix b (enc a) \<Longrightarrow> drain b = ([], None, b)"
  by (simp add: drain_rec [of b] parse_short)

lemma drain_enc: "ok a \<Longrightarrow> drain (enc a @ r) = (let (as, e, r') = drain r in (a # as, e, r'))"
  by (simp add: drain_rec [of "enc a @ r"] parse_enc)

lemma drain_prefix:
  assumes "\<forall>a \<in> set as. ok a" and "prefix b (stream as)"
  shows "\<exists>as1 as2 r. as = as1 @ as2 \<and> b = stream as1 @ r \<and> drain b = (as1, None, r) \<and> leftover r as2"
  using assms
proof (induction as arbitrary: b)
  case Nil
  then have "b = []" by simp
  then show ?case by (auto simp: drain_rec [of "[]"] parse_nil leftover_def)
next
  case (Cons a as)
  then have oka: "ok a" by simp
  show ?case
  proof (cases "prefix (enc a) b")
    case False
    with Cons.prems(2) have "strict_prefix b (enc a)"
      by (auto simp: prefix_append strict_prefix_def)
    then show ?thesis
      using drain_short [OF oka] by (intro exI [of _ "[]"] exI [of _ "a # as"] exI [of _ b]) (auto simp: leftover_def)
  next
    case True
    then obtain b' where b: "b = enc a @ b'" by (auto simp: prefix_def)
    then have "prefix b' (stream as)" using Cons.prems(2) by simp
    then obtain as1 as2 r where h: "as = as1 @ as2" "b' = stream as1 @ r" "drain b' = (as1, None, r)"
        "leftover r as2"
      using Cons.IH Cons.prems(1) by (metis list.set_intros(2))
    then have "a # as = (a # as1) @ as2 \<and> b = stream (a # as1) @ r \<and> drain b = (a # as1, None, r)"
      using b by (simp add: drain_enc [OF oka])
    with h(4) show ?thesis by blast
  qed
qed

lemma leftover_whole: "leftover (stream as) as \<Longrightarrow> as = []"
  by (cases as) (auto simp: leftover_def strict_prefix_def prefix_def)

lemma leftover_prefix: "leftover r as \<Longrightarrow> prefix r (stream as)"
  by (cases as) (auto simp: leftover_def strict_prefix_def prefix_def)

end

section \<open>The two formats\<close>

definition element_ok :: "int \<Rightarrow> CopyStreamElement \<Rightarrow> bool" where
  "element_ok m el \<longleftrightarrow> length (EnvelopeData el) = unat (EnvelopeLen el)
     \<and> (m > 0 \<longrightarrow> CopyStreamElementOverhead + int (unat (EnvelopeLen el)) \<le> m)"

definition envelope_frame :: "CourierEnvelope \<Rightarrow> bytes" where
  "envelope_frame c = put32 (word_of_nat (length (CourierEnvelope_encodeBinary c)))
     @ CourierEnvelope_encodeBinary c"

definition envelope_ok :: "int \<Rightarrow> CourierEnvelope \<Rightarrow> bool" where
  "envelope_ok m c \<longleftrightarrow> CourierEnvelope_validate c
     \<and> length (CourierEnvelope_encodeBinary c) < 2 ^ 32
     \<and> (m > 0 \<longrightarrow> int (length (CourierEnvelope_encodeBinary c)) \<le> m)"

lemma read_bytes_ok: "length a = n \<Longrightarrow> read_bytes n (a @ r) = Inr (a, r)"
  by (simp add: read_bytes_eq)

lemma read_counted_ok: "length a = n \<Longrightarrow> read_counted n (a @ r) = Inr (a, r)"
  by (simp add: read_counted_def read_bytes_eq)

lemma read_ints_ok:
  "read_u16 (put16 v @ r) = Inr (v, r)"
  "read_u32 (put32 w @ r) = Inr (w, r)"
  "read_u64 (put64 x @ r) = Inr (x, r)"
  by (simp_all add: read_u16_def read_u32_def read_u64_def)

lemma CourierEnvelope_Parse_encode:
  assumes "CourierEnvelope_validate c"
  shows "CourierEnvelope_Parse (CourierEnvelope_encodeBinary c @ r) = Inr (c, r)"
proof -
  have v: "length (IntermediateReplicas c) = 2" "length (Dek1 c) = 60" "length (Dek2 c) = 60"
    "length (SenderPubkey c) = unat (SenderPubkeyLen c)" "length (Ciphertext c) = unat (CiphertextLen c)"
    using assms by (simp_all add: CourierEnvelope_validate_def)
  have ix: "read_bytes 1 ([ReplyIndex c] @ x) = Inr ([ReplyIndex c], x)" for x
    by (rule read_bytes_ok) simp
  show ?thesis
    unfolding CourierEnvelope_Parse_def CourierEnvelope_encodeBinary_def append_assoc
      read_bytes_ok [OF v(1)] read_bytes_ok [OF v(2)] read_bytes_ok [OF v(3)] go_bind_simps prod.case
      ix read_ints_ok v(4) [symmetric] v(5) [symmetric] take_all_iff [THEN iffD2, OF order_refl]
      read_counted_ok [OF refl]
    by simp
qed

lemma CopyStreamElement_Parse_encode:
  assumes "length (EnvelopeData el) = unat (EnvelopeLen el)"
  shows "CopyStreamElement_Parse (CopyStreamElement_encodeBinary el @ r) = Inr (el, r)"
proof -
  have fl: "read_bytes 1 ([Flags el] @ x) = Inr ([Flags el], x)" for x
    by (rule read_bytes_ok) simp
  show ?thesis
    unfolding CopyStreamElement_Parse_def CopyStreamElement_encodeBinary_def append_assoc
      fl read_ints_ok go_bind_simps prod.case assms [symmetric]
      take_all_iff [THEN iffD2, OF order_refl] read_counted_ok [OF refl]
    by simp
qed

lemma length_element: "length (EnvelopeData el) = unat (EnvelopeLen el) \<Longrightarrow>
    length (CopyStreamElement_encodeBinary el) = 5 + length (EnvelopeData el)"
  by (simp add: CopyStreamElement_encodeBinary_def)

lemma header_of_prefix:
  assumes "strict_prefix b (h @ d)" and "length h \<le> length b"
  shows "\<exists>d'. b = h @ d' \<and> length d' < length d"
proof -
  obtain x where x: "h @ d = b @ x" "x \<noteq> []" using assms(1) by (auto simp: strict_prefix_def prefix_def)
  have "b = take (length h) b @ drop (length h) b" by simp
  moreover have "take (length h) b = h"
    using x(1) assms(2) by (metis append_eq_conv_conj take_append take_all_iff diff_is_0_eq
        append.right_neutral take0 take_take min.absorb1)
  moreover have "length (drop (length h) b) < length d"
    using x assms(2) by (metis add_diff_cancel_left' add_less_cancel_left diff_is_0_eq' length_append
        length_drop length_greater_0_conv less_add_same_cancel1 ordered_cancel_comm_monoid_diff_class.add_diff_inverse)
  ultimately show ?thesis by metis
qed

lemma DecodeAvailable_header:
  "DecodeAvailable m ([fl] @ put32 len @ d) =
     (if m > 0 \<and> CopyStreamElementOverhead + int (unat len) > m
      then Inl (Err (elementTooLarge (CopyStreamElementOverhead + int (unat len)) m))
      else if length d < unat len then Inr None
      else Inr (Some (\<lparr>Flags = fl, EnvelopeLen = len, EnvelopeData = take (unat len) d\<rparr>, drop (unat len) d)))"
proof -
  let ?b = "[fl] @ put32 len @ d"
  have l: "(go_slice ?b 1 5 :: (decode_err, bytes) go) = Inr (put32 len)"
    by (rule go_slice_at) simp_all
  have fl: "read_bytes 1 ([fl] @ x) = Inr ([fl], x)" for x
    by (rule read_bytes_ok) simp
  have p: "CopyStreamElement_Parse ?b = (if length d < unat len then Inl (Err dataTooShort)
      else Inr (\<lparr>Flags = fl, EnvelopeLen = len, EnvelopeData = take (unat len) d\<rparr>, drop (unat len) d))"
    unfolding CopyStreamElement_Parse_def fl go_bind_simps prod.case read_ints_ok
    by (simp add: read_counted_def read_bytes_eq)
  have c: "\<not> int (length ?b) < CopyStreamElementOverhead" by (simp add: CopyStreamElementOverhead_def)
  show ?thesis
    unfolding DecodeAvailable_def l p go_bind_simps be32.get_put_exact Let_def if_not_P [OF c] by simp
qed

interpretation boxes: frame_stream CopyStreamElement_encodeBinary "element_ok m" "DecodeAvailable m"
    "drain_elements m"
proof
  show "DecodeAvailable m [] = Inr None" by (simp add: DecodeAvailable_def CopyStreamElementOverhead_def)
next
  fix el r assume "element_ok m el"
  then show "DecodeAvailable m (CopyStreamElement_encodeBinary el @ r) = Inr (Some (el, r))"
    using DecodeAvailable_header [of m "Flags el" "EnvelopeLen el" "EnvelopeData el @ r"]
    by (auto simp: CopyStreamElement_encodeBinary_def element_ok_def)
next
  fix el b assume el: "element_ok m el" and b: "strict_prefix b (CopyStreamElement_encodeBinary el)"
  let ?h = "[Flags el] @ put32 (EnvelopeLen el)"
  show "DecodeAvailable m b = Inr None"
  proof (cases "length b < 5")
    case True
    then show ?thesis by (simp add: DecodeAvailable_def CopyStreamElementOverhead_def)
  next
    case False
    have "strict_prefix b (?h @ EnvelopeData el)" and l: "length (EnvelopeData el) = unat (EnvelopeLen el)"
      using el b by (simp_all add: CopyStreamElement_encodeBinary_def element_ok_def)
    then obtain d' where "b = ?h @ d'" "length d' < length (EnvelopeData el)"
      using header_of_prefix False by fastforce
    then show ?thesis
      using DecodeAvailable_header [of m "Flags el" "EnvelopeLen el" d'] el l
      by (auto simp: element_ok_def)
  qed
next
  fix b show "drain_elements m b = (case DecodeAvailable m b of
           Inl e \<Rightarrow> ([], Some e, b) | Inr None \<Rightarrow> ([], None, b)
         | Inr (Some (a, r)) \<Rightarrow> (let (as, e, r') = drain_elements m r in (a # as, e, r')))"
    by (subst drain_elements.simps) simp
qed

lemma parse_envelope_header:
  assumes "envelope_ok m c"
  shows "parse_envelope m (put32 (word_of_nat (length (CourierEnvelope_encodeBinary c))) @ d) =
     (if length d < length (CourierEnvelope_encodeBinary c) then Inr None
      else case CourierEnvelope_Parse (take (length (CourierEnvelope_encodeBinary c)) d) of
                Inl Panic \<Rightarrow> Inl Panic
              | Inl (Err er) \<Rightarrow> Inl (Err (envelopeParse er))
              | Inr (envelope, remaining) \<Rightarrow>
                  if length remaining > 0 then Inl (Err (trailingBytes (length remaining)))
                  else Inr (Some (envelope, drop (length (CourierEnvelope_encodeBinary c)) d)))"
proof -
  let ?n = "length (CourierEnvelope_encodeBinary c)"
  have u: "unat (word_of_nat ?n :: u32) = ?n"
    using assms by (simp add: unat_of_nat envelope_ok_def)
  have t: "take 4 (put32 (word_of_nat ?n) @ d) = put32 (word_of_nat ?n)" by simp
  have g: "\<not> length (put32 (word_of_nat ?n :: u32) @ d) < 4" by simp
  have d: "drop 4 (put32 w @ d) = d" "drop (4 + n) (put32 w @ d) = drop n d"
      "length (put32 w @ d) < 4 + n \<longleftrightarrow> length d < n" for w n
    by simp_all
  have m: "\<not> (m > 0 \<and> int ?n > m)" using assms by (auto simp: envelope_ok_def)
  show ?thesis
    unfolding parse_envelope_def t if_not_P [OF g] be32.get_put_exact go_bind_simps u Let_def d
      if_not_P [OF m] by (rule refl)
qed

interpretation envelopes: frame_stream envelope_frame "envelope_ok m" "parse_envelope m"
    "drain_envelopes m"
proof
  show "parse_envelope m [] = Inr None" by (simp add: parse_envelope_def)
next
  fix c r assume c: "envelope_ok m c"
  then have v: "CourierEnvelope_validate c" by (simp add: envelope_ok_def)
  show "parse_envelope m (envelope_frame c @ r) = Inr (Some (c, r))"
    using parse_envelope_header [OF c, of "CourierEnvelope_encodeBinary c @ r"]
      CourierEnvelope_Parse_encode [OF v, of "[]"]
    by (simp add: envelope_frame_def)
next
  fix c b assume c: "envelope_ok m c" and b: "strict_prefix b (envelope_frame c)"
  show "parse_envelope m b = Inr None"
  proof (cases "length b < 4")
    case True
    then show ?thesis by (simp add: parse_envelope_def)
  next
    case False
    then obtain d' where "b = put32 (word_of_nat (length (CourierEnvelope_encodeBinary c))) @ d'"
        "length d' < length (CourierEnvelope_encodeBinary c)"
      using header_of_prefix b unfolding envelope_frame_def by fastforce
    then show ?thesis using parse_envelope_header [OF c] by simp
  qed
next
  fix b show "drain_envelopes m b = (case parse_envelope m b of
           Inl e \<Rightarrow> ([], Some e, b) | Inr None \<Rightarrow> ([], None, b)
         | Inr (Some (a, r)) \<Rightarrow> (let (as, e, r') = drain_envelopes m r in (a # as, e, r')))"
    by (subst drain_envelopes.simps) simp
qed

section \<open>The encoder\<close>

lemma chunk_flags:
  "\<not> IsFinal \<lparr>Flags = (if b then CopyStreamFlagStart else 0), EnvelopeLen = l, EnvelopeData = d\<rparr>"
  "IsFinal \<lparr>Flags = Bit_Operations.or (if b then CopyStreamFlagStart else 0) CopyStreamFlagFinal,
     EnvelopeLen = l, EnvelopeData = d\<rparr>"
  by (cases b; simp add: IsFinal_def CopyStreamFlagStart_def CopyStreamFlagFinal_def)+

lemma emit_chunk_ok:
  assumes n: "n \<le> length (buffer e)" "n < 2 ^ 32" and m: "m > 0 \<longrightarrow> CopyStreamElementOverhead + int n \<le> m"
  shows "\<exists>el. emit_chunk (int n) final e =
      Inr (e\<lparr>buffer := drop n (buffer e), isFirstChunk := False\<rparr>, [CopyStreamElement_encodeBinary el])
    \<and> element_ok m el \<and> EnvelopeData el = take n (buffer e) \<and> IsFinal el = final"
proof -
  define fl where "fl = (if final then Bit_Operations.or (if isFirstChunk e then CopyStreamFlagStart else 0)
      CopyStreamFlagFinal else (if isFirstChunk e then CopyStreamFlagStart else 0))"
  let ?el = "\<lparr>Flags = fl, EnvelopeLen = word_of_nat n, EnvelopeData = take n (buffer e)\<rparr>"
  have u: "unat (word_of_nat n :: u32) = n" using n(2) by (simp add: unat_of_nat)
  have c: "copy_over (replicate n 0) (take n (buffer e)) = take n (buffer e)"
    using n(1) by simp
  have mb: "CopyStreamElement_MarshalBinary ?el = Inr (CopyStreamElement_encodeBinary ?el)"
    using n(1) u by (simp add: CopyStreamElement_MarshalBinary_def)
  have "emit_chunk (int n) final e =
      Inr (e\<lparr>buffer := drop n (buffer e), isFirstChunk := False\<rparr>, [CopyStreamElement_encodeBinary ?el])"
    using n(1) mb c unfolding emit_chunk_def make_bytes_int go_bind_simps Let_def
    by (cases final) (simp_all add: go_slice_0_int go_slice_int fl_def)
  moreover have "element_ok m ?el" using n(1) u m by (simp add: element_ok_def)
  moreover have "IsFinal ?el = final" using chunk_flags by (simp add: fl_def)
  ultimately show ?thesis by (intro exI [of _ ?el]) simp
qed

text \<open>The chunking loop: the data of the elements and what is left add up to the buffer.\<close>

lemma extract_loop_ok:
  assumes "maxChunkSize e = int k" and "0 < k" and "k < 2 ^ 32"
    and "m > 0 \<longrightarrow> CopyStreamElementOverhead + int k \<le> m"
  shows "\<exists>e' els. extract_loop e = Some (Inr (e', map CopyStreamElement_encodeBinary els))
     \<and> (\<forall>el \<in> set els. element_ok m el \<and> \<not> IsFinal el)
     \<and> concat (map EnvelopeData els) @ buffer e' = buffer e
     \<and> maxChunkSize e' = int k \<and> length (buffer e') \<le> k \<and> (buffer e \<noteq> [] \<longrightarrow> buffer e' \<noteq> [])"
  using assms(1)
proof (induction "length (buffer e)" arbitrary: e rule: less_induct)
  case less
  show ?case
  proof (cases "k < length (buffer e)")
    case False
    then have "extract_loop e = Some (Inr (e, []))"
      using less.prems by (subst extract_loop.simps) simp
    then show ?thesis using False less.prems by (intro exI [of _ e] exI [of _ "[]"]) auto
  next
    case True
    let ?e = "e\<lparr>buffer := drop k (buffer e), isFirstChunk := False\<rparr>"
    obtain el where el: "emit_chunk (int k) False e = Inr (?e, [CopyStreamElement_encodeBinary el])"
        "element_ok m el" "EnvelopeData el = take k (buffer e)" "\<not> IsFinal el"
      using emit_chunk_ok [of k e m False] True assms(3,4) by auto
    have sm: "length (buffer ?e) < length (buffer e)" using True assms(2) by simp
    obtain e' els where ih: "extract_loop ?e = Some (Inr (e', map CopyStreamElement_encodeBinary els))"
        "\<forall>el \<in> set els. element_ok m el \<and> \<not> IsFinal el"
        "concat (map EnvelopeData els) @ buffer e' = buffer ?e"
        "maxChunkSize e' = int k" "length (buffer e') \<le> k" "buffer ?e \<noteq> [] \<longrightarrow> buffer e' \<noteq> []"
      using less.hyps [OF sm] less.prems by auto
    have "extract_loop e = Some (Inr (e', map CopyStreamElement_encodeBinary (el # els)))"
      using True less.prems el(1) ih(1) by (subst extract_loop.simps) simp
    moreover have "concat (map EnvelopeData (el # els)) @ buffer e' = buffer e"
      using el(3) ih(3) by simp
    moreover have "buffer e' \<noteq> []" using ih(6) True by simp
    ultimately show ?thesis using el ih
      by (intro exI [of _ e'] exI [of _ "el # els"]) auto
  qed
qed

text \<open>The whole encoding: \<open>AddEnvelope\<close> for each envelope, then \<open>Flush\<close>.\<close>

fun add_envelopes ::
  "CopyStreamEncoder \<Rightarrow> CourierEnvelope list \<Rightarrow> (unit, CopyStreamEncoder \<times> bytes list) go option" where
  "add_envelopes e [] = Some (Inr (e, []))"
| "add_envelopes e (c # cs) =
     Option.bind (AddEnvelope e (Some c)) (\<lambda>r. case r of Inl x \<Rightarrow> Some (Inl x)
       | Inr (e', out) \<Rightarrow> Option.bind (add_envelopes e' cs)
           (\<lambda>r. Some (go_bind r (\<lambda>(e'', more). Inr (e'', out @ more)))))"

definition encode_stream ::
  "CopyStreamEncoder \<Rightarrow> CourierEnvelope list \<Rightarrow> (unit, CopyStreamEncoder \<times> bytes list) go option" where
  "encode_stream e cs =
     Option.bind (add_envelopes e cs) (\<lambda>r. case r of Inl x \<Rightarrow> Some (Inl x)
       | Inr (e', out) \<Rightarrow> Option.bind (Flush e')
           (\<lambda>r. Some (go_bind r (\<lambda>(e'', more). Inr (e'', out @ more)))))"

lemma AddEnvelope_ok:
  assumes k: "maxChunkSize e = int k" "0 < k" "k < 2 ^ 32"
    and m: "m > 0 \<longrightarrow> CopyStreamElementOverhead + int k \<le> m"
    and c: "envelope_ok n c"
  shows "\<exists>e' els. AddEnvelope e (Some c) = Some (Inr (e', map CopyStreamElement_encodeBinary els))
     \<and> (\<forall>el \<in> set els. element_ok m el \<and> \<not> IsFinal el)
     \<and> concat (map EnvelopeData els) @ buffer e' = buffer e @ envelope_frame c
     \<and> maxChunkSize e' = int k \<and> buffer e' \<noteq> []"
proof -
  let ?e = "e\<lparr>buffer := buffer e @ envelope_frame c\<rparr>"
  have ne: "envelope_frame c \<noteq> []" by (simp add: envelope_frame_def flip: length_0_conv)
  have "AddEnvelope e (Some c) = extract_loop ?e"
    using c by (simp add: AddEnvelope_def CourierEnvelope_MarshalBinary_def envelope_ok_def
        extractElements_def envelope_frame_def)
  then show ?thesis
    using extract_loop_ok [of ?e k m] k m ne by fastforce
qed

lemma add_envelopes_ok:
  assumes k: "maxChunkSize e = int k" "0 < k" "k < 2 ^ 32"
    and m: "m > 0 \<longrightarrow> CopyStreamElementOverhead + int k \<le> m"
    and c: "\<forall>c \<in> set cs. envelope_ok n c"
  shows "\<exists>e' els. add_envelopes e cs = Some (Inr (e', map CopyStreamElement_encodeBinary els))
     \<and> (\<forall>el \<in> set els. element_ok m el \<and> \<not> IsFinal el)
     \<and> concat (map EnvelopeData els) @ buffer e' = buffer e @ concat (map envelope_frame cs)
     \<and> maxChunkSize e' = int k \<and> (cs \<noteq> [] \<longrightarrow> buffer e' \<noteq> []) \<and> (cs = [] \<longrightarrow> e' = e)"
  using k(1) c
proof (induction cs arbitrary: e)
  case Nil
  then show ?case by (intro exI [of _ e] exI [of _ "[]"]) simp
next
  case (Cons c cs)
  then have c: "envelope_ok n c" "\<forall>c \<in> set cs. envelope_ok n c" by simp_all
  obtain e1 els1 where a: "AddEnvelope e (Some c) = Some (Inr (e1, map CopyStreamElement_encodeBinary els1))"
     "\<forall>el \<in> set els1. element_ok m el \<and> \<not> IsFinal el"
     "concat (map EnvelopeData els1) @ buffer e1 = buffer e @ envelope_frame c"
     "maxChunkSize e1 = int k" "buffer e1 \<noteq> []"
    using AddEnvelope_ok [OF Cons.prems(1) k(2,3) m c(1)] by blast
  obtain e2 els2 where b: "add_envelopes e1 cs = Some (Inr (e2, map CopyStreamElement_encodeBinary els2))"
     "\<forall>el \<in> set els2. element_ok m el \<and> \<not> IsFinal el"
     "concat (map EnvelopeData els2) @ buffer e2 = buffer e1 @ concat (map envelope_frame cs)"
     "maxChunkSize e2 = int k" "cs \<noteq> [] \<longrightarrow> buffer e2 \<noteq> []" "cs = [] \<longrightarrow> e2 = e1"
    using Cons.IH [OF a(4) c(2)] by blast
  have "add_envelopes e (c # cs) = Some (Inr (e2, map CopyStreamElement_encodeBinary (els1 @ els2)))"
    using a(1) b(1) by simp
  moreover have "concat (map EnvelopeData (els1 @ els2)) @ buffer e2
      = buffer e @ concat (map envelope_frame (c # cs))"
  proof -
    have "concat (map EnvelopeData (els1 @ els2)) @ buffer e2
        = concat (map EnvelopeData els1) @ (concat (map EnvelopeData els2) @ buffer e2)" by simp
    also have "\<dots> = (concat (map EnvelopeData els1) @ buffer e1) @ concat (map envelope_frame cs)"
      unfolding b(3) by simp
    finally show ?thesis unfolding a(3) by simp
  qed
  moreover have "buffer e2 \<noteq> []" using a(5) b(5,6) by (cases "cs = []") auto
  ultimately show ?case using a(2) b(2,4)
    by (intro exI [of _ e2] exI [of _ "els1 @ els2"]) auto
qed

lemma encode_stream_ok:
  assumes k: "maxChunkSize e = int k" "0 < k" "k < 2 ^ 32" and e: "buffer e = []"
    and m: "m > 0 \<longrightarrow> CopyStreamElementOverhead + int k \<le> m"
    and c: "\<forall>c \<in> set cs. envelope_ok n c"
  shows "\<exists>e' els. encode_stream e cs = Some (Inr (e', map CopyStreamElement_encodeBinary els))
     \<and> (\<forall>el \<in> set els. element_ok m el)
     \<and> concat (map EnvelopeData els) = concat (map envelope_frame cs)
     \<and> (if cs = [] then els = [] else \<exists>els' el. els = els' @ [el] \<and> IsFinal el
          \<and> (\<forall>el' \<in> set els'. \<not> IsFinal el'))"
proof -
  obtain e1 els1 where a: "add_envelopes e cs = Some (Inr (e1, map CopyStreamElement_encodeBinary els1))"
     "\<forall>el \<in> set els1. element_ok m el \<and> \<not> IsFinal el"
     "concat (map EnvelopeData els1) @ buffer e1 = concat (map envelope_frame cs)"
     "maxChunkSize e1 = int k" "cs \<noteq> [] \<longrightarrow> buffer e1 \<noteq> []" "cs = [] \<longrightarrow> e1 = e"
    using add_envelopes_ok [OF k m c] e by auto
  show ?thesis
  proof (cases "cs = []")
    case True
    then have "add_envelopes e cs = Some (Inr (e, []))" by simp
    then have "encode_stream e cs = Some (Inr (e, []))" using e by (simp add: encode_stream_def Flush_def)
    then show ?thesis using True by (intro exI [of _ e] exI [of _ "[]"]) simp
  next
    case False
    then have ne: "buffer e1 \<noteq> []" using a(5) by simp
    obtain e2 els2 where b: "extract_loop e1 = Some (Inr (e2, map CopyStreamElement_encodeBinary els2))"
        "\<forall>el \<in> set els2. element_ok m el \<and> \<not> IsFinal el"
        "concat (map EnvelopeData els2) @ buffer e2 = buffer e1"
        "maxChunkSize e2 = int k" "length (buffer e2) \<le> k"
      using extract_loop_ok [OF a(4) k(2,3) m] by blast
    have l: "length (buffer e2) < 2 ^ 32" using b(5) k(3) by (rule le_less_trans)
    have m2: "m > 0 \<longrightarrow> CopyStreamElementOverhead + int (length (buffer e2)) \<le> m" using m b(5) by auto
    obtain el where el: "emit_chunk (int (length (buffer e2))) True e2 =
        Inr (e2\<lparr>buffer := [], isFirstChunk := False\<rparr>, [CopyStreamElement_encodeBinary el])"
        "element_ok m el" "EnvelopeData el = buffer e2" "IsFinal el"
      using emit_chunk_ok [OF order_refl l m2, of True] by auto
    let ?els = "els1 @ els2 @ [el]"
    have "encode_stream e cs = Some (Inr (e2\<lparr>buffer := [], isFirstChunk := False\<rparr>,
        map CopyStreamElement_encodeBinary ?els))"
      using a(1) ne b(1) el(1) by (simp add: encode_stream_def Flush_def)
    moreover have "concat (map EnvelopeData ?els) = concat (map envelope_frame cs)"
      using a(3) b(3) by (simp add: el(3))
    moreover have "\<exists>els' el. ?els = els' @ [el] \<and> IsFinal el \<and> (\<forall>el' \<in> set els'. \<not> IsFinal el')"
      using a(2) b(2) el(4) by (intro exI [of _ "els1 @ els2"] exI [of _ el]) auto
    ultimately show ?thesis
      using a(2) b(2) el(2) False
      by (intro exI [of _ "e2\<lparr>buffer := [], isFirstChunk := False\<rparr>"] exI [of _ ?els]) auto
  qed
qed

section \<open>The decoder\<close>

text \<open>Boxes read one after the other: all envelopes, or the first error.\<close>

fun read_boxes ::
  "CopyStreamEnvelopeDecoder \<Rightarrow> bytes list \<Rightarrow> (decode_err fail, CopyStreamEnvelopeDecoder \<times> CourierEnvelope list) sum" where
  "read_boxes d [] = Inr (d, [])"
| "read_boxes d (b # bs) =
     (case DecodeEnvelopes (AddBoxData d b) of
        (d', cs, Some e) \<Rightarrow> Inl e
      | (d', cs, None) \<Rightarrow> (case read_boxes d' bs of Inl e \<Rightarrow> Inl e | Inr (d'', rest) \<Rightarrow> Inr (d'', cs @ rest)))"

text \<open>
  The decoder between two boxes of a stream of elements \<open>els\<close> that carries the envelopes \<open>cs\<close>:
  \<open>els2\<close> and \<open>cs2\<close> are still to come, the buffers hold what there is of the first of them.
\<close>

definition decoder_at ::
  "CopyStreamEnvelopeDecoder \<Rightarrow> CopyStreamElement list \<Rightarrow> CourierEnvelope list \<Rightarrow> bool" where
  "decoder_at d els2 cs2 \<longleftrightarrow>
     boxes.leftover (elementBuffer d) els2 \<and> envelopes.leftover (envelopeBuffer d) cs2
   \<and> (\<forall>el \<in> set els2. element_ok (maxElementSize d) el) \<and> (\<forall>c \<in> set cs2. envelope_ok (maxEnvelopeSize d) c)
   \<and> envelopeBuffer d @ concat (map EnvelopeData els2) = concat (map envelope_frame cs2)"

lemma DecodeEnvelopes_step:
  assumes at: "decoder_at d els2 cs2"
    and b: "prefix (elementBuffer d @ b) (concat (map CopyStreamElement_encodeBinary els2))"
  shows "\<exists>d' els1 els3 cs1 cs3. DecodeEnvelopes (AddBoxData d b) = (d', cs1, None)
     \<and> els2 = els1 @ els3 \<and> cs2 = cs1 @ cs3 \<and> decoder_at d' els3 cs3
     \<and> elementBuffer d @ b = concat (map CopyStreamElement_encodeBinary els1) @ elementBuffer d'
     \<and> sawFinal d' = (sawFinal d \<or> (\<exists>el \<in> set els1. IsFinal el))
     \<and> maxElementSize d' = maxElementSize d \<and> maxEnvelopeSize d' = maxEnvelopeSize d"
proof -
  let ?m = "maxElementSize d" and ?n = "maxEnvelopeSize d"
  have ok: "\<forall>el \<in> set els2. element_ok ?m el" "\<forall>c \<in> set cs2. envelope_ok ?n c"
    using at by (simp_all add: decoder_at_def)
  obtain els1 els3 r where e: "els2 = els1 @ els3"
      "elementBuffer d @ b = boxes.stream els1 @ r"
      "drain_elements ?m (elementBuffer d @ b) = (els1, None, r)" "boxes.leftover r els3"
    using boxes.drain_prefix [OF ok(1)] b by (metis boxes.stream_def)
  let ?buf = "envelopeBuffer d @ concat (map EnvelopeData els1)"
  have tot: "?buf @ concat (map EnvelopeData els3) = envelopes.stream cs2"
    using at e(1) by (simp add: decoder_at_def envelopes.stream_def)
  then have "prefix ?buf (envelopes.stream cs2)" by (metis prefixI)
  then obtain cs1 cs3 r2 where c: "cs2 = cs1 @ cs3" "?buf = envelopes.stream cs1 @ r2"
      "drain_envelopes ?n ?buf = (cs1, None, r2)" "envelopes.leftover r2 cs3"
    using envelopes.drain_prefix [OF ok(2)] by metis
  define d' where "d' = d\<lparr>elementBuffer := r, envelopeBuffer := r2,
      sawFinal := sawFinal d \<or> (\<exists>el \<in> set els1. IsFinal el)\<rparr>"
  have "DecodeEnvelopes (AddBoxData d b) = (d', cs1, None)"
    using e(3) c(3) by (simp add: DecodeEnvelopes_def AddBoxData_def d'_def)
  moreover have "r2 @ concat (map EnvelopeData els3) = concat (map envelope_frame cs3)"
  proof -
    have "envelopes.stream cs1 @ (r2 @ concat (map EnvelopeData els3))
        = envelopes.stream cs1 @ envelopes.stream cs3"
      using tot c(1,2) by simp
    then show ?thesis by (simp add: envelopes.stream_def)
  qed
  then have "decoder_at d' els3 cs3"
    using e(1,4) c(1,4) ok by (simp add: decoder_at_def d'_def)
  moreover have "elementBuffer d @ b = concat (map CopyStreamElement_encodeBinary els1) @ elementBuffer d'"
    using e(2) by (simp add: d'_def boxes.stream_def)
  ultimately show ?thesis using e(1) c(1)
    by (intro exI [of _ d'] exI [of _ els1] exI [of _ els3] exI [of _ cs1] exI [of _ cs3])
      (simp add: d'_def)
qed

lemma read_boxes_ok:
  assumes "decoder_at d els2 cs2"
    and "elementBuffer d @ concat bs = concat (map CopyStreamElement_encodeBinary els2)"
  shows "\<exists>d'. read_boxes d bs = Inr (d', cs2) \<and> decoder_Remaining d' = 0
     \<and> sawFinal d' = (sawFinal d \<or> (\<exists>el \<in> set els2. IsFinal el))"
  using assms
proof (induction bs arbitrary: d els2 cs2)
  case Nil
  then have "boxes.leftover (boxes.stream els2) els2"
    by (simp add: decoder_at_def boxes.stream_def)
  then have els: "els2 = []" by (rule boxes.leftover_whole)
  have "envelopes.leftover (envelopes.stream cs2) cs2"
    using Nil.prems(1) els by (auto simp: decoder_at_def envelopes.stream_def)
  then have "cs2 = []" by (rule envelopes.leftover_whole)
  then show ?case using Nil els by (simp add: decoder_at_def decoder_Remaining_def)
next
  case (Cons b bs)
  have "prefix (elementBuffer d @ b) (concat (map CopyStreamElement_encodeBinary els2))"
    using Cons.prems(2) by (metis append.assoc concat.simps(2) prefixI)
  then obtain d' els1 els3 cs1 cs3 where s: "DecodeEnvelopes (AddBoxData d b) = (d', cs1, None)"
     "els2 = els1 @ els3" "cs2 = cs1 @ cs3" "decoder_at d' els3 cs3"
     "elementBuffer d @ b = concat (map CopyStreamElement_encodeBinary els1) @ elementBuffer d'"
     "sawFinal d' = (sawFinal d \<or> (\<exists>el \<in> set els1. IsFinal el))"
    using DecodeEnvelopes_step [OF Cons.prems(1)] by blast
  have "(elementBuffer d @ b) @ concat bs = concat (map CopyStreamElement_encodeBinary (els1 @ els3))"
    using Cons.prems(2) s(2) by simp
  then have "elementBuffer d' @ concat bs = concat (map CopyStreamElement_encodeBinary els3)"
    unfolding s(5) by simp
  then obtain d'' where "read_boxes d' bs = Inr (d'', cs3)" "decoder_Remaining d'' = 0"
      "sawFinal d'' = (sawFinal d' \<or> (\<exists>el \<in> set els3. IsFinal el))"
    using Cons.IH [OF s(4)] by blast
  then show ?case using s(1-3,6) by auto
qed

text \<open>
  C20. The copy stream is lossless. Whatever envelopes a client puts into a stream, as long as each
  is marshallable and no longer than a courier query, encoding returns, every element fits a box,
  and however the bytes of the elements are cut into pieces on the way, the courier's decoder
  reports no error, yields exactly the envelopes in order, has seen the final flag if there was
  anything to send, and keeps nothing back.
\<close>

theorem copy_stream_lossless:
  assumes size: "CopyStreamElementOverhead < MaxPlaintextPayloadLength g"
      "MaxPlaintextPayloadLength g < 2 ^ 32"
    and cs: "\<forall>c \<in> set cs. envelope_ok (CourierQueryWriteLength g) c"
  shows "\<exists>e' elements. encode_stream (NewCopyStreamEncoder g) cs = Some (Inr (e', elements))
     \<and> (\<forall>el \<in> set elements. int (length el) \<le> MaxPlaintextPayloadLength g)
     \<and> (\<forall>pieces. concat pieces = concat elements \<longrightarrow>
          (\<exists>d'. read_boxes (NewCopyStreamEnvelopeDecoder g) pieces = Inr (d', cs)
             \<and> decoder_Remaining d' = 0 \<and> sawFinal d' = (cs \<noteq> [])))"
proof -
  let ?m = "MaxPlaintextPayloadLength g" and ?e = "NewCopyStreamEncoder g"
  define k where "k = nat (?m - CopyStreamElementOverhead)"
  have k: "maxChunkSize ?e = int k" "0 < k" "k < 2 ^ 32"
    using size by (auto simp: NewCopyStreamEncoder_def k_def CopyStreamElementOverhead_def)
  have m: "?m > 0 \<longrightarrow> CopyStreamElementOverhead + int k \<le> ?m" using size(1) by (simp add: k_def)
  have "buffer ?e = []" by (simp add: NewCopyStreamEncoder_def)
  from encode_stream_ok [OF k this m cs]
  obtain e' els where h: "encode_stream ?e cs = Some (Inr (e', map CopyStreamElement_encodeBinary els))"
      "\<forall>el \<in> set els. element_ok ?m el"
      "concat (map EnvelopeData els) = concat (map envelope_frame cs)"
      "if cs = [] then els = [] else \<exists>els' el. els = els' @ [el] \<and> IsFinal el
          \<and> (\<forall>el' \<in> set els'. \<not> IsFinal el')"
    by blast
  have pos: "?m > 0" using size(1) by (simp add: CopyStreamElementOverhead_def)
  have fits: "\<forall>el \<in> set (map CopyStreamElement_encodeBinary els). int (length el) \<le> ?m"
  proof
    fix b assume "b \<in> set (map CopyStreamElement_encodeBinary els)"
    then obtain el where "b = CopyStreamElement_encodeBinary el" "element_ok ?m el" using h(2) by auto
    then show "int (length b) \<le> ?m"
      using pos length_element [of el] by (auto simp: element_ok_def CopyStreamElementOverhead_def)
  qed
  have fin: "(\<exists>el \<in> set els. IsFinal el) = (cs \<noteq> [])" using h(4) by (auto split: if_splits)
  have "\<exists>d'. read_boxes (NewCopyStreamEnvelopeDecoder g) pieces = Inr (d', cs)
             \<and> decoder_Remaining d' = 0 \<and> sawFinal d' = (cs \<noteq> [])"
    if p: "concat pieces = concat (map CopyStreamElement_encodeBinary els)" for pieces
  proof -
    let ?d = "NewCopyStreamEnvelopeDecoder g"
    have nel: "strict_prefix [] (CopyStreamElement_encodeBinary el)" for el
      by (simp add: CopyStreamElement_encodeBinary_def strict_prefix_def)
    have nc: "strict_prefix [] (envelope_frame c)" for c
      by (simp add: envelope_frame_def strict_prefix_def flip: length_0_conv)
    have "decoder_at ?d els cs"
      using h(2,3) cs nel nc
      by (auto simp: decoder_at_def NewCopyStreamEnvelopeDecoder_def boxes.leftover_def
          envelopes.leftover_def split: list.split)
    moreover have "elementBuffer ?d @ concat pieces = concat (map CopyStreamElement_encodeBinary els)"
      using p by (simp add: NewCopyStreamEnvelopeDecoder_def)
    moreover have "\<not> sawFinal ?d" by (simp add: NewCopyStreamEnvelopeDecoder_def)
    ultimately show ?thesis using read_boxes_ok fin by blast
  qed
  with h(1) fits show ?thesis by blast
qed

definition demo_envelope :: CourierEnvelope where
  "demo_envelope = \<lparr>IntermediateReplicas = [0, 1], Dek1 = replicate 60 1, Dek2 = replicate 60 2,
     ReplyIndex = 0, Epoch = 7, SenderPubkeyLen = 2, SenderPubkey = [8, 9], CiphertextLen = 3,
     Ciphertext = [4, 5, 6]\<rparr>"

definition demo_pgeometry :: PGeometry where
  "demo_pgeometry = \<lparr>MaxPlaintextPayloadLength = 50, CourierQueryReadLength = 200,
     CourierQueryWriteLength = 200, CourierQueryReplyReadLength = 200,
     CourierQueryReplyWriteLength = 200, PNIKEName = ''x25519'', SignatureSchemeName = ''Ed25519''\<rparr>"

theorem copy_stream_lossless_witness:
  "\<exists>e' elements. encode_stream (NewCopyStreamEncoder demo_pgeometry) [demo_envelope, demo_envelope]
       = Some (Inr (e', elements))
     \<and> (\<exists>d'. read_boxes (NewCopyStreamEnvelopeDecoder demo_pgeometry) elements
            = Inr (d', [demo_envelope, demo_envelope])
          \<and> decoder_Remaining d' = 0 \<and> sawFinal d')"
proof -
  have "envelope_ok 200 demo_envelope"
    by (simp add: envelope_ok_def CourierEnvelope_validate_def CourierEnvelope_encodeBinary_def
        demo_envelope_def)
  then show ?thesis
    using copy_stream_lossless [of demo_pgeometry "[demo_envelope, demo_envelope]"]
    by (fastforce simp: demo_pgeometry_def CopyStreamElementOverhead_def)
qed

end
