(* ===== verification/Cert.thy ===== *)
theory Cert
  imports Prelude "HOL-Library.AList"
begin

text \<open>
  Certificates with several signatures (core/cert/cert.go), which carry every descriptor and every
  vote of the directory protocol.

  A Go map is an association list; a \<open>range\<close> over it visits the entries in an order of its own,
  so each loop takes the order as a function that permutes the list. The signature scheme, the hash
  of a public key, the CBOR library and the clock are the parameters of \<open>cert_env\<close>. Writing to a
  \<open>bytes.Buffer\<close> returns no error, so \<open>message\<close> has none.
\<close>

section \<open>Data\<close>

datatype cert_err =
    ErrImpossibleDecode | ErrImpossibleEncode | ErrBadSignature | ErrDuplicateSignature
  | ErrInvalidCertified | ErrKeyTypeMismatch | ErrInvalidKeyType | ErrVersionMismatch
  | ErrCertificateExpired | ErrIdentitySignatureNotFound | ErrInvalidThreshold | ErrThresholdNotMet
  | errMarshal   \<comment> \<open>an error of the CBOR library\<close>

definition CertVersion :: u32 where "CertVersion = 0"

record Signature =
  PublicKeySum256 :: bytes
  Payload :: bytes

type_synonym signatures = "(bytes \<times> Signature) list"

text \<open>\<open>Signatures\<close> is \<open>None\<close> for a nil map.\<close>

record Certificate =
  Version :: u32
  Expiration :: u64
  KeyType :: string
  Certified :: bytes
  Signatures :: "signatures option"

record ('pub, 'priv) cert_env =
  SchemeName :: "'priv \<Rightarrow> string"
  SchemeSign :: "'priv \<Rightarrow> bytes \<Rightarrow> bytes"
  SchemeVerify :: "'pub \<Rightarrow> bytes \<Rightarrow> bytes \<Rightarrow> bool"
  Sum256From :: "'pub \<Rightarrow> bytes"
  cbor_Marshal :: "Certificate \<Rightarrow> bytes option"
  cbor_Unmarshal :: "bytes \<Rightarrow> Certificate option"
  currentEpoch :: u64

type_synonym map_order = "signatures \<Rightarrow> signatures"

section \<open>Operations\<close>

definition message :: "Certificate \<Rightarrow> bytes" where
  "message c = rev (put32 (Version c)) @ rev (put64 (Expiration c)) @ map of_char (KeyType c) @ Certified c"

text \<open>\<open>sanityCheck\<close> returns the certificate with a nil map of signatures replaced.\<close>

definition sanityCheck :: "u64 \<Rightarrow> Certificate \<Rightarrow> (cert_err, Certificate) go" where
  "sanityCheck current c =
     (if Version c \<noteq> CertVersion then Inl (Err ErrVersionMismatch)
      else if Expiration c \<le> current then Inl (Err ErrCertificateExpired)
      else if KeyType c = [] then Inl (Err ErrInvalidKeyType)
      else if Certified c = [] then Inl (Err ErrInvalidCertified)
      else Inr (case Signatures c of None \<Rightarrow> c\<lparr>Signatures := Some []\<rparr> | Some _ \<Rightarrow> c))"

text \<open>How every function but \<open>Sign\<close> starts; the error for undecodable bytes varies.\<close>

definition open_cert ::
  "('pub, 'priv) cert_env \<Rightarrow> cert_err \<Rightarrow> bytes \<Rightarrow> (cert_err, Certificate) go" where
  "open_cert x onDecode rawCert =
     go_bind (or_err onDecode (cbor_Unmarshal x rawCert)) (sanityCheck (currentEpoch x))"

definition sigs :: "Certificate \<Rightarrow> signatures" where
  "sigs c = (case Signatures c of None \<Rightarrow> [] | Some m \<Rightarrow> m)"

definition put_sig :: "Signature \<Rightarrow> Certificate \<Rightarrow> Certificate" where
  "put_sig s c = c\<lparr>Signatures := Some (AList.update (PublicKeySum256 s) s (sigs c))\<rparr>"

definition Sign ::
  "('pub, 'priv) cert_env \<Rightarrow> 'priv \<Rightarrow> 'pub \<Rightarrow> bytes \<Rightarrow> u64 \<Rightarrow> (cert_err, bytes) go" where
  "Sign x signer verifier data expiration =
     (let cert = \<lparr>Version = CertVersion, Expiration = expiration, KeyType = SchemeName x signer,
                  Certified = data, Signatures = None\<rparr> in
      go_bind (sanityCheck (currentEpoch x) cert) (\<lambda>cert.
      let sig = SchemeSign x signer (message cert);
          cert = cert\<lparr>Signatures := Some []\<rparr> in
      or_err errMarshal (cbor_Marshal x
        (put_sig \<lparr>PublicKeySum256 = Sum256From x verifier, Payload = sig\<rparr> cert))))"

definition GetCertified :: "('pub, 'priv) cert_env \<Rightarrow> bytes \<Rightarrow> (cert_err, bytes) go" where
  "GetCertified x rawCert =
     go_bind (open_cert x ErrImpossibleDecode rawCert) (\<lambda>cert. Inr (Certified cert))"

definition GetSignatures ::
  "('pub, 'priv) cert_env \<Rightarrow> map_order \<Rightarrow> bytes \<Rightarrow> (cert_err, Signature list) go" where
  "GetSignatures x ord rawCert =
     go_bind (open_cert x ErrImpossibleDecode rawCert) (\<lambda>cert. Inr (map snd (ord (sigs cert))))"

definition GetSignature ::
  "('pub, 'priv) cert_env \<Rightarrow> map_order \<Rightarrow> bytes \<Rightarrow> bytes \<Rightarrow> (cert_err, Signature) go" where
  "GetSignature x ord ident rawCert =
     go_bind (open_cert x ErrImpossibleDecode rawCert) (\<lambda>cert.
       or_err ErrIdentitySignatureNotFound
         (List.find (\<lambda>s. ident = PublicKeySum256 s) (map snd (ord (sigs cert)))))"

definition SignMulti ::
  "('pub, 'priv) cert_env \<Rightarrow> 'priv \<Rightarrow> 'pub \<Rightarrow> bytes \<Rightarrow> (cert_err, bytes) go" where
  "SignMulti x signer verifier rawCert =
     go_bind (open_cert x ErrImpossibleDecode rawCert) (\<lambda>cert.
     if SchemeName x signer \<noteq> KeyType cert then Inl (Err ErrKeyTypeMismatch)
     else let sig = SchemeSign x signer (message cert) in
       or_err ErrImpossibleEncode (cbor_Marshal x
         (put_sig \<lparr>PublicKeySum256 = Sum256From x verifier, Payload = sig\<rparr> cert)))"

definition AddSignature ::
  "('pub, 'priv) cert_env \<Rightarrow> map_order \<Rightarrow> 'pub \<Rightarrow> Signature \<Rightarrow> bytes \<Rightarrow> (cert_err, bytes) go" where
  "AddSignature x ord verifier sig rawCert =
     go_bind (open_cert x ErrImpossibleDecode rawCert) (\<lambda>cert.
     if \<exists>s \<in> set (map snd (ord (sigs cert))). PublicKeySum256 s = PublicKeySum256 sig
     then Inl (Err ErrDuplicateSignature)
     else if SchemeVerify x verifier (message cert) (Payload sig)
     then or_err ErrImpossibleEncode (cbor_Marshal x (put_sig sig cert))
     else Inl (Err ErrBadSignature))"

definition Verify ::
  "('pub, 'priv) cert_env \<Rightarrow> map_order \<Rightarrow> 'pub \<Rightarrow> bytes \<Rightarrow> (cert_err, bytes) go" where
  "Verify x ord verifier rawCert =
     go_bind (open_cert x ErrImpossibleEncode rawCert) (\<lambda>cert.
     case List.find (\<lambda>s. Sum256From x verifier = PublicKeySum256 s) (map snd (ord (sigs cert))) of
       None \<Rightarrow> Inl (Err ErrIdentitySignatureNotFound)
     | Some s \<Rightarrow> if SchemeVerify x verifier (message cert) (Payload s) then Inr (Certified cert)
                 else Inl (Err ErrBadSignature))"

text \<open>The loops over the verifiers; \<open>ords\<close> are the orders of the calls still to come.\<close>

fun VerifyAll_loop ::
  "('pub, 'priv) cert_env \<Rightarrow> (nat \<Rightarrow> map_order) \<Rightarrow> bytes \<Rightarrow> nat \<Rightarrow> bytes \<Rightarrow> 'pub list
     \<Rightarrow> (cert_err, bytes) go" where
  "VerifyAll_loop x ords rawCert i certified [] = Inr certified"
| "VerifyAll_loop x ords rawCert i certified (v # vs) =
     go_bind (Verify x (ords i) v rawCert) (\<lambda>c. VerifyAll_loop x ords rawCert (Suc i) c vs)"

definition VerifyAll ::
  "('pub, 'priv) cert_env \<Rightarrow> (nat \<Rightarrow> map_order) \<Rightarrow> 'pub list \<Rightarrow> bytes \<Rightarrow> (cert_err, bytes) go" where
  "VerifyAll x ords verifiers rawCert = VerifyAll_loop x ords rawCert 0 [] verifiers"

text \<open>The error, the certified data, and the verifiers that succeeded and that failed.\<close>

type_synonym 'pub threshold_result = "cert_err option \<times> bytes \<times> 'pub list \<times> 'pub list"

fun VerifyThreshold_loop ::
  "('pub, 'priv) cert_env \<Rightarrow> (nat \<Rightarrow> map_order) \<Rightarrow> bytes \<Rightarrow> nat
     \<Rightarrow> bytes \<times> (bytes \<times> 'pub) list \<times> 'pub list \<Rightarrow> 'pub list
     \<Rightarrow> bytes \<times> (bytes \<times> 'pub) list \<times> 'pub list" where
  "VerifyThreshold_loop x ords rawCert i st [] = st"
| "VerifyThreshold_loop x ords rawCert i (certified, good, bad) (v # vs) =
     VerifyThreshold_loop x ords rawCert (Suc i)
       (case Verify x (ords i) v rawCert of
          Inl _ \<Rightarrow> (certified, good, bad @ [v])
        | Inr c \<Rightarrow> (c, AList.update (Sum256From x v) v good, bad)) vs"

definition VerifyThreshold ::
  "('pub, 'priv) cert_env \<Rightarrow> (nat \<Rightarrow> map_order) \<Rightarrow> ((bytes \<times> 'pub) list \<Rightarrow> (bytes \<times> 'pub) list)
     \<Rightarrow> 'pub list \<Rightarrow> int \<Rightarrow> bytes \<Rightarrow> 'pub threshold_result" where
  "VerifyThreshold x ords gord verifiers threshold rawCert =
     (if threshold > int (length verifiers) then (Some ErrInvalidThreshold, [], [], [])
      else let (certified, good, bad) = VerifyThreshold_loop x ords rawCert 0 ([], [], []) verifiers;
               good_out = map snd (gord good) in
           if int (length good) \<ge> threshold then (None, certified, good_out, bad)
           else (Some ErrThresholdNotMet, [], good_out, bad))"

end
