(* ===== verification/CertProps.thy ===== *)
theory CertProps
  imports Cert "HOL-Library.Multiset"
begin

text \<open>What a verified certificate proves, and that certificates made by the code verify.\<close>

section \<open>Laws\<close>

definition is_order :: "('a list \<Rightarrow> 'a list) \<Rightarrow> bool" where
  "is_order ord \<longleftrightarrow> (\<forall>m. mset (ord m) = mset m)"

lemma is_order_set: "is_order ord \<Longrightarrow> set (ord m) = set m"
  by (metis is_order_def mset_eq_setD)

lemma is_order_id [simp]: "is_order (\<lambda>m. m)" by (simp add: is_order_def)

lemma is_order_rev [simp]: "is_order rev" by (simp add: is_order_def)

text \<open>Encoding always succeeds and is inverted by decoding.\<close>

definition cbor_law :: "('pub, 'priv) cert_env \<Rightarrow> bool" where
  "cbor_law x \<longleftrightarrow> (\<forall>c. \<exists>b. cbor_Marshal x c = Some b \<and> cbor_Unmarshal x b = Some c)"

text \<open>A signature made with a private key verifies with the public key that belongs to it.\<close>

definition scheme_law :: "('pub, 'priv) cert_env \<Rightarrow> ('priv \<Rightarrow> 'pub) \<Rightarrow> bool" where
  "scheme_law x pub \<longleftrightarrow> (\<forall>sk m. SchemeVerify x (pub sk) m (SchemeSign x sk m))"

section \<open>One verifier\<close>

definition signed_by :: "('pub, 'priv) cert_env \<Rightarrow> Certificate \<Rightarrow> 'pub \<Rightarrow> bool" where
  "signed_by x c v \<longleftrightarrow> (\<exists>s \<in> snd ` set (sigs c).
     PublicKeySum256 s = Sum256From x v \<and> SchemeVerify x v (message c) (Payload s))"

text \<open>Every entry stands under the identity it names; the code's own certificates are like that.\<close>

definition well_keyed :: "Certificate \<Rightarrow> bool" where
  "well_keyed c \<longleftrightarrow> distinct (map fst (sigs c)) \<and> (\<forall>(k, s) \<in> set (sigs c). PublicKeySum256 s = k)"

definition cert_current :: "('pub, 'priv) cert_env \<Rightarrow> Certificate \<Rightarrow> bool" where
  "cert_current x c \<longleftrightarrow> Version c = CertVersion \<and> currentEpoch x < Expiration c
     \<and> KeyType c \<noteq> [] \<and> Certified c \<noteq> []"

lemma sanityCheck_Inr:
  "sanityCheck now c = Inr c' \<Longrightarrow> Version c' = Version c \<and> Expiration c' = Expiration c
     \<and> KeyType c' = KeyType c \<and> Certified c' = Certified c \<and> sigs c' = sigs c
     \<and> Signatures c' \<noteq> None \<and> message c' = message c"
  by (auto simp: sanityCheck_def sigs_def message_def split: if_splits option.splits)

lemma open_cert_Inr_iff:
  "(open_cert x e raw = Inr c) \<longleftrightarrow> (\<exists>c0. cbor_Unmarshal x raw = Some c0 \<and> sanityCheck (currentEpoch x) c0 = Inr c)"
  by (auto simp: open_cert_def or_err_def split: option.splits)

lemma open_cert_current: "open_cert x e raw = Inr c \<Longrightarrow> cert_current x c"
  by (auto simp: open_cert_Inr_iff sanityCheck_def cert_current_def split: if_splits option.splits)

lemma sanityCheck_fixed: "cert_current x c \<Longrightarrow> Signatures c \<noteq> None \<Longrightarrow> sanityCheck (currentEpoch x) c = Inr c"
  by (auto simp: sanityCheck_def cert_current_def)

lemma open_cert_no_panic: "open_cert x e raw \<noteq> Inl Panic"
  by (auto simp: open_cert_def or_err_def sanityCheck_def split: option.splits if_splits)

lemma Verify_no_panic: "Verify x ord v raw \<noteq> Inl Panic"
  using open_cert_no_panic by (auto simp: Verify_def go_bind_Panic_iff split: option.splits if_splits)

lemma Verify_Inr:
  assumes "is_order ord" "Verify x ord v raw = Inr d"
  obtains c where "open_cert x ErrImpossibleEncode raw = Inr c" "d = Certified c" "signed_by x c v"
proof -
  obtain c s where c: "open_cert x ErrImpossibleEncode raw = Inr c"
      "List.find (\<lambda>s. Sum256From x v = PublicKeySum256 s) (map snd (ord (sigs c))) = Some s"
      "SchemeVerify x v (message c) (Payload s)" "d = Certified c"
    using assms(2) by (auto simp: Verify_def go_bind_Inr_iff split: option.splits if_splits)
  from c(2) have "s \<in> set (map snd (ord (sigs c)))" "Sum256From x v = PublicKeySum256 s"
    by (auto simp: find_Some_iff)
  with c(3) is_order_set [OF assms(1)] have "signed_by x c v" by (auto simp: signed_by_def)
  with c show ?thesis using that by blast
qed

lemma well_keyedD:
  assumes "well_keyed c"
  shows "(k, s) \<in> set (sigs c) \<Longrightarrow> PublicKeySum256 s = k"
    and "distinct (map fst (sigs c))"
  using assms by (auto simp: well_keyed_def)

lemma find_unique:
  assumes "\<And>a. a \<in> set xs \<Longrightarrow> P a \<Longrightarrow> a = s" and "s \<in> set xs" "P s"
  shows "List.find P xs = Some s"
proof (cases "List.find P xs")
  case None
  with assms(2,3) show ?thesis by (auto simp: find_None_iff)
next
  case (Some a)
  then have "a \<in> set xs" "P a" by (auto simp: find_Some_iff)
  with assms(1) Some show ?thesis by simp
qed

text \<open>With every entry under its own identity the order of the map plays no role.\<close>

lemma find_well_keyed:
  assumes "is_order ord" "well_keyed c"
  shows "List.find (\<lambda>s. k = PublicKeySum256 s) (map snd (ord (sigs c))) = map_of (sigs c) k"
proof (cases "map_of (sigs c) k")
  case None
  have "PublicKeySum256 a \<noteq> k" if a: "a \<in> set (map snd (ord (sigs c)))" for a
  proof
    assume k: "PublicKeySum256 a = k"
    obtain k' where "(k', a) \<in> set (sigs c)"
      using a is_order_set [OF assms(1)] by auto
    with k well_keyedD(1) [OF assms(2)] None show False by (force simp: map_of_eq_None_iff)
  qed
  then have "List.find (\<lambda>s. k = PublicKeySum256 s) (map snd (ord (sigs c))) = None"
    by (auto simp: find_None_iff)
  with None show ?thesis by simp
next
  case (Some s)
  then have s: "(k, s) \<in> set (sigs c)" by (rule map_of_SomeD)
  have "List.find (\<lambda>s. k = PublicKeySum256 s) (map snd (ord (sigs c))) = Some s"
  proof (rule find_unique)
    fix a assume a: "a \<in> set (map snd (ord (sigs c)))" "k = PublicKeySum256 a"
    obtain k' where k': "(k', a) \<in> set (sigs c)"
      using a(1) is_order_set [OF assms(1)] by auto
    with a(2) well_keyedD(1) [OF assms(2)] have "k' = k" by simp
    with k' s show "a = s" using well_keyedD(2) [OF assms(2)] by (metis eq_key_imp_eq_value)
  next
    show "s \<in> set (map snd (ord (sigs c)))"
      using s is_order_set [OF assms(1)] by (metis image_eqI list.set_map snd_conv)
    show "k = PublicKeySum256 s" using well_keyedD(1) [OF assms(2) s] by simp
  qed
  with Some show ?thesis by simp
qed

lemma Verify_well_keyed:
  assumes "is_order ord" "open_cert x ErrImpossibleEncode raw = Inr c" "well_keyed c"
  shows "Verify x ord v raw = (case map_of (sigs c) (Sum256From x v) of
           None \<Rightarrow> Inl (Err ErrIdentitySignatureNotFound)
         | Some s \<Rightarrow> if SchemeVerify x v (message c) (Payload s) then Inr (Certified c)
                     else Inl (Err ErrBadSignature))"
  by (simp add: Verify_def assms(2) find_well_keyed [OF assms(1,3)])

lemma signed_by_well_keyed:
  assumes "well_keyed c"
  shows "signed_by x c v \<longleftrightarrow> (\<exists>s. map_of (sigs c) (Sum256From x v) = Some s
           \<and> SchemeVerify x v (message c) (Payload s))" (is "?l = ?r")
proof
  assume ?l
  then obtain k s where s: "(k, s) \<in> set (sigs c)" "PublicKeySum256 s = Sum256From x v"
      "SchemeVerify x v (message c) (Payload s)"
    unfolding signed_by_def by fastforce
  with well_keyedD(1) [OF assms s(1)] well_keyedD(2) [OF assms] show ?r
    by (metis map_of_eq_Some_iff)
next
  assume ?r
  then obtain s where s: "(Sum256From x v, s) \<in> set (sigs c)" "SchemeVerify x v (message c) (Payload s)"
    by (auto dest: map_of_SomeD)
  with well_keyedD(1) [OF assms s(1)] show ?l unfolding signed_by_def by force
qed

section \<open>A threshold of verifiers\<close>

definition good_ok ::
  "('pub, 'priv) cert_env \<Rightarrow> bytes \<Rightarrow> 'pub list \<Rightarrow> bytes \<Rightarrow> (bytes \<times> 'pub) list \<Rightarrow> bool" where
  "good_ok x raw vs certified good \<longleftrightarrow> distinct (map fst good) \<and>
     (good \<noteq> [] \<longrightarrow> (\<exists>c. open_cert x ErrImpossibleEncode raw = Inr c \<and> certified = Certified c
        \<and> (\<forall>(k, v) \<in> set good. k = Sum256From x v \<and> v \<in> set vs \<and> signed_by x c v)))"

lemma good_ok_keys: "good_ok x raw vs certified good \<Longrightarrow> p \<in> set good \<Longrightarrow> fst p = Sum256From x (snd p)"
  by (cases p; cases "good = []") (auto simp: good_ok_def)

lemma good_ok_update:
  assumes "good_ok x raw vs certified good" "open_cert x ErrImpossibleEncode raw = Inr c"
    and "signed_by x c v" "v \<in> set vs"
  shows "good_ok x raw vs (Certified c) (AList.update (Sum256From x v) v good)"
proof -
  have d: "distinct (map fst (AList.update (Sum256From x v) v good))"
    using assms(1) by (simp add: good_ok_def distinct_update)
  have "k' = Sum256From x v' \<and> v' \<in> set vs \<and> signed_by x c v'"
    if "(k', v') \<in> set (AList.update (Sum256From x v) v good)" for k' v'
  proof -
    have "map_of (AList.update (Sum256From x v) v good) k' = Some v'"
      using that d by (simp add: map_of_eq_Some_iff)
    then have "k' = Sum256From x v \<and> v' = v \<or> (k', v') \<in> set good"
      by (auto simp: update_conv' split: if_splits dest: map_of_SomeD)
    then show ?thesis using assms by (fastforce simp: good_ok_def)
  qed
  with d assms(2) show ?thesis by (auto simp: good_ok_def)
qed

lemma threshold_loop_ok:
  assumes "\<And>i. is_order (ords i)" "good_ok x raw us certified good" "set vs \<subseteq> set us"
    and "VerifyThreshold_loop x ords raw i (certified, good, bad) vs = (certified', good', bad')"
  shows "good_ok x raw us certified' good'"
  using assms(2-4)
proof (induction vs arbitrary: i certified good bad)
  case (Cons v vs)
  show ?case
  proof (cases "Verify x (ords i) v raw")
    case (Inl e)
    with Cons show ?thesis by (auto intro: Cons.IH)
  next
    case (Inr d)
    obtain c where c: "open_cert x ErrImpossibleEncode raw = Inr c" "d = Certified c" "signed_by x c v"
      using Verify_Inr [OF assms(1) Inr] by blast
    have "good_ok x raw us d (AList.update (Sum256From x v) v good)"
      using good_ok_update [OF Cons.prems(1) c(1,3)] Cons.prems(2) c(2) by simp
    with Cons.prems Inr show ?thesis by (intro Cons.IH) auto
  qed
qed simp

lemma threshold_signers:
  assumes ords: "\<And>i. is_order (ords i)" and gord: "is_order gord" and pos: "0 < threshold"
    and ok: "VerifyThreshold x ords gord verifiers threshold raw = (None, certified, good, bad)"
  shows "\<exists>c. open_cert x ErrImpossibleEncode raw = Inr c \<and> cert_current x c \<and> certified = Certified c
     \<and> threshold \<le> int (card (Sum256From x ` set good))
     \<and> set good \<subseteq> {v \<in> set verifiers. signed_by x c v}"
proof -
  obtain certified' good' bad' where l:
      "VerifyThreshold_loop x ords raw 0 ([], [], []) verifiers = (certified', good', bad')"
    by (metis prod_cases3)
  have g: "good_ok x raw verifiers certified' good'"
    by (rule threshold_loop_ok [OF ords _ _ l]) (simp_all add: good_ok_def)
  have r: "certified = certified'" "good = map snd (gord good')" "threshold \<le> int (length good')"
    using ok l by (auto simp: VerifyThreshold_def Let_def split: if_splits)
  have ne: "good' \<noteq> []" using r(3) pos by auto
  with g obtain c where c: "open_cert x ErrImpossibleEncode raw = Inr c" "certified' = Certified c"
      "\<forall>(k, v) \<in> set good'. k = Sum256From x v \<and> v \<in> set verifiers \<and> signed_by x c v"
    by (auto simp: good_ok_def)
  have s: "set good = snd ` set good'" by (simp add: r(2) is_order_set [OF gord])
  have "Sum256From x ` set good = fst ` set good'" using c(3) by (force simp: s image_image)
  then have "card (Sum256From x ` set good) = length good'"
    using g by (metis distinct_card good_ok_def length_map set_map)
  with r c s open_cert_current [OF c(1)] show ?thesis by fastforce
qed

text \<open>
  C27. What a threshold verification proves. If it reports no error, at least the threshold of
  different identities, all among the given verifiers, have each a signature in the certificate that
  verifies over its version, expiration, key type and data; the certificate is of the known version
  and has not expired, and the data returned is that data. A verifier that is listed twice counts
  once, and nothing is assumed about the certificate or about the order in which Go visits maps.
\<close>

theorem VerifyThreshold_sound:
  assumes ords: "\<And>i. is_order (ords i)" and gord: "is_order gord" and pos: "0 < threshold"
    and ok: "VerifyThreshold x ords gord verifiers threshold raw = (None, certified, good, bad)"
  shows "\<exists>c. open_cert x ErrImpossibleEncode raw = Inr c \<and> cert_current x c \<and> certified = Certified c
     \<and> threshold \<le> int (card (Sum256From x ` set good))
     \<and> set good \<subseteq> {v \<in> set verifiers. signed_by x c v}"
  by (rule threshold_signers [OF assms])

text \<open>The loop, when the entries stand under their own identities.\<close>

definition identities :: "('pub, 'priv) cert_env \<Rightarrow> 'pub list \<Rightarrow> bytes set" where
  "identities x vs = Sum256From x ` set vs"

lemma threshold_loop_exact:
  assumes "\<And>i. is_order (ords i)" "open_cert x ErrImpossibleEncode raw = Inr c" "well_keyed c"
    and "VerifyThreshold_loop x ords raw i (certified, good, bad) vs = (certified', good', bad')"
  shows "bad' = bad @ filter (\<lambda>v. \<not> signed_by x c v) vs
     \<and> fst ` set good' = fst ` set good \<union> identities x (filter (signed_by x c) vs)
     \<and> certified' = (if filter (signed_by x c) vs = [] then certified else Certified c)"
  using assms(4)
proof (induction vs arbitrary: i certified good bad)
  case Nil
  then show ?case by (simp add: identities_def)
next
  case (Cons v vs)
  have d: "fst ` set (AList.update k v' al) = insert k (fst ` set al)" for k :: bytes and v' :: 'a and al
    by (simp add: dom_update)
  show ?case
  proof (cases "signed_by x c v")
    case True
    then have "Verify x (ords i) v raw = Inr (Certified c)"
      by (auto simp: Verify_well_keyed [OF assms(1-3)] signed_by_well_keyed [OF assms(3)])
    with Cons.prems have "VerifyThreshold_loop x ords raw (Suc i)
        (Certified c, AList.update (Sum256From x v) v good, bad) vs = (certified', good', bad')" by simp
    from Cons.IH [OF this] True show ?thesis by (auto simp: identities_def d)
  next
    case False
    then have "\<exists>e. Verify x (ords i) v raw = Inl e"
      by (auto simp: Verify_well_keyed [OF assms(1-3)] signed_by_well_keyed [OF assms(3)]
          split: option.splits)
    then obtain e where "Verify x (ords i) v raw = Inl e" by blast
    with Cons.prems have "VerifyThreshold_loop x ords raw (Suc i)
        (certified, good, bad @ [v]) vs = (certified', good', bad')" by simp
    from Cons.IH [OF this] False show ?thesis by simp
  qed
qed

text \<open>
  The exact result of a threshold verification of a certificate whose entries stand under the
  identity they name: whatever the map orders are, it succeeds precisely when the verifiers with a
  valid signature make up the threshold in different identities, the failed verifiers are the
  others in order, and the succeeded ones stand for all identities with a valid signature.
\<close>

theorem VerifyThreshold_exact:
  assumes ords: "\<And>i. is_order (ords i)" and gord: "is_order gord"
    and raw: "open_cert x ErrImpossibleEncode raw = Inr c" "well_keyed c"
    and thr: "0 < threshold" "threshold \<le> int (length verifiers)"
    and r: "VerifyThreshold x ords gord verifiers threshold raw = (err, certified, good, bad)"
  shows "bad = filter (\<lambda>v. \<not> signed_by x c v) verifiers
     \<and> identities x good = identities x (filter (signed_by x c) verifiers)
     \<and> (if threshold \<le> int (card (identities x (filter (signed_by x c) verifiers)))
        then err = None \<and> certified = Certified c else err = Some ErrThresholdNotMet \<and> certified = [])"
proof -
  obtain certified' good' bad' where l:
      "VerifyThreshold_loop x ords raw 0 ([], [], []) verifiers = (certified', good', bad')"
    by (metis prod_cases3)
  have e: "bad' = filter (\<lambda>v. \<not> signed_by x c v) verifiers"
      "fst ` set good' = identities x (filter (signed_by x c) verifiers)"
      "certified' = (if filter (signed_by x c) verifiers = [] then [] else Certified c)"
    using threshold_loop_exact [OF ords raw l] by simp_all
  have g: "good_ok x raw verifiers certified' good'"
    by (rule threshold_loop_ok [OF ords _ _ l]) (simp_all add: good_ok_def)
  have len: "length good' = card (identities x (filter (signed_by x c) verifiers))"
    using g e(2) by (metis distinct_card good_ok_def length_map set_map)
  have keys: "fst ` set good' = Sum256From x ` snd ` set good'"
    unfolding image_image by (rule image_cong) (auto dest: good_ok_keys [OF g])
  have "good = map snd (gord good')"
    using r l thr(2) by (auto simp: VerifyThreshold_def Let_def split: if_splits)
  then have ids: "identities x good = identities x (filter (signed_by x c) verifiers)"
    using keys by (simp add: identities_def is_order_set [OF gord] e(2) [unfolded identities_def])
  have none: "int (card (identities x (filter (signed_by x c) verifiers))) = 0"
    if "filter (signed_by x c) verifiers = []"
    unfolding identities_def that by simp
  have "filter (signed_by x c) verifiers \<noteq> []"
    if "threshold \<le> int (card (identities x (filter (signed_by x c) verifiers)))"
    using none that thr(1) by linarith
  with r l e thr len ids show ?thesis by (auto simp: VerifyThreshold_def Let_def split: if_splits)
qed

section \<open>Certificates the code makes\<close>

lemma open_marshalled:
  assumes "cbor_law x" "cert_current x c" "Signatures c \<noteq> None" "cbor_Marshal x c = Some raw"
  shows "open_cert x e raw = Inr c"
proof -
  have "cbor_Unmarshal x raw = Some c" using assms(1,4) by (metis cbor_law_def option.inject)
  with sanityCheck_fixed [OF assms(2,3)] show ?thesis by (simp add: open_cert_def)
qed

lemma put_sig_simps [simp]:
  "Version (put_sig s c) = Version c" "Expiration (put_sig s c) = Expiration c"
  "KeyType (put_sig s c) = KeyType c" "Certified (put_sig s c) = Certified c"
  "message (put_sig s c) = message c" "cert_current x (put_sig s c) = cert_current x c"
  "Signatures (put_sig s c) \<noteq> None"
  "sigs (put_sig s c) = AList.update (PublicKeySum256 s) s (sigs c)"
  by (simp_all add: put_sig_def message_def cert_current_def sigs_def)

lemma update_entries:
  "distinct (map fst al) \<Longrightarrow> (k, a) \<in> set (AList.update k' a' al) \<Longrightarrow> k = k' \<and> a = a' \<or> (k, a) \<in> set al"
proof -
  assume d: "distinct (map fst al)" and m: "(k, a) \<in> set (AList.update k' a' al)"
  have "map_of (AList.update k' a' al) k = Some a"
    using m distinct_update [OF d] by (simp add: map_of_eq_Some_iff)
  then show ?thesis by (auto simp: update_conv' split: if_splits dest: map_of_SomeD)
qed

lemma well_keyed_put_sig [simp]:
  assumes "well_keyed c" shows "well_keyed (put_sig s c)"
proof -
  have d: "distinct (map fst (sigs c))" by (rule well_keyedD(2) [OF assms])
  have "PublicKeySum256 b = k" if m: "(k, b) \<in> set (AList.update (PublicKeySum256 s) s (sigs c))" for k b
    using update_entries [OF d m] well_keyedD(1) [OF assms] by auto
  with d show ?thesis by (auto simp: well_keyed_def distinct_update)
qed

text \<open>Counter-signing one after the other, as the authorities do with a consensus.\<close>

fun sign_chain ::
  "('pub, 'priv) cert_env \<Rightarrow> ('priv \<Rightarrow> 'pub) \<Rightarrow> bytes \<Rightarrow> 'priv list \<Rightarrow> (cert_err, bytes) go" where
  "sign_chain x pub raw [] = Inr raw"
| "sign_chain x pub raw (sk # sks) =
     go_bind (SignMulti x sk (pub sk) raw) (\<lambda>raw. sign_chain x pub raw sks)"

definition signature_of :: "('pub, 'priv) cert_env \<Rightarrow> ('priv \<Rightarrow> 'pub) \<Rightarrow> bytes \<Rightarrow> 'priv \<Rightarrow> Signature" where
  "signature_of x pub msg sk = \<lparr>PublicKeySum256 = Sum256From x (pub sk), Payload = SchemeSign x sk msg\<rparr>"

lemma signed_by_put_sig_self:
  assumes "scheme_law x pub" "well_keyed c" "message c = msg"
  shows "signed_by x (put_sig (signature_of x pub msg sk) c) (pub sk)"
  using assms(1,3)
  by (simp add: signed_by_well_keyed [OF well_keyed_put_sig [OF assms(2)]] update_conv'
      signature_of_def scheme_law_def)

lemma signed_by_put_sig_other:
  assumes "well_keyed c" "Sum256From x v \<noteq> PublicKeySum256 s"
  shows "signed_by x (put_sig s c) v = signed_by x c v"
  using assms(2)
  by (simp add: signed_by_well_keyed [OF well_keyed_put_sig [OF assms(1)]]
      signed_by_well_keyed [OF assms(1)] update_conv')

lemma sign_chain_ok:
  assumes "cbor_law x" "scheme_law x pub" "\<forall>e. open_cert x e raw = Inr c" "well_keyed c"
    and "\<forall>sk \<in> set sks. SchemeName x sk = KeyType c"
    and "distinct (map (\<lambda>sk. Sum256From x (pub sk)) sks)"
  shows "\<exists>raw' c'. sign_chain x pub raw sks = Inr raw' \<and> (\<forall>e. open_cert x e raw' = Inr c')
     \<and> well_keyed c' \<and> Certified c' = Certified c \<and> message c' = message c
     \<and> fst ` set (sigs c') = (\<lambda>sk. Sum256From x (pub sk)) ` set sks \<union> fst ` set (sigs c)
     \<and> (\<forall>sk \<in> set sks. signed_by x c' (pub sk))
     \<and> (\<forall>v. Sum256From x v \<notin> (\<lambda>sk. Sum256From x (pub sk)) ` set sks \<longrightarrow> signed_by x c' v = signed_by x c v)"
  using assms(3-6)
proof (induction sks arbitrary: raw c)
  case Nil
  then show ?case by auto
next
  case (Cons sk sks)
  let ?s = "signature_of x pub (message c) sk"
  obtain m where m: "cbor_Marshal x (put_sig ?s c) = Some m"
    using assms(1) by (auto simp: cbor_law_def)
  have o: "open_cert x e m = Inr (put_sig ?s c)" for e
    by (rule open_marshalled [OF assms(1) _ _ m])
      (use open_cert_current [of x ErrImpossibleDecode raw c] Cons.prems(1) in \<open>simp_all\<close>)
  have s: "SignMulti x sk (pub sk) raw = Inr m"
    using m Cons.prems(1,3) by (simp add: SignMulti_def signature_of_def Let_def)
  obtain raw' c' where h: "sign_chain x pub m sks = Inr raw'" "\<forall>e. open_cert x e raw' = Inr c'"
      "well_keyed c'" "Certified c' = Certified c" "message c' = message c"
      "fst ` set (sigs c') = (\<lambda>sk. Sum256From x (pub sk)) ` set sks \<union> fst ` set (sigs (put_sig ?s c))"
      "\<forall>k \<in> set sks. signed_by x c' (pub k)"
      "\<forall>v. Sum256From x v \<notin> (\<lambda>sk. Sum256From x (pub sk)) ` set sks \<longrightarrow>
           signed_by x c' v = signed_by x (put_sig ?s c) v"
    using Cons.IH [of m "put_sig ?s c"] o Cons.prems(2-4) by fastforce
  have self: "signed_by x c' (pub sk)"
    using h(8) Cons.prems(4) signed_by_put_sig_self [OF assms(2) Cons.prems(2) refl] by auto
  have other: "signed_by x c' v = signed_by x c v"
    if "Sum256From x v \<notin> (\<lambda>sk. Sum256From x (pub sk)) ` set (sk # sks)" for v
    using that h(8) signed_by_put_sig_other [OF Cons.prems(2), of x v ?s]
    by (simp add: signature_of_def)
  have "sign_chain x pub raw (sk # sks) = Inr raw'" using s h(1) by simp
  moreover have "fst ` set (sigs c') =
      (\<lambda>sk. Sum256From x (pub sk)) ` set (sk # sks) \<union> fst ` set (sigs c)"
    using h(6) by (simp add: dom_update signature_of_def)
  ultimately show ?case using h(2-5,7) self other by (intro exI [of _ raw'] exI [of _ c']) simp
qed

lemma VerifyAll_signed:
  assumes "\<And>i. is_order (ords i)" "open_cert x ErrImpossibleEncode raw = Inr c" "well_keyed c"
    and "\<forall>v \<in> set vs. signed_by x c v"
  shows "VerifyAll_loop x ords raw i certified vs = Inr (if vs = [] then certified else Certified c)"
  using assms(4)
proof (induction vs arbitrary: i certified)
  case (Cons v vs)
  have "signed_by x c v" using Cons.prems by simp
  then have "Verify x (ords i) v raw = Inr (Certified c)"
    by (auto simp: Verify_well_keyed [OF assms(1-3)] signed_by_well_keyed [OF assms(3)])
  with Cons show ?case by simp
qed simp

text \<open>
  Certificates made by \<open>Sign\<close> and counter-signed by \<open>SignMulti\<close> verify. If the data is not
  empty, the expiration lies ahead and the signers have one scheme and different identities, then
  all the calls succeed, \<open>VerifyAll\<close> with the signers' public keys returns the data, and for any other
  identity \<open>Verify\<close> finds no signature.
\<close>

theorem signed_certificate_verifies:
  assumes laws: "cbor_law x" "scheme_law x pub" and ords: "\<And>i. is_order (ords i)"
    and data: "data \<noteq> []" "currentEpoch x < expiration"
    and scheme: "name \<noteq> []" "\<forall>k \<in> set (sk # sks). SchemeName x k = name"
    and ids: "distinct (map (\<lambda>k. Sum256From x (pub k)) (sk # sks))"
  shows "\<exists>raw. go_bind (Sign x sk (pub sk) data expiration) (\<lambda>raw. sign_chain x pub raw sks) = Inr raw
     \<and> VerifyAll x ords (map pub (sk # sks)) raw = Inr data
     \<and> (\<forall>v. Sum256From x v \<notin> (\<lambda>k. Sum256From x (pub k)) ` set (sk # sks) \<longrightarrow>
          Verify x (ords 0) v raw = Inl (Err ErrIdentitySignatureNotFound))"
proof -
  define c0 where "c0 = \<lparr>Version = CertVersion, Expiration = expiration, KeyType = name,
    Certified = data, Signatures = Some []\<rparr>"
  define c where "c = put_sig (signature_of x pub (message c0) sk) c0"
  have cur: "cert_current x c0" using data scheme(1) by (simp add: c0_def cert_current_def)
  have wk0: "well_keyed c0" by (simp add: c0_def well_keyed_def sigs_def)
  obtain raw0 where m: "cbor_Marshal x c = Some raw0" using laws(1) by (auto simp: cbor_law_def)
  have o: "\<forall>e. open_cert x e raw0 = Inr c"
    using open_marshalled [OF laws(1) _ _ m] cur by (simp add: c_def)
  have s: "Sign x sk (pub sk) data expiration = Inr raw0"
    using m cur scheme(2)
    by (simp add: Sign_def sanityCheck_def cert_current_def c_def c0_def signature_of_def message_def
        put_sig_def sigs_def Let_def not_le)
  have "\<forall>k \<in> set sks. SchemeName x k = KeyType c" using scheme(2) by (simp add: c_def c0_def)
  from sign_chain_ok [OF laws o _ this] ids wk0
  obtain raw c' where h: "sign_chain x pub raw0 sks = Inr raw" "open_cert x ErrImpossibleEncode raw = Inr c'"
      "well_keyed c'" "Certified c' = data" "\<forall>k \<in> set sks. signed_by x c' (pub k)"
      "fst ` set (sigs c') = (\<lambda>k. Sum256From x (pub k)) ` set sks \<union> fst ` set (sigs c)"
      "\<forall>v. Sum256From x v \<notin> (\<lambda>k. Sum256From x (pub k)) ` set sks \<longrightarrow> signed_by x c' v = signed_by x c v"
    unfolding c_def by (auto simp: c0_def)
  have "signed_by x c (pub sk)"
    unfolding c_def by (rule signed_by_put_sig_self [OF laws(2) wk0 refl])
  then have all: "\<forall>v \<in> set (map pub (sk # sks)). signed_by x c' v"
    using h(5,7) ids by auto
  have "VerifyAll x ords (map pub (sk # sks)) raw = Inr data"
    using VerifyAll_signed [OF ords h(2,3) all] h(4) by (simp add: VerifyAll_def)
  moreover have "Verify x (ords 0) v raw = Inl (Err ErrIdentitySignatureNotFound)"
    if "Sum256From x v \<notin> (\<lambda>k. Sum256From x (pub k)) ` set (sk # sks)" for v
  proof -
    have "fst ` set (sigs c) = {Sum256From x (pub sk)}"
      by (simp add: c_def c0_def sigs_def put_sig_def signature_of_def)
    with that h(6) have "map_of (sigs c') (Sum256From x v) = None"
      by (simp add: map_of_eq_None_iff)
    then show ?thesis by (simp add: Verify_well_keyed [OF ords h(2,3)])
  qed
  ultimately show ?thesis using s h(1) by (intro exI [of _ raw]) simp
qed

text \<open>
  \<open>AddSignature\<close> adds the signature exactly when its identity has none yet and it verifies; the
  result certifies the same message, and everyone whose signature verified before still verifies. The
  signer himself verifies if the identity the signature names is his, which the code does not check.
\<close>

theorem AddSignature_adds:
  assumes law: "cbor_law x" and ord: "is_order ord"
    and raw: "open_cert x ErrImpossibleDecode raw = Inr c" "well_keyed c"
  shows "case AddSignature x ord v s raw of
      Inr raw' \<Rightarrow> \<exists>c'. open_cert x ErrImpossibleEncode raw' = Inr c' \<and> well_keyed c'
        \<and> message c' = message c \<and> Certified c' = Certified c
        \<and> SchemeVerify x v (message c) (Payload s) \<and> PublicKeySum256 s \<notin> fst ` set (sigs c)
        \<and> (PublicKeySum256 s = Sum256From x v \<longrightarrow> signed_by x c' v)
        \<and> (\<forall>w. signed_by x c w \<longrightarrow> signed_by x c' w)
    | Inl (Err e) \<Rightarrow> (if PublicKeySum256 s \<in> fst ` set (sigs c) then e = ErrDuplicateSignature
        else e = ErrBadSignature \<and> \<not> SchemeVerify x v (message c) (Payload s))
    | Inl Panic \<Rightarrow> False"
proof -
  let ?k = "PublicKeySum256 s"
  have dup: "(\<exists>a \<in> set (map snd (ord (sigs c))). PublicKeySum256 a = ?k) = (?k \<in> fst ` set (sigs c))"
  proof -
    have "(\<exists>a \<in> set (map snd (ord (sigs c))). PublicKeySum256 a = ?k)
        = (List.find (\<lambda>a. ?k = PublicKeySum256 a) (map snd (ord (sigs c))) \<noteq> None)"
      unfolding find_None_iff by (auto simp: eq_commute [of ?k])
    then show ?thesis by (simp only: find_well_keyed [OF ord raw(2)] map_of_eq_None_iff not_not)
  qed
  show ?thesis
  proof (cases "?k \<in> fst ` set (sigs c) \<or> \<not> SchemeVerify x v (message c) (Payload s)")
    case True
    then show ?thesis by (auto simp: AddSignature_def raw(1) dup [simplified])
  next
    case False
    obtain raw' where m: "cbor_Marshal x (put_sig s c) = Some raw'"
      using law by (auto simp: cbor_law_def)
    have o: "open_cert x ErrImpossibleEncode raw' = Inr (put_sig s c)"
      by (rule open_marshalled [OF law _ _ m]) (use open_cert_current [OF raw(1)] in simp_all)
    have r: "AddSignature x ord v s raw = Inr raw'"
      using False m by (simp add: AddSignature_def raw(1) dup [simplified])
    have old: "signed_by x (put_sig s c) w" if "signed_by x c w" for w
    proof -
      have "Sum256From x w \<in> fst ` set (sigs c)"
        using that by (auto simp: signed_by_well_keyed [OF raw(2)] dest: map_of_SomeD intro: rev_image_eqI)
      with False have "Sum256From x w \<noteq> ?k" by metis
      with that show ?thesis by (simp add: signed_by_put_sig_other [OF raw(2)])
    qed
    have "signed_by x (put_sig s c) v" if "?k = Sum256From x v"
      using False that
      by (simp add: signed_by_well_keyed [OF well_keyed_put_sig [OF raw(2)]] update_conv')
    with r o old False raw(2) show ?thesis by (simp add: exI [of _ "put_sig s c"])
  qed
qed

section \<open>What a signature does not bind\<close>

lemma message_binds:
  "message c = message c' \<longleftrightarrow> Version c = Version c' \<and> Expiration c = Expiration c'
     \<and> map of_char (KeyType c) @ Certified c = map of_char (KeyType c') @ Certified c'"
proof
  assume eq: "message c = message c'"
  have a: "rev (put32 (Version c)) = rev (put32 (Version c'))
      \<and> rev (put64 (Expiration c)) @ map of_char (KeyType c) @ Certified c
        = rev (put64 (Expiration c')) @ map of_char (KeyType c') @ Certified c'"
    using eq [unfolded message_def] by (intro append_eq_append_conv [THEN iffD1]) simp_all
  then have b: "rev (put64 (Expiration c)) = rev (put64 (Expiration c'))
      \<and> map of_char (KeyType c) @ Certified c = map of_char (KeyType c') @ Certified c'"
    by (intro append_eq_append_conv [THEN iffD1]) simp_all
  with a show "Version c = Version c' \<and> Expiration c = Expiration c'
     \<and> map of_char (KeyType c) @ Certified c = map of_char (KeyType c') @ Certified c'"
    by (simp add: be32.put_inject be64.put_inject)
qed (simp add: message_def)

text \<open>
  A signature does not bind the border between key type and data. From any certificate that
  verifies, one with a shorter key type and the rest of it moved in front of the data verifies as
  well, for the same verifier, and yields the longer data: \<open>message\<close> concatenates the two fields
  without a length, and \<open>Verify\<close> does not compare the key type with the verifier's.
\<close>

lemma Verify_shifts_key_type:
  assumes law: "cbor_law x" and ord: "is_order ord"
    and raw: "open_cert x ErrImpossibleEncode raw = Inr c" and ok: "Verify x ord v raw = Inr d"
    and split: "KeyType c = k1 @ k2" "k1 \<noteq> []"
    and forged: "cbor_Marshal x (c\<lparr>KeyType := k1, Certified := map of_char k2 @ Certified c\<rparr>) = Some raw'"
  shows "Verify x ord v raw' = Inr (map of_char k2 @ d)"
proof -
  let ?c = "c\<lparr>KeyType := k1, Certified := map of_char k2 @ Certified c\<rparr>"
  have cur: "cert_current x c" by (rule open_cert_current [OF raw])
  have sg: "Signatures c \<noteq> None" using raw sanityCheck_Inr by (auto simp: open_cert_Inr_iff)
  have o: "open_cert x ErrImpossibleEncode raw' = Inr ?c"
    by (rule open_marshalled [OF law _ _ forged]) (use cur sg split in \<open>auto simp: cert_current_def\<close>)
  have "message ?c = message c" using split(1) by (simp add: message_binds)
  moreover have "sigs ?c = sigs c" by (simp add: sigs_def)
  ultimately show ?thesis
    using ok by (auto simp: Verify_def o raw split: option.splits if_splits)
qed

section \<open>An environment for the witnesses\<close>

text \<open>A small self-delimiting encoding: a length in unary, then the bytes.\<close>

fun enc_len :: "nat \<Rightarrow> bytes" where
  "enc_len 0 = [0]"
| "enc_len (Suc n) = 1 # enc_len n"

fun dec_len :: "bytes \<Rightarrow> (nat \<times> bytes) option" where
  "dec_len [] = None"
| "dec_len (b # r) = (if b = 0 then Some (0, r)
                      else Option.bind (dec_len r) (\<lambda>(n, r). Some (Suc n, r)))"

lemma dec_enc_len [simp]: "dec_len (enc_len n @ r) = Some (n, r)"
  by (induction n) simp_all

definition enc_str :: "bytes \<Rightarrow> bytes" where "enc_str b = enc_len (length b) @ b"

definition dec_str :: "bytes \<Rightarrow> (bytes \<times> bytes) option" where
  "dec_str r = Option.bind (dec_len r) (\<lambda>(n, r). Some (take n r, drop n r))"

lemma dec_enc_str [simp]: "dec_str (enc_str b @ r) = Some (b, r)"
  by (simp add: dec_str_def enc_str_def)

definition enc_entry :: "bytes \<times> Signature \<Rightarrow> bytes" where
  "enc_entry = (\<lambda>(k, s). enc_str k @ enc_str (PublicKeySum256 s) @ enc_str (Payload s))"

fun dec_entries :: "nat \<Rightarrow> bytes \<Rightarrow> (signatures \<times> bytes) option" where
  "dec_entries 0 r = Some ([], r)"
| "dec_entries (Suc n) r =
     Option.bind (dec_str r) (\<lambda>(k, r). Option.bind (dec_str r) (\<lambda>(i, r).
     Option.bind (dec_str r) (\<lambda>(p, r). Option.bind (dec_entries n r) (\<lambda>(es, r).
       Some ((k, \<lparr>PublicKeySum256 = i, Payload = p\<rparr>) # es, r)))))"

lemma dec_enc_entries [simp]:
  "dec_entries (length es) (concat (map enc_entry es) @ r) = Some (es, r)"
  by (induction es) (auto simp: enc_entry_def)

definition demo_marshal :: "Certificate \<Rightarrow> bytes option" where
  "demo_marshal c = Some (put32 (Version c) @ put64 (Expiration c) @ enc_str (map of_char (KeyType c))
     @ enc_str (Certified c) @ (case Signatures c of None \<Rightarrow> [0]
         | Some m \<Rightarrow> 1 # enc_len (length m) @ concat (map enc_entry m)))"

definition demo_unmarshal :: "bytes \<Rightarrow> Certificate option" where
  "demo_unmarshal b =
     (let v = (case get32 b of Inr v \<Rightarrow> v | Inl (e :: unit fail) \<Rightarrow> 0);
          t = (case get64 (drop 4 b) of Inr t \<Rightarrow> t | Inl (e :: unit fail) \<Rightarrow> 0) in
      Option.bind (dec_str (drop 12 b)) (\<lambda>(kt, r). Option.bind (dec_str r) (\<lambda>(ct, r).
        case r of [] \<Rightarrow> None
        | f # r \<Rightarrow> Option.bind (if f = 0 then Some None else
             Option.bind (dec_len r) (\<lambda>(n, r). Option.bind (dec_entries n r) (\<lambda>(es, r). Some (Some es))))
           (\<lambda>m. Some \<lparr>Version = v, Expiration = t, KeyType = map (\<lambda>b. char_of (unat b)) kt, Certified = ct,
                     Signatures = m\<rparr>))))"

text \<open>Keys are bytes; a signature is the key in front of the message.\<close>

definition demo_cert_env :: "(byte, byte) cert_env" where
  "demo_cert_env = \<lparr>SchemeName = (\<lambda>_. ''Ed25519''), SchemeSign = (\<lambda>k m. k # m),
     SchemeVerify = (\<lambda>k m s. s = k # m), Sum256From = (\<lambda>k. replicate 32 k),
     cbor_Marshal = demo_marshal, cbor_Unmarshal = demo_unmarshal, currentEpoch = 5\<rparr>"

lemma demo_cbor_law: "cbor_law demo_cert_env"
proof -
  have "demo_unmarshal (the (demo_marshal c)) = Some c" for c
  proof -
    have d: "drop 4 (put32 v @ r) = r" "drop 12 (put32 v @ put64 t @ r) = r" for v t r
      using be32.drop_put [of v r] by (simp_all add: drop_append)
    have ch: "unat (of_char a :: byte) = of_char a" for a
      using of_nat_of_char [of a, where 'a = byte] of_char_mod_256 [of a, where 'a = nat]
      by (metis unat_word_of_nat_byte)
    have "map ((\<lambda>b. char_of (unat b)) \<circ> (of_char :: char \<Rightarrow> byte)) s = s" for s
      by (induction s) (simp_all add: ch)
    then show ?thesis
      by (cases "Signatures c") (simp_all add: demo_unmarshal_def demo_marshal_def d Let_def
          dec_enc_entries [of _ "[]", simplified])
  qed
  then show ?thesis by (simp add: cbor_law_def demo_cert_env_def demo_marshal_def)
qed

lemma demo_scheme_law: "scheme_law demo_cert_env (\<lambda>k. k)"
  by (simp add: scheme_law_def demo_cert_env_def)

definition demo_sigs :: "(byte \<times> bytes) list \<Rightarrow> bytes \<Rightarrow> signatures" where
  "demo_sigs es msg = map (\<lambda>(k, i). (i, \<lparr>PublicKeySum256 = replicate 32 k, Payload = k # msg\<rparr>)) es"

text \<open>A certificate over \<open>[7]\<close> signed by the keys 1 and 2.\<close>

definition demo_msg :: bytes where
  "demo_msg = rev (put32 0) @ rev (put64 9) @ map of_char ''Ed25519'' @ [7]"

definition demo_cert :: Certificate where
  "demo_cert = \<lparr>Version = 0, Expiration = 9, KeyType = ''Ed25519'', Certified = [7],
     Signatures = Some (demo_sigs [(1, replicate 32 1), (2, replicate 32 2)] demo_msg)\<rparr>"

definition demo_raw :: bytes where "demo_raw = the (demo_marshal demo_cert)"

lemma demo_open: "open_cert demo_cert_env e demo_raw = Inr demo_cert"
  by (rule open_marshalled [OF demo_cbor_law])
    (simp_all add: cert_current_def demo_cert_def demo_cert_env_def CertVersion_def demo_raw_def
      demo_marshal_def)

lemma demo_message: "message demo_cert = demo_msg"
  by (simp add: message_def demo_cert_def demo_msg_def)

lemma demo_well_keyed: "well_keyed demo_cert"
  by (simp add: well_keyed_def demo_cert_def demo_sigs_def sigs_def)

lemma demo_map_of: "map_of (sigs demo_cert) (replicate 32 v) =
    (if v = 1 \<or> v = 2 then Some \<lparr>PublicKeySum256 = replicate 32 v, Payload = v # demo_msg\<rparr> else None)"
  by (auto simp: demo_cert_def demo_sigs_def sigs_def)

lemma demo_signed: "signed_by demo_cert_env demo_cert v \<longleftrightarrow> v = 1 \<or> v = 2"
  by (auto simp: signed_by_well_keyed [OF demo_well_keyed] demo_message demo_map_of demo_cert_env_def)

lemma demo_Verify: "is_order ord \<Longrightarrow> Verify demo_cert_env ord v demo_raw =
    (if v = 1 \<or> v = 2 then Inr [7] else Inl (Err ErrIdentitySignatureNotFound))"
  by (simp add: Verify_well_keyed [OF _ demo_open demo_well_keyed] demo_message cong: option.case_cong)
    (simp add: demo_cert_env_def demo_map_of, simp add: demo_cert_def)

text \<open>Verifiers 1, 3 and 2; 3 did not sign.\<close>

lemma demo_threshold: "VerifyThreshold demo_cert_env (\<lambda>_. rev) rev [1, 3, 2] 2 demo_raw
    = (None, [7], [2, 1], [3])"
  by (simp add: VerifyThreshold_def demo_Verify Let_def) (simp add: demo_cert_env_def)

theorem VerifyThreshold_sound_witness:
  "\<exists>c. open_cert demo_cert_env ErrImpossibleEncode demo_raw = Inr c \<and> cert_current demo_cert_env c
     \<and> [7] = Certified c \<and> 2 \<le> int (card (Sum256From demo_cert_env ` set [2, 1]))
     \<and> set [2, 1] \<subseteq> {v \<in> set [1, 3, 2]. signed_by demo_cert_env c v}"
  by (rule VerifyThreshold_sound [OF _ _ _ demo_threshold]) simp_all

theorem VerifyThreshold_exact_witness:
  "[3] = filter (\<lambda>v. \<not> signed_by demo_cert_env demo_cert v) [1, 3, 2]
     \<and> identities demo_cert_env [2, 1]
         = identities demo_cert_env (filter (signed_by demo_cert_env demo_cert) [1, 3, 2])"
  using VerifyThreshold_exact [OF _ _ demo_open demo_well_keyed _ _ demo_threshold] by simp

theorem signed_certificate_verifies_witness:
  "\<exists>raw. go_bind (Sign demo_cert_env 1 1 [7] 9) (\<lambda>raw. sign_chain demo_cert_env (\<lambda>k. k) raw [2]) = Inr raw
     \<and> VerifyAll demo_cert_env (\<lambda>_ m. m) [1, 2] raw = Inr [7]
     \<and> Verify demo_cert_env (\<lambda>m. m) 3 raw = Inl (Err ErrIdentitySignatureNotFound)"
  using signed_certificate_verifies [OF demo_cbor_law demo_scheme_law,
      of "\<lambda>_ m. m" "[7]" 9 "''Ed25519''" 1 "[2]"]
  by (auto simp: demo_cert_env_def)

theorem AddSignature_adds_witness:
  "case AddSignature demo_cert_env rev 3 \<lparr>PublicKeySum256 = replicate 32 3, Payload = 3 # demo_msg\<rparr> demo_raw of
      Inr raw' \<Rightarrow> \<exists>c'. open_cert demo_cert_env ErrImpossibleEncode raw' = Inr c'
        \<and> signed_by demo_cert_env c' 3 \<and> signed_by demo_cert_env c' 1
    | Inl e \<Rightarrow> False"
proof -
  have "SchemeVerify demo_cert_env 3 (message demo_cert) (3 # demo_msg)"
      "Sum256From demo_cert_env 3 = replicate 32 3"
      "replicate 32 3 \<notin> fst ` set (sigs demo_cert)"
    by (simp add: demo_message) (simp_all add: demo_cert_env_def demo_cert_def demo_sigs_def sigs_def)
  then show ?thesis
    using AddSignature_adds [OF demo_cbor_law _ demo_open demo_well_keyed, where ord = rev and v = 3
        and s = "\<lparr>PublicKeySum256 = replicate 32 3, Payload = 3 # demo_msg\<rparr>"] demo_signed [of 1]
    by (auto split: sum.splits fail.splits if_splits)
qed

theorem Verify_shifts_key_type_witness:
  "Verify demo_cert_env rev 1 (the (demo_marshal
     (demo_cert\<lparr>KeyType := ''Ed'', Certified := map of_char ''25519'' @ [7]\<rparr>)))
   = Inr (map of_char ''25519'' @ [7])"
  by (rule Verify_shifts_key_type [OF demo_cbor_law _ demo_open demo_Verify [of rev 1, simplified],
      where ?k1.0 = "''Ed''" and ?k2.0 = "''25519''"])
    (simp_all add: demo_cert_def demo_cert_env_def demo_marshal_def)

definition twofold_cert :: Certificate where
  "twofold_cert = demo_cert\<lparr>Signatures := Some
     [([1], \<lparr>PublicKeySum256 = replicate 32 1, Payload = 1 # demo_msg\<rparr>),
      ([2], \<lparr>PublicKeySum256 = replicate 32 1, Payload = []\<rparr>)]\<rparr>"

text \<open>
  When two entries of the map name the same identity, whether \<open>Verify\<close> accepts depends on the
  order in which Go visits the map: for this certificate, with a false signature filed beside a true
  one, one order accepts and the other reports a bad signature.
\<close>

theorem Verify_depends_on_map_order:
  "Verify demo_cert_env (\<lambda>m. m) 1 (the (demo_marshal twofold_cert)) = Inr [7]
   \<and> Verify demo_cert_env rev 1 (the (demo_marshal twofold_cert)) = Inl (Err ErrBadSignature)"
proof -
  have o: "open_cert demo_cert_env e (the (demo_marshal twofold_cert)) = Inr twofold_cert" for e
    by (rule open_marshalled [OF demo_cbor_law])
      (simp_all add: cert_current_def demo_cert_def demo_cert_env_def CertVersion_def
        demo_marshal_def twofold_cert_def)
  have m: "message twofold_cert = demo_msg"
    by (simp add: message_def twofold_cert_def demo_cert_def demo_msg_def)
  show ?thesis
    unfolding Verify_def o
    by (simp add: m cong: option.case_cong) (simp add: twofold_cert_def demo_cert_def demo_cert_env_def sigs_def)
qed

end
