(* ===== verification/EpochTime.thy ===== *)
theory EpochTime
  imports Prelude
begin

text \<open>
  The epoch clock (core/epochtime/time.go). A point in time is an \<open>int\<close>, nanoseconds since the Unix
  epoch; a \<open>time.Duration\<close> is an \<open>int\<close> kept in the range of 64 bits where the code multiplies.
  \<open>Period\<close> is a variable of the package, set at start-up, and an argument here.
\<close>

section \<open>Durations\<close>

definition int64 :: "int \<Rightarrow> int" where
  "int64 n = (n + 2 ^ 63) mod 2 ^ 64 - 2 ^ 63"

lemma int64_id: "- (2 ^ 63) \<le> n \<Longrightarrow> n < 2 ^ 63 \<Longrightarrow> int64 n = n"
  by (simp add: int64_def)

lemma int64_nonneg: "0 \<le> n \<Longrightarrow> n < 2 ^ 63 \<Longrightarrow> int64 n = n"
  by (simp add: int64_id)

text \<open>\<open>Time.Sub\<close> saturates.\<close>

definition time_Sub :: "int \<Rightarrow> int \<Rightarrow> int" where
  "time_Sub t u = max (- (2 ^ 63)) (min (2 ^ 63 - 1) (t - u))"

lemma time_Sub_eq: "t - u = d \<Longrightarrow> 0 \<le> d \<Longrightarrow> d < 2 ^ 63 \<Longrightarrow> time_Sub t u = d"
  by (auto simp: time_Sub_def)

text \<open>\<open>time.Duration(e)\<close> of a uint64, and a multiplication of durations.\<close>

definition Duration :: "u64 \<Rightarrow> int" where "Duration e = int64 (uint e)"

definition duration_times :: "int \<Rightarrow> int \<Rightarrow> int" where "duration_times a b = int64 (a * b)"

section \<open>The clock\<close>

text \<open>2017-06-01 00:00:00 UTC, and twenty minutes.\<close>

definition Epoch_start :: int where "Epoch_start = 1496275200 * 10 ^ 9"
definition Period_default :: int where "Period_default = 20 * 60 * 10 ^ 9"

text \<open>The initialisation of the package: a build flag and the environment, as parsed.\<close>

definition init_Period :: "bool \<Rightarrow> (unit, int) go option \<Rightarrow> (unit, int) go" where
  "init_Period warped env =
     (let p = (if warped then 2 * 60 * 10 ^ 9 else Period_default) in
      case env of None \<Rightarrow> Inr p
      | Some (Inl _) \<Rightarrow> Inl Panic
      | Some (Inr d) \<Rightarrow> Inr d)"

text \<open>Initialised before \<open>init\<close> runs, from the default period.\<close>

definition WeekOfEpochs :: u64 where
  "WeekOfEpochs = word_of_int (7 * 24 * 3600 * 10 ^ 9 div Period_default)"

text \<open>
  \<open>getEpoch\<close>: the epoch, the time since its start and the time to its end. The division is of a
  number that is not negative, by a period that may be zero or negative if the environment says so.
\<close>

definition getEpoch :: "int \<Rightarrow> int \<Rightarrow> (unit, u64 \<times> int \<times> int) go" where
  "getEpoch Period t =
     (let fromEpoch = time_Sub t Epoch_start in
      if fromEpoch < 0 \<or> Period = 0 then Inl Panic
      else let current = word_of_int (sgn Period * (fromEpoch div \<bar>Period\<bar>));
               base = Epoch_start + duration_times (Duration current) Period;
               elapsed = time_Sub t base;
               till = time_Sub (base + Period) t
           in Inr (current, elapsed, till))"

definition FromUnix :: "int \<Rightarrow> int \<Rightarrow> (unit, u64 \<times> int \<times> int) go" where
  "FromUnix Period t = getEpoch Period (t * 10 ^ 9)"

definition IsInEpoch :: "int \<Rightarrow> u64 \<Rightarrow> u64 \<Rightarrow> bool" where
  "IsInEpoch Period e t =
     (let startTime = Epoch_start + duration_times (Duration e) Period;
          endTime = Epoch_start + duration_times (Duration (e + 1)) Period;
          tt = int64 (uint t) * 10 ^ 9 in
      if tt = startTime then True else startTime < tt \<and> tt < endTime)"

section \<open>Epochs partition time\<close>

lemma uint_word_of_int_64: "0 \<le> n \<Longrightarrow> n < 2 ^ 64 \<Longrightarrow> uint (word_of_int n :: u64) = n"
  by (simp add: uint_word_of_int)

text \<open>The time after the epoch's start that the clock covers: up to 292 years.\<close>

definition in_range :: "int \<Rightarrow> int \<Rightarrow> bool" where
  "in_range Period t \<longleftrightarrow> 0 < Period \<and> Epoch_start \<le> t \<and> t - Epoch_start + Period < 2 ^ 63"

lemma getEpoch_eq:
  assumes "in_range Period t"
  defines "d \<equiv> t - Epoch_start"
  shows "getEpoch Period t = Inr (word_of_int (d div Period), d mod Period, Period - d mod Period)"
    and "uint (word_of_int (d div Period) :: u64) = d div Period"
    and "d div Period * Period + d mod Period = d" "0 \<le> d div Period"
proof -
  have P: "0 < Period" "0 \<le> d" "d + Period < 2 ^ 63" using assms by (auto simp: in_range_def)
  have q: "0 \<le> d div Period" using P by (simp add: pos_imp_zdiv_nonneg_iff)
  have "d div Period \<le> d" using P by (metis div_by_1 zdiv_mono2 int_one_le_iff_zero_less zero_less_one)
  then have q2: "d div Period < 2 ^ 63" using P by linarith
  show u: "uint (word_of_int (d div Period) :: u64) = d div Period"
    by (rule uint_word_of_int_64) (use q q2 in simp_all)
  show s: "d div Period * Period + d mod Period = d" by simp
  show "0 \<le> d div Period" by (rule q)
  have m: "0 \<le> d mod Period" "d mod Period < Period" "d mod Period < 2 ^ 63 - 1"
    using P pos_mod_bound [of Period d] zmod_le_nonneg_dividend [of d Period] by auto
  have "duration_times (Duration (word_of_int (d div Period))) Period = d div Period * Period"
    unfolding duration_times_def Duration_def u
    using q q2 s m P by (subst int64_id; (subst int64_id)?; simp; linarith)
  moreover have "time_Sub t Epoch_start = d" using P by (simp add: time_Sub_def d_def)
  moreover have "t - (Epoch_start + d div Period * Period) = d mod Period"
    using s unfolding d_def by linarith
  then have "time_Sub t (Epoch_start + d div Period * Period) = d mod Period"
    by (rule time_Sub_eq) (use m in simp_all)
  moreover have "Epoch_start + d div Period * Period + Period - t = Period - d mod Period"
    using s unfolding d_def by linarith
  then have "time_Sub (Epoch_start + d div Period * Period + Period) t = Period - d mod Period"
    by (rule time_Sub_eq) (use m P in linarith)+
  ultimately show "getEpoch Period t = Inr (word_of_int (d div Period), d mod Period, Period - d mod Period)"
    using P by (simp add: getEpoch_def Let_def)
qed

text \<open>
  Epochs partition time: for a positive period and 292 years from the start, \<open>getEpoch\<close> does not
  panic, the point in time lies in the epoch it names at the distance from the start that it
  reports, and the two durations add up to the period. \<open>IsInEpoch\<close> holds for that epoch and, of all
  epochs that end within the range of a duration, for no other.
\<close>

theorem epochs_partition_time:
  assumes r: "in_range Period (uint t * 10 ^ 9)" and t: "uint t < 2 ^ 63"
  shows "\<exists>current elapsed till. FromUnix Period (uint t) = Inr (current, elapsed, till)
     \<and> uint t * 10 ^ 9 = Epoch_start + uint current * Period + elapsed
     \<and> 0 \<le> elapsed \<and> elapsed < Period \<and> elapsed + till = Period
     \<and> (\<forall>e. (uint e + 1) * Period < 2 ^ 63 \<longrightarrow> IsInEpoch Period e t = (e = current))"
proof -
  let ?d = "uint t * 10 ^ 9 - Epoch_start"
  let ?c = "word_of_int (?d div Period) :: u64"
  have P: "0 < Period" using r by (simp add: in_range_def)
  note g = getEpoch_eq [OF r]
  have m: "0 \<le> ?d mod Period" "?d mod Period < Period" using P by simp_all
  have "IsInEpoch Period e t = (e = ?c)" if e: "(uint e + 1) * Period < 2 ^ 63" for e :: u64
  proof -
    have ge: "0 \<le> uint e * Period" using P by simp
    have lt: "uint e + 1 < 2 ^ 63"
    proof -
      have "(uint e + 1) * 1 \<le> (uint e + 1) * Period" using P by (intro mult_left_mono) simp_all
      then have "uint e + 1 \<le> (uint e + 1) * Period" by simp
      then show ?thesis using e by (rule le_less_trans)
    qed
    have s: "uint (e + 1) = uint e + 1"
      using lt by (simp add: uint_word_ariths(1))
    have e1: "(uint e + 1) * Period = uint e * Period + Period" by (simp add: algebra_simps)
    have i: "int64 (uint e) = uint e" "int64 (uint e + 1) = uint e + 1"
      by (rule int64_nonneg; use lt in simp)+
    have d0: "duration_times (Duration e) Period = uint e * Period"
      unfolding Duration_def duration_times_def i
      by (rule int64_nonneg [OF ge]) (use e e1 P in linarith)
    have d1: "duration_times (Duration (e + 1)) Period = (uint e + 1) * Period"
      unfolding Duration_def duration_times_def s i
      by (rule int64_nonneg [OF _ e]) (use ge e1 P in linarith)
    have tt: "int64 (uint t) = uint t" by (rule int64_nonneg [OF _ t]) simp
    have "IsInEpoch Period e t \<longleftrightarrow> uint e * Period \<le> ?d \<and> ?d < uint e * Period + Period"
      unfolding IsInEpoch_def Let_def d0 d1 tt e1 using P by auto
    also have "\<dots> \<longleftrightarrow> ?d div Period = uint e"
    proof
      assume "uint e * Period \<le> ?d \<and> ?d < uint e * Period + Period"
      then show "?d div Period = uint e"
        by (intro int_div_pos_eq [of _ _ _ "?d - uint e * Period"]) auto
    next
      assume "?d div Period = uint e"
      with g(3) have "uint e * Period + ?d mod Period = ?d" by metis
      with m show "uint e * Period \<le> ?d \<and> ?d < uint e * Period + Period" by linarith
    qed
    also have "\<dots> \<longleftrightarrow> e = ?c" using g(2) by (metis word_uint_eq_iff)
    finally show ?thesis .
  qed
  moreover have "uint t * 10 ^ 9 = Epoch_start + uint ?c * Period + ?d mod Period"
    unfolding g(2) using g(3) by linarith
  ultimately show ?thesis using g(1) m
    by (intro exI [of _ ?c] exI [of _ "?d mod Period"] exI [of _ "Period - ?d mod Period"])
      (simp add: FromUnix_def)
qed

text \<open>The first second of 2026: epoch 225964 and a bit, with the default period.\<close>

theorem epochs_partition_time_witness:
  "\<exists>current elapsed till. FromUnix Period_default (uint (1767225600 :: u64)) = Inr (current, elapsed, till)
     \<and> elapsed + till = Period_default \<and> IsInEpoch Period_default current 1767225600"
proof -
  have r: "in_range Period_default (uint (1767225600 :: u64) * 10 ^ 9)" "uint (1767225600 :: u64) < 2 ^ 63"
    by (simp_all add: in_range_def Period_default_def Epoch_start_def)
  obtain current elapsed till where h:
      "FromUnix Period_default (uint (1767225600 :: u64)) = Inr (current, elapsed, till)"
      "uint (1767225600 :: u64) * 10 ^ 9 = Epoch_start + uint current * Period_default + elapsed"
      "0 \<le> elapsed" "elapsed < Period_default" "elapsed + till = Period_default"
      "\<forall>e. (uint e + 1) * Period_default < 2 ^ 63 \<longrightarrow>
         IsInEpoch Period_default e 1767225600 = (e = current)"
    using epochs_partition_time [OF r] by blast
  have "(uint current + 1) * Period_default < 2 ^ 63"
    using h(2-4) by (simp add: Epoch_start_def Period_default_def)
  with h show ?thesis by blast
qed

end
