(* ===== verification/SharedRandom.thy ===== *)
theory SharedRandom
  imports Prelude
begin

text \<open>
  Commit and reveal of the shared random value (core/pki/sharedrandom.go). BLAKE2b with 32 bytes of
  output is the parameter \<open>H\<close>; the random number is an argument, absent when reading it failed.
  Nil and empty byte slices are one, which no operation here tells apart.
\<close>

definition SharedRandomLength :: nat where "SharedRandomLength = 40"

record SharedRandom =
  sr_epoch :: u64
  sr_commit :: bytes
  sr_reveal :: bytes

definition sr_new :: SharedRandom where "sr_new = \<lparr>sr_epoch = 0, sr_commit = [], sr_reveal = []\<rparr>"

text \<open>
  \<open>Commit\<close> writes the epoch into the first eight bytes of two arrays and a hash behind it.
\<close>

definition sr_Commit ::
  "(bytes \<Rightarrow> bytes) \<Rightarrow> bytes option \<Rightarrow> u64 \<Rightarrow> (unit, SharedRandom \<times> bytes) go" where
  "sr_Commit H rn epoch =
     go_bind (or_err () rn) (\<lambda>rn.
     let zeros = replicate SharedRandomLength 0;
         reveal0 = copy_over zeros (put64 epoch);
         commit0 = copy_over zeros (put64 epoch);
         reveal = take 8 reveal0 @ copy_over (drop 8 reveal0) (H rn);
         commit = take 8 commit0 @ copy_over (drop 8 commit0) (H reveal)
     in Inr (\<lparr>sr_epoch = epoch, sr_commit = commit, sr_reveal = reveal\<rparr>, commit))"

definition sr_SetCommit :: "SharedRandom \<Rightarrow> bytes \<Rightarrow> (unit, SharedRandom) go" where
  "sr_SetCommit s rawCommit =
     go_bind (go_slice rawCommit 0 8) (\<lambda>b. go_bind (get64 b) (\<lambda>e.
       Inr (s\<lparr>sr_epoch := e, sr_commit := rawCommit\<rparr>)))"

definition sr_Verify :: "(bytes \<Rightarrow> bytes) \<Rightarrow> SharedRandom \<Rightarrow> bytes \<Rightarrow> (unit, bool) go" where
  "sr_Verify H s reveal =
     (if length reveal \<noteq> SharedRandomLength then Inr False
      else go_bind (get64 (take 8 reveal)) (\<lambda>epoch.
        let allegedCommit = H reveal in
        if epoch = sr_epoch s
        then go_bind (go_slice (sr_commit s) 8 (int (length (sr_commit s)))) (\<lambda>c. Inr (c = allegedCommit))
        else Inr False))"

section \<open>Properties\<close>

lemma sr_Commit_eq:
  assumes "\<And>b. length (H b) = 32"
  shows "sr_Commit H (Some rn) epoch = Inr
     (\<lparr>sr_epoch = epoch, sr_commit = put64 epoch @ H (put64 epoch @ H rn), sr_reveal = put64 epoch @ H rn\<rparr>,
      put64 epoch @ H (put64 epoch @ H rn))"
  by (simp add: sr_Commit_def SharedRandomLength_def Let_def copy_over_def assms)

lemma sr_SetCommit_Inr_iff:
  "sr_SetCommit s c = Inr s' \<longleftrightarrow> 8 \<le> length c
     \<and> s' = s\<lparr>sr_epoch := word_of_nat (be_dec (take 8 c)), sr_commit := c\<rparr>"
  by (auto simp: sr_SetCommit_def go_slice_def get64_def)

lemma sr_SetCommit_panics_iff: "sr_SetCommit s c = Inl Panic \<longleftrightarrow> length c < 8"
  by (auto simp: sr_SetCommit_def go_slice_def get64_def)

text \<open>What a successful verification says.\<close>

lemma sr_Verify_True_iff:
  "sr_Verify H s r = Inr True \<longleftrightarrow> length r = 40 \<and> take 8 r = put64 (sr_epoch s)
     \<and> 8 \<le> length (sr_commit s) \<and> drop 8 (sr_commit s) = H r"
proof -
  have e: "length r = 40 \<Longrightarrow> (word_of_nat (be_dec (take 8 r)) = sr_epoch s) = (take 8 r = put64 (sr_epoch s))"
    using be64.put_get [of "take 8 r"] be64.get_put_exact [of "sr_epoch s"]
    by (force simp: get64_def)
  show ?thesis
    by (auto simp: sr_Verify_def SharedRandomLength_def get64_def go_slice_def e Let_def split: if_splits)
qed

text \<open>
  Commit and reveal work: the value committed to has 40 bytes and carries the epoch, and
  whoever sets it as the commit accepts the reveal that belongs to it.
\<close>

theorem reveal_opens_commit:
  assumes H: "\<And>b. length (H b) = 32"
  shows "\<exists>s commit s'. sr_Commit H (Some rn) epoch = Inr (s, commit)
     \<and> length commit = SharedRandomLength \<and> length (sr_reveal s) = SharedRandomLength
     \<and> sr_SetCommit sr_new commit = Inr s' \<and> sr_epoch s' = epoch
     \<and> sr_Verify H s' (sr_reveal s) = Inr True"
proof -
  let ?r = "put64 epoch @ H rn"
  let ?c = "put64 epoch @ H ?r"
  have s: "sr_SetCommit sr_new ?c = Inr (sr_new\<lparr>sr_epoch := epoch, sr_commit := ?c\<rparr>)"
    using be64.get_put_exact [of epoch] by (simp add: sr_SetCommit_def go_slice_prefix [of 8 "put64 epoch"])
  have "sr_Verify H (sr_new\<lparr>sr_epoch := epoch, sr_commit := ?c\<rparr>) ?r = Inr True"
    by (simp add: sr_Verify_True_iff H)
  with s show ?thesis by (simp add: sr_Commit_eq [of H, OF H] SharedRandomLength_def H)
qed

theorem reveal_opens_commit_witness:
  "\<exists>s commit s'. sr_Commit (\<lambda>b. take 32 (b @ replicate 32 0)) (Some (replicate 32 7)) 5 = Inr (s, commit)
     \<and> length commit = SharedRandomLength \<and> length (sr_reveal s) = SharedRandomLength
     \<and> sr_SetCommit sr_new commit = Inr s' \<and> sr_epoch s' = 5
     \<and> sr_Verify (\<lambda>b. take 32 (b @ replicate 32 0)) s' (sr_reveal s) = Inr True"
  by (rule reveal_opens_commit) simp

end
