(* ===== verification/PKIDocument.thy ===== *)
theory PKIDocument
  imports Cert SharedRandom
begin

text \<open>
  PKI documents and descriptors (core/pki/document.go, descriptor.go): the records, the checks that
  make them well formed, the look-ups of the document, and the certificate a document travels in.

  A byte slice that the code compares with nil is an option. A Go map is an association list with
  distinct keys; a loop over it visits the entries in list order, and what depends on that order takes
  the order as an argument. Pointers to descriptors inside a document are taken not to be nil. A
  float64 is its bit pattern: no rate is computed with here. CBOR, the hash functions and
  \<open>url.Parse\<close> are the parameters in \<open>pki_env\<close>.
\<close>

section \<open>Data\<close>

type_synonym float64 = u64

definition LayerGateway :: nat where "LayerGateway = 255"
definition LayerService :: nat where "LayerService = 254"
definition DocumentVersion :: string where "DocumentVersion = ''v1''"
definition maxNameLength :: nat where "maxNameLength = 32"

text \<open>The values of a Kaetzchen parameter map: a string, or something else.\<close>

datatype kaetzchen_value = KString string | KOther

type_synonym kaetzchen = "(string \<times> (string \<times> kaetzchen_value) list option) list"

record MixDescriptor =
  Name :: string
  md_Epoch :: u64
  IdentityKey :: "bytes option"
  LinkKey :: "bytes option"
  MixKeys :: "(u64 \<times> bytes option) list"
  Addresses :: "(string \<times> string list) list"
  Kaetzchen :: "kaetzchen option"
  KaetzchenAdvertizedData :: "kaetzchen option"
  IsGatewayNode :: bool
  IsServiceNode :: bool
  LoadWeight :: byte
  AuthenticationType :: string
  md_Version :: string

record ReplicaDescriptor =
  rd_Name :: string
  ReplicaID :: byte
  rd_Epoch :: u64
  rd_IdentityKey :: "bytes option"
  rd_LinkKey :: "bytes option"
  EnvelopeKeys :: "(u64 \<times> bytes) list option"
  rd_Addresses :: "(string \<times> string list) list"

record Document =
  doc_Epoch :: u64
  GenesisEpoch :: u64
  Mu :: float64
  LambdaP :: float64
  LambdaL :: float64
  LambdaM :: float64
  LambdaG :: float64
  LambdaR :: float64
  Topology :: "MixDescriptor list list"
  GatewayNodes :: "MixDescriptor list"
  ServiceNodes :: "MixDescriptor list"
  StorageReplicas :: "ReplicaDescriptor list"
  ConfiguredReplicaIDs :: bytes
  ConfiguredReplicaIdentityKeys :: "bytes list"
  ReplicaEnvelopeKeys :: "(byte \<times> (u64 \<times> bytes) list) list"
  doc_Signatures :: "signatures option"
  SharedRandomCommit :: "(bytes \<times> bytes) list"
  SharedRandomReveal :: "(bytes \<times> bytes) list"
  SharedRandomValue :: bytes
  PriorSharedRandom :: "bytes list"
  SphinxGeometryHash :: bytes
  doc_Version :: string
  PKISignatureScheme :: string

record ('pub, 'priv) pki_env =
  certs :: "('pub, 'priv) cert_env"
  Sum256 :: "bytes \<Rightarrow> bytes"
  blake2b_256 :: "bytes \<Rightarrow> bytes"
  url_Parse :: "string \<Rightarrow> (string \<times> string) option"   \<comment> \<open>scheme and host\<close>
  doc_Marshal :: "Document \<Rightarrow> bytes option"            \<comment> \<open>without the signatures\<close>
  doc_Unmarshal :: "Document \<Rightarrow> bytes \<Rightarrow> Document option"  \<comment> \<open>into an existing document\<close>
  md_Marshal :: "MixDescriptor \<Rightarrow> bytes option"
  md_Unmarshal :: "bytes \<Rightarrow> MixDescriptor option"
  rd_Marshal :: "ReplicaDescriptor \<Rightarrow> bytes option"
  rd_Unmarshal :: "bytes \<Rightarrow> ReplicaDescriptor option"

definition raw_key :: "bytes option \<Rightarrow> bytes" where
  "raw_key k = (case k of None \<Rightarrow> [] | Some b \<Rightarrow> b)"

definition md_hash :: "('pub, 'priv) pki_env \<Rightarrow> MixDescriptor \<Rightarrow> bytes" where
  "md_hash x d = Sum256 x (raw_key (IdentityKey d))"

definition rd_hash :: "('pub, 'priv) pki_env \<Rightarrow> ReplicaDescriptor \<Rightarrow> bytes" where
  "rd_hash x d = Sum256 x (raw_key (rd_IdentityKey d))"

section \<open>Descriptors\<close>

datatype desc_err =
    missingName | nameTooLong | missingLinkKey | missingIdentityKey | missingMixKey
  | invalidMixKeyEpoch | missingAddresses | emptyAddressList | urlError | invalidAddress
  | onionNotSupported | onionNotGateway | unsupportedScheme | kaetzchenWhenMix
  | capabilityLength | noParameters | noEndpoint | endpointType | endpointLength
  | envelopeKeysNil | envelopeKeysEmpty

text \<open>\<open>net.SplitHostPort\<close>, as far as whether it succeeds.\<close>

definition SplitHostPort_ok :: "string \<Rightarrow> bool" where
  "SplitHostPort_ok hp =
     (if CHR '':'' \<notin> set hp then False
      else let i = length hp - 1 - length (takeWhile (\<lambda>ch. ch \<noteq> CHR '':'') (rev hp)) in
        if hd hp = CHR ''['' then
          (if CHR '']'' \<notin> set hp then False
           else let e = length (takeWhile (\<lambda>ch. ch \<noteq> CHR '']'') hp) in
             e + 1 = i \<and> CHR ''['' \<notin> set (drop 1 hp) \<and> CHR '']'' \<notin> set (drop (e + 1) hp))
        else CHR '':'' \<notin> set (take i hp) \<and> CHR ''['' \<notin> set hp \<and> CHR '']'' \<notin> set hp)"

definition isDescriptorAddressWellFormed ::
  "('pub, 'priv) pki_env \<Rightarrow> bool \<Rightarrow> bool \<Rightarrow> string \<Rightarrow> (desc_err, unit) go" where
  "isDescriptorAddressWellFormed x isGatewayNode allowOnion addr =
     (case url_Parse x addr of
        None \<Rightarrow> Inl (Err urlError)
      | Some (scheme, host) \<Rightarrow>
          if scheme \<in> {''ws'', ''tcp'', ''tcp4'', ''tcp6'', ''quic''}
          then (if SplitHostPort_ok host then Inr () else Inl (Err invalidAddress))
          else if scheme = ''onion''
          then (if \<not> allowOnion then Inl (Err onionNotSupported)
                else if \<not> isGatewayNode then Inl (Err onionNotGateway) else Inr ())
          else Inl (Err unsupportedScheme))"

text \<open>A loop that stops at the first error.\<close>

fun go_all :: "('a \<Rightarrow> ('e, unit) go) \<Rightarrow> 'a list \<Rightarrow> ('e, unit) go" where
  "go_all f [] = Inr ()"
| "go_all f (a # as) = go_bind (f a) (\<lambda>_. go_all f as)"

definition check_addresses ::
  "('pub, 'priv) pki_env \<Rightarrow> bool \<Rightarrow> bool \<Rightarrow> (string \<times> string list) list \<Rightarrow> (desc_err, unit) go" where
  "check_addresses x isGatewayNode allowOnion as =
     (if as = [] then Inl (Err missingAddresses)
      else go_all (\<lambda>(transport, addrs).
        if addrs = [] then Inl (Err emptyAddressList)
        else go_all (isDescriptorAddressWellFormed x isGatewayNode allowOnion) addrs) as)"

definition validateKaetzchen :: "kaetzchen option \<Rightarrow> (desc_err, unit) go" where
  "validateKaetzchen m =
     (case m of None \<Rightarrow> Inr ()
      | Some m \<Rightarrow> go_all (\<lambda>(capa, params).
          if capa = '''' then Inl (Err capabilityLength)
          else case params of
            None \<Rightarrow> Inl (Err noParameters)
          | Some ps \<Rightarrow>
             (case map_of ps ''endpoint'' of
                None \<Rightarrow> Inl (Err noEndpoint)
              | Some KOther \<Rightarrow> Inl (Err endpointType)
              | Some (KString ep) \<Rightarrow>
                  if ep = '''' \<or> length ep > 32 then Inl (Err endpointLength) else Inr ())) m)"

text \<open>The addition \<open>epoch+3\<close> wraps.\<close>

definition IsDescriptorWellFormed ::
  "('pub, 'priv) pki_env \<Rightarrow> u64 \<Rightarrow> MixDescriptor \<Rightarrow> (desc_err, unit) go" where
  "IsDescriptorWellFormed x epoch d =
     (if Name d = '''' then Inl (Err missingName)
      else if length (Name d) > maxNameLength then Inl (Err nameTooLong)
      else if LinkKey d = None then Inl (Err missingLinkKey)
      else if IdentityKey d = None then Inl (Err missingIdentityKey)
      else if map_of (MixKeys d) epoch \<in> {None, Some None} then Inl (Err missingMixKey)
      else if \<exists>e \<in> fst ` set (MixKeys d). e < epoch \<or> epoch + 3 \<le> e then Inl (Err invalidMixKeyEpoch)
      else go_bind (check_addresses x (IsGatewayNode d) True (Addresses d)) (\<lambda>_.
        if \<not> IsServiceNode d
        then (if Kaetzchen d \<noteq> None then Inl (Err kaetzchenWhenMix) else Inr ())
        else validateKaetzchen (Kaetzchen d)))"

definition IsReplicaDescriptorWellFormed ::
  "('pub, 'priv) pki_env \<Rightarrow> ReplicaDescriptor \<Rightarrow> (desc_err, unit) go" where
  "IsReplicaDescriptorWellFormed x d =
     (if rd_Name d = '''' then Inl (Err missingName)
      else if length (rd_Name d) > maxNameLength then Inl (Err nameTooLong)
      else if rd_LinkKey d = None then Inl (Err missingLinkKey)
      else if rd_IdentityKey d = None then Inl (Err missingIdentityKey)
      else case EnvelopeKeys d of
        None \<Rightarrow> Inl (Err envelopeKeysNil)
      | Some ks \<Rightarrow> if ks = [] then Inl (Err envelopeKeysEmpty)
                  else check_addresses x False False (rd_Addresses d))"

section \<open>Look-ups of a document\<close>

datatype lookup_err = nodeNotFound | invalidDescriptors | invalidLayer

definition GetGateway :: "Document \<Rightarrow> string \<Rightarrow> (lookup_err, MixDescriptor) go" where
  "GetGateway d name = or_err nodeNotFound (List.find (\<lambda>v. Name v = name) (GatewayNodes d))"

definition GetServiceNode :: "Document \<Rightarrow> string \<Rightarrow> (lookup_err, MixDescriptor) go" where
  "GetServiceNode d name = or_err nodeNotFound (List.find (\<lambda>v. Name v = name) (ServiceNodes d))"

definition GetMix :: "Document \<Rightarrow> string \<Rightarrow> (lookup_err, MixDescriptor) go" where
  "GetMix d name = or_err nodeNotFound (List.find (\<lambda>v. Name v = name) (concat (Topology d)))"

text \<open>A search by identity hash; a descriptor without an identity key ends it with an error.\<close>

fun find_by_hash ::
  "('pub, 'priv) pki_env \<Rightarrow> bytes \<Rightarrow> MixDescriptor list \<Rightarrow> (lookup_err, MixDescriptor) go" where
  "find_by_hash x keyhash [] = Inl (Err nodeNotFound)"
| "find_by_hash x keyhash (v # vs) =
     (if IdentityKey v = None then Inl (Err invalidDescriptors)
      else if md_hash x v = keyhash then Inr v else find_by_hash x keyhash vs)"

definition GetGatewayByKeyHash where "GetGatewayByKeyHash x d h = find_by_hash x h (GatewayNodes d)"
definition GetServiceNodeByKeyHash where "GetServiceNodeByKeyHash x d h = find_by_hash x h (ServiceNodes d)"
definition GetMixByKeyHash where "GetMixByKeyHash x d h = find_by_hash x h (concat (Topology d))"

fun find_replica ::
  "('pub, 'priv) pki_env \<Rightarrow> bytes \<Rightarrow> ReplicaDescriptor list \<Rightarrow> (lookup_err, ReplicaDescriptor) go" where
  "find_replica x keyhash [] = Inl (Err nodeNotFound)"
| "find_replica x keyhash (v # vs) =
     (if rd_IdentityKey v = None then Inl (Err invalidDescriptors)
      else if rd_hash x v = keyhash then Inr v else find_replica x keyhash vs)"

definition GetReplicaNodeByKeyHash where
  "GetReplicaNodeByKeyHash x d h = find_replica x h (StorageReplicas d)"

definition GetReplicaNodeByReplicaID :: "Document \<Rightarrow> byte \<Rightarrow> (lookup_err, ReplicaDescriptor) go" where
  "GetReplicaNodeByReplicaID d i = or_err nodeNotFound (List.find (\<lambda>v. ReplicaID v = i) (StorageReplicas d))"

text \<open>The identity key is given as its encoding, if encoding it succeeds.\<close>

definition GetReplicaIDByIdentityKey :: "Document \<Rightarrow> bytes option \<Rightarrow> (lookup_err, byte) go" where
  "GetReplicaIDByIdentityKey d keyblob =
     go_bind (or_err invalidDescriptors keyblob) (\<lambda>k.
       or_err nodeNotFound (map_option ReplicaID
         (List.find (\<lambda>r. k = raw_key (rd_IdentityKey r)) (StorageReplicas d))))"

fun find_layer ::
  "('pub, 'priv) pki_env \<Rightarrow> bytes \<Rightarrow> nat \<Rightarrow> MixDescriptor list list \<Rightarrow> (lookup_err, byte) go" where
  "find_layer x h n [] = Inl (Err nodeNotFound)"
| "find_layer x h n (l # ls) =
     (if \<exists>v \<in> set l. md_hash x v = h then Inr (word_of_nat n) else find_layer x h (Suc n) ls)"

definition GetMixLayer :: "('pub, 'priv) pki_env \<Rightarrow> Document \<Rightarrow> bytes \<Rightarrow> (lookup_err, byte) go" where
  "GetMixLayer x d h =
     (if \<exists>p \<in> set (GatewayNodes d). md_hash x p = h then Inr (word_of_nat LayerGateway)
      else if \<exists>p \<in> set (ServiceNodes d). md_hash x p = h then Inr (word_of_nat LayerService)
      else find_layer x h 0 (Topology d))"

definition GetMixesInLayer :: "Document \<Rightarrow> byte \<Rightarrow> (lookup_err, MixDescriptor list) go" where
  "GetMixesInLayer d layer =
     (if int (length (Topology d)) - 1 < int (unat layer) then Inl (Err invalidLayer)
      else Inr (Topology d ! unat layer))"

text \<open>Each of the two tries mixes, then gateways, then service nodes; an error only means the next.\<close>

definition go_orelse :: "('e, 'a) go \<Rightarrow> ('e, 'a) go \<Rightarrow> ('e, 'a) go" where
  "go_orelse a b = (case a of Inl (Err _) \<Rightarrow> b | _ \<Rightarrow> a)"

definition GetNode :: "Document \<Rightarrow> string \<Rightarrow> (lookup_err, MixDescriptor) go" where
  "GetNode d name = go_orelse (GetMix d name) (go_orelse (GetGateway d name)
     (go_orelse (GetServiceNode d name) (Inl (Err nodeNotFound))))"

definition GetNodeByKeyHash ::
  "('pub, 'priv) pki_env \<Rightarrow> Document \<Rightarrow> bytes \<Rightarrow> (lookup_err, MixDescriptor) go" where
  "GetNodeByKeyHash x d h = go_orelse (GetMixByKeyHash x d h) (go_orelse (GetGatewayByKeyHash x d h)
     (go_orelse (GetServiceNodeByKeyHash x d h) (Inl (Err nodeNotFound))))"

section \<open>The certificate of a document\<close>

datatype doc_err = certError cert_err | errDocumentNotSigned | cborError

definition lift_cert :: "(cert_err, 'a) go \<Rightarrow> (doc_err, 'a) go" where
  "lift_cert r = (case r of Inr a \<Rightarrow> Inr a | Inl Panic \<Rightarrow> Inl Panic | Inl (Err e) \<Rightarrow> Inl (Err (certError e)))"

definition MarshalCertificate :: "('pub, 'priv) pki_env \<Rightarrow> Document \<Rightarrow> (doc_err, bytes) go" where
  "MarshalCertificate x d =
     go_bind (or_err cborError (doc_Marshal x (d\<lparr>doc_Version := DocumentVersion\<rparr>))) (\<lambda>payload.
     let certified = \<lparr>Version = CertVersion, Expiration = doc_Epoch d + 5,
                      KeyType = PKISignatureScheme d, Certified = payload,
                      Signatures = doc_Signatures d\<rparr>
     in or_err cborError (cbor_Marshal (certs x) certified))"

definition UnmarshalCertificate ::
  "('pub, 'priv) pki_env \<Rightarrow> map_order \<Rightarrow> Document \<Rightarrow> bytes \<Rightarrow> (doc_err, Document) go" where
  "UnmarshalCertificate x ord d data =
     go_bind (lift_cert (GetCertified (certs x) data)) (\<lambda>certified.
     go_bind (lift_cert (GetSignatures (certs x) ord data)) (\<lambda>sigs.
     if sigs = [] then Inl (Err errDocumentNotSigned)
     else let d = d\<lparr>doc_Signatures := Some (fold (\<lambda>s. AList.update (PublicKeySum256 s) s) sigs [])\<rparr>
     in or_err cborError (doc_Unmarshal x d certified)))"

definition zero_document :: Document where
  "zero_document = \<lparr>doc_Epoch = 0, GenesisEpoch = 0, Mu = 0, LambdaP = 0, LambdaL = 0, LambdaM = 0,
     LambdaG = 0, LambdaR = 0, Topology = [], GatewayNodes = [], ServiceNodes = [],
     StorageReplicas = [], ConfiguredReplicaIDs = [], ConfiguredReplicaIdentityKeys = [],
     ReplicaEnvelopeKeys = [], doc_Signatures = None, SharedRandomCommit = [],
     SharedRandomReveal = [], SharedRandomValue = [], PriorSharedRandom = [],
     SphinxGeometryHash = [], doc_Version = [], PKISignatureScheme = []\<rparr>"

definition ParseDocument :: "('pub, 'priv) pki_env \<Rightarrow> map_order \<Rightarrow> bytes \<Rightarrow> (doc_err, Document) go" where
  "ParseDocument x ord b = UnmarshalCertificate x ord zero_document b"

definition FromPayload ::
  "('pub, 'priv) pki_env \<Rightarrow> map_order \<Rightarrow> map_order \<Rightarrow> 'pub \<Rightarrow> bytes \<Rightarrow> (doc_err, Document) go" where
  "FromPayload x vord ord verifier payload =
     go_bind (lift_cert (Verify (certs x) vord verifier payload)) (\<lambda>_.
       UnmarshalCertificate x ord zero_document payload)"

text \<open>\<open>SignDocument\<close> returns the document, which it also changes.\<close>

definition SignDocument ::
  "('pub, 'priv) pki_env \<Rightarrow> map_order \<Rightarrow> 'priv \<Rightarrow> 'pub \<Rightarrow> Document \<Rightarrow> (doc_err, Document \<times> bytes) go" where
  "SignDocument x ord signer verifier d =
     (let d = d\<lparr>doc_Version := DocumentVersion\<rparr> in
      case MarshalCertificate x d of Inl _ \<Rightarrow> Inl Panic
      | Inr certified \<Rightarrow>
         (case SignMulti (certs x) signer verifier certified of Inl _ \<Rightarrow> Inl Panic
          | Inr recertified \<Rightarrow>
              go_bind (UnmarshalCertificate x ord d recertified) (\<lambda>d. Inr (d, recertified))))"

text \<open>The peers' verifiers are found in a map; a signer who is not in it is a nil key, which panics.\<close>

fun attach_signatures ::
  "('pub, 'priv) pki_env \<Rightarrow> map_order \<Rightarrow> (bytes \<Rightarrow> 'pub option) \<Rightarrow> Signature list \<Rightarrow> bytes \<Rightarrow> (doc_err, bytes) go" where
  "attach_signatures x ord verifiers [] rawCert = Inr rawCert"
| "attach_signatures x ord verifiers (s # ss) rawCert =
     go_bind (or_panic (verifiers (PublicKeySum256 s))) (\<lambda>v.
     go_bind (lift_cert (AddSignature (certs x) ord v s rawCert)) (\<lambda>rawCert.
       attach_signatures x ord verifiers ss rawCert))"

definition MultiSignDocument ::
  "('pub, 'priv) pki_env \<Rightarrow> map_order \<Rightarrow> 'priv \<Rightarrow> 'pub \<Rightarrow> Signature list \<Rightarrow> (bytes \<Rightarrow> 'pub option)
     \<Rightarrow> Document \<Rightarrow> (doc_err, bytes) go" where
  "MultiSignDocument x ord signer verifier peerSignatures verifiers d =
     go_bind (or_err cborError (doc_Marshal x (d\<lparr>doc_Version := DocumentVersion\<rparr>))) (\<lambda>payload.
     go_bind (lift_cert (Sign (certs x) signer verifier payload (doc_Epoch d + 5))) (\<lambda>rawCert.
       attach_signatures x ord verifiers peerSignatures rawCert))"

text \<open>Writing into the map of signatures panics when it is nil.\<close>

definition doc_AddSignature ::
  "('pub, 'priv) pki_env \<Rightarrow> map_order \<Rightarrow> 'pub \<Rightarrow> Signature \<Rightarrow> Document \<Rightarrow> (doc_err, Document) go" where
  "doc_AddSignature x ord verifier sig d =
     go_bind (MarshalCertificate x d) (\<lambda>payload.
     go_bind (lift_cert (AddSignature (certs x) ord verifier sig payload)) (\<lambda>_.
     go_bind (or_panic (doc_Signatures d)) (\<lambda>m.
       Inr (d\<lparr>doc_Signatures := Some (AList.update (Sum256From (certs x) verifier) sig m)\<rparr>))))"

section \<open>Well-formed documents\<close>

datatype wf_err =
    invalidVersion | invalidGenesisEpoch | invalidPriorSharedRandom | unknownVerifier
  | invalidSignedCommit | invalidEpochInCommit | invalidCommit | notAVote | malformedDocument
  | missingReveal | invalidSignatureOnReveal | invalidReveal | noTopology | emptyLayer
  | multipleEntries | noGateways | noServiceNodes | notAGatewayNode | notAServiceNode
  | descriptorError desc_err

definition lift_desc :: "(desc_err, 'a) go \<Rightarrow> (wf_err, 'a) go" where
  "lift_desc r = (case r of Inr a \<Rightarrow> Inr a | Inl Panic \<Rightarrow> Inl Panic | Inl (Err e) \<Rightarrow> Inl (Err (descriptorError e)))"

definition verifier_map :: "('pub, 'priv) cert_env \<Rightarrow> 'pub list \<Rightarrow> bytes \<Rightarrow> 'pub option" where
  "verifier_map x verifiers = map_of (rev (map (\<lambda>v. (Sum256From x v, v)) verifiers))"

text \<open>One round of the loop over the commits; \<open>vord\<close> and \<open>rord\<close> are the orders of the two calls of Verify.\<close>

definition check_reveal ::
  "('pub, 'priv) pki_env \<Rightarrow> map_order \<Rightarrow> 'pub \<Rightarrow> bytes \<Rightarrow> bytes \<Rightarrow> (wf_err, unit) go" where
  "check_reveal x rord verifier commit signedReveal =
     (case Verify (certs x) rord verifier signedReveal of
        Inl _ \<Rightarrow> Inl (Err invalidSignatureOnReveal)
      | Inr reveal \<Rightarrow>
         (case sr_SetCommit sr_new commit of Inl _ \<Rightarrow> Inl Panic
          | Inr srv \<Rightarrow> (case sr_Verify (blake2b_256 x) srv reveal of Inl _ \<Rightarrow> Inl Panic
             | Inr ok \<Rightarrow> if ok then Inr () else Inl (Err invalidReveal))))"

definition check_commit ::
  "('pub, 'priv) pki_env \<Rightarrow> map_order \<Rightarrow> map_order \<Rightarrow> (bytes \<Rightarrow> 'pub option) \<Rightarrow> Document
     \<Rightarrow> bytes \<times> bytes \<Rightarrow> (wf_err, unit) go" where
  "check_commit x vord rord vmap d = (\<lambda>(id, signedCommit).
     go_bind (or_err unknownVerifier (vmap id)) (\<lambda>verifier.
     case Verify (certs x) vord verifier signedCommit of
       Inl _ \<Rightarrow> Inl (Err invalidSignedCommit)
     | Inr commit \<Rightarrow>
        if length commit \<noteq> SharedRandomLength then Inl (Err invalidCommit)
        else go_bind (get64 (take 8 commit)) (\<lambda>srvEpoch.
          if srvEpoch \<noteq> doc_Epoch d then Inl (Err invalidEpochInCommit)
          else if length (SharedRandomCommit d) = 1
          then (if SharedRandomReveal d \<noteq> [] then Inl (Err notAVote) else Inr ())
          else if length (SharedRandomReveal d) \<noteq> length (SharedRandomCommit d)
          then Inl (Err malformedDocument)
          else go_bind (or_err missingReveal (map_of (SharedRandomReveal d) id))
                 (check_reveal x rord verifier commit))))"

text \<open>The loops over the descriptors carry the set of identities seen.\<close>

fun check_nodes ::
  "('pub, 'priv) pki_env \<Rightarrow> u64 \<Rightarrow> (MixDescriptor \<Rightarrow> (wf_err, unit) go) \<Rightarrow> bytes list
     \<Rightarrow> MixDescriptor list \<Rightarrow> (wf_err, bytes list) go" where
  "check_nodes x epoch role pks [] = Inr pks"
| "check_nodes x epoch role pks (d # ds) =
     go_bind (lift_desc (IsDescriptorWellFormed x epoch d)) (\<lambda>_.
     go_bind (role d) (\<lambda>_.
     if md_hash x d \<in> set pks then Inl (Err multipleEntries)
     else check_nodes x epoch role (md_hash x d # pks) ds))"

fun check_layers ::
  "('pub, 'priv) pki_env \<Rightarrow> u64 \<Rightarrow> bytes list \<Rightarrow> MixDescriptor list list \<Rightarrow> (wf_err, bytes list) go" where
  "check_layers x epoch pks [] = Inr pks"
| "check_layers x epoch pks (l # ls) =
     (if l = [] then Inl (Err emptyLayer)
      else go_bind (check_nodes x epoch (\<lambda>_. Inr ()) pks l) (\<lambda>pks. check_layers x epoch pks ls))"

definition gateway_role :: "MixDescriptor \<Rightarrow> (wf_err, unit) go" where
  "gateway_role d = (if IsGatewayNode d then Inr () else Inl (Err notAGatewayNode))"

definition service_role :: "MixDescriptor \<Rightarrow> (wf_err, unit) go" where
  "service_role d = (if IsServiceNode d then Inr () else Inl (Err notAServiceNode))"

definition IsDocumentWellFormed ::
  "('pub, 'priv) pki_env \<Rightarrow> map_order \<Rightarrow> map_order \<Rightarrow> 'pub list \<Rightarrow> Document \<Rightarrow> (wf_err, unit) go" where
  "IsDocumentWellFormed x vord rord verifiers d =
     (if doc_Version d \<noteq> DocumentVersion then Inl (Err invalidVersion)
      else if GenesisEpoch d = 0 then Inl (Err invalidGenesisEpoch)
      else if PriorSharedRandom d = [] \<and> GenesisEpoch d \<noteq> doc_Epoch d
      then Inl (Err invalidPriorSharedRandom)
      else go_bind (go_all (check_commit x vord rord (verifier_map (certs x) verifiers) d)
                     (SharedRandomCommit d)) (\<lambda>_.
      if Topology d = [] then Inl (Err noTopology)
      else go_bind (check_layers x (doc_Epoch d) [] (Topology d)) (\<lambda>pks.
      if GatewayNodes d = [] then Inl (Err noGateways)
      else if ServiceNodes d = [] then Inl (Err noServiceNodes)
      else go_bind (check_nodes x (doc_Epoch d) gateway_role pks (GatewayNodes d)) (\<lambda>pks.
      go_bind (check_nodes x (doc_Epoch d) service_role pks (ServiceNodes d)) (\<lambda>_.
        go_all (\<lambda>r. lift_desc (IsReplicaDescriptorWellFormed x r)) (StorageReplicas d))))))"

end
