(* ===== verification/PKIProps.thy ===== *)
theory PKIProps
  imports PKIDocument CertProps
begin

text \<open>What a well-formed document is, and that its look-ups find what it lists.\<close>

section \<open>The checks as predicates\<close>

lemma lift_desc_Inr_iff [simp]: "lift_desc r = Inr a \<longleftrightarrow> r = Inr a"
  by (auto simp: lift_desc_def split: sum.splits fail.splits)

lemma lift_desc_Panic_iff [simp]: "lift_desc r = Inl Panic \<longleftrightarrow> r = Inl Panic"
  by (auto simp: lift_desc_def split: sum.splits fail.splits)

lemma go_all_Inr_iff: "go_all f as = Inr () \<longleftrightarrow> list_all (\<lambda>a. f a = Inr ()) as"
  by (induction as) (simp_all add: go_bind_Inr_iff)

lemma go_all_no_panic: "(\<And>a. f a \<noteq> Inl Panic) \<Longrightarrow> go_all f as \<noteq> Inl Panic"
  by (induction as) (simp_all add: go_bind_Panic_iff)

lemma address_no_panic: "isDescriptorAddressWellFormed x gw onion a \<noteq> Inl Panic"
  by (auto simp: isDescriptorAddressWellFormed_def split: option.splits)

lemma check_addresses_no_panic: "check_addresses x gw onion as \<noteq> Inl Panic"
  by (auto simp: check_addresses_def go_all_no_panic [OF address_no_panic] intro!: go_all_no_panic
      split: prod.splits if_splits)

lemma validateKaetzchen_no_panic: "validateKaetzchen m \<noteq> Inl Panic"
  by (auto simp: validateKaetzchen_def intro!: go_all_no_panic
      split: option.splits prod.splits kaetzchen_value.splits if_splits)

lemma descriptor_no_panic: "IsDescriptorWellFormed x epoch d \<noteq> Inl Panic"
  by (auto simp: IsDescriptorWellFormed_def go_bind_Panic_iff check_addresses_no_panic
      validateKaetzchen_no_panic)

lemma replica_descriptor_no_panic: "IsReplicaDescriptorWellFormed x d \<noteq> Inl Panic"
  by (auto simp: IsReplicaDescriptorWellFormed_def check_addresses_no_panic split: option.splits)

definition opened_by :: "('pub, 'priv) pki_env \<Rightarrow> u64 \<Rightarrow> bytes \<Rightarrow> bytes \<Rightarrow> bool" where
  "opened_by x epoch commit reveal \<longleftrightarrow> length reveal = 40 \<and> take 8 reveal = put64 epoch
     \<and> drop 8 commit = blake2b_256 x reveal"

definition commit_ok ::
  "('pub, 'priv) pki_env \<Rightarrow> map_order \<Rightarrow> map_order \<Rightarrow> 'pub list \<Rightarrow> Document \<Rightarrow> bytes \<times> bytes \<Rightarrow> bool" where
  "commit_ok x vord rord verifiers d = (\<lambda>(id, signedCommit). \<exists>v commit.
     verifier_map (certs x) verifiers id = Some v \<and> Verify (certs x) vord v signedCommit = Inr commit
   \<and> length commit = 40 \<and> take 8 commit = put64 (doc_Epoch d)
   \<and> (if length (SharedRandomCommit d) = 1 then SharedRandomReveal d = []
      else length (SharedRandomReveal d) = length (SharedRandomCommit d)
        \<and> (\<exists>signedReveal reveal. map_of (SharedRandomReveal d) id = Some signedReveal
             \<and> Verify (certs x) rord v signedReveal = Inr reveal
             \<and> opened_by x (doc_Epoch d) commit reveal)))"

lemma get64_eq_iff: "length b = 8 \<Longrightarrow> get64 b = Inr e \<longleftrightarrow> b = put64 e"
  using be64.put_get [of b e] be64.get_put_exact [of e] by auto

lemma check_reveal_Inr_iff:
  assumes "length commit = 40" "take 8 commit = put64 epoch"
  shows "check_reveal x rord v commit sr = Inr () \<longleftrightarrow>
     (\<exists>reveal. Verify (certs x) rord v sr = Inr reveal \<and> opened_by x epoch commit reveal)"
proof -
  have e: "be_dec (take 8 commit) = be_dec (put64 epoch)" by (simp add: assms(2))
  have w: "word_of_nat (be_dec (put64 epoch)) = epoch"
    using word_of_nat_unat_mod [of epoch] by (simp add: put64_def)
  obtain srv where s: "sr_SetCommit sr_new commit = Inr srv" "sr_epoch srv = epoch" "sr_commit srv = commit"
    using assms by (auto simp: sr_SetCommit_Inr_iff e w)
  have o: "opened_by x epoch commit r = (sr_Verify (blake2b_256 x) srv r = Inr True)" for r
    using assms(1) s(2,3) by (simp add: sr_Verify_True_iff opened_by_def)
  show ?thesis unfolding check_reveal_def s(1) o by (auto split: sum.splits)
qed

lemma check_reveal_no_panic: "length commit = 40 \<Longrightarrow> check_reveal x rord v commit sr \<noteq> Inl Panic"
  by (auto simp: check_reveal_def sr_SetCommit_def sr_Verify_def go_slice_def get64_def
      SharedRandomLength_def split: sum.splits)

lemma check_commit_Inr_iff: "check_commit x vord rord (verifier_map (certs x) vs) d c = Inr ()
    \<longleftrightarrow> commit_ok x vord rord vs d c"
proof (cases c)
  case (Pair id sc)
  show ?thesis
  proof (cases "\<exists>v commit. verifier_map (certs x) vs id = Some v \<and> Verify (certs x) vord v sc = Inr commit
      \<and> length commit = 40")
    case False
    then show ?thesis
      by (auto simp: Pair check_commit_def commit_ok_def SharedRandomLength_def or_err_def
          split: option.splits sum.splits)
  next
    case True
    then obtain v commit where v: "verifier_map (certs x) vs id = Some v"
        "Verify (certs x) vord v sc = Inr commit" "length commit = 40" by blast
    have g: "(get64 (take 8 commit) :: (wf_err, u64) go) = Inr e \<longleftrightarrow> take 8 commit = put64 e" for e
      by (rule get64_eq_iff) (simp add: v(3))
    obtain e where e: "(get64 (take 8 commit) :: (wf_err, u64) go) = Inr e"
      using v(3) by (auto simp: get64_def)
    then have t: "take 8 commit = put64 e" using g by simp
    show ?thesis
    proof (cases "e = doc_Epoch d")
      case True
      note cr = check_reveal_Inr_iff [OF v(3) t [unfolded True]]
      show ?thesis
        using True v t
        by (auto simp: Pair check_commit_def commit_ok_def SharedRandomLength_def or_err_def e cr
            split: option.splits)
    next
      case False
      then have "put64 e \<noteq> put64 (doc_Epoch d)" by (simp add: be64.put_inject)
      with False v t show ?thesis
        by (auto simp: Pair check_commit_def commit_ok_def SharedRandomLength_def e)
    qed
  qed
qed

lemma check_commit_no_panic: "check_commit x vord rord vm d c \<noteq> Inl Panic"
  by (auto simp: check_commit_def go_bind_Panic_iff or_err_def get64_def SharedRandomLength_def
      check_reveal_no_panic split: prod.splits option.splits sum.splits)

section \<open>Descriptors of a document\<close>

definition all_nodes :: "Document \<Rightarrow> MixDescriptor list" where
  "all_nodes d = concat (Topology d) @ GatewayNodes d @ ServiceNodes d"

lemma check_nodes_Inr_iff:
  "check_nodes x epoch role pks ds = Inr pks' \<longleftrightarrow>
     list_all (\<lambda>d. IsDescriptorWellFormed x epoch d = Inr () \<and> role d = Inr ()) ds
   \<and> distinct (map (md_hash x) ds) \<and> set (map (md_hash x) ds) \<inter> set pks = {}
   \<and> pks' = rev (map (md_hash x) ds) @ pks"
  by (induction ds arbitrary: pks) (auto simp: go_bind_Inr_iff)

lemma check_nodes_no_panic:
  "(\<And>d. role d \<noteq> Inl Panic) \<Longrightarrow> check_nodes x epoch role pks ds \<noteq> Inl Panic"
  by (induction ds arbitrary: pks) (auto simp: go_bind_Panic_iff descriptor_no_panic)

lemma check_layers_Inr_iff:
  "check_layers x epoch pks ls = Inr pks' \<longleftrightarrow> [] \<notin> set ls
   \<and> list_all (\<lambda>d. IsDescriptorWellFormed x epoch d = Inr ()) (concat ls)
   \<and> distinct (map (md_hash x) (concat ls)) \<and> set (map (md_hash x) (concat ls)) \<inter> set pks = {}
   \<and> pks' = rev (map (md_hash x) (concat ls)) @ pks"
proof (induction ls arbitrary: pks)
  case (Cons l ls)
  show ?case
    by (cases "l = []") (auto simp: go_bind_Inr_iff check_nodes_Inr_iff Cons.IH simp del: set_map set_concat)
qed auto

lemma check_layers_no_panic: "check_layers x epoch pks ls \<noteq> Inl Panic"
  by (induction ls arbitrary: pks) (auto simp: go_bind_Panic_iff check_nodes_no_panic)

lemma roles_Inr_iff [simp]:
  "gateway_role d = Inr () \<longleftrightarrow> IsGatewayNode d" "service_role d = Inr () \<longleftrightarrow> IsServiceNode d"
  by (simp_all add: gateway_role_def service_role_def)

lemma roles_no_panic [simp]: "gateway_role d \<noteq> Inl Panic" "service_role d \<noteq> Inl Panic"
  by (simp_all add: gateway_role_def service_role_def)

lemma well_formed_Inr_iff:
  "IsDocumentWellFormed x vord rord vs d = Inr () \<longleftrightarrow>
     doc_Version d = DocumentVersion \<and> GenesisEpoch d \<noteq> 0
   \<and> (PriorSharedRandom d = [] \<longrightarrow> GenesisEpoch d = doc_Epoch d)
   \<and> list_all (commit_ok x vord rord vs d) (SharedRandomCommit d)
   \<and> Topology d \<noteq> [] \<and> [] \<notin> set (Topology d) \<and> GatewayNodes d \<noteq> [] \<and> ServiceNodes d \<noteq> []
   \<and> list_all (\<lambda>n. IsDescriptorWellFormed x (doc_Epoch d) n = Inr ()) (all_nodes d)
   \<and> list_all IsGatewayNode (GatewayNodes d) \<and> list_all IsServiceNode (ServiceNodes d)
   \<and> distinct (map (md_hash x) (all_nodes d))
   \<and> list_all (\<lambda>r. IsReplicaDescriptorWellFormed x r = Inr ()) (StorageReplicas d)"
  by (auto simp: IsDocumentWellFormed_def go_bind_Inr_iff go_all_Inr_iff check_commit_Inr_iff
      check_layers_Inr_iff check_nodes_Inr_iff all_nodes_def list_all_iff Int_Un_distrib
      Int_commute)

lemma well_formed_no_panic: "IsDocumentWellFormed x vord rord vs d \<noteq> Inl Panic"
  by (auto simp: IsDocumentWellFormed_def go_bind_Panic_iff check_layers_no_panic
      check_nodes_no_panic go_all_no_panic check_commit_no_panic replica_descriptor_no_panic)

text \<open>
  \<open>IsDocumentWellFormed\<close> decides well-formedness. It never panics, and it accepts exactly the
  documents of the known version with a genesis epoch and prior shared randomness, where every commit
  is signed by a known verifier, is for the document's epoch and, unless it is the only one, is opened
  by a reveal that verifier signed; where no layer is empty, there are gateways and service nodes, all
  in their roles; where every descriptor is well formed; and where no two nodes in any role share an
  identity.
\<close>

lemma document_well_formed_iff:
  "IsDocumentWellFormed x vord rord vs d \<noteq> Inl Panic
   \<and> (IsDocumentWellFormed x vord rord vs d = Inr () \<longleftrightarrow>
        doc_Version d = DocumentVersion \<and> GenesisEpoch d \<noteq> 0
      \<and> \<not> (PriorSharedRandom d = [] \<and> GenesisEpoch d \<noteq> doc_Epoch d)
      \<and> list_all (commit_ok x vord rord vs d) (SharedRandomCommit d)
      \<and> Topology d \<noteq> [] \<and> list_all (\<lambda>l. l \<noteq> []) (Topology d)
      \<and> GatewayNodes d \<noteq> [] \<and> ServiceNodes d \<noteq> []
      \<and> list_all (\<lambda>n. IsDescriptorWellFormed x (doc_Epoch d) n = Inr ()) (all_nodes d)
      \<and> list_all IsGatewayNode (GatewayNodes d) \<and> list_all IsServiceNode (ServiceNodes d)
      \<and> distinct (map (md_hash x) (all_nodes d))
      \<and> list_all (\<lambda>r. IsReplicaDescriptorWellFormed x r = Inr ()) (StorageReplicas d))"
  using well_formed_no_panic [of x vord rord vs d] well_formed_Inr_iff [of x vord rord vs d]
  by (auto simp: list_all_iff)

section \<open>Look-ups\<close>

lemma descriptor_has_key: "IsDescriptorWellFormed x epoch n = Inr () \<Longrightarrow> IdentityKey n \<noteq> None"
  by (auto simp: IsDescriptorWellFormed_def split: if_splits)

lemma find_by_hash_eq:
  assumes "list_all (\<lambda>n. IdentityKey n \<noteq> None) vs"
  shows "find_by_hash x h vs = or_err nodeNotFound (List.find (\<lambda>v. md_hash x v = h) vs)"
  using assms by (induction vs) auto

lemma find_distinct:
  assumes "distinct (map f vs)" "v \<in> set vs"
  shows "List.find (\<lambda>w. f w = f v) vs = Some v"
  by (rule find_unique) (use assms in \<open>auto simp: distinct_map dest: inj_onD\<close>)

lemma find_absent: "h \<notin> f ` set vs \<Longrightarrow> List.find (\<lambda>w. f w = h) vs = None"
  by (auto simp: find_None_iff)

lemma find_layer_eq:
  assumes "distinct (map (md_hash x) (concat ls))" "i < length ls" "v \<in> set (ls ! i)"
  shows "find_layer x (md_hash x v) n ls = Inr (word_of_nat (n + i))"
  using assms
proof (induction ls arbitrary: n i)
  case (Cons l ls)
  show ?case
  proof (cases i)
    case 0
    with Cons.prems show ?thesis by auto
  next
    case (Suc j)
    then have v: "v \<in> set (ls ! j)" "j < length ls" using Cons.prems by auto
    then have "v \<in> set (concat ls)" by auto
    with Cons.prems(1) have "md_hash x v \<notin> md_hash x ` set l" by auto
    then have "\<not> (\<exists>w \<in> set l. md_hash x w = md_hash x v)" by (metis image_eqI)
    moreover have "find_layer x (md_hash x v) (Suc n) ls = Inr (word_of_nat (Suc n + j))"
      by (rule Cons.IH) (use Cons.prems(1) v in auto)
    ultimately show ?thesis by (simp add: Suc)
  qed
qed simp

text \<open>
  In a well-formed document the look-ups by identity hash agree: every node that is listed, in any
  role, is what \<open>GetNodeByKeyHash\<close> finds under its hash, and \<open>GetMixLayer\<close> tells a mix's layer
  (modulo 256) and the two marks of gateways and service nodes.
\<close>

theorem document_lookups:
  assumes wf: "IsDocumentWellFormed x vord rord vs d = Inr ()" and n: "n \<in> set (all_nodes d)"
  shows "GetNodeByKeyHash x d (md_hash x n) = Inr n
     \<and> (n \<in> set (GatewayNodes d) \<longrightarrow> GetMixLayer x d (md_hash x n) = Inr 255)
     \<and> (n \<in> set (ServiceNodes d) \<longrightarrow> GetMixLayer x d (md_hash x n) = Inr 254)
     \<and> (\<forall>i < length (Topology d). n \<in> set (Topology d ! i) \<longrightarrow>
          GetMixLayer x d (md_hash x n) = Inr (word_of_nat i))"
proof -
  let ?h = "md_hash x" and ?m = "concat (Topology d)" and ?g = "GatewayNodes d" and ?s = "ServiceNodes d"
  note w = wf [unfolded well_formed_Inr_iff]
  have "list_all (\<lambda>n. IsDescriptorWellFormed x (doc_Epoch d) n = Inr ()) (all_nodes d)" using w by blast
  then have "list_all (\<lambda>n. IdentityKey n \<noteq> None) (?m @ ?g @ ?s)"
    unfolding all_nodes_def by (rule list.pred_mono_strong) (rule descriptor_has_key)
  moreover have "distinct (map ?h (?m @ ?g @ ?s))" using w unfolding all_nodes_def by blast
  ultimately have keys: "list_all (\<lambda>n. IdentityKey n \<noteq> None) ?m" "list_all (\<lambda>n. IdentityKey n \<noteq> None) ?g"
      "list_all (\<lambda>n. IdentityKey n \<noteq> None) ?s"
    and dist: "distinct (map ?h ?m)" "distinct (map ?h ?g)" "distinct (map ?h ?s)"
    and disj: "?h ` set ?m \<inter> ?h ` set ?g = {}" "?h ` set ?m \<inter> ?h ` set ?s = {}"
      "?h ` set ?g \<inter> ?h ` set ?s = {}"
    by (auto simp: Int_Un_distrib simp del: set_concat)
  note find = find_by_hash_eq [OF keys(1)] find_by_hash_eq [OF keys(2)] find_by_hash_eq [OF keys(3)]
  note defs = GetNodeByKeyHash_def GetMixByKeyHash_def GetGatewayByKeyHash_def
    GetServiceNodeByKeyHash_def go_orelse_def find
  consider "n \<in> set ?m" | "n \<in> set ?g" | "n \<in> set ?s" using n by (auto simp: all_nodes_def)
  then have look: "GetNodeByKeyHash x d (?h n) = Inr n"
  proof cases
    case 1
    then show ?thesis by (simp add: defs find_distinct [OF dist(1)] del: set_concat)
  next
    case 2
    then have "?h n \<notin> ?h ` set ?m" using disj(1) by blast
    with 2 show ?thesis by (simp add: defs find_absent find_distinct [OF dist(2)] del: set_concat)
  next
    case 3
    then have "?h n \<notin> ?h ` set ?m" "?h n \<notin> ?h ` set ?g" using disj(2,3) by blast+
    with 3 show ?thesis by (simp add: defs find_absent find_distinct [OF dist(3)] del: set_concat)
  qed
  have layer: "GetMixLayer x d (?h n) = Inr (word_of_nat i)"
    if i: "i < length (Topology d)" "n \<in> set (Topology d ! i)" for i
  proof -
    have "n \<in> set ?m" using i by auto
    then have "?h n \<notin> ?h ` set ?g" "?h n \<notin> ?h ` set ?s" using disj(1,2) by blast+
    then have "\<not> (\<exists>p \<in> set ?g. ?h p = ?h n)" "\<not> (\<exists>p \<in> set ?s. ?h p = ?h n)" by (metis image_eqI)+
    then show ?thesis using find_layer_eq [OF dist(1) i, of 0] by (simp add: GetMixLayer_def)
  qed
  have "GetMixLayer x d (?h n) = Inr 254" if s: "n \<in> set ?s"
  proof -
    have "?h n \<notin> ?h ` set ?g" using disj(3) s by blast
    then have "\<not> (\<exists>p \<in> set ?g. ?h p = ?h n)" by (metis image_eqI)
    then show ?thesis using s by (auto simp: GetMixLayer_def LayerService_def)
  qed
  with look layer show ?thesis by (auto simp: GetMixLayer_def LayerGateway_def)
qed

section \<open>A document for the witnesses\<close>

definition demo_pki :: "(byte, byte) pki_env" where
  "demo_pki = \<lparr>certs = demo_cert_env, Sum256 = (\<lambda>b. take 32 (b @ replicate 32 0)),
     blake2b_256 = (\<lambda>b. take 32 (rev b @ replicate 32 0)),
     url_Parse = (\<lambda>_. Some (''tcp'', ''h:1'')), doc_Marshal = (\<lambda>_. None),
     doc_Unmarshal = (\<lambda>_ _. None), md_Marshal = (\<lambda>_. None), md_Unmarshal = (\<lambda>_. None),
     rd_Marshal = (\<lambda>_. None), rd_Unmarshal = (\<lambda>_. None)\<rparr>"

definition demo_node :: "byte \<Rightarrow> bool \<Rightarrow> bool \<Rightarrow> MixDescriptor" where
  "demo_node k gw svc = \<lparr>Name = ''node'', md_Epoch = 7, IdentityKey = Some [k], LinkKey = Some [k],
     MixKeys = [(7, Some [k])], Addresses = [(''tcp'', [''tcp://h:1''])], Kaetzchen = None,
     KaetzchenAdvertizedData = None, IsGatewayNode = gw, IsServiceNode = svc, LoadWeight = 0,
     AuthenticationType = [], md_Version = ''v0''\<rparr>"

definition demo_document :: Document where
  "demo_document = zero_document\<lparr>doc_Epoch := 7, GenesisEpoch := 7, doc_Version := DocumentVersion,
     Topology := [[demo_node 1 False False], [demo_node 2 False False]],
     GatewayNodes := [demo_node 3 True False], ServiceNodes := [demo_node 4 False True]\<rparr>"

lemma demo_host_port: "SplitHostPort_ok ''h:1''"
  by (simp add: SplitHostPort_ok_def)

lemma demo_node_ok: "IsDescriptorWellFormed demo_pki 7 (demo_node k gw svc) = Inr ()"
  by (simp add: IsDescriptorWellFormed_def demo_node_def maxNameLength_def check_addresses_def
      isDescriptorAddressWellFormed_def demo_pki_def demo_host_port validateKaetzchen_def)

lemma demo_node_hash: "md_hash demo_pki (demo_node k gw svc) = k # replicate 31 0"
  by (simp add: md_hash_def demo_node_def demo_pki_def raw_key_def take_Cons' numeral_eq_Suc)

lemma demo_document_ok: "IsDocumentWellFormed demo_pki vord rord [] demo_document = Inr ()"
proof -
  have "all_nodes demo_document = [demo_node 1 False False, demo_node 2 False False,
      demo_node 3 True False, demo_node 4 False True]"
    by (simp add: all_nodes_def demo_document_def)
  moreover have "IsGatewayNode (demo_node 3 True False)" "IsServiceNode (demo_node 4 False True)"
    by (simp_all add: demo_node_def)
  ultimately show ?thesis unfolding well_formed_Inr_iff
    by (simp add: demo_node_hash) (simp add: demo_document_def zero_document_def demo_node_ok)
qed

theorem document_lookups_witness:
  "GetNodeByKeyHash demo_pki demo_document (2 # replicate 31 0) = Inr (demo_node 2 False False)
   \<and> GetMixLayer demo_pki demo_document (2 # replicate 31 0) = Inr 1"
proof -
  have "demo_node 2 False False \<in> set (all_nodes demo_document)"
    by (simp add: all_nodes_def demo_document_def)
  note l = document_lookups [OF demo_document_ok [of id id] this, unfolded demo_node_hash]
  have "1 < length (Topology demo_document)" "demo_node 2 False False \<in> set (Topology demo_document ! 1)"
    by (simp_all add: demo_document_def)
  with l have "GetMixLayer demo_pki demo_document (2 # replicate 31 0) = Inr (word_of_nat 1)" by blast
  with l show ?thesis by simp
qed

end
