(* ===== verification/AuthorityState.thy ===== *)
theory AuthorityState
  imports PKIDocument EpochTime
begin

text \<open>
  The directory authority (authority/voting/server/state.go): its configuration tables, its state, and
  the handlers for what the peers upload.

  What never changes after \<open>newState\<close> is the record \<open>authority\<close>, together with the third-party
  functions the authority calls; what the handlers change is \<open>auth_state\<close>. A Go map from epochs is a
  function into options; the maps inside it are association lists, because documents carry them and
  loops visit them. The locks make every handler one step, except that a descriptor upload gives its
  lock up between three phases, which are definitions of their own. An error sent to \<open>fatalErrCh\<close>
  sets \<open>fatal\<close>; the server shuts down when it reads it. What the authority sends is appended to
  \<open>sent\<close>, and the background fetches it has started are in \<open>fetching\<close>.

  One alias matters: the authority's own certificate holds the state's maps of commits and reveals
  themselves, so a reveal that arrives later shows in the certificate. \<open>shared_commits\<close> and
  \<open>shared_reveals\<close> say for which epochs that is so, and \<open>refresh_own\<close> carries the change over.
\<close>

section \<open>Configuration\<close>

type_synonym key_hash = bytes

record Params =
  p_Mu :: float64
  p_LambdaP :: float64
  p_LambdaL :: float64
  p_LambdaM :: float64
  p_LambdaR :: float64

text \<open>A key that comes from a PEM file is \<open>None\<close> when reading the file fails.\<close>

record 'pub auth_cfg =
  cfg_Authorities :: "(string \<times> 'pub \<times> bytes) list"   \<comment> \<open>identifier, identity key, link key\<close>
  cfg_Mixes :: "(string \<times> 'pub option) list"
  cfg_GatewayNodes :: "(string \<times> 'pub option) list"
  cfg_ServiceNodes :: "(string \<times> 'pub option) list"
  cfg_StorageReplicas :: "(string \<times> 'pub option \<times> byte) list"
  cfg_Topology :: "'pub option list list option"
  cfg_Parameters :: Params
  cfg_PKISignatureScheme :: string
  cfg_Layers :: int
  cfg_MinNodesPerLayer :: int

record ('pub, 'priv) authority =
  pki :: "('pub, 'priv) pki_env"
  cfg :: "'pub auth_cfg"
  identityPrivateKey :: 'priv
  identityPublicKey :: 'pub
  geo_Hash :: bytes
  Period :: int
  verifiers :: "(key_hash \<times> 'pub) list"
  threshold :: int
  dissenters :: int
  reverseHash :: "(key_hash \<times> 'pub) list"
  authorizedMixes :: "(key_hash \<times> string) list"
  authorizedGatewayNodes :: "(key_hash \<times> string) list"
  authorizedServiceNodes :: "(key_hash \<times> string) list"
  authorizedReplicaNodes :: "(key_hash \<times> string \<times> byte) list"
  authorizedAuthorities :: "key_hash set"
  authorityLinkKeys :: "(key_hash \<times> bytes) list"
  authorityNames :: "(key_hash \<times> string) list"
  \<comment> \<open>third-party functions\<close>
  pub_Marshal :: "'pub \<Rightarrow> bytes option"
  pub_Unmarshal :: "bytes \<Rightarrow> 'pub option"
  sig_Marshal :: "Signature \<Rightarrow> bytes option"
  sig_Unmarshal :: "bytes \<Rightarrow> Signature option"
  gob_Encode :: "Params \<Rightarrow> bytes option"
  gob_Decode :: "bytes \<Rightarrow> Params option"
  det_Perm :: "bytes \<Rightarrow> nat list \<Rightarrow> nat \<Rightarrow> nat list"   \<comment> \<open>seed, sizes drawn before, size\<close>
  float_add :: "float64 \<Rightarrow> float64 \<Rightarrow> float64"
  float_LambdaG :: "nat \<Rightarrow> nat \<Rightarrow> float64 \<Rightarrow> float64"     \<comment> \<open>layer size, gateways, Mu\<close>

definition MixPublishDeadline :: "('pub, 'priv) authority \<Rightarrow> int" where
  "MixPublishDeadline x = Period x div 8"
definition AuthorityVoteDeadline :: "('pub, 'priv) authority \<Rightarrow> int" where
  "AuthorityVoteDeadline x = MixPublishDeadline x + Period x div 8"
definition AuthorityRevealDeadline :: "('pub, 'priv) authority \<Rightarrow> int" where
  "AuthorityRevealDeadline x = AuthorityVoteDeadline x + Period x div 8"
definition AuthorityCertDeadline :: "('pub, 'priv) authority \<Rightarrow> int" where
  "AuthorityCertDeadline x = AuthorityRevealDeadline x + Period x div 8"
definition PublishConsensusDeadline :: "('pub, 'priv) authority \<Rightarrow> int" where
  "PublishConsensusDeadline x = AuthorityCertDeadline x + Period x div 8"

section \<open>State\<close>

datatype phase =
    stateBootstrap | stateAcceptDescriptor | stateAcceptVote | stateAcceptReveal
  | stateAcceptCert | stateAcceptSignature

datatype outgoing =
    SendVote u64 bytes | SendReveal u64 bytes | SendCert u64 bytes | SendSig u64 bytes

type_synonym 'v slots = "u64 \<Rightarrow> (key_hash \<times> 'v) list option"

record auth_state =
  documents :: "u64 \<Rightarrow> Document option"
  myconsensus :: "u64 \<Rightarrow> Document option"
  descriptors :: "MixDescriptor slots"
  replicaDescriptors :: "ReplicaDescriptor slots"
  votes :: "Document slots"
  certificates :: "Document slots"
  signatures :: "Signature slots"
  reveals :: "bytes slots"
  commits :: "bytes slots"
  priorSRV :: "bytes list"
  cachedReplicaEnvelopeKeys :: "(byte \<times> (u64 \<times> bytes) list) list"
  votingEpoch :: u64
  genesisEpoch :: u64
  phase :: phase
  db_version :: bool
  db_documents :: "u64 \<Rightarrow> bytes option"
  db_descriptors :: "bytes slots"
  db_replicaDescriptors :: "bytes slots"
  shared_commits :: "u64 set"
  shared_reveals :: "u64 set"
  fatal :: bool
  fetching :: "u64 list"
  sent :: "outgoing list"

text \<open>A slot of a nested map, the map made on first use, and a write into it.\<close>

definition inner :: "'v slots \<Rightarrow> u64 \<Rightarrow> (key_hash \<times> 'v) list" where
  "inner m e = (case m e of None \<Rightarrow> [] | Some a \<Rightarrow> a)"

definition slot :: "'v slots \<Rightarrow> u64 \<Rightarrow> key_hash \<Rightarrow> 'v option" where
  "slot m e k = map_of (inner m e) k"

definition ensure :: "u64 \<Rightarrow> 'v slots \<Rightarrow> 'v slots" where
  "ensure e m = (case m e of None \<Rightarrow> m(e \<mapsto> []) | Some _ \<Rightarrow> m)"

definition put_slot :: "u64 \<Rightarrow> key_hash \<Rightarrow> 'v \<Rightarrow> 'v slots \<Rightarrow> 'v slots" where
  "put_slot e k v m = m(e \<mapsto> AList.update k v (inner m e))"

definition Sum256_of :: "('pub, 'priv) authority \<Rightarrow> 'pub \<Rightarrow> key_hash" where
  "Sum256_of x k = Sum256From (certs (pki x)) k"

definition identityPubKeyHash :: "('pub, 'priv) authority \<Rightarrow> key_hash" where
  "identityPubKeyHash x = Sum256_of x (identityPublicKey x)"

definition refresh_own :: "('pub, 'priv) authority \<Rightarrow> u64 \<Rightarrow> auth_state \<Rightarrow> auth_state" where
  "refresh_own x e s =
     (case slot (certificates s) e (identityPubKeyHash x) of None \<Rightarrow> s
      | Some c \<Rightarrow> s\<lparr>certificates := put_slot e (identityPubKeyHash x)
          (c\<lparr>SharedRandomCommit := (if e \<in> shared_commits s then inner (commits s) e else SharedRandomCommit c),
             SharedRandomReveal := (if e \<in> shared_reveals s then inner (reveals s) e else SharedRandomReveal c)\<rparr>)
          (certificates s)\<rparr>)"

section \<open>Creation\<close>

text \<open>Loading a list of configured nodes into a table and into \<open>reverseHash\<close>.\<close>

fun load_nodes ::
  "('pub \<Rightarrow> key_hash) \<Rightarrow> ('a \<Rightarrow> 'v) \<Rightarrow> ('a \<times> 'pub option) list \<Rightarrow> (key_hash \<times> 'v) list \<times> (key_hash \<times> 'pub) list
     \<Rightarrow> (unit, (key_hash \<times> 'v) list \<times> (key_hash \<times> 'pub) list) go" where
  "load_nodes h val [] st = Inr st"
| "load_nodes h val ((v, key) # vs) (table, rev_hash) =
     go_bind (or_panic key) (\<lambda>k.
       load_nodes h val vs (AList.update (h k) (val v) table, AList.update (h k) k rev_hash))"

fun load_authorities ::
  "('pub, 'priv) authority \<Rightarrow> (string \<times> 'pub \<times> bytes) list \<Rightarrow> ('pub, 'priv) authority" where
  "load_authorities x [] = x"
| "load_authorities x ((name, key, link) # as) =
     (let pk = Sum256_of x key in
      load_authorities
        (x\<lparr>authorizedAuthorities := insert pk (authorizedAuthorities x),
           authorityLinkKeys := AList.update pk link (authorityLinkKeys x),
           reverseHash := AList.update pk key (reverseHash x),
           authorityNames := AList.update pk name (authorityNames x)\<rparr>) as)"

definition load_verifiers :: "('pub, 'priv) authority \<Rightarrow> (key_hash \<times> 'pub) list" where
  "load_verifiers x = AList.update (identityPubKeyHash x) (identityPublicKey x)
     (fold (\<lambda>(_, key, _). AList.update (Sum256_of x key) key) (cfg_Authorities (cfg x)) [])"

text \<open>The tables; a key file that cannot be read panics.\<close>

definition load_tables :: "('pub, 'priv) authority \<Rightarrow> (unit, ('pub, 'priv) authority) go" where
  "load_tables x =
     (let c = cfg x; h = Sum256_of x; vs = load_verifiers x in
      go_bind (load_nodes h id (cfg_Mixes c) ([], [])) (\<lambda>(mixes, rh).
      go_bind (load_nodes h id (cfg_GatewayNodes c) ([], rh)) (\<lambda>(gateways, rh).
      go_bind (load_nodes h id (cfg_ServiceNodes c) ([], rh)) (\<lambda>(services, rh).
      go_bind (load_nodes h id (map (\<lambda>(n, k, i). ((n, i), k)) (cfg_StorageReplicas c)) ([], rh)) (\<lambda>(replicas, rh).
        let y = load_authorities
          (x\<lparr>verifiers := vs, threshold := int (length vs) div 2 + 1,
             dissenters := int (length (cfg_Authorities c)) div 2 - 1,
             reverseHash := rh, authorizedMixes := mixes, authorizedGatewayNodes := gateways,
             authorizedServiceNodes := services, authorizedReplicaNodes := replicas,
             authorizedAuthorities := {}, authorityLinkKeys := [], authorityNames := []\<rparr>) (cfg_Authorities c)
        in Inr (y\<lparr>reverseHash := AList.update (identityPubKeyHash y) (identityPublicKey y) (reverseHash y)\<rparr>))))))"

section \<open>Authorisation\<close>

datatype auth_err = notPinned | nameMismatch | replicaIDMismatch | contradictoryFlags

definition replicaAuthorizationError ::
  "('pub, 'priv) authority \<Rightarrow> ReplicaDescriptor \<Rightarrow> auth_err option" where
  "replicaAuthorizationError x desc =
     (case map_of (authorizedReplicaNodes x) (rd_hash (pki x) desc) of
        None \<Rightarrow> Some notPinned
      | Some (name, i) \<Rightarrow>
          if name \<noteq> rd_Name desc then Some nameMismatch
          else if i \<noteq> ReplicaID desc then Some replicaIDMismatch else None)"

definition isReplicaDescriptorAuthorized :: "('pub, 'priv) authority \<Rightarrow> ReplicaDescriptor \<Rightarrow> bool" where
  "isReplicaDescriptorAuthorized x desc \<longleftrightarrow> replicaAuthorizationError x desc = None"

definition descriptorAuthorizationError ::
  "('pub, 'priv) authority \<Rightarrow> MixDescriptor \<Rightarrow> auth_err option" where
  "descriptorAuthorizationError x desc =
     (let pk = md_hash (pki x) desc;
          check = (\<lambda>authorized. case map_of authorized pk of
            None \<Rightarrow> Some notPinned
          | Some pinned \<Rightarrow> if pinned \<noteq> Name desc then Some nameMismatch else None)
      in if IsGatewayNode desc \<and> \<not> IsServiceNode desc then check (authorizedGatewayNodes x)
         else if IsServiceNode desc \<and> \<not> IsGatewayNode desc then check (authorizedServiceNodes x)
         else if \<not> IsGatewayNode desc \<and> \<not> IsServiceNode desc then check (authorizedMixes x)
         else Some contradictoryFlags)"

definition isDescriptorAuthorized :: "('pub, 'priv) authority \<Rightarrow> MixDescriptor \<Rightarrow> bool" where
  "isDescriptorAuthorized x desc \<longleftrightarrow> descriptorAuthorizationError x desc = None"

definition PeerName :: "('pub, 'priv) authority \<Rightarrow> bytes \<Rightarrow> string" where
  "PeerName x pk =
     (if length pk \<noteq> 32 then ''''
      else case map_of (authorizedMixes x) pk of Some name \<Rightarrow> name | None \<Rightarrow>
        (case map_of (authorizedGatewayNodes x) pk of Some name \<Rightarrow> name | None \<Rightarrow>
        (case map_of (authorizedServiceNodes x) pk of Some name \<Rightarrow> name | None \<Rightarrow>
        (case map_of (authorizedReplicaNodes x) pk of Some (name, _) \<Rightarrow> name | None \<Rightarrow>
        (case map_of (authorityNames x) pk of Some name \<Rightarrow> name | None \<Rightarrow> '''')))))"

end
