(* ===== verification/AuthorityUploads.thy ===== *)
theory AuthorityUploads
  imports AuthorityState
begin

text \<open>
  The handlers of the directory authority for votes, reveals, certificates, signatures and
  descriptors, and the requests for documents (authority/voting/server/state.go, wire_handler.go).
\<close>

section \<open>Status codes (core/wire/commands/constants.go)\<close>

definition ConsensusOk :: byte where "ConsensusOk = 0"
definition ConsensusNotFound :: byte where "ConsensusNotFound = 1"
definition ConsensusGone :: byte where "ConsensusGone = 2"
definition DescriptorOk :: byte where "DescriptorOk = 0"
definition DescriptorInvalid :: byte where "DescriptorInvalid = 1"
definition DescriptorConflict :: byte where "DescriptorConflict = 2"
definition DescriptorForbidden :: byte where "DescriptorForbidden = 3"
definition VoteOk :: byte where "VoteOk = 0"
definition VoteTooLate :: byte where "VoteTooLate = 1"
definition VoteTooEarly :: byte where "VoteTooEarly = 2"
definition VoteNotAuthorized :: byte where "VoteNotAuthorized = 3"
definition VoteNotSigned :: byte where "VoteNotSigned = 4"
definition VoteMalformed :: byte where "VoteMalformed = 5"
definition VoteAlreadyReceived :: byte where "VoteAlreadyReceived = 6"
definition RevealOk :: byte where "RevealOk = 8"
definition RevealTooEarly :: byte where "RevealTooEarly = 9"
definition RevealNotAuthorized :: byte where "RevealNotAuthorized = 10"
definition RevealNotSigned :: byte where "RevealNotSigned = 11"
definition RevealAlreadyReceived :: byte where "RevealAlreadyReceived = 12"
definition RevealTooLate :: byte where "RevealTooLate = 13"
definition CertOk :: byte where "CertOk = 14"
definition CertTooEarly :: byte where "CertTooEarly = 15"
definition CertNotAuthorized :: byte where "CertNotAuthorized = 16"
definition CertNotSigned :: byte where "CertNotSigned = 17"
definition CertAlreadyReceived :: byte where "CertAlreadyReceived = 18"
definition CertTooLate :: byte where "CertTooLate = 19"
definition SigOk :: byte where "SigOk = 20"
definition SigNotAuthorized :: byte where "SigNotAuthorized = 21"
definition SigNotSigned :: byte where "SigNotSigned = 22"
definition SigTooEarly :: byte where "SigTooEarly = 23"
definition SigTooLate :: byte where "SigTooLate = 24"
definition SigAlreadyReceived :: byte where "SigAlreadyReceived = 25"
definition SigInvalid :: byte where "SigInvalid = 26"

lemmas vote_codes = VoteOk_def VoteTooLate_def VoteTooEarly_def VoteNotAuthorized_def
  VoteNotSigned_def VoteMalformed_def VoteAlreadyReceived_def
lemmas reveal_codes = RevealOk_def RevealTooEarly_def RevealNotAuthorized_def RevealNotSigned_def
  RevealAlreadyReceived_def RevealTooLate_def
lemmas cert_codes = CertOk_def CertTooEarly_def CertNotAuthorized_def CertNotSigned_def
  CertAlreadyReceived_def CertTooLate_def
lemmas sig_codes = SigOk_def SigNotAuthorized_def SigNotSigned_def SigTooEarly_def SigTooLate_def
  SigAlreadyReceived_def SigInvalid_def

section \<open>Uploads of the other authorities\<close>

text \<open>The commands Vote, Cert, Reveal and Sig all have these fields.\<close>

record 'pub upload =
  up_Epoch :: u64
  up_PublicKey :: 'pub
  up_Payload :: bytes

definition sender :: "('pub, 'priv) authority \<Rightarrow> 'pub upload \<Rightarrow> key_hash" where
  "sender x u = Sum256_of x (up_PublicKey u)"

definition onCertUpload ::
  "('pub, 'priv) authority \<Rightarrow> map_order \<Rightarrow> map_order \<Rightarrow> auth_state \<Rightarrow> 'pub upload \<Rightarrow> auth_state \<times> byte" where
  "onCertUpload x vord pord s u =
     (let pk = sender x u; e = votingEpoch s in
      if pk \<notin> authorizedAuthorities x then (s, CertNotAuthorized)
      else if up_Epoch u < e then (s, CertTooEarly)
      else if up_Epoch u > e then (s, CertTooLate)
      else case Verify (certs (pki x)) vord (up_PublicKey u) (up_Payload u) of
        Inl _ \<Rightarrow> (s, CertNotSigned)
      | Inr _ \<Rightarrow>
         (case ParseDocument (pki x) pord (up_Payload u) of
            Inl _ \<Rightarrow> (s, CertNotSigned)
          | Inr doc \<Rightarrow>
             if slot (votes s) e pk = None then (s, CertTooEarly)
             else let s = s\<lparr>certificates := ensure e (certificates s)\<rparr> in
               if slot (certificates s) e pk \<noteq> None then (s, CertAlreadyReceived)
               else (s\<lparr>certificates := put_slot e pk doc (certificates s)\<rparr>, CertOk)))"

text \<open>The one handler that can panic: it slices the signed data before checking its length.\<close>

definition onRevealUpload ::
  "('pub, 'priv) authority \<Rightarrow> map_order \<Rightarrow> auth_state \<Rightarrow> 'pub upload \<Rightarrow> (unit, auth_state \<times> byte) go" where
  "onRevealUpload x vord s u =
     (let pk = sender x u; ve = votingEpoch s in
      if pk \<notin> authorizedAuthorities x then Inr (s, RevealNotAuthorized)
      else case Verify (certs (pki x)) vord (up_PublicKey u) (up_Payload u) of
        Inl _ \<Rightarrow> Inr (s, RevealNotSigned)
      | Inr certified \<Rightarrow>
         go_bind (go_slice certified 0 8) (\<lambda>b. go_bind (get64 b) (\<lambda>e.
         if e < ve then Inr (s, RevealTooLate)
         else if e > ve then Inr (s, RevealTooEarly)
         else if commits s ve = None then Inr (s, RevealTooEarly)
         else if slot (commits s) ve pk = None then Inr (s, RevealTooEarly)
         else let s = s\<lparr>reveals := ensure ve (reveals s)\<rparr> in
           if slot (reveals s) ve pk \<noteq> None then Inr (s, RevealAlreadyReceived)
           else Inr (refresh_own x ve (s\<lparr>reveals := put_slot ve pk (up_Payload u) (reveals s)\<rparr>), RevealOk))))"

definition onVoteUpload ::
  "('pub, 'priv) authority \<Rightarrow> map_order \<Rightarrow> map_order \<Rightarrow> auth_state \<Rightarrow> 'pub upload \<Rightarrow> auth_state \<times> byte" where
  "onVoteUpload x vord pord s u =
     (let pk = sender x u; e = votingEpoch s in
      if pk \<notin> authorizedAuthorities x then (s, VoteNotAuthorized)
      else if up_Epoch u < e then (s, VoteTooEarly)
      else if up_Epoch u > e then (s, VoteTooLate)
      else let s = s\<lparr>votes := ensure e (votes s), commits := ensure e (commits s)\<rparr> in
        if slot (votes s) e pk \<noteq> None then (s, VoteAlreadyReceived)
        else case Verify (certs (pki x)) vord (up_PublicKey u) (up_Payload u) of
          Inl _ \<Rightarrow> (s, VoteNotSigned)
        | Inr _ \<Rightarrow>
           (case ParseDocument (pki x) pord (up_Payload u) of
              Inl _ \<Rightarrow> (s, VoteNotSigned)
            | Inr doc \<Rightarrow>
               if doc_Epoch doc \<noteq> e then (s, VoteMalformed)
               else case map_of (SharedRandomCommit doc) pk of
                 None \<Rightarrow> (s, VoteMalformed)
               | Some commit \<Rightarrow>
                   (refresh_own x e (s\<lparr>votes := put_slot e pk doc (votes s),
                      commits := put_slot e pk commit (commits s)\<rparr>), VoteOk)))"

definition dupSig :: "('pub, 'priv) authority \<Rightarrow> auth_state \<Rightarrow> 'pub upload \<Rightarrow> bool" where
  "dupSig x s u \<longleftrightarrow> slot (signatures s) (votingEpoch s) (sender x u) \<noteq> None"

definition dupVote :: "('pub, 'priv) authority \<Rightarrow> auth_state \<Rightarrow> 'pub upload \<Rightarrow> bool" where
  "dupVote x s u \<longleftrightarrow> slot (votes s) (votingEpoch s) (sender x u) \<noteq> None"

definition onSigUpload ::
  "('pub, 'priv) authority \<Rightarrow> map_order \<Rightarrow> auth_state \<Rightarrow> 'pub upload \<Rightarrow> auth_state \<times> byte" where
  "onSigUpload x vord s u =
     (let pk = sender x u; e = votingEpoch s in
      if pk \<notin> authorizedAuthorities x then (s, SigNotAuthorized)
      else if up_Epoch u < e then (s, SigTooEarly)
      else if up_Epoch u > e then (s, SigTooLate)
      else case Verify (certs (pki x)) vord (up_PublicKey u) (up_Payload u) of
        Inl _ \<Rightarrow> (s, SigNotSigned)
      | Inr verified \<Rightarrow>
          let s = s\<lparr>signatures := ensure e (signatures s)\<rparr> in
          if dupSig x s u then (s, SigAlreadyReceived)
          else case sig_Unmarshal x verified of
            None \<Rightarrow> (s, SigInvalid)
          | Some csig \<Rightarrow> (s\<lparr>signatures := put_slot e pk csig (signatures s)\<rparr>, SigOk))"

section \<open>Descriptors\<close>

datatype upload_err = marshalError | conflictingDescriptor | lateUpload | persistError

text \<open>
  Phase 1, under the read lock, decides between an error, nothing to do (\<open>False\<close>) and going on.
  \<open>hmac.Equal\<close> compares byte slices.
\<close>

definition descriptor_phase1 ::
  "('d \<Rightarrow> bytes option) \<Rightarrow> 'd slots \<Rightarrow> (u64 \<Rightarrow> Document option) \<Rightarrow> key_hash \<Rightarrow> bytes \<Rightarrow> u64
     \<Rightarrow> (upload_err, bool) go" where
  "descriptor_phase1 marshal m docs pk rawDesc epoch =
     (case slot m epoch pk of
        Some d \<Rightarrow> go_bind (or_err marshalError (marshal d)) (\<lambda>serialized.
          if serialized \<noteq> rawDesc then Inl (Err conflictingDescriptor) else Inr False)
      | None \<Rightarrow> if docs epoch \<noteq> None then Inl (Err lateUpload) else Inr True)"

text \<open>Phase 3, under the write lock: the first one to come is stored.\<close>

definition descriptor_phase3 :: "u64 \<Rightarrow> key_hash \<Rightarrow> 'd \<Rightarrow> 'd slots \<Rightarrow> 'd slots" where
  "descriptor_phase3 epoch pk desc m =
     (let m = ensure epoch m in
      if slot m epoch pk \<noteq> None then m else put_slot epoch pk desc m)"

text \<open>\<open>db_ok\<close> says whether the transaction of phase 2 succeeds; the three phases without interference.\<close>

definition onDescriptorUpload ::
  "('pub, 'priv) authority \<Rightarrow> bool \<Rightarrow> auth_state \<Rightarrow> bytes \<Rightarrow> MixDescriptor \<Rightarrow> u64
     \<Rightarrow> auth_state \<times> (upload_err, unit) go" where
  "onDescriptorUpload x db_ok s rawDesc desc epoch =
     (let pk = md_hash (pki x) desc in
      case descriptor_phase1 (md_Marshal (pki x)) (descriptors s) (documents s) pk rawDesc epoch of
        Inl e \<Rightarrow> (s, Inl e)
      | Inr proceed \<Rightarrow>
         if \<not> proceed then (s, Inr ())
         else if \<not> db_ok then (s\<lparr>fatal := True\<rparr>, Inl (Err persistError))
         else let s = s\<lparr>db_descriptors := put_slot epoch pk rawDesc (db_descriptors s)\<rparr> in
           (s\<lparr>descriptors := descriptor_phase3 epoch pk desc (descriptors s)\<rparr>, Inr ()))"

definition onReplicaDescriptorUpload ::
  "('pub, 'priv) authority \<Rightarrow> bool \<Rightarrow> auth_state \<Rightarrow> bytes \<Rightarrow> ReplicaDescriptor \<Rightarrow> u64
     \<Rightarrow> auth_state \<times> (upload_err, unit) go" where
  "onReplicaDescriptorUpload x db_ok s rawDesc desc epoch =
     (let pk = rd_hash (pki x) desc in
      case descriptor_phase1 (rd_Marshal (pki x)) (replicaDescriptors s) (documents s) pk rawDesc epoch of
        Inl e \<Rightarrow> (s, Inl e)
      | Inr proceed \<Rightarrow>
         if \<not> proceed then (s, Inr ())
         else if \<not> db_ok then (s\<lparr>fatal := True\<rparr>, Inl (Err persistError))
         else let s = s\<lparr>db_replicaDescriptors := put_slot epoch pk rawDesc (db_replicaDescriptors s)\<rparr> in
           (s\<lparr>replicaDescriptors := descriptor_phase3 epoch pk desc (replicaDescriptors s)\<rparr>, Inr ()))"

section \<open>The posts that carry the descriptors (core/pki/descriptor.go, wire_handler.go)\<close>

text \<open>Loop statistics are opaque bytes.\<close>

record 'd signed_upload =
  su_Signature :: "Signature option"
  su_Descriptor :: "'d option"
  su_LoopStats :: bytes

definition SignedUpload_Sign ::
  "('pub, 'priv) cert_env \<Rightarrow> ('d signed_upload \<Rightarrow> bytes option) \<Rightarrow> 'priv \<Rightarrow> 'pub \<Rightarrow> 'd signed_upload
     \<Rightarrow> (unit, 'd signed_upload) go" where
  "SignedUpload_Sign x marshal privKey pubKey s =
     (if su_Signature s \<noteq> None then Inl (Err ())
      else go_bind (or_err () (marshal s)) (\<lambda>blob.
        Inr (s\<lparr>su_Signature := Some \<lparr>PublicKeySum256 = Sum256From x pubKey,
                                     Payload = SchemeSign x privKey blob\<rparr>\<rparr>)))"

text \<open>The signature is a pointer that the caller has not checked.\<close>

definition SignedUpload_Verify ::
  "('pub, 'priv) cert_env \<Rightarrow> ('d signed_upload \<Rightarrow> bytes option) \<Rightarrow> 'd signed_upload \<Rightarrow> 'pub \<Rightarrow> (unit, bool) go" where
  "SignedUpload_Verify x marshal s pubKey =
     (case marshal (s\<lparr>su_Signature := None\<rparr>) of
        None \<Rightarrow> Inr False
      | Some blob \<Rightarrow> go_bind (deref (su_Signature s)) (\<lambda>sig. Inr (SchemeVerify x pubKey blob (Payload sig))))"

text \<open>
  The two posts differ in their descriptors only: \<open>marshal\<close> and \<open>unmarshal\<close> are the CBOR of the
  upload, \<open>ident\<close> its identity key, \<open>forbidden\<close> and \<open>malformed\<close> the two checks, \<open>store\<close> the handler of
  the state. \<open>now\<close> is the current epoch.
\<close>

definition post_upload ::
  "('pub, 'priv) authority \<Rightarrow> ('d signed_upload \<Rightarrow> bytes option) \<Rightarrow> (bytes \<Rightarrow> 'd signed_upload option)
     \<Rightarrow> ('d \<Rightarrow> bytes option) \<Rightarrow> ('d \<Rightarrow> bool) \<Rightarrow> ('d \<Rightarrow> bool)
     \<Rightarrow> (auth_state \<Rightarrow> bytes \<Rightarrow> 'd \<Rightarrow> u64 \<Rightarrow> auth_state \<times> (upload_err, unit) go)
     \<Rightarrow> u64 \<Rightarrow> auth_state \<Rightarrow> u64 \<Rightarrow> bytes \<Rightarrow> bytes \<Rightarrow> (unit, auth_state \<times> byte) go" where
  "post_upload x marshal unmarshal ident forbidden malformed store now s epoch payload pubKeyHash =
     (if epoch \<notin> {now - 1, now, now + 1} then Inr (s, DescriptorInvalid)
      else case unmarshal payload of
        None \<Rightarrow> Inr (s, DescriptorInvalid)
      | Some signedUpload \<Rightarrow>
         (case su_Descriptor signedUpload of
            None \<Rightarrow> Inr (s, DescriptorInvalid)
          | Some desc \<Rightarrow>
             if Sum256 (pki x) (raw_key (ident desc)) \<noteq> pubKeyHash then Inr (s, DescriptorForbidden)
             else case pub_Unmarshal x (raw_key (ident desc)) of
               None \<Rightarrow> Inr (s, DescriptorForbidden)
             | Some descIdPubKey \<Rightarrow>
                 go_bind (SignedUpload_Verify (certs (pki x)) marshal signedUpload descIdPubKey) (\<lambda>ok.
                 if \<not> ok then Inr (s, DescriptorForbidden)
                 else if forbidden desc then Inr (s, DescriptorForbidden)
                 else if malformed desc then Inr (s, DescriptorInvalid)
                 else let (s, r) = store s payload desc epoch in
                   case r of Inl Panic \<Rightarrow> Inl Panic
                   | Inl (Err _) \<Rightarrow> Inr (s, DescriptorConflict)
                   | Inr _ \<Rightarrow> Inr (s, DescriptorOk))))"

definition onPostDescriptor ::
  "('pub, 'priv) authority \<Rightarrow> (MixDescriptor signed_upload \<Rightarrow> bytes option)
     \<Rightarrow> (bytes \<Rightarrow> MixDescriptor signed_upload option) \<Rightarrow> bool \<Rightarrow> u64 \<Rightarrow> auth_state \<Rightarrow> u64 \<Rightarrow> bytes \<Rightarrow> bytes
     \<Rightarrow> (unit, auth_state \<times> byte) go" where
  "onPostDescriptor x marshal unmarshal db_ok now s epoch payload pubKeyHash =
     post_upload x marshal unmarshal IdentityKey
       (\<lambda>d. descriptorAuthorizationError x d \<noteq> None)
       (\<lambda>d. IsDescriptorWellFormed (pki x) epoch d \<noteq> Inr ())
       (onDescriptorUpload x db_ok) now s epoch payload pubKeyHash"

definition onPostReplicaDescriptor ::
  "('pub, 'priv) authority \<Rightarrow> (ReplicaDescriptor signed_upload \<Rightarrow> bytes option)
     \<Rightarrow> (bytes \<Rightarrow> ReplicaDescriptor signed_upload option) \<Rightarrow> bool \<Rightarrow> u64 \<Rightarrow> auth_state \<Rightarrow> u64 \<Rightarrow> bytes \<Rightarrow> bytes
     \<Rightarrow> (unit, auth_state \<times> byte) go" where
  "onPostReplicaDescriptor x marshal unmarshal db_ok now s epoch payload pubKeyHash =
     post_upload x marshal unmarshal rd_IdentityKey
       (\<lambda>d. replicaAuthorizationError x d \<noteq> None)
       (\<lambda>d. IsReplicaDescriptorWellFormed (pki x) d \<noteq> Inr ())
       (onReplicaDescriptorUpload x db_ok) now s epoch payload pubKeyHash"

section \<open>Serving documents\<close>

datatype serve_err = errGone | errNotYet | invalidEpochRequest | serveMarshalError doc_err

text \<open>\<open>now\<close> and \<open>elapsed\<close> are the clock's; the cases of the switch are tried in order.\<close>

definition documentForEpoch ::
  "('pub, 'priv) authority \<Rightarrow> u64 \<Rightarrow> int \<Rightarrow> auth_state \<Rightarrow> u64 \<Rightarrow> (serve_err, bytes) go" where
  "documentForEpoch x now elapsed s epoch =
     (case documents s epoch of
        Some d \<Rightarrow> (case MarshalCertificate (pki x) d of Inr b \<Rightarrow> Inr b
                  | Inl Panic \<Rightarrow> Inl Panic | Inl (Err e) \<Rightarrow> Inl (Err (serveMarshalError e)))
      | None \<Rightarrow>
         if epoch = now then Inl (Err errGone)
         else if epoch = now + 1
         then (if elapsed > 7 * (Period x div 8) then Inl (Err errGone) else Inl (Err errNotYet))
         else if epoch < now then Inl (Err errGone)
         else Inl (Err invalidEpochRequest))"

definition onGetConsensus ::
  "('pub, 'priv) authority \<Rightarrow> u64 \<Rightarrow> int \<Rightarrow> auth_state \<Rightarrow> u64 \<Rightarrow> (unit, byte \<times> bytes) go" where
  "onGetConsensus x now elapsed s epoch =
     (case documentForEpoch x now elapsed s epoch of
        Inr doc \<Rightarrow> Inr (ConsensusOk, doc)
      | Inl Panic \<Rightarrow> Inl Panic
      | Inl (Err errGone) \<Rightarrow> Inr (ConsensusGone, [])
      | Inl (Err _) \<Rightarrow> Inr (ConsensusNotFound, []))"

section \<open>Who a peer is, and the phase a connection meets\<close>

datatype peer_role = isClient | isMix | isAuthority | isReplica

definition IsPeerValid ::
  "('pub, 'priv) authority \<Rightarrow> bytes \<Rightarrow> bytes option \<Rightarrow> peer_role option" where
  "IsPeerValid x ad linkKey =
     (if ad = [] then Some isClient
      else if length ad \<noteq> 32 then None
      else if map_of (authorizedMixes x) ad \<noteq> None \<or> map_of (authorizedGatewayNodes x) ad \<noteq> None
              \<or> map_of (authorizedServiceNodes x) ad \<noteq> None then Some isMix
      else if ad \<in> authorizedAuthorities x then
        (case map_of (authorityLinkKeys x) ad of
           None \<Rightarrow> None
         | Some k \<Rightarrow> (case linkKey of None \<Rightarrow> None | Some k' \<Rightarrow> if k = k' then Some isAuthority else None))
      else if map_of (authorizedReplicaNodes x) ad \<noteq> None then Some isReplica
      else None)"

definition phase_limit :: "('pub, 'priv) authority \<Rightarrow> phase \<Rightarrow> int" where
  "phase_limit x p = (case p of
      stateBootstrap \<Rightarrow> MixPublishDeadline x
    | stateAcceptDescriptor \<Rightarrow> MixPublishDeadline x
    | stateAcceptVote \<Rightarrow> AuthorityVoteDeadline x
    | stateAcceptReveal \<Rightarrow> AuthorityRevealDeadline x
    | stateAcceptCert \<Rightarrow> AuthorityCertDeadline x
    | stateAcceptSignature \<Rightarrow> PublishConsensusDeadline x)"

definition PhaseInfo :: "('pub, 'priv) authority \<Rightarrow> int \<Rightarrow> auth_state \<Rightarrow> phase \<times> int" where
  "PhaseInfo x elapsed s = (phase s, max 0 (phase_limit x (phase s) - elapsed))"

text \<open>What is left until a deadline, less five seconds if there is more than that.\<close>

definition phaseDeadline_remaining :: "int \<Rightarrow> int \<Rightarrow> int" where
  "phaseDeadline_remaining targetDeadline elapsed =
     (let remaining = max 0 (targetDeadline - elapsed); buffer = 5 * 10 ^ 9
      in if remaining > buffer then remaining - buffer else remaining)"

section \<open>Pruning\<close>

definition prune :: "u64 \<Rightarrow> (u64 \<Rightarrow> 'v option) \<Rightarrow> u64 \<Rightarrow> 'v option" where
  "prune cmpEpoch m = (\<lambda>e. if e < cmpEpoch then None else m e)"

definition prunePersistedEpochs :: "u64 \<Rightarrow> auth_state \<Rightarrow> auth_state" where
  "prunePersistedEpochs c s =
     s\<lparr>db_descriptors := prune c (db_descriptors s),
       db_replicaDescriptors := prune c (db_replicaDescriptors s),
       db_documents := prune c (db_documents s)\<rparr>"

text \<open>The subtraction wraps; a failed transaction leaves the database as it was.\<close>

definition pruneDocuments :: "u64 \<Rightarrow> bool \<Rightarrow> auth_state \<Rightarrow> auth_state" where
  "pruneDocuments now db_ok s =
     (let c = now - 3;
          s = s\<lparr>documents := prune c (documents s), descriptors := prune c (descriptors s),
                votes := prune c (votes s), certificates := prune c (certificates s),
                myconsensus := prune c (myconsensus s), reveals := prune c (reveals s),
                commits := prune c (commits s), signatures := prune c (signatures s),
                replicaDescriptors := prune c (replicaDescriptors s)\<rparr>
      in if db_ok then prunePersistedEpochs c s else s)"

end
