(* ===== verification/AuthorityTally.thy ===== *)
theory AuthorityTally
  imports AuthorityUploads "HOL-Library.List_Lexorder"
begin

text \<open>
  How the directory authority makes documents (authority/voting/server/state.go): the topology, the
  vote, the tally of the votes, the certificate with the commits and reveals, the shared random value,
  this authority's consensus and the consensus of a threshold of authorities.

  A loop over a Go map visits it in an order of its own: the orders a round of the protocol meets are
  collected in the record \<open>orders\<close>. \<open>sort.Slice\<close> is not stable; sorting after an arbitrary reordering
  gives every result it can give. Seeds have 32 bytes wherever the code makes a deterministic
  generator, so making one does not fail. Times are arguments.
\<close>

record 'pub orders =
  o_mixes :: "(key_hash \<times> MixDescriptor) list \<Rightarrow> (key_hash \<times> MixDescriptor) list"
  o_replicas :: "(key_hash \<times> ReplicaDescriptor) list \<Rightarrow> (key_hash \<times> ReplicaDescriptor) list"
  o_votes :: "(key_hash \<times> Document) list \<Rightarrow> (key_hash \<times> Document) list"
  o_certs :: "(key_hash \<times> Document) list \<Rightarrow> (key_hash \<times> Document) list"
  o_commits :: "key_hash \<Rightarrow> (key_hash \<times> bytes) list \<Rightarrow> (key_hash \<times> bytes) list"
  o_reveals :: "(key_hash \<times> bytes) list \<Rightarrow> (key_hash \<times> bytes) list"
  o_mixTally :: "(bytes \<times> nat) list \<Rightarrow> (bytes \<times> nat) list"
  o_replicaTally :: "(bytes \<times> nat) list \<Rightarrow> (bytes \<times> nat) list"
  o_mixParams :: "(bytes \<times> nat) list \<Rightarrow> (bytes \<times> nat) list"
  o_nodeMap :: "(key_hash \<times> MixDescriptor) list \<Rightarrow> (key_hash \<times> MixDescriptor) list"
  o_authorizedReplicas :: "(key_hash \<times> string \<times> byte) list \<Rightarrow> (key_hash \<times> string \<times> byte) list"
  o_signatures :: "(key_hash \<times> Signature) list \<Rightarrow> (key_hash \<times> Signature) list"
  o_verifiers :: "(key_hash \<times> 'pub) list \<Rightarrow> (key_hash \<times> 'pub) list"
  o_good :: "(bytes \<times> 'pub) list \<Rightarrow> (bytes \<times> 'pub) list"
  o_sign :: map_order
  o_verify :: "key_hash \<Rightarrow> key_hash \<Rightarrow> bool \<Rightarrow> map_order"   \<comment> \<open>certificate, commit, is it the reveal\<close>
  o_threshold :: "nat \<Rightarrow> map_order"
  o_wellformed :: "map_order \<times> map_order"

definition getVerifiers :: "('pub, 'priv) authority \<Rightarrow> 'pub orders \<Rightarrow> 'pub list" where
  "getVerifiers x o' = map snd (o_verifiers o' (verifiers x))"

datatype make_err =
    commitFailed | signFailed doc_err | alreadyPresent | noVotes | notEnoughVotes | descriptorUndecodable
  | consensusFailure | malformed wf_err | noCertificates | tooFewCertificates | tooFewCommits
  | insufficientCommits | undecodableReveal | noViewOfConsensus | marshalFailed | noConsensus

definition lift_make :: "(doc_err \<Rightarrow> make_err) \<Rightarrow> (doc_err, 'a) go \<Rightarrow> (make_err, 'a) go" where
  "lift_make f r = (case r of Inr a \<Rightarrow> Inr a | Inl Panic \<Rightarrow> Inl Panic | Inl (Err e) \<Rightarrow> Inl (Err (f e)))"

section \<open>Topology\<close>

definition sortNodesByPublicKey :: "('pub, 'priv) authority \<Rightarrow> MixDescriptor list \<Rightarrow> MixDescriptor list" where
  "sortNodesByPublicKey x = sort_key (md_hash (pki x))"

definition sortReplicaNodesByPublicKey ::
  "('pub, 'priv) authority \<Rightarrow> ReplicaDescriptor list \<Rightarrow> ReplicaDescriptor list" where
  "sortReplicaNodesByPublicKey x = sort_key (rd_hash (pki x))"

text \<open>Nodes dealt to the layers in turn, from layer \<open>l\<close> on.\<close>

fun deal :: "nat \<Rightarrow> 'a list \<Rightarrow> 'a list list \<Rightarrow> 'a list list" where
  "deal l [] t = t"
| "deal l (n # ns) t = deal (Suc l mod length t) ns (t[l := t ! l @ [n]])"

definition generateRandomTopology ::
  "('pub, 'priv) authority \<Rightarrow> MixDescriptor list \<Rightarrow> bytes \<Rightarrow> (make_err, MixDescriptor list list) go" where
  "generateRandomTopology x nodes srv =
     (let nodeIndexes = det_Perm x srv [] (length nodes); layers = cfg_Layers (cfg x) in
      if layers < 0 then Inl Panic
      else if layers = 0 \<and> nodes \<noteq> [] then Inl Panic
      else Inr (deal 0 (map (\<lambda>i. nodes ! i) nodeIndexes) (replicate (nat layers) [])))"

text \<open>
  The nodes of one layer of the previous document that are still there, up to the target size; then
  all layers. The layer is looked at only when the previous one had nodes.
\<close>

fun keep_layer ::
  "('pub, 'priv) authority \<Rightarrow> nat \<Rightarrow> MixDescriptor list \<Rightarrow> MixDescriptor list
     \<Rightarrow> (key_hash \<times> MixDescriptor) list \<Rightarrow> MixDescriptor list \<times> (key_hash \<times> MixDescriptor) list" where
  "keep_layer x target [] cur nodeMap = (cur, nodeMap)"
| "keep_layer x target (n # ns) cur nodeMap =
     (if length cur \<ge> target then (cur, nodeMap)
      else case map_of nodeMap (md_hash (pki x) n) of
        Some m \<Rightarrow> keep_layer x target ns (cur @ [m]) (AList.delete (md_hash (pki x) n) nodeMap)
      | None \<Rightarrow> keep_layer x target ns cur nodeMap)"

fun keep_layers ::
  "('pub, 'priv) authority \<Rightarrow> nat \<Rightarrow> bytes \<Rightarrow> nat list \<Rightarrow> nat \<Rightarrow> MixDescriptor list list
     \<Rightarrow> MixDescriptor list list \<Rightarrow> (key_hash \<times> MixDescriptor) list
     \<Rightarrow> (make_err, MixDescriptor list list \<times> (key_hash \<times> MixDescriptor) list \<times> nat list) go" where
  "keep_layers x target srv drawn l [] t nodeMap = Inr (t, nodeMap, drawn)"
| "keep_layers x target srv drawn l (nodes # ls) t nodeMap =
     (let order = map (\<lambda>i. nodes ! i) (det_Perm x srv drawn (length nodes)) in
      if order \<noteq> [] \<and> l \<ge> length t then Inl Panic
      else let (cur, nodeMap) = (if order = [] then ([], nodeMap)
                                 else keep_layer x target order (t ! l) nodeMap)
           in keep_layers x target srv (drawn @ [length nodes]) (Suc l) ls
                (if order = [] then t else t[l := cur]) nodeMap)"

text \<open>Layers below the target size are filled from the pending nodes; running out of them panics.\<close>

fun fill_layer :: "nat \<Rightarrow> 'a list \<Rightarrow> 'a list \<Rightarrow> (make_err, 'a list \<times> 'a list) go" where
  "fill_layer target cur pending =
     (if length cur < target
      then (case pending of [] \<Rightarrow> Inl Panic | n # ns \<Rightarrow> fill_layer target (cur @ [n]) ns)
      else Inr (cur, pending))"

fun fill_layers ::
  "nat \<Rightarrow> nat \<Rightarrow> nat \<Rightarrow> 'a list list \<Rightarrow> 'a list \<Rightarrow> (make_err, 'a list list \<times> 'a list) go" where
  "fill_layers target l 0 t pending = Inr (t, pending)"
| "fill_layers target l (Suc n) t pending =
     (if l \<ge> length t then Inl Panic
      else go_bind (fill_layer target (t ! l) pending) (\<lambda>(cur, pending).
        fill_layers target (Suc l) n (t[l := cur]) pending))"

definition generateTopology ::
  "('pub, 'priv) authority \<Rightarrow> 'pub orders \<Rightarrow> MixDescriptor list \<Rightarrow> Document \<Rightarrow> bytes
     \<Rightarrow> (make_err, MixDescriptor list list) go" where
  "generateTopology x o' nodeList doc srv =
     (let nodeMap = fold (\<lambda>v. AList.update (md_hash (pki x) v) v) nodeList [];
          layers = cfg_Layers (cfg x) in
      if layers \<le> 0 then Inl Panic
      else let target = length nodeList div nat layers in
        go_bind (keep_layers x target srv [] 0 (Topology doc) (replicate (nat layers) []) nodeMap)
          (\<lambda>(t, nodeMap, drawn).
        let toAssign = sortNodesByPublicKey x (map snd (o_nodeMap o' nodeMap));
            pending = map (\<lambda>i. toAssign ! i) (det_Perm x srv drawn (length toAssign)) in
        go_bind (fill_layers target 0 (length (Topology doc)) t pending) (\<lambda>(t, pending).
          Inr (deal 0 pending t))))"

text \<open>The nodes named in the configuration that have a descriptor; an unreadable key file panics.\<close>

fun fixed_layer ::
  "('pub, 'priv) authority \<Rightarrow> (key_hash \<times> MixDescriptor) list \<Rightarrow> 'pub option list \<Rightarrow> (make_err, MixDescriptor list) go" where
  "fixed_layer x nodeMap [] = Inr []"
| "fixed_layer x nodeMap (key # ks) =
     go_bind (or_panic key) (\<lambda>k. go_bind (fixed_layer x nodeMap ks) (\<lambda>ns.
       Inr (case map_of nodeMap (Sum256_of x k) of Some n \<Rightarrow> n # ns | None \<Rightarrow> ns)))"

fun fixed_layers ::
  "('pub, 'priv) authority \<Rightarrow> (key_hash \<times> MixDescriptor) list \<Rightarrow> 'pub option list list
     \<Rightarrow> (make_err, MixDescriptor list list) go" where
  "fixed_layers x nodeMap [] = Inr []"
| "fixed_layers x nodeMap (l # ls) =
     go_bind (fixed_layer x nodeMap l) (\<lambda>ns. go_bind (fixed_layers x nodeMap ls) (\<lambda>t. Inr (ns # t)))"

definition generateFixedTopology ::
  "('pub, 'priv) authority \<Rightarrow> 'pub option list list \<Rightarrow> MixDescriptor list \<Rightarrow> (make_err, MixDescriptor list list) go" where
  "generateFixedTopology x topo nodes =
     fixed_layers x (fold (\<lambda>v. AList.update (md_hash (pki x) v) v) nodes []) topo"

definition verifyTopology :: "('pub, 'priv) authority \<Rightarrow> MixDescriptor list list \<Rightarrow> bool" where
  "verifyTopology x topology \<longleftrightarrow> int (length topology) \<ge> cfg_Layers (cfg x)
     \<and> list_all (\<lambda>l. int (length l) \<ge> cfg_MinNodesPerLayer (cfg x)) topology"

definition hasEnoughDescriptors :: "('pub, 'priv) authority \<Rightarrow> (key_hash \<times> MixDescriptor) list \<Rightarrow> bool" where
  "hasEnoughDescriptors x m =
     (let nrGateways = length (filter IsGatewayNode (map snd m));
          nrServiceNodes = length (filter IsServiceNode (map snd m));
          nrNodes = int (length m) - int nrGateways - int nrServiceNodes;
          minNodes = cfg_Layers (cfg x) * cfg_MinNodesPerLayer (cfg x)
      in nrGateways > 0 \<and> nrServiceNodes > 0 \<and> nrNodes \<ge> minNodes)"

section \<open>The document\<close>

text \<open>
  The configured topology is read through a pointer, which is nil when none is configured; the
  logarithm is in the parameter \<open>float_LambdaG\<close> (server.go).
\<close>

definition computeLambdaG :: "('pub, 'priv) authority \<Rightarrow> (make_err, float64) go" where
  "computeLambdaG x =
     (let p = cfg_Parameters (cfg x); g = length (cfg_GatewayNodes (cfg x)) in
      if g = 0 then Inr (float_add x (p_LambdaP p) (p_LambdaL p))
      else go_bind (deref (cfg_Topology (cfg x))) (\<lambda>layers.
        let n = fold (\<lambda>l m. if length l > m then length l else m) layers 0 in
        if n \<le> 1 then Inr (float_add x (p_LambdaP p) (p_LambdaL p))
        else Inr (float_LambdaG x n g (p_Mu p))))"

definition cacheEnvelopeKeys ::
  "ReplicaDescriptor \<Rightarrow> (byte \<times> (u64 \<times> bytes) list) list \<Rightarrow> (byte \<times> (u64 \<times> bytes) list) list" where
  "cacheEnvelopeKeys desc cache =
     (let i = ReplicaID desc; m = (case map_of cache i of None \<Rightarrow> [] | Some m \<Rightarrow> m);
          keys = (case EnvelopeKeys desc of None \<Rightarrow> [] | Some ks \<Rightarrow> ks)
      in AList.update i (fold (\<lambda>(e, k). AList.update e k) keys m) cache)"

text \<open>Adding a key of an epoch in the range, unless one is there.\<close>

definition addKey ::
  "u64 \<Rightarrow> u64 \<Rightarrow> byte \<Rightarrow> u64 \<times> bytes \<Rightarrow> (byte \<times> (u64 \<times> bytes) list) list \<Rightarrow> (byte \<times> (u64 \<times> bytes) list) list" where
  "addKey minEpoch maxEpoch i = (\<lambda>(e, k) result.
     if e < minEpoch \<or> e > maxEpoch then result
     else let m = (case map_of result i of None \<Rightarrow> [] | Some m \<Rightarrow> m)
          in AList.update i (if map_of m e = None then AList.update e k m else m) result)"

text \<open>The keys of the document, and the cache without the old keys. The order of these loops over
  maps plays no part, since each visits a key once.\<close>

definition buildReplicaEnvelopeKeys ::
  "ReplicaDescriptor list \<Rightarrow> u64 \<Rightarrow> (byte \<times> (u64 \<times> bytes) list) list
     \<Rightarrow> (byte \<times> (u64 \<times> bytes) list) list \<times> (byte \<times> (u64 \<times> bytes) list) list" where
  "buildReplicaEnvelopeKeys tallied current cache =
     (let minEpoch = (if current > 0 then current - 1 else 0);
          maxEpoch = current + 1;
          cache = fold cacheEnvelopeKeys tallied cache;
          result = fold (\<lambda>d. fold (addKey minEpoch maxEpoch (ReplicaID d))
                     (case EnvelopeKeys d of None \<Rightarrow> [] | Some ks \<Rightarrow> ks)) tallied [];
          result = fold (\<lambda>(i, m). fold (addKey minEpoch maxEpoch i) m) cache result
      in (result, map (\<lambda>(i, m). (i, filter (\<lambda>(e, _). \<not> e < minEpoch) m)) cache))"

definition configured_replicas :: "('pub, 'priv) authority \<Rightarrow> 'pub orders \<Rightarrow> (byte \<times> bytes) list" where
  "configured_replicas x o' = sort_key snd (List.map_filter (\<lambda>(h, name, i).
     (case map_of (reverseHash x) h of None \<Rightarrow> None
      | Some k \<Rightarrow> map_option (\<lambda>b. (i, b)) (pub_Marshal x k))) (o_authorizedReplicas o' (authorizedReplicaNodes x)))"

text \<open>\<open>rnow\<close> is the current replica epoch. The document and the new cache of envelope keys.\<close>

definition getDocument ::
  "('pub, 'priv) authority \<Rightarrow> 'pub orders \<Rightarrow> u64 \<Rightarrow> auth_state \<Rightarrow> MixDescriptor list \<Rightarrow> ReplicaDescriptor list
     \<Rightarrow> Params \<Rightarrow> bytes \<Rightarrow> (make_err, auth_state \<times> Document) go" where
  "getDocument x o' rnow s descs replicas params srv =
     (let gateways = filter IsGatewayNode descs;
          serviceNodes = filter (\<lambda>v. \<not> IsGatewayNode v \<and> IsServiceNode v) descs;
          nodes = filter (\<lambda>v. \<not> IsGatewayNode v \<and> \<not> IsServiceNode v) descs in
      go_bind (case cfg_Topology (cfg x) of
          Some topo \<Rightarrow> generateFixedTopology x topo nodes
        | None \<Rightarrow> (case documents s (votingEpoch s - 1) of
            Some d \<Rightarrow> generateTopology x o' nodes d srv
          | None \<Rightarrow> generateRandomTopology x nodes srv)) (\<lambda>topology.
      go_bind (computeLambdaG x) (\<lambda>lambdaG.
      let infos = configured_replicas x o';
          (envKeys, cache) = buildReplicaEnvelopeKeys replicas rnow (cachedReplicaEnvelopeKeys s)
      in Inr (s\<lparr>cachedReplicaEnvelopeKeys := cache\<rparr>,
        \<lparr>doc_Epoch = votingEpoch s, GenesisEpoch = genesisEpoch s, Mu = p_Mu params,
         LambdaP = p_LambdaP params, LambdaL = p_LambdaL params, LambdaM = p_LambdaM params,
         LambdaG = lambdaG, LambdaR = p_LambdaR params, Topology = topology,
         GatewayNodes = gateways, ServiceNodes = serviceNodes, StorageReplicas = replicas,
         ConfiguredReplicaIDs = map fst infos, ConfiguredReplicaIdentityKeys = map snd infos,
         ReplicaEnvelopeKeys = envKeys, doc_Signatures = None, SharedRandomCommit = [],
         SharedRandomReveal = [], SharedRandomValue = srv, PriorSharedRandom = priorSRV s,
         SphinxGeometryHash = geo_Hash x, doc_Version = DocumentVersion,
         PKISignatureScheme = cfg_PKISignatureScheme (cfg x)\<rparr>))))"

section \<open>Votes\<close>

text \<open>\<open>rn\<close> is the random number of the commit. The state keeps commit and reveal, both signed.\<close>

definition doCommit ::
  "('pub, 'priv) authority \<Rightarrow> bytes option \<Rightarrow> auth_state \<Rightarrow> u64 \<Rightarrow> auth_state \<times> (make_err, bytes) go" where
  "doCommit x rn s epoch =
     (case sr_Commit (blake2b_256 (pki x)) rn epoch of
        Inl _ \<Rightarrow> (s, Inl (Err commitFailed))
      | Inr (srv, commit) \<Rightarrow>
         (case Sign (certs (pki x)) (identityPrivateKey x) (identityPublicKey x) commit epoch of
            Inl _ \<Rightarrow> (s, Inl (Err commitFailed))
          | Inr signedCommit \<Rightarrow>
             (case Sign (certs (pki x)) (identityPrivateKey x) (identityPublicKey x) (sr_reveal srv) epoch of
                Inl _ \<Rightarrow> (s, Inl (Err commitFailed))
              | Inr signedReveal \<Rightarrow>
                 (refresh_own x epoch
                   (s\<lparr>commits := put_slot epoch (identityPubKeyHash x) signedCommit (commits s),
                      reveals := put_slot epoch (identityPubKeyHash x) signedReveal (reveals s)\<rparr>),
                  Inr signedCommit))))"

text \<open>The reveal to send; without one it is the empty slice, and an error is reported.\<close>

definition do_reveal :: "('pub, 'priv) authority \<Rightarrow> auth_state \<Rightarrow> u64 \<Rightarrow> auth_state \<times> bytes" where
  "do_reveal x s epoch =
     (case slot (reveals s) epoch (identityPubKeyHash x) of
        Some signedReveal \<Rightarrow> (s, signedReveal)
      | None \<Rightarrow> (s\<lparr>fatal := True\<rparr>, []))"

text \<open>The scheme name is written into the cached document itself.\<close>

definition take_over :: "('pub, 'priv) authority \<Rightarrow> auth_state \<Rightarrow> auth_state" where
  "take_over x s =
     (case documents s (votingEpoch s - 1) of
        Some d \<Rightarrow> s\<lparr>genesisEpoch := GenesisEpoch d, priorSRV := PriorSharedRandom d,
                    documents := (documents s)(votingEpoch s - 1 \<mapsto>
                      d\<lparr>PKISignatureScheme := cfg_PKISignatureScheme (cfg x)\<rparr>)\<rparr>
      | None \<Rightarrow> s\<lparr>genesisEpoch := votingEpoch s\<rparr>)"

definition doSignDocument ::
  "('pub, 'priv) authority \<Rightarrow> 'pub orders \<Rightarrow> Document \<Rightarrow> (make_err, Document) go" where
  "doSignDocument x o' d = go_bind (lift_make signFailed
     (SignDocument (pki x) (o_sign o') (identityPrivateKey x) (identityPublicKey x) d)) (\<lambda>(d, _). Inr d)"

text \<open>An error keeps what has changed so far, so the state is beside the result.\<close>

definition getVote ::
  "('pub, 'priv) authority \<Rightarrow> 'pub orders \<Rightarrow> u64 \<Rightarrow> bytes option \<Rightarrow> auth_state \<Rightarrow> u64
     \<Rightarrow> auth_state \<times> (make_err, Document) go" where
  "getVote x o' rnow rn s epoch =
     (let s = take_over x s;
          descs = map snd (o_mixes o' (inner (descriptors s) epoch));
          reps = map snd (o_replicas o' (inner (replicaDescriptors s) epoch)) in
      case getDocument x o' rnow s descs reps (cfg_Parameters (cfg x)) (replicate 32 0) of
        Inl e \<Rightarrow> (s, Inl e)
      | Inr (s, vote) \<Rightarrow>
         (case doCommit x rn s epoch of
            (s, Inl e) \<Rightarrow> (s, Inl e)
          | (s, Inr signedCommit) \<Rightarrow>
             (case doSignDocument x o' (vote\<lparr>SharedRandomCommit := [(identityPubKeyHash x, signedCommit)]\<rparr>) of
                Inl e \<Rightarrow> (s, Inl e)
              | Inr vote \<Rightarrow>
                 let s = s\<lparr>votes := ensure epoch (votes s)\<rparr> in
                 if slot (votes s) epoch (identityPubKeyHash x) \<noteq> None then (s, Inl (Err alreadyPresent))
                 else (s\<lparr>votes := put_slot epoch (identityPubKeyHash x) vote (votes s)\<rparr>, Inr vote))))"

section \<open>The tally\<close>

definition tally_add :: "bytes \<Rightarrow> (bytes \<times> nat) list \<Rightarrow> (bytes \<times> nat) list" where
  "tally_add k m = AList.update k (Suc (case map_of m k of None \<Rightarrow> 0 | Some n \<Rightarrow> n)) m"

definition vote_params :: "Document \<Rightarrow> Params" where
  "vote_params v = \<lparr>p_Mu = Mu v, p_LambdaP = LambdaP v, p_LambdaL = LambdaL v, p_LambdaM = LambdaM v,
                    p_LambdaR = LambdaR v\<rparr>"

definition vote_nodes :: "Document \<Rightarrow> MixDescriptor list" where
  "vote_nodes v = GatewayNodes v @ ServiceNodes v @ concat (Topology v)"

text \<open>One vote counted: parameters, nodes and replicas; what cannot be encoded is skipped.\<close>

type_synonym tallies = "(bytes \<times> nat) list \<times> (bytes \<times> nat) list \<times> (bytes \<times> nat) list"

definition tally_vote :: "('pub, 'priv) authority \<Rightarrow> Document \<Rightarrow> tallies \<Rightarrow> tallies" where
  "tally_vote x v = (\<lambda>(mixParams, mixTally, replicaTally).
     case gob_Encode x (vote_params v) of
       None \<Rightarrow> (mixParams, mixTally, replicaTally)
     | Some bs \<Rightarrow> (tally_add bs mixParams,
         fold tally_add (List.map_filter (md_Marshal (pki x)) (vote_nodes v)) mixTally,
         fold tally_add (List.map_filter (rd_Marshal (pki x)) (StorageReplicas v)) replicaTally))"

text \<open>The descriptors with enough votes that are authorised, in the order of the map.\<close>

fun elect ::
  "(bytes \<Rightarrow> 'd option) \<Rightarrow> ('d \<Rightarrow> bool) \<Rightarrow> int \<Rightarrow> (bytes \<times> nat) list \<Rightarrow> (make_err, 'd list) go" where
  "elect unmarshal authorized thr [] = Inr []"
| "elect unmarshal authorized thr ((raw, n) # m) =
     (if int n \<ge> thr
      then go_bind (or_err descriptorUndecodable (unmarshal raw)) (\<lambda>d.
        go_bind (elect unmarshal authorized thr m) (\<lambda>ds. Inr (if authorized d then d # ds else ds)))
      else elect unmarshal authorized thr m)"

text \<open>The first parameters of the map that decode and have enough votes.\<close>

fun elect_params :: "(bytes \<Rightarrow> Params option) \<Rightarrow> int \<Rightarrow> (bytes \<times> nat) list \<Rightarrow> (make_err, Params) go" where
  "elect_params decode thr [] = Inl (Err consensusFailure)"
| "elect_params decode thr ((bs, n) # m) =
     (case decode bs of None \<Rightarrow> elect_params decode thr m
      | Some p \<Rightarrow> if int n \<ge> thr then Inr p else elect_params decode thr m)"

definition tallyVotes ::
  "('pub, 'priv) authority \<Rightarrow> 'pub orders \<Rightarrow> auth_state \<Rightarrow> u64
     \<Rightarrow> (make_err, MixDescriptor list \<times> ReplicaDescriptor list \<times> Params) go" where
  "tallyVotes x o' s epoch =
     (case votes s epoch of
        None \<Rightarrow> Inl (Err noVotes)
      | Some vs \<Rightarrow>
         if int (length vs) < threshold x then Inl (Err notEnoughVotes)
         else let (mixParams, mixTally, replicaTally) =
                    fold (tally_vote x) (map snd (o_votes o' vs)) ([], [], []) in
           go_bind (elect (md_Unmarshal (pki x)) (isDescriptorAuthorized x) (threshold x) (o_mixTally o' mixTally)) (\<lambda>nodes.
           go_bind (elect (rd_Unmarshal (pki x)) (isReplicaDescriptorAuthorized x) (threshold x) (o_replicaTally o' replicaTally)) (\<lambda>replicas.
           go_bind (elect_params (gob_Decode x) (threshold x) (o_mixParams o' mixParams)) (\<lambda>params.
             Inr (sortNodesByPublicKey x nodes, sortReplicaNodesByPublicKey x replicas, params)))))"

section \<open>Certificate, shared random value, consensus\<close>

definition IsWellFormed :: "('pub, 'priv) authority \<Rightarrow> 'pub orders \<Rightarrow> Document \<Rightarrow> (make_err, unit) go" where
  "IsWellFormed x o' d =
     (case IsDocumentWellFormed (pki x) (fst (o_wellformed o')) (snd (o_wellformed o')) (getVerifiers x o') d of
        Inr _ \<Rightarrow> Inr () | Inl Panic \<Rightarrow> Inl Panic | Inl (Err e) \<Rightarrow> Inl (Err (malformed e)))"

text \<open>
  \<open>getCertificate\<close>. The rotation of the prior values is a write to the state that stays when a later
  step fails. A nil map of commits or reveals is one the certificate does not share.
\<close>

definition rotate_prior :: "u64 \<Rightarrow> bytes \<Rightarrow> auth_state \<Rightarrow> (make_err, auth_state) go" where
  "rotate_prior epoch srv s =
     (if epoch mod WeekOfEpochs = 0
      then (case priorSRV s of [] \<Rightarrow> Inl Panic | p # _ \<Rightarrow> Inr (s\<lparr>priorSRV := [srv, p]\<rparr>))
      else Inr s)"

definition getCertificate ::
  "('pub, 'priv) authority \<Rightarrow> 'pub orders \<Rightarrow> u64 \<Rightarrow> auth_state \<Rightarrow> u64 \<Rightarrow> auth_state \<times> (make_err, Document) go" where
  "getCertificate x o' rnow s epoch =
     (case tallyVotes x o' s epoch of
        Inl e \<Rightarrow> (s, Inl e)
      | Inr (mixes, replicas, params) \<Rightarrow>
         let srv = replicate 32 0 in
         (case getDocument x o' rnow s mixes replicas params srv of
            Inl e \<Rightarrow> (s, Inl e)
          | Inr (s, c) \<Rightarrow>
             let c = c\<lparr>SharedRandomCommit := inner (commits s) epoch, SharedRandomReveal := inner (reveals s) epoch\<rparr> in
             (case (if priorSRV s = [] then Inr (s\<lparr>priorSRV := [srv, srv]\<rparr>) else rotate_prior epoch srv s) of
                Inl e \<Rightarrow> (s, Inl e)
              | Inr s \<Rightarrow>
                 (case go_bind (doSignDocument x o' c) (\<lambda>c. go_bind (IsWellFormed x o' c) (\<lambda>_. Inr c)) of
                    Inl e \<Rightarrow> (s, Inl e)
                  | Inr c \<Rightarrow>
                     let s = s\<lparr>certificates := ensure epoch (certificates s)\<rparr> in
                     if slot (certificates s) epoch (identityPubKeyHash x) \<noteq> None then (s, Inl (Err alreadyPresent))
                     else (s\<lparr>certificates := put_slot epoch (identityPubKeyHash x) c (certificates s),
                             shared_commits := (if commits s epoch = None then shared_commits s else insert epoch (shared_commits s)),
                             shared_reveals := (if reveals s epoch = None then shared_reveals s else insert epoch (shared_reveals s))\<rparr>,
                           Inr c)))))"

text \<open>
  \<open>verifyCommits\<close>: the nodes found bad, the commits and the reveals. One pair of the inner loop
  either goes on or breaks out of it.
\<close>

type_synonym commit_state = "key_hash set \<times> (key_hash \<times> bytes) list \<times> (key_hash \<times> bytes) list"

text \<open>The first value seen of a node is kept; another value makes the node bad.\<close>

definition note_value ::
  "key_hash \<Rightarrow> bytes \<Rightarrow> key_hash set \<times> (key_hash \<times> bytes) list \<Rightarrow> key_hash set \<times> (key_hash \<times> bytes) list" where
  "note_value pk2 v = (\<lambda>(bad, m). case map_of m pk2 of
     Some v' \<Rightarrow> (if v \<noteq> v' then insert pk2 bad else bad, m)
   | None \<Rightarrow> (bad, AList.update pk2 v m))"

definition commit_pair ::
  "('pub, 'priv) authority \<Rightarrow> (key_hash \<Rightarrow> bool \<Rightarrow> map_order) \<Rightarrow> u64 \<Rightarrow> key_hash \<Rightarrow> (key_hash \<times> bytes) list
     \<Rightarrow> key_hash \<times> bytes \<Rightarrow> commit_state \<Rightarrow> (make_err, bool \<times> commit_state) go" where
  "commit_pair x vord epoch pk revs = (\<lambda>(pk2, signedCommit) (bad, committed, revealed).
     case map_of (reverseHash x) pk2 of
       None \<Rightarrow> Inr (True, insert pk bad, committed, revealed)
     | Some v \<Rightarrow>
     (case Verify (certs (pki x)) (vord pk2 False) v signedCommit of
       Inl _ \<Rightarrow> Inr (True, insert pk bad, committed, revealed)
     | Inr commit \<Rightarrow>
     (case map_of revs pk2 of
       None \<Rightarrow> Inr (True, insert pk bad, committed, revealed)
     | Some signedReveal \<Rightarrow>
     (case Verify (certs (pki x)) (vord pk2 True) v signedReveal of
       Inl _ \<Rightarrow> Inr (True, insert pk bad, committed, revealed)
     | Inr reveal \<Rightarrow>
     (case sr_SetCommit sr_new commit of
       Inl _ \<Rightarrow> Inl Panic
     | Inr srv \<Rightarrow>
        if sr_epoch srv \<noteq> epoch then Inr (True, insert pk2 (insert pk bad), committed, revealed)
        else case sr_Verify (blake2b_256 (pki x)) srv reveal of
          Inl _ \<Rightarrow> Inl Panic
        | Inr False \<Rightarrow> Inr (True, insert pk2 (insert pk bad), committed, revealed)
        | Inr True \<Rightarrow>
            let (bad, committed) = note_value pk2 signedCommit (bad, committed);
                (bad, revealed) = note_value pk2 signedReveal (bad, revealed)
            in Inr (False, bad, committed, revealed))))))"

fun commit_pairs ::
  "('pub, 'priv) authority \<Rightarrow> (key_hash \<Rightarrow> bool \<Rightarrow> map_order) \<Rightarrow> u64 \<Rightarrow> key_hash \<Rightarrow> (key_hash \<times> bytes) list
     \<Rightarrow> (key_hash \<times> bytes) list \<Rightarrow> commit_state \<Rightarrow> (make_err, commit_state) go" where
  "commit_pairs x vord epoch pk revs [] st = Inr st"
| "commit_pairs x vord epoch pk revs (p # ps) st =
     (if fst p \<in> fst st then commit_pairs x vord epoch pk revs ps st
      else go_bind (commit_pair x vord epoch pk revs p st) (\<lambda>(stop, st).
        if stop then Inr st else commit_pairs x vord epoch pk revs ps st))"

fun commit_certs ::
  "('pub, 'priv) authority \<Rightarrow> 'pub orders \<Rightarrow> u64 \<Rightarrow> (key_hash \<times> Document) list \<Rightarrow> commit_state
     \<Rightarrow> (make_err, commit_state) go" where
  "commit_certs x o' epoch [] st = Inr st"
| "commit_certs x o' epoch ((pk, c) # cs) st =
     (if pk \<in> fst st then commit_certs x o' epoch cs st
      else go_bind (commit_pairs x (o_verify o' pk) epoch pk (SharedRandomReveal c)
                      (o_commits o' pk (SharedRandomCommit c)) st) (commit_certs x o' epoch cs))"

definition verifyCommits ::
  "('pub, 'priv) authority \<Rightarrow> 'pub orders \<Rightarrow> auth_state \<Rightarrow> u64
     \<Rightarrow> (make_err, (key_hash \<times> bytes) list \<times> (key_hash \<times> bytes) list) go" where
  "verifyCommits x o' s epoch =
     go_bind (commit_certs x o' epoch (o_certs o' (inner (certificates s) epoch)) ({}, [], []))
       (\<lambda>(bad, committed, revealed). Inr (filter (\<lambda>(k, _). k \<notin> bad) committed, filter (\<lambda>(k, _). k \<notin> bad) revealed))"

end
