(* ===== verification/AuthorityFsm.thy ===== *)
theory AuthorityFsm
  imports AuthorityTally WireTypes
begin

text \<open>
  The consensus of the directory authority and the schedule that produces it
  (authority/voting/server/state.go): the shared random value, this authority's view of the consensus,
  the consensus signed by a threshold, the phases of the voting round, restart from the database, and
  the dispatch of the peers' commands (wire_handler.go).
\<close>

section \<open>Consensus\<close>

text \<open>The reveals' contents, in the order of the map, then in descending order of the digests.\<close>

fun reveal_digests ::
  "('pub, 'priv) authority \<Rightarrow> (key_hash \<times> bytes) list \<Rightarrow> (make_err, (key_hash \<times> bytes) list) go" where
  "reveal_digests x [] = Inr []"
| "reveal_digests x ((pk, srr) # rs) =
     (case GetCertified (certs (pki x)) srr of
        Inl Panic \<Rightarrow> Inl Panic
      | Inl (Err _) \<Rightarrow> Inl (Err undecodableReveal)
      | Inr digest \<Rightarrow> go_bind (reveal_digests x rs) (\<lambda>ds. Inr ((pk, digest) # ds)))"

definition sort_reveals :: "(key_hash \<times> bytes) list \<Rightarrow> (key_hash \<times> bytes) list" where
  "sort_reveals ds = rev (sort_key snd ds)"

definition computeSharedRandom ::
  "('pub, 'priv) authority \<Rightarrow> 'pub orders \<Rightarrow> auth_state \<Rightarrow> u64 \<Rightarrow> (key_hash \<times> bytes) list
     \<Rightarrow> (key_hash \<times> bytes) list \<Rightarrow> (make_err, bytes) go" where
  "computeSharedRandom x o' s epoch cs rs =
     (if int (length cs) < threshold x then Inl (Err insufficientCommits)
      else go_bind (reveal_digests x (o_reveals o' rs)) (\<lambda>ds.
        Inr (blake2b_256 (pki x)
          (map of_char ''shared-random'' @ put64 epoch
           @ concat (map (\<lambda>(pk, d). pk @ d) (sort_reveals ds))
           @ (case documents s (votingEpoch s - 1) of Some d \<Rightarrow> SharedRandomValue d | None \<Rightarrow> replicate 32 0)))))"

definition getMyConsensus ::
  "('pub, 'priv) authority \<Rightarrow> 'pub orders \<Rightarrow> u64 \<Rightarrow> auth_state \<Rightarrow> u64 \<Rightarrow> auth_state \<times> (make_err, Document) go" where
  "getMyConsensus x o' rnow s epoch =
     (case certificates s epoch of
        None \<Rightarrow> (s, Inl (Err noCertificates))
      | Some cs \<Rightarrow>
         if int (length cs) < threshold x then (s, Inl (Err tooFewCertificates))
         else case verifyCommits x o' s epoch of
           Inl e \<Rightarrow> (s, Inl e)
         | Inr (committed, revealed) \<Rightarrow>
            if int (length committed) < threshold x then (s, Inl (Err tooFewCommits))
            else if length committed \<noteq> length revealed then (s, Inl Panic)
            else case computeSharedRandom x o' s epoch committed revealed of
              Inl e \<Rightarrow> (s, Inl e)
            | Inr srv \<Rightarrow>
               (case (if epoch = genesisEpoch s then Inr (s\<lparr>priorSRV := [srv, srv]\<rparr>) else rotate_prior epoch srv s) of
                  Inl e \<Rightarrow> (s, Inl e)
                | Inr s \<Rightarrow>
                   (case tallyVotes x o' s epoch of
                      Inl e \<Rightarrow> (s, Inl e)
                    | Inr (mixes, replicas, params) \<Rightarrow>
                       (case getDocument x o' rnow s mixes replicas params srv of
                          Inl e \<Rightarrow> (s, Inl e)
                        | Inr (s, d) \<Rightarrow>
                           (case go_bind (IsWellFormed x o' d) (\<lambda>_. doSignDocument x o' d) of
                              Inl e \<Rightarrow> (s, Inl e)
                            | Inr d \<Rightarrow> (s\<lparr>myconsensus := (myconsensus s)(epoch \<mapsto> d)\<rparr>, Inr d))))))"

text \<open>
  Adding the peers' signatures to this authority's view. The verifier of an identity that is not
  known would be a nil key.
\<close>

fun add_signatures ::
  "('pub, 'priv) authority \<Rightarrow> map_order \<Rightarrow> (key_hash \<times> Signature) list \<Rightarrow> Document \<Rightarrow> (make_err, Document) go" where
  "add_signatures x ord [] d = Inr d"
| "add_signatures x ord ((pk, sig) # sgs) d =
     (case map_of (reverseHash x) pk of
        None \<Rightarrow> Inl Panic
      | Some v \<Rightarrow>
         (case doc_AddSignature (pki x) ord v sig d of
            Inl Panic \<Rightarrow> Inl Panic
          | Inl (Err _) \<Rightarrow> add_signatures x ord sgs d
          | Inr d \<Rightarrow> add_signatures x ord sgs d))"

definition persistDocument :: "bool \<Rightarrow> u64 \<Rightarrow> bytes \<Rightarrow> auth_state \<Rightarrow> auth_state" where
  "persistDocument db_ok epoch doc s =
     (if db_ok then s\<lparr>db_documents := (db_documents s)(epoch \<mapsto> doc)\<rparr> else s\<lparr>fatal := True\<rparr>)"

definition getThresholdConsensus ::
  "('pub, 'priv) authority \<Rightarrow> 'pub orders \<Rightarrow> bool \<Rightarrow> auth_state \<Rightarrow> u64 \<Rightarrow> auth_state \<times> (make_err, Document) go" where
  "getThresholdConsensus x o' db_ok s epoch =
     (case myconsensus s epoch of
        None \<Rightarrow> (s, Inl (Err noViewOfConsensus))
      | Some ours \<Rightarrow>
         (case add_signatures x (o_sign o') (o_signatures o' (inner (signatures s) epoch)) ours of
            Inl e \<Rightarrow> (s, Inl e)
          | Inr ours \<Rightarrow>
             let s = s\<lparr>myconsensus := (myconsensus s)(epoch \<mapsto> ours)\<rparr> in
             (case lift_make (\<lambda>_. marshalFailed) (MarshalCertificate (pki x) ours) of
                Inl e \<Rightarrow> (s, Inl e)
              | Inr signedConsensus \<Rightarrow>
                 (case VerifyThreshold (certs (pki x)) (o_threshold o') (o_good o') (getVerifiers x o')
                         (threshold x) signedConsensus of
                    (None, _) \<Rightarrow>
                      (let s = persistDocument db_ok epoch signedConsensus s
                       in (s\<lparr>documents := (documents s)(epoch \<mapsto> ours)\<rparr>, Inr ours))
                  | (Some _, _) \<Rightarrow> (s, Inl (Err noConsensus))))))"

section \<open>The schedule\<close>

text \<open>A document asked of the other authorities in the background, and its arrival.\<close>

definition backgroundFetchConsensus :: "u64 \<Rightarrow> auth_state \<Rightarrow> auth_state" where
  "backgroundFetchConsensus epoch s =
     (if documents s epoch = None then s\<lparr>fetching := fetching s @ [epoch]\<rparr> else s)"

definition onFetched :: "u64 \<Rightarrow> Document \<Rightarrow> auth_state \<Rightarrow> auth_state" where
  "onFetched epoch doc s =
     (let s = s\<lparr>fetching := remove1 epoch (fetching s)\<rparr> in
      if documents s epoch = None then s\<lparr>documents := (documents s)(epoch \<mapsto> doc)\<rparr> else s)"

definition setState :: "phase \<Rightarrow> auth_state \<Rightarrow> auth_state" where
  "setState p s = s\<lparr>phase := p\<rparr>"

definition send_out :: "outgoing \<Rightarrow> auth_state \<Rightarrow> auth_state" where
  "send_out m s = s\<lparr>sent := sent s @ [m]\<rparr>"

text \<open>What the clock says when the schedule wakes up, and again at the end of the phase's work.\<close>

record clock =
  c_epoch :: u64
  c_elapsed :: int
  c_till :: int
  c_elapsed_after :: int
  c_till_after :: int

text \<open>Each phase: the new state and how long to sleep.\<close>

type_synonym tick = "(unit, auth_state \<times> int) go"

definition fsm_bootstrap :: "('pub, 'priv) authority \<Rightarrow> clock \<Rightarrow> auth_state \<Rightarrow> auth_state \<times> int" where
  "fsm_bootstrap x c s =
     (let s = s\<lparr>genesisEpoch := 0\<rparr>;
          s = backgroundFetchConsensus (c_epoch c - 1) s;
          s = backgroundFetchConsensus (c_epoch c) s in
      if c_elapsed c > MixPublishDeadline x
      then (setState stateBootstrap (s\<lparr>votingEpoch := c_epoch c + 2\<rparr>), c_till c)
      else (setState stateAcceptDescriptor (s\<lparr>votingEpoch := c_epoch c + 1\<rparr>),
            max 0 (MixPublishDeadline x - c_elapsed c)))"

text \<open>An error of the work of a phase is logged; a panic ends the process.\<close>

definition go_on :: "auth_state \<times> (make_err, 'a) go \<Rightarrow> (auth_state \<Rightarrow> 'a \<Rightarrow> (unit, 'b) go) \<Rightarrow> (auth_state \<Rightarrow> (unit, 'b) go) \<Rightarrow> (unit, 'b) go" where
  "go_on r ok failed = (case r of
     (s, Inr a) \<Rightarrow> ok s a | (s, Inl (Err _)) \<Rightarrow> failed s | (s, Inl Panic) \<Rightarrow> Inl Panic)"

definition send_document ::
  "('pub, 'priv) authority \<Rightarrow> (bytes \<Rightarrow> outgoing) \<Rightarrow> auth_state \<Rightarrow> Document \<Rightarrow> (unit, auth_state) go" where
  "send_document x mk s d = (case MarshalCertificate (pki x) d of
     Inr serialized \<Rightarrow> Inr (send_out (mk serialized) s) | Inl (Err _) \<Rightarrow> Inr s | Inl Panic \<Rightarrow> Inl Panic)"

definition fsm_accept_descriptor ::
  "('pub, 'priv) authority \<Rightarrow> 'pub orders \<Rightarrow> clock \<Rightarrow> u64 \<Rightarrow> bytes option \<Rightarrow> auth_state \<Rightarrow> tick" where
  "fsm_accept_descriptor x o' c rnow rn s =
     go_bind (go_on (getVote x o' rnow rn s (votingEpoch s))
       (\<lambda>s d. send_document x (SendVote (votingEpoch s)) s d) (\<lambda>s. Inr s)) (\<lambda>s.
     Inr (setState stateAcceptVote s, AuthorityVoteDeadline x - c_elapsed_after c))"

definition fsm_accept_vote ::
  "('pub, 'priv) authority \<Rightarrow> clock \<Rightarrow> auth_state \<Rightarrow> auth_state \<times> int" where
  "fsm_accept_vote x c s =
     (let (s, signedReveal) = do_reveal x s (votingEpoch s);
          s = send_out (SendReveal (votingEpoch s) signedReveal) s
      in (setState stateAcceptReveal s, AuthorityRevealDeadline x - c_elapsed_after c))"

definition fsm_accept_reveal ::
  "('pub, 'priv) authority \<Rightarrow> 'pub orders \<Rightarrow> clock \<Rightarrow> u64 \<Rightarrow> auth_state \<Rightarrow> tick" where
  "fsm_accept_reveal x o' c rnow s =
     go_bind (go_on (getCertificate x o' rnow s (votingEpoch s))
       (\<lambda>s d. send_document x (SendCert (votingEpoch s)) s d) (\<lambda>s. Inr s)) (\<lambda>s.
     Inr (setState stateAcceptCert s, AuthorityCertDeadline x - c_elapsed_after c))"

text \<open>The signature taken from this authority's consensus, signed once more for the way.\<close>

definition own_signature :: "('pub, 'priv) authority \<Rightarrow> u64 \<Rightarrow> Document \<Rightarrow> bytes option" where
  "own_signature x epoch d =
     (case map_of (case doc_Signatures d of None \<Rightarrow> [] | Some m \<Rightarrow> m) (identityPubKeyHash x) of
        None \<Rightarrow> None
      | Some sig \<Rightarrow> (case sig_Marshal x sig of
           None \<Rightarrow> None
         | Some serialized \<Rightarrow>
            (case Sign (certs (pki x)) (identityPrivateKey x) (identityPublicKey x) serialized epoch of
               Inl _ \<Rightarrow> None | Inr b \<Rightarrow> Some b)))"

text \<open>A \<open>break\<close> leaves the phase unchanged, with no time to sleep.\<close>

definition fsm_accept_cert ::
  "('pub, 'priv) authority \<Rightarrow> 'pub orders \<Rightarrow> clock \<Rightarrow> u64 \<Rightarrow> auth_state \<Rightarrow> tick" where
  "fsm_accept_cert x o' c rnow s =
     (let done' = (\<lambda>s. Inr (setState stateAcceptSignature s, PublishConsensusDeadline x - c_elapsed_after c)) in
      go_on (getMyConsensus x o' rnow s (votingEpoch s))
        (\<lambda>s d. case own_signature x (votingEpoch s) d of
           None \<Rightarrow> Inr (s\<lparr>fatal := True\<rparr>, 0)
         | Some b \<Rightarrow> done' (send_out (SendSig (votingEpoch s) b) s))
        done')"

definition fsm_accept_signature ::
  "('pub, 'priv) authority \<Rightarrow> 'pub orders \<Rightarrow> clock \<Rightarrow> bool \<Rightarrow> auth_state \<Rightarrow> tick" where
  "fsm_accept_signature x o' c db_ok s =
     go_on (getThresholdConsensus x o' db_ok s (votingEpoch s))
       (\<lambda>s _. let s = setState stateAcceptDescriptor s
              in Inr (s\<lparr>votingEpoch := votingEpoch s + 1\<rparr>, MixPublishDeadline x + c_till_after c))
       (\<lambda>s. let s = setState stateBootstrap s
            in Inr (s\<lparr>votingEpoch := c_epoch c + 2\<rparr>, c_till_after c))"

text \<open>
  One wake-up of the schedule. \<open>prune_ok\<close> is the outcome of the database transaction of the pruning,
  whose clock is read once more (\<open>now\<close>).
\<close>

definition fsm ::
  "('pub, 'priv) authority \<Rightarrow> 'pub orders \<Rightarrow> clock \<Rightarrow> u64 \<Rightarrow> bytes option \<Rightarrow> bool \<Rightarrow> bool \<Rightarrow> u64 \<Rightarrow> auth_state \<Rightarrow> tick" where
  "fsm x o' c rnow rn db_ok prune_ok now s =
     go_bind (case phase s of
         stateBootstrap \<Rightarrow> Inr (fsm_bootstrap x c s)
       | stateAcceptDescriptor \<Rightarrow> fsm_accept_descriptor x o' c rnow rn s
       | stateAcceptVote \<Rightarrow> Inr (fsm_accept_vote x c s)
       | stateAcceptReveal \<Rightarrow> fsm_accept_reveal x o' c rnow s
       | stateAcceptCert \<Rightarrow> fsm_accept_cert x o' c rnow s
       | stateAcceptSignature \<Rightarrow> fsm_accept_signature x o' c db_ok s) (\<lambda>(s, sleep).
     Inr (pruneDocuments now prune_ok s, sleep))"

section \<open>Restart\<close>

text \<open>
  The descriptors of one epoch bucket, visited in the order of the keys; \<open>hash_of\<close> and \<open>authorized\<close> are
  those of the kind of descriptor. A key of another length than 32 panics.
\<close>

fun restore_bucket ::
  "(bytes \<Rightarrow> 'd option) \<Rightarrow> ('d \<Rightarrow> key_hash) \<Rightarrow> ('d \<Rightarrow> bool) \<Rightarrow> u64 \<Rightarrow> (key_hash \<times> bytes) list \<Rightarrow> 'd slots
     \<Rightarrow> (unit, 'd slots) go" where
  "restore_bucket unmarshal hash_of authorized epoch [] m = Inr m"
| "restore_bucket unmarshal hash_of authorized epoch ((wantHash, rawDesc) # b) m =
     (if length wantHash \<noteq> 32 then Inl Panic
      else restore_bucket unmarshal hash_of authorized epoch b
        (case unmarshal rawDesc of
           None \<Rightarrow> m
         | Some desc \<Rightarrow> if wantHash \<noteq> hash_of desc \<or> \<not> authorized desc then m
                       else put_slot epoch (hash_of desc) desc m))"

fun restore_replicas :: "('pub, 'priv) authority \<Rightarrow> u64 list \<Rightarrow> auth_state \<Rightarrow> (unit, auth_state) go" where
  "restore_replicas x [] s = Inr s"
| "restore_replicas x (e # es) s =
     (case db_replicaDescriptors s e of
        None \<Rightarrow> restore_replicas x es s
      | Some b \<Rightarrow> go_bind (restore_bucket (rd_Unmarshal (pki x)) (rd_hash (pki x)) (isReplicaDescriptorAuthorized x)
                    e (sort_key fst b) (replicaDescriptors s)) (\<lambda>m.
                  restore_replicas x es (s\<lparr>replicaDescriptors := m\<rparr>)))"

text \<open>A document whose signatures do not reach the threshold ends the whole loop.\<close>

definition restore_document ::
  "('pub, 'priv) authority \<Rightarrow> 'pub orders \<Rightarrow> u64 \<Rightarrow> bytes \<Rightarrow> auth_state \<Rightarrow> (unit, auth_state option) go" where
  "restore_document x o' e rawDoc s =
     (case VerifyThreshold (certs (pki x)) (o_threshold o') (o_good o') (getVerifiers x o') (threshold x) rawDoc of
        (Some _, _) \<Rightarrow> Inr None
      | (None, _) \<Rightarrow>
         (case ParseDocument (pki x) (o_sign o') rawDoc of
            Inl Panic \<Rightarrow> Inl Panic
          | Inl (Err _) \<Rightarrow> Inr (Some s)
          | Inr doc \<Rightarrow> Inr (Some (if doc_Epoch doc \<noteq> e then s else s\<lparr>documents := (documents s)(e \<mapsto> doc)\<rparr>))))"

definition restore_mixes ::
  "('pub, 'priv) authority \<Rightarrow> u64 \<Rightarrow> auth_state \<Rightarrow> (unit, auth_state) go" where
  "restore_mixes x e s =
     (case db_descriptors s e of
        None \<Rightarrow> Inr s
      | Some b \<Rightarrow> go_bind (restore_bucket (md_Unmarshal (pki x)) (md_hash (pki x)) (isDescriptorAuthorized x)
                    e (sort_key fst b) (descriptors s)) (\<lambda>m. Inr (s\<lparr>descriptors := m\<rparr>)))"

fun restore_documents ::
  "('pub, 'priv) authority \<Rightarrow> 'pub orders \<Rightarrow> u64 list \<Rightarrow> auth_state \<Rightarrow> (unit, auth_state) go" where
  "restore_documents x o' [] s = Inr s"
| "restore_documents x o' (e # es) s =
     go_bind (case db_documents s e of None \<Rightarrow> Inr (Some s) | Some raw \<Rightarrow> restore_document x o' e raw s) (\<lambda>r.
     case r of None \<Rightarrow> Inr s
     | Some s \<Rightarrow> go_bind (restore_mixes x e s) (restore_documents x o' es))"

definition restorePersistence ::
  "('pub, 'priv) authority \<Rightarrow> 'pub orders \<Rightarrow> u64 \<Rightarrow> auth_state \<Rightarrow> (unit, auth_state) go" where
  "restorePersistence x o' now s =
     (if db_version s
      then go_bind (restore_replicas x [now - 1, now, now + 1] s) (restore_documents x o' [now - 1, now, now + 1])
      else Inr (s\<lparr>db_version := True\<rparr>))"

text \<open>The database survives a restart; everything else starts empty.\<close>

definition empty_state :: "auth_state \<Rightarrow> auth_state" where
  "empty_state db = \<lparr>documents = (\<lambda>_. None), myconsensus = (\<lambda>_. None), descriptors = (\<lambda>_. None),
     replicaDescriptors = (\<lambda>_. None), votes = (\<lambda>_. None), certificates = (\<lambda>_. None),
     signatures = (\<lambda>_. None), reveals = (\<lambda>_. None), commits = (\<lambda>_. None), priorSRV = [],
     cachedReplicaEnvelopeKeys = [], votingEpoch = 0, genesisEpoch = 0, phase = stateBootstrap,
     db_version = db_version db, db_documents = db_documents db, db_descriptors = db_descriptors db,
     db_replicaDescriptors = db_replicaDescriptors db, shared_commits = {}, shared_reveals = {},
     fatal = False, fetching = [], sent = []\<rparr>"

definition newState ::
  "('pub, 'priv) authority \<Rightarrow> 'pub orders \<Rightarrow> u64 \<Rightarrow> auth_state \<Rightarrow> (unit, ('pub, 'priv) authority \<times> auth_state) go" where
  "newState x o' now db =
     go_bind (load_tables x) (\<lambda>x. go_bind (restorePersistence x o' now (empty_state db)) (\<lambda>s. Inr (x, s)))"

section \<open>Dispatch of the peers' commands\<close>

text \<open>
  The reply, if there is one: no reply ends the connection. \<open>up\<close> is the upload a command carries. The
  descriptor posts are the functions given.
\<close>

definition up :: "u64 \<Rightarrow> 'pub sign_pubkey \<Rightarrow> bytes \<Rightarrow> 'pub upload" where
  "up e k p = \<lparr>up_Epoch = e, up_PublicKey = pkKey k, up_Payload = p\<rparr>"

definition reply_consensus ::
  "('pub, 'priv) authority \<Rightarrow> u64 \<Rightarrow> int \<Rightarrow> auth_state \<Rightarrow> u64 \<Rightarrow> (unit, auth_state \<times> 'pub Command option) go" where
  "reply_consensus x now elapsed s e =
     go_bind (onGetConsensus x now elapsed s e) (\<lambda>(code, doc). Inr (s, Some (Consensus code doc)))"

definition onClient ::
  "('pub, 'priv) authority \<Rightarrow> u64 \<Rightarrow> int \<Rightarrow> auth_state \<Rightarrow> 'pub Command \<Rightarrow> (unit, auth_state \<times> 'pub Command option) go" where
  "onClient x now elapsed s cmd = (case cmd of
     GetConsensus e _ _ \<Rightarrow> reply_consensus x now elapsed s e
   | _ \<Rightarrow> Inr (s, None))"

definition onMix ::
  "('pub, 'priv) authority \<Rightarrow> (auth_state \<Rightarrow> u64 \<Rightarrow> bytes \<Rightarrow> (unit, auth_state \<times> byte) go) \<Rightarrow> u64 \<Rightarrow> int
     \<Rightarrow> auth_state \<Rightarrow> 'pub Command \<Rightarrow> (unit, auth_state \<times> 'pub Command option) go" where
  "onMix x post now elapsed s cmd = (case cmd of
     GetConsensus e _ _ \<Rightarrow> reply_consensus x now elapsed s e
   | PostDescriptor e p \<Rightarrow> go_bind (post s e p) (\<lambda>(s, code). Inr (s, Some (PostDescriptorStatus code)))
   | _ \<Rightarrow> Inr (s, None))"

definition onReplica ::
  "(auth_state \<Rightarrow> u64 \<Rightarrow> bytes \<Rightarrow> (unit, auth_state \<times> byte) go) \<Rightarrow> auth_state \<Rightarrow> 'pub Command
     \<Rightarrow> (unit, auth_state \<times> 'pub Command option) go" where
  "onReplica post s cmd = (case cmd of
     PostReplicaDescriptor e p \<Rightarrow> go_bind (post s e p) (\<lambda>(s, code). Inr (s, Some (PostReplicaDescriptorStatus code)))
   | _ \<Rightarrow> Inr (s, None))"

definition onAuthority ::
  "('pub, 'priv) authority \<Rightarrow> map_order \<Rightarrow> map_order \<Rightarrow> u64 \<Rightarrow> int \<Rightarrow> auth_state \<Rightarrow> 'pub Command
     \<Rightarrow> (unit, auth_state \<times> 'pub Command option) go" where
  "onAuthority x vord pord now elapsed s cmd = (case cmd of
     GetConsensus e _ _ \<Rightarrow> reply_consensus x now elapsed s e
   | Vote e k p \<Rightarrow> (let (s, code) = onVoteUpload x vord pord s (up e k p) in Inr (s, Some (VoteStatus code)))
   | Cert e k p \<Rightarrow> (let (s, code) = onCertUpload x vord pord s (up e k p) in Inr (s, Some (CertStatus code)))
   | Reveal e k p \<Rightarrow> go_bind (onRevealUpload x vord s (up e k p)) (\<lambda>(s, code). Inr (s, Some (RevealStatus code)))
   | Sig e k p \<Rightarrow> (let (s, code) = onSigUpload x vord s (up e k p) in Inr (s, Some (SigStatus code)))
   | _ \<Rightarrow> Inr (s, None))"

end
