(* ===== verification/AuthorityClient.thy ===== *)
theory AuthorityClient
  imports AuthorityFsm CertProps
begin

text \<open>
  The client of the directory authorities (authority/voting/client/client.go): fetching a consensus,
  the checks it has to pass, and how descriptor uploads are counted and paced. Then the step relation
  of an authority: uploads of its peers in any order, wake-ups of its schedule, documents that the
  background fetches bring.
\<close>

section \<open>Fetching a document\<close>

record client_orders =
  co_threshold :: "nat \<Rightarrow> map_order"
  co_parse :: map_order
  co_wellformed :: "map_order \<times> map_order"

datatype fetch_err =
    fetchFailed | consensusError byte | notEnoughSignatures cert_err | parseFailed doc_err
  | malformedConsensus wf_err | epochMismatch | ErrDocumentGone | ErrNoDocument

definition client_threshold :: "'pub list \<Rightarrow> int" where
  "client_threshold vs = int (length vs) div 2 + 1"

text \<open>The reply is \<open>None\<close> when there was none or it was another command.\<close>

definition fetchAndValidate ::
  "('pub, 'priv) pki_env \<Rightarrow> client_orders \<Rightarrow> ((bytes \<times> 'pub) list \<Rightarrow> (bytes \<times> 'pub) list) \<Rightarrow> 'pub list \<Rightarrow> u64
     \<Rightarrow> (byte \<times> bytes) option \<Rightarrow> (fetch_err, Document \<times> bytes) go" where
  "fetchAndValidate p co gord vs epoch reply =
     (case reply of
        None \<Rightarrow> Inl (Err fetchFailed)
      | Some (code, payload) \<Rightarrow>
         if code \<noteq> ConsensusOk then Inl (Err (consensusError code))
         else case VerifyThreshold (certs p) (co_threshold co) gord vs (client_threshold vs) payload of
           (Some e, _) \<Rightarrow> Inl (Err (notEnoughSignatures e))
         | (None, _) \<Rightarrow>
            (case ParseDocument p (co_parse co) payload of
               Inl Panic \<Rightarrow> Inl Panic
             | Inl (Err e) \<Rightarrow> Inl (Err (parseFailed e))
             | Inr doc \<Rightarrow>
                (case IsDocumentWellFormed p (fst (co_wellformed co)) (snd (co_wellformed co)) vs doc of
                   Inl Panic \<Rightarrow> Inl Panic
                 | Inl (Err e) \<Rightarrow> Inl (Err (malformedConsensus e))
                 | Inr _ \<Rightarrow> if doc_Epoch doc \<noteq> epoch then Inl (Err epochMismatch) else Inr (doc, payload))))"

text \<open>The answers of the authorities in the order they come in; the first valid one is the result.\<close>

fun first_valid :: "(fetch_err, 'a) go list \<Rightarrow> (fetch_err, 'a option) go" where
  "first_valid [] = Inr None"
| "first_valid (r # rs) = (case r of Inr a \<Rightarrow> Inr (Some a) | Inl Panic \<Rightarrow> Inl Panic | Inl (Err _) \<Rightarrow> first_valid rs)"

definition GetPKIDocumentForEpoch ::
  "('pub, 'priv) pki_env \<Rightarrow> client_orders \<Rightarrow> ((bytes \<times> 'pub) list \<Rightarrow> (bytes \<times> 'pub) list) \<Rightarrow> 'pub list \<Rightarrow> u64 \<Rightarrow> u64
     \<Rightarrow> (byte \<times> bytes) option list \<Rightarrow> (fetch_err, Document \<times> bytes) go" where
  "GetPKIDocumentForEpoch p co gord vs now epoch replies =
     go_bind (first_valid (map (fetchAndValidate p co gord vs epoch) replies)) (\<lambda>r.
     case r of Some a \<Rightarrow> Inr a
     | None \<Rightarrow> if epoch \<le> now then Inl (Err ErrDocumentGone) else Inl (Err ErrNoDocument))"

definition Deserialize ::
  "('pub, 'priv) pki_env \<Rightarrow> client_orders \<Rightarrow> ((bytes \<times> 'pub) list \<Rightarrow> (bytes \<times> 'pub) list) \<Rightarrow> 'pub list \<Rightarrow> bytes
     \<Rightarrow> (fetch_err, Document) go" where
  "Deserialize p co gord vs raw =
     (case VerifyThreshold (certs p) (co_threshold co) gord vs (client_threshold vs) raw of
        (Some e, _) \<Rightarrow> Inl (Err (notEnoughSignatures e))
      | (None, _) \<Rightarrow> (case ParseDocument p (co_parse co) raw of
           Inl Panic \<Rightarrow> Inl Panic | Inl (Err e) \<Rightarrow> Inl (Err (parseFailed e)) | Inr d \<Rightarrow> Inr d))"

section \<open>Pacing of the uploads\<close>

text \<open>The delay doubles with every attempt; durations in nanoseconds.\<close>

fun double_delay :: "int \<Rightarrow> nat \<Rightarrow> int \<Rightarrow> int" where
  "double_delay maxDelay 0 delay = (if delay > maxDelay then maxDelay else delay)"
| "double_delay maxDelay (Suc n) delay =
     (if delay \<ge> maxDelay div 2 then maxDelay else double_delay maxDelay n (delay * 2))"

definition descriptorPostRetryDelay :: "int \<Rightarrow> int \<Rightarrow> int \<Rightarrow> int" where
  "descriptorPostRetryDelay RetryBaseDelay RetryMaxDelay attempts =
     (let attempts = (if attempts < 1 then 1 else attempts);
          base = (if RetryBaseDelay < 2 * 10 ^ 9 then 2 * 10 ^ 9 else RetryBaseDelay);
          maxDelay = (if RetryMaxDelay < 20 * 10 ^ 9 then 20 * 10 ^ 9 else RetryMaxDelay);
          maxDelay = (if maxDelay < base then base else maxDelay)
      in double_delay maxDelay (nat (attempts - 1)) base)"

section \<open>The steps of an authority\<close>

text \<open>The certificate functions read the clock: the authority at epoch \<open>t\<close>.\<close>

definition at :: "u64 \<Rightarrow> ('pub, 'priv) authority \<Rightarrow> ('pub, 'priv) authority" where
  "at t x = x\<lparr>pki := (pki x)\<lparr>certs := (certs (pki x))\<lparr>currentEpoch := t\<rparr>\<rparr>\<rparr>"

text \<open>Orders in which a loop over a map can visit it: every entry once.\<close>

definition proper_orders :: "'pub orders \<Rightarrow> bool" where
  "proper_orders o' \<longleftrightarrow> is_order (o_mixes o') \<and> is_order (o_replicas o') \<and> is_order (o_votes o')
     \<and> is_order (o_certs o') \<and> (\<forall>k. is_order (o_commits o' k)) \<and> is_order (o_reveals o')
     \<and> is_order (o_mixTally o') \<and> is_order (o_replicaTally o') \<and> is_order (o_mixParams o')
     \<and> is_order (o_nodeMap o') \<and> is_order (o_authorizedReplicas o') \<and> is_order (o_signatures o')
     \<and> is_order (o_verifiers o') \<and> is_order (o_good o') \<and> is_order (o_sign o')
     \<and> (\<forall>k k2 b. is_order (o_verify o' k k2 b)) \<and> (\<forall>i. is_order (o_threshold o' i))
     \<and> is_order (fst (o_wellformed o')) \<and> is_order (snd (o_wellformed o'))"

definition proper_client :: "client_orders \<Rightarrow> bool" where
  "proper_client co \<longleftrightarrow> (\<forall>i. is_order (co_threshold co i)) \<and> is_order (co_parse co)
     \<and> is_order (fst (co_wellformed co)) \<and> is_order (snd (co_wellformed co))"

text \<open>
  One step. The handlers of descriptor uploads contribute their two writes, which other steps may come
  between; the checks of the post, which read no state that changes, hold for the descriptor stored.
\<close>

inductive authority_step :: "('pub, 'priv) authority \<Rightarrow> auth_state \<Rightarrow> auth_state \<Rightarrow> bool"
  for x :: "('pub, 'priv) authority" where
  step_vote: "is_order vord \<Longrightarrow> is_order pord \<Longrightarrow> onVoteUpload (at t x) vord pord s u = (s', code)
    \<Longrightarrow> authority_step x s s'"
| step_cert: "is_order vord \<Longrightarrow> is_order pord \<Longrightarrow> onCertUpload (at t x) vord pord s u = (s', code)
    \<Longrightarrow> authority_step x s s'"
| step_reveal: "is_order vord \<Longrightarrow> onRevealUpload (at t x) vord s u = Inr (s', code) \<Longrightarrow> authority_step x s s'"
| step_sig: "is_order vord \<Longrightarrow> onSigUpload (at t x) vord s u = (s', code) \<Longrightarrow> authority_step x s s'"
| step_persist: "authority_step x s (s\<lparr>db_descriptors := put_slot e pk raw (db_descriptors s)\<rparr>)"
| step_persist_replica: "authority_step x s (s\<lparr>db_replicaDescriptors := put_slot e pk raw (db_replicaDescriptors s)\<rparr>)"
| step_persist_failed: "authority_step x s (s\<lparr>fatal := True\<rparr>)"
| step_descriptor: "descriptorAuthorizationError x d = None \<Longrightarrow> IsDescriptorWellFormed (pki x) e d = Inr ()
    \<Longrightarrow> authority_step x s (s\<lparr>descriptors := descriptor_phase3 e (md_hash (pki x) d) d (descriptors s)\<rparr>)"
| step_replica: "replicaAuthorizationError x d = None \<Longrightarrow> IsReplicaDescriptorWellFormed (pki x) d = Inr ()
    \<Longrightarrow> authority_step x s (s\<lparr>replicaDescriptors := descriptor_phase3 e (rd_hash (pki x) d) d (replicaDescriptors s)\<rparr>)"
| step_fetched: "e \<in> set (fetching s) \<Longrightarrow> proper_client co \<Longrightarrow> is_order gord
    \<Longrightarrow> GetPKIDocumentForEpoch (pki (at t x)) co gord (map (\<lambda>(_, k, _). k) (cfg_Authorities (cfg x))) now e replies = Inr (doc, raw)
    \<Longrightarrow> authority_step x s (onFetched e doc s)"
| step_tick: "proper_orders o' \<Longrightarrow> fsm (at t x) o' c rnow rn db_ok prune_ok now s = Inr (s', sleep) \<Longrightarrow> authority_step x s s'"

text \<open>The states an authority can reach from a start with a given database.\<close>

inductive authority_run :: "('pub, 'priv) authority \<Rightarrow> auth_state \<Rightarrow> auth_state \<Rightarrow> bool"
  for x :: "('pub, 'priv) authority" where
  run_start: "authority_run x s s"
| run_step: "authority_run x s s' \<Longrightarrow> authority_step x s' s'' \<Longrightarrow> authority_run x s s''"

end
