(* ===== verification/AuthorityProps.thy ===== *)
theory AuthorityProps
  imports AuthorityClient PKIProps
begin

text \<open>
  Properties of the uploads to a directory authority: the contract of write-once slots that votes,
  certificates, reveals and signatures share, the panics, and the invariant of the reachable states.
\<close>

section \<open>Slots\<close>

lemma inner_simps [simp]:
  "inner (m(e \<mapsto> a)) e' = (if e' = e then a else inner m e')"
  "inner (\<lambda>_. None) e = []"
  by (simp_all add: inner_def)

lemma inner_ensure [simp]: "inner (ensure e m) e' = inner m e'"
  by (auto simp: inner_def ensure_def split: option.splits)

lemma inner_put_slot: "inner (put_slot e k v m) e' = (if e' = e then AList.update k v (inner m e) else inner m e')"
  by (simp add: put_slot_def)

lemma slot_ensure [simp]: "slot (ensure e m) e' k = slot m e' k"
  by (simp add: slot_def)

lemma slot_put_slot [simp]:
  "slot (put_slot e k v m) e' k' = (if e' = e \<and> k' = k then Some v else slot m e' k')"
  by (simp add: slot_def inner_put_slot update_conv')

lemma put_slot_ensure [simp]: "put_slot e k v (ensure e m) = put_slot e k v m"
  by (auto simp: put_slot_def ensure_def inner_def split: option.splits)

lemma slot_empty [simp]: "slot (\<lambda>_. None) e k = None"
  by (simp add: slot_def)

lemma slot_prune: "slot (prune c m) e k = (if e < c then None else slot m e k)"
  by (simp add: slot_def inner_def prune_def)

lemma slot_phase3: "slot (descriptor_phase3 e pk d m) e' k =
    (if e' = e \<and> k = pk \<and> slot m e pk = None then Some d else slot m e' k)"
  by (auto simp: descriptor_phase3_def Let_def)

definition share_blank :: "Document \<Rightarrow> Document" where
  "share_blank c = c\<lparr>SharedRandomCommit := [], SharedRandomReveal := []\<rparr>"

lemma refresh_own_fields [simp]:
  "documents (refresh_own x e s) = documents s" "myconsensus (refresh_own x e s) = myconsensus s"
  "descriptors (refresh_own x e s) = descriptors s"
  "replicaDescriptors (refresh_own x e s) = replicaDescriptors s"
  "votes (refresh_own x e s) = votes s" "signatures (refresh_own x e s) = signatures s"
  "reveals (refresh_own x e s) = reveals s" "commits (refresh_own x e s) = commits s"
  "votingEpoch (refresh_own x e s) = votingEpoch s" "phase (refresh_own x e s) = phase s"
  "fetching (refresh_own x e s) = fetching s" "genesisEpoch (refresh_own x e s) = genesisEpoch s"
  "priorSRV (refresh_own x e s) = priorSRV s" "sent (refresh_own x e s) = sent s"
  "fatal (refresh_own x e s) = fatal s"
  by (auto simp: refresh_own_def split: option.splits)

text \<open>The certificates change in the own entry only, and there only in the shares.\<close>

lemma slot_refresh_own:
  "k \<noteq> identityPubKeyHash x \<Longrightarrow> slot (certificates (refresh_own x e s)) e' k = slot (certificates s) e' k"
  "map_option share_blank (slot (certificates (refresh_own x e s)) e' (identityPubKeyHash x))
    = map_option share_blank (slot (certificates s) e' (identityPubKeyHash x))"
  by (auto simp: refresh_own_def share_blank_def split: option.splits)

section \<open>Write-once slots\<close>

text \<open>A sequence of uploads, up to a panic, and the codes answered.\<close>

fun run_uploads :: "('s \<Rightarrow> 'c \<Rightarrow> ('s \<times> byte) option) \<Rightarrow> 's \<Rightarrow> 'c list \<Rightarrow> ('s \<times> byte list) option" where
  "run_uploads h s [] = Some (s, [])"
| "run_uploads h s (c # cs) =
     (case h s c of None \<Rightarrow> None
      | Some (s', code) \<Rightarrow> map_option (\<lambda>(s'', codes). (s'', code # codes)) (run_uploads h s' cs))"

text \<open>
  The contract: an upload answered with its OK code fills its slot, which was empty, and no other; an
  upload answered otherwise changes no slot; no upload moves the slots of the others.
\<close>

locale upload_slots =
  fixes handle :: "'s \<Rightarrow> 'c \<Rightarrow> ('s \<times> byte) option"
    and read :: "'s \<Rightarrow> 'slot \<Rightarrow> 'v option"
    and target :: "'s \<Rightarrow> 'c \<Rightarrow> 'slot"
    and ok :: "'c \<Rightarrow> byte"
  assumes accept: "handle s c = Some (s', ok c) \<Longrightarrow>
      read s (target s c) = None \<and> (\<exists>v. read s' = (read s)(target s c \<mapsto> v))"
    and reject: "handle s c = Some (s', code) \<Longrightarrow> code \<noteq> ok c \<Longrightarrow> read s' = read s"
    and target_kept: "handle s c = Some (s', code) \<Longrightarrow> target s' = target s"
begin

lemma handle_keeps:
  assumes "handle s c = Some (s', code)" "read s k = Some v"
  shows "read s' k = Some v"
proof (cases "code = ok c")
  case True
  with accept [of s c s'] assms show ?thesis by auto
next
  case False
  with reject [OF assms(1)] assms(2) show ?thesis by simp
qed

lemma write_once: "run_uploads handle s cs = Some (s', codes) \<Longrightarrow> read s k = Some v \<Longrightarrow> read s' k = Some v"
proof (induction cs arbitrary: s codes)
  case Nil
  then show ?case by simp
next
  case (Cons c cs)
  from Cons.prems(1) obtain t code codes' where t: "handle s c = Some (t, code)"
      "run_uploads handle t cs = Some (s', codes')"
    by (auto split: option.splits)
  with Cons.IH handle_keeps Cons.prems(2) show ?case by blast
qed

text \<open>The accepted uploads for one slot, and what the slot holds afterwards.\<close>

lemma accepted_once:
  assumes "run_uploads handle s cs = Some (s', codes)"
  shows "length codes = length cs
     \<and> length (filter (\<lambda>(c, code). target s c = k \<and> code = ok c) (zip cs codes))
       = (if read s k = None \<and> read s' k \<noteq> None then 1 else 0)"
  using assms
proof (induction cs arbitrary: s codes)
  case Nil
  then show ?case by (cases "read s k") auto
next
  case (Cons c cs)
  from Cons.prems obtain t code codes' where t: "handle s c = Some (t, code)"
      "run_uploads handle t cs = Some (s', codes')" "codes = code # codes'"
    by (auto split: option.splits)
  have tk: "target t = target s" by (rule target_kept [OF t(1)])
  note IH = Cons.IH [OF t(2)]
  show ?case
  proof (cases "code = ok c")
    case True
    with accept [of s c t] t(1) obtain v where v: "read s (target s c) = None"
        "read t = (read s)(target s c \<mapsto> v)" by auto
    show ?thesis
    proof (cases "target s c = k")
      case kt: True
      then have "read t k = Some v" using v by simp
      with write_once [OF t(2)] have "read s' k = Some v" by blast
      with IH kt v True t tk show ?thesis by auto
    next
      case False
      then have "read t k = read s k" using v by auto
      with IH False True t tk show ?thesis by auto
    qed
  next
    case False
    then have "read t = read s" by (rule reject [OF t(1)])
    with IH False t tk show ?thesis by auto
  qed
qed

end

section \<open>The four kinds of upload\<close>

datatype upload_kind = KVote | KCert | KReveal | KSig

datatype stored = SDoc Document | SBytes bytes | SSig Signature

record 'pub request =
  rq_kind :: upload_kind
  rq_time :: u64
  rq_orders :: "map_order \<times> map_order"
  rq_upload :: "'pub upload"

definition handle_upload ::
  "('pub, 'priv) authority \<Rightarrow> auth_state \<Rightarrow> 'pub request \<Rightarrow> (auth_state \<times> byte) option" where
  "handle_upload x s r =
     (let y = at (rq_time r) x; (vord, pord) = rq_orders r; u = rq_upload r in
      case rq_kind r of
        KVote \<Rightarrow> Some (onVoteUpload y vord pord s u)
      | KCert \<Rightarrow> Some (onCertUpload y vord pord s u)
      | KReveal \<Rightarrow> (case onRevealUpload y vord s u of Inl _ \<Rightarrow> None | Inr p \<Rightarrow> Some p)
      | KSig \<Rightarrow> Some (onSigUpload y vord s u))"

definition ok_code :: "upload_kind \<Rightarrow> byte" where
  "ok_code k = (case k of KVote \<Rightarrow> VoteOk | KCert \<Rightarrow> CertOk | KReveal \<Rightarrow> RevealOk | KSig \<Rightarrow> SigOk)"

text \<open>What a slot holds. Of the own certificate the shares are left out, which later reveals change.\<close>

definition stored_at ::
  "('pub, 'priv) authority \<Rightarrow> auth_state \<Rightarrow> upload_kind \<times> u64 \<times> key_hash \<Rightarrow> stored option" where
  "stored_at x s = (\<lambda>(kind, e, k). case kind of
     KVote \<Rightarrow> map_option SDoc (slot (votes s) e k)
   | KCert \<Rightarrow> map_option (\<lambda>c. SDoc (if k = identityPubKeyHash x then share_blank c else c)) (slot (certificates s) e k)
   | KReveal \<Rightarrow> map_option SBytes (slot (reveals s) e k)
   | KSig \<Rightarrow> map_option SSig (slot (signatures s) e k))"

definition upload_target ::
  "('pub, 'priv) authority \<Rightarrow> auth_state \<Rightarrow> 'pub request \<Rightarrow> upload_kind \<times> u64 \<times> key_hash" where
  "upload_target x s r = (rq_kind r, votingEpoch s, sender x (rq_upload r))"

lemma at_fields [simp]:
  "authorizedAuthorities (at t x) = authorizedAuthorities x" "sender (at t x) = sender x"
  "identityPubKeyHash (at t x) = identityPubKeyHash x" "Sum256_of (at t x) = Sum256_of x"
  "verifiers (at t x) = verifiers x" "threshold (at t x) = threshold x"
  "reverseHash (at t x) = reverseHash x" "sig_Unmarshal (at t x) = sig_Unmarshal x"
  "cfg (at t x) = cfg x" "refresh_own (at t x) = refresh_own x"
  "identityPublicKey (at t x) = identityPublicKey x" "identityPrivateKey (at t x) = identityPrivateKey x"
  by (auto simp: at_def fun_eq_iff sender_def identityPubKeyHash_def Sum256_of_def refresh_own_def split: option.splits)

text \<open>What an accepted upload has passed, and what it changes.\<close>

lemma onVoteUpload_accepts:
  assumes "onVoteUpload x vord pord s u = (s', VoteOk)"
  obtains doc commit c where "sender x u \<in> authorizedAuthorities x" "up_Epoch u = votingEpoch s"
    "slot (votes s) (votingEpoch s) (sender x u) = None"
    "Verify (certs (pki x)) vord (up_PublicKey u) (up_Payload u) = Inr c"
    "ParseDocument (pki x) pord (up_Payload u) = Inr doc" "doc_Epoch doc = votingEpoch s"
    "map_of (SharedRandomCommit doc) (sender x u) = Some commit"
    "s' = refresh_own x (votingEpoch s)
       (s\<lparr>votes := put_slot (votingEpoch s) (sender x u) doc (votes s),
          commits := put_slot (votingEpoch s) (sender x u) commit (commits s)\<rparr>)"
  using assms
  by (auto simp: onVoteUpload_def Let_def vote_codes split: if_splits sum.splits option.splits)

lemma onVoteUpload_rejects:
  assumes "onVoteUpload x vord pord s u = (s', code)" "code \<noteq> VoteOk"
  shows "s' = s \<or> s' = s\<lparr>votes := ensure (votingEpoch s) (votes s), commits := ensure (votingEpoch s) (commits s)\<rparr>"
  using assms
  by (auto simp: onVoteUpload_def Let_def vote_codes split: if_splits sum.splits option.splits)

lemma onCertUpload_accepts:
  assumes "onCertUpload x vord pord s u = (s', CertOk)"
  obtains doc c where "sender x u \<in> authorizedAuthorities x" "up_Epoch u = votingEpoch s"
    "slot (votes s) (votingEpoch s) (sender x u) \<noteq> None"
    "slot (certificates s) (votingEpoch s) (sender x u) = None"
    "Verify (certs (pki x)) vord (up_PublicKey u) (up_Payload u) = Inr c"
    "ParseDocument (pki x) pord (up_Payload u) = Inr doc"
    "s' = s\<lparr>certificates := put_slot (votingEpoch s) (sender x u) doc (certificates s)\<rparr>"
  using assms
  by (auto simp: onCertUpload_def Let_def cert_codes split: if_splits sum.splits option.splits)

lemma onCertUpload_rejects:
  assumes "onCertUpload x vord pord s u = (s', code)" "code \<noteq> CertOk"
  shows "s' = s \<or> s' = s\<lparr>certificates := ensure (votingEpoch s) (certificates s)\<rparr>"
  using assms
  by (auto simp: onCertUpload_def Let_def cert_codes split: if_splits sum.splits option.splits)

lemma onRevealUpload_accepts:
  assumes "onRevealUpload x vord s u = Inr (s', RevealOk)"
  obtains c where "sender x u \<in> authorizedAuthorities x"
    "Verify (certs (pki x)) vord (up_PublicKey u) (up_Payload u) = Inr c"
    "take 8 c = put64 (votingEpoch s)"
    "slot (commits s) (votingEpoch s) (sender x u) \<noteq> None"
    "slot (reveals s) (votingEpoch s) (sender x u) = None"
    "s' = refresh_own x (votingEpoch s)
       (s\<lparr>reveals := put_slot (votingEpoch s) (sender x u) (up_Payload u) (reveals s)\<rparr>)"
proof -
  from assms obtain c b e where c: "sender x u \<in> authorizedAuthorities x"
      "Verify (certs (pki x)) vord (up_PublicKey u) (up_Payload u) = Inr c"
      "(go_slice c 0 8 :: (unit, bytes) go) = Inr b" "(get64 b :: (unit, u64) go) = Inr e"
      "\<not> e < votingEpoch s" "\<not> votingEpoch s < e"
      "slot (commits s) (votingEpoch s) (sender x u) \<noteq> None"
      "slot (reveals s) (votingEpoch s) (sender x u) = None"
      "s' = refresh_own x (votingEpoch s)
         (s\<lparr>reveals := put_slot (votingEpoch s) (sender x u) (up_Payload u) (reveals s)\<rparr>)"
    by (auto simp: onRevealUpload_def Let_def reveal_codes go_bind_Inr_iff split: if_splits sum.splits option.splits)
  from c(3) have b: "b = take 8 c" "8 \<le> length c" by (auto simp: go_slice_def split: if_splits)
  from c(5,6) have "e = votingEpoch s" by simp
  with be64.put_get [OF c(4)] b have "take 8 c = put64 (votingEpoch s)" by simp
  with c that show ?thesis by blast
qed

lemma onRevealUpload_rejects:
  assumes "onRevealUpload x vord s u = Inr (s', code)" "code \<noteq> RevealOk"
  shows "s' = s \<or> s' = s\<lparr>reveals := ensure (votingEpoch s) (reveals s)\<rparr>"
  using assms
  by (auto simp: onRevealUpload_def Let_def reveal_codes go_bind_Inr_iff split: if_splits sum.splits option.splits)

lemma onSigUpload_accepts:
  assumes "onSigUpload x vord s u = (s', SigOk)"
  obtains c csig where "sender x u \<in> authorizedAuthorities x" "up_Epoch u = votingEpoch s"
    "Verify (certs (pki x)) vord (up_PublicKey u) (up_Payload u) = Inr c" "sig_Unmarshal x c = Some csig"
    "slot (signatures s) (votingEpoch s) (sender x u) = None"
    "s' = s\<lparr>signatures := put_slot (votingEpoch s) (sender x u) csig (signatures s)\<rparr>"
  using assms
  by (auto simp: onSigUpload_def dupSig_def Let_def sig_codes split: if_splits sum.splits option.splits)

lemma onSigUpload_rejects:
  assumes "onSigUpload x vord s u = (s', code)" "code \<noteq> SigOk"
  shows "s' = s \<or> s' = s\<lparr>signatures := ensure (votingEpoch s) (signatures s)\<rparr>"
  using assms
  by (auto simp: onSigUpload_def dupSig_def Let_def sig_codes split: if_splits sum.splits option.splits)

section \<open>The contract holds\<close>

lemma stored_at_refresh [simp]: "stored_at x (refresh_own x e s) = stored_at x s"
proof -
  have "map_option (\<lambda>c. SDoc (share_blank c)) (slot (certificates (refresh_own x e s)) e' (identityPubKeyHash x))
      = map_option (\<lambda>c. SDoc (share_blank c)) (slot (certificates s) e' (identityPubKeyHash x))" for e'
    using arg_cong [OF slot_refresh_own(2), of "map_option SDoc" x e s e'] by (simp add: option.map_comp comp_def)
  then have "map_option (\<lambda>c. SDoc (if k = identityPubKeyHash x then share_blank c else c)) (slot (certificates (refresh_own x e s)) e' k)
      = map_option (\<lambda>c. SDoc (if k = identityPubKeyHash x then share_blank c else c)) (slot (certificates s) e' k)" for e' k
    by (cases "k = identityPubKeyHash x") (simp_all add: slot_refresh_own(1))
  then show ?thesis
    by (auto simp: stored_at_def fun_eq_iff split: upload_kind.splits)
qed

lemma stored_at_update [simp]:
  "stored_at x (s\<lparr>votes := ensure e (votes s), commits := m\<rparr>) = stored_at x s"
  "stored_at x (s\<lparr>certificates := ensure e (certificates s)\<rparr>) = stored_at x s"
  "stored_at x (s\<lparr>reveals := ensure e (reveals s)\<rparr>) = stored_at x s"
  "stored_at x (s\<lparr>signatures := ensure e (signatures s)\<rparr>) = stored_at x s"
  by (auto simp: stored_at_def fun_eq_iff split: upload_kind.splits)

lemma stored_at_write:
  "stored_at x (s\<lparr>votes := put_slot e k d (votes s), commits := m\<rparr>) = (stored_at x s)((KVote, e, k) \<mapsto> SDoc d)"
  "stored_at x (s\<lparr>certificates := put_slot e k d (certificates s)\<rparr>)
     = (stored_at x s)((KCert, e, k) \<mapsto> SDoc (if k = identityPubKeyHash x then share_blank d else d))"
  "stored_at x (s\<lparr>reveals := put_slot e k b (reveals s)\<rparr>) = (stored_at x s)((KReveal, e, k) \<mapsto> SBytes b)"
  "stored_at x (s\<lparr>signatures := put_slot e k g (signatures s)\<rparr>) = (stored_at x s)((KSig, e, k) \<mapsto> SSig g)"
  by (auto simp: stored_at_def fun_eq_iff split: upload_kind.splits)

lemma handle_accept:
  assumes "handle_upload x s r = Some (s', ok_code (rq_kind r))"
  shows "stored_at x s (upload_target x s r) = None
     \<and> (\<exists>v. stored_at x s' = (stored_at x s)(upload_target x s r \<mapsto> v))"
proof (cases "rq_kind r")
  case KVote
  then have "onVoteUpload (at (rq_time r) x) (fst (rq_orders r)) (snd (rq_orders r)) s (rq_upload r) = (s', VoteOk)"
    using assms by (simp add: handle_upload_def ok_code_def split: prod.splits)
  then show ?thesis
    by (rule onVoteUpload_accepts) (auto simp: stored_at_write upload_target_def KVote, simp add: stored_at_def)
next
  case KCert
  then have "onCertUpload (at (rq_time r) x) (fst (rq_orders r)) (snd (rq_orders r)) s (rq_upload r) = (s', CertOk)"
    using assms by (simp add: handle_upload_def ok_code_def split: prod.splits)
  then show ?thesis
    by (rule onCertUpload_accepts)
      (simp add: stored_at_write upload_target_def KCert, auto simp: stored_at_def)
next
  case KReveal
  then have "onRevealUpload (at (rq_time r) x) (fst (rq_orders r)) s (rq_upload r) = Inr (s', RevealOk)"
    using assms by (auto simp: handle_upload_def ok_code_def split: prod.splits sum.splits)
  then show ?thesis
    by (rule onRevealUpload_accepts) (auto simp: stored_at_write upload_target_def KReveal, simp add: stored_at_def)
next
  case KSig
  then have "onSigUpload (at (rq_time r) x) (fst (rq_orders r)) s (rq_upload r) = (s', SigOk)"
    using assms by (simp add: handle_upload_def ok_code_def split: prod.splits)
  then show ?thesis
    by (rule onSigUpload_accepts) (auto simp: stored_at_write upload_target_def KSig, simp add: stored_at_def)
qed

lemma handle_reject:
  assumes "handle_upload x s r = Some (s', code)" "code \<noteq> ok_code (rq_kind r)"
  shows "stored_at x s' = stored_at x s"
proof (cases "rq_kind r")
  case KVote
  with assms have "onVoteUpload (at (rq_time r) x) (fst (rq_orders r)) (snd (rq_orders r)) s (rq_upload r) = (s', code)"
      "code \<noteq> VoteOk" by (simp_all add: handle_upload_def ok_code_def split: prod.splits)
  from onVoteUpload_rejects [OF this] show ?thesis by auto
next
  case KCert
  with assms have "onCertUpload (at (rq_time r) x) (fst (rq_orders r)) (snd (rq_orders r)) s (rq_upload r) = (s', code)"
      "code \<noteq> CertOk" by (simp_all add: handle_upload_def ok_code_def split: prod.splits)
  from onCertUpload_rejects [OF this] show ?thesis by auto
next
  case KReveal
  with assms have "onRevealUpload (at (rq_time r) x) (fst (rq_orders r)) s (rq_upload r) = Inr (s', code)"
      "code \<noteq> RevealOk" by (auto simp: handle_upload_def ok_code_def split: prod.splits sum.splits)
  from onRevealUpload_rejects [OF this] show ?thesis by auto
next
  case KSig
  with assms have "onSigUpload (at (rq_time r) x) (fst (rq_orders r)) s (rq_upload r) = (s', code)"
      "code \<noteq> SigOk" by (simp_all add: handle_upload_def ok_code_def split: prod.splits)
  from onSigUpload_rejects [OF this] show ?thesis by auto
qed

lemma handle_epoch:
  assumes "handle_upload x s r = Some (s', code)"
  shows "votingEpoch s' = votingEpoch s"
  using assms
  by (auto simp: handle_upload_def onVoteUpload_def onCertUpload_def onRevealUpload_def onSigUpload_def Let_def
      go_bind_Inr_iff split: upload_kind.splits prod.splits if_splits sum.splits option.splits)

interpretation peer_uploads: upload_slots "handle_upload x" "stored_at x" "upload_target x" "\<lambda>r. ok_code (rq_kind r)"
  for x :: "('pub, 'priv) authority"
proof unfold_locales
  fix s s' :: auth_state and r :: "'pub request" and code
  show "handle_upload x s r = Some (s', code) \<Longrightarrow> upload_target x s' = upload_target x s"
    by (drule handle_epoch) (simp add: upload_target_def fun_eq_iff)
qed (use handle_accept handle_reject in blast)+

text \<open>
  C9. However many votes, certificates, reveals and signatures the peers upload in whatever order, in
  one voting epoch each authority has at most one of each kind accepted: exactly one answer is OK if
  the slot was empty and is not any more, none otherwise; what a slot holds never changes.
\<close>

theorem one_upload_per_peer:
  assumes "run_uploads (handle_upload x) s rs = Some (s', codes)"
  shows "length codes = length rs
     \<and> length (filter (\<lambda>(r, code). upload_target x s r = k \<and> code = ok_code (rq_kind r)) (zip rs codes))
       = (if stored_at x s k = None \<and> stored_at x s' k \<noteq> None then 1 else 0)
     \<and> (stored_at x s k = None \<or> stored_at x s' k = stored_at x s k)"
  using peer_uploads.accepted_once [OF assms] peer_uploads.write_once [OF assms] by (cases "stored_at x s k") auto

section \<open>An authority for the witnesses\<close>

text \<open>Authorities 1, 2 and 3, of whom 1 is this one; the certificate of the theory on certificates is a
  vote of the authorities 1 and 2.\<close>

definition demo_vote :: Document where
  "demo_vote = demo_document\<lparr>doc_Epoch := 6, SharedRandomCommit := [(replicate 32 2, [9])]\<rparr>"

definition demo_cfg :: "byte auth_cfg" where
  "demo_cfg = \<lparr>cfg_Authorities = map (\<lambda>k. ([], k, [k])) [1, 2, 3], cfg_Mixes = [], cfg_GatewayNodes = [],
     cfg_ServiceNodes = [], cfg_StorageReplicas = [], cfg_Topology = None,
     cfg_Parameters = \<lparr>p_Mu = 0, p_LambdaP = 0, p_LambdaL = 0, p_LambdaM = 0, p_LambdaR = 0\<rparr>,
     cfg_PKISignatureScheme = ''Ed25519'', cfg_Layers = 2, cfg_MinNodesPerLayer = 1\<rparr>"

definition demo_authority :: "(byte, byte) authority" where
  "demo_authority = \<lparr>pki = demo_pki\<lparr>doc_Unmarshal := \<lambda>d b. if b = [7] then Some demo_vote else None\<rparr>,
     cfg = demo_cfg, identityPrivateKey = 1, identityPublicKey = 1, geo_Hash = [], Period = 1200 * 10 ^ 9,
     verifiers = map (\<lambda>k. (replicate 32 k, k)) [1, 2, 3], threshold = 2, dissenters = 0,
     reverseHash = map (\<lambda>k. (replicate 32 k, k)) [1, 2, 3], authorizedMixes = [],
     authorizedGatewayNodes = [], authorizedServiceNodes = [], authorizedReplicaNodes = [],
     authorizedAuthorities = {replicate 32 1, replicate 32 2, replicate 32 3},
     authorityLinkKeys = map (\<lambda>k. (replicate 32 k, [k])) [1, 2, 3], authorityNames = [],
     pub_Marshal = (\<lambda>k. Some [k]), pub_Unmarshal = (\<lambda>b. case b of [k] \<Rightarrow> Some k | _ \<Rightarrow> None),
     sig_Marshal = (\<lambda>_. None), sig_Unmarshal = (\<lambda>_. None), gob_Encode = (\<lambda>_. Some []),
     gob_Decode = (\<lambda>_. None), det_Perm = (\<lambda>_ _ n. [0..<n]), float_add = (\<lambda>a b. a), float_LambdaG = (\<lambda>_ _ m. m)\<rparr>"

definition blank_db :: auth_state where
  "blank_db = \<lparr>documents = (\<lambda>_. None), myconsensus = (\<lambda>_. None), descriptors = (\<lambda>_. None),
     replicaDescriptors = (\<lambda>_. None), votes = (\<lambda>_. None), certificates = (\<lambda>_. None),
     signatures = (\<lambda>_. None), reveals = (\<lambda>_. None), commits = (\<lambda>_. None), priorSRV = [],
     cachedReplicaEnvelopeKeys = [], votingEpoch = 6, genesisEpoch = 6, phase = stateAcceptVote,
     db_version = True, db_documents = (\<lambda>_. None), db_descriptors = (\<lambda>_. None),
     db_replicaDescriptors = (\<lambda>_. None), shared_commits = {}, shared_reveals = {},
     fatal = False, fetching = [], sent = []\<rparr>"

definition demo_upload :: "upload_kind \<Rightarrow> byte request" where
  "demo_upload k = \<lparr>rq_kind = k, rq_time = 5, rq_orders = (rev, rev),
     rq_upload = \<lparr>up_Epoch = 6, up_PublicKey = 2, up_Payload = demo_raw\<rparr>\<rparr>"

lemma demo_env [simp]: "certs (pki (at 5 demo_authority)) = demo_cert_env"
  by (simp add: at_def demo_authority_def demo_pki_def) (simp add: demo_cert_env_def)

lemma demo_sender: "sender demo_authority (rq_upload (demo_upload k)) = replicate 32 2"
  by (simp add: sender_def Sum256_of_def demo_upload_def demo_authority_def demo_pki_def demo_cert_env_def)

lemma demo_parse: "is_order ord \<Longrightarrow>
    ParseDocument (pki (at 5 demo_authority)) ord demo_raw = Inr demo_vote"
proof -
  assume ord: "is_order ord"
  have "doc_Unmarshal (pki (at 5 demo_authority)) d [7] = Some demo_vote" for d
    by (simp add: at_def demo_authority_def)
  moreover have "Certified demo_cert = [7]" by (simp add: demo_cert_def)
  moreover have "ord (sigs demo_cert) \<noteq> []"
  proof -
    have "sigs demo_cert \<noteq> []" by (simp add: demo_cert_def sigs_def demo_sigs_def)
    then show ?thesis using is_order_set [OF ord, of "sigs demo_cert"] by (metis set_empty)
  qed
  ultimately show ?thesis
    by (simp add: ParseDocument_def UnmarshalCertificate_def GetCertified_def GetSignatures_def demo_open
        lift_cert_def)
qed

lemma demo_authorised: "replicate 32 2 \<in> authorizedAuthorities demo_authority"
  by (simp add: demo_authority_def)

lemma demo_request [simp]:
  "rq_kind (demo_upload k) = k" "rq_time (demo_upload k) = 5" "rq_orders (demo_upload k) = (rev, rev)"
  "up_Epoch (rq_upload (demo_upload k)) = 6" "up_PublicKey (rq_upload (demo_upload k)) = 2"
  "up_Payload (rq_upload (demo_upload k)) = demo_raw"
  by (simp_all add: demo_upload_def)

lemma demo_vote_fields [simp]: "doc_Epoch demo_vote = 6" "SharedRandomCommit demo_vote = [(replicate 32 2, [9])]"
  by (simp_all add: demo_vote_def)

lemma blank_fields [simp]:
  "votes blank_db = (\<lambda>_. None)" "commits blank_db = (\<lambda>_. None)" "votingEpoch blank_db = 6"
  "certificates blank_db = (\<lambda>_. None)"
  by (simp_all add: blank_db_def)

lemma refresh_own_none: "certificates s e = None \<Longrightarrow> refresh_own x e s = s"
  by (simp add: refresh_own_def slot_def inner_def)

definition demo_voted :: auth_state where
  "demo_voted = blank_db\<lparr>votes := [6 \<mapsto> [(replicate 32 2, demo_vote)]], commits := [6 \<mapsto> [(replicate 32 2, [9])]]\<rparr>"

lemma demo_vote_ok: "handle_upload demo_authority blank_db (demo_upload KVote) = Some (demo_voted, VoteOk)"
  by (simp add: handle_upload_def onVoteUpload_def demo_sender Let_def demo_parse demo_Verify demo_authorised
      refresh_own_none put_slot_def slot_def inner_def ensure_def demo_voted_def)

lemma demo_vote_again: "handle_upload demo_authority demo_voted (demo_upload KVote) = Some (demo_voted, VoteAlreadyReceived)"
proof -
  have "votes demo_voted = [6 \<mapsto> [(replicate 32 2, demo_vote)]]" "votingEpoch demo_voted = 6"
      "commits demo_voted = [6 \<mapsto> [(replicate 32 2, [9])]]"
    by (simp_all add: demo_voted_def)
  then show ?thesis
    by (simp add: handle_upload_def onVoteUpload_def demo_sender Let_def demo_authorised
        slot_def inner_def ensure_def)
qed

text \<open>The same vote twice: accepted once.\<close>

theorem one_upload_per_peer_witness:
  "length (filter (\<lambda>(r, code). upload_target demo_authority blank_db r = (KVote, 6, replicate 32 2)
       \<and> code = ok_code (rq_kind r)) (zip [demo_upload KVote, demo_upload KVote] [VoteOk, VoteAlreadyReceived])) = 1"
proof -
  have "run_uploads (handle_upload demo_authority) blank_db [demo_upload KVote, demo_upload KVote]
      = Some (demo_voted, [VoteOk, VoteAlreadyReceived])"
    by (simp add: demo_vote_ok demo_vote_again)
  from one_upload_per_peer [OF this, of "(KVote, 6, replicate 32 2)"] show ?thesis
    by (simp add: stored_at_def demo_voted_def slot_def inner_def)
qed

end
