(* ===== verification/AuthorityDemo.thy ===== *)
theory AuthorityDemo
  imports AuthorityProps
begin

text \<open>The demonstration authority as its configuration makes it.\<close>

definition demo_orders :: "byte orders" where
  "demo_orders = \<lparr>o_mixes = rev, o_replicas = rev, o_votes = rev, o_certs = rev, o_commits = (\<lambda>_. rev),
     o_reveals = rev, o_mixTally = rev, o_replicaTally = rev, o_mixParams = rev, o_nodeMap = rev,
     o_authorizedReplicas = rev, o_signatures = rev, o_verifiers = rev, o_good = rev, o_sign = rev,
     o_verify = (\<lambda>_ _ _. rev), o_threshold = (\<lambda>_. rev), o_wellformed = (rev, rev)\<rparr>"

lemma demo_proper: "proper_orders demo_orders"
  by (simp add: proper_orders_def demo_orders_def)

definition demo_loaded :: "(byte, byte) authority" where
  "demo_loaded = demo_authority\<lparr>authorityNames := map (\<lambda>k. (replicate 32 k, [])) [1, 2, 3]\<rparr>"

lemma demo_hash: "Sum256_of demo_authority k = replicate 32 k"
  by (simp add: Sum256_of_def demo_authority_def demo_pki_def demo_cert_env_def)

lemma Sum256_of_cong: "pki x = pki y \<Longrightarrow> Sum256_of x = Sum256_of y"
  by (simp add: Sum256_of_def fun_eq_iff)

lemma demo_hash_at: "pki x = pki demo_authority \<Longrightarrow> Sum256_of x k = replicate 32 k"
  using demo_hash [of k] Sum256_of_cong [of x demo_authority] by simp

lemma replicate_hash [simp]: "(replicate 32 a :: byte list) = replicate 32 b \<longleftrightarrow> a = b"
  by (simp add: replicate_eq_replicate)

lemma demo_cfg_fields [simp]:
  "cfg demo_authority = demo_cfg" "cfg_Authorities demo_cfg = [([], 1, [1]), ([], 2, [2]), ([], 3, [3])]"
  "cfg_Mixes demo_cfg = []" "cfg_GatewayNodes demo_cfg = []" "cfg_ServiceNodes demo_cfg = []"
  "cfg_StorageReplicas demo_cfg = []"
  by (simp_all add: demo_authority_def demo_cfg_def)

lemma demo_load: "load_tables demo_authority = Inr demo_loaded"
proof -
  have h: "identityPubKeyHash x = replicate 32 (identityPublicKey x)" if "pki x = pki demo_authority" for x
    using demo_hash_at [OF that] by (simp add: identityPubKeyHash_def)
  have own: "identityPublicKey demo_authority = 1" by (simp add: demo_authority_def)
  have v: "load_verifiers demo_authority = [(replicate 32 1, 1), (replicate 32 2, 2), (replicate 32 3, 3)]"
    by (simp add: load_verifiers_def demo_hash h own)
  show ?thesis
    by (simp add: load_tables_def v demo_hash_at h own Let_def)
      (simp add: demo_loaded_def demo_authority_def demo_cfg_def insert_commute)
qed

section \<open>Its start\<close>

lemma at_self: "at (currentEpoch (certs (pki x))) x = x"
  by (simp add: at_def)

lemma demo_at: "at 5 demo_authority = demo_authority" "at 5 demo_loaded = demo_loaded"
  using at_self [of demo_authority] at_self [of demo_loaded]
  by (simp_all add: demo_loaded_def demo_authority_def demo_pki_def demo_cert_env_def)

lemma demo_loaded_fields [simp]:
  "pki demo_loaded = pki demo_authority" "cfg demo_loaded = demo_cfg" "threshold demo_loaded = 2"
  "verifiers demo_loaded = [(replicate 32 1, 1), (replicate 32 2, 2), (replicate 32 3, 3)]"
  "authorizedAuthorities demo_loaded = {replicate 32 1, replicate 32 2, replicate 32 3}"
  by (simp_all add: demo_loaded_def) (simp_all add: demo_authority_def)

lemma demo_certs [simp]: "certs (pki demo_authority) = demo_cert_env"
  using demo_env by (simp add: demo_at)

definition demo_db :: auth_state where
  "demo_db = blank_db\<lparr>db_documents := [6 \<mapsto> demo_raw]\<rparr>"

definition demo_started :: auth_state where
  "demo_started = (empty_state demo_db)\<lparr>documents := [6 \<mapsto> demo_vote]\<rparr>"

lemma demo_verifiers: "getVerifiers demo_loaded demo_orders = [3, 2, 1]"
  by (simp add: getVerifiers_def demo_orders_def)

lemma demo_loaded_threshold:
  "VerifyThreshold demo_cert_env (o_threshold demo_orders) (o_good demo_orders) (getVerifiers demo_loaded demo_orders) 2 demo_raw
     = (None, [7], [1, 2], [3])"
  unfolding demo_verifiers
  by (simp add: demo_orders_def VerifyThreshold_def demo_Verify Let_def) (simp add: demo_cert_env_def)

lemma demo_restored: "newState demo_authority demo_orders 5 demo_db = Inr (demo_loaded, demo_started)"
proof -
  have db: "db_version (empty_state demo_db)" "db_replicaDescriptors (empty_state demo_db) = (\<lambda>_. None)"
      "db_descriptors (empty_state demo_db) = (\<lambda>_. None)" "db_documents (empty_state demo_db) = [6 \<mapsto> demo_raw]"
    by (simp_all add: empty_state_def demo_db_def) (simp_all add: blank_db_def)
  have "is_order (o_sign demo_orders)" by (simp add: demo_orders_def)
  then have p: "ParseDocument (pki demo_authority) (o_sign demo_orders) demo_raw = Inr demo_vote"
    using demo_parse by (simp add: demo_at)
  have "restore_document demo_loaded demo_orders 6 demo_raw (empty_state demo_db) = Inr (Some demo_started)"
    by (simp add: restore_document_def demo_loaded_threshold p demo_started_def)
      (simp add: empty_state_def)
  moreover have "restore_mixes demo_loaded 6 demo_started = Inr demo_started"
      "restore_mixes demo_loaded e (empty_state demo_db) = Inr (empty_state demo_db)" for e
    using db(3) by (simp_all add: restore_mixes_def demo_started_def)
  ultimately have "restorePersistence demo_loaded demo_orders 5 (empty_state demo_db) = Inr demo_started"
    using db by (simp add: restorePersistence_def)
  then show ?thesis by (simp add: newState_def demo_load)
qed

text \<open>The clock of the witnesses: at the beginning of epoch 5.\<close>

definition demo_clock :: clock where
  "demo_clock = \<lparr>c_epoch = 5, c_elapsed = 0, c_till = 1200 * 10 ^ 9, c_elapsed_after = 0, c_till_after = 1200 * 10 ^ 9\<rparr>"

lemma demo_loaded_sender: "sender demo_loaded (rq_upload (demo_upload k)) = replicate 32 2"
  using demo_hash_at [of demo_loaded] by (simp add: sender_def)

text \<open>The authority wakes up at the beginning of epoch 5 and receives the vote of authority 2.\<close>

definition demo_awake :: auth_state where
  "demo_awake = pruneDocuments 5 True (fst (fsm_bootstrap demo_loaded demo_clock demo_started))"

lemma demo_wakes: "authority_step demo_loaded demo_started demo_awake"
proof (rule step_tick [OF demo_proper])
  have "phase demo_started = stateBootstrap" by (simp add: demo_started_def empty_state_def)
  then show "fsm (at 5 demo_loaded) demo_orders demo_clock 0 None True True 5 demo_started
      = Inr (demo_awake, snd (fsm_bootstrap demo_loaded demo_clock demo_started))"
    by (simp add: fsm_def demo_awake_def demo_at split: prod.splits)
qed

lemma demo_awake_fields: "votingEpoch demo_awake = 6" "votes demo_awake = (\<lambda>_. None)"
    "commits demo_awake = (\<lambda>_. None)" "certificates demo_awake = (\<lambda>_. None)" 
  by (simp_all add: demo_awake_def fsm_bootstrap_def demo_clock_def pruneDocuments_def prunePersistedEpochs_def Let_def
      setState_def backgroundFetchConsensus_def demo_started_def empty_state_def prune_def fun_eq_iff
      MixPublishDeadline_def demo_loaded_def demo_authority_def)

end
