(* ===== verification/AuthorityInv.thy ===== *)
theory AuthorityInv
  imports AuthorityDemo
begin

text \<open>
  What holds of every state a directory authority can reach: the votes, certificates, reveals and
  signatures it keeps come from authorised authorities that signed them, and the descriptors from nodes
  it has pinned. Then the schedule: its phases, and that a round always ends.
\<close>

section \<open>What the schedule's own work leaves alone\<close>

text \<open>Only the own entries change, and an own reveal has its commit.\<close>

definition own_shares :: "('pub, 'priv) authority \<Rightarrow> auth_state \<Rightarrow> bool" where
  "own_shares x s \<longleftrightarrow> (\<forall>e. slot (reveals s) e (identityPubKeyHash x) \<noteq> None
     \<longrightarrow> slot (commits s) e (identityPubKeyHash x) \<noteq> None)"

definition own_change :: "('pub, 'priv) authority \<Rightarrow> auth_state \<Rightarrow> auth_state \<Rightarrow> bool" where
  "own_change x s s' \<longleftrightarrow>
     (\<forall>e k. k \<noteq> identityPubKeyHash x \<longrightarrow>
        slot (votes s') e k = slot (votes s) e k \<and> slot (commits s') e k = slot (commits s) e k
      \<and> slot (reveals s') e k = slot (reveals s) e k \<and> slot (certificates s') e k = slot (certificates s) e k)
   \<and> signatures s' = signatures s \<and> descriptors s' = descriptors s \<and> replicaDescriptors s' = replicaDescriptors s
   \<and> (own_shares x s \<longrightarrow> own_shares x s')"

lemma own_change_refl [simp]: "own_change x s s"
  by (simp add: own_change_def)

lemma own_change_trans: "own_change x s t \<Longrightarrow> own_change x t u \<Longrightarrow> own_change x s u"
  by (simp add: own_change_def)

lemma own_change_at [simp]: "own_change (at t x) = own_change x"
  by (simp add: own_change_def own_shares_def fun_eq_iff)

lemma own_change_simps [simp]:
  "own_change x s (s\<lparr>documents := d\<rparr>)" "own_change x s (s\<lparr>myconsensus := d\<rparr>)"
  "own_change x s (s\<lparr>genesisEpoch := e\<rparr>)" "own_change x s (s\<lparr>priorSRV := p\<rparr>)"
  "own_change x s (s\<lparr>votingEpoch := e\<rparr>)" "own_change x s (s\<lparr>phase := ph\<rparr>)"
  "own_change x s (s\<lparr>cachedReplicaEnvelopeKeys := ks\<rparr>)" "own_change x s (s\<lparr>fatal := b\<rparr>)"
  "own_change x s (s\<lparr>fetching := es\<rparr>)" "own_change x s (s\<lparr>sent := ms\<rparr>)"
  "own_change x s (s\<lparr>db_documents := dd\<rparr>)"
  by (simp_all add: own_change_def own_shares_def)

lemma own_change_votes: "own_change x s (s\<lparr>votes := put_slot e (identityPubKeyHash x) v (votes s)\<rparr>)"
  "own_change x s (s\<lparr>votes := ensure e (votes s)\<rparr>)"
  by (simp_all add: own_change_def own_shares_def)

lemma own_change_refresh: "own_change x s t \<Longrightarrow> own_change x s (refresh_own x e t)"
  by (simp add: own_change_def own_shares_def slot_refresh_own(1))

lemma own_change_shares:
  "own_change x s (s\<lparr>commits := put_slot e (identityPubKeyHash x) c (commits s),
     reveals := put_slot e (identityPubKeyHash x) r (reveals s)\<rparr>)"
  by (simp add: own_change_def own_shares_def)

text \<open>Making a document changes the cache of envelope keys only.\<close>

lemma getDocument_Inr:
  assumes "getDocument x o' rnow s descs reps p srv = Inr (s', d)"
  shows "s' = s\<lparr>cachedReplicaEnvelopeKeys := cachedReplicaEnvelopeKeys s'\<rparr>"
    and "doc_Epoch d = votingEpoch s" "GenesisEpoch d = genesisEpoch s" "PriorSharedRandom d = priorSRV s"
    and "SharedRandomValue d = srv"
proof -
  obtain ek ca where b: "buildReplicaEnvelopeKeys reps rnow (cachedReplicaEnvelopeKeys s) = (ek, ca)"
    by (cases "buildReplicaEnvelopeKeys reps rnow (cachedReplicaEnvelopeKeys s)")
  show "s' = s\<lparr>cachedReplicaEnvelopeKeys := cachedReplicaEnvelopeKeys s'\<rparr>"
    using assms b by (auto simp: getDocument_def Let_def go_bind_Inr_iff split: prod.splits)
  show "doc_Epoch d = votingEpoch s" "GenesisEpoch d = genesisEpoch s" "PriorSharedRandom d = priorSRV s"
      "SharedRandomValue d = srv"
    using assms b by (auto simp: getDocument_def Let_def go_bind_Inr_iff split: prod.splits)
qed

lemma getDocument_own_change: "getDocument x o' rnow s descs reps p srv = Inr (s', d) \<Longrightarrow> own_change x s s'"
  by (metis getDocument_Inr(1) own_change_simps(7))

lemma take_over_own_change: "own_change x s (take_over x s)"
  by (auto simp: take_over_def own_change_def own_shares_def split: option.splits)

lemma doCommit_own_change: "doCommit x rn s e = (s', r) \<Longrightarrow> own_change x s s'"
  by (auto simp: doCommit_def own_change_refresh own_change_shares split: sum.splits prod.splits)

lemma getVote_own_change: "getVote x o' rnow rn s e = (s', r) \<Longrightarrow> own_change x s s'"
proof -
  assume a: "getVote x o' rnow rn s e = (s', r)"
  let ?t = "take_over x s"
  let ?doc = "getDocument x o' rnow ?t (map snd (o_mixes o' (inner (descriptors ?t) e)))
     (map snd (o_replicas o' (inner (replicaDescriptors ?t) e))) (cfg_Parameters (cfg x)) (replicate 32 0)"
  have st: "own_change x s ?t" by (rule take_over_own_change)
  show ?thesis
  proof (cases ?doc)
    case (Inl er)
    with a st show ?thesis by (simp add: getVote_def Let_def)
  next
    case (Inr p)
    obtain s2 v where p: "p = (s2, v)" by (cases p)
    obtain s3 r3 where c: "doCommit x rn s2 e = (s3, r3)" by (cases "doCommit x rn s2 e")
    have s3: "own_change x s s3"
      using own_change_trans [OF own_change_trans [OF st getDocument_own_change] doCommit_own_change]
        Inr p c by blast
    have upd: "own_change x s (s3\<lparr>votes := ensure e (votes s3)\<rparr>)"
        "own_change x s (s3\<lparr>votes := put_slot e (identityPubKeyHash x) w (votes s3)\<rparr>)" for w
      using own_change_trans [OF s3 own_change_votes(2)] own_change_trans [OF s3 own_change_votes(1)] by blast+
    show ?thesis
      using a Inr p c s3 upd
      by (auto simp: getVote_def Let_def split: sum.splits if_splits)
  qed
qed

lemma rotate_prior_own_change: "rotate_prior e srv s = Inr s' \<Longrightarrow> own_change x s s'"
  by (auto simp: rotate_prior_def split: if_splits list.splits)

lemma getCertificate_own_change: "getCertificate x o' rnow s e = (s', r) \<Longrightarrow> own_change x s s'"
proof -
  assume a: "getCertificate x o' rnow s e = (s', r)"
  show ?thesis
  proof (cases "tallyVotes x o' s e")
    case (Inl er)
    with a show ?thesis by (simp add: getCertificate_def)
  next
    case (Inr m)
    obtain ms rs ps where m: "m = (ms, rs, ps)" by (cases m) auto
    let ?doc = "getDocument x o' rnow s ms rs ps (replicate 32 0)"
    show ?thesis
    proof (cases ?doc)
      case (Inl er)
      with a Inr m show ?thesis by (simp add: getCertificate_def Let_def)
    next
      case doc: (Inr p)
      obtain s2 c where p: "p = (s2, c)" by (cases p)
      have s2: "own_change x s s2" using getDocument_own_change doc p by blast
      let ?rot = "if priorSRV s2 = [] then Inr (s2\<lparr>priorSRV := [replicate 32 0, replicate 32 0]\<rparr>)
                  else rotate_prior e (replicate 32 0) s2"
      show ?thesis
      proof (cases ?rot)
        case (Inl er)
        with a Inr m doc p s2 show ?thesis by (simp add: getCertificate_def Let_def split: if_splits)
      next
        case rot: (Inr s3)
        have s3: "own_change x s s3"
          by (rule own_change_trans [OF s2]) (use rot rotate_prior_own_change in \<open>auto split: if_splits\<close>)
        show ?thesis
          using a Inr m doc p rot s3
          by (auto simp: getCertificate_def Let_def own_change_def own_shares_def split: sum.splits if_splits)
      qed
    qed
  qed
qed

lemma getMyConsensus_own_change: "getMyConsensus x o' rnow s e = (s', r) \<Longrightarrow> own_change x s s'"
proof -
  assume a: "getMyConsensus x o' rnow s e = (s', r)"
  have rot: "own_change x s t" if "(if b then Inr (s\<lparr>priorSRV := [srv, srv]\<rparr>) else rotate_prior e srv s) = Inr t"
    for b srv t using that rotate_prior_own_change by (auto split: if_splits)
  have doc: "own_change x s u" "own_change x s (u\<lparr>myconsensus := mc\<rparr>)"
    if "own_change x s t" "getDocument x o' rnow t ms rs ps srv = Inr (u, d)" for t u ms rs ps srv d mc
    using own_change_trans [OF that(1) getDocument_own_change [OF that(2)]] own_change_trans own_change_simps(2)
    by blast+
  show ?thesis
    using a by (auto simp: getMyConsensus_def split: option.splits if_splits sum.splits prod.splits
        dest: rot rotate_prior_own_change intro: doc doc [OF own_change_simps(4)])
qed

lemma getThresholdConsensus_own_change: "getThresholdConsensus x o' ok s e = (s', r) \<Longrightarrow> own_change x s s'"
  by (auto simp: getThresholdConsensus_def persistDocument_def Let_def own_change_def own_shares_def
      split: option.splits sum.splits prod.splits if_splits)

lemma send_out_own_change: "own_change x s t \<Longrightarrow> own_change x s (send_out m t)"
  by (simp add: send_out_def own_change_def own_shares_def)

lemma setState_own_change: "own_change x s t \<Longrightarrow> own_change x s (setState p t)"
  by (simp add: setState_def own_change_def own_shares_def)

lemma send_document_own_change:
  "send_document x mk t d = Inr t' \<Longrightarrow> own_change x s t \<Longrightarrow> own_change x s t'"
  by (auto simp: send_document_def intro: send_out_own_change split: sum.splits fail.splits)

lemma go_on_Inr_iff:
  "go_on r ok failed = Inr y \<longleftrightarrow>
     (\<exists>s a. r = (s, Inr a) \<and> ok s a = Inr y) \<or> (\<exists>s e. r = (s, Inl (Err e)) \<and> failed s = Inr y)"
  by (auto simp: go_on_def split: prod.splits sum.splits fail.splits)

text \<open>A wake-up of the schedule is a change of the own entries followed by pruning.\<close>

lemma fsm_own_change:
  assumes "fsm x o' c rnow rn db_ok prune_ok now s = Inr (s', sleep)"
  obtains t where "own_change x s t" "s' = pruneDocuments now prune_ok t"
proof -
  from assms obtain t where t: "s' = pruneDocuments now prune_ok t"
    "(case phase s of
         stateBootstrap \<Rightarrow> Inr (fsm_bootstrap x c s)
       | stateAcceptDescriptor \<Rightarrow> fsm_accept_descriptor x o' c rnow rn s
       | stateAcceptVote \<Rightarrow> Inr (fsm_accept_vote x c s)
       | stateAcceptReveal \<Rightarrow> fsm_accept_reveal x o' c rnow s
       | stateAcceptCert \<Rightarrow> fsm_accept_cert x o' c rnow s
       | stateAcceptSignature \<Rightarrow> fsm_accept_signature x o' c db_ok s) = Inr (t, sleep)"
    by (auto simp: fsm_def go_bind_Inr_iff split: prod.splits)
  have "own_change x s t"
  proof (cases "phase s")
    case stateBootstrap
    with t show ?thesis
      by (auto simp: fsm_bootstrap_def Let_def setState_def backgroundFetchConsensus_def own_change_def
          own_shares_def split: if_splits)
  next
    case stateAcceptDescriptor
    with t show ?thesis
      by (auto simp: fsm_accept_descriptor_def go_bind_Inr_iff go_on_Inr_iff intro!: setState_own_change
          dest: getVote_own_change send_document_own_change)
  next
    case stateAcceptVote
    with t show ?thesis
      by (auto simp: fsm_accept_vote_def do_reveal_def Let_def setState_def send_out_def own_change_def
          own_shares_def split: option.splits)
  next
    case stateAcceptReveal
    with t show ?thesis
      by (auto simp: fsm_accept_reveal_def go_bind_Inr_iff go_on_Inr_iff intro!: setState_own_change
          dest: getCertificate_own_change send_document_own_change)
  next
    case stateAcceptCert
    have f: "own_change x s (u\<lparr>fatal := True\<rparr>)" if "own_change x s u" for u
      using that by (simp add: own_change_def own_shares_def)
    from stateAcceptCert t show ?thesis
      by (auto simp: fsm_accept_cert_def Let_def go_on_Inr_iff intro!: setState_own_change send_out_own_change f
          dest: getMyConsensus_own_change split: option.splits)
  next
    case stateAcceptSignature
    have f: "own_change x s (u\<lparr>votingEpoch := e\<rparr>)" if "own_change x s u" for u e
      using that by (simp add: own_change_def own_shares_def)
    from stateAcceptSignature t show ?thesis
      by (auto simp: fsm_accept_signature_def Let_def go_on_Inr_iff intro!: setState_own_change f
          dest: getThresholdConsensus_own_change)
  qed
  with t that show ?thesis by blast
qed

section \<open>The invariant\<close>

text \<open>A document that the authority with this identity has signed.\<close>

definition authentic :: "('pub, 'priv) authority \<Rightarrow> key_hash \<Rightarrow> Document \<Rightarrow> bool" where
  "authentic x k d \<longleftrightarrow> k \<in> authorizedAuthorities x
     \<and> (\<exists>t vord pord key raw c. is_order vord \<and> is_order pord \<and> Sum256_of x key = k
          \<and> Verify (certs (pki (at t x))) vord key raw = Inr c \<and> ParseDocument (pki (at t x)) pord raw = Inr d)"

text \<open>A reveal that this identity has signed, for the epoch.\<close>

definition authentic_reveal :: "('pub, 'priv) authority \<Rightarrow> u64 \<Rightarrow> key_hash \<Rightarrow> bytes \<Rightarrow> bool" where
  "authentic_reveal x e k b \<longleftrightarrow> k \<in> authorizedAuthorities x
     \<and> (\<exists>t vord key c. is_order vord \<and> Sum256_of x key = k
          \<and> Verify (certs (pki (at t x))) vord key b = Inr c \<and> take 8 c = put64 e)"

definition votes_ok :: "('pub, 'priv) authority \<Rightarrow> auth_state \<Rightarrow> bool" where
  "votes_ok x s \<longleftrightarrow> (\<forall>e k d. k \<noteq> identityPubKeyHash x \<longrightarrow> slot (votes s) e k = Some d \<longrightarrow>
     authentic x k d \<and> doc_Epoch d = e \<and> map_of (SharedRandomCommit d) k \<noteq> None
     \<and> slot (commits s) e k = map_of (SharedRandomCommit d) k)"

definition certs_ok :: "('pub, 'priv) authority \<Rightarrow> auth_state \<Rightarrow> bool" where
  "certs_ok x s \<longleftrightarrow> (\<forall>e k d. k \<noteq> identityPubKeyHash x \<longrightarrow> slot (certificates s) e k = Some d \<longrightarrow>
     authentic x k d \<and> slot (votes s) e k \<noteq> None)"

definition shares_ok :: "('pub, 'priv) authority \<Rightarrow> auth_state \<Rightarrow> bool" where
  "shares_ok x s \<longleftrightarrow> own_shares x s
     \<and> (\<forall>e k. k \<noteq> identityPubKeyHash x \<longrightarrow> slot (commits s) e k \<noteq> None \<longrightarrow> slot (votes s) e k \<noteq> None)
     \<and> (\<forall>e k b. k \<noteq> identityPubKeyHash x \<longrightarrow> slot (reveals s) e k = Some b \<longrightarrow>
          authentic_reveal x e k b \<and> slot (commits s) e k \<noteq> None)"

definition mixes_ok :: "('pub, 'priv) authority \<Rightarrow> MixDescriptor slots \<Rightarrow> bool" where
  "mixes_ok x m \<longleftrightarrow> (\<forall>e k d. slot m e k = Some d \<longrightarrow> md_hash (pki x) d = k \<and> isDescriptorAuthorized x d)"

definition replicas_ok :: "('pub, 'priv) authority \<Rightarrow> ReplicaDescriptor slots \<Rightarrow> bool" where
  "replicas_ok x m \<longleftrightarrow> (\<forall>e k d. slot m e k = Some d \<longrightarrow> rd_hash (pki x) d = k \<and> isReplicaDescriptorAuthorized x d)"

definition nodes_ok :: "('pub, 'priv) authority \<Rightarrow> auth_state \<Rightarrow> bool" where
  "nodes_ok x s \<longleftrightarrow> (\<forall>e k. slot (signatures s) e k \<noteq> None \<longrightarrow> k \<in> authorizedAuthorities x)
     \<and> mixes_ok x (descriptors s) \<and> replicas_ok x (replicaDescriptors s)"

definition authority_inv :: "('pub, 'priv) authority \<Rightarrow> auth_state \<Rightarrow> bool" where
  "authority_inv x s \<longleftrightarrow> votes_ok x s \<and> certs_ok x s \<and> shares_ok x s \<and> nodes_ok x s"

lemmas inv_defs = authority_inv_def votes_ok_def certs_ok_def shares_ok_def nodes_ok_def own_shares_def

lemma nodes_prune:
  "mixes_ok x m \<Longrightarrow> mixes_ok x (prune c m)" "replicas_ok x r \<Longrightarrow> replicas_ok x (prune c r)"
  by (auto simp: mixes_ok_def replicas_ok_def slot_prune split: if_splits)

lemma nodes_phase3:
  "mixes_ok x m \<Longrightarrow> descriptorAuthorizationError x d = None \<Longrightarrow> mixes_ok x (descriptor_phase3 e (md_hash (pki x) d) d m)"
  "replicas_ok x r \<Longrightarrow> replicaAuthorizationError x g = None \<Longrightarrow> replicas_ok x (descriptor_phase3 e (rd_hash (pki x) g) g r)"
  by (auto simp: mixes_ok_def replicas_ok_def slot_phase3 isDescriptorAuthorized_def isReplicaDescriptorAuthorized_def
      split: if_splits)

lemma inv_own_change: "authority_inv x s \<Longrightarrow> own_change x s s' \<Longrightarrow> authority_inv x s'"
  by (simp add: inv_defs own_change_def)

lemma inv_prune: "authority_inv x s \<Longrightarrow> authority_inv x (pruneDocuments now ok s)"
  by (simp add: inv_defs pruneDocuments_def prunePersistedEpochs_def Let_def slot_prune nodes_prune)

text \<open>An accepted vote, certificate, reveal and signature.\<close>

lemma inv_vote:
  assumes inv: "authority_inv x s" and a: "authentic x k d" "doc_Epoch d = e"
    and c: "map_of (SharedRandomCommit d) k = Some c" and fresh: "slot (votes s) e k = None"
  shows "authority_inv x (refresh_own x e (s\<lparr>votes := put_slot e k d (votes s), commits := put_slot e k c (commits s)\<rparr>))"
proof -
  have "votes_ok x s" "certs_ok x s" "shares_ok x s" "nodes_ok x s" using inv by (simp_all add: authority_inv_def)
  then show ?thesis
    using a c fresh by (simp add: inv_defs slot_refresh_own(1)) metis
qed

lemma inv_cert:
  assumes "authority_inv x s" "authentic x k d" "slot (votes s) e k \<noteq> None"
  shows "authority_inv x (s\<lparr>certificates := put_slot e k d (certificates s)\<rparr>)"
  using assms by (simp add: inv_defs)

lemma inv_reveal:
  assumes "authority_inv x s" "authentic_reveal x e k b" "slot (commits s) e k \<noteq> None"
  shows "authority_inv x (refresh_own x e (s\<lparr>reveals := put_slot e k b (reveals s)\<rparr>))"
  using assms by (simp add: inv_defs slot_refresh_own(1))

lemma inv_sig:
  assumes "authority_inv x s" "k \<in> authorizedAuthorities x"
  shows "authority_inv x (s\<lparr>signatures := put_slot e k g (signatures s)\<rparr>)"
  using assms by (simp add: inv_defs)

lemma inv_ensure:
  assumes "authority_inv x s"
  shows "authority_inv x (s\<lparr>votes := ensure e (votes s), commits := ensure e (commits s)\<rparr>)"
    "authority_inv x (s\<lparr>certificates := ensure e (certificates s)\<rparr>)"
    "authority_inv x (s\<lparr>reveals := ensure e (reveals s)\<rparr>)"
    "authority_inv x (s\<lparr>signatures := ensure e (signatures s)\<rparr>)"
  using assms by (simp_all add: inv_defs)

lemma inv_other:
  assumes "authority_inv x s"
  shows "authority_inv x (s\<lparr>db_descriptors := db\<rparr>)" "authority_inv x (s\<lparr>db_replicaDescriptors := db\<rparr>)"
    "authority_inv x (s\<lparr>fatal := b\<rparr>)" "authority_inv x (onFetched e d s)"
  using assms by (simp_all add: inv_defs onFetched_def Let_def)

lemma inv_node:
  assumes "authority_inv x s" "descriptorAuthorizationError x d = None"
  shows "authority_inv x (s\<lparr>descriptors := descriptor_phase3 e (md_hash (pki x) d) d (descriptors s)\<rparr>)"
  using assms by (simp add: inv_defs nodes_phase3)

lemma inv_replica:
  assumes "authority_inv x s" "replicaAuthorizationError x d = None"
  shows "authority_inv x (s\<lparr>replicaDescriptors := descriptor_phase3 e (rd_hash (pki x) d) d (replicaDescriptors s)\<rparr>)"
  using assms by (simp add: inv_defs nodes_phase3)

lemma inv_step:
  assumes "authority_inv x s" "authority_step x s s'"
  shows "authority_inv x s'"
  using assms(2)
proof cases
  case (step_vote vord pord t u code)
  show ?thesis
  proof (cases "code = VoteOk")
    case True
    with step_vote(3) have "onVoteUpload (at t x) vord pord s u = (s', VoteOk)" by simp
    then show ?thesis
    proof (rule onVoteUpload_accepts)
      fix doc commit c
      assume a: "sender (at t x) u \<in> authorizedAuthorities (at t x)"
        "slot (votes s) (votingEpoch s) (sender (at t x) u) = None"
        "Verify (certs (pki (at t x))) vord (up_PublicKey u) (up_Payload u) = Inr c"
        "ParseDocument (pki (at t x)) pord (up_Payload u) = Inr doc" "doc_Epoch doc = votingEpoch s"
        "map_of (SharedRandomCommit doc) (sender (at t x) u) = Some commit"
        "s' = refresh_own (at t x) (votingEpoch s)
           (s\<lparr>votes := put_slot (votingEpoch s) (sender (at t x) u) doc (votes s),
              commits := put_slot (votingEpoch s) (sender (at t x) u) commit (commits s)\<rparr>)"
      then have "authentic x (sender x u) doc"
        using step_vote(1,2) unfolding authentic_def sender_def at_fields by blast
      then show ?thesis using inv_vote [OF assms(1)] a by simp
    qed
  next
    case False
    with onVoteUpload_rejects [OF step_vote(3)] inv_ensure [OF assms(1)] assms(1) show ?thesis by metis
  qed
next
  case (step_cert vord pord t u code)
  show ?thesis
  proof (cases "code = CertOk")
    case True
    with step_cert(3) have "onCertUpload (at t x) vord pord s u = (s', CertOk)" by simp
    then show ?thesis
    proof (rule onCertUpload_accepts)
      fix doc c
      assume a: "sender (at t x) u \<in> authorizedAuthorities (at t x)"
        "slot (votes s) (votingEpoch s) (sender (at t x) u) \<noteq> None"
        "Verify (certs (pki (at t x))) vord (up_PublicKey u) (up_Payload u) = Inr c"
        "ParseDocument (pki (at t x)) pord (up_Payload u) = Inr doc"
        "s' = s\<lparr>certificates := put_slot (votingEpoch s) (sender (at t x) u) doc (certificates s)\<rparr>"
      then have "authentic x (sender x u) doc"
        using step_cert(1,2) unfolding authentic_def sender_def at_fields by blast
      then show ?thesis using inv_cert [OF assms(1)] a by simp
    qed
  next
    case False
    with onCertUpload_rejects [OF step_cert(3)] inv_ensure [OF assms(1)] assms(1) show ?thesis by metis
  qed
next
  case (step_reveal vord t u code)
  show ?thesis
  proof (cases "code = RevealOk")
    case True
    with step_reveal(2) have "onRevealUpload (at t x) vord s u = Inr (s', RevealOk)" by simp
    then show ?thesis
    proof (rule onRevealUpload_accepts)
      fix c
      assume a: "sender (at t x) u \<in> authorizedAuthorities (at t x)"
        "Verify (certs (pki (at t x))) vord (up_PublicKey u) (up_Payload u) = Inr c"
        "take 8 c = put64 (votingEpoch s)"
        "slot (commits s) (votingEpoch s) (sender (at t x) u) \<noteq> None"
        "s' = refresh_own (at t x) (votingEpoch s)
           (s\<lparr>reveals := put_slot (votingEpoch s) (sender (at t x) u) (up_Payload u) (reveals s)\<rparr>)"
      then have "authentic_reveal x (votingEpoch s) (sender x u) (up_Payload u)"
        using step_reveal(1) unfolding authentic_reveal_def sender_def at_fields by blast
      then show ?thesis using inv_reveal [OF assms(1)] a by simp
    qed
  next
    case False
    with onRevealUpload_rejects [OF step_reveal(2)] inv_ensure [OF assms(1)] assms(1) show ?thesis by metis
  qed
next
  case (step_sig vord t u code)
  show ?thesis
  proof (cases "code = SigOk")
    case True
    with step_sig(2) have "onSigUpload (at t x) vord s u = (s', SigOk)" by simp
    then show ?thesis by (rule onSigUpload_accepts) (simp add: inv_sig [OF assms(1)])
  next
    case False
    with onSigUpload_rejects [OF step_sig(2)] inv_ensure [OF assms(1)] assms(1) show ?thesis by metis
  qed
next
  case (step_tick o' t c rnow rn db_ok prune_ok now sleep)
  obtain u where u: "own_change (at t x) s u" "s' = pruneDocuments now prune_ok u"
    using fsm_own_change [OF step_tick(2)] by blast
  then have "own_change x s u" by simp
  with u(2) show ?thesis by (metis inv_prune inv_own_change [OF assms(1)])
qed (simp_all add: inv_other [OF assms(1)] inv_node [OF assms(1)] inv_replica [OF assms(1)])

lemma inv_nodes:
  "authority_inv x s \<Longrightarrow> mixes_ok x (descriptors s)" "authority_inv x s \<Longrightarrow> replicas_ok x (replicaDescriptors s)"
  "authority_inv x s \<Longrightarrow> mixes_ok x m \<Longrightarrow> authority_inv x (s\<lparr>descriptors := m\<rparr>)"
  "authority_inv x s \<Longrightarrow> replicas_ok x r \<Longrightarrow> authority_inv x (s\<lparr>replicaDescriptors := r\<rparr>)"
  "authority_inv x s \<Longrightarrow> authority_inv x (s\<lparr>documents := d\<rparr>)"
  by (simp_all add: inv_defs)

text \<open>The state after a start: nothing but the authorised descriptors of the database.\<close>

lemma restore_bucket_ok:
  assumes "restore_bucket um h auth e b m = Inr m'"
    and "\<forall>e k d. slot m e k = Some d \<longrightarrow> h d = k \<and> auth d"
  shows "\<forall>e k d. slot m' e k = Some d \<longrightarrow> h d = k \<and> auth d"
  using assms
proof (induction b arbitrary: m)
  case Nil
  then show ?case by simp
next
  case (Cons p b)
  obtain wh raw where p: "p = (wh, raw)" by (cases p)
  let ?m = "case um raw of None \<Rightarrow> m
     | Some desc \<Rightarrow> if wh \<noteq> h desc \<or> \<not> auth desc then m else put_slot e (h desc) desc m"
  have "restore_bucket um h auth e b ?m = Inr m'" using Cons.prems(1) p by (simp split: if_splits)
  moreover have "\<forall>e k d. slot ?m e k = Some d \<longrightarrow> h d = k \<and> auth d"
    using Cons.prems(2) by (auto split: option.splits)
  ultimately show ?case using Cons.IH by blast
qed

lemma restore_replicas_inv:
  "restore_replicas x es s = Inr s' \<Longrightarrow> authority_inv x s \<Longrightarrow> authority_inv x s'"
proof (induction es arbitrary: s)
  case Nil
  then show ?case by simp
next
  case (Cons e es)
  show ?case
  proof (cases "db_replicaDescriptors s e")
    case None
    with Cons show ?thesis by simp
  next
    case (Some b)
    with Cons.prems obtain m where m: "restore_bucket (rd_Unmarshal (pki x)) (rd_hash (pki x))
        (isReplicaDescriptorAuthorized x) e (sort_key fst b) (replicaDescriptors s) = Inr m"
      "restore_replicas x es (s\<lparr>replicaDescriptors := m\<rparr>) = Inr s'"
      by (auto simp: go_bind_Inr_iff)
    have "replicas_ok x m"
      unfolding replicas_ok_def by (rule restore_bucket_ok [OF m(1)])
        (use inv_nodes(2) [OF Cons.prems(2)] in \<open>simp add: replicas_ok_def\<close>)
    with Cons.prems(2) have "authority_inv x (s\<lparr>replicaDescriptors := m\<rparr>)" by (rule inv_nodes(4))
    with m Cons.IH show ?thesis by blast
  qed
qed

lemma restore_mixes_inv: "restore_mixes x e s = Inr s' \<Longrightarrow> authority_inv x s \<Longrightarrow> authority_inv x s'"
proof (cases "db_descriptors s e")
  case (Some b)
  assume r: "restore_mixes x e s = Inr s'" and inv: "authority_inv x s"
  from Some r obtain m where m: "restore_bucket (md_Unmarshal (pki x)) (md_hash (pki x))
      (isDescriptorAuthorized x) e (sort_key fst b) (descriptors s) = Inr m" "s' = s\<lparr>descriptors := m\<rparr>"
    by (auto simp: restore_mixes_def go_bind_Inr_iff)
  have "mixes_ok x m"
    unfolding mixes_ok_def by (rule restore_bucket_ok [OF m(1)])
      (use inv_nodes(1) [OF inv] in \<open>simp add: mixes_ok_def\<close>)
  with inv show ?thesis unfolding m(2) by (rule inv_nodes(3))
qed (simp add: restore_mixes_def)

lemma restore_documents_inv:
  "restore_documents x o' es s = Inr s' \<Longrightarrow> authority_inv x s \<Longrightarrow> authority_inv x s'"
proof (induction es arbitrary: s)
  case Nil
  then show ?case by simp
next
  case (Cons e es)
  from Cons.prems(1) obtain r where r: "(case db_documents s e of None \<Rightarrow> Inr (Some s)
        | Some raw \<Rightarrow> restore_document x o' e raw s) = Inr r"
      "(case r of None \<Rightarrow> Inr s | Some s \<Rightarrow> go_bind (restore_mixes x e s) (restore_documents x o' es)) = Inr s'"
    by (auto simp: go_bind_Inr_iff)
  show ?case
  proof (cases r)
    case None
    with r Cons.prems(2) show ?thesis by simp
  next
    case (Some t)
    have t: "authority_inv x t"
      using r(1) Some Cons.prems(2)
      by (auto simp: restore_document_def inv_nodes(5) split: option.splits sum.splits fail.splits prod.splits if_splits)
    from r(2) Some obtain u where "restore_mixes x e t = Inr u" "restore_documents x o' es u = Inr s'"
      by (auto simp: go_bind_Inr_iff)
    with Cons.IH restore_mixes_inv t show ?thesis by blast
  qed
qed

lemma newState_inv: "newState x0 o' now db = Inr (x, s) \<Longrightarrow> authority_inv x s"
proof -
  assume "newState x0 o' now db = Inr (x, s)"
  then have r: "restorePersistence x o' now (empty_state db) = Inr s"
    by (auto simp: newState_def go_bind_Inr_iff)
  have e: "authority_inv x (empty_state db)" by (simp add: inv_defs empty_state_def mixes_ok_def replicas_ok_def)
  show ?thesis
  proof (cases "db_version (empty_state db)")
    case True
    with r obtain t where "restore_replicas x [now - 1, now, now + 1] (empty_state db) = Inr t"
        "restore_documents x o' [now - 1, now, now + 1] t = Inr s"
      by (auto simp: restorePersistence_def go_bind_Inr_iff simp del: restore_replicas.simps restore_documents.simps)
    with e show ?thesis using restore_replicas_inv restore_documents_inv by blast
  next
    case False
    with r have "s = empty_state db\<lparr>db_version := True\<rparr>" by (auto simp: restorePersistence_def)
    then show ?thesis by (simp add: inv_defs empty_state_def mixes_ok_def replicas_ok_def)
  qed
qed

text \<open>
  C6. In every state an authority reaches, whatever its peers upload in whatever order and whenever
  its schedule wakes up: the vote, certificate and reveal kept for another authority were signed by
  that authority, which is one of the configured ones, the vote and the reveal for that very epoch (the
  epoch of a certificate's document is not compared with anything, so for certificates only the signer is
  known); a certificate is kept only beside a vote, a reveal only beside a commit, and the commit is the one
  in the vote; every mix and replica descriptor is that of a node pinned in the configuration.
\<close>

theorem reachable_state_authentic:
  assumes "newState x0 o' now db = Inr (x, s0)" "authority_run x s0 s"
  shows "authority_inv x s"
  using assms(2) newState_inv [OF assms(1)] by induction (blast intro: inv_step)+

text \<open>Authority 1 starts, wakes up and takes the vote of authority 2.\<close>

theorem reachable_state_authentic_witness:
  "\<exists>s. authority_run demo_loaded demo_started s \<and> slot (votes s) 6 (replicate 32 2) = Some demo_vote
     \<and> authority_inv demo_loaded s"
proof -
  define s where "s = fst (onVoteUpload (at 5 demo_loaded) rev rev demo_awake (rq_upload (demo_upload KVote)))"
  have p: "ParseDocument (pki demo_authority) rev demo_raw = Inr demo_vote"
    using demo_parse [of rev] by (simp add: demo_at)
  have "onVoteUpload demo_loaded rev rev demo_awake (rq_upload (demo_upload KVote))
      = (demo_awake\<lparr>votes := [6 \<mapsto> [(replicate 32 2, demo_vote)]], commits := [6 \<mapsto> [(replicate 32 2, [9])]]\<rparr>, VoteOk)"
    by (simp add: onVoteUpload_def demo_loaded_sender Let_def p demo_Verify demo_awake_fields
        refresh_own_none put_slot_def slot_def inner_def ensure_def)
  then have "slot (votes s) 6 (replicate 32 2) = Some demo_vote"
      "authority_step demo_loaded demo_awake s"
    by (simp_all add: s_def demo_at slot_def inner_def)
      (rule step_vote [of rev rev 5 demo_loaded demo_awake "rq_upload (demo_upload KVote)"], simp_all add: demo_at)
  moreover from this(2) have "authority_run demo_loaded demo_started s"
    using demo_wakes by (blast intro: run_start run_step)
  ultimately show ?thesis using reachable_state_authentic [OF demo_restored] by blast
qed

end
