(* ===== verification/AuthoritySchedule.thy ===== *)
theory AuthoritySchedule
  imports AuthorityInv
begin

text \<open>
  The voting schedule of the directory authority as an abstract clockwork of phases and voting epochs,
  which every run of the authority refines; and where the documents it serves come from.
\<close>

section \<open>The clockwork\<close>

text \<open>One wake-up: \<open>late\<close> and \<open>now\<close> are what the clock says, \<open>reached\<close> is whether there is a consensus.\<close>

definition schedule :: "bool \<Rightarrow> u64 \<Rightarrow> bool \<Rightarrow> phase \<times> u64 \<Rightarrow> phase \<times> u64" where
  "schedule late now reached = (\<lambda>(p, e). case p of
     stateBootstrap \<Rightarrow> if late then (stateBootstrap, now + 2) else (stateAcceptDescriptor, now + 1)
   | stateAcceptDescriptor \<Rightarrow> (stateAcceptVote, e)
   | stateAcceptVote \<Rightarrow> (stateAcceptReveal, e)
   | stateAcceptReveal \<Rightarrow> (stateAcceptCert, e)
   | stateAcceptCert \<Rightarrow> (stateAcceptSignature, e)
   | stateAcceptSignature \<Rightarrow> if reached then (stateAcceptDescriptor, e + 1) else (stateBootstrap, now + 2))"

inductive clockwork :: "phase \<times> u64 \<Rightarrow> phase \<times> u64 \<Rightarrow> bool" where
  clock_stop: "clockwork a a"
| clock_tick: "clockwork a b \<Longrightarrow> clockwork a (schedule late now reached b)"

definition abs_state :: "auth_state \<Rightarrow> phase \<times> u64" where
  "abs_state s = (phase s, votingEpoch s)"

text \<open>The fields the work of a phase leaves alone.\<close>

lemma abs_simps [simp]:
  "abs_state (refresh_own x e s) = abs_state s"
  "abs_state (s\<lparr>documents := u0\<rparr>) = abs_state s"
  "abs_state (s\<lparr>myconsensus := u1\<rparr>) = abs_state s"
  "abs_state (s\<lparr>descriptors := u2\<rparr>) = abs_state s"
  "abs_state (s\<lparr>replicaDescriptors := u3\<rparr>) = abs_state s"
  "abs_state (s\<lparr>votes := u4\<rparr>) = abs_state s"
  "abs_state (s\<lparr>certificates := u5\<rparr>) = abs_state s"
  "abs_state (s\<lparr>signatures := u6\<rparr>) = abs_state s"
  "abs_state (s\<lparr>reveals := u7\<rparr>) = abs_state s"
  "abs_state (s\<lparr>commits := u8\<rparr>) = abs_state s"
  "abs_state (s\<lparr>priorSRV := u9\<rparr>) = abs_state s"
  "abs_state (s\<lparr>cachedReplicaEnvelopeKeys := u10\<rparr>) = abs_state s"
  "abs_state (s\<lparr>genesisEpoch := u11\<rparr>) = abs_state s"
  "abs_state (s\<lparr>db_version := u12\<rparr>) = abs_state s"
  "abs_state (s\<lparr>db_documents := u13\<rparr>) = abs_state s"
  "abs_state (s\<lparr>db_descriptors := u14\<rparr>) = abs_state s"
  "abs_state (s\<lparr>db_replicaDescriptors := u15\<rparr>) = abs_state s"
  "abs_state (s\<lparr>shared_commits := u16\<rparr>) = abs_state s"
  "abs_state (s\<lparr>shared_reveals := u17\<rparr>) = abs_state s"
  "abs_state (s\<lparr>fatal := u18\<rparr>) = abs_state s"
  "abs_state (s\<lparr>fetching := u19\<rparr>) = abs_state s"
  "abs_state (s\<lparr>sent := u20\<rparr>) = abs_state s"
  by (simp_all add: abs_state_def)

lemma abs_steps [simp]:
  "abs_state (onFetched e d s) = abs_state s" "abs_state (pruneDocuments now ok s) = abs_state s"
  "abs_state (send_out m s) = abs_state s" "abs_state (backgroundFetchConsensus e s) = abs_state s"
  "abs_state (take_over x s) = abs_state s" "abs_state (setState p s) = (p, votingEpoch s)"
  by (simp_all add: onFetched_def pruneDocuments_def prunePersistedEpochs_def Let_def send_out_def
      backgroundFetchConsensus_def take_over_def setState_def split: option.splits) (simp add: abs_state_def)

lemma getDocument_abs: "getDocument x o' rnow s ds rs p srv = Inr (s', d) \<Longrightarrow> abs_state s' = abs_state s"
  by (metis abs_simps(12) getDocument_Inr(1))

lemma doCommit_abs: "doCommit x rn s e = (s', r) \<Longrightarrow> abs_state s' = abs_state s"
  by (auto simp: doCommit_def split: sum.splits prod.splits)

lemma rotate_prior_abs: "rotate_prior e srv s = Inr s' \<Longrightarrow> abs_state s' = abs_state s"
  by (auto simp: rotate_prior_def split: if_splits list.splits)

lemma getVote_abs: "getVote x o' rnow rn s e = (s', r) \<Longrightarrow> abs_state s' = abs_state s"
  by (auto simp: getVote_def Let_def split: sum.splits prod.splits if_splits dest!: getDocument_abs doCommit_abs)

lemma getCertificate_abs: "getCertificate x o' rnow s e = (s', r) \<Longrightarrow> abs_state s' = abs_state s"
  by (auto simp: getCertificate_def Let_def split: sum.splits prod.splits if_splits
      dest!: getDocument_abs rotate_prior_abs)

lemma getMyConsensus_abs: "getMyConsensus x o' rnow s e = (s', r) \<Longrightarrow> abs_state s' = abs_state s"
  by (auto simp: getMyConsensus_def split: option.splits if_splits sum.splits prod.splits
      dest!: getDocument_abs rotate_prior_abs)

lemma getThresholdConsensus_abs:
  "getThresholdConsensus x o' ok s e = (s', r) \<Longrightarrow> abs_state s' = abs_state s"
  by (auto simp: getThresholdConsensus_def persistDocument_def Let_def
      split: option.splits sum.splits prod.splits if_splits)

lemma send_document_abs: "send_document x mk t d = Inr t' \<Longrightarrow> abs_state t' = abs_state t"
  by (auto simp: send_document_def split: sum.splits fail.splits)

lemma abs_parts: "abs_state s = abs_state t \<Longrightarrow> phase s = phase t" "abs_state s = abs_state t \<Longrightarrow> votingEpoch s = votingEpoch t"
  by (simp_all add: abs_state_def)

text \<open>A wake-up is a tick of the clockwork, but for the phase that cannot send its signature.\<close>

lemma fsm_ticks:
  assumes "fsm x o' c rnow rn db_ok prune_ok now s = Inr (s', sleep)"
  shows "abs_state s' = schedule (c_elapsed c > MixPublishDeadline x) (c_epoch c)
       (\<exists>t d. getThresholdConsensus x o' db_ok s (votingEpoch s) = (t, Inr d)) (abs_state s)
     \<or> (phase s = stateAcceptCert \<and> abs_state s' = abs_state s \<and> fatal s' \<and> sleep = 0)"
proof -
  from assms obtain t where t: "s' = pruneDocuments now prune_ok t"
    "(case phase s of
         stateBootstrap \<Rightarrow> Inr (fsm_bootstrap x c s)
       | stateAcceptDescriptor \<Rightarrow> fsm_accept_descriptor x o' c rnow rn s
       | stateAcceptVote \<Rightarrow> Inr (fsm_accept_vote x c s)
       | stateAcceptReveal \<Rightarrow> fsm_accept_reveal x o' c rnow s
       | stateAcceptCert \<Rightarrow> fsm_accept_cert x o' c rnow s
       | stateAcceptSignature \<Rightarrow> fsm_accept_signature x o' c db_ok s) = Inr (t, sleep)"
    by (auto simp: fsm_def go_bind_Inr_iff split: prod.splits)
  have f: "fatal s' = fatal t" "abs_state s' = abs_state t"
    unfolding t(1) by (simp_all) (simp add: pruneDocuments_def prunePersistedEpochs_def Let_def)
  show ?thesis
  proof (cases "phase s")
    case stateBootstrap
    with t(2) f show ?thesis
      by (auto simp: fsm_bootstrap_def Let_def schedule_def abs_state_def setState_def)
  next
    case stateAcceptDescriptor
    with t(2) obtain u v r where u: "getVote x o' rnow rn s (votingEpoch s) = (u, r)"
        "t = setState stateAcceptVote v" "abs_state v = abs_state u"
      by (auto simp: fsm_accept_descriptor_def go_bind_Inr_iff go_on_Inr_iff dest: send_document_abs)
    from getVote_abs [OF u(1)] u stateAcceptDescriptor f show ?thesis
      by (simp add: schedule_def) (simp add: abs_state_def)
  next
    case stateAcceptVote
    with t(2) f show ?thesis
      by (auto simp: fsm_accept_vote_def do_reveal_def Let_def setState_def send_out_def schedule_def abs_state_def
          split: option.splits)
  next
    case stateAcceptReveal
    with t(2) obtain u v r where u: "getCertificate x o' rnow s (votingEpoch s) = (u, r)"
        "t = setState stateAcceptCert v" "abs_state v = abs_state u"
      by (auto simp: fsm_accept_reveal_def go_bind_Inr_iff go_on_Inr_iff dest: send_document_abs)
    from getCertificate_abs [OF u(1)] u stateAcceptReveal f show ?thesis
      by (simp add: schedule_def) (simp add: abs_state_def)
  next
    case stateAcceptCert
    with t(2) obtain u r where u: "getMyConsensus x o' rnow s (votingEpoch s) = (u, r)"
        "(t = u\<lparr>fatal := True\<rparr> \<and> sleep = 0) \<or> abs_state t = (stateAcceptSignature, votingEpoch u)"
      by (auto simp: fsm_accept_cert_def go_on_Inr_iff Let_def send_out_def split: option.splits)
    from u(2) show ?thesis
    proof
      assume "t = u\<lparr>fatal := True\<rparr> \<and> sleep = 0"
      with getMyConsensus_abs [OF u(1)] f stateAcceptCert show ?thesis by simp
    next
      assume "abs_state t = (stateAcceptSignature, votingEpoch u)"
      with getMyConsensus_abs [OF u(1)] f stateAcceptCert show ?thesis
        by (auto simp: schedule_def) (auto simp: abs_state_def)
    qed
  next
    case stateAcceptSignature
    from stateAcceptSignature t(2) obtain u r where u: "getThresholdConsensus x o' db_ok s (votingEpoch s) = (u, r)"
        "((\<exists>d. r = Inr d) \<and> abs_state t = (stateAcceptDescriptor, votingEpoch u + 1))
         \<or> (\<not> (\<exists>d. r = Inr d) \<and> abs_state t = (stateBootstrap, c_epoch c + 2))"
      by (auto simp: fsm_accept_signature_def go_on_Inr_iff Let_def setState_def abs_state_def)
    from getThresholdConsensus_abs [OF u(1)] u stateAcceptSignature f show ?thesis
      by (auto simp: schedule_def) (auto simp: abs_state_def)
  qed
qed

text \<open>
  How long the authority sleeps: until the end of the phase it has entered, a time after the start of the epoch
  of which the clock shows what has passed; the descriptor phase after a consensus ends in the next epoch, and the
  bootstrap phase at the end of this one. The clock is read before the work of a phase and after it.
\<close>

fun phase_deadline :: "('pub, 'priv) authority \<Rightarrow> phase \<Rightarrow> int" where
  "phase_deadline x stateAcceptDescriptor = MixPublishDeadline x"
| "phase_deadline x stateAcceptVote = AuthorityVoteDeadline x"
| "phase_deadline x stateAcceptReveal = AuthorityRevealDeadline x"
| "phase_deadline x stateAcceptCert = AuthorityCertDeadline x"
| "phase_deadline x stateAcceptSignature = PublishConsensusDeadline x"
| "phase_deadline x stateBootstrap = 0"

definition sleep_until :: "('pub, 'priv) authority \<Rightarrow> clock \<Rightarrow> phase \<Rightarrow> phase \<Rightarrow> int" where
  "sleep_until x c before after = (case after of
     stateBootstrap \<Rightarrow> if before = stateBootstrap then c_till c else c_till_after c
   | stateAcceptDescriptor \<Rightarrow> if before = stateBootstrap then max 0 (phase_deadline x after - c_elapsed c)
                             else phase_deadline x after + c_till_after c
   | _ \<Rightarrow> phase_deadline x after - c_elapsed_after c)"

lemma fsm_sleeps:
  assumes "fsm x o' c rnow rn db_ok prune_ok now s = Inr (s', sleep)"
    and "\<not> (phase s = stateAcceptCert \<and> abs_state s' = abs_state s)"
  shows "sleep = sleep_until x c (phase s) (phase s')"
proof -
  from assms(1) obtain t where t: "s' = pruneDocuments now prune_ok t"
    "(case phase s of
         stateBootstrap \<Rightarrow> Inr (fsm_bootstrap x c s)
       | stateAcceptDescriptor \<Rightarrow> fsm_accept_descriptor x o' c rnow rn s
       | stateAcceptVote \<Rightarrow> Inr (fsm_accept_vote x c s)
       | stateAcceptReveal \<Rightarrow> fsm_accept_reveal x o' c rnow s
       | stateAcceptCert \<Rightarrow> fsm_accept_cert x o' c rnow s
       | stateAcceptSignature \<Rightarrow> fsm_accept_signature x o' c db_ok s) = Inr (t, sleep)"
    by (auto simp: fsm_def go_bind_Inr_iff split: prod.splits)
  have a: "abs_state s' = abs_state t" and p: "phase s' = phase t" unfolding t(1) by (simp_all add: abs_parts [OF abs_steps(2)])
  show ?thesis
  proof (cases "phase s")
    case stateAcceptCert
    with t(2) obtain u r where u: "getMyConsensus x o' rnow s (votingEpoch s) = (u, r)"
        "abs_state t = abs_state u \<or> (phase t = stateAcceptSignature \<and> sleep = PublishConsensusDeadline x - c_elapsed_after c)"
      by (auto simp: fsm_accept_cert_def go_on_Inr_iff Let_def send_out_def setState_def split: option.splits)
    with getMyConsensus_abs [OF u(1)] a assms(2) stateAcceptCert p show ?thesis by (auto simp: sleep_until_def)
  qed (use t(2) p in \<open>auto simp: fsm_bootstrap_def fsm_accept_descriptor_def fsm_accept_vote_def fsm_accept_reveal_def
      fsm_accept_signature_def go_bind_Inr_iff go_on_Inr_iff setState_def Let_def sleep_until_def split: prod.splits if_splits\<close>)
qed

text \<open>Uploads leave phase and voting epoch alone.\<close>

lemma upload_abs:
  "onVoteUpload x vord pord s u = (s', code) \<Longrightarrow> abs_state s' = abs_state s"
  "onCertUpload x vord pord s u = (s', code) \<Longrightarrow> abs_state s' = abs_state s"
  "onRevealUpload x vord s u = Inr (s', code) \<Longrightarrow> abs_state s' = abs_state s"
  "onSigUpload x vord s u = (s', code) \<Longrightarrow> abs_state s' = abs_state s"
  by (auto simp: onVoteUpload_def onCertUpload_def onRevealUpload_def onSigUpload_def Let_def go_bind_Inr_iff
      split: if_splits sum.splits option.splits)

lemma step_ticks:
  assumes "authority_step x s s'"
  shows "abs_state s' = abs_state s \<or> (\<exists>late now reached. abs_state s' = schedule late now reached (abs_state s))"
  using assms by cases (auto dest: upload_abs fsm_ticks)

text \<open>
  C8. The phases of an authority refine the clockwork: whatever is uploaded and fetched meanwhile, only
  a wake-up of the schedule moves the phase and the voting epoch, in the order of the clockwork, and
  every wake-up that returns moves them on - to the next voting epoch exactly when there is a consensus,
  to the bootstrap phase otherwise - and then sleeps until the end of the phase it has entered. There is one
  exception: an authority that cannot sign its own signature stays where it is, does not sleep and reports a
  fatal error.
\<close>

theorem schedule_refined:
  assumes "authority_run x s0 s" "fsm x o' c rnow rn db_ok prune_ok now s = Inr (s', sleep)"
  shows "clockwork (abs_state s0) (abs_state s)
     \<and> (abs_state s' = schedule (c_elapsed c > MixPublishDeadline x) (c_epoch c)
          (\<exists>u d. getThresholdConsensus x o' db_ok s (votingEpoch s) = (u, Inr d)) (abs_state s)
          \<and> sleep = sleep_until x c (phase s) (phase s')
        \<or> (phase s = stateAcceptCert \<and> abs_state s' = abs_state s \<and> fatal s' \<and> sleep = 0))"
proof
  show "clockwork (abs_state s0) (abs_state s)"
    using assms(1)
  proof induction
    case (run_start s)
    show ?case by (rule clock_stop)
  next
    case (run_step s s' s'')
    from step_ticks [OF run_step(2)] run_step(3) show ?case by (metis clock_tick)
  qed
next
  have "phase s = stateAcceptCert \<Longrightarrow> abs_state s' = schedule late now' reached (abs_state s) \<Longrightarrow> abs_state s' \<noteq> abs_state s" for late now' reached
    by (auto simp: schedule_def abs_state_def)
  with fsm_ticks [OF assms(2)] fsm_sleeps [OF assms(2)]
  show "abs_state s' = schedule (c_elapsed c > MixPublishDeadline x) (c_epoch c)
      (\<exists>u d. getThresholdConsensus x o' db_ok s (votingEpoch s) = (u, Inr d)) (abs_state s) \<and> sleep = sleep_until x c (phase s) (phase s')
    \<or> phase s = stateAcceptCert \<and> abs_state s' = abs_state s \<and> fatal s' \<and> sleep = 0" by blast
qed

text \<open>The first tick.\<close>

definition bootstrapped :: auth_state where
  "bootstrapped = pruneDocuments 5 True (fst (fsm_bootstrap demo_authority demo_clock (blank_db\<lparr>phase := stateBootstrap\<rparr>)))"

lemma demo_bootstrap:
  "fsm x o' demo_clock rnow rn db_ok True 5 (blank_db\<lparr>phase := stateBootstrap\<rparr>)
     = Inr (pruneDocuments 5 True (fst (fsm_bootstrap x demo_clock (blank_db\<lparr>phase := stateBootstrap\<rparr>))),
            snd (fsm_bootstrap x demo_clock (blank_db\<lparr>phase := stateBootstrap\<rparr>)))"
  by (simp add: fsm_def split: prod.splits)

theorem schedule_refined_witness:
  "abs_state bootstrapped = (stateAcceptDescriptor, 6)
   \<and> snd (fsm_bootstrap demo_authority demo_clock (blank_db\<lparr>phase := stateBootstrap\<rparr>)) = MixPublishDeadline demo_authority - c_elapsed demo_clock"
proof -
  define s0 where "s0 = blank_db\<lparr>phase := stateBootstrap\<rparr>"
  define sleep where "sleep = snd (fsm_bootstrap demo_authority demo_clock s0)"
  have p: "phase s0 = stateBootstrap" "abs_state s0 = (stateBootstrap, votingEpoch blank_db)" by (simp_all add: s0_def abs_state_def)
  have late: "\<not> MixPublishDeadline demo_authority < c_elapsed demo_clock" "c_epoch demo_clock = 5" "0 \<le> MixPublishDeadline demo_authority - c_elapsed demo_clock"
    by (simp_all add: demo_clock_def MixPublishDeadline_def) (simp_all add: demo_authority_def)
  have r: "abs_state bootstrapped = schedule False 5 reached (abs_state s0) \<and> sleep = sleep_until demo_authority demo_clock stateBootstrap (phase bootstrapped)" for reached
    using schedule_refined [OF run_start demo_bootstrap, of demo_authority] p late
    by (simp add: bootstrapped_def sleep_def s0_def [symmetric] schedule_def)
  then have a: "abs_state bootstrapped = (stateAcceptDescriptor, 6)" by (simp add: p(2) schedule_def)
  then have "phase bootstrapped = stateAcceptDescriptor" by (simp add: abs_state_def)
  with a r late(3) show ?thesis by (simp add: sleep_until_def sleep_def s0_def)
qed

end
