(* ===== verification/AuthorityConsensus.thy ===== *)
theory AuthorityConsensus
  imports AuthoritySchedule
begin

text \<open>
  Where the documents come from that a directory authority serves: every one carries the signatures of
  a threshold of the configured authorities, and two such documents have a signer in common.
\<close>

section \<open>The tables\<close>

text \<open>What \<open>load_tables\<close> makes of the configuration.\<close>

definition tables_ok :: "('pub, 'priv) authority \<Rightarrow> bool" where
  "tables_ok x \<longleftrightarrow> distinct (map fst (verifiers x)) \<and> (\<forall>(k, v) \<in> set (verifiers x). k = Sum256_of x v)
     \<and> threshold x = int (length (verifiers x)) div 2 + 1
     \<and> (\<forall>a \<in> set (cfg_Authorities (cfg x)). Sum256_of x (fst (snd a)) \<in> fst ` set (verifiers x))
     \<and> authorizedAuthorities x \<subseteq> fst ` set (verifiers x)
     \<and> authorizedAuthorities x \<subseteq> fst ` set (reverseHash x)"

lemma fold_verifiers:
  fixes h :: "'pub \<Rightarrow> key_hash"
  defines "f \<equiv> \<lambda>(_ :: string, key, _ :: bytes). AList.update (h key) key"
  assumes "distinct (map fst m)" "\<forall>(k, v) \<in> set m. k = h v"
  shows "distinct (map fst (fold f as m))" "\<forall>(k, v) \<in> set (fold f as m). k = h v"
    "fst ` set (fold f as m) = fst ` set m \<union> (\<lambda>a. h (fst (snd a))) ` set as"
proof -
  have "distinct (map fst (fold f as m)) \<and> (\<forall>(k, v) \<in> set (fold f as m). k = h v)
      \<and> fst ` set (fold f as m) = fst ` set m \<union> (\<lambda>a. h (fst (snd a))) ` set as"
    using assms(2,3)
  proof (induction as arbitrary: m)
    case Nil
    then show ?case by simp
  next
    case (Cons a as)
    obtain n v l where a: "a = (n, v, l)" by (cases a) auto
    have d: "distinct (map fst (AList.update (h v) v m))" using Cons.prems(1) by (rule distinct_update)
    have "\<forall>(k, w) \<in> set (AList.update (h v) v m). k = h w"
      using Cons.prems(2) by (induction m) auto
    from Cons.IH [OF d this] show ?case by (auto simp: a f_def dom_update)
  qed
  then show "distinct (map fst (fold f as m))" "\<forall>(k, v) \<in> set (fold f as m). k = h v"
    "fst ` set (fold f as m) = fst ` set m \<union> (\<lambda>a. h (fst (snd a))) ` set as" by blast+
qed

lemma load_authorities_fields:
  "verifiers (load_authorities x as) = verifiers x" "threshold (load_authorities x as) = threshold x"
  "cfg (load_authorities x as) = cfg x" "pki (load_authorities x as) = pki x"
  "authorizedAuthorities (load_authorities x as) = authorizedAuthorities x \<union> (\<lambda>a. Sum256_of x (fst (snd a))) ` set as"
  "fst ` set (reverseHash (load_authorities x as)) = fst ` set (reverseHash x) \<union> (\<lambda>a. Sum256_of x (fst (snd a))) ` set as"
  by (induction x as rule: load_authorities.induct) (simp_all add: Let_def dom_update Sum256_of_def)

lemma load_verifiers_ok:
  "distinct (map fst (load_verifiers x))" "\<forall>(k, v) \<in> set (load_verifiers x). k = Sum256_of x v"
  "fst ` set (load_verifiers x) = insert (identityPubKeyHash x) ((\<lambda>a. Sum256_of x (fst (snd a))) ` set (cfg_Authorities (cfg x)))"
proof -
  let ?m = "fold (\<lambda>(_ :: string, key, _ :: bytes). AList.update (Sum256_of x key) key) (cfg_Authorities (cfg x)) []"
  note f = fold_verifiers [of "[]" "Sum256_of x" "cfg_Authorities (cfg x)", simplified]
  show "distinct (map fst (load_verifiers x))"
    unfolding load_verifiers_def using f(1) by (rule distinct_update)
  have "\<forall>(k, w) \<in> set (AList.update (Sum256_of x v) v m). k = Sum256_of x w"
    if "\<forall>(k, w) \<in> set m. k = Sum256_of x w" for v m
    using that by (induction m) auto
  with f(2) show "\<forall>(k, v) \<in> set (load_verifiers x). k = Sum256_of x v"
    by (simp add: load_verifiers_def identityPubKeyHash_def)
  show "fst ` set (load_verifiers x) = insert (identityPubKeyHash x) ((\<lambda>a. Sum256_of x (fst (snd a))) ` set (cfg_Authorities (cfg x)))"
    using f(3) by (simp add: load_verifiers_def dom_update)
qed

lemma load_tables_ok:
  assumes "load_tables x0 = Inr x"
  shows "tables_ok x" "pki x = pki x0" "cfg x = cfg x0"
proof -
  from assms obtain mixes gateways services replicas rh where x:
    "x = (let y = load_authorities
          (x0\<lparr>verifiers := load_verifiers x0, threshold := int (length (load_verifiers x0)) div 2 + 1,
             dissenters := int (length (cfg_Authorities (cfg x0))) div 2 - 1,
             reverseHash := rh, authorizedMixes := mixes, authorizedGatewayNodes := gateways,
             authorizedServiceNodes := services, authorizedReplicaNodes := replicas,
             authorizedAuthorities := {}, authorityLinkKeys := [], authorityNames := []\<rparr>) (cfg_Authorities (cfg x0))
        in y\<lparr>reverseHash := AList.update (identityPubKeyHash y) (identityPublicKey y) (reverseHash y)\<rparr>)"
    by (auto simp: load_tables_def Let_def go_bind_Inr_iff)
  have s: "Sum256_of x = Sum256_of x0"
    by (rule Sum256_of_cong) (simp add: x Let_def load_authorities_fields)
  have v: "verifiers x = load_verifiers x0" "threshold x = int (length (load_verifiers x0)) div 2 + 1"
      "authorizedAuthorities x = (\<lambda>a. Sum256_of x0 (fst (snd a))) ` set (cfg_Authorities (cfg x0))"
    unfolding x Let_def by (simp_all add: load_authorities_fields Sum256_of_def)
  have "(\<lambda>a. Sum256_of x (fst (snd a))) ` set (cfg_Authorities (cfg x0)) \<subseteq> fst ` set (reverseHash x)"
    unfolding s unfolding x Let_def
    by (simp add: load_authorities_fields(6) dom_update)
      (simp add: Sum256_of_def load_authorities_fields subset_insertI2)
  then have r: "(\<lambda>a. Sum256_of x0 (fst (snd a))) ` set (cfg_Authorities (cfg x0)) \<subseteq> fst ` set (reverseHash x)"
    by (simp only: s)
  show "pki x = pki x0" "cfg x = cfg x0" unfolding x Let_def by (simp_all add: load_authorities_fields)
  then show "tables_ok x"
    unfolding tables_ok_def s v using load_verifiers_ok [of x0] r by (simp add: subset_insertI image_subset_iff)
qed

section \<open>Endorsed documents\<close>

text \<open>
  A certificate that was current and bears verifying signatures of \<open>n\<close> different identities, all
  among the configured authorities.
\<close>

definition endorsed :: "('pub, 'priv) authority \<Rightarrow> bytes \<Rightarrow> int \<Rightarrow> bool" where
  "endorsed x raw n \<longleftrightarrow> (\<exists>t c A. open_cert (certs (pki (at t x))) ErrImpossibleEncode raw = Inr c
     \<and> n \<le> int (card A) \<and> A \<subseteq> fst ` set (verifiers x)
     \<and> (\<forall>k \<in> A. \<exists>v. Sum256_of x v = k \<and> signed_by (certs (pki x)) c v))"

text \<open>The document that a certificate is of.\<close>

definition document_of :: "('pub, 'priv) authority \<Rightarrow> bytes \<Rightarrow> Document \<Rightarrow> bool" where
  "document_of x raw d \<longleftrightarrow> MarshalCertificate (pki x) d = Inr raw
     \<or> (\<exists>t ord. is_order ord \<and> ParseDocument (pki (at t x)) ord raw = Inr d)"

definition quorum :: "('pub, 'priv) authority \<Rightarrow> int" where
  "quorum x = min (threshold x) (client_threshold (map (\<lambda>(_, k, _). k) (cfg_Authorities (cfg x))))"

text \<open>A document that may be served: endorsed as it is, or before the scheme's name was written into it.\<close>

definition may_serve :: "('pub, 'priv) authority \<Rightarrow> Document \<Rightarrow> bool" where
  "may_serve x d \<longleftrightarrow> (\<exists>raw d'. document_of x raw d' \<and> endorsed x raw (quorum x)
     \<and> (d = d' \<or> d = d'\<lparr>PKISignatureScheme := cfg_PKISignatureScheme (cfg x)\<rparr>))"

lemma at_certs: "Sum256From (certs (pki (at t x))) = Sum256_of x"
    "signed_by (certs (pki (at t x))) = signed_by (certs (pki x))"
  by (auto simp: at_def Sum256_of_def fun_eq_iff signed_by_def)

lemma MarshalCertificate_at [simp]: "MarshalCertificate (pki (at t x)) d = MarshalCertificate (pki x) d"
  by (simp add: MarshalCertificate_def at_def)

lemma threshold_endorsed:
  assumes "\<And>i. is_order (ords i)" "is_order gord" "0 < n" "m \<le> n"
    and v: "VerifyThreshold (certs (pki (at t x))) ords gord vs n raw = (None, r)"
    and vs: "\<And>v. v \<in> set vs \<Longrightarrow> Sum256_of x v \<in> fst ` set (verifiers x)"
  shows "endorsed x raw m"
proof -
  obtain certified good bad where r: "r = (certified, good, bad)" by (cases r)
  from threshold_signers [OF assms(1-3) v [unfolded r]] obtain c where
      c: "open_cert (certs (pki (at t x))) ErrImpossibleEncode raw = Inr c"
      "n \<le> int (card (Sum256_of x ` set good))"
      "set good \<subseteq> {v \<in> set vs. signed_by (certs (pki x)) c v}"
    unfolding at_certs by blast
  have "Sum256_of x ` set good \<subseteq> fst ` set (verifiers x)" using c(3) vs by blast
  moreover have "\<forall>k \<in> Sum256_of x ` set good. \<exists>v. Sum256_of x v = k \<and> signed_by (certs (pki x)) c v"
    using c(3) by blast
  moreover have "m \<le> int (card (Sum256_of x ` set good))" using c(2) assms(4) by simp
  ultimately show ?thesis using c(1) unfolding endorsed_def by blast
qed

lemma verifiers_configured:
  "tables_ok x \<Longrightarrow> proper_orders o' \<Longrightarrow> v \<in> set (getVerifiers x o') \<Longrightarrow> Sum256_of x v \<in> fst ` set (verifiers x)"
proof -
  assume t: "tables_ok x" and o: "proper_orders o'" and v: "v \<in> set (getVerifiers x o')"
  from o have "set (o_verifiers o' (verifiers x)) = set (verifiers x)"
    by (simp add: proper_orders_def is_order_set)
  with v obtain k where "(k, v) \<in> set (verifiers x)" by (auto simp: getVerifiers_def)
  with t have "(Sum256_of x v, v) \<in> set (verifiers x)" by (auto simp: tables_ok_def)
  then show ?thesis by (rule rev_image_eqI) simp
qed

lemma threshold_pos: "tables_ok x \<Longrightarrow> 0 < threshold x"
  by (simp add: tables_ok_def)

section \<open>Signing keeps the document\<close>

text \<open>Decoding what a document was encoded to, into that document, changes nothing.\<close>

definition doc_codec :: "('pub, 'priv) pki_env \<Rightarrow> bool" where
  "doc_codec p \<longleftrightarrow> (\<forall>d m b. doc_Marshal p d = Some b \<longrightarrow>
     doc_Unmarshal p (d\<lparr>doc_Signatures := m\<rparr>) b = Some (d\<lparr>doc_Signatures := m\<rparr>))"

lemma open_cert_of_marshal:
  assumes "cbor_law x" "cbor_Marshal x c = Some raw" "open_cert x e raw = Inr c'"
  shows "Certified c' = Certified c \<and> KeyType c' = KeyType c \<and> Version c' = Version c
    \<and> Expiration c' = Expiration c \<and> sigs c' = sigs c"
proof -
  have "cbor_Unmarshal x raw = Some c" using assms(1,2) by (metis cbor_law_def option.inject)
  with assms(3) show ?thesis by (auto simp: open_cert_Inr_iff dest: sanityCheck_Inr)
qed

lemma SignDocument_Inr:
  assumes "cbor_law (certs p)" "doc_codec p" "SignDocument p ord sk pk d = Inr (d', raw)"
  shows "\<exists>m. d' = d\<lparr>doc_Version := DocumentVersion, doc_Signatures := Some m\<rparr>"
proof -
  let ?d = "d\<lparr>doc_Version := DocumentVersion\<rparr>"
  from assms(3) obtain certified where c: "MarshalCertificate p ?d = Inr certified"
      "SignMulti (certs p) sk pk certified = Inr raw" "UnmarshalCertificate p ord ?d raw = Inr d'"
    by (auto simp: SignDocument_def Let_def go_bind_Inr_iff split: sum.splits)
  from c(1) obtain payload where pl: "doc_Marshal p ?d = Some payload"
      "cbor_Marshal (certs p) \<lparr>Version = CertVersion, Expiration = doc_Epoch ?d + 5,
         KeyType = PKISignatureScheme ?d, Certified = payload, Signatures = doc_Signatures ?d\<rparr> = Some certified"
    by (auto simp: MarshalCertificate_def or_err_def go_bind_Inr_iff split: option.splits)
  from c(2) obtain cc s where cc: "open_cert (certs p) ErrImpossibleDecode certified = Inr cc"
      "cbor_Marshal (certs p) (put_sig s cc) = Some raw"
    by (auto simp: SignMulti_def go_bind_Inr_iff or_err_def Let_def split: if_splits option.splits)
  have "Certified cc = payload" using open_cert_of_marshal [OF assms(1) pl(2) cc(1)] by simp
  then have put: "Certified (put_sig s cc) = payload" by (simp add: put_sig_def)
  from c(3) obtain cert m where cert: "open_cert (certs p) ErrImpossibleDecode raw = Inr cert"
      "doc_Unmarshal p (?d\<lparr>doc_Signatures := Some m\<rparr>) (Certified cert) = Some d'"
    by (auto simp: UnmarshalCertificate_def GetCertified_def lift_cert_def go_bind_Inr_iff or_err_def
        split: sum.splits fail.splits if_splits option.splits)
  have "Certified cert = payload" using open_cert_of_marshal [OF assms(1) cc(2) cert(1)] put by simp
  with cert(2) pl(1) assms(2) have "Some d' = Some (?d\<lparr>doc_Signatures := Some m\<rparr>)"
    unfolding doc_codec_def by metis
  then show ?thesis by auto
qed

lemma doSignDocument_Inr:
  assumes "cbor_law (certs (pki x))" "doc_codec (pki x)" "doSignDocument (at t x) o' d = Inr d'"
  shows "\<exists>m. d' = d\<lparr>doc_Version := DocumentVersion, doc_Signatures := Some m\<rparr>"
proof -
  from assms(3) obtain raw where "SignDocument (pki (at t x)) (o_sign o') (identityPrivateKey x) (identityPublicKey x) d = Inr (d', raw)"
    by (auto simp: doSignDocument_def lift_make_def go_bind_Inr_iff split: sum.splits fail.splits)
  moreover have "cbor_law (certs (pki (at t x)))" using assms(1) by (simp add: cbor_law_def at_def)
  moreover have "doc_codec (pki (at t x))" using assms(2) by (simp add: doc_codec_def at_def)
  ultimately show ?thesis by (rule SignDocument_Inr [rotated 2])
qed

lemma add_signatures_epoch:
  "add_signatures x ord sgs d = Inr d' \<Longrightarrow> doc_Epoch d' = doc_Epoch d"
proof (induction sgs arbitrary: d)
  case Nil
  then show ?case by simp
next
  case (Cons p sgs)
  obtain k s where p: "p = (k, s)" by (cases p)
  from Cons.prems p obtain v where v: "map_of (reverseHash x) k = Some v"
    by (auto split: option.splits)
  show ?case
  proof (cases "doc_AddSignature (pki x) ord v s d")
    case (Inl e)
    with Cons p v show ?thesis by (auto split: fail.splits)
  next
    case (Inr d2)
    then have "doc_Epoch d2 = doc_Epoch d" by (auto simp: doc_AddSignature_def go_bind_Inr_iff)
    moreover have "add_signatures x ord sgs d2 = Inr d'" using Cons.prems p v Inr by simp
    ultimately show ?thesis using Cons.IH by fastforce
  qed
qed

section \<open>The documents of the reachable states\<close>

definition docs_ok :: "('pub, 'priv) authority \<Rightarrow> auth_state \<Rightarrow> bool" where
  "docs_ok x s \<longleftrightarrow> (\<forall>e d. documents s e = Some d \<longrightarrow> doc_Epoch d = e \<and> may_serve x d)
     \<and> (\<forall>e d. myconsensus s e = Some d \<longrightarrow> doc_Epoch d = e)"

definition docs_of :: "auth_state \<Rightarrow> (u64 \<Rightarrow> Document option) \<times> (u64 \<Rightarrow> Document option)" where
  "docs_of s = (documents s, myconsensus s)"

lemma docs_of_simps [simp]:
  "docs_of (refresh_own x e t) = docs_of t" "docs_of (t\<lparr>votes := a\<rparr>) = docs_of t"
  "docs_of (t\<lparr>commits := b\<rparr>) = docs_of t" "docs_of (t\<lparr>reveals := b\<rparr>) = docs_of t"
  "docs_of (t\<lparr>certificates := a\<rparr>) = docs_of t" "docs_of (t\<lparr>signatures := c\<rparr>) = docs_of t"
  "docs_of (t\<lparr>priorSRV := l\<rparr>) = docs_of t" "docs_of (t\<lparr>shared_commits := u\<rparr>) = docs_of t"
  "docs_of (t\<lparr>shared_reveals := u\<rparr>) = docs_of t" "docs_of (t\<lparr>fatal := f\<rparr>) = docs_of t"
  "docs_of (t\<lparr>sent := ms\<rparr>) = docs_of t" "docs_of (t\<lparr>phase := p\<rparr>) = docs_of t"
  "docs_of (t\<lparr>votingEpoch := ve\<rparr>) = docs_of t" "docs_of (t\<lparr>genesisEpoch := ve\<rparr>) = docs_of t"
  "docs_of (t\<lparr>fetching := es\<rparr>) = docs_of t" "docs_of (t\<lparr>db_documents := dd\<rparr>) = docs_of t"
  "docs_of (t\<lparr>cachedReplicaEnvelopeKeys := ks\<rparr>) = docs_of t" "docs_of (t\<lparr>descriptors := m\<rparr>) = docs_of t"
  "docs_of (t\<lparr>replicaDescriptors := rm\<rparr>) = docs_of t" "docs_of (t\<lparr>db_descriptors := db\<rparr>) = docs_of t"
  "docs_of (t\<lparr>db_replicaDescriptors := db\<rparr>) = docs_of t"
  "docs_of (send_out msg t) = docs_of t" "docs_of (setState p t) = docs_of t"
  "docs_of (backgroundFetchConsensus e t) = docs_of t"
  by (simp_all add: docs_of_def send_out_def setState_def backgroundFetchConsensus_def)

lemma docs_ok_same: "docs_of s' = docs_of s \<Longrightarrow> docs_ok x s \<Longrightarrow> docs_ok x s'"
  by (simp add: docs_of_def docs_ok_def)

lemma getDocument_docs: "getDocument x o' rnow s ds rs p srv = Inr (s', d) \<Longrightarrow> docs_of s' = docs_of s"
  by (metis getDocument_Inr(1) docs_of_simps(17))

lemma doCommit_docs: "doCommit x rn s e = (s', r) \<Longrightarrow> docs_of s' = docs_of s"
  by (auto simp: doCommit_def split: sum.splits prod.splits)

lemma rotate_prior_docs: "rotate_prior e srv s = Inr s' \<Longrightarrow> docs_of s' = docs_of s"
  by (auto simp: rotate_prior_def split: if_splits list.splits)

lemma getVote_docs: "getVote x o' rnow rn s e = (s', r) \<Longrightarrow> docs_of s' = docs_of (take_over x s)"
  by (auto simp: getVote_def Let_def split: sum.splits prod.splits if_splits dest!: getDocument_docs doCommit_docs)

lemma getCertificate_docs: "getCertificate x o' rnow s e = (s', r) \<Longrightarrow> docs_of s' = docs_of s"
  by (auto simp: getCertificate_def Let_def split: sum.splits prod.splits if_splits
      dest!: getDocument_docs rotate_prior_docs)

lemma send_document_docs: "send_document x mk t d = Inr t' \<Longrightarrow> docs_of t' = docs_of t"
  by (auto simp: send_document_def split: sum.splits fail.splits)

lemma may_serve_renamed: "may_serve x d \<Longrightarrow> may_serve x (d\<lparr>PKISignatureScheme := cfg_PKISignatureScheme (cfg x)\<rparr>)"
  unfolding may_serve_def by fastforce

lemma take_over_docs: "docs_ok x s \<Longrightarrow> docs_ok x (take_over x s)"
  by (auto simp: take_over_def docs_ok_def may_serve_renamed split: option.splits)

lemma take_over_at [simp]: "take_over (at t x) = take_over x"
  by (simp add: take_over_def fun_eq_iff cong: option.case_cong)

text \<open>What a consensus of one went through.\<close>

lemma getMyConsensus_Inr:
  assumes "getMyConsensus x o' rnow s e = (s', Inr d)"
  obtains cs committed revealed srv s1 ms rs ps s2 d0 where "certificates s e = Some cs"
    "threshold x \<le> int (length cs)" "verifyCommits x o' s e = Inr (committed, revealed)"
    "threshold x \<le> int (length committed)" "computeSharedRandom x o' s e committed revealed = Inr srv"
    "(if e = genesisEpoch s then Inr (s\<lparr>priorSRV := [srv, srv]\<rparr>) else rotate_prior e srv s) = Inr s1"
    "tallyVotes x o' s1 e = Inr (ms, rs, ps)" "getDocument x o' rnow s1 ms rs ps srv = Inr (s2, d0)"
    "IsWellFormed x o' d0 = Inr ()" "doSignDocument x o' d0 = Inr d"
    "s' = s2\<lparr>myconsensus := (myconsensus s2)(e \<mapsto> d)\<rparr>"
proof -
  from assms obtain cs committed revealed srv where c: "certificates s e = Some cs"
      "threshold x \<le> int (length cs)" "verifyCommits x o' s e = Inr (committed, revealed)"
      "threshold x \<le> int (length committed)" "length committed = length revealed"
      "computeSharedRandom x o' s e committed revealed = Inr srv"
    unfolding getMyConsensus_def
    by (auto simp del: if_split split: option.splits sum.splits prod.splits if_splits)
  let ?rot = "if e = genesisEpoch s then Inr (s\<lparr>priorSRV := [srv, srv]\<rparr>) else rotate_prior e srv s"
  from assms c obtain s1 where s1: "?rot = Inr s1"
    unfolding getMyConsensus_def by (cases ?rot) simp_all
  from assms c s1 obtain ms rs ps where t: "tallyVotes x o' s1 e = Inr (ms, rs, ps)"
    unfolding getMyConsensus_def by (cases "tallyVotes x o' s1 e") auto
  from assms c s1 t obtain s2 d0 where g: "getDocument x o' rnow s1 ms rs ps srv = Inr (s2, d0)"
    unfolding getMyConsensus_def by (cases "getDocument x o' rnow s1 ms rs ps srv") auto
  from assms c s1 t g have "go_bind (IsWellFormed x o' d0) (\<lambda>_. doSignDocument x o' d0) = Inr d"
      "s' = s2\<lparr>myconsensus := (myconsensus s2)(e \<mapsto> d)\<rparr>"
    unfolding getMyConsensus_def
    by (cases "go_bind (IsWellFormed x o' d0) (\<lambda>_. doSignDocument x o' d0)"; simp)+
  with that c s1 t g show ?thesis by (simp add: go_bind_Inr_iff)
qed

text \<open>The own view of the consensus is of the epoch it is filed under.\<close>

lemma getMyConsensus_docs:
  assumes laws: "cbor_law (certs (pki x))" "doc_codec (pki x)"
    and r: "getMyConsensus (at t x) o' rnow s (votingEpoch s) = (s', r)" and ok: "docs_ok x s"
  shows "docs_ok x s' \<and> votingEpoch s' = votingEpoch s"
proof (cases r)
  case (Inl e)
  have "docs_of s' = docs_of s"
    using r Inl by (auto simp: getMyConsensus_def split: option.splits if_splits sum.splits prod.splits
        dest!: getDocument_docs rotate_prior_docs)
  with ok docs_ok_same abs_parts(2) [OF getMyConsensus_abs [OF r]] show ?thesis by blast
next
  case (Inr d)
  with r have "getMyConsensus (at t x) o' rnow s (votingEpoch s) = (s', Inr d)" by simp
  then show ?thesis
  proof (rule getMyConsensus_Inr)
    fix srv s1 ms rs ps s2 d0
    assume s1: "(if votingEpoch s = genesisEpoch s then Inr (s\<lparr>priorSRV := [srv, srv]\<rparr>)
        else rotate_prior (votingEpoch s) srv s) = Inr s1"
      and s2: "getDocument (at t x) o' rnow s1 ms rs ps srv = Inr (s2, d0)" "doSignDocument (at t x) o' d0 = Inr d"
        "s' = s2\<lparr>myconsensus := (myconsensus s2)(votingEpoch s \<mapsto> d)\<rparr>"
    have "docs_of s1 = docs_of s" "abs_state s1 = abs_state s"
      using s1 rotate_prior_docs rotate_prior_abs by (auto split: if_splits)
    then have "doc_Epoch d = votingEpoch s" "docs_of s2 = docs_of s"
      using doSignDocument_Inr [OF laws s2(2)] getDocument_Inr(2) [OF s2(1)] getDocument_docs [OF s2(1)]
      by (auto simp: abs_state_def)
    then show ?thesis
      using ok abs_parts(2) [OF getMyConsensus_abs [OF r]] s2(3) by (auto simp: docs_ok_def docs_of_def)
  qed
qed

lemma may_serve_threshold:
  assumes "tables_ok x" "proper_orders o'"
    and "VerifyThreshold (certs (pki (at t x))) (o_threshold o') (o_good o') (getVerifiers x o') (threshold x) raw = (None, r)"
    and "document_of x raw d"
  shows "may_serve x d"
proof -
  have "endorsed x raw (quorum x)"
    by (rule threshold_endorsed [OF _ _ threshold_pos [OF assms(1)] _ assms(3)])
      (use assms(2) verifiers_configured [OF assms(1,2)] in \<open>auto simp: proper_orders_def quorum_def\<close>)
  with assms(4) show ?thesis unfolding may_serve_def by blast
qed

lemma getThresholdConsensus_docs:
  assumes tab: "tables_ok x" and ord: "proper_orders o'" and ok: "docs_ok x s"
    and r: "getThresholdConsensus (at t x) o' db_ok s e = (s', r)"
  shows "docs_ok x s'"
proof (cases "myconsensus s e")
  case None
  with r ok show ?thesis by (simp add: getThresholdConsensus_def)
next
  case ours: (Some d)
  show ?thesis
  proof (cases "add_signatures (at t x) (o_sign o') (o_signatures o' (inner (signatures s) e)) d")
    case (Inl a)
    with r ours ok show ?thesis by (simp add: getThresholdConsensus_def)
  next
    case (Inr d')
    have e: "doc_Epoch d' = e"
      using add_signatures_epoch [OF Inr] ok ours by (auto simp: docs_ok_def)
    let ?s = "s\<lparr>myconsensus := (myconsensus s)(e \<mapsto> d')\<rparr>"
    have ok': "docs_ok x ?s" using ok e by (auto simp: docs_ok_def)
    have or_else: "docs_of s' = docs_of ?s \<or> (\<exists>raw q. MarshalCertificate (pki x) d' = Inr raw
        \<and> VerifyThreshold (certs (pki (at t x))) (o_threshold o') (o_good o') (getVerifiers x o') (threshold x) raw = (None, q)
        \<and> docs_of s' = ((documents s)(e \<mapsto> d'), (myconsensus s)(e \<mapsto> d')))"
      using r ours Inr
      by (auto simp: getThresholdConsensus_def lift_make_def persistDocument_def Let_def getVerifiers_def docs_of_def
          split: sum.splits fail.splits option.splits prod.splits if_splits)
    then show ?thesis
    proof
      assume "docs_of s' = docs_of ?s"
      with ok' docs_ok_same show ?thesis by blast
    next
      assume "\<exists>raw q. MarshalCertificate (pki x) d' = Inr raw
        \<and> VerifyThreshold (certs (pki (at t x))) (o_threshold o') (o_good o') (getVerifiers x o') (threshold x) raw = (None, q)
        \<and> docs_of s' = ((documents s)(e \<mapsto> d'), (myconsensus s)(e \<mapsto> d'))"
      then obtain raw q where u: "MarshalCertificate (pki x) d' = Inr raw"
        "VerifyThreshold (certs (pki (at t x))) (o_threshold o') (o_good o') (getVerifiers x o') (threshold x) raw = (None, q)"
        "docs_of s' = ((documents s)(e \<mapsto> d'), (myconsensus s)(e \<mapsto> d'))" by blast
      have "may_serve x d'"
        by (rule may_serve_threshold [OF tab ord u(2)]) (simp add: document_of_def u(1))
      with ok e u(3) show ?thesis by (auto simp: docs_ok_def docs_of_def)
    qed
  qed
qed

lemma prune_docs: "docs_ok x s \<Longrightarrow> docs_ok x (pruneDocuments now ok s)"
  by (simp add: docs_ok_def pruneDocuments_def prunePersistedEpochs_def Let_def prune_def)

lemma fsm_docs:
  assumes laws: "cbor_law (certs (pki x))" "doc_codec (pki x)" and tab: "tables_ok x" and ord: "proper_orders o'"
    and r: "fsm (at t x) o' c rnow rn db_ok prune_ok now s = Inr (s', sleep)" and ok: "docs_ok x s"
  shows "docs_ok x s'"
proof -
  from r obtain u where u: "s' = pruneDocuments now prune_ok u"
    "(case phase s of
         stateBootstrap \<Rightarrow> Inr (fsm_bootstrap (at t x) c s)
       | stateAcceptDescriptor \<Rightarrow> fsm_accept_descriptor (at t x) o' c rnow rn s
       | stateAcceptVote \<Rightarrow> Inr (fsm_accept_vote (at t x) c s)
       | stateAcceptReveal \<Rightarrow> fsm_accept_reveal (at t x) o' c rnow s
       | stateAcceptCert \<Rightarrow> fsm_accept_cert (at t x) o' c rnow s
       | stateAcceptSignature \<Rightarrow> fsm_accept_signature (at t x) o' c db_ok s) = Inr (u, sleep)"
    by (auto simp: fsm_def go_bind_Inr_iff split: prod.splits)
  have "docs_ok x u"
  proof (cases "phase s")
    case stateBootstrap
    with u(2) have "docs_of u = docs_of s"
      by (auto simp: fsm_bootstrap_def Let_def split: if_splits)
    with ok docs_ok_same show ?thesis by blast
  next
    case stateAcceptDescriptor
    with u(2) obtain v r where "getVote (at t x) o' rnow rn s (votingEpoch s) = (v, r)" "docs_of u = docs_of v"
      by (auto simp: fsm_accept_descriptor_def go_bind_Inr_iff go_on_Inr_iff dest: send_document_docs)
    then have "docs_of u = docs_of (take_over x s)" using getVote_docs by fastforce
    with take_over_docs [OF ok] docs_ok_same show ?thesis by blast
  next
    case stateAcceptVote
    with u(2) have "docs_of u = docs_of s"
      by (auto simp: fsm_accept_vote_def do_reveal_def Let_def split: option.splits)
    with ok docs_ok_same show ?thesis by blast
  next
    case stateAcceptReveal
    with u(2) obtain v r where "getCertificate (at t x) o' rnow s (votingEpoch s) = (v, r)" "docs_of u = docs_of v"
      by (auto simp: fsm_accept_reveal_def go_bind_Inr_iff go_on_Inr_iff dest: send_document_docs)
    then have "docs_of u = docs_of s" using getCertificate_docs by fastforce
    with ok docs_ok_same show ?thesis by blast
  next
    case stateAcceptCert
    with u(2) obtain v r where v: "getMyConsensus (at t x) o' rnow s (votingEpoch s) = (v, r)" "docs_of u = docs_of v"
      by (auto simp: fsm_accept_cert_def go_on_Inr_iff Let_def split: option.splits)
    with getMyConsensus_docs [OF laws v(1) ok] docs_ok_same show ?thesis by blast
  next
    case stateAcceptSignature
    with u(2) obtain v r where v: "getThresholdConsensus (at t x) o' db_ok s (votingEpoch s) = (v, r)"
        "docs_of u = docs_of v"
      by (auto simp: fsm_accept_signature_def go_on_Inr_iff Let_def)
    with getThresholdConsensus_docs [OF tab ord ok v(1)] docs_ok_same show ?thesis by blast
  qed
  then show ?thesis unfolding u(1) by (rule prune_docs)
qed

lemma upload_docs:
  "onVoteUpload x vord pord s u = (s', code) \<Longrightarrow> docs_of s' = docs_of s"
  "onCertUpload x vord pord s u = (s', code) \<Longrightarrow> docs_of s' = docs_of s"
  "onRevealUpload x vord s u = Inr (s', code) \<Longrightarrow> docs_of s' = docs_of s"
  "onSigUpload x vord s u = (s', code) \<Longrightarrow> docs_of s' = docs_of s"
  by (auto simp: onVoteUpload_def onCertUpload_def onRevealUpload_def onSigUpload_def Let_def go_bind_Inr_iff
      split: if_splits sum.splits option.splits)

text \<open>What the client returns has passed its checks.\<close>

lemma fetched_document:
  assumes "GetPKIDocumentForEpoch p co gord vs now epoch replies = Inr (doc, raw)"
  shows "\<exists>q. VerifyThreshold (certs p) (co_threshold co) gord vs (client_threshold vs) raw = (None, q)
     \<and> ParseDocument p (co_parse co) raw = Inr doc \<and> doc_Epoch doc = epoch
     \<and> IsDocumentWellFormed p (fst (co_wellformed co)) (snd (co_wellformed co)) vs doc = Inr ()"
proof -
  have one: "\<exists>q. VerifyThreshold (certs p) (co_threshold co) gord vs (client_threshold vs) raw = (None, q)
     \<and> ParseDocument p (co_parse co) raw = Inr doc \<and> doc_Epoch doc = epoch
     \<and> IsDocumentWellFormed p (fst (co_wellformed co)) (snd (co_wellformed co)) vs doc = Inr ()"
    if "fetchAndValidate p co gord vs epoch reply = Inr (doc, raw)" for reply
    using that by (auto simp: fetchAndValidate_def split: option.splits prod.splits if_splits sum.splits fail.splits)
  have f: "first_valid rs = Inr (Some a) \<Longrightarrow> Inr a \<in> set rs" for rs and a :: "Document \<times> bytes"
    by (induction rs) (auto split: sum.splits fail.splits)
  from assms have "first_valid (map (fetchAndValidate p co gord vs epoch) replies) = Inr (Some (doc, raw))"
    by (auto simp: GetPKIDocumentForEpoch_def go_bind_Inr_iff split: option.splits if_splits)
  from f [OF this] obtain reply where "fetchAndValidate p co gord vs epoch reply = Inr (doc, raw)" by auto
  then show ?thesis by (rule one)
qed

lemma client_threshold_pos: "0 < client_threshold vs"
  by (simp add: client_threshold_def)

lemma docs_step:
  assumes laws: "cbor_law (certs (pki x))" "doc_codec (pki x)" and tab: "tables_ok x"
    and ok: "docs_ok x s" and st: "authority_step x s s'"
  shows "docs_ok x s'"
  using st
proof cases
  case (step_fetched e co gord t now replies doc raw)
  let ?vs = "map (\<lambda>(_, k, _). k) (cfg_Authorities (cfg x))"
  obtain q where q: "VerifyThreshold (certs (pki (at t x))) (co_threshold co) gord ?vs (client_threshold ?vs) raw = (None, q)"
      "ParseDocument (pki (at t x)) (co_parse co) raw = Inr doc" "doc_Epoch doc = e"
    using fetched_document [OF step_fetched(5)] by blast
  have vs: "Sum256_of x v \<in> fst ` set (verifiers x)" if "v \<in> set ?vs" for v
  proof -
    from that obtain n l where a: "(n, v, l) \<in> set (cfg_Authorities (cfg x))" by auto
    from tab have "\<forall>a \<in> set (cfg_Authorities (cfg x)). Sum256_of x (fst (snd a)) \<in> fst ` set (verifiers x)"
      by (simp add: tables_ok_def)
    from bspec [OF this a] show ?thesis by simp
  qed
  have "endorsed x raw (quorum x)"
    by (rule threshold_endorsed [OF _ step_fetched(4) client_threshold_pos _ q(1)])
      (use step_fetched(3) vs in \<open>auto simp: proper_client_def quorum_def\<close>)
  moreover have "document_of x raw doc"
    using step_fetched(3) q(2) unfolding document_of_def proper_client_def by blast
  ultimately have "may_serve x doc" unfolding may_serve_def by blast
  with ok q(3) show ?thesis unfolding step_fetched(1) by (auto simp: docs_ok_def onFetched_def Let_def)
next
  case (step_tick o' t c rnow rn db_ok prune_ok now sleep)
  show ?thesis by (rule fsm_docs [OF laws tab step_tick ok])
next
  case step_vote
  show ?thesis by (rule docs_ok_same [OF upload_docs(1) [OF step_vote(3)] ok])
next
  case step_cert
  show ?thesis by (rule docs_ok_same [OF upload_docs(2) [OF step_cert(3)] ok])
next
  case step_reveal
  show ?thesis by (rule docs_ok_same [OF upload_docs(3) [OF step_reveal(2)] ok])
next
  case step_sig
  show ?thesis by (rule docs_ok_same [OF upload_docs(4) [OF step_sig(2)] ok])
qed (use ok in \<open>simp_all add: docs_ok_def\<close>)

lemma restore_documents_docs:
  assumes tab: "tables_ok x" and ord: "proper_orders o'"
  shows "restore_documents x o' es s = Inr s' \<Longrightarrow> docs_ok x s \<Longrightarrow> docs_ok x s'"
proof (induction es arbitrary: s)
  case Nil
  then show ?case by simp
next
  case (Cons e es)
  from Cons.prems(1) obtain r where r: "(case db_documents s e of None \<Rightarrow> Inr (Some s)
        | Some raw \<Rightarrow> restore_document x o' e raw s) = Inr r"
      "(case r of None \<Rightarrow> Inr s | Some s \<Rightarrow> go_bind (restore_mixes x e s) (restore_documents x o' es)) = Inr s'"
    by (auto simp: go_bind_Inr_iff)
  show ?case
  proof (cases r)
    case None
    with r Cons.prems(2) show ?thesis by simp
  next
    case (Some t)
    have t: "docs_ok x t"
    proof (cases "t = s")
      case True
      with Cons.prems(2) show ?thesis by simp
    next
      case False
      with r(1) Some obtain raw q doc where d:
          "VerifyThreshold (certs (pki x)) (o_threshold o') (o_good o') (getVerifiers x o') (threshold x) raw = (None, q)"
          "ParseDocument (pki x) (o_sign o') raw = Inr doc" "doc_Epoch doc = e"
          "t = s\<lparr>documents := (documents s)(e \<mapsto> doc)\<rparr>"
        by (auto simp: restore_document_def split: option.splits prod.splits sum.splits fail.splits if_splits)
      have "document_of x raw doc"
        using d(2) ord at_self [of x] unfolding document_of_def proper_orders_def by metis
      with d(1) have "may_serve x doc"
        using may_serve_threshold [OF tab ord, of "currentEpoch (certs (pki x))"] unfolding at_self by blast
      with Cons.prems(2) d(3,4) show ?thesis by (auto simp: docs_ok_def)
    qed
    from r(2) Some obtain u where u: "restore_mixes x e t = Inr u" "restore_documents x o' es u = Inr s'"
      by (auto simp: go_bind_Inr_iff)
    have "docs_of u = docs_of t"
      using u(1) by (auto simp: restore_mixes_def go_bind_Inr_iff split: option.splits)
    with t docs_ok_same u(2) Cons.IH show ?thesis by blast
  qed
qed

lemma restore_replicas_docs: "restore_replicas x es s = Inr s' \<Longrightarrow> docs_of s' = docs_of s"
  by (induction es arbitrary: s) (auto simp: go_bind_Inr_iff split: option.splits)

lemma newState_docs:
  assumes "newState x0 o' now db = Inr (x, s)" "proper_orders o'"
  shows "docs_ok x s" "tables_ok x"
proof -
  from assms(1) have l: "load_tables x0 = Inr x" "restorePersistence x o' now (empty_state db) = Inr s"
    by (auto simp: newState_def go_bind_Inr_iff)
  show tab: "tables_ok x" by (rule load_tables_ok [OF l(1)])
  have e: "docs_ok x (empty_state db)" by (simp add: docs_ok_def empty_state_def)
  show "docs_ok x s"
  proof (cases "db_version (empty_state db)")
    case True
    with l(2) obtain t where "restore_replicas x [now - 1, now, now + 1] (empty_state db) = Inr t"
        "restore_documents x o' [now - 1, now, now + 1] t = Inr s"
      by (auto simp: restorePersistence_def go_bind_Inr_iff simp del: restore_replicas.simps restore_documents.simps)
    with e restore_documents_docs [OF tab assms(2)] restore_replicas_docs docs_ok_same show ?thesis by blast
  next
    case False
    with l(2) e show ?thesis by (auto simp: restorePersistence_def docs_ok_def)
  qed
qed

text \<open>
  C5. Every document an authority has to serve, in any state it reaches, is of the epoch it is filed
  under and is the document of a certificate that a quorum of different configured authorities signed -
  whether it was restored from disk, fetched from another authority or agreed on by voting; only the
  name of the signature scheme may have been written over since. The laws are that CBOR decodes what it
  encoded.
\<close>

theorem served_documents_endorsed:
  assumes "cbor_law (certs (pki x0))" "doc_codec (pki x0)" "proper_orders o'"
    and "newState x0 o' now db = Inr (x, s0)" "authority_run x s0 s" "documents s e = Some d"
  shows "doc_Epoch d = e \<and> 0 < quorum x \<and> (\<exists>raw d'. document_of x raw d' \<and> endorsed x raw (quorum x)
     \<and> (d = d' \<or> d = d'\<lparr>PKISignatureScheme := cfg_PKISignatureScheme (cfg x)\<rparr>))"
proof -
  have tab: "tables_ok x" and start: "docs_ok x s0" using newState_docs [OF assms(4,3)] by blast+
  have "pki x = pki x0" using assms(4) load_tables_ok(2) by (auto simp: newState_def go_bind_Inr_iff)
  with assms(1,2) have laws: "cbor_law (certs (pki x))" "doc_codec (pki x)" by simp_all
  from assms(5) start have "docs_ok x s"
    by induction (blast intro: docs_step [OF laws tab])+
  moreover have "0 < quorum x" using threshold_pos [OF tab] client_threshold_pos by (simp add: quorum_def)
  ultimately show ?thesis using assms(6) unfolding docs_ok_def may_serve_def by blast
qed

text \<open>
  C7. No two quorums without a common member: of any two certificates that each pass the verification
  with this authority's verifiers and threshold, at whatever times and in whatever map orders, there is
  one configured authority that signed both. So two different consensus documents for one epoch need an
  authority that signed both of them.
\<close>

theorem consensus_quorums_intersect:
  assumes "load_tables x0 = Inr x" "proper_orders o1" "proper_orders o2"
    and "VerifyThreshold (certs (pki (at t1 x))) (o_threshold o1) (o_good o1) (getVerifiers x o1) (threshold x) raw1 = (None, q1)"
    and "VerifyThreshold (certs (pki (at t2 x))) (o_threshold o2) (o_good o2) (getVerifiers x o2) (threshold x) raw2 = (None, q2)"
  shows "\<exists>k v c1 c2. (k, v) \<in> set (verifiers x)
     \<and> open_cert (certs (pki (at t1 x))) ErrImpossibleEncode raw1 = Inr c1 \<and> signed_by (certs (pki x)) c1 v
     \<and> open_cert (certs (pki (at t2 x))) ErrImpossibleEncode raw2 = Inr c2 \<and> signed_by (certs (pki x)) c2 v"
proof -
  have tab: "tables_ok x" by (rule load_tables_ok [OF assms(1)])
  let ?K = "fst ` set (verifiers x)"
  have signers: "\<exists>c A. open_cert (certs (pki (at t x))) ErrImpossibleEncode raw = Inr c \<and> A \<subseteq> ?K
      \<and> threshold x \<le> int (card A) \<and> (\<forall>k \<in> A. \<exists>v. (k, v) \<in> set (verifiers x) \<and> signed_by (certs (pki x)) c v)"
    if o: "proper_orders o'" and v: "VerifyThreshold (certs (pki (at t x))) (o_threshold o') (o_good o') (getVerifiers x o')
        (threshold x) raw = (None, q)" for t o' raw q
  proof -
    obtain certified good bad where q: "q = (certified, good, bad)" by (cases q)
    have ords: "\<And>i. is_order (o_threshold o' i)" "is_order (o_good o')" using o by (simp_all add: proper_orders_def)
    obtain c where c: "open_cert (certs (pki (at t x))) ErrImpossibleEncode raw = Inr c"
        "threshold x \<le> int (card (Sum256_of x ` set good))"
        "set good \<subseteq> {v \<in> set (getVerifiers x o'). signed_by (certs (pki x)) c v}"
      using threshold_signers [OF ords threshold_pos [OF tab] v [unfolded q]] unfolding at_certs by blast
    have "(Sum256_of x v, v) \<in> set (verifiers x)" if "v \<in> set good" for v
    proof -
      have "set (o_verifiers o' (verifiers x)) = set (verifiers x)"
        using o by (simp add: proper_orders_def is_order_set)
      with that c(3) obtain k where "(k, v) \<in> set (verifiers x)" by (auto simp: getVerifiers_def)
      with tab show ?thesis by (auto simp: tables_ok_def)
    qed
    then have "Sum256_of x ` set good \<subseteq> ?K"
        "\<forall>k \<in> Sum256_of x ` set good. \<exists>v. (k, v) \<in> set (verifiers x) \<and> signed_by (certs (pki x)) c v"
      using c(3) by (force, blast)
    with c show ?thesis by blast
  qed
  from signers [OF assms(2,4)] obtain c1 A1 where 1: "open_cert (certs (pki (at t1 x))) ErrImpossibleEncode raw1 = Inr c1"
      "A1 \<subseteq> ?K" "threshold x \<le> int (card A1)"
      "\<forall>k \<in> A1. \<exists>v. (k, v) \<in> set (verifiers x) \<and> signed_by (certs (pki x)) c1 v" by blast
  from signers [OF assms(3,5)] obtain c2 A2 where 2: "open_cert (certs (pki (at t2 x))) ErrImpossibleEncode raw2 = Inr c2"
      "A2 \<subseteq> ?K" "threshold x \<le> int (card A2)"
      "\<forall>k \<in> A2. \<exists>v. (k, v) \<in> set (verifiers x) \<and> signed_by (certs (pki x)) c2 v" by blast
  have d: "distinct (map fst (verifiers x))" "threshold x = int (length (verifiers x)) div 2 + 1"
    using tab by (simp_all add: tables_ok_def)
  have "card ?K = length (verifiers x)" using d(1) by (metis distinct_card length_map set_map)
  then have "card ?K < card A1 + card A2" using 1(3) 2(3) d(2) by linarith
  then have "A1 \<inter> A2 \<noteq> {}"
    using 1(2) 2(2) card_Un_disjoint [of A1 A2] card_mono [of ?K "A1 \<union> A2"] finite_subset
    by (metis List.finite_set Un_least finite_imageI not_less)
  then obtain k where k: "k \<in> A1" "k \<in> A2" by blast
  with 1(4) 2(4) obtain v1 v2 where v: "(k, v1) \<in> set (verifiers x)" "signed_by (certs (pki x)) c1 v1"
      "(k, v2) \<in> set (verifiers x)" "signed_by (certs (pki x)) c2 v2" by blast
  from d(1) v(1,3) have "v1 = v2" by (metis map_of_is_SomeI option.inject)
  with v 1(1) 2(1) show ?thesis by blast
qed

text \<open>The restored document.\<close>

theorem served_documents_endorsed_witness:
  "\<exists>raw d'. document_of demo_loaded raw d' \<and> endorsed demo_loaded raw (quorum demo_loaded)
     \<and> (demo_vote = d' \<or> demo_vote = d'\<lparr>PKISignatureScheme := ''Ed25519''\<rparr>)"
proof -
  have "doc_codec (pki demo_authority)" by (simp add: doc_codec_def demo_authority_def demo_pki_def)
  moreover have "documents demo_started 6 = Some demo_vote" by (simp add: demo_started_def)
  moreover have "cfg_PKISignatureScheme demo_cfg = ''Ed25519''" by (simp add: demo_cfg_def)
  ultimately show ?thesis
    using served_documents_endorsed [OF _ _ demo_proper demo_restored run_start, of 6 demo_vote] demo_cbor_law by simp
qed

theorem consensus_quorums_intersect_witness:
  "\<exists>k v. (k, v) \<in> set (verifiers demo_loaded) \<and> signed_by demo_cert_env demo_cert v"
  using consensus_quorums_intersect [OF demo_load demo_proper demo_proper, of 5 demo_raw "([7], [1, 2], [3])" 5 demo_raw "([7], [1, 2], [3])"]
    demo_loaded_threshold demo_open by (auto simp: demo_at)

end
