(* ===== verification/AuthorityAgree.thy ===== *)
theory AuthorityAgree
  imports AuthorityConsensus
begin

text \<open>
  The tally of the votes and the topology: what is elected, that authorities with the same votes elect
  the same whatever the order of their maps, and how nodes are spread over the layers.
\<close>

section \<open>Counting\<close>

text \<open>A tally counts exactly these strings.\<close>

definition counts :: "bytes list \<Rightarrow> (bytes \<times> nat) list \<Rightarrow> bool" where
  "counts raws m \<longleftrightarrow> distinct (map fst m) \<and> (\<forall>k n. (k, n) \<in> set m \<longleftrightarrow> n = count_list raws k \<and> 0 < n)"

lemma count_list_gt_0: "k \<in> set xs \<Longrightarrow> 0 < count_list xs k"
  by (induction xs) auto

lemma counts_map_of: "counts raws m \<Longrightarrow> map_of m k = (if k \<in> set raws then Some (count_list raws k) else None)"
proof -
  assume c: "counts raws m"
  have some: "map_of m k = Some n \<longleftrightarrow> n = count_list raws k \<and> 0 < n" for n
  proof -
    from c have "map_of m k = Some n \<longleftrightarrow> (k, n) \<in> set m" by (simp add: counts_def)
    also have "\<dots> \<longleftrightarrow> n = count_list raws k \<and> 0 < n" using c unfolding counts_def by blast
    finally show ?thesis .
  qed
  show ?thesis
  proof (cases "k \<in> set raws")
    case True
    then have "0 < count_list raws k" by (simp add: count_list_gt_0)
    with some [of "count_list raws k"] True show ?thesis by simp
  next
    case False
    then have "count_list raws k = 0" by (simp add: count_notin)
    with some have "map_of m k = None" by (cases "map_of m k") auto
    with False show ?thesis by simp
  qed
qed

lemma counts_add: "counts raws m \<Longrightarrow> counts (raws @ [k]) (tally_add k m)"
  unfolding counts_def [of "raws @ [k]"]
proof (intro conjI allI)
  assume c: "counts raws m"
  then show d: "distinct (map fst (tally_add k m))"
    by (simp add: tally_add_def counts_def distinct_update)
  fix k' n
  have "(k', n) \<in> set (tally_add k m) \<longleftrightarrow> map_of (tally_add k m) k' = Some n"
    using d by simp
  moreover have "0 < count_list raws k'" if "k' \<in> set raws" using that by (simp add: count_list_gt_0)
  moreover have "count_list raws k' = 0" if "k' \<notin> set raws" using that by (simp add: count_notin)
  ultimately show "(k', n) \<in> set (tally_add k m) \<longleftrightarrow> n = count_list (raws @ [k]) k' \<and> 0 < n"
    by (cases "k' = k"; cases "k' \<in> set raws") (auto simp: tally_add_def update_conv' counts_map_of [OF c])
qed

lemma counts_fold: "counts raws m \<Longrightarrow> counts (raws @ ks) (fold tally_add ks m)"
proof (induction ks arbitrary: raws m)
  case (Cons k ks)
  from Cons.IH [OF counts_add [OF Cons.prems]] show ?case by simp
qed simp

lemma counts_same_set: "counts raws m \<Longrightarrow> counts raws' m' \<Longrightarrow> mset raws = mset raws' \<Longrightarrow> mset m = mset m'"
proof -
  assume c: "counts raws m" "counts raws' m'" and e: "mset raws = mset raws'"
  have "count_list raws = count_list raws'"
    using arg_cong [OF e, of count] by (simp add: count_mset fun_eq_iff)
  then have "set m = set m'" using c by (auto simp: counts_def)
  moreover have "distinct m" "distinct m'" using c by (simp_all add: counts_def distinct_map)
  ultimately show ?thesis by (simp add: set_eq_iff_mset_eq_distinct)
qed

text \<open>What the votes name: only those whose parameters can be encoded count.\<close>

definition counted :: "('pub, 'priv) authority \<Rightarrow> Document list \<Rightarrow> Document list" where
  "counted x = filter (\<lambda>v. gob_Encode x (vote_params v) \<noteq> None)"

definition named_params :: "('pub, 'priv) authority \<Rightarrow> Document list \<Rightarrow> bytes list" where
  "named_params x = List.map_filter (\<lambda>v. gob_Encode x (vote_params v))"

definition named :: "('d \<Rightarrow> bytes option) \<Rightarrow> (Document \<Rightarrow> 'd list) \<Rightarrow> Document list \<Rightarrow> bytes list" where
  "named marshal nodes vs = concat (map (\<lambda>v. List.map_filter marshal (nodes v)) vs)"

lemma tally_vote_simps:
  "gob_Encode x (vote_params v) = None \<Longrightarrow> tally_vote x v st = st"
  "gob_Encode x (vote_params v) = Some bs \<Longrightarrow> tally_vote x v (p, m, r) = (tally_add bs p,
     fold tally_add (List.map_filter (md_Marshal (pki x)) (vote_nodes v)) m,
     fold tally_add (List.map_filter (rd_Marshal (pki x)) (StorageReplicas v)) r)"
  by (cases st) (simp_all add: tally_vote_def)

lemma tally_counts:
  assumes "fold (tally_vote x) vs (p0, m0, r0) = (p, m, r)" "counts ps p0" "counts ms m0" "counts rs r0"
  shows "counts (ps @ named_params x vs) p"
    "counts (ms @ named (md_Marshal (pki x)) vote_nodes (counted x vs)) m"
    "counts (rs @ named (rd_Marshal (pki x)) StorageReplicas (counted x vs)) r"
proof -
  have "counts (ps @ named_params x vs) p
    \<and> counts (ms @ named (md_Marshal (pki x)) vote_nodes (counted x vs)) m
    \<and> counts (rs @ named (rd_Marshal (pki x)) StorageReplicas (counted x vs)) r"
    using assms
  proof (induction vs arbitrary: p0 m0 r0 ps ms rs)
    case Nil
    then show ?case by (simp add: named_params_def named_def counted_def)
  next
    case (Cons v vs)
    show ?case
    proof (cases "gob_Encode x (vote_params v)")
      case None
      with Cons show ?thesis by (simp add: tally_vote_simps(1) named_params_def counted_def)
    next
      case (Some bs)
      from Cons.prems(1) have "fold (tally_vote x) vs (tally_add bs p0,
          fold tally_add (List.map_filter (md_Marshal (pki x)) (vote_nodes v)) m0,
          fold tally_add (List.map_filter (rd_Marshal (pki x)) (StorageReplicas v)) r0) = (p, m, r)"
        by (simp add: tally_vote_simps(2) [OF Some])
      from Cons.IH [OF this counts_add [OF Cons.prems(2)] counts_fold [OF Cons.prems(3)] counts_fold [OF Cons.prems(4)]]
      show ?thesis by (simp add: named_params_def named_def counted_def Some)
    qed
  qed
  then show "counts (ps @ named_params x vs) p"
    "counts (ms @ named (md_Marshal (pki x)) vote_nodes (counted x vs)) m"
    "counts (rs @ named (rd_Marshal (pki x)) StorageReplicas (counted x vs)) r" by blast+
qed

lemma counts_Nil: "counts [] []"
  by (auto simp: counts_def)

section \<open>Who is elected\<close>

text \<open>The elected descriptors of a tally, and whether all of them can be decoded.\<close>

definition elected :: "(bytes \<Rightarrow> 'd option) \<Rightarrow> ('d \<Rightarrow> bool) \<Rightarrow> int \<Rightarrow> (bytes \<times> nat) list \<Rightarrow> 'd list" where
  "elected unmarshal authorized thr m =
     filter authorized (map (\<lambda>(raw, _). the (unmarshal raw)) (filter (\<lambda>(_, n). thr \<le> int n) m))"

definition decodable :: "(bytes \<Rightarrow> 'd option) \<Rightarrow> int \<Rightarrow> (bytes \<times> nat) list \<Rightarrow> bool" where
  "decodable unmarshal thr m \<longleftrightarrow> (\<forall>(raw, n) \<in> set m. thr \<le> int n \<longrightarrow> unmarshal raw \<noteq> None)"

lemma elect_eq:
  "elect unmarshal authorized thr m =
     (if decodable unmarshal thr m then Inr (elected unmarshal authorized thr m) else Inl (Err descriptorUndecodable))"
proof (induction m)
  case Nil
  then show ?case by (simp add: elected_def decodable_def)
next
  case (Cons a m)
  obtain raw n where a: "a = (raw, n)" by (cases a)
  show ?case
  proof (cases "thr \<le> int n")
    case False
    with Cons show ?thesis by (simp add: a elected_def decodable_def)
  next
    case True
    then show ?thesis
      by (cases "unmarshal raw") (use Cons in \<open>simp_all add: a elected_def decodable_def or_err_def\<close>)
  qed
qed

lemma elect_params_Inr:
  "elect_params decode thr m = Inr p \<Longrightarrow> \<exists>(bs, n) \<in> set m. decode bs = Some p \<and> thr \<le> int n"
  by (induction m) (auto split: option.splits if_splits)

lemma elect_params_Inl:
  "elect_params decode thr m = Inl e \<longleftrightarrow> e = Err consensusFailure \<and> (\<forall>(bs, n) \<in> set m. thr \<le> int n \<longrightarrow> decode bs = None)"
  by (induction m) (auto split: option.splits if_splits)

lemma elected_mset: "mset m = mset m' \<Longrightarrow> mset (elected unmarshal authorized thr m) = mset (elected unmarshal authorized thr m')"
  by (simp add: elected_def flip: mset_filter mset_map) (simp add: mset_map mset_filter)

lemma decodable_set: "set m = set m' \<Longrightarrow> decodable unmarshal thr m = decodable unmarshal thr m'"
  by (simp add: decodable_def)

lemma elected_iff:
  assumes "counts raws m" "0 < thr" "decodable unmarshal thr m"
  shows "d \<in> set (elected unmarshal authorized thr m) \<longleftrightarrow>
     authorized d \<and> (\<exists>raw. unmarshal raw = Some d \<and> thr \<le> int (count_list raws raw))"
proof -
  have m: "(raw, n) \<in> set m \<longleftrightarrow> n = count_list raws raw \<and> 0 < n" for raw n
    using assms(1) by (simp add: counts_def)
  have "d \<in> set (elected unmarshal authorized thr m) \<longleftrightarrow>
      authorized d \<and> (\<exists>raw n. (raw, n) \<in> set m \<and> thr \<le> int n \<and> d = the (unmarshal raw))"
    by (auto simp: elected_def)
  also have "\<dots> \<longleftrightarrow> authorized d \<and> (\<exists>raw n. (raw, n) \<in> set m \<and> thr \<le> int n \<and> unmarshal raw = Some d)"
    using assms(3) by (fastforce simp: decodable_def)
  also have "\<dots> \<longleftrightarrow> authorized d \<and> (\<exists>raw. unmarshal raw = Some d \<and> thr \<le> int (count_list raws raw))"
    (is "_ \<and> ?l \<longleftrightarrow> _ \<and> ?r")
  proof -
    have "?r \<Longrightarrow> ?l" using assms(2) by (metis m less_le_trans of_nat_0_less_iff)
    moreover have "?l \<Longrightarrow> ?r" by (auto simp: m)
    ultimately show ?thesis by blast
  qed
  finally show ?thesis .
qed

text \<open>
  Two descriptors under one key in a tally: if no vote names a key twice, they share the votes between them.
\<close>

lemma shared_votes:
  assumes "\<forall>v \<in> set vs. distinct (map h (nodes v))" "raw \<noteq> raw'"
    and "\<And>n. marshal n = Some raw \<Longrightarrow> h n = k" "\<And>n. marshal n = Some raw' \<Longrightarrow> h n = k"
  shows "count_list (named marshal nodes vs) raw + count_list (named marshal nodes vs) raw' \<le> length vs"
proof -
  have c: "count_list (List.map_filter marshal ns) r = length (filter (\<lambda>n. marshal n = Some r) ns)" for ns r
    by (induction ns) (auto split: option.splits)
  have one: "length (filter (\<lambda>n. marshal n = Some raw) ns) + length (filter (\<lambda>n. marshal n = Some raw') ns) \<le> 1"
    if "distinct (map h ns)" for ns
    using that
  proof (induction ns)
    case (Cons n ns)
    have "h n = k \<longrightarrow> (\<forall>m \<in> set ns. h m \<noteq> k)" using Cons.prems by (metis distinct.simps(2) image_eqI list.simps(9) set_map)
    then have none: "filter (\<lambda>n. marshal n = Some raw) ns = []" "filter (\<lambda>n. marshal n = Some raw') ns = []"
      if "h n = k"
      using that assms(3,4) unfolding filter_empty_conv by blast+
    have "length (filter (\<lambda>n. marshal n = Some raw) ns) + length (filter (\<lambda>n. marshal n = Some raw') ns) \<le> 1"
      using Cons by simp
    moreover have "h n = k" if "marshal n = Some raw \<or> marshal n = Some raw'" using that assms(3,4) by blast
    ultimately show ?case using none assms(2) by auto
  qed simp
  show ?thesis using assms(1)
  proof (induction vs)
    case (Cons v vs)
    then show ?case using one [of "nodes v"] by (simp add: named_def c)
  qed (simp add: named_def)
qed

text \<open>The order of the votes and of the tally plays no part.\<close>

lemma counts_order: "counts raws m \<Longrightarrow> is_order ord \<Longrightarrow> counts raws (ord m)"
proof -
  assume c: "counts raws m" and o: "is_order ord"
  have "mset (map fst (ord m)) = mset (map fst m)" using o by (simp add: is_order_def)
  then have "distinct (map fst (ord m)) = distinct (map fst m)" by (rule mset_eq_imp_distinct_iff)
  with c show ?thesis by (simp add: counts_def is_order_set [OF o])
qed

lemma mset_concat_map: "mset (concat (map g vs)) = (\<Sum>v \<in># mset vs. mset (g v))"
  by (induction vs) simp_all

lemma named_mset:
  assumes "mset vs = mset vs'"
  shows "mset (named marshal nodes (counted x vs)) = mset (named marshal nodes (counted x vs'))"
    "mset (named_params x vs) = mset (named_params x vs')"
proof -
  have "mset (counted x vs) = mset (counted x vs')" using assms by (simp add: counted_def mset_filter)
  then show "mset (named marshal nodes (counted x vs)) = mset (named marshal nodes (counted x vs'))"
    unfolding named_def mset_concat_map by simp
  have "named_params x ws = concat (map (\<lambda>v. case gob_Encode x (vote_params v) of None \<Rightarrow> [] | Some bs \<Rightarrow> [bs]) ws)" for ws
    by (induction ws) (simp_all add: named_params_def split: option.splits)
  then show "mset (named_params x vs) = mset (named_params x vs')"
    using assms by (simp add: mset_concat_map)
qed

lemma count_list_mset: "mset raws = mset raws' \<Longrightarrow> count_list raws = count_list raws'"
  by (metis count_mset ext)

section \<open>The result of the tally\<close>

lemma tallyVotes_eq:
  assumes "votes s e = Some vs" "fold (tally_vote x) (map snd (o_votes o' vs)) ([], [], []) = (p, m, r)"
  shows "tallyVotes x o' s e =
     (if int (length vs) < threshold x then Inl (Err notEnoughVotes)
      else if \<not> decodable (md_Unmarshal (pki x)) (threshold x) (o_mixTally o' m)
         \<or> \<not> decodable (rd_Unmarshal (pki x)) (threshold x) (o_replicaTally o' r) then Inl (Err descriptorUndecodable)
      else go_bind (elect_params (gob_Decode x) (threshold x) (o_mixParams o' p)) (\<lambda>params.
        Inr (sortNodesByPublicKey x (elected (md_Unmarshal (pki x)) (isDescriptorAuthorized x) (threshold x) (o_mixTally o' m)),
             sortReplicaNodesByPublicKey x (elected (rd_Unmarshal (pki x)) (isReplicaDescriptorAuthorized x) (threshold x) (o_replicaTally o' r)),
             params)))"
  by (simp add: tallyVotes_def assms elect_eq)

text \<open>
  C28. What a tally elects, exactly: the mixes and replicas that the configuration authorises and whose
  encoding occurs in the counted votes at least as often as the threshold asks, in the order of their
  keys; and parameters with that many votes.
\<close>

theorem tally_exact:
  assumes "proper_orders o'" "0 < threshold x" "votes s e = Some vs" "tallyVotes x o' s e = Inr (mixes, replicas, params)"
  shows "threshold x \<le> int (length vs)
    \<and> sorted (map (md_hash (pki x)) mixes)
    \<and> set mixes = {d. isDescriptorAuthorized x d \<and> (\<exists>raw. md_Unmarshal (pki x) raw = Some d
         \<and> threshold x \<le> int (count_list (named (md_Marshal (pki x)) vote_nodes (counted x (map snd vs))) raw))}
    \<and> sorted (map (rd_hash (pki x)) replicas)
    \<and> set replicas = {d. isReplicaDescriptorAuthorized x d \<and> (\<exists>raw. rd_Unmarshal (pki x) raw = Some d
         \<and> threshold x \<le> int (count_list (named (rd_Marshal (pki x)) StorageReplicas (counted x (map snd vs))) raw))}
    \<and> (\<exists>bs. gob_Decode x bs = Some params
         \<and> threshold x \<le> int (count_list (named_params x (map snd vs)) bs))"
proof -
  let ?vs = "map snd (o_votes o' vs)"
  obtain p m r where f: "fold (tally_vote x) ?vs ([], [], []) = (p, m, r)" by (cases "fold (tally_vote x) ?vs ([], [], [])") auto
  note c = tally_counts [OF f counts_Nil counts_Nil counts_Nil, simplified]
  have o: "is_order (o_mixTally o')" "is_order (o_replicaTally o')" "is_order (o_mixParams o')"
    using assms(1) by (simp_all add: proper_orders_def)
  note c = counts_order [OF c(2) o(1)] counts_order [OF c(3) o(2)] counts_order [OF c(1) o(3)]
  from assms(4) tallyVotes_eq [OF assms(3) f] have t: "threshold x \<le> int (length vs)"
      "decodable (md_Unmarshal (pki x)) (threshold x) (o_mixTally o' m)"
      "decodable (rd_Unmarshal (pki x)) (threshold x) (o_replicaTally o' r)"
      "elect_params (gob_Decode x) (threshold x) (o_mixParams o' p) = Inr params"
      "mixes = sortNodesByPublicKey x (elected (md_Unmarshal (pki x)) (isDescriptorAuthorized x) (threshold x) (o_mixTally o' m))"
      "replicas = sortReplicaNodesByPublicKey x (elected (rd_Unmarshal (pki x)) (isReplicaDescriptorAuthorized x) (threshold x) (o_replicaTally o' r))"
    by (auto simp: go_bind_Inr_iff split: if_splits)
  from elect_params_Inr [OF t(4)] c(3) have "\<exists>bs. gob_Decode x bs = Some params
         \<and> threshold x \<le> int (count_list (named_params x ?vs) bs)"
    by (auto simp: counts_def)
  moreover have "set mixes = {d. isDescriptorAuthorized x d \<and> (\<exists>raw. md_Unmarshal (pki x) raw = Some d
         \<and> threshold x \<le> int (count_list (named (md_Marshal (pki x)) vote_nodes (counted x ?vs)) raw))}"
    using elected_iff [OF c(1) assms(2) t(2)] by (auto simp: t(5) sortNodesByPublicKey_def)
  moreover have "set replicas = {d. isReplicaDescriptorAuthorized x d \<and> (\<exists>raw. rd_Unmarshal (pki x) raw = Some d
         \<and> threshold x \<le> int (count_list (named (rd_Marshal (pki x)) StorageReplicas (counted x ?vs)) raw))}"
    using elected_iff [OF c(2) assms(2) t(3)] by (auto simp: t(6) sortReplicaNodesByPublicKey_def)
  moreover have "mset ?vs = mset (map snd vs)" using assms(1) by (simp add: proper_orders_def is_order_def)
  note same = this [THEN named_mset(1), THEN count_list_mset] this [THEN named_mset(2), THEN count_list_mset]
  ultimately show ?thesis using t(1) unfolding same
    by (simp add: t(5,6) sortNodesByPublicKey_def sortReplicaNodesByPublicKey_def)
qed

section \<open>Agreement\<close>

text \<open>What the tally uses of an authority: the encodings, the threshold and the pinned nodes.\<close>

definition same_tables :: "('pub, 'priv) authority \<Rightarrow> ('pub, 'priv) authority \<Rightarrow> bool" where
  "same_tables x y \<longleftrightarrow> pki (at 0 x) = pki (at 0 y) \<and> threshold x = threshold y
     \<and> authorizedMixes x = authorizedMixes y \<and> authorizedGatewayNodes x = authorizedGatewayNodes y
     \<and> authorizedServiceNodes x = authorizedServiceNodes y \<and> authorizedReplicaNodes x = authorizedReplicaNodes y
     \<and> gob_Encode x = gob_Encode y \<and> gob_Decode x = gob_Decode y"

lemma at_pki:
  "md_Marshal (pki (at t x)) = md_Marshal (pki x)" "md_Unmarshal (pki (at t x)) = md_Unmarshal (pki x)"
  "rd_Marshal (pki (at t x)) = rd_Marshal (pki x)" "rd_Unmarshal (pki (at t x)) = rd_Unmarshal (pki x)"
  "md_hash (pki (at t x)) = md_hash (pki x)" "rd_hash (pki (at t x)) = rd_hash (pki x)"
  by (simp_all add: at_def md_hash_def rd_hash_def fun_eq_iff)

lemma same_tablesD:
  assumes "same_tables x y"
  shows "md_Marshal (pki x) = md_Marshal (pki y)" "md_Unmarshal (pki x) = md_Unmarshal (pki y)"
    "rd_Marshal (pki x) = rd_Marshal (pki y)" "rd_Unmarshal (pki x) = rd_Unmarshal (pki y)"
    "md_hash (pki x) = md_hash (pki y)" "rd_hash (pki x) = rd_hash (pki y)"
    "threshold x = threshold y" "gob_Encode x = gob_Encode y" "gob_Decode x = gob_Decode y"
    "isDescriptorAuthorized x = isDescriptorAuthorized y" "isReplicaDescriptorAuthorized x = isReplicaDescriptorAuthorized y"
    "sortNodesByPublicKey x = sortNodesByPublicKey y" "sortReplicaNodesByPublicKey x = sortReplicaNodesByPublicKey y"
proof -
  have p: "pki (at 0 x) = pki (at 0 y)" using assms by (simp add: same_tables_def)
  show h: "md_Marshal (pki x) = md_Marshal (pki y)" "md_Unmarshal (pki x) = md_Unmarshal (pki y)"
    "rd_Marshal (pki x) = rd_Marshal (pki y)" "rd_Unmarshal (pki x) = rd_Unmarshal (pki y)"
    "md_hash (pki x) = md_hash (pki y)" "rd_hash (pki x) = rd_hash (pki y)"
    using p at_pki [of 0 x] at_pki [of 0 y] by simp_all
  show "threshold x = threshold y" "gob_Encode x = gob_Encode y" "gob_Decode x = gob_Decode y"
    using assms by (simp_all add: same_tables_def)
  show "isDescriptorAuthorized x = isDescriptorAuthorized y" "isReplicaDescriptorAuthorized x = isReplicaDescriptorAuthorized y"
    using assms h by (simp_all add: fun_eq_iff isDescriptorAuthorized_def descriptorAuthorizationError_def
        isReplicaDescriptorAuthorized_def replicaAuthorizationError_def same_tables_def Let_def)
  show "sortNodesByPublicKey x = sortNodesByPublicKey y" "sortReplicaNodesByPublicKey x = sortReplicaNodesByPublicKey y"
    by (simp_all add: sortNodesByPublicKey_def sortReplicaNodesByPublicKey_def h(5,6))
qed

definition decodes :: "('d \<Rightarrow> bytes option) \<Rightarrow> (bytes \<Rightarrow> 'd option) \<Rightarrow> bool" where
  "decodes marshal unmarshal \<longleftrightarrow> (\<forall>d raw. marshal d = Some raw \<longrightarrow> unmarshal raw = Some d)"

definition encodings_decode :: "('pub, 'priv) authority \<Rightarrow> bool" where
  "encodings_decode x \<longleftrightarrow> decodes (md_Marshal (pki x)) (md_Unmarshal (pki x))
     \<and> decodes (rd_Marshal (pki x)) (rd_Unmarshal (pki x))"

text \<open>No vote names a node twice.\<close>

definition names_once :: "('pub, 'priv) authority \<Rightarrow> Document \<Rightarrow> bool" where
  "names_once x v \<longleftrightarrow> distinct (map (md_hash (pki x)) (vote_nodes v)) \<and> distinct (map (rd_hash (pki x)) (StorageReplicas v))"

lemma elected_one_per_key:
  assumes c: "counts (named marshal nodes vs) m" and thr: "int (length vs) < 2 * thr"
    and v: "\<forall>v \<in> set vs. distinct (map h (nodes v))"
    and codec: "decodes marshal unmarshal"
    and dec: "decodable unmarshal thr m"
  shows "inj_on h (set (elected unmarshal authorized thr m))"
proof (rule inj_onI)
  have "0 < thr" using thr by linarith
  note e = elected_iff [OF c this dec, of _ authorized]
  fix d d'
  assume "d \<in> set (elected unmarshal authorized thr m)" "d' \<in> set (elected unmarshal authorized thr m)" and h: "h d = h d'"
  then obtain raw raw' where r: "unmarshal raw = Some d" "thr \<le> int (count_list (named marshal nodes vs) raw)"
      "unmarshal raw' = Some d'" "thr \<le> int (count_list (named marshal nodes vs) raw')"
    unfolding e by (elim conjE exE)
  show "d = d'"
  proof (rule ccontr)
    assume "d \<noteq> d'"
    with r have "raw \<noteq> raw'" by auto
    moreover have "h n = h d" if "marshal n = Some raw \<or> marshal n = Some raw'" for n
      using that codec r(1,3) h unfolding decodes_def by force
    ultimately have "count_list (named marshal nodes vs) raw + count_list (named marshal nodes vs) raw' \<le> length vs"
      by (intro shared_votes [OF v, of _ _ _ "h d"]) simp_all
    with r(2,4) thr show False by linarith
  qed
qed

lemma two_counts: "raw \<noteq> raw' \<Longrightarrow> count_list raws raw + count_list raws raw' \<le> length raws"
  by (induction raws) auto

lemma params_agreed:
  assumes "counts raws m" "set m' = set m" "int (length raws) < 2 * thr"
  shows "elect_params decode thr m = elect_params decode thr m'"
proof (cases "elect_params decode thr m")
  case (Inl e)
  with assms(2) have "elect_params decode thr m' = Inl e" by (simp add: elect_params_Inl)
  with Inl show ?thesis by simp
next
  case (Inr p)
  then have "elect_params decode thr m' \<noteq> Inl e" for e using elect_params_Inl [of decode thr] assms(2) by (metis Inl_Inr_False)
  then obtain p' where p': "elect_params decode thr m' = Inr p'" by (cases "elect_params decode thr m'") auto
  from elect_params_Inr [OF Inr] elect_params_Inr [OF p'] assms(1,2) obtain bs bs' where
      "decode bs = Some p" "thr \<le> int (count_list raws bs)" "decode bs' = Some p'" "thr \<le> int (count_list raws bs')"
    by (auto simp: counts_def)
  moreover from this(2,4) two_counts [of bs bs' raws] assms(3) have "bs = bs'" by linarith
  ultimately show ?thesis using Inr p' by simp
qed

lemma elected_sorted_agree:
  assumes "counts (named marshal nodes vs) m" "counts (named marshal nodes vs') m'"
    and "mset (named marshal nodes vs) = mset (named marshal nodes vs')"
    and "int (length vs) < 2 * thr" "\<forall>v \<in> set vs. distinct (map h (nodes v))"
    and "decodes marshal unmarshal" "is_order ord" "is_order ord'"
  shows "decodable unmarshal thr (ord m) = decodable unmarshal thr (ord' m')"
    "decodable unmarshal thr (ord m) \<Longrightarrow> sort_key h (elected unmarshal authorized thr (ord m))
       = sort_key h (elected unmarshal authorized thr (ord' m'))"
proof -
  have "mset (ord m) = mset (ord' m')"
    using counts_same_set [OF assms(1-3)] assms(7,8) by (simp add: is_order_def)
  then have e: "mset (elected unmarshal authorized thr (ord m)) = mset (elected unmarshal authorized thr (ord' m'))"
      "set (ord m) = set (ord' m')"
    using elected_mset mset_eq_setD by blast+
  show "decodable unmarshal thr (ord m) = decodable unmarshal thr (ord' m')"
    by (rule decodable_set [OF e(2)])
  assume "decodable unmarshal thr (ord m)"
  then have "inj_on h (set (elected unmarshal authorized thr (ord m)))"
    using elected_one_per_key [OF counts_order [OF assms(1,7)] assms(4,5,6)] by blast
  with e(1) show "sort_key h (elected unmarshal authorized thr (ord m)) = sort_key h (elected unmarshal authorized thr (ord' m'))"
    by (intro sort_key_inj_key_eq) simp_all
qed

text \<open>
  C34. Authorities that hold the same votes and have the same nodes pinned come to the same tally - the
  same mixes, replicas and parameters, or the same failure - in whatever order their maps are visited,
  if no vote names a node twice (the authority does not check this of the votes it takes, so it is for the
  voters to ensure) and the threshold is more than half of the votes. The law is that a descriptor's encoding
  decodes to it.
\<close>

theorem tally_agreed:
  assumes "same_tables x y" "encodings_decode x" "proper_orders o1" "proper_orders o2"
    and "votes s e = Some vs" "votes s' e = Some vs'" "mset (map snd vs) = mset (map snd vs')"
    and "\<forall>v \<in> set (map snd vs). names_once x v" "int (length vs) < 2 * threshold x"
  shows "tallyVotes x o1 s e = tallyVotes y o2 s' e"
proof -
  note same = same_tablesD [OF assms(1)]
  let ?v1 = "map snd (o_votes o1 vs)" and ?v2 = "map snd (o_votes o2 vs')"
  obtain p1 m1 r1 where f1: "fold (tally_vote x) ?v1 ([], [], []) = (p1, m1, r1)" by (cases "fold (tally_vote x) ?v1 ([], [], [])") auto
  obtain p2 m2 r2 where f2: "fold (tally_vote y) ?v2 ([], [], []) = (p2, m2, r2)" by (cases "fold (tally_vote y) ?v2 ([], [], [])") auto
  note c1 = tally_counts [OF f1 counts_Nil counts_Nil counts_Nil, simplified]
  have cy: "counted y = counted x" "named_params y = named_params x"
    by (simp_all add: counted_def named_params_def fun_eq_iff same)
  note c2 = tally_counts [OF f2 counts_Nil counts_Nil counts_Nil, simplified, folded same, unfolded cy]
  have o: "mset ?v1 = mset (map snd vs)" "mset ?v2 = mset (map snd vs')"
    using assms(3,4) by (simp_all add: proper_orders_def is_order_def)
  then have v: "mset ?v1 = mset ?v2" using assms(7) by simp
  have len: "length vs' = length vs" using assms(7) by (metis length_map size_mset)
  have short: "int (length (counted x ?v1)) < 2 * threshold x"
    using assms(9) mset_eq_length [OF o(1)] length_filter_le [of _ ?v1] unfolding counted_def
    by (metis (no_types, lifting) int_ops(9) length_map nat_int of_nat_less_iff order.strict_trans1 zle_int)
  have once: "\<forall>v \<in> set (counted x ?v1). distinct (map (md_hash (pki x)) (vote_nodes v))"
      "\<forall>v \<in> set (counted x ?v1). distinct (map (rd_hash (pki x)) (StorageReplicas v))"
    using assms(8) mset_eq_setD [OF o(1)] by (auto simp: counted_def names_once_def)
  have po: "is_order (o_mixTally o1)" "is_order (o_replicaTally o1)" "is_order (o_mixParams o1)"
      "is_order (o_mixTally o2)" "is_order (o_replicaTally o2)" "is_order (o_mixParams o2)"
    using assms(3,4) by (simp_all add: proper_orders_def)
  have codec: "decodes (md_Marshal (pki x)) (md_Unmarshal (pki x))" "decodes (rd_Marshal (pki x)) (rd_Unmarshal (pki x))"
    using assms(2) by (simp_all add: encodings_decode_def)
  note mixes = elected_sorted_agree(1) [OF c1(2) c2(2) named_mset(1) [OF v] short once(1) codec(1) po(1,4)]
    elected_sorted_agree(2) [OF c1(2) c2(2) named_mset(1) [OF v] short once(1) codec(1) po(1,4),
      where authorized = "isDescriptorAuthorized x"]
  note reps = elected_sorted_agree(1) [OF c1(3) c2(3) named_mset(1) [OF v] short once(2) codec(2) po(2,5)]
    elected_sorted_agree(2) [OF c1(3) c2(3) named_mset(1) [OF v] short once(2) codec(2) po(2,5),
      where authorized = "isReplicaDescriptorAuthorized x"]
  have "length (named_params x ?v1) \<le> length ?v1" by (simp add: named_params_def map_filter_def)
  then have "int (length (named_params x ?v1)) < 2 * threshold x"
    using assms(9) mset_eq_length [OF o(1)] by simp
  moreover have "set (o_mixParams o2 p2) = set (o_mixParams o1 p1)"
    using counts_same_set [OF c1(1) c2(1) named_mset(2) [OF v]] po(3,6) by (metis is_order_set mset_eq_setD)
  ultimately have params: "elect_params (gob_Decode x) (threshold x) (o_mixParams o1 p1) = elect_params (gob_Decode x) (threshold x) (o_mixParams o2 p2)"
    by (intro params_agreed [OF counts_order [OF c1(1) po(3)]])
  show ?thesis
    unfolding tallyVotes_eq [OF assms(5) f1] tallyVotes_eq [OF assms(6) f2] len
    using mixes reps params by (auto simp: same [symmetric] sortNodesByPublicKey_def sortReplicaNodesByPublicKey_def simp flip: same)
qed

section \<open>Three votes\<close>

text \<open>Two of three votes name the mix 9.\<close>

definition tally_authority :: "(byte, byte) authority" where
  "tally_authority = demo_authority\<lparr>
     pki := (pki demo_authority)\<lparr>md_Marshal := \<lambda>d. if d = demo_node 9 False False then Some [9] else None,
       md_Unmarshal := \<lambda>b. if b = [9] then Some (demo_node 9 False False) else None\<rparr>,
     authorizedMixes := [(9 # replicate 31 0, ''node'')],
     gob_Decode := \<lambda>b. Some (cfg_Parameters demo_cfg)\<rparr>"

definition tally_votes :: "(key_hash \<times> Document) list" where
  "tally_votes = [(replicate 32 1, zero_document\<lparr>Topology := [[demo_node 9 False False]]\<rparr>),
     (replicate 32 2, zero_document), (replicate 32 3, zero_document\<lparr>Topology := [[], [demo_node 9 False False]]\<rparr>)]"

lemma tally_authority_simps [simp]:
  "md_Marshal (pki tally_authority) = (\<lambda>d. if d = demo_node 9 False False then Some [9] else None)"
  "md_Unmarshal (pki tally_authority) = (\<lambda>b. if b = [9] then Some (demo_node 9 False False) else None)"
  "rd_Marshal (pki tally_authority) = (\<lambda>_. None)" "rd_Unmarshal (pki tally_authority) = (\<lambda>_. None)"
  "gob_Encode tally_authority = (\<lambda>_. Some [])" "gob_Decode tally_authority = (\<lambda>_. Some (cfg_Parameters demo_cfg))"
  "threshold tally_authority = 2"
  by (simp_all add: tally_authority_def) (simp_all add: demo_authority_def demo_pki_def)

lemma tally_mix: "isDescriptorAuthorized tally_authority (demo_node 9 False False)"
proof -
  have "md_hash (pki tally_authority) d = md_hash demo_pki d" for d
    by (simp add: md_hash_def tally_authority_def demo_authority_def)
  then show ?thesis
    by (simp add: isDescriptorAuthorized_def descriptorAuthorizationError_def Let_def demo_node_hash)
      (simp add: tally_authority_def demo_node_def)
qed

lemma tally_result:
  "tallyVotes tally_authority demo_orders (blank_db\<lparr>votes := [6 \<mapsto> tally_votes]\<rparr>) 6
     = Inr ([demo_node 9 False False], [], cfg_Parameters demo_cfg)"
  by (simp add: tallyVotes_def demo_orders_def tally_votes_def Let_def tally_vote_def vote_nodes_def zero_document_def
      tally_add_def map_filter_simps or_err_def tally_mix sortNodesByPublicKey_def sortReplicaNodesByPublicKey_def)

theorem tally_exact_witness:
  "{demo_node 9 False False} = {d. isDescriptorAuthorized tally_authority d
     \<and> (\<exists>raw. md_Unmarshal (pki tally_authority) raw = Some d
     \<and> 2 \<le> int (count_list (named (md_Marshal (pki tally_authority)) vote_nodes (counted tally_authority (map snd tally_votes))) raw))}"
  using tally_exact [OF demo_proper _ _ tally_result, of tally_votes] by simp

text \<open>Another authority of the same configuration holds the votes in another order.\<close>

theorem tally_agreed_witness:
  "tallyVotes tally_authority (demo_orders\<lparr>o_votes := \<lambda>m. m\<rparr>) (blank_db\<lparr>votes := [6 \<mapsto> tally_votes]\<rparr>) 6
   = tallyVotes (tally_authority\<lparr>identityPublicKey := 2, identityPrivateKey := 2\<rparr>) demo_orders
       (blank_db\<lparr>votes := [6 \<mapsto> rev tally_votes]\<rparr>) 6"
proof (rule tally_agreed [where vs = tally_votes and vs' = "rev tally_votes"])
  show "same_tables tally_authority (tally_authority\<lparr>identityPublicKey := 2, identityPrivateKey := 2\<rparr>)"
    by (simp add: same_tables_def at_def)
  show "encodings_decode tally_authority" by (simp add: encodings_decode_def decodes_def)
  show "proper_orders (demo_orders\<lparr>o_votes := \<lambda>m. m\<rparr>)" using demo_proper by (simp add: proper_orders_def)
  show "\<forall>v \<in> set (map snd tally_votes). names_once tally_authority v"
    by (simp add: names_once_def tally_votes_def vote_nodes_def zero_document_def)
qed (simp_all add: demo_proper rev_map [symmetric], simp_all add: tally_votes_def)

end
