(* ===== verification/AuthorityTopology.thy ===== *)
theory AuthorityTopology
  imports AuthorityDemo
begin

text \<open>
  The topology of a consensus document: every mix in one layer, and the layers of equal size up to one.
\<close>

section \<open>Dealing\<close>

text \<open>The layers before \<open>l\<close> have one node more.\<close>

definition dealt :: "nat \<Rightarrow> nat \<Rightarrow> 'a list list \<Rightarrow> bool" where
  "dealt q l t \<longleftrightarrow> l < length t \<and> (\<forall>i < length t. length (t ! i) = (if i < l then Suc q else q))"

lemma mset_concat_update:
  "l < length t \<Longrightarrow> mset (concat (t[l := a])) + mset (t ! l) = mset (concat t) + mset a"
  by (induction t arbitrary: l) (auto simp: nth_Cons split: nat.splits)

lemma mset_concat_snoc: "l < length t \<Longrightarrow> mset (concat (t[l := t ! l @ [n]])) = mset (concat t) + {#n#}"
  using mset_concat_update [of l t "t ! l @ [n]"] by (simp add: ac_simps)

lemma deal_nodes:
  "l < length t \<Longrightarrow> length (deal l ns t) = length t \<and> mset (concat (deal l ns t)) = mset (concat t) + mset ns"
proof (induction l ns t rule: deal.induct)
  case (2 l n ns t)
  then have "Suc l mod length t < length t" by (metis length_pos_if_in_set mod_less_divisor nth_mem)
  with 2 show ?case by (simp add: mset_concat_snoc)
qed simp

lemma deal_dealt: "dealt q l t \<Longrightarrow> \<exists>q' l'. dealt q' l' (deal l ns t)"
proof (induction l ns t arbitrary: q rule: deal.induct)
  case (2 l n ns t)
  let ?t = "t[l := t ! l @ [n]]"
  have "dealt (if Suc l = length t then Suc q else q) (Suc l mod length t) ?t"
    using 2(2) by (auto simp: dealt_def nth_list_update mod_if)
  from 2(1) [OF this] show ?case by simp
qed auto

lemma dealt_even:
  assumes "dealt q l t" "a \<in> set t" "b \<in> set t"
  shows "length a \<le> Suc (length b)"
proof -
  from assms(2,3) obtain i j where "i < length t" "a = t ! i" "j < length t" "b = t ! j" by (metis in_set_conv_nth)
  with assms(1) show ?thesis by (simp add: dealt_def)
qed

text \<open>How many of the nodes dealt from the first layer on each layer gets.\<close>

lemma deal_length: "length (deal l ns t) = length t"
  by (induction l ns t rule: deal.induct) simp_all

lemma deal_snoc:
  "l < length t \<Longrightarrow> deal l (ns @ [n]) t
     = (deal l ns t)[(l + length ns) mod length t := deal l ns t ! ((l + length ns) mod length t) @ [n]]"
proof (induction l ns t rule: deal.induct)
  case (2 l m ns t)
  have "Suc l mod length t < length t" using 2(2) by (metis length_pos_if_in_set mod_less_divisor nth_mem)
  then have "Suc l mod length t < length (t[l := t ! l @ [m]])" by simp
  from 2(1) [OF this] show ?case by (simp add: mod_add_left_eq)
qed simp

lemma deal_sizes:
  "i < length t \<Longrightarrow> length (deal 0 ns t ! i) = length (t ! i) + length ns div length t + (if i < length ns mod length t then 1 else 0)"
proof (induction ns rule: rev_induct)
  case (snoc n ns)
  then have "0 < length t" by linarith
  with snoc show ?case by (auto simp: deal_snoc nth_list_update deal_length div_Suc mod_Suc split: if_splits)
qed simp

text \<open>The generator's permutations are permutations.\<close>

definition perm_law :: "('pub, 'priv) authority \<Rightarrow> bool" where
  "perm_law x \<longleftrightarrow> (\<forall>seed drawn n. mset (det_Perm x seed drawn n) = mset [0..<n])"

lemma perm_shuffle: "perm_law x \<Longrightarrow> mset (map ((!) ns) (det_Perm x seed drawn (length ns))) = mset ns"
proof -
  assume "perm_law x"
  then have "mset (map ((!) ns) (det_Perm x seed drawn (length ns))) = mset (map ((!) ns) [0..<length ns])"
    by (simp add: perm_law_def)
  then show ?thesis by (simp only: map_nth)
qed

text \<open>
  A random topology has as many layers as the configuration says, has every node in it once, and no
  layer has two nodes more than another.
\<close>

theorem random_topology_balanced:
  assumes "perm_law x" "0 < cfg_Layers (cfg x)"
  shows "\<exists>t. generateRandomTopology x nodes srv = Inr t \<and> length t = nat (cfg_Layers (cfg x))
     \<and> mset (concat t) = mset nodes \<and> (\<forall>a \<in> set t. \<forall>b \<in> set t. length a \<le> Suc (length b))"
proof -
  let ?L = "nat (cfg_Layers (cfg x))" and ?ns = "map ((!) nodes) (det_Perm x srv [] (length nodes))"
  let ?t = "deal 0 ?ns (replicate ?L [])"
  have start: "dealt 0 0 (replicate ?L ([] :: MixDescriptor list))" using assms(2) by (simp add: dealt_def)
  then obtain q l where "dealt q l ?t" using deal_dealt by blast
  then have "\<forall>a \<in> set ?t. \<forall>b \<in> set ?t. length a \<le> Suc (length b)" using dealt_even by blast
  moreover have "length ?t = ?L \<and> mset (concat ?t) = mset nodes"
    using deal_nodes [of 0 "replicate ?L []" ?ns] assms perm_shuffle [OF assms(1)] by simp
  ultimately show ?thesis using assms(2) by (auto simp: generateRandomTopology_def Let_def)
qed

section \<open>A topology after a topology\<close>

lemma mset_delete: "map_of m k = Some v \<Longrightarrow> distinct (map fst m) \<Longrightarrow> mset (map snd m) = {#v#} + mset (map snd (AList.delete k m))"
  by (induction m) (auto split: if_splits)

text \<open>Taking over the nodes of one layer.\<close>

lemma keep_layer_spec:
  assumes "keep_layer x target ns cur m = (cur', m')" "distinct (map fst m)"
    "\<forall>(k, v) \<in> set m. k = md_hash (pki x) v" "length cur \<le> target"
  shows "mset cur' + mset (map snd m') = mset cur + mset (map snd m) \<and> distinct (map fst m')
    \<and> (\<forall>(k, v) \<in> set m'. k = md_hash (pki x) v) \<and> length cur' \<le> target"
  using assms
proof (induction ns arbitrary: cur m)
  case Nil
  then show ?case by simp
next
  case (Cons n ns)
  show ?case
  proof (cases "target \<le> length cur \<or> map_of m (md_hash (pki x) n) = None")
    case True
    with Cons show ?thesis by (auto split: if_splits)
  next
    case False
    then obtain v where v: "map_of m (md_hash (pki x) n) = Some v" and room: "\<not> target \<le> length cur" by auto
    let ?k = "md_hash (pki x) n"
    have sub: "set (AList.delete ?k m) \<subseteq> set m" by (auto simp: AList.delete_eq)
    have "mset (map snd m) = {#v#} + mset (map snd (AList.delete ?k m))"
      by (rule mset_delete [OF v Cons.prems(2)])
    moreover have "keep_layer x target ns (cur @ [v]) (AList.delete ?k m) = (cur', m')"
      using Cons.prems(1) v room by simp
    note Cons.IH [OF this]
    ultimately show ?thesis
      using Cons.prems(2-4) room sub by (auto simp: AList.distinct_delete)
  qed
qed

text \<open>Taking over the nodes of the layers from \<open>l\<close> on.\<close>

definition layers_kept :: "('pub, 'priv) authority \<Rightarrow> nat \<Rightarrow> nat \<Rightarrow> MixDescriptor list list \<Rightarrow> (key_hash \<times> MixDescriptor) list \<Rightarrow> bool" where
  "layers_kept x target l t m \<longleftrightarrow> distinct (map fst m) \<and> (\<forall>(k, v) \<in> set m. k = md_hash (pki x) v)
     \<and> (\<forall>a \<in> set t. length a \<le> target) \<and> (\<forall>i < length t. l \<le> i \<longrightarrow> t ! i = [])"

lemma keep_layers_spec:
  assumes "layers_kept x target l t m" "l + length ls \<le> length t"
  shows "\<exists>t' m' drawn'. keep_layers x target srv drawn l ls t m = Inr (t', m', drawn') \<and> length t' = length t
    \<and> mset (concat t') + mset (map snd m') = mset (concat t) + mset (map snd m)
    \<and> layers_kept x target (l + length ls) t' m'"
  using assms
proof (induction ls arbitrary: drawn l t m)
  case Nil
  then show ?case by simp
next
  case (Cons nodes ls)
  let ?order = "map (\<lambda>i. nodes ! i) (det_Perm x srv drawn (length nodes))"
  have l: "l < length t" "t ! l = []" using Cons.prems by (simp_all add: layers_kept_def)
  obtain cur m' where k: "keep_layer x target ?order (t ! l) m = (cur, m')" by fastforce
  have spec: "mset cur + mset (map snd m') = mset (map snd m) \<and> distinct (map fst m')
      \<and> (\<forall>(k, v) \<in> set m'. k = md_hash (pki x) v) \<and> length cur \<le> target"
    using keep_layer_spec [OF k] Cons.prems(1) l by (simp add: layers_kept_def)
  have kept: "layers_kept x target (Suc l) (t[l := cur]) m'"
    using spec Cons.prems(1) by (auto simp: layers_kept_def nth_list_update dest!: set_update_subset_insert [THEN subsetD])
  have nodes: "mset (concat (t[l := cur])) + mset (map snd m') = mset (concat t) + mset (map snd m)"
    using mset_concat_update [OF l(1), of cur] l(2) spec by (simp add: ac_simps)
  have step: "keep_layers x target srv drawn l (nodes # ls) t m
      = keep_layers x target srv (drawn @ [length nodes]) (Suc l) ls (t[l := cur]) m'"
  proof (cases "?order = []")
    case True
    then have "cur = []" "m' = m" using k l(2) by auto
    moreover have "t[l := []] = t" using l(2) by (metis list_update_id)
    ultimately show ?thesis using True by simp
  next
    case False
    then show ?thesis using k l(1) by (simp add: Let_def)
  qed
  show ?case
    unfolding step using Cons.IH [OF kept, of "drawn @ [length nodes]"] Cons.prems(2) nodes by simp
qed

text \<open>Filling.\<close>

lemma fill_layer_spec:
  "target - length cur \<le> length pending \<Longrightarrow> length cur \<le> target \<Longrightarrow>
     fill_layer target cur pending = Inr (cur @ take (target - length cur) pending, drop (target - length cur) pending)"
proof (induction pending arbitrary: cur)
  case Nil
  then show ?case by (simp add: fill_layer.simps)
next
  case (Cons n ns)
  show ?case
  proof (cases "length cur < target")
    case True
    then have d: "target - length cur = Suc (target - length (cur @ [n]))" by simp
    from Cons.IH [of "cur @ [n]"] Cons.prems True show ?thesis
      by (simp add: fill_layer.simps [of target cur] d)
  next
    case False
    with Cons.prems(2) show ?thesis by (simp add: fill_layer.simps)
  qed
qed

lemma fill_layers_spec:
  assumes "l + n \<le> length t" "\<forall>a \<in> set t. length a \<le> target"
    and "(\<Sum>i = l..<l + n. target - length (t ! i)) \<le> length pending"
  shows "\<exists>t' pending'. fill_layers target l n t pending = Inr (t', pending') \<and> length t' = length t
    \<and> mset (concat t') + mset pending' = mset (concat t) + mset pending
    \<and> (\<forall>i < length t. length (t' ! i) = (if l \<le> i \<and> i < l + n then target else length (t ! i)))"
  using assms
proof (induction n arbitrary: l t pending)
  case 0
  then show ?case by simp
next
  case (Suc n)
  let ?k = "target - length (t ! l)"
  let ?t = "t[l := t ! l @ take ?k pending]"
  have sum: "(\<Sum>i = l..<l + Suc n. target - length (t ! i)) = ?k + (\<Sum>i = Suc l..<Suc l + n. target - length (t ! i))"
    by (simp add: sum.atLeast_Suc_lessThan)
  have l: "l < length t" "length (t ! l) \<le> target" "?k \<le> length pending" using Suc.prems sum by simp_all
  have f: "fill_layer target (t ! l) pending = Inr (t ! l @ take ?k pending, drop ?k pending)"
    using fill_layer_spec l by blast
  have len: "length (t ! l @ take ?k pending) = target" using l by simp
  have "\<forall>a \<in> set ?t. length a \<le> target"
    using Suc.prems(2) len by (auto dest!: set_update_subset_insert [THEN subsetD])
  moreover have "(\<Sum>i = Suc l..<Suc l + n. target - length (?t ! i)) \<le> length (drop ?k pending)"
    using Suc.prems(3) sum by simp
  ultimately obtain t' pending' where r: "fill_layers target (Suc l) n ?t (drop ?k pending) = Inr (t', pending')"
      "length t' = length t" "mset (concat t') + mset pending' = mset (concat ?t) + mset (drop ?k pending)"
      "\<forall>i < length t. length (t' ! i) = (if Suc l \<le> i \<and> i < Suc l + n then target else length (?t ! i))"
    using Suc.IH [of "Suc l" ?t "drop ?k pending"] Suc.prems(1) by auto
  have p: "mset pending = mset (take ?k pending) + mset (drop ?k pending)"
    by (simp flip: mset_append)
  have "mset (concat ?t) = mset (concat t) + mset (take ?k pending)"
    using mset_concat_update [OF l(1), of "t ! l @ take ?k pending"] by simp
  then have "mset (concat ?t) + mset (drop ?k pending) = mset (concat t) + mset pending"
    unfolding p by simp
  with r f l(1) len show ?case by (auto simp: nth_list_update)
qed

lemma fill_layers_short: "length t < l + n \<Longrightarrow> l \<le> length t \<Longrightarrow> fill_layers target l n t pending = Inl Panic"
proof (induction n arbitrary: l t pending)
  case (Suc n)
  have p: "fill_layer target cur pending = Inl e \<Longrightarrow> e = Panic" for cur :: "'a list" and pending e
    by (induction target cur pending rule: fill_layer.induct) (subst (asm) (2) fill_layer.simps, auto split: if_splits list.splits)
  show ?case
  proof (cases "fill_layer target (t ! l) pending")
    case (Inl e)
    with p show ?thesis by simp
  next
    case (Inr r)
    with Suc show ?thesis by (cases r) simp
  qed
qed simp

lemma keep_layers_panics: "keep_layers x target srv drawn l ls t m = Inl e \<Longrightarrow> e = Panic"
  by (induction x target srv drawn l ls t m rule: keep_layers.induct) (auto simp: Let_def split: if_splits prod.splits)

lemma keep_layers_length: "keep_layers x target srv drawn l ls t m = Inr (t', m', drawn') \<Longrightarrow> length t' = length t"
  by (induction x target srv drawn l ls t m rule: keep_layers.induct) (auto simp: Let_def split: if_splits prod.splits)

lemma update_new: "k \<notin> fst ` set m \<Longrightarrow> AList.update k v m = m @ [(k, v)]"
  by (induction m) auto

lemma node_map:
  assumes "distinct (map h nodes)"
  shows "fold (\<lambda>v. AList.update (h v) v) nodes [] = map (\<lambda>v. (h v, v)) nodes"
proof -
  have "fold (\<lambda>v. AList.update (h v) v) nodes m = m @ map (\<lambda>v. (h v, v)) nodes"
    if "distinct (map h nodes)" "\<forall>v \<in> set nodes. h v \<notin> fst ` set m" for m
    using that
  proof (induction nodes arbitrary: m)
    case (Cons v vs)
    have "AList.update (h v) v m = m @ [(h v, v)]" using Cons.prems(2) by (simp add: update_new)
    moreover have "h v \<notin> h ` set vs" using Cons.prems(1) by simp
    then have "\<forall>w \<in> set vs. h w \<notin> fst ` set (m @ [(h v, v)])" using Cons.prems(2) by (auto simp: image_iff)
    ultimately show ?case using Cons.IH [of "m @ [(h v, v)]"] Cons.prems(1) by simp
  qed simp
  from this [of "[]"] assms show ?thesis by simp
qed

lemma layers_nodes: "length (concat t) = (\<Sum>i < length t. length (t ! i))" for t :: "'a list list"
proof -
  have "length (concat t) = sum_list (map length t)" by (simp add: length_concat)
  also have "\<dots> = (\<Sum>i < length t. length (t ! i))" by (simp add: sum_list_sum_nth atLeast0LessThan)
  finally show ?thesis .
qed

text \<open>What the filled layers need is there: a layer's share is at most the nodes divided by the layers.\<close>

lemma enough_pending:
  assumes kept: "layers_kept x target n t m" and n: "n \<le> length t" and t: "target * length t \<le> N"
    and nodes: "length (concat t) + p = N"
  shows "(\<Sum>i = 0..<0 + n. target - length (t ! i)) \<le> p"
proof -
  have le: "length (t ! i) \<le> target" if "i < n" for i using kept n that by (simp add: layers_kept_def)
  have "(\<Sum>i < n. target - length (t ! i)) + (\<Sum>i < n. length (t ! i)) = (\<Sum>i < n. target)"
    unfolding sum.distrib [symmetric] by (rule sum.cong) (simp_all add: le)
  moreover have "(\<Sum>i < length t. length (t ! i)) = (\<Sum>i < n. length (t ! i))"
    using kept n by (intro sum.mono_neutral_right) (auto simp: layers_kept_def)
  moreover have "n * target \<le> N" using mult_le_mono1 [OF n, of target] t by (metis mult.commute le_trans)
  moreover have "(\<Sum>i < n. target) = n * target" by simp
  ultimately show ?thesis using nodes unfolding layers_nodes by (simp only: atLeast0LessThan add_0)
qed

text \<open>
  C35. Making a topology after an earlier one always ends. If that one has no more layers than are configured now, the
  result has the configured number of layers and every node is in exactly one of them. Each layer that the
  earlier topology had is filled up to the share \<open>length nodes div L\<close>, the others are empty until then, and
  what is left is dealt to all layers from the first on; so if the number of layers has not changed, no layer has
  two nodes more than another, and if it has grown, the new layers are short. If it has shrunk, the code panics.
\<close>

theorem next_topology_balanced:
  assumes "perm_law x" "proper_orders o'" "0 < cfg_Layers (cfg x)" "distinct (map (md_hash (pki x)) nodes)"
  shows "if length (Topology doc) \<le> nat (cfg_Layers (cfg x))
     then \<exists>t. generateTopology x o' nodes doc srv = Inr t \<and> length t = nat (cfg_Layers (cfg x))
       \<and> mset (concat t) = mset nodes
       \<and> (let L = nat (cfg_Layers (cfg x)); share = length nodes div L; left = length nodes - length (Topology doc) * share
          in \<forall>i < L. length (t ! i) = (if i < length (Topology doc) then share else 0) + left div L + (if i < left mod L then 1 else 0))
       \<and> (length (Topology doc) = nat (cfg_Layers (cfg x)) \<longrightarrow> (\<forall>a \<in> set t. \<forall>b \<in> set t. length a \<le> Suc (length b)))
     else generateTopology x o' nodes doc srv = Inl Panic"
proof -
  let ?L = "nat (cfg_Layers (cfg x))" and ?n = "length (Topology doc)"
  let ?target = "length nodes div ?L" and ?t0 = "replicate ?L []" and ?m0 = "map (\<lambda>v. (md_hash (pki x) v, v)) nodes"
  have L: "0 < ?L" "\<not> cfg_Layers (cfg x) \<le> 0" using assms(3) by simp_all
  have m0: "fold (\<lambda>v. AList.update (md_hash (pki x) v) v) nodes [] = ?m0" by (rule node_map [OF assms(4)])
  have ids: "map snd ?m0 = nodes" by (simp add: comp_def)
  define pend where "pend m drawn = (let toAssign = sortNodesByPublicKey x (map snd (o_nodeMap o' m))
      in map (\<lambda>i. toAssign ! i) (det_Perm x srv drawn (length toAssign)))" for m drawn
  have pend: "mset (pend m drawn) = mset (map snd m)" for m drawn
  proof -
    have "is_order (o_nodeMap o')" using assms(2) by (simp add: proper_orders_def)
    then have "mset (map snd (o_nodeMap o' m)) = mset (map snd m)" by (simp add: is_order_def)
    then show ?thesis unfolding pend_def Let_def perm_shuffle [OF assms(1)] by (simp add: sortNodesByPublicKey_def)
  qed
  have g: "generateTopology x o' nodes doc srv =
      go_bind (keep_layers x ?target srv [] 0 (Topology doc) ?t0 ?m0) (\<lambda>(t, m, drawn).
      go_bind (fill_layers ?target 0 ?n t (pend m drawn)) (\<lambda>(t, pending). Inr (deal 0 pending t)))"
    using L by (simp add: generateTopology_def m0 pend_def Let_def)
  show ?thesis
  proof (cases "?n \<le> ?L")
    case True
    have "layers_kept x ?target 0 ?t0 ?m0" using assms(4) by (auto simp: layers_kept_def comp_def)
    from keep_layers_spec [OF this, of "Topology doc" srv "[]"] True obtain t m drawn where
      k: "keep_layers x ?target srv [] 0 (Topology doc) ?t0 ?m0 = Inr (t, m, drawn)" "length t = ?L"
        "mset (concat t) + mset (map snd m) = mset (concat ?t0) + mset (map snd ?m0)" "layers_kept x ?target ?n t m"
      by (auto simp del: map_map)
    have k3: "mset (concat t) + mset (map snd m) = mset nodes" using k(3) unfolding ids by simp
    have "length (pend m drawn) = length (map snd m)" using pend by (metis size_mset)
    then have N: "length (concat t) + length (pend m drawn) = length nodes"
      using arg_cong [OF k3, of size] by simp
    have need: "(\<Sum>i = 0..<0 + ?n. ?target - length (t ! i)) \<le> length (pend m drawn)"
      by (rule enough_pending [OF k(4) _ _ N]) (use True k(2) in auto)
    obtain t' pending where f: "fill_layers ?target 0 ?n t (pend m drawn) = Inr (t', pending)" "length t' = ?L"
        "mset (concat t') + mset pending = mset (concat t) + mset (pend m drawn)"
        "\<forall>i < ?L. length (t' ! i) = (if i < ?n then ?target else length (t ! i))"
      using fill_layers_spec [OF _ _ need] k(2,4) True by (auto simp: layers_kept_def)
    have d: "length (deal 0 pending t') = ?L" "mset (concat (deal 0 pending t')) = mset nodes"
      using deal_nodes [of 0 t' pending] L(1) f(2,3) k3 pend by simp_all
    have even: "\<forall>a \<in> set (deal 0 pending t'). \<forall>b \<in> set (deal 0 pending t'). length a \<le> Suc (length b)" if "?n = ?L"
    proof -
      have "dealt ?target 0 t'" using f(2,4) L(1) that by (simp add: dealt_def)
      from deal_dealt [OF this, of pending] dealt_even show ?thesis by blast
    qed
    let ?left = "length nodes - ?n * ?target"
    have left: "length pending = ?left"
    proof -
      have "length (concat t') = (\<Sum>i < ?L. length (t' ! i))" unfolding layers_nodes f(2) by (simp add: atLeast0LessThan)
      also have "\<dots> = (\<Sum>i < ?L. if i < ?n then ?target else 0)"
        using f(4) k(2,4) by (intro sum.cong) (auto simp: layers_kept_def)
      also have "\<dots> = (\<Sum>i < ?n. ?target)" using True by (intro sum.mono_neutral_cong_right) auto
      finally have "length (concat t') = ?n * ?target" by simp
      moreover have "length (concat t') + length pending = length nodes"
        using arg_cong [OF f(3), of size] N by simp
      ultimately show ?thesis by simp
    qed
    have sizes: "length (deal 0 pending t' ! i) = (if i < ?n then ?target else 0) + ?left div ?L + (if i < ?left mod ?L then 1 else 0)" if "i < ?L" for i
      using deal_sizes [of i t' pending] that f(2,4) k(2,4) left by (auto simp: layers_kept_def)
    show ?thesis using True k(1) f(1) d even sizes by (simp add: g Let_def)
  next
    case False
    then show ?thesis
    proof (cases "keep_layers x ?target srv [] 0 (Topology doc) ?t0 ?m0")
      case (Inl e)
      with keep_layers_panics [OF Inl] False show ?thesis by (simp add: g)
    next
      case (Inr r)
      obtain t m drawn where r: "r = (t, m, drawn)" by (cases r)
      with keep_layers_length Inr have "length t = ?L" by fastforce
      with False have "fill_layers ?target 0 ?n t (pend m drawn) = Inl Panic" by (intro fill_layers_short) simp_all
      with False Inr r show ?thesis by (simp add: g)
    qed
  qed
qed

text \<open>Two layers, three nodes, of which the second was in the second layer before.\<close>

theorem random_topology_balanced_witness:
  "\<exists>t. generateRandomTopology demo_authority [demo_node 1 False False, demo_node 2 False False, demo_node 3 False False] [] = Inr t
     \<and> length t = 2"
  using random_topology_balanced [of demo_authority "[demo_node 1 False False, demo_node 2 False False, demo_node 3 False False]" "[]"]
  by (auto simp: perm_law_def) (auto simp: demo_authority_def demo_cfg_def)

theorem next_topology_balanced_witness:
  "\<exists>t. generateTopology demo_authority demo_orders [demo_node 1 False False, demo_node 2 False False]
        (zero_document\<lparr>Topology := [[], [demo_node 2 False False]]\<rparr>) [] = Inr t
     \<and> mset (concat t) = {#demo_node 1 False False, demo_node 2 False False#}"
proof -
  have h: "md_hash (pki demo_authority) d = md_hash demo_pki d" for d
    by (simp add: md_hash_def demo_authority_def)
  have "perm_law demo_authority" "cfg_Layers (cfg demo_authority) = 2"
    by (simp_all add: perm_law_def) (simp_all add: demo_authority_def demo_cfg_def)
  then show ?thesis
    using next_topology_balanced [OF _ demo_proper, of demo_authority "[demo_node 1 False False, demo_node 2 False False]"
        "zero_document\<lparr>Topology := [[], [demo_node 2 False False]]\<rparr>" "[]"]
    by (auto simp: h demo_node_hash)
qed

end
