(* ===== verification/Trunnel.thy ===== *)
theory Trunnel
  imports CopyStreamProps
begin

text \<open>
  The wire records of Pigeonhole (pigeonhole/trunnel_messages.go): what a client sends a courier, what a
  courier sends a replica inside the encryption, and the answers. Each has a parser, which returns the
  bytes it leaves over, an encoder and a validation; the top-level parsers refuse long input and ignore
  what is left over. An optional record is a pointer, nil as \<open>None\<close>.
\<close>

section \<open>Reading\<close>

text \<open>One byte, and one byte that must be 0 or 1.\<close>

definition read_u8 :: "bytes \<Rightarrow> (trunnel_err, byte \<times> bytes) go" where
  "read_u8 cur = (case cur of [] \<Rightarrow> Inl (Err dataTooShort) | v # rest \<Rightarrow> Inr (v, rest))"

definition read_choice :: "bytes \<Rightarrow> (trunnel_err, byte \<times> bytes) go" where
  "read_choice cur = go_bind (read_u8 cur) (\<lambda>(v, rest).
     if v = 0 \<or> v = 1 then Inr (v, rest) else Inl (Err integerViolated))"

definition MaxParseSize :: nat where "MaxParseSize = 16777216"

text \<open>The convenience constructors.\<close>

definition parse_all :: "(bytes \<Rightarrow> (trunnel_err, 'a \<times> bytes) go) \<Rightarrow> bytes \<Rightarrow> (trunnel_err, 'a) go" where
  "parse_all parse data = (if length data > MaxParseSize then Inl (Err inputTooLong)
     else go_bind (parse data) (\<lambda>(c, _). Inr c))"

section \<open>Replies of the courier\<close>

record CourierEnvelopeReply =
  cer_EnvelopeHash :: bytes
  cer_ReplyIndex :: byte
  cer_ReplyType :: byte
  cer_PayloadLen :: u32
  cer_Payload :: bytes
  cer_ErrorCode :: byte

definition CourierEnvelopeReply_Parse :: "bytes \<Rightarrow> (trunnel_err, CourierEnvelopeReply \<times> bytes) go" where
  "CourierEnvelopeReply_Parse data =
     go_bind (read_bytes 32 data) (\<lambda>(h, cur).
     go_bind (read_u8 cur) (\<lambda>(ix, cur).
     go_bind (read_choice cur) (\<lambda>(ty, cur).
     go_bind (read_u32 cur) (\<lambda>(len, cur).
     go_bind (read_counted (unat len) cur) (\<lambda>(p, cur).
     go_bind (read_u8 cur) (\<lambda>(e, cur).
       Inr (\<lparr>cer_EnvelopeHash = h, cer_ReplyIndex = ix, cer_ReplyType = ty, cer_PayloadLen = len,
             cer_Payload = p, cer_ErrorCode = e\<rparr>, cur)))))))"

definition ParseCourierEnvelopeReply :: "bytes \<Rightarrow> (trunnel_err, CourierEnvelopeReply) go" where
  "ParseCourierEnvelopeReply = parse_all CourierEnvelopeReply_Parse"

definition CourierEnvelopeReply_encodeBinary :: "CourierEnvelopeReply \<Rightarrow> bytes" where
  "CourierEnvelopeReply_encodeBinary c = cer_EnvelopeHash c @ [cer_ReplyIndex c, cer_ReplyType c]
     @ put32 (cer_PayloadLen c) @ take (unat (cer_PayloadLen c)) (cer_Payload c) @ [cer_ErrorCode c]"

definition CourierEnvelopeReply_validate :: "CourierEnvelopeReply \<Rightarrow> trunnel_err option" where
  "CourierEnvelopeReply_validate c =
     (if length (cer_EnvelopeHash c) \<noteq> 32 then Some arrayLengthViolated
      else if \<not> (cer_ReplyType c = 0 \<or> cer_ReplyType c = 1) then Some integerViolated
      else if length (cer_Payload c) \<noteq> unat (cer_PayloadLen c) then Some arrayLengthViolated else None)"

text \<open>\<open>MarshalBinary\<close> of every record.\<close>

definition marshal_with :: "('a \<Rightarrow> trunnel_err option) \<Rightarrow> ('a \<Rightarrow> bytes) \<Rightarrow> 'a \<Rightarrow> (trunnel_err, bytes) go" where
  "marshal_with validate encode c = (case validate c of Some e \<Rightarrow> Inl (Err e) | None \<Rightarrow> Inr (encode c))"

definition CourierEnvelopeReply_MarshalBinary :: "CourierEnvelopeReply \<Rightarrow> (trunnel_err, bytes) go" where
  "CourierEnvelopeReply_MarshalBinary = marshal_with CourierEnvelopeReply_validate CourierEnvelopeReply_encodeBinary"

record CopyCommandReply =
  ccr_Status :: byte
  ccr_ErrorCode :: byte
  ccr_FailedEnvelopeIndex :: u64

definition CopyCommandReply_Parse :: "bytes \<Rightarrow> (trunnel_err, CopyCommandReply \<times> bytes) go" where
  "CopyCommandReply_Parse data =
     go_bind (read_u8 data) (\<lambda>(st, cur).
     go_bind (read_u8 cur) (\<lambda>(e, cur).
     go_bind (read_u64 cur) (\<lambda>(i, cur).
       Inr (\<lparr>ccr_Status = st, ccr_ErrorCode = e, ccr_FailedEnvelopeIndex = i\<rparr>, cur))))"

definition ParseCopyCommandReply :: "bytes \<Rightarrow> (trunnel_err, CopyCommandReply) go" where
  "ParseCopyCommandReply = parse_all CopyCommandReply_Parse"

definition CopyCommandReply_encodeBinary :: "CopyCommandReply \<Rightarrow> bytes" where
  "CopyCommandReply_encodeBinary c = [ccr_Status c, ccr_ErrorCode c] @ put64 (ccr_FailedEnvelopeIndex c)"

definition CopyCommandReply_validate :: "CopyCommandReply \<Rightarrow> trunnel_err option" where
  "CopyCommandReply_validate c = None"

definition CopyCommandReply_MarshalBinary :: "CopyCommandReply \<Rightarrow> (trunnel_err, bytes) go" where
  "CopyCommandReply_MarshalBinary = marshal_with CopyCommandReply_validate CopyCommandReply_encodeBinary"

record CourierQueryReply =
  cqr_ReplyType :: byte
  cqr_EnvelopeReply :: "CourierEnvelopeReply option"
  cqr_CopyCommandReply :: "CopyCommandReply option"

definition CourierQueryReply_Parse :: "bytes \<Rightarrow> (trunnel_err, CourierQueryReply \<times> bytes) go" where
  "CourierQueryReply_Parse data =
     go_bind (read_choice data) (\<lambda>(ty, cur).
     if ty = 0 then go_bind (CourierEnvelopeReply_Parse cur) (\<lambda>(r, cur).
       Inr (\<lparr>cqr_ReplyType = ty, cqr_EnvelopeReply = Some r, cqr_CopyCommandReply = None\<rparr>, cur))
     else go_bind (CopyCommandReply_Parse cur) (\<lambda>(r, cur).
       Inr (\<lparr>cqr_ReplyType = ty, cqr_EnvelopeReply = None, cqr_CopyCommandReply = Some r\<rparr>, cur)))"

definition ParseCourierQueryReply :: "bytes \<Rightarrow> (trunnel_err, CourierQueryReply) go" where
  "ParseCourierQueryReply = parse_all CourierQueryReply_Parse"

text \<open>A nil record is encoded as nothing, and validates.\<close>

definition opt_encode :: "('a \<Rightarrow> bytes) \<Rightarrow> 'a option \<Rightarrow> bytes" where
  "opt_encode encode p = (case p of None \<Rightarrow> [] | Some c \<Rightarrow> encode c)"

definition opt_validate :: "('a \<Rightarrow> trunnel_err option) \<Rightarrow> 'a option \<Rightarrow> trunnel_err option" where
  "opt_validate validate p = (case p of None \<Rightarrow> None | Some c \<Rightarrow> validate c)"

definition CourierQueryReply_encodeBinary :: "CourierQueryReply \<Rightarrow> bytes" where
  "CourierQueryReply_encodeBinary c = cqr_ReplyType c #
     (if cqr_ReplyType c = 0 then opt_encode CourierEnvelopeReply_encodeBinary (cqr_EnvelopeReply c)
      else if cqr_ReplyType c = 1 then opt_encode CopyCommandReply_encodeBinary (cqr_CopyCommandReply c) else [])"

definition CourierQueryReply_validate :: "CourierQueryReply \<Rightarrow> trunnel_err option" where
  "CourierQueryReply_validate c =
     (if cqr_ReplyType c = 0 then opt_validate CourierEnvelopeReply_validate (cqr_EnvelopeReply c)
      else if cqr_ReplyType c = 1 then opt_validate CopyCommandReply_validate (cqr_CopyCommandReply c)
      else Some integerViolated)"

definition CourierQueryReply_MarshalBinary :: "CourierQueryReply \<Rightarrow> (trunnel_err, bytes) go" where
  "CourierQueryReply_MarshalBinary = marshal_with CourierQueryReply_validate CourierQueryReply_encodeBinary"

section \<open>Queries to the courier\<close>

record CopyCommand =
  cc_WriteCapLen :: u32
  cc_WriteCap :: bytes

definition CopyCommand_Parse :: "bytes \<Rightarrow> (trunnel_err, CopyCommand \<times> bytes) go" where
  "CopyCommand_Parse data =
     go_bind (read_u32 data) (\<lambda>(len, cur).
     go_bind (read_counted (unat len) cur) (\<lambda>(w, cur).
       Inr (\<lparr>cc_WriteCapLen = len, cc_WriteCap = w\<rparr>, cur)))"

definition ParseCopyCommand :: "bytes \<Rightarrow> (trunnel_err, CopyCommand) go" where
  "ParseCopyCommand = parse_all CopyCommand_Parse"

definition CopyCommand_encodeBinary :: "CopyCommand \<Rightarrow> bytes" where
  "CopyCommand_encodeBinary c = put32 (cc_WriteCapLen c) @ take (unat (cc_WriteCapLen c)) (cc_WriteCap c)"

definition CopyCommand_validate :: "CopyCommand \<Rightarrow> trunnel_err option" where
  "CopyCommand_validate c = (if length (cc_WriteCap c) \<noteq> unat (cc_WriteCapLen c) then Some arrayLengthViolated else None)"

definition CopyCommand_MarshalBinary :: "CopyCommand \<Rightarrow> (trunnel_err, bytes) go" where
  "CopyCommand_MarshalBinary = marshal_with CopyCommand_validate CopyCommand_encodeBinary"

definition ParseCourierEnvelope :: "bytes \<Rightarrow> (trunnel_err, CourierEnvelope) go" where
  "ParseCourierEnvelope = parse_all CourierEnvelope_Parse"

record CourierQuery =
  cq_QueryType :: byte
  cq_Envelope :: "CourierEnvelope option"
  cq_CopyCommand :: "CopyCommand option"

definition CourierQuery_Parse :: "bytes \<Rightarrow> (trunnel_err, CourierQuery \<times> bytes) go" where
  "CourierQuery_Parse data =
     go_bind (read_choice data) (\<lambda>(ty, cur).
     if ty = 0 then go_bind (CourierEnvelope_Parse cur) (\<lambda>(r, cur).
       Inr (\<lparr>cq_QueryType = ty, cq_Envelope = Some r, cq_CopyCommand = None\<rparr>, cur))
     else go_bind (CopyCommand_Parse cur) (\<lambda>(r, cur).
       Inr (\<lparr>cq_QueryType = ty, cq_Envelope = None, cq_CopyCommand = Some r\<rparr>, cur)))"

definition ParseCourierQuery :: "bytes \<Rightarrow> (trunnel_err, CourierQuery) go" where
  "ParseCourierQuery = parse_all CourierQuery_Parse"

definition CourierQuery_encodeBinary :: "CourierQuery \<Rightarrow> bytes" where
  "CourierQuery_encodeBinary c = cq_QueryType c #
     (if cq_QueryType c = 0 then opt_encode CourierEnvelope_encodeBinary (cq_Envelope c)
      else if cq_QueryType c = 1 then opt_encode CopyCommand_encodeBinary (cq_CopyCommand c) else [])"

definition CourierQuery_validate :: "CourierQuery \<Rightarrow> trunnel_err option" where
  "CourierQuery_validate c =
     (if cq_QueryType c = 0
      then opt_validate (\<lambda>e. if CourierEnvelope_validate e then None else Some arrayLengthViolated) (cq_Envelope c)
      else if cq_QueryType c = 1 then opt_validate CopyCommand_validate (cq_CopyCommand c)
      else Some integerViolated)"

definition CourierQuery_MarshalBinary :: "CourierQuery \<Rightarrow> (trunnel_err, bytes) go" where
  "CourierQuery_MarshalBinary = marshal_with CourierQuery_validate CourierQuery_encodeBinary"

section \<open>Messages to a replica\<close>

record BoxRead =
  rr_BoxID :: bytes

definition ReplicaRead_Parse :: "bytes \<Rightarrow> (trunnel_err, BoxRead \<times> bytes) go" where
  "ReplicaRead_Parse data = go_bind (read_bytes 32 data) (\<lambda>(b, cur). Inr (\<lparr>rr_BoxID = b\<rparr>, cur))"

definition ParseReplicaRead :: "bytes \<Rightarrow> (trunnel_err, BoxRead) go" where
  "ParseReplicaRead = parse_all ReplicaRead_Parse"

definition ReplicaRead_encodeBinary :: "BoxRead \<Rightarrow> bytes" where
  "ReplicaRead_encodeBinary r = rr_BoxID r"

definition ReplicaRead_validate :: "BoxRead \<Rightarrow> trunnel_err option" where
  "ReplicaRead_validate r = (if length (rr_BoxID r) \<noteq> 32 then Some arrayLengthViolated else None)"

definition ReplicaRead_MarshalBinary :: "BoxRead \<Rightarrow> (trunnel_err, bytes) go" where
  "ReplicaRead_MarshalBinary = marshal_with ReplicaRead_validate ReplicaRead_encodeBinary"

record BoxWrite =
  rw_BoxID :: bytes
  rw_Signature :: bytes
  rw_PayloadLen :: u32
  rw_Payload :: bytes

definition ReplicaWrite_Parse :: "bytes \<Rightarrow> (trunnel_err, BoxWrite \<times> bytes) go" where
  "ReplicaWrite_Parse data =
     go_bind (read_bytes 32 data) (\<lambda>(b, cur).
     go_bind (read_bytes 64 cur) (\<lambda>(sg, cur).
     go_bind (read_u32 cur) (\<lambda>(len, cur).
     go_bind (read_counted (unat len) cur) (\<lambda>(p, cur).
       Inr (\<lparr>rw_BoxID = b, rw_Signature = sg, rw_PayloadLen = len, rw_Payload = p\<rparr>, cur)))))"

definition ParseReplicaWrite :: "bytes \<Rightarrow> (trunnel_err, BoxWrite) go" where
  "ParseReplicaWrite = parse_all ReplicaWrite_Parse"

definition ReplicaWrite_encodeBinary :: "BoxWrite \<Rightarrow> bytes" where
  "ReplicaWrite_encodeBinary r = rw_BoxID r @ rw_Signature r @ put32 (rw_PayloadLen r)
     @ take (unat (rw_PayloadLen r)) (rw_Payload r)"

definition ReplicaWrite_validate :: "BoxWrite \<Rightarrow> trunnel_err option" where
  "ReplicaWrite_validate r =
     (if length (rw_BoxID r) \<noteq> 32 then Some arrayLengthViolated
      else if length (rw_Signature r) \<noteq> 64 then Some arrayLengthViolated
      else if length (rw_Payload r) \<noteq> unat (rw_PayloadLen r) then Some arrayLengthViolated else None)"

definition ReplicaWrite_MarshalBinary :: "BoxWrite \<Rightarrow> (trunnel_err, bytes) go" where
  "ReplicaWrite_MarshalBinary = marshal_with ReplicaWrite_validate ReplicaWrite_encodeBinary"

record ReplicaInnerMessage =
  rim_MessageType :: byte
  rim_ReadMsg :: "BoxRead option"
  rim_WriteMsg :: "BoxWrite option"

definition ReplicaInnerMessage_Parse :: "bytes \<Rightarrow> (trunnel_err, ReplicaInnerMessage \<times> bytes) go" where
  "ReplicaInnerMessage_Parse data =
     go_bind (read_choice data) (\<lambda>(ty, cur).
     if ty = 0 then go_bind (ReplicaRead_Parse cur) (\<lambda>(r, cur).
       Inr (\<lparr>rim_MessageType = ty, rim_ReadMsg = Some r, rim_WriteMsg = None\<rparr>, cur))
     else go_bind (ReplicaWrite_Parse cur) (\<lambda>(r, cur).
       Inr (\<lparr>rim_MessageType = ty, rim_ReadMsg = None, rim_WriteMsg = Some r\<rparr>, cur)))"

definition ParseReplicaInnerMessage :: "bytes \<Rightarrow> (trunnel_err, ReplicaInnerMessage) go" where
  "ParseReplicaInnerMessage = parse_all ReplicaInnerMessage_Parse"

definition ReplicaInnerMessage_encodeBinary :: "ReplicaInnerMessage \<Rightarrow> bytes" where
  "ReplicaInnerMessage_encodeBinary r = rim_MessageType r #
     (if rim_MessageType r = 0 then opt_encode ReplicaRead_encodeBinary (rim_ReadMsg r)
      else if rim_MessageType r = 1 then opt_encode ReplicaWrite_encodeBinary (rim_WriteMsg r) else [])"

definition ReplicaInnerMessage_validate :: "ReplicaInnerMessage \<Rightarrow> trunnel_err option" where
  "ReplicaInnerMessage_validate r =
     (if rim_MessageType r = 0 then opt_validate ReplicaRead_validate (rim_ReadMsg r)
      else if rim_MessageType r = 1 then opt_validate ReplicaWrite_validate (rim_WriteMsg r)
      else Some integerViolated)"

definition ReplicaInnerMessage_MarshalBinary :: "ReplicaInnerMessage \<Rightarrow> (trunnel_err, bytes) go" where
  "ReplicaInnerMessage_MarshalBinary = marshal_with ReplicaInnerMessage_validate ReplicaInnerMessage_encodeBinary"

section \<open>Replies of a replica\<close>

record BoxReadReply =
  rrr_ErrorCode :: byte
  rrr_BoxID :: bytes
  rrr_Signature :: bytes
  rrr_PayloadLen :: u32
  rrr_Payload :: bytes

definition ReplicaReadReply_Parse :: "bytes \<Rightarrow> (trunnel_err, BoxReadReply \<times> bytes) go" where
  "ReplicaReadReply_Parse data =
     go_bind (read_u8 data) (\<lambda>(e, cur).
     go_bind (read_bytes 32 cur) (\<lambda>(b, cur).
     go_bind (read_bytes 64 cur) (\<lambda>(sg, cur).
     go_bind (read_u32 cur) (\<lambda>(len, cur).
     go_bind (read_counted (unat len) cur) (\<lambda>(p, cur).
       Inr (\<lparr>rrr_ErrorCode = e, rrr_BoxID = b, rrr_Signature = sg, rrr_PayloadLen = len, rrr_Payload = p\<rparr>, cur))))))"

definition ParseReplicaReadReply :: "bytes \<Rightarrow> (trunnel_err, BoxReadReply) go" where
  "ParseReplicaReadReply = parse_all ReplicaReadReply_Parse"

definition ReplicaReadReply_encodeBinary :: "BoxReadReply \<Rightarrow> bytes" where
  "ReplicaReadReply_encodeBinary r = rrr_ErrorCode r # rrr_BoxID r @ rrr_Signature r
     @ put32 (rrr_PayloadLen r) @ take (unat (rrr_PayloadLen r)) (rrr_Payload r)"

definition ReplicaReadReply_validate :: "BoxReadReply \<Rightarrow> trunnel_err option" where
  "ReplicaReadReply_validate r =
     (if length (rrr_BoxID r) \<noteq> 32 then Some arrayLengthViolated
      else if length (rrr_Signature r) \<noteq> 64 then Some arrayLengthViolated
      else if length (rrr_Payload r) \<noteq> unat (rrr_PayloadLen r) then Some arrayLengthViolated else None)"

definition ReplicaReadReply_MarshalBinary :: "BoxReadReply \<Rightarrow> (trunnel_err, bytes) go" where
  "ReplicaReadReply_MarshalBinary = marshal_with ReplicaReadReply_validate ReplicaReadReply_encodeBinary"

record BoxWriteReply =
  rwr_ErrorCode :: byte

definition ReplicaWriteReply_Parse :: "bytes \<Rightarrow> (trunnel_err, BoxWriteReply \<times> bytes) go" where
  "ReplicaWriteReply_Parse data = go_bind (read_u8 data) (\<lambda>(e, cur). Inr (\<lparr>rwr_ErrorCode = e\<rparr>, cur))"

definition ParseReplicaWriteReply :: "bytes \<Rightarrow> (trunnel_err, BoxWriteReply) go" where
  "ParseReplicaWriteReply = parse_all ReplicaWriteReply_Parse"

definition ReplicaWriteReply_encodeBinary :: "BoxWriteReply \<Rightarrow> bytes" where
  "ReplicaWriteReply_encodeBinary r = [rwr_ErrorCode r]"

definition ReplicaWriteReply_validate :: "BoxWriteReply \<Rightarrow> trunnel_err option" where
  "ReplicaWriteReply_validate r = None"

definition ReplicaWriteReply_MarshalBinary :: "BoxWriteReply \<Rightarrow> (trunnel_err, bytes) go" where
  "ReplicaWriteReply_MarshalBinary = marshal_with ReplicaWriteReply_validate ReplicaWriteReply_encodeBinary"

record ReplicaMessageReplyInnerMessage =
  rmr_MessageType :: byte
  rmr_ReadReply :: "BoxReadReply option"
  rmr_WriteReply :: "BoxWriteReply option"

definition ReplicaMessageReplyInnerMessage_Parse ::
  "bytes \<Rightarrow> (trunnel_err, ReplicaMessageReplyInnerMessage \<times> bytes) go" where
  "ReplicaMessageReplyInnerMessage_Parse data =
     go_bind (read_choice data) (\<lambda>(ty, cur).
     if ty = 0 then go_bind (ReplicaReadReply_Parse cur) (\<lambda>(r, cur).
       Inr (\<lparr>rmr_MessageType = ty, rmr_ReadReply = Some r, rmr_WriteReply = None\<rparr>, cur))
     else go_bind (ReplicaWriteReply_Parse cur) (\<lambda>(r, cur).
       Inr (\<lparr>rmr_MessageType = ty, rmr_ReadReply = None, rmr_WriteReply = Some r\<rparr>, cur)))"

definition ParseReplicaMessageReplyInnerMessage :: "bytes \<Rightarrow> (trunnel_err, ReplicaMessageReplyInnerMessage) go" where
  "ParseReplicaMessageReplyInnerMessage = parse_all ReplicaMessageReplyInnerMessage_Parse"

definition ReplicaMessageReplyInnerMessage_encodeBinary :: "ReplicaMessageReplyInnerMessage \<Rightarrow> bytes" where
  "ReplicaMessageReplyInnerMessage_encodeBinary r = rmr_MessageType r #
     (if rmr_MessageType r = 0 then opt_encode ReplicaReadReply_encodeBinary (rmr_ReadReply r)
      else if rmr_MessageType r = 1 then opt_encode ReplicaWriteReply_encodeBinary (rmr_WriteReply r) else [])"

definition ReplicaMessageReplyInnerMessage_validate :: "ReplicaMessageReplyInnerMessage \<Rightarrow> trunnel_err option" where
  "ReplicaMessageReplyInnerMessage_validate r =
     (if rmr_MessageType r = 0 then opt_validate ReplicaReadReply_validate (rmr_ReadReply r)
      else if rmr_MessageType r = 1 then opt_validate ReplicaWriteReply_validate (rmr_WriteReply r)
      else Some integerViolated)"

definition ReplicaMessageReplyInnerMessage_MarshalBinary ::
  "ReplicaMessageReplyInnerMessage \<Rightarrow> (trunnel_err, bytes) go" where
  "ReplicaMessageReplyInnerMessage_MarshalBinary =
     marshal_with ReplicaMessageReplyInnerMessage_validate ReplicaMessageReplyInnerMessage_encodeBinary"

section \<open>Boxes\<close>

record Box =
  box_BoxID :: bytes
  box_PayloadLen :: u32
  box_Payload :: bytes
  box_Signature :: bytes

definition Box_Parse :: "bytes \<Rightarrow> (trunnel_err, Box \<times> bytes) go" where
  "Box_Parse data =
     go_bind (read_bytes 32 data) (\<lambda>(b, cur).
     go_bind (read_u32 cur) (\<lambda>(len, cur).
     go_bind (read_counted (unat len) cur) (\<lambda>(p, cur).
     go_bind (read_bytes 64 cur) (\<lambda>(sg, cur).
       Inr (\<lparr>box_BoxID = b, box_PayloadLen = len, box_Payload = p, box_Signature = sg\<rparr>, cur)))))"

definition ParseBox :: "bytes \<Rightarrow> (trunnel_err, Box) go" where
  "ParseBox = parse_all Box_Parse"

definition Box_encodeBinary :: "Box \<Rightarrow> bytes" where
  "Box_encodeBinary b = box_BoxID b @ put32 (box_PayloadLen b) @ take (unat (box_PayloadLen b)) (box_Payload b)
     @ box_Signature b"

definition Box_validate :: "Box \<Rightarrow> trunnel_err option" where
  "Box_validate b =
     (if length (box_BoxID b) \<noteq> 32 then Some arrayLengthViolated
      else if length (box_Payload b) \<noteq> unat (box_PayloadLen b) then Some arrayLengthViolated
      else if length (box_Signature b) \<noteq> 64 then Some arrayLengthViolated else None)"

definition Box_MarshalBinary :: "Box \<Rightarrow> (trunnel_err, bytes) go" where
  "Box_MarshalBinary = marshal_with Box_validate Box_encodeBinary"

end
