(* ===== verification/TrunnelProps.thy ===== *)
theory TrunnelProps
  imports Trunnel
begin

text \<open>
  The wire records of Pigeonhole: parser and encoder of each record are inverse to each other, no two
  byte strings stand for one record, no record's encoding begins another's, and no input panics.
\<close>

section \<open>The contract of a record\<close>

text \<open>
  A record \<open>fits\<close> if it validates and none of the pointers it needs is nil; the parser accepts exactly
  the encodings of such records.
\<close>

locale wire_record =
  fixes parse :: "bytes \<Rightarrow> (trunnel_err, 'a \<times> bytes) go"
    and encode :: "'a \<Rightarrow> bytes"
    and fits :: "'a \<Rightarrow> bool"
  assumes round_trip: "fits a \<Longrightarrow> parse (encode a @ r) = Inr (a, r)"
    and canonical: "parse b = Inr (a, r) \<Longrightarrow> fits a \<and> b = encode a @ r"
    and parse_safe: "parse b \<noteq> Inl Panic"
begin

lemma parse_iff: "parse b = Inr (a, r) \<longleftrightarrow> fits a \<and> b = encode a @ r"
  using round_trip canonical by blast

lemma prefix_free:
  assumes "fits a" "fits a'" "encode a @ r = encode a' @ r'"
  shows "a = a' \<and> r = r'"
proof -
  have "Inr (a, r) = parse (encode a @ r)" using round_trip [OF assms(1)] by (rule sym)
  also have "\<dots> = Inr (a', r')" unfolding assms(3) by (rule round_trip [OF assms(2)])
  finally show ?thesis by simp
qed

lemma parse_all_iff: "parse_all parse b = Inr a \<longleftrightarrow> length b \<le> MaxParseSize \<and> fits a \<and> (\<exists>r. b = encode a @ r)"
proof -
  have "parse_all parse b = Inr a \<longleftrightarrow> length b \<le> MaxParseSize \<and> (\<exists>r. parse b = Inr (a, r))"
    by (cases "parse b") (auto simp: parse_all_def)
  then show ?thesis by (simp add: parse_iff)
qed

lemma parse_all_safe: "parse_all parse b \<noteq> Inl Panic"
  using parse_safe [of b] by (cases "parse b") (auto simp: parse_all_def)

end

section \<open>Reading\<close>

lemma read_bytes_iff: "read_bytes n b = Inr (a, r) \<longleftrightarrow> length a = n \<and> b = a @ r"
  by (auto simp: read_bytes_eq split: if_splits)

lemma read_counted_iff: "read_counted n b = Inr (a, r) \<longleftrightarrow> length a = n \<and> b = a @ r"
  by (auto simp: read_counted_def read_bytes_iff)

lemma read_u8_iff: "read_u8 b = Inr (v, r) \<longleftrightarrow> b = v # r"
  by (auto simp: read_u8_def split: list.splits)

lemma read_choice_iff: "read_choice b = Inr (v, r) \<longleftrightarrow> b = v # r \<and> (v = 0 \<or> v = 1)"
  by (auto simp: read_choice_def go_bind_Inr_iff read_u8_iff)

context int_codec
begin

lemma get_iff: "get b = Inr w \<and> drop width b = r \<longleftrightarrow> b = put w @ r"
  using get_put put_get by (metis append_take_drop_id drop_put)

end

lemma read_u16_iff: "read_u16 b = Inr (v, r) \<longleftrightarrow> b = put16 v @ r"
  using be16.get_iff [where 'a = trunnel_err, of b v r] be16.length_put [of v]
  by (auto simp: read_u16_def go_bind_Inr_iff)

lemma read_u32_iff: "read_u32 b = Inr (v, r) \<longleftrightarrow> b = put32 v @ r"
  using be32.get_iff [where 'a = trunnel_err, of b v r] be32.length_put [of v]
  by (auto simp: read_u32_def go_bind_Inr_iff)

lemma read_u64_iff: "read_u64 b = Inr (v, r) \<longleftrightarrow> b = put64 v @ r"
  using be64.get_iff [where 'a = trunnel_err, of b v r] be64.length_put [of v]
  by (auto simp: read_u64_def go_bind_Inr_iff)

lemmas read_iffs = read_bytes_iff read_counted_iff read_u8_iff read_choice_iff read_u16_iff read_u32_iff read_u64_iff go_bind_Inr_iff

lemma reads_safe:
  "read_bytes n b \<noteq> Inl Panic" "read_counted n b \<noteq> Inl Panic" "read_u8 b \<noteq> Inl Panic" "read_choice b \<noteq> Inl Panic"
  "read_u16 b \<noteq> Inl Panic" "read_u32 b \<noteq> Inl Panic" "read_u64 b \<noteq> Inl Panic"
  by (auto simp: read_bytes_eq read_counted_def read_u8_def read_choice_def read_u16_def read_u32_def read_u64_def
      get16_def get32_def get64_def split: list.splits if_splits)

lemma read_ok:
  "length a = n \<Longrightarrow> read_bytes n (a @ r) = Inr (a, r)" "length a = n \<Longrightarrow> read_counted n (a @ r) = Inr (a, r)"
  "read_u8 (v # r) = Inr (v, r)" "w = 0 \<or> w = 1 \<Longrightarrow> read_choice (w # r) = Inr (w, r)"
  "read_u16 (put16 x @ r) = Inr (x, r)" "read_u32 (put32 y @ r) = Inr (y, r)" "read_u64 (put64 z @ r) = Inr (z, r)"
  by (simp_all add: read_iffs)

section \<open>The records\<close>

interpretation envelope: wire_record CourierEnvelope_Parse CourierEnvelope_encodeBinary CourierEnvelope_validate
proof unfold_locales
  fix b r and a :: CourierEnvelope
  have one: "length l = Suc 0 \<longleftrightarrow> (\<exists>v. l = [v])" for l :: bytes by (simp add: length_Suc_conv)
  show "CourierEnvelope_validate a \<Longrightarrow> CourierEnvelope_Parse (CourierEnvelope_encodeBinary a @ r) = Inr (a, r)"
    by (rule CourierEnvelope_Parse_encode)
  show "CourierEnvelope_Parse b = Inr (a, r) \<Longrightarrow> CourierEnvelope_validate a \<and> b = CourierEnvelope_encodeBinary a @ r"
    by (auto simp: CourierEnvelope_Parse_def CourierEnvelope_encodeBinary_def CourierEnvelope_validate_def
        read_iffs one simp del: read_bytes.simps)
  show "CourierEnvelope_Parse b \<noteq> Inl Panic"
    by (simp add: CourierEnvelope_Parse_def go_bind_Panic_iff reads_safe split_def del: read_bytes.simps)
qed

text \<open>A record whose fields all stand on their own fits when it validates.\<close>

interpretation envelope_reply: wire_record CourierEnvelopeReply_Parse CourierEnvelopeReply_encodeBinary "\<lambda>a. CourierEnvelopeReply_validate a = None"
proof unfold_locales
  fix b r and a :: CourierEnvelopeReply
  show "CourierEnvelopeReply_validate a = None \<Longrightarrow> CourierEnvelopeReply_Parse (CourierEnvelopeReply_encodeBinary a @ r) = Inr (a, r)"
    by (cases a) (auto simp: CourierEnvelopeReply_Parse_def CourierEnvelopeReply_encodeBinary_def CourierEnvelopeReply_validate_def read_ok split: if_splits)
  show "CourierEnvelopeReply_Parse b = Inr (a, r) \<Longrightarrow> CourierEnvelopeReply_validate a = None \<and> b = CourierEnvelopeReply_encodeBinary a @ r"
    by (auto simp: CourierEnvelopeReply_Parse_def CourierEnvelopeReply_encodeBinary_def CourierEnvelopeReply_validate_def read_iffs simp del: read_bytes.simps)
  show "CourierEnvelopeReply_Parse b \<noteq> Inl Panic"
    by (simp add: CourierEnvelopeReply_Parse_def go_bind_Panic_iff reads_safe split_def del: read_bytes.simps)
qed

interpretation copy_reply: wire_record CopyCommandReply_Parse CopyCommandReply_encodeBinary "\<lambda>a. CopyCommandReply_validate a = None"
proof unfold_locales
  fix b r and a :: CopyCommandReply
  show "CopyCommandReply_validate a = None \<Longrightarrow> CopyCommandReply_Parse (CopyCommandReply_encodeBinary a @ r) = Inr (a, r)"
    by (cases a) (auto simp: CopyCommandReply_Parse_def CopyCommandReply_encodeBinary_def CopyCommandReply_validate_def read_ok split: if_splits)
  show "CopyCommandReply_Parse b = Inr (a, r) \<Longrightarrow> CopyCommandReply_validate a = None \<and> b = CopyCommandReply_encodeBinary a @ r"
    by (auto simp: CopyCommandReply_Parse_def CopyCommandReply_encodeBinary_def CopyCommandReply_validate_def read_iffs simp del: read_bytes.simps)
  show "CopyCommandReply_Parse b \<noteq> Inl Panic"
    by (simp add: CopyCommandReply_Parse_def go_bind_Panic_iff reads_safe split_def del: read_bytes.simps)
qed

interpretation copy_command: wire_record CopyCommand_Parse CopyCommand_encodeBinary "\<lambda>a. CopyCommand_validate a = None"
proof unfold_locales
  fix b r and a :: CopyCommand
  show "CopyCommand_validate a = None \<Longrightarrow> CopyCommand_Parse (CopyCommand_encodeBinary a @ r) = Inr (a, r)"
    by (cases a) (auto simp: CopyCommand_Parse_def CopyCommand_encodeBinary_def CopyCommand_validate_def read_ok split: if_splits)
  show "CopyCommand_Parse b = Inr (a, r) \<Longrightarrow> CopyCommand_validate a = None \<and> b = CopyCommand_encodeBinary a @ r"
    by (auto simp: CopyCommand_Parse_def CopyCommand_encodeBinary_def CopyCommand_validate_def read_iffs simp del: read_bytes.simps)
  show "CopyCommand_Parse b \<noteq> Inl Panic"
    by (simp add: CopyCommand_Parse_def go_bind_Panic_iff reads_safe split_def del: read_bytes.simps)
qed

interpretation box_read: wire_record ReplicaRead_Parse ReplicaRead_encodeBinary "\<lambda>a. ReplicaRead_validate a = None"
proof unfold_locales
  fix b r and a :: BoxRead
  show "ReplicaRead_validate a = None \<Longrightarrow> ReplicaRead_Parse (ReplicaRead_encodeBinary a @ r) = Inr (a, r)"
    by (cases a) (auto simp: ReplicaRead_Parse_def ReplicaRead_encodeBinary_def ReplicaRead_validate_def read_ok split: if_splits)
  show "ReplicaRead_Parse b = Inr (a, r) \<Longrightarrow> ReplicaRead_validate a = None \<and> b = ReplicaRead_encodeBinary a @ r"
    by (auto simp: ReplicaRead_Parse_def ReplicaRead_encodeBinary_def ReplicaRead_validate_def read_iffs simp del: read_bytes.simps)
  show "ReplicaRead_Parse b \<noteq> Inl Panic"
    by (simp add: ReplicaRead_Parse_def go_bind_Panic_iff reads_safe split_def del: read_bytes.simps)
qed

interpretation box_write: wire_record ReplicaWrite_Parse ReplicaWrite_encodeBinary "\<lambda>a. ReplicaWrite_validate a = None"
proof unfold_locales
  fix b r and a :: BoxWrite
  show "ReplicaWrite_validate a = None \<Longrightarrow> ReplicaWrite_Parse (ReplicaWrite_encodeBinary a @ r) = Inr (a, r)"
    by (cases a) (auto simp: ReplicaWrite_Parse_def ReplicaWrite_encodeBinary_def ReplicaWrite_validate_def read_ok split: if_splits)
  show "ReplicaWrite_Parse b = Inr (a, r) \<Longrightarrow> ReplicaWrite_validate a = None \<and> b = ReplicaWrite_encodeBinary a @ r"
    by (auto simp: ReplicaWrite_Parse_def ReplicaWrite_encodeBinary_def ReplicaWrite_validate_def read_iffs simp del: read_bytes.simps)
  show "ReplicaWrite_Parse b \<noteq> Inl Panic"
    by (simp add: ReplicaWrite_Parse_def go_bind_Panic_iff reads_safe split_def del: read_bytes.simps)
qed

interpretation box_read_reply: wire_record ReplicaReadReply_Parse ReplicaReadReply_encodeBinary "\<lambda>a. ReplicaReadReply_validate a = None"
proof unfold_locales
  fix b r and a :: BoxReadReply
  show "ReplicaReadReply_validate a = None \<Longrightarrow> ReplicaReadReply_Parse (ReplicaReadReply_encodeBinary a @ r) = Inr (a, r)"
    by (cases a) (auto simp: ReplicaReadReply_Parse_def ReplicaReadReply_encodeBinary_def ReplicaReadReply_validate_def read_ok split: if_splits)
  show "ReplicaReadReply_Parse b = Inr (a, r) \<Longrightarrow> ReplicaReadReply_validate a = None \<and> b = ReplicaReadReply_encodeBinary a @ r"
    by (auto simp: ReplicaReadReply_Parse_def ReplicaReadReply_encodeBinary_def ReplicaReadReply_validate_def read_iffs simp del: read_bytes.simps)
  show "ReplicaReadReply_Parse b \<noteq> Inl Panic"
    by (simp add: ReplicaReadReply_Parse_def go_bind_Panic_iff reads_safe split_def del: read_bytes.simps)
qed

interpretation box_write_reply: wire_record ReplicaWriteReply_Parse ReplicaWriteReply_encodeBinary "\<lambda>a. ReplicaWriteReply_validate a = None"
proof unfold_locales
  fix b r and a :: BoxWriteReply
  show "ReplicaWriteReply_validate a = None \<Longrightarrow> ReplicaWriteReply_Parse (ReplicaWriteReply_encodeBinary a @ r) = Inr (a, r)"
    by (cases a) (auto simp: ReplicaWriteReply_Parse_def ReplicaWriteReply_encodeBinary_def ReplicaWriteReply_validate_def read_ok split: if_splits)
  show "ReplicaWriteReply_Parse b = Inr (a, r) \<Longrightarrow> ReplicaWriteReply_validate a = None \<and> b = ReplicaWriteReply_encodeBinary a @ r"
    by (auto simp: ReplicaWriteReply_Parse_def ReplicaWriteReply_encodeBinary_def ReplicaWriteReply_validate_def read_iffs simp del: read_bytes.simps)
  show "ReplicaWriteReply_Parse b \<noteq> Inl Panic"
    by (simp add: ReplicaWriteReply_Parse_def go_bind_Panic_iff reads_safe split_def del: read_bytes.simps)
qed

interpretation box: wire_record Box_Parse Box_encodeBinary "\<lambda>a. Box_validate a = None"
proof unfold_locales
  fix b r and a :: Box
  show "Box_validate a = None \<Longrightarrow> Box_Parse (Box_encodeBinary a @ r) = Inr (a, r)"
    by (cases a) (auto simp: Box_Parse_def Box_encodeBinary_def Box_validate_def read_ok split: if_splits)
  show "Box_Parse b = Inr (a, r) \<Longrightarrow> Box_validate a = None \<and> b = Box_encodeBinary a @ r"
    by (auto simp: Box_Parse_def Box_encodeBinary_def Box_validate_def read_iffs simp del: read_bytes.simps)
  show "Box_Parse b \<noteq> Inl Panic"
    by (simp add: Box_Parse_def go_bind_Panic_iff reads_safe split_def del: read_bytes.simps)
qed

text \<open>A tagged record carries the record its tag says, and not the other one.\<close>

definition tagged :: "byte \<Rightarrow> 'a option \<Rightarrow> ('a \<Rightarrow> bool) \<Rightarrow> 'b option \<Rightarrow> ('b \<Rightarrow> bool) \<Rightarrow> bool" where
  "tagged t a fits_a b fits_b \<longleftrightarrow> t = 0 \<and> b = None \<and> (\<exists>c. a = Some c \<and> fits_a c) \<or> t = 1 \<and> a = None \<and> (\<exists>c. b = Some c \<and> fits_b c)"

lemma tag_01: "(1 :: byte) \<noteq> 0" by simp

definition CourierQuery_fits :: "CourierQuery \<Rightarrow> bool" where
  "CourierQuery_fits c \<longleftrightarrow> tagged (cq_QueryType c) (cq_Envelope c) CourierEnvelope_validate (cq_CopyCommand c) (\<lambda>c. CopyCommand_validate c = None)"

interpretation query: wire_record CourierQuery_Parse CourierQuery_encodeBinary CourierQuery_fits
proof unfold_locales
  fix b r and a :: CourierQuery
  show "CourierQuery_fits a \<Longrightarrow> CourierQuery_Parse (CourierQuery_encodeBinary a @ r) = Inr (a, r)"
    by (cases a) (auto simp: CourierQuery_Parse_def CourierQuery_encodeBinary_def CourierQuery_fits_def tagged_def opt_encode_def read_ok
        envelope.round_trip copy_command.round_trip)
  show "CourierQuery_Parse b = Inr (a, r) \<Longrightarrow> CourierQuery_fits a \<and> b = CourierQuery_encodeBinary a @ r"
    by (auto simp: CourierQuery_Parse_def CourierQuery_encodeBinary_def CourierQuery_fits_def tagged_def opt_encode_def go_bind_Inr_iff
        read_choice_iff envelope.parse_iff copy_command.parse_iff split: if_splits)
  show "CourierQuery_Parse b \<noteq> Inl Panic"
    by (simp add: CourierQuery_Parse_def go_bind_Panic_iff reads_safe split_def envelope.parse_safe copy_command.parse_safe)
qed

definition CourierQueryReply_fits :: "CourierQueryReply \<Rightarrow> bool" where
  "CourierQueryReply_fits c \<longleftrightarrow> tagged (cqr_ReplyType c) (cqr_EnvelopeReply c) (\<lambda>c. CourierEnvelopeReply_validate c = None) (cqr_CopyCommandReply c) (\<lambda>c. CopyCommandReply_validate c = None)"

interpretation query_reply: wire_record CourierQueryReply_Parse CourierQueryReply_encodeBinary CourierQueryReply_fits
proof unfold_locales
  fix b r and a :: CourierQueryReply
  show "CourierQueryReply_fits a \<Longrightarrow> CourierQueryReply_Parse (CourierQueryReply_encodeBinary a @ r) = Inr (a, r)"
    by (cases a) (auto simp: CourierQueryReply_Parse_def CourierQueryReply_encodeBinary_def CourierQueryReply_fits_def tagged_def opt_encode_def read_ok
        envelope_reply.round_trip copy_reply.round_trip)
  show "CourierQueryReply_Parse b = Inr (a, r) \<Longrightarrow> CourierQueryReply_fits a \<and> b = CourierQueryReply_encodeBinary a @ r"
    by (auto simp: CourierQueryReply_Parse_def CourierQueryReply_encodeBinary_def CourierQueryReply_fits_def tagged_def opt_encode_def go_bind_Inr_iff
        read_choice_iff envelope_reply.parse_iff copy_reply.parse_iff split: if_splits)
  show "CourierQueryReply_Parse b \<noteq> Inl Panic"
    by (simp add: CourierQueryReply_Parse_def go_bind_Panic_iff reads_safe split_def envelope_reply.parse_safe copy_reply.parse_safe)
qed

definition ReplicaInnerMessage_fits :: "ReplicaInnerMessage \<Rightarrow> bool" where
  "ReplicaInnerMessage_fits c \<longleftrightarrow> tagged (rim_MessageType c) (rim_ReadMsg c) (\<lambda>c. ReplicaRead_validate c = None) (rim_WriteMsg c) (\<lambda>c. ReplicaWrite_validate c = None)"

interpretation inner: wire_record ReplicaInnerMessage_Parse ReplicaInnerMessage_encodeBinary ReplicaInnerMessage_fits
proof unfold_locales
  fix b r and a :: ReplicaInnerMessage
  show "ReplicaInnerMessage_fits a \<Longrightarrow> ReplicaInnerMessage_Parse (ReplicaInnerMessage_encodeBinary a @ r) = Inr (a, r)"
    by (cases a) (auto simp: ReplicaInnerMessage_Parse_def ReplicaInnerMessage_encodeBinary_def ReplicaInnerMessage_fits_def tagged_def opt_encode_def read_ok
        box_read.round_trip box_write.round_trip)
  show "ReplicaInnerMessage_Parse b = Inr (a, r) \<Longrightarrow> ReplicaInnerMessage_fits a \<and> b = ReplicaInnerMessage_encodeBinary a @ r"
    by (auto simp: ReplicaInnerMessage_Parse_def ReplicaInnerMessage_encodeBinary_def ReplicaInnerMessage_fits_def tagged_def opt_encode_def go_bind_Inr_iff
        read_choice_iff box_read.parse_iff box_write.parse_iff split: if_splits)
  show "ReplicaInnerMessage_Parse b \<noteq> Inl Panic"
    by (simp add: ReplicaInnerMessage_Parse_def go_bind_Panic_iff reads_safe split_def box_read.parse_safe box_write.parse_safe)
qed

definition ReplicaMessageReplyInnerMessage_fits :: "ReplicaMessageReplyInnerMessage \<Rightarrow> bool" where
  "ReplicaMessageReplyInnerMessage_fits c \<longleftrightarrow> tagged (rmr_MessageType c) (rmr_ReadReply c) (\<lambda>c. ReplicaReadReply_validate c = None) (rmr_WriteReply c) (\<lambda>c. ReplicaWriteReply_validate c = None)"

interpretation inner_reply: wire_record ReplicaMessageReplyInnerMessage_Parse ReplicaMessageReplyInnerMessage_encodeBinary ReplicaMessageReplyInnerMessage_fits
proof unfold_locales
  fix b r and a :: ReplicaMessageReplyInnerMessage
  show "ReplicaMessageReplyInnerMessage_fits a \<Longrightarrow> ReplicaMessageReplyInnerMessage_Parse (ReplicaMessageReplyInnerMessage_encodeBinary a @ r) = Inr (a, r)"
    by (cases a) (auto simp: ReplicaMessageReplyInnerMessage_Parse_def ReplicaMessageReplyInnerMessage_encodeBinary_def ReplicaMessageReplyInnerMessage_fits_def tagged_def opt_encode_def read_ok
        box_read_reply.round_trip box_write_reply.round_trip)
  show "ReplicaMessageReplyInnerMessage_Parse b = Inr (a, r) \<Longrightarrow> ReplicaMessageReplyInnerMessage_fits a \<and> b = ReplicaMessageReplyInnerMessage_encodeBinary a @ r"
    by (auto simp: ReplicaMessageReplyInnerMessage_Parse_def ReplicaMessageReplyInnerMessage_encodeBinary_def ReplicaMessageReplyInnerMessage_fits_def tagged_def opt_encode_def go_bind_Inr_iff
        read_choice_iff box_read_reply.parse_iff box_write_reply.parse_iff split: if_splits)
  show "ReplicaMessageReplyInnerMessage_Parse b \<noteq> Inl Panic"
    by (simp add: ReplicaMessageReplyInnerMessage_Parse_def go_bind_Panic_iff reads_safe split_def box_read_reply.parse_safe box_write_reply.parse_safe)
qed

text \<open>
  C36. The messages of Pigeonhole are coded canonically: a parser accepts a byte string with a given
  result and rest exactly when the string is the encoding of that result, which validates, followed by
  that rest. So every message that validates comes back from its encoding, no two encodings stand for
  one message, none begins another, and no input makes a parser panic.
\<close>

theorem pigeonhole_messages_canonical:
  "(CourierQuery_Parse b = Inr (q, r) \<longleftrightarrow> CourierQuery_fits q \<and> b = CourierQuery_encodeBinary q @ r) \<and> CourierQuery_Parse b \<noteq> Inl Panic
   \<and> (CourierQueryReply_Parse b = Inr (qr, r) \<longleftrightarrow> CourierQueryReply_fits qr \<and> b = CourierQueryReply_encodeBinary qr @ r) \<and> CourierQueryReply_Parse b \<noteq> Inl Panic
   \<and> (ReplicaInnerMessage_Parse b = Inr (m, r) \<longleftrightarrow> ReplicaInnerMessage_fits m \<and> b = ReplicaInnerMessage_encodeBinary m @ r) \<and> ReplicaInnerMessage_Parse b \<noteq> Inl Panic
   \<and> (ReplicaMessageReplyInnerMessage_Parse b = Inr (mr, r) \<longleftrightarrow> ReplicaMessageReplyInnerMessage_fits mr \<and> b = ReplicaMessageReplyInnerMessage_encodeBinary mr @ r) \<and> ReplicaMessageReplyInnerMessage_Parse b \<noteq> Inl Panic"
  by (simp add: query.parse_iff query_reply.parse_iff inner.parse_iff inner_reply.parse_iff
      query.parse_safe query_reply.parse_safe inner.parse_safe inner_reply.parse_safe)

end
