(* ===== verification/ReplicaShard.thy ===== *)
theory ReplicaShard
  imports PKIDocument CertProps "HOL-Library.List_Lexorder"
begin

text \<open>
  Which storage replicas keep a box (replica/common/shard.go): the two of the configured replicas whose
  identity key hashes lowest together with the box ID. \<open>Shard\<close> sorts all hashes, \<open>Shard2\<close> keeps the two
  lowest in one pass; the code uses \<open>Shard2\<close>. \<open>slices.Compare\<close> is the lexicographic order of byte
  lists, and \<open>slices.SortFunc\<close> is not stable: it sorts some reordering. A nil key is the empty one.
\<close>

definition K :: nat where "K = 2"

datatype shard_err = insufficientReplicas | noShardOnline

definition GetConfiguredReplicaKeys :: "Document \<Rightarrow> (shard_err, bytes list) go" where
  "GetConfiguredReplicaKeys doc =
     (if length (ConfiguredReplicaIdentityKeys doc) < K then Inl (Err insufficientReplicas)
      else Inr (ConfiguredReplicaIdentityKeys doc))"

definition maxHash :: bytes where "maxHash = replicate 32 0xff"

text \<open>The two lowest hashes so far with their keys.\<close>

type_synonym lowest_two = "(bytes \<times> bytes) \<times> (bytes \<times> bytes)"

definition shard_step :: "(bytes \<Rightarrow> bytes) \<Rightarrow> bytes \<Rightarrow> bytes \<Rightarrow> lowest_two \<Rightarrow> lowest_two" where
  "shard_step blake boxID key = (\<lambda>((h0, k0), (h1, k1)).
     let h = blake (key @ boxID) in
     if h1 < h then ((h0, k0), (h1, k1))
     else if h0 < h then ((h0, k0), (h, key)) else ((h, key), (h0, k0)))"

definition Shard2 :: "(bytes \<Rightarrow> bytes) \<Rightarrow> bytes \<Rightarrow> bytes list \<Rightarrow> bytes list" where
  "Shard2 blake boxID serverIdKeys =
     (let ((h0, k0), (h1, k1)) = fold (shard_step blake boxID) serverIdKeys ((maxHash, []), (maxHash, []))
      in [k0, k1])"

definition Shard ::
  "(bytes \<Rightarrow> bytes) \<Rightarrow> ((bytes \<times> bytes) list \<Rightarrow> (bytes \<times> bytes) list) \<Rightarrow> bytes \<Rightarrow> bytes list \<Rightarrow> (unit, bytes list) go" where
  "Shard blake ord boxID serverIdKeys =
     (let servers = sort_key fst (ord (map (\<lambda>key. (blake (key @ boxID), key)) serverIdKeys))
      in if length servers < K then Inl Panic else Inr (map snd (take K servers)))"

text \<open>The replicas of the document that keep the box; a key without a descriptor is skipped.\<close>

definition GetShards :: "('pub, 'priv) pki_env \<Rightarrow> bytes \<Rightarrow> Document \<Rightarrow> (shard_err, ReplicaDescriptor list) go" where
  "GetShards p boxID doc =
     go_bind (GetConfiguredReplicaKeys doc) (\<lambda>keys.
     let shards = List.map_filter (\<lambda>key. case GetReplicaNodeByKeyHash p doc (blake2b_256 p key) of
           Inr desc \<Rightarrow> Some desc | Inl _ \<Rightarrow> None) (Shard2 (blake2b_256 p) boxID keys)
     in if shards = [] then Inl (Err noShardOnline) else Inr shards)"

text \<open>The other replicas that keep the box; an own key that cannot be encoded panics.\<close>

definition GetRemoteShards ::
  "('pub, 'priv) pki_env \<Rightarrow> bytes option \<Rightarrow> bytes \<Rightarrow> Document \<Rightarrow> (shard_err, ReplicaDescriptor list) go" where
  "GetRemoteShards p own boxID doc =
     go_bind (GetShards p boxID doc) (\<lambda>shards. go_bind (or_panic own) (\<lambda>me.
       Inr (filter (\<lambda>desc. raw_key (rd_IdentityKey desc) \<noteq> me) shards)))"

text \<open>A replica by its static ID, not by its place in the document (pki_doc_ops.go).\<close>

definition ReplicaNum :: "Document \<Rightarrow> byte \<Rightarrow> (lookup_err, ReplicaDescriptor) go" where
  "ReplicaNum doc replicaID = GetReplicaNodeByReplicaID doc replicaID"

text \<open>The replicas by the hash of their identity key (replica_map.go), later descriptors first.\<close>

definition UpdateFromPKIDoc :: "(bytes \<Rightarrow> bytes) \<Rightarrow> Document \<Rightarrow> bytes \<rightharpoonup> ReplicaDescriptor" where
  "UpdateFromPKIDoc blake doc = fold (\<lambda>replica m. m(blake (raw_key (rd_IdentityKey replica)) \<mapsto> replica)) (StorageReplicas doc) Map.empty"

section \<open>One pass is as good as sorting\<close>

lemma take2_insort:
  "sorted (map fst l) \<Longrightarrow> take 2 (insort_key fst x (take 2 l)) = take 2 (insort_key fst x l)"
  by (cases l rule: list.exhaust; cases "tl l") (auto simp: take_Cons' numeral_2_eq_2)

lemma shard_step_insort:
  assumes "h0 \<le> h1"
  shows "shard_step blake boxID key ((h0, k0), (h1, k1)) = (case take 2 (insort_key fst (blake (key @ boxID), key) [(h0, k0), (h1, k1)])
    of [a, b] \<Rightarrow> (a, b))"
  using assms by (auto simp: shard_step_def Let_def numeral_2_eq_2)

lemma fold_shard_step:
  assumes "sorted (map fst l)" "take 2 l = [a, b]"
  shows "(let (a', b') = fold (shard_step blake boxID) keys (a, b) in [a', b'])
    = take 2 (fold (\<lambda>key. insort_key fst (blake (key @ boxID), key)) keys l)"
  using assms
proof (induction keys arbitrary: l a b)
  case Nil
  then show ?case by simp
next
  case (Cons key keys)
  let ?x = "(blake (key @ boxID), key)"
  obtain h0 k0 h1 k1 where ab: "a = (h0, k0)" "b = (h1, k1)" by (cases a; cases b)
  have "sorted (map fst (take 2 l))" using Cons.prems(1) by (metis sorted_wrt_take take_map)
  then have le: "h0 \<le> h1" using Cons.prems(2) ab by simp
  have t: "take 2 (insort_key fst ?x l) = take 2 (insort_key fst ?x [a, b])"
    using take2_insort [OF Cons.prems(1), of ?x] Cons.prems(2) by simp
  have "length (take 2 (insort_key fst ?x [a, b])) = 2" by simp
  then obtain a' b' where s: "take 2 (insort_key fst ?x [a, b]) = [a', b']"
    unfolding length_Suc_conv numeral_2_eq_2 by auto
  have "shard_step blake boxID key (a, b) = (a', b')"
    using shard_step_insort [OF le, of blake boxID key k0 k1] s ab by simp
  moreover have "sorted (map fst (insort_key fst ?x l))" using Cons.prems(1) by (simp add: sorted_insort_key)
  ultimately show ?case using Cons.IH [of "insort_key fst ?x l" a' b'] t s by simp
qed

lemma insort_before: "\<forall>y \<in> set r. fst x \<le> fst y \<Longrightarrow> insort_key fst x (l @ r) = insort_key fst x l @ r"
  by (induction l) (cases r; auto)+

lemma fold_insort_before:
  assumes "\<forall>key \<in> set keys. \<forall>y \<in> set r. blake (key @ boxID) \<le> fst y"
  shows "fold (\<lambda>key. insort_key fst (blake (key @ boxID), key)) keys (l @ r)
    = fold (\<lambda>key. insort_key fst (blake (key @ boxID), key)) keys l @ r"
  using assms by (induction keys arbitrary: l) (simp_all add: insort_before)

lemma fold_insort:
  "mset (fold (\<lambda>key. insort_key fst (h key, key)) keys l) = mset (map (\<lambda>key. (h key, key)) keys) + mset l"
  "sorted (map fst l) \<Longrightarrow> sorted (map fst (fold (\<lambda>key. insort_key fst (h key, key)) keys l))"
  by (induction keys arbitrary: l) (simp_all add: sorted_insort_key)

lemma maxHash_max: "length h = 32 \<Longrightarrow> h \<le> maxHash" for h :: bytes
proof -
  have "h \<le> replicate n 0xff" if "length h = n" for n
    using that
  proof (induction n arbitrary: h)
    case (Suc n)
    then obtain b h' where "h = b # h'" "length h' = n" by (metis length_Suc_conv)
    moreover have "b \<le> 0xff" using unat_lt_byte [of b] by (simp add: word_le_nat_alt)
    ultimately show ?case using Suc.IH by (auto simp: order_le_less)
  qed simp
  then show "length h = 32 \<Longrightarrow> h \<le> maxHash" unfolding maxHash_def by blast
qed

text \<open>
  C37. The one pass of \<open>Shard2\<close> finds the replicas that \<open>Shard\<close> finds by sorting all of them, in the
  same order, whatever the sorting does with its input; with different hashes of 32 bytes and at least
  two replicas. So the result does not depend on the order in which the replicas are listed.
\<close>

theorem Shard2_sorts:
  assumes "\<forall>b. length (blake b) = 32" "distinct (map (\<lambda>key. blake (key @ boxID)) keys)" "K \<le> length keys"
    and "is_order ord" "mset keys' = mset keys"
  shows "Shard blake ord boxID keys' = Inr (Shard2 blake boxID keys)"
proof -
  let ?h = "\<lambda>key. blake (key @ boxID)"
  let ?ins = "\<lambda>key. insort_key fst (?h key, key)" and ?r = "[(maxHash, []), (maxHash, [])]"
  let ?l = "fold ?ins keys []" and ?pairs = "map (\<lambda>key. (?h key, key)) keys"
  have ms: "mset ?l = mset ?pairs" and so: "sorted (map fst ?l)" 
    using fold_insort [where h = ?h and keys = keys and l = "[]"] by simp_all
  have len: "2 \<le> length ?l" using mset_eq_length [OF ms] assms(3) by (simp add: K_def)
  have "fold ?ins keys ?r = ?l @ ?r"
    using fold_insort_before [of keys ?r blake boxID "[]"] maxHash_max assms(1) by simp
  moreover have "sorted (map fst ?r)" "take 2 ?r = [(maxHash, []), (maxHash, [])]" by simp_all
  note fold_shard_step [OF this, of blake boxID keys]
  ultimately have pass: "(let (a, b) = fold (shard_step blake boxID) keys ((maxHash, []), (maxHash, [])) in [a, b]) = take 2 ?l"
    using len by simp
  obtain h0 k0 h1 k1 where two: "fold (shard_step blake boxID) keys ((maxHash, []), (maxHash, [])) = ((h0, k0), (h1, k1))"
    by (metis surj_pair)
  have "take 2 ?l = [(h0, k0), (h1, k1)]" using pass two by simp
  then have one: "Shard2 blake boxID keys = map snd (take 2 ?l)" using two by (simp add: Shard2_def)
  have "mset (ord (map (\<lambda>key. (?h key, key)) keys')) = mset ?l"
    using assms(4,5) ms by (simp add: is_order_def)
  moreover have "inj_on fst (set (ord (map (\<lambda>key. (?h key, key)) keys')))"
    using assms(2) mset_eq_setD [OF calculation] mset_eq_setD [OF ms]
    by (auto simp: inj_on_def distinct_map)
  ultimately have "sort_key fst (ord (map (\<lambda>key. (?h key, key)) keys')) = ?l"
    using so by (intro sort_key_inj_key_eq)
  with one len show ?thesis by (simp add: Shard_def K_def)
qed

theorem Shard2_sorts_witness:
  "Shard (\<lambda>b. take 32 (b @ replicate 32 0)) rev [7] [[3], [1], [2]] = Inr (Shard2 (\<lambda>b. take 32 (b @ replicate 32 0)) [7] [[2], [3], [1]])"
  by (rule Shard2_sorts) (auto simp: K_def is_order_def min_def)

end
