(* ===== verification/PigeonholeHelpers.thy ===== *)
theory PigeonholeHelpers
  imports TrunnelProps ReplicaShard WireTypes
begin

text \<open>
  What clients, couriers and replicas share above the wire records (pigeonhole/helpers.go,
  conversions.go, errors.go, pki.go): padding to one length, the conversions between the wire commands
  and the records inside the encryption, the error codes, and the random choice of the replicas that
  relay a request. The random source is the list of the 64-bit numbers it gives before it fails.
\<close>

section \<open>Error codes\<close>

definition ReplicaSuccess :: byte where "ReplicaSuccess = 0"
definition ReplicaErrorBoxIDNotFound :: byte where "ReplicaErrorBoxIDNotFound = 1"
definition ReplicaErrorInvalidBoxID :: byte where "ReplicaErrorInvalidBoxID = 2"
definition ReplicaErrorInvalidSignature :: byte where "ReplicaErrorInvalidSignature = 3"
definition ReplicaErrorDatabaseFailure :: byte where "ReplicaErrorDatabaseFailure = 4"
definition ReplicaErrorInvalidPayload :: byte where "ReplicaErrorInvalidPayload = 5"
definition ReplicaErrorStorageFull :: byte where "ReplicaErrorStorageFull = 6"
definition ReplicaErrorInternalError :: byte where "ReplicaErrorInternalError = 7"
definition ReplicaErrorInvalidEpoch :: byte where "ReplicaErrorInvalidEpoch = 8"
definition ReplicaErrorReplicationFailed :: byte where "ReplicaErrorReplicationFailed = 9"
definition ReplicaErrorBoxAlreadyExists :: byte where "ReplicaErrorBoxAlreadyExists = 10"
definition ReplicaErrorTombstone :: byte where "ReplicaErrorTombstone = 11"

lemmas replica_codes = ReplicaSuccess_def ReplicaErrorBoxIDNotFound_def ReplicaErrorInvalidBoxID_def
  ReplicaErrorInvalidSignature_def ReplicaErrorDatabaseFailure_def ReplicaErrorInvalidPayload_def
  ReplicaErrorStorageFull_def ReplicaErrorInternalError_def ReplicaErrorInvalidEpoch_def
  ReplicaErrorReplicationFailed_def ReplicaErrorBoxAlreadyExists_def ReplicaErrorTombstone_def

definition ReplicaErrorToString :: "byte \<Rightarrow> string" where
  "ReplicaErrorToString code =
     (if code = ReplicaSuccess then ''success''
      else if code = ReplicaErrorBoxIDNotFound then ''box not found''
      else if code = ReplicaErrorInvalidBoxID then ''invalid box ID''
      else if code = ReplicaErrorInvalidSignature then ''invalid signature''
      else if code = ReplicaErrorDatabaseFailure then ''database failure''
      else if code = ReplicaErrorInvalidPayload then ''invalid payload''
      else if code = ReplicaErrorStorageFull then ''storage full''
      else if code = ReplicaErrorInternalError then ''internal error''
      else if code = ReplicaErrorInvalidEpoch then ''invalid epoch''
      else if code = ReplicaErrorReplicationFailed then ''replication failed''
      else if code = ReplicaErrorBoxAlreadyExists then ''box already exists''
      else if code = ReplicaErrorTombstone then ''tombstone''
      else ''unknown replica error'')"

section \<open>Padding\<close>

datatype pad_err = padDataExceedsTarget | nilGeometry | messageTooLong | paddedTooShort | invalidMessageLength

text \<open>A negative length makes \<open>make\<close> panic; the checks before it exclude that.\<close>

definition PadToSize :: "bytes \<Rightarrow> int \<Rightarrow> (pad_err, bytes) go" where
  "PadToSize data targetSize =
     (if int (length data) > targetSize then Inl (Err padDataExceedsTarget)
      else if int (length data) = targetSize then Inr data
      else Inr (data @ replicate (nat (targetSize - int (length data))) 0))"

definition CreatePaddedPayload :: "bytes \<Rightarrow> int \<Rightarrow> (pad_err, bytes) go" where
  "CreatePaddedPayload msg targetSize =
     (if int (length msg) > targetSize - 4 then Inl (Err messageTooLong)
      else Inr (put32 (word_of_nat (length msg)) @ msg
                @ replicate (nat targetSize - 4 - length msg) 0))"

definition ExtractMessageFromPaddedPayload :: "bytes \<Rightarrow> (pad_err, bytes) go" where
  "ExtractMessageFromPaddedPayload paddedPayload =
     (if length paddedPayload < 4 then Inl (Err paddedTooShort)
      else go_bind (get32 paddedPayload) (\<lambda>messageLength.
        if unat messageLength > length paddedPayload - 4 then Inl (Err invalidMessageLength)
        else Inr (take (unat messageLength) (drop 4 paddedPayload))))"

text \<open>The encodings that drop the error of a record that does not validate: nothing is left then.\<close>

definition or_nothing :: "('e, bytes) go \<Rightarrow> bytes" where
  "or_nothing r = (case r of Inr data \<Rightarrow> data | Inl _ \<Rightarrow> [])"

definition Inner_Bytes :: "ReplicaInnerMessage \<Rightarrow> bytes" where
  "Inner_Bytes msg = or_nothing (ReplicaInnerMessage_MarshalBinary msg)"

definition ReplyInner_Bytes :: "ReplicaMessageReplyInnerMessage \<Rightarrow> bytes" where
  "ReplyInner_Bytes msg = or_nothing (ReplicaMessageReplyInnerMessage_MarshalBinary msg)"

definition Box_Bytes :: "Box \<Rightarrow> bytes" where
  "Box_Bytes b = or_nothing (Box_MarshalBinary b)"

definition BoxFromBytes :: "bytes \<Rightarrow> (trunnel_err, Box) go" where
  "BoxFromBytes data = ParseBox data"

definition CourierQueryFromBytes :: "bytes \<Rightarrow> (trunnel_err, CourierQuery) go" where
  "CourierQueryFromBytes data = ParseCourierQuery data"

definition PadInnerMessageForEncryption ::
  "hpqc \<Rightarrow> ReplicaInnerMessage \<Rightarrow> PGeometry option \<Rightarrow> (pad_err, bytes) go" where
  "PadInnerMessageForEncryption x msg geo =
     (case geo of None \<Rightarrow> Inl (Err nilGeometry)
      | Some g \<Rightarrow> CreatePaddedPayload (Inner_Bytes msg) (ReplicaInnerMessagePaddedSize x g))"

definition PadReplyInnerMessageForEncryption ::
  "hpqc \<Rightarrow> ReplicaMessageReplyInnerMessage \<Rightarrow> PGeometry option \<Rightarrow> (pad_err, bytes) go" where
  "PadReplyInnerMessageForEncryption x msg geo =
     (case geo of None \<Rightarrow> Inl (Err nilGeometry)
      | Some g \<Rightarrow> CreatePaddedPayload (ReplyInner_Bytes msg) (ReplicaReplyInnerMessagePaddedSize x g))"

definition CourierEnvelope_Hash :: "(bytes \<Rightarrow> bytes) \<Rightarrow> CourierEnvelope \<Rightarrow> bytes" where
  "CourierEnvelope_Hash blake c = blake (SenderPubkey c @ Ciphertext c)"

section \<open>Conversions\<close>

text \<open>
  Between the record inside the encryption and the command on the wire. A wire command whose box ID or
  signature is nil panics; one of another kind is not converted.
\<close>

definition TrunnelReplicaWriteToWireCommand :: "'pk cmds \<Rightarrow> BoxWrite option \<Rightarrow> 'pk Command option" where
  "TrunnelReplicaWriteToWireCommand cs w = map_option (\<lambda>w.
     ReplicaWrite cs None (Some (rw_BoxID w)) (Some (rw_Signature w)) (rw_Payload w)) w"

definition WireCommandToTrunnelReplicaWrite ::
  "bytes option \<Rightarrow> bytes option \<Rightarrow> bytes \<Rightarrow> (unit, BoxWrite) go" where
  "WireCommandToTrunnelReplicaWrite boxID signature payload =
     go_bind (deref boxID) (\<lambda>b. go_bind (deref signature) (\<lambda>sg.
       Inr \<lparr>rw_BoxID = b, rw_Signature = sg, rw_PayloadLen = word_of_nat (length payload), rw_Payload = payload\<rparr>))"

definition TrunnelReplicaWriteReplyToWireCommand :: "'pk cmds \<Rightarrow> BoxWriteReply option \<Rightarrow> 'pk Command option" where
  "TrunnelReplicaWriteReplyToWireCommand cs r = map_option (\<lambda>r. ReplicaWriteReply cs (rwr_ErrorCode r)) r"

definition WireCommandToTrunnelReplicaWriteReply :: "byte option \<Rightarrow> BoxWriteReply option" where
  "WireCommandToTrunnelReplicaWriteReply c = map_option (\<lambda>e. \<lparr>rwr_ErrorCode = e\<rparr>) c"

section \<open>Random choice\<close>

datatype choice_err = notPositive | randomFailed | noDocument | shardsFailed shard_err | tooFewReplicas
  | unknownReplica | noEnvelopeKey | emptyEnvelopeKey | badEnvelopeKey

text \<open>The 64-bit numbers that are not multiples of \<open>n\<close> short of the range are drawn again.\<close>

fun draw_index :: "u64 \<Rightarrow> u64 \<Rightarrow> u64 list \<Rightarrow> (choice_err, nat \<times> u64 list) go" where
  "draw_index un r [] = Inl (Err randomFailed)"
| "draw_index un r (v # rand) =
     (if r = 0 \<or> v < 0 - r then Inr (unat (v mod un), rand) else draw_index un r rand)"

definition CryptoRandIndex :: "int \<Rightarrow> u64 list \<Rightarrow> (choice_err, nat \<times> u64 list) go" where
  "CryptoRandIndex n rand =
     (if n \<le> 0 then Inl (Err notPositive)
      else let un = word_of_int n in draw_index un ((0 - un) mod un) rand)"

lemma draw_index_shorter: "draw_index un r rand = Inr (i, rest) \<Longrightarrow> length rest < length rand"
  by (induction un r rand rule: draw_index.induct) (auto split: if_splits)

lemma CryptoRandIndex_shorter: "CryptoRandIndex n rand = Inr (i, rest) \<Longrightarrow> length rest < length rand"
  by (auto simp: CryptoRandIndex_def Let_def draw_index_shorter split: if_splits)

text \<open>\<open>pickRandomReplicaID\<close>: draws until the ID is not excluded.\<close>

function pickRandomReplicaID :: "byte list \<Rightarrow> byte list \<Rightarrow> u64 list \<Rightarrow> (choice_err, byte \<times> u64 list) go" where
  "pickRandomReplicaID allReplicaIDs exclude rand =
     (case CryptoRandIndex (int (length allReplicaIDs)) rand of
        Inl e \<Rightarrow> Inl e
      | Inr (idx, rest) \<Rightarrow> let candidate = allReplicaIDs ! idx in
          if candidate \<in> set exclude then pickRandomReplicaID allReplicaIDs exclude rest else Inr (candidate, rest))"
  by pat_completeness auto
termination
  by (relation "measure (\<lambda>(_, _, rand). length rand)") (auto simp: CryptoRandIndex_shorter)

declare pickRandomReplicaID.simps [simp del]

definition getReplicaPubKeys ::
  "(bytes \<Rightarrow> 'k option) \<Rightarrow> Document \<Rightarrow> u64 \<Rightarrow> byte list \<Rightarrow> (choice_err, 'k list) go" where
  "getReplicaPubKeys unmarshal doc replicaEpoch ids = fold (\<lambda>replicaNum acc. go_bind acc (\<lambda>ks.
     case ReplicaNum doc replicaNum of
       Inl _ \<Rightarrow> Inl (Err unknownReplica)
     | Inr desc \<Rightarrow> (case map_of (case EnvelopeKeys desc of None \<Rightarrow> [] | Some m \<Rightarrow> m) replicaEpoch of
         None \<Rightarrow> Inl (Err noEnvelopeKey)
       | Some keyBytes \<Rightarrow> if keyBytes = [] then Inl (Err emptyEnvelopeKey) else (case unmarshal keyBytes of
           None \<Rightarrow> Inl (Err badEnvelopeKey)
         | Some k \<Rightarrow> Inr (ks @ [k]))))) ids (Inr [])"

text \<open>The IDs of the replicas of the document that keep the box; a nil list of replicas is the empty one.\<close>

definition shard_ids :: "Document \<Rightarrow> ReplicaDescriptor list \<Rightarrow> byte list" where
  "shard_ids doc shards = List.map_filter (\<lambda>shard. map_option ReplicaID
     (List.find (\<lambda>replica. raw_key (rd_IdentityKey shard) = raw_key (rd_IdentityKey replica)) (StorageReplicas doc))) shards"

text \<open>The two replicas that relay the request. The number of replicas is counted in a byte.\<close>

definition choose_intermediates ::
  "byte list \<Rightarrow> byte list \<Rightarrow> u64 list \<Rightarrow> (choice_err, byte \<times> byte) go" where
  "choose_intermediates allReplicaIDs shardReplicaIDs rand =
     (let numReplicas = (word_of_nat (length allReplicaIDs) :: byte);
          pick = pickRandomReplicaID allReplicaIDs in
      if numReplicas < 2 then Inl (Err tooFewReplicas)
      else if numReplicas = 2 then Inr (allReplicaIDs ! 0, allReplicaIDs ! 1)
      else if numReplicas = 3 then
        (case shardReplicaIDs of
           replica1 # _ \<Rightarrow> go_bind (pick [replica1] rand) (\<lambda>(replica2, _). Inr (replica1, replica2))
         | [] \<Rightarrow> go_bind (pick [] rand) (\<lambda>(replica1, rest).
             go_bind (pick [replica1] rest) (\<lambda>(replica2, _). Inr (replica1, replica2))))
      else go_bind (pick shardReplicaIDs rand) (\<lambda>(replica1, rest).
             go_bind (pick (replica1 # shardReplicaIDs) rest) (\<lambda>(replica2, _). Inr (replica1, replica2))))"

definition GetRandomIntermediateReplicas ::
  "('pub, 'priv) pki_env \<Rightarrow> (bytes \<Rightarrow> 'k option) \<Rightarrow> Document option \<Rightarrow> bytes \<Rightarrow> u64 \<Rightarrow> u64 list
     \<Rightarrow> (choice_err, (byte \<times> byte) \<times> 'k list) go" where
  "GetRandomIntermediateReplicas p unmarshal docp boxid replicaEpoch rand =
     (case docp of None \<Rightarrow> Inl (Err noDocument) | Some doc \<Rightarrow>
      (case GetShards p boxid doc of
         Inl Panic \<Rightarrow> Inl Panic | Inl (Err e) \<Rightarrow> Inl (Err (shardsFailed e))
       | Inr shards \<Rightarrow>
          go_bind (choose_intermediates (map ReplicaID (StorageReplicas doc)) (shard_ids doc shards) rand) (\<lambda>(replica1, replica2).
          go_bind (getReplicaPubKeys unmarshal doc replicaEpoch [replica1, replica2]) (\<lambda>keys.
            Inr ((replica1, replica2), keys)))))"

end
