(* ===== verification/ReplicaStore.thy ===== *)
theory ReplicaStore
  imports PigeonholeHelpers EpochTime
begin

text \<open>
  The boxes of a storage replica (replica/state.go, state_gc.go, state_rebalance_marker.go and
  replica/common/time.go). RocksDB is the parameter \<open>rocks\<close>: it reads a key (nothing is the empty
  value), writes and deletes, each with possible failure, and lists the entries from a key on in order.
  The clock is the replica epoch it shows, as an argument. A box is kept under the epoch of its writing
  and its ID. The lock per box ID makes each operation on a box atomic; so each is one step here.
\<close>

section \<open>Replica epochs\<close>

definition ReplicaEpochPeriod :: int where "ReplicaEpochPeriod = 7 * (24 * 3600 * 10 ^ 9)"

text \<open>The three readings of the clock.\<close>

definition ReplicaNow :: "int \<Rightarrow> int \<Rightarrow> int \<Rightarrow> (unit, u64 \<times> int \<times> int) go" where
  "ReplicaNow t1 t2 t3 =
     (let fromEpoch = time_Sub t1 Epoch_start in
      if fromEpoch < 0 then Inl Panic
      else let current = word_of_int (fromEpoch div ReplicaEpochPeriod);
               base = Epoch_start + duration_times (Duration current) ReplicaEpochPeriod
           in Inr (current, time_Sub t2 base, time_Sub (base + ReplicaEpochPeriod) t3))"

definition ConvertNormalToReplicaEpoch :: "int \<Rightarrow> u64 \<Rightarrow> u64" where
  "ConvertNormalToReplicaEpoch Period normalEpoch =
     (normalEpoch * word_of_int Period) div word_of_int ReplicaEpochPeriod"

definition currentReplicaEpoch :: "int \<Rightarrow> (unit, u64) go" where
  "currentReplicaEpoch t = go_bind (ReplicaNow t t t) (\<lambda>(e, _, _). Inr e)"

section \<open>Keys and state\<close>

definition epochPrefix :: "u64 \<Rightarrow> bytes" where "epochPrefix epoch = put64 epoch"

definition boxKey :: "u64 \<Rightarrow> bytes \<Rightarrow> bytes" where "boxKey epoch boxID = put64 epoch @ boxID"

definition keptEpochs :: "u64 \<Rightarrow> u64 list" where
  "keptEpochs current = (if current = 0 then [0] else [current, current - 1])"

text \<open>A failed read is \<open>None\<close>; writing and deleting say whether they succeeded.\<close>

record 'd rocks =
  db_Get :: "'d \<Rightarrow> bytes \<Rightarrow> bytes option"
  db_Put :: "'d \<Rightarrow> bytes \<Rightarrow> bytes \<Rightarrow> bool \<times> 'd"
  db_DeleteRange :: "'d \<Rightarrow> bytes \<Rightarrow> bytes \<Rightarrow> bool \<times> 'd"
  db_Seek :: "'d \<Rightarrow> bytes \<Rightarrow> (bytes \<times> bytes) list"
  meta_Get :: "'d \<Rightarrow> bytes option"
  meta_Put :: "'d \<Rightarrow> bytes \<Rightarrow> bool \<times> 'd"

record 'd store =
  db :: "'d option"
  metaCF :: bool
  storageFull :: bool

datatype store_err = databaseClosed | dbFailed | checkFailed | badBlob trunnel_err | shardError shard_err
  | ErrBoxIDNotFound | ErrBoxAlreadyExists | ErrFailedDBRead | ErrFailedToDeserialize | ErrDBClosed | ErrStorageFull

text \<open>
  The storage watcher's sample: the quota on the size of the database, and the reserve of free space; a
  probe that fails does not count as full.
\<close>

definition refreshStorageFull :: "int \<Rightarrow> int \<Rightarrow> u64 option \<Rightarrow> u64 option \<Rightarrow> 'd store \<Rightarrow> 'd store" where
  "refreshStorageFull maxMiB minFreeMiB used avail st =
     (let bytesPerMiB = 1024 * 1024;
          overQuota = (0 < maxMiB \<and> (case used of Some u \<Rightarrow> word_of_int maxMiB * bytesPerMiB \<le> u | None \<Rightarrow> False));
          short = (0 < minFreeMiB \<and> (case avail of Some a \<Rightarrow> a < word_of_int minFreeMiB * bytesPerMiB | None \<Rightarrow> False))
      in st\<lparr>storageFull := overQuota \<or> short\<rparr>)"

section \<open>Operations on a box\<close>

fun read_kept :: "'d rocks \<Rightarrow> 'd \<Rightarrow> bytes \<Rightarrow> u64 list \<Rightarrow> (store_err, Box) go" where
  "read_kept R d boxID [] = Inl (Err ErrBoxIDNotFound)"
| "read_kept R d boxID (ep # eps) =
     (case db_Get R d (boxKey ep boxID) of
        None \<Rightarrow> Inl (Err ErrFailedDBRead)
      | Some value \<Rightarrow> if value = [] then read_kept R d boxID eps
          else (case BoxFromBytes value of
              Inl Panic \<Rightarrow> Inl Panic
            | Inl (Err _) \<Rightarrow> Inl (Err ErrFailedToDeserialize)
            | Inr box \<Rightarrow> Inr box))"

definition stateHandleReplicaRead :: "'d rocks \<Rightarrow> u64 \<Rightarrow> bytes \<Rightarrow> 'd store \<Rightarrow> (store_err, Box) go" where
  "stateHandleReplicaRead R cur boxID st =
     (case db st of None \<Rightarrow> Inl (Err ErrDBClosed)
      | Some d \<Rightarrow> read_kept R d boxID (keptEpochs cur))"

text \<open>The answer to a write of a box that is there already: \<open>Some None\<close> if it is the same.\<close>

fun existing_write :: "'d rocks \<Rightarrow> 'd \<Rightarrow> bytes \<Rightarrow> bytes \<Rightarrow> bytes \<Rightarrow> u64 list \<Rightarrow> store_err option option" where
  "existing_write R d boxID signature payload [] = None"
| "existing_write R d boxID signature payload (ep # eps) =
     (case db_Get R d (boxKey ep boxID) of
        None \<Rightarrow> Some (Some checkFailed)
      | Some value \<Rightarrow> if value = [] then existing_write R d boxID signature payload eps
          else (case BoxFromBytes value of
              Inr box \<Rightarrow> if box_Payload box = payload \<and> box_Signature box = signature then Some None
                         else Some (Some ErrBoxAlreadyExists)
            | Inl _ \<Rightarrow> Some (Some ErrBoxAlreadyExists)))"

definition new_box :: "bytes \<Rightarrow> bytes \<Rightarrow> bytes \<Rightarrow> Box" where
  "new_box boxID signature payload = \<lparr>box_BoxID = boxID, box_PayloadLen = word_of_nat (length payload),
     box_Payload = payload, box_Signature = signature\<rparr>"

definition put_box :: "'d rocks \<Rightarrow> u64 \<Rightarrow> Box \<Rightarrow> 'd \<Rightarrow> 'd store \<Rightarrow> store_err option \<times> 'd store" where
  "put_box R cur box d st =
     (let (ok, d') = db_Put R d (boxKey cur (box_BoxID box)) (Box_Bytes box)
      in (if ok then None else Some dbFailed, st\<lparr>db := Some d'\<rparr>))"

definition state_handleReplicaWrite ::
  "'d rocks \<Rightarrow> u64 \<Rightarrow> bytes \<Rightarrow> bytes \<Rightarrow> bytes \<Rightarrow> 'd store \<Rightarrow> store_err option \<times> 'd store" where
  "state_handleReplicaWrite R cur boxID signature payload st =
     (case db st of None \<Rightarrow> (Some databaseClosed, st)
      | Some d \<Rightarrow> if storageFull st then (Some ErrStorageFull, st)
          else (case existing_write R d boxID signature payload (keptEpochs cur) of
              Some answer \<Rightarrow> (answer, st)
            | None \<Rightarrow> put_box R cur (new_box boxID signature payload) d st))"

definition handleReplicaTombstone ::
  "'d rocks \<Rightarrow> u64 \<Rightarrow> bytes \<Rightarrow> bytes \<Rightarrow> 'd store \<Rightarrow> store_err option \<times> 'd store" where
  "handleReplicaTombstone R cur boxID signature st =
     (case db st of None \<Rightarrow> (Some databaseClosed, st)
      | Some d \<Rightarrow> put_box R cur (new_box boxID signature []) d st)"

text \<open>Everything older than the epoch before is deleted.\<close>

definition WipeStaleBoxes :: "'d rocks \<Rightarrow> u64 \<Rightarrow> 'd store \<Rightarrow> store_err option \<times> 'd store" where
  "WipeStaleBoxes R cur st =
     (case db st of None \<Rightarrow> (Some databaseClosed, st)
      | Some d \<Rightarrow> if cur < 2 then (None, st)
          else let (ok, d') = db_DeleteRange R d (epochPrefix 0) (epochPrefix (cur - 1))
               in (if ok then None else Some dbFailed, st\<lparr>db := Some d'\<rparr>))"

definition state_Close :: "'d store \<Rightarrow> 'd store" where
  "state_Close st = st\<lparr>metaCF := False, db := None\<rparr>"

section \<open>Rebalancing\<close>

definition replicaSetFingerprint :: "(bytes \<Rightarrow> bytes) \<Rightarrow> Document option \<Rightarrow> bytes" where
  "replicaSetFingerprint blake docp =
     (case docp of None \<Rightarrow> blake []
      | Some doc \<Rightarrow> blake (concat (sort (map (\<lambda>r. blake (raw_key (rd_IdentityKey r))) (StorageReplicas doc)))))"

definition loadLastRebalanceFingerprint :: "'d rocks \<Rightarrow> 'd store \<Rightarrow> (store_err, bytes option) go" where
  "loadLastRebalanceFingerprint R st =
     (case db st of None \<Rightarrow> Inl (Err databaseClosed)
      | Some d \<Rightarrow> if \<not> metaCF st then Inl (Err databaseClosed)
          else (case meta_Get R d of None \<Rightarrow> Inl (Err dbFailed)
            | Some value \<Rightarrow> Inr (if length value = 32 then Some value else None)))"

definition storeLastRebalanceFingerprint :: "'d rocks \<Rightarrow> bytes \<Rightarrow> 'd store \<Rightarrow> store_err option \<times> 'd store" where
  "storeLastRebalanceFingerprint R fp st =
     (case db st of None \<Rightarrow> (Some databaseClosed, st)
      | Some d \<Rightarrow> if \<not> metaCF st then (Some databaseClosed, st)
          else let (ok, d') = meta_Put R d fp in (if ok then None else Some dbFailed, st\<lparr>db := Some d'\<rparr>))"

definition replicaWriteFromBlob :: "'pk cmds option \<Rightarrow> bytes \<Rightarrow> (store_err, 'pk Command) go" where
  "replicaWriteFromBlob cmds blob =
     (case BoxFromBytes blob of
        Inl Panic \<Rightarrow> Inl Panic
      | Inl (Err e) \<Rightarrow> Inl (Err (badBlob e))
      | Inr box \<Rightarrow> go_bind (deref cmds) (\<lambda>cs.
          Inr (ReplicaWrite cs None (Some (box_BoxID box)) (Some (box_Signature box)) (box_Payload box))))"

definition getRemoteShards ::
  "('pub, 'priv) pki_env \<Rightarrow> bytes option \<Rightarrow> Document option \<Rightarrow> bytes \<Rightarrow> (store_err, ReplicaDescriptor list) go" where
  "getRemoteShards p own docp boxID =
     (case docp of None \<Rightarrow> Inr []
      | Some doc \<Rightarrow> if StorageReplicas doc = [] then Inr []
          else (case GetRemoteShards p own (copy_into 32 boxID) doc of
              Inl Panic \<Rightarrow> Inl Panic
            | Inl (Err e) \<Rightarrow> Inl (Err (shardError e))
            | Inr shards \<Rightarrow> Inr shards))"

text \<open>The commands dispatched, each to the hash of a replica's key, and the error that ended the loop.\<close>

type_synonym 'pk dispatched = "('pk Command \<times> bytes) list"

fun rebalance_epoch ::
  "(bytes \<Rightarrow> (store_err, 'pk Command) go) \<Rightarrow> (bytes \<Rightarrow> (store_err, bytes list) go) \<Rightarrow> bytes \<Rightarrow> (bytes \<times> bytes) list
     \<Rightarrow> 'pk dispatched \<times> store_err fail option" where
  "rebalance_epoch write targets pfx [] = ([], None)"
| "rebalance_epoch write targets pfx ((key, value) # entries) =
     (if take 8 key \<noteq> pfx then ([], None)
      else if length key < 8 + 32 then rebalance_epoch write targets pfx entries
      else (case write value of Inl e \<Rightarrow> ([], Some e)
        | Inr cmd \<Rightarrow> (case targets (take 32 (drop 8 key)) of Inl e \<Rightarrow> ([], Some e)
          | Inr hs \<Rightarrow> let (ds, e) = rebalance_epoch write targets pfx entries
                      in (map (Pair cmd) hs @ ds, e))))"

fun rebalance_epochs ::
  "(u64 \<Rightarrow> 'pk dispatched \<times> store_err fail option) \<Rightarrow> u64 list \<Rightarrow> 'pk dispatched \<times> store_err fail option" where
  "rebalance_epochs step [] = ([], None)"
| "rebalance_epochs step (ep # eps) =
     (case step ep of (ds, Some e) \<Rightarrow> (ds, Some e)
      | (ds, None) \<Rightarrow> let (ds', e) = rebalance_epochs step eps in (ds @ ds', e))"

definition Rebalance ::
  "('pub, 'priv) pki_env \<Rightarrow> 'd rocks \<Rightarrow> 'pk cmds option \<Rightarrow> bytes option \<Rightarrow> Document option \<Rightarrow> u64 \<Rightarrow> 'd store
     \<Rightarrow> ('pk dispatched \<times> store_err fail option) \<times> 'd store" where
  "Rebalance p R cmds own docp cur st =
     (case db st of None \<Rightarrow> (([], Some (Err databaseClosed)), st)
      | Some d \<Rightarrow>
         let targets = (\<lambda>boxID. go_bind (getRemoteShards p own docp boxID) (\<lambda>shards.
               Inr (map (\<lambda>shard. blake2b_256 p (raw_key (rd_IdentityKey shard))) shards)));
             (ds, e) = rebalance_epochs (\<lambda>ep. rebalance_epoch (replicaWriteFromBlob cmds) targets (epochPrefix ep)
                         (db_Seek R d (epochPrefix ep))) (keptEpochs cur)
         in ((ds, e), case (e, docp) of
               (None, Some doc) \<Rightarrow> snd (storeLastRebalanceFingerprint R (replicaSetFingerprint (blake2b_256 p) docp) st)
             | _ \<Rightarrow> st))"

text \<open>At startup: no rebalance when the stored fingerprint is that of the document.\<close>

definition maybeStartupRebalance ::
  "('pub, 'priv) pki_env \<Rightarrow> 'd rocks \<Rightarrow> 'pk cmds option \<Rightarrow> bytes option \<Rightarrow> Document option \<Rightarrow> u64 \<Rightarrow> 'd store
     \<Rightarrow> 'pk dispatched \<times> 'd store" where
  "maybeStartupRebalance p R cmds own docp cur st =
     (case docp of None \<Rightarrow> ([], st)
      | Some doc \<Rightarrow>
         if loadLastRebalanceFingerprint R st = Inr (Some (replicaSetFingerprint (blake2b_256 p) docp)) then ([], st)
         else let ((ds, _), st') = Rebalance p R cmds own docp cur st in (ds, st'))"

end
