(* ===== verification/ReplicaHandlers.thy ===== *)
theory ReplicaHandlers
  imports ReplicaStore WireEncode
begin

text \<open>
  What a storage replica does with the commands it receives (replica/handlers.go, envelope_epoch.go). The
  multi-recipient KEM, the NIKE and Ed25519 are the parameters in \<open>replica_env\<close>, with the randomness they
  draw. What happens around one request is in \<open>surroundings\<close>: the envelope keys, the documents and epochs
  that are read at the start and later, random numbers, and what another replica answers to a request
  passed on, or nothing.
\<close>

record ('pub, 'priv, 'np, 'ns, 'v) replica_env =
  rpki :: "('pub, 'priv) pki_env"
  rgeo :: PGeometry
  rsizes :: hpqc
  own_key :: "bytes option"
  nike_Unmarshal :: "bytes \<Rightarrow> 'np option"
  nike_Bytes :: "'np \<Rightarrow> bytes"
  mkem_Decapsulate :: "'ns \<Rightarrow> 'np \<Rightarrow> bytes \<Rightarrow> bytes \<Rightarrow> bytes option"     \<comment> \<open>of DEK ciphertext and envelope\<close>
  mkem_EnvelopeReply :: "'ns \<Rightarrow> 'np \<Rightarrow> bytes \<Rightarrow> bytes"
  mkem_Encapsulate :: "'np \<Rightarrow> bytes \<Rightarrow> 'ns \<times> 'np \<times> bytes \<times> bytes"
  mkem_DecryptEnvelope :: "'ns \<Rightarrow> 'np \<Rightarrow> bytes \<Rightarrow> bytes option"
  ed_Unmarshal :: "bytes \<Rightarrow> 'v option"
  ed_Verify :: "'v \<Rightarrow> bytes \<Rightarrow> bytes \<Rightarrow> bool"

record message_reply =
  mr_ErrorCode :: byte
  mr_EnvelopeHash :: bytes
  mr_EnvelopeReply :: bytes
  mr_ReplicaID :: byte

record 'ns surroundings =
  envelope_keys :: "u64 \<rightharpoonup> 'ns"
  now_document :: "Document option"
  later_document :: "Document option"
  now_epoch :: u64
  later_epoch :: u64
  random :: "u64 list"
  transport :: "bytes \<Rightarrow> bytes \<Rightarrow> bytes \<Rightarrow> bytes \<Rightarrow> message_reply option"

section \<open>Reading and writing boxes\<close>

definition zero_read_reply :: BoxReadReply where
  "zero_read_reply = \<lparr>rrr_ErrorCode = ReplicaSuccess, rrr_BoxID = replicate 32 0, rrr_Signature = replicate 64 0,
     rrr_PayloadLen = 0, rrr_Payload = []\<rparr>"

text \<open>An error the code does not list leaves a nil reply, which panics when it is read.\<close>

definition handleReplicaRead :: "'d rocks \<Rightarrow> u64 \<Rightarrow> BoxRead \<Rightarrow> 'd store \<Rightarrow> (unit, BoxReadReply) go" where
  "handleReplicaRead R cur replicaRead st =
     (case stateHandleReplicaRead R cur (rr_BoxID replicaRead) st of
        Inr resp \<Rightarrow>
          if box_Payload resp = []
          then Inr (zero_read_reply\<lparr>rrr_BoxID := box_BoxID resp, rrr_Signature := box_Signature resp,
                      rrr_ErrorCode := ReplicaErrorTombstone\<rparr>)
          else Inr \<lparr>rrr_ErrorCode = ReplicaSuccess, rrr_BoxID = box_BoxID resp, rrr_Signature = box_Signature resp,
                     rrr_PayloadLen = word_of_nat (length (box_Payload resp)), rrr_Payload = box_Payload resp\<rparr>
      | Inl (Err ErrBoxIDNotFound) \<Rightarrow>
          Inr (zero_read_reply\<lparr>rrr_BoxID := rr_BoxID replicaRead, rrr_ErrorCode := ReplicaErrorBoxIDNotFound\<rparr>)
      | Inl (Err ErrFailedDBRead) \<Rightarrow> Inr (zero_read_reply\<lparr>rrr_ErrorCode := ReplicaErrorDatabaseFailure\<rparr>)
      | Inl (Err ErrFailedToDeserialize) \<Rightarrow> Inr (zero_read_reply\<lparr>rrr_ErrorCode := ReplicaErrorDatabaseFailure\<rparr>)
      | Inl (Err ErrDBClosed) \<Rightarrow> Inr (zero_read_reply\<lparr>rrr_ErrorCode := ReplicaErrorDatabaseFailure\<rparr>)
      | Inl _ \<Rightarrow> Inl Panic)"

definition write_reply :: "byte \<Rightarrow> BoxWriteReply" where "write_reply code = \<lparr>rwr_ErrorCode = code\<rparr>"

definition handleTombstone ::
  "('pub, 'priv, 'np, 'ns, 'v) replica_env \<Rightarrow> 'd rocks \<Rightarrow> u64 \<Rightarrow> BoxWrite \<Rightarrow> 'd store \<Rightarrow> BoxWriteReply \<times> 'd store" where
  "handleTombstone E R cur w st =
     (case ed_Unmarshal E (rw_BoxID w) of
        None \<Rightarrow> (write_reply ReplicaErrorInvalidBoxID, st)
      | Some verifyKey \<Rightarrow>
          if \<not> ed_Verify E verifyKey [] (rw_Signature w) then (write_reply ReplicaErrorInvalidSignature, st)
          else (case handleReplicaTombstone R cur (rw_BoxID w) (rw_Signature w) st of
              (Some _, st') \<Rightarrow> (write_reply ReplicaErrorDatabaseFailure, st')
            | (None, st') \<Rightarrow> (write_reply ReplicaSuccess, st')))"

definition handleReplicaWrite ::
  "('pub, 'priv, 'np, 'ns, 'v) replica_env \<Rightarrow> 'd rocks \<Rightarrow> u64 \<Rightarrow> BoxWrite \<Rightarrow> 'd store \<Rightarrow> BoxWriteReply \<times> 'd store" where
  "handleReplicaWrite E R cur w st =
     (if rw_PayloadLen w = 0 \<or> rw_Payload w = [] then handleTombstone E R cur w st
      else if int (length (rw_Payload w)) \<noteq> CalculateBoxCiphertextLength (rgeo E)
      then (write_reply ReplicaErrorInvalidPayload, st)
      else (case ed_Unmarshal E (rw_BoxID w) of
          None \<Rightarrow> (write_reply ReplicaErrorInvalidBoxID, st)
        | Some verifyKey \<Rightarrow>
            if \<not> ed_Verify E verifyKey (rw_Payload w) (rw_Signature w) then (write_reply ReplicaErrorInvalidSignature, st)
            else (case state_handleReplicaWrite R cur (rw_BoxID w) (rw_Signature w) (rw_Payload w) st of
                (Some ErrBoxAlreadyExists, st') \<Rightarrow> (write_reply ReplicaErrorBoxAlreadyExists, st')
              | (Some ErrStorageFull, st') \<Rightarrow> (write_reply ReplicaErrorStorageFull, st')
              | (Some _, st') \<Rightarrow> (write_reply ReplicaErrorDatabaseFailure, st')
              | (None, st') \<Rightarrow> (write_reply ReplicaSuccess, st'))))"

section \<open>Decryption\<close>

definition ValidEnvelopeEpochWindow :: u64 where "ValidEnvelopeEpochWindow = 1"

fun try_epochs ::
  "(u64 \<rightharpoonup> 'ns) \<Rightarrow> ('ns \<Rightarrow> bytes option) \<Rightarrow> u64 list \<Rightarrow> (bytes \<times> 'ns \<times> u64) option" where
  "try_epochs keys decapsulate [] = None"
| "try_epochs keys decapsulate (epoch # es) =
     (case keys epoch of None \<Rightarrow> try_epochs keys decapsulate es
      | Some keypair \<Rightarrow> (case decapsulate keypair of None \<Rightarrow> try_epochs keys decapsulate es
          | Some plaintext \<Rightarrow> Some (plaintext, keypair, epoch)))"

text \<open>The epoch before, unless there is none, the current one and the next; the two errors are one here.\<close>

definition tryDecapsulateAcrossEpochWindow ::
  "(u64 \<rightharpoonup> 'ns) \<Rightarrow> ('ns \<Rightarrow> bytes option) \<Rightarrow> u64 \<Rightarrow> (bytes \<times> 'ns \<times> u64) option" where
  "tryDecapsulateAcrossEpochWindow keys decapsulate current =
     try_epochs keys decapsulate
       ((if current < ValidEnvelopeEpochWindow then [] else [current - 1]) @ [current, current + 1])"

section \<open>Messages of couriers\<close>

definition createReplicaMessageReply :: "byte \<Rightarrow> bytes \<Rightarrow> bytes \<Rightarrow> byte \<Rightarrow> message_reply" where
  "createReplicaMessageReply errorCode envelopeHash envelopeReply replicaID =
     \<lparr>mr_ErrorCode = errorCode, mr_EnvelopeHash = envelopeHash, mr_EnvelopeReply = envelopeReply, mr_ReplicaID = replicaID\<rparr>"

text \<open>An error ends the handler with the given result; a panic stays one.\<close>

definition or_reply :: "('e, 'a) go \<Rightarrow> 'b \<Rightarrow> ('a \<Rightarrow> (unit, 'b) go) \<Rightarrow> (unit, 'b) go" where
  "or_reply r b f = (case r of Inl Panic \<Rightarrow> Inl Panic | Inl (Err _) \<Rightarrow> Inr b | Inr x \<Rightarrow> f x)"

definition some_or :: "'a option \<Rightarrow> (unit, 'a) go" where
  "some_or p = (case p of None \<Rightarrow> Inl (Err ()) | Some x \<Rightarrow> Inr x)"

definition read_inner :: "BoxRead \<Rightarrow> ReplicaInnerMessage" where
  "read_inner r = \<lparr>rim_MessageType = 0, rim_ReadMsg = Some r, rim_WriteMsg = None\<rparr>"

definition write_inner :: "BoxWrite \<Rightarrow> ReplicaInnerMessage" where
  "write_inner w = \<lparr>rim_MessageType = 1, rim_ReadMsg = None, rim_WriteMsg = Some w\<rparr>"

definition read_reply_inner :: "BoxReadReply \<Rightarrow> ReplicaMessageReplyInnerMessage" where
  "read_reply_inner r = \<lparr>rmr_MessageType = 0, rmr_ReadReply = Some r, rmr_WriteReply = None\<rparr>"

definition write_reply_inner :: "BoxWriteReply \<Rightarrow> ReplicaMessageReplyInnerMessage" where
  "write_reply_inner w = \<lparr>rmr_MessageType = 1, rmr_ReadReply = None, rmr_WriteReply = Some w\<rparr>"

text \<open>
  Passing a request on to a replica that keeps the box, and its answer, encrypted anew, back. The two
  functions of the code differ in the message and in which reply they take out of the answer:
  \<open>take_out\<close> gives its error code and the message to encrypt.
\<close>

definition proxy_answer ::
  "('pub, 'priv, 'np, 'ns, 'v) replica_env \<Rightarrow> (bytes \<Rightarrow> bytes option)
     \<Rightarrow> (ReplicaMessageReplyInnerMessage \<Rightarrow> (byte \<times> ReplicaMessageReplyInnerMessage) option)
     \<Rightarrow> (bytes \<Rightarrow> bytes) \<Rightarrow> bytes \<Rightarrow> byte \<Rightarrow> message_reply option \<Rightarrow> (unit, message_reply) go" where
  "proxy_answer E decrypt take_out encrypt originalHash replicaID answer =
     (let failed = createReplicaMessageReply ReplicaErrorInternalError originalHash [] replicaID in
      case answer of
        None \<Rightarrow> Inr (createReplicaMessageReply ReplicaErrorReplicationFailed originalHash [] replicaID)
      | Some reply \<Rightarrow>
         if mr_EnvelopeReply reply = [] then Inr (createReplicaMessageReply (mr_ErrorCode reply) originalHash [] replicaID)
         else or_reply (some_or (decrypt (mr_EnvelopeReply reply))) failed (\<lambda>decrypted.
           or_reply (ExtractMessageFromPaddedPayload decrypted) failed (\<lambda>replyBytes.
           or_reply (ParseReplicaMessageReplyInnerMessage replyBytes) failed (\<lambda>inner.
           or_reply (some_or (take_out inner)) failed (\<lambda>(code, newInner).
           or_reply (PadReplyInnerMessageForEncryption (rsizes E) newInner (Some (rgeo E))) failed (\<lambda>newBlob.
             Inr (createReplicaMessageReply code originalHash (encrypt newBlob) replicaID)))))))"

definition proxy_request ::
  "('pub, 'priv, 'np, 'ns, 'v) replica_env \<Rightarrow> 'ns surroundings \<Rightarrow> bytes \<Rightarrow> ReplicaInnerMessage
     \<Rightarrow> (ReplicaMessageReplyInnerMessage \<Rightarrow> (byte \<times> ReplicaMessageReplyInnerMessage) option)
     \<Rightarrow> 'np \<Rightarrow> bytes \<Rightarrow> (unit, message_reply) go" where
  "proxy_request E q boxID innerMessage take_out originalSender originalHash =
     (let failed = createReplicaMessageReply ReplicaErrorInternalError originalHash [] 0 in
      or_reply (some_or (later_document q)) failed (\<lambda>doc.
      or_reply (GetReplicaIDByIdentityKey doc (own_key E)) failed (\<lambda>replicaID.
      or_reply (GetShards (rpki E) boxID doc) failed (\<lambda>shards.
      or_reply (CryptoRandIndex (int (length shards)) (random q)) failed (\<lambda>(idx, _).
      let targetShard = shards ! idx; replicaEpoch = later_epoch q in
      or_reply (some_or (envelope_keys q replicaEpoch)) failed (\<lambda>keypair.
      or_reply (PadInnerMessageForEncryption (rsizes E) innerMessage (Some (rgeo E))) failed (\<lambda>blob.
      or_reply (some_or (map_of (case EnvelopeKeys targetShard of None \<Rightarrow> [] | Some m \<Rightarrow> m) replicaEpoch)) failed (\<lambda>keyBytes.
      or_reply (some_or (nike_Unmarshal E keyBytes)) failed (\<lambda>targetKey.
      let (mkemPrivateKey, ephemeral, dek, envelope) = mkem_Encapsulate E targetKey blob;
          idHash = blake2b_256 (rpki E) (raw_key (rd_IdentityKey targetShard)) in
      if length dek < 60 then Inl Panic
      else proxy_answer E (mkem_DecryptEnvelope E mkemPrivateKey targetKey) take_out
             (mkem_EnvelopeReply E keypair originalSender) originalHash replicaID
             (transport q idHash (nike_Bytes E ephemeral) (take 60 dek) envelope))))))))))"

definition proxyReadRequest ::
  "('pub, 'priv, 'np, 'ns, 'v) replica_env \<Rightarrow> 'ns surroundings \<Rightarrow> BoxRead \<Rightarrow> 'np \<Rightarrow> bytes \<Rightarrow> (unit, message_reply) go" where
  "proxyReadRequest E q r = proxy_request E q (rr_BoxID r) (read_inner r)
     (\<lambda>inner. map_option (\<lambda>rep. (rrr_ErrorCode rep, read_reply_inner rep)) (rmr_ReadReply inner))"

definition proxyWriteRequest ::
  "('pub, 'priv, 'np, 'ns, 'v) replica_env \<Rightarrow> 'ns surroundings \<Rightarrow> BoxWrite \<Rightarrow> 'np \<Rightarrow> bytes \<Rightarrow> (unit, message_reply) go" where
  "proxyWriteRequest E q w = proxy_request E q (rw_BoxID w) (write_inner w)
     (\<lambda>inner. map_option (\<lambda>rep. (rwr_ErrorCode rep, write_reply_inner rep)) (rmr_WriteReply inner))"

text \<open>
  The reply, the writes to replicate, and the store. The handlers of the two kinds of request; only the
  one for reads checks for an empty list of shards, which \<open>GetShards\<close> never returns.
\<close>

definition keeps_box :: "ReplicaDescriptor list \<Rightarrow> bytes \<Rightarrow> bool" where
  "keeps_box shards me \<longleftrightarrow> (\<exists>shard \<in> set shards. raw_key (rd_IdentityKey shard) = me)"

definition message_read ::
  "('pub, 'priv, 'np, 'ns, 'v) replica_env \<Rightarrow> 'd rocks \<Rightarrow> 'ns surroundings \<Rightarrow> Document \<Rightarrow> 'np \<Rightarrow> 'ns \<Rightarrow> bytes \<Rightarrow> byte
     \<Rightarrow> BoxRead \<Rightarrow> 'd store \<Rightarrow> (unit, message_reply) go" where
  "message_read E R q doc sender keypair envelopeHash replicaID myCmd st =
     (let failed = createReplicaMessageReply ReplicaErrorInternalError envelopeHash [] 0 in
      or_reply (GetShards (rpki E) (rr_BoxID myCmd) doc) failed (\<lambda>shards.
      if shards = [] then Inr failed else
      or_reply (some_or (own_key E)) failed (\<lambda>me.
      if keeps_box shards me
      then go_bind (handleReplicaRead R (later_epoch q) myCmd st) (\<lambda>readReply.
        or_reply (PadReplyInnerMessageForEncryption (rsizes E) (read_reply_inner readReply) (Some (rgeo E)))
          (createReplicaMessageReply ReplicaErrorInternalError envelopeHash [] replicaID) (\<lambda>blob.
          Inr (createReplicaMessageReply (rrr_ErrorCode readReply) envelopeHash (mkem_EnvelopeReply E keypair sender blob) replicaID)))
      else proxyReadRequest E q myCmd sender envelopeHash)))"

definition message_write ::
  "('pub, 'priv, 'np, 'ns, 'v) replica_env \<Rightarrow> 'd rocks \<Rightarrow> 'ns surroundings \<Rightarrow> Document \<Rightarrow> 'np \<Rightarrow> 'ns \<Rightarrow> bytes \<Rightarrow> byte
     \<Rightarrow> BoxWrite \<Rightarrow> 'd store \<Rightarrow> (unit, message_reply \<times> BoxWrite list \<times> 'd store) go" where
  "message_write E R q doc sender keypair envelopeHash replicaID myCmd st =
     (let failed = (createReplicaMessageReply ReplicaErrorInternalError envelopeHash [] 0, [], st) in
      or_reply (GetShards (rpki E) (rw_BoxID myCmd) doc) failed (\<lambda>shards.
      or_reply (some_or (own_key E)) failed (\<lambda>me.
      if keeps_box shards me
      then let (writeReply, st') = handleReplicaWrite E R (later_epoch q) myCmd st;
               replicate = (if rwr_ErrorCode writeReply = ReplicaSuccess then [myCmd] else []) in
        or_reply (PadReplyInnerMessageForEncryption (rsizes E) (write_reply_inner writeReply) (Some (rgeo E)))
          (createReplicaMessageReply ReplicaErrorInternalError envelopeHash [] replicaID, replicate, st') (\<lambda>blob.
          Inr (createReplicaMessageReply (rwr_ErrorCode writeReply) envelopeHash (mkem_EnvelopeReply E keypair sender blob) replicaID,
               replicate, st'))
      else go_bind (proxyWriteRequest E q myCmd sender envelopeHash) (\<lambda>reply. Inr (reply, [], st)))))"

definition handleReplicaMessage ::
  "('pub, 'priv, 'np, 'ns, 'v) replica_env \<Rightarrow> 'd rocks \<Rightarrow> 'ns surroundings \<Rightarrow> bytes \<Rightarrow> bytes option \<Rightarrow> bytes \<Rightarrow> 'd store
     \<Rightarrow> (unit, message_reply \<times> BoxWrite list \<times> 'd store) go" where
  "handleReplicaMessage E R q senderEPubKey dek ciphertext st =
     (let envelopeHash = ReplicaMessage_EnvelopeHash (blake2b_256 (rpki E)) senderEPubKey ciphertext;
          answer = (\<lambda>code. (createReplicaMessageReply code envelopeHash [] 0, [], st)) in
      or_reply (some_or (nike_Unmarshal E senderEPubKey)) (answer ReplicaErrorInternalError) (\<lambda>sender.
      go_bind (deref dek) (\<lambda>dek.
      or_reply (some_or (tryDecapsulateAcrossEpochWindow (envelope_keys q)
          (\<lambda>k. mkem_Decapsulate E k sender dek ciphertext) (now_epoch q))) (answer ReplicaErrorInvalidEpoch) (\<lambda>(requestRaw, keypair, _).
      or_reply (ExtractMessageFromPaddedPayload requestRaw) (answer ReplicaErrorInvalidPayload) (\<lambda>innerBytes.
      or_reply (ParseReplicaInnerMessage innerBytes) (answer ReplicaErrorInvalidPayload) (\<lambda>msg.
      or_reply (some_or (now_document q)) (answer ReplicaErrorInvalidEpoch) (\<lambda>doc.
      or_reply (GetReplicaIDByIdentityKey doc (own_key E)) (answer ReplicaErrorInternalError) (\<lambda>replicaID.
      case (rim_ReadMsg msg, rim_WriteMsg msg) of
        (Some myCmd, _) \<Rightarrow>
          go_bind (message_read E R q doc sender keypair envelopeHash replicaID myCmd st) (\<lambda>reply. Inr (reply, [], st))
      | (None, Some myCmd) \<Rightarrow> message_write E R q doc sender keypair envelopeHash replicaID myCmd st
      | (None, None) \<Rightarrow> Inr (answer ReplicaErrorInternalError)))))))))"

section \<open>Commands of a connection\<close>

text \<open>
  The reply to send, whether to go on, and a message whose handler is started in the background.
\<close>

definition onReplicaCommand ::
  "('pub, 'priv, 'np, 'ns, 'v) replica_env \<Rightarrow> 'd rocks \<Rightarrow> 'pk cmds \<Rightarrow> u64 \<Rightarrow> 'pk Command \<Rightarrow> 'd store
     \<Rightarrow> (unit, ('pk Command option \<times> bool) \<times> (bytes \<times> bytes option \<times> bytes) option \<times> 'd store) go" where
  "onReplicaCommand E R own_cmds cur rawCmd st =
     (case rawCmd of
        NoOp _ \<Rightarrow> Inr ((None, True), None, st)
      | Disconnect _ \<Rightarrow> Inr ((None, False), None, st)
      | ReplicaDecoy _ \<Rightarrow> Inr ((Some (ReplicaDecoy own_cmds), True), None, st)
      | ReplicaWrite cs _ boxID signature payload \<Rightarrow>
          go_bind (WireCommandToTrunnelReplicaWrite boxID signature payload) (\<lambda>w.
            let (resp, st') = handleReplicaWrite E R cur w st
            in Inr ((TrunnelReplicaWriteReplyToWireCommand cs (Some resp), True), None, st'))
      | ReplicaMessage _ _ _ senderEPubKey dek ciphertext \<Rightarrow> Inr ((None, True), Some (senderEPubKey, dek, ciphertext), st)
      | _ \<Rightarrow> Inr ((None, False), None, st))"

end
