(* ===== verification/ReplicaConnector.thy ===== *)
theory ReplicaConnector
  imports ReplicaStore WireEncode
begin

text \<open>
  How a storage replica sends to the others (replica/connector.go): a command for a replica without a
  connection waits in the retry queue, one per destination and identity, for a limited time and up to
  a limit per destination. A write is identified by its box ID and a message by its envelope hash. What
  is handed to a connection is recorded in \<open>sent\<close>; times are nanoseconds.
\<close>

record 'pk retryCommand =
  rc_cmd :: "'pk Command"
  rc_idHash :: bytes
  rc_ident :: "bytes option"
  rc_attempts :: nat
  rc_firstSeen :: int
  rc_lastTry :: int

record 'pk connector =
  conns :: "bytes set"
  retryQueue :: "'pk retryCommand list"
  sent :: "(bytes \<times> 'pk Command) list"

definition maxRetryQueuePerPeer :: nat where "maxRetryQueuePerPeer = 2000"

definition retryTTL :: "int \<Rightarrow> int" where "retryTTL Period = duration_times 3 Period"

text \<open>A write without a box ID panics, as does hashing nothing else; other commands have no identity.\<close>

definition cmdIdentity :: "(bytes \<Rightarrow> bytes) \<Rightarrow> 'pk Command \<Rightarrow> (unit, bytes option) go" where
  "cmdIdentity blake cmd =
     (case cmd of
        ReplicaWrite _ _ boxID _ _ \<Rightarrow> go_bind (deref boxID) (\<lambda>b. Inr (Some b))
      | ReplicaMessage _ _ _ senderEPubKey _ ciphertext \<Rightarrow> Inr (Some (ReplicaMessage_EnvelopeHash blake senderEPubKey ciphertext))
      | _ \<Rightarrow> Inr None)"

definition pruneRetryQueue :: "int \<Rightarrow> int \<Rightarrow> 'pk retryCommand list \<Rightarrow> 'pk retryCommand list" where
  "pruneRetryQueue ttl now q = filter (\<lambda>rc. \<not> now - rc_firstSeen rc > ttl) q"

text \<open>The entry of the same destination and identity takes over the new command.\<close>

fun renew_entry ::
  "'pk Command \<Rightarrow> bytes \<Rightarrow> bytes option \<Rightarrow> int \<Rightarrow> 'pk retryCommand list \<Rightarrow> 'pk retryCommand list option" where
  "renew_entry cmd idHash ident now [] = None"
| "renew_entry cmd idHash ident now (rc # q) =
     (if rc_idHash rc = idHash \<and> ident \<noteq> None \<and> rc_ident rc = ident
      then Some (rc\<lparr>rc_cmd := cmd, rc_lastTry := now, rc_attempts := Suc (rc_attempts rc)\<rparr> # q)
      else map_option (Cons rc) (renew_entry cmd idHash ident now q))"

fun evict_oldest :: "bytes \<Rightarrow> 'pk retryCommand list \<Rightarrow> 'pk retryCommand list" where
  "evict_oldest idHash [] = []"
| "evict_oldest idHash (rc # q) = (if rc_idHash rc = idHash then q else rc # evict_oldest idHash q)"

definition QueueForRetry ::
  "(bytes \<Rightarrow> bytes) \<Rightarrow> int \<Rightarrow> int \<Rightarrow> 'pk Command \<Rightarrow> bytes \<Rightarrow> 'pk connector \<Rightarrow> (unit, 'pk connector) go" where
  "QueueForRetry blake ttl now cmd idHash co =
     (let q = pruneRetryQueue ttl now (retryQueue co) in
      go_bind (cmdIdentity blake cmd) (\<lambda>ident.
        case renew_entry cmd idHash ident now q of
          Some q' \<Rightarrow> Inr (co\<lparr>retryQueue := q'\<rparr>)
        | None \<Rightarrow>
           let peerCount = length (filter (\<lambda>rc. rc_idHash rc = idHash) q);
               q = (if maxRetryQueuePerPeer \<le> peerCount then evict_oldest idHash q else q)
           in Inr (co\<lparr>retryQueue := q @ [\<lparr>rc_cmd = cmd, rc_idHash = idHash, rc_ident = ident, rc_attempts = 1,
                  rc_firstSeen = now, rc_lastTry = now\<rparr>]\<rparr>)))"

text \<open>A nil command is dropped.\<close>

definition DispatchCommand ::
  "(bytes \<Rightarrow> bytes) \<Rightarrow> int \<Rightarrow> int \<Rightarrow> 'pk Command option \<Rightarrow> bytes \<Rightarrow> 'pk connector \<Rightarrow> (unit, 'pk connector) go" where
  "DispatchCommand blake ttl now cmdp idHash co =
     (case cmdp of None \<Rightarrow> Inr co
      | Some cmd \<Rightarrow>
         if idHash \<in> conns co then Inr (co\<lparr>sent := sent co @ [(idHash, cmd)]\<rparr>)
         else QueueForRetry blake ttl now cmd idHash co)"

text \<open>The last entries first.\<close>

definition processRetryQueue :: "int \<Rightarrow> int \<Rightarrow> 'pk connector \<Rightarrow> 'pk connector" where
  "processRetryQueue ttl now co =
     (let q = pruneRetryQueue ttl now (retryQueue co) in
      co\<lparr>retryQueue := filter (\<lambda>rc. rc_idHash rc \<notin> conns co) q,
         sent := sent co @ map (\<lambda>rc. (rc_idHash rc, rc_cmd rc)) (rev (filter (\<lambda>rc. rc_idHash rc \<in> conns co) q))\<rparr>)"

definition onNewConn :: "(bytes \<Rightarrow> bytes) \<Rightarrow> ReplicaDescriptor \<Rightarrow> 'pk connector \<Rightarrow> 'pk connector" where
  "onNewConn sum256 dst co = co\<lparr>conns := insert (sum256 (raw_key (rd_IdentityKey dst))) (conns co)\<rparr>"

definition OnClosedConn :: "(bytes \<Rightarrow> bytes) \<Rightarrow> ReplicaDescriptor \<Rightarrow> 'pk connector \<Rightarrow> 'pk connector" where
  "OnClosedConn sum256 dst co = co\<lparr>conns := conns co - {sum256 (raw_key (rd_IdentityKey dst))}\<rparr>"

fun dispatch_all ::
  "(bytes \<Rightarrow> bytes) \<Rightarrow> int \<Rightarrow> int \<Rightarrow> 'pk dispatched \<Rightarrow> 'pk connector \<Rightarrow> (unit, 'pk connector) go" where
  "dispatch_all blake ttl now [] co = Inr co"
| "dispatch_all blake ttl now ((cmd, idHash) # ds) co =
     go_bind (DispatchCommand blake ttl now (Some cmd) idHash co) (dispatch_all blake ttl now ds)"

text \<open>
  Replication of a write to the other replicas that keep the box; without a document, an own key or the
  replicas it is skipped. A write without a box ID panics.
\<close>

definition doReplication ::
  "('pub, 'priv) pki_env \<Rightarrow> int \<Rightarrow> int \<Rightarrow> bytes option \<Rightarrow> Document option \<Rightarrow> bytes option \<Rightarrow> 'pk Command
     \<Rightarrow> 'pk connector \<Rightarrow> (unit, 'pk connector) go" where
  "doReplication p ttl now own docp boxIDp cmd co =
     (case (docp, own) of
        (Some doc, Some myIdBytes) \<Rightarrow>
          go_bind (deref boxIDp) (\<lambda>boxID. case GetShards p boxID doc of
            Inl Panic \<Rightarrow> Inl Panic
          | Inl (Err _) \<Rightarrow> Inr co
          | Inr allShards \<Rightarrow>
             let hashes = map (\<lambda>desc. blake2b_256 p (raw_key (rd_IdentityKey desc))) allShards
             in dispatch_all (blake2b_256 p) ttl now
                  (map (Pair cmd) (filter (\<lambda>h. h \<noteq> blake2b_256 p myIdBytes) hashes)) co)
      | _ \<Rightarrow> Inr co)"

section \<open>Replies to replication\<close>

datatype replicationReplyAction = replicationReplyOK | replicationReplyRetry | replicationReplyDrop

definition classifyReplicationReply :: "byte \<Rightarrow> replicationReplyAction" where
  "classifyReplicationReply code =
     (if code = ReplicaSuccess \<or> code = ReplicaErrorBoxAlreadyExists then replicationReplyOK
      else if code = ReplicaErrorDatabaseFailure \<or> code = ReplicaErrorInternalError then replicationReplyRetry
      else replicationReplyDrop)"

text \<open>What a reply does to the write it answers: an error that may pass puts it back into the queue.\<close>

definition onWriteReply ::
  "(bytes \<Rightarrow> bytes) \<Rightarrow> int \<Rightarrow> int \<Rightarrow> bytes \<Rightarrow> 'pk Command \<Rightarrow> byte \<Rightarrow> 'pk connector \<Rightarrow> (unit, 'pk connector) go" where
  "onWriteReply blake ttl now idHash cmd code co =
     (case (classifyReplicationReply code, cmd) of
        (replicationReplyRetry, ReplicaWrite cs g b sg pl) \<Rightarrow> QueueForRetry blake ttl now (ReplicaWrite cs g b sg pl) idHash co
      | _ \<Rightarrow> Inr co)"

end
