(* ===== verification/PigeonholeHelperProps.thy ===== *)
theory PigeonholeHelperProps
  imports PigeonholeHelpers PKIProps
begin

text \<open>
  What the helpers of Pigeonhole promise: every message of a kind is padded to one length and comes back
  from it, a random index is exactly uniform, and the relays of a request are two different replicas,
  which do not keep the box if there are others.
\<close>

section \<open>Padding\<close>

lemma padded_payload:
  assumes "int (length msg) \<le> n - 4" "length msg < 2 ^ 32"
  shows "\<exists>p. CreatePaddedPayload msg n = Inr p \<and> length p = nat n \<and> ExtractMessageFromPaddedPayload p = Inr msg"
proof -
  let ?p = "put32 (word_of_nat (length msg)) @ msg @ replicate (nat n - 4 - length msg) 0"
  have l: "unat (word_of_nat (length msg) :: u32) = length msg"
    using assms(2) by (simp add: unat_of_nat)
  have "CreatePaddedPayload msg n = Inr ?p" using assms(1) by (simp add: CreatePaddedPayload_def)
  moreover have "length ?p = nat n" using assms(1) by simp
  moreover have "ExtractMessageFromPaddedPayload ?p = Inr msg"
    using l by (simp add: ExtractMessageFromPaddedPayload_def be32.drop_put)
  ultimately show ?thesis by blast
qed

text \<open>The sizes of the trunnel records, and payloads far below the limit of the parser.\<close>

definition trunnel_sizes :: "hpqc \<Rightarrow> PGeometry \<Rightarrow> bool" where
  "trunnel_sizes x g \<longleftrightarrow> BoxIDSize x = 32 \<and> SignatureSize x = 64
     \<and> 0 \<le> MaxPlaintextPayloadLength g \<and> MaxPlaintextPayloadLength g \<le> 2 ^ 23"

definition inner_payload :: "ReplicaInnerMessage \<Rightarrow> nat" where
  "inner_payload m = (case rim_WriteMsg m of None \<Rightarrow> 0 | Some w \<Rightarrow> length (rw_Payload w))"

definition reply_payload :: "ReplicaMessageReplyInnerMessage \<Rightarrow> nat" where
  "reply_payload m = (case rmr_ReadReply m of None \<Rightarrow> 0 | Some r \<Rightarrow> length (rrr_Payload r))"

lemma Inner_Bytes_fits: "ReplicaInnerMessage_fits m \<Longrightarrow> Inner_Bytes m = ReplicaInnerMessage_encodeBinary m"
  by (auto simp: Inner_Bytes_def ReplicaInnerMessage_MarshalBinary_def marshal_with_def ReplicaInnerMessage_validate_def
      ReplicaInnerMessage_fits_def tagged_def opt_validate_def or_nothing_def)

lemma ReplyInner_Bytes_fits:
  "ReplicaMessageReplyInnerMessage_fits m \<Longrightarrow> ReplyInner_Bytes m = ReplicaMessageReplyInnerMessage_encodeBinary m"
  by (auto simp: ReplyInner_Bytes_def ReplicaMessageReplyInnerMessage_MarshalBinary_def marshal_with_def
      ReplicaMessageReplyInnerMessage_validate_def ReplicaMessageReplyInnerMessage_fits_def tagged_def opt_validate_def or_nothing_def)

lemma length_inner:
  "ReplicaInnerMessage_fits m \<Longrightarrow> length (ReplicaInnerMessage_encodeBinary m) \<le> 101 + inner_payload m"
  by (auto simp: ReplicaInnerMessage_fits_def tagged_def ReplicaInnerMessage_encodeBinary_def opt_encode_def inner_payload_def
      ReplicaRead_encodeBinary_def ReplicaRead_validate_def ReplicaWrite_encodeBinary_def ReplicaWrite_validate_def split: if_splits)

lemma length_reply_inner:
  "ReplicaMessageReplyInnerMessage_fits m \<Longrightarrow> length (ReplicaMessageReplyInnerMessage_encodeBinary m) \<le> 102 + reply_payload m"
  by (auto simp: ReplicaMessageReplyInnerMessage_fits_def tagged_def ReplicaMessageReplyInnerMessage_encodeBinary_def opt_encode_def
      reply_payload_def ReplicaReadReply_encodeBinary_def ReplicaReadReply_validate_def ReplicaWriteReply_encodeBinary_def split: if_splits)

lemma parse_inner:
  "ReplicaInnerMessage_fits m \<Longrightarrow> length (ReplicaInnerMessage_encodeBinary m) \<le> MaxParseSize
    \<Longrightarrow> ParseReplicaInnerMessage (ReplicaInnerMessage_encodeBinary m) = Inr m"
  unfolding ParseReplicaInnerMessage_def inner.parse_all_iff by auto

lemma parse_reply_inner:
  "ReplicaMessageReplyInnerMessage_fits m \<Longrightarrow> length (ReplicaMessageReplyInnerMessage_encodeBinary m) \<le> MaxParseSize
    \<Longrightarrow> ParseReplicaMessageReplyInnerMessage (ReplicaMessageReplyInnerMessage_encodeBinary m) = Inr m"
  unfolding ParseReplicaMessageReplyInnerMessage_def inner_reply.parse_all_iff by auto

lemma padded_inner:
  assumes "trunnel_sizes x g" "ReplicaInnerMessage_fits m" "int (inner_payload m) \<le> CalculateBoxCiphertextLength g"
  shows "\<exists>p. PadInnerMessageForEncryption x m (Some g) = Inr p \<and> length p = nat (ReplicaInnerMessagePaddedSize x g)
    \<and> (\<exists>q. ExtractMessageFromPaddedPayload p = Inr q \<and> ParseReplicaInnerMessage q = Inr m)"
proof -
  let ?e = "ReplicaInnerMessage_encodeBinary m"
  note l = length_inner [OF assms(2)]
  have "int (length ?e) \<le> ReplicaInnerMessagePaddedSize x g - 4" "length ?e \<le> MaxParseSize"
    using l assms(1,3) by (simp_all add: trunnel_sizes_def pigeonhole_layers pigeonhole_sizes MaxParseSize_def)
  moreover from this(2) have "length ?e < 2 ^ 32" by (simp add: MaxParseSize_def)
  ultimately show ?thesis
    using padded_payload [of ?e] parse_inner [OF assms(2)] Inner_Bytes_fits [OF assms(2)]
    by (fastforce simp: PadInnerMessageForEncryption_def)
qed

lemma padded_reply:
  assumes "trunnel_sizes x g" "ReplicaMessageReplyInnerMessage_fits m" "int (reply_payload m) \<le> CalculateBoxCiphertextLength g"
  shows "\<exists>p. PadReplyInnerMessageForEncryption x m (Some g) = Inr p \<and> length p = nat (ReplicaReplyInnerMessagePaddedSize x g)
    \<and> (\<exists>q. ExtractMessageFromPaddedPayload p = Inr q \<and> ParseReplicaMessageReplyInnerMessage q = Inr m)"
proof -
  let ?e = "ReplicaMessageReplyInnerMessage_encodeBinary m"
  note l = length_reply_inner [OF assms(2)]
  have "int (length ?e) \<le> ReplicaReplyInnerMessagePaddedSize x g - 4" "length ?e \<le> MaxParseSize"
    using l assms(1,3) by (simp_all add: trunnel_sizes_def pigeonhole_layers pigeonhole_sizes MaxParseSize_def)
  moreover from this(2) have "length ?e < 2 ^ 32" by (simp add: MaxParseSize_def)
  ultimately show ?thesis
    using padded_payload [of ?e] parse_reply_inner [OF assms(2)] ReplyInner_Bytes_fits [OF assms(2)]
    by (fastforce simp: PadReplyInnerMessageForEncryption_def)
qed

text \<open>
  C38. What goes into the encryption tells nothing by its length, and arrives: reads, writes and
  tombstones are all padded to the one size of the geometry, and so are the replies to them, and what
  the receiver takes out of the padding and parses is the message that was sent.
\<close>

theorem padded_messages_uniform:
  assumes "trunnel_sizes x g"
    and "ReplicaInnerMessage_fits m" "int (inner_payload m) \<le> CalculateBoxCiphertextLength g"
    and "ReplicaMessageReplyInnerMessage_fits r" "int (reply_payload r) \<le> CalculateBoxCiphertextLength g"
  shows "(\<exists>p. PadInnerMessageForEncryption x m (Some g) = Inr p \<and> length p = nat (ReplicaInnerMessagePaddedSize x g)
      \<and> (\<exists>q. ExtractMessageFromPaddedPayload p = Inr q \<and> ParseReplicaInnerMessage q = Inr m))
    \<and> (\<exists>p. PadReplyInnerMessageForEncryption x r (Some g) = Inr p \<and> length p = nat (ReplicaReplyInnerMessagePaddedSize x g)
      \<and> (\<exists>q. ExtractMessageFromPaddedPayload p = Inr q \<and> ParseReplicaMessageReplyInnerMessage q = Inr r))"
  using padded_inner [OF assms(1-3)] padded_reply [OF assms(1,4,5)] by (rule conjI)

definition small_geometry :: PGeometry where
  "small_geometry = \<lparr>MaxPlaintextPayloadLength = 3, CourierQueryReadLength = 0, CourierQueryWriteLength = 0,
     CourierQueryReplyReadLength = 0, CourierQueryReplyWriteLength = 0, PNIKEName = ''x25519'', SignatureSchemeName = ''Ed25519''\<rparr>"

theorem padded_messages_uniform_witness:
  "\<exists>p. PadInnerMessageForEncryption hpqc_sizes \<lparr>rim_MessageType = 0, rim_ReadMsg = Some \<lparr>rr_BoxID = replicate 32 7\<rparr>, rim_WriteMsg = None\<rparr>
      (Some small_geometry) = Inr p \<and> length p = 128"
  using padded_messages_uniform [of hpqc_sizes small_geometry
      "\<lparr>rim_MessageType = 0, rim_ReadMsg = Some \<lparr>rr_BoxID = replicate 32 7\<rparr>, rim_WriteMsg = None\<rparr>"
      "\<lparr>rmr_MessageType = 1, rmr_ReadReply = None, rmr_WriteReply = Some \<lparr>rwr_ErrorCode = 0\<rparr>\<rparr>"]
  by (auto simp: trunnel_sizes_def hpqc_sizes_def small_geometry_def ReplicaInnerMessage_fits_def tagged_def ReplicaRead_validate_def
      inner_payload_def reply_payload_def ReplicaMessageReplyInnerMessage_fits_def ReplicaWriteReply_validate_def pigeonhole_layers pigeonhole_sizes)

section \<open>Random choice\<close>

lemma sampling_limit:
  fixes v :: u64
  assumes "0 < n" "n < 2 ^ 63"
  shows "((0 - word_of_int (int n)) mod word_of_int (int n) = (0 :: u64)
      \<or> v < 0 - (0 - word_of_int (int n)) mod word_of_int (int n)) \<longleftrightarrow> unat v < 2 ^ 64 div n * n"
proof -
  let ?un = "word_of_int (int n) :: u64" and ?r = "(0 - word_of_int (int n)) mod word_of_int (int n) :: u64"
  have un: "unat ?un = n" using assms(2) by (simp add: unat_of_nat)
  have neg: "unat (0 - w) = 2 ^ 64 - unat w" if "w \<noteq> 0" for w :: u64
  proof -
    have w: "unat w < 2 ^ 64" "0 < unat w" using unsigned_less [of w] that by (simp_all add: unat_gt_0)
    have "word_of_nat (2 ^ 64 - unat w) = 0 - w" using w(1) by (simp add: of_nat_diff)
    then have "unat (0 - w) = unat (word_of_nat (2 ^ 64 - unat w) :: u64)" by simp
    then show ?thesis using w by (simp add: unat_of_nat)
  qed
  have nz: "?un \<noteq> 0" using un assms(1) by (metis less_numeral_extra(3) unat_0)
  have r: "unat ?r = 2 ^ 64 mod n"
  proof -
    have "unat ?r = (2 ^ 64 - n) mod n" using neg [OF nz] un by (simp add: unat_mod_distrib)
    also have "\<dots> = 2 ^ 64 mod n" using assms by (simp add: le_mod_geq)
    finally show ?thesis .
  qed
  have lim: "2 ^ 64 div n * n = (2 ^ 64 :: nat) - 2 ^ 64 mod n" by (metis minus_mod_eq_div_mult)
  have v: "unat v < 2 ^ LENGTH(64)" by (rule unsigned_less)
  show ?thesis
  proof (cases "?r = 0")
    case True
    then have "(2 ^ 64 :: nat) mod n = 0" using r by simp
    then show ?thesis using True lim v by simp
  next
    case False
    show ?thesis using False neg [OF False] r lim by (simp add: word_less_nat_alt)
  qed
qed

lemma draw_index_exact:
  "draw_index un r (v # rand) = Inr (i, rand) \<longleftrightarrow> (r = 0 \<or> v < 0 - r) \<and> unat (v mod un) = i"
  using draw_index_shorter [of un r rand i rand] by auto

lemma accepted_index:
  assumes "0 < n" "n < 2 ^ 63"
  shows "CryptoRandIndex (int n) (v # rand) = Inr (i, rand) \<longleftrightarrow> unat v < 2 ^ 64 div n * n \<and> unat v mod n = i"
proof -
  have un: "unat (word_of_int (int n) :: u64) = n" using assms(2) by (simp add: unat_of_nat)
  show ?thesis
    using assms(1) sampling_limit [OF assms, of v] un
    by (simp add: CryptoRandIndex_def Let_def draw_index_exact unat_mod_distrib del: draw_index.simps)
qed

text \<open>Multiples of \<open>n\<close> below \<open>q * n\<close>, moved by \<open>i\<close>.\<close>

lemma card_residue:
  assumes "i < n" "q * n \<le> 2 ^ 64"
  shows "card {v :: u64. unat v < q * n \<and> unat v mod n = i} = q"
proof -
  have lt: "k * n + i < q * n" if "k < q" for k
  proof -
    have "k * n + i < Suc k * n" using assms(1) by simp
    also have "\<dots> \<le> q * n" using that by (intro mult_le_mono1) simp
    finally show ?thesis .
  qed
  have u: "unat (word_of_nat (k * n + i) :: u64) = k * n + i" if "k < q" for k
    using lt [OF that] assms(2) by (simp add: unat_of_nat del: of_nat_add of_nat_mult)
  have "{v :: u64. unat v < q * n \<and> unat v mod n = i} = (\<lambda>k. word_of_nat (k * n + i)) ` {..<q}"
  proof (intro equalityI subsetI)
    fix v :: u64
    assume "v \<in> {v. unat v < q * n \<and> unat v mod n = i}"
    then have v: "unat v < q * n" "unat v mod n = i" by simp_all
    have "unat v div n * n + i = unat v" using v(2) div_mult_mod_eq [of "unat v" n] by simp
    then have "v = word_of_nat (unat v div n * n + i)" by (simp del: of_nat_add of_nat_mult)
    moreover have "unat v div n < q" using v(1) by (simp add: less_mult_imp_div_less)
    ultimately show "v \<in> (\<lambda>k. word_of_nat (k * n + i)) ` {..<q}" by blast
  next
    fix v :: u64
    assume "v \<in> (\<lambda>k. word_of_nat (k * n + i)) ` {..<q}"
    then show "v \<in> {v. unat v < q * n \<and> unat v mod n = i}" using u lt assms(1) by auto
  qed
  moreover have "inj_on (\<lambda>k. word_of_nat (k * n + i) :: u64) {..<q}"
    by (rule inj_onI) (use u assms(1) in \<open>metis add_right_cancel lessThan_iff mult_cancel2 not_less0\<close>)
  ultimately show ?thesis by (simp add: card_image)
qed

lemma draw_index_bound: "un \<noteq> 0 \<Longrightarrow> draw_index un r rand = Inr (i, rest) \<Longrightarrow> i < unat un"
  by (induction un r rand rule: draw_index.induct) (auto simp: unat_mod_distrib unat_gt_0 split: if_splits)

lemma CryptoRandIndex_bound:
  "0 < n \<Longrightarrow> n < 2 ^ 63 \<Longrightarrow> CryptoRandIndex (int n) rand = Inr (i, rest) \<Longrightarrow> i < n"
  using draw_index_bound [of "word_of_int (int n)" _ rand i rest]
  by (auto simp: CryptoRandIndex_def Let_def unat_of_nat unat_eq_zero [symmetric])

text \<open>
  \<open>CryptoRandIndex\<close> is exactly uniform: of the numbers its source may give next, equally many, as many
  as fit, give each index below \<open>n\<close>; the others, fewer than \<open>n\<close>, are drawn again; and no index
  outside is ever given.
\<close>

theorem CryptoRandIndex_uniform:
  assumes "0 < n" "n < 2 ^ 63"
  shows "(\<forall>i < n. card {v. CryptoRandIndex (int n) (v # rand) = Inr (i, rand)} = 2 ^ 64 div n)
    \<and> (\<forall>v. 2 ^ 64 div n * n \<le> unat v \<longrightarrow> CryptoRandIndex (int n) (v # rand) = CryptoRandIndex (int n) rand)
    \<and> (CryptoRandIndex (int n) rand = Inr (i, rest) \<longrightarrow> i < n)"
proof (intro conjI allI impI)
  fix j assume "j < n"
  then show "card {v. CryptoRandIndex (int n) (v # rand) = Inr (j, rand)} = 2 ^ 64 div n"
    using card_residue [of j n "2 ^ 64 div n"] by (simp add: accepted_index [OF assms])
next
  fix v :: u64 assume "2 ^ 64 div n * n \<le> unat v"
  then show "CryptoRandIndex (int n) (v # rand) = CryptoRandIndex (int n) rand"
    using sampling_limit [OF assms, of v] assms by (simp add: CryptoRandIndex_def Let_def)
next
  assume "CryptoRandIndex (int n) rand = Inr (i, rest)"
  then show "i < n" by (rule CryptoRandIndex_bound [OF assms])
qed

theorem CryptoRandIndex_uniform_witness:
  "card {v. CryptoRandIndex 3 [v] = Inr (2, [])} = 6148914691236517205"
  using CryptoRandIndex_uniform [of 3 "[]"] by simp

section \<open>The relays\<close>

lemma pick_sound:
  "pickRandomReplicaID ids excl rand = Inr (r, rest) \<Longrightarrow> length ids < 2 ^ 63 \<Longrightarrow> r \<in> set ids \<and> r \<notin> set excl"
proof (induction ids excl rand rule: pickRandomReplicaID.induct)
  case (1 ids excl rand)
  show ?case
  proof (cases "CryptoRandIndex (int (length ids)) rand")
    case (Inr ir)
    obtain i rest' where ir: "ir = (i, rest')" by (cases ir)
    have "ids \<noteq> []" using Inr by (auto simp: CryptoRandIndex_def)
    then have i: "ids ! i \<in> set ids" using CryptoRandIndex_bound [of "length ids" rand i rest'] Inr ir 1(3) by simp
    show ?thesis
    proof (cases "ids ! i \<in> set excl")
      case True
      have "pickRandomReplicaID ids excl rest' = Inr (r, rest)"
        using 1(2) Inr ir True by (simp add: pickRandomReplicaID.simps [of ids excl rand])
      then show ?thesis using "1.IH" [OF Inr ir [symmetric] refl True] 1(3) by blast
    qed (use 1(2) Inr ir i in \<open>auto simp: pickRandomReplicaID.simps [of ids excl rand]\<close>)
  qed (use 1(2) in \<open>simp add: pickRandomReplicaID.simps [of ids excl rand]\<close>)
qed

text \<open>A replica that is not excluded can always be drawn next.\<close>

lemma pick_possible:
  assumes "r \<in> set ids" "r \<notin> set excl" "length ids < 2 ^ 63"
  shows "\<exists>v. \<forall>rest. pickRandomReplicaID ids excl (v # rest) = Inr (r, rest)"
proof -
  obtain i where i: "i < length ids" "ids ! i = r" using assms(1) by (auto simp: in_set_conv_nth)
  let ?n = "length ids"
  have "0 < ?n" using i(1) by (rule le_less_trans [OF le0])
  then have "1 * ?n \<le> 2 ^ 64 div ?n * ?n" using assms(3) by (intro mult_le_mono1) (simp add: div_greater_zero_iff Suc_le_eq)
  then have "i < 2 ^ 64 div ?n * ?n" using i(1) by linarith
  moreover have "unat (word_of_nat i :: u64) = i" using i(1) assms(3) by (simp add: unat_of_nat)
  ultimately have "CryptoRandIndex (int ?n) (word_of_nat i # rest) = Inr (i, rest)" for rest
    using accepted_index [of ?n "word_of_nat i" rest i] \<open>0 < ?n\<close> i(1) assms(3) by simp
  then have "\<forall>rest. pickRandomReplicaID ids excl (word_of_nat i # rest) = Inr (r, rest)"
    using i(2) assms(2) by (simp add: pickRandomReplicaID.simps)
  then show ?thesis by blast
qed

definition relays_fit :: "byte list \<Rightarrow> byte list \<Rightarrow> byte \<times> byte \<Rightarrow> bool" where
  "relays_fit ids sids rs \<longleftrightarrow> {fst rs, snd rs} \<subseteq> set ids \<and> fst rs \<noteq> snd rs
     \<and> (4 \<le> length ids \<longrightarrow> {fst rs, snd rs} \<inter> set sids = {})"

lemma byte_count: "n < 256 \<Longrightarrow> (word_of_nat n :: byte) < word_of_nat m \<longleftrightarrow> n < m" if "m < 256"
  using that by (simp add: word_less_nat_alt unat_of_nat)

lemma choose_sound:
  assumes "choose_intermediates ids sids rand = Inr (r1, r2)" "distinct ids" "length ids < 256" "set sids \<subseteq> set ids"
  shows "relays_fit ids sids (r1, r2)"
proof -
  let ?n = "word_of_nat (length ids) :: byte"
  have l: "length ids < 2 ^ 63" using assms(3) by simp
  have n: "?n < 2 \<longleftrightarrow> length ids < 2" "?n = 2 \<longleftrightarrow> length ids = 2" "?n = 3 \<longleftrightarrow> length ids = 3"
    using assms(3) by (simp_all add: word_less_nat_alt unat_of_nat word_unat_eq_iff)
  have "\<not> ?n < 2" using assms(1) by (auto simp: choose_intermediates_def Let_def)
  then consider "length ids = 2" | "length ids = 3" | "4 \<le> length ids" using n(1) by linarith
  then show ?thesis
  proof cases
    case 1
    then have "r1 = ids ! 0" "r2 = ids ! 1" using assms(1) n by (simp_all add: choose_intermediates_def Let_def)
    moreover have "ids ! 0 \<noteq> ids ! 1" using assms(2) 1 by (simp add: nth_eq_iff_index_eq)
    ultimately show ?thesis using 1 by (simp add: relays_fit_def)
  next
    case 2
    then show ?thesis using assms(1,4) n
      by (auto simp: choose_intermediates_def Let_def relays_fit_def go_bind_Inr_iff dest!: pick_sound [OF _ l] split: list.splits)
  next
    case 3
    then have "\<not> ?n < 2" "?n \<noteq> 2" "?n \<noteq> 3" using n by simp_all
    then show ?thesis using assms(1)
      by (auto simp: choose_intermediates_def Let_def relays_fit_def go_bind_Inr_iff dest!: pick_sound [OF _ l])
  qed
qed

text \<open>
  A choice that has drawn the numbers \<open>us\<close>: it has made its choice and left the rest of them, or it goes on as
  from the start.
\<close>

lemma draw_resumes:
  "(\<exists>i rest. length rest < length us \<and> (\<forall>more. draw_index un r (us @ more) = Inr (i, rest @ more)))
     \<or> (\<forall>more. draw_index un r (us @ more) = draw_index un r more)"
proof (induction us)
  case (Cons v us)
  show ?case
  proof (cases "r = 0 \<or> v < 0 - r")
    case True
    then have "\<forall>more. draw_index un r ((v # us) @ more) = Inr (unat (v mod un), us @ more)" by auto
    then show ?thesis by (metis length_Cons lessI)
  next
    case False
    then show ?thesis using Cons.IH by (auto intro: less_SucI)
  qed
qed simp

lemma pick_resumes:
  assumes "0 < length ids"
  shows "(\<exists>r rest. \<forall>more. pickRandomReplicaID ids excl (us @ more) = Inr (r, rest @ more))
     \<or> (\<forall>more. pickRandomReplicaID ids excl (us @ more) = pickRandomReplicaID ids excl more)"
proof (induction us rule: length_induct)
  case (1 us)
  let ?draw = "\<lambda>rand. CryptoRandIndex (int (length ids)) rand"
  from assms draw_resumes [of us] consider (drawn) i rest where "length rest < length us" "\<And>more. ?draw (us @ more) = Inr (i, rest @ more)"
    | (on) "\<And>more. ?draw (us @ more) = ?draw more"
    unfolding CryptoRandIndex_def Let_def by (metis (no_types, lifting) int_nat_eq not_less of_nat_0_le_iff of_nat_le_0_iff)
  then show ?case
  proof cases
    case drawn
    show ?thesis
    proof (cases "ids ! i \<in> set excl")
      case True
      then have "pickRandomReplicaID ids excl (us @ more) = pickRandomReplicaID ids excl (rest @ more)" for more
        by (subst pickRandomReplicaID.simps) (simp add: drawn(2))
      then show ?thesis using 1 drawn(1) by auto
    next
      case False
      then have "pickRandomReplicaID ids excl (us @ more) = Inr (ids ! i, rest @ more)" for more
        by (subst pickRandomReplicaID.simps) (simp add: drawn(2))
      then show ?thesis by blast
    qed
  next
    case on
    then have "pickRandomReplicaID ids excl (us @ more) = pickRandomReplicaID ids excl more" for more
      by (subst (1 2) pickRandomReplicaID.simps) simp
    then show ?thesis by blast
  qed
qed

text \<open>Wherever the choice is, one more number can end it.\<close>

lemma pick_ends:
  assumes "distinct ids" "length excl < length ids" "length ids < 2 ^ 63"
  shows "\<exists>vs r rest. length vs \<le> 1 \<and> (\<forall>more. pickRandomReplicaID ids excl (us @ vs @ more) = Inr (r, rest @ more))"
proof -
  have "card (set excl) < card (set ids)" using assms(1,2) distinct_card card_length by (metis le_less_trans)
  then obtain r where r: "r \<in> set ids" "r \<notin> set excl" by (metis card_mono List.finite_set linorder_not_less subsetI)
  obtain v where v: "\<forall>rest. pickRandomReplicaID ids excl (v # rest) = Inr (r, rest)"
    using pick_possible [OF r assms(3)] by blast
  have pos: "0 < length ids" using assms(2) by linarith
  from pick_resumes [OF pos, of excl us] show ?thesis
  proof
    assume "\<exists>r rest. \<forall>more. pickRandomReplicaID ids excl (us @ more) = Inr (r, rest @ more)"
    then show ?thesis by (metis append_Nil le0 list.size(3))
  next
    assume "\<forall>more. pickRandomReplicaID ids excl (us @ more) = pickRandomReplicaID ids excl more"
    with v have "\<forall>more. pickRandomReplicaID ids excl (us @ [v] @ more) = Inr (r, [] @ more)" by simp
    then show ?thesis by (metis One_nat_def length_Cons list.size(3) order_refl)
  qed
qed

lemma choose_ends:
  assumes "distinct ids" "2 \<le> length ids" "length ids < 256" "length sids \<le> 2"
  shows "\<exists>vs rs. length vs \<le> 2 \<and> choose_intermediates ids sids (us @ vs) = Inr rs"
proof -
  let ?n = "word_of_nat (length ids) :: byte"
  have l: "length ids < 2 ^ 63" using assms(3) by simp
  have n: "?n < 2 \<longleftrightarrow> length ids < 2" "?n = 2 \<longleftrightarrow> length ids = 2" "?n = 3 \<longleftrightarrow> length ids = 3"
    using assms(3) by (simp_all add: word_less_nat_alt unat_of_nat word_unat_eq_iff)
  note ends = pick_ends [OF assms(1) _ l]
  have two: "\<exists>vs r s rest. length vs \<le> 2 \<and> (\<exists>mid. pickRandomReplicaID ids excl (us @ vs) = Inr (r, mid)
      \<and> pickRandomReplicaID ids (r # excl) mid = Inr (s, rest))" if "Suc (length excl) < length ids" for excl
  proof -
    have excl: "length excl < length ids" "length (r # excl) < length ids" for r using that by simp_all
    obtain vs r mid where 1: "length vs \<le> 1" "\<forall>more. pickRandomReplicaID ids excl (us @ vs @ more) = Inr (r, mid @ more)"
      using ends [OF excl(1), of us] by blast
    obtain ws s rest where 2: "length ws \<le> 1" "\<forall>more. pickRandomReplicaID ids (r # excl) (mid @ ws @ more) = Inr (s, rest @ more)"
      using ends [OF excl(2), of r mid] by blast
    have "pickRandomReplicaID ids excl (us @ (vs @ ws)) = Inr (r, mid @ ws)" "pickRandomReplicaID ids (r # excl) (mid @ ws) = Inr (s, rest)"
      using spec [OF 1(2), of ws] spec [OF 2(2), of "[]"] by simp_all
    moreover have "length (vs @ ws) \<le> 2" using 1(1) 2(1) by simp
    ultimately show ?thesis by blast
  qed
  consider "length ids = 2" | "length ids = 3" | "4 \<le> length ids" using assms(2) by linarith
  then show ?thesis
  proof cases
    case 1
    then show ?thesis using n by (intro exI [of _ "[]"]) (simp add: choose_intermediates_def)
  next
    case 2
    show ?thesis
    proof (cases sids)
      case Nil
      obtain vs r s rest mid where "length vs \<le> 2" "pickRandomReplicaID ids [] (us @ vs) = Inr (r, mid)"
        "pickRandomReplicaID ids [r] mid = Inr (s, rest)" using two [of "[]"] 2 by auto
      then have "choose_intermediates ids sids (us @ vs) = Inr (r, s)" using Nil 2 n by (simp add: choose_intermediates_def Let_def)
      with \<open>length vs \<le> 2\<close> show ?thesis by blast
    next
      case (Cons r1 sids')
      obtain vs s rest where p: "length vs \<le> 1" "\<forall>more. pickRandomReplicaID ids [r1] (us @ vs @ more) = Inr (s, rest @ more)"
        using ends [of "[r1]" us] 2 by fastforce
      have "choose_intermediates ids sids (us @ vs) = Inr (r1, s)"
        using Cons 2 n spec [OF p(2), of "[]"] by (simp add: choose_intermediates_def Let_def)
      then show ?thesis using p(1) by (metis le_trans one_le_numeral)
    qed
  next
    case 3
    obtain vs r s rest mid where p: "length vs \<le> 2" "pickRandomReplicaID ids sids (us @ vs) = Inr (r, mid)"
      "pickRandomReplicaID ids (r # sids) mid = Inr (s, rest)" using two [of sids] 3 assms(4) by auto
    have "\<not> ?n < 2" "?n \<noteq> 2" "?n \<noteq> 3" using n 3 by simp_all
    then have "choose_intermediates ids sids (us @ vs) = Inr (r, s)" using p by (simp add: choose_intermediates_def Let_def)
    with p(1) show ?thesis by blast
  qed
qed

lemma find_set: "List.find P xs = Some x \<Longrightarrow> x \<in> set xs \<and> P x"
  by (metis find_Some_iff nth_mem)

lemma shard_ids_fit:
  "set (shard_ids doc shards) \<subseteq> set (map ReplicaID (StorageReplicas doc))"
  "length (shard_ids doc shards) \<le> length shards"
proof -
  show "set (shard_ids doc shards) \<subseteq> set (map ReplicaID (StorageReplicas doc))"
    using find_set by (fastforce simp: shard_ids_def List.map_filter_def)
  show "length (shard_ids doc shards) \<le> length shards"
    by (simp add: shard_ids_def List.map_filter_def)
qed

lemma length_GetShards: "GetShards p boxid doc = Inr shards \<Longrightarrow> length shards \<le> 2"
proof -
  have two: "length (Shard2 blake boxid keys) = 2" for blake keys by (simp add: Shard2_def Let_def split_def)
  have "length (List.map_filter f xs) \<le> length xs" for f :: "bytes \<Rightarrow> ReplicaDescriptor option" and xs
    by (simp add: List.map_filter_def)
  then show "GetShards p boxid doc = Inr shards \<Longrightarrow> length shards \<le> 2"
    by (auto simp: GetShards_def go_bind_Inr_iff Let_def split: if_splits) (metis two)
qed

text \<open>Every replica of the document has published its key of the epoch.\<close>

definition keys_published :: "(bytes \<Rightarrow> 'k option) \<Rightarrow> Document \<Rightarrow> u64 \<Rightarrow> bool" where
  "keys_published unmarshal doc e \<longleftrightarrow> (\<forall>r \<in> set (StorageReplicas doc). \<exists>m b k.
     EnvelopeKeys r = Some m \<and> map_of m e = Some b \<and> b \<noteq> [] \<and> unmarshal b = Some k)"

lemma published_keys:
  assumes "keys_published unmarshal doc e" "set rs \<subseteq> set (map ReplicaID (StorageReplicas doc))"
  shows "\<exists>ks. getReplicaPubKeys unmarshal doc e rs = Inr ks"
proof -
  let ?step = "\<lambda>replicaNum acc. go_bind acc (\<lambda>ks. case ReplicaNum doc replicaNum of Inl _ \<Rightarrow> Inl (Err unknownReplica)
     | Inr desc \<Rightarrow> (case map_of (case EnvelopeKeys desc of None \<Rightarrow> [] | Some m \<Rightarrow> m) e of None \<Rightarrow> Inl (Err noEnvelopeKey)
       | Some keyBytes \<Rightarrow> if keyBytes = [] then Inl (Err emptyEnvelopeKey) else (case unmarshal keyBytes of
           None \<Rightarrow> Inl (Err badEnvelopeKey) | Some k \<Rightarrow> Inr (ks @ [k]))))"
  have step: "\<exists>ks'. ?step r (Inr ks) = Inr ks'" if "r \<in> set (map ReplicaID (StorageReplicas doc))" for r ks
  proof -
    from that have "List.find (\<lambda>v. ReplicaID v = r) (StorageReplicas doc) \<noteq> None" by (auto simp: find_None_iff)
    then obtain d where d: "List.find (\<lambda>v. ReplicaID v = r) (StorageReplicas doc) = Some d" by auto
    then obtain m b k where "EnvelopeKeys d = Some m" "map_of m e = Some b" "b \<noteq> []" "unmarshal b = Some k"
      using find_set [OF d] assms(1) unfolding keys_published_def by blast
    then show ?thesis using d by (simp add: ReplicaNum_def GetReplicaNodeByReplicaID_def or_err_def)
  qed
  have "\<exists>ks'. fold ?step rs (Inr ks) = Inr ks'" for ks
    using assms(2)
  proof (induction rs arbitrary: ks)
    case (Cons r rs)
    obtain ks1 where "?step r (Inr ks) = Inr ks1" using step [of r ks] Cons.prems by auto
    then show ?case using Cons.IH [of ks1] Cons.prems by simp
  qed simp
  then show ?thesis unfolding getReplicaPubKeys_def by blast
qed

text \<open>
  C39. The relays of a request are two different replicas of the document, and where it lists four or
  more neither of them keeps the box, so what a relay passes on is not what it stores. And the choice
  cannot get stuck: whatever numbers \<open>us\<close> it has drawn from its source, there are at most two more with which it returns,
  if the replicas have published their keys. For documents with different IDs and fewer than 256 replicas.
\<close>

theorem relays_chosen:
  assumes "distinct (map ReplicaID (StorageReplicas doc))" "2 \<le> length (StorageReplicas doc)" "length (StorageReplicas doc) < 256"
    and "GetShards p boxid doc = Inr shards" "keys_published unmarshal doc e"
  shows "(\<forall>rs keys. GetRandomIntermediateReplicas p unmarshal (Some doc) boxid e rand = Inr (rs, keys)
      \<longrightarrow> relays_fit (map ReplicaID (StorageReplicas doc)) (shard_ids doc shards) rs)
    \<and> (\<forall>us. \<exists>vs r. length vs \<le> 2 \<and> GetRandomIntermediateReplicas p unmarshal (Some doc) boxid e (us @ vs) = Inr r)"
proof (intro conjI allI impI)
  let ?ids = "map ReplicaID (StorageReplicas doc)"
  note fit = shard_ids_fit [of doc shards]
  fix rs keys assume "GetRandomIntermediateReplicas p unmarshal (Some doc) boxid e rand = Inr (rs, keys)"
  then have "choose_intermediates ?ids (shard_ids doc shards) rand = Inr rs"
    using assms(4) by (auto simp: GetRandomIntermediateReplicas_def go_bind_Inr_iff)
  then show "relays_fit ?ids (shard_ids doc shards) rs"
    using choose_sound [of ?ids _ rand "fst rs" "snd rs"] fit(1) assms(1,3) by simp
next
  fix us :: "u64 list"
  let ?ids = "map ReplicaID (StorageReplicas doc)"
  note fit = shard_ids_fit [of doc shards]
  have "length (shard_ids doc shards) \<le> 2" using fit(2) length_GetShards [OF assms(4)] by linarith
  then obtain vs rs where c: "length vs \<le> 2" "choose_intermediates ?ids (shard_ids doc shards) (us @ vs) = Inr rs"
    using choose_ends [of ?ids "shard_ids doc shards" us] assms(1-3) by auto
  obtain r1 r2 where rs: "rs = (r1, r2)" by (cases rs)
  have "relays_fit ?ids (shard_ids doc shards) (r1, r2)" using choose_sound [of ?ids _ "us @ vs" r1 r2] c rs fit(1) assms(1,3) by simp
  then have "set [r1, r2] \<subseteq> set ?ids" by (simp add: relays_fit_def)
  then obtain ks where "getReplicaPubKeys unmarshal doc e [r1, r2] = Inr ks" using published_keys [OF assms(5)] by blast
  then have "GetRandomIntermediateReplicas p unmarshal (Some doc) boxid e (us @ vs) = Inr ((r1, r2), ks)"
    using c rs assms(4) by (simp add: GetRandomIntermediateReplicas_def)
  then show "\<exists>vs r. length vs \<le> 2 \<and> GetRandomIntermediateReplicas p unmarshal (Some doc) boxid e (us @ vs) = Inr r" using c(1) by blast
qed

definition demo_replica :: "byte \<Rightarrow> ReplicaDescriptor" where
  "demo_replica k = \<lparr>rd_Name = ''r'', ReplicaID = k, rd_Epoch = 7, rd_IdentityKey = Some [k], rd_LinkKey = Some [k],
     EnvelopeKeys = Some [(5, [k])], rd_Addresses = []\<rparr>"

definition replica_document :: Document where
  "replica_document = demo_document\<lparr>StorageReplicas := map demo_replica [1, 2, 3, 4],
     ConfiguredReplicaIdentityKeys := map (\<lambda>k. [k]) [1, 2, 3, 4]\<rparr>"

lemma demo_Shard2: "Shard2 (\<lambda>b. take 32 (rev b @ replicate 32 0)) [7] [[1], [2], [3], [4]] = [[1], [2]]"
  by code_simp

lemma demo_shards: "GetShards demo_pki [7] replica_document = Inr [demo_replica 1, demo_replica 2]"
proof -
  have "GetConfiguredReplicaKeys replica_document = Inr [[1], [2], [3], [4]]"
    by (simp add: GetConfiguredReplicaKeys_def replica_document_def K_def)
  moreover have "GetReplicaNodeByKeyHash demo_pki replica_document (blake2b_256 demo_pki [k]) = Inr (demo_replica k)"
    if "k \<in> {1, 2}" for k
    using that by (auto simp: GetReplicaNodeByKeyHash_def replica_document_def rd_hash_def raw_key_def demo_replica_def demo_pki_def)
  ultimately show ?thesis
    using demo_Shard2 by (simp add: GetShards_def List.map_filter_def) (simp add: demo_pki_def)
qed

theorem relays_chosen_witness:
  "\<exists>vs r. length vs \<le> 2 \<and> GetRandomIntermediateReplicas demo_pki Some (Some replica_document) [7] 5 ([0] @ vs) = Inr r"
proof -
  have "distinct (map ReplicaID (StorageReplicas replica_document))" "2 \<le> length (StorageReplicas replica_document)"
    "length (StorageReplicas replica_document) < 256" "keys_published Some replica_document 5"
    by (simp_all add: replica_document_def demo_replica_def keys_published_def)
  from relays_chosen [OF this(1-3) demo_shards this(4)] show ?thesis by blast
qed

end
