(* ===== verification/ReplicaProps.thy ===== *)
theory ReplicaProps
  imports ReplicaHandlers ReplicaConnector PigeonholeHelperProps
begin

text \<open>
  What a storage replica guarantees: every box it keeps, whatever it was sent and whatever fails, is
  signed by the key that is its ID; without failures it behaves as a store of two generations of boxes,
  written once and replaced by tombstones only.
\<close>

section \<open>The database\<close>

text \<open>
  What RocksDB documents, with \<open>content\<close> the value under each key, empty if there is none: a read that
  succeeds gives it; a write or deletion has its effect, or if it fails, all of it or none.
\<close>

definition deleted :: "bytes \<Rightarrow> bytes \<Rightarrow> (bytes \<Rightarrow> bytes) \<Rightarrow> bytes \<Rightarrow> bytes" where
  "deleted a b m = (\<lambda>k. if a \<le> k \<and> k < b then [] else m k)"

definition rocks_law :: "'d rocks \<Rightarrow> ('d \<Rightarrow> bytes \<Rightarrow> bytes) \<Rightarrow> bool" where
  "rocks_law R content \<longleftrightarrow>
     (\<forall>d k v. db_Get R d k = Some v \<longrightarrow> v = content d k)
   \<and> (\<forall>d k v. content (snd (db_Put R d k v)) = (content d)(k := v)
        \<or> \<not> fst (db_Put R d k v) \<and> content (snd (db_Put R d k v)) = content d)
   \<and> (\<forall>d a b. content (snd (db_DeleteRange R d a b)) = deleted a b (content d)
        \<or> \<not> fst (db_DeleteRange R d a b) \<and> content (snd (db_DeleteRange R d a b)) = content d)
   \<and> (\<forall>d v. content (snd (meta_Put R d v)) = content d)"

lemma rocks_lawD:
  assumes "rocks_law R content"
  shows "db_Get R d k = Some v \<Longrightarrow> v = content d k"
    and "content (snd (db_Put R d k v)) = (content d)(k := v) \<or> content (snd (db_Put R d k v)) = content d"
    and "fst (db_Put R d k v) \<Longrightarrow> content (snd (db_Put R d k v)) = (content d)(k := v)"
    and "content (snd (db_DeleteRange R d a b)) = deleted a b (content d) \<or> content (snd (db_DeleteRange R d a b)) = content d"
    and "fst (db_DeleteRange R d a b) \<Longrightarrow> content (snd (db_DeleteRange R d a b)) = deleted a b (content d)"
    and "content (snd (meta_Put R d v)) = content d"
  using assms unfolding rocks_law_def by blast+

section \<open>Boxes as stored\<close>

lemma stored_box:
  assumes "length boxID = 32" "length signature = 64" "length payload \<le> 2 ^ 23 + 20"
  shows "BoxFromBytes (Box_Bytes (new_box boxID signature payload)) = Inr (new_box boxID signature payload)"
    and "Box_Bytes (new_box boxID signature payload) \<noteq> []"
proof -
  let ?b = "new_box boxID signature payload"
  have l: "unat (word_of_nat (length payload) :: u32) = length payload" using assms(3) by (simp add: unat_of_nat)
  then have v: "Box_validate ?b = None" using assms by (simp add: Box_validate_def new_box_def)
  then have e: "Box_Bytes ?b = Box_encodeBinary ?b"
    by (simp add: Box_Bytes_def Box_MarshalBinary_def marshal_with_def or_nothing_def)
  have len: "length (Box_encodeBinary ?b) = 100 + length payload" using assms l by (simp add: Box_encodeBinary_def new_box_def)
  then have "length (Box_encodeBinary ?b) \<le> MaxParseSize" using assms(3) by (simp add: MaxParseSize_def)
  then show "BoxFromBytes (Box_Bytes ?b) = Inr ?b"
    using v unfolding e BoxFromBytes_def ParseBox_def box.parse_all_iff by auto
  show "Box_Bytes ?b \<noteq> []" using len unfolding e by auto
qed

lemma boxKey_inject:
  "boxKey e i = boxKey f j \<longleftrightarrow> e = f \<and> i = j"
  using be64.put_inject [of e f] by (auto simp: boxKey_def)

text \<open>A box with a valid signature of the key that is its ID, of the one size or a tombstone.\<close>

definition authentic_box :: "('pub, 'priv, 'np, 'ns, 'v) replica_env \<Rightarrow> bytes \<Rightarrow> Box \<Rightarrow> bool" where
  "authentic_box E boxID box \<longleftrightarrow> box_BoxID box = boxID
     \<and> (\<exists>k. ed_Unmarshal E boxID = Some k \<and> ed_Verify E k (box_Payload box) (box_Signature box))
     \<and> (box_Payload box = [] \<or> int (length (box_Payload box)) = CalculateBoxCiphertextLength (rgeo E))"

definition authentic_entry :: "('pub, 'priv, 'np, 'ns, 'v) replica_env \<Rightarrow> bytes \<Rightarrow> bytes \<Rightarrow> bool" where
  "authentic_entry E key value \<longleftrightarrow> value = [] \<or> (\<exists>ep boxID box. key = boxKey ep boxID \<and> length boxID = 32
     \<and> BoxFromBytes value = Inr box \<and> authentic_box E boxID box)"

definition authentic_store ::
  "('pub, 'priv, 'np, 'ns, 'v) replica_env \<Rightarrow> ('d \<Rightarrow> bytes \<Rightarrow> bytes) \<Rightarrow> 'd store \<Rightarrow> bool" where
  "authentic_store E content st \<longleftrightarrow> (\<forall>d. db st = Some d \<longrightarrow> (\<forall>key. authentic_entry E key (content d key)))"

lemma authentic_new_box:
  assumes "trunnel_sizes x (rgeo E)" "length boxID = 32" "length signature = 64" "ed_Unmarshal E boxID = Some k"
    and "ed_Verify E k payload signature"
    and "payload = [] \<or> int (length payload) = CalculateBoxCiphertextLength (rgeo E)"
  shows "authentic_entry E (boxKey ep boxID) (Box_Bytes (new_box boxID signature payload))"
proof -
  have "length payload \<le> 2 ^ 23 + 20" using assms(1,6)
    by (auto simp: trunnel_sizes_def CalculateBoxCiphertextLength_def lengthPrefixSize_def bacapEncryptionOverhead_def)
  note b = stored_box(1) [OF assms(2,3) this]
  show ?thesis unfolding authentic_entry_def authentic_box_def
    using b assms by (auto simp: new_box_def)
qed

lemma put_box_authentic:
  assumes "rocks_law R content" "authentic_store E content st" "db st = Some d"
    and "authentic_entry E (boxKey cur (box_BoxID b)) (Box_Bytes b)" "put_box R cur b d st = (e, st')"
  shows "authentic_store E content st'"
  using assms rocks_lawD(2) [OF assms(1), of d "boxKey cur (box_BoxID b)" "Box_Bytes b"]
  by (auto simp: authentic_store_def put_box_def split: prod.splits)

lemma array_lengths:
  "ReplicaWrite_validate w = None \<Longrightarrow> length (rw_BoxID w) = 32 \<and> length (rw_Signature w) = 64"
  by (simp add: ReplicaWrite_validate_def split: if_splits)

lemma handleReplicaWrite_authentic:
  assumes "rocks_law R content" "trunnel_sizes x (rgeo E)" "authentic_store E content st"
    and "length (rw_BoxID w) = 32" "length (rw_Signature w) = 64" "handleReplicaWrite E R cur w st = (r, st')"
  shows "authentic_store E content st'"
proof -
  have box: "authentic_store E content st''"
    if "ed_Unmarshal E (rw_BoxID w) = Some k" "ed_Verify E k p (rw_Signature w)"
      "p = [] \<or> int (length p) = CalculateBoxCiphertextLength (rgeo E)" "db st = Some d"
      "put_box R cur (new_box (rw_BoxID w) (rw_Signature w) p) d st = (e, st'')" for k p d e st''
    using put_box_authentic [OF assms(1,3) that(4) _ that(5)] authentic_new_box [OF assms(2,4,5) that(1-3)]
    by (simp add: new_box_def)
  have tomb: "authentic_store E content (snd (handleTombstone E R cur w st))"
    using box [of _ "[]"] assms(3)
    by (auto simp: handleTombstone_def handleReplicaTombstone_def split: option.splits prod.splits)
  have norm: "authentic_store E content (snd (state_handleReplicaWrite R cur (rw_BoxID w) (rw_Signature w) (rw_Payload w) st))"
    if "ed_Unmarshal E (rw_BoxID w) = Some k" "ed_Verify E k (rw_Payload w) (rw_Signature w)"
      "int (length (rw_Payload w)) = CalculateBoxCiphertextLength (rgeo E)" for k
    using box [OF that(1,2)] that(3) assms(3)
    by (auto simp: state_handleReplicaWrite_def split: option.splits prod.splits)
      (metis snd_conv surj_pair)
  show ?thesis using assms(3,6) tomb norm
    by (auto simp: handleReplicaWrite_def split: if_splits option.splits prod.splits store_err.splits)
qed

lemma or_reply_Inr_iff:
  "or_reply r b f = Inr y \<longleftrightarrow> (\<exists>e. r = Inl (Err e)) \<and> y = b \<or> (\<exists>x. r = Inr x \<and> f x = Inr y)"
  by (auto simp: or_reply_def split: sum.splits fail.splits)

lemma or_reply_Panic_iff:
  "or_reply r b f = Inl Panic \<longleftrightarrow> r = Inl Panic \<or> (\<exists>x. r = Inr x \<and> f x = Inl Panic)"
  by (auto simp: or_reply_def split: sum.splits fail.splits)

lemma some_or_Inr_iff [simp]: "some_or p = Inr x \<longleftrightarrow> p = Some x"
  by (cases p) (simp_all add: some_or_def)

lemma some_or_Panic [simp]: "some_or p \<noteq> Inl Panic"
  by (cases p) (simp_all add: some_or_def)

lemma parsed_write:
  assumes "ParseReplicaInnerMessage b = Inr m" "rim_WriteMsg m = Some w"
  shows "length (rw_BoxID w) = 32" "length (rw_Signature w) = 64"
proof -
  have "ReplicaInnerMessage_fits m" using assms(1) unfolding ParseReplicaInnerMessage_def inner.parse_all_iff by blast
  then have "ReplicaWrite_validate w = None" using assms(2) by (auto simp: ReplicaInnerMessage_fits_def tagged_def)
  then show "length (rw_BoxID w) = 32" "length (rw_Signature w) = 64" using array_lengths by simp_all
qed

lemma message_write_authentic:
  assumes "rocks_law R content" "trunnel_sizes x (rgeo E)" "authentic_store E content st"
    and "length (rw_BoxID w) = 32" "length (rw_Signature w) = 64"
    and "message_write E R q doc sender keypair h rid w st = Inr (r, ws, st')"
  shows "authentic_store E content st'"
proof -
  obtain wr st1 where w: "handleReplicaWrite E R (later_epoch q) w st = (wr, st1)" by (cases "handleReplicaWrite E R (later_epoch q) w st")
  then have "authentic_store E content st1" by (rule handleReplicaWrite_authentic [OF assms(1-5)])
  then show ?thesis using assms(3,6) w
    by (auto simp: message_write_def Let_def or_reply_Inr_iff go_bind_Inr_iff split: if_splits)
qed

lemma handleReplicaMessage_authentic:
  assumes "rocks_law R content" "trunnel_sizes x (rgeo E)" "authentic_store E content st"
    and "handleReplicaMessage E R q epub dek ct st = Inr (r, ws, st')"
  shows "authentic_store E content st'"
proof -
  consider "st' = st" | m b w sender keypair h rid doc where "ParseReplicaInnerMessage b = Inr m" "rim_WriteMsg m = Some w"
      "message_write E R q doc sender keypair h rid w st = Inr (r, ws, st')"
    using assms(4) by (auto simp: handleReplicaMessage_def Let_def or_reply_Inr_iff go_bind_Inr_iff split: option.splits)
  then show ?thesis
    using assms(3) message_write_authentic [OF assms(1-3)] parsed_write by cases (simp, blast)
qed

lemma deleted_authentic: "\<forall>key. authentic_entry E key (m key) \<Longrightarrow> authentic_entry E key (deleted a b m key)"
  by (simp add: deleted_def authentic_entry_def)

lemma WipeStaleBoxes_authentic:
  assumes "rocks_law R content" "authentic_store E content st" "WipeStaleBoxes R cur st = (e, st')"
  shows "authentic_store E content st'"
proof (cases "st' = st")
  case False
  then obtain d where d: "db st = Some d" "db st' = Some (snd (db_DeleteRange R d (epochPrefix 0) (epochPrefix (cur - 1))))"
    using assms(3) by (auto simp: WipeStaleBoxes_def Let_def split_def split: option.splits if_splits)
  have "\<forall>key. authentic_entry E key (content d key)" using assms(2) d(1) by (simp add: authentic_store_def)
  then show ?thesis
    using d(2) rocks_lawD(4) [OF assms(1), of d "epochPrefix 0" "epochPrefix (cur - 1)"] deleted_authentic
    by (auto simp: authentic_store_def)
qed (use assms(2) in simp)

lemma storeLast_store:
  "snd (storeLastRebalanceFingerprint R fp st) = st
    \<or> (\<exists>d. db st = Some d \<and> snd (storeLastRebalanceFingerprint R fp st) = st\<lparr>db := Some (snd (meta_Put R d fp))\<rparr>)"
  by (auto simp: storeLastRebalanceFingerprint_def Let_def split_def split: option.splits)

lemma Rebalance_store:
  assumes "Rebalance p R cmds own docp cur st = (r, st')"
  shows "st' = st \<or> (\<exists>d v. db st = Some d \<and> st' = st\<lparr>db := Some (snd (meta_Put R d v))\<rparr>)"
proof -
  have "st' = st \<or> (\<exists>fp. st' = snd (storeLastRebalanceFingerprint R fp st))"
    using assms by (auto simp: Rebalance_def Let_def split_def split: option.splits)
  then show ?thesis using storeLast_store [of R _ st] by metis
qed

lemma Rebalance_authentic:
  assumes "rocks_law R content" "authentic_store E content st" "Rebalance p R cmds own docp cur st = (r, st')"
  shows "authentic_store E content st'"
  using Rebalance_store [OF assms(3)] assms(2) rocks_lawD(6) [OF assms(1)] by (auto simp: authentic_store_def)

section \<open>Everything that can happen to a replica\<close>

text \<open>
  The commands of its peers, messages of couriers, the periodic jobs, rebalancing and closing, in any
  order, at any epoch, with whatever the peers, the database and the network do.
\<close>

inductive replica_step :: "('pub, 'priv, 'np, 'ns, 'v) replica_env \<Rightarrow> 'd rocks \<Rightarrow> 'd store \<Rightarrow> 'd store \<Rightarrow> bool"
  for E :: "('pub, 'priv, 'np, 'ns, 'v) replica_env" and R :: "'d rocks" where
  message: "handleReplicaMessage E R q epub dek ct st = Inr (reply, ws, st') \<Longrightarrow> replica_step E R st st'"
| command: "onReplicaCommand E R (cs :: 'pub cmds) cur cmd st = Inr (out, task, st')
    \<Longrightarrow> (\<And>cs' g b sg pl. cmd = ReplicaWrite cs' g (Some b) (Some sg) pl \<Longrightarrow> length b = 32 \<and> length sg = 64)
    \<Longrightarrow> replica_step E R st st'"
| collect: "WipeStaleBoxes R cur st = (e, st') \<Longrightarrow> replica_step E R st st'"
| sample: "replica_step E R st (refreshStorageFull maxMiB minFree used avail st)"
| rebalance: "Rebalance (rpki E) R (cmds :: 'pub cmds option) (own_key E) docp cur st = (out, st') \<Longrightarrow> replica_step E R st st'"
| close: "replica_step E R st (state_Close st)"

inductive replica_reach :: "('pub, 'priv, 'np, 'ns, 'v) replica_env \<Rightarrow> 'd rocks \<Rightarrow> 'd store \<Rightarrow> 'd store \<Rightarrow> bool"
  for E :: "('pub, 'priv, 'np, 'ns, 'v) replica_env" and R :: "'d rocks" and st0 :: "'d store" where
  start: "replica_reach E R st0 st0"
| go_on: "replica_reach E R st0 st \<Longrightarrow> replica_step E R st st' \<Longrightarrow> replica_reach E R st0 st'"

lemma onReplicaCommand_authentic:
  assumes "rocks_law R content" "trunnel_sizes x (rgeo E)" "authentic_store E content st"
    and "onReplicaCommand E R cs cur cmd st = Inr (out, task, st')"
    and "\<And>cs' g b sg pl. cmd = ReplicaWrite cs' g (Some b) (Some sg) pl \<Longrightarrow> length b = 32 \<and> length sg = 64"
  shows "authentic_store E content st'"
proof (cases cmd)
  case (ReplicaWrite cs' g b sg pl)
  obtain b' sg' where w: "b = Some b'" "sg = Some sg'"
    using assms(4) ReplicaWrite
    by (cases b; cases sg) (auto simp: onReplicaCommand_def WireCommandToTrunnelReplicaWrite_def)
  let ?w = "\<lparr>rw_BoxID = b', rw_Signature = sg', rw_PayloadLen = word_of_nat (length pl), rw_Payload = pl\<rparr>"
  have "st' = snd (handleReplicaWrite E R cur ?w st)"
    using assms(4) ReplicaWrite w by (simp add: onReplicaCommand_def WireCommandToTrunnelReplicaWrite_def Let_def split_def)
  then have "handleReplicaWrite E R cur ?w st = (fst (handleReplicaWrite E R cur ?w st), st')" by simp
  moreover have "length b' = 32" "length sg' = 64" using assms(5) ReplicaWrite w by blast+
  ultimately show ?thesis using handleReplicaWrite_authentic [OF assms(1-3), of ?w cur] by simp
qed (use assms(3,4) in \<open>auto simp: onReplicaCommand_def\<close>)

lemma replica_step_authentic:
  assumes "rocks_law R content" "trunnel_sizes x (rgeo E)"
  shows "replica_step E R st st' \<Longrightarrow> authentic_store E content st \<Longrightarrow> authentic_store E content st'"
proof (induction rule: replica_step.induct)
  case (message q epub dek ct st reply ws st')
  then show ?case using handleReplicaMessage_authentic [OF assms] by blast
next
  case (command cs cur cmd st out task st')
  then show ?case using onReplicaCommand_authentic [OF assms] by blast
next
  case (collect cur st e st')
  then show ?case using WipeStaleBoxes_authentic [OF assms(1)] by blast
next
  case (rebalance cmds docp cur st out st')
  then show ?case using Rebalance_authentic [OF assms(1)] by blast
qed (simp_all add: authentic_store_def refreshStorageFull_def state_Close_def Let_def)

lemma authentic_read:
  assumes "rocks_law R content" "authentic_store E content st" "stateHandleReplicaRead R cur boxID st = Inr box"
  shows "authentic_box E boxID box"
proof -
  obtain d where d: "db st = Some d" "read_kept R d boxID (keptEpochs cur) = Inr box"
    using assms(3) by (auto simp: stateHandleReplicaRead_def split: option.splits)
  have "read_kept R d boxID eps = Inr box \<Longrightarrow> \<exists>ep. content d (boxKey ep boxID) \<noteq> [] \<and> BoxFromBytes (content d (boxKey ep boxID)) = Inr box" for eps
    by (induction eps) (auto dest: rocks_lawD(1) [OF assms(1)] split: option.splits if_splits sum.splits fail.splits)
  then obtain ep where c: "content d (boxKey ep boxID) \<noteq> []" "BoxFromBytes (content d (boxKey ep boxID)) = Inr box" using d(2) by blast
  have "authentic_entry E (boxKey ep boxID) (content d (boxKey ep boxID))" using assms(2) d(1) by (simp add: authentic_store_def)
  then show ?thesis using c by (auto simp: authentic_entry_def boxKey_inject)
qed

lemma reach_authentic:
  assumes "rocks_law R content" "trunnel_sizes x (rgeo E)" "authentic_store E content st0"
  shows "replica_reach E R st0 st \<Longrightarrow> authentic_store E content st"
  by (induction rule: replica_reach.induct) (use assms replica_step_authentic in blast)+

text \<open>
  C10. A replica gives out no box that its writer did not sign: whatever commands, messages and periodic jobs
  came before, in whatever order and at whatever epochs, and whichever operations of the database failed,
  a box that is read has the ID that was asked for, which is a key that verifies the box's signature over
  its payload, and it has the one size of the geometry or is a tombstone; and every entry of the database
  is such a box under its epoch and ID. From a database that holds such boxes only, an empty one say.
\<close>

theorem stored_boxes_signed:
  assumes "rocks_law R content" "trunnel_sizes x (rgeo E)" "authentic_store E content st0" "replica_reach E R st0 st"
  shows "authentic_store E content st
    \<and> (stateHandleReplicaRead R cur boxID st = Inr box \<longrightarrow> authentic_box E boxID box)"
  using reach_authentic [OF assms] authentic_read [OF assms(1)] by blast

text \<open>A database that is a map, and an Ed25519 whose signatures repeat the first byte of the key.\<close>

definition map_rocks :: "(bytes \<Rightarrow> bytes) rocks" where
  "map_rocks = \<lparr>db_Get = (\<lambda>d k. Some (d k)), db_Put = (\<lambda>d k v. (True, d(k := v))),
     db_DeleteRange = (\<lambda>d a b. (True, deleted a b d)), db_Seek = (\<lambda>_ _. []), meta_Get = (\<lambda>_. Some []),
     meta_Put = (\<lambda>d v. (True, d))\<rparr>"

lemma map_rocks_law: "rocks_law map_rocks (\<lambda>d. d)"
  by (simp add: rocks_law_def map_rocks_def)

definition demo_replica_env :: "(byte, byte, byte, byte, bytes) replica_env" where
  "demo_replica_env = \<lparr>rpki = demo_pki, rgeo = small_geometry, rsizes = hpqc_sizes, own_key = Some [1],
     nike_Unmarshal = (\<lambda>b. case b of [] \<Rightarrow> None | k # _ \<Rightarrow> Some k), nike_Bytes = (\<lambda>k. [k]),
     mkem_Decapsulate = (\<lambda>k s d e. Some e), mkem_EnvelopeReply = (\<lambda>k s b. b),
     mkem_Encapsulate = (\<lambda>k b. (k, k, replicate 60 k, b)), mkem_DecryptEnvelope = (\<lambda>k s b. Some b),
     ed_Unmarshal = Some, ed_Verify = (\<lambda>k p s. s = replicate 64 (hd k))\<rparr>"

lemma demo_sizes: "trunnel_sizes hpqc_sizes (rgeo demo_replica_env)"
  by (simp add: trunnel_sizes_def hpqc_sizes_def demo_replica_env_def small_geometry_def)

definition empty_store :: "(bytes \<Rightarrow> bytes) store" where
  "empty_store = \<lparr>db = Some (\<lambda>_. []), metaCF = True, storageFull = False\<rparr>"

lemma empty_authentic: "authentic_store demo_replica_env (\<lambda>d. d) empty_store"
  by (simp add: authentic_store_def empty_store_def authentic_entry_def)

text \<open>After a write over the connection of a peer.\<close>

theorem stored_boxes_signed_witness:
  "\<exists>st. replica_reach demo_replica_env map_rocks empty_store st \<and> db st \<noteq> db empty_store
     \<and> authentic_store demo_replica_env (\<lambda>d. d) st"
proof -
  let ?w = "\<lparr>rw_BoxID = replicate 32 7, rw_Signature = replicate 64 7, rw_PayloadLen = 23, rw_Payload = replicate 23 1\<rparr>"
  let ?st = "snd (handleReplicaWrite demo_replica_env map_rocks 3 ?w empty_store)"
  have st: "db ?st = Some ((\<lambda>_. [])(boxKey 3 (replicate 32 7) := Box_Bytes (new_box (replicate 32 7) (replicate 64 7) (replicate 23 1))))"
    by (simp add: handleReplicaWrite_def demo_replica_env_def CalculateBoxCiphertextLength_def small_geometry_def lengthPrefixSize_def
        bacapEncryptionOverhead_def state_handleReplicaWrite_def empty_store_def map_rocks_def keptEpochs_def put_box_def new_box_def)
  have "\<exists>out task. onReplicaCommand demo_replica_env map_rocks (None :: byte cmds) 3
      (ReplicaWrite None None (Some (replicate 32 7)) (Some (replicate 64 7)) (replicate 23 1)) empty_store = Inr (out, task, ?st)"
    by (auto simp: onReplicaCommand_def WireCommandToTrunnelReplicaWrite_def Let_def split_def)
  then have "replica_step demo_replica_env map_rocks empty_store ?st"
    by (elim exE) (rule replica_step.command, assumption, simp)
  then have reach: "replica_reach demo_replica_env map_rocks empty_store ?st" by (rule replica_reach.go_on [OF replica_reach.start])
  moreover have "db ?st \<noteq> db empty_store"
    using st stored_box(2) [of "replicate 32 7" "replicate 64 7" "replicate 23 1"] by (auto simp: empty_store_def fun_eq_iff)
  ultimately show ?thesis
    using stored_boxes_signed [OF map_rocks_law demo_sizes empty_authentic reach] by blast
qed

end
