(* ===== verification/ReplicaRefine.thy ===== *)
theory ReplicaRefine
  imports ReplicaProps
begin

text \<open>
  A replica whose database works is a store of two generations of boxes: what was written in this epoch
  and in the one before. One lemma per operation shows that it commutes with the abstraction; the
  theorem puts them together for any sequence of requests, epoch changes and collections.
\<close>

section \<open>The order of the keys\<close>

lemma be_dec_less: "length xs = length ys \<Longrightarrow> xs < ys \<longleftrightarrow> be_dec xs < be_dec ys" for xs ys :: bytes
proof (induction xs arbitrary: ys)
  case (Cons x xs)
  obtain y ys' where ys: "ys = y # ys'" "length ys' = length xs" using Cons.prems by (cases ys) auto
  have b: "be_dec xs < 256 ^ length xs" "be_dec ys' < 256 ^ length xs"
    using be_dec_bound [of xs] be_dec_bound [of ys'] ys(2) by simp_all
  have "unat x < unat y \<Longrightarrow> be_dec (x # xs) < be_dec (y # ys')" for x y
  proof -
    assume "unat x < unat y"
    then have "Suc (unat x) * 256 ^ length xs \<le> unat y * 256 ^ length xs" by (intro mult_le_mono1) simp
    then show ?thesis using b ys(2) by simp
  qed
  moreover have "unat y < unat x \<Longrightarrow> be_dec (y # ys') < be_dec (x # xs)" for x y
  proof -
    assume "unat y < unat x"
    then have "Suc (unat y) * 256 ^ length xs \<le> unat x * 256 ^ length xs" by (intro mult_le_mono1) simp
    then show ?thesis using b ys(2) by simp
  qed
  ultimately show ?case
    using Cons.IH [of ys'] ys
    by (cases "unat x" "unat y" rule: linorder_cases) (fastforce simp: word_less_nat_alt word_unat_eq_iff)+
qed simp

lemma prefix_less: "length xs = length ys \<Longrightarrow> xs @ zs < ys \<Longrightarrow> xs < ys" for xs ys :: bytes
  by (induction xs arbitrary: ys) (auto simp: length_Suc_conv Suc_length_conv)

lemma put64_be_dec: "be_dec (put64 e) = unat e"
proof -
  have "unat e < 2 ^ LENGTH(64)" by (rule unsigned_less)
  then show ?thesis by (simp add: put64_def)
qed

lemma boxKey_before: "boxKey e boxID < epochPrefix c \<Longrightarrow> e < c"
  using prefix_less [of "put64 e" "put64 c" boxID] be_dec_less [of "put64 e" "put64 c"]
  by (simp add: boxKey_def epochPrefix_def put64_be_dec word_less_nat_alt)

lemma unat_next: "unat e + 1 < 2 ^ 64 \<Longrightarrow> unat (e + 1) = Suc (unat e)" for e :: u64
  by (simp add: unat_plus_if_size word_size)

lemma unat_next_nz: "e + 1 \<noteq> 0 \<Longrightarrow> unat (e + 1) = Suc (unat e)" for e :: u64
  using unatSuc [of e] by (simp add: add.commute)

section \<open>Two generations\<close>

type_synonym shelf = "(bytes \<rightharpoonup> bytes \<times> bytes) \<times> (bytes \<rightharpoonup> bytes \<times> bytes)"

text \<open>A payload and a signature under each ID, written in this epoch and in the one before.\<close>

definition shelf_lookup :: "shelf \<Rightarrow> bytes \<Rightarrow> (bytes \<times> bytes) option" where
  "shelf_lookup s boxID = (case fst s boxID of Some b \<Rightarrow> Some b | None \<Rightarrow> snd s boxID)"

definition shelf_read :: "shelf \<Rightarrow> bytes \<Rightarrow> BoxReadReply" where
  "shelf_read s boxID = (case shelf_lookup s boxID of
     None \<Rightarrow> zero_read_reply\<lparr>rrr_BoxID := boxID, rrr_ErrorCode := ReplicaErrorBoxIDNotFound\<rparr>
   | Some (payload, signature) \<Rightarrow>
       if payload = [] then zero_read_reply\<lparr>rrr_BoxID := boxID, rrr_Signature := signature, rrr_ErrorCode := ReplicaErrorTombstone\<rparr>
       else \<lparr>rrr_ErrorCode = ReplicaSuccess, rrr_BoxID = boxID, rrr_Signature = signature,
              rrr_PayloadLen = word_of_nat (length payload), rrr_Payload = payload\<rparr>)"

text \<open>A tombstone replaces what is there, a box is written once; the answer to both is for the writer.\<close>

definition shelf_write :: "('pub, 'priv, 'np, 'ns, 'v) replica_env \<Rightarrow> shelf \<Rightarrow> BoxWrite \<Rightarrow> byte \<times> shelf" where
  "shelf_write E s w = (let b = (rw_Payload w, rw_Signature w); s' = ((fst s)(rw_BoxID w \<mapsto> b), snd s) in
     if fst b \<noteq> [] \<and> int (length (fst b)) \<noteq> CalculateBoxCiphertextLength (rgeo E) then (ReplicaErrorInvalidPayload, s)
     else (case ed_Unmarshal E (rw_BoxID w) of
         None \<Rightarrow> (ReplicaErrorInvalidBoxID, s)
       | Some k \<Rightarrow>
           if \<not> ed_Verify E k (fst b) (snd b) then (ReplicaErrorInvalidSignature, s)
           else if fst b = [] then (ReplicaSuccess, s')
           else (case shelf_lookup s (rw_BoxID w) of
               None \<Rightarrow> (ReplicaSuccess, s')
             | Some b' \<Rightarrow> (if b' = b then ReplicaSuccess else ReplicaErrorBoxAlreadyExists, s))))"

datatype action = ReadBox BoxRead | WriteBox BoxWrite | NextEpoch | Collect

datatype answer = ReadAnswer BoxReadReply | WriteAnswer BoxWriteReply

fun run_shelf :: "('pub, 'priv, 'np, 'ns, 'v) replica_env \<Rightarrow> shelf \<Rightarrow> action list \<Rightarrow> answer list" where
  "run_shelf E s [] = []"
| "run_shelf E s (ReadBox r # acts) = ReadAnswer (shelf_read s (rr_BoxID r)) # run_shelf E s acts"
| "run_shelf E s (WriteBox w # acts) =
     (let (code, s') = shelf_write E s w in WriteAnswer (write_reply code) # run_shelf E s' acts)"
| "run_shelf E s (NextEpoch # acts) = run_shelf E (Map.empty, fst s) acts"
| "run_shelf E s (Collect # acts) = run_shelf E s acts"

text \<open>The replica, from the handlers for the two requests on.\<close>

fun run_replica ::
  "('pub, 'priv, 'np, 'ns, 'v) replica_env \<Rightarrow> 'd rocks \<Rightarrow> u64 \<Rightarrow> 'd store \<Rightarrow> action list \<Rightarrow> (unit, answer list) go" where
  "run_replica E R cur st [] = Inr []"
| "run_replica E R cur st (ReadBox r # acts) = go_bind (handleReplicaRead R cur r st) (\<lambda>reply.
     go_bind (run_replica E R cur st acts) (\<lambda>as. Inr (ReadAnswer reply # as)))"
| "run_replica E R cur st (WriteBox w # acts) = (let (reply, st') = handleReplicaWrite E R cur w st in
     go_bind (run_replica E R cur st' acts) (\<lambda>as. Inr (WriteAnswer reply # as)))"
| "run_replica E R cur st (NextEpoch # acts) = run_replica E R (cur + 1) st acts"
| "run_replica E R cur st (Collect # acts) = run_replica E R cur (snd (WipeStaleBoxes R cur st)) acts"

section \<open>The abstraction\<close>

definition view_entry :: "bytes \<Rightarrow> (bytes \<times> bytes) option" where
  "view_entry value = (if value = [] then None else
     (case BoxFromBytes value of Inr box \<Rightarrow> Some (box_Payload box, box_Signature box) | Inl _ \<Rightarrow> None))"

definition shelf_of :: "u64 \<Rightarrow> (bytes \<Rightarrow> bytes) \<Rightarrow> shelf" where
  "shelf_of cur m = (\<lambda>boxID. view_entry (m (boxKey cur boxID)),
     \<lambda>boxID. if cur = 0 then None else view_entry (m (boxKey (cur - 1) boxID)))"

text \<open>Every entry is a box under its ID and an epoch that has begun.\<close>

definition sound_content :: "u64 \<Rightarrow> (bytes \<Rightarrow> bytes) \<Rightarrow> bool" where
  "sound_content cur m \<longleftrightarrow> (\<forall>key. m key \<noteq> [] \<longrightarrow> (\<exists>ep boxID box. key = boxKey ep boxID \<and> ep \<le> cur
     \<and> BoxFromBytes (m key) = Inr box \<and> box_BoxID box = boxID))"

definition working :: "'d rocks \<Rightarrow> ('d \<Rightarrow> bytes \<Rightarrow> bytes) \<Rightarrow> bool" where
  "working R content \<longleftrightarrow> rocks_law R content \<and> (\<forall>d k. db_Get R d k \<noteq> None)
     \<and> (\<forall>d k v. fst (db_Put R d k v)) \<and> (\<forall>d a b. fst (db_DeleteRange R d a b))"

lemma workingD:
  assumes "working R content"
  shows "db_Get R d k = Some (content d k)"
    and "db_Put R d k v = (True, snd (db_Put R d k v))" "content (snd (db_Put R d k v)) = (content d)(k := v)"
    and "content (snd (db_DeleteRange R d a b)) = deleted a b (content d)"
proof -
  have l: "rocks_law R content" and g: "db_Get R d k \<noteq> None" "fst (db_Put R d k v)" "fst (db_DeleteRange R d a b)"
    using assms by (simp_all add: working_def)
  show "db_Get R d k = Some (content d k)" using g(1) rocks_lawD(1) [OF l] by fastforce
  show "db_Put R d k v = (True, snd (db_Put R d k v))" using g(2) by (metis prod.collapse)
  show "content (snd (db_Put R d k v)) = (content d)(k := v)" using rocks_lawD(3) [OF l g(2)] .
  show "content (snd (db_DeleteRange R d a b)) = deleted a b (content d)" using rocks_lawD(5) [OF l g(3)] .
qed

lemma sound_box:
  assumes "sound_content cur m" "m (boxKey e boxID) \<noteq> []"
  shows "\<exists>box. BoxFromBytes (m (boxKey e boxID)) = Inr box \<and> box_BoxID box = boxID \<and> e \<le> cur"
  using assms unfolding sound_content_def by (metis boxKey_inject)

section \<open>Each operation\<close>

lemma read_refines:
  assumes "working R content" "db st = Some d" "sound_content cur (content d)"
  shows "handleReplicaRead R cur r st = Inr (shelf_read (shelf_of cur (content d)) (rr_BoxID r))"
proof -
  let ?m = "content d" and ?i = "rr_BoxID r"
  note get = workingD(1) [OF assms(1)]
  note box = sound_box [OF assms(3)]
  show ?thesis
  proof (cases "?m (boxKey cur ?i) = []")
    case False
    with box obtain b where "BoxFromBytes (?m (boxKey cur ?i)) = Inr b" "box_BoxID b = ?i" by blast
    then show ?thesis using False assms(2)
      by (cases "cur = 0") (simp_all add: handleReplicaRead_def stateHandleReplicaRead_def keptEpochs_def get shelf_read_def shelf_lookup_def shelf_of_def view_entry_def)
  next
    case new: True
    show ?thesis
    proof (cases "cur = 0 \<or> ?m (boxKey (cur - 1) ?i) = []")
      case True
      then show ?thesis using new assms(2)
        by (auto simp: handleReplicaRead_def stateHandleReplicaRead_def keptEpochs_def get shelf_read_def shelf_lookup_def shelf_of_def view_entry_def)
    next
      case False
      with box obtain b where "BoxFromBytes (?m (boxKey (cur - 1) ?i)) = Inr b" "box_BoxID b = ?i" by blast
      then show ?thesis using False new assms(2)
        by (simp add: handleReplicaRead_def stateHandleReplicaRead_def keptEpochs_def get shelf_read_def shelf_lookup_def shelf_of_def view_entry_def)
    qed
  qed
qed

lemma existing_refines:
  assumes "working R content" "sound_content cur (content d)"
  shows "existing_write R d boxID signature payload (keptEpochs cur) =
    (case shelf_lookup (shelf_of cur (content d)) boxID of None \<Rightarrow> None
     | Some b \<Rightarrow> Some (if b = (payload, signature) then None else Some ErrBoxAlreadyExists))"
proof -
  let ?m = "content d"
  note get = workingD(1) [OF assms(1)]
  note box = sound_box [OF assms(2)]
  show ?thesis
  proof (cases "?m (boxKey cur boxID) = []")
    case False
    with box obtain b where "BoxFromBytes (?m (boxKey cur boxID)) = Inr b" by blast
    then show ?thesis using False by (cases "cur = 0") (simp_all add: keptEpochs_def get shelf_lookup_def shelf_of_def view_entry_def)
  next
    case new: True
    show ?thesis
    proof (cases "cur = 0 \<or> ?m (boxKey (cur - 1) boxID) = []")
      case True
      then show ?thesis using new by (auto simp: keptEpochs_def get shelf_lookup_def shelf_of_def view_entry_def)
    next
      case False
      with box obtain b where "BoxFromBytes (?m (boxKey (cur - 1) boxID)) = Inr b" by blast
      then show ?thesis using False new by (simp add: keptEpochs_def get shelf_lookup_def shelf_of_def view_entry_def)
    qed
  qed
qed

lemma put_refines:
  assumes "length boxID = 32" "length signature = 64" "length payload \<le> 2 ^ 23 + 20" "sound_content cur m"
  defines "m' \<equiv> m(boxKey cur boxID := Box_Bytes (new_box boxID signature payload))"
  shows "sound_content cur m'" "shelf_of cur m' = ((fst (shelf_of cur m))(boxID \<mapsto> (payload, signature)), snd (shelf_of cur m))"
proof -
  note b = stored_box [OF assms(1-3)]
  show "sound_content cur m'"
    using assms(4) b unfolding sound_content_def m'_def by (auto simp: new_box_def)
  have "cur - 1 \<noteq> cur" if "cur \<noteq> 0" by simp
  then show "shelf_of cur m' = ((fst (shelf_of cur m))(boxID \<mapsto> (payload, signature)), snd (shelf_of cur m))"
    using b by (auto simp: shelf_of_def m'_def view_entry_def boxKey_inject fun_eq_iff new_box_def)
qed

lemma next_refines:
  assumes "sound_content cur m" "cur + 1 \<noteq> 0"
  shows "sound_content (cur + 1) m" "shelf_of (cur + 1) m = (Map.empty, fst (shelf_of cur m))"
proof -
  have lt: "cur < cur + 1" using unat_next_nz [OF assms(2)] by (simp add: word_less_nat_alt)
  show "sound_content (cur + 1) m" using assms(1) lt unfolding sound_content_def by (meson order.strict_implies_order order.trans)
  have "m (boxKey (cur + 1) boxID) = []" for boxID using sound_box [OF assms(1), of "cur + 1" boxID] lt by force
  then show "shelf_of (cur + 1) m = (Map.empty, fst (shelf_of cur m))"
    using assms(2) by (simp add: shelf_of_def view_entry_def)
qed

lemma collect_refines:
  assumes "sound_content cur m" "2 \<le> cur"
  shows "sound_content cur (deleted (epochPrefix 0) (epochPrefix (cur - 1)) m)"
    "shelf_of cur (deleted (epochPrefix 0) (epochPrefix (cur - 1)) m) = shelf_of cur m"
proof -
  show "sound_content cur (deleted (epochPrefix 0) (epochPrefix (cur - 1)) m)"
    using assms(1) by (auto simp: sound_content_def deleted_def)
  have "\<not> cur < cur - 1" using assms(2) by (simp add: word_less_nat_alt word_le_nat_alt unat_sub_if_size)
  then have "\<not> boxKey cur boxID < epochPrefix (cur - 1)" "\<not> boxKey (cur - 1) boxID < epochPrefix (cur - 1)" for boxID
    using boxKey_before by blast+
  then show "shelf_of cur (deleted (epochPrefix 0) (epochPrefix (cur - 1)) m) = shelf_of cur m"
    by (auto simp: shelf_of_def deleted_def fun_eq_iff)
qed

definition action_ok :: "action \<Rightarrow> bool" where
  "action_ok a = (case a of WriteBox w \<Rightarrow> ReplicaWrite_validate w = None | _ \<Rightarrow> True)"

lemma empty_payload:
  assumes "ReplicaWrite_validate w = None" shows "rw_PayloadLen w = 0 \<or> rw_Payload w = [] \<longleftrightarrow> rw_Payload w = []"
  using assms by (auto simp: ReplicaWrite_validate_def unat_eq_zero split: if_splits)

lemma write_refines:
  assumes "working R content" "trunnel_sizes x (rgeo E)" "db st = Some d" "\<not> storageFull st" "sound_content cur (content d)"
    and "ReplicaWrite_validate w = None"
  shows "\<exists>d'. handleReplicaWrite E R cur w st = (write_reply (fst (shelf_write E (shelf_of cur (content d)) w)), st\<lparr>db := Some d'\<rparr>)
    \<and> sound_content cur (content d') \<and> shelf_of cur (content d') = snd (shelf_write E (shelf_of cur (content d)) w)"
proof -
  let ?b = "rw_BoxID w" and ?g = "rw_Signature w" and ?p = "rw_Payload w" and ?s = "shelf_of cur (content d)"
  note len = array_lengths [OF assms(6)]
  have put: "\<exists>d'. put_box R cur (new_box ?b ?g p) d st = (None, st\<lparr>db := Some d'\<rparr>) \<and> sound_content cur (content d')
      \<and> shelf_of cur (content d') = ((fst ?s)(?b \<mapsto> (p, ?g)), snd ?s)" if "length p \<le> 2 ^ 23 + 20" for p
  proof -
    obtain d1 where d1: "db_Put R d (boxKey cur ?b) (Box_Bytes (new_box ?b ?g p)) = (True, d1)"
      using workingD(2) [OF assms(1), of d "boxKey cur ?b" "Box_Bytes (new_box ?b ?g p)"] by metis
    have "box_BoxID (new_box ?b ?g p) = ?b" by (simp add: new_box_def)
    then have "put_box R cur (new_box ?b ?g p) d st = (None, st\<lparr>db := Some d1\<rparr>)" using d1 by (simp add: put_box_def)
    moreover have "content d1 = (content d)(boxKey cur ?b := Box_Bytes (new_box ?b ?g p))"
      using workingD(3) [OF assms(1), of d "boxKey cur ?b"] d1 by (metis snd_conv)
    ultimately show ?thesis using put_refines [OF _ _ that assms(5), of ?b ?g] len by auto
  qed
  have same: "st = st\<lparr>db := Some d\<rparr>" using assms(3) by simp
  have size: "length ?p \<le> 2 ^ 23 + 20" if "int (length ?p) = CalculateBoxCiphertextLength (rgeo E)"
    using assms(2) that by (auto simp: trunnel_sizes_def CalculateBoxCiphertextLength_def lengthPrefixSize_def bacapEncryptionOverhead_def)
  note e = empty_payload [OF assms(6)]
  show ?thesis
  proof (cases "ed_Unmarshal E ?b")
    case None
    then show ?thesis using assms(5) same
      by (auto simp: handleReplicaWrite_def e handleTombstone_def shelf_write_def Let_def)
  next
    case (Some k)
    show ?thesis
    proof (cases "?p = [] \<or> int (length ?p) = CalculateBoxCiphertextLength (rgeo E)")
      case False
      then have "rw_PayloadLen w \<noteq> 0" "rw_Payload w \<noteq> []" using e by blast+
      then show ?thesis using assms(5) same False by (auto simp: handleReplicaWrite_def shelf_write_def Let_def)
    next
      case shape: True
      show ?thesis
      proof (cases "ed_Verify E k ?p ?g")
        case False
        then show ?thesis using assms(5) same Some shape
          by (auto simp: handleReplicaWrite_def e handleTombstone_def shelf_write_def Let_def)
      next
        case True
        show ?thesis
        proof (cases "?p = []")
          case tomb: True
          then show ?thesis using put [of "[]"] Some True assms(3)
            by (auto simp: handleReplicaWrite_def e handleTombstone_def handleReplicaTombstone_def shelf_write_def Let_def)
        next
          case full: False
          then have n: "rw_PayloadLen w \<noteq> 0" using e by blast
          have same': "st\<lparr>db := Some d\<rparr> = st" using assms(3) by simp
          note ex = existing_refines [OF assms(1,5), of ?b ?g ?p]
          show ?thesis
          proof (cases "shelf_lookup ?s ?b")
            case None
            then show ?thesis using full n put [of ?p] size shape Some True assms(3,4) ex
              by (auto simp: handleReplicaWrite_def state_handleReplicaWrite_def shelf_write_def Let_def)
          next
            case (Some b')
            then show ?thesis using full n shape \<open>ed_Unmarshal E ?b = Some k\<close> True assms(3-5) ex
              by (intro exI [of _ d]) (auto simp: handleReplicaWrite_def state_handleReplicaWrite_def shelf_write_def Let_def same')
          qed
        qed
      qed
    qed
  qed
qed

lemma wipe_refines:
  assumes "working R content" "db st = Some d" "sound_content cur (content d)"
  shows "\<exists>d'. snd (WipeStaleBoxes R cur st) = st\<lparr>db := Some d'\<rparr> \<and> sound_content cur (content d')
    \<and> shelf_of cur (content d') = shelf_of cur (content d)"
proof (cases "cur < 2")
  case True
  then show ?thesis using assms(2,3) by (auto simp: WipeStaleBoxes_def intro!: exI [of _ d])
next
  case False
  then show ?thesis
    using collect_refines [OF assms(3)] assms(2) workingD(4) [OF assms(1), of d "epochPrefix 0" "epochPrefix (cur - 1)"]
    by (auto simp: WipeStaleBoxes_def Let_def split_def)
qed

lemma run_refines:
  assumes "working R content" "trunnel_sizes x (rgeo E)"
  shows "db st = Some d \<Longrightarrow> \<not> storageFull st \<Longrightarrow> sound_content cur (content d) \<Longrightarrow> \<forall>a \<in> set acts. action_ok a
    \<Longrightarrow> unat cur + length acts < 2 ^ 64 \<Longrightarrow> run_replica E R cur st acts = Inr (run_shelf E (shelf_of cur (content d)) acts)"
proof (induction acts arbitrary: cur st d)
  case (Cons a acts)
  show ?case
  proof (cases a)
    case (ReadBox r)
    then show ?thesis using Cons read_refines [OF assms(1) Cons.prems(1,3)] by simp
  next
    case (WriteBox w)
    have "ReplicaWrite_validate w = None" using Cons.prems(4) WriteBox by (simp add: action_ok_def)
    from write_refines [OF assms Cons.prems(1-3) this] obtain d' where
      d': "handleReplicaWrite E R cur w st = (write_reply (fst (shelf_write E (shelf_of cur (content d)) w)), st\<lparr>db := Some d'\<rparr>)"
        "sound_content cur (content d')" "shelf_of cur (content d') = snd (shelf_write E (shelf_of cur (content d)) w)" by blast
    have "run_replica E R cur (st\<lparr>db := Some d'\<rparr>) acts = Inr (run_shelf E (shelf_of cur (content d')) acts)"
      using Cons.IH [of "st\<lparr>db := Some d'\<rparr>" d' cur] Cons.prems d'(2) by simp
    then show ?thesis using WriteBox d' by (simp add: Let_def split_def)
  next
    case NextEpoch
    have u: "unat (cur + 1) = Suc (unat cur)" using Cons.prems(5) by (intro unat_next) simp
    then have nz: "cur + 1 \<noteq> 0" by (metis nat.distinct(1) unat_0)
    show ?thesis using u NextEpoch Cons.IH [of st d "cur + 1"] Cons.prems next_refines [OF Cons.prems(3) nz] by simp
  next
    case Collect
    obtain d' where d': "snd (WipeStaleBoxes R cur st) = st\<lparr>db := Some d'\<rparr>" "sound_content cur (content d')"
        "shelf_of cur (content d') = shelf_of cur (content d)"
      using wipe_refines [OF assms(1) Cons.prems(1,3)] by blast
    then show ?thesis using Collect Cons.IH [of "st\<lparr>db := Some d'\<rparr>" d' cur] Cons.prems by simp
  qed
qed simp

text \<open>
  C13. With a working database a replica answers every sequence of reads, writes, tombstones, epoch changes and
  collections as the store of two generations does: a box that is written is read back in this epoch and
  the next, it is written once, a second write is answered by whether it is the same, only a tombstone
  replaces it, and collecting changes no answer. From an empty database, with requests as the parser
  gives them.
\<close>

theorem replica_store_refines:
  assumes "working R content" "trunnel_sizes x (rgeo E)" "db st = Some d" "\<not> storageFull st" "content d = (\<lambda>_. [])"
    and "\<forall>a \<in> set acts. action_ok a" "unat cur + length acts < 2 ^ 64"
  shows "run_replica E R cur st acts = Inr (run_shelf E (Map.empty, Map.empty) acts)"
proof -
  have "sound_content cur (content d)" "shelf_of cur (content d) = (Map.empty, Map.empty)"
    using assms(5) by (auto simp: sound_content_def shelf_of_def view_entry_def)
  then show ?thesis using run_refines [OF assms(1-4) _ assms(6,7)] by simp
qed

definition demo_write :: BoxWrite where
  "demo_write = \<lparr>rw_BoxID = replicate 32 7, rw_Signature = replicate 64 7, rw_PayloadLen = 23, rw_Payload = replicate 23 1\<rparr>"

text \<open>Written, then read in the next epoch.\<close>

theorem replica_store_refines_witness:
  "run_replica demo_replica_env map_rocks 3 empty_store [WriteBox demo_write, NextEpoch, ReadBox \<lparr>rr_BoxID = replicate 32 7\<rparr>]
   = Inr [WriteAnswer (write_reply ReplicaSuccess), ReadAnswer \<lparr>rrr_ErrorCode = ReplicaSuccess, rrr_BoxID = replicate 32 7,
       rrr_Signature = replicate 64 7, rrr_PayloadLen = 23, rrr_Payload = replicate 23 1\<rparr>]"
proof -
  let ?acts = "[WriteBox demo_write, NextEpoch, ReadBox \<lparr>rr_BoxID = replicate 32 7\<rparr>]"
  have "run_replica demo_replica_env map_rocks 3 empty_store ?acts = Inr (run_shelf demo_replica_env (Map.empty, Map.empty) ?acts)"
  proof (rule replica_store_refines)
    show "working map_rocks (\<lambda>d. d)" using map_rocks_law by (simp add: working_def map_rocks_def)
    show "trunnel_sizes hpqc_sizes (rgeo demo_replica_env)" by (rule demo_sizes)
    show "db empty_store = Some (\<lambda>_. [])" "\<not> storageFull empty_store" by (simp_all add: empty_store_def)
  qed (simp_all add: action_ok_def ReplicaWrite_validate_def demo_write_def)
  also have "run_shelf demo_replica_env (Map.empty, Map.empty) ?acts
     = [WriteAnswer (write_reply ReplicaSuccess), ReadAnswer \<lparr>rrr_ErrorCode = ReplicaSuccess, rrr_BoxID = replicate 32 7,
       rrr_Signature = replicate 64 7, rrr_PayloadLen = 23, rrr_Payload = replicate 23 1\<rparr>]"
    by (simp add: shelf_write_def Let_def demo_write_def demo_replica_env_def CalculateBoxCiphertextLength_def small_geometry_def
        lengthPrefixSize_def bacapEncryptionOverhead_def shelf_lookup_def shelf_read_def)
  finally show ?thesis .
qed

end
