(* ===== verification/ReplicaRebalance.thy ===== *)
theory ReplicaRebalance
  imports ReplicaRefine
begin

text \<open>
  Rebalancing and the retry queue together: the queue keeps one write per destination and box ID, the last
  one, and a rebalance goes through the newer epoch first. So of a tombstone and the older box under it
  the tombstone is lost on the way to a replica that is not connected.
\<close>

lemma take_boxKey: "take 8 (boxKey ep boxID) = epochPrefix ep" "drop 8 (boxKey ep boxID) = boxID"
  using be64.take_put [of ep boxID] be64.drop_put [of ep boxID] by (simp_all add: boxKey_def epochPrefix_def)

lemma length_boxKey: "length (boxKey ep boxID) = 8 + length boxID"
  by (simp add: boxKey_def)

lemma epochPrefix_inject: "epochPrefix e = epochPrefix f \<longleftrightarrow> e = f"
  by (simp add: epochPrefix_def be64.put_inject)

definition write_of :: "'pk cmds \<Rightarrow> bytes \<Rightarrow> bytes \<Rightarrow> bytes \<Rightarrow> 'pk Command" where
  "write_of cs boxID signature payload = ReplicaWrite cs None (Some boxID) (Some signature) payload"

lemma blob_write:
  assumes "length boxID = 32" "length signature = 64" "length payload \<le> 2 ^ 23 + 20"
  shows "replicaWriteFromBlob (Some cs) (Box_Bytes (new_box boxID signature payload)) = Inr (write_of cs boxID signature payload)"
  using stored_box(1) [OF assms] by (simp add: replicaWriteFromBlob_def) (simp add: new_box_def write_of_def)

lemma one_entry:
  assumes "write value = Inr cmd" "targets boxID = Inr hs" "length boxID = 32" "rest = [] \<or> (\<exists>f i v. f \<noteq> ep \<and> rest = [(boxKey f i, v)])"
  shows "rebalance_epoch write targets (epochPrefix ep) ((boxKey ep boxID, value) # rest) = (map (Pair cmd) hs, None)"
proof -
  have "rebalance_epoch write targets (epochPrefix ep) rest = ([], None)"
    using assms(4) by (auto simp: take_boxKey epochPrefix_inject)
  then show ?thesis using assms(1-3) by (simp add: take_boxKey length_boxKey)
qed

lemma queue_keeps_last:
  assumes "h \<notin> conns co" "retryQueue co = []" "0 \<le> ttl"
  shows "\<exists>rc. dispatch_all blake ttl now [(write_of cs boxID s1 p1, h), (write_of cs boxID s2 p2, h)] co
      = Inr (co\<lparr>retryQueue := [rc]\<rparr>) \<and> rc_idHash rc = h \<and> rc_cmd rc = write_of cs boxID s2 p2"
  using assms
  by (auto simp: DispatchCommand_def QueueForRetry_def pruneRetryQueue_def cmdIdentity_def write_of_def maxRetryQueuePerPeer_def Let_def)

text \<open>
  C40. A deleted box comes back: if a replica holds a tombstone of this epoch over a box of the last one, then
  rebalancing towards a replica that is not connected leaves exactly one command in the retry queue, the
  write of the old box, and the tombstone is not sent.
\<close>

theorem rebalance_revives_deleted:
  assumes "db st = Some d" "cur \<noteq> 0" "length boxID = 32" "length s1 = 64" "length s2 = 64" "length payload \<le> 2 ^ 23 + 20"
    and "db_Seek R d (epochPrefix cur) = [(boxKey cur boxID, Box_Bytes (new_box boxID s1 []))]"
    and "db_Seek R d (epochPrefix (cur - 1)) =
      [(boxKey (cur - 1) boxID, Box_Bytes (new_box boxID s2 payload)), (boxKey cur boxID, Box_Bytes (new_box boxID s1 []))]"
    and "getRemoteShards p own docp boxID = Inr [shard]" "blake2b_256 p (raw_key (rd_IdentityKey shard)) = h"
    and "h \<notin> conns co" "retryQueue co = []" "0 \<le> ttl"
  shows "\<exists>ds st' rc. Rebalance p R (Some cs) own docp cur st = ((ds, None), st')
    \<and> dispatch_all (blake2b_256 p) ttl now ds co = Inr (co\<lparr>retryQueue := [rc]\<rparr>)
    \<and> rc_idHash rc = h \<and> rc_cmd rc = ReplicaWrite cs None (Some boxID) (Some s2) payload"
proof -
  let ?w1 = "write_of cs boxID s1 []" and ?w2 = "write_of cs boxID s2 payload"
  let ?cmd_of = "replicaWriteFromBlob (Some cs)"
  let ?targets = "\<lambda>boxID. go_bind (getRemoteShards p own docp boxID) (\<lambda>shards.
      Inr (map (\<lambda>shard. blake2b_256 p (raw_key (rd_IdentityKey shard))) shards))"
  have w: "replicaWriteFromBlob (Some cs) (Box_Bytes (new_box boxID s1 [])) = Inr ?w1"
    "replicaWriteFromBlob (Some cs) (Box_Bytes (new_box boxID s2 payload)) = Inr ?w2"
    using blob_write [OF assms(3,4), of "[]"] blob_write [OF assms(3,5,6)] by simp_all
  have prev_epoch: "cur \<noteq> cur - 1" by simp
  have t: "?targets boxID = Inr [h]" using assms(9,10) by simp
  have "rebalance_epoch (replicaWriteFromBlob (Some cs)) ?targets (epochPrefix cur) (db_Seek R d (epochPrefix cur)) = ([(?w1, h)], None)"
    using one_entry [of ?cmd_of _ _ ?targets boxID "[h]", OF w(1) t assms(3), of "[]" cur] assms(7) by simp
  moreover have "rebalance_epoch (replicaWriteFromBlob (Some cs)) ?targets (epochPrefix (cur - 1)) (db_Seek R d (epochPrefix (cur - 1)))
      = ([(?w2, h)], None)"
    unfolding assms(8) using one_entry [of ?cmd_of _ _ ?targets boxID "[h]", OF w(2) t assms(3)]
    by (metis (mono_tags, lifting) list.simps(8,9) prev_epoch)
  ultimately have "fst (Rebalance p R (Some cs) own docp cur st) = ([(?w1, h), (?w2, h)], None)"
    using assms(1,2) by (simp add: Rebalance_def keptEpochs_def)
  then obtain st' where r: "Rebalance p R (Some cs) own docp cur st = (([(?w1, h), (?w2, h)], None), st')"
    by (metis prod.collapse)
  from queue_keeps_last [OF assms(11-13), of "blake2b_256 p" now cs boxID s1 "[]" s2 payload] r
  show ?thesis unfolding write_of_def by blast
qed

section \<open>A concrete case\<close>

definition deleted_box :: bytes where "deleted_box = replicate 32 7"

definition two_epochs :: "unit rocks" where
  "two_epochs = \<lparr>db_Get = (\<lambda>_ _. Some []), db_Put = (\<lambda>d _ _. (True, d)), db_DeleteRange = (\<lambda>d _ _. (True, d)),
     db_Seek = (\<lambda>_ k. let t = (boxKey 4 deleted_box, Box_Bytes (new_box deleted_box (replicate 64 1) []));
         b = (boxKey 3 deleted_box, Box_Bytes (new_box deleted_box (replicate 64 2) [5]))
       in if k = epochPrefix 4 then [t] else if k = epochPrefix 3 then [b, t] else []),
     meta_Get = (\<lambda>_. Some []), meta_Put = (\<lambda>d _. (True, d))\<rparr>"

lemma deleted_Shard2: "Shard2 (\<lambda>b. take 32 (rev b @ replicate 32 0)) (replicate 32 7) [[1], [2], [3], [4]] = [[4], [3]]"
  by code_simp

lemma deleted_shards: "getRemoteShards demo_pki (Some [3]) (Some replica_document) deleted_box = Inr [demo_replica 4]"
proof -
  have "GetConfiguredReplicaKeys replica_document = Inr [[1], [2], [3], [4]]"
    by (simp add: GetConfiguredReplicaKeys_def replica_document_def K_def)
  moreover have "GetReplicaNodeByKeyHash demo_pki replica_document (blake2b_256 demo_pki [k]) = Inr (demo_replica k)"
    if "k \<in> {3, 4}" for k
    using that by (auto simp: GetReplicaNodeByKeyHash_def replica_document_def rd_hash_def raw_key_def demo_replica_def demo_pki_def)
  ultimately have "GetShards demo_pki (replicate 32 7) replica_document = Inr [demo_replica 4, demo_replica 3]"
    using deleted_Shard2 by (simp add: GetShards_def List.map_filter_def) (simp add: demo_pki_def)
  moreover have "raw_key (rd_IdentityKey (demo_replica k)) = [k]" for k by (simp add: raw_key_def demo_replica_def)
  moreover have "StorageReplicas replica_document \<noteq> []" by (simp add: replica_document_def)
  ultimately show ?thesis
    by (simp add: getRemoteShards_def GetRemoteShards_def deleted_box_def or_panic_def copy_into_def)
qed

theorem rebalance_revives_deleted_witness:
  "\<exists>ds st' rc. Rebalance demo_pki two_epochs (Some None :: byte cmds option) (Some [3]) (Some replica_document) 4
        \<lparr>db = Some (), metaCF = True, storageFull = False\<rparr> = ((ds, None), st')
    \<and> dispatch_all (blake2b_256 demo_pki) 5 9 ds \<lparr>conns = {}, retryQueue = [], sent = []\<rparr>
        = Inr \<lparr>conns = {}, retryQueue = [rc], sent = []\<rparr>
    \<and> rc_idHash rc = blake2b_256 demo_pki (raw_key (rd_IdentityKey (demo_replica 4)))
    \<and> rc_cmd rc = ReplicaWrite None None (Some deleted_box) (Some (replicate 64 2)) [5]"
  using rebalance_revives_deleted [of "\<lparr>db = Some (), metaCF = True, storageFull = False\<rparr>" "()" 4 deleted_box
      "replicate 64 1" "replicate 64 2" "[5]" two_epochs demo_pki "Some [3]" "Some replica_document" "demo_replica 4"
      "blake2b_256 demo_pki (raw_key (rd_IdentityKey (demo_replica 4)))" "\<lparr>conns = {}, retryQueue = [], sent = []\<rparr>" 5 None 9]
    deleted_shards
  by (simp add: two_epochs_def deleted_box_def epochPrefix_inject)

end
