(* ===== verification/CourierCache.thy ===== *)
theory CourierCache
  imports PigeonholeHelpers EpochTime
begin

text \<open>
  The courier's answers to clients (courier/server/plugin.go, envelope_epoch.go): an envelope is passed to its two
  replicas once and acknowledged at once; their replies are kept, and the client fetches them by sending the same
  envelope again. Copy commands run in the background and are asked for in the same way. The two caches are
  maps; a goroutine that is running is an entry of \<open>dispatching\<close> or of \<open>copying\<close>; times are nanoseconds.
\<close>

section \<open>Codes and replies\<close>

definition ReplyTypeACK :: byte where "ReplyTypeACK = 0"
definition ReplyTypePayload :: byte where "ReplyTypePayload = 1"

definition EnvelopeErrorSuccess :: byte where "EnvelopeErrorSuccess = 0"
definition EnvelopeErrorInvalidEnvelope :: byte where "EnvelopeErrorInvalidEnvelope = 1"
definition EnvelopeErrorCacheCorruption :: byte where "EnvelopeErrorCacheCorruption = 2"
definition EnvelopeErrorInvalidEpoch :: byte where "EnvelopeErrorInvalidEpoch = 4"

definition CopyStatusSucceeded :: byte where "CopyStatusSucceeded = 0"
definition CopyStatusInProgress :: byte where "CopyStatusInProgress = 1"
definition CopyStatusFailed :: byte where "CopyStatusFailed = 2"

definition envelope_reply :: "CourierEnvelopeReply \<Rightarrow> CourierQueryReply" where
  "envelope_reply r = \<lparr>cqr_ReplyType = 0, cqr_EnvelopeReply = Some r, cqr_CopyCommandReply = None\<rparr>"

definition copy_reply_of :: "byte \<Rightarrow> byte \<Rightarrow> u64 \<Rightarrow> CourierQueryReply" where
  "copy_reply_of status code i = \<lparr>cqr_ReplyType = 1, cqr_EnvelopeReply = None,
     cqr_CopyCommandReply = Some \<lparr>ccr_Status = status, ccr_ErrorCode = code, ccr_FailedEnvelopeIndex = i\<rparr>\<rparr>"

definition inProgressReply :: CourierQueryReply where
  "inProgressReply = copy_reply_of CopyStatusInProgress 0 0"

definition copySucceededReply :: CourierQueryReply where
  "copySucceededReply = copy_reply_of CopyStatusSucceeded 0 0"

definition copyFailedReply :: "byte \<Rightarrow> u64 \<Rightarrow> CourierQueryReply" where
  "copyFailedReply replicaErr failedEnvelopeIndex = copy_reply_of CopyStatusFailed replicaErr failedEnvelopeIndex"

definition createEnvelopeErrorReply :: "bytes \<Rightarrow> byte \<Rightarrow> byte \<Rightarrow> CourierQueryReply" where
  "createEnvelopeErrorReply envHash errorCode replyIndex =
     envelope_reply \<lparr>cer_EnvelopeHash = envHash, cer_ReplyIndex = replyIndex, cer_ReplyType = ReplyTypeACK,
       cer_PayloadLen = 0, cer_Payload = [], cer_ErrorCode = errorCode\<rparr>"

definition ackReply :: "bytes \<Rightarrow> byte \<Rightarrow> CourierQueryReply" where
  "ackReply envHash replyIndex =
     envelope_reply \<lparr>cer_EnvelopeHash = envHash, cer_ReplyIndex = replyIndex, cer_ReplyType = ReplyTypeACK,
       cer_PayloadLen = 0, cer_Payload = [], cer_ErrorCode = EnvelopeErrorSuccess\<rparr>"

section \<open>State\<close>

record replica_reply =
  re_ErrorCode :: byte
  re_EnvelopeHash :: "bytes option"
  re_EnvelopeReply :: bytes
  re_ReplicaID :: byte

record CourierBookKeeping =
  bk_Epoch :: u64
  bk_CreatedAt :: int
  bk_QueryType :: byte
  bk_Replicas :: "byte list"
  bk_Replies :: "replica_reply option list"

record CopyCommandState =
  co_InProgress :: bool
  co_Result :: "CourierQueryReply option"
  co_CompletedAt :: int

text \<open>\<open>copyCache\<close> holds the channels of the running copies: the room of each and what is in it.\<close>

record courier =
  dedupCache :: "bytes \<rightharpoonup> CourierBookKeeping"
  copyCache :: "bytes \<rightharpoonup> nat \<times> replica_reply list"
  copyDedupCache :: "bytes \<rightharpoonup> CopyCommandState"
  inFlight :: "bytes set"
  dispatching :: "(bytes \<times> CourierEnvelope) list"
  copying :: "(bytes \<times> CopyCommand) list"

definition NewCourier :: courier where
  "NewCourier = \<lparr>dedupCache = Map.empty, copyCache = Map.empty, copyDedupCache = Map.empty, inFlight = {},
     dispatching = [], copying = []\<rparr>"

definition DedupCacheTTL :: int where "DedupCacheTTL = 5 * 60 * 10 ^ 9"
definition CopyDedupCacheTTL :: int where "CopyDedupCacheTTL = 30 * 60 * 10 ^ 9"

definition ValidCourierEnvelopeEpochWindow :: u64 where "ValidCourierEnvelopeEpochWindow = 1"

definition isEnvelopeEpochAcceptable :: "u64 \<Rightarrow> u64 \<Rightarrow> bool" where
  "isEnvelopeEpochAcceptable envelopeEpoch cur =
     (if envelopeEpoch > cur then envelopeEpoch - cur \<le> ValidCourierEnvelopeEpochWindow
      else cur - envelopeEpoch \<le> ValidCourierEnvelopeEpochWindow)"

definition pruneDedupCache :: "int \<Rightarrow> int \<Rightarrow> (bytes \<rightharpoonup> CourierBookKeeping) \<Rightarrow> bytes \<rightharpoonup> CourierBookKeeping" where
  "pruneDedupCache now ttl m = (\<lambda>k. case m k of None \<Rightarrow> None
     | Some entry \<Rightarrow> if now - bk_CreatedAt entry > ttl then None else Some entry)"

definition pruneCopyDedupCache :: "int \<Rightarrow> int \<Rightarrow> (bytes \<rightharpoonup> CopyCommandState) \<Rightarrow> bytes \<rightharpoonup> CopyCommandState" where
  "pruneCopyDedupCache now ttl m = (\<lambda>k. case m k of None \<Rightarrow> None
     | Some s \<Rightarrow> if \<not> co_InProgress s \<and> now - co_CompletedAt s > ttl then None else Some s)"

section \<open>Replies of the replicas\<close>

fun findReplicaIndex :: "byte list \<Rightarrow> byte \<Rightarrow> nat option" where
  "findReplicaIndex [] replicaID = None"
| "findReplicaIndex (i # ids) replicaID =
     (if i = replicaID then Some 0 else map_option Suc (findReplicaIndex ids replicaID))"

text \<open>A reply takes an empty slot, or the slot of an error.\<close>

definition storeOrReplaceReply :: "CourierBookKeeping \<Rightarrow> replica_reply \<Rightarrow> nat \<Rightarrow> CourierBookKeeping" where
  "storeOrReplaceReply entry reply i =
     (case bk_Replies entry ! i of
        None \<Rightarrow> entry\<lparr>bk_Replies := (bk_Replies entry)[i := Some reply]\<rparr>
      | Some old \<Rightarrow> if re_ErrorCode old \<noteq> 0 then entry\<lparr>bk_Replies := (bk_Replies entry)[i := Some reply]\<rparr> else entry)"

text \<open>The first slot of an unknown replica that has no reply yet.\<close>

definition unused_slot :: "CourierBookKeeping \<Rightarrow> nat option" where
  "unused_slot entry =
     List.find (\<lambda>i. bk_Replicas entry ! i = 255 \<and> bk_Replies entry ! i = None) [0..<length (bk_Replicas entry)]"

definition handleExistingEntry :: "CourierBookKeeping \<Rightarrow> replica_reply \<Rightarrow> CourierBookKeeping" where
  "handleExistingEntry entry reply =
     (case findReplicaIndex (bk_Replicas entry) (re_ReplicaID reply) of
        Some i \<Rightarrow> storeOrReplaceReply entry reply i
      | None \<Rightarrow> (case unused_slot entry of None \<Rightarrow> entry
          | Some i \<Rightarrow> entry\<lparr>bk_Replicas := (bk_Replicas entry)[i := re_ReplicaID reply],
                            bk_Replies := (bk_Replies entry)[i := Some reply]\<rparr>))"

definition CacheReply :: "replica_reply \<Rightarrow> courier \<Rightarrow> courier" where
  "CacheReply reply e =
     (case re_EnvelopeHash reply of None \<Rightarrow> e
      | Some h \<Rightarrow> (case dedupCache e h of None \<Rightarrow> e
          | Some entry \<Rightarrow> e\<lparr>dedupCache := (dedupCache e)(h \<mapsto> handleExistingEntry entry reply)\<rparr>))"

text \<open>A nil hash panics; \<open>None\<close> is a sender that waits for room in the channel.\<close>

definition HandleReply :: "replica_reply \<Rightarrow> courier \<Rightarrow> (unit, courier option) go" where
  "HandleReply reply e =
     go_bind (deref (re_EnvelopeHash reply)) (\<lambda>h.
       case copyCache e h of
         Some (room, q) \<Rightarrow> Inr (if length q < room then Some (e\<lparr>copyCache := (copyCache e)(h \<mapsto> (room, q @ [reply]))\<rparr>) else None)
       | None \<Rightarrow> Inr (Some (CacheReply reply e)))"

section \<open>Queries of the clients\<close>

text \<open>At most one dispatch of an envelope runs at a time.\<close>

definition scheduleReplicaDispatch :: "bytes \<Rightarrow> CourierEnvelope \<Rightarrow> courier \<Rightarrow> courier" where
  "scheduleReplicaDispatch envHash courierMessage e =
     (if envHash \<in> inFlight e then e
      else e\<lparr>inFlight := insert envHash (inFlight e), dispatching := dispatching e @ [(envHash, courierMessage)]\<rparr>)"

definition dispatch_ends :: "nat \<Rightarrow> courier \<Rightarrow> courier" where
  "dispatch_ends i e =
     e\<lparr>inFlight := inFlight e - {fst (dispatching e ! i)},
       dispatching := take i (dispatching e) @ drop (Suc i) (dispatching e)\<rparr>"

definition cacheEntryHasOnlyErrors :: "CourierBookKeeping \<Rightarrow> bool" where
  "cacheEntryHasOnlyErrors entry \<longleftrightarrow>
     (\<forall>r \<in> set (bk_Replies entry). \<forall>reply. r = Some reply \<longrightarrow> re_ErrorCode reply \<noteq> 0)
     \<and> (\<exists>r \<in> set (bk_Replies entry). r \<noteq> None)"

text \<open>The index of the reply that is given out and its payload; the other reply if there is none at the index asked for.\<close>

definition old_payload :: "CourierBookKeeping \<Rightarrow> byte \<Rightarrow> byte \<times> bytes" where
  "old_payload entry ix =
     (let other = Bit_Operations.xor ix 1 in
      case bk_Replies entry ! unat ix of
        Some r \<Rightarrow>
          (case bk_Replies entry ! unat other of
             Some o' \<Rightarrow> if re_EnvelopeReply r = [] \<and> re_EnvelopeReply o' \<noteq> [] then (other, re_EnvelopeReply o')
                       else (ix, re_EnvelopeReply r)
           | None \<Rightarrow> (ix, re_EnvelopeReply r))
      | None \<Rightarrow>
          (case bk_Replies entry ! unat other of
             Some o' \<Rightarrow> (other, re_EnvelopeReply o')
           | None \<Rightarrow> (ix, [])))"

definition handleOldMessage :: "CourierBookKeeping option \<Rightarrow> bytes \<Rightarrow> CourierEnvelope \<Rightarrow> CourierQueryReply" where
  "handleOldMessage cacheEntry envHash courierMessage =
     (if ReplyIndex courierMessage > 1 then createEnvelopeErrorReply envHash EnvelopeErrorInvalidEnvelope 0
      else case cacheEntry of
        None \<Rightarrow> createEnvelopeErrorReply envHash EnvelopeErrorCacheCorruption (ReplyIndex courierMessage)
      | Some entry \<Rightarrow>
          let (ix, payload) = old_payload entry (ReplyIndex courierMessage) in
          envelope_reply \<lparr>cer_EnvelopeHash = envHash, cer_ReplyIndex = ix,
            cer_ReplyType = (if payload \<noteq> [] then ReplyTypePayload else ReplyTypeACK),
            cer_PayloadLen = word_of_nat (length payload), cer_Payload = payload, cer_ErrorCode = EnvelopeErrorSuccess\<rparr>)"

text \<open>The epoch of the document, the replica epoch and the two readings of the clock.\<close>

definition cacheHandleCourierEnvelope ::
  "(bytes \<Rightarrow> bytes) \<Rightarrow> u64 option \<Rightarrow> u64 \<Rightarrow> int \<Rightarrow> int \<Rightarrow> byte \<Rightarrow> CourierEnvelope \<Rightarrow> courier \<Rightarrow> CourierQueryReply \<times> courier" where
  "cacheHandleCourierEnvelope blake docEpoch replicaEpoch t1 t2 queryType courierMessage e =
     (let envHash = CourierEnvelope_Hash blake courierMessage in
      if \<not> isEnvelopeEpochAcceptable (Epoch courierMessage) replicaEpoch
      then (createEnvelopeErrorReply envHash EnvelopeErrorInvalidEpoch (ReplyIndex courierMessage), e)
      else (case dedupCache e envHash of
        None \<Rightarrow>
          let entry = \<lparr>bk_Epoch = (case docEpoch of None \<Rightarrow> 0 | Some ep \<Rightarrow> ep), bk_CreatedAt = t2, bk_QueryType = queryType,
                bk_Replicas = IntermediateReplicas courierMessage, bk_Replies = [None, None]\<rparr>
          in (ackReply envHash (ReplyIndex courierMessage),
              scheduleReplicaDispatch envHash courierMessage
                (e\<lparr>dedupCache := (pruneDedupCache t1 DedupCacheTTL (dedupCache e))(envHash \<mapsto> entry)\<rparr>))
      | Some entry \<Rightarrow>
          (handleOldMessage (Some entry) envHash courierMessage,
           if cacheEntryHasOnlyErrors entry then scheduleReplicaDispatch envHash courierMessage e else e)))"

definition handleCopyCommand ::
  "(bytes \<Rightarrow> bytes) \<Rightarrow> int \<Rightarrow> int \<Rightarrow> CopyCommand \<Rightarrow> courier \<Rightarrow> CourierQueryReply option \<times> courier" where
  "handleCopyCommand blake t1 t2 copyCmd e =
     (let copyKey = blake (cc_WriteCap copyCmd);
          start = (\<lambda>m. (Some inProgressReply,
            e\<lparr>copyDedupCache := (pruneCopyDedupCache t2 CopyDedupCacheTTL m)
                (copyKey \<mapsto> \<lparr>co_InProgress = True, co_Result = None, co_CompletedAt = 0\<rparr>),
              copying := copying e @ [(copyKey, copyCmd)]\<rparr>))
      in case copyDedupCache e copyKey of
           None \<Rightarrow> start (copyDedupCache e)
         | Some s \<Rightarrow>
             if co_InProgress s then (Some inProgressReply, e)
             else if t1 - co_CompletedAt s < CopyDedupCacheTTL then (co_Result s, e)
             else start ((copyDedupCache e)(copyKey := None)))"

text \<open>
  The end of a copy: its result, or a failure if it panicked. The state it writes to is shared with the cache, where
  it is as long as it is in progress.
\<close>

definition runCopyCommand_ends :: "int \<Rightarrow> nat \<Rightarrow> (unit, CourierQueryReply) go \<Rightarrow> courier \<Rightarrow> courier" where
  "runCopyCommand_ends now i outcome e =
     (let copyKey = fst (copying e ! i);
          res = (case outcome of Inr r \<Rightarrow> r | Inl _ \<Rightarrow> copy_reply_of CopyStatusFailed 0 0)
      in e\<lparr>copyDedupCache := (copyDedupCache e)(copyKey \<mapsto> \<lparr>co_InProgress = False, co_Result = Some res, co_CompletedAt = now\<rparr>),
           copying := take i (copying e) @ drop (Suc i) (copying e)\<rparr>)"

text \<open>The answer to a query, encoded; \<open>None\<close> if the query carries nothing. A nil reply panics.\<close>

definition OnCommand ::
  "(bytes \<Rightarrow> bytes) \<Rightarrow> u64 option \<Rightarrow> u64 \<Rightarrow> int \<Rightarrow> int \<Rightarrow> bytes \<Rightarrow> courier \<Rightarrow> (trunnel_err, CourierQueryReply option \<times> courier) go" where
  "OnCommand blake docEpoch replicaEpoch t1 t2 payload e =
     go_bind (CourierQueryFromBytes payload) (\<lambda>q.
       case cq_Envelope q of
         Some envelope \<Rightarrow>
           let (reply, e') = cacheHandleCourierEnvelope blake docEpoch replicaEpoch t1 t2 (cq_QueryType q) envelope e
           in Inr (Some reply, e')
       | None \<Rightarrow> (case cq_CopyCommand q of
             Some copyCmd \<Rightarrow> let (reply, e') = handleCopyCommand blake t1 t2 copyCmd e
               in go_bind (deref reply) (\<lambda>reply. Inr (Some reply, e'))
           | None \<Rightarrow> Inr (None, e)))"

section \<open>Reaching a replica\<close>

datatype send_err = noPKIDocument | noReplicas | unknownReplicaID lookup_err | connectionNotFound

text \<open>The document of this epoch or the last one cached; the hash of the replica's key (connector.go).\<close>

definition destToNodeID ::
  "('pub, 'priv) pki_env \<Rightarrow> Document option \<Rightarrow> Document option \<Rightarrow> byte \<Rightarrow> (send_err, bytes) go" where
  "destToNodeID p cur lastDoc dest =
     (case (case cur of None \<Rightarrow> lastDoc | Some doc \<Rightarrow> Some doc) of
        None \<Rightarrow> Inl (Err noPKIDocument)
      | Some doc \<Rightarrow> if StorageReplicas doc = [] then Inl (Err noReplicas)
          else (case GetReplicaNodeByReplicaID doc dest of
              Inl Panic \<Rightarrow> Inl Panic
            | Inl (Err e) \<Rightarrow> Inl (Err (unknownReplicaID e))
            | Inr replica \<Rightarrow> Inr (blake2b_256 p (raw_key (rd_IdentityKey replica)))))"

text \<open>The connection that gets the message.\<close>

definition DispatchMessage ::
  "('pub, 'priv) pki_env \<Rightarrow> Document option \<Rightarrow> Document option \<Rightarrow> bytes set \<Rightarrow> byte \<Rightarrow> (send_err, bytes) go" where
  "DispatchMessage p cur lastDoc conns dest =
     go_bind (destToNodeID p cur lastDoc dest) (\<lambda>i. if i \<in> conns then Inr i else Inl (Err connectionNotFound))"

end
