(* ===== verification/CourierCopy.thy ===== *)
theory CourierCopy
  imports CourierCache CopyStreamProps
begin

text \<open>
  Copy commands (courier/server/plugin.go, copy_errors.go): the courier reads the boxes of a temporary stream from the
  replicas that keep them, decodes the envelopes inside, sends each to its two replicas and, at the end, writes over
  the boxes of the stream. BACAP, the NIKE and the multi-recipient KEM are the parameters in \<open>copy_env\<close>. Everything
  outside the courier is a state \<open>'n\<close>, which it changes by sending a message to a replica, by waiting for the replies
  with an envelope hash until a deadline, by sleeping, by drawing random numbers and by asking for the PKI document
  and the replica epoch.
\<close>

record ('cap, 'rd, 'wr, 'np, 'ns, 'n) copy_env =
  NewWriteCapFromBytes :: "bytes \<Rightarrow> 'cap option"
  NewStatefulReader :: "'cap \<Rightarrow> 'rd option"
  NextBoxID :: "'rd \<Rightarrow> bytes option \<times> 'rd"
  DecryptNext :: "'rd \<Rightarrow> bytes \<Rightarrow> bytes \<Rightarrow> bytes \<Rightarrow> bytes option \<times> 'rd"     \<comment> \<open>of box ID, ciphertext and signature\<close>
  NewStatefulWriter :: "'cap \<Rightarrow> 'wr option"
  EncryptNext :: "'wr \<Rightarrow> bytes \<Rightarrow> (bytes \<times> bytes \<times> bytes) option \<times> 'wr"   \<comment> \<open>box ID, ciphertext, signature\<close>
  key_Unmarshal :: "bytes \<Rightarrow> 'np option"
  Encapsulate :: "'np list \<Rightarrow> bytes \<Rightarrow> 'n \<Rightarrow> ('ns \<times> bytes list \<times> bytes) \<times> 'n"
  Public_Bytes :: "'ns \<Rightarrow> bytes"
  DecryptEnvelope :: "'ns \<Rightarrow> 'np \<Rightarrow> bytes \<Rightarrow> bytes option"
  net_send :: "byte \<Rightarrow> bytes \<times> bytes \<times> bytes \<Rightarrow> 'n \<Rightarrow> bool \<times> 'n"     \<comment> \<open>sender key, DEK and ciphertext\<close>
  net_wait :: "bytes \<Rightarrow> nat \<Rightarrow> 'n \<Rightarrow> replica_reply list \<times> 'n"
  net_sleep :: "int \<Rightarrow> 'n \<Rightarrow> 'n"
  net_document :: "'n \<Rightarrow> Document option \<times> 'n"
  net_epoch :: "'n \<Rightarrow> u64 \<times> 'n"
  copyGeo :: PGeometry
  copySizes :: hpqc

definition maxCopyReadTransientAttempts :: nat where "maxCopyReadTransientAttempts = 8"
definition maxCopyWriteAttempts :: nat where "maxCopyWriteAttempts = 8"
definition copyBackoffBase :: int where "copyBackoffBase = 500 * 10 ^ 6"
definition copyBackoffCap :: int where "copyBackoffCap = 10 * 10 ^ 9"
definition maxCopyStreamBoxes :: nat where "maxCopyStreamBoxes = 2 ^ 16"
definition maxCopyStreamEnvelopes :: u64 where "maxCopyStreamEnvelopes = 2 ^ 16"

definition copyAttemptBackoff :: "nat \<Rightarrow> int" where
  "copyAttemptBackoff attempt =
     (let d = copyBackoffBase * 2 ^ min attempt 8 in if d > copyBackoffCap then copyBackoffCap else d)"

datatype replicaErrorCategory = replicaErrorTemporary | replicaErrorPermanent

definition classifyReplicaErrorForCopyRead :: "byte \<Rightarrow> replicaErrorCategory" where
  "classifyReplicaErrorForCopyRead code =
     (if code \<in> {ReplicaErrorBoxIDNotFound, ReplicaErrorStorageFull, ReplicaErrorDatabaseFailure,
          ReplicaErrorInternalError, ReplicaErrorReplicationFailed}
      then replicaErrorTemporary else replicaErrorPermanent)"

definition pause :: "('cap, 'rd, 'wr, 'np, 'ns, 'n) copy_env \<Rightarrow> nat \<Rightarrow> 'n \<Rightarrow> 'n" where
  "pause N attempt w = (if attempt > 0 then net_sleep N (copyAttemptBackoff (attempt - 1)) w else w)"

section \<open>Sending an envelope\<close>

definition propagateQueryToReplicas :: "('cap, 'rd, 'wr, 'np, 'ns, 'n) copy_env \<Rightarrow> CourierEnvelope \<Rightarrow> 'n \<Rightarrow> bool \<times> 'n" where
  "propagateQueryToReplicas N c w =
     (let (ok, w) = net_send N (IntermediateReplicas c ! 0) (SenderPubkey c, Dek1 c, Ciphertext c) w in
      if \<not> ok then (False, w) else net_send N (IntermediateReplicas c ! 1) (SenderPubkey c, Dek2 c, Ciphertext c) w)"

definition best_error :: "replica_reply list \<Rightarrow> byte" where
  "best_error replies =
     (if \<exists>r \<in> set replies. re_ErrorCode r = ReplicaErrorBoxAlreadyExists then ReplicaErrorBoxAlreadyExists
      else re_ErrorCode (hd replies))"

fun dispatch_attempts ::
  "('cap, 'rd, 'wr, 'np, 'ns, 'n) copy_env \<Rightarrow> bytes \<Rightarrow> CourierEnvelope \<Rightarrow> nat list \<Rightarrow> 'n \<Rightarrow> (bool \<times> byte) \<times> 'n" where
  "dispatch_attempts N envHash c [] w = ((False, 0), w)"
| "dispatch_attempts N envHash c (attempt # attempts) w =
     (case propagateQueryToReplicas N c (pause N attempt w) of
        (False, w) \<Rightarrow> dispatch_attempts N envHash c attempts w
      | (True, w) \<Rightarrow>
         let (replies, w) = net_wait N envHash 2 w; replies = take 2 replies in
         if \<exists>r \<in> set replies. re_ErrorCode r = ReplicaSuccess then ((True, 0), w)
         else if replies \<noteq> [] then ((False, best_error replies), w)
         else dispatch_attempts N envHash c attempts w)"

definition dispatchCopyEnvelope ::
  "('cap, 'rd, 'wr, 'np, 'ns, 'n) copy_env \<Rightarrow> (bytes \<Rightarrow> bytes) \<Rightarrow> CourierEnvelope \<Rightarrow> 'n \<Rightarrow> (bool \<times> byte) \<times> 'n" where
  "dispatchCopyEnvelope N blake c w =
     dispatch_attempts N (CourierEnvelope_Hash blake c) c [0..<maxCopyWriteAttempts] w"

section \<open>Reading a box\<close>

text \<open>A reply or an error code of the replica; the error is everything else.\<close>

definition dek_of :: "bytes list \<Rightarrow> nat \<Rightarrow> (unit, bytes) go" where
  "dek_of deks i = (if i < length deks \<and> 60 \<le> length (deks ! i) then Inr (take 60 (deks ! i)) else Inl Panic)"

definition open_reply ::
  "('cap, 'rd, 'wr, 'np, 'ns, 'n) copy_env \<Rightarrow> 'ns \<Rightarrow> 'np \<Rightarrow> bytes \<Rightarrow> (unit, BoxReadReply) go" where
  "open_reply N mkemPrivateKey shardPubKey envelope =
     (case DecryptEnvelope N mkemPrivateKey shardPubKey envelope of None \<Rightarrow> Inl (Err ())
      | Some raw \<Rightarrow> (case ExtractMessageFromPaddedPayload raw of Inl Panic \<Rightarrow> Inl Panic | Inl (Err _) \<Rightarrow> Inl (Err ())
        | Inr innerBytes \<Rightarrow> (case ParseReplicaMessageReplyInnerMessage innerBytes of Inl Panic \<Rightarrow> Inl Panic
          | Inl (Err _) \<Rightarrow> Inl (Err ())
          | Inr inner \<Rightarrow> (case rmr_ReadReply inner of None \<Rightarrow> Inl (Err ()) | Some r \<Rightarrow> Inr r))))"

definition tryReadFromShardReplica ::
  "('cap, 'rd, 'wr, 'np, 'ns, 'n) copy_env \<Rightarrow> (bytes \<Rightarrow> bytes) \<Rightarrow> bytes \<Rightarrow> byte \<Rightarrow> 'np \<Rightarrow> 'n
     \<Rightarrow> (unit, BoxReadReply option \<times> byte) go \<times> 'n" where
  "tryReadFromShardReplica N blake boxID replicaID shardPubKey w =
     (case PadInnerMessageForEncryption (copySizes N)
         \<lparr>rim_MessageType = 0, rim_ReadMsg = Some \<lparr>rr_BoxID = boxID\<rparr>, rim_WriteMsg = None\<rparr> (Some (copyGeo N)) of
        Inl Panic \<Rightarrow> (Inl Panic, w)
      | Inl (Err _) \<Rightarrow> (Inl (Err ()), w)
      | Inr padded \<Rightarrow>
         let ((priv, deks, envelope), w) = Encapsulate N [shardPubKey] padded w in
         (case dek_of deks 0 of Inl f \<Rightarrow> (Inl f, w)
          | Inr dek \<Rightarrow>
             (case net_send N replicaID (Public_Bytes N priv, dek, envelope) w of
                (False, w) \<Rightarrow> (Inl (Err ()), w)
              | (True, w) \<Rightarrow>
                 (case net_wait N (blake (Public_Bytes N priv @ envelope)) 1 w of
                    ([], w) \<Rightarrow> (Inl (Err ()), w)
                  | (reply # _, w) \<Rightarrow>
                     if re_ErrorCode reply \<noteq> ReplicaSuccess then (Inr (None, re_ErrorCode reply), w)
                     else (go_bind (open_reply N priv shardPubKey (re_EnvelopeReply reply)) (\<lambda>r. Inr (Some r, 0)), w)))))"

text \<open>The attempts at one replica, and the last error code seen.\<close>

fun read_attempts ::
  "('n \<Rightarrow> (unit, BoxReadReply option \<times> byte) go \<times> 'n) \<Rightarrow> (nat \<Rightarrow> 'n \<Rightarrow> 'n) \<Rightarrow> nat list \<Rightarrow> byte \<Rightarrow> 'n
     \<Rightarrow> (unit, BoxReadReply option \<times> byte) go \<times> 'n" where
  "read_attempts try_read wait [] lastCode w = (Inr (None, lastCode), w)"
| "read_attempts try_read wait (attempt # attempts) lastCode w =
     (case try_read (wait attempt w) of
        (Inl Panic, w) \<Rightarrow> (Inl Panic, w)
      | (Inl (Err _), w) \<Rightarrow> read_attempts try_read wait attempts lastCode w
      | (Inr (r, code), w) \<Rightarrow>
          if code = ReplicaSuccess then (Inr (r, 0), w)
          else (case classifyReplicaErrorForCopyRead code of
              replicaErrorTemporary \<Rightarrow> read_attempts try_read wait attempts code w
            | replicaErrorPermanent \<Rightarrow> (Inr (None, code), w)))"

fun read_shards ::
  "('cap, 'rd, 'wr, 'np, 'ns, 'n) copy_env \<Rightarrow> (bytes \<Rightarrow> bytes) \<Rightarrow> bytes \<Rightarrow> u64 \<Rightarrow> ReplicaDescriptor list \<Rightarrow> byte \<Rightarrow> 'n
     \<Rightarrow> (byte, BoxReadReply) go \<times> 'n" where
  "read_shards N blake boxID replicaEpoch [] lastCode w = (Inl (Err lastCode), w)"
| "read_shards N blake boxID replicaEpoch (shard # shards) lastCode w =
     (case map_of (case EnvelopeKeys shard of None \<Rightarrow> [] | Some m \<Rightarrow> m) replicaEpoch of
        None \<Rightarrow> read_shards N blake boxID replicaEpoch shards lastCode w
      | Some keyBytes \<Rightarrow>
         if keyBytes = [] then read_shards N blake boxID replicaEpoch shards lastCode w
         else (case key_Unmarshal N keyBytes of
            None \<Rightarrow> read_shards N blake boxID replicaEpoch shards lastCode w
          | Some shardPubKey \<Rightarrow>
             (case read_attempts (tryReadFromShardReplica N blake boxID (ReplicaID shard) shardPubKey) (pause N)
                 [0..<maxCopyReadTransientAttempts] lastCode w of
                (Inl _, w) \<Rightarrow> (Inl Panic, w)
              | (Inr (Some r, _), w) \<Rightarrow> (Inr r, w)
              | (Inr (None, code), w) \<Rightarrow> read_shards N blake boxID replicaEpoch shards code w)))"

definition readBoxFromShardReplicas ::
  "('cap, 'rd, 'wr, 'np, 'ns, 'n) copy_env \<Rightarrow> ('pub, 'priv) pki_env \<Rightarrow> bytes \<Rightarrow> 'n \<Rightarrow> (byte, BoxReadReply) go \<times> 'n" where
  "readBoxFromShardReplicas N p boxID w =
     (case net_document N w of
        (None, w) \<Rightarrow> (Inl (Err 0), w)
      | (Some doc, w) \<Rightarrow> (case GetShards p boxID doc of
            Inl Panic \<Rightarrow> (Inl Panic, w)
          | Inl (Err _) \<Rightarrow> (Inl (Err 0), w)
          | Inr shards \<Rightarrow> if shards = [] then (Inl (Err 0), w)
              else let (replicaEpoch, w) = net_epoch N w
                   in read_shards N (blake2b_256 p) boxID replicaEpoch shards 0 w))"

text \<open>The plaintext of the box; the error is the code to report.\<close>

definition readNextBox ::
  "('cap, 'rd, 'wr, 'np, 'ns, 'n) copy_env \<Rightarrow> ('pub, 'priv) pki_env \<Rightarrow> 'rd \<Rightarrow> bytes \<Rightarrow> 'n \<Rightarrow> (byte, bytes) go \<times> 'rd \<times> 'n" where
  "readNextBox N p reader boxID w =
     (case readBoxFromShardReplicas N p boxID w of
        (Inl f, w) \<Rightarrow> (Inl f, reader, w)
      | (Inr r, w) \<Rightarrow>
         (case DecryptNext N reader boxID (rrr_Payload r) (copy_into 64 (rrr_Signature r)) of
            (None, reader) \<Rightarrow> (Inl (Err 0), reader, w)
          | (Some padded, reader) \<Rightarrow>
             ((case ExtractMessageFromPaddedPayload padded of Inl Panic \<Rightarrow> Inl Panic | Inl (Err _) \<Rightarrow> Inl (Err 0)
               | Inr plain \<Rightarrow> Inr plain), reader, w)))"

section \<open>The copy\<close>

text \<open>The error code that stopped the copy, if one did, and how many envelopes have been processed.\<close>

fun copy_envelopes ::
  "(CourierEnvelope \<Rightarrow> 'n \<Rightarrow> (bool \<times> byte) \<times> 'n) \<Rightarrow> CourierEnvelope list \<Rightarrow> u64 \<Rightarrow> 'n \<Rightarrow> byte option \<times> u64 \<times> 'n" where
  "copy_envelopes dispatch [] processed w = (None, processed, w)"
| "copy_envelopes dispatch (c # cs) processed w =
     (case dispatch c w of
        ((False, code), w) \<Rightarrow> (Some code, processed, w)
      | ((True, _), w) \<Rightarrow> copy_envelopes dispatch cs (processed + 1) w)"

function copy_loop ::
  "('cap, 'rd, 'wr, 'np, 'ns, 'n) copy_env \<Rightarrow> ('pub, 'priv) pki_env \<Rightarrow> 'rd \<Rightarrow> bytes list \<Rightarrow> CopyStreamEnvelopeDecoder \<Rightarrow> u64 \<Rightarrow> 'n
     \<Rightarrow> (unit, CourierQueryReply \<times> bytes list) go \<times> 'n" where
  "copy_loop N p reader boxIDList decoder processed w =
     (let failed = (\<lambda>code n. Inr (copyFailedReply code (n + 1), boxIDList)) in
      if length boxIDList \<ge> maxCopyStreamBoxes then (failed 0 processed, w)
      else if processed \<ge> maxCopyStreamEnvelopes then (failed 0 processed, w)
      else (case NextBoxID N reader of
         (None, _) \<Rightarrow> (failed 0 processed, w)
       | (Some boxID, reader) \<Rightarrow>
          (case readNextBox N p reader boxID w of
             (Inl Panic, _, w) \<Rightarrow> (Inl Panic, w)
           | (Inl (Err code), _, w) \<Rightarrow> (failed code processed, w)
           | (Inr plain, reader, w) \<Rightarrow>
              (case DecodeEnvelopes (AddBoxData decoder plain) of
                 (_, _, Some Panic) \<Rightarrow> (Inl Panic, w)
               | (_, _, Some (Err _)) \<Rightarrow> (failed 0 processed, w)
               | (decoder, cs, None) \<Rightarrow>
                  (case copy_envelopes (dispatchCopyEnvelope N (blake2b_256 p)) cs processed w of
                     (Some code, processed, w) \<Rightarrow> (failed code processed, w)
                   | (None, processed, w) \<Rightarrow>
                      if sawFinal decoder then (Inr (copySucceededReply, boxIDList @ [boxID]), w)
                      else copy_loop N p reader (boxIDList @ [boxID]) decoder processed w)))))"
  by pat_completeness auto
termination
  by (relation "measure (\<lambda>(_, _, _, boxIDList, _, _, _). maxCopyStreamBoxes - length boxIDList)") auto

declare copy_loop.simps [simp del]

text \<open>The reply, and the boxes to write over if the copy succeeded.\<close>

definition processCopyCommand ::
  "('cap, 'rd, 'wr, 'np, 'ns, 'n) copy_env \<Rightarrow> ('pub, 'priv) pki_env \<Rightarrow> CopyCommand \<Rightarrow> 'n
     \<Rightarrow> (unit, CourierQueryReply \<times> bytes list) go \<times> 'n" where
  "processCopyCommand N p copyCmd w =
     (case NewWriteCapFromBytes N (cc_WriteCap copyCmd) of
        None \<Rightarrow> (Inr (copyFailedReply 0 0, []), w)
      | Some cap \<Rightarrow> (case NewStatefulReader N cap of
            None \<Rightarrow> (Inr (copyFailedReply 0 0, []), w)
          | Some reader \<Rightarrow> copy_loop N p reader [] (NewCopyStreamEnvelopeDecoder (copyGeo N)) 0 w))"

section \<open>Writing over the temporary stream\<close>

fun tombstone_attempts ::
  "('cap, 'rd, 'wr, 'np, 'ns, 'n) copy_env \<Rightarrow> bytes \<Rightarrow> (byte \<times> bytes \<times> bytes \<times> bytes) list \<Rightarrow> nat list \<Rightarrow> 'n \<Rightarrow> bool \<times> 'n" where
  "tombstone_attempts N envHash messages [] w = (False, w)"
| "tombstone_attempts N envHash messages (attempt # attempts) w =
     (let w = fold (\<lambda>(replicaID, m) w. snd (net_send N replicaID m w)) messages (pause N attempt w);
          (replies, w) = net_wait N envHash (length messages) w; replies = take (length messages) replies in
      if \<exists>r \<in> set replies. re_ErrorCode r = ReplicaSuccess then (True, w)
      else if \<exists>r \<in> set replies. re_ErrorCode r = ReplicaErrorBoxAlreadyExists then (False, w)
      else tombstone_attempts N envHash messages attempts w)"

definition dispatchTombstone ::
  "('cap, 'rd, 'wr, 'np, 'ns, 'n) copy_env \<Rightarrow> bytes \<Rightarrow> (byte \<times> bytes \<times> bytes \<times> bytes) list \<Rightarrow> 'n \<Rightarrow> bool \<times> 'n" where
  "dispatchTombstone N envHash messages w = tombstone_attempts N envHash messages [0..<maxCopyWriteAttempts] w"

text \<open>The write that is meant to delete a box: an encrypted empty message of the full length.\<close>

definition tombstone_write ::
  "('cap, 'rd, 'wr, 'np, 'ns, 'n) copy_env \<Rightarrow> 'wr \<Rightarrow> bytes \<Rightarrow> (pad_err, BoxWrite option \<times> 'wr) go" where
  "tombstone_write N writer boxID =
     (case CreatePaddedPayload [] (PaddedPayloadLength (copyGeo N)) of
        Inl Panic \<Rightarrow> Inl Panic
      | Inl (Err _) \<Rightarrow> Inr (None, writer)
      | Inr padded \<Rightarrow> (case EncryptNext N writer padded of
            (None, writer) \<Rightarrow> Inr (None, writer)
          | (Some (encBoxID, ciphertext, sig), writer) \<Rightarrow>
              if encBoxID \<noteq> boxID then Inr (None, writer)
              else Inr (Some \<lparr>rw_BoxID = boxID, rw_Signature = copy_into 64 sig,
                 rw_PayloadLen = word_of_nat (length ciphertext), rw_Payload = ciphertext\<rparr>, writer)))"

definition usable_keys :: "('cap, 'rd, 'wr, 'np, 'ns, 'n) copy_env \<Rightarrow> u64 \<Rightarrow> ReplicaDescriptor list \<Rightarrow> (byte \<times> 'np) list" where
  "usable_keys N replicaEpoch shards = List.map_filter (\<lambda>shard.
     case map_of (case EnvelopeKeys shard of None \<Rightarrow> [] | Some m \<Rightarrow> m) replicaEpoch of None \<Rightarrow> None
     | Some keyBytes \<Rightarrow> map_option (Pair (ReplicaID shard)) (key_Unmarshal N keyBytes)) shards"

definition send_tombstone ::
  "('cap, 'rd, 'wr, 'np, 'ns, 'n) copy_env \<Rightarrow> ('pub, 'priv) pki_env \<Rightarrow> Document \<Rightarrow> BoxWrite \<Rightarrow> 'n \<Rightarrow> (unit, unit) go \<times> 'n" where
  "send_tombstone N p doc w s =
     (case GetShards p (rw_BoxID w) doc of
        Inl Panic \<Rightarrow> (Inl Panic, s)
      | Inl (Err _) \<Rightarrow> (Inr (), s)
      | Inr shards \<Rightarrow> if length shards \<noteq> 2 then (Inr (), s)
          else let (replicaEpoch, s) = net_epoch N s; usable = usable_keys N replicaEpoch shards in
          if usable = [] then (Inr (), s)
          else (case PadInnerMessageForEncryption (copySizes N)
                  \<lparr>rim_MessageType = 1, rim_ReadMsg = None, rim_WriteMsg = Some w\<rparr> (Some (copyGeo N)) of
              Inl Panic \<Rightarrow> (Inl Panic, s)
            | Inl (Err _) \<Rightarrow> (Inr (), s)
            | Inr padded \<Rightarrow>
               let ((priv, deks, envelope), s) = Encapsulate N (map snd usable) padded s in
               if \<exists>j < length usable. dek_of deks j = Inl Panic then (Inl Panic, s)
               else let messages = map (\<lambda>j. (fst (usable ! j), Public_Bytes N priv, take 60 (deks ! j), envelope))
                          [0..<length usable];
                        (_, s) = dispatchTombstone N (blake2b_256 p (Public_Bytes N priv @ envelope)) messages s
                    in (Inr (), s)))"

fun tombstone_boxes ::
  "('cap, 'rd, 'wr, 'np, 'ns, 'n) copy_env \<Rightarrow> ('pub, 'priv) pki_env \<Rightarrow> Document \<Rightarrow> 'wr \<Rightarrow> bytes list \<Rightarrow> 'n \<Rightarrow> (unit, unit) go \<times> 'n" where
  "tombstone_boxes N p doc writer [] s = (Inr (), s)"
| "tombstone_boxes N p doc writer (boxID # boxIDs) s =
     (case tombstone_write N writer boxID of
        Inl _ \<Rightarrow> (Inl Panic, s)
      | Inr (None, writer) \<Rightarrow> tombstone_boxes N p doc writer boxIDs s
      | Inr (Some w, writer) \<Rightarrow> (case send_tombstone N p doc w s of
            (Inl f, s) \<Rightarrow> (Inl f, s)
          | (Inr _, s) \<Rightarrow> tombstone_boxes N p doc writer boxIDs s))"

definition writeTombstonesToTempChannel ::
  "('cap, 'rd, 'wr, 'np, 'ns, 'n) copy_env \<Rightarrow> ('pub, 'priv) pki_env \<Rightarrow> 'cap \<Rightarrow> bytes list \<Rightarrow> 'n \<Rightarrow> (unit, unit) go \<times> 'n" where
  "writeTombstonesToTempChannel N p cap boxIDs s =
     (case NewStatefulWriter N cap of None \<Rightarrow> (Inr (), s)
      | Some writer \<Rightarrow> (case net_document N s of
            (None, s) \<Rightarrow> (Inr (), s)
          | (Some doc, s) \<Rightarrow> tombstone_boxes N p doc writer boxIDs s))"

end
