(* ===== verification/CourierCopyProps.thy ===== *)
theory CourierCopyProps
  imports CourierCopy PigeonholeHelperProps
begin

text \<open>
  What a copy command does: whatever the replicas and the network do, the envelopes of the client's stream are sent in
  order, each confirmed by a replica before the next, and the result says how many.
\<close>

section \<open>No panics\<close>

text \<open>Encapsulation makes one ciphertext of 60 bytes per key.\<close>

definition deks_law :: "('cap, 'rd, 'wr, 'np, 'ns, 'n) copy_env \<Rightarrow> bool" where
  "deks_law N \<longleftrightarrow> (\<forall>keys msg w priv deks envelope w'. Encapsulate N keys msg w = ((priv, deks, envelope), w')
     \<longrightarrow> length deks = length keys \<and> (\<forall>d \<in> set deks. length d = 60))"

lemma extract_safe: "ExtractMessageFromPaddedPayload b \<noteq> Inl Panic"
  by (auto simp: ExtractMessageFromPaddedPayload_def get32_def)

lemma open_reply_safe: "open_reply N priv key env \<noteq> Inl Panic"
  using extract_safe inner_reply.parse_all_safe
  by (auto simp: open_reply_def ParseReplicaMessageReplyInnerMessage_def split: option.split sum.split fail.split)

lemma pad_safe: "PadInnerMessageForEncryption x m geo \<noteq> Inl Panic"
  by (auto simp: PadInnerMessageForEncryption_def CreatePaddedPayload_def split: option.split)

lemma dek_ok:
  assumes "deks_law N" "Encapsulate N keys msg w = ((priv, deks, envelope), w')" "j < length keys"
  shows "dek_of deks j = Inr (deks ! j)"
proof -
  have "length deks = length keys" "\<forall>d \<in> set deks. length d = 60" using assms(1,2) unfolding deks_law_def by blast+
  then show ?thesis using assms(3) by (simp add: dek_of_def)
qed

lemma try_read_safe:
  assumes "deks_law N"
  shows "fst (tryReadFromShardReplica N blake boxID rid key w) \<noteq> Inl Panic"
proof (cases "PadInnerMessageForEncryption (copySizes N)
    \<lparr>rim_MessageType = 0, rim_ReadMsg = Some \<lparr>rr_BoxID = boxID\<rparr>, rim_WriteMsg = None\<rparr> (Some (copyGeo N))")
  case (Inl f)
  then show ?thesis using pad_safe by (cases f) (auto simp: tryReadFromShardReplica_def)
next
  case (Inr padded)
  obtain priv deks envelope w1 where e: "Encapsulate N [key] padded w = ((priv, deks, envelope), w1)" by (metis surj_pair)
  show ?thesis using Inr e dek_ok [OF assms e, of 0]
    by (auto simp: open_reply_safe tryReadFromShardReplica_def go_bind_Panic_iff split: prod.split bool.split list.split)
qed

lemma read_attempts_safe:
  "(\<And>w. fst (try_read w) \<noteq> Inl Panic) \<Longrightarrow> fst (read_attempts try_read wait as code w) \<noteq> Inl f"
proof (induction try_read wait as code w rule: read_attempts.induct)
  case (2 try_read wait a as code w)
  then show ?case
    by (cases "try_read (wait a w)")
      (auto split: sum.split fail.split replicaErrorCategory.split dest!: arg_cong [where f = fst])
qed simp

lemma read_shards_safe:
  assumes "deks_law N"
  shows "fst (read_shards N blake boxID ep shards code w) \<noteq> Inl Panic"
proof (induction shards arbitrary: code w)
  case (Cons shard shards)
  have "fst (read_attempts (tryReadFromShardReplica N blake boxID rid key) (pause N) as code w) \<noteq> Inl f" for rid key as code w f
    by (rule read_attempts_safe) (rule try_read_safe [OF assms])
  then show ?case
    using Cons by (auto split: option.split sum.split prod.split dest!: arg_cong [where f = fst])
qed simp

lemma GetShards_safe: "GetShards p boxid doc \<noteq> Inl Panic"
  by (auto simp: GetShards_def GetConfiguredReplicaKeys_def go_bind_Panic_iff Let_def)

lemma readBox_safe:
  assumes "deks_law N"
  shows "fst (readBoxFromShardReplicas N p boxID w) \<noteq> Inl Panic"
proof (cases "net_document N w")
  case (Pair docp w1)
  show ?thesis
  proof (cases docp)
    case None
    then show ?thesis using Pair by (simp add: readBoxFromShardReplicas_def)
  next
    case (Some doc)
    have "fst (let (ep, w) = net_epoch N w1 in read_shards N b boxID ep shards 0 w) \<noteq> Inl Panic" for b shards
      using read_shards_safe [OF assms] by (simp add: split_def Let_def)
    then show ?thesis using Pair Some GetShards_safe [of p boxID doc]
      by (auto simp: readBoxFromShardReplicas_def split: sum.split fail.split)
  qed
qed

lemma readNextBox_safe:
  assumes "deks_law N"
  shows "fst (readNextBox N p rd boxID w) \<noteq> Inl Panic"
proof (cases "readBoxFromShardReplicas N p boxID w")
  case (Pair res w1)
  then have "res \<noteq> Inl Panic" using readBox_safe [OF assms, of p boxID w] by simp
  then show ?thesis using Pair extract_safe
    by (cases res) (auto simp: readNextBox_def split: option.split sum.split fail.split prod.split)
qed

section \<open>The steps of a copy\<close>

datatype copy_event = Fetched bool | Copied CourierEnvelope | Refused CourierEnvelope byte

text \<open>Both messages were sent, and one of the replies to them that came in time is a success.\<close>

definition confirmed ::
  "('cap, 'rd, 'wr, 'np, 'ns, 'n) copy_env \<Rightarrow> (bytes \<Rightarrow> bytes) \<Rightarrow> CourierEnvelope \<Rightarrow> 'n \<Rightarrow> 'n \<Rightarrow> bool" where
  "confirmed N blake c w w' \<longleftrightarrow> (\<exists>w1 replies. propagateQueryToReplicas N c w = (True, w1)
     \<and> net_wait N (CourierEnvelope_Hash blake c) 2 w1 = (replies, w')
     \<and> (\<exists>r \<in> set (take 2 replies). re_ErrorCode r = ReplicaSuccess))"

inductive copy_run ::
  "('cap, 'rd, 'wr, 'np, 'ns, 'n) copy_env \<Rightarrow> ('pub, 'priv) pki_env \<Rightarrow> 'n \<Rightarrow> copy_event list \<Rightarrow> 'n \<Rightarrow> bool"
  for N :: "('cap, 'rd, 'wr, 'np, 'ns, 'n) copy_env" and p :: "('pub, 'priv) pki_env" and w0 :: 'n where
  start: "copy_run N p w0 [] w0"
| fetched: "copy_run N p w0 evs w \<Longrightarrow> readNextBox N p rd boxID w = (res, rd', w')
     \<Longrightarrow> copy_run N p w0 (evs @ [Fetched (\<exists>b. res = Inr b)]) w'"
| copied: "copy_run N p w0 evs w \<Longrightarrow> dispatchCopyEnvelope N (blake2b_256 p) c w = ((True, code), w')
     \<Longrightarrow> \<exists>w1. confirmed N (blake2b_256 p) c w1 w' \<Longrightarrow> copy_run N p w0 (evs @ [Copied c]) w'"
| refused: "copy_run N p w0 evs w \<Longrightarrow> dispatchCopyEnvelope N (blake2b_256 p) c w = ((False, code), w')
     \<Longrightarrow> copy_run N p w0 (evs @ [Refused c code]) w'"

definition copied_in :: "copy_event list \<Rightarrow> CourierEnvelope list" where
  "copied_in evs = List.map_filter (\<lambda>e. case e of Copied c \<Rightarrow> Some c | _ \<Rightarrow> None) evs"

fun failure :: "copy_event \<Rightarrow> bool" where
  "failure (Fetched ok) = (\<not> ok)"
| "failure (Copied c) = False"
| "failure (Refused c code) = True"

lemma copied_in_simps [simp]:
  "copied_in [] = []" "copied_in (xs @ ys) = copied_in xs @ copied_in ys" "copied_in [Copied c] = [c]"
  "copied_in (Fetched ok # xs) = copied_in xs" "copied_in (Refused c code # xs) = copied_in xs"
  by (simp_all add: copied_in_def List.map_filter_def)

lemma dispatch_attempts_confirmed:
  "dispatch_attempts N h c as w = ((True, code), w') \<Longrightarrow> h = CourierEnvelope_Hash blake c
     \<Longrightarrow> \<exists>w1. confirmed N blake c w1 w'"
proof (induction N h c as w rule: dispatch_attempts.induct)
  case (2 N h c a as w)
  obtain ok w1 where p: "propagateQueryToReplicas N c (pause N a w) = (ok, w1)" by (metis surj_pair)
  obtain replies w2 where q: "net_wait N h 2 w1 = (replies, w2)" by (metis surj_pair)
  show ?case
  proof (cases "ok \<and> (\<exists>r \<in> set (take 2 replies). re_ErrorCode r = ReplicaSuccess)")
    case True
    then have "w' = w2" using 2(3) p q by auto
    then have "confirmed N blake c (pause N a w) w'"
      using True p q 2(4) unfolding confirmed_def by (intro exI [of _ w1] exI [of _ replies]) simp
    then show ?thesis by blast
  next
    case False
    then show ?thesis using 2 p q by (cases ok) (auto simp: Let_def split: if_splits)
  qed
qed simp

lemma copy_envelopes_run:
  assumes "copy_run N p w0 evs w"
    and "copy_envelopes (dispatchCopyEnvelope N (blake2b_256 p)) cs (of_nat n) w = (res, n', w')"
  shows "(res = None \<and> n' = of_nat (n + length cs) \<and> copy_run N p w0 (evs @ map Copied cs) w')
    \<or> (\<exists>k code. res = Some code \<and> k < length cs \<and> n' = of_nat (n + k)
        \<and> copy_run N p w0 (evs @ map Copied (take k cs) @ [Refused (cs ! k) code]) w')"
  using assms
proof (induction cs arbitrary: n w evs)
  case (Cons c cs)
  obtain ok code w1 where d: "dispatchCopyEnvelope N (blake2b_256 p) c w = ((ok, code), w1)" by (metis surj_pair)
  show ?case
  proof (cases ok)
    case False
    then have r: "res = Some code" "n' = of_nat n" "w' = w1" using Cons.prems(2) d by auto
    have "copy_run N p w0 (evs @ [Refused c code]) w1" using copy_run.refused [OF Cons.prems(1)] d False by simp
    then show ?thesis using r by (intro disjI2 exI [of _ 0] exI [of _ code]) simp
  next
    case True
    then have "\<exists>v. confirmed N (blake2b_256 p) c v w1"
      using d by (intro dispatch_attempts_confirmed [OF _ refl]) (simp add: dispatchCopyEnvelope_def)
    then have run: "copy_run N p w0 (evs @ [Copied c]) w1" using copy_run.copied [OF Cons.prems(1)] d True by simp
    have "copy_envelopes (dispatchCopyEnvelope N (blake2b_256 p)) cs (of_nat (Suc n)) w1 = (res, n', w')"
      using Cons.prems(2) d True by (simp add: add.commute)
    from Cons.IH [OF run this] show ?thesis
    proof
      assume "\<exists>k code. res = Some code \<and> k < length cs \<and> n' = of_nat (Suc n + k)
        \<and> copy_run N p w0 ((evs @ [Copied c]) @ map Copied (take k cs) @ [Refused (cs ! k) code]) w'"
      then obtain k code where "res = Some code" "k < length cs" "n' = of_nat (Suc n + k)"
        "copy_run N p w0 ((evs @ [Copied c]) @ map Copied (take k cs) @ [Refused (cs ! k) code]) w'" by blast
      then show ?thesis by (intro disjI2 exI [of _ "Suc k"] exI [of _ code]) simp
    qed simp
  qed
qed simp

section \<open>The loop\<close>

text \<open>
  What the reader of a stream makes of what it is given: the next box ID, and for the box with that ID the content
  that the writer of the stream put there, or nothing. It is the writer's signature that ensures this.
\<close>

fun reads_stream :: "('cap, 'rd, 'wr, 'np, 'ns, 'n) copy_env \<Rightarrow> 'rd \<Rightarrow> bytes list \<Rightarrow> bool" where
  "reads_stream N rd [] \<longleftrightarrow> True"
| "reads_stream N rd (b # bs) \<longleftrightarrow> (\<exists>boxID rd1. NextBoxID N rd = (Some boxID, rd1)
     \<and> (\<forall>ct sig padded rd2. DecryptNext N rd1 boxID ct sig = (Some padded, rd2)
         \<longrightarrow> ExtractMessageFromPaddedPayload padded = Inr b \<and> reads_stream N rd2 bs))"

lemma readNextBox_reads:
  assumes "readNextBox N p rd1 boxID w = (Inr plain, rd2, w')"
    and "\<forall>ct sig padded rd2. DecryptNext N rd1 boxID ct sig = (Some padded, rd2)
         \<longrightarrow> ExtractMessageFromPaddedPayload padded = Inr b \<and> reads_stream N rd2 bs"
  shows "plain = b \<and> reads_stream N rd2 bs"
  using assms by (fastforce simp: readNextBox_def split: sum.splits fail.splits prod.splits option.splits)

definition copy_outcome ::
  "('cap, 'rd, 'wr, 'np, 'ns, 'n) copy_env \<Rightarrow> ('pub, 'priv) pki_env \<Rightarrow> 'n \<Rightarrow> CourierEnvelope list
     \<Rightarrow> (unit, CourierQueryReply \<times> bytes list) go \<times> 'n \<Rightarrow> bool" where
  "copy_outcome N p w0 cs r \<longleftrightarrow> (\<exists>reply boxIDs w' evs. r = (Inr (reply, boxIDs), w') \<and> copy_run N p w0 evs w'
     \<and> (reply = copySucceededReply \<and> copied_in evs = cs \<and> (\<forall>e \<in> set evs. \<not> failure e)
       \<or> (\<exists>k code es e. reply = copyFailedReply code (of_nat k + 1) \<and> copied_in evs = take k cs \<and> k \<le> length cs
            \<and> evs = es @ [e] \<and> failure e \<and> (\<forall>e \<in> set es. \<not> failure e))))"

lemma copied_in_map [simp]: "copied_in (map Copied cs) = cs"
  by (induction cs) (auto simp: copied_in_def List.map_filter_def)

lemma stop_unless_first:
  assumes "copied_in evs = take k cs" "k \<le> length cs" "copy_run N p w0 (evs @ [e]) w'" "failure e"
    "\<forall>e \<in> set evs. \<not> failure e" "copied_in [e] = []"
  shows "copy_outcome N p w0 cs (Inr (copyFailedReply code (of_nat k + 1), ids), w')"
  unfolding copy_outcome_def
  using assms by (intro exI [of _ "copyFailedReply code (of_nat k + 1)"] exI [of _ ids] exI [of _ w'] exI [of _ "evs @ [e]"])
    (auto intro!: exI [of _ k] exI [of _ code])

lemma copy_loop_outcome:
  assumes "deks_law N" "length cs < 2 ^ 16"
  shows "decoder_at d els2 cs2 \<Longrightarrow> elementBuffer d @ concat bs = concat (map CopyStreamElement_encodeBinary els2)
    \<Longrightarrow> els2 = els' @ [el] \<Longrightarrow> IsFinal el \<Longrightarrow> \<forall>x \<in> set els'. \<not> IsFinal x \<Longrightarrow> \<not> sawFinal d
    \<Longrightarrow> reads_stream N rd bs \<Longrightarrow> length ids + length bs \<le> 2 ^ 16
    \<Longrightarrow> cs = done @ cs2 \<Longrightarrow> copy_run N p w0 evs w \<Longrightarrow> copied_in evs = done \<Longrightarrow> \<forall>e \<in> set evs. \<not> failure e
    \<Longrightarrow> copy_outcome N p w0 cs (copy_loop N p rd ids d (of_nat (length done)) w)"
proof (induction bs arbitrary: d els2 cs2 els' rd ids "done" evs w)
  case Nil
  then have "boxes.leftover (boxes.stream els2) els2" by (simp add: decoder_at_def boxes.stream_def)
  then have "els2 = []" by (rule boxes.leftover_whole)
  then show ?case using Nil.prems(3) by simp
next
  case (Cons b bs)
  obtain boxID rd1 where nx: "NextBoxID N rd = (Some boxID, rd1)" and
    rd: "\<forall>ct sig padded rd2. DecryptNext N rd1 boxID ct sig = (Some padded, rd2)
         \<longrightarrow> ExtractMessageFromPaddedPayload padded = Inr b \<and> reads_stream N rd2 bs"
    using Cons.prems(7) by auto
  obtain res rd2 w1 where rb: "readNextBox N p rd1 boxID w = (res, rd2, w1)" by (metis surj_pair)
  have run1: "copy_run N p w0 (evs @ [Fetched (\<exists>b. res = Inr b)]) w1" by (rule copy_run.fetched [OF Cons.prems(10) rb])
  have room: "\<not> maxCopyStreamBoxes \<le> length ids" using Cons.prems(8) by (simp add: maxCopyStreamBoxes_def)
  have "unat (of_nat (length done) :: u64) = length done"
    using assms(2) Cons.prems(9) by (simp add: unat_of_nat)
  then have few: "\<not> maxCopyStreamEnvelopes \<le> of_nat (length done)"
    using assms(2) Cons.prems(9) by (simp add: word_le_nat_alt maxCopyStreamEnvelopes_def)
  have k: "copied_in evs = take (length done) cs" "length done \<le> length cs" using Cons.prems(9,11) by simp_all
  show ?case
  proof (cases res)
    case (Inl f)
    then obtain code where "res = Inl (Err code)"
      using readNextBox_safe [OF assms(1), of p rd1 boxID w] rb by (cases f) auto
    then show ?thesis
      using stop_unless_first [OF k run1 _ Cons.prems(12)] room few nx rb
      by (subst copy_loop.simps) (simp add: Let_def)
  next
    case (Inr plain)
    then have pl: "plain = b" "reads_stream N rd2 bs" using readNextBox_reads [OF _ rd] rb by blast+
    have "prefix (elementBuffer d @ b) (concat (map CopyStreamElement_encodeBinary els2))"
      using Cons.prems(2) by (metis append.assoc concat.simps(2) prefixI)
    then obtain d' els1 els3 cs1 cs3 where s: "DecodeEnvelopes (AddBoxData d b) = (d', cs1, None)"
       "els2 = els1 @ els3" "cs2 = cs1 @ cs3" "decoder_at d' els3 cs3"
       "elementBuffer d @ b = concat (map CopyStreamElement_encodeBinary els1) @ elementBuffer d'"
       "sawFinal d' = (sawFinal d \<or> (\<exists>el \<in> set els1. IsFinal el))"
      using DecodeEnvelopes_step [OF Cons.prems(1)] by blast
    obtain out n' w2 where c: "copy_envelopes (dispatchCopyEnvelope N (blake2b_256 p)) cs1 (of_nat (length done)) w1 = (out, n', w2)"
      by (metis surj_pair)
    have step: "copy_loop N p rd ids d (of_nat (length done)) w = (case out of
        Some code \<Rightarrow> (Inr (copyFailedReply code (n' + 1), ids), w2)
      | None \<Rightarrow> if sawFinal d' then (Inr (copySucceededReply, ids @ [boxID]), w2)
          else copy_loop N p rd2 (ids @ [boxID]) d' n' w2)"
      using room few nx rb Inr pl(1) s(1) c by (subst copy_loop.simps) (simp add: Let_def split: option.split)
    let ?evs = "evs @ [Fetched True]"
    have fine: "\<forall>e \<in> set (?evs @ map Copied l). \<not> failure e" for l using Cons.prems(12) by auto
    have run1': "copy_run N p w0 ?evs w1" using run1 Inr by simp
    from copy_envelopes_run [OF run1' c] show ?thesis
    proof
      assume "\<exists>k code. out = Some code \<and> k < length cs1 \<and> n' = of_nat (length done + k)
        \<and> copy_run N p w0 (?evs @ map Copied (take k cs1) @ [Refused (cs1 ! k) code]) w2"
      then obtain j code where o: "out = Some code" "j < length cs1" "n' = of_nat (length done + j)"
        "copy_run N p w0 ((?evs @ map Copied (take j cs1)) @ [Refused (cs1 ! j) code]) w2" by auto
      have "copied_in (?evs @ map Copied (take j cs1)) = take (length done + j) cs"
        using Cons.prems(9,11) s(3) o(2) by simp
      moreover have "length done + j \<le> length cs" using Cons.prems(9) s(3) o(2) by simp
      ultimately show ?thesis
        unfolding step o(1) option.case o(3) by (rule stop_unless_first [OF _ _ o(4) _ fine]) simp_all
    next
      assume o: "out = None \<and> n' = of_nat (length done + length cs1) \<and> copy_run N p w0 (?evs @ map Copied cs1) w2"
      show ?thesis
      proof (cases "\<exists>x \<in> set els1. IsFinal x")
        case True
        then have "els3 = []" using Cons.prems(3,5) s(2) by (cases els3 rule: rev_cases) auto
        then have "envelopes.leftover (envelopes.stream cs3) cs3"
          using s(4) by (auto simp: decoder_at_def envelopes.stream_def)
        then have "cs3 = []" by (rule envelopes.leftover_whole)
        then have "copied_in (?evs @ map Copied cs1) = cs" using Cons.prems(9,11) s(3) by simp
        moreover have "copy_loop N p rd ids d (of_nat (length done)) w = (Inr (copySucceededReply, ids @ [boxID]), w2)"
          using step o True s(6) by simp
        ultimately show ?thesis
          using o fine [of cs1] unfolding copy_outcome_def
          by (intro exI [of _ copySucceededReply] exI [of _ "ids @ [boxID]"] exI [of _ w2]
              exI [of _ "?evs @ map Copied cs1"] conjI disjI1) auto
      next
        case False
        then obtain els'' where e3: "els3 = els'' @ [el]"
          using Cons.prems(3,4) s(2) by (cases els3 rule: rev_cases) auto
        then have e': "els' = els1 @ els''" using Cons.prems(3) s(2) by simp
        have "(elementBuffer d @ b) @ concat bs = concat (map CopyStreamElement_encodeBinary (els1 @ els3))"
          using Cons.prems(2) s(2) by simp
        then have "elementBuffer d' @ concat bs = concat (map CopyStreamElement_encodeBinary els3)" unfolding s(5) by simp
        from Cons.IH [OF s(4) this e3 Cons.prems(4) _ _ pl(2), of "ids @ [boxID]" "done @ cs1" "?evs @ map Copied cs1" w2]
        have "copy_outcome N p w0 cs (copy_loop N p rd2 (ids @ [boxID]) d' (of_nat (length (done @ cs1))) w2)"
          using e' Cons.prems(5,6,8,9,11) s(3,6) False fine [of cs1] o by auto
        then show ?thesis using step o False s(6) Cons.prems(6) by simp
      qed
    qed
  qed
qed

text \<open>
  C14. A copy is exact. Let the boxes of a temporary stream hold the encoding of a client's envelopes, cut into pieces in
  any way. Then processing the copy command ends with a reply, without a panic, whatever the replicas answer and the
  network does: either it succeeded, and every envelope was sent to its replicas, in order, each confirmed by one of
  them before the next was sent; or it failed, and the index in the reply is that of the first envelope that was not
  confirmed, the ones before it being confirmed in order, and the last thing that happened was a box that could not be
  read or an envelope that was refused.
\<close>

theorem copy_command_exact:
  assumes "deks_law N"
    and size: "CopyStreamElementOverhead < MaxPlaintextPayloadLength (copyGeo N)" "MaxPlaintextPayloadLength (copyGeo N) < 2 ^ 32"
    and cs: "cs \<noteq> []" "length cs < 2 ^ 16" "\<forall>c \<in> set cs. envelope_ok (CourierQueryWriteLength (copyGeo N)) c"
    and enc: "encode_stream (NewCopyStreamEncoder (copyGeo N)) cs = Some (Inr (e, elements))"
    and boxes: "concat bs = concat elements" "length bs \<le> 2 ^ 16" "reads_stream N reader bs"
    and cap: "NewWriteCapFromBytes N (cc_WriteCap copyCmd) = Some cap" "NewStatefulReader N cap = Some reader"
  shows "\<exists>reply boxIDs w' events. processCopyCommand N p copyCmd w = (Inr (reply, boxIDs), w') \<and> copy_run N p w events w'
    \<and> (reply = copySucceededReply \<and> copied_in events = cs \<and> (\<forall>ev \<in> set events. \<not> failure ev)
      \<or> (\<exists>k code evs ev. reply = copyFailedReply code (of_nat k + 1) \<and> copied_in events = take k cs \<and> k \<le> length cs
           \<and> events = evs @ [ev] \<and> failure ev \<and> (\<forall>ev \<in> set evs. \<not> failure ev)))"
proof -
  let ?m = "MaxPlaintextPayloadLength (copyGeo N)" and ?e = "NewCopyStreamEncoder (copyGeo N)"
    and ?d = "NewCopyStreamEnvelopeDecoder (copyGeo N)"
  define k where "k = nat (?m - CopyStreamElementOverhead)"
  have k: "maxChunkSize ?e = int k" "0 < k" "k < 2 ^ 32"
    using size by (auto simp: NewCopyStreamEncoder_def k_def CopyStreamElementOverhead_def)
  have m: "?m > 0 \<longrightarrow> CopyStreamElementOverhead + int k \<le> ?m" using size(1) by (simp add: k_def)
  have "buffer ?e = []" by (simp add: NewCopyStreamEncoder_def)
  from encode_stream_ok [OF k this m cs(3)] enc cs(1)
  obtain els els' el where h: "elements = map CopyStreamElement_encodeBinary els" "\<forall>el \<in> set els. element_ok ?m el"
      "concat (map EnvelopeData els) = concat (map envelope_frame cs)"
      "els = els' @ [el]" "IsFinal el" "\<forall>x \<in> set els'. \<not> IsFinal x"
    by auto
  have nel: "strict_prefix [] (CopyStreamElement_encodeBinary el)" for el
    by (simp add: CopyStreamElement_encodeBinary_def strict_prefix_def)
  have nc: "strict_prefix [] (envelope_frame c)" for c
    by (simp add: envelope_frame_def strict_prefix_def flip: length_0_conv)
  have "decoder_at ?d els cs"
    using h(2,3) cs(3) nel nc
    by (auto simp: decoder_at_def NewCopyStreamEnvelopeDecoder_def boxes.leftover_def
        envelopes.leftover_def split: list.split)
  from copy_loop_outcome [OF assms(1) cs(2) this _ h(4-6) _ boxes(3), of "[]" "[]" p w "[]" w]
  have "copy_outcome N p w cs (processCopyCommand N p copyCmd w)"
    using boxes(1,2) h(1) cap copy_run.start [of N p w] by (simp add: NewCopyStreamEnvelopeDecoder_def processCopyCommand_def)
  then show ?thesis unfolding copy_outcome_def by blast
qed

definition roomy_pgeometry :: PGeometry where
  "roomy_pgeometry = demo_pgeometry\<lparr>MaxPlaintextPayloadLength := 500\<rparr>"

text \<open>A reader that holds the boxes, and a courier without a PKI document.\<close>

definition demo_copy_env :: "bytes list \<Rightarrow> (unit, bytes list, unit, byte, byte, unit) copy_env" where
  "demo_copy_env bs = \<lparr>NewWriteCapFromBytes = (\<lambda>_. Some ()), NewStatefulReader = (\<lambda>_. Some bs),
     NextBoxID = (\<lambda>rd. (Some (replicate 32 7), rd)),
     DecryptNext = (\<lambda>rd _ _ _. case rd of [] \<Rightarrow> (None, rd) | b # bs \<Rightarrow> (Some (put32 (word_of_nat (length b)) @ b), bs)),
     NewStatefulWriter = (\<lambda>_. Some ()), EncryptNext = (\<lambda>rd _. (None, rd)),
     key_Unmarshal = (\<lambda>b. Some (hd b)), Encapsulate = (\<lambda>keys m w. ((1, map (\<lambda>k. replicate 60 k) keys, m), w)),
     Public_Bytes = (\<lambda>k. [k]), DecryptEnvelope = (\<lambda>k p b. Some b),
     net_send = (\<lambda>_ _ w. (True, w)), net_wait = (\<lambda>_ _ w. ([], w)), net_sleep = (\<lambda>_ w. w),
     net_document = (\<lambda>w. (None, w)), net_epoch = (\<lambda>w. (5, w)), copyGeo = roomy_pgeometry, copySizes = hpqc_sizes\<rparr>"

lemma extract_prefixed:
  assumes "length b < 2 ^ 32"
  shows "ExtractMessageFromPaddedPayload (put32 (word_of_nat (length b)) @ b) = Inr b"
  using assms by (simp add: ExtractMessageFromPaddedPayload_def unat_of_nat)

lemma demo_reads: "\<forall>b \<in> set bs. length b < 2 ^ 32 \<Longrightarrow> reads_stream (demo_copy_env xs) bs bs"
  by (induction bs) (use extract_prefixed in \<open>auto simp: demo_copy_env_def\<close>)

lemma demo_envelope_ok: "envelope_ok 200 demo_envelope" "length (envelope_frame demo_envelope) = 146"
  by (simp_all add: envelope_ok_def CourierEnvelope_validate_def CourierEnvelope_encodeBinary_def demo_envelope_def
      envelope_frame_def)

lemma demo_encoding:
  "\<exists>e el. encode_stream (NewCopyStreamEncoder roomy_pgeometry) [demo_envelope] = Some (Inr (e, [CopyStreamElement_encodeBinary el]))
    \<and> length (EnvelopeData el) = 146 \<and> element_ok 500 el"
proof -
  let ?e = "(NewCopyStreamEncoder roomy_pgeometry)\<lparr>buffer := envelope_frame demo_envelope\<rparr>"
  have e: "maxChunkSize ?e = 495" by (simp add: NewCopyStreamEncoder_def roomy_pgeometry_def CopyStreamElementOverhead_def)
  then have x: "extract_loop ?e = Some (Inr (?e, []))"
    using demo_envelope_ok(2) by (subst extract_loop.simps) simp
  moreover have "AddEnvelope (NewCopyStreamEncoder roomy_pgeometry) (Some demo_envelope) = extract_loop ?e"
    using demo_envelope_ok(1) by (simp add: AddEnvelope_def CourierEnvelope_MarshalBinary_def envelope_ok_def
        extractElements_def envelope_frame_def NewCopyStreamEncoder_def)
  moreover obtain el where "emit_chunk (int 146) True ?e = Inr (?e\<lparr>buffer := [], isFirstChunk := False\<rparr>, [CopyStreamElement_encodeBinary el])"
      "element_ok 500 el" "EnvelopeData el = envelope_frame demo_envelope"
    using emit_chunk_ok [of 146 ?e 500 True] demo_envelope_ok(2) by (auto simp: CopyStreamElementOverhead_def)
  moreover have "envelope_frame demo_envelope \<noteq> []" using demo_envelope_ok(2) by auto
  ultimately show ?thesis
    using demo_envelope_ok(2) by (intro exI [of _ "?e\<lparr>buffer := [], isFirstChunk := False\<rparr>"] exI [of _ el])
      (simp add: encode_stream_def Flush_def)
qed

theorem copy_command_exact_witness:
  "\<exists>e elements reply boxIDs w' events. encode_stream (NewCopyStreamEncoder roomy_pgeometry) [demo_envelope] = Some (Inr (e, elements))
    \<and> processCopyCommand (demo_copy_env elements) demo_pki \<lparr>cc_WriteCapLen = 1, cc_WriteCap = [9]\<rparr> () = (Inr (reply, boxIDs), w')
    \<and> copy_run (demo_copy_env elements) demo_pki () events w'"
proof -
  obtain e el where enc: "encode_stream (NewCopyStreamEncoder roomy_pgeometry) [demo_envelope] = Some (Inr (e, [CopyStreamElement_encodeBinary el]))"
    "length (EnvelopeData el) = 146" "element_ok 500 el"
    using demo_encoding by blast
  let ?b = "CopyStreamElement_encodeBinary el"
  have "length ?b = 151" using enc(2,3) length_element [of el] by (simp add: element_ok_def)
  then have "reads_stream (demo_copy_env [?b]) [?b] [?b]" by (intro demo_reads) simp
  moreover have "deks_law (demo_copy_env [?b])" by (auto simp: deks_law_def demo_copy_env_def)
  ultimately show ?thesis
    using copy_command_exact [of "demo_copy_env [?b]" "[demo_envelope]" e "[?b]" "[?b]" "[?b]"
        "\<lparr>cc_WriteCapLen = 1, cc_WriteCap = [9]\<rparr>" "()" demo_pki "()"] enc(1) demo_envelope_ok(1)
    by (fastforce simp: demo_copy_env_def roomy_pgeometry_def demo_pgeometry_def CopyStreamElementOverhead_def)
qed

end
