(* ===== verification/CourierProps.thy ===== *)
theory CourierProps
  imports CourierCopyProps ReplicaProps
begin

text \<open>
  What clients of a courier can rely on: an answer carries a replica's reply to that very envelope, a good reply once
  there stays, and at most one dispatch of an envelope runs at a time. And what deleting a temporary stream comes to at
  the replicas.
\<close>

section \<open>Histories of a courier\<close>

datatype courier_event =
    QueryArrives "u64 option" u64 int int byte CourierEnvelope
  | ReplyArrives replica_reply
  | DispatchEnds nat
  | CopyArrives int int CopyCommand
  | CopyEnds int nat "(unit, CourierQueryReply) go"
  | ChannelOpens bytes nat
  | ChannelCloses bytes

text \<open>A reply for a full channel waits; so does one without a hash, which would be a panic.\<close>

fun courier_step :: "(bytes \<Rightarrow> bytes) \<Rightarrow> courier \<Rightarrow> courier_event \<Rightarrow> courier" where
  "courier_step blake e (QueryArrives docEpoch ep t1 t2 qt c) = snd (cacheHandleCourierEnvelope blake docEpoch ep t1 t2 qt c e)"
| "courier_step blake e (ReplyArrives r) = (case HandleReply r e of Inr (Some e') \<Rightarrow> e' | _ \<Rightarrow> e)"
| "courier_step blake e (DispatchEnds i) = (if i < length (dispatching e) then dispatch_ends i e else e)"
| "courier_step blake e (CopyArrives t1 t2 c) = snd (handleCopyCommand blake t1 t2 c e)"
| "courier_step blake e (CopyEnds now i res) = (if i < length (copying e) then runCopyCommand_ends now i res e else e)"
| "courier_step blake e (ChannelOpens h room) = e\<lparr>copyCache := (copyCache e)(h \<mapsto> (room, []))\<rparr>"
| "courier_step blake e (ChannelCloses h) = e\<lparr>copyCache := (copyCache e)(h := None)\<rparr>"

definition courier_after :: "(bytes \<Rightarrow> bytes) \<Rightarrow> courier_event list \<Rightarrow> courier" where
  "courier_after blake evs = foldl (courier_step blake) NewCourier evs"

text \<open>The two replicas of an envelope are an array.\<close>

fun event_ok :: "courier_event \<Rightarrow> bool" where
  "event_ok (QueryArrives docEpoch ep t1 t2 qt c) = (length (IntermediateReplicas c) = 2)"
| "event_ok ev = True"

section \<open>The invariant\<close>

definition entry_ok :: "replica_reply set \<Rightarrow> bytes \<Rightarrow> CourierBookKeeping \<Rightarrow> bool" where
  "entry_ok seen h entry \<longleftrightarrow> length (bk_Replicas entry) = 2 \<and> length (bk_Replies entry) = 2
     \<and> (\<forall>r. Some r \<in> set (bk_Replies entry) \<longrightarrow> r \<in> seen \<and> re_EnvelopeHash r = Some h)"

definition courier_inv :: "replica_reply set \<Rightarrow> courier \<Rightarrow> bool" where
  "courier_inv seen e \<longleftrightarrow> (\<forall>h entry. dedupCache e h = Some entry \<longrightarrow> entry_ok seen h entry)
     \<and> inFlight e = set (map fst (dispatching e)) \<and> distinct (map fst (dispatching e))"

lemma inv_mono: "courier_inv seen e \<Longrightarrow> seen \<subseteq> seen' \<Longrightarrow> courier_inv seen' e"
  by (fastforce simp: courier_inv_def entry_ok_def)

lemma findReplicaIndex_less: "findReplicaIndex ids rid = Some i \<Longrightarrow> i < length ids \<and> ids ! i = rid"
  by (induction ids arbitrary: i) (auto split: if_splits)

lemma unused_slot_less: "unused_slot entry = Some i \<Longrightarrow> i < length (bk_Replicas entry) \<and> bk_Replies entry ! i = None"
  by (auto simp: unused_slot_def find_Some_iff)

lemma handle_entry_ok:
  assumes "entry_ok seen h entry" "re_EnvelopeHash r = Some h"
  shows "entry_ok (insert r seen) h (handleExistingEntry entry r)"
proof -
  have upd: "Some x \<in> set ((bk_Replies entry)[i := Some r]) \<Longrightarrow> x = r \<or> Some x \<in> set (bk_Replies entry)" for x i
    using set_update_subset_insert [of "bk_Replies entry" i "Some r"] by auto
  show ?thesis using assms upd
    by (auto simp: entry_ok_def handleExistingEntry_def storeOrReplaceReply_def split: option.split)
qed

lemma schedule_inv: "courier_inv seen e \<Longrightarrow> courier_inv seen (scheduleReplicaDispatch h c e)"
  by (auto simp: courier_inv_def scheduleReplicaDispatch_def)

lemma prune_entry: "pruneDedupCache t ttl m h = Some entry \<Longrightarrow> m h = Some entry"
  by (auto simp: pruneDedupCache_def split: option.splits if_splits)

lemma query_inv:
  assumes "courier_inv seen e" "length (IntermediateReplicas c) = 2"
  shows "courier_inv seen (snd (cacheHandleCourierEnvelope blake docEpoch ep t1 t2 qt c e))"
proof -
  have "courier_inv seen (e\<lparr>dedupCache := (pruneDedupCache t1 ttl (dedupCache e))(h \<mapsto> \<lparr>bk_Epoch = x, bk_CreatedAt = t2,
      bk_QueryType = qt, bk_Replicas = IntermediateReplicas c, bk_Replies = [None, None]\<rparr>)\<rparr>)" for ttl h x
    using assms by (auto simp: courier_inv_def entry_ok_def dest!: prune_entry)
  then show ?thesis using assms(1)
    by (auto simp: cacheHandleCourierEnvelope_def Let_def intro!: schedule_inv split: option.split)
qed

lemma dispatch_ends_inv:
  assumes "courier_inv seen e" "i < length (dispatching e)"
  shows "courier_inv seen (dispatch_ends i e)"
proof -
  let ?d = "dispatching e" and ?l = "map fst (dispatching e)"
  have split: "?l = map fst (take i ?d) @ fst (?d ! i) # map fst (drop (Suc i) ?d)"
    using id_take_nth_drop [OF assms(2)] by (metis list.simps(9) map_append)
  have "distinct ?l" using assms(1) by (simp add: courier_inv_def)
  then have "distinct (map fst (take i ?d) @ map fst (drop (Suc i) ?d))"
    "set ?l - {fst (?d ! i)} = set (map fst (take i ?d)) \<union> set (map fst (drop (Suc i) ?d))"
    unfolding split by auto
  then show ?thesis using assms(1) by (simp add: courier_inv_def dispatch_ends_def)
qed

lemma reply_inv:
  assumes "courier_inv seen e"
  shows "courier_inv (insert r seen) (courier_step blake e (ReplyArrives r))"
proof (cases "re_EnvelopeHash r")
  case None
  then show ?thesis using inv_mono [OF assms] by (auto simp: HandleReply_def)
next
  case (Some h)
  have old: "courier_inv (insert r seen) e" using inv_mono [OF assms] by blast
  show ?thesis
  proof (cases "copyCache e h")
    case None
    have "courier_inv (insert r seen) (CacheReply r e)"
    proof (cases "dedupCache e h")
      case None
      then show ?thesis using old Some by (simp add: CacheReply_def)
    next
      case (Some entry)
      then have "entry_ok (insert r seen) h (handleExistingEntry entry r)"
        using assms handle_entry_ok [OF _ \<open>re_EnvelopeHash r = Some h\<close>] by (simp add: courier_inv_def)
      then show ?thesis using old Some \<open>re_EnvelopeHash r = Some h\<close> by (auto simp: CacheReply_def courier_inv_def)
    qed
    then show ?thesis using Some None by (simp add: HandleReply_def)
  next
    case (Some q)
    then show ?thesis using old \<open>re_EnvelopeHash r = Some h\<close>
      by (auto simp: HandleReply_def courier_inv_def split: prod.split)
  qed
qed

fun seen_in :: "courier_event list \<Rightarrow> replica_reply set" where
  "seen_in [] = {}"
| "seen_in (ReplyArrives r # evs) = insert r (seen_in evs)"
| "seen_in (ev # evs) = seen_in evs"

lemma seen_in_iff: "r \<in> seen_in evs \<longleftrightarrow> ReplyArrives r \<in> set evs"
  by (induction evs rule: seen_in.induct) auto

lemma step_inv:
  assumes "courier_inv (seen_in evs) e" "event_ok ev"
  shows "courier_inv (seen_in (evs @ [ev])) (courier_step blake e ev)"
proof (cases ev)
  case (ReplyArrives r)
  have "insert r (seen_in evs) = seen_in (evs @ [ev])" unfolding ReplyArrives by (auto simp: seen_in_iff)
  then show ?thesis using reply_inv [OF assms(1), of r blake] ReplyArrives by simp
next
  case (QueryArrives docEpoch ep t1 t2 qt c)
  have "seen_in (evs @ [ev]) = seen_in evs" unfolding QueryArrives by (auto simp: seen_in_iff)
  then show ?thesis using query_inv [OF assms(1)] assms(2) QueryArrives by simp
next
  case (DispatchEnds i)
  have "seen_in (evs @ [ev]) = seen_in evs" unfolding DispatchEnds by (auto simp: seen_in_iff)
  then show ?thesis using dispatch_ends_inv [OF assms(1)] assms(1) DispatchEnds by simp
next
  case (CopyArrives t1 t2 c)
  have "seen_in (evs @ [ev]) = seen_in evs" unfolding CopyArrives by (auto simp: seen_in_iff)
  then show ?thesis using assms(1) CopyArrives
    by (auto simp: handleCopyCommand_def courier_inv_def Let_def split: option.split)
next
  case (CopyEnds now i res)
  have "seen_in (evs @ [ev]) = seen_in evs" unfolding CopyEnds by (auto simp: seen_in_iff)
  then show ?thesis using assms(1) CopyEnds by (auto simp: runCopyCommand_ends_def courier_inv_def Let_def)
next
  case (ChannelOpens h room)
  have "seen_in (evs @ [ev]) = seen_in evs" unfolding ChannelOpens by (auto simp: seen_in_iff)
  then show ?thesis using assms(1) ChannelOpens by (auto simp: courier_inv_def)
next
  case (ChannelCloses h)
  have "seen_in (evs @ [ev]) = seen_in evs" unfolding ChannelCloses by (auto simp: seen_in_iff)
  then show ?thesis using assms(1) ChannelCloses by (auto simp: courier_inv_def)
qed

lemma courier_after_inv: "\<forall>ev \<in> set evs. event_ok ev \<Longrightarrow> courier_inv (seen_in evs) (courier_after blake evs)"
proof (induction evs rule: rev_induct)
  case Nil
  then show ?case by (simp add: courier_after_def NewCourier_def courier_inv_def)
next
  case (snoc ev evs)
  then show ?case using step_inv [of evs "courier_after blake evs" ev blake] by (simp add: courier_after_def)
qed

section \<open>Answers\<close>

lemma index_le_1: "(ix :: byte) \<le> 1 \<Longrightarrow> ix = 0 \<or> ix = 1"
  by (metis (mono_tags) le_less word_le_less_eq word_less_1)

lemma old_payload_kept:
  assumes "entry_ok seen h entry" "ix \<le> 1" "old_payload entry ix = (ix', payload)" "payload \<noteq> []"
  shows "\<exists>r. r \<in> seen \<and> re_EnvelopeHash r = Some h \<and> re_EnvelopeReply r = payload"
proof -
  obtain a b where ab: "bk_Replies entry = [a, b]"
    using assms(1) by (auto simp: entry_ok_def length_Suc_conv numeral_2_eq_2)
  have "\<exists>r. (a = Some r \<or> b = Some r) \<and> re_EnvelopeReply r = payload"
    using index_le_1 [OF assms(2)] assms(3,4) ab
    by (fastforce simp: old_payload_def Let_def split: option.splits if_splits)
  moreover have "a = Some r \<or> b = Some r \<Longrightarrow> r \<in> seen \<and> re_EnvelopeHash r = Some h" for r
    using assms(1) ab by (auto simp: entry_ok_def)
  ultimately show ?thesis by blast
qed

text \<open>
  C18. In any history of the courier, its answer to an envelope names that envelope's hash and, if it carries a payload,
  the payload is what a replica replied to an envelope with that hash; an envelope seen for the first time, in an
  acceptable epoch, is being sent to its replicas after the answer; and at most one dispatch of an envelope is running.
\<close>

theorem courier_answers_authentic:
  assumes "\<forall>ev \<in> set evs. event_ok ev" "length (IntermediateReplicas c) = 2"
  shows "\<exists>a e'. cacheHandleCourierEnvelope blake docEpoch ep t1 t2 qt c (courier_after blake evs) = (envelope_reply a, e')
    \<and> cer_EnvelopeHash a = CourierEnvelope_Hash blake c
    \<and> (cer_ReplyType a = ReplyTypePayload \<longleftrightarrow> cer_Payload a \<noteq> [])
    \<and> (cer_Payload a \<noteq> [] \<longrightarrow> (\<exists>r. ReplyArrives r \<in> set evs \<and> re_EnvelopeHash r = Some (CourierEnvelope_Hash blake c)
          \<and> re_EnvelopeReply r = cer_Payload a))
    \<and> (isEnvelopeEpochAcceptable (Epoch c) ep \<and> dedupCache (courier_after blake evs) (CourierEnvelope_Hash blake c) = None
          \<longrightarrow> CourierEnvelope_Hash blake c \<in> set (map fst (dispatching e')))
    \<and> distinct (map fst (dispatching e'))"
proof -
  let ?e = "courier_after blake evs" and ?h = "CourierEnvelope_Hash blake c"
  let ?q = "cacheHandleCourierEnvelope blake docEpoch ep t1 t2 qt c ?e"
  have inv: "courier_inv (seen_in evs) ?e" by (rule courier_after_inv [OF assms(1)])
  have after: "courier_inv (seen_in evs) (snd ?q)" by (rule query_inv [OF inv assms(2)])
  have d: "distinct (map fst (dispatching (snd ?q)))" using after by (simp add: courier_inv_def)
  have dispatched: "?h \<in> set (map fst (dispatching (snd ?q)))" if "isEnvelopeEpochAcceptable (Epoch c) ep" "dedupCache ?e ?h = None"
    using that inv by (auto simp: cacheHandleCourierEnvelope_def Let_def scheduleReplicaDispatch_def courier_inv_def)
  have codes: "ReplyTypeACK \<noteq> ReplyTypePayload" by (simp add: ReplyTypeACK_def ReplyTypePayload_def)
  have "\<exists>a. fst ?q = envelope_reply a \<and> cer_EnvelopeHash a = ?h \<and> (cer_ReplyType a = ReplyTypePayload \<longleftrightarrow> cer_Payload a \<noteq> [])
    \<and> (cer_Payload a \<noteq> [] \<longrightarrow> (\<exists>r. r \<in> seen_in evs \<and> re_EnvelopeHash r = Some ?h \<and> re_EnvelopeReply r = cer_Payload a))"
  proof (cases "isEnvelopeEpochAcceptable (Epoch c) ep \<and> dedupCache ?e ?h \<noteq> None \<and> \<not> ReplyIndex c > 1")
    case False
    then show ?thesis
      using codes by (auto simp: cacheHandleCourierEnvelope_def Let_def createEnvelopeErrorReply_def ackReply_def
          handleOldMessage_def split: option.split)
  next
    case True
    then obtain entry where entry: "dedupCache ?e ?h = Some entry" by blast
    obtain ix payload where old: "old_payload entry (ReplyIndex c) = (ix, payload)" by (metis surj_pair)
    have ok: "entry_ok (seen_in evs) ?h entry" using inv entry by (simp add: courier_inv_def)
    have ix1: "ReplyIndex c \<le> 1" using True by (simp add: not_less)
    show ?thesis
      using True entry old codes old_payload_kept [OF ok ix1 old]
      by (auto simp: cacheHandleCourierEnvelope_def Let_def handleOldMessage_def)
  qed
  then obtain a where "fst ?q = envelope_reply a" "cer_EnvelopeHash a = ?h"
    "cer_ReplyType a = ReplyTypePayload \<longleftrightarrow> cer_Payload a \<noteq> []"
    "cer_Payload a \<noteq> [] \<longrightarrow> (\<exists>r. r \<in> seen_in evs \<and> re_EnvelopeHash r = Some ?h \<and> re_EnvelopeReply r = cer_Payload a)"
    by blast
  then show ?thesis using d dispatched
    by (intro exI [of _ a] exI [of _ "snd ?q"]) (auto simp: seen_in_iff prod_eq_iff)
qed

definition good_reply :: replica_reply where
  "good_reply = \<lparr>re_ErrorCode = 0, re_EnvelopeHash = Some (CourierEnvelope_Hash rev demo_envelope), re_EnvelopeReply = [7, 7],
     re_ReplicaID = 1\<rparr>"

text \<open>The envelope is sent, one replica answers, and the envelope is sent again.\<close>

definition demo_history :: "courier_event list" where
  "demo_history = [QueryArrives None 7 0 0 0 demo_envelope, ReplyArrives good_reply]"

theorem courier_answers_authentic_witness:
  "\<exists>a e'. cacheHandleCourierEnvelope rev None 7 5 5 0 demo_envelope (courier_after rev demo_history) = (envelope_reply a, e')
    \<and> cer_EnvelopeHash a = CourierEnvelope_Hash rev demo_envelope"
proof -
  have "\<forall>ev \<in> set demo_history. event_ok ev" "length (IntermediateReplicas demo_envelope) = 2"
    by (simp_all add: demo_history_def demo_envelope_def)
  from courier_answers_authentic [OF this, of rev None 7 5 5 0] show ?thesis by blast
qed

section \<open>Good replies stay\<close>

definition holds_reply :: "bytes \<Rightarrow> int \<Rightarrow> nat \<Rightarrow> replica_reply \<Rightarrow> courier \<Rightarrow> bool" where
  "holds_reply h created i r e \<longleftrightarrow> (\<exists>entry. dedupCache e h = Some entry \<and> bk_CreatedAt entry = created
     \<and> i < length (bk_Replies entry) \<and> bk_Replies entry ! i = Some r)"

lemma entry_keeps:
  assumes "bk_Replies entry ! i = Some r" "re_ErrorCode r = 0" "i < length (bk_Replies entry)"
  shows "bk_Replies (handleExistingEntry entry x) ! i = Some r \<and> i < length (bk_Replies (handleExistingEntry entry x))
    \<and> bk_CreatedAt (handleExistingEntry entry x) = bk_CreatedAt entry"
proof -
  have "bk_Replies (storeOrReplaceReply entry x j) ! i = Some r
    \<and> length (bk_Replies (storeOrReplaceReply entry x j)) = length (bk_Replies entry)
    \<and> bk_CreatedAt (storeOrReplaceReply entry x j) = bk_CreatedAt entry" for j
    using assms by (cases "j = i") (auto simp: storeOrReplaceReply_def split: option.split)
  moreover have "j \<noteq> i" if "unused_slot entry = Some j" for j
    using unused_slot_less [OF that] assms(1) by auto
  ultimately show ?thesis using assms(1,3)
    by (auto simp: handleExistingEntry_def split: option.split)
qed

fun in_time :: "int \<Rightarrow> courier_event \<Rightarrow> bool" where
  "in_time created (QueryArrives docEpoch ep t1 t2 qt c) = (t1 - created \<le> DedupCacheTTL)"
| "in_time created ev = True"

lemma step_holds:
  assumes "holds_reply h created i r e" "re_ErrorCode r = 0" "in_time created ev"
  shows "holds_reply h created i r (courier_step blake e ev)"
proof -
  obtain entry where entry: "dedupCache e h = Some entry" "bk_CreatedAt entry = created" "i < length (bk_Replies entry)"
    "bk_Replies entry ! i = Some r" using assms(1) by (auto simp: holds_reply_def)
  show ?thesis
  proof (cases ev)
    case (QueryArrives docEpoch ep t1 t2 qt c)
    then have "pruneDedupCache t1 DedupCacheTTL (dedupCache e) h = Some entry"
      using entry assms(3) by (simp add: pruneDedupCache_def)
    then show ?thesis using QueryArrives entry
      by (auto simp: cacheHandleCourierEnvelope_def Let_def holds_reply_def scheduleReplicaDispatch_def split: option.split)
  next
    case (ReplyArrives x)
    show ?thesis
    proof (cases "re_EnvelopeHash x")
      case None
      then show ?thesis using ReplyArrives assms(1) by (simp add: HandleReply_def)
    next
      case (Some k)
      then show ?thesis
        using ReplyArrives entry entry_keeps [OF entry(4) assms(2) entry(3), of x]
        by (auto simp: HandleReply_def CacheReply_def holds_reply_def split: option.split)
    qed
  qed (use entry in \<open>auto simp: holds_reply_def dispatch_ends_def handleCopyCommand_def runCopyCommand_ends_def Let_def split: option.split\<close>)
qed

text \<open>Every entry has two slots.\<close>

definition two_slots :: "courier \<Rightarrow> bool" where
  "two_slots e \<longleftrightarrow> (\<forall>h entry. dedupCache e h = Some entry \<longrightarrow> length (bk_Replies entry) = 2)"

lemma handle_length: "length (bk_Replies (handleExistingEntry entry r)) = length (bk_Replies entry)"
  by (simp add: handleExistingEntry_def storeOrReplaceReply_def split: option.split)

lemma query_two_slots: "two_slots e \<Longrightarrow> two_slots (snd (cacheHandleCourierEnvelope blake docEpoch ep t1 t2 qt c e))"
  by (auto simp: cacheHandleCourierEnvelope_def Let_def two_slots_def scheduleReplicaDispatch_def dest!: prune_entry split: option.split)

lemma step_two_slots: "two_slots e \<Longrightarrow> two_slots (courier_step blake e ev)"
proof (cases ev)
  case (ReplyArrives r)
  moreover assume "two_slots e"
  ultimately show ?thesis
    by (cases "re_EnvelopeHash r") (auto simp: HandleReply_def CacheReply_def two_slots_def handle_length split: option.split)
qed (auto simp: query_two_slots, auto simp: two_slots_def dispatch_ends_def handleCopyCommand_def runCopyCommand_ends_def Let_def split: option.split)

lemma courier_after_two_slots: "two_slots (courier_after blake evs)"
  by (induction evs rule: rev_induct) (simp_all add: courier_after_def step_two_slots, simp add: two_slots_def NewCourier_def)

text \<open>The answer with the reply \<open>r\<close> of slot \<open>i\<close>.\<close>

definition answer_with :: "bytes \<Rightarrow> nat \<Rightarrow> replica_reply \<Rightarrow> CourierQueryReply" where
  "answer_with h i r = envelope_reply \<lparr>cer_EnvelopeHash = h, cer_ReplyIndex = of_nat i, cer_ReplyType = ReplyTypePayload,
     cer_PayloadLen = word_of_nat (length (re_EnvelopeReply r)), cer_Payload = re_EnvelopeReply r, cer_ErrorCode = EnvelopeErrorSuccess\<rparr>"

lemma courier_keeps:
  assumes "holds_reply h created i r (courier_after blake evs)" "re_ErrorCode r = 0" "\<forall>ev \<in> set evs'. in_time created ev"
  shows "holds_reply h created i r (courier_after blake (evs @ evs'))"
  using assms(3)
proof (induction evs' rule: rev_induct)
  case (snoc ev evs')
  then show ?case
    using step_holds [OF _ assms(2), of h created i "courier_after blake (evs @ evs')" ev blake]
    by (simp add: courier_after_def)
qed (use assms(1) in simp)

text \<open>
  C17. Once the courier holds a good reply of a replica to an envelope in one of its two slots, it gives this reply, and
  no other, to everyone who sends the envelope with the index of that slot in an acceptable epoch, whatever else has
  happened since, for five minutes after the envelope was first seen. Who sends it with the other index
  gets the same reply until the other slot holds one with a payload, and then that one: an answer can
  change from one replica's reply to the other's, but not back to none.
\<close>

theorem courier_answer_stable:
  assumes "holds_reply (CourierEnvelope_Hash blake c) created i r (courier_after blake evs)"
    and "re_ErrorCode r = 0" "re_EnvelopeReply r \<noteq> []" "i < 2"
    and "\<forall>ev \<in> set evs'. in_time created ev"
    and "ReplyIndex c = of_nat j" "j < 2" "isEnvelopeEpochAcceptable (Epoch c) ep"
  shows "let h = CourierEnvelope_Hash blake c; e = courier_after blake (evs @ evs');
             answer = fst (cacheHandleCourierEnvelope blake docEpoch ep t1 t2 qt c e)
         in if j = i \<or> (\<nexists>r'. holds_reply h created j r' e \<and> re_EnvelopeReply r' \<noteq> []) then answer = answer_with h i r
            else \<exists>r'. holds_reply h created j r' e \<and> re_EnvelopeReply r' \<noteq> [] \<and> answer = answer_with h j r'"
proof -
  let ?h = "CourierEnvelope_Hash blake c" and ?e = "courier_after blake (evs @ evs')"
  obtain entry where entry: "dedupCache ?e ?h = Some entry" "bk_Replies entry ! i = Some r" "bk_CreatedAt entry = created"
    using courier_keeps [OF assms(1,2,5)] by (auto simp: holds_reply_def)
  have "length (bk_Replies entry) = 2" using courier_after_two_slots entry(1) unfolding two_slots_def by blast
  then have held: "holds_reply ?h created j r' ?e \<longleftrightarrow> bk_Replies entry ! j = Some r'" for r'
    using entry assms(7) by (auto simp: holds_reply_def)
  have a: "fst (cacheHandleCourierEnvelope blake docEpoch ep t1 t2 qt c ?e) = answer_with ?h k r'"
    if "old_payload entry (ReplyIndex c) = (of_nat k, re_EnvelopeReply r')" "re_EnvelopeReply r' \<noteq> []" for k r'
  proof -
    have "\<not> ReplyIndex c > 1" using assms(6,7) by (auto simp: less_2_cases_iff)
    with that entry(1) assms(8) show ?thesis by (simp add: cacheHandleCourierEnvelope_def Let_def handleOldMessage_def answer_with_def)
  qed
  have ij: "i = 0 \<or> i = 1" "j = 0 \<or> j = 1" using assms(4,7) by auto
  show ?thesis
  proof (cases "j = i")
    case True
    then have "old_payload entry (ReplyIndex c) = (of_nat i, re_EnvelopeReply r)"
      using entry(2) assms(3,6) ij by (auto simp: old_payload_def Let_def split: option.split)
    with a [OF this assms(3)] True show ?thesis by (simp add: Let_def)
  next
    case False
    show ?thesis
    proof (cases "\<exists>r'. bk_Replies entry ! j = Some r' \<and> re_EnvelopeReply r' \<noteq> []")
      case True
      then obtain r' where r': "bk_Replies entry ! j = Some r'" "re_EnvelopeReply r' \<noteq> []" by blast
      then have "old_payload entry (ReplyIndex c) = (of_nat j, re_EnvelopeReply r')"
        using entry(2) assms(6) ij False by (auto simp: old_payload_def Let_def)
      with a [OF this r'(2)] r' False show ?thesis by (auto simp: Let_def held)
    next
      case none: False
      then have "old_payload entry (ReplyIndex c) = (of_nat i, re_EnvelopeReply r)"
        using entry(2) assms(3,6) ij False by (auto simp: old_payload_def Let_def split: option.split)
      with a [OF this assms(3)] none show ?thesis by (auto simp: Let_def held)
    qed
  qed
qed

theorem courier_answer_stable_witness:
  "fst (cacheHandleCourierEnvelope rev None 7 9 9 0 (demo_envelope\<lparr>ReplyIndex := 1\<rparr>) (courier_after rev (demo_history @ [DispatchEnds 0])))
    = envelope_reply \<lparr>cer_EnvelopeHash = CourierEnvelope_Hash rev demo_envelope, cer_ReplyIndex = 1, cer_ReplyType = ReplyTypePayload,
        cer_PayloadLen = 2, cer_Payload = [7, 7], cer_ErrorCode = EnvelopeErrorSuccess\<rparr>"
proof -
  let ?c = "demo_envelope\<lparr>ReplyIndex := 1\<rparr>"
  have h: "CourierEnvelope_Hash rev ?c = CourierEnvelope_Hash rev demo_envelope" by (simp add: CourierEnvelope_Hash_def)
  have "holds_reply (CourierEnvelope_Hash rev ?c) 0 1 good_reply (courier_after rev demo_history)"
    unfolding h by (simp add: courier_after_def demo_history_def cacheHandleCourierEnvelope_def Let_def NewCourier_def
        isEnvelopeEpochAcceptable_def demo_envelope_def ValidCourierEnvelopeEpochWindow_def scheduleReplicaDispatch_def
        HandleReply_def CacheReply_def good_reply_def holds_reply_def handleExistingEntry_def storeOrReplaceReply_def)
  moreover have "isEnvelopeEpochAcceptable (Epoch ?c) 7"
    by (simp add: isEnvelopeEpochAcceptable_def demo_envelope_def ValidCourierEnvelopeEpochWindow_def)
  ultimately show ?thesis
    using courier_answer_stable [of rev ?c 0 1 good_reply demo_history "[DispatchEnds 0]" 1 7 None 9 9 0]
    by (simp add: h good_reply_def answer_with_def Let_def)
qed

section \<open>Deleting a temporary stream\<close>

text \<open>A box that can be read is not written again, whatever the write.\<close>

lemma existing_write_some: "read_kept R d boxID eps = Inr box
   \<Longrightarrow> \<exists>a. existing_write R d boxID signature payload eps = Some a \<and> (a = None \<longrightarrow> box_Payload box = payload)"
  by (induction R d boxID eps rule: read_kept.induct) (auto split: option.splits if_splits sum.splits fail.splits)

lemma readable_not_written:
  assumes "stateHandleReplicaRead R cur boxID st = Inr box"
  shows "\<exists>a. state_handleReplicaWrite R cur boxID signature payload st = (a, st) \<and> (a = None \<longrightarrow> box_Payload box = payload)"
proof -
  obtain d where d: "db st = Some d" "read_kept R d boxID (keptEpochs cur) = Inr box"
    using assms by (auto simp: stateHandleReplicaRead_def split: option.splits)
  from existing_write_some [OF d(2), of signature payload] show ?thesis
    using d(1) by (auto simp: state_handleReplicaWrite_def)
qed

text \<open>
  What the courier writes to delete a box of a temporary stream deletes nothing: to a replica it is an ordinary
  write, of a full-length payload, so if the replica can read the box, its store stays as it is, and the write counts
  as a success only if the box already has this payload. (The ciphertext is longer than the plaintext by the
  fixed overhead of BACAP.)
\<close>

lemma courier_tombstone_never_deletes:
  assumes "tombstone_write N writer boxID = Inr (Some w, writer')"
    and "\<forall>wr padded i ct sig wr'. EncryptNext N wr padded = (Some (i, ct, sig), wr')
          \<longrightarrow> int (length ct) = int (length padded) + bacapEncryptionOverhead"
    and "rgeo E = copyGeo N" "0 \<le> MaxPlaintextPayloadLength (rgeo E)" "MaxPlaintextPayloadLength (rgeo E) < 2 ^ 31"
    and "stateHandleReplicaRead R cur boxID st = Inr box"
  shows "\<exists>code. handleReplicaWrite E R cur w st = (write_reply code, st) \<and> (code = ReplicaSuccess \<longrightarrow> box_Payload box = rw_Payload w)"
proof -
  let ?L = "MaxPlaintextPayloadLength (rgeo E) + lengthPrefixSize"
  have pad: "\<exists>padded. CreatePaddedPayload [] (PaddedPayloadLength (copyGeo N)) = Inr padded \<and> int (length padded) = ?L"
    using assms(3,4) by (simp add: CreatePaddedPayload_def PaddedPayloadLength_def lengthPrefixSize_def)
  then obtain i ct sig where w: "w = \<lparr>rw_BoxID = boxID, rw_Signature = copy_into 64 sig,
      rw_PayloadLen = word_of_nat (length ct), rw_Payload = ct\<rparr>" and "int (length ct) = ?L + bacapEncryptionOverhead"
    using assms(1,2) by (fastforce simp: tombstone_write_def split: prod.splits option.splits if_splits)
  then have ct: "int (length ct) = CalculateBoxCiphertextLength (rgeo E)" "ct \<noteq> []" "length ct < 2 ^ 32"
    using assms(4,5) by (auto simp: CalculateBoxCiphertextLength_def lengthPrefixSize_def bacapEncryptionOverhead_def)
  have "unat (word_of_nat (length ct) :: u32) \<noteq> 0" using ct(2,3) by (simp add: unat_of_nat)
  then have full: "rw_PayloadLen w \<noteq> 0" "rw_Payload w = ct" "rw_BoxID w = boxID" unfolding w by (auto simp: unat_eq_0)
  obtain a where a: "state_handleReplicaWrite R cur boxID (rw_Signature w) ct st = (a, st)" "a = None \<longrightarrow> box_Payload box = ct"
    using readable_not_written [OF assms(6)] by blast
  show ?thesis
    using full ct(1,2) a by (auto simp: handleReplicaWrite_def replica_codes split: option.split store_err.split)
qed

definition deleting_env :: "(unit, bytes list, unit, byte, byte, unit) copy_env" where
  "deleting_env = (demo_copy_env [])\<lparr>EncryptNext := (\<lambda>wr padded. (Some (replicate 32 7, replicate 16 0 @ padded, replicate 64 7), wr)),
     copyGeo := small_geometry\<rparr>"

definition old_box :: Box where "old_box = new_box (replicate 32 7) (replicate 64 7) (replicate 23 1)"

definition store_of_box :: "(bytes \<Rightarrow> bytes) store" where
  "store_of_box = \<lparr>db = Some ((\<lambda>_. [])(boxKey 3 (replicate 32 7) := Box_Bytes old_box)), metaCF = True, storageFull = False\<rparr>"

theorem courier_tombstone_never_deletes_witness:
  "\<exists>w code. tombstone_write deleting_env () (replicate 32 7) = Inr (Some w, ())
    \<and> handleReplicaWrite demo_replica_env map_rocks 3 w store_of_box = (write_reply code, store_of_box)
    \<and> (code = ReplicaSuccess \<longrightarrow> replicate 23 1 = rw_Payload w)"
proof -
  have r: "stateHandleReplicaRead map_rocks 3 (replicate 32 7) store_of_box = Inr old_box"
    using stored_box [of "replicate 32 7" "replicate 64 7" "replicate 23 1"]
    by (simp add: stateHandleReplicaRead_def store_of_box_def map_rocks_def keptEpochs_def old_box_def)
  obtain w where w: "tombstone_write deleting_env () (replicate 32 7) = Inr (Some w, ())"
    by (simp add: tombstone_write_def deleting_env_def CreatePaddedPayload_def PaddedPayloadLength_def small_geometry_def
        lengthPrefixSize_def)
  have l: "\<forall>wr padded i ct sig wr'. EncryptNext deleting_env wr padded = (Some (i, ct, sig), wr')
      \<longrightarrow> int (length ct) = int (length padded) + bacapEncryptionOverhead"
    by (auto simp: deleting_env_def bacapEncryptionOverhead_def)
  have "rgeo demo_replica_env = copyGeo deleting_env" "0 \<le> MaxPlaintextPayloadLength (rgeo demo_replica_env)"
    "MaxPlaintextPayloadLength (rgeo demo_replica_env) < 2 ^ 31"
    by (simp_all add: demo_replica_env_def deleting_env_def small_geometry_def)
  from courier_tombstone_never_deletes [OF w l this r] w show ?thesis by (auto simp: old_box_def new_box_def)
qed

end
