(* ===== verification/CoreQueue.thy ===== *)
theory CoreQueue
  imports Prelude "HOL-Library.Multiset"
begin

text \<open>
  The priority queue of core/queue/priority_queue.go, a binary heap in an array, with the
  functions of Go's container/heap that it calls (\<open>up\<close>, \<open>down\<close>, \<open>Push\<close>, \<open>Pop\<close>,
  \<open>Remove\<close>). The struct has one field, the array, and is that list. An index is an \<open>int\<close>, as in
  the code: a negative one does not always panic, because \<open>Swap\<close> ignores it.
\<close>

record 'v Entry =
  Value :: 'v
  Priority :: u64

type_synonym 'v PriorityQueue = "'v Entry list"

section \<open>The methods of heap.Interface\<close>

definition Less :: "'v PriorityQueue \<Rightarrow> nat \<Rightarrow> nat \<Rightarrow> bool" where
  "Less q i j \<longleftrightarrow> Priority (q ! i) < Priority (q ! j)"

definition Swap :: "nat \<Rightarrow> nat \<Rightarrow> 'v PriorityQueue \<Rightarrow> 'v PriorityQueue" where
  "Swap i j q = q[i := q ! j, j := q ! i]"

definition queue_Push :: "'v Entry \<Rightarrow> 'v PriorityQueue \<Rightarrow> 'v PriorityQueue" where
  "queue_Push e q = q @ [e]"

definition queue_Pop :: "'v PriorityQueue \<Rightarrow> 'v Entry option \<times> 'v PriorityQueue" where
  "queue_Pop q = (if q = [] then (None, q) else (Some (last q), butlast q))"

section \<open>container/heap\<close>

function heap_up :: "nat \<Rightarrow> 'v PriorityQueue \<Rightarrow> 'v PriorityQueue" where
  "heap_up j q =
     (let i = (j - 1) div 2
      in if i = j \<or> \<not> Less q j i then q else heap_up i (Swap i j q))"
  by pat_completeness auto
termination by (relation "measure fst") auto

text \<open>The loop of \<open>down\<close> on the first \<open>n\<close> entries, with the place where it ends.\<close>

function heap_down :: "nat \<Rightarrow> nat \<Rightarrow> 'v PriorityQueue \<Rightarrow> nat \<times> 'v PriorityQueue" where
  "heap_down i n q =
     (let j1 = 2 * i + 1
      in if n \<le> j1 then (i, q)
         else let j = (if j1 + 1 < n \<and> Less q (j1 + 1) j1 then j1 + 1 else j1)
              in if \<not> Less q j i then (i, q) else heap_down j n (Swap i j q))"
  by pat_completeness auto
termination by (relation "measure (\<lambda>(i, n, q). n - i)") (auto simp: Let_def split: if_splits)

declare heap_up.simps [simp del] heap_down.simps [simp del]

definition heap_Push :: "'v Entry \<Rightarrow> 'v PriorityQueue \<Rightarrow> 'v PriorityQueue" where
  "heap_Push e q = heap_up (length (queue_Push e q) - 1) (queue_Push e q)"

definition heap_Pop :: "'v PriorityQueue \<Rightarrow> 'v Entry option \<times> 'v PriorityQueue" where
  "heap_Pop q = (if q = [] then queue_Pop q
     else let n = length q - 1 in queue_Pop (snd (heap_down 0 n (Swap 0 n q))))"

text \<open>
  \<open>Remove\<close> with an index outside the array: \<open>Swap\<close> ignores -1, \<open>down\<close> and \<open>up\<close> then stop at
  once and the last entry goes; any other index panics in \<open>Swap\<close> or \<open>up\<close>.
\<close>

definition heap_Remove :: "int \<Rightarrow> 'v PriorityQueue \<Rightarrow> (unit, 'v Entry option \<times> 'v PriorityQueue) go" where
  "heap_Remove index q =
     (if index = -1 then Inr (queue_Pop q)
      else if index < 0 \<or> int (length q) \<le> index then Inl Panic
      else let n = length q - 1; i = nat index
           in Inr (queue_Pop
                (if n = i then q
                 else let (i', q') = heap_down i n (Swap i n q)
                      in if i < i' then q' else heap_up i q')))"

section \<open>The operations\<close>

text \<open>\<open>heap.Init\<close> of an empty heap changes nothing.\<close>

definition queue_New :: "'v PriorityQueue" where
  "queue_New = []"

definition Dequeue :: "'v PriorityQueue \<Rightarrow> 'v Entry option \<times> 'v PriorityQueue" where
  "Dequeue q = (if length q \<le> 0 then (None, q) else heap_Pop q)"

definition Peek :: "'v PriorityQueue \<Rightarrow> 'v Entry option" where
  "Peek q = (if length q \<le> 0 then None else Some (q ! 0))"

definition PeekIndex :: "int \<Rightarrow> 'v PriorityQueue \<Rightarrow> (unit, 'v Entry option) go" where
  "PeekIndex i q = (if length q \<le> 0 then Inr None
     else if i < 0 \<or> int (length q) \<le> i then Inl Panic else Inr (Some (q ! nat i)))"

definition DequeueIndex :: "int \<Rightarrow> 'v PriorityQueue \<Rightarrow> (unit, 'v Entry option \<times> 'v PriorityQueue) go" where
  "DequeueIndex index q = (if length q \<le> 0 then Inr (None, q) else heap_Remove index q)"

definition Enqueue :: "u64 \<Rightarrow> 'v \<Rightarrow> 'v PriorityQueue \<Rightarrow> 'v PriorityQueue" where
  "Enqueue priority v q = heap_Push \<lparr>Value = v, Priority = priority\<rparr> q"

text \<open>\<open>r.Intn(n)\<close> is a number below \<open>n\<close>: the remainder of the argument stands for it.\<close>

definition DequeueRandom :: "nat \<Rightarrow> 'v PriorityQueue \<Rightarrow> (unit, 'v Entry option \<times> 'v PriorityQueue) go" where
  "DequeueRandom r q = (if length q \<le> 0 then Inr (None, q) else heap_Remove (int (r mod length q)) q)"

definition queue_Remove :: "int \<Rightarrow> 'v PriorityQueue \<Rightarrow> (unit, 'v Entry option \<times> 'v PriorityQueue) go" where
  "queue_Remove index q = DequeueIndex index q"

section \<open>The heap\<close>

abbreviation prio :: "'v PriorityQueue \<Rightarrow> nat \<Rightarrow> u64" where
  "prio q i \<equiv> Priority (q ! i)"

definition parent :: "nat \<Rightarrow> nat" where "parent i = (i - 1) div 2"

definition is_heap :: "'v PriorityQueue \<Rightarrow> bool" where
  "is_heap q \<longleftrightarrow> (\<forall>i < length q. prio q (parent i) \<le> prio q i)"

text \<open>
  The heap order among the first \<open>n\<close> entries, except between \<open>i\<close> and its children (while \<open>i\<close> sinks)
  or between \<open>i\<close> and its parent (while \<open>i\<close> rises).
\<close>

definition heap_first :: "nat \<Rightarrow> 'v PriorityQueue \<Rightarrow> bool" where
  "heap_first n q \<longleftrightarrow> (\<forall>k < n. prio q (parent k) \<le> prio q k)"

definition heap_gap :: "nat \<Rightarrow> 'v PriorityQueue \<Rightarrow> nat \<Rightarrow> bool" where
  "heap_gap n q i \<longleftrightarrow> (\<forall>k < n. k \<noteq> i \<longrightarrow> 0 < k \<longrightarrow> parent k \<noteq> i \<longrightarrow> prio q (parent k) \<le> prio q k)
     \<and> (\<forall>k < n. 0 < k \<longrightarrow> parent k = i \<longrightarrow> prio q (parent i) \<le> prio q k \<or> i = 0)"

definition heap_above :: "nat \<Rightarrow> 'v PriorityQueue \<Rightarrow> nat \<Rightarrow> bool" where
  "heap_above n q i \<longleftrightarrow> heap_gap n q i \<and> prio q (parent i) \<le> prio q i"

definition heap_below :: "'v PriorityQueue \<Rightarrow> nat \<Rightarrow> bool" where
  "heap_below q j \<longleftrightarrow> (\<forall>k < length q. k \<noteq> j \<longrightarrow> prio q (parent k) \<le> prio q k)
     \<and> (\<forall>k < length q. parent k = j \<longrightarrow> 0 < k \<longrightarrow> prio q (parent j) \<le> prio q k)"

lemma parent_less: "0 < i \<Longrightarrow> parent i < i"
  by (simp add: parent_def)

lemma parent_0 [simp]: "parent 0 = 0"
  by (simp add: parent_def)

lemma parent_le: "parent i \<le> i"
  using parent_less [of i] by (cases "i = 0") auto

lemma parent_eq_iff: "0 < k \<Longrightarrow> parent k = i \<longleftrightarrow> k = 2 * i + 1 \<or> k = 2 * i + 2"
  by (simp add: parent_def) presburger

lemma child_in: "k < n \<Longrightarrow> 0 < k \<Longrightarrow> parent k = i \<Longrightarrow> 2 * i + 1 < n"
  using parent_eq_iff [of k i] by auto

lemma length_Swap [simp]: "length (Swap i j q) = length q"
  by (simp add: Swap_def)

lemma mset_Swap [simp]: "i < length q \<Longrightarrow> j < length q \<Longrightarrow> mset (Swap i j q) = mset q"
  unfolding Swap_def by (metis mset_swap)

lemma nth_Swap: "i < length q \<Longrightarrow> j < length q \<Longrightarrow> k < length q
    \<Longrightarrow> Swap i j q ! k = (if k = i then q ! j else if k = j then q ! i else q ! k)"
  by (simp add: Swap_def nth_list_update)

lemma is_heap_root: "is_heap q \<Longrightarrow> i < length q \<Longrightarrow> prio q 0 \<le> prio q i"
proof (induction i rule: less_induct)
  case (less i)
  show ?case
  proof (cases "i = 0")
    case False
    then have "parent i < i" by (simp add: parent_less)
    with less have "prio q 0 \<le> prio q (parent i)" by simp
    also have "\<dots> \<le> prio q i" using less.prems by (simp add: is_heap_def)
    finally show ?thesis .
  qed simp
qed

section \<open>Sinking and rising\<close>

lemma heap_up_mset: "j < length q \<Longrightarrow> mset (heap_up j q) = mset q \<and> length (heap_up j q) = length q"
proof (induction j q rule: heap_up.induct)
  case (1 j q)
  show ?case
  proof (cases "(j - 1) div 2 = j \<or> \<not> Less q j ((j - 1) div 2)")
    case True
    then show ?thesis by (subst (1 2) heap_up.simps) (auto simp: Let_def)
  next
    case False
    have "(j - 1) div 2 < length q" using "1.prems" by linarith
    with 1 False show ?thesis by (subst (1 2) heap_up.simps) (simp add: Let_def)
  qed
qed

lemma heap_up_ok: "j < length q \<Longrightarrow> heap_below q j \<Longrightarrow> is_heap (heap_up j q)"
proof (induction j q rule: heap_up.induct)
  case (1 j q)
  show ?case
  proof (cases "j = 0 \<or> \<not> Less q j (parent j)")
    case True
    then have "is_heap q" using "1.prems" by (force simp: is_heap_def heap_below_def Less_def)
    moreover have "heap_up j q = q" using True by (subst heap_up.simps) (auto simp: Let_def parent_def)
    ultimately show ?thesis by simp
  next
    case False
    then have j: "0 < j" and lt: "prio q j < prio q (parent j)" by (auto simp: Less_def)
    let ?i = "parent j" and ?q = "Swap (parent j) j q"
    have i: "?i < j" by (rule parent_less [OF j])
    with "1.prems" have il: "?i < length q" by simp
    have "heap_below ?q ?i"
      unfolding heap_below_def
    proof (intro conjI allI impI)
      fix k assume k: "k < length ?q" "k \<noteq> ?i"
      have pk: "parent k < length q" using k parent_le [of k] by simp
      show "prio ?q (parent k) \<le> prio ?q k"
      proof (cases "k = j")
        case True
        then show ?thesis using lt il "1.prems" i by (simp add: nth_Swap)
      next
        case False
        then have le: "prio q (parent k) \<le> prio q k" using "1.prems" k by (auto simp: heap_below_def)
        have up: "parent k = j \<Longrightarrow> prio q ?i \<le> prio q k"
          using "1.prems" k False by (cases "k = 0") (auto simp: heap_below_def)
        show ?thesis using False k pk le up lt il "1.prems" i by (auto simp: nth_Swap)
      qed
    next
      fix k assume k: "k < length ?q" "parent k = ?i" "0 < k"
      have ppl: "parent ?i < length q" using parent_le [of ?i] il by simp
      have ne: "k \<noteq> ?i" using parent_less [OF k(3)] k(2) by simp
      have le: "prio q (parent ?i) \<le> prio q ?i" using "1.prems" i il by (auto simp: heap_below_def)
      have ppj: "parent ?i \<noteq> j" using parent_le [of ?i] i by simp
      show "prio ?q (parent ?i) \<le> prio ?q k"
      proof (cases "?i = 0")
        case True
        then have "parent ?i = ?i" by simp
        show ?thesis
        proof (cases "k = j")
          case True
          then show ?thesis using \<open>parent ?i = ?i\<close> lt il "1.prems" i by (simp add: nth_Swap)
        next
          case False
          then have "prio q ?i \<le> prio q k" using "1.prems" k by (metis heap_below_def length_Swap)
          then show ?thesis using \<open>parent ?i = ?i\<close> lt il "1.prems" i k False ne by (auto simp: nth_Swap)
        qed
      next
        case False
        then have pp: "parent ?i \<noteq> ?i" using parent_less [of ?i] by simp
        show ?thesis
        proof (cases "k = j")
          case True
          then show ?thesis using pp ppj ppl le il "1.prems" i by (simp add: nth_Swap)
        next
          case False
          then have "prio q ?i \<le> prio q k" using "1.prems" k by (metis heap_below_def length_Swap)
          then show ?thesis using pp ppj ppl le il "1.prems" i k False ne by (auto simp: nth_Swap)
        qed
      qed
    qed
    then have "is_heap (heap_up ?i ?q)"
      using 1 False i il by (auto simp: parent_def)
    with False i show ?thesis by (subst heap_up.simps) (simp add: Let_def parent_def)
  qed
qed

text \<open>One turn of \<open>down\<close>: the smaller child \<open>j\<close> takes the place of \<open>i\<close>.\<close>

definition min_child :: "nat \<Rightarrow> nat \<Rightarrow> 'v PriorityQueue \<Rightarrow> nat" where
  "min_child i n q = (if 2 * i + 2 < n \<and> Less q (2 * i + 2) (2 * i + 1) then 2 * i + 2 else 2 * i + 1)"

lemma heap_down_step:
  "heap_down i n q = (if n \<le> 2 * i + 1 \<or> \<not> Less q (min_child i n q) i then (i, q)
     else heap_down (min_child i n q) n (Swap i (min_child i n q) q))"
  by (subst heap_down.simps) (simp add: Let_def min_child_def)

lemma min_child_bounds: "2 * i + 1 < n \<Longrightarrow> i < min_child i n q \<and> min_child i n q < n \<and> parent (min_child i n q) = i"
  by (auto simp: min_child_def parent_def)

lemma min_child_least:
  assumes "k < n" "0 < k" "parent k = i"
  shows "prio q (min_child i n q) \<le> prio q k"
  using assms by (auto simp: parent_eq_iff min_child_def Less_def)

lemma heap_down_mset:
  "i < n \<Longrightarrow> n \<le> length q \<Longrightarrow> mset (snd (heap_down i n q)) = mset q \<and> length (snd (heap_down i n q)) = length q
     \<and> drop n (snd (heap_down i n q)) = drop n q \<and> i \<le> fst (heap_down i n q)"
proof (induction "n - i" arbitrary: i q rule: less_induct)
  case less
  show ?case
  proof (cases "n \<le> 2 * i + 1 \<or> \<not> Less q (min_child i n q) i")
    case True
    then show ?thesis by (simp add: heap_down_step [of i])
  next
    case False
    let ?j = "min_child i n q"
    have j: "i < ?j" "?j < n" using min_child_bounds [of i n q] False by auto
    have "drop n (Swap i ?j q) = drop n q" using j by (simp add: Swap_def drop_update_cancel)
    moreover have "n - ?j < n - i" using j by linarith
    ultimately show ?thesis using less.hyps [of ?j "Swap i ?j q"] less.prems j False by (auto simp: heap_down_step [of i])
  qed
qed

lemma heap_gap_step:
  assumes g: "heap_gap n q i" and n: "n \<le> length q" and c: "2 * i + 1 < n" and lt: "Less q (min_child i n q) i"
  shows "heap_above n (Swap i (min_child i n q) q) (min_child i n q)"
proof -
  let ?j = "min_child i n q" and ?q = "Swap i (min_child i n q) q"
  have j: "i < ?j" "?j < n" "parent ?j = i" using min_child_bounds [OF c] by auto
  have at: "k < n \<Longrightarrow> prio ?q k = (if k = i then prio q ?j else if k = ?j then prio q i else prio q k)" for k
    using j n by (simp add: nth_Swap)
  have p: "k < n \<Longrightarrow> parent k < n" for k using parent_le [of k] by simp
  have "prio ?q (parent k) \<le> prio ?q k" if k: "k < n" "k \<noteq> ?j" "0 < k" "parent k \<noteq> ?j" for k
  proof -
    consider "k = i" | "k \<noteq> i" "parent k = i" | "k \<noteq> i" "parent k \<noteq> i" by blast
    then show ?thesis
    proof cases
      case 1
      then have "parent k \<noteq> i" using parent_less [OF k(3)] by simp
      moreover have "prio q (parent i) \<le> prio q ?j" using g j k 1 by (auto simp: heap_gap_def)
      ultimately show ?thesis using 1 k p [OF k(1)] by (simp add: at)
    next
      case 2
      with min_child_least [of k n i q] k show ?thesis using p [OF k(1)] by (simp add: at)
    next
      case 3
      then have "prio q (parent k) \<le> prio q k" using g k by (auto simp: heap_gap_def)
      with 3 k show ?thesis using p [OF k(1)] by (simp add: at)
    qed
  qed
  moreover have "prio ?q (parent ?j) \<le> prio ?q k" if k: "k < n" "0 < k" "parent k = ?j" for k
  proof -
    have "k \<noteq> i" "k \<noteq> ?j" using parent_less [OF k(2)] k(3) j(1) by auto
    moreover have "prio q ?j \<le> prio q k" using g k j \<open>k \<noteq> i\<close> by (auto simp: heap_gap_def)
    ultimately show ?thesis using k j by (simp add: at)
  qed
  moreover have "prio ?q (parent ?j) \<le> prio ?q ?j" using j lt by (simp add: at Less_def)
  ultimately show ?thesis unfolding heap_above_def heap_gap_def by blast
qed

lemma heap_above_stops:
  assumes a: "heap_gap n q i" and le: "i = 0 \<or> prio q (parent i) \<le> prio q i"
    and stop: "n \<le> 2 * i + 1 \<or> \<not> Less q (min_child i n q) i"
  shows "heap_first n q"
  unfolding heap_first_def
proof (intro allI impI)
  fix k assume k: "k < n"
  show "prio q (parent k) \<le> prio q k"
  proof (cases "0 < k \<and> parent k = i")
    case True
    then have "2 * i + 1 < n" using child_in k by blast
    with stop have "prio q i \<le> prio q (min_child i n q)" by (auto simp: Less_def)
    also have "\<dots> \<le> prio q k" using min_child_least k True by blast
    finally show ?thesis using True by simp
  next
    case False
    then show ?thesis using a le k by (cases "k = 0"; cases "k = i") (auto simp: heap_gap_def)
  qed
qed

lemma heap_down_first:
  "i < n \<Longrightarrow> n \<le> length q \<Longrightarrow> heap_gap n q i \<Longrightarrow> i = 0 \<or> prio q (parent i) \<le> prio q i
     \<Longrightarrow> heap_first n (snd (heap_down i n q))"
proof (induction "n - i" arbitrary: i q rule: less_induct)
  case less
  show ?case
  proof (cases "n \<le> 2 * i + 1 \<or> \<not> Less q (min_child i n q) i")
    case True
    with heap_above_stops [of n q i] less.prems show ?thesis by (auto simp: heap_down_step [of i])
  next
    case False
    let ?j = "min_child i n q"
    have j: "i < ?j" "?j < n" using min_child_bounds [of i n q] False by auto
    have "heap_above n (Swap i ?j q) ?j" using heap_gap_step [of n q i] less.prems False by auto
    with less.hyps [of ?j "Swap i ?j q"] less.prems j False show ?thesis
      by (auto simp: heap_down_step [of i] heap_above_def)
  qed
qed

text \<open>If the loop has moved, the entry that rose is no smaller than the parent of \<open>i\<close>; otherwise nothing has changed.\<close>

lemma heap_down_gap:
  assumes i: "i < n" "n \<le> length q" and g: "heap_gap n q i"
  shows "if i < fst (heap_down i n q) then heap_first n (snd (heap_down i n q))
     else heap_down i n q = (i, q) \<and> (\<forall>k < n. 0 < k \<longrightarrow> parent k = i \<longrightarrow> prio q i \<le> prio q k)"
proof (cases "n \<le> 2 * i + 1 \<or> \<not> Less q (min_child i n q) i")
  case True
  have "prio q i \<le> prio q k" if k: "k < n" "0 < k" "parent k = i" for k
  proof -
    have "2 * i + 1 < n" using child_in k by blast
    with True have "prio q i \<le> prio q (min_child i n q)" by (auto simp: Less_def)
    also have "\<dots> \<le> prio q k" using min_child_least k by blast
    finally show ?thesis .
  qed
  with True show ?thesis by (simp add: heap_down_step [of i])
next
  case False
  let ?j = "min_child i n q"
  have j: "i < ?j" "?j < n" using min_child_bounds [of i n q] False by auto
  have a: "heap_above n (Swap i ?j q) ?j" using heap_gap_step [of n q i] i g False by auto
  have "heap_first n (snd (heap_down ?j n (Swap i ?j q)))"
    by (rule heap_down_first) (use a i j in \<open>auto simp: heap_above_def\<close>)
  moreover have "?j \<le> fst (heap_down ?j n (Swap i ?j q))" using heap_down_mset [of ?j n "Swap i ?j q"] i j by simp
  ultimately show ?thesis using False j by (auto simp: heap_down_step [of i])
qed

section \<open>The operations keep the heap and its entries\<close>

lemma heap_first_take: "n \<le> length q \<Longrightarrow> heap_first n q \<longleftrightarrow> is_heap (take n q)"
  using le_less_trans [OF parent_le] by (auto simp: heap_first_def is_heap_def)

lemma heap_up_take: "j < n \<Longrightarrow> n \<le> length q \<Longrightarrow> heap_up j q = heap_up j (take n q) @ drop n q"
proof (induction j q rule: heap_up.induct)
  case (1 j q)
  let ?i = "(j - 1) div 2"
  have i: "?i < n" using 1 by linarith
  have less: "Less (take n q) j ?i = Less q j ?i" using 1 i by (simp add: Less_def)
  show ?case
  proof (cases "?i = j \<or> \<not> Less q j ?i")
    case True
    then show ?thesis using less by (subst (1 2) heap_up.simps) (auto simp: Let_def)
  next
    case False
    have "take n (Swap ?i j q) = Swap ?i j (take n q)" "drop n (Swap ?i j q) = drop n q"
      using 1 i by (simp_all add: Swap_def take_update_swap drop_update_cancel)
    with 1 False less i show ?thesis by (subst (1 2) heap_up.simps) (simp add: Let_def)
  qed
qed

lemma heap_Push_ok:
  assumes h: "is_heap q"
  shows "is_heap (heap_Push e q)" and "mset (heap_Push e q) = add_mset e (mset q)"
proof -
  have "heap_below (q @ [e]) (length q)"
    unfolding heap_below_def
  proof (intro conjI allI impI)
    fix k assume k: "k < length (q @ [e])" "k \<noteq> length q"
    then show "prio (q @ [e]) (parent k) \<le> prio (q @ [e]) k"
      using h parent_le [of k] by (simp add: is_heap_def nth_append)
  next
    fix k assume "k < length (q @ [e])" "parent k = length q" "0 < k"
    then show "prio (q @ [e]) (parent (length q)) \<le> prio (q @ [e]) k" using parent_less [of k] by simp
  qed
  then show "is_heap (heap_Push e q)" by (simp add: heap_Push_def queue_Push_def heap_up_ok)
  show "mset (heap_Push e q) = add_mset e (mset q)" using heap_up_mset [of "length q" "q @ [e]"]
    by (simp add: heap_Push_def queue_Push_def)
qed

lemma heap_first_Pop:
  assumes f: "heap_first n q" and n: "length q = Suc n"
  shows "is_heap (snd (queue_Pop q))" "fst (queue_Pop q) = Some (q ! n)" "mset q = add_mset (q ! n) (mset (snd (queue_Pop q)))"
proof -
  have q: "q \<noteq> []" using n by auto
  then have "last q = q ! n" using n by (simp add: last_conv_nth)
  note q = q this
  show "is_heap (snd (queue_Pop q))" using f n heap_first_take [of n q] q by (simp add: queue_Pop_def butlast_conv_take)
  show "fst (queue_Pop q) = Some (q ! n)" using q by (simp add: queue_Pop_def)
  have "q = butlast q @ [q ! n]" using q by (metis append_butlast_last_id)
  then have "mset q = mset (butlast q @ [q ! n])" by simp
  then show "mset q = add_mset (q ! n) (mset (snd (queue_Pop q)))" using q by (simp add: queue_Pop_def)
qed

lemma Swap_gap:
  assumes h: "is_heap q" and n: "length q = Suc n" and i: "i < n"
  shows "heap_gap n (Swap i n q) i"
proof -
  have p: "k < n \<Longrightarrow> parent k < n" for k using parent_le [of k] by simp
  have le: "k < n \<Longrightarrow> prio q (parent k) \<le> prio q k" for k using h n by (simp add: is_heap_def)
  have at: "k < n \<Longrightarrow> k \<noteq> i \<Longrightarrow> Swap i n q ! k = q ! k" for k using n i by (simp add: nth_Swap)
  have "prio (Swap i n q) (parent i) \<le> prio (Swap i n q) k" if k: "k < n" "0 < k" "parent k = i" "i \<noteq> 0" for k
  proof -
    have "k \<noteq> i" "parent i \<noteq> i" using parent_less [of k] parent_less [of i] k by auto
    moreover have "prio q (parent i) \<le> prio q k" using le [OF i] le [OF k(1)] k(3) by simp
    ultimately show ?thesis using at k(1) p [OF i] by simp
  qed
  moreover have "prio (Swap i n q) (parent k) \<le> prio (Swap i n q) k" if "k < n" "k \<noteq> i" "parent k \<noteq> i" for k
    using that at p le by simp
  ultimately show ?thesis unfolding heap_gap_def by blast
qed

lemma heap_Pop_ok:
  assumes h: "is_heap q" and q: "q \<noteq> []"
  shows "is_heap (snd (heap_Pop q))" "fst (heap_Pop q) = Some (q ! 0)" "mset q = add_mset (q ! 0) (mset (snd (heap_Pop q)))"
proof -
  obtain n where n: "length q = Suc n" using q by (cases q) auto
  let ?q = "snd (heap_down 0 n (Swap 0 n q))"
  have *: "heap_first n ?q \<and> mset ?q = mset q \<and> length ?q = Suc n \<and> ?q ! n = q ! 0"
  proof (cases "n = 0")
    case True
    then show ?thesis using n by (simp add: heap_down_step [of 0] heap_first_def Swap_def)
  next
    case False
    note m = heap_down_mset [of 0 n "Swap 0 n q"]
    have "drop n ?q = drop n (Swap 0 n q)" using m n False by simp
    then have "?q ! n = Swap 0 n q ! n" using m n False by (metis Cons_nth_drop_Suc le_refl length_Swap lessI list.inject neq0_conv le_SucI le_add1)
    moreover have "heap_first n ?q" by (rule heap_down_first) (use False n Swap_gap [OF h n] in auto)
    ultimately show ?thesis using m n False by (simp add: nth_Swap)
  qed
  have e: "heap_Pop q = queue_Pop ?q" using q n by (simp add: heap_Pop_def)
  show "is_heap (snd (heap_Pop q))" "fst (heap_Pop q) = Some (q ! 0)" "mset q = add_mset (q ! 0) (mset (snd (heap_Pop q)))"
    using heap_first_Pop [of n ?q] * by (simp_all add: e)
qed

lemma heap_Remove_ok:
  assumes h: "is_heap q" and i: "i < length q"
  shows "\<exists>q'. heap_Remove (int i) q = Inr (Some (q ! i), q') \<and> is_heap q' \<and> mset q = add_mset (q ! i) (mset q')"
proof -
  obtain n where n: "length q = Suc n" using i by (cases q) auto
  define q1 where "q1 = (if n = i then q
    else let (i', q') = heap_down i n (Swap i n q) in if i < i' then q' else heap_up i q')"
  have r: "heap_Remove (int i) q = Inr (queue_Pop q1)" using n i by (simp add: heap_Remove_def q1_def Let_def)
  have "heap_first n q1 \<and> mset q1 = mset q \<and> length q1 = Suc n \<and> q1 ! n = q ! i"
  proof (cases "n = i")
    case True
    then show ?thesis using h n by (auto simp: q1_def is_heap_def heap_first_def)
  next
    case False
    then have l: "i < n" using i n by simp
    let ?s = "Swap i n q"
    have last: "z ! n = q ! i" if "drop n z = drop n ?s" "length z = Suc n" for z
    proof -
      have "z ! n = drop n z ! 0" using that(2) by simp
      also have "\<dots> = ?s ! n" using that(1) n by simp
      finally show ?thesis using n l by (simp add: nth_Swap)
    qed
    note m = heap_down_mset [of i n ?s] and g = Swap_gap [OF h n l]
    show ?thesis
    proof (cases "i < fst (heap_down i n ?s)")
      case True
      then have q1: "q1 = snd (heap_down i n ?s)" using False by (auto simp: q1_def split: prod.split)
      have "heap_first n q1" using heap_down_gap [OF l _ g] n True q1 by simp
      then show ?thesis using last [of q1] m n l q1 by simp
    next
      case stay: False
      have d: "heap_down i n ?s = (i, ?s)" "\<forall>k < n. 0 < k \<longrightarrow> parent k = i \<longrightarrow> prio ?s i \<le> prio ?s k"
        using heap_down_gap [OF l _ g] n stay by auto
      then have q1: "q1 = heap_up i ?s" using False by (simp add: q1_def)
      then have q1': "q1 = heap_up i (take n ?s) @ drop n ?s" using heap_up_take [OF l, of ?s] n by simp
      have below: "heap_below (take n ?s) i"
        unfolding heap_below_def
      proof (intro conjI allI impI)
        fix k assume k: "k < length (take n ?s)" "k \<noteq> i"
        then have kn: "k < n" "parent k < n" using parent_le [of k] n by auto
        have "prio ?s (parent k) \<le> prio ?s k"
          using g d(2) k kn by (cases "k = 0"; cases "parent k = i") (auto simp: heap_gap_def)
        then show "prio (take n ?s) (parent k) \<le> prio (take n ?s) k" using kn by simp
      next
        fix k assume k: "k < length (take n ?s)" "parent k = i" "0 < k"
        have pn: "parent i < n" "k < n" using parent_le [of i] l k n by auto
        have "prio ?s (parent i) \<le> prio ?s k"
          using g d(2) k pn by (cases "i = 0") (auto simp: heap_gap_def)
        then show "prio (take n ?s) (parent i) \<le> prio (take n ?s) k" using pn by simp
      qed
      have up: "is_heap (heap_up i (take n ?s))" "length (heap_up i (take n ?s)) = n"
        using heap_up_ok [OF _ below] heap_up_mset [of i "take n ?s"] l n by auto
      then have "heap_first n q1" using heap_first_take [of n q1] q1' n by simp
      moreover have "mset q1 = mset q \<and> length q1 = Suc n" using heap_up_mset [of i ?s] q1 l n by simp
      moreover have "q1 ! n = q ! i" using last [of q1] q1' up n by simp
      ultimately show ?thesis by blast
    qed
  qed
  then show ?thesis using heap_first_Pop [of n q1] r by (metis prod.collapse)
qed

section \<open>What a client of the queue relies on\<close>

locale min_queue =
  fixes enq :: "u64 \<Rightarrow> 'v \<Rightarrow> 'q \<Rightarrow> 'q"
    and deq :: "'q \<Rightarrow> 'v Entry option \<times> 'q"
    and first :: "'q \<Rightarrow> 'v Entry option"
    and emp :: 'q
    and entries :: "'q \<Rightarrow> 'v Entry multiset"
    and ok :: "'q \<Rightarrow> bool"
  assumes ok_emp: "ok emp" and entries_emp: "entries emp = {#}"
    and ok_enq: "ok q \<Longrightarrow> ok (enq p v q)"
    and entries_enq: "ok q \<Longrightarrow> entries (enq p v q) = add_mset \<lparr>Value = v, Priority = p\<rparr> (entries q)"
    and first_None: "ok q \<Longrightarrow> first q = None \<longleftrightarrow> entries q = {#}"
    and first_least: "ok q \<Longrightarrow> first q = Some e \<Longrightarrow> e \<in># entries q \<and> (\<forall>x \<in># entries q. Priority e \<le> Priority x)"
    and deq_first: "ok q \<Longrightarrow> first q = Some e \<Longrightarrow> \<exists>q'. deq q = (Some e, q') \<and> ok q' \<and> entries q = add_mset e (entries q')"
    and deq_None: "ok q \<Longrightarrow> first q = None \<Longrightarrow> deq q = (None, q)"
begin

lemma ok_deq: "ok q \<Longrightarrow> ok (snd (deq q))"
  using deq_first deq_None by (cases "first q") fastforce+

lemma deq_is_first: "ok q \<Longrightarrow> fst (deq q) = first q"
  using deq_first deq_None by (cases "first q") fastforce+

lemma entries_deq: "ok q \<Longrightarrow> entries q = (case first q of None \<Rightarrow> {#} | Some e \<Rightarrow> add_mset e (entries (snd (deq q))))"
  using deq_first deq_None first_None by (cases "first q") fastforce+

lemma later_not_less:
  assumes "ok q" "first q = Some e" "first (snd (deq q)) = Some e'"
  shows "Priority e \<le> Priority e'"
proof -
  have "e' \<in># entries (snd (deq q))" using first_least [OF ok_deq] assms by blast
  then have "e' \<in># entries q" using entries_deq assms by fastforce
  with first_least [of q e] assms show ?thesis by blast
qed

lemma first_enq:
  assumes "ok q" "first (enq p v q) = Some e"
  shows "Priority e \<le> p"
  using first_least [OF ok_enq] entries_enq assms by fastforce

end

lemma Peek_least: "is_heap q \<Longrightarrow> Peek q = Some e \<Longrightarrow> e \<in># mset q \<and> (\<forall>x \<in># mset q. Priority e \<le> Priority x)"
  by (auto simp: Peek_def in_set_conv_nth is_heap_root split: if_splits)

lemma Dequeue_Peek:
  assumes "is_heap q" "Peek q = Some e"
  shows "\<exists>q'. Dequeue q = (Some e, q') \<and> is_heap q' \<and> mset q = add_mset e (mset q')"
proof -
  have q: "q \<noteq> []" "e = q ! 0" using assms by (auto simp: Peek_def split: if_splits)
  then show ?thesis using heap_Pop_ok [OF assms(1) q(1)] by (metis Dequeue_def le_zero_eq length_0_conv prod.collapse)
qed

interpretation pq: min_queue Enqueue Dequeue Peek queue_New mset is_heap
proof unfold_locales
  fix q :: "'a PriorityQueue" and e
  show "is_heap (queue_New :: 'a PriorityQueue)" "mset (queue_New :: 'a PriorityQueue) = {#}"
    by (simp_all add: queue_New_def is_heap_def)
  assume h: "is_heap q"
  show "is_heap (Enqueue p v q)" "mset (Enqueue p v q) = add_mset \<lparr>Value = v, Priority = p\<rparr> (mset q)" for p v
    using heap_Push_ok [OF h] by (simp_all add: Enqueue_def)
  show "Peek q = None \<longleftrightarrow> mset q = {#}" by (simp add: Peek_def)
  show "Peek q = None \<Longrightarrow> Dequeue q = (None, q)" by (simp add: Peek_def Dequeue_def split: if_splits)
  show "e \<in># mset q \<and> (\<forall>x \<in># mset q. Priority e \<le> Priority x)" if "Peek q = Some e" using Peek_least [OF h that] .
  show "\<exists>q'. Dequeue q = (Some e, q') \<and> is_heap q' \<and> mset q = add_mset e (mset q')" if "Peek q = Some e"
    using Dequeue_Peek [OF h that] .
qed

section \<open>The queue as a multiset\<close>

datatype 'v queue_op = OpEnqueue u64 'v | OpDequeue | OpPeek | OpDequeueIndex int | OpDequeueRandom nat

fun queue_step :: "'v queue_op \<Rightarrow> 'v PriorityQueue \<Rightarrow> (unit, 'v Entry option \<times> 'v PriorityQueue) go" where
  "queue_step (OpEnqueue p v) q = Inr (None, Enqueue p v q)"
| "queue_step OpDequeue q = Inr (Dequeue q)"
| "queue_step OpPeek q = Inr (Peek q, q)"
| "queue_step (OpDequeueIndex i) q = DequeueIndex i q"
| "queue_step (OpDequeueRandom r) q = DequeueRandom r q"

fun queue_run :: "'v queue_op list \<Rightarrow> 'v PriorityQueue \<Rightarrow> (unit, 'v Entry option list) go" where
  "queue_run [] q = Inr []"
| "queue_run (op # ops) q = go_bind (queue_step op q) (\<lambda>(out, q'). go_bind (queue_run ops q') (\<lambda>outs. Inr (out # outs)))"

text \<open>
  The contract: an answer \<open>out\<close> to an operation on a multiset of entries, and the multiset after it.
\<close>

definition least_of :: "'v Entry \<Rightarrow> 'v Entry multiset \<Rightarrow> bool" where
  "least_of e m \<longleftrightarrow> e \<in># m \<and> (\<forall>x \<in># m. Priority e \<le> Priority x)"

fun bag_step :: "'v queue_op \<Rightarrow> 'v Entry option \<Rightarrow> 'v Entry multiset \<Rightarrow> 'v Entry multiset \<Rightarrow> bool" where
  "bag_step (OpEnqueue p v) out m m' \<longleftrightarrow> out = None \<and> m' = add_mset \<lparr>Value = v, Priority = p\<rparr> m"
| "bag_step OpDequeue out m m' \<longleftrightarrow> (case out of None \<Rightarrow> m = {#} \<and> m' = {#} | Some e \<Rightarrow> least_of e m \<and> m = add_mset e m')"
| "bag_step OpPeek out m m' \<longleftrightarrow> m' = m \<and> (case out of None \<Rightarrow> m = {#} | Some e \<Rightarrow> least_of e m)"
| "bag_step (OpDequeueIndex i) out m m' \<longleftrightarrow>
     (case out of None \<Rightarrow> m = {#} \<and> m' = {#} | Some e \<Rightarrow> m = add_mset e m' \<and> -1 \<le> i \<and> i < int (size m))"
| "bag_step (OpDequeueRandom r) out m m' \<longleftrightarrow> (case out of None \<Rightarrow> m = {#} \<and> m' = {#} | Some e \<Rightarrow> m = add_mset e m')"

inductive bag_run :: "'v queue_op list \<Rightarrow> 'v Entry multiset \<Rightarrow> 'v Entry option list \<Rightarrow> bool" where
  done_run: "bag_run [] m []"
| step_run: "bag_step op out m m' \<Longrightarrow> bag_run ops m' outs \<Longrightarrow> bag_run (op # ops) m (out # outs)"

text \<open>An operation names an entry there is, the last one (index -1), or the queue is empty.\<close>

fun index_ok :: "'v queue_op \<Rightarrow> 'v Entry multiset \<Rightarrow> bool" where
  "index_ok (OpDequeueIndex i) m \<longleftrightarrow> m = {#} \<or> (-1 \<le> i \<and> i < int (size m))"
| "index_ok op m \<longleftrightarrow> True"

lemma DequeueIndex_step:
  assumes h: "is_heap q"
  shows "if index_ok (OpDequeueIndex i :: 'v queue_op) (mset q)
     then \<exists>out q'. DequeueIndex i (q :: 'v PriorityQueue) = Inr (out, q') \<and> is_heap q' \<and> bag_step (OpDequeueIndex i) out (mset q) (mset q')
     else DequeueIndex i q = Inl Panic"
proof -
  consider "q = []" | "q \<noteq> []" "i = -1" | "q \<noteq> []" "0 \<le> i" "i < int (length q)" | "q \<noteq> []" "i < -1 \<or> int (length q) \<le> i" by linarith
  then show ?thesis
  proof cases
    case 2
    then obtain n where n: "length q = Suc n" by (cases q) auto
    have "heap_first n q" using h n by (simp add: is_heap_def heap_first_def)
    from heap_first_Pop [OF this n] 2 show ?thesis by (cases "queue_Pop q") (auto simp: DequeueIndex_def heap_Remove_def)
  next
    case 3
    then have "nat i < length q" "int (nat i) = i" by linarith+
    then obtain q' where "heap_Remove i q = Inr (Some (q ! nat i), q')" "is_heap q'" "mset q = add_mset (q ! nat i) (mset q')"
      using heap_Remove_ok [OF h, of "nat i"] by auto
    moreover have "size (mset q) = length q" by simp
    ultimately show ?thesis using 3 by (auto simp: DequeueIndex_def)
  next
    case 4
    then show ?thesis by (auto simp: DequeueIndex_def heap_Remove_def)
  qed (use h in \<open>auto simp: DequeueIndex_def\<close>)
qed

lemma DequeueRandom_step:
  assumes h: "is_heap q"
  shows "\<exists>out q'. DequeueRandom r q = Inr (out, q') \<and> is_heap q' \<and> bag_step (OpDequeueRandom r) out (mset q) (mset q')"
proof (cases "q = []")
  case True
  with h show ?thesis by (simp add: DequeueRandom_def)
next
  case False
  with heap_Remove_ok [OF h, of "r mod length q"] show ?thesis by (auto simp: DequeueRandom_def)
qed

lemma queue_step_refines:
  assumes h: "is_heap q"
  shows "if index_ok op (mset q)
     then \<exists>out q'. queue_step op q = Inr (out, q') \<and> is_heap q' \<and> bag_step op out (mset q) (mset q')
     else queue_step op q = Inl Panic"
proof (cases op)
  case OpDequeue
  then show ?thesis using pq.ok_deq [OF h] pq.deq_is_first [OF h] pq.entries_deq [OF h] pq.first_least [OF h] pq.deq_None [OF h]
    by (cases "Peek q"; cases "Dequeue q") (auto simp: least_of_def)
next
  case OpPeek
  then show ?thesis using h pq.first_least [OF h] pq.first_None [OF h] by (cases "Peek q") (auto simp: least_of_def)
next
  case (OpDequeueIndex i)
  then show ?thesis using DequeueIndex_step [OF h, of i] by (simp only: queue_step.simps)
qed (use h DequeueRandom_step [OF h] pq.ok_enq [OF h] pq.entries_enq [OF h] in auto)

lemma queue_run_refines: "is_heap q \<Longrightarrow> queue_run ops q = Inr outs \<Longrightarrow> bag_run ops (mset q) outs"
proof (induction ops arbitrary: q outs)
  case Nil
  then show ?case by (simp add: done_run)
next
  case (Cons op ops)
  obtain out q' outs' where s: "queue_step op q = Inr (out, q')" "queue_run ops q' = Inr outs'" "outs = out # outs'"
    using Cons.prems by (auto simp: go_bind_Inr_iff)
  with queue_step_refines [OF Cons.prems(1), of op] have "is_heap q'" "bag_step op out (mset q) (mset q')"
    by (auto split: if_splits)
  with Cons.IH s show ?case by (auto intro: step_run)
qed

text \<open>
  C31. Whatever is done with a priority queue, it answers as a multiset of entries does: what it
  gives out at the front is a least entry, the entry taken at an index or at random is one
  it holds, and no entry is lost or made up.
\<close>

theorem priority_queue_refines:
  assumes "queue_run ops (queue_New :: 'v PriorityQueue) = Inr outs"
  shows "bag_run ops {#} outs"
  using queue_run_refines [OF pq.ok_emp assms] by (simp add: queue_New_def)

definition demo_queue_ops :: "nat queue_op list" where
  "demo_queue_ops = [OpEnqueue 30 1, OpEnqueue 10 2, OpEnqueue 20 3, OpDequeueIndex 0, OpPeek, OpDequeue, OpDequeueIndex (-1), OpDequeue]"

lemma priority_queue_refines_witness:
  "bag_run demo_queue_ops {#} [None, None, None, Some \<lparr>Value = 2, Priority = 10\<rparr>, Some \<lparr>Value = 3, Priority = 20\<rparr>,
     Some \<lparr>Value = 3, Priority = 20\<rparr>, Some \<lparr>Value = 1, Priority = 30\<rparr>, None]"
  by (rule priority_queue_refines) code_simp

end
