(* ===== verification/CoreTimer.thy ===== *)
theory CoreTimer
  imports CoreQueue EpochTime
begin

text \<open>
  The timer queue of core/queue/timer_queue.go: callers push values with a time (nanoseconds of the
  clock, a \<open>uint64\<close>) into a channel, a worker puts them into a priority queue and hands each of
  them to the action when its time has come, in a goroutine of its own.

  A step is what happens under one hold of the mutex, or one communication. The worker is in its
  \<open>select\<close>, in the loop that reschedules the timer, or stopped. The timer is the time at which it
  will tick; \<open>None\<close> stands for one that was set to the largest duration, stopped or read.
\<close>

datatype worker_at = InSelect | Rescheduling | Stopped

record 'v TimerQueue =
  tq_queue :: "'v PriorityQueue"
  tq_timer :: "int option"
  tq_pushCh :: "(u64 \<times> 'v) list"
  tq_halted :: bool
  tq_worker :: worker_at
  tq_spawned :: "'v Entry list"   \<comment> \<open>goroutines that have not run, with the entry of their value\<close>
  tq_acted :: "'v list"           \<comment> \<open>values the action was called with\<close>

definition pushCh_size :: nat where "pushCh_size = 100"

definition NewTimerQueue :: "'v TimerQueue" where
  "NewTimerQueue = \<lparr>tq_queue = queue_New, tq_timer = None, tq_pushCh = [], tq_halted = False,
     tq_worker = Stopped, tq_spawned = [], tq_acted = []\<rparr>"

text \<open>The worker begins with a timer of the largest duration.\<close>

definition tq_Start :: "'v TimerQueue \<Rightarrow> 'v TimerQueue" where
  "tq_Start t = t\<lparr>tq_worker := InSelect, tq_timer := None\<rparr>"

section \<open>The methods\<close>

definition tq_Peek :: "'v TimerQueue \<Rightarrow> 'v Entry option" where
  "tq_Peek t = Peek (tq_queue t)"

definition tq_Pop :: "'v TimerQueue \<Rightarrow> 'v Entry option \<times> 'v TimerQueue" where
  "tq_Pop t = (let (e, q) = Dequeue (tq_queue t) in (e, t\<lparr>tq_queue := q\<rparr>))"

definition tq_Len :: "'v TimerQueue \<Rightarrow> nat" where
  "tq_Len t = length (tq_queue t)"

definition PushChLen :: "'v TimerQueue \<Rightarrow> nat" where
  "PushChLen t = length (tq_pushCh t)"

definition EnqueueDirect :: "u64 \<Rightarrow> 'v \<Rightarrow> 'v TimerQueue \<Rightarrow> 'v TimerQueue" where
  "EnqueueDirect p v t = t\<lparr>tq_queue := Enqueue p v (tq_queue t)\<rparr>"

text \<open>The loop of \<open>Cancel\<close> from index \<open>i\<close> on: the first entry, in the order of the array, with that value.\<close>

function cancel_scan :: "'v \<Rightarrow> nat \<Rightarrow> 'v PriorityQueue \<Rightarrow> (unit, bool \<times> 'v PriorityQueue) go" where
  "cancel_scan v i q =
     (if \<not> i < length q then Inr (False, q)
      else go_bind (PeekIndex (int i) q) (\<lambda>e. case e of None \<Rightarrow> Inr (False, q)
        | Some e \<Rightarrow> if Value e = v then go_bind (DequeueIndex (int i) q) (\<lambda>(_, q'). Inr (True, q'))
                    else cancel_scan v (Suc i) q))"
  by pat_completeness auto
termination by (relation "measure (\<lambda>(v, i, q). length q - i)") auto

declare cancel_scan.simps [simp del]

definition tq_Cancel :: "'v \<Rightarrow> 'v TimerQueue \<Rightarrow> (unit, bool \<times> 'v TimerQueue) go" where
  "tq_Cancel v t = go_bind (cancel_scan v 0 (tq_queue t)) (\<lambda>(b, q). Inr (b, t\<lparr>tq_queue := q\<rparr>))"

text \<open>
  \<open>Push\<close> waits for room in the channel; after a halt it may return without it. \<open>None\<close> is waiting.
\<close>

definition tq_Push :: "u64 \<Rightarrow> 'v \<Rightarrow> 'v TimerQueue \<Rightarrow> 'v TimerQueue option" where
  "tq_Push p v t = (if length (tq_pushCh t) < pushCh_size then Some (t\<lparr>tq_pushCh := tq_pushCh t @ [(p, v)]\<rparr>)
     else if tq_halted t then Some t else None)"

section \<open>The worker\<close>

definition spawn :: "'v Entry option \<Rightarrow> 'v TimerQueue \<Rightarrow> 'v TimerQueue" where
  "spawn m t = (case m of None \<Rightarrow> t | Some e \<Rightarrow> t\<lparr>tq_spawned := tq_spawned t @ [e]\<rparr>)"

text \<open>The timer has ticked: the first entry is taken, whatever its time.\<close>

definition timer_ticks :: "'v TimerQueue \<Rightarrow> 'v TimerQueue" where
  "timer_ticks t = (let m = Peek (tq_queue t); q = snd (Dequeue (tq_queue t))
     in spawn m (t\<lparr>tq_queue := q, tq_timer := None, tq_worker := Rescheduling\<rparr>))"

text \<open>An item comes out of the channel; the timer is stopped, and read if it had ticked.\<close>

definition item_arrives :: "'v TimerQueue \<Rightarrow> 'v TimerQueue" where
  "item_arrives t = (case tq_pushCh t of [] \<Rightarrow> t
     | (p, v) # rest \<Rightarrow> t\<lparr>tq_pushCh := rest, tq_queue := Enqueue p v (tq_queue t), tq_timer := None, tq_worker := Rescheduling\<rparr>)"

text \<open>
  One turn of the rescheduling loop, with the two readings of the clock and the time at which
  the timer is set.
\<close>

definition timeLeft :: "u64 \<Rightarrow> int \<Rightarrow> int" where
  "timeLeft p now = int64 (int64 (uint p) - now)"

definition reschedule_turn :: "int \<Rightarrow> int \<Rightarrow> int \<Rightarrow> 'v TimerQueue \<Rightarrow> 'v TimerQueue" where
  "reschedule_turn now now' at t =
     (case Peek (tq_queue t) of
        None \<Rightarrow> t\<lparr>tq_timer := None, tq_worker := InSelect\<rparr>
      | Some m \<Rightarrow>
          if timeLeft (Priority m) now < 0 \<or> Priority m < word_of_int now'
          then spawn (Some m) (t\<lparr>tq_queue := snd (Dequeue (tq_queue t))\<rparr>)
          else t\<lparr>tq_timer := Some (at + timeLeft (Priority m) now), tq_worker := InSelect\<rparr>)"

text \<open>A goroutine: nothing after a halt, otherwise the action.\<close>

definition goroutine_runs :: "nat \<Rightarrow> 'v TimerQueue \<Rightarrow> 'v TimerQueue" where
  "goroutine_runs j t =
     (if j < length (tq_spawned t)
      then let t' = t\<lparr>tq_spawned := take j (tq_spawned t) @ drop (Suc j) (tq_spawned t)\<rparr>
           in if tq_halted t then t' else t'\<lparr>tq_acted := tq_acted t @ [Value (tq_spawned t ! j)]\<rparr>
      else t)"

section \<open>Runs\<close>

text \<open>
  What can happen at a time \<open>now\<close>. The timer does not tick before its time; the worker leaves its
  loops only at a communication, so after a halt it may still take an item or a tick that
  is ready. The readings of a turn follow each other.
\<close>

datatype 'v tq_event =
    Pushes u64 'v | Cancels 'v | Pops | Ticks | Arrives | Turn int int | Halts | WorkerReturns | Runs nat

fun tq_enabled :: "int \<Rightarrow> 'v tq_event \<Rightarrow> 'v TimerQueue \<Rightarrow> bool" where
  "tq_enabled now (Pushes p v) t \<longleftrightarrow> tq_Push p v t \<noteq> None"
| "tq_enabled now Ticks t \<longleftrightarrow> tq_worker t = InSelect \<and> (case tq_timer t of None \<Rightarrow> False | Some at \<Rightarrow> at \<le> now)"
| "tq_enabled now Arrives t \<longleftrightarrow> tq_worker t = InSelect \<and> tq_pushCh t \<noteq> []"
| "tq_enabled now (Turn now' at) t \<longleftrightarrow> tq_worker t = Rescheduling \<and> now \<le> now' \<and> now' \<le> at"
| "tq_enabled now WorkerReturns t \<longleftrightarrow> tq_worker t = InSelect \<and> tq_halted t"
| "tq_enabled now e t \<longleftrightarrow> True"

fun tq_step :: "int \<Rightarrow> 'v tq_event \<Rightarrow> 'v TimerQueue \<Rightarrow> (unit, 'v TimerQueue) go" where
  "tq_step now (Pushes p v) t = Inr (case tq_Push p v t of None \<Rightarrow> t | Some t' \<Rightarrow> t')"
| "tq_step now (Cancels v) t = go_bind (tq_Cancel v t) (\<lambda>(_, t'). Inr t')"
| "tq_step now Pops t = Inr (snd (tq_Pop t))"
| "tq_step now Ticks t = Inr (timer_ticks t)"
| "tq_step now Arrives t = Inr (item_arrives t)"
| "tq_step now (Turn now' at) t = Inr (reschedule_turn now now' at t)"
| "tq_step now Halts t = Inr (t\<lparr>tq_halted := True\<rparr>)"
| "tq_step now WorkerReturns t = Inr (t\<lparr>tq_worker := Stopped\<rparr>)"
| "tq_step now (Runs j) t = Inr (goroutine_runs j t)"

fun tq_after :: "int \<Rightarrow> 'v tq_event \<Rightarrow> int" where
  "tq_after now (Turn now' at) = at"
| "tq_after now e = now"

text \<open>The clock of a run does not go back. \<open>ok\<close> restricts the events.\<close>

inductive tq_reach :: "('v tq_event \<Rightarrow> bool) \<Rightarrow> int \<Rightarrow> 'v TimerQueue \<Rightarrow> bool" for ok where
  tq_start: "0 \<le> now \<Longrightarrow> tq_reach ok now (tq_Start NewTimerQueue)"
| tq_moves: "\<lbrakk> tq_reach ok now0 t; now0 \<le> now; ok e; tq_enabled now e t; tq_step now e t = Inr t' \<rbrakk>
     \<Longrightarrow> tq_reach ok (tq_after now e) t'"

inductive_cases tq_reachE: "tq_reach ok now t"

section \<open>Cancelling\<close>

lemma cancel_scan_ok:
  assumes h: "is_heap q"
  shows "\<exists>b q'. cancel_scan v i q = Inr (b, q') \<and> is_heap q' \<and>
    (if b then \<exists>e. Value e = v \<and> mset q = add_mset e (mset q') else q' = q \<and> (\<forall>k < length q. i \<le> k \<longrightarrow> Value (q ! k) \<noteq> v))"
proof (induction "length q - i" arbitrary: i)
  case 0
  with h show ?case by (subst (1) cancel_scan.simps) auto
next
  case (Suc n)
  then have i: "i < length q" by simp
  then have p: "PeekIndex (int i) q = Inr (Some (q ! i))" by (auto simp: PeekIndex_def)
  obtain q' where q': "heap_Remove (int i) q = Inr (Some (q ! i), q')" and d: "is_heap q'" "mset q = add_mset (q ! i) (mset q')"
    using heap_Remove_ok [OF h i] by blast
  then have d0: "DequeueIndex (int i) q = Inr (Some (q ! i), q')" using i by (auto simp: DequeueIndex_def)
  show ?case
  proof (cases "Value (q ! i) = v")
    case True
    then show ?thesis using i p d d0 by (subst (1) cancel_scan.simps) auto
  next
    case False
    obtain b q' where "cancel_scan v (Suc i) q = Inr (b, q')" "is_heap q'"
      "if b then \<exists>e. Value e = v \<and> mset q = add_mset e (mset q') else q' = q \<and> (\<forall>k < length q. Suc i \<le> k \<longrightarrow> Value (q ! k) \<noteq> v)"
      using Suc.hyps(1) [of "Suc i"] Suc.hyps(2) by fastforce
    moreover have "k = i \<or> Suc i \<le> k" if "i \<le> k" for k using that by linarith
    ultimately show ?thesis using i p False by (subst (1) cancel_scan.simps) (auto split: if_splits)
  qed
qed

section \<open>What the worker keeps\<close>

definition tq_armed :: "'v TimerQueue \<Rightarrow> bool" where
  "tq_armed t \<longleftrightarrow> is_heap (tq_queue t) \<and> (tq_worker t = InSelect \<longrightarrow> tq_queue t \<noteq> [] \<longrightarrow> tq_timer t \<noteq> None)"

lemma Peek_None [simp]: "Peek q = None \<longleftrightarrow> q = []" "Peek [] = None"
  by (simp_all add: Peek_def)

lemma spawn_fields [simp]:
  "tq_queue (spawn m t) = tq_queue t" "tq_worker (spawn m t) = tq_worker t" "tq_timer (spawn m t) = tq_timer t"
  "tq_spawned (spawn m t) = tq_spawned t @ (case m of None \<Rightarrow> [] | Some e \<Rightarrow> [e])"
  by (simp_all add: spawn_def split: option.split)

lemma Cancel_ok:
  assumes "is_heap (tq_queue t)" "tq_Cancel v t = Inr (b, t')"
  shows "is_heap (tq_queue t')" "mset (tq_queue t') \<subseteq># mset (tq_queue t)" "t' = t\<lparr>tq_queue := tq_queue t'\<rparr>"
  using cancel_scan_ok [OF assms(1), of v 0] assms(2) by (auto simp: tq_Cancel_def go_bind_Inr_iff split: if_splits)

lemma Pop_ok:
  assumes h: "is_heap (tq_queue t)"
  shows "is_heap (tq_queue (snd (tq_Pop t)))" "mset (tq_queue (snd (tq_Pop t))) \<subseteq># mset (tq_queue t)"
    "snd (tq_Pop t) = t\<lparr>tq_queue := tq_queue (snd (tq_Pop t))\<rparr>"
  using pq.ok_deq [OF h] pq.entries_deq [OF h] pq.deq_None [OF h]
  by (cases "Peek (tq_queue t)"; cases "Dequeue (tq_queue t)"; simp add: tq_Pop_def)+

lemma Push_fields:
  "tq_Push p v t = Some t' \<Longrightarrow> tq_queue t' = tq_queue t \<and> tq_worker t' = tq_worker t \<and> tq_timer t' = tq_timer t \<and> tq_spawned t' = tq_spawned t"
  by (auto simp: tq_Push_def split: if_splits)

lemma goroutine_fields [simp]:
  "tq_queue (goroutine_runs j t) = tq_queue t" "tq_worker (goroutine_runs j t) = tq_worker t" "tq_timer (goroutine_runs j t) = tq_timer t"
  "tq_pushCh (goroutine_runs j t) = tq_pushCh t" "set (tq_spawned (goroutine_runs j t)) \<subseteq> set (tq_spawned t)"
  by (auto simp: goroutine_runs_def Let_def dest: in_set_takeD in_set_dropD)

lemma armed_shrinks: "tq_armed t \<Longrightarrow> is_heap q' \<Longrightarrow> mset q' \<subseteq># mset (tq_queue t) \<Longrightarrow> tq_armed (t\<lparr>tq_queue := q'\<rparr>)"
  by (auto simp: tq_armed_def)

lemma tq_step_armed:
  assumes a: "tq_armed t" and e: "tq_enabled now e t" and s: "tq_step now e t = Inr t'"
  shows "tq_armed t'"
proof (cases e)
  case (Pushes p v)
  with a e s Push_fields [of p v t] show ?thesis by (auto simp: tq_armed_def)
next
  case (Cancels v)
  then obtain b where "tq_Cancel v t = Inr (b, t')" using s by (auto simp: go_bind_Inr_iff)
  with Cancel_ok [of t v b t'] a armed_shrinks show ?thesis by (metis tq_armed_def)
next
  case Pops
  with Pop_ok [of t] a s armed_shrinks show ?thesis by (metis tq_armed_def tq_step.simps(3) sum.inject(2))
next
  case Ticks
  with a s pq.ok_deq show ?thesis by (auto simp: tq_armed_def timer_ticks_def Let_def)
next
  case Arrives
  with a e s pq.ok_enq show ?thesis by (auto simp: tq_armed_def item_arrives_def split: list.splits prod.splits)
next
  case (Turn now' at)
  with a e s pq.ok_deq show ?thesis by (auto simp: tq_armed_def reschedule_turn_def split: option.splits if_splits)
qed (use a s in \<open>auto simp: tq_armed_def\<close>)

lemma tq_reach_armed: "tq_reach ok now t \<Longrightarrow> tq_armed t"
proof (induction rule: tq_reach.induct)
  case tq_start
  then show ?case using pq.ok_emp by (simp add: tq_armed_def tq_Start_def NewTimerQueue_def queue_New_def)
qed (rule tq_step_armed)

section \<open>Nothing is early unless something was removed\<close>

text \<open>Events that remove nothing, with times that fit a signed integer.\<close>

fun keeps_entries :: "'v tq_event \<Rightarrow> bool" where
  "keeps_entries (Pushes p v) \<longleftrightarrow> uint p < 2 ^ 63"
| "keeps_entries (Cancels v) \<longleftrightarrow> False"
| "keeps_entries Pops \<longleftrightarrow> False"
| "keeps_entries e \<longleftrightarrow> True"

definition tq_on_time :: "int \<Rightarrow> 'v TimerQueue \<Rightarrow> bool" where
  "tq_on_time now t \<longleftrightarrow> (\<forall>e \<in> set (tq_queue t). uint (Priority e) < 2 ^ 63) \<and> (\<forall>(p, v) \<in> set (tq_pushCh t). uint p < 2 ^ 63)
     \<and> (\<forall>e at. tq_worker t = InSelect \<longrightarrow> Peek (tq_queue t) = Some e \<longrightarrow> tq_timer t = Some at \<longrightarrow> uint (Priority e) \<le> at)
     \<and> (\<forall>e \<in> set (tq_spawned t). uint (Priority e) \<le> now)"

lemma timeLeft_eq: "uint p < 2 ^ 63 \<Longrightarrow> 0 \<le> now \<Longrightarrow> now < 2 ^ 63 \<Longrightarrow> timeLeft p now = uint p - now"
  using int64_id [of "uint p - now"] uint_ge_0 [of p] by (simp add: timeLeft_def int64_nonneg)

lemma due_in_words: "0 \<le> now \<Longrightarrow> now < 2 ^ 63 \<Longrightarrow> (p :: u64) < word_of_int now \<longleftrightarrow> uint p < now"
  by (simp add: word_less_def uint_word_of_int_eq take_bit_int_eq_self)

lemma deq_set: "is_heap q \<Longrightarrow> set (snd (Dequeue q)) \<subseteq> set q"
  using pq.entries_deq [of q] pq.deq_None [of q]
  by (cases "Peek q") (auto simp flip: set_mset_mset)

lemma enq_set: "is_heap q \<Longrightarrow> set (Enqueue p v q) = insert \<lparr>Value = v, Priority = p\<rparr> (set q)"
  using pq.entries_enq [of q p v] by (metis set_mset_add_mset_insert set_mset_mset)

lemma Peek_in: "Peek q = Some e \<Longrightarrow> e \<in> set q"
  by (auto simp: Peek_def split: if_splits)

lemma tq_on_time_later: "tq_on_time now t \<Longrightarrow> now \<le> now' \<Longrightarrow> tq_on_time now' t"
  by (fastforce simp: tq_on_time_def)

lemma turn_on_time:
  assumes t: "tq_on_time now t" "is_heap (tq_queue t)" and waits: "tq_worker t = Rescheduling" and c: "0 \<le> now" "now \<le> now'" "now' \<le> at" "at < 2 ^ 63"
  shows "tq_on_time at (reschedule_turn now now' at t)"
proof (cases "Peek (tq_queue t)")
  case None
  with tq_on_time_later [OF t(1)] c show ?thesis by (simp add: reschedule_turn_def tq_on_time_def)
next
  case (Some m)
  then have m: "uint (Priority m) < 2 ^ 63" using t(1) Peek_in by (auto simp: tq_on_time_def)
  have l: "timeLeft (Priority m) now = uint (Priority m) - now" using m c by (simp add: timeLeft_eq)
  have w: "Priority m < word_of_int now' \<longleftrightarrow> uint (Priority m) < now'" using c by (simp add: due_in_words)
  show ?thesis
  proof (cases "uint (Priority m) < now'")
    case True
    with Some w have r: "reschedule_turn now now' at t = spawn (Some m) (t\<lparr>tq_queue := snd (Dequeue (tq_queue t))\<rparr>)"
      by (simp add: reschedule_turn_def)
    have "uint (Priority m) \<le> at" "now \<le> at" using True c by simp_all
    then show ?thesis using tq_on_time_later [OF t(1), of at] deq_set [OF t(2)] waits
      by (auto simp: r spawn_def tq_on_time_def)
  next
    case False
    with Some w l c have r: "reschedule_turn now now' at t = t\<lparr>tq_timer := Some (at + (uint (Priority m) - now)), tq_worker := InSelect\<rparr>"
      by (simp add: reschedule_turn_def)
    show ?thesis using tq_on_time_later [OF t(1), of at] c Some by (auto simp: r tq_on_time_def)
  qed
qed

lemma tq_step_on_time:
  assumes t: "tq_on_time now t" and h: "tq_armed t" and now: "0 \<le> now" "tq_after now e < 2 ^ 63"
    and k: "keeps_entries e" and e: "tq_enabled now e t" and s: "tq_step now e t = Inr t'"
  shows "tq_on_time (tq_after now e) t'"
proof (cases e)
  case (Pushes p v)
  with t k e s show ?thesis by (auto simp: tq_on_time_def tq_Push_def split: if_splits)
next
  case Ticks
  with e obtain at where at: "tq_timer t = Some at" "at \<le> now" "tq_worker t = InSelect" by (auto split: option.splits)
  have "uint (Priority m) \<le> now" if "Peek (tq_queue t) = Some m" for m
    using t at that by (force simp: tq_on_time_def)
  moreover have "t' = timer_ticks t" "tq_after now e = now" using Ticks s by simp_all
  ultimately show ?thesis using t deq_set [of "tq_queue t"] h
    by (cases "Peek (tq_queue t)") (auto simp: tq_on_time_def timer_ticks_def Let_def tq_armed_def spawn_def)
next
  case Arrives
  then obtain p v rest where c: "tq_pushCh t = (p, v) # rest" using e by (cases "tq_pushCh t") auto
  have "is_heap (tq_queue t)" using h by (simp add: tq_armed_def)
  with c Arrives t s enq_set [of "tq_queue t" p v] show ?thesis by (auto simp: tq_on_time_def item_arrives_def)
next
  case (Turn now' at)
  with turn_on_time [OF t _ _ now(1), of now' at] h e s now show ?thesis by (auto simp: tq_armed_def)
next
  case (Runs j)
  with t s show ?thesis using goroutine_fields(5) [of j t] by (auto simp: tq_on_time_def)
qed (use k t s in \<open>auto simp: tq_on_time_def\<close>)

lemma tq_after_le: "tq_enabled now e t \<Longrightarrow> now \<le> tq_after now e"
  by (cases e) auto

lemma tq_reach_time: "tq_reach ok now t \<Longrightarrow> 0 \<le> now"
proof (induction rule: tq_reach.induct)
  case (tq_moves now0 t now e t')
  with tq_after_le [of now e t] show ?case by linarith
qed

lemma tq_reach_on_time: "tq_reach keeps_entries now t \<Longrightarrow> now < 2 ^ 63 \<Longrightarrow> tq_on_time now t"
proof (induction rule: tq_reach.induct)
  case (tq_start now)
  then show ?case by (simp add: tq_on_time_def tq_Start_def NewTimerQueue_def queue_New_def)
next
  case (tq_moves now0 t now e t')
  have now: "now \<le> tq_after now e" using tq_moves tq_after_le by blast
  with tq_moves have "tq_on_time now0 t" by simp
  then have "tq_on_time now t" using tq_moves by (simp add: tq_on_time_later)
  then show ?case
    by (rule tq_step_on_time) (use tq_moves now tq_reach_armed [of keeps_entries now0 t] tq_reach_time [of keeps_entries now0 t] in auto)
qed

text \<open>
  C32. As long as nothing is cancelled or popped, the timer queue acts on no value before its time,
  and while the worker waits and the queue is not empty a timer is set, so that it
  will wake; no interleaving of pushes, readings of the clock and goroutines changes that.
\<close>

theorem timer_queue_on_time:
  assumes "tq_reach keeps_entries now t" and "now < 2 ^ 63"
  shows "(\<forall>e \<in> set (tq_spawned t). uint (Priority e) \<le> now)
     \<and> (tq_worker t = InSelect \<and> tq_queue t \<noteq> [] \<longrightarrow> tq_timer t \<noteq> None)"
  using tq_reach_on_time [OF assms] tq_reach_armed [OF assms(1)] by (simp add: tq_on_time_def tq_armed_def)

section \<open>Runs for the witnesses\<close>

text \<open>The states of a given list of timed events.\<close>

fun tq_play :: "(int \<times> 'v tq_event) list \<Rightarrow> 'v TimerQueue \<Rightarrow> (unit, 'v TimerQueue) go" where
  "tq_play [] t = Inr t"
| "tq_play ((now, e) # es) t = go_bind (tq_step now e t) (tq_play es)"

fun tq_playable :: "('v tq_event \<Rightarrow> bool) \<Rightarrow> int \<Rightarrow> (int \<times> 'v tq_event) list \<Rightarrow> 'v TimerQueue \<Rightarrow> bool" where
  "tq_playable ok now0 [] t \<longleftrightarrow> True"
| "tq_playable ok now0 ((now, e) # es) t \<longleftrightarrow> now0 \<le> now \<and> ok e \<and> tq_enabled now e t
     \<and> (case tq_step now e t of Inl _ \<Rightarrow> False | Inr t' \<Rightarrow> tq_playable ok (tq_after now e) es t')"

fun tq_end :: "int \<Rightarrow> (int \<times> 'v tq_event) list \<Rightarrow> int" where
  "tq_end now0 [] = now0"
| "tq_end now0 ((now, e) # es) = tq_end (tq_after now e) es"

lemma tq_play_reach:
  "tq_reach ok now0 t \<Longrightarrow> tq_playable ok now0 es t \<Longrightarrow> tq_play es t = Inr t' \<Longrightarrow> tq_reach ok (tq_end now0 es) t'"
proof (induction es arbitrary: now0 t)
  case Nil
  then show ?case by simp
next
  case (Cons x es)
  obtain now e where x: "x = (now, e)" by (cases x)
  obtain t1 where t1: "tq_step now e t = Inr t1" "tq_play es t1 = Inr t'" using Cons.prems x by (auto simp: go_bind_Inr_iff)
  then have "tq_reach ok (tq_after now e) t1" using Cons.prems x by (auto intro: tq_moves)
  with Cons.IH t1 Cons.prems x show ?case by simp
qed

text \<open>Two pushes: at time 10 the first value is handed over, the other one waits.\<close>

definition demo_pushes :: "(int \<times> nat tq_event) list" where
  "demo_pushes = [(0, Pushes 10 1), (0, Arrives), (0, Turn 0 0), (1, Pushes 100 2), (2, Arrives), (2, Turn 3 3)]"

definition demo_ticks :: "(int \<times> nat tq_event) list" where
  "demo_ticks = [(12, Ticks), (12, Turn 12 12), (13, Runs 0)]"

definition after_events :: "(int \<times> 'v tq_event) list \<Rightarrow> 'v TimerQueue" where
  "after_events es = (case tq_play es (tq_Start NewTimerQueue) of Inr t \<Rightarrow> t | Inl _ \<Rightarrow> NewTimerQueue)"

lemma after_events_reach:
  assumes "tq_playable ok 0 es (tq_Start NewTimerQueue)" and "tq_play es (tq_Start NewTimerQueue) = Inr t"
  shows "tq_reach ok (tq_end 0 es) (after_events es)"
  using tq_play_reach [OF tq_start assms] assms by (simp add: after_events_def)

lemma demo_ticks_playable: "tq_playable keeps_entries 0 (demo_pushes @ demo_ticks) (tq_Start NewTimerQueue)"
  by code_simp

lemma demo_ticks_state:
  "tq_play (demo_pushes @ demo_ticks) (tq_Start NewTimerQueue)
     = Inr \<lparr>tq_queue = [\<lparr>Value = 2, Priority = 100\<rparr>], tq_timer = Some 100, tq_pushCh = [], tq_halted = False,
         tq_worker = InSelect, tq_spawned = [], tq_acted = [1]\<rparr>"
  by code_simp

lemma timer_queue_on_time_witness:
  "\<exists>t. tq_reach keeps_entries 13 t \<and> tq_acted t = [1 :: nat] \<and> tq_timer t \<noteq> None"
proof -
  let ?t = "after_events (demo_pushes @ demo_ticks)"
  have r: "tq_reach keeps_entries 13 ?t"
    using after_events_reach [OF demo_ticks_playable demo_ticks_state] by (simp add: demo_pushes_def demo_ticks_def)
  have t: "tq_acted ?t = [1]" "tq_worker ?t = InSelect \<and> tq_queue ?t \<noteq> []"
    by (simp_all add: after_events_def demo_ticks_state)
  from timer_queue_on_time [OF r] t r show ?thesis by auto
qed

definition demo_early :: "(int \<times> nat tq_event) list" where
  "demo_early = [(0, Pushes 10 1), (0, Arrives), (0, Turn 0 0), (1, Pushes 100 2), (2, Arrives), (2, Turn 3 3),
     (5, Cancels 1), (12, Ticks), (12, Turn 12 12), (13, Runs 0)]"

text \<open>
  Cancelling the first entry does not set the timer anew: it ticks at the time of the
  cancelled entry, and the worker takes whatever is first then. Here a value due at time
  100 is acted on at time 12.
\<close>

lemma cancel_fires_next_early:
  "\<exists>t. tq_play demo_early (tq_Start NewTimerQueue) = Inr t \<and> tq_reach (\<lambda>_. True) 13 t
     \<and> (1, Pushes 100 2) \<in> set demo_early \<and> tq_acted t = [2]"
proof -
  have p: "tq_playable (\<lambda>_. True) 0 demo_early (tq_Start NewTimerQueue)" by code_simp
  have s: "tq_play demo_early (tq_Start NewTimerQueue)
      = Inr \<lparr>tq_queue = [], tq_timer = None, tq_pushCh = [], tq_halted = False, tq_worker = InSelect, tq_spawned = [], tq_acted = [2]\<rparr>"
    by code_simp
  have "tq_reach (\<lambda>_. True) 13 (after_events demo_early)"
    using after_events_reach [OF p s] by (simp add: demo_early_def)
  with p s show ?thesis by (simp add: after_events_def demo_early_def)
qed

end
