(* ===== verification/MixKeys.thy ===== *)
theory MixKeys
  imports Prelude "HOL-Library.AList" "HOL-Library.Multiset"
begin

text \<open>
  The keys of a mix (server/internal/mixkey/mixkey.go and mixkeys/mixkeys.go): a key per epoch with
  a filter of the replay tags it has seen and a reference count, the table of the server that makes
  and drops keys, and the copies ("shadows") of that table that the crypto workers keep. Keys are
  shared objects: the tables hold addresses of a store. Every method of the table runs under
  its mutex and is a step.
\<close>

record ('pub, 'priv, 'f) MixKey =
  mk_nike :: "('pub \<times> 'priv) option"
  mk_kem :: "('pub \<times> 'priv) option"
  mk_epoch :: u64
  mk_f :: 'f
  mk_refCount :: int
  mk_unlinkIfExpired :: bool

text \<open>
  The bloom filter and the two kinds of key pair are code of other modules. \<open>Reset\<close> is what
  resetting a key pair makes of it.
\<close>

record ('pub, 'priv, 'f) mix_env =
  bloom_New :: "'f option"
  bloom_Entries :: "'f \<Rightarrow> nat"
  bloom_MaxEntries :: "'f \<Rightarrow> nat"
  bloom_TestAndSet :: "'f \<Rightarrow> bytes \<Rightarrow> bool \<times> 'f"
  has_nikeScheme :: bool
  key_Reset :: "'pub \<times> 'priv \<Rightarrow> 'pub \<times> 'priv"
  nike_Bytes :: "'pub \<Rightarrow> bytes"
  kem_MarshalBinary :: "'pub \<Rightarrow> bytes option"

definition TagLength :: nat where "TagLength = 32"
definition NumMixKeys :: nat where "NumMixKeys = 3"

section \<open>A key\<close>

definition PublicKey :: "('pub, 'priv, 'f) MixKey \<Rightarrow> (unit, 'pub option \<times> 'pub option) go" where
  "PublicKey k = (case mk_nike k of Some (pub, _) \<Rightarrow> Inr (Some pub, None)
     | None \<Rightarrow> go_bind (deref (mk_kem k)) (\<lambda>(pub, _). Inr (None, Some pub)))"

definition PublicBytes :: "('pub, 'priv, 'f) mix_env \<Rightarrow> ('pub, 'priv, 'f) MixKey \<Rightarrow> (unit, bytes) go" where
  "PublicBytes E k = (case mk_nike k of Some (pub, _) \<Rightarrow> Inr (nike_Bytes E pub)
     | None \<Rightarrow> go_bind (deref (mk_kem k)) (\<lambda>(pub, _). or_panic (kem_MarshalBinary E pub)))"

text \<open>A nil key makes the caller panic.\<close>

definition PrivateKey :: "('pub, 'priv, 'f) MixKey \<Rightarrow> 'priv option" where
  "PrivateKey k = map_option snd (case mk_nike k of None \<Rightarrow> mk_kem k | Some p \<Rightarrow> Some p)"

definition IsReplay :: "('pub, 'priv, 'f) mix_env \<Rightarrow> bytes \<Rightarrow> ('pub, 'priv, 'f) MixKey \<Rightarrow> (unit, bool \<times> ('pub, 'priv, 'f) MixKey) go" where
  "IsReplay E rawTag k =
     (if length rawTag \<noteq> TagLength then Inr (True, k)
      else if bloom_MaxEntries E (mk_f k) \<le> bloom_Entries E (mk_f k) then Inl Panic
      else let (seen, f) = bloom_TestAndSet E (mk_f k) rawTag in Inr (seen, k\<lparr>mk_f := f\<rparr>))"

definition forceClose :: "('pub, 'priv, 'f) mix_env \<Rightarrow> ('pub, 'priv, 'f) MixKey \<Rightarrow> ('pub, 'priv, 'f) MixKey" where
  "forceClose E k = k\<lparr>mk_nike := map_option (key_Reset E) (mk_nike k), mk_kem := None\<rparr>"

definition Deref :: "('pub, 'priv, 'f) mix_env \<Rightarrow> ('pub, 'priv, 'f) MixKey \<Rightarrow> (unit, ('pub, 'priv, 'f) MixKey) go" where
  "Deref E k = (let i = mk_refCount k - 1; k' = k\<lparr>mk_refCount := i\<rparr>
     in if i = 0 then Inr (forceClose E k') else if i < 0 then Inl Panic else Inr k')"

definition Ref :: "('pub, 'priv, 'f) MixKey \<Rightarrow> (unit, ('pub, 'priv, 'f) MixKey) go" where
  "Ref k = (let i = mk_refCount k + 1 in if i \<le> 1 then Inl Panic else Inr (k\<lparr>mk_refCount := i\<rparr>))"

text \<open>\<open>New\<close> with the key pair that the scheme generates, if it does.\<close>

definition mixkey_New :: "('pub, 'priv, 'f) mix_env \<Rightarrow> ('pub \<times> 'priv) option \<Rightarrow> u64 \<Rightarrow> ('pub, 'priv, 'f) MixKey option" where
  "mixkey_New E keyPair epoch = (case (bloom_New E, keyPair) of
     (Some f, Some p) \<Rightarrow> Some \<lparr>mk_nike = (if has_nikeScheme E then Some p else None),
        mk_kem = (if has_nikeScheme E then None else Some p), mk_epoch = epoch, mk_f = f, mk_refCount = 1, mk_unlinkIfExpired = False\<rparr>
   | _ \<Rightarrow> None)"

section \<open>The table of the server\<close>

type_synonym key_table = "(u64 \<times> nat) list"

text \<open>The store of keys, the server's table, and the table of each worker that runs.\<close>

record ('pub, 'priv, 'f) mix_keys =
  key_store :: "nat \<rightharpoonup> ('pub, 'priv, 'f) MixKey"
  key_next :: nat
  mixKeys :: key_table
  worker_keys :: "key_table list"

definition at_key ::
  "nat \<Rightarrow> (('pub, 'priv, 'f) MixKey \<Rightarrow> (unit, ('pub, 'priv, 'f) MixKey) go) \<Rightarrow> ('pub, 'priv, 'f) mix_keys
     \<Rightarrow> (unit, ('pub, 'priv, 'f) mix_keys) go" where
  "at_key a f m = go_bind (deref (key_store m a)) (\<lambda>k. go_bind (f k) (\<lambda>k'. Inr (m\<lparr>key_store := (key_store m)(a \<mapsto> k')\<rparr>)))"

fun at_keys ::
  "nat list \<Rightarrow> (('pub, 'priv, 'f) MixKey \<Rightarrow> (unit, ('pub, 'priv, 'f) MixKey) go) \<Rightarrow> ('pub, 'priv, 'f) mix_keys
     \<Rightarrow> (unit, ('pub, 'priv, 'f) mix_keys) go" where
  "at_keys [] f m = Inr m"
| "at_keys (a # as) f m = go_bind (at_key a f m) (at_keys as f)"

text \<open>The epochs of the loop \<open>for e := baseEpoch; e < baseEpoch+NumMixKeys; e++\<close>; the bound wraps.\<close>

definition mix_epochs :: "u64 \<Rightarrow> u64 list" where
  "mix_epochs base = (if base < base + word_of_nat NumMixKeys then map (\<lambda>i. base + word_of_nat i) [0..<NumMixKeys] else [])"

text \<open>The clean-up of \<open>Generate\<close>: every key of these epochs goes, old or new.\<close>

definition generate_cleanup ::
  "('pub, 'priv, 'f) mix_env \<Rightarrow> u64 list \<Rightarrow> ('pub, 'priv, 'f) mix_keys \<Rightarrow> (unit, ('pub, 'priv, 'f) mix_keys) go" where
  "generate_cleanup E es m =
     go_bind (at_keys (map snd (filter (\<lambda>(e, a). e \<in> set es) (mixKeys m))) (Deref E) m) (\<lambda>m'.
       Inr (m'\<lparr>mixKeys := filter (\<lambda>(e, a). e \<notin> set es) (mixKeys m')\<rparr>))"

fun generate_loop ::
  "('pub, 'priv, 'f) mix_env \<Rightarrow> (u64 \<Rightarrow> ('pub \<times> 'priv) option) \<Rightarrow> u64 list \<Rightarrow> u64 list \<Rightarrow> bool \<Rightarrow> ('pub, 'priv, 'f) mix_keys
     \<Rightarrow> (unit, bool \<times> bool \<times> ('pub, 'priv, 'f) mix_keys) go" where
  "generate_loop E gen all [] did m = Inr (did, True, m)"
| "generate_loop E gen all (e # es) did m =
     (if map_of (mixKeys m) e \<noteq> None then generate_loop E gen all es did m
      else (case mixkey_New E (gen e) e of
          None \<Rightarrow> go_bind (generate_cleanup E all m) (\<lambda>m'. Inr (False, False, m'))
        | Some k \<Rightarrow> generate_loop E gen all es True
            (m\<lparr>key_store := (key_store m)(key_next m \<mapsto> k\<lparr>mk_unlinkIfExpired := True\<rparr>), key_next := Suc (key_next m),
               mixKeys := mixKeys m @ [(e, key_next m)]\<rparr>)))"

text \<open>The results are: something was made, no error, and the state.\<close>

definition Generate ::
  "('pub, 'priv, 'f) mix_env \<Rightarrow> (u64 \<Rightarrow> ('pub \<times> 'priv) option) \<Rightarrow> u64 \<Rightarrow> ('pub, 'priv, 'f) mix_keys
     \<Rightarrow> (unit, bool \<times> bool \<times> ('pub, 'priv, 'f) mix_keys) go" where
  "Generate E gen base m = generate_loop E gen (mix_epochs base) (mix_epochs base) False m"

text \<open>The difference \<open>epoch-1\<close> is one of \<open>uint64\<close>.\<close>

definition Prune :: "('pub, 'priv, 'f) mix_env \<Rightarrow> u64 \<Rightarrow> ('pub, 'priv, 'f) mix_keys \<Rightarrow> (unit, bool \<times> ('pub, 'priv, 'f) mix_keys) go" where
  "Prune E epoch m =
     (let old = filter (\<lambda>(e, a). e < epoch - 1) (mixKeys m)
      in go_bind (at_keys (map snd old) (Deref E) m) (\<lambda>m'.
           Inr (old \<noteq> [], m'\<lparr>mixKeys := filter (\<lambda>(e, a). \<not> e < epoch - 1) (mixKeys m')\<rparr>)))"

definition mixkeys_Get :: "('pub, 'priv, 'f) mix_env \<Rightarrow> u64 \<Rightarrow> ('pub, 'priv, 'f) mix_keys \<Rightarrow> (unit, bytes option) go" where
  "mixkeys_Get E epoch m = (case map_of (mixKeys m) epoch of None \<Rightarrow> Inr None
     | Some a \<Rightarrow> go_bind (deref (key_store m a)) (\<lambda>k. go_bind (PublicBytes E k) (\<lambda>b. Inr (Some b))))"

text \<open>\<open>Shadow\<close> brings the table of worker \<open>w\<close> up to date.\<close>

definition Shadow :: "('pub, 'priv, 'f) mix_env \<Rightarrow> nat \<Rightarrow> ('pub, 'priv, 'f) mix_keys \<Rightarrow> (unit, ('pub, 'priv, 'f) mix_keys) go" where
  "Shadow E w m =
     (let dst = worker_keys m ! w;
          gone = filter (\<lambda>(e, a). map_of (mixKeys m) e = None) dst;
          kept = filter (\<lambda>(e, a). map_of (mixKeys m) e \<noteq> None) dst;
          fresh = filter (\<lambda>(e, a). map_of kept e = None) (mixKeys m)
      in go_bind (at_keys (map snd gone) (Deref E) m) (\<lambda>m1.
         go_bind (at_keys (map snd fresh) Ref m1) (\<lambda>m2.
           Inr (m2\<lparr>worker_keys := (worker_keys m2)[w := kept @ fresh]\<rparr>))))"

definition mixkeys_Halt :: "('pub, 'priv, 'f) mix_env \<Rightarrow> ('pub, 'priv, 'f) mix_keys \<Rightarrow> (unit, ('pub, 'priv, 'f) mix_keys) go" where
  "mixkeys_Halt E m = go_bind (at_keys (map snd (mixKeys m)) (Deref E) m) (\<lambda>m'. Inr (m'\<lparr>mixKeys := []\<rparr>))"

text \<open>A worker that ends (cryptoworker/crypto_worker.go) gives its keys back; nobody reads its table then.\<close>

definition derefKeys :: "('pub, 'priv, 'f) mix_env \<Rightarrow> nat \<Rightarrow> ('pub, 'priv, 'f) mix_keys \<Rightarrow> (unit, ('pub, 'priv, 'f) mix_keys) go" where
  "derefKeys E w m = go_bind (at_keys (map snd (worker_keys m ! w)) (Deref E) m) (\<lambda>m'.
     Inr (m'\<lparr>worker_keys := (worker_keys m')[w := []]\<rparr>))"

definition NewMixKeys :: "('pub, 'priv, 'f) mix_keys" where
  "NewMixKeys = \<lparr>key_store = Map.empty, key_next = 0, mixKeys = [], worker_keys = []\<rparr>"

text \<open>A new worker starts with an empty table and shadows the server's.\<close>

definition worker_New :: "('pub, 'priv, 'f) mix_env \<Rightarrow> ('pub, 'priv, 'f) mix_keys \<Rightarrow> (unit, ('pub, 'priv, 'f) mix_keys) go" where
  "worker_New E m = Shadow E (length (worker_keys m)) (m\<lparr>worker_keys := worker_keys m @ [[]]\<rparr>)"

text \<open>The test for replays that worker \<open>w\<close> makes with its key of an epoch.\<close>

definition worker_IsReplay ::
  "('pub, 'priv, 'f) mix_env \<Rightarrow> nat \<Rightarrow> bytes \<Rightarrow> ('pub, 'priv, 'f) mix_keys \<Rightarrow> (unit, bool \<times> ('pub, 'priv, 'f) mix_keys) go" where
  "worker_IsReplay E a tag m = go_bind (deref (key_store m a)) (\<lambda>k. go_bind (IsReplay E tag k) (\<lambda>(b, k').
     Inr (b, m\<lparr>key_store := (key_store m)(a \<mapsto> k')\<rparr>)))"

end
