(* ===== verification/MixPacket.thy ===== *)
theory MixPacket
  imports SphinxPacket EpochTime
begin

text \<open>
  The packet of a server (server/internal/packet/packet.go): the fields that follow a packet from
  its arrival to its dispatch, the splitting of its routing commands, and what a service node reads
  from a payload and sends back with a SURB. The memory pools are not visible: a disposed packet
  is a cleared one.
\<close>

record Packet =
  pk_Raw :: bytes
  pk_Payload :: "bytes option"                    \<comment> \<open>nil or not\<close>
  pk_NextNodeHop :: "(bytes \<times> bytes) option"      \<comment> \<open>ID, MAC\<close>
  pk_NodeDelay :: "u32 option"
  pk_Recipient :: "bytes option"
  pk_SurbReply :: "bytes option"
  pk_ID :: u64
  pk_Delay :: int
  pk_RecvAt :: int
  pk_DispatchAt :: int
  pk_MustForward :: bool
  pk_MustTerminate :: bool

datatype packet_err =
    errRedundantCommand | errPacketSize nat | errInvalidPayloadLength nat | errTruncatedBlock
  | errReserved byte | errFlags byte | errUserPayload nat | errOversizedResponse nat | errSphinx sphinx_err

section \<open>Life of a packet\<close>

text \<open>The zero \<open>Time\<close> of Go is a time like any other; 0 stands for it.\<close>

definition cleared_packet :: Packet where
  "cleared_packet = \<lparr>pk_Raw = [], pk_Payload = None, pk_NextNodeHop = None, pk_NodeDelay = None, pk_Recipient = None,
     pk_SurbReply = None, pk_ID = 0, pk_Delay = 0, pk_RecvAt = 0, pk_DispatchAt = 0, pk_MustForward = False, pk_MustTerminate = False\<rparr>"

definition Dispose :: "Packet \<Rightarrow> Packet" where
  "Dispose pkt = cleared_packet"

definition copyToRaw :: "Geometry \<Rightarrow> bytes \<Rightarrow> Packet \<Rightarrow> (packet_err, Packet) go" where
  "copyToRaw g b pkt = (if int (length b) \<noteq> PacketLength g then Inl (Err (errPacketSize (length b)))
     else Inr (pkt\<lparr>pk_Raw := b\<rparr>))"

definition NewWithID :: "bytes \<Rightarrow> u64 \<Rightarrow> Geometry \<Rightarrow> (packet_err, Packet) go" where
  "NewWithID raw i g = copyToRaw g raw (cleared_packet\<lparr>pk_ID := i\<rparr>)"

text \<open>\<open>New\<close> takes the next number of the counter of packets.\<close>

definition packet_New :: "u64 \<Rightarrow> bytes \<Rightarrow> Geometry \<Rightarrow> (packet_err, Packet) go" where
  "packet_New pktID raw g = NewWithID raw (pktID + 1) g"

definition NewDelay :: "int \<Rightarrow> Packet \<Rightarrow> int" where
  "NewDelay now pkt = (let delay = int64 (pk_Delay pkt - time_Sub now (pk_RecvAt pkt)) in if delay < 0 then 0 else delay)"

section \<open>Its commands\<close>

text \<open>An error leaves the commands that came before in place.\<close>

fun splitCommands :: "RoutingCommand list \<Rightarrow> Packet \<Rightarrow> packet_err option \<times> Packet" where
  "splitCommands [] pkt = (None, pkt)"
| "splitCommands (NextNodeHop i m # cmds) pkt =
     (if pk_NextNodeHop pkt \<noteq> None then (Some errRedundantCommand, pkt) else splitCommands cmds (pkt\<lparr>pk_NextNodeHop := Some (i, m)\<rparr>))"
| "splitCommands (NodeDelay d # cmds) pkt =
     (if pk_NodeDelay pkt \<noteq> None then (Some errRedundantCommand, pkt) else splitCommands cmds (pkt\<lparr>pk_NodeDelay := Some d\<rparr>))"
| "splitCommands (Recipient i # cmds) pkt =
     (if pk_Recipient pkt \<noteq> None then (Some errRedundantCommand, pkt) else splitCommands cmds (pkt\<lparr>pk_Recipient := Some i\<rparr>))"
| "splitCommands (SURBReply i # cmds) pkt =
     (if pk_SurbReply pkt \<noteq> None then (Some errRedundantCommand, pkt) else splitCommands cmds (pkt\<lparr>pk_SurbReply := Some i\<rparr>))"

definition packet_Set :: "bytes option \<Rightarrow> RoutingCommand list \<Rightarrow> Packet \<Rightarrow> packet_err option \<times> Packet" where
  "packet_Set payload cmds pkt = splitCommands cmds (pkt\<lparr>pk_Payload := payload\<rparr>)"

definition IsForward :: "Packet \<Rightarrow> bool" where
  "IsForward pkt \<longleftrightarrow> pk_NextNodeHop pkt \<noteq> None \<and> pk_NodeDelay pkt \<noteq> None \<and> pk_Recipient pkt = None \<and> pk_SurbReply pkt = None"

definition IsToUser :: "Packet \<Rightarrow> bool" where
  "IsToUser pkt \<longleftrightarrow> pk_NextNodeHop pkt = None \<and> pk_NodeDelay pkt \<noteq> None \<and> pk_Recipient pkt \<noteq> None \<and> pk_SurbReply pkt = None"

definition IsSURBReply :: "Packet \<Rightarrow> bool" where
  "IsSURBReply pkt \<longleftrightarrow> pk_NextNodeHop pkt = None \<and> pk_NodeDelay pkt = None \<and> pk_Recipient pkt \<noteq> None \<and> pk_SurbReply pkt \<noteq> None"

section \<open>Payloads\<close>

definition byte_at :: "bytes \<Rightarrow> nat \<Rightarrow> ('e, byte) go" where
  "byte_at b i = (if i < length b then Inr (b ! i) else Inl Panic)"

definition flagsPadding :: byte where "flagsPadding = 0"
definition flagsSURB :: byte where "flagsSURB = 1"

text \<open>The length of a nil payload is 0.\<close>

definition ParseForwardPacket :: "Geometry \<Rightarrow> Packet \<Rightarrow> (packet_err, bytes \<times> bytes option) go" where
  "ParseForwardPacket g pkt =
     (let hdrLength = SphinxPlaintextHeaderLength g + SURBLength g;
          b = (case pk_Payload pkt of None \<Rightarrow> [] | Some b \<Rightarrow> b) in
      if int (length b) \<noteq> ForwardPayloadLength g then Inl (Err (errInvalidPayloadLength (length b)))
      else if int (length b) < hdrLength then Inl (Err errTruncatedBlock)
      else go_bind (byte_at b 1) (\<lambda>r. if r \<noteq> 0 then Inl (Err (errReserved r))
      else go_bind (go_slice b hdrLength (int (length b))) (\<lambda>ct.
      go_bind (byte_at b 0) (\<lambda>f.
      go_bind (if f = flagsPadding then Inr None
               else if f = flagsSURB then go_bind (go_slice b (SphinxPlaintextHeaderLength g) hdrLength) (\<lambda>s. Inr (Some s))
               else Inl (Err (errFlags f))) (\<lambda>surb.
      if int (length ct) \<noteq> UserForwardPayloadLength g then Inl (Err (errUserPayload (length ct)))
      else Inr (ct, surb))))))"

text \<open>The answer to a request: a packet for the first hop of the SURB, with a delay of 0 that the caller changes.\<close>

definition lift_sphinx :: "(sphinx_err, 'a) go \<Rightarrow> (packet_err, 'a) go" where
  "lift_sphinx r = (case r of Inr a \<Rightarrow> Inr a | Inl Panic \<Rightarrow> Inl Panic | Inl (Err e) \<Rightarrow> Inl (Err (errSphinx e)))"

definition packet_NewPacketFromSURB ::
  "('pub, 'priv) crypto \<Rightarrow> u64 \<Rightarrow> bytes \<Rightarrow> bytes \<Rightarrow> Geometry \<Rightarrow> (packet_err, Packet) go" where
  "packet_NewPacketFromSURB c pktID surb payload g =
     go_bind (make_bytes (ForwardPayloadLength g)) (\<lambda>zeros.
     if payload \<noteq> [] \<and> ForwardPayloadLength g < int (length payload) then Inl (Err (errOversizedResponse (length payload)))
     else go_bind (lift_sphinx (NewPacketFromSURB c g surb (copy_over zeros payload))) (\<lambda>(rawRespPkt, firstHop).
     go_bind (packet_New pktID rawRespPkt g) (\<lambda>respPkt.
     case packet_Set None [NextNodeHop (copy_into NodeIDLength firstHop) (replicate MACLength 0), NodeDelay 0] respPkt of
       (Some e, _) \<Rightarrow> Inl (Err e)
     | (None, p) \<Rightarrow> Inr (p\<lparr>pk_MustForward := True\<rparr>))))"

section \<open>What the packet says\<close>

fun is_delay :: "RoutingCommand \<Rightarrow> bool" where
  "is_delay (NodeDelay d) = True" | "is_delay _ = False"

fun is_recipient :: "RoutingCommand \<Rightarrow> bool" where
  "is_recipient (Recipient i) = True" | "is_recipient _ = False"

text \<open>A packet fresh from the wire has no commands.\<close>

definition no_commands_yet :: "Packet \<Rightarrow> bool" where
  "no_commands_yet pkt \<longleftrightarrow> pk_NextNodeHop pkt = None \<and> pk_NodeDelay pkt = None \<and> pk_Recipient pkt = None \<and> pk_SurbReply pkt = None"

lemma splitCommands_fields:
  "splitCommands cmds pkt = (e, pkt') \<Longrightarrow> pk_Raw pkt' = pk_Raw pkt \<and> pk_Payload pkt' = pk_Payload pkt \<and> pk_ID pkt' = pk_ID pkt
     \<and> pk_Delay pkt' = pk_Delay pkt \<and> pk_RecvAt pkt' = pk_RecvAt pkt \<and> pk_DispatchAt pkt' = pk_DispatchAt pkt
     \<and> pk_MustForward pkt' = pk_MustForward pkt \<and> pk_MustTerminate pkt' = pk_MustTerminate pkt"
  by (induction cmds pkt rule: splitCommands.induct) (auto split: if_splits)

lemma packet_Set_fields:
  "packet_Set p cmds pkt = (e, pkt') \<Longrightarrow> pk_Raw pkt' = pk_Raw pkt \<and> pk_Payload pkt' = p \<and> pk_ID pkt' = pk_ID pkt
     \<and> pk_Delay pkt' = pk_Delay pkt \<and> pk_RecvAt pkt' = pk_RecvAt pkt \<and> pk_DispatchAt pkt' = pk_DispatchAt pkt
     \<and> pk_MustForward pkt' = pk_MustForward pkt \<and> pk_MustTerminate pkt' = pk_MustTerminate pkt"
  using splitCommands_fields [of cmds "pkt\<lparr>pk_Payload := p\<rparr>" e pkt'] by (simp add: packet_Set_def)

text \<open>What a service node reads is what a client wrote: a block with its flags, a SURB and a payload.\<close>

definition forward_block :: "Geometry \<Rightarrow> bytes option \<Rightarrow> bytes \<Rightarrow> bytes" where
  "forward_block g surb payload = (case surb of
     None \<Rightarrow> [flagsPadding, 0] @ replicate (nat (SURBLength g)) 0 @ payload
   | Some s \<Rightarrow> [flagsSURB, 0] @ s @ payload)"

lemma ParseForwardPacket_block:
  assumes g: "SphinxPlaintextHeaderLength g = 2" "0 \<le> SURBLength g"
    "ForwardPayloadLength g = 2 + SURBLength g + UserForwardPayloadLength g"
    and p: "int (length payload) = UserForwardPayloadLength g" and s: "\<And>s. surb = Some s \<Longrightarrow> int (length s) = SURBLength g"
    and pkt: "pk_Payload pkt = Some (forward_block g surb payload)"
  shows "ParseForwardPacket g pkt = Inr (payload, surb)"
proof -
  define x where "x = (case surb of None \<Rightarrow> replicate (nat (SURBLength g)) 0 | Some s \<Rightarrow> s)"
  define f where "f = (case surb of None \<Rightarrow> flagsPadding | Some _ \<Rightarrow> flagsSURB)"
  have x: "int (length x) = SURBLength g" using g s by (auto simp: x_def split: option.split)
  have b: "forward_block g surb payload = [f, 0] @ x @ payload"
    by (simp add: forward_block_def x_def f_def split: option.split)
  have ct: "go_slice ([f, 0] @ x @ payload) (2 + SURBLength g) (int (length ([f, 0] @ x @ payload))) = (Inr payload :: (packet_err, bytes) go)"
    using go_slice_suffix [of "2 + SURBLength g" "[f, 0] @ x" _ payload] x by simp
  have sl: "go_slice ([f, 0] @ x @ payload) 2 (2 + SURBLength g) = (Inr x :: (packet_err, bytes) go)"
    by (rule go_slice_at) (use x in simp_all)
  show ?thesis
  proof (cases surb)
    case None
    then show ?thesis using pkt b ct sl g x p by (simp add: ParseForwardPacket_def byte_at_def f_def flagsPadding_def flagsSURB_def)
  next
    case (Some y)
    then show ?thesis using pkt b ct sl g x p
      by (simp add: ParseForwardPacket_def byte_at_def f_def flagsPadding_def flagsSURB_def x_def)
  qed
qed

end
