(* ===== verification/MixWorker.thy ===== *)
theory MixWorker
  imports MixKeys MixPacket SphinxSafety
begin

text \<open>
  The crypto worker of a server (server/internal/cryptoworker/crypto_worker.go): it unwraps a packet
  with the key of the current, the previous or the next epoch, drops replays, and hands the packet
  to the scheduler, the sink of decoys, the gateway or the service node. The clock, the node's
  configuration and the recipient of its own decoys are arguments. A packet that is dropped is
  named by the reason that the code counts.
\<close>

datatype drop_reason =
    unwrap_dwell_exceeded | unwrap_failed | unwrap_payload_unexpected | provider_forward_from_mix | delay_impossible
  | zero_delay_excessive_dwell | mix_received_non_forward | client_to_local_user | invalid_packet

datatype destination = ToScheduler Packet | ToDecoy Packet | ToGateway Packet | ToServiceNode Packet | Dropped drop_reason

datatype unwrap_error = errNoKey u64 | errUnwrap unwrap_err | errSet packet_err | errReplay | errOutOfCandidates

record worker_config =
  cfg_IsGatewayNode :: bool
  cfg_IsServiceNode :: bool
  cfg_UnwrapDelay :: int   \<comment> \<open>milliseconds\<close>
  cfg_Period :: int        \<comment> \<open>of an epoch, nanoseconds\<close>
  cfg_recipient :: bytes   \<comment> \<open>of the node's decoys\<close>

definition Millisecond :: int where "Millisecond = 10 ^ 6"

section \<open>Unwrapping\<close>

text \<open>The addresses of the keys to try; \<open>epoch-1\<close> and \<open>epoch+1\<close> wrap.\<close>

definition candidate_keys :: "key_table \<Rightarrow> u64 \<Rightarrow> nat list option" where
  "candidate_keys t epoch = (case map_of t epoch of None \<Rightarrow> None
     | Some k \<Rightarrow> Some (k # (case map_of t (epoch - 1) of None \<Rightarrow> [] | Some prev \<Rightarrow> [prev])
                         @ (case map_of t (epoch + 1) of None \<Rightarrow> [] | Some nxt \<Rightarrow> [nxt])))"

text \<open>
  The loop over the keys. The result is the key and the tag the packet was accepted under, or the last
  error; the packet is returned in either case, because \<open>Set\<close> has changed it then. A packet
  that is to be forwarded has been rewritten in place by \<open>Unwrap\<close>.
\<close>

fun unwrap_loop ::
  "('pub, 'priv, 'f) mix_env \<Rightarrow> sphinx \<Rightarrow> ('pub, 'priv) crypto \<Rightarrow> Geometry \<Rightarrow> nat list \<Rightarrow> unwrap_error option \<Rightarrow> Packet
     \<Rightarrow> ('pub, 'priv, 'f) mix_keys \<Rightarrow> (unit, (unwrap_error + nat \<times> bytes) \<times> Packet \<times> ('pub, 'priv, 'f) mix_keys) go" where
  "unwrap_loop E s c g [] lastErr pkt m =
     Inr (Inl (case lastErr of None \<Rightarrow> errOutOfCandidates | Some e \<Rightarrow> e), pkt, m)"
| "unwrap_loop E s c g (a # as) lastErr pkt m =
     go_bind (deref (key_store m a)) (\<lambda>k.
     go_bind (deref (PrivateKey k)) (\<lambda>priv.
     case Unwrap s c g priv (pk_Raw pkt) of
       Inl Panic \<Rightarrow> Inl Panic
     | Inl (Err e) \<Rightarrow> unwrap_loop E s c g as (Some (errUnwrap e)) pkt m
     | Inr u \<Rightarrow> (case packet_Set (u_payload u) (u_commands u) (pkt\<lparr>pk_Raw := u_packet u\<rparr>) of
           (Some e, pkt') \<Rightarrow> Inr (Inl (errSet e), pkt', m)
         | (None, pkt') \<Rightarrow> go_bind (worker_IsReplay E a (u_replayTag u) m) (\<lambda>(replay, m').
               if replay then Inr (Inl errReplay, pkt', m') else Inr (Inr (a, u_replayTag u), pkt', m')))))"

definition doUnwrap ::
  "('pub, 'priv, 'f) mix_env \<Rightarrow> sphinx \<Rightarrow> ('pub, 'priv) crypto \<Rightarrow> Geometry \<Rightarrow> key_table \<Rightarrow> u64 \<Rightarrow> Packet
     \<Rightarrow> ('pub, 'priv, 'f) mix_keys \<Rightarrow> (unit, (unwrap_error + nat \<times> bytes) \<times> Packet \<times> ('pub, 'priv, 'f) mix_keys) go" where
  "doUnwrap E s c g t epoch pkt m = (case candidate_keys t epoch of
       None \<Rightarrow> Inr (Inl (errNoKey epoch), pkt, m)
     | Some as \<Rightarrow> unwrap_loop E s c g as None pkt m)"

section \<open>Routing\<close>

definition absoluteMinimumDelay :: int where "absoluteMinimumDelay = 1 * Millisecond"

text \<open>The delay that is left of \<open>d\<close> milliseconds after the packet has waited for \<open>dwellTime\<close>.\<close>

definition adjusted_delay :: "u32 \<Rightarrow> int \<Rightarrow> int option" where
  "adjusted_delay d dwellTime =
     (let delay = uint d * Millisecond in
      if dwellTime < delay then Some (delay - dwellTime)
      else if d = 0 then (if dwellTime < absoluteMinimumDelay then Some (absoluteMinimumDelay - dwellTime) else None)
      else Some absoluteMinimumDelay)"

text \<open>\<open>ExpectReply\<close> of the decoy sink (server/internal/decoy/decoy.go).\<close>

definition ExpectReply :: "worker_config \<Rightarrow> Packet \<Rightarrow> (unit, bool) go" where
  "ExpectReply cfg pkt = go_bind (deref (pk_Recipient pkt)) (\<lambda>i. Inr (i = cfg_recipient cfg))"

definition expected_reply :: "worker_config \<Rightarrow> Packet \<Rightarrow> (unit, bool) go" where
  "expected_reply cfg pkt = (if IsSURBReply pkt then ExpectReply cfg pkt else Inr False)"

definition routePacket :: "worker_config \<Rightarrow> Packet \<Rightarrow> int \<Rightarrow> (unit, destination) go" where
  "routePacket cfg pkt startAt =
     (let dwellTime = time_Sub startAt (pk_RecvAt pkt) in
      if IsForward pkt then
        (if pk_Payload pkt \<noteq> None then Inr (Dropped unwrap_payload_unexpected)
         else if pk_MustTerminate pkt then Inr (Dropped provider_forward_from_mix)
         else go_bind (deref (pk_NodeDelay pkt)) (\<lambda>d.
           if int NumMixKeys * cfg_Period cfg < uint d * Millisecond then Inr (Dropped delay_impossible)
           else case adjusted_delay d dwellTime of
               None \<Rightarrow> Inr (Dropped zero_delay_excessive_dwell)
             | Some delay \<Rightarrow> Inr (ToScheduler (pkt\<lparr>pk_Delay := delay\<rparr>))))
      else if \<not> cfg_IsGatewayNode cfg \<and> \<not> cfg_IsServiceNode cfg then
        go_bind (expected_reply cfg pkt) (\<lambda>b. Inr (if b then ToDecoy pkt else Dropped mix_received_non_forward))
      else if pk_MustForward pkt then Inr (Dropped client_to_local_user)
      else go_bind (expected_reply cfg pkt) (\<lambda>b.
        if b then Inr (ToDecoy pkt)
        else if cfg_IsGatewayNode cfg then Inr (ToGateway (pkt\<lparr>pk_DispatchAt := startAt\<rparr>))
        else if cfg_IsServiceNode cfg then Inr (ToServiceNode (pkt\<lparr>pk_DispatchAt := startAt\<rparr>))
        else Inr (Dropped invalid_packet)))"

section \<open>The worker\<close>

text \<open>
  One packet from the incoming channel, at time \<open>startAt\<close> in the epoch the clock says: where it goes,
  the key and tag it was accepted under, and the keys.
\<close>

definition worker_packet ::
  "('pub, 'priv, 'f) mix_env \<Rightarrow> sphinx \<Rightarrow> ('pub, 'priv) crypto \<Rightarrow> Geometry \<Rightarrow> worker_config \<Rightarrow> nat \<Rightarrow> int \<Rightarrow> u64 \<Rightarrow> Packet
     \<Rightarrow> ('pub, 'priv, 'f) mix_keys \<Rightarrow> (unit, destination \<times> (nat \<times> bytes) option \<times> ('pub, 'priv, 'f) mix_keys) go" where
  "worker_packet E s c g cfg w startAt epoch pkt m =
     (if cfg_UnwrapDelay cfg * Millisecond < time_Sub startAt (pk_RecvAt pkt) then Inr (Dropped unwrap_dwell_exceeded, None, m)
      else go_bind (doUnwrap E s c g (worker_keys m ! w) epoch pkt m) (\<lambda>(r, pkt', m'). case r of
          Inl e \<Rightarrow> Inr (Dropped unwrap_failed, None, m')
        | Inr acc \<Rightarrow> go_bind (routePacket cfg pkt' startAt) (\<lambda>dest. Inr (dest, Some acc, m'))))"

section \<open>What a packet may be when it is routed\<close>

lemma adjusted_delay_bounds:
  assumes a: "adjusted_delay d dwell = Some delay" and dwell: "0 \<le> dwell"
  shows "0 < delay \<and> delay \<le> max (uint d * Millisecond) absoluteMinimumDelay"
  using assms uint_ge_0 [of d] by (auto simp: adjusted_delay_def absoluteMinimumDelay_def Millisecond_def Let_def split: if_splits)

lemma routePacket_total: "\<exists>dest. routePacket cfg pkt startAt = Inr dest"
proof -
  have e: "\<exists>b. expected_reply cfg pkt = Inr b"
    by (auto simp: expected_reply_def ExpectReply_def IsSURBReply_def)
  have d: "IsForward pkt \<Longrightarrow> \<exists>d. pk_NodeDelay pkt = Some d" by (auto simp: IsForward_def)
  show ?thesis using e d by (auto simp: routePacket_def Let_def split: option.split)
qed

lemma routePacket_scheduler:
  assumes "routePacket cfg pkt startAt = Inr (ToScheduler pkt')"
  shows "IsForward pkt \<and> pk_Payload pkt = None \<and> \<not> pk_MustTerminate pkt
    \<and> (\<exists>d delay. pk_NodeDelay pkt = Some d \<and> uint d * Millisecond \<le> int NumMixKeys * cfg_Period cfg
         \<and> adjusted_delay d (time_Sub startAt (pk_RecvAt pkt)) = Some delay \<and> pkt' = pkt\<lparr>pk_Delay := delay\<rparr>)"
  using assms by (auto simp: routePacket_def Let_def go_bind_Inr_iff deref_def split: if_splits option.splits)

end
