(* ===== verification/MixScheduler.thy ===== *)
theory MixScheduler
  imports CoreQueue MixWorker
begin

text \<open>
  The scheduler of a server (server/internal/scheduler/scheduler.go, queue_mem.go, batching_channel.go): the
  channel that collects packets of the crypto workers into batches, the queue in memory, and the
  worker that keeps packets for their delay and then hands them to the connector. Readings of the
  clock and numbers from the random source are arguments.
\<close>

section \<open>The batching channel\<close>

text \<open>
  The buffer between the two ends, and which ends are ready: input unless the buffer is full, output
  if there is something. A size of \<open>None\<close> stands for \<open>Infinity\<close>; \<open>None\<close> of the code panics.
\<close>

record 'a BatchingChannel =
  bc_buffer :: "'a list"
  bc_size :: "nat option"
  bc_open :: bool

definition NewBatchingChannel :: "int \<Rightarrow> (unit, 'a BatchingChannel) go" where
  "NewBatchingChannel capacity = (if capacity = 0 then Inl Panic
     else if capacity < 0 \<and> capacity \<noteq> -1 then Inl Panic
     else Inr \<lparr>bc_buffer = [], bc_size = (if capacity = -1 then None else Some (nat capacity)), bc_open = True\<rparr>)"

definition bc_accepts :: "'a BatchingChannel \<Rightarrow> bool" where
  "bc_accepts ch \<longleftrightarrow> bc_open ch \<and> (bc_buffer ch = [] \<or> (case bc_size ch of None \<Rightarrow> True | Some n \<Rightarrow> length (bc_buffer ch) < n))"

definition bc_in :: "'a \<Rightarrow> 'a BatchingChannel \<Rightarrow> 'a BatchingChannel" where
  "bc_in x ch = (if bc_accepts ch then ch\<lparr>bc_buffer := bc_buffer ch @ [x]\<rparr> else ch)"

definition bc_out :: "'a BatchingChannel \<Rightarrow> ('a list \<times> 'a BatchingChannel) option" where
  "bc_out ch = (if bc_buffer ch = [] then None else Some (bc_buffer ch, ch\<lparr>bc_buffer := []\<rparr>))"

definition bc_Len :: "'a BatchingChannel \<Rightarrow> nat" where
  "bc_Len ch = length (bc_buffer ch)"

definition bc_Close :: "'a BatchingChannel \<Rightarrow> 'a BatchingChannel" where
  "bc_Close ch = ch\<lparr>bc_open := False\<rparr>"

definition maxBatchSize :: int where "maxBatchSize = 64"

section \<open>The queue in memory\<close>

record sched_config =
  SchedulerSlack :: int       \<comment> \<open>milliseconds\<close>
  SchedulerMaxBurst :: int
  SchedulerQueueSize :: int
  sc_Period :: int

definition mq_Peek :: "Packet PriorityQueue \<Rightarrow> (int \<times> Packet) option" where
  "mq_Peek q = map_option (\<lambda>e. (int64 (uint (Priority e)), Value e)) (Peek q)"

definition mq_Pop :: "Packet PriorityQueue \<Rightarrow> Packet PriorityQueue" where
  "mq_Pop q = snd (heap_Pop q)"

text \<open>The queue and the packet that had to go, if one had to.\<close>

definition doEnqueue :: "int \<Rightarrow> nat \<Rightarrow> int \<Rightarrow> Packet \<Rightarrow> Packet PriorityQueue \<Rightarrow> (unit, Packet PriorityQueue \<times> Packet option) go" where
  "doEnqueue maxCapacity r due pkt q =
     (let q' = Enqueue (word_of_int due) pkt q in
      if 0 < maxCapacity \<and> maxCapacity < int (length q')
      then go_bind (DequeueRandom r q') (\<lambda>(e, q''). go_bind (deref e) (\<lambda>e. Inr (q'', Some (Value e))))
      else Inr (q', None))"

fun BulkEnqueue :: "int \<Rightarrow> int \<Rightarrow> (Packet \<times> nat) list \<Rightarrow> Packet PriorityQueue \<Rightarrow> (unit, Packet PriorityQueue \<times> Packet list) go" where
  "BulkEnqueue maxCapacity now [] q = Inr (q, [])"
| "BulkEnqueue maxCapacity now ((pkt, r) # batch) q =
     go_bind (doEnqueue maxCapacity r (now + pk_Delay pkt) pkt q) (\<lambda>(q', lost).
     go_bind (BulkEnqueue maxCapacity now batch q') (\<lambda>(q'', losts).
       Inr (q'', (case lost of None \<Rightarrow> losts | Some p \<Rightarrow> p # losts))))"

section \<open>The worker\<close>

record scheduler =
  sch_q :: "Packet PriorityQueue"
  sch_maxDelay :: int
  sch_timer :: "int option"

definition absoluteMaxDelay :: "sched_config \<Rightarrow> int" where
  "absoluteMaxDelay cfg = duration_times (sc_Period cfg) (int NumMixKeys)"

definition new_scheduler :: "sched_config \<Rightarrow> scheduler" where
  "new_scheduler cfg = \<lparr>sch_q = queue_New, sch_maxDelay = absoluteMaxDelay cfg, sch_timer = None\<rparr>"

text \<open>The loop over a batch: what is to be queued and what is dropped.\<close>

fun sort_batch :: "int \<Rightarrow> (bytes \<Rightarrow> bool) \<Rightarrow> Packet list \<Rightarrow> (unit, Packet list \<times> Packet list) go" where
  "sort_batch maxDelay valid [] = Inr ([], [])"
| "sort_batch maxDelay valid (pkt # batch) =
     (if maxDelay < pk_Delay pkt
      then go_bind (sort_batch maxDelay valid batch) (\<lambda>(es, ds). Inr (es, pkt # ds))
      else go_bind (deref (pk_NextNodeHop pkt)) (\<lambda>(i, _).
        go_bind (sort_batch maxDelay valid batch) (\<lambda>(es, ds).
          Inr (if valid i then (pkt # es, ds) else (es, pkt # ds)))))"

text \<open>The delay a PKI document asks for; the product of the durations wraps.\<close>

definition new_max_delay :: "sched_config \<Rightarrow> u64 \<Rightarrow> int" where
  "new_max_delay cfg newMaxDelay =
     (let pkiMaxDelay = duration_times (Duration newMaxDelay) Millisecond in
      if absoluteMaxDelay cfg < pkiMaxDelay \<or> pkiMaxDelay = 0 then absoluteMaxDelay cfg else pkiMaxDelay)"

text \<open>
  The dispatch loop. It gives the queue, the timer, the packets handed to the connector with the time, and the
  packets whose deadline was blown; iteration \<open>n\<close> reads the clock as \<open>clk n\<close>.
\<close>

function dispatch_loop ::
  "sched_config \<Rightarrow> (nat \<Rightarrow> int) \<Rightarrow> nat \<Rightarrow> Packet PriorityQueue \<Rightarrow> Packet PriorityQueue \<times> int option \<times> (int \<times> Packet) list \<times> Packet list" where
  "dispatch_loop cfg clk n q =
     (case mq_Peek q of
        None \<Rightarrow> (q, None, [], [])
      | Some (dispatchAt, pkt) \<Rightarrow>
          let now = clk n in
          if now < dispatchAt then (q, Some (now + time_Sub dispatchAt now), [], [])
          else if SchedulerMaxBurst cfg < int (Suc n) then (q, Some (now + 1000), [], [])
          else let (q', t, sent, lost) = dispatch_loop cfg clk (Suc n) (mq_Pop q) in
            if SchedulerSlack cfg * Millisecond < time_Sub now dispatchAt then (q', t, sent, pkt # lost)
            else (q', t, (now, pkt\<lparr>pk_DispatchAt := now\<rparr>) # sent, lost))"
  by pat_completeness auto

lemma heap_Pop_length: "q \<noteq> [] \<Longrightarrow> length (snd (heap_Pop q)) < length q"
proof -
  assume q: "q \<noteq> []"
  let ?n = "length q - 1"
  have l: "length (snd (heap_down 0 ?n (Swap 0 ?n q))) = length q"
  proof (cases "?n = 0")
    case True
    then show ?thesis by (simp add: heap_down_step [of 0])
  next
    case False
    then show ?thesis using heap_down_mset [of 0 ?n "Swap 0 ?n q"] by simp
  qed
  then have "snd (heap_down 0 ?n (Swap 0 ?n q)) \<noteq> []" using q by (metis length_0_conv)
  with q l show ?thesis by (simp add: heap_Pop_def Let_def queue_Pop_def)
qed

termination dispatch_loop
  by (relation "measure (\<lambda>(cfg, clk, n, q). length q)")
    (auto simp: mq_Peek_def mq_Pop_def Peek_def heap_Pop_length split: if_splits)

declare dispatch_loop.simps [simp del]

text \<open>
  One turn of the worker: what woke it, then the dispatch loop. The results are the state, the packets queued with
  the time, those handed over with the time, and those dropped.
\<close>

datatype sched_event =
    Batch "(Packet \<times> nat) list" int "bytes \<Rightarrow> bool"   \<comment> \<open>packets with random numbers, the clock, the connector's table\<close>
  | MaxDelay u64
  | TimerFired

record sched_turn =
  st_queued :: "(int \<times> Packet) list"
  st_sent :: "(int \<times> Packet) list"
  st_dropped :: "Packet list"

definition take_event :: "sched_config \<Rightarrow> sched_event \<Rightarrow> scheduler \<Rightarrow> (unit, scheduler \<times> (int \<times> Packet) list \<times> Packet list) go" where
  "take_event cfg e s = (case e of
       Batch batch now valid \<Rightarrow>
         go_bind (sort_batch (sch_maxDelay s) valid (map fst batch)) (\<lambda>(toEnqueue, dropped).
         go_bind (BulkEnqueue (SchedulerQueueSize cfg) now (zip toEnqueue (map snd batch)) (sch_q s)) (\<lambda>(q, lost).
           Inr (s\<lparr>sch_q := q\<rparr>, map (\<lambda>p. (now, p)) toEnqueue, dropped @ lost)))
     | MaxDelay d \<Rightarrow> Inr (s\<lparr>sch_maxDelay := new_max_delay cfg d\<rparr>, [], [])
     | TimerFired \<Rightarrow> Inr (s, [], []))"

definition sched_step :: "sched_config \<Rightarrow> sched_event \<Rightarrow> (nat \<Rightarrow> int) \<Rightarrow> scheduler \<Rightarrow> (unit, scheduler \<times> sched_turn) go" where
  "sched_step cfg e clk s =
     go_bind (take_event cfg e s) (\<lambda>(s1, queued, dropped).
       let (q, t, sent, lost) = dispatch_loop cfg clk 0 (sch_q s1) in
       Inr (s1\<lparr>sch_q := q, sch_timer := t\<rparr>, \<lparr>st_queued = queued, st_sent = sent, st_dropped = dropped @ lost\<rparr>))"

end
