(* ===== verification/MixSchedProps.thy ===== *)
theory MixSchedProps
  imports MixScheduler
begin

text \<open>
  What the scheduler of a mix promises: a packet that it takes is handed on once, not before its delay
  is over and not later than the slack allows, or it is dropped; none is lost or doubled. The queue
  stays within its size, a turn within its burst, and the timer is set while packets wait.
\<close>

section \<open>The dispatch loop\<close>

lemma mq_Peek_Some: "mq_Peek q = Some (t, p) \<Longrightarrow> \<exists>e. Peek q = Some e \<and> t = int64 (uint (Priority e)) \<and> p = Value e"
  by (auto simp: mq_Peek_def)

lemma mq_Peek_None [simp]: "mq_Peek q = None \<longleftrightarrow> q = []" "mq_Peek [] = None"
  by (auto simp: mq_Peek_def Peek_def)

lemma mq_Pop_ok:
  assumes "is_heap q" "Peek q = Some e"
  shows "is_heap (mq_Pop q)" "mset q = add_mset e (mset (mq_Pop q))"
proof -
  have "q \<noteq> []" "e = q ! 0" using assms by (auto simp: Peek_def split: if_splits)
  with heap_Pop_ok [OF assms(1)] show "is_heap (mq_Pop q)" "mset q = add_mset e (mset (mq_Pop q))" by (simp_all add: mq_Pop_def)
qed

definition in_time :: "sched_config \<Rightarrow> int \<times> Packet Entry \<Rightarrow> bool" where
  "in_time cfg = (\<lambda>(now, e). int64 (uint (Priority e)) \<le> now \<and> time_Sub now (int64 (uint (Priority e))) \<le> SchedulerSlack cfg * Millisecond)"

definition handed :: "int \<times> Packet Entry \<Rightarrow> int \<times> Packet" where
  "handed = (\<lambda>(now, e). (now, (Value e)\<lparr>pk_DispatchAt := now\<rparr>))"

text \<open>
  The entries \<open>ss\<close> that are sent with their times, and those \<open>ls\<close> that come too late: together with what
  is left they are the queue, and there are no more of them than the burst allows.
\<close>

definition loop_result ::
  "sched_config \<Rightarrow> nat \<Rightarrow> Packet PriorityQueue \<Rightarrow> Packet PriorityQueue \<times> int option \<times> (int \<times> Packet) list \<times> Packet list
     \<Rightarrow> (int \<times> Packet Entry) list \<Rightarrow> Packet Entry list \<Rightarrow> bool" where
  "loop_result cfg n q = (\<lambda>(q', t, sent, lost) ss ls. is_heap q' \<and> mset q = mset q' + mset (map snd ss) + mset ls
     \<and> sent = map handed ss \<and> lost = map Value ls \<and> list_all (in_time cfg) ss
     \<and> (ss @ map (Pair 0) ls \<noteq> [] \<longrightarrow> int (n + length ss + length ls) \<le> SchedulerMaxBurst cfg) \<and> (q' \<noteq> [] \<longrightarrow> t \<noteq> None))"

lemma dispatch_loop_ok: "is_heap q \<Longrightarrow> \<exists>ss ls. loop_result cfg n q (dispatch_loop cfg clk n q) ss ls"
proof (induction cfg clk n q rule: dispatch_loop.induct)
  case (1 cfg clk n q)
  show ?case
  proof (cases "mq_Peek q")
    case None
    then have d: "dispatch_loop cfg clk n q = (q, None, [], [])" by (subst dispatch_loop.simps) simp
    have "loop_result cfg n q (q, None, [], []) [] []" using 1 None by (simp add: loop_result_def)
    then show ?thesis unfolding d by blast
  next
    case (Some a)
    then obtain e where e: "Peek q = Some e" "a = (int64 (uint (Priority e)), Value e)" using mq_Peek_Some by (cases a) fastforce
    let ?at = "int64 (uint (Priority e))" and ?now = "clk n"
    consider "?now < ?at" | "\<not> ?now < ?at" "SchedulerMaxBurst cfg < int (Suc n)" | "\<not> ?now < ?at" "\<not> SchedulerMaxBurst cfg < int (Suc n)" by blast
    then show ?thesis
    proof cases
      case 1
      then have d: "dispatch_loop cfg clk n q = (q, Some (?now + time_Sub ?at ?now), [], [])"
        using Some e by (simp add: dispatch_loop.simps [of cfg clk n q] Let_def)
      have "loop_result cfg n q (q, Some (?now + time_Sub ?at ?now), [], []) [] []" using "1.prems" by (simp add: loop_result_def)
      then show ?thesis unfolding d by blast
    next
      case 2
      then have d: "dispatch_loop cfg clk n q = (q, Some (?now + 1000), [], [])"
        using Some e by (simp add: dispatch_loop.simps [of cfg clk n q] Let_def)
      have "loop_result cfg n q (q, Some (?now + 1000), [], []) [] []" using "1.prems" by (simp add: loop_result_def)
      then show ?thesis unfolding d by blast
    next
      case 3
      note pop = mq_Pop_ok [OF "1.prems" e(1)]
      obtain q' t sent lost where r: "dispatch_loop cfg clk (Suc n) (mq_Pop q) = (q', t, sent, lost)" by (metis prod_cases4)
      obtain ss ls where ih: "loop_result cfg (Suc n) (mq_Pop q) (q', t, sent, lost) ss ls"
        using "1.IH" [OF Some e(2) [symmetric] refl 3 pop(1)] r by auto
      show ?thesis
      proof (cases "SchedulerSlack cfg * Millisecond < time_Sub ?now ?at")
        case True
        then have d: "dispatch_loop cfg clk n q = (q', t, sent, Value e # lost)"
          using Some e 3 r by (simp add: dispatch_loop.simps [of cfg clk n q] Let_def)
        have "loop_result cfg n q (q', t, sent, Value e # lost) ss (e # ls)"
          using ih pop(2) 3 by (auto simp: loop_result_def)
        then show ?thesis unfolding d by blast
      next
        case False
        then have d: "dispatch_loop cfg clk n q = (q', t, (?now, (Value e)\<lparr>pk_DispatchAt := ?now\<rparr>) # sent, lost)"
          using Some e 3 r by (simp add: dispatch_loop.simps [of cfg clk n q] Let_def)
        have "loop_result cfg n q (q', t, (?now, (Value e)\<lparr>pk_DispatchAt := ?now\<rparr>) # sent, lost) ((?now, e) # ss) ls"
          using ih pop(2) 3 False by (auto simp: loop_result_def in_time_def handed_def)
        then show ?thesis unfolding d by blast
      qed
    qed
  qed
qed

section \<open>Taking a batch\<close>

definition entry_at :: "int \<Rightarrow> Packet \<Rightarrow> Packet Entry" where
  "entry_at now p = \<lparr>Value = p, Priority = word_of_int (now + pk_Delay p)\<rparr>"

lemma doEnqueue_ok:
  assumes h: "is_heap q"
  shows "\<exists>q' lost. doEnqueue cap r (now + pk_Delay p) p q = Inr (q', map_option Value lost) \<and> is_heap q'
     \<and> add_mset (entry_at now p) (mset q) = mset q' + (case lost of None \<Rightarrow> {#} | Some e \<Rightarrow> {#e#})
     \<and> (0 < cap \<longrightarrow> int (length q) \<le> cap \<longrightarrow> int (length q') \<le> cap)"
proof -
  let ?q = "Enqueue (word_of_int (now + pk_Delay p)) p q"
  have q: "is_heap ?q" "mset ?q = add_mset (entry_at now p) (mset q)"
    using pq.ok_enq [OF h] pq.entries_enq [OF h] by (simp_all add: entry_at_def)
  then have l: "length ?q = Suc (length q)" by (metis size_add_mset size_mset)
  show ?thesis
  proof (cases "0 < cap \<and> cap < int (length ?q)")
    case True
    have ne: "?q \<noteq> []" using l by auto
    then obtain q' where q': "DequeueRandom r ?q = Inr (Some (?q ! (r mod length ?q)), q')" "is_heap q'"
      "mset ?q = add_mset (?q ! (r mod length ?q)) (mset q')"
      using heap_Remove_ok [OF q(1), of "r mod length ?q"] by (auto simp: DequeueRandom_def)
    have "length q' = length q" using q'(3) l by (metis Suc_inject size_add_mset size_mset)
    with True q q' show ?thesis
      by (intro exI [of _ q'] exI [of _ "Some (?q ! (r mod length ?q))"]) (simp add: doEnqueue_def Let_def)
  next
    case False
    with q l show ?thesis by (intro exI [of _ ?q] exI [of _ None]) (auto simp: doEnqueue_def Let_def)
  qed
qed

lemma BulkEnqueue_ok:
  "is_heap q \<Longrightarrow> \<exists>q' ls. BulkEnqueue cap now batch q = Inr (q', map Value ls) \<and> is_heap q'
     \<and> mset q + mset (map (entry_at now \<circ> fst) batch) = mset q' + mset ls
     \<and> (0 < cap \<longrightarrow> int (length q) \<le> cap \<longrightarrow> int (length q') \<le> cap)"
proof (induction batch arbitrary: q)
  case Nil
  then show ?case by (intro exI [of _ q] exI [of _ "[]"]) simp
next
  case (Cons x batch)
  obtain p r where x: "x = (p, r)" by (cases x)
  obtain q1 l1 where q1: "doEnqueue cap r (now + pk_Delay p) p q = Inr (q1, map_option Value l1)" "is_heap q1"
    "add_mset (entry_at now p) (mset q) = mset q1 + (case l1 of None \<Rightarrow> {#} | Some e \<Rightarrow> {#e#})"
    "0 < cap \<longrightarrow> int (length q) \<le> cap \<longrightarrow> int (length q1) \<le> cap" using doEnqueue_ok [OF Cons.prems] by blast
  obtain q' ls where q': "BulkEnqueue cap now batch q1 = Inr (q', map Value ls)" "is_heap q'"
    "mset q1 + mset (map (entry_at now \<circ> fst) batch) = mset q' + mset ls"
    "0 < cap \<longrightarrow> int (length q1) \<le> cap \<longrightarrow> int (length q') \<le> cap" using Cons.IH [OF q1(2)] by blast
  let ?ls = "case l1 of None \<Rightarrow> ls | Some e \<Rightarrow> e # ls"
  have "BulkEnqueue cap now (x # batch) q = Inr (q', map Value ?ls)"
    using x q1(1) q'(1) by (simp split: option.split)
  moreover have "mset q + mset (map (entry_at now \<circ> fst) (x # batch)) = mset q' + mset ?ls"
  proof -
    have "mset q + mset (map (entry_at now \<circ> fst) (x # batch)) = add_mset (entry_at now p) (mset q) + mset (map (entry_at now \<circ> fst) batch)"
      using x by simp
    also have "\<dots> = mset q' + mset ls + (case l1 of None \<Rightarrow> {#} | Some e \<Rightarrow> {#e#})"
      unfolding q1(3) using q'(3) by (simp add: ac_simps)
    finally show ?thesis by (simp split: option.split)
  qed
  ultimately show ?case using q' q1(4) by blast
qed

lemma sort_batch_ok:
  "\<forall>p \<in> set batch. pk_NextNodeHop p \<noteq> None \<Longrightarrow> \<exists>es ds. sort_batch maxDelay valid batch = Inr (es, ds) \<and> mset batch = mset es + mset ds
     \<and> (\<forall>p \<in> set es. pk_Delay p \<le> maxDelay \<and> (\<forall>i m. pk_NextNodeHop p = Some (i, m) \<longrightarrow> valid i)) \<and> length es \<le> length batch"
proof (induction batch)
  case (Cons p batch)
  then obtain es ds where ih: "sort_batch maxDelay valid batch = Inr (es, ds)" "mset batch = mset es + mset ds"
    "\<forall>p \<in> set es. pk_Delay p \<le> maxDelay \<and> (\<forall>i m. pk_NextNodeHop p = Some (i, m) \<longrightarrow> valid i)" "length es \<le> length batch" by auto
  obtain i m where n: "pk_NextNodeHop p = Some (i, m)" using Cons.prems by fastforce
  show ?case
  proof (cases "maxDelay < pk_Delay p \<or> \<not> valid i")
    case True
    then have "sort_batch maxDelay valid (p # batch) = Inr (es, p # ds)" using ih(1) n by auto
    with ih show ?thesis by (intro exI [of _ es] exI [of _ "p # ds"]) simp
  next
    case False
    then have "sort_batch maxDelay valid (p # batch) = Inr (p # es, ds)" using ih(1) n by auto
    with ih False n show ?thesis by (intro exI [of _ "p # es"] exI [of _ ds]) simp
  qed
qed simp

section \<open>Runs\<close>

text \<open>
  Batches of packets as the crypto workers make them: with a next hop and a delay that is not negative, not yet
  dispatched, at a time for which the nanoseconds fit.
\<close>

definition event_ok :: "sched_config \<Rightarrow> sched_event \<Rightarrow> bool" where
  "event_ok cfg e \<longleftrightarrow> (case e of
     Batch b now valid \<Rightarrow> 0 \<le> now \<and> now + absoluteMaxDelay cfg < 2 ^ 63
       \<and> (\<forall>p \<in> fst ` set b. pk_NextNodeHop p \<noteq> None \<and> 0 \<le> pk_Delay p \<and> pk_DispatchAt p = 0)
   | _ \<Rightarrow> True)"

definition batch_of :: "sched_event \<Rightarrow> Packet list" where
  "batch_of e = (case e of Batch b now valid \<Rightarrow> map fst b | _ \<Rightarrow> [])"

definition then_turn :: "sched_turn \<Rightarrow> sched_turn \<Rightarrow> sched_turn" where
  "then_turn h h' = \<lparr>st_queued = st_queued h @ st_queued h', st_sent = st_sent h @ st_sent h', st_dropped = st_dropped h @ st_dropped h'\<rparr>"

text \<open>The packets that arrived, the state, and all that was queued, sent and dropped.\<close>

inductive sched_reach :: "sched_config \<Rightarrow> Packet list \<Rightarrow> scheduler \<Rightarrow> sched_turn \<Rightarrow> bool" for cfg where
  sched_start: "sched_reach cfg [] (new_scheduler cfg) \<lparr>st_queued = [], st_sent = [], st_dropped = []\<rparr>"
| sched_moves: "\<lbrakk> sched_reach cfg arrived s h; event_ok cfg e; sched_step cfg e clk s = Inr (s', h') \<rbrakk>
     \<Longrightarrow> sched_reach cfg (arrived @ batch_of e) s' (then_turn h h')"

definition sched_inv :: "sched_config \<Rightarrow> Packet list \<Rightarrow> scheduler \<Rightarrow> sched_turn \<Rightarrow> bool" where
  "sched_inv cfg arrived s h \<longleftrightarrow> is_heap (sch_q s) \<and> sch_maxDelay s \<le> absoluteMaxDelay cfg
     \<and> (0 < SchedulerQueueSize cfg \<longrightarrow> int (length (sch_q s)) \<le> SchedulerQueueSize cfg) \<and> (sch_q s \<noteq> [] \<longrightarrow> sch_timer s \<noteq> None)
     \<and> (\<forall>(t, p) \<in> set (st_queued h). 0 \<le> t + pk_Delay p \<and> t + pk_Delay p < 2 ^ 63) \<and> (\<forall>p \<in> set arrived. pk_DispatchAt p = 0)
     \<and> (\<exists>ss ls ds. mset (map (\<lambda>(t, p). entry_at t p) (st_queued h)) = mset (sch_q s) + mset (map snd ss) + mset ls
          \<and> mset arrived = mset (map snd (st_queued h)) + mset ds \<and> mset (st_dropped h) = mset ds + mset (map Value ls)
          \<and> st_sent h = map handed ss \<and> list_all (in_time cfg) ss)"

text \<open>One event: what is queued, what is refused and what the full queue loses.\<close>

lemma take_event_ok:
  assumes i: "sched_inv cfg arrived s h" and e: "event_ok cfg e"
  shows "\<exists>s' queued ds ls. take_event cfg e s = Inr (s', queued, ds @ map Value ls) \<and> is_heap (sch_q s')
     \<and> sch_maxDelay s' \<le> absoluteMaxDelay cfg \<and> mset (sch_q s) + mset (map (\<lambda>(t, p). entry_at t p) queued) = mset (sch_q s') + mset ls
     \<and> mset (batch_of e) = mset (map snd queued) + mset ds
     \<and> (0 < SchedulerQueueSize cfg \<longrightarrow> int (length (sch_q s')) \<le> SchedulerQueueSize cfg)
     \<and> (\<forall>(t, p) \<in> set queued. 0 \<le> t + pk_Delay p \<and> t + pk_Delay p < 2 ^ 63) \<and> (\<forall>p \<in> set (batch_of e). pk_DispatchAt p = 0)"
proof (cases e)
  case (Batch b now valid)
  have h: "is_heap (sch_q s)" and md: "sch_maxDelay s \<le> absoluteMaxDelay cfg"
    and cap: "0 < SchedulerQueueSize cfg \<longrightarrow> int (length (sch_q s)) \<le> SchedulerQueueSize cfg" using i by (simp_all add: sched_inv_def)
  have ok: "0 \<le> now" "now + absoluteMaxDelay cfg < 2 ^ 63"
    "\<forall>p \<in> set (map fst b). pk_NextNodeHop p \<noteq> None \<and> 0 \<le> pk_Delay p \<and> pk_DispatchAt p = 0"
    using e Batch by (simp_all add: event_ok_def)
  obtain es ds where es: "sort_batch (sch_maxDelay s) valid (map fst b) = Inr (es, ds)" "mset (map fst b) = mset es + mset ds"
    "\<forall>p \<in> set es. pk_Delay p \<le> sch_maxDelay s" "length es \<le> length (map fst b)"
    using sort_batch_ok [of "map fst b" "sch_maxDelay s" valid] ok(3) by auto
  let ?z = "zip es (map snd b)"
  have z: "map (entry_at now \<circ> fst) ?z = map (entry_at now) es" using es(4) by (simp add: map_fst_zip_take flip: map_map)
  obtain q' ls where q': "BulkEnqueue (SchedulerQueueSize cfg) now ?z (sch_q s) = Inr (q', map Value ls)" "is_heap q'"
    "mset (sch_q s) + mset (map (entry_at now) es) = mset q' + mset ls"
    "0 < SchedulerQueueSize cfg \<longrightarrow> int (length q') \<le> SchedulerQueueSize cfg"
    using BulkEnqueue_ok [OF h, of "SchedulerQueueSize cfg" now ?z] cap unfolding z by blast
  have sub: "p \<in> set es \<Longrightarrow> p \<in> set (map fst b)" for p using es(2) by (metis UnCI set_mset_mset set_mset_union)
  have delays: "0 \<le> now + pk_Delay p \<and> now + pk_Delay p < 2 ^ 63" if "p \<in> set es" for p
    using ok sub [OF that] es(3) that md by fastforce
  have "take_event cfg e s = Inr (s\<lparr>sch_q := q'\<rparr>, map (\<lambda>p. (now, p)) es, ds @ map Value ls)"
    using Batch es(1) q'(1) by (simp add: take_event_def)
  moreover have "(\<lambda>(t, p). entry_at t p) \<circ> Pair now = entry_at now" "(snd \<circ> Pair now :: Packet \<Rightarrow> Packet) = id" by auto
  ultimately show ?thesis using q' es(2) ok(3) md delays Batch
    by (intro exI [of _ "s\<lparr>sch_q := q'\<rparr>"] exI [of _ "map (\<lambda>p. (now, p)) es"] exI [of _ ds] exI [of _ ls])
      (auto simp: batch_of_def)
next
  case (MaxDelay d)
  have "new_max_delay cfg d \<le> absoluteMaxDelay cfg" by (simp add: new_max_delay_def Let_def)
  with MaxDelay i show ?thesis
    by (intro exI [of _ "s\<lparr>sch_maxDelay := new_max_delay cfg d\<rparr>"] exI [of _ "[]"])
      (simp add: take_event_def batch_of_def sched_inv_def)
next
  case TimerFired
  with i show ?thesis by (intro exI [of _ s] exI [of _ "[]"]) (simp add: take_event_def batch_of_def sched_inv_def)
qed

lemma sched_step_inv:
  assumes i: "sched_inv cfg arrived s h" and e: "event_ok cfg e"
  shows "\<exists>s' h'. sched_step cfg e clk s = Inr (s', h') \<and> sched_inv cfg (arrived @ batch_of e) s' (then_turn h h')
     \<and> (st_sent h' \<noteq> [] \<longrightarrow> int (length (st_sent h')) \<le> SchedulerMaxBurst cfg)"
proof -
  obtain s1 queued ds ls where t: "take_event cfg e s = Inr (s1, queued, ds @ map Value ls)" "is_heap (sch_q s1)"
    "sch_maxDelay s1 \<le> absoluteMaxDelay cfg" "mset (sch_q s) + mset (map (\<lambda>(t, p). entry_at t p) queued) = mset (sch_q s1) + mset ls"
    "mset (batch_of e) = mset (map snd queued) + mset ds"
    "0 < SchedulerQueueSize cfg \<longrightarrow> int (length (sch_q s1)) \<le> SchedulerQueueSize cfg"
    "\<forall>(t, p) \<in> set queued. 0 \<le> t + pk_Delay p \<and> t + pk_Delay p < 2 ^ 63" "\<forall>p \<in> set (batch_of e). pk_DispatchAt p = 0"
    using take_event_ok [OF i e] by blast
  obtain q timer sent lost where d: "dispatch_loop cfg clk 0 (sch_q s1) = (q, timer, sent, lost)" by (metis prod_cases4)
  obtain ss' ls' where r: "is_heap q" "mset (sch_q s1) = mset q + mset (map snd ss') + mset ls'" "sent = map handed ss'" "lost = map Value ls'"
    "list_all (in_time cfg) ss'" "ss' @ map (Pair 0) ls' \<noteq> [] \<longrightarrow> int (length ss' + length ls') \<le> SchedulerMaxBurst cfg" "q \<noteq> [] \<longrightarrow> timer \<noteq> None"
    using dispatch_loop_ok [OF t(2), of cfg 0 clk] unfolding d loop_result_def by auto
  let ?s = "s1\<lparr>sch_q := q, sch_timer := timer\<rparr>" and ?h = "\<lparr>st_queued = queued, st_sent = sent, st_dropped = ds @ map Value ls @ lost\<rparr>"
  have step: "sched_step cfg e clk s = Inr (?s, ?h)" using t(1) d by (simp add: sched_step_def)
  obtain ss ls0 ds0 where old: "mset (map (\<lambda>(t, p). entry_at t p) (st_queued h)) = mset (sch_q s) + mset (map snd ss) + mset ls0"
    "mset arrived = mset (map snd (st_queued h)) + mset ds0" "mset (st_dropped h) = mset ds0 + mset (map Value ls0)"
    "st_sent h = map handed ss" "list_all (in_time cfg) ss" using i unfolding sched_inv_def by blast
  have l: "length q \<le> length (sch_q s1)" using arg_cong [OF r(2), of size] by simp
  have m1: "mset (map (\<lambda>(t, p). entry_at t p) (st_queued (then_turn h ?h))) = mset q + mset (map snd (ss @ ss')) + mset (ls0 @ ls @ ls')"
  proof -
    have "mset (map (\<lambda>(t, p). entry_at t p) (st_queued (then_turn h ?h)))
        = mset (map (\<lambda>(t, p). entry_at t p) (st_queued h)) + mset (map (\<lambda>(t, p). entry_at t p) queued)"
      by (simp add: then_turn_def)
    also have "\<dots> = (mset (sch_q s) + mset (map (\<lambda>(t, p). entry_at t p) queued)) + mset (map snd ss) + mset ls0"
      unfolding old(1) by (simp only: ac_simps)
    also have "\<dots> = mset q + mset (map snd (ss @ ss')) + mset (ls0 @ ls @ ls')"
      unfolding t(4) r(2) by (simp add: ac_simps)
    finally show ?thesis .
  qed
  have m2: "mset (arrived @ batch_of e) = mset (map snd (st_queued (then_turn h ?h))) + mset (ds0 @ ds)"
    using old(2) t(5) by (simp add: then_turn_def ac_simps)
  have m3: "mset (st_dropped (then_turn h ?h)) = mset (ds0 @ ds) + mset (map Value (ls0 @ ls @ ls'))"
    using old(3) r(4) by (simp add: then_turn_def ac_simps)
  have m4: "st_sent (then_turn h ?h) = map handed (ss @ ss')" "list_all (in_time cfg) (ss @ ss')"
    using old(4,5) r(3,5) by (simp_all add: then_turn_def)
  have "sched_inv cfg (arrived @ batch_of e) ?s (then_turn h ?h)"
    unfolding sched_inv_def
  proof (intro conjI)
    show "\<exists>ss ls ds. mset (map (\<lambda>(t, p). entry_at t p) (st_queued (then_turn h ?h))) = mset (sch_q ?s) + mset (map snd ss) + mset ls
        \<and> mset (arrived @ batch_of e) = mset (map snd (st_queued (then_turn h ?h))) + mset ds
        \<and> mset (st_dropped (then_turn h ?h)) = mset ds + mset (map Value ls)
        \<and> st_sent (then_turn h ?h) = map handed ss \<and> list_all (in_time cfg) ss"
      using m1 m2 m3 m4 by (intro exI [of _ "ss @ ss'"] exI [of _ "ls0 @ ls @ ls'"] exI [of _ "ds0 @ ds"] conjI) (simp only: scheduler.simps | simp)+
    show "0 < SchedulerQueueSize cfg \<longrightarrow> int (length (sch_q ?s)) \<le> SchedulerQueueSize cfg" using t(6) l by fastforce
    show "\<forall>(t, p) \<in> set (st_queued (then_turn h ?h)). 0 \<le> t + pk_Delay p \<and> t + pk_Delay p < 2 ^ 63"
      using i t(7) by (auto simp: sched_inv_def then_turn_def)
    show "\<forall>p \<in> set (arrived @ batch_of e). pk_DispatchAt p = 0" using i t(8) by (auto simp: sched_inv_def)
  qed (use r(1,7) t(3) in simp_all)
  moreover have "st_sent ?h \<noteq> [] \<longrightarrow> int (length (st_sent ?h)) \<le> SchedulerMaxBurst cfg" using r(3,6) by auto
  ultimately show ?thesis using step by blast
qed

lemma sched_reach_inv: "sched_reach cfg arrived s h \<Longrightarrow> sched_inv cfg arrived s h"
proof (induction rule: sched_reach.induct)
  case sched_start
  have "is_heap (queue_New :: Packet PriorityQueue)" by (rule pq.ok_emp)
  then show ?case by (simp add: sched_inv_def new_scheduler_def queue_New_def)
next
  case (sched_moves arrived s h e clk s' h')
  with sched_step_inv [OF sched_moves.IH sched_moves.hyps(2), of clk] show ?case by auto
qed

definition undispatched :: "Packet \<Rightarrow> Packet" where
  "undispatched p = p\<lparr>pk_DispatchAt := 0\<rparr>"

lemma entry_at_time:
  assumes "0 \<le> t + pk_Delay p" "t + pk_Delay p < 2 ^ 63"
  shows "int64 (uint (Priority (entry_at t p))) = t + pk_Delay p"
proof -
  have "uint (word_of_int (t + pk_Delay p) :: u64) = t + pk_Delay p"
    using assms by (simp only: uint_word_of_int_eq) (simp add: take_bit_int_eq_self)
  with assms show ?thesis by (simp add: entry_at_def int64_nonneg)
qed

lemma time_Sub_bound: "time_Sub t u \<le> d \<Longrightarrow> d < 2 ^ 63 - 1 \<Longrightarrow> t - u \<le> d"
  by (auto simp: time_Sub_def)

text \<open>
  C15. Every packet that reaches the scheduler is, exactly once, still in its queue, handed to the
  connector or dropped. What is handed on was queued before, has waited for its whole delay,
  and at most the slack longer; and no batch makes the scheduler panic.
\<close>

theorem scheduler_exact:
  assumes r: "sched_reach cfg arrived s h" and slack: "SchedulerSlack cfg * Millisecond < 2 ^ 63 - 1"
  shows "mset arrived = mset (map Value (sch_q s)) + mset (map (undispatched \<circ> snd) (st_sent h)) + mset (st_dropped h)
     \<and> (\<forall>(t, p) \<in> set (st_sent h). pk_DispatchAt p = t \<and> (\<exists>t0. (t0, undispatched p) \<in> set (st_queued h)
          \<and> t0 + pk_Delay p \<le> t \<and> t \<le> t0 + pk_Delay p + SchedulerSlack cfg * Millisecond))
     \<and> (\<forall>e clk. event_ok cfg e \<longrightarrow> sched_step cfg e clk s \<noteq> Inl Panic)"
proof -
  have i: "sched_inv cfg arrived s h" using sched_reach_inv [OF r] .
  then obtain ss ls ds where m: "mset (map (\<lambda>(t, p). entry_at t p) (st_queued h)) = mset (sch_q s) + mset (map snd ss) + mset ls"
    "mset arrived = mset (map snd (st_queued h)) + mset ds" "mset (st_dropped h) = mset ds + mset (map Value ls)"
    "st_sent h = map handed ss" "list_all (in_time cfg) ss" unfolding sched_inv_def by blast
  have queued: "(t0, p0) \<in> set (st_queued h) \<Longrightarrow> pk_DispatchAt p0 = 0 \<and> 0 \<le> t0 + pk_Delay p0 \<and> t0 + pk_Delay p0 < 2 ^ 63" for t0 p0
  proof -
    assume q: "(t0, p0) \<in> set (st_queued h)"
    then have "p0 \<in># mset arrived" unfolding m(2) by force
    with i q show ?thesis by (auto simp: sched_inv_def)
  qed
  have sent: "\<exists>t0 p0. (t0, p0) \<in> set (st_queued h) \<and> e = entry_at t0 p0" if "(t, e) \<in> set ss" for t e
  proof -
    have "e \<in># mset (map (\<lambda>(t, p). entry_at t p) (st_queued h))" unfolding m(1) using that by force
    then show ?thesis by auto
  qed
  have "mset (map Value (map (\<lambda>(t, p). entry_at t p) (st_queued h))) = mset (map Value (sch_q s)) + mset (map (Value \<circ> snd) ss) + mset (map Value ls)"
    using arg_cong [OF m(1), of "image_mset Value"] by (simp add: image_mset.compositionality)
  moreover have "Value \<circ> (\<lambda>(t, p). entry_at t p) = snd" by (auto simp: entry_at_def)
  moreover have "map (Value \<circ> snd) ss = map (undispatched \<circ> snd) (st_sent h)"
  proof -
    have "(Value \<circ> snd) x = (undispatched \<circ> snd \<circ> handed) x" if x: "x \<in> set ss" for x
    proof -
      obtain t e where te: "x = (t, e)" by (cases x)
      with sent [of t e] x obtain t0 p0 where "(t0, p0) \<in> set (st_queued h)" "e = entry_at t0 p0" by blast
      with queued [of t0 p0] te show ?thesis by (simp add: undispatched_def handed_def entry_at_def)
    qed
    then show ?thesis unfolding m(4) by (simp only: map_map) (rule map_cong [OF refl], auto)
  qed
  ultimately have "mset (map snd (st_queued h)) = mset (map Value (sch_q s)) + mset (map (undispatched \<circ> snd) (st_sent h)) + mset (map Value ls)"
    by simp
  then have conserved: "mset arrived = mset (map Value (sch_q s)) + mset (map (undispatched \<circ> snd) (st_sent h)) + mset (st_dropped h)"
    unfolding m(2,3) by (simp only: ac_simps)
  have timely: "pk_DispatchAt p = t \<and> (\<exists>t0. (t0, undispatched p) \<in> set (st_queued h)
          \<and> t0 + pk_Delay p \<le> t \<and> t \<le> t0 + pk_Delay p + SchedulerSlack cfg * Millisecond)" if tp: "(t, p) \<in> set (st_sent h)" for t p
  proof -
    obtain e where e: "(t, e) \<in> set ss" "p = (Value e)\<lparr>pk_DispatchAt := t\<rparr>" using tp unfolding m(4) by (auto simp: handed_def)
    with sent obtain t0 p0 where q: "(t0, p0) \<in> set (st_queued h)" "e = entry_at t0 p0" by blast
    note p0 = queued [OF q(1)]
    then have at: "int64 (uint (Priority e)) = t0 + pk_Delay p0" using entry_at_time q(2) by simp
    have p: "p = p0\<lparr>pk_DispatchAt := t\<rparr>" using e(2) q(2) by (simp add: entry_at_def)
    have "in_time cfg (t, e)" using m(5) e(1) by (auto simp: list_all_iff)
    then have "t0 + pk_Delay p0 \<le> t \<and> time_Sub t (t0 + pk_Delay p0) \<le> SchedulerSlack cfg * Millisecond" by (simp add: in_time_def at)
    with time_Sub_bound [OF _ slack] have "t0 + pk_Delay p0 \<le> t \<and> t - (t0 + pk_Delay p0) \<le> SchedulerSlack cfg * Millisecond" by blast
    moreover have "undispatched p = p0" using p p0 by (simp add: undispatched_def)
    ultimately show ?thesis using q(1) p by auto
  qed
  have "sched_step cfg e clk s \<noteq> Inl Panic" if "event_ok cfg e" for e clk
    using sched_step_inv [OF i that, of clk] by auto
  with conserved timely show ?thesis by blast
qed

section \<open>Bounds\<close>

lemma scheduler_bounded:
  assumes "sched_reach cfg arrived s h"
  shows "(0 < SchedulerQueueSize cfg \<longrightarrow> int (length (sch_q s)) \<le> SchedulerQueueSize cfg) \<and> (sch_q s \<noteq> [] \<longrightarrow> sch_timer s \<noteq> None)"
  using sched_reach_inv [OF assms] by (simp add: sched_inv_def)

text \<open>A document may ask for so long a delay that the product of the durations is negative: then every packet is dropped.\<close>

lemma max_delay_wraps:
  assumes "0 \<le> absoluteMaxDelay cfg"
  shows "new_max_delay cfg 9223372036855 < 0"
  using assms by (simp add: new_max_delay_def duration_times_def Duration_def Millisecond_def int64_def Let_def)

lemma negative_max_delay_drops:
  "maxDelay < 0 \<Longrightarrow> \<forall>p \<in> set batch. 0 \<le> pk_Delay p \<Longrightarrow> sort_batch maxDelay valid batch = Inr ([], batch)"
  by (induction batch) auto

section \<open>A run for the witness\<close>

definition demo_sched_config :: sched_config where
  "demo_sched_config = \<lparr>SchedulerSlack = 150, SchedulerMaxBurst = 16, SchedulerQueueSize = 2, sc_Period = Period_default\<rparr>"

definition demo_forward :: "u64 \<Rightarrow> int \<Rightarrow> Packet" where
  "demo_forward n delay = cleared_packet\<lparr>pk_ID := n, pk_NextNodeHop := Some (replicate 32 1, replicate 32 2), pk_NodeDelay := Some 0, pk_Delay := delay\<rparr>"

text \<open>Three packets arrive, one too many for the queue; later the timer ticks.\<close>

definition demo_batch :: sched_event where
  "demo_batch = Batch [(demo_forward 1 5000000, 0), (demo_forward 2 20000000, 0), (demo_forward 3 6000000, 1)] 1000 (\<lambda>_. True)"

definition demo_first :: scheduler where
  "demo_first = \<lparr>sch_q = [\<lparr>Value = demo_forward 1 5000000, Priority = 5001000\<rparr>, \<lparr>Value = demo_forward 3 6000000, Priority = 6001000\<rparr>],
     sch_maxDelay = absoluteMaxDelay demo_sched_config, sch_timer = Some 5001000\<rparr>"

definition demo_second :: scheduler where
  "demo_second = \<lparr>sch_q = [\<lparr>Value = demo_forward 3 6000000, Priority = 6001000\<rparr>],
     sch_maxDelay = absoluteMaxDelay demo_sched_config, sch_timer = Some 6001000\<rparr>"

lemma demo_batch_step:
  "sched_step demo_sched_config demo_batch (\<lambda>_. 1000) (new_scheduler demo_sched_config)
     = Inr (demo_first, \<lparr>st_queued = [(1000, demo_forward 1 5000000), (1000, demo_forward 2 20000000), (1000, demo_forward 3 6000000)],
         st_sent = [], st_dropped = [demo_forward 2 20000000]\<rparr>)"
  by code_simp

lemma demo_tick_step:
  "sched_step demo_sched_config TimerFired (\<lambda>_. 5002000) demo_first
     = Inr (demo_second, \<lparr>st_queued = [], st_sent = [(5002000, (demo_forward 1 5000000)\<lparr>pk_DispatchAt := 5002000\<rparr>)], st_dropped = []\<rparr>)"
  by code_simp

lemma scheduler_exact_witness:
  "\<exists>h. sched_reach demo_sched_config (batch_of demo_batch) demo_second h \<and> (5002000, (demo_forward 1 5000000)\<lparr>pk_DispatchAt := 5002000\<rparr>) \<in> set (st_sent h)
     \<and> (\<exists>t0. (t0, demo_forward 1 5000000) \<in> set (st_queued h) \<and> t0 + 5000000 \<le> 5002000)"
proof -
  have ok: "event_ok demo_sched_config demo_batch" "event_ok demo_sched_config TimerFired" by code_simp+
  note r1 = sched_moves [OF sched_start ok(1) demo_batch_step]
  note r2 = sched_moves [OF r1 ok(2) demo_tick_step]
  let ?h = "then_turn (then_turn \<lparr>st_queued = [], st_sent = [], st_dropped = []\<rparr>
      \<lparr>st_queued = [(1000, demo_forward 1 5000000), (1000, demo_forward 2 20000000), (1000, demo_forward 3 6000000)],
         st_sent = [], st_dropped = [demo_forward 2 20000000]\<rparr>)
      \<lparr>st_queued = [], st_sent = [(5002000, (demo_forward 1 5000000)\<lparr>pk_DispatchAt := 5002000\<rparr>)], st_dropped = []\<rparr>"
  have r: "sched_reach demo_sched_config (batch_of demo_batch) demo_second ?h" using r2 by (simp add: batch_of_def)
  have "SchedulerSlack demo_sched_config * Millisecond < 2 ^ 63 - 1" by (simp add: demo_sched_config_def Millisecond_def)
  note e = scheduler_exact [OF r this]
  have s: "(5002000, (demo_forward 1 5000000)\<lparr>pk_DispatchAt := 5002000\<rparr>) \<in> set (st_sent ?h)" by (simp add: then_turn_def)
  have "undispatched ((demo_forward 1 5000000)\<lparr>pk_DispatchAt := 5002000\<rparr>) = demo_forward 1 5000000"
    "pk_Delay ((demo_forward 1 5000000)\<lparr>pk_DispatchAt := 5002000\<rparr>) = 5000000" by (simp_all add: undispatched_def demo_forward_def cleared_packet_def)
  with e s have "\<exists>t0. (t0, demo_forward 1 5000000) \<in> set (st_queued ?h) \<and> t0 + 5000000 \<le> 5002000" by fastforce
  with r s show ?thesis by blast
qed

end
