(* ===== verification/MixKeyProps.thy ===== *)
theory MixKeyProps
  imports MixKeys
begin

text \<open>
  The reference counts of the mix keys: in every state that the server's table and its workers
  reach, a key is counted once for each table that holds it, so that no count goes below zero and
  no key is closed while somebody holds it.
\<close>

definition refs :: "key_table \<Rightarrow> nat \<Rightarrow> nat" where
  "refs t a = count_list (map snd t) a"

definition held_by :: "key_table \<Rightarrow> key_table list \<Rightarrow> nat \<Rightarrow> nat" where
  "held_by t ws a = refs t a + (\<Sum>u \<leftarrow> ws. refs u a)"

definition holders :: "('pub, 'priv, 'f) mix_keys \<Rightarrow> nat \<Rightarrow> nat" where
  "holders m = held_by (mixKeys m) (worker_keys m)"

definition key_pairs :: "('pub, 'priv, 'f) MixKey \<Rightarrow> ('pub \<times> 'priv) option \<times> ('pub \<times> 'priv) option" where
  "key_pairs k = (mk_nike k, mk_kem k)"

definition counted :: "('pub, 'priv, 'f) mix_keys \<Rightarrow> bool" where
  "counted m \<longleftrightarrow> (\<forall>a. case key_store m a of None \<Rightarrow> holders m a = 0 | Some k \<Rightarrow> mk_refCount k = int (holders m a))
     \<and> (\<forall>a \<ge> key_next m. key_store m a = None)"

lemma refs_simps [simp]:
  "refs [] a = 0" "refs (x # t) a = (if snd x = a then Suc (refs t a) else refs t a)" "refs (t @ u) a = refs t a + refs u a"
  by (simp_all add: refs_def)

lemma refs_filter: "refs t a = refs (filter P t) a + refs (filter (\<lambda>x. \<not> P x) t) a"
  by (induction t) auto

lemma refs_pos: "0 < refs t a \<longleftrightarrow> a \<in> snd ` set t"
  by (auto simp: refs_def count_list_0_iff neq0_conv [symmetric] simp del: neq0_conv)

section \<open>Many keys at once\<close>

text \<open>\<open>f\<close> changes counts by \<open>d\<close> and leaves the key pairs of keys that keep a holder.\<close>

definition counts_by :: "int \<Rightarrow> ('pub, 'priv, 'f) MixKey \<Rightarrow> nat \<Rightarrow> ('pub, 'priv, 'f) MixKey \<Rightarrow> bool" where
  "counts_by d k n k' \<longleftrightarrow> mk_refCount k' = mk_refCount k + d * int n \<and> mk_epoch k' = mk_epoch k \<and> mk_f k' = mk_f k
     \<and> (0 < mk_refCount k' \<longrightarrow> key_pairs k' = key_pairs k)"

definition store_counts :: "int \<Rightarrow> (nat \<rightharpoonup> ('pub, 'priv, 'f) MixKey) \<Rightarrow> (nat \<Rightarrow> nat) \<Rightarrow> (nat \<rightharpoonup> ('pub, 'priv, 'f) MixKey) \<Rightarrow> bool" where
  "store_counts d st c st' \<longleftrightarrow> (\<forall>a. case st a of None \<Rightarrow> st' a = None | Some k \<Rightarrow> \<exists>k'. st' a = Some k' \<and> counts_by d k (c a) k')"

lemma store_counts_refl: "store_counts d st (\<lambda>_. 0) st"
  by (simp add: store_counts_def counts_by_def split: option.split)

lemma store_counts_Some: "store_counts d st c st' \<Longrightarrow> st a = Some k \<Longrightarrow> \<exists>k'. st' a = Some k' \<and> counts_by d k (c a) k'"
  by (auto simp: store_counts_def dest: spec [of _ a])

lemma store_counts_None: "store_counts d st c st' \<Longrightarrow> st a = None \<Longrightarrow> st' a = None"
  by (auto simp: store_counts_def dest: spec [of _ a])

lemma Deref_counts: "1 \<le> mk_refCount k \<Longrightarrow> \<exists>k'. Deref E k = Inr k' \<and> counts_by (-1) k 1 k'"
  by (auto simp: Deref_def Let_def counts_by_def forceClose_def key_pairs_def)

lemma Ref_counts: "1 \<le> mk_refCount k \<Longrightarrow> \<exists>k'. Ref k = Inr k' \<and> counts_by 1 k 1 k'"
  by (auto simp: Ref_def Let_def counts_by_def key_pairs_def)

text \<open>One address after the other; \<open>f\<close> is \<open>Deref\<close> or \<open>Ref\<close>.\<close>

lemma at_keys_counts:
  assumes f: "\<And>k. 1 \<le> mk_refCount k \<Longrightarrow> \<exists>k'. f k = Inr k' \<and> counts_by d k 1 k'" and d: "d = 1 \<or> d = -1"
  shows "\<forall>a \<in> set as. \<exists>k. key_store m a = Some k \<and> (if d = 1 then 1 else int (count_list as a)) \<le> mk_refCount k
    \<Longrightarrow> \<exists>st. at_keys as f m = Inr (m\<lparr>key_store := st\<rparr>) \<and> store_counts d (key_store m) (count_list as) st"
proof (induction as arbitrary: m)
  case Nil
  have "count_list ([] :: nat list) = (\<lambda>_. 0)" by auto
  then show ?case using store_counts_refl [of d "key_store m"] by (intro exI [of _ "key_store m"]) simp
next
  case (Cons a as)
  have "\<exists>k. key_store m a = Some k \<and> (if d = 1 then 1 else int (count_list (a # as) a)) \<le> mk_refCount k"
    using Cons.prems by (metis list.set_intros(1))
  then obtain k where k: "key_store m a = Some k" "(if d = 1 then 1 else 1 + int (count_list as a)) \<le> mk_refCount k"
    by (auto split: if_splits)
  then obtain k' where k': "f k = Inr k'" "counts_by d k 1 k'" using f [of k] by (fastforce split: if_splits)
  let ?m = "m\<lparr>key_store := (key_store m)(a \<mapsto> k')\<rparr>"
  have "\<forall>b \<in> set as. \<exists>k. key_store ?m b = Some k \<and> (if d = 1 then 1 else int (count_list as b)) \<le> mk_refCount k"
  proof
    fix b assume b: "b \<in> set as"
    show "\<exists>k. key_store ?m b = Some k \<and> (if d = 1 then 1 else int (count_list as b)) \<le> mk_refCount k"
    proof (cases "b = a")
      case True
      then show ?thesis using k k' d by (auto simp: counts_by_def split: if_splits)
    next
      case False
      then show ?thesis using Cons.prems b by (metis (no_types, lifting) count_list.simps(2) fun_upd_other list.set_intros(2) mix_keys.select_convs(1) mix_keys.surjective mix_keys.update_convs(1))
    qed
  qed
  from Cons.IH [OF this] obtain st where st: "at_keys as f ?m = Inr (?m\<lparr>key_store := st\<rparr>)"
      "store_counts d (key_store ?m) (count_list as) st" by blast
  have "at_keys (a # as) f m = Inr (m\<lparr>key_store := st\<rparr>)" using st k k' by (simp add: at_key_def)
  moreover have "store_counts d (key_store m) (count_list (a # as)) st"
    unfolding store_counts_def
  proof
    fix b
    have sb: "case key_store ?m b of None \<Rightarrow> st b = None | Some k \<Rightarrow> \<exists>k'. st b = Some k' \<and> counts_by d k (count_list as b) k'"
      using st(2) by (simp add: store_counts_def)
    show "case key_store m b of None \<Rightarrow> st b = None | Some k \<Rightarrow> \<exists>k'. st b = Some k' \<and> counts_by d k (count_list (a # as) b) k'"
    proof (cases "b = a")
      case True
      with sb obtain k2 where k2: "st b = Some k2" "counts_by d k' (count_list as a) k2" by auto
      have "counts_by d k (Suc (count_list as a)) k2"
      proof -
        have "0 < mk_refCount k2 \<Longrightarrow> 0 < mk_refCount k'"
          using k k' k2 d by (auto simp: counts_by_def)
        with k2 k' show ?thesis by (auto simp: counts_by_def algebra_simps)
      qed
      with True k k2 show ?thesis by simp
    next
      case False
      with sb show ?thesis by (auto split: option.splits)
    qed
  qed
  ultimately show ?case by blast
qed

lemma at_keys_Deref:
  "\<forall>a \<in> set as. \<exists>k. key_store m a = Some k \<and> int (count_list as a) \<le> mk_refCount k
    \<Longrightarrow> \<exists>st. at_keys as (Deref E) m = Inr (m\<lparr>key_store := st\<rparr>) \<and> store_counts (-1) (key_store m) (count_list as) st"
  using at_keys_counts [of "Deref E" "-1" as m] Deref_counts [of _ E] by simp

lemma at_keys_Ref:
  "\<forall>a \<in> set as. \<exists>k. key_store m a = Some k \<and> 1 \<le> mk_refCount k
    \<Longrightarrow> \<exists>st. at_keys as Ref m = Inr (m\<lparr>key_store := st\<rparr>) \<and> store_counts 1 (key_store m) (count_list as) st"
  using at_keys_counts [of Ref 1 as m, OF Ref_counts] by simp

section \<open>What a step does to the counts\<close>

text \<open>A key that is held after a step has the key pair it had before.\<close>

definition same_pairs :: "('pub, 'priv, 'f) mix_keys \<Rightarrow> ('pub, 'priv, 'f) mix_keys \<Rightarrow> bool" where
  "same_pairs m m' \<longleftrightarrow> (\<forall>a k. key_store m a = Some k \<longrightarrow> 0 < holders m' a
     \<longrightarrow> (\<exists>k'. key_store m' a = Some k' \<and> key_pairs k' = key_pairs k \<and> mk_epoch k' = mk_epoch k))"

definition keeps_counts :: "('pub, 'priv, 'f) mix_keys \<Rightarrow> ('pub, 'priv, 'f) mix_keys \<Rightarrow> bool" where
  "keeps_counts m m' \<longleftrightarrow> counted m' \<and> same_pairs m m'"

lemma counted_at: "counted m \<Longrightarrow> 0 < holders m a \<Longrightarrow> \<exists>k. key_store m a = Some k \<and> mk_refCount k = int (holders m a)"
  by (cases "key_store m a") (auto simp: counted_def dest: spec [of _ a])

lemma counted_None: "counted m \<Longrightarrow> key_store m a = None \<Longrightarrow> holders m a = 0"
  by (auto simp: counted_def dest: spec [of _ a])

lemma counted_Some: "counted m \<Longrightarrow> key_store m a = Some k \<Longrightarrow> mk_refCount k = int (holders m a)"
  by (auto simp: counted_def dest: spec [of _ a])

lemma keeps_counts_stored:
  assumes m: "counted m" and st: "store_counts d (key_store m) c st" and new: "\<And>a. key_store m a = None \<Longrightarrow> c a = 0"
    and h: "\<And>a. int (held_by t ws a) = int (holders m a) + d * int (c a)"
  shows "keeps_counts m (m\<lparr>key_store := st, mixKeys := t, worker_keys := ws\<rparr>)"
proof -
  let ?m = "m\<lparr>key_store := st, mixKeys := t, worker_keys := ws\<rparr>"
  have hm: "holders ?m = held_by t ws" by (simp add: holders_def)
  have at: "case st a of None \<Rightarrow> held_by t ws a = 0 | Some k \<Rightarrow> mk_refCount k = int (held_by t ws a)" for a
  proof (cases "key_store m a")
    case None
    then show ?thesis using store_counts_None [OF st] new h [of a] counted_None [OF m] by simp
  next
    case (Some k)
    then obtain k' where "st a = Some k'" "counts_by d k (c a) k'" using store_counts_Some [OF st] by blast
    then show ?thesis using counted_Some [OF m Some] h [of a] by (simp add: counts_by_def)
  qed
  have beyond: "st a = None" if "key_next m \<le> a" for a
  proof -
    have "key_store m a = None" using m that by (simp add: counted_def)
    then show ?thesis by (rule store_counts_None [OF st])
  qed
  have "counted ?m" unfolding counted_def hm by (simp add: at beyond)
  moreover have "same_pairs m ?m"
    unfolding same_pairs_def hm
  proof (intro allI impI)
    fix a k assume a: "key_store m a = Some k" "0 < held_by t ws a"
    then obtain k' where k': "st a = Some k'" "counts_by d k (c a) k'" using store_counts_Some [OF st] by blast
    with at [of a] a have "0 < mk_refCount k'" by simp
    with k' show "\<exists>k'. key_store ?m a = Some k' \<and> key_pairs k' = key_pairs k \<and> mk_epoch k' = mk_epoch k"
      by (simp add: counts_by_def)
  qed
  ultimately show ?thesis by (simp add: keeps_counts_def)
qed

lemma derefs_ok:
  assumes m: "counted m" and h: "\<And>a. held_by t ws a + count_list as a = holders m a"
  shows "\<exists>st. at_keys as (Deref E) m = Inr (m\<lparr>key_store := st\<rparr>) \<and> keeps_counts m (m\<lparr>key_store := st, mixKeys := t, worker_keys := ws\<rparr>)"
proof -
  have "\<exists>k. key_store m a = Some k \<and> int (count_list as a) \<le> mk_refCount k" if "a \<in> set as" for a
  proof -
    have "0 < count_list as a" using that count_list_0_iff [of as a] by simp
    then have "0 < holders m a" using h [of a] by linarith
    from counted_at [OF m this] h [of a] show ?thesis by force
  qed
  then obtain st where st: "at_keys as (Deref E) m = Inr (m\<lparr>key_store := st\<rparr>)" "store_counts (-1) (key_store m) (count_list as) st"
    using at_keys_Deref [of as m E] by blast
  have "count_list as a = 0" if "key_store m a = None" for a
    using counted_None [OF m that] h [of a] by linarith
  moreover have "int (held_by t ws a) = int (holders m a) + - 1 * int (count_list as a)" for a using h [of a] by linarith
  ultimately show ?thesis using st keeps_counts_stored [OF m st(2)] by blast
qed

lemma refs_ok:
  assumes m: "counted m" and h: "\<And>a. held_by t ws a = holders m a + count_list as a" and as: "\<And>a. a \<in> set as \<Longrightarrow> 0 < holders m a"
  shows "\<exists>st. at_keys as Ref m = Inr (m\<lparr>key_store := st\<rparr>) \<and> keeps_counts m (m\<lparr>key_store := st, mixKeys := t, worker_keys := ws\<rparr>)"
proof -
  have "\<exists>k. key_store m a = Some k \<and> 1 \<le> mk_refCount k" if "a \<in> set as" for a
    using counted_at [OF m as [OF that]] as [OF that] by force
  then obtain st where st: "at_keys as Ref m = Inr (m\<lparr>key_store := st\<rparr>)" "store_counts 1 (key_store m) (count_list as) st"
    using at_keys_Ref [of as m] by blast
  have "count_list as a = 0" if "key_store m a = None" for a
    using counted_None [OF m that] as [of a] by (metis count_notin less_numeral_extra(3))
  moreover have "int (held_by t ws a) = int (holders m a) + 1 * int (count_list as a)" for a using h [of a] by simp
  ultimately show ?thesis using st keeps_counts_stored [OF m st(2)] by blast
qed

lemma keeps_counts_trans:
  assumes "keeps_counts m m1" "keeps_counts m1 m2" and "\<And>a. key_store m a \<noteq> None \<Longrightarrow> 0 < holders m2 a \<Longrightarrow> 0 < holders m1 a"
  shows "keeps_counts m m2"
  using assms unfolding keeps_counts_def same_pairs_def by (metis option.distinct(1))

lemma sum_tables_update: "w < length ws \<Longrightarrow> (\<Sum>u \<leftarrow> ws[w := t]. refs u a) + refs (ws ! w) a = (\<Sum>u \<leftarrow> ws. refs u a) + refs t a"
  by (induction ws arbitrary: w) (auto split: nat.splits simp: nth_Cons)

lemma count_map_snd: "count_list (map snd t) a = refs t a"
  by (simp add: refs_def)

lemma Prune_ok:
  assumes m: "counted m"
  shows "\<exists>did m'. Prune E epoch m = Inr (did, m') \<and> keeps_counts m m'"
proof -
  let ?old = "\<lambda>(e, a). e < epoch - 1"
  have "held_by (filter (\<lambda>x. \<not> ?old x) (mixKeys m)) (worker_keys m) a + count_list (map snd (filter ?old (mixKeys m))) a = holders m a" for a
    using refs_filter [of "mixKeys m" a ?old] by (simp add: holders_def held_by_def count_map_snd)
  from derefs_ok [OF m this, of E] obtain st where st:
    "at_keys (map snd (filter ?old (mixKeys m))) (Deref E) m = Inr (m\<lparr>key_store := st\<rparr>)"
    "keeps_counts m (m\<lparr>key_store := st, mixKeys := filter (\<lambda>x. \<not> ?old x) (mixKeys m), worker_keys := worker_keys m\<rparr>)" by blast
  then show ?thesis by (simp add: Prune_def Let_def case_prod_unfold)
qed

lemma Halt_ok:
  assumes m: "counted m"
  shows "\<exists>m'. mixkeys_Halt E m = Inr m' \<and> keeps_counts m m'"
proof -
  have "held_by [] (worker_keys m) a + count_list (map snd (mixKeys m)) a = holders m a" for a
    by (simp add: holders_def held_by_def count_map_snd)
  from derefs_ok [OF m this, of E] show ?thesis by (auto simp: mixkeys_Halt_def)
qed

lemma derefKeys_ok:
  assumes m: "counted m" and w: "w < length (worker_keys m)"
  shows "\<exists>m'. derefKeys E w m = Inr m' \<and> keeps_counts m m'"
proof -
  have "held_by (mixKeys m) ((worker_keys m)[w := []]) a + count_list (map snd (worker_keys m ! w)) a = holders m a" for a
    using sum_tables_update [OF w, of a "[]"] by (simp add: holders_def held_by_def count_map_snd)
  from derefs_ok [OF m this, of E] show ?thesis by (auto simp: derefKeys_def)
qed

lemma at_keys_tables:
  "at_keys as f (m\<lparr>worker_keys := x\<rparr>) = (case at_keys as f m of Inl e \<Rightarrow> Inl e | Inr m' \<Rightarrow> Inr (m'\<lparr>worker_keys := x\<rparr>))"
proof (induction as arbitrary: m)
  case (Cons a as)
  have swap: "m\<lparr>worker_keys := x, key_store := y\<rparr> = m\<lparr>key_store := y\<rparr>\<lparr>worker_keys := x\<rparr>" for y by simp
  show ?case
    by (auto simp: at_key_def go_bind_def deref_def swap Cons.IH split: option.splits sum.splits)
qed simp

lemma mem_holders: "(e, a) \<in> set (mixKeys m) \<Longrightarrow> 0 < holders m a"
  using refs_pos [of "mixKeys m" a] by (force simp: holders_def held_by_def)

lemma Shadow_ok:
  assumes m: "counted m" and w: "w < length (worker_keys m)"
  shows "\<exists>m'. Shadow E w m = Inr m' \<and> keeps_counts m m'"
proof -
  let ?dst = "worker_keys m ! w"
  let ?k = "\<lambda>(e, a). map_of (mixKeys m) e \<noteq> None"
  let ?gone = "filter (\<lambda>(e, a). map_of (mixKeys m) e = None) ?dst" and ?kept = "filter ?k ?dst"
  let ?fresh = "filter (\<lambda>(e, a). map_of ?kept e = None) (mixKeys m)"
  have gone: "?gone = filter (\<lambda>x. \<not> ?k x) ?dst" by (rule filter_cong) auto
  have "held_by (mixKeys m) ((worker_keys m)[w := ?kept]) a + count_list (map snd ?gone) a = holders m a" for a
    using sum_tables_update [OF w, of a ?kept] refs_filter [of ?dst a ?k] unfolding gone
    by (simp add: holders_def held_by_def count_map_snd)
  from derefs_ok [OF m this, of E] obtain st where st: "at_keys (map snd ?gone) (Deref E) m = Inr (m\<lparr>key_store := st\<rparr>)"
    "keeps_counts m (m\<lparr>key_store := st, worker_keys := (worker_keys m)[w := ?kept]\<rparr>)" by auto
  let ?m1 = "m\<lparr>key_store := st, worker_keys := (worker_keys m)[w := ?kept]\<rparr>"
  have c1: "counted ?m1" using st by (simp add: keeps_counts_def)
  have "held_by (mixKeys m) ((worker_keys m)[w := ?kept @ ?fresh]) a = holders ?m1 a + count_list (map snd ?fresh) a" for a
    using sum_tables_update [OF w, of a ?kept] sum_tables_update [OF w, of a "?kept @ ?fresh"]
    by (simp add: holders_def held_by_def count_map_snd)
  moreover have "0 < holders ?m1 a" if "a \<in> set (map snd ?fresh)" for a
    using that mem_holders [of _ a ?m1] by auto
  ultimately obtain st2 where st2: "at_keys (map snd ?fresh) Ref ?m1 = Inr (?m1\<lparr>key_store := st2\<rparr>)"
    "keeps_counts ?m1 (?m1\<lparr>key_store := st2, mixKeys := mixKeys m, worker_keys := (worker_keys m)[w := ?kept @ ?fresh]\<rparr>)"
    using refs_ok [OF c1, of "mixKeys m" "(worker_keys m)[w := ?kept @ ?fresh]" "map snd ?fresh"] by blast
  have e2: "at_keys (map snd ?fresh) Ref (m\<lparr>key_store := st\<rparr>) = Inr (m\<lparr>key_store := st2\<rparr>)"
  proof -
    have "m\<lparr>key_store := st\<rparr> = ?m1\<lparr>worker_keys := worker_keys m\<rparr>" by simp
    then show ?thesis using st2(1) at_keys_tables [of "map snd ?fresh" Ref "worker_keys m" ?m1] by simp
  qed
  let ?m2 = "m\<lparr>key_store := st2, worker_keys := (worker_keys m)[w := ?kept @ ?fresh]\<rparr>"
  have m2: "?m1\<lparr>key_store := st2, mixKeys := mixKeys m, worker_keys := (worker_keys m)[w := ?kept @ ?fresh]\<rparr> = ?m2" by simp
  have "Shadow E w m = Inr ?m2" using st(1) e2 by (simp add: Shadow_def Let_def)
  moreover have "keeps_counts m ?m2"
  proof (rule keeps_counts_trans)
    show "keeps_counts m ?m1" by (rule st(2))
    show "keeps_counts ?m1 ?m2" using st2(2) unfolding m2 .
    fix a assume a: "0 < holders ?m2 a"
    show "0 < holders ?m1 a"
    proof (cases "a \<in> set (map snd ?fresh)")
      case True
      then show ?thesis using mem_holders [of _ a ?m1] by auto
    next
      case False
      then have "refs ?fresh a = 0" by (simp add: refs_def count_notin)
      then have "holders ?m2 a = holders ?m1 a"
        using sum_tables_update [OF w, of a ?kept] sum_tables_update [OF w, of a "?kept @ ?fresh"] by (simp add: holders_def held_by_def)
      with a show ?thesis by simp
    qed
  qed
  ultimately show ?thesis by blast
qed

lemma worker_New_ok:
  assumes m: "counted m"
  shows "\<exists>m'. worker_New E m = Inr m' \<and> keeps_counts m m'"
proof -
  let ?m = "m\<lparr>worker_keys := worker_keys m @ [[]]\<rparr>"
  have h: "holders ?m = holders m" by (simp add: holders_def held_by_def fun_eq_iff)
  have "counted ?m" using m unfolding counted_def h by simp
  from Shadow_ok [OF this, of "length (worker_keys m)" E] obtain m' where "worker_New E m = Inr m'" "keeps_counts ?m m'"
    by (auto simp: worker_New_def)
  then show ?thesis by (auto simp: keeps_counts_def same_pairs_def)
qed

lemma generate_cleanup_ok:
  assumes m: "counted m"
  shows "\<exists>m'. generate_cleanup E es m = Inr m' \<and> keeps_counts m m' \<and> (\<forall>a. holders m' a \<le> holders m a)"
proof -
  let ?in = "\<lambda>(e, a). e \<in> set es"
  have h: "held_by (filter (\<lambda>x. \<not> ?in x) (mixKeys m)) (worker_keys m) a + count_list (map snd (filter ?in (mixKeys m))) a = holders m a" for a
    using refs_filter [of "mixKeys m" a ?in] by (simp add: holders_def held_by_def count_map_snd)
  from derefs_ok [OF m this, of E] obtain st where st:
    "at_keys (map snd (filter ?in (mixKeys m))) (Deref E) m = Inr (m\<lparr>key_store := st\<rparr>)"
    "keeps_counts m (m\<lparr>key_store := st, mixKeys := filter (\<lambda>x. \<not> ?in x) (mixKeys m), worker_keys := worker_keys m\<rparr>)" by blast
  let ?m = "m\<lparr>key_store := st, mixKeys := filter (\<lambda>x. \<not> ?in x) (mixKeys m)\<rparr>"
  have "holders ?m a \<le> holders m a" for a using h [of a] by (simp add: holders_def)
  with st show ?thesis by (intro exI [of _ ?m]) (simp add: generate_cleanup_def case_prod_unfold)
qed

text \<open>A new key is held once, by the server's table.\<close>

lemma new_key_counted:
  assumes m: "counted m" and k: "mk_refCount k = 1"
  shows "keeps_counts m (m\<lparr>key_store := (key_store m)(key_next m \<mapsto> k), key_next := Suc (key_next m), mixKeys := mixKeys m @ [(e, key_next m)]\<rparr>)"
    (is "keeps_counts m ?m")
proof -
  have none: "key_store m (key_next m) = None" using m by (simp add: counted_def)
  have h: "holders ?m a = (if a = key_next m then Suc (holders m a) else holders m a)" for a
    by (auto simp: holders_def held_by_def)
  have h0: "holders m (key_next m) = 0" by (rule counted_None [OF m none])
  have at: "case key_store ?m a of None \<Rightarrow> holders ?m a = 0 | Some k \<Rightarrow> mk_refCount k = int (holders ?m a)" for a
    unfolding h using counted_None [OF m] counted_Some [OF m] k h0 by (auto split: option.splits)
  have "\<forall>a \<ge> Suc (key_next m). key_store m a = None" using m by (simp add: counted_def)
  then have "counted ?m" unfolding counted_def using at by auto
  moreover have "same_pairs m ?m" using none by (auto simp: same_pairs_def)
  ultimately show ?thesis by (simp add: keeps_counts_def)
qed

lemma keeps_counts_refl: "counted m \<Longrightarrow> keeps_counts m m"
  by (simp add: keeps_counts_def same_pairs_def)

text \<open>Keys that were there before are not held by more tables after \<open>Generate\<close>.\<close>

lemma generate_loop_ok:
  "counted m \<Longrightarrow> \<exists>did ok m'. generate_loop E gen all es did0 m = Inr (did, ok, m') \<and> keeps_counts m m'
     \<and> (\<forall>a < key_next m. holders m' a \<le> holders m a)"
proof (induction E gen all es did0 m rule: generate_loop.induct)
  case (1 E gen all did m)
  then show ?case by (auto intro: keeps_counts_refl)
next
  case (2 E gen all e es did m)
  show ?case
  proof (cases "map_of (mixKeys m) e \<noteq> None")
    case True
    with 2 show ?thesis by simp
  next
    case fresh: False
    show ?thesis
    proof (cases "mixkey_New E (gen e) e")
      case None
      with generate_cleanup_ok [OF 2(3), of E all] fresh show ?thesis by auto
    next
      case (Some k)
      then have "mk_refCount (k\<lparr>mk_unlinkIfExpired := True\<rparr>) = 1" by (auto simp: mixkey_New_def split: option.splits)
      note n = new_key_counted [OF 2(3) this, of e]
      let ?m = "m\<lparr>key_store := (key_store m)(key_next m \<mapsto> k\<lparr>mk_unlinkIfExpired := True\<rparr>), key_next := Suc (key_next m), mixKeys := mixKeys m @ [(e, key_next m)]\<rparr>"
      have h: "a < key_next m \<Longrightarrow> holders ?m a = holders m a" for a by (simp add: holders_def held_by_def)
      from 2(2) [OF fresh Some] n obtain did' ok m' where m': "generate_loop E gen all es True ?m = Inr (did', ok, m')"
        "keeps_counts ?m m'" "\<forall>a < Suc (key_next m). holders m' a \<le> holders ?m a" by (auto simp: keeps_counts_def)
      have "0 < holders ?m a" if "key_store m a \<noteq> None" "0 < holders m' a" for a
      proof -
        have "a < key_next m" using 2(3) that(1) by (meson counted_def not_le)
        then have "holders m' a \<le> holders ?m a" by (intro m'(3) [rule_format] less_SucI)
        with that(2) show ?thesis by linarith
      qed
      from keeps_counts_trans [OF n m'(2) this] have "keeps_counts m m'" .
      moreover have "\<forall>a < key_next m. holders m' a \<le> holders m a" 
      proof (intro allI impI)
        fix a assume a: "a < key_next m"
        then have "holders m' a \<le> holders ?m a" by (intro m'(3) [rule_format] less_SucI)
        then show "holders m' a \<le> holders m a" unfolding h [OF a] .
      qed
      moreover have "generate_loop E gen all (e # es) did m = Inr (did', ok, m')"
        by (simp only: generate_loop.simps fresh if_False Some option.case m'(1))
      ultimately show ?thesis by blast
    qed
  qed
qed

lemma Generate_ok: "counted m \<Longrightarrow> \<exists>did ok m'. Generate E gen base m = Inr (did, ok, m') \<and> keeps_counts m m'"
  using generate_loop_ok unfolding Generate_def by blast

lemma replay_ok:
  assumes m: "counted m" and r: "worker_IsReplay E a tag m = Inr (b, m')"
  shows "keeps_counts m m'"
proof -
  obtain k k' where k: "key_store m a = Some k" "IsReplay E tag k = Inr (b, k')" "m' = m\<lparr>key_store := (key_store m)(a \<mapsto> k')\<rparr>"
    using r by (auto simp: worker_IsReplay_def go_bind_Inr_iff deref_def split: option.splits)
  have k': "mk_refCount k' = mk_refCount k" "key_pairs k' = key_pairs k" "mk_epoch k' = mk_epoch k"
    using k(2) by (auto simp: IsReplay_def key_pairs_def split: if_splits prod.splits)
  have h: "holders m' = holders m" using k(3) by (simp add: holders_def)
  have "counted m'" unfolding counted_def h
    using m k k' counted_Some [OF m k(1)] by (auto simp: counted_def)
  moreover have "same_pairs m m'" using k k' by (auto simp: same_pairs_def)
  ultimately show ?thesis by (simp add: keeps_counts_def)
qed

section \<open>Runs\<close>

datatype ('pub, 'priv) key_event =
    Generates "u64 \<Rightarrow> ('pub \<times> 'priv) option" u64 | Prunes u64 | NewWorker | Shadows nat | WorkerEnds nat
  | TableHalts | TagTested nat bytes

fun key_enabled :: "('pub, 'priv) key_event \<Rightarrow> ('pub, 'priv, 'f) mix_keys \<Rightarrow> bool" where
  "key_enabled (Shadows w) m \<longleftrightarrow> w < length (worker_keys m)"
| "key_enabled (WorkerEnds w) m \<longleftrightarrow> w < length (worker_keys m)"
| "key_enabled (TagTested a tag) m \<longleftrightarrow> (\<exists>t \<in> set (worker_keys m). a \<in> snd ` set t)"
| "key_enabled e m \<longleftrightarrow> True"

fun key_step :: "('pub, 'priv, 'f) mix_env \<Rightarrow> ('pub, 'priv) key_event \<Rightarrow> ('pub, 'priv, 'f) mix_keys \<Rightarrow> (unit, ('pub, 'priv, 'f) mix_keys) go" where
  "key_step E (Generates gen base) m = go_bind (Generate E gen base m) (\<lambda>(_, _, m'). Inr m')"
| "key_step E (Prunes epoch) m = go_bind (Prune E epoch m) (\<lambda>(_, m'). Inr m')"
| "key_step E NewWorker m = worker_New E m"
| "key_step E (Shadows w) m = Shadow E w m"
| "key_step E (WorkerEnds w) m = derefKeys E w m"
| "key_step E TableHalts m = mixkeys_Halt E m"
| "key_step E (TagTested a tag) m = go_bind (worker_IsReplay E a tag m) (\<lambda>(_, m'). Inr m')"

inductive key_reach :: "('pub, 'priv, 'f) mix_env \<Rightarrow> ('pub, 'priv, 'f) mix_keys \<Rightarrow> bool" for E where
  key_start: "key_reach E NewMixKeys"
| key_moves: "\<lbrakk> key_reach E m; key_enabled e m; key_step E e m = Inr m' \<rbrakk> \<Longrightarrow> key_reach E m'"

lemma key_step_keeps:
  assumes m: "counted m" and e: "key_enabled e m" and s: "key_step E e m = Inr m'"
  shows "keeps_counts m m'"
proof (cases e)
  case (Generates gen base)
  with Generate_ok [OF m, of E gen base] s show ?thesis by auto
next
  case (Prunes epoch)
  with Prune_ok [OF m, of E epoch] s show ?thesis by auto
next
  case NewWorker
  with worker_New_ok [OF m, of E] s show ?thesis by auto
next
  case (Shadows w)
  with Shadow_ok [OF m, of w E] e s show ?thesis by auto
next
  case (WorkerEnds w)
  with derefKeys_ok [OF m, of w E] e s show ?thesis by auto
next
  case TableHalts
  with Halt_ok [OF m, of E] s show ?thesis by auto
next
  case (TagTested a tag)
  with replay_ok [OF m] s show ?thesis by (auto simp: go_bind_Inr_iff)
qed

lemma key_step_total:
  assumes m: "counted m" and e: "key_enabled e m"
  shows "(\<exists>m'. key_step E e m = Inr m') \<or> (\<exists>a tag. e = TagTested a tag)"
proof (cases e)
  case (Generates gen base)
  with Generate_ok [OF m, of E gen base] show ?thesis by auto
next
  case (Prunes epoch)
  with Prune_ok [OF m, of E epoch] show ?thesis by auto
next
  case NewWorker
  with worker_New_ok [OF m, of E] show ?thesis by auto
next
  case (Shadows w)
  with Shadow_ok [OF m, of w E] e show ?thesis by auto
next
  case (WorkerEnds w)
  with derefKeys_ok [OF m, of w E] e show ?thesis by auto
next
  case TableHalts
  with Halt_ok [OF m, of E] show ?thesis by auto
qed simp

lemma key_reach_counted: "key_reach E m \<Longrightarrow> counted m"
proof (induction rule: key_reach.induct)
  case key_start
  then show ?case by (simp add: counted_def NewMixKeys_def holders_def held_by_def)
next
  case (key_moves m e m')
  then show ?case using key_step_keeps by (auto simp: keeps_counts_def)
qed

text \<open>
  C16. Whatever keys are made, pruned, shadowed and given back, a mix key's reference count is the
  number of tables that hold it: counting never panics - the only step that can is the test of
  a tag against a full filter - and a key that some table holds after a step has the key pair
  it had before, so no worker ever uses a key that was closed.
\<close>

theorem mix_keys_refcounted:
  assumes "key_reach E m" and "key_enabled e m"
  shows "case key_step E e m of
       Inr m' \<Rightarrow> counted m' \<and> same_pairs m m'
     | Inl _ \<Rightarrow> (\<exists>a tag k. e = TagTested a tag \<and> key_store m a = Some k \<and> bloom_MaxEntries E (mk_f k) \<le> bloom_Entries E (mk_f k))"
proof -
  note m = key_reach_counted [OF assms(1)]
  show ?thesis
  proof (cases "key_step E e m")
    case (Inr m')
    with key_step_keeps [OF m assms(2)] show ?thesis by (simp add: keeps_counts_def)
  next
    case (Inl x)
    with key_step_total [OF m assms(2), of E] obtain a tag where e: "e = TagTested a tag" by force
    with assms(2) obtain t where "t \<in> set (worker_keys m)" "a \<in> snd ` set t" by auto
    then have "0 < holders m a" using refs_pos [of t a] by (force simp: holders_def held_by_def dest: member_le_sum_list)
    then obtain k where k: "key_store m a = Some k" using counted_at [OF m] by blast
    with Inl e show ?thesis by (auto simp: worker_IsReplay_def IsReplay_def go_bind_def deref_def split: if_splits prod.splits sum.splits)
  qed
qed

section \<open>A small mix\<close>

text \<open>A filter that remembers every tag, and key pairs of numbers.\<close>

definition demo_mix_env :: "(nat, nat, bytes list) mix_env" where
  "demo_mix_env = \<lparr>bloom_New = Some [], bloom_Entries = length, bloom_MaxEntries = (\<lambda>_. 100),
     bloom_TestAndSet = (\<lambda>f t. (t \<in> set f, t # f)), has_nikeScheme = True, key_Reset = (\<lambda>(pub, priv). (0, 0)),
     nike_Bytes = (\<lambda>pub. [word_of_nat pub]), kem_MarshalBinary = (\<lambda>_. None)\<rparr>"

fun key_run :: "('pub, 'priv, 'f) mix_env \<Rightarrow> ('pub, 'priv) key_event list \<Rightarrow> ('pub, 'priv, 'f) mix_keys \<Rightarrow> (unit, ('pub, 'priv, 'f) mix_keys) go" where
  "key_run E [] m = Inr m"
| "key_run E (e # es) m = go_bind (key_step E e m) (key_run E es)"

fun key_runs :: "('pub, 'priv, 'f) mix_env \<Rightarrow> ('pub, 'priv) key_event list \<Rightarrow> ('pub, 'priv, 'f) mix_keys \<Rightarrow> bool" where
  "key_runs E [] m \<longleftrightarrow> True"
| "key_runs E (e # es) m \<longleftrightarrow> key_enabled e m \<and> (case key_step E e m of Inl _ \<Rightarrow> False | Inr m' \<Rightarrow> key_runs E es m')"

lemma key_run_reach: "key_reach E m \<Longrightarrow> key_runs E es m \<Longrightarrow> \<exists>m'. key_run E es m = Inr m' \<and> key_reach E m'"
proof (induction es arbitrary: m)
  case (Cons e es)
  then obtain m' where "key_step E e m = Inr m'" "key_runs E es m'" by (auto split: sum.splits)
  with Cons show ?case using key_moves [of E m e m'] by auto
qed auto

definition demo_gen :: "nat \<Rightarrow> u64 \<Rightarrow> (nat \<times> nat) option" where
  "demo_gen n e = Some (n + unat e, 2 * (n + unat e))"

definition demo_gen_fails :: "u64 \<Rightarrow> (nat \<times> nat) option" where
  "demo_gen_fails e = None"

text \<open>Keys for the epochs 5, 6 and 7, one worker, and the prune at epoch 7.\<close>

definition demo_key_events :: "(nat, nat) key_event list" where
  "demo_key_events = [Generates (demo_gen 10) 5, NewWorker, Prunes 7]"

lemma mix_keys_refcounted_witness:
  "\<exists>m m'. key_run demo_mix_env demo_key_events NewMixKeys = Inr m \<and> key_step demo_mix_env (Shadows 0) m = Inr m' \<and> counted m'
     \<and> map_option mk_refCount (key_store m 0) = Some 1 \<and> map_option mk_nike (key_store m' 0) = Some (Some (0, 0))
     \<and> map_option mk_nike (key_store m' 1) = Some (Some (16, 32))"
proof -
  have r: "key_runs demo_mix_env demo_key_events NewMixKeys" by code_simp
  obtain m where m: "key_run demo_mix_env demo_key_events NewMixKeys = Inr m" "key_reach demo_mix_env m"
    using key_run_reach [OF key_start r] by blast
  have c: "case key_run demo_mix_env demo_key_events NewMixKeys of Inl _ \<Rightarrow> False | Inr m \<Rightarrow>
      0 < length (worker_keys m) \<and> map_option mk_refCount (key_store m 0) = Some 1 \<and>
      (case key_step demo_mix_env (Shadows 0) m of Inl _ \<Rightarrow> False | Inr m' \<Rightarrow>
        map_option mk_nike (key_store m' 0) = Some (Some (0, 0)) \<and> map_option mk_nike (key_store m' 1) = Some (Some (16, 32)))"
    by code_simp
  then have "key_enabled (Shadows 0) m" using m by simp
  from mix_keys_refcounted [OF m(2) this] c m show ?thesis by (auto split: sum.splits)
qed

text \<open>
  When the key of a new epoch cannot be made, \<open>Generate\<close> drops the keys of all three epochs, also
  those that are published and in use, and the next call makes others under the same epochs. A
  worker that has a key for an epoch keeps it: here the mix gives out one public key for epoch 6
  while its worker goes on with the private key of another.
\<close>

lemma failed_generate_strands_workers:
  "\<exists>m a k. key_run demo_mix_env [Generates (demo_gen 10) 5, NewWorker, Generates demo_gen_fails 6, Generates (demo_gen 20) 6, Shadows 0] NewMixKeys = Inr m
     \<and> key_reach demo_mix_env m
     \<and> mixkeys_Get demo_mix_env 6 m = Inr (Some (nike_Bytes demo_mix_env (fst (the (demo_gen 20 6)))))
     \<and> map_of (worker_keys m ! 0) 6 = Some a \<and> key_store m a = Some k \<and> PrivateKey k = map_option snd (demo_gen 10 6)"
proof -
  let ?es = "[Generates (demo_gen 10) 5, NewWorker, Generates demo_gen_fails 6, Generates (demo_gen 20) 6, Shadows 0]"
  have r: "key_runs demo_mix_env ?es NewMixKeys" by code_simp
  obtain m where m: "key_run demo_mix_env ?es NewMixKeys = Inr m" "key_reach demo_mix_env m"
    using key_run_reach [OF key_start r] by blast
  have c: "case key_run demo_mix_env ?es NewMixKeys of Inl _ \<Rightarrow> False | Inr m \<Rightarrow>
      mixkeys_Get demo_mix_env 6 m = Inr (Some (nike_Bytes demo_mix_env (fst (the (demo_gen 20 6)))))
      \<and> map_of (worker_keys m ! 0) 6 = Some 1 \<and> map_option PrivateKey (key_store m 1) = Some (map_option snd (demo_gen 10 6))"
    by code_simp
  with m have g: "mixkeys_Get demo_mix_env 6 m = Inr (Some (nike_Bytes demo_mix_env (fst (the (demo_gen 20 6)))))"
    "map_of (worker_keys m ! 0) 6 = Some 1" "map_option PrivateKey (key_store m 1) = Some (map_option snd (demo_gen 10 6))"
    by (simp_all only: sum.case)
  then obtain k where "key_store m 1 = Some k" "PrivateKey k = map_option snd (demo_gen 10 6)" by (auto simp: map_option_eq_Some)
  with m g(1,2) show ?thesis by blast
qed

end
