(* ===== verification/MixProps.thy ===== *)
theory MixProps
  imports MixKeyProps MixSchedProps
begin

text \<open>
  The tags that a mix accepts: the loop over the keys of a worker, the filters of the keys, and the runs of
  a mix with the log of the packets its workers accept, in which no tag appears twice.
\<close>

section \<open>The loop over the keys\<close>

lemma unwrap_loop_cases:
  "unwrap_loop E s c g as lastErr pkt m = Inr (r, pkt', m') \<Longrightarrow>
     (m' = m \<and> (\<exists>e. r = Inl e)) \<or>
     (\<exists>a \<in> set as. \<exists>k priv u b. key_store m a = Some k \<and> PrivateKey k = Some priv \<and> Unwrap s c g priv (pk_Raw pkt) = Inr u
        \<and> packet_Set (u_payload u) (u_commands u) (pkt\<lparr>pk_Raw := u_packet u\<rparr>) = (None, pkt')
        \<and> worker_IsReplay E a (u_replayTag u) m = Inr (b, m') \<and> r = (if b then Inl errReplay else Inr (a, u_replayTag u)))"
proof (induction as arbitrary: lastErr)
  case Nil
  then show ?case by auto
next
  case (Cons a as)
  obtain k priv where k: "key_store m a = Some k" "PrivateKey k = Some priv"
    using Cons.prems by (auto simp: go_bind_Inr_iff deref_def split: option.splits)
  show ?case
  proof (cases "Unwrap s c g priv (pk_Raw pkt)")
    case (Inl f)
    with Cons k show ?thesis by (cases f) auto
  next
    case (Inr u)
    let ?set = "packet_Set (u_payload u) (u_commands u) (pkt\<lparr>pk_Raw := u_packet u\<rparr>)"
    show ?thesis
    proof (cases "fst ?set")
      case (Some e)
      with Cons.prems k Inr show ?thesis by (cases ?set) auto
    next
      case None
      then obtain b where "worker_IsReplay E a (u_replayTag u) m = Inr (b, m')" "r = (if b then Inl errReplay else Inr (a, u_replayTag u))" "?set = (None, pkt')"
        using Cons.prems k Inr by (cases ?set) (auto simp: go_bind_Inr_iff split: if_splits)
      with k Inr show ?thesis
        by (intro disjI2 bexI [of _ a] exI [of _ k] exI [of _ priv] exI [of _ u] exI [of _ b]) simp_all
    qed
  qed
qed

lemma candidate_keys_cases:
  assumes "candidate_keys t epoch = Some as" "a \<in> set as"
  shows "\<exists>e \<in> {epoch, epoch - 1, epoch + 1}. map_of t e = Some a"
  using assms by (auto simp: candidate_keys_def split: option.splits)

text \<open>A packet is accepted under a key of its worker, whose filter has taken its tag for a new one.\<close>

lemma worker_packet_cases:
  assumes "worker_packet E s c g cfg w startAt epoch pkt m = Inr (dest, acc, m')"
  shows "(m' = m \<and> acc = None \<and> (\<exists>r. dest = Dropped r)) \<or>
    (\<exists>a k priv u pkt' b. (\<exists>e \<in> {epoch, epoch - 1, epoch + 1}. map_of (worker_keys m ! w) e = Some a)
       \<and> key_store m a = Some k \<and> PrivateKey k = Some priv \<and> Unwrap s c g priv (pk_Raw pkt) = Inr u
       \<and> packet_Set (u_payload u) (u_commands u) (pkt\<lparr>pk_Raw := u_packet u\<rparr>) = (None, pkt')
       \<and> worker_IsReplay E a (u_replayTag u) m = Inr (b, m')
       \<and> (if b then acc = None \<and> dest = Dropped unwrap_failed
          else acc = Some (a, u_replayTag u) \<and> routePacket cfg pkt' startAt = Inr dest \<and> time_Sub startAt (pk_RecvAt pkt) \<le> cfg_UnwrapDelay cfg * Millisecond))"
proof (cases "cfg_UnwrapDelay cfg * Millisecond < time_Sub startAt (pk_RecvAt pkt)")
  case True
  with assms show ?thesis by (auto simp: worker_packet_def)
next
  case False
  obtain r pkt' m1 where d: "doUnwrap E s c g (worker_keys m ! w) epoch pkt m = Inr (r, pkt', m1)"
    "(case r of Inl e \<Rightarrow> Inr (Dropped unwrap_failed, None, m1)
      | Inr acc \<Rightarrow> go_bind (routePacket cfg pkt' startAt) (\<lambda>dest. Inr (dest, Some acc, m1))) = Inr (dest, acc, m')"
    using assms False by (auto simp: worker_packet_def go_bind_Inr_iff)
  show ?thesis
  proof (cases "candidate_keys (worker_keys m ! w) epoch")
    case None
    with d show ?thesis by (auto simp: doUnwrap_def)
  next
    case (Some as)
    then have u: "unwrap_loop E s c g as None pkt m = Inr (r, pkt', m1)" using d(1) by (simp add: doUnwrap_def)
    from unwrap_loop_cases [OF this] show ?thesis
    proof (elim disjE bexE exE conjE)
      fix e assume "m1 = m" "r = Inl e"
      with d(2) show ?thesis by auto
    next
      fix a k priv v b assume *: "a \<in> set as" "key_store m a = Some k" "PrivateKey k = Some priv" "Unwrap s c g priv (pk_Raw pkt) = Inr v"
        "packet_Set (u_payload v) (u_commands v) (pkt\<lparr>pk_Raw := u_packet v\<rparr>) = (None, pkt')"
        "worker_IsReplay E a (u_replayTag v) m = Inr (b, m1)" "r = (if b then Inl errReplay else Inr (a, u_replayTag v))"
      have "m1 = m'" using d(2) *(7) by (cases b) (auto simp: go_bind_Inr_iff)
      then show ?thesis
        using * d(2) False candidate_keys_cases [OF Some *(1)]
        by (intro disjI2 exI [of _ a] exI [of _ k] exI [of _ priv] exI [of _ v] exI [of _ pkt'] exI [of _ b])
          (cases b; auto simp: go_bind_Inr_iff)
    qed
  qed
qed

section \<open>Replays\<close>

text \<open>The filter forgets no tag and reports every tag it has been shown.\<close>

definition bloom_law :: "('pub, 'priv, 'f) mix_env \<Rightarrow> bool" where
  "bloom_law E \<longleftrightarrow> (\<exists>has. (\<forall>f t. has f t \<longrightarrow> fst (bloom_TestAndSet E f t)) \<and> (\<forall>f t. has (snd (bloom_TestAndSet E f t)) t)
     \<and> (\<forall>f t u. has f u \<longrightarrow> has (snd (bloom_TestAndSet E f t)) u))"

definition filters :: "('pub, 'priv, 'f) mix_keys \<Rightarrow> nat \<rightharpoonup> 'f" where
  "filters m = map_option mk_f \<circ> key_store m"

lemma at_keys_filters:
  assumes f: "\<And>k k'. f k = Inr k' \<Longrightarrow> mk_f k' = mk_f k"
  shows "at_keys as f m = Inr m' \<Longrightarrow> filters m' = filters m"
proof (induction as arbitrary: m)
  case (Cons a as)
  then obtain k k' where k: "key_store m a = Some k" "f k = Inr k'" "at_keys as f (m\<lparr>key_store := (key_store m)(a \<mapsto> k')\<rparr>) = Inr m'"
    by (auto simp: at_key_def go_bind_Inr_iff deref_def split: option.splits)
  have "filters (m\<lparr>key_store := (key_store m)(a \<mapsto> k')\<rparr>) = filters m" using k f [OF k(2)] by (auto simp: filters_def)
  with Cons.IH [OF k(3)] show ?case by simp
qed simp

lemma Deref_filter: "Deref E k = Inr k' \<Longrightarrow> mk_f k' = mk_f k"
  by (auto simp: Deref_def Let_def forceClose_def split: if_splits)

lemma derefs_filters: "at_keys as (Deref E) m = Inr m' \<Longrightarrow> filters m' = filters m"
  using at_keys_filters [of "Deref E" as m m'] Deref_filter by blast

lemma Ref_filter: "Ref k = Inr k' \<Longrightarrow> mk_f k' = mk_f k"
  by (auto simp: Ref_def Let_def split: if_splits)

lemma filters_tables [simp]:
  "filters (m\<lparr>mixKeys := t\<rparr>) = filters m" "filters (m\<lparr>worker_keys := ws\<rparr>) = filters m" "filters (m\<lparr>key_next := n\<rparr>) = filters m"
  by (simp_all add: filters_def)

lemma map_le_eq: "f = g \<Longrightarrow> map_le f g"
  by simp

lemma generate_filters:
  "counted m \<Longrightarrow> generate_loop E gen all es did0 m = Inr (did, ok, m') \<Longrightarrow> map_le (filters m) (filters m')"
proof (induction E gen all es did0 m rule: generate_loop.induct)
  case (2 E gen all e es did0 m)
  show ?case
  proof (cases "map_of (mixKeys m) e \<noteq> None")
    case True
    with 2 show ?thesis by simp
  next
    case fresh: False
    show ?thesis
    proof (cases "mixkey_New E (gen e) e")
      case None
      with 2(4) fresh show ?thesis
        by (auto simp: generate_cleanup_def go_bind_Inr_iff dest!: derefs_filters)
    next
      case (Some k)
      let ?m = "m\<lparr>key_store := (key_store m)(key_next m \<mapsto> k\<lparr>mk_unlinkIfExpired := True\<rparr>), key_next := Suc (key_next m), mixKeys := mixKeys m @ [(e, key_next m)]\<rparr>"
      have none: "key_store m (key_next m) = None" using 2(3) by (simp add: counted_def)
      have le: "map_le (filters m) (filters ?m)" using none by (auto simp: filters_def map_le_def)
      have "mk_refCount (k\<lparr>mk_unlinkIfExpired := True\<rparr>) = 1" using Some by (auto simp: mixkey_New_def split: option.splits)
      from new_key_counted [OF 2(3) this, of e] have c: "counted ?m" by (simp add: keeps_counts_def)
      have "generate_loop E gen all es True ?m = Inr (did, ok, m')"
        using 2(4) by (simp only: generate_loop.simps fresh if_False Some option.case)
      from 2(2) [OF fresh Some c this] le show ?thesis by (rule map_le_trans [rotated])
    qed
  qed
qed simp

lemma refs_filters: "at_keys as Ref m = Inr m' \<Longrightarrow> filters m' = filters m"
  using at_keys_filters [of Ref as m m'] Ref_filter by blast

lemma Shadow_filters: "Shadow E w m = Inr m' \<Longrightarrow> filters m' = filters m"
  using derefs_filters refs_filters by (fastforce simp: Shadow_def Let_def go_bind_Inr_iff)

lemma key_step_filters:
  assumes m: "counted m" and e: "\<forall>a tag. e \<noteq> TagTested a tag" and s: "key_step E e m = Inr m'"
  shows "map_le (filters m) (filters m')"
proof (cases e)
  case (Generates gen base)
  with s generate_filters [OF m] show ?thesis by (auto simp: Generate_def go_bind_Inr_iff)
next
  case (Prunes epoch)
  with s show ?thesis by (auto simp: Prune_def Let_def go_bind_Inr_iff dest!: derefs_filters)
next
  case NewWorker
  with s Shadow_filters show ?thesis by (fastforce simp: worker_New_def)
next
  case (Shadows w)
  with s Shadow_filters show ?thesis by fastforce
next
  case (WorkerEnds w)
  with s show ?thesis by (auto simp: derefKeys_def go_bind_Inr_iff dest!: derefs_filters)
next
  case TableHalts
  with s show ?thesis by (auto simp: mixkeys_Halt_def go_bind_Inr_iff dest!: derefs_filters)
qed (use e in simp)

text \<open>
  A mix in operation: steps of its keys, and packets that its workers take, with the log of the packets they
  accept: under which key and tag, and where they went.
\<close>

inductive mix_reach ::
  "('pub, 'priv, 'f) mix_env \<Rightarrow> sphinx \<Rightarrow> ('pub, 'priv) crypto \<Rightarrow> Geometry \<Rightarrow> worker_config
     \<Rightarrow> ('pub, 'priv, 'f) mix_keys \<Rightarrow> ((nat \<times> bytes) \<times> destination) list \<Rightarrow> bool" for E s c g cfg where
  mix_start: "mix_reach E s c g cfg NewMixKeys []"
| mix_keys_move: "\<lbrakk> mix_reach E s c g cfg m log; key_enabled e m; \<forall>a tag. e \<noteq> TagTested a tag; key_step E e m = Inr m' \<rbrakk>
     \<Longrightarrow> mix_reach E s c g cfg m' log"
| mix_packet: "\<lbrakk> mix_reach E s c g cfg m log; w < length (worker_keys m);
       worker_packet E s c g cfg w startAt epoch pkt m = Inr (dest, acc, m') \<rbrakk>
     \<Longrightarrow> mix_reach E s c g cfg m' (log @ (case acc of None \<Rightarrow> [] | Some at \<Rightarrow> [(at, dest)]))"

lemma mix_reach_counted: "mix_reach E s c g cfg m log \<Longrightarrow> counted m"
proof (induction rule: mix_reach.induct)
  case mix_start
  show ?case using key_reach_counted [OF key_start] .
next
  case (mix_keys_move m log e m')
  then show ?case using key_step_keeps unfolding keeps_counts_def by blast
next
  case (mix_packet m log w startAt epoch pkt dest acc m')
  from worker_packet_cases [OF mix_packet.hyps(3)] mix_packet.IH replay_ok show ?case
    unfolding keeps_counts_def by blast
qed

lemma IsReplay_filter:
  assumes "worker_IsReplay E a tag m = Inr (b, m')"
  shows "\<exists>f. filters m a = Some f \<and> ((b \<and> filters m' = filters m) \<or>
     (b = fst (bloom_TestAndSet E f tag) \<and> filters m' = (filters m)(a \<mapsto> snd (bloom_TestAndSet E f tag))))"
proof -
  obtain k k' where k: "key_store m a = Some k" "IsReplay E tag k = Inr (b, k')" "m' = m\<lparr>key_store := (key_store m)(a \<mapsto> k')\<rparr>"
    using assms by (auto simp: worker_IsReplay_def go_bind_Inr_iff deref_def split: option.splits)
  have f: "filters m' = (filters m)(a \<mapsto> mk_f k')" using k(3) by (auto simp: filters_def)
  show ?thesis
  proof (cases "length tag = TagLength")
    case False
    with k show ?thesis by (auto simp: IsReplay_def filters_def)
  next
    case True
    then have "b = fst (bloom_TestAndSet E (mk_f k) tag) \<and> mk_f k' = snd (bloom_TestAndSet E (mk_f k) tag)"
      using k(2) by (auto simp: IsReplay_def split: if_splits prod.splits)
    with k(1) f show ?thesis by (auto simp: filters_def)
  qed
qed

definition tags_seen :: "('f \<Rightarrow> bytes \<Rightarrow> bool) \<Rightarrow> ('pub, 'priv, 'f) mix_keys \<Rightarrow> ((nat \<times> bytes) \<times> destination) list \<Rightarrow> bool" where
  "tags_seen has m log \<longleftrightarrow> (\<forall>((a, t), d) \<in> set log. \<exists>f. filters m a = Some f \<and> has f t)"

lemma tags_seen_le: "tags_seen has m log \<Longrightarrow> map_le (filters m) (filters m') \<Longrightarrow> tags_seen has m' log"
  by (fastforce simp: tags_seen_def map_le_def dom_def)

lemma no_replay:
  assumes has: "\<forall>f t. has f t \<longrightarrow> fst (bloom_TestAndSet E f t)" "\<forall>f t. has (snd (bloom_TestAndSet E f t)) t"
    "\<forall>f t u. has f u \<longrightarrow> has (snd (bloom_TestAndSet E f t)) u"
  shows "mix_reach E s c g cfg m log \<Longrightarrow> tags_seen has m log \<and> distinct (map fst log)"
proof (induction rule: mix_reach.induct)
  case mix_start
  then show ?case by (simp add: tags_seen_def)
next
  case (mix_keys_move m log e m')
  with key_step_filters [OF mix_reach_counted] tags_seen_le show ?case by blast
next
  case (mix_packet m log w startAt epoch pkt dest acc m')
  from worker_packet_cases [OF mix_packet.hyps(3)] show ?case
  proof (elim disjE exE conjE)
    assume "m' = m" "acc = None"
    with mix_packet.IH show ?thesis by simp
  next
    fix a k priv u pkt' b
    assume r: "worker_IsReplay E a (u_replayTag u) m = Inr (b, m')"
      and o: "if b then acc = None \<and> dest = Dropped unwrap_failed
        else acc = Some (a, u_replayTag u) \<and> routePacket cfg pkt' startAt = Inr dest \<and> time_Sub startAt (pk_RecvAt pkt) \<le> cfg_UnwrapDelay cfg * Millisecond"
    let ?t = "u_replayTag u"
    obtain f where f: "filters m a = Some f" "(b \<and> filters m' = filters m) \<or>
        (b = fst (bloom_TestAndSet E f ?t) \<and> filters m' = (filters m)(a \<mapsto> snd (bloom_TestAndSet E f ?t)))"
      using IsReplay_filter [OF r] by blast
    have kept: "tags_seen has m' log"
      using f(2) mix_packet.IH f(1) has(3) by (fastforce simp: tags_seen_def)
    show ?thesis
    proof (cases b)
      case True
      with o kept mix_packet.IH show ?thesis by simp
    next
      case False
      then have "\<not> has f ?t" using f(2) has(1) by auto
      then have "(a, ?t) \<notin> fst ` set log" using mix_packet.IH f(1) by (fastforce simp: tags_seen_def)
      moreover have "tags_seen has m' [((a, ?t), dest)]" using f(2) False has(2) by (auto simp: tags_seen_def)
      ultimately show ?thesis using o False kept mix_packet.IH by (auto simp: tags_seen_def)
    qed
  qed
qed

end
