(* ===== verification/MixDeliver.thy ===== *)
theory MixDeliver
  imports MixProps
begin

text \<open>
  Packets through a chain of mixes: what a single worker does with a packet that is meant for it, and a
  Sphinx packet on its way from the first node of its path to the service node.
\<close>

section \<open>One node\<close>

text \<open>
  The key that worker \<open>w\<close> has for the epoch; that it is this private key, with room in its filter; and that
  the filter takes a tag for a new one.
\<close>

definition worker_key :: "('pub, 'priv, 'f) mix_keys \<Rightarrow> nat \<Rightarrow> u64 \<Rightarrow> ('pub, 'priv, 'f) MixKey option" where
  "worker_key m w epoch = (case map_of (worker_keys m ! w) epoch of None \<Rightarrow> None | Some a \<Rightarrow> key_store m a)"

definition holds_key ::
  "('pub, 'priv, 'f) mix_env \<Rightarrow> ('pub, 'priv, 'f) mix_keys \<Rightarrow> nat \<Rightarrow> u64 \<Rightarrow> 'priv \<Rightarrow> bool" where
  "holds_key E m w epoch sk \<longleftrightarrow> (\<exists>k. worker_key m w epoch = Some k \<and> PrivateKey k = Some sk
     \<and> bloom_Entries E (mk_f k) < bloom_MaxEntries E (mk_f k))"

definition new_to ::
  "('pub, 'priv, 'f) mix_env \<Rightarrow> ('pub, 'priv, 'f) mix_keys \<Rightarrow> nat \<Rightarrow> u64 \<Rightarrow> bytes \<Rightarrow> bool" where
  "new_to E m w epoch tag \<longleftrightarrow> (case worker_key m w epoch of None \<Rightarrow> True | Some k \<Rightarrow> \<not> fst (bloom_TestAndSet E (mk_f k) tag))"

lemma doUnwrap_accepts:
  assumes k: "holds_key E m w epoch sk" and new: "new_to E m w epoch (u_replayTag u)" and u: "Unwrap s c g sk (pk_Raw pkt) = Inr u"
    and cmds: "packet_Set (u_payload u) (u_commands u) (pkt\<lparr>pk_Raw := u_packet u\<rparr>) = (None, pkt')"
    and tag: "length (u_replayTag u) = TagLength"
  shows "\<exists>a m'. doUnwrap E s c g (worker_keys m ! w) epoch pkt m = Inr (Inr (a, u_replayTag u), pkt', m')"
proof -
  obtain a k where ak: "map_of (worker_keys m ! w) epoch = Some a" "key_store m a = Some k" "PrivateKey k = Some sk"
    "bloom_Entries E (mk_f k) < bloom_MaxEntries E (mk_f k)" "\<not> fst (bloom_TestAndSet E (mk_f k) (u_replayTag u))"
    using k new by (auto simp: holds_key_def new_to_def worker_key_def split: option.splits)
  have "\<exists>m'. worker_IsReplay E a (u_replayTag u) m = Inr (False, m')"
    using ak tag by (cases "bloom_TestAndSet E (mk_f k) (u_replayTag u)") (auto simp: worker_IsReplay_def IsReplay_def)
  then obtain m' where "worker_IsReplay E a (u_replayTag u) m = Inr (False, m')" by blast
  with ak u cmds show ?thesis by (simp add: doUnwrap_def candidate_keys_def)
qed

lemma worker_forwards:
  assumes k: "holds_key E m w epoch sk" and new: "new_to E m w epoch (u_replayTag u)"
    and u: "Unwrap s c g sk (pk_Raw pkt) = Inr u" and tag: "length (u_replayTag u) = TagLength"
    and cmds: "u_payload u = None" "u_commands u = [NodeDelay d, NextNodeHop i mac]"
    and pkt: "no_commands_yet pkt" "\<not> pk_MustTerminate pkt"
    and dwell: "0 \<le> startAt - pk_RecvAt pkt" "startAt - pk_RecvAt pkt \<le> cfg_UnwrapDelay cfg * Millisecond" "startAt - pk_RecvAt pkt < 2 ^ 63"
    and delay: "startAt - pk_RecvAt pkt < uint d * Millisecond" "uint d * Millisecond \<le> int NumMixKeys * cfg_Period cfg"
  shows "\<exists>a m'. worker_packet E s c g cfg w startAt epoch pkt m
     = Inr (ToScheduler (pkt\<lparr>pk_Raw := u_packet u, pk_Payload := None, pk_NextNodeHop := Some (i, mac), pk_NodeDelay := Some d,
         pk_Delay := uint d * Millisecond - (startAt - pk_RecvAt pkt)\<rparr>), Some (a, u_replayTag u), m')"
proof -
  let ?p = "pkt\<lparr>pk_Raw := u_packet u, pk_Payload := None, pk_NodeDelay := Some d, pk_NextNodeHop := Some (i, mac)\<rparr>"
  have set: "packet_Set (u_payload u) (u_commands u) (pkt\<lparr>pk_Raw := u_packet u\<rparr>) = (None, ?p)"
    using cmds pkt by (simp add: packet_Set_def no_commands_yet_def)
  have t: "time_Sub startAt (pk_RecvAt pkt) = startAt - pk_RecvAt pkt" using dwell time_Sub_eq by blast
  have "routePacket cfg ?p startAt = Inr (ToScheduler (?p\<lparr>pk_Delay := uint d * Millisecond - (startAt - pk_RecvAt pkt)\<rparr>))"
    using pkt delay by (simp add: routePacket_def IsForward_def no_commands_yet_def t adjusted_delay_def Let_def)
  with doUnwrap_accepts [OF k new u set tag] dwell show ?thesis by (auto simp: worker_packet_def t)
qed

text \<open>The commands of a last hop: a packet with a SURB has a delay there too, which the service node may use.\<close>

definition terminal_commands :: "u32 option \<Rightarrow> bytes \<Rightarrow> RoutingCommand list" where
  "terminal_commands d r = (case d of None \<Rightarrow> [] | Some d \<Rightarrow> [NodeDelay d]) @ [Recipient r]"

lemma worker_terminates:
  assumes k: "holds_key E m w epoch sk" and new: "new_to E m w epoch (u_replayTag u)"
    and u: "Unwrap s c g sk (pk_Raw pkt) = Inr u" and tag: "length (u_replayTag u) = TagLength"
    and cmds: "u_commands u = terminal_commands d r"
    and pkt: "no_commands_yet pkt" "\<not> pk_MustForward pkt" and service: "\<not> cfg_IsGatewayNode cfg" "cfg_IsServiceNode cfg"
    and dwell: "0 \<le> startAt - pk_RecvAt pkt" "startAt - pk_RecvAt pkt \<le> cfg_UnwrapDelay cfg * Millisecond" "startAt - pk_RecvAt pkt < 2 ^ 63"
  shows "\<exists>a m'. worker_packet E s c g cfg w startAt epoch pkt m
     = Inr (ToServiceNode (pkt\<lparr>pk_Raw := u_packet u, pk_Payload := u_payload u, pk_NodeDelay := d, pk_Recipient := Some r, pk_DispatchAt := startAt\<rparr>),
         Some (a, u_replayTag u), m')"
proof -
  let ?p = "pkt\<lparr>pk_Raw := u_packet u, pk_Payload := u_payload u, pk_NodeDelay := d, pk_Recipient := Some r\<rparr>"
  have set: "packet_Set (u_payload u) (u_commands u) (pkt\<lparr>pk_Raw := u_packet u\<rparr>) = (None, ?p)"
    using cmds pkt by (cases d) (simp_all add: packet_Set_def no_commands_yet_def terminal_commands_def)
  have t: "time_Sub startAt (pk_RecvAt pkt) = startAt - pk_RecvAt pkt" using dwell time_Sub_eq by blast
  have "routePacket cfg ?p startAt = Inr (ToServiceNode (?p\<lparr>pk_DispatchAt := startAt\<rparr>))"
    using pkt service by (simp add: routePacket_def IsForward_def no_commands_yet_def expected_reply_def IsSURBReply_def Let_def)
  with doUnwrap_accepts [OF k new u set tag] dwell show ?thesis by (auto simp: worker_packet_def t)
qed

lemma unwrapNike_tag: "unwrapNike c g sk raw = Inr r \<Longrightarrow> \<exists>x. u_replayTag r = sha512_256 c x"
  unfolding unwrapNike_def Let_def go_bind_Inr_iff by (blast dest: with_tag_InrD unwrap_keyed_sound)

section \<open>The path\<close>

text \<open>A node with the moment in which it takes a packet.\<close>

record ('pub, 'priv, 'f) mix_hop =
  mh_cfg :: worker_config
  mh_keys :: "('pub, 'priv, 'f) mix_keys"
  mh_worker :: nat
  mh_fromClient :: bool
  mh_epoch :: u64
  mh_recvAt :: int
  mh_startAt :: int

text \<open>What the listener of a node makes of a packet of a client or of another node (\<open>onSendPacket\<close>, incoming_conn.go).\<close>

definition arriving :: "('pub, 'priv, 'f) mix_hop \<Rightarrow> bytes \<Rightarrow> Packet" where
  "arriving n raw = cleared_packet\<lparr>pk_Raw := raw, pk_RecvAt := mh_recvAt n, pk_MustForward := mh_fromClient n,
     pk_MustTerminate := cfg_IsServiceNode (mh_cfg n) \<and> \<not> mh_fromClient n\<rparr>"

fun through_mixes ::
  "('pub, 'priv, 'f) mix_env \<Rightarrow> sphinx \<Rightarrow> ('pub, 'priv) crypto \<Rightarrow> Geometry \<Rightarrow> ('pub, 'priv, 'f) mix_hop list \<Rightarrow> bytes \<Rightarrow> destination list" where
  "through_mixes E s c g [] raw = []"
| "through_mixes E s c g (n # ns) raw =
     (case worker_packet E s c g (mh_cfg n) (mh_worker n) (mh_startAt n) (mh_epoch n) (arriving n raw) (mh_keys n) of
        Inl _ \<Rightarrow> []
      | Inr (ToScheduler p, _, _) \<Rightarrow> ToScheduler p # through_mixes E s c g ns (pk_Raw p)
      | Inr (dest, _, _) \<Rightarrow> [dest])"

definition dwell :: "('pub, 'priv, 'f) mix_hop \<Rightarrow> int" where
  "dwell n = mh_startAt n - mh_recvAt n"

definition in_step :: "('pub, 'priv, 'f) mix_hop \<Rightarrow> bool" where
  "in_step n \<longleftrightarrow> 0 \<le> dwell n \<and> dwell n \<le> cfg_UnwrapDelay (mh_cfg n) * Millisecond \<and> dwell n < 2 ^ 63"

text \<open>
  The nodes of a path: each holds its key, is not overloaded, and all but the last, a service node, are given a
  delay that is longer than the packet has waited and that keys outlive.
\<close>

fun nodes_ready :: "('pub, 'priv, 'f) mix_env \<Rightarrow> 'pub PathHop list \<Rightarrow> 'priv list \<Rightarrow> ('pub, 'priv, 'f) mix_hop list \<Rightarrow> bool" where
  "nodes_ready E [h] [sk] [n] \<longleftrightarrow> holds_key E (mh_keys n) (mh_worker n) (mh_epoch n) sk \<and> in_step n
     \<and> (\<exists>d r. hopCommands h = terminal_commands d r) \<and> \<not> mh_fromClient n \<and> \<not> cfg_IsGatewayNode (mh_cfg n) \<and> cfg_IsServiceNode (mh_cfg n)"
| "nodes_ready E (h # h' # hs) (sk # sks) (n # ns) \<longleftrightarrow> holds_key E (mh_keys n) (mh_worker n) (mh_epoch n) sk \<and> in_step n
     \<and> (cfg_IsServiceNode (mh_cfg n) \<longrightarrow> mh_fromClient n)
     \<and> (\<exists>d. hopCommands h = [NodeDelay d] \<and> dwell n < uint d * Millisecond \<and> uint d * Millisecond \<le> int NumMixKeys * cfg_Period (mh_cfg n))
     \<and> nodes_ready E (h' # hs) sks ns"
| "nodes_ready E path sks ns \<longleftrightarrow> False"

text \<open>
  What the nodes do: the scheduler of each gets a packet of the same length for the next node, with the delay that is
  left, and the last node the payload and the recipient.
\<close>

fun passed_on :: "nat \<Rightarrow> bytes \<Rightarrow> 'pub PathHop list \<Rightarrow> ('pub, 'priv, 'f) mix_hop list \<Rightarrow> destination list \<Rightarrow> bool" where
  "passed_on len payload [h] [n] [ToServiceNode p] \<longleftrightarrow> pk_Payload p = Some payload \<and> pk_Recipient p \<noteq> None
     \<and> hopCommands h = terminal_commands (pk_NodeDelay p) (the (pk_Recipient p))"
| "passed_on len payload (h # h' # hs) (n # ns) (ToScheduler p # ds) \<longleftrightarrow> length (pk_Raw p) = len
     \<and> (\<exists>mac. pk_NextNodeHop p = Some (hopID h', mac)) \<and> hopCommands h = [NodeDelay (the (pk_NodeDelay p))]
     \<and> pk_Delay p = uint (the (pk_NodeDelay p)) * Millisecond - dwell n \<and> passed_on len payload (h' # hs) ns ds"
| "passed_on len payload path ns ds \<longleftrightarrow> False"

lemma arriving_fields [simp]:
  "pk_Raw (arriving n raw) = raw" "pk_RecvAt (arriving n raw) = mh_recvAt n" "no_commands_yet (arriving n raw)"
  "pk_MustTerminate (arriving n raw) = (cfg_IsServiceNode (mh_cfg n) \<and> \<not> mh_fromClient n)" "pk_MustForward (arriving n raw) = mh_fromClient n"
  "pk_NodeDelay (arriving n raw) = None"
  by (simp_all add: arriving_def cleared_packet_def no_commands_yet_def)

lemma nike_Unwrap: "has_nike s \<Longrightarrow> \<not> has_kem s \<Longrightarrow> Unwrap s c g sk raw = unwrapNike c g sk raw"
  by (simp add: Unwrap_def)

text \<open>None of the nodes has seen its tag of the packet.\<close>

definition tags_new :: "('pub, 'priv, 'f) mix_env \<Rightarrow> ('pub, 'priv, 'f) mix_hop list \<Rightarrow> unwrapped list \<Rightarrow> bool" where
  "tags_new E = list_all2 (\<lambda>n r. new_to E (mh_keys n) (mh_worker n) (mh_epoch n) (u_replayTag r))"

lemma nodes_pass_on:
  assumes s: "has_nike s" "\<not> has_kem s" and tags: "\<And>x. length (sha512_256 c x) = TagLength"
  shows "nodes_ready E path sks ns \<Longrightarrow> relay (unwrapNike c g) sks raw = Inr rs \<Longrightarrow> routed len payload path rs
    \<Longrightarrow> tags_new E ns rs \<Longrightarrow> passed_on len payload path ns (through_mixes E s c g ns raw)"
proof (induction E path sks ns arbitrary: raw rs rule: nodes_ready.induct)
  case (1 E h sk n)
  obtain u where u: "unwrapNike c g sk raw = Inr u" "u_payload u = Some payload" "u_commands u = hopCommands h"
    "new_to E (mh_keys n) (mh_worker n) (mh_epoch n) (u_replayTag u)"
    using 1(2-4) by (auto simp: go_bind_Inr_iff tags_new_def)
  obtain d r where r: "hopCommands h = terminal_commands d r" using 1(1) by auto
  have tag: "length (u_replayTag u) = TagLength" using unwrapNike_tag [OF u(1)] tags by auto
  have "\<exists>a m'. worker_packet E s c g (mh_cfg n) (mh_worker n) (mh_startAt n) (mh_epoch n) (arriving n raw) (mh_keys n)
      = Inr (ToServiceNode ((arriving n raw)\<lparr>pk_Raw := u_packet u, pk_Payload := u_payload u, pk_NodeDelay := d, pk_Recipient := Some r, pk_DispatchAt := mh_startAt n\<rparr>),
          Some (a, u_replayTag u), m')"
    by (rule worker_terminates) (use 1(1) u r tag s in \<open>auto simp: nike_Unwrap in_step_def dwell_def\<close>)
  with u r show ?case by auto
next
  case (2 E h h' hs sk sks n ns)
  obtain u rs' mac where u: "unwrapNike c g sk raw = Inr u" "relay (unwrapNike c g) sks (u_packet u) = Inr rs'" "u_payload u = None"
    "length (u_packet u) = len" "u_commands u = hopCommands h @ [NextNodeHop (hopID h') mac]" "routed len payload (h' # hs) rs'"
    "new_to E (mh_keys n) (mh_worker n) (mh_epoch n) (u_replayTag u)" "tags_new E ns rs'"
    using 2(3-5) by (auto simp: go_bind_Inr_iff tags_new_def)
  obtain d where d: "hopCommands h = [NodeDelay d]" "dwell n < uint d * Millisecond" "uint d * Millisecond \<le> int NumMixKeys * cfg_Period (mh_cfg n)"
    using 2(2) by auto
  have tag: "length (u_replayTag u) = TagLength" using unwrapNike_tag [OF u(1)] tags by auto
  have "\<exists>a m'. worker_packet E s c g (mh_cfg n) (mh_worker n) (mh_startAt n) (mh_epoch n) (arriving n raw) (mh_keys n)
      = Inr (ToScheduler ((arriving n raw)\<lparr>pk_Raw := u_packet u, pk_Payload := None, pk_NextNodeHop := Some (hopID h', mac), pk_NodeDelay := Some d,
          pk_Delay := uint d * Millisecond - (mh_startAt n - pk_RecvAt (arriving n raw))\<rparr>), Some (a, u_replayTag u), m')"
    by (rule worker_forwards) (use 2(2) u d tag s in \<open>auto simp: nike_Unwrap in_step_def dwell_def\<close>)
  then obtain a m' where w: "worker_packet E s c g (mh_cfg n) (mh_worker n) (mh_startAt n) (mh_epoch n) (arriving n raw) (mh_keys n)
      = Inr (ToScheduler ((arriving n raw)\<lparr>pk_Raw := u_packet u, pk_Payload := None, pk_NextNodeHop := Some (hopID h', mac), pk_NodeDelay := Some d,
          pk_Delay := uint d * Millisecond - (mh_startAt n - pk_RecvAt (arriving n raw))\<rparr>), Some (a, u_replayTag u), m')" by blast
  have "passed_on len payload (h' # hs) ns (through_mixes E s c g ns (u_packet u))"
    using 2(1) [OF _ u(2) u(6) u(8)] 2(2) by simp
  with w u d show ?case by (simp add: dwell_def)
qed simp_all

section \<open>From end to end\<close>

lemma nodes_ready_last: "nodes_ready E path sks ns \<Longrightarrow> surb_of (hopCommands (last path)) = None"
  by (induction E path sks ns rule: nodes_ready.induct) (auto simp: terminal_commands_def split: option.splits)

text \<open>
  C3. A Sphinx packet travels through the mixes of its path: each node's worker opens it with its key of the
  current epoch and gives its scheduler a packet of the same length for the next node, with what is left
  of the delay that the sender chose, and the service node gets the payload, the recipient and the delay of
  its hop, if it has one. The conditions are on the nodes: none is overloaded, each has the private key of
  its hop and room in the replay filter, the delays are longer than the packet waits for a worker and no
  longer than keys live, and no node's filter takes the tag of this packet for one it has seen.
\<close>

theorem mixes_deliver:
  assumes laws: "crypto_laws c" and nl: "nike_laws c" and tags: "\<And>x. length (sha512_256 c x) = TagLength"
    and rnd: "random_source random" and s: "has_nike s" "\<not> has_kem s"
    and geo: "GeometryFromUserForwardPayloadLength (nikeScheme c) user withSURB nrHops = Inr g"
    and path: "path_ok g 82 path" and keys: "map hopKey path = map (DerivePublicKey c) sks"
    and len: "int (length payload) = ForwardPayloadLength g" and ready: "nodes_ready E path sks ns"
  shows "\<exists>pkt rs. newNikePacket c g (Some (DerivePublicKey c x, x)) random path payload = Inr pkt
     \<and> relay (unwrapNike c g) sks pkt = Inr rs
     \<and> (tags_new E ns rs \<longrightarrow> passed_on (length pkt) payload path ns (through_mixes E s c g ns pkt))"
proof -
  obtain pkt rs where p: "newNikePacket c g (Some (DerivePublicKey c x, x)) random path payload = Inr pkt"
    "relay (unwrapNike c g) sks pkt = Inr rs" "routed (length pkt) payload path rs"
    using nike_packet_delivered [OF laws nl rnd geo path keys nodes_ready_last [OF ready] len] by blast
  with nodes_pass_on [OF s tags ready p(2,3)] show ?thesis by blast
qed

section \<open>Witnesses\<close>

definition demo_mixes :: "(byte, byte, bytes list) mix_env" where
  "demo_mixes = \<lparr>bloom_New = Some [], bloom_Entries = length, bloom_MaxEntries = (\<lambda>_. 100),
     bloom_TestAndSet = (\<lambda>f t. (t \<in> set f, t # f)), has_nikeScheme = True, key_Reset = (\<lambda>(pub, priv). (0, 0)),
     nike_Bytes = (\<lambda>pub. [pub]), kem_MarshalBinary = (\<lambda>_. None)\<rparr>"

lemma demo_bloom_law: "bloom_law demo_mixes"
  unfolding bloom_law_def by (rule exI [of _ "\<lambda>f t. t \<in> set f"]) (simp add: demo_mixes_def)

definition demo_keys_of :: "byte \<Rightarrow> (byte, byte, bytes list) mix_keys" where
  "demo_keys_of sk = (case key_run demo_mixes [Generates (\<lambda>_. Some (sk, sk)) 7, NewWorker] NewMixKeys of Inr m \<Rightarrow> m | Inl _ \<Rightarrow> NewMixKeys)"

definition demo_key_of :: "byte \<Rightarrow> (byte, byte, bytes list) MixKey" where
  "demo_key_of sk = \<lparr>mk_nike = Some (sk, sk), mk_kem = None, mk_epoch = 7, mk_f = [], mk_refCount = 2, mk_unlinkIfExpired = True\<rparr>"

lemma demo_keys_at:
  "key_store (demo_keys_of 5) 0 = Some (demo_key_of 5)" "map_of (worker_keys (demo_keys_of 5) ! 0) 7 = Some 0" "length (worker_keys (demo_keys_of 5)) = 1"
  "key_store (demo_keys_of 6) 0 = Some (demo_key_of 6)" "map_of (worker_keys (demo_keys_of 6) ! 0) 7 = Some 0"
  by code_simp+

lemma demo_holds: "holds_key demo_mixes (demo_keys_of 5) 0 7 5" "holds_key demo_mixes (demo_keys_of 6) 0 7 6"
  using demo_keys_at by (simp_all add: holds_key_def worker_key_def demo_key_of_def PrivateKey_def demo_mixes_def)

lemma demo_keys_reach: "mix_reach demo_mixes s c g cfg (demo_keys_of 5) []"
proof -
  have r: "key_runs demo_mixes [Generates (\<lambda>_. Some (5, 5)) 7, NewWorker] NewMixKeys" by code_simp
  obtain m1 m2 where m: "key_step demo_mixes (Generates (\<lambda>_. Some (5, 5)) 7) NewMixKeys = Inr m1" "key_step demo_mixes NewWorker m1 = Inr m2"
    using r by (auto split: sum.splits)
  have "mix_reach demo_mixes s c g cfg m1 []" by (rule mix_keys_move [OF mix_start _ _ m(1)]) simp_all
  then have "mix_reach demo_mixes s c g cfg m2 []" by (rule mix_keys_move [OF _ _ _ m(2)]) simp_all
  moreover have "demo_keys_of 5 = m2" using m by (simp add: demo_keys_of_def)
  ultimately show ?thesis by simp
qed

definition demo_mix_config :: "bool \<Rightarrow> worker_config" where
  "demo_mix_config service = \<lparr>cfg_IsGatewayNode = False, cfg_IsServiceNode = service, cfg_UnwrapDelay = 10, cfg_Period = Period_default, cfg_recipient = replicate 32 0\<rparr>"

definition demo_hops :: "(byte, byte, bytes list) mix_hop list" where
  "demo_hops = [\<lparr>mh_cfg = demo_mix_config False, mh_keys = demo_keys_of 5, mh_worker = 0, mh_fromClient = True, mh_epoch = 7, mh_recvAt = 100, mh_startAt = 1100\<rparr>,
     \<lparr>mh_cfg = demo_mix_config True, mh_keys = demo_keys_of 6, mh_worker = 0, mh_fromClient = False, mh_epoch = 7, mh_recvAt = 8000000, mh_startAt = 8000500\<rparr>]"

definition demo_sphinx :: sphinx where
  "demo_sphinx = \<lparr>has_nike = True, has_kem = False\<rparr>"

lemma demo_tags: "length (sha512_256 demo_crypto x) = TagLength"
  by (simp add: demo_crypto_def TagLength_def)

text \<open>A path as it is made for a packet with a SURB.\<close>

definition demo_client_path :: "byte PathHop list" where
  "demo_client_path = demo_path [NodeDelay 9, Recipient (replicate 32 4)]"

lemma demo_client_path_ok: "path_ok demo_geometry3 82 demo_client_path"
  by (simp add: demo_client_path_def path_ok_def demo_path_def demo_geometry3(3) commands_fit_def one_at_most_def
      routing_writers sphinx_lengths nextNodeHopLength_def)

lemma demo_nodes_ready: "nodes_ready demo_mixes demo_client_path [5, 6] demo_hops"
proof -
  have "\<exists>d r. [NodeDelay 9, Recipient (replicate 32 4)] = terminal_commands d r"
    by (rule exI [of _ "Some 9"]) (simp add: terminal_commands_def)
  then show ?thesis
    using demo_holds by (simp add: demo_client_path_def demo_path_def demo_hops_def in_step_def dwell_def demo_mix_config_def
        Millisecond_def NumMixKeys_def Period_default_def)
qed

lemma demo_tags_new: "relay f [5, 6] pkt = Inr rs \<Longrightarrow> tags_new demo_mixes demo_hops rs"
  using demo_keys_at by (auto simp: go_bind_Inr_iff tags_new_def demo_hops_def new_to_def worker_key_def demo_key_of_def demo_mixes_def)

lemma mixes_deliver_witness:
  "\<exists>pkt. newNikePacket demo_crypto demo_geometry3 (Some (3, 3)) (\<lambda>n. Some (replicate n 3)) demo_client_path (replicate 100 8) = Inr pkt
     \<and> passed_on (length pkt) (replicate 100 8) demo_client_path demo_hops
          (through_mixes demo_mixes demo_sphinx demo_crypto demo_geometry3 demo_hops pkt)"
proof -
  have keys: "map hopKey demo_client_path = map (DerivePublicKey demo_crypto) [5, 6]"
    by (simp add: demo_client_path_def demo_path_def demo_crypto_def)
  show ?thesis
    using mixes_deliver [OF demo_crypto_laws demo_tags demo_random _ _ demo_geometry3(1) demo_client_path_ok keys _ demo_nodes_ready,
        of demo_sphinx "replicate 100 8" 3] demo_tags_new
    by (auto simp: demo_crypto_def demo_geometry3(2) demo_sphinx_def)
qed

text \<open>
  C4. A mix processes no packet twice: whatever its workers are sent, in whatever order, and however keys
  are made and dropped meanwhile, no replay tag is accepted a second time under the same key.
\<close>

theorem no_packet_processed_twice:
  assumes "bloom_law E" and "mix_reach E s c g cfg m log"
  shows "distinct (map fst log)"
  using assms no_replay [of _ E s c g cfg m log] unfolding bloom_law_def by blast

lemma no_packet_processed_twice_witness:
  "\<exists>m log. mix_reach demo_mixes demo_sphinx demo_crypto demo_geometry3 (demo_mix_config False) m log \<and> length log = 1 \<and> distinct (map fst log)"
proof -
  obtain pkt rs where p: "relay (unwrapNike demo_crypto demo_geometry3) [5, 6] pkt = Inr rs"
    "routed (length pkt) (replicate 100 8) (demo_path [Recipient (replicate 32 4)]) rs"
    using nike_packet_delivered [OF demo_crypto_laws demo_random demo_geometry3(1) demo_path_ok(1), of "[5, 6]" "replicate 100 8" 3]
    by (auto simp: demo_path_def demo_crypto_def demo_geometry3(2))
  obtain u mac where u: "unwrapNike demo_crypto demo_geometry3 5 pkt = Inr u" "u_payload u = None"
    "u_commands u = [NodeDelay 7, NextNodeHop (replicate 32 2) mac]"
    using p by (auto simp: demo_path_def go_bind_Inr_iff)
  have tag: "length (u_replayTag u) = TagLength" using unwrapNike_tag [OF u(1)] demo_tags by auto
  let ?n = "hd demo_hops" and ?cfg = "demo_mix_config False"
  have new: "new_to demo_mixes (demo_keys_of 5) 0 7 (u_replayTag u)"
    using demo_keys_at by (simp add: new_to_def worker_key_def demo_key_of_def demo_mixes_def)
  have raw: "Unwrap demo_sphinx demo_crypto demo_geometry3 5 (pk_Raw (arriving ?n pkt)) = Inr u"
    using u by (simp add: demo_sphinx_def Unwrap_def)
  have "\<exists>a m'. worker_packet demo_mixes demo_sphinx demo_crypto demo_geometry3 ?cfg 0 1100 7 (arriving ?n pkt) (demo_keys_of 5)
      = Inr (ToScheduler ((arriving ?n pkt)\<lparr>pk_Raw := u_packet u, pk_Payload := None, pk_NextNodeHop := Some (replicate 32 2, mac), pk_NodeDelay := Some 7,
         pk_Delay := uint (7 :: u32) * Millisecond - (1100 - pk_RecvAt (arriving ?n pkt))\<rparr>), Some (a, u_replayTag u), m')"
    by (rule worker_forwards [OF demo_holds(1) new raw tag u(2,3)])
      (simp_all add: demo_hops_def demo_mix_config_def Millisecond_def NumMixKeys_def Period_default_def)
  then obtain a m' d where w: "worker_packet demo_mixes demo_sphinx demo_crypto demo_geometry3 ?cfg 0 1100 7 (arriving ?n pkt) (demo_keys_of 5)
      = Inr (d, Some (a, u_replayTag u), m')" by blast
  have "mix_reach demo_mixes demo_sphinx demo_crypto demo_geometry3 ?cfg m' ([] @ [((a, u_replayTag u), d)])"
    using mix_packet [OF demo_keys_reach _ w] demo_keys_at(3) by simp
  with no_packet_processed_twice [OF demo_bloom_law this] show ?thesis by (intro exI [of _ m'] exI [of _ "[((a, u_replayTag u), d)]"]) simp
qed

end
