(* ===== verification/SphinxRoute.thy ===== *)
theory SphinxRoute
  imports PKIDocument SphinxPacket EpochTime
begin

text \<open>
  The choice of a path (core/sphinx/path/path.go): the hops from the layers of the document, the keys
  that the hops will have when the packet reaches them, the delays, and the commands. Numbers from the
  random source are arguments, one stream per attempt: \<open>pick i\<close> chooses in the \<open>i\<close>-th layer looked at,
  \<open>draw i\<close> is the exponential sample for the \<open>i\<close>-th hop, as converted to \<open>uint64\<close>.
\<close>

datatype path_err =
    pathLookup lookup_err | invalidDestination bytes | invalidSourceFromClient bytes | invalidSourceLayer byte
  | layerHasNoNodes nat | errMixKey | errMaxAttempts

definition lift_lookup :: "(lookup_err, 'a) go \<Rightarrow> (path_err, 'a) go" where
  "lift_lookup r = (case r of Inr a \<Rightarrow> Inr a | Inl Panic \<Rightarrow> Inl Panic | Inl (Err e) \<Rightarrow> Inl (Err (pathLookup e)))"

section \<open>The hops\<close>

fun pick_hops :: "(nat \<Rightarrow> nat) \<Rightarrow> byte \<Rightarrow> nat \<Rightarrow> MixDescriptor list list \<Rightarrow> (path_err, MixDescriptor list) go" where
  "pick_hops pick dstLayer i [] = Inr []"
| "pick_hops pick dstLayer i (nodes # rest) =
     (if i = unat dstLayer then Inr []
      else if nodes = [] then Inl (Err (layerHasNoNodes i))
      else go_bind (pick_hops pick dstLayer (Suc i) rest) (\<lambda>hops. Inr (nodes ! (pick i mod length nodes) # hops)))"

text \<open>
  Where a path starts, and what comes before the layers; or a path of the destination alone. The
  switch compares the layer with those of gateways and services before it looks for the last layer.
\<close>

datatype path_start = OnlyDestination | StartAt nat

definition path_from ::
  "('vk, 'sk) pki_env \<Rightarrow> Document \<Rightarrow> MixDescriptor \<Rightarrow> MixDescriptor \<Rightarrow> byte \<Rightarrow> byte \<Rightarrow> bool \<Rightarrow> bool \<Rightarrow> (path_err, path_start) go" where
  "path_from x doc src dst srcLayer dstLayer isFromClient isForward =
     (let layers = length (Topology doc) in
      if isForward then
        (if \<not> IsServiceNode dst then Inl (Err (invalidDestination (md_hash x dst)))
         else if isFromClient then
           (if \<not> IsGatewayNode src then Inl (Err (invalidSourceFromClient (md_hash x src))) else Inr (StartAt 0))
         else if unat srcLayer = LayerGateway \<or> unat srcLayer = LayerService then Inr (StartAt 0)
         else if int (unat srcLayer) = int layers - 1 then Inr OnlyDestination
         else Inr (StartAt (unat srcLayer + 1)))
      else if unat srcLayer \<noteq> LayerService then Inl (Err (invalidSourceLayer srcLayer))
      else if unat dstLayer = LayerGateway \<or> unat dstLayer = LayerService then Inr (StartAt 0)
      else if dstLayer = 0 then Inr OnlyDestination
      else Inr (StartAt 0))"

definition selectHops ::
  "('vk, 'sk) pki_env \<Rightarrow> (nat \<Rightarrow> nat) \<Rightarrow> Document \<Rightarrow> MixDescriptor \<Rightarrow> MixDescriptor \<Rightarrow> bool \<Rightarrow> bool \<Rightarrow> (path_err, MixDescriptor list) go" where
  "selectHops x pick doc src dst isFromClient isForward =
     go_bind (lift_lookup (GetMixLayer x doc (md_hash x src))) (\<lambda>srcLayer.
     go_bind (lift_lookup (GetMixLayer x doc (md_hash x dst))) (\<lambda>dstLayer.
     go_bind (path_from x doc src dst srcLayer dstLayer isFromClient isForward) (\<lambda>start. case start of
       OnlyDestination \<Rightarrow> Inr [dst]
     | StartAt startLayer \<Rightarrow>
         if length (Topology doc) < startLayer then Inl Panic
         else go_bind (pick_hops pick dstLayer 0 (drop startLayer (Topology doc))) (\<lambda>hops.
           Inr ((if isForward \<and> isFromClient then [src] else []) @ hops @ [dst])))))"

section \<open>Keys, delays and commands\<close>

text \<open>
  \<open>route_kem_key\<close> reads a KEM key; the scheme of a key exchange is that of \<open>crypto\<close>. A scheme the
  geometry names and that is not registered makes the code panic. \<open>route_cap\<close> is what
  \<open>SafetyCap\<close> computes from \<open>Mu\<close>: floating point is outside the model.
\<close>

record 'pub route_env =
  route_Period :: int
  route_nike_known :: bool
  route_kem_known :: bool
  route_kem_key :: "bytes \<Rightarrow> 'pub option"
  route_cap :: u64

definition UnmarshalMixKey ::
  "('pub, 'priv) crypto \<Rightarrow> 'pub route_env \<Rightarrow> Geometry \<Rightarrow> bytes \<Rightarrow> (path_err, 'pub) go" where
  "UnmarshalMixKey c r g key =
     (if NIKEName g = [] then (if route_kem_known r then or_err errMixKey (route_kem_key r key) else Inl Panic)
      else if route_nike_known r then or_err errMixKey (UnmarshalPublicKey c key) else Inl Panic)"

definition hop_delay :: "'pub route_env \<Rightarrow> u64 \<Rightarrow> u64" where
  "hop_delay r sample = (let delay = sample + 1 in if 0 < route_cap r \<and> route_cap r < delay then route_cap r else delay)"

text \<open>The commands of a hop: \<open>terminal\<close> says that it is the last one.\<close>

definition has_delay :: "bool \<Rightarrow> bytes option \<Rightarrow> bool \<Rightarrow> bool" where
  "has_delay terminal surbID isForward \<longleftrightarrow> \<not> terminal \<or> surbID \<noteq> None \<and> isForward"

definition hop_commands :: "bool \<Rightarrow> bytes \<Rightarrow> bytes option \<Rightarrow> bool \<Rightarrow> u64 \<Rightarrow> RoutingCommand list" where
  "hop_commands terminal recipient surbID isForward delay =
     (if has_delay terminal surbID isForward then [NodeDelay (ucast delay)] else [])
     @ (if terminal then Recipient (copy_into RecipientIDLength recipient)
          # (case surbID of Some i \<Rightarrow> if isForward then [] else [SURBReply i] | None \<Rightarrow> []) else [])"

text \<open>
  The loop over the hops at index \<open>i\<close>; \<open>time_then\<close> is when the packet reaches the next one. \<open>None\<close> stands for
  \<open>continue selectLoop\<close>: a hop has no key for its epoch.
\<close>

fun make_hops ::
  "('vk, 'sk) pki_env \<Rightarrow> ('pub, 'priv) crypto \<Rightarrow> 'pub route_env \<Rightarrow> Geometry \<Rightarrow> (nat \<Rightarrow> u64) \<Rightarrow> bytes \<Rightarrow> bytes option \<Rightarrow> bool
     \<Rightarrow> nat \<Rightarrow> MixDescriptor list \<Rightarrow> int \<Rightarrow> (path_err, ('pub PathHop list \<times> int) option) go" where
  "make_hops x c r g draw recipient surbID isForward i [] time_then = Inr (Some ([], time_then))"
| "make_hops x c r g draw recipient surbID isForward i (desc # descs) time_then =
     (case FromUnix (route_Period r) (time_then div 10 ^ 9) of
        Inl _ \<Rightarrow> Inl Panic
      | Inr (epoch, _, _) \<Rightarrow>
          (case map_of (MixKeys desc) epoch of
             None \<Rightarrow> Inr None
           | Some key \<Rightarrow> go_bind (UnmarshalMixKey c r g (raw_key key)) (\<lambda>pub.
               let terminal = (descs = []);
                   delay = hop_delay r (draw i);
                   time_then' = (if has_delay terminal surbID isForward
                                 then time_then + duration_times (Duration delay) (10 ^ 6) else time_then);
                   h = \<lparr>hopID = copy_into NodeIDLength (md_hash x desc), hopKey = pub,
                        hopCommands = hop_commands terminal recipient surbID isForward delay\<rparr>
               in go_bind (make_hops x c r g draw recipient surbID isForward (Suc i) descs time_then')
                    (\<lambda>res. Inr (map_option (\<lambda>(p, t). (h # p, t)) res)))))"

section \<open>The path\<close>

definition maxAttempts :: nat where "maxAttempts = 3"

text \<open>\<open>n\<close> attempts are left; \<open>pick n\<close> and \<open>draw n\<close> are the numbers of this one.\<close>

fun path_attempts ::
  "('vk, 'sk) pki_env \<Rightarrow> ('pub, 'priv) crypto \<Rightarrow> 'pub route_env \<Rightarrow> (nat \<Rightarrow> nat \<Rightarrow> nat) \<Rightarrow> (nat \<Rightarrow> nat \<Rightarrow> u64) \<Rightarrow> Geometry \<Rightarrow> Document \<Rightarrow> bytes
     \<Rightarrow> MixDescriptor \<Rightarrow> MixDescriptor \<Rightarrow> bytes option \<Rightarrow> int \<Rightarrow> bool \<Rightarrow> bool \<Rightarrow> nat \<Rightarrow> (path_err, 'pub PathHop list \<times> int) go" where
  "path_attempts x c r pick draw g doc recipient src dst surbID baseTime isFromClient isForward 0 = Inl (Err errMaxAttempts)"
| "path_attempts x c r pick draw g doc recipient src dst surbID baseTime isFromClient isForward (Suc n) =
     go_bind (selectHops x (pick n) doc src dst isFromClient isForward) (\<lambda>descs.
     go_bind (make_hops x c r g (draw n) recipient surbID isForward 0 descs baseTime) (\<lambda>res. case res of
         None \<Rightarrow> path_attempts x c r pick draw g doc recipient src dst surbID baseTime isFromClient isForward n
       | Some p \<Rightarrow> Inr p))"

definition path_New ::
  "('vk, 'sk) pki_env \<Rightarrow> ('pub, 'priv) crypto \<Rightarrow> 'pub route_env \<Rightarrow> (nat \<Rightarrow> nat \<Rightarrow> nat) \<Rightarrow> (nat \<Rightarrow> nat \<Rightarrow> u64) \<Rightarrow> Geometry \<Rightarrow> Document \<Rightarrow> bytes
     \<Rightarrow> MixDescriptor \<Rightarrow> MixDescriptor \<Rightarrow> bytes option \<Rightarrow> int \<Rightarrow> bool \<Rightarrow> bool \<Rightarrow> (path_err, 'pub PathHop list \<times> int) go" where
  "path_New x c r pick draw g doc recipient src dst surbID baseTime isFromClient isForward =
     path_attempts x c r pick draw g doc recipient src dst surbID baseTime isFromClient isForward maxAttempts"

text \<open>\<open>ToString\<close>, with the lines before formatting: index, name and delay.\<close>

fun first_delay :: "RoutingCommand list \<Rightarrow> u32" where
  "first_delay [] = 0"
| "first_delay (NodeDelay d # cmds) = d"
| "first_delay (_ # cmds) = first_delay cmds"

fun path_ToString ::
  "('vk, 'sk) pki_env \<Rightarrow> Document \<Rightarrow> nat \<Rightarrow> 'pub PathHop list \<Rightarrow> (lookup_err, (nat \<times> string \<times> u32) list) go" where
  "path_ToString x doc i [] = Inr []"
| "path_ToString x doc i (h # hs) =
     go_bind (GetNodeByKeyHash x doc (hopID h)) (\<lambda>desc.
     go_bind (path_ToString x doc (Suc i) hs) (\<lambda>s. Inr ((i, Name desc, first_delay (hopCommands h)) # s)))"

end
