(* ===== verification/SphinxRouteProps.thy ===== *)
theory SphinxRouteProps
  imports SphinxRoute SphinxProps
begin

text \<open>
  What the choice of a path promises: a path visits one node of each layer in order, from the gateway to the
  service node or back, every hop is addressed with the key it has published for the epoch in which the packet
  reaches it, and the commands fit the packet format.
\<close>

section \<open>Times and keys\<close>

definition delay_ns :: "'pub PathHop \<Rightarrow> int" where
  "delay_ns h = uint (first_delay (hopCommands h)) * 10 ^ 6"

text \<open>When a packet that leaves at \<open>base\<close> reaches the hop at index \<open>k\<close>.\<close>

definition arrival :: "int \<Rightarrow> 'pub PathHop list \<Rightarrow> nat \<Rightarrow> int" where
  "arrival base p k = base + sum_list (map delay_ns (take k p))"

definition published_key ::
  "('pub, 'priv) crypto \<Rightarrow> 'pub route_env \<Rightarrow> Geometry \<Rightarrow> MixDescriptor \<Rightarrow> int \<Rightarrow> 'pub \<Rightarrow> bool" where
  "published_key c r g desc t pub \<longleftrightarrow> (\<exists>epoch elapsed till key. FromUnix (route_Period r) (t div 10 ^ 9) = Inr (epoch, elapsed, till)
     \<and> map_of (MixKeys desc) epoch = Some key \<and> UnmarshalMixKey c r g (raw_key key) = Inr pub)"

lemma arrival_simps [simp]:
  "arrival base p 0 = base"
  "arrival base (h # p) (Suc k) = arrival (base + delay_ns h) p k"
  by (simp_all add: arrival_def)

lemma hop_delay_capped: "0 < route_cap r \<Longrightarrow> hop_delay r s \<le> route_cap r"
  by (auto simp: hop_delay_def Let_def not_less)

lemma first_delay_commands:
  "first_delay (hop_commands terminal recipient surbID isForward delay) = (if has_delay terminal surbID isForward then ucast delay else 0)"
  by (simp add: hop_commands_def split: option.split)

lemma small_delay:
  assumes "d \<le> cap" and "cap < 2 ^ 32"
  shows "duration_times (Duration d) (10 ^ 6) = uint (ucast d :: u32) * 10 ^ 6"
proof -
  have "uint d < 2 ^ 32" using assms by (simp add: word_le_def word_less_def)
  then have "uint (ucast d :: u32) = uint d" by (simp add: unsigned_ucast_eq take_bit_word_eq_self) (simp add: unsigned_take_bit_eq take_bit_int_eq_self)
  moreover have "Duration d = uint d" using \<open>uint d < 2 ^ 32\<close> by (simp add: Duration_def int64_nonneg)
  moreover have "duration_times (uint d) (10 ^ 6) = uint d * 10 ^ 6"
    unfolding duration_times_def by (rule int64_nonneg) (use \<open>uint d < 2 ^ 32\<close> in simp_all)
  ultimately show ?thesis by simp
qed

text \<open>The hops of a path against the nodes they stand for.\<close>

definition hop_of ::
  "('vk, 'sk) pki_env \<Rightarrow> ('pub, 'priv) crypto \<Rightarrow> 'pub route_env \<Rightarrow> Geometry \<Rightarrow> bytes \<Rightarrow> bytes option \<Rightarrow> bool
     \<Rightarrow> bool \<Rightarrow> MixDescriptor \<Rightarrow> int \<Rightarrow> 'pub PathHop \<Rightarrow> bool" where
  "hop_of x c r g recipient surbID isForward terminal desc t h \<longleftrightarrow>
     hopID h = copy_into NodeIDLength (md_hash x desc) \<and> published_key c r g desc t (hopKey h)
     \<and> (\<exists>delay \<le> route_cap r. hopCommands h = hop_commands terminal recipient surbID isForward delay)"

lemma make_hops_sound:
  assumes "0 < route_cap r" and "route_cap r < 2 ^ 32"
    and "make_hops x c r g draw recipient surbID isForward i descs t = Inr (Some (p, t'))"
  shows "length p = length descs \<and> t' = arrival t p (length p)
     \<and> (\<forall>k < length p. hop_of x c r g recipient surbID isForward (Suc k = length p) (descs ! k) (arrival t p k) (p ! k))"
  using assms(3)
proof (induction descs arbitrary: i t p)
  case Nil
  then show ?case by simp
next
  case (Cons desc descs)
  let ?last = "descs = []" and ?d = "hop_delay r (draw i)"
  let ?t = "if has_delay ?last surbID isForward then t + duration_times (Duration ?d) (10 ^ 6) else t"
  obtain epoch el till key pub p' where m: "FromUnix (route_Period r) (t div 10 ^ 9) = Inr (epoch, el, till)"
    "map_of (MixKeys desc) epoch = Some key" "UnmarshalMixKey c r g (raw_key key) = Inr pub"
    "make_hops x c r g draw recipient surbID isForward (Suc i) descs ?t = Inr (Some (p', t'))"
    and p: "p = \<lparr>hopID = copy_into NodeIDLength (md_hash x desc), hopKey = pub,
        hopCommands = hop_commands ?last recipient surbID isForward ?d\<rparr> # p'"
    using Cons.prems by (auto simp: go_bind_Inr_iff Let_def split: sum.splits option.splits)
  let ?h = "hd p"
  have h: "delay_ns ?h = (if has_delay ?last surbID isForward then duration_times (Duration ?d) (10 ^ 6) else 0)"
    using small_delay [OF hop_delay_capped [OF assms(1)] assms(2)] by (simp add: p delay_ns_def first_delay_commands)
  define t1 where "t1 = ?t"
  have t: "t + delay_ns ?h = t1" using h by (simp add: t1_def)
  note IH = Cons.IH [OF m(4), folded t1_def]
  have ends: "?last = (p' = [])" using IH by auto
  have first: "hop_of x c r g recipient surbID isForward (Suc 0 = length p) desc t ?h"
    using m hop_delay_capped [OF assms(1)] ends by (auto simp: p hop_of_def published_key_def)
  have "k < length p \<Longrightarrow> hop_of x c r g recipient surbID isForward (Suc k = length p) ((desc # descs) ! k) (arrival t p k) (p ! k)" for k
  proof (cases k)
    case 0
    then show ?thesis using first by (simp add: p)
  next
    case (Suc j)
    moreover assume "k < length p"
    ultimately show ?thesis using IH t [unfolded p list.sel] by (auto simp: p)
  qed
  moreover have "length p = length (desc # descs)" "t' = arrival t p (length p)" using IH t [unfolded p list.sel] by (simp_all add: p)
  ultimately show ?case by blast
qed

section \<open>One node of each layer\<close>

lemma pick_hops_layers:
  "pick_hops pick dstLayer i layers = Inr hops \<Longrightarrow> i + length layers \<le> unat dstLayer
     \<Longrightarrow> length hops = length layers \<and> (\<forall>k < length layers. hops ! k \<in> set (layers ! k))"
proof (induction layers arbitrary: i hops)
  case (Cons nodes rest)
  obtain hops' where h: "hops = nodes ! (pick i mod length nodes) # hops'" "pick_hops pick dstLayer (Suc i) rest = Inr hops'" "nodes \<noteq> []"
    using Cons.prems by (auto simp: go_bind_Inr_iff split: if_splits)
  from Cons.IH [OF h(2)] Cons.prems(2)
  have IH: "length hops' = length rest" "\<forall>k < length rest. hops' ! k \<in> set (rest ! k)" by simp_all
  have "k < length (nodes # rest) \<Longrightarrow> hops ! k \<in> set ((nodes # rest) ! k)" for k
    using IH h by (cases k) auto
  then show ?case using IH h by simp
qed simp

lemma layer_of_provider:
  assumes "d \<in> set (GatewayNodes doc) \<or> d \<in> set (ServiceNodes doc)" and "GetMixLayer x doc (md_hash x d) = Inr l"
  shows "LayerService \<le> unat l"
  using assms by (auto simp: GetMixLayer_def LayerService_def LayerGateway_def split: if_splits)

lemma lift_lookup_Inr_iff [simp]: "lift_lookup r = Inr a \<longleftrightarrow> r = Inr a"
  by (auto simp: lift_lookup_def split: sum.splits fail.splits)

lemma selectHops_client:
  assumes s: "selectHops x pick doc src dst True isForward = Inr descs"
    and dst: "dst \<in> set (GatewayNodes doc) \<or> dst \<in> set (ServiceNodes doc)"
    and layers: "length (Topology doc) \<le> LayerService"
  shows "\<exists>hops. length hops = length (Topology doc) \<and> (\<forall>k < length (Topology doc). hops ! k \<in> set (Topology doc ! k))
     \<and> descs = (if isForward then [src] else []) @ hops @ [dst]"
proof -
  obtain srcLayer dstLayer st where l: "GetMixLayer x doc (md_hash x dst) = Inr dstLayer"
    "path_from x doc src dst srcLayer dstLayer True isForward = Inr st"
    and d: "(case st of OnlyDestination \<Rightarrow> Inr [dst] | StartAt startLayer \<Rightarrow>
         if length (Topology doc) < startLayer then Inl Panic
         else go_bind (pick_hops pick dstLayer 0 (drop startLayer (Topology doc))) (\<lambda>hops.
           Inr ((if isForward then [src] else []) @ hops @ [dst]))) = Inr descs"
    using s unfolding selectHops_def go_bind_Inr_iff lift_lookup_Inr_iff simp_thms by blast
  have dl: "LayerService \<le> unat dstLayer" by (rule layer_of_provider [OF dst l(1)])
  then have nz: "dstLayer \<noteq> 0" by (auto simp: LayerService_def)
  have "unat dstLayer < 256" by (rule unat_lt_byte)
  then have pr: "unat dstLayer = LayerGateway \<or> unat dstLayer = LayerService" using dl by (auto simp: LayerService_def LayerGateway_def)
  have "st = StartAt 0" using l(2) nz pr by (auto simp: path_from_def Let_def split: if_splits)
  then obtain hops where h: "pick_hops pick dstLayer 0 (Topology doc) = Inr hops" "descs = (if isForward then [src] else []) @ hops @ [dst]"
    using d by (auto simp: go_bind_Inr_iff)
  from pick_hops_layers [OF h(1)] dl layers h(2) show ?thesis by auto
qed

section \<open>The path\<close>

lemma path_attempts_some:
  "path_attempts x c r pick draw g doc recipient src dst surbID baseTime isFromClient isForward n = Inr (p, t) \<Longrightarrow>
   \<exists>m descs. selectHops x (pick m) doc src dst isFromClient isForward = Inr descs
     \<and> make_hops x c r g (draw m) recipient surbID isForward 0 descs baseTime = Inr (Some (p, t))"
  by (induction n) (auto simp: go_bind_Inr_iff split: option.splits)

lemma path_New_sound:
  assumes p: "path_New x c r pick draw g doc recipient src dst surbID baseTime True isForward = Inr (p, t)"
    and dst: "dst \<in> set (GatewayNodes doc) \<or> dst \<in> set (ServiceNodes doc)"
    and layers: "length (Topology doc) \<le> LayerService" and cap: "0 < route_cap r" "route_cap r < 2 ^ 32"
  shows "\<exists>hops descs. descs = (if isForward then [src] else []) @ hops @ [dst] \<and> length p = length descs
     \<and> length hops = length (Topology doc) \<and> (\<forall>k < length (Topology doc). hops ! k \<in> set (Topology doc ! k))
     \<and> t = arrival baseTime p (length p)
     \<and> (\<forall>k < length p. hop_of x c r g recipient surbID isForward (Suc k = length p) (descs ! k) (arrival baseTime p k) (p ! k))"
proof -
  obtain m descs where d: "selectHops x (pick m) doc src dst True isForward = Inr descs"
    "make_hops x c r g (draw m) recipient surbID isForward 0 descs baseTime = Inr (Some (p, t))"
    using path_attempts_some [OF p [unfolded path_New_def]] by auto
  from selectHops_client [OF d(1) dst layers] make_hops_sound [OF cap d(2)] show ?thesis by metis
qed

end
