(* ===== verification/ClientListener.thy ===== *)
theory ClientListener
  imports PigeonholeHelpers
begin

text \<open>
  The connections of applications to the client daemon (client/listener.go, the queues of incoming_conn.go,
  sender.go): the round robin that fills the slots of the Poisson process, sessions that outlive their
  connection, and the replies queued meanwhile. A connection is an object with an address, because two
  keys of the map can be one object; what an application sends and what it is sent are type parameters.
  \<open>conn_done\<close> is the closed \<open>doneCh\<close>: the writer closes it when a write fails, while the worker goes on
  reading requests, and the worker before it leaves (\<open>closeDone\<close>). \<open>worker_ended\<close> is no field of the code:
  it says that the worker has returned from \<open>onClosedConn\<close>, the last thing it does.
\<close>

text \<open>A pointer to a SURB ID: the code compares some of them by address and others by value.\<close>

type_synonym surb_ref = "nat \<times> bytes"

record ('q, 'r) conn =
  conn_appID :: bytes
  clientToken :: "bytes option"
  explicitClose :: bool
  requestCh :: "'q list"
  resendCh :: "surb_ref list"
  sendQueue :: "'r list"
  conn_done :: bool
  worker_ended :: bool
  initialSequenceDone :: bool

record 'r session =
  session_Token :: bytes
  QueuedReplies :: "'r list"

record ('q, 'r) listener =
  conn_at :: "nat \<rightharpoonup> ('q, 'r) conn"
  next_conn :: nat
  conns :: "bytes \<rightharpoonup> nat"
  connOrder :: "bytes list"
  rrCursor :: nat
  clientTokens :: "bytes \<rightharpoonup> bytes"
  disconnectedSessions :: "bytes \<rightharpoonup> 'r session"

definition perClientRequestBuf :: nat where "perClientRequestBuf = 16"
definition perClientResendBuf :: nat where "perClientResendBuf = 8"
definition maxQueuedReplies :: nat where "maxQueuedReplies = 1000"

section \<open>One connection\<close>

definition upd_conn :: "nat \<Rightarrow> (('q, 'r) conn \<Rightarrow> ('q, 'r) conn) \<Rightarrow> ('q, 'r) listener \<Rightarrow> ('q, 'r) listener" where
  "upd_conn i f l = l\<lparr>conn_at := (conn_at l)(i := map_option f (conn_at l i))\<rparr>"

text \<open>A response is dropped if the connection is being taken down.\<close>

definition sendResponse :: "nat \<Rightarrow> 'r \<Rightarrow> ('q, 'r) listener \<Rightarrow> ('q, 'r) listener" where
  "sendResponse i r = upd_conn i (\<lambda>c. if conn_done c then c else c\<lparr>sendQueue := sendQueue c @ [r]\<rparr>)"

text \<open>The reader waits while the queue of requests is full; the sender of resends does not.\<close>

definition queue_request :: "nat \<Rightarrow> 'q \<Rightarrow> ('q, 'r) listener \<Rightarrow> ('q, 'r) listener" where
  "queue_request i q = upd_conn i (\<lambda>c. if length (requestCh c) < perClientRequestBuf then c\<lparr>requestCh := requestCh c @ [q]\<rparr> else c)"

definition resend_room :: "nat \<Rightarrow> ('q, 'r) listener \<Rightarrow> bool" where
  "resend_room i l = (case conn_at l i of None \<Rightarrow> False | Some c \<Rightarrow> length (resendCh c) < perClientResendBuf)"

definition queue_resend :: "nat \<Rightarrow> surb_ref \<Rightarrow> ('q, 'r) listener \<Rightarrow> ('q, 'r) listener" where
  "queue_resend i s = upd_conn i (\<lambda>c. c\<lparr>resendCh := resendCh c @ [s]\<rparr>)"

text \<open>By the writer after an error, or by the worker: nothing is queued from now on, but the connection stays registered.\<close>

definition closeDone :: "nat \<Rightarrow> ('q, 'r) listener \<Rightarrow> ('q, 'r) listener" where
  "closeDone i = upd_conn i (\<lambda>c. c\<lparr>conn_done := True\<rparr>)"

section \<open>The map of connections\<close>

definition getConnection :: "bytes \<Rightarrow> ('q, 'r) listener \<Rightarrow> nat option" where
  "getConnection app l = conns l app"

definition registerConn :: "nat \<Rightarrow> bytes \<Rightarrow> ('q, 'r) listener \<Rightarrow> ('q, 'r) listener" where
  "registerConn i app l = l\<lparr>conns := (conns l)(app \<mapsto> i), connOrder := connOrder l @ [app]\<rparr>"

text \<open>A new connection gets a random application ID; its first two events are the arguments.\<close>

definition onNewConn :: "bytes \<Rightarrow> 'r \<Rightarrow> 'r \<Rightarrow> ('q, 'r) listener \<Rightarrow> ('q, 'r) listener" where
  "onNewConn app status doc l =
     (let i = next_conn l;
          c = \<lparr>conn_appID = app, clientToken = None, explicitClose = False, requestCh = [], resendCh = [],
               sendQueue = [], conn_done = False, worker_ended = False, initialSequenceDone = False\<rparr>;
          l1 = registerConn i app (l\<lparr>conn_at := (conn_at l)(i \<mapsto> c), next_conn := Suc i\<rparr>)
      in upd_conn i (\<lambda>c. c\<lparr>initialSequenceDone := True\<rparr>) (sendResponse i doc (sendResponse i status l1)))"

text \<open>To every connection of the map, whose keys are those of the rotation, that has had its first two events.\<close>

definition broadcast :: "'r \<Rightarrow> ('q, 'r) listener \<Rightarrow> ('q, 'r) listener" where
  "broadcast r l = fold (\<lambda>app l. case conns l app of None \<Rightarrow> l
     | Some i \<Rightarrow> upd_conn i (\<lambda>c. if initialSequenceDone c \<and> \<not> conn_done c then c\<lparr>sendQueue := sendQueue c @ [r]\<rparr> else c) l)
     (remdups (connOrder l)) l"

definition unregisterConn :: "bytes \<Rightarrow> ('q, 'r) listener \<Rightarrow> ('q, 'r) listener" where
  "unregisterConn app l =
     (let i = length (takeWhile (\<lambda>x. x \<noteq> app) (connOrder l));
          order = remove1 app (connOrder l);
          cursor = (if app \<in> set (connOrder l) \<and> rrCursor l > i then rrCursor l - 1 else rrCursor l)
      in l\<lparr>conns := (conns l)(app := None), connOrder := order,
           rrCursor := (if order = [] then 0 else if cursor \<ge> length order then cursor mod length order else cursor)\<rparr>)"

section \<open>The round robin\<close>

datatype 'q pick = PickResend bytes surb_ref | PickRequest 'q

text \<open>What the connection at a place of the rotation has to send: a resend before a request.\<close>

definition take_next :: "('q, 'r) conn \<Rightarrow> ('q pick \<times> ('q, 'r) conn) option" where
  "take_next c = (case resendCh c of
      s # ss \<Rightarrow> Some (PickResend (conn_appID c) s, c\<lparr>resendCh := ss\<rparr>)
    | [] \<Rightarrow> (case requestCh c of q # qs \<Rightarrow> Some (PickRequest q, c\<lparr>requestCh := qs\<rparr>) | [] \<Rightarrow> None))"

definition conn_in_order :: "nat \<Rightarrow> ('q, 'r) listener \<Rightarrow> (nat \<times> ('q, 'r) conn) option" where
  "conn_in_order idx l = (case conns l (connOrder l ! idx) of None \<Rightarrow> None
     | Some i \<Rightarrow> map_option (Pair i) (conn_at l i))"

fun pick_scan :: "nat list \<Rightarrow> ('q, 'r) listener \<Rightarrow> ('q pick \<times> nat \<times> ('q, 'r) listener) option" where
  "pick_scan [] l = None"
| "pick_scan (idx # rest) l =
     (case conn_in_order idx l of None \<Rightarrow> pick_scan rest l
      | Some (i, c) \<Rightarrow> (case take_next c of None \<Rightarrow> pick_scan rest l
          | Some (p, c') \<Rightarrow> Some (p, idx, upd_conn i (\<lambda>_. c') l)))"

definition PickNextRequest :: "('q, 'r) listener \<Rightarrow> 'q pick option \<times> ('q, 'r) listener" where
  "PickNextRequest l =
     (let n = length (connOrder l) in
      if n = 0 then (None, l)
      else (case pick_scan (map (\<lambda>i. (rrCursor l + i) mod n) [0..<n]) l of
          Some (p, idx, l') \<Rightarrow> (Some p, l'\<lparr>rrCursor := (idx + 1) mod n\<rparr>)
        | None \<Rightarrow> (None, l\<lparr>rrCursor := (rrCursor l + 1) mod n\<rparr>)))"

text \<open>
  One slot of the process for messages (sender.go): what was picked, a loop decoy if there was nothing, or
  nothing at all if decoys are disabled.
\<close>

datatype 'q slot = SlotPick "'q pick" | SlotDecoy

definition pickAndSend :: "bool \<Rightarrow> ('q, 'r) listener \<Rightarrow> 'q slot option \<times> ('q, 'r) listener" where
  "pickAndSend disableDecoys l =
     (case PickNextRequest l of
        (Some p, l') \<Rightarrow> (Some (SlotPick p), l')
      | (None, l') \<Rightarrow> (if disableDecoys then None else Some SlotDecoy, l'))"

section \<open>Sessions\<close>

text \<open>
  A token that is known gives the connection the application ID of its session, and the replies queued for it;
  a new one is entered. The reply to send is built from the ID and whether the session was resumed.
\<close>

definition handleSessionToken :: "(bytes \<Rightarrow> bool \<Rightarrow> 'r) \<Rightarrow> nat \<Rightarrow> bytes \<Rightarrow> ('q, 'r) listener \<Rightarrow> ('q, 'r) listener" where
  "handleSessionToken reply i token l =
     (case conn_at l i of None \<Rightarrow> l
      | Some c \<Rightarrow> (case clientTokens l token of
          Some app \<Rightarrow>
            let old = conn_appID c; order = connOrder l; k = length (takeWhile (\<lambda>x. x \<noteq> old) order);
                l1 = (upd_conn i (\<lambda>c. c\<lparr>conn_appID := app\<rparr>) l)
                       \<lparr>conns := (conns l)(old := None, app \<mapsto> i),
                        connOrder := (if old \<in> set order then order[k := app] else order)\<rparr>;
                l2 = (case disconnectedSessions l app of None \<Rightarrow> l1
                      | Some s \<Rightarrow> (fold (sendResponse i) (QueuedReplies s) l1)
                          \<lparr>disconnectedSessions := (disconnectedSessions l)(app := None)\<rparr>)
            in sendResponse i (reply app True) (upd_conn i (\<lambda>c. c\<lparr>clientToken := Some token\<rparr>) l2)
        | None \<Rightarrow>
            sendResponse i (reply (conn_appID c) False)
              ((upd_conn i (\<lambda>c. c\<lparr>clientToken := Some token\<rparr>) l)\<lparr>clientTokens := (clientTokens l)(token \<mapsto> conn_appID c)\<rparr>)))"

definition queueReplyForDisconnected :: "bytes \<Rightarrow> 'r \<Rightarrow> ('q, 'r) listener \<Rightarrow> bool \<times> ('q, 'r) listener" where
  "queueReplyForDisconnected app r l =
     (case disconnectedSessions l app of None \<Rightarrow> (False, l)
      | Some s \<Rightarrow> if length (QueuedReplies s) \<ge> maxQueuedReplies then (True, l)
          else (True, l\<lparr>disconnectedSessions := (disconnectedSessions l)(app \<mapsto> s\<lparr>QueuedReplies := QueuedReplies s @ [r]\<rparr>)\<rparr>))"

text \<open>
  The end of a connection: its worker has closed \<open>doneCh\<close> (\<open>closeDone\<close>, if the writer had not) and leaves the
  map. And the end of the time for which the state of its session is kept. The result is the
  application whose state the daemon is to destroy, if any.
\<close>

definition onClosedConn :: "nat \<Rightarrow> ('q, 'r) listener \<Rightarrow> bytes option \<times> ('q, 'r) listener" where
  "onClosedConn i l =
     (case conn_at l i of None \<Rightarrow> (None, l)
      | Some c \<Rightarrow>
          let app = conn_appID c; l1 = unregisterConn app (upd_conn i (\<lambda>c. c\<lparr>worker_ended := True\<rparr>) (closeDone i l)) in
          if explicitClose c
          then (Some app, (case clientToken c of None \<Rightarrow> l1
                  | Some token \<Rightarrow> l1\<lparr>clientTokens := (clientTokens l1)(token := None)\<rparr>))
          else (case clientToken c of
              Some token \<Rightarrow> (None, l1\<lparr>disconnectedSessions := (disconnectedSessions l1)(app \<mapsto> \<lparr>session_Token = token, QueuedReplies = []\<rparr>)\<rparr>)
            | None \<Rightarrow> (Some app, l1)))"

definition grace_period_ends :: "bytes \<Rightarrow> bytes \<Rightarrow> ('q, 'r) listener \<Rightarrow> bytes option \<times> ('q, 'r) listener" where
  "grace_period_ends app token l =
     (case disconnectedSessions l app of None \<Rightarrow> (None, l)
      | Some _ \<Rightarrow> (Some app, l\<lparr>disconnectedSessions := (disconnectedSessions l)(app := None),
                               clientTokens := (clientTokens l)(token := None)\<rparr>))"

definition new_listener :: "('q, 'r) listener" where
  "new_listener = \<lparr>conn_at = Map.empty, next_conn = 0, conns = Map.empty, connOrder = [], rrCursor = 0,
     clientTokens = Map.empty, disconnectedSessions = Map.empty\<rparr>"

section \<open>Every client gets its turn\<close>

text \<open>The clients that have something to send.\<close>

definition has_work :: "nat \<Rightarrow> ('q, 'r) listener \<Rightarrow> bool" where
  "has_work p l = (case conn_in_order p l of None \<Rightarrow> False | Some (i, c) \<Rightarrow> resendCh c \<noteq> [] \<or> requestCh c \<noteq> [])"

lemma has_work_take_next:
  "has_work p l \<longleftrightarrow> (\<exists>i c r. conn_in_order p l = Some (i, c) \<and> take_next c = Some r)"
  by (auto simp: has_work_def take_next_def split: option.splits list.splits)

text \<open>The scan stops at the first place with work.\<close>

lemma pick_scan_first:
  "pick_scan idxs l =
     (case dropWhile (\<lambda>p. \<not> has_work p l) idxs of [] \<Rightarrow> None
      | idx # _ \<Rightarrow> (case conn_in_order idx l of Some (i, c) \<Rightarrow>
          (case take_next c of Some (p, c') \<Rightarrow> Some (p, idx, upd_conn i (\<lambda>_. c') l))))"
proof (induction idxs)
  case Nil
  then show ?case by simp
next
  case (Cons idx idxs)
  show ?case
  proof (cases "has_work idx l")
    case True
    then obtain i c r where "conn_in_order idx l = Some (i, c)" "take_next c = Some r"
      by (auto simp: has_work_take_next)
    with True show ?thesis by (cases r) simp
  next
    case False
    then have "pick_scan (idx # idxs) l = pick_scan idxs l"
      by (auto simp: has_work_take_next split: option.splits)
    with Cons False show ?thesis by simp
  qed
qed

end
