(* ===== verification/ClientTypes.thy ===== *)
theory ClientTypes
  imports ClientListener CourierCache
begin

text \<open>
  What applications and the client daemon say to each other (client/thin/thin_messages.go, thin_events.go,
  client/thin_messages.go), the error codes, and the state machine of the retransmission (client/arq.go).
  The capabilities and box indices of BACAP are type parameters. A nil pointer or slice is \<open>None\<close> where the daemon
  looks for it. The requests about vouchers, which only call hpqc, and for the
  configured authorities are left out.
\<close>

section \<open>Error codes\<close>

definition ThinClientSuccess :: byte where "ThinClientSuccess = 0"
definition ThinClientErrorInvalidRequest :: byte where "ThinClientErrorInvalidRequest = 3"
definition ThinClientErrorInternalError :: byte where "ThinClientErrorInternalError = 4"
definition ThinClientErrorServiceUnavailable :: byte where "ThinClientErrorServiceUnavailable = 10"
definition ThinClientErrorCourierCacheCorruption :: byte where "ThinClientErrorCourierCacheCorruption = 12"
definition ThinClientPropagationError :: byte where "ThinClientPropagationError = 13"
definition ThinClientErrorMKEMDecryptionFailed :: byte where "ThinClientErrorMKEMDecryptionFailed = 22"
definition ThinClientErrorBACAPDecryptionFailed :: byte where "ThinClientErrorBACAPDecryptionFailed = 23"
definition ThinClientErrorStartResendingCancelled :: byte where "ThinClientErrorStartResendingCancelled = 24"
definition ThinClientErrorInvalidTombstoneSig :: byte where "ThinClientErrorInvalidTombstoneSig = 25"
definition ThinClientErrorCopyCommandFailed :: byte where "ThinClientErrorCopyCommandFailed = 26"
definition ThinClientErrorCourierInvalidEnvelope :: byte where "ThinClientErrorCourierInvalidEnvelope = 31"
definition ThinClientErrorCourierInvalidEpoch :: byte where "ThinClientErrorCourierInvalidEpoch = 32"

lemmas thin_codes = ThinClientSuccess_def ThinClientErrorInvalidRequest_def ThinClientErrorInternalError_def
  ThinClientErrorServiceUnavailable_def ThinClientErrorCourierCacheCorruption_def ThinClientPropagationError_def
  ThinClientErrorMKEMDecryptionFailed_def ThinClientErrorBACAPDecryptionFailed_def
  ThinClientErrorStartResendingCancelled_def ThinClientErrorInvalidTombstoneSig_def ThinClientErrorCopyCommandFailed_def
  ThinClientErrorCourierInvalidEnvelope_def ThinClientErrorCourierInvalidEpoch_def

definition EnvelopeErrorPropagationError :: byte where "EnvelopeErrorPropagationError = 3"

definition courierEnvelopeErrorToThinError :: "byte \<Rightarrow> byte" where
  "courierEnvelopeErrorToThinError code =
     (if code = EnvelopeErrorSuccess then ThinClientSuccess
      else if code = EnvelopeErrorInvalidEnvelope then ThinClientErrorCourierInvalidEnvelope
      else if code = EnvelopeErrorCacheCorruption then ThinClientErrorCourierCacheCorruption
      else if code = EnvelopeErrorPropagationError then ThinClientPropagationError
      else if code = EnvelopeErrorInvalidEpoch then ThinClientErrorCourierInvalidEpoch
      else ThinClientErrorCourierInvalidEnvelope)"

section \<open>Requests\<close>

record SendMessage =
  sm_ID :: "bytes option"
  sm_WithSURB :: bool
  sm_SURBID :: "surb_ref option"
  sm_DestinationIdHash :: "bytes option"
  sm_RecipientQueueID :: bytes
  sm_Payload :: bytes

record NewKeypair =
  nk_QueryID :: "bytes option"
  nk_Seed :: bytes

record ('rc, 'ix) EncryptRead =
  er_QueryID :: "bytes option"
  er_ReadCap :: "'rc option"
  er_MessageBoxIndex :: "'ix option"

record ('wc, 'ix) EncryptWrite =
  ew_QueryID :: "bytes option"
  ew_Plaintext :: "bytes option"
  ew_WriteCap :: "'wc option"
  ew_MessageBoxIndex :: "'ix option"

record ('rc, 'wc) StartResendingEncryptedMessage =
  sr_QueryID :: "bytes option"
  sr_ReadCap :: "'rc option"
  sr_WriteCap :: "'wc option"
  sr_MessageBoxIndex :: "bytes option"
  sr_EnvelopeDescriptor :: bytes
  sr_MessageCiphertext :: bytes
  sr_EnvelopeHash :: "bytes option"
  sr_NoRetryOnBoxIDNotFound :: bool
  sr_NoIdempotentBoxAlreadyExists :: bool

record CancelResendingEncryptedMessage =
  cr_QueryID :: "bytes option"
  cr_EnvelopeHash :: "bytes option"

record 'wc StartResendingCopyCommand =
  sc_QueryID :: "bytes option"
  sc_WriteCap :: "'wc option"
  sc_CourierIdentityHash :: "bytes option"
  sc_CourierQueueID :: bytes

record CancelResendingCopyCommand =
  ccc_QueryID :: "bytes option"
  ccc_WriteCapHash :: "bytes option"

record 'ix IndexRequest =
  ir_QueryID :: "bytes option"
  ir_MessageBoxIndex :: "'ix option"

record GetPKIDocument =
  gp_QueryID :: "bytes option"
  gp_Epoch :: u64

record ('wc, 'ix) FromPayload =
  fp_QueryID :: "bytes option"
  fp_Payload :: bytes
  fp_DestWriteCap :: "'wc option"
  fp_DestStartIndex :: "'ix option"
  fp_IsStart :: bool
  fp_IsLast :: bool

record ('wc, 'ix) Destination =
  ds_Payload :: bytes
  ds_WriteCap :: "'wc option"
  ds_StartIndex :: "'ix option"

record ('wc, 'ix) FromPayloads =
  fps_QueryID :: "bytes option"
  fps_Destinations :: "('wc, 'ix) Destination list"
  fps_IsStart :: bool
  fps_IsLast :: bool
  fps_Buffer :: bytes

record ('wc, 'ix) FromTombstoneRange =
  ft_QueryID :: "bytes option"
  ft_DestWriteCap :: "'wc option"
  ft_DestStartIndex :: "'ix option"
  ft_MaxCount :: u32
  ft_IsStart :: bool
  ft_IsLast :: bool
  ft_Buffer :: bytes

record ('rc, 'wc, 'ix) Request =
  rq_AppID :: bytes
  rq_NewKeypair :: "NewKeypair option"
  rq_EncryptRead :: "('rc, 'ix) EncryptRead option"
  rq_EncryptWrite :: "('wc, 'ix) EncryptWrite option"
  rq_StartResendingEncryptedMessage :: "('rc, 'wc) StartResendingEncryptedMessage option"
  rq_CancelResendingEncryptedMessage :: "CancelResendingEncryptedMessage option"
  rq_StartResendingCopyCommand :: "'wc StartResendingCopyCommand option"
  rq_CancelResendingCopyCommand :: "CancelResendingCopyCommand option"
  rq_NextMessageBoxIndex :: "'ix IndexRequest option"
  rq_GetMessageBoxIndexCounter :: "'ix IndexRequest option"
  rq_GetPKIDocument :: "GetPKIDocument option"
  rq_FromPayload :: "('wc, 'ix) FromPayload option"
  rq_FromPayloads :: "('wc, 'ix) FromPayloads option"
  rq_FromTombstoneRange :: "('wc, 'ix) FromTombstoneRange option"
  rq_SendLoopDecoy :: bool
  rq_SendMessage :: "SendMessage option"
  rq_ResendARQ :: "surb_ref option"

definition empty_request :: "bytes \<Rightarrow> ('rc, 'wc, 'ix) Request" where
  "empty_request app = \<lparr>rq_AppID = app, rq_NewKeypair = None, rq_EncryptRead = None, rq_EncryptWrite = None,
     rq_StartResendingEncryptedMessage = None, rq_CancelResendingEncryptedMessage = None,
     rq_StartResendingCopyCommand = None, rq_CancelResendingCopyCommand = None, rq_NextMessageBoxIndex = None,
     rq_GetMessageBoxIndexCounter = None, rq_GetPKIDocument = None,
     rq_FromPayload = None, rq_FromPayloads = None, rq_FromTombstoneRange = None, rq_SendLoopDecoy = False,
     rq_SendMessage = None, rq_ResendARQ = None\<rparr>"

definition newLoopDecoy :: "('rc, 'wc, 'ix) Request" where
  "newLoopDecoy = (empty_request [])\<lparr>rq_SendLoopDecoy := True\<rparr>"

text \<open>Requests that need no packet run at once; the others wait for a slot.\<close>

definition isLocalRequest :: "('rc, 'wc, 'ix) Request \<Rightarrow> bool" where
  "isLocalRequest r \<longleftrightarrow> rq_NewKeypair r \<noteq> None \<or> rq_EncryptRead r \<noteq> None \<or> rq_EncryptWrite r \<noteq> None
     \<or> rq_CancelResendingEncryptedMessage r \<noteq> None \<or> rq_CancelResendingCopyCommand r \<noteq> None
     \<or> rq_NextMessageBoxIndex r \<noteq> None \<or> rq_GetMessageBoxIndexCounter r \<noteq> None \<or> rq_GetPKIDocument r \<noteq> None
     \<or> rq_FromPayload r \<noteq> None \<or> rq_FromPayloads r \<noteq> None
     \<or> rq_FromTombstoneRange r \<noteq> None"

section \<open>Responses\<close>

datatype ('rc, 'wc, 'ix) Response =
    SessionTokenReply bytes bool
  | ConnectionStatusEvent bool
  | NewPKIDocumentEvent bytes
  | MessageSentEvent "bytes option" "surb_ref option" int int bool        \<comment> \<open>message, SURB, sent at, ETA, failed\<close>
  | MessageReplyEvent "bytes option" bytes bytes byte                    \<comment> \<open>message, SURB ID, payload, code\<close>
  | NewKeypairReply "bytes option" "('wc \<times> 'rc \<times> 'ix) option" byte
  | EncryptReadReply "bytes option" "(bytes \<times> bytes \<times> bytes \<times> 'ix) option" byte   \<comment> \<open>query, descriptor, hash, next index\<close>
  | EncryptWriteReply "bytes option" "(bytes \<times> bytes \<times> bytes \<times> 'ix) option" byte
  | StartResendingEncryptedMessageReply "bytes option" "bytes option" byte "(bytes \<times> bytes) option"  \<comment> \<open>plaintext, code, courier\<close>
  | CancelResendingEncryptedMessageReply "bytes option" byte
  | StartResendingCopyCommandReply "bytes option" byte byte u64            \<comment> \<open>code, replica's code, index\<close>
  | CancelResendingCopyCommandReply "bytes option" byte
  | NextMessageBoxIndexReply "bytes option" "'ix option" byte
  | GetMessageBoxIndexCounterReply "bytes option" u64 byte
  | GetPKIDocumentReply "bytes option" bytes u64 byte
  | FromPayloadReply "bytes option" "bytes list" "'ix option" byte
  | FromPayloadsReply "bytes option" "bytes list" bytes "'ix list" byte
  | FromTombstoneRangeReply "bytes option" "bytes list" bytes "'ix option" byte

section \<open>The state machine of the retransmission\<close>

definition ARQStateWaitingForACK :: byte where "ARQStateWaitingForACK = 0"
definition ARQStateACKReceived :: byte where "ARQStateACKReceived = 1"
definition ARQStatePayloadReceived :: byte where "ARQStatePayloadReceived = 2"

lemmas arq_states = ARQStateWaitingForACK_def ARQStateACKReceived_def ARQStatePayloadReceived_def

datatype ARQAction = ARQActionSendNewSURB | ARQActionComplete | ARQActionHandlePayload | ARQActionError | ARQActionIgnore

record ARQTransitionResult =
  NewState :: byte
  Action :: ARQAction
  ShouldRemove :: bool
  tr_ErrorCode :: byte

definition transition_to :: "byte \<Rightarrow> ARQAction \<Rightarrow> bool \<Rightarrow> ARQTransitionResult" where
  "transition_to s a r = \<lparr>NewState = s, Action = a, ShouldRemove = r, tr_ErrorCode = 0\<rparr>"

definition computeARQStateTransition :: "byte \<Rightarrow> byte \<Rightarrow> byte \<Rightarrow> bool \<Rightarrow> bool \<Rightarrow> ARQTransitionResult" where
  "computeARQStateTransition st replyType errorCode isRead noIdempotentBoxAlreadyExists =
     (if errorCode \<noteq> 0 then \<lparr>NewState = st, Action = ARQActionError, ShouldRemove = True, tr_ErrorCode = errorCode\<rparr>
      else if st = ARQStateWaitingForACK then
        (if replyType = 0 then
           (if \<not> isRead \<and> \<not> noIdempotentBoxAlreadyExists then transition_to st ARQActionComplete True
            else transition_to ARQStateACKReceived ARQActionSendNewSURB False)
         else transition_to ARQStatePayloadReceived ARQActionHandlePayload False)
      else if st = ARQStateACKReceived then
        (if replyType = 1 then transition_to ARQStatePayloadReceived ARQActionHandlePayload False
         else transition_to ARQStateACKReceived ARQActionSendNewSURB False)
      else if st = ARQStatePayloadReceived then transition_to ARQStatePayloadReceived ARQActionIgnore False
      else transition_to st ARQActionIgnore False)"

end
