(* ===== verification/ClientEnvelope.thy ===== *)
theory ClientEnvelope
  imports ClientTypes CopyStreamProps ReplicaHandlers
begin

text \<open>
  The requests the client daemon answers without the network (client/pigeonhole.go): key pairs, the
  encryption of reads, writes and tombstones into envelopes, and the copy stream. BACAP, the multi-recipient KEM
  and CBOR are parameters in \<open>client_env\<close>, next to those of the replicas. An envelope needs random numbers for the choice of
  its relays and random bytes for its key.
\<close>

record EnvelopeDescriptor =
  ed_Epoch :: u64
  ed_ReplicaNums :: "byte \<times> byte"
  ed_EnvelopeKey :: bytes

record ('pub, 'priv, 'np, 'ns, 'v, 'rc, 'wc, 'ix) client_env =
  crep :: "('pub, 'priv, 'np, 'ns, 'v) replica_env"
  cgeo :: "PGeometry option"                                           \<comment> \<open>of the configuration\<close>
  cPeriod :: int                                                       \<comment> \<open>of an epoch of the PKI\<close>
  desc_Marshal :: "EnvelopeDescriptor \<Rightarrow> bytes option"
  desc_Unmarshal :: "bytes \<Rightarrow> EnvelopeDescriptor option"
  priv_Bytes :: "'ns \<Rightarrow> bytes"
  priv_Unmarshal :: "bytes \<Rightarrow> 'ns option"
  client_Encapsulate :: "bytes \<Rightarrow> 'np list \<Rightarrow> bytes \<Rightarrow> 'ns \<times> 'np \<times> bytes list \<times> bytes"   \<comment> \<open>randomness, keys, message\<close>
  new_WriteCap :: "bytes \<Rightarrow> 'wc option"                               \<comment> \<open>on a reader of this seed\<close>
  ReadCap_of :: "'wc \<Rightarrow> 'rc"
  FirstMessageBoxIndex :: "'wc \<Rightarrow> 'ix"
  wc_MarshalBinary :: "'wc \<Rightarrow> bytes option"
  NextIndex :: "'ix \<Rightarrow> 'ix option"
  Idx64 :: "'ix \<Rightarrow> u64"
  ix_FromBytes :: "bytes \<Rightarrow> 'ix option"
  NewStatefulReaderWithIndex :: "'rc \<Rightarrow> 'ix \<Rightarrow> bool"                   \<comment> \<open>whether there is no error\<close>
  NextBoxID :: "'rc \<Rightarrow> 'ix \<Rightarrow> bytes option"
  DecryptNext :: "'rc \<Rightarrow> 'ix \<Rightarrow> bytes \<Rightarrow> bytes \<Rightarrow> bytes \<Rightarrow> bytes option"       \<comment> \<open>box, payload, signature\<close>
  NewStatefulWriter :: "'wc \<Rightarrow> bool"
  NewStatefulWriterWithIndex :: "'wc \<Rightarrow> 'ix \<Rightarrow> bool"
  PrepareNext :: "'wc \<Rightarrow> 'ix \<Rightarrow> bytes \<Rightarrow> (bytes \<times> bytes \<times> bytes) option"   \<comment> \<open>box, ciphertext, signature\<close>
  EncryptNext :: "'wc \<Rightarrow> 'ix \<Rightarrow> bytes \<Rightarrow> ((bytes \<times> bytes \<times> bytes) \<times> 'ix) option"
  SignBox :: "'wc \<Rightarrow> 'ix \<Rightarrow> bytes \<Rightarrow> bytes \<times> bytes"

type_synonym draws = "u64 list \<times> bytes"

definition quiet :: "('e, 'a) go \<Rightarrow> (unit, 'a) go" where
  "quiet r = (case r of Inr x \<Rightarrow> Inr x | Inl Panic \<Rightarrow> Inl Panic | Inl (Err _) \<Rightarrow> Inl (Err ()))"

section \<open>Envelopes\<close>

text \<open>
  The envelope keys are those of the replica epoch of the clock, the envelope is stamped with that of the
  document. The first way of making an envelope copies the ciphertexts of the key into arrays, the
  second converts them, which panics if they are short.
\<close>

definition dek_array :: "bytes \<Rightarrow> (unit, bytes) go" where
  "dek_array dek = (if length dek < 60 then Inl Panic else Inr (take 60 dek))"

definition courier_envelope :: "byte \<times> byte \<Rightarrow> bytes \<Rightarrow> bytes \<Rightarrow> byte \<Rightarrow> u64 \<Rightarrow> bytes \<Rightarrow> bytes \<Rightarrow> CourierEnvelope" where
  "courier_envelope relays dek1 dek2 replyIndex epoch senderPubkey envelope =
     \<lparr>IntermediateReplicas = [fst relays, snd relays], Dek1 = dek1, Dek2 = dek2, ReplyIndex = replyIndex, Epoch = epoch,
      SenderPubkeyLen = word_of_nat (length senderPubkey), SenderPubkey = senderPubkey,
      CiphertextLen = word_of_nat (length envelope), Ciphertext = envelope\<rparr>"

definition inner_boxID :: "bool \<Rightarrow> ReplicaInnerMessage \<Rightarrow> (unit, bytes) go" where
  "inner_boxID isRead msg =
     (if isRead then go_bind (deref (rim_ReadMsg msg)) (\<lambda>r. Inr (rr_BoxID r))
      else go_bind (deref (rim_WriteMsg msg)) (\<lambda>w. Inr (rw_BoxID w)))"

definition createEnvelopeFromMessageWithPadding ::
  "('pub, 'priv, 'np, 'ns, 'v, 'rc, 'wc, 'ix) client_env \<Rightarrow> u64 \<Rightarrow> draws \<Rightarrow> ReplicaInnerMessage \<Rightarrow> Document \<Rightarrow> bool \<Rightarrow> byte
     \<Rightarrow> PGeometry option \<Rightarrow> (unit, CourierEnvelope \<times> 'ns) go" where
  "createEnvelopeFromMessageWithPadding E now draw msg doc isRead replyIndex geo =
     go_bind (inner_boxID isRead msg) (\<lambda>boxid.
     go_bind (quiet (GetRandomIntermediateReplicas (rpki (crep E)) (nike_Unmarshal (crep E)) (Some doc) boxid now (fst draw))) (\<lambda>(relays, keys).
     go_bind (case geo of None \<Rightarrow> Inr (Inner_Bytes msg)
              | Some g \<Rightarrow> quiet (PadInnerMessageForEncryption (rsizes (crep E)) msg (Some g))) (\<lambda>msgBytes.
     let (priv, pub, deks, envelope) = client_Encapsulate E (snd draw) keys msgBytes in
     case deks of
       dek1 # dek2 # _ \<Rightarrow> Inr (courier_envelope relays (copy_into 60 dek1) (copy_into 60 dek2) replyIndex
          (ConvertNormalToReplicaEpoch (cPeriod E) (doc_Epoch doc)) (nike_Bytes (crep E) pub) envelope, priv)
     | _ \<Rightarrow> Inl Panic)))"

definition buildCourierEnvelope ::
  "('pub, 'priv, 'np, 'ns, 'v, 'rc, 'wc, 'ix) client_env \<Rightarrow> u64 \<Rightarrow> draws \<Rightarrow> Document \<Rightarrow> u64 \<Rightarrow> bytes \<Rightarrow> ReplicaInnerMessage
     \<Rightarrow> (unit, CourierEnvelope) go" where
  "buildCourierEnvelope E now draw doc replicaEpoch boxID msg =
     go_bind (quiet (GetRandomIntermediateReplicas (rpki (crep E)) (nike_Unmarshal (crep E)) (Some doc) boxID now (fst draw))) (\<lambda>(relays, keys).
     go_bind (quiet (PadInnerMessageForEncryption (rsizes (crep E)) msg (cgeo E))) (\<lambda>paddedMsg.
     let (priv, pub, deks, envelope) = client_Encapsulate E (snd draw) keys paddedMsg in
     case deks of
       dek1 # dek2 # _ \<Rightarrow> go_bind (dek_array dek1) (\<lambda>dek1. go_bind (dek_array dek2) (\<lambda>dek2.
         Inr (courier_envelope relays dek1 dek2 0 replicaEpoch (nike_Bytes (crep E) pub) envelope)))
     | _ \<Rightarrow> Inl Panic))"

definition writeInnerMessage :: "bytes \<Rightarrow> bytes \<Rightarrow> bytes \<Rightarrow> ReplicaInnerMessage" where
  "writeInnerMessage boxID ciphertext sig =
     write_inner \<lparr>rw_BoxID = boxID, rw_Signature = sig, rw_PayloadLen = word_of_nat (length ciphertext), rw_Payload = ciphertext\<rparr>"

section \<open>Key pairs and indices\<close>

definition newKeypair ::
  "('pub, 'priv, 'np, 'ns, 'v, 'rc, 'wc, 'ix) client_env \<Rightarrow> NewKeypair \<Rightarrow> ('rc, 'wc, 'ix) Response" where
  "newKeypair E req =
     (if length (nk_Seed req) < 32 then NewKeypairReply (nk_QueryID req) None ThinClientErrorInvalidRequest
      else (case new_WriteCap E (nk_Seed req) of
          None \<Rightarrow> NewKeypairReply (nk_QueryID req) None ThinClientErrorInvalidRequest
        | Some w \<Rightarrow> NewKeypairReply (nk_QueryID req) (Some (w, ReadCap_of E w, FirstMessageBoxIndex E w)) ThinClientSuccess))"

definition nextMessageBoxIndex ::
  "('pub, 'priv, 'np, 'ns, 'v, 'rc, 'wc, 'ix) client_env \<Rightarrow> 'ix IndexRequest \<Rightarrow> ('rc, 'wc, 'ix) Response" where
  "nextMessageBoxIndex E req =
     (case ir_MessageBoxIndex req of
        None \<Rightarrow> NextMessageBoxIndexReply (ir_QueryID req) None ThinClientErrorInvalidRequest
      | Some ix \<Rightarrow> (case NextIndex E ix of
          None \<Rightarrow> NextMessageBoxIndexReply (ir_QueryID req) None ThinClientErrorInternalError
        | Some ix' \<Rightarrow> NextMessageBoxIndexReply (ir_QueryID req) (Some ix') ThinClientSuccess))"

definition getMessageBoxIndexCounter ::
  "('pub, 'priv, 'np, 'ns, 'v, 'rc, 'wc, 'ix) client_env \<Rightarrow> 'ix IndexRequest \<Rightarrow> ('rc, 'wc, 'ix) Response" where
  "getMessageBoxIndexCounter E req =
     (case ir_MessageBoxIndex req of
        None \<Rightarrow> GetMessageBoxIndexCounterReply (ir_QueryID req) 0 ThinClientErrorInvalidRequest
      | Some ix \<Rightarrow> GetMessageBoxIndexCounterReply (ir_QueryID req) (Idx64 E ix) ThinClientSuccess)"

text \<open>The signed documents the daemon has: the current one with its epoch, and by epoch.\<close>

definition getPKIDocument :: "bytes option \<times> u64 \<Rightarrow> (u64 \<rightharpoonup> bytes) \<Rightarrow> GetPKIDocument \<Rightarrow> ('rc, 'wc, 'ix) Response" where
  "getPKIDocument current byEpoch req =
     (let (raw, epoch) = (if gp_Epoch req = 0 then current else (byEpoch (gp_Epoch req), gp_Epoch req)) in
      case raw of None \<Rightarrow> GetPKIDocumentReply (gp_QueryID req) [] epoch ThinClientErrorServiceUnavailable
      | Some payload \<Rightarrow> GetPKIDocumentReply (gp_QueryID req) payload epoch ThinClientSuccess)"

section \<open>Reads and writes\<close>

text \<open>What the two handlers have in common: the query, the descriptor and the hash of an envelope, and the next index.\<close>

definition envelope_reply ::
  "('pub, 'priv, 'np, 'ns, 'v, 'rc, 'wc, 'ix) client_env \<Rightarrow> Document \<Rightarrow> 'ix \<Rightarrow> CourierEnvelope \<Rightarrow> 'ns
     \<Rightarrow> (unit, bytes \<times> bytes \<times> bytes \<times> 'ix) go" where
  "envelope_reply E doc ix courierEnvelope priv =
     (let envHash = CourierEnvelope_Hash (blake2b_256 (rpki (crep E))) courierEnvelope;
          relays = IntermediateReplicas courierEnvelope;
          desc = \<lparr>ed_Epoch = ConvertNormalToReplicaEpoch (cPeriod E) (doc_Epoch doc),
                  ed_ReplicaNums = (relays ! 0, relays ! 1), ed_EnvelopeKey = priv_Bytes E priv\<rparr> in
      go_bind (some_or (desc_Marshal E desc)) (\<lambda>descBytes.
      go_bind (some_or (NextIndex E ix)) (\<lambda>ix'.
        Inr (or_nothing (CourierQuery_MarshalBinary \<lparr>cq_QueryType = 0, cq_Envelope = Some courierEnvelope, cq_CopyCommand = None\<rparr>),
             descBytes, envHash, ix'))))"

definition encryptRead ::
  "('pub, 'priv, 'np, 'ns, 'v, 'rc, 'wc, 'ix) client_env \<Rightarrow> Document option \<Rightarrow> u64 \<Rightarrow> draws \<Rightarrow> ('rc, 'ix) EncryptRead
     \<Rightarrow> (unit, ('rc, 'wc, 'ix) Response) go" where
  "encryptRead E docp now draw req =
     (let failed = (\<lambda>code. EncryptReadReply (er_QueryID req) None code) in
      or_reply (some_or (er_ReadCap req)) (failed ThinClientErrorInvalidRequest) (\<lambda>rc.
      or_reply (some_or (er_MessageBoxIndex req)) (failed ThinClientErrorInvalidRequest) (\<lambda>ix.
      if \<not> NewStatefulReaderWithIndex E rc ix then Inr (failed ThinClientErrorInternalError) else
      or_reply (some_or (NextBoxID E rc ix)) (failed ThinClientErrorInternalError) (\<lambda>boxID.
      or_reply (some_or docp) (failed ThinClientErrorInternalError) (\<lambda>doc.
      or_reply (createEnvelopeFromMessageWithPadding E now draw (read_inner \<lparr>rr_BoxID = boxID\<rparr>) doc True 0 (cgeo E))
        (failed ThinClientErrorInternalError) (\<lambda>(envelope, priv).
      or_reply (envelope_reply E doc ix envelope priv) (failed ThinClientErrorInternalError) (\<lambda>r.
        Inr (EncryptReadReply (er_QueryID req) (Some r) ThinClientSuccess))))))))"

text \<open>The box, the ciphertext and the signature of a write: a tombstone for an empty plaintext; or the error code.\<close>

definition sign_or_encrypt ::
  "('pub, 'priv, 'np, 'ns, 'v, 'rc, 'wc, 'ix) client_env \<Rightarrow> PGeometry \<Rightarrow> 'wc \<Rightarrow> 'ix \<Rightarrow> bytes \<Rightarrow> (byte, bytes \<times> bytes \<times> bytes) go" where
  "sign_or_encrypt E g wc ix plaintext =
     (if plaintext = [] then (let (boxID, sig) = SignBox E wc ix [] in Inr (boxID, [], copy_into 64 sig))
      else if int (length plaintext) + 4 > MaxPlaintextPayloadLength g + 4 then Inl (Err ThinClientErrorInvalidRequest)
      else (case CreatePaddedPayload plaintext (MaxPlaintextPayloadLength g + 4) of
          Inl Panic \<Rightarrow> Inl Panic | Inl (Err _) \<Rightarrow> Inl (Err ThinClientErrorInternalError)
        | Inr padded \<Rightarrow>
            if \<not> NewStatefulWriterWithIndex E wc ix then Inl (Err ThinClientErrorInternalError)
            else (case PrepareNext E wc ix padded of None \<Rightarrow> Inl (Err ThinClientErrorInternalError)
              | Some (boxID, ciphertext, sig) \<Rightarrow> Inr (boxID, ciphertext, copy_into 64 sig))))"

definition encryptWrite ::
  "('pub, 'priv, 'np, 'ns, 'v, 'rc, 'wc, 'ix) client_env \<Rightarrow> Document option \<Rightarrow> u64 \<Rightarrow> draws \<Rightarrow> ('wc, 'ix) EncryptWrite
     \<Rightarrow> (unit, ('rc, 'wc, 'ix) Response) go" where
  "encryptWrite E docp now draw req =
     (let failed = (\<lambda>code. EncryptWriteReply (ew_QueryID req) None code) in
      or_reply (some_or (ew_WriteCap req)) (failed ThinClientErrorInvalidRequest) (\<lambda>wc.
      or_reply (some_or (ew_MessageBoxIndex req)) (failed ThinClientErrorInvalidRequest) (\<lambda>ix.
      or_reply (some_or (ew_Plaintext req)) (failed ThinClientErrorInvalidRequest) (\<lambda>plaintext.
      or_reply (some_or docp) (failed ThinClientErrorInternalError) (\<lambda>doc.
      or_reply (some_or (cgeo E)) (failed ThinClientErrorInternalError) (\<lambda>g.
      case sign_or_encrypt E g wc ix plaintext of
        Inl Panic \<Rightarrow> Inl Panic | Inl (Err code) \<Rightarrow> Inr (failed code)
      | Inr (boxID, ciphertext, sig) \<Rightarrow>
          or_reply (createEnvelopeFromMessageWithPadding E now draw (writeInnerMessage boxID ciphertext sig) doc False 0 (cgeo E))
            (failed ThinClientErrorInternalError) (\<lambda>(envelope, priv).
          or_reply (envelope_reply E doc ix envelope priv) (failed ThinClientErrorInternalError) (\<lambda>r.
            Inr (EncryptWriteReply (ew_QueryID req) (Some r) ThinClientSuccess)))))))))"

end
