(* ===== verification/ClientCopy.thy ===== *)
theory ClientCopy
  imports ClientEnvelope
begin

text \<open>
  The preparation of copy commands by the client daemon (client/pigeonhole.go): payloads of any size are cut
  into boxes for their destinations, encrypted into envelopes, and the envelopes written as a copy stream.
  The random numbers of the n-th envelope are an argument. A result of \<open>None\<close> is a loop that does not
  end, an error carries the code for the application.
\<close>

partial_function (option) chunkPayload :: "nat \<Rightarrow> bytes \<Rightarrow> bytes list option" where
  "chunkPayload maxChunk payload =
     (if payload = [] then Some []
      else Option.bind (chunkPayload maxChunk (drop maxChunk payload)) (\<lambda>rest. Some (take maxChunk payload # rest)))"

definition maxPayloadSize :: nat where "maxPayloadSize = 10 * 1024 * 1024"

definition validateEnvelopePayloadRequest :: "bytes \<Rightarrow> 'wc option \<Rightarrow> 'ix option \<Rightarrow> int \<Rightarrow> (unit, 'wc \<times> 'ix) go" where
  "validateEnvelopePayloadRequest payload writeCap startIndex maxPlaintext =
     go_bind (some_or writeCap) (\<lambda>wc. go_bind (some_or startIndex) (\<lambda>ix.
       if length payload > maxPayloadSize then Inl (Err ())
       else if maxPlaintext - 4 \<le> 0 then Inl (Err ()) else Inr (wc, ix)))"

text \<open>The box, ciphertext and signature of a chunk, with the index the writer has then.\<close>

definition encryptWriteChunk ::
  "('pub, 'priv, 'np, 'ns, 'v, 'rc, 'wc, 'ix) client_env \<Rightarrow> PGeometry \<Rightarrow> 'wc \<Rightarrow> 'ix \<Rightarrow> bytes \<Rightarrow> bool
     \<Rightarrow> (unit, (bytes \<times> bytes \<times> bytes) \<times> 'ix) go" where
  "encryptWriteChunk E g wc ix chunk advance =
     go_bind (quiet (CreatePaddedPayload chunk (MaxPlaintextPayloadLength g + 4))) (\<lambda>padded.
     go_bind (some_or (if advance then EncryptNext E wc ix padded else map_option (\<lambda>r. (r, ix)) (PrepareNext E wc ix padded)))
       (\<lambda>((boxID, ciphertext, sig), ix'). Inr ((boxID, ciphertext, copy_into 64 sig), ix')))"

fun payload_envelopes ::
  "('pub, 'priv, 'np, 'ns, 'v, 'rc, 'wc, 'ix) client_env \<Rightarrow> PGeometry \<Rightarrow> Document \<Rightarrow> u64 \<Rightarrow> u64 \<Rightarrow> (nat \<Rightarrow> draws) \<Rightarrow> nat
     \<Rightarrow> 'wc \<Rightarrow> 'ix \<Rightarrow> bytes list \<Rightarrow> (unit, CourierEnvelope list \<times> 'ix) go" where
  "payload_envelopes E g doc epoch now rnd n wc ix [] = Inr ([], ix)"
| "payload_envelopes E g doc epoch now rnd n wc ix (chunk # chunks) =
     go_bind (encryptWriteChunk E g wc ix chunk True) (\<lambda>((boxID, ciphertext, sig), ix').
     go_bind (buildCourierEnvelope E now (rnd n) doc epoch boxID (writeInnerMessage boxID ciphertext sig)) (\<lambda>envelope.
     go_bind (payload_envelopes E g doc epoch now rnd (Suc n) wc ix' chunks) (\<lambda>(envelopes, ix'').
       Inr (envelope # envelopes, ix''))))"

text \<open>Sequencing of results that may not come.\<close>

definition then_go :: "('e, 'a) go option \<Rightarrow> ('a \<Rightarrow> ('e, 'b) go option) \<Rightarrow> ('e, 'b) go option" where
  "then_go r f = Option.bind r (\<lambda>r. case r of Inl e \<Rightarrow> Some (Inl e) | Inr x \<Rightarrow> f x)"

fun add_envelopes ::
  "CopyStreamEncoder \<Rightarrow> CourierEnvelope list \<Rightarrow> (unit, CopyStreamEncoder \<times> bytes list) go option" where
  "add_envelopes enc [] = Some (Inr (enc, []))"
| "add_envelopes enc (c # cs) =
     then_go (AddEnvelope enc (Some c)) (\<lambda>(enc, out). then_go (add_envelopes enc cs) (\<lambda>(enc, more). Some (Inr (enc, out @ more))))"

text \<open>An error ends the handler with this response.\<close>

definition reply_or :: "'r \<Rightarrow> (unit, 'a) go option \<Rightarrow> ('a \<Rightarrow> (unit, 'r) go option) \<Rightarrow> (unit, 'r) go option" where
  "reply_or failed r f = Option.bind r (\<lambda>r. case r of Inl Panic \<Rightarrow> Some (Inl Panic) | Inl (Err _) \<Rightarrow> Some (Inr failed) | Inr x \<Rightarrow> f x)"

definition createCourierEnvelopesFromPayload ::
  "('pub, 'priv, 'np, 'ns, 'v, 'rc, 'wc, 'ix) client_env \<Rightarrow> Document option \<Rightarrow> u64 \<Rightarrow> (nat \<Rightarrow> draws) \<Rightarrow> ('wc, 'ix) FromPayload
     \<Rightarrow> (unit, ('rc, 'wc, 'ix) Response) go option" where
  "createCourierEnvelopesFromPayload E docp now rnd req =
     (let failed = (\<lambda>code. FromPayloadReply (fp_QueryID req) [] None code) in
      case cgeo E of None \<Rightarrow> Some (Inl Panic) | Some g \<Rightarrow>
      reply_or (failed ThinClientErrorInvalidRequest)
        (Some (validateEnvelopePayloadRequest (fp_Payload req) (fp_DestWriteCap req) (fp_DestStartIndex req) (MaxPlaintextPayloadLength g))) (\<lambda>(wc, ix).
      reply_or (failed ThinClientErrorInternalError) (Some (some_or docp)) (\<lambda>doc.
      if \<not> NewStatefulWriter E wc then Some (Inr (failed ThinClientErrorInternalError)) else
      Option.bind (chunkPayload (nat (MaxPlaintextPayloadLength g - 4)) (fp_Payload req)) (\<lambda>chunks.
      reply_or (failed ThinClientErrorInternalError)
        (Some (payload_envelopes E g doc (ConvertNormalToReplicaEpoch (cPeriod E) (doc_Epoch doc)) now rnd 0 wc ix chunks)) (\<lambda>(envelopes, ix').
      let enc0 = NewCopyStreamEncoder g; enc = (if fp_IsStart req then enc0 else SuppressStart enc0) in
      reply_or (failed ThinClientErrorInternalError) (add_envelopes enc envelopes) (\<lambda>(enc, elements).
      reply_or (failed ThinClientErrorInternalError) (if fp_IsLast req then Flush enc else FlushWithoutFinal enc) (\<lambda>(_, trailing).
        Some (Inr (FromPayloadReply (fp_QueryID req) (elements @ trailing) (Some ix') ThinClientSuccess)))))))))"

text \<open>
  Several payloads into one stream. The writer is set to the index before each chunk and does not advance, the index
  does. A destination is only looked at when its turn comes.
\<close>

definition bad_code :: "byte \<Rightarrow> (unit, 'a) go option \<Rightarrow> (byte, 'a) go option" where
  "bad_code code r = map_option (\<lambda>r. case r of Inr x \<Rightarrow> Inr x | Inl Panic \<Rightarrow> Inl Panic | Inl (Err _) \<Rightarrow> Inl (Err code)) r"

fun destination_chunks ::
  "('pub, 'priv, 'np, 'ns, 'v, 'rc, 'wc, 'ix) client_env \<Rightarrow> PGeometry \<Rightarrow> Document \<Rightarrow> u64 \<Rightarrow> u64 \<Rightarrow> (nat \<Rightarrow> draws) \<Rightarrow> nat
     \<Rightarrow> 'wc \<Rightarrow> 'ix \<Rightarrow> CopyStreamEncoder \<Rightarrow> bytes list \<Rightarrow> (unit, nat \<times> 'ix \<times> CopyStreamEncoder \<times> bytes list) go option" where
  "destination_chunks E g doc epoch now rnd n wc ix enc [] = Some (Inr (n, ix, enc, []))"
| "destination_chunks E g doc epoch now rnd n wc ix enc (chunk # chunks) =
     then_go (Some (encryptWriteChunk E g wc ix chunk False)) (\<lambda>((boxID, ciphertext, sig), _).
     then_go (Some (buildCourierEnvelope E now (rnd n) doc epoch boxID (writeInnerMessage boxID ciphertext sig))) (\<lambda>envelope.
     then_go (AddEnvelope enc (Some envelope)) (\<lambda>(enc, out).
     then_go (Some (some_or (NextIndex E ix))) (\<lambda>ix'.
     then_go (destination_chunks E g doc epoch now rnd (Suc n) wc ix' enc chunks) (\<lambda>(n, ix'', enc, more).
       Some (Inr (n, ix'', enc, out @ more)))))))"

fun destinations_loop ::
  "('pub, 'priv, 'np, 'ns, 'v, 'rc, 'wc, 'ix) client_env \<Rightarrow> PGeometry \<Rightarrow> Document \<Rightarrow> u64 \<Rightarrow> u64 \<Rightarrow> (nat \<Rightarrow> draws) \<Rightarrow> nat
     \<Rightarrow> CopyStreamEncoder \<Rightarrow> ('wc, 'ix) Destination list \<Rightarrow> (byte, CopyStreamEncoder \<times> bytes list \<times> 'ix list) go option" where
  "destinations_loop E g doc epoch now rnd n enc [] = Some (Inr (enc, [], []))"
| "destinations_loop E g doc epoch now rnd n enc (dest # dests) =
     then_go (bad_code ThinClientErrorInvalidRequest (Some (some_or (ds_WriteCap dest)))) (\<lambda>wc.
     then_go (bad_code ThinClientErrorInvalidRequest (Some (some_or (ds_StartIndex dest)))) (\<lambda>ix.
     if length (ds_Payload dest) > maxPayloadSize then Some (Inl (Err ThinClientErrorInvalidRequest))
     else if \<not> NewStatefulWriter E wc then Some (Inl (Err ThinClientErrorInternalError)) else
     Option.bind (chunkPayload (nat (MaxPlaintextPayloadLength g - 4)) (ds_Payload dest)) (\<lambda>chunks.
     then_go (bad_code ThinClientErrorInternalError (destination_chunks E g doc epoch now rnd n wc ix enc chunks)) (\<lambda>(n, ix', enc, out).
     then_go (destinations_loop E g doc epoch now rnd n enc dests) (\<lambda>(enc, more, ixs).
       Some (Inr (enc, out @ more, ix' # ixs)))))))"

text \<open>The end of a stream: the rest is flushed, or handed back for the next call.\<close>

definition finish_stream :: "bool \<Rightarrow> CopyStreamEncoder \<Rightarrow> (unit, bytes list \<times> bytes) go option" where
  "finish_stream isLast enc =
     (if isLast then then_go (Flush enc) (\<lambda>(_, out). Some (Inr (out, []))) else Some (Inr ([], GetBuffer enc)))"

definition resumed_encoder :: "PGeometry \<Rightarrow> bytes \<Rightarrow> bool \<Rightarrow> CopyStreamEncoder" where
  "resumed_encoder g buf isStart =
     (let enc0 = NewCopyStreamEncoder g; enc = (if buf \<noteq> [] then SetBuffer enc0 (Some buf) else enc0)
      in if isStart then enc else SuppressStart enc)"

definition createCourierEnvelopesFromPayloads ::
  "('pub, 'priv, 'np, 'ns, 'v, 'rc, 'wc, 'ix) client_env \<Rightarrow> Document option \<Rightarrow> u64 \<Rightarrow> (nat \<Rightarrow> draws) \<Rightarrow> ('wc, 'ix) FromPayloads
     \<Rightarrow> (unit, ('rc, 'wc, 'ix) Response) go option" where
  "createCourierEnvelopesFromPayloads E docp now rnd req =
     (let failed = (\<lambda>code. FromPayloadsReply (fps_QueryID req) [] [] [] code) in
      if fps_Destinations req = [] then Some (Inr (failed ThinClientErrorInvalidRequest)) else
      case cgeo E of None \<Rightarrow> Some (Inl Panic) | Some g \<Rightarrow>
      if MaxPlaintextPayloadLength g - 4 \<le> 0 then Some (Inr (failed ThinClientErrorInternalError)) else
      reply_or (failed ThinClientErrorInternalError) (Some (some_or docp)) (\<lambda>doc.
      Option.bind (destinations_loop E g doc (ConvertNormalToReplicaEpoch (cPeriod E) (doc_Epoch doc)) now rnd 0
                     (resumed_encoder g (fps_Buffer req) (fps_IsStart req)) (fps_Destinations req)) (\<lambda>r.
      case r of Inl Panic \<Rightarrow> Some (Inl Panic) | Inl (Err code) \<Rightarrow> Some (Inr (failed code))
      | Inr (enc, elements, ixs) \<Rightarrow>
          reply_or (failed ThinClientErrorInternalError) (finish_stream (fps_IsLast req) enc) (\<lambda>(more, buf).
            Some (Inr (FromPayloadsReply (fps_QueryID req) (elements @ more) buf ixs ThinClientSuccess))))))"

fun tombstone_envelopes ::
  "('pub, 'priv, 'np, 'ns, 'v, 'rc, 'wc, 'ix) client_env \<Rightarrow> Document \<Rightarrow> u64 \<Rightarrow> u64 \<Rightarrow> (nat \<Rightarrow> draws) \<Rightarrow> nat \<Rightarrow> 'wc \<Rightarrow> 'ix
     \<Rightarrow> (unit, CourierEnvelope list \<times> 'ix) go" where
  "tombstone_envelopes E doc epoch now rnd 0 wc ix = Inr ([], ix)"
| "tombstone_envelopes E doc epoch now rnd (Suc n) wc ix =
     (let (boxID, sig) = SignBox E wc ix [] in
      go_bind (buildCourierEnvelope E now (rnd n) doc epoch boxID (writeInnerMessage boxID [] (copy_into 64 sig))) (\<lambda>envelope.
      go_bind (some_or (NextIndex E ix)) (\<lambda>ix'.
      go_bind (tombstone_envelopes E doc epoch now rnd n wc ix') (\<lambda>(envelopes, ix'').
        Inr (envelope # envelopes, ix'')))))"

definition createCourierEnvelopesFromTombstoneRange ::
  "('pub, 'priv, 'np, 'ns, 'v, 'rc, 'wc, 'ix) client_env \<Rightarrow> Document option \<Rightarrow> u64 \<Rightarrow> (nat \<Rightarrow> draws) \<Rightarrow> ('wc, 'ix) FromTombstoneRange
     \<Rightarrow> (unit, ('rc, 'wc, 'ix) Response) go option" where
  "createCourierEnvelopesFromTombstoneRange E docp now rnd req =
     (let failed = (\<lambda>code. FromTombstoneRangeReply (ft_QueryID req) [] [] None code) in
      reply_or (failed ThinClientErrorInvalidRequest) (Some (some_or (ft_DestWriteCap req))) (\<lambda>wc.
      reply_or (failed ThinClientErrorInvalidRequest) (Some (some_or (ft_DestStartIndex req))) (\<lambda>ix.
      if ft_MaxCount req = 0 then Some (Inr (FromTombstoneRangeReply (ft_QueryID req) [] [] (Some ix) ThinClientSuccess)) else
      reply_or (failed ThinClientErrorInternalError) (Some (some_or (cgeo E))) (\<lambda>g.
      reply_or (failed ThinClientErrorInternalError) (Some (some_or docp)) (\<lambda>doc.
      reply_or (failed ThinClientErrorInternalError)
        (Some (tombstone_envelopes E doc (ConvertNormalToReplicaEpoch (cPeriod E) (doc_Epoch doc)) now rnd (unat (ft_MaxCount req)) wc ix)) (\<lambda>(envelopes, ix').
      reply_or (failed ThinClientErrorInternalError) (add_envelopes (resumed_encoder g (ft_Buffer req) (ft_IsStart req)) envelopes) (\<lambda>(enc, elements).
      reply_or (failed ThinClientErrorInternalError) (finish_stream (ft_IsLast req) enc) (\<lambda>(more, buf).
        Some (Inr (FromTombstoneRangeReply (ft_QueryID req) (elements @ more) buf (Some ix') ThinClientSuccess))))))))))"

end
