(* ===== verification/ClientReply.thy ===== *)
theory ClientReply
  imports ClientEnvelope
begin

text \<open>
  The opening of a reply by the client daemon (client/pigeonhole.go, client/daemon.go): the key of the envelope, the
  replicas it may come from, the padding, the message inside, and for a read BACAP's decryption, which also
  verifies the signature.
\<close>

datatype reply_err = errMKEMDecryptionFailed | errBACAPDecryptionFailed | replicaError byte | otherError

fun tryDecryptMKEMWithReplicas ::
  "('ns \<Rightarrow> 'np \<Rightarrow> bytes \<Rightarrow> bytes option) \<Rightarrow> 'ns \<Rightarrow> bytes \<Rightarrow> byte list \<Rightarrow> (byte \<rightharpoonup> 'np) \<Rightarrow> (bytes \<times> byte) option" where
  "tryDecryptMKEMWithReplicas decrypt priv envelope [] keys = None"
| "tryDecryptMKEMWithReplicas decrypt priv envelope (replicaNum # nums) keys =
     (case keys replicaNum of None \<Rightarrow> tryDecryptMKEMWithReplicas decrypt priv envelope nums keys
      | Some pubKey \<Rightarrow> (case decrypt priv pubKey envelope of
          None \<Rightarrow> tryDecryptMKEMWithReplicas decrypt priv envelope nums keys
        | Some decrypted \<Rightarrow> Some (decrypted, replicaNum)))"

text \<open>The envelope key of a replica of the document for the epoch of the descriptor.\<close>

definition replica_key :: "(bytes \<Rightarrow> 'np option) \<Rightarrow> Document \<Rightarrow> u64 \<Rightarrow> byte \<Rightarrow> 'np option" where
  "replica_key unmarshal doc replicaEpoch replicaNum =
     (case ReplicaNum doc replicaNum of Inl _ \<Rightarrow> None
      | Inr desc \<Rightarrow> (case map_of (case EnvelopeKeys desc of None \<Rightarrow> [] | Some m \<Rightarrow> m) replicaEpoch of
          None \<Rightarrow> None | Some keyBytes \<Rightarrow> if keyBytes = [] then None else unmarshal keyBytes))"

definition decryptMKEMEnvelope ::
  "('pub, 'priv, 'np, 'ns, 'v, 'rc, 'wc, 'ix) client_env \<Rightarrow> Document option \<Rightarrow> CourierEnvelopeReply \<Rightarrow> EnvelopeDescriptor \<Rightarrow> 'ns
     \<Rightarrow> (reply_err, ReplicaMessageReplyInnerMessage) go" where
  "decryptMKEMEnvelope E docp env desc priv =
     (case docp of None \<Rightarrow> Inl (Err otherError)
      | Some doc \<Rightarrow>
          let nums = [fst (ed_ReplicaNums desc), snd (ed_ReplicaNums desc)];
              keys = (\<lambda>n. if n \<in> set nums then replica_key (nike_Unmarshal (crep E)) doc (ed_Epoch desc) n else None) in
          (case tryDecryptMKEMWithReplicas (mkem_DecryptEnvelope (crep E)) priv (cer_Payload env) nums keys of
             None \<Rightarrow> Inl (Err errMKEMDecryptionFailed)
           | Some (rawInnerMsg, _) \<Rightarrow>
              (case ExtractMessageFromPaddedPayload rawInnerMsg of
                 Inl Panic \<Rightarrow> Inl Panic | Inl (Err _) \<Rightarrow> Inl (Err otherError)
               | Inr innerBytes \<Rightarrow> (case ParseReplicaMessageReplyInnerMessage innerBytes of
                    Inl Panic \<Rightarrow> Inl Panic | Inl (Err _) \<Rightarrow> Inl (Err otherError)
                  | Inr innerMsg \<Rightarrow> Inr innerMsg))))"

datatype innerMessageType = innerMessageRead BoxReadReply | innerMessageWrite BoxWriteReply

definition classifyInnerMessage :: "ReplicaMessageReplyInnerMessage \<Rightarrow> (reply_err, innerMessageType) go" where
  "classifyInnerMessage msg =
     (if rmr_MessageType msg = 0
      then (case rmr_ReadReply msg of None \<Rightarrow> Inl (Err otherError) | Some r \<Rightarrow> Inr (innerMessageRead r))
      else if rmr_MessageType msg = 1
      then (case rmr_WriteReply msg of None \<Rightarrow> Inl (Err otherError) | Some w \<Rightarrow> Inr (innerMessageWrite w))
      else Inl (Err otherError))"

text \<open>Whether to decrypt: a success, or a tombstone, whose signature is verified that way.\<close>

definition classifyReadReplyError :: "byte \<Rightarrow> (reply_err, bool) go" where
  "classifyReadReplyError errorCode =
     (if errorCode = 0 then Inr False
      else if errorCode = ReplicaErrorTombstone then Inr True
      else Inl (Err (replicaError errorCode)))"

definition classifyWriteReply :: "BoxWriteReply \<Rightarrow> (reply_err, bytes) go" where
  "classifyWriteReply r = (if rwr_ErrorCode r \<noteq> 0 then Inl (Err (replicaError (rwr_ErrorCode r))) else Inr [])"

text \<open>What of a message of the retransmission the decryption looks at.\<close>

record 'rc reply_key =
  rk_EnvelopeDescriptor :: bytes
  rk_IsRead :: bool
  rk_ReadCap :: "'rc option"
  rk_MessageBoxIndex :: "bytes option"

definition decrypt_box ::
  "('pub, 'priv, 'np, 'ns, 'v, 'rc, 'wc, 'ix) client_env \<Rightarrow> 'rc \<Rightarrow> bytes \<Rightarrow> BoxReadReply \<Rightarrow> (reply_err, bytes) go" where
  "decrypt_box E rc index r =
     (case ix_FromBytes E index of None \<Rightarrow> Inl (Err errBACAPDecryptionFailed)
      | Some ix \<Rightarrow>
          if \<not> NewStatefulReaderWithIndex E rc ix then Inl (Err errBACAPDecryptionFailed)
          else (case DecryptNext E rc ix (rrr_BoxID r) (rrr_Payload r) (rrr_Signature r) of
              None \<Rightarrow> if rrr_ErrorCode r = ReplicaErrorTombstone then Inl (Err (replicaError ThinClientErrorInvalidTombstoneSig))
                      else Inl (Err errBACAPDecryptionFailed)
            | Some plaintext \<Rightarrow> if rrr_ErrorCode r = ReplicaErrorTombstone then Inl (Err (replicaError ReplicaErrorTombstone))
                      else Inr plaintext))"

definition decryptPigeonholeReply ::
  "('pub, 'priv, 'np, 'ns, 'v, 'rc, 'wc, 'ix) client_env \<Rightarrow> Document option \<Rightarrow> 'rc reply_key \<Rightarrow> CourierEnvelopeReply
     \<Rightarrow> (reply_err, bytes) go" where
  "decryptPigeonholeReply E docp m env =
     (case desc_Unmarshal E (rk_EnvelopeDescriptor m) of None \<Rightarrow> Inl (Err otherError)
      | Some desc \<Rightarrow> (case priv_Unmarshal E (ed_EnvelopeKey desc) of None \<Rightarrow> Inl (Err otherError)
          | Some priv \<Rightarrow>
              go_bind (decryptMKEMEnvelope E docp env desc priv) (\<lambda>innerMsg.
              go_bind (classifyInnerMessage innerMsg) (\<lambda>ty. case ty of
                innerMessageRead r \<Rightarrow> go_bind (classifyReadReplyError (rrr_ErrorCode r)) (\<lambda>_.
                  case (rk_IsRead m, rk_ReadCap m, rk_MessageBoxIndex m) of
                    (True, Some rc, Some index) \<Rightarrow> decrypt_box E rc index r
                  | _ \<Rightarrow> Inr (rrr_Payload r))
              | innerMessageWrite w \<Rightarrow> classifyWriteReply w))))"

section \<open>What to do about an error\<close>

datatype payloadErrorAction = payloadActionReturnError | payloadActionRetry | payloadActionIdempotentSuccess

definition determinePayloadErrorAction :: "reply_err \<Rightarrow> bool \<Rightarrow> bool \<Rightarrow> bool \<Rightarrow> payloadErrorAction" where
  "determinePayloadErrorAction e isRead noRetry noIdempotent =
     (case e of replicaError code \<Rightarrow>
        if code = ReplicaErrorBoxIDNotFound \<and> isRead \<and> \<not> noRetry then payloadActionRetry
        else if code = ReplicaErrorBoxAlreadyExists \<and> \<not> isRead \<and> \<not> noIdempotent then payloadActionIdempotentSuccess
        else payloadActionReturnError
      | _ \<Rightarrow> payloadActionReturnError)"

definition mapDecryptionErrorToCode :: "reply_err \<Rightarrow> byte" where
  "mapDecryptionErrorToCode e = (case e of
     errMKEMDecryptionFailed \<Rightarrow> ThinClientErrorMKEMDecryptionFailed
   | errBACAPDecryptionFailed \<Rightarrow> ThinClientErrorBACAPDecryptionFailed
   | replicaError code \<Rightarrow> code
   | otherError \<Rightarrow> ThinClientErrorInternalError)"

end
