(* ===== verification/ClientArq.thy ===== *)
theory ClientArq
  imports ClientCopy ClientReply "HOL-Library.AList"
begin

text \<open>
  The client daemon: the retransmission of queries until they are answered (client/pigeonhole.go,
  client/daemon.go) over the listener. A step is what a handler does under one hold of \<open>replyLock\<close>: the reply handler
  looks a reply up in one step and acts on it in another, and a resend whose packet could not be made is
  put off in a step of its own, so that a cancellation can come between. Messages are objects with an address,
  shared between the maps and the handlers. The random source does not fail, and what the Sphinx layer
  makes of a packet, the clock and the documents are inputs of the step. A timer entry is
  pending from its push on.
\<close>

section \<open>State\<close>

definition ARQMessageTypeEnvelope :: byte where "ARQMessageTypeEnvelope = 0"
definition ARQMessageTypeCopyCommand :: byte where "ARQMessageTypeCopyCommand = 1"

record 'rc ARQMessage =
  MessageType :: byte
  AppID :: bytes
  QueryID :: bytes
  EnvelopeHash :: bytes
  DestinationIdHash :: bytes
  RecipientQueueID :: bytes
  arq_Payload :: bytes
  SURBID :: surb_ref
  SURBDecryptionKeys :: bytes
  Retransmissions :: u32
  SentAt :: int
  ReplyETA :: int
  arq_EnvelopeDescriptor :: bytes
  IsRead :: bool
  arq_State :: byte
  arq_ReadCap :: "'rc option"
  arq_MessageBoxIndex :: "bytes option"
  NoRetryOnBoxIDNotFound :: bool
  NoIdempotentBoxAlreadyExists :: bool

record replyDescriptor =
  rd_ID :: "bytes option"
  rd_appID :: bytes
  rd_surbKey :: bytes

record ('rc, 'wc, 'ix) daemon =
  lst :: "(('rc, 'wc, 'ix) Request, ('rc, 'wc, 'ix) Response) listener"
  arqMessages :: "nat \<rightharpoonup> 'rc ARQMessage"
  next_addr :: nat
  arqSurbIDMap :: "(bytes \<times> nat) list"
  arqEnvelopeHashMap :: "bytes \<rightharpoonup> surb_ref"
  arqTimerQueue :: "(int \<times> surb_ref) list"
  replies :: "bytes \<rightharpoonup> replyDescriptor"
  decoys :: "bytes \<rightharpoonup> replyDescriptor"
  timerQueue :: "(int \<times> surb_ref option) list"
  egressCh :: "('rc, 'wc, 'ix) Request list"
  in_reply :: "(nat \<times> bytes) option"
  in_resend :: "nat option"
  packets :: "bytes list"

definition RoundTripTimeSlop :: int where "RoundTripTimeSlop = 20000000000"
definition CopyPollInterval :: int where "CopyPollInterval = 5000000000"
definition resendQueueFullBackoff :: int where "resendQueueFullBackoff = 100000000"
definition arqComposeRetryBackoff :: int where "arqComposeRetryBackoff = 1000000000"

text \<open>What a step reads: documents, the clock, random choices, the making of packets (key, packet, time).\<close>

record inputs =
  i_doc :: "Document option"
  i_signed :: "(bytes option \<times> u64) \<times> (u64 \<rightharpoonup> bytes)"
  i_now :: int
  i_epoch :: u64
  i_draws :: "nat \<Rightarrow> draws"
  i_surb :: bytes
  i_choice :: nat
  i_compose :: "bytes \<Rightarrow> bytes \<Rightarrow> bytes \<Rightarrow> bytes \<Rightarrow> (bytes \<times> bytes \<times> int) option"   \<comment> \<open>courier, queue, payload, SURB ID\<close>
  i_send :: "SendMessage \<Rightarrow> bytes \<times> int \<times> bool"

section \<open>Helpers\<close>

definition respond :: "bytes \<Rightarrow> ('rc, 'wc, 'ix) Response \<Rightarrow> ('rc, 'wc, 'ix) daemon \<Rightarrow> ('rc, 'wc, 'ix) daemon" where
  "respond app r d = (case getConnection app (lst d) of None \<Rightarrow> d | Some i \<Rightarrow> d\<lparr>lst := sendResponse i r (lst d)\<rparr>)"

definition upd_message :: "nat \<Rightarrow> ('rc ARQMessage \<Rightarrow> 'rc ARQMessage) \<Rightarrow> ('rc, 'wc, 'ix) daemon \<Rightarrow> ('rc, 'wc, 'ix) daemon" where
  "upd_message a f d = d\<lparr>arqMessages := (arqMessages d)(a := map_option f (arqMessages d a))\<rparr>"

definition push_timer :: "int \<Rightarrow> surb_ref \<Rightarrow> ('rc, 'wc, 'ix) daemon \<Rightarrow> ('rc, 'wc, 'ix) daemon" where
  "push_timer at s d = d\<lparr>arqTimerQueue := arqTimerQueue d @ [(at, s)]\<rparr>"

text \<open>\<open>Cancel\<close> removes the first entry with this pointer.\<close>

definition cancel_timer :: "surb_ref \<Rightarrow> ('rc, 'wc, 'ix) daemon \<Rightarrow> ('rc, 'wc, 'ix) daemon" where
  "cancel_timer s d = d\<lparr>arqTimerQueue :=
     takeWhile (\<lambda>e. snd e \<noteq> s) (arqTimerQueue d) @ tl (dropWhile (\<lambda>e. snd e \<noteq> s) (arqTimerQueue d))\<rparr>"

text \<open>The deletion of both map entries of a message, as every terminal branch and \<open>dropARQMessage\<close> do it.\<close>

definition dropARQMessage :: "'rc ARQMessage \<Rightarrow> ('rc, 'wc, 'ix) daemon \<Rightarrow> ('rc, 'wc, 'ix) daemon" where
  "dropARQMessage m d = d\<lparr>arqSurbIDMap := AList.delete (snd (SURBID m)) (arqSurbIDMap d),
     arqEnvelopeHashMap := (arqEnvelopeHashMap d)(EnvelopeHash m := None)\<rparr>"

text \<open>A message gets a new SURB ID, which is allocated, and both maps are made to name it.\<close>

definition rekey :: "nat \<Rightarrow> 'rc ARQMessage \<Rightarrow> bytes \<Rightarrow> ('rc ARQMessage \<Rightarrow> 'rc ARQMessage) \<Rightarrow> ('rc, 'wc, 'ix) daemon
     \<Rightarrow> ('rc, 'wc, 'ix) daemon" where
  "rekey a m surb f d =
     (let ref = (next_addr d, surb) in
      d\<lparr>next_addr := Suc (next_addr d),
        arqMessages := (arqMessages d)(a \<mapsto> (f m)\<lparr>SURBID := ref\<rparr>),
        arqSurbIDMap := AList.update surb a (AList.delete (snd (SURBID m)) (arqSurbIDMap d)),
        arqEnvelopeHashMap := (arqEnvelopeHashMap d)(EnvelopeHash m \<mapsto> ref)\<rparr>)"

section \<open>Sending\<close>

text \<open>The message at a new address, its SURB ID at the next one; nothing is stored if there is no packet.\<close>

definition arqSend :: "inputs \<Rightarrow> 'rc ARQMessage \<Rightarrow> ('rc, 'wc, 'ix) daemon \<Rightarrow> ('rc, 'wc, 'ix) daemon option" where
  "arqSend q m d =
     (case i_compose q (DestinationIdHash m) (RecipientQueueID m) (arq_Payload m) (i_surb q) of
        None \<Rightarrow> None
      | Some (pkt, key, rtt) \<Rightarrow>
          let a = next_addr d; ref = (Suc a, i_surb q);
              m' = m\<lparr>SURBID := ref, SURBDecryptionKeys := key, SentAt := i_now q, ReplyETA := rtt, Retransmissions := 0\<rparr>;
              d1 = d\<lparr>next_addr := Suc (Suc a), arqMessages := (arqMessages d)(a \<mapsto> m'),
                     arqSurbIDMap := AList.update (i_surb q) a (arqSurbIDMap d),
                     arqEnvelopeHashMap := (arqEnvelopeHashMap d)(EnvelopeHash m \<mapsto> ref),
                     packets := packets d @ [pkt]\<rparr>
          in Some (push_timer (i_now q + rtt + RoundTripTimeSlop) ref d1))"

text \<open>The services a document offers; a service without an endpoint that is a string panics.\<close>

definition service_endpoint :: "string \<Rightarrow> MixDescriptor \<Rightarrow> (unit, (bytes \<times> MixDescriptor) list) go" where
  "service_endpoint capability provider =
     (case map_of (case Kaetzchen provider of None \<Rightarrow> [] | Some k \<Rightarrow> k) capability of
        None \<Rightarrow> Inr []
      | Some params \<Rightarrow> (case map_of (case params of None \<Rightarrow> [] | Some ps \<Rightarrow> ps) ''endpoint'' of
          Some (KString s) \<Rightarrow> Inr [(map of_char s, provider)]
        | _ \<Rightarrow> Inl Panic))"

fun collect_services :: "string \<Rightarrow> MixDescriptor list \<Rightarrow> (unit, (bytes \<times> MixDescriptor) list) go" where
  "collect_services capability [] = Inr []"
| "collect_services capability (p # ps) =
     go_bind (service_endpoint capability p) (\<lambda>here. go_bind (collect_services capability ps) (\<lambda>more. Inr (here @ more)))"

definition FindServices :: "string \<Rightarrow> Document \<Rightarrow> (unit, (bytes \<times> MixDescriptor) list) go" where
  "FindServices capability doc = collect_services capability (ServiceNodes doc)"

text \<open>One of them, at random: \<open>Intn\<close> is the number drawn modulo the number of services.\<close>

definition GetRandomCourier :: "(bytes \<Rightarrow> bytes) \<Rightarrow> nat \<Rightarrow> Document \<Rightarrow> (unit, bytes \<times> bytes) go" where
  "GetRandomCourier sum256 choice doc =
     go_bind (FindServices ''courier'' doc) (\<lambda>services.
       if services = [] then Inl (Err ())
       else let (queue, provider) = services ! (choice mod length services)
            in Inr (sum256 (raw_key (IdentityKey provider)), queue))"

section \<open>Starting\<close>

definition validateStartResendingRequest :: "('rc, 'wc) StartResendingEncryptedMessage \<Rightarrow> (bytes \<times> bytes) option" where
  "validateStartResendingRequest req =
     (case (sr_QueryID req, sr_EnvelopeHash req) of
        (Some qid, Some h) \<Rightarrow>
          if sr_MessageCiphertext req = [] \<or> sr_EnvelopeDescriptor req = []
            \<or> (sr_ReadCap req = None) = (sr_WriteCap req = None) then None else Some (qid, h)
      | _ \<Rightarrow> None)"

definition failed_start :: "bytes \<Rightarrow> ('rc, 'wc) StartResendingEncryptedMessage \<Rightarrow> byte \<Rightarrow> ('rc, 'wc, 'ix) daemon \<Rightarrow> ('rc, 'wc, 'ix) daemon" where
  "failed_start app req code = respond app (StartResendingEncryptedMessageReply (sr_QueryID req) None code None)"

text \<open>A panic is caught by the dispatcher; nothing has been stored then.\<close>

definition startResendingEncryptedMessage ::
  "('pub, 'priv, 'np, 'ns, 'v, 'rc, 'wc, 'ix) client_env \<Rightarrow> inputs \<Rightarrow> bytes \<Rightarrow> ('rc, 'wc) StartResendingEncryptedMessage
     \<Rightarrow> ('rc, 'wc, 'ix) daemon \<Rightarrow> ('rc, 'wc, 'ix) daemon" where
  "startResendingEncryptedMessage E q app req d =
     (case validateStartResendingRequest req of
        None \<Rightarrow> failed_start app req ThinClientErrorInvalidRequest d
      | Some (qid, h) \<Rightarrow> (case i_doc q of
          None \<Rightarrow> failed_start app req ThinClientErrorInternalError d
        | Some doc \<Rightarrow> (case GetRandomCourier (Sum256 (rpki (crep E))) (i_choice q) doc of
            Inl Panic \<Rightarrow> d
          | Inl (Err _) \<Rightarrow> failed_start app req ThinClientErrorInternalError d
          | Inr (dest, queue) \<Rightarrow>
              (case arqSend q \<lparr>MessageType = ARQMessageTypeEnvelope, AppID = app, QueryID = qid, EnvelopeHash = h,
                 DestinationIdHash = dest, RecipientQueueID = queue, arq_Payload = sr_MessageCiphertext req,
                 SURBID = (0, []), SURBDecryptionKeys = [], Retransmissions = 0, SentAt = 0, ReplyETA = 0,
                 arq_EnvelopeDescriptor = sr_EnvelopeDescriptor req, IsRead = (sr_ReadCap req \<noteq> None),
                 arq_State = ARQStateWaitingForACK, arq_ReadCap = sr_ReadCap req,
                 arq_MessageBoxIndex = sr_MessageBoxIndex req, NoRetryOnBoxIDNotFound = sr_NoRetryOnBoxIDNotFound req,
                 NoIdempotentBoxAlreadyExists = sr_NoIdempotentBoxAlreadyExists req\<rparr> d of
                 None \<Rightarrow> failed_start app req ThinClientErrorInternalError d
               | Some d' \<Rightarrow> d'))))"

definition failed_copy :: "bytes \<Rightarrow> 'wc StartResendingCopyCommand \<Rightarrow> byte \<Rightarrow> ('rc, 'wc, 'ix) daemon \<Rightarrow> ('rc, 'wc, 'ix) daemon" where
  "failed_copy app req code = respond app (StartResendingCopyCommandReply (sc_QueryID req) code 0 0)"

definition resolveCourier :: "(bytes \<Rightarrow> bytes) \<Rightarrow> inputs \<Rightarrow> bytes option \<Rightarrow> bytes \<Rightarrow> (unit, bytes \<times> bytes) go" where
  "resolveCourier sum256 q specifiedHash specifiedQueueID =
     (case specifiedHash of
        Some h \<Rightarrow> if specifiedQueueID \<noteq> [] then Inr (h, specifiedQueueID)
                  else go_bind (some_or (i_doc q)) (GetRandomCourier sum256 (i_choice q))
      | None \<Rightarrow> go_bind (some_or (i_doc q)) (GetRandomCourier sum256 (i_choice q)))"

definition copy_query :: "bytes \<Rightarrow> (trunnel_err, bytes) go" where
  "copy_query writeCapBytes = CourierQuery_MarshalBinary \<lparr>cq_QueryType = 1, cq_Envelope = None,
     cq_CopyCommand = Some \<lparr>cc_WriteCapLen = word_of_nat (length writeCapBytes), cc_WriteCap = writeCapBytes\<rparr>\<rparr>"

definition startResendingCopyCommand ::
  "('pub, 'priv, 'np, 'ns, 'v, 'rc, 'wc, 'ix) client_env \<Rightarrow> inputs \<Rightarrow> bytes \<Rightarrow> 'wc StartResendingCopyCommand
     \<Rightarrow> ('rc, 'wc, 'ix) daemon \<Rightarrow> ('rc, 'wc, 'ix) daemon" where
  "startResendingCopyCommand E q app req d =
     (case (sc_QueryID req, sc_WriteCap req) of
        (Some qid, Some wc) \<Rightarrow> (case wc_MarshalBinary E wc of
            None \<Rightarrow> failed_copy app req ThinClientErrorInternalError d
          | Some capBytes \<Rightarrow> (case copy_query capBytes of
              Inl Panic \<Rightarrow> d | Inl (Err _) \<Rightarrow> failed_copy app req ThinClientErrorInternalError d
            | Inr payload \<Rightarrow>
               (case resolveCourier (Sum256 (rpki (crep E))) q (sc_CourierIdentityHash req) (sc_CourierQueueID req) of
                  Inl Panic \<Rightarrow> d | Inl (Err _) \<Rightarrow> failed_copy app req ThinClientErrorInternalError d
                | Inr (dest, queue) \<Rightarrow>
                   (case arqSend q \<lparr>MessageType = ARQMessageTypeCopyCommand, AppID = app, QueryID = qid,
                      EnvelopeHash = Sum256 (rpki (crep E)) capBytes, DestinationIdHash = dest, RecipientQueueID = queue,
                      arq_Payload = payload, SURBID = (0, []), SURBDecryptionKeys = [], Retransmissions = 0, SentAt = 0,
                      ReplyETA = 0, arq_EnvelopeDescriptor = [], IsRead = False, arq_State = ARQStateWaitingForACK,
                      arq_ReadCap = None, arq_MessageBoxIndex = None, NoRetryOnBoxIDNotFound = False,
                      NoIdempotentBoxAlreadyExists = False\<rparr> d of
                      None \<Rightarrow> failed_copy app req ThinClientErrorInternalError d
                    | Some d' \<Rightarrow> d'))))
      | _ \<Rightarrow> failed_copy app req ThinClientErrorInvalidRequest d)"

end
