(* ===== verification/ClientDaemon.thy ===== *)
theory ClientDaemon
  imports ClientArq
begin

text \<open>
  The client daemon, continued: cancelling, resending, the handling of replies, the older interface that sends one
  message, the dispatch of requests, and the steps of the whole daemon (client/pigeonhole.go, client/daemon.go).
\<close>

section \<open>Cancelling\<close>

text \<open>
  The two cancellations: the entry of the hash, and with it the message. The original call is answered over the
  connection that cancels.
\<close>

definition cancel_hash ::
  "bytes \<Rightarrow> bytes \<Rightarrow> ('rc ARQMessage \<Rightarrow> ('rc, 'wc, 'ix) Response) \<Rightarrow> ('rc, 'wc, 'ix) daemon \<Rightarrow> ('rc, 'wc, 'ix) daemon" where
  "cancel_hash app h cancelled d =
     (case arqEnvelopeHashMap d h of None \<Rightarrow> d
      | Some ref \<Rightarrow>
          let d1 = d\<lparr>arqSurbIDMap := AList.delete (snd ref) (arqSurbIDMap d), arqEnvelopeHashMap := (arqEnvelopeHashMap d)(h := None)\<rparr> in
          (case Option.bind (map_of (arqSurbIDMap d) (snd ref)) (arqMessages d) of
             None \<Rightarrow> d1
           | Some m \<Rightarrow> respond app (cancelled m) (cancel_timer (SURBID m) d1)))"

definition cancelResendingEncryptedMessage ::
  "bytes \<Rightarrow> CancelResendingEncryptedMessage \<Rightarrow> ('rc, 'wc, 'ix) daemon \<Rightarrow> ('rc, 'wc, 'ix) daemon" where
  "cancelResendingEncryptedMessage app req d =
     (if getConnection app (lst d) = None then d
      else case (cr_QueryID req, cr_EnvelopeHash req) of
        (Some qid, Some h) \<Rightarrow>
          respond app (CancelResendingEncryptedMessageReply (Some qid) ThinClientSuccess)
            (cancel_hash app h (\<lambda>m. StartResendingEncryptedMessageReply (Some (QueryID m)) None
               ThinClientErrorStartResendingCancelled (Some (DestinationIdHash m, RecipientQueueID m))) d)
      | _ \<Rightarrow> respond app (CancelResendingEncryptedMessageReply (cr_QueryID req) ThinClientErrorInvalidRequest) d)"

definition cancelResendingCopyCommand ::
  "bytes \<Rightarrow> CancelResendingCopyCommand \<Rightarrow> ('rc, 'wc, 'ix) daemon \<Rightarrow> ('rc, 'wc, 'ix) daemon" where
  "cancelResendingCopyCommand app req d =
     (if getConnection app (lst d) = None then d
      else case (ccc_QueryID req, ccc_WriteCapHash req) of
        (Some qid, Some h) \<Rightarrow>
          respond app (CancelResendingCopyCommandReply (Some qid) ThinClientSuccess)
            (cancel_hash app h (\<lambda>m. StartResendingCopyCommandReply (Some (QueryID m))
               ThinClientErrorStartResendingCancelled 0 0) d)
      | _ \<Rightarrow> respond app (CancelResendingCopyCommandReply (ccc_QueryID req) ThinClientErrorInvalidRequest) d)"

section \<open>Resending\<close>

definition enqueueResend :: "int \<Rightarrow> surb_ref \<Rightarrow> ('rc, 'wc, 'ix) daemon \<Rightarrow> ('rc, 'wc, 'ix) daemon" where
  "enqueueResend now ref d =
     (case Option.bind (map_of (arqSurbIDMap d) (snd ref)) (arqMessages d) of
        None \<Rightarrow> d
      | Some m \<Rightarrow> (case getConnection (AppID m) (lst d) of
          None \<Rightarrow> d
        | Some i \<Rightarrow> if resend_room i (lst d) then d\<lparr>lst := queue_resend i ref (lst d)\<rparr>
                    else push_timer (now + resendQueueFullBackoff) ref d))"

definition scheduleARQFollowUp :: "int \<Rightarrow> 'rc ARQMessage \<Rightarrow> ('rc, 'wc, 'ix) daemon \<Rightarrow> ('rc, 'wc, 'ix) daemon" where
  "scheduleARQFollowUp now m = enqueueResend now (SURBID m)"

text \<open>
  The timer's worker: a first entry is removed and its resend enqueued. Usually that is at its
  time; after a \<open>Cancel\<close> of the entry before it, it may be earlier (\<open>cancel_fires_next_early\<close>
  in CoreTimer), so the step asks for no time.
\<close>

definition timer_fires :: "int \<Rightarrow> nat \<Rightarrow> ('rc, 'wc, 'ix) daemon \<Rightarrow> ('rc, 'wc, 'ix) daemon" where
  "timer_fires now j d =
     (if j < length (arqTimerQueue d) \<and> (\<forall>e \<in> set (arqTimerQueue d). fst (arqTimerQueue d ! j) \<le> fst e)
      then enqueueResend now (snd (arqTimerQueue d ! j))
             (d\<lparr>arqTimerQueue := take j (arqTimerQueue d) @ drop (Suc j) (arqTimerQueue d)\<rparr>)
      else d)"

definition rotateARQSurbIDLocked ::
  "nat \<Rightarrow> 'rc ARQMessage \<Rightarrow> bytes \<Rightarrow> bytes \<Rightarrow> int \<Rightarrow> int \<Rightarrow> ('rc, 'wc, 'ix) daemon \<Rightarrow> ('rc, 'wc, 'ix) daemon" where
  "rotateARQSurbIDLocked a m surb key rtt now =
     rekey a m surb (\<lambda>m. m\<lparr>SURBDecryptionKeys := key, ReplyETA := rtt, SentAt := now, Retransmissions := Retransmissions m + 1\<rparr>)"

text \<open>If no packet can be made, the lock is released before the resend is put off.\<close>

definition arqDoResend :: "inputs \<Rightarrow> surb_ref \<Rightarrow> ('rc, 'wc, 'ix) daemon \<Rightarrow> ('rc, 'wc, 'ix) daemon" where
  "arqDoResend q ref d =
     (case map_of (arqSurbIDMap d) (snd ref) of None \<Rightarrow> d
      | Some a \<Rightarrow> (case arqMessages d a of None \<Rightarrow> d
        | Some m \<Rightarrow>
            if getConnection (AppID m) (lst d) = None
            then d\<lparr>arqSurbIDMap := AList.delete (snd ref) (arqSurbIDMap d), arqEnvelopeHashMap := (arqEnvelopeHashMap d)(EnvelopeHash m := None)\<rparr>
            else (case i_compose q (DestinationIdHash m) (RecipientQueueID m) (arq_Payload m) (i_surb q) of
                None \<Rightarrow> d\<lparr>in_resend := Some a\<rparr>
              | Some (pkt, key, rtt) \<Rightarrow>
                  let d1 = rotateARQSurbIDLocked a m (i_surb q) key rtt (i_now q) d
                  in push_timer (i_now q + rtt + RoundTripTimeSlop) (next_addr d, i_surb q) (d1\<lparr>packets := packets d1 @ [pkt]\<rparr>))))"

definition rescheduleARQAfterComposeFailure :: "inputs \<Rightarrow> ('rc, 'wc, 'ix) daemon \<Rightarrow> ('rc, 'wc, 'ix) daemon" where
  "rescheduleARQAfterComposeFailure q d =
     (case in_resend d of None \<Rightarrow> d
      | Some a \<Rightarrow> (case arqMessages d a of None \<Rightarrow> d\<lparr>in_resend := None\<rparr>
        | Some m \<Rightarrow> push_timer (i_now q + arqComposeRetryBackoff) (next_addr d, i_surb q)
                       ((rekey a m (i_surb q) id d)\<lparr>in_resend := None\<rparr>)))"

section \<open>Replies\<close>

definition finishARQMessage :: "'rc ARQMessage \<Rightarrow> byte \<Rightarrow> bytes option \<Rightarrow> ('rc, 'wc, 'ix) daemon \<Rightarrow> ('rc, 'wc, 'ix) daemon" where
  "finishARQMessage m code plaintext =
     respond (AppID m) (StartResendingEncryptedMessageReply (Some (QueryID m)) plaintext code (Some (DestinationIdHash m, RecipientQueueID m)))"

definition reply_key_of :: "'rc ARQMessage \<Rightarrow> 'rc reply_key" where
  "reply_key_of m = \<lparr>rk_EnvelopeDescriptor = arq_EnvelopeDescriptor m, rk_IsRead = IsRead m, rk_ReadCap = arq_ReadCap m,
     rk_MessageBoxIndex = arq_MessageBoxIndex m\<rparr>"

text \<open>A panic of the decryption, which does not happen, would end the daemon; it is taken for an error here.\<close>

definition handlePayloadReply ::
  "('pub, 'priv, 'np, 'ns, 'v, 'rc, 'wc, 'ix) client_env \<Rightarrow> inputs \<Rightarrow> nat \<Rightarrow> 'rc ARQMessage \<Rightarrow> CourierEnvelopeReply
     \<Rightarrow> ('rc, 'wc, 'ix) daemon \<Rightarrow> ('rc, 'wc, 'ix) daemon" where
  "handlePayloadReply E q a m env d =
     (case decryptPigeonholeReply E (i_doc q) (reply_key_of m) env of
        Inl f \<Rightarrow>
          let e = (case f of Err e \<Rightarrow> e | Panic \<Rightarrow> otherError) in
          (case determinePayloadErrorAction e (IsRead m) (NoRetryOnBoxIDNotFound m) (NoIdempotentBoxAlreadyExists m) of
             payloadActionRetry \<Rightarrow>
               scheduleARQFollowUp (i_now q) m (upd_message a (\<lambda>m. m\<lparr>arq_State := ARQStateWaitingForACK\<rparr>) d)
           | payloadActionIdempotentSuccess \<Rightarrow> finishARQMessage m ThinClientSuccess None (dropARQMessage m d)
           | payloadActionReturnError \<Rightarrow> finishARQMessage m (mapDecryptionErrorToCode e) None (dropARQMessage m d))
      | Inr plaintext \<Rightarrow>
          let d1 = dropARQMessage m d in
          if \<not> IsRead m then finishARQMessage m ThinClientSuccess None d1
          else if plaintext = [] then finishARQMessage m ReplicaErrorTombstone (Some []) d1
          else (case ExtractMessageFromPaddedPayload plaintext of
              Inl _ \<Rightarrow> finishARQMessage m ThinClientErrorInternalError None d1
            | Inr unpadded \<Rightarrow> finishARQMessage m ThinClientSuccess (Some unpadded) d1))"

definition scheduleCopyCommandPoll :: "inputs \<Rightarrow> nat \<Rightarrow> 'rc ARQMessage \<Rightarrow> ('rc, 'wc, 'ix) daemon \<Rightarrow> ('rc, 'wc, 'ix) daemon" where
  "scheduleCopyCommandPoll q a m d =
     (if map_of (arqSurbIDMap d) (snd (SURBID m)) \<noteq> Some a then d
      else push_timer (i_now q + CopyPollInterval) (next_addr d, i_surb q) (rekey a m (i_surb q) id d))"

definition copy_finish :: "'rc ARQMessage \<Rightarrow> byte \<Rightarrow> byte \<Rightarrow> u64 \<Rightarrow> ('rc, 'wc, 'ix) daemon \<Rightarrow> ('rc, 'wc, 'ix) daemon" where
  "copy_finish m code replicaCode failedIndex d =
     respond (AppID m) (StartResendingCopyCommandReply (Some (QueryID m)) code replicaCode failedIndex) (dropARQMessage m d)"

definition handleCopyCommandARQReply ::
  "inputs \<Rightarrow> nat \<Rightarrow> 'rc ARQMessage \<Rightarrow> CourierQueryReply \<Rightarrow> ('rc, 'wc, 'ix) daemon \<Rightarrow> ('rc, 'wc, 'ix) daemon" where
  "handleCopyCommandARQReply q a m r d =
     (case cqr_CopyCommandReply r of
        None \<Rightarrow> d
      | Some c \<Rightarrow>
          if cqr_ReplyType r \<noteq> 1 then d
          else if ccr_Status c = CopyStatusInProgress then scheduleCopyCommandPoll q a m d
          else if ccr_Status c = CopyStatusSucceeded then copy_finish m ThinClientSuccess 0 0 d
          else if ccr_Status c = CopyStatusFailed
          then copy_finish m ThinClientErrorCopyCommandFailed (ccr_ErrorCode c) (ccr_FailedEnvelopeIndex c) d
          else copy_finish m ThinClientErrorInternalError 0 0 d)"

definition handleEnvelopeARQReply ::
  "('pub, 'priv, 'np, 'ns, 'v, 'rc, 'wc, 'ix) client_env \<Rightarrow> inputs \<Rightarrow> nat \<Rightarrow> 'rc ARQMessage \<Rightarrow> CourierEnvelopeReply
     \<Rightarrow> ('rc, 'wc, 'ix) daemon \<Rightarrow> ('rc, 'wc, 'ix) daemon" where
  "handleEnvelopeARQReply E q a m env d =
     (let t = computeARQStateTransition (arq_State m) (cer_ReplyType env) (courierEnvelopeErrorToThinError (cer_ErrorCode env))
                (IsRead m) (NoIdempotentBoxAlreadyExists m) in
      case Action t of
        ARQActionError \<Rightarrow> finishARQMessage m (tr_ErrorCode t) None (dropARQMessage m d)
      | ARQActionComplete \<Rightarrow> finishARQMessage m ThinClientSuccess None (dropARQMessage m d)
      | ARQActionHandlePayload \<Rightarrow>
          handlePayloadReply E q a (m\<lparr>arq_State := NewState t\<rparr>) env (upd_message a (\<lambda>m. m\<lparr>arq_State := NewState t\<rparr>) d)
      | ARQActionSendNewSURB \<Rightarrow> scheduleARQFollowUp (i_now q) m (upd_message a (\<lambda>m. m\<lparr>arq_State := NewState t\<rparr>) d)
      | ARQActionIgnore \<Rightarrow> d)"

definition handlePigeonholeARQReply ::
  "('pub, 'priv, 'np, 'ns, 'v, 'rc, 'wc, 'ix) client_env \<Rightarrow> (bytes \<Rightarrow> bytes \<Rightarrow> bytes option) \<Rightarrow> inputs \<Rightarrow> nat \<Rightarrow> bytes
     \<Rightarrow> ('rc, 'wc, 'ix) daemon \<Rightarrow> ('rc, 'wc, 'ix) daemon" where
  "handlePigeonholeARQReply E open_surb q a ciphertext d =
     (case arqMessages d a of None \<Rightarrow> d
      | Some m \<Rightarrow>
          if getConnection (AppID m) (lst d) = None then d
          else (case open_surb ciphertext (SURBDecryptionKeys m) of
              None \<Rightarrow> dropARQMessage m d
            | Some surbPayload \<Rightarrow> (case ParseCourierQueryReply surbPayload of
                Inl _ \<Rightarrow> dropARQMessage m d
              | Inr r \<Rightarrow>
                  if MessageType m = ARQMessageTypeCopyCommand then handleCopyCommandARQReply q a m r d
                  else if MessageType m \<noteq> ARQMessageTypeEnvelope then dropARQMessage m d
                  else (case cqr_EnvelopeReply r of
                      None \<Rightarrow> dropARQMessage m d
                    | Some env \<Rightarrow> if cqr_ReplyType r \<noteq> 0 then dropARQMessage m d
                        else handleEnvelopeARQReply E q a m env d))))"

text \<open>
  \<open>handleReply\<close>: a SURB ID is looked up in the three maps in turn. A reply to a query is kept for the next step, its
  timer cancelled.
\<close>

definition handleReply :: "(bytes \<Rightarrow> bytes \<Rightarrow> bytes option) \<Rightarrow> bytes \<Rightarrow> bytes \<Rightarrow> ('rc, 'wc, 'ix) daemon \<Rightarrow> ('rc, 'wc, 'ix) daemon" where
  "handleReply open_surb surbID ciphertext d =
     (case replies d surbID of
        Some desc \<Rightarrow>
          let d1 = d\<lparr>replies := (replies d)(surbID := None)\<rparr> in
          (case open_surb ciphertext (rd_surbKey desc) of None \<Rightarrow> d1
           | Some payload \<Rightarrow>
               let r = MessageReplyEvent (rd_ID desc) surbID payload ThinClientSuccess in
               (case getConnection (rd_appID desc) (lst d1) of
                  Some i \<Rightarrow> d1\<lparr>lst := sendResponse i r (lst d1)\<rparr>
                | None \<Rightarrow> d1\<lparr>lst := snd (queueReplyForDisconnected (rd_appID desc) r (lst d1))\<rparr>))
      | None \<Rightarrow> (case decoys d surbID of
          Some _ \<Rightarrow> d\<lparr>decoys := (decoys d)(surbID := None)\<rparr>
        | None \<Rightarrow> (case map_of (arqSurbIDMap d) surbID of None \<Rightarrow> d
            | Some a \<Rightarrow> (case arqMessages d a of None \<Rightarrow> d
                | Some m \<Rightarrow> (cancel_timer (SURBID m) d)\<lparr>in_reply := Some (a, ciphertext)\<rparr>))))"

section \<open>Single messages and decoys\<close>

text \<open>A failure to send is only reported; the time to wait for a reply grows with the layers.\<close>

definition reply_slop :: "Document option \<Rightarrow> int" where
  "reply_slop docp = (let hops = (case docp of None \<Rightarrow> 9
      | Some doc \<Rightarrow> if Topology doc = [] then 9 else 2 * int (length (Topology doc)) + 3) in hops * 500000000)"

definition send_single :: "inputs \<Rightarrow> bool \<Rightarrow> bytes \<Rightarrow> SendMessage \<Rightarrow> ('rc, 'wc, 'ix) daemon \<Rightarrow> ('rc, 'wc, 'ix) daemon" where
  "send_single q isLoopDecoy app sm d =
     (let (key, rtt, bad) = i_send q sm;
          d1 = (if sm_WithSURB sm
                then let d1 = d\<lparr>timerQueue := timerQueue d @ [(i_now q + rtt + reply_slop (i_doc q), sm_SURBID sm)]\<rparr>
                     in if isLoopDecoy then d1 else respond app (MessageSentEvent (sm_ID sm) (sm_SURBID sm) (i_now q) rtt bad) d1
                else d)
      in case sm_SURBID sm of None \<Rightarrow> d1
         | Some s \<Rightarrow> let desc = \<lparr>rd_ID = (if isLoopDecoy then None else sm_ID sm), rd_appID = app, rd_surbKey = key\<rparr> in
             if isLoopDecoy then d1\<lparr>decoys := (decoys d1)(snd s \<mapsto> desc)\<rparr> else d1\<lparr>replies := (replies d1)(snd s \<mapsto> desc)\<rparr>)"

definition sendLoopDecoy ::
  "('pub, 'priv, 'np, 'ns, 'v, 'rc, 'wc, 'ix) client_env \<Rightarrow> int \<Rightarrow> inputs \<Rightarrow> bytes \<Rightarrow> ('rc, 'wc, 'ix) daemon \<Rightarrow> ('rc, 'wc, 'ix) daemon" where
  "sendLoopDecoy E payloadLength q app d =
     (case i_doc q of None \<Rightarrow> d
      | Some doc \<Rightarrow> (case FindServices ''echo'' doc of Inl _ \<Rightarrow> d
          | Inr services \<Rightarrow> if services = [] then d
              else let (queue, provider) = services ! (i_choice q mod length services);
                       sm = \<lparr>sm_ID = None, sm_WithSURB = True, sm_SURBID = Some (next_addr d, i_surb q),
                             sm_DestinationIdHash = Some (Sum256 (rpki (crep E)) (raw_key (IdentityKey provider))),
                             sm_RecipientQueueID = queue, sm_Payload = replicate (nat payloadLength) 0\<rparr>
                   in send_single q True app sm (d\<lparr>next_addr := Suc (next_addr d)\<rparr>)))"

text \<open>The timer of single messages: the entry of the SURB ID is forgotten.\<close>

definition surb_collected :: "int \<Rightarrow> nat \<Rightarrow> ('rc, 'wc, 'ix) daemon \<Rightarrow> ('rc, 'wc, 'ix) daemon" where
  "surb_collected now j d =
     (if j < length (timerQueue d) \<and> fst (timerQueue d ! j) \<le> now
      then let d1 = d\<lparr>timerQueue := take j (timerQueue d) @ drop (Suc j) (timerQueue d)\<rparr> in
           (case snd (timerQueue d ! j) of None \<Rightarrow> d1
            | Some s \<Rightarrow> d1\<lparr>replies := (replies d1)(snd s := None), decoys := (decoys d1)(snd s := None)\<rparr>)
      else d)"

section \<open>Applications that leave\<close>

definition cleanupForAppID :: "bytes \<Rightarrow> ('rc, 'wc, 'ix) daemon \<Rightarrow> ('rc, 'wc, 'ix) daemon" where
  "cleanupForAppID app d =
     (let mine = (\<lambda>(s, a). case arqMessages d a of None \<Rightarrow> False | Some m \<Rightarrow> AppID m = app);
          ms = List.map_filter (\<lambda>(s, a). arqMessages d a) (filter mine (arqSurbIDMap d));
          not_mine = (\<lambda>m. \<lambda>s. case m s of None \<Rightarrow> None | Some desc \<Rightarrow> if rd_appID desc = app then None else Some desc);
          d1 = d\<lparr>arqSurbIDMap := filter (\<lambda>e. \<not> mine e) (arqSurbIDMap d),
                 arqEnvelopeHashMap := fold (\<lambda>m h. h(EnvelopeHash m := None)) ms (arqEnvelopeHashMap d),
                 replies := not_mine (replies d), decoys := not_mine (decoys d)\<rparr>
      in fold (\<lambda>m. cancel_timer (SURBID m)) ms d1)"

end
