(* ===== verification/ClientSteps.thy ===== *)
theory ClientSteps
  imports ClientDaemon
begin

text \<open>
  The client daemon as a whole: the dispatch of requests (client/daemon.go), its steps under any interleaving of
  its workers, and the states it reaches.
\<close>

section \<open>Dispatch\<close>

text \<open>A handler that panics is caught, one that does not return keeps its reader; both change nothing.\<close>

definition answer :: "bytes \<Rightarrow> (unit, ('rc, 'wc, 'ix) Response) go option \<Rightarrow> ('rc, 'wc, 'ix) daemon \<Rightarrow> ('rc, 'wc, 'ix) daemon" where
  "answer app r d = (case r of Some (Inr resp) \<Rightarrow> respond app resp d | _ \<Rightarrow> d)"

definition dispatchLocal ::
  "('pub, 'priv, 'np, 'ns, 'v, 'rc, 'wc, 'ix) client_env \<Rightarrow> inputs \<Rightarrow> ('rc, 'wc, 'ix) Request \<Rightarrow> ('rc, 'wc, 'ix) daemon
     \<Rightarrow> ('rc, 'wc, 'ix) daemon" where
  "dispatchLocal E q r d =
     (let app = rq_AppID r; now = i_epoch q in
      case rq_NewKeypair r of Some req \<Rightarrow> respond app (newKeypair E req) d | None \<Rightarrow>
     (case rq_EncryptRead r of Some req \<Rightarrow> answer app (Some (encryptRead E (i_doc q) now (i_draws q 0) req)) d | None \<Rightarrow>
     (case rq_EncryptWrite r of Some req \<Rightarrow> answer app (Some (encryptWrite E (i_doc q) now (i_draws q 0) req)) d | None \<Rightarrow>
     (case rq_CancelResendingEncryptedMessage r of Some req \<Rightarrow> cancelResendingEncryptedMessage app req d | None \<Rightarrow>
     (case rq_CancelResendingCopyCommand r of Some req \<Rightarrow> cancelResendingCopyCommand app req d | None \<Rightarrow>
     (case rq_NextMessageBoxIndex r of Some req \<Rightarrow> respond app (nextMessageBoxIndex E req) d | None \<Rightarrow>
     (case rq_GetMessageBoxIndexCounter r of Some req \<Rightarrow> respond app (getMessageBoxIndexCounter E req) d | None \<Rightarrow>
     (case rq_GetPKIDocument r of Some req \<Rightarrow> respond app (getPKIDocument (fst (i_signed q)) (snd (i_signed q)) req) d | None \<Rightarrow>
     (case rq_FromPayload r of
        Some req \<Rightarrow> answer app (createCourierEnvelopesFromPayload E (i_doc q) now (i_draws q) req) d | None \<Rightarrow>
     (case rq_FromPayloads r of
        Some req \<Rightarrow> answer app (createCourierEnvelopesFromPayloads E (i_doc q) now (i_draws q) req) d | None \<Rightarrow>
     (case rq_FromTombstoneRange r of
        Some req \<Rightarrow> answer app (createCourierEnvelopesFromTombstoneRange E (i_doc q) now (i_draws q) req) d | None \<Rightarrow> d)))))))))))"

definition dispatchMixnet ::
  "('pub, 'priv, 'np, 'ns, 'v, 'rc, 'wc, 'ix) client_env \<Rightarrow> int \<Rightarrow> inputs \<Rightarrow> ('rc, 'wc, 'ix) Request \<Rightarrow> ('rc, 'wc, 'ix) daemon
     \<Rightarrow> ('rc, 'wc, 'ix) daemon" where
  "dispatchMixnet E payloadLength q r d =
     (let app = rq_AppID r in
      case rq_ResendARQ r of Some ref \<Rightarrow> arqDoResend q ref d | None \<Rightarrow>
     (if rq_SendLoopDecoy r then sendLoopDecoy E payloadLength q app d else
     (case rq_SendMessage r of Some sm \<Rightarrow> send_single q False app sm d | None \<Rightarrow>
     (case rq_StartResendingEncryptedMessage r of Some req \<Rightarrow> startResendingEncryptedMessage E q app req d | None \<Rightarrow>
     (case rq_StartResendingCopyCommand r of Some req \<Rightarrow> startResendingCopyCommand E q app req d | None \<Rightarrow> d)))))"

section \<open>Steps\<close>

datatype ('rc, 'wc, 'ix) event =
    AppConnects bytes bool bytes                       \<comment> \<open>ID, connected or not, document\<close>
  | AppToken nat bytes
  | AppRequest nat "('rc, 'wc, 'ix) Request"
  | AppUnwritable nat                                  \<comment> \<open>its writer has failed, or its worker is about to leave\<close>
  | AppCloses nat bool
  | GracePeriodEnds bytes bytes
  | Slot bool                                          \<comment> \<open>whether decoys are disabled\<close>
  | Dispatch
  | Reschedule
  | TimerFires nat
  | ReplyArrives bytes bytes
  | ReplyHandled
  | Collects nat

text \<open>An application's request bears the ID of its connection; the one for a resend is the daemon's own.\<close>

definition FromThinRequest :: "bytes \<Rightarrow> ('rc, 'wc, 'ix) Request \<Rightarrow> ('rc, 'wc, 'ix) Request" where
  "FromThinRequest app r = r\<lparr>rq_AppID := app, rq_SendLoopDecoy := False, rq_ResendARQ := None\<rparr>"

definition slot_request :: "('rc, 'wc, 'ix) Request slot \<Rightarrow> ('rc, 'wc, 'ix) Request" where
  "slot_request s = (case s of SlotDecoy \<Rightarrow> newLoopDecoy
     | SlotPick (PickRequest r) \<Rightarrow> r
     | SlotPick (PickResend app ref) \<Rightarrow> (empty_request app)\<lparr>rq_ResendARQ := Some ref\<rparr>)"

definition cleanup_after :: "bytes option \<times> (('rc, 'wc, 'ix) Request, ('rc, 'wc, 'ix) Response) listener
     \<Rightarrow> ('rc, 'wc, 'ix) daemon \<Rightarrow> ('rc, 'wc, 'ix) daemon" where
  "cleanup_after r d = (case fst r of None \<Rightarrow> d\<lparr>lst := snd r\<rparr> | Some app \<Rightarrow> cleanupForAppID app (d\<lparr>lst := snd r\<rparr>))"

definition app_request ::
  "('pub, 'priv, 'np, 'ns, 'v, 'rc, 'wc, 'ix) client_env \<Rightarrow> inputs \<Rightarrow> nat \<Rightarrow> ('rc, 'wc, 'ix) Request \<Rightarrow> ('rc, 'wc, 'ix) daemon
     \<Rightarrow> ('rc, 'wc, 'ix) daemon" where
  "app_request E q i r d =
     (case conn_at (lst d) i of None \<Rightarrow> d
      | Some c \<Rightarrow> let r' = FromThinRequest (conn_appID c) r in
          if worker_ended c then d
          else if isLocalRequest r' then dispatchLocal E q r' d else d\<lparr>lst := queue_request i r' (lst d)\<rparr>)"

text \<open>The reply handler and the sender of packets are one worker each: while they are between two steps, they do nothing else.\<close>

definition daemon_step ::
  "('pub, 'priv, 'np, 'ns, 'v, 'rc, 'wc, 'ix) client_env \<Rightarrow> (bytes \<Rightarrow> bytes \<Rightarrow> bytes option) \<Rightarrow> int \<Rightarrow> inputs
     \<Rightarrow> ('rc, 'wc, 'ix) event \<Rightarrow> ('rc, 'wc, 'ix) daemon \<Rightarrow> ('rc, 'wc, 'ix) daemon" where
  "daemon_step E open_surb payloadLength q e d = (case e of
     AppConnects app connected doc \<Rightarrow> d\<lparr>lst := onNewConn app (ConnectionStatusEvent connected) (NewPKIDocumentEvent doc) (lst d)\<rparr>
   | AppToken i token \<Rightarrow> d\<lparr>lst := handleSessionToken SessionTokenReply i token (lst d)\<rparr>
   | AppRequest i r \<Rightarrow> app_request E q i r d
   | AppUnwritable i \<Rightarrow> d\<lparr>lst := closeDone i (lst d)\<rparr>
   | AppCloses i explicit \<Rightarrow> cleanup_after (onClosedConn i (upd_conn i (\<lambda>c. c\<lparr>explicitClose := explicit\<rparr>) (lst d))) d
   | GracePeriodEnds app token \<Rightarrow> cleanup_after (grace_period_ends app token (lst d)) d
   | Slot disableDecoys \<Rightarrow> (case pickAndSend disableDecoys (lst d) of
        (None, l) \<Rightarrow> d\<lparr>lst := l\<rparr>
      | (Some s, l) \<Rightarrow> d\<lparr>lst := l, egressCh := egressCh d @ [slot_request s]\<rparr>)
   | Dispatch \<Rightarrow> (case egressCh d of [] \<Rightarrow> d
      | r # rest \<Rightarrow> if in_resend d \<noteq> None then d else dispatchMixnet E payloadLength q r (d\<lparr>egressCh := rest\<rparr>))
   | Reschedule \<Rightarrow> rescheduleARQAfterComposeFailure q d
   | TimerFires j \<Rightarrow> timer_fires (i_now q) j d
   | ReplyArrives surbID ciphertext \<Rightarrow> if in_reply d \<noteq> None then d else handleReply open_surb surbID ciphertext d
   | ReplyHandled \<Rightarrow> (case in_reply d of None \<Rightarrow> d
      | Some (a, ciphertext) \<Rightarrow> (handlePigeonholeARQReply E open_surb q a ciphertext d)\<lparr>in_reply := None\<rparr>)
   | Collects j \<Rightarrow> surb_collected (i_now q) j d)"

definition new_daemon :: "('rc, 'wc, 'ix) daemon" where
  "new_daemon = \<lparr>lst = new_listener, arqMessages = Map.empty, next_addr = 0, arqSurbIDMap = [],
     arqEnvelopeHashMap = Map.empty, arqTimerQueue = [], replies = Map.empty, decoys = Map.empty, timerQueue = [],
     egressCh = [], in_reply = None, in_resend = None, packets = []\<rparr>"

text \<open>The states reached by steps that keep to a guard.\<close>

inductive daemon_reach ::
  "(inputs \<Rightarrow> ('rc, 'wc, 'ix) event \<Rightarrow> ('rc, 'wc, 'ix) daemon \<Rightarrow> bool)
     \<Rightarrow> ('pub, 'priv, 'np, 'ns, 'v, 'rc, 'wc, 'ix) client_env \<Rightarrow> (bytes \<Rightarrow> bytes \<Rightarrow> bytes option) \<Rightarrow> int
     \<Rightarrow> ('rc, 'wc, 'ix) daemon \<Rightarrow> bool" for guard E open_surb payloadLength where
  start: "daemon_reach guard E open_surb payloadLength new_daemon"
| step: "\<lbrakk> daemon_reach guard E open_surb payloadLength d; guard q e d \<rbrakk>
     \<Longrightarrow> daemon_reach guard E open_surb payloadLength (daemon_step E open_surb payloadLength q e d)"

end
