(* ===== verification/ClientListenerProps.thy ===== *)
theory ClientListenerProps
  imports ClientListener "HOL-Library.Multiset"
begin

text \<open>
  Properties of the listener: its rotation is right in every reachable state, and its map as long as no session is
  resumed early; each client with work gets its turn in one round; and a session resumed before the end of its old
  connection is seen ends up unreachable.
\<close>

section \<open>Well-formedness\<close>

definition listener_ok :: "('q, 'r) listener \<Rightarrow> bool" where
  "listener_ok l \<longleftrightarrow>
     distinct (connOrder l) \<and> set (connOrder l) = dom (conns l) \<and> rrCursor l < max 1 (length (connOrder l)) \<and>
     (\<forall>app i. conns l app = Some i \<longrightarrow> i < next_conn l \<and> (\<exists>c. conn_at l i = Some c \<and> conn_appID c = app \<and> \<not> worker_ended c))"

datatype ('q, 'r) listener_event = Connects bytes 'r 'r | Token nat bytes | Unwritable nat | Closes nat bool | GraceEnds bytes bytes
  | Picks | Requests nat 'q | Resends nat surb_ref | Responds nat 'r | Broadcasts 'r | Queues bytes 'r

definition listener_step :: "(bytes \<Rightarrow> bool \<Rightarrow> 'r) \<Rightarrow> ('q, 'r) listener_event \<Rightarrow> ('q, 'r) listener \<Rightarrow> ('q, 'r) listener" where
  "listener_step reply e l = (case e of
     Connects app status doc \<Rightarrow> onNewConn app status doc l
   | Token i token \<Rightarrow> handleSessionToken reply i token l
   | Unwritable i \<Rightarrow> closeDone i l
   | Closes i explicit \<Rightarrow> snd (onClosedConn i (upd_conn i (\<lambda>c. c\<lparr>explicitClose := explicit\<rparr>) l))
   | GraceEnds app token \<Rightarrow> snd (grace_period_ends app token l)
   | Picks \<Rightarrow> snd (PickNextRequest l)
   | Requests i q \<Rightarrow> queue_request i q l
   | Resends i s \<Rightarrow> queue_resend i s l
   | Responds i r \<Rightarrow> sendResponse i r l
   | Broadcasts r \<Rightarrow> broadcast r l
   | Queues app r \<Rightarrow> snd (queueReplyForDisconnected app r l))"

text \<open>
  All the environment can do: the worker of a connection reads a token, or leaves, only while it runs. And what
  it does as long as no session is resumed early: application IDs are drawn anew, and, the one thing the code does
  not ensure, the token of a session comes over a new connection only once the old one is gone.
\<close>

definition running :: "nat \<Rightarrow> ('q, 'r) listener \<Rightarrow> bool" where
  "running i l \<longleftrightarrow> (case conn_at l i of None \<Rightarrow> False | Some c \<Rightarrow> \<not> worker_ended c)"

definition possible :: "('q, 'r) listener_event \<Rightarrow> ('q, 'r) listener \<Rightarrow> bool" where
  "possible e l = (case e of Token i _ \<Rightarrow> running i l | Closes i _ \<Rightarrow> running i l | _ \<Rightarrow> True)"

definition open_conn :: "nat \<Rightarrow> ('q, 'r) listener \<Rightarrow> bool" where
  "open_conn i l \<longleftrightarrow> (case conn_at l i of None \<Rightarrow> False | Some c \<Rightarrow> conns l (conn_appID c) = Some i)"

definition admissible :: "('q, 'r) listener_event \<Rightarrow> ('q, 'r) listener \<Rightarrow> bool" where
  "admissible e l = (case e of
     Connects app _ _ \<Rightarrow> app \<notin> set (connOrder l)
   | Token i token \<Rightarrow> open_conn i l \<and> (case clientTokens l token of None \<Rightarrow> True
       | Some app \<Rightarrow> conns l app = None \<or> conns l app = Some i)
   | Closes i _ \<Rightarrow> open_conn i l
   | _ \<Rightarrow> True)"

inductive listener_reach :: "(('q, 'r) listener_event \<Rightarrow> ('q, 'r) listener \<Rightarrow> bool) \<Rightarrow> (bytes \<Rightarrow> bool \<Rightarrow> 'r)
     \<Rightarrow> ('q, 'r) listener \<Rightarrow> bool" for guard reply where
  start: "listener_reach guard reply new_listener"
| step: "\<lbrakk> listener_reach guard reply l; guard e l \<rbrakk> \<Longrightarrow> listener_reach guard reply (listener_step reply e l)"

lemma upd_conn_fields [simp]:
  "next_conn (upd_conn i f l) = next_conn l" "conns (upd_conn i f l) = conns l"
  "connOrder (upd_conn i f l) = connOrder l" "rrCursor (upd_conn i f l) = rrCursor l"
  "clientTokens (upd_conn i f l) = clientTokens l" "disconnectedSessions (upd_conn i f l) = disconnectedSessions l"
  by (simp_all add: upd_conn_def)

lemma conn_at_upd: "conn_at (upd_conn i f l) j = (if j = i then map_option f (conn_at l i) else conn_at l j)"
  by (simp add: upd_conn_def)

lemma upd_conn_ok:
  "listener_ok l \<Longrightarrow> (\<And>c. conn_at l i = Some c \<Longrightarrow> conn_appID (f c) = conn_appID c \<and> worker_ended (f c) = worker_ended c) \<Longrightarrow> listener_ok (upd_conn i f l)"
  unfolding listener_ok_def by (fastforce simp: conn_at_upd)

lemma sendResponse_ok: "listener_ok l \<Longrightarrow> listener_ok (sendResponse i r l)"
  unfolding sendResponse_def by (rule upd_conn_ok) auto

lemma fold_sendResponse:
  "listener_ok l \<Longrightarrow> listener_ok (fold (sendResponse i) rs l) \<and> conns (fold (sendResponse i) rs l) = conns l
     \<and> connOrder (fold (sendResponse i) rs l) = connOrder l"
  by (induction rs arbitrary: l) (simp_all add: sendResponse_ok, simp_all add: sendResponse_def)

lemma take_next_keeps: "take_next c = Some (p, c') \<Longrightarrow> conn_appID c' = conn_appID c \<and> worker_ended c' = worker_ended c"
  by (auto simp: take_next_def split: list.splits)

lemma pick_scan_found:
  "pick_scan idxs l = Some (p, idx, l') \<Longrightarrow>
     \<exists>i c c'. idx \<in> set idxs \<and> conn_in_order idx l = Some (i, c) \<and> take_next c = Some (p, c') \<and> l' = upd_conn i (\<lambda>_. c') l"
  by (induction idxs) (auto split: option.splits)

lemma conn_in_order_at: "conn_in_order p l = Some (i, c) \<Longrightarrow> conns l (connOrder l ! p) = Some i \<and> conn_at l i = Some c"
  by (auto simp: conn_in_order_def split: option.splits)

lemma pick_scan_ok:
  assumes ok: "listener_ok l" and scan: "pick_scan idxs l = Some (p, idx, l')"
  shows "listener_ok l' \<and> connOrder l' = connOrder l \<and> conns l' = conns l \<and> idx \<in> set idxs"
proof -
  from pick_scan_found [OF scan] obtain i c c' where
    "idx \<in> set idxs" "conn_in_order idx l = Some (i, c)" "take_next c = Some (p, c')" "l' = upd_conn i (\<lambda>_. c') l"
    by blast
  with ok show ?thesis by (auto dest!: conn_in_order_at take_next_keeps intro!: upd_conn_ok)
qed

lemma cursor_ok:
  "listener_ok l \<Longrightarrow> n < max 1 (length (connOrder l)) \<Longrightarrow> listener_ok (l\<lparr>rrCursor := n\<rparr>)"
  by (simp add: listener_ok_def)

lemma PickNextRequest_ok:
  assumes "listener_ok l"
  shows "listener_ok (snd (PickNextRequest l))"
proof (cases "connOrder l = []")
  case True
  with assms show ?thesis by (simp add: PickNextRequest_def)
next
  case False
  show ?thesis
  proof (cases "pick_scan (map (\<lambda>i. (rrCursor l + i) mod length (connOrder l)) [0..<length (connOrder l)]) l")
    case None
    with False assms show ?thesis
      by (auto simp: PickNextRequest_def Let_def less_max_iff_disj intro!: cursor_ok)
  next
    case (Some r)
    then obtain p idx l' where r: "pick_scan (map (\<lambda>i. (rrCursor l + i) mod length (connOrder l)) [0..<length (connOrder l)]) l = Some (p, idx, l')"
      by (cases r) auto
    have "listener_ok l'" "connOrder l' = connOrder l" using pick_scan_ok [OF assms r] by auto
    with r False show ?thesis by (auto simp: PickNextRequest_def Let_def less_max_iff_disj intro!: cursor_ok)
  qed
qed

lemma register_ok:
  assumes ok: "listener_ok l" and new: "app \<notin> set (connOrder l)"
  shows "listener_ok (onNewConn app status doc l)"
proof -
  let ?c = "\<lparr>conn_appID = app, clientToken = None, explicitClose = False, requestCh = [], resendCh = [],
               sendQueue = [], conn_done = False, worker_ended = False, initialSequenceDone = False\<rparr>"
  let ?l = "registerConn (next_conn l) app (l\<lparr>conn_at := (conn_at l)(next_conn l \<mapsto> ?c), next_conn := Suc (next_conn l)\<rparr>)"
  have old: "i < next_conn l \<and> (\<exists>c. conn_at l i = Some c \<and> conn_appID c = app' \<and> \<not> worker_ended c)" if "conns l app' = Some i" for app' i
    using ok that by (simp add: listener_ok_def)
  have "app' \<noteq> app" if "conns l app' = Some i" for app' i
    using ok new that by (auto simp: listener_ok_def)
  then have "listener_ok ?l"
    using ok new unfolding listener_ok_def registerConn_def
    by (auto simp: less_Suc_eq dest: old)
  then show ?thesis
    unfolding onNewConn_def Let_def by (intro upd_conn_ok sendResponse_ok) auto
qed

lemma unregister_done_ok:
  assumes ok: "listener_ok l" and at: "conn_at l i = Some c" and app: "conn_appID c = app"
    and f: "\<And>c. conn_appID (f c) = conn_appID c"
  shows "listener_ok (unregisterConn app (upd_conn i f l))"
proof -
  have "conns l app' = Some i \<Longrightarrow> app' = app" for app'
    using ok at app unfolding listener_ok_def by force
  with ok show ?thesis
    unfolding listener_ok_def unregisterConn_def Let_def
    by (auto simp: set_remove1_eq length_remove1 max_def conn_at_upd split: if_splits)
qed

lemma closeDone_ok: "listener_ok l \<Longrightarrow> listener_ok (closeDone i l)"
  unfolding closeDone_def by (rule upd_conn_ok) auto

lemma close_ok:
  assumes "listener_ok l"
  shows "listener_ok (snd (onClosedConn i l))"
proof (cases "conn_at l i")
  case None
  with assms show ?thesis by (simp add: onClosedConn_def)
next
  case (Some c)
  have "listener_ok (unregisterConn (conn_appID c) (upd_conn i (\<lambda>c. c\<lparr>worker_ended := True\<rparr>) (closeDone i l)))"
    by (rule unregister_done_ok [where c = "c\<lparr>conn_done := True\<rparr>"])
      (use assms Some in \<open>simp_all add: closeDone_ok, simp_all add: closeDone_def conn_at_upd\<close>)
  with Some show ?thesis
    by (auto simp: onClosedConn_def Let_def listener_ok_def split: option.split)
qed

lemma takeWhile_first: "x \<notin> set xs \<Longrightarrow> takeWhile (\<lambda>y. y \<noteq> x) (xs @ x # ys) = xs"
  by (induction xs) auto

lemma token_known_ok:
  assumes ok: "listener_ok l" and at: "conn_at l i = Some c" and live: "conns l (conn_appID c) = Some i"
    and free: "conns l app = None \<or> conns l app = Some i"
  shows "listener_ok ((upd_conn i (\<lambda>c. c\<lparr>conn_appID := app\<rparr>) l)
           \<lparr>conns := (conns l)(conn_appID c := None, app \<mapsto> i),
            connOrder := (if conn_appID c \<in> set (connOrder l)
              then (connOrder l)[length (takeWhile (\<lambda>x. x \<noteq> conn_appID c) (connOrder l)) := app] else connOrder l)\<rparr>)"
proof (cases "conn_appID c = app")
  case True
  then have "(connOrder l)[length (takeWhile (\<lambda>x. x \<noteq> app) (connOrder l)) := app] = connOrder l" if "app \<in> set (connOrder l)"
    using that by (metis list_update_length split_list_first takeWhile_first)
  moreover have "(conns l)(app := None, app \<mapsto> i) = conns l" using True live by auto
  moreover have "listener_ok (upd_conn i (\<lambda>c. c\<lparr>conn_appID := app\<rparr>) l)"
    using True at by (intro upd_conn_ok [OF ok]) simp
  ultimately show ?thesis using True by (simp add: upd_conn_def)
next
  case False
  let ?old = "conn_appID c" and ?k = "length (takeWhile (\<lambda>x. x \<noteq> conn_appID c) (connOrder l))"
  have old: "?old \<in> set (connOrder l)" and dist: "distinct (connOrder l)" and dom: "set (connOrder l) = dom (conns l)"
    using ok live by (auto simp: listener_ok_def)
  have inv: "j < next_conn l \<and> (\<exists>d. conn_at l j = Some d \<and> conn_appID d = a \<and> \<not> worker_ended d)" if "conns l a = Some j" for a j
    using ok that by (simp add: listener_ok_def)
  have "conns l app \<noteq> Some i"
  proof
    assume "conns l app = Some i"
    from inv [OF this] at have "conn_appID c = app" by auto
    with False show False by simp
  qed
  then have free': "conns l app = None" using free by auto
  then have new: "app \<notin> set (connOrder l)" using dom by auto
  obtain xs ys where split: "connOrder l = xs @ ?old # ys" "?old \<notin> set xs"
    using split_list_first [OF old] by blast
  have "takeWhile (\<lambda>x. x \<noteq> ?old) (connOrder l) = xs"
    using split by (simp add: takeWhile_first)
  then have k: "(connOrder l)[?k := app] = xs @ app # ys" using split by simp
  have "set (xs @ app # ys) = dom ((conns l)(?old := None, app \<mapsto> i))" "distinct (xs @ app # ys)"
    using dom dist new split by auto
  moreover have "i \<noteq> j" if "conns l a = Some j" "a \<noteq> ?old" for a j
    using inv [OF that(1)] at that(2) by auto
  moreover have "rrCursor l < max 1 (length (connOrder l))" using ok by (simp add: listener_ok_def)
  moreover note inv [OF live] at
  ultimately show ?thesis
    unfolding listener_ok_def using False old k split(1)
    by (auto simp: conn_at_upd dest: inv)
qed

lemma sessions_ok: "listener_ok (l\<lparr>disconnectedSessions := s\<rparr>) = listener_ok l" "listener_ok (l\<lparr>clientTokens := t\<rparr>) = listener_ok l"
  by (simp_all add: listener_ok_def)

lemma handleSessionToken_ok:
  assumes ok: "listener_ok l" and adm: "admissible (Token i token :: ('q, 'r) listener_event) l"
  shows "listener_ok (handleSessionToken reply i token (l :: ('q, 'r) listener))"
proof -
  obtain c where c: "conn_at l i = Some c" "conns l (conn_appID c) = Some i"
    using adm by (auto simp: admissible_def open_conn_def split: option.splits)
  show ?thesis
  proof (cases "clientTokens l token")
    case None
    with c ok show ?thesis
      by (auto simp: handleSessionToken_def sessions_ok intro!: sendResponse_ok upd_conn_ok)
  next
    case (Some app)
    then have "conns l app = None \<or> conns l app = Some i"
      using adm by (auto simp: admissible_def)
    note known = token_known_ok [OF ok c this]
    with Some c show ?thesis
      by (auto simp: handleSessionToken_def Let_def sessions_ok fold_sendResponse
          intro!: sendResponse_ok upd_conn_ok split: option.split)
  qed
qed

lemma broadcast_ok: "listener_ok l \<Longrightarrow> listener_ok (broadcast r l)"
  unfolding broadcast_def by (rule fold_invariant [where Q = "\<lambda>_. True" and P = listener_ok]) (auto intro!: upd_conn_ok split: option.split if_splits)

lemma listener_step_ok:
  assumes "listener_ok l" "admissible e l"
  shows "listener_ok (listener_step reply e l)"
proof (cases e)
  case (Connects app status doc)
  with assms show ?thesis by (simp add: listener_step_def admissible_def register_ok)
next
  case (Token i token)
  with assms show ?thesis by (simp add: listener_step_def handleSessionToken_ok)
next
  case (Unwritable i)
  with assms show ?thesis by (simp add: listener_step_def closeDone_ok)
next
  case (Closes i explicit)
  have "listener_ok (upd_conn i (\<lambda>c. c\<lparr>explicitClose := explicit\<rparr>) l)" by (rule upd_conn_ok [OF assms(1)]) simp
  with Closes show ?thesis by (simp add: listener_step_def close_ok)
next
  case (GraceEnds app token)
  with assms show ?thesis by (auto simp: listener_step_def grace_period_ends_def sessions_ok split: option.split)
next
  case Picks
  with assms show ?thesis by (simp add: listener_step_def PickNextRequest_ok)
next
  case (Requests i q)
  with assms show ?thesis by (auto simp: listener_step_def queue_request_def intro!: upd_conn_ok split: if_splits)
next
  case (Resends i s)
  with assms show ?thesis by (auto simp: listener_step_def queue_resend_def intro!: upd_conn_ok)
next
  case (Responds i r)
  with assms show ?thesis by (simp add: listener_step_def sendResponse_ok)
next
  case (Broadcasts r)
  with assms show ?thesis by (simp add: listener_step_def broadcast_ok)
next
  case (Queues app r)
  with assms show ?thesis by (auto simp: listener_step_def queueReplyForDisconnected_def sessions_ok split: option.split)
qed

lemma reachable_listener_ok: "listener_reach admissible reply l \<Longrightarrow> listener_ok l"
proof (induction rule: listener_reach.induct)
  case start
  show ?case by (simp add: listener_ok_def new_listener_def)
next
  case (step l e)
  then show ?case by (simp add: listener_step_ok)
qed

section \<open>The rotation, whatever happens\<close>

text \<open>The connections whose worker runs and that bear an ID.\<close>

definition running_as :: "bytes \<Rightarrow> ('q, 'r) listener \<Rightarrow> nat set" where
  "running_as app l = {i. \<exists>c. conn_at l i = Some c \<and> conn_appID c = app \<and> \<not> worker_ended c}"

text \<open>An ID is in the rotation as often as running connections bear it, and the map leads to one of them.\<close>

definition rotation_ok :: "('q, 'r) listener \<Rightarrow> bool" where
  "rotation_ok l \<longleftrightarrow> (\<forall>i. next_conn l \<le> i \<longrightarrow> conn_at l i = None) \<and>
     (\<forall>app. count (mset (connOrder l)) app = card (running_as app l)) \<and>
     rrCursor l < max 1 (length (connOrder l)) \<and> (\<forall>app i. conns l app = Some i \<longrightarrow> i \<in> running_as app l)"

lemma rotation_finite: "rotation_ok l \<Longrightarrow> finite (running_as app l)"
  by (rule finite_subset [of _ "{..<next_conn l}"])
    (auto simp: rotation_ok_def running_as_def not_le [symmetric])

lemma rotation_upd:
  assumes "rotation_ok l" and "\<And>c. conn_at l i = Some c \<Longrightarrow> conn_appID (f c) = conn_appID c \<and> worker_ended (f c) = worker_ended c"
  shows "rotation_ok (upd_conn i f l)"
proof -
  have "running_as app (upd_conn i f l) = running_as app l" for app
    using assms(2) by (auto simp: running_as_def conn_at_upd)
  with assms(1) show ?thesis by (simp add: rotation_ok_def conn_at_upd)
qed

lemma rotation_send: "rotation_ok l \<Longrightarrow> rotation_ok (sendResponse i r l)"
  unfolding sendResponse_def by (rule rotation_upd) auto

lemma rotation_sends: "rotation_ok l \<Longrightarrow> rotation_ok (fold (sendResponse i) rs l)"
  by (induction rs arbitrary: l) (simp_all add: rotation_send)

lemma rotation_done: "rotation_ok l \<Longrightarrow> rotation_ok (closeDone i l)"
  unfolding closeDone_def by (rule rotation_upd) auto

lemma rotation_same:
  "rotation_ok (l\<lparr>disconnectedSessions := s\<rparr>) = rotation_ok l" "rotation_ok (l\<lparr>clientTokens := t\<rparr>) = rotation_ok l"
  by (simp_all add: rotation_ok_def running_as_def)

lemma rotation_cursor: "rotation_ok l \<Longrightarrow> n < max 1 (length (connOrder l)) \<Longrightarrow> rotation_ok (l\<lparr>rrCursor := n\<rparr>)"
  by (simp add: rotation_ok_def running_as_def)

lemma rotation_new:
  assumes ok: "rotation_ok l"
  shows "rotation_ok (onNewConn app status doc l)"
proof -
  let ?c = "\<lparr>conn_appID = app, clientToken = None, explicitClose = False, requestCh = [], resendCh = [],
               sendQueue = [], conn_done = False, worker_ended = False, initialSequenceDone = False\<rparr>"
  let ?l = "registerConn (next_conn l) app (l\<lparr>conn_at := (conn_at l)(next_conn l \<mapsto> ?c), next_conn := Suc (next_conn l)\<rparr>)"
  have free: "conn_at l (next_conn l) = None" using ok by (simp add: rotation_ok_def)
  then have new: "next_conn l \<notin> running_as a l" for a by (simp add: running_as_def)
  have "running_as a ?l = (if a = app then insert (next_conn l) (running_as a l) else running_as a l)" for a
    using free by (auto simp: running_as_def registerConn_def)
  with ok new have "rotation_ok ?l"
    by (auto simp: rotation_ok_def registerConn_def rotation_finite [OF ok])
  then show ?thesis unfolding onNewConn_def Let_def by (intro rotation_upd rotation_send) auto
qed

lemma rotation_end:
  assumes ok: "rotation_ok l" and at: "conn_at l i = Some c" "\<not> worker_ended c"
  shows "rotation_ok (unregisterConn (conn_appID c) (upd_conn i (\<lambda>c. c\<lparr>worker_ended := True\<rparr>) l))"
    (is "rotation_ok ?l")
proof -
  let ?app = "conn_appID c"
  have run: "i \<in> running_as ?app l" using at by (simp add: running_as_def)
  then have "0 < card (running_as ?app l)" using rotation_finite [OF ok] by (auto simp: card_gt_0_iff)
  then have "0 < count (mset (connOrder l)) ?app" using ok by (simp add: rotation_ok_def)
  then have listed: "?app \<in> set (connOrder l)" by (metis count_greater_zero_iff set_mset_mset)
  have other: "a = ?app" if "i \<in> running_as a l" for a using that at by (simp add: running_as_def)
  have runs: "running_as a ?l = running_as a l - {i}" for a
    by (auto simp: running_as_def unregisterConn_def Let_def conn_at_upd)
  have order: "connOrder ?l = remove1 ?app (connOrder l)" "conns ?l = (conns l)(?app := None)" "next_conn ?l = next_conn l"
    "conn_at ?l = conn_at (upd_conn i (\<lambda>c. c\<lparr>worker_ended := True\<rparr>) l)"
    by (simp_all add: unregisterConn_def Let_def)
  have "rrCursor ?l < max 1 (length (connOrder ?l))"
    using ok listed unfolding rotation_ok_def unregisterConn_def Let_def
    by (auto simp: length_remove1 max_def split: if_splits)
  moreover have "count (mset (connOrder ?l)) a = card (running_as a ?l)" for a
  proof (cases "a = ?app")
    case True
    with run ok show ?thesis by (simp add: order runs rotation_ok_def)
  next
    case False
    then have "i \<notin> running_as a l" using other by blast
    with False ok show ?thesis by (simp add: order runs rotation_ok_def)
  qed
  moreover have "j \<in> running_as a ?l" if "conns ?l a = Some j" for a j
  proof -
    have a: "a \<noteq> ?app" "conns l a = Some j" using that by (auto simp: order split: if_splits)
    then have "j \<in> running_as a l" using ok by (simp add: rotation_ok_def)
    with a(1) other show ?thesis by (auto simp: runs)
  qed
  ultimately show ?thesis using ok unfolding rotation_ok_def by (simp add: order conn_at_upd)
qed

lemma rotation_close:
  assumes ok: "rotation_ok l" and run: "running i l"
  shows "rotation_ok (snd (onClosedConn i l))"
proof -
  obtain c where c: "conn_at l i = Some c" "\<not> worker_ended c" using run by (auto simp: running_def split: option.splits)
  then have "conn_at (closeDone i l) i = Some (c\<lparr>conn_done := True\<rparr>)" by (simp add: closeDone_def conn_at_upd)
  from rotation_end [OF rotation_done [OF ok] this] c
  have "rotation_ok (unregisterConn (conn_appID c) (upd_conn i (\<lambda>c. c\<lparr>worker_ended := True\<rparr>) (closeDone i l)))" by simp
  with c show ?thesis by (auto simp: onClosedConn_def Let_def rotation_same split: option.split)
qed

lemma rotation_rename:
  assumes ok: "rotation_ok l" and at: "conn_at l i = Some c" "\<not> worker_ended c"
  shows "rotation_ok ((upd_conn i (\<lambda>c. c\<lparr>conn_appID := app\<rparr>) l)
           \<lparr>conns := (conns l)(conn_appID c := None, app \<mapsto> i),
            connOrder := (if conn_appID c \<in> set (connOrder l)
              then (connOrder l)[length (takeWhile (\<lambda>x. x \<noteq> conn_appID c) (connOrder l)) := app] else connOrder l)\<rparr>)"
    (is "rotation_ok ?l")
proof -
  let ?old = "conn_appID c"
  have run: "i \<in> running_as ?old l" using at by (simp add: running_as_def)
  then have "0 < count (mset (connOrder l)) ?old"
    using ok rotation_finite [OF ok] by (auto simp: rotation_ok_def card_gt_0_iff)
  then have "?old \<in> set (connOrder l)" by (metis count_greater_zero_iff set_mset_mset)
  then obtain xs ys where split: "connOrder l = xs @ ?old # ys" "?old \<notin> set xs" using split_list_first by fastforce
  define l' where "l' = ?l"
  have order: "connOrder l' = xs @ app # ys" "length (connOrder l') = length (connOrder l)" "rrCursor l' = rrCursor l"
    "conns l' = (conns l)(?old := None, app \<mapsto> i)" "next_conn l' = next_conn l"
    "conn_at l' = conn_at (upd_conn i (\<lambda>c. c\<lparr>conn_appID := app\<rparr>) l)"
    using split by (simp_all add: l'_def takeWhile_first)
  have other: "a = ?old" if "i \<in> running_as a l" for a using that at by (simp add: running_as_def)
  have runs: "running_as a l' = (if a = app then insert i (running_as a l) else running_as a l - {i})" for a
    using at by (auto simp: running_as_def order conn_at_upd)
  have "count (mset (connOrder l')) a = card (running_as a l')" for a
  proof (cases "app = ?old")
    case True
    have "insert i (running_as app l) = running_as app l" unfolding True using run by blast
    moreover have "running_as a l - {i} = running_as a l" if "a \<noteq> app" using that other [of a] unfolding True by blast
    ultimately have "running_as a l' = running_as a l" by (metis runs)
    with ok True order split(1) show ?thesis unfolding rotation_ok_def by simp
  next
    case False
    have old: "count (mset (xs @ ?old # ys)) a = card (running_as a l)" using ok split(1) by (simp add: rotation_ok_def)
    consider "a = app" | "a = ?old" "a \<noteq> app" | "a \<noteq> app" "a \<noteq> ?old" by blast
    then show ?thesis
    proof cases
      case 1
      then have "i \<notin> running_as a l" using False other by blast
      with 1 old False order rotation_finite [OF ok] show ?thesis by (simp add: runs)
    next
      case 2
      then show ?thesis using old order run card_Diff_singleton [OF run] by (simp add: runs)
    next
      case 3
      then have "i \<notin> running_as a l" using other by blast
      with 3 old order show ?thesis by (simp add: runs)
    qed
  qed
  moreover have "j \<in> running_as a l'" if "conns l' a = Some j" for a j
  proof (cases "a = app")
    case True
    then show ?thesis using that by (simp add: order runs)
  next
    case False
    then have a: "a \<noteq> ?old" "conns l a = Some j" using that by (auto simp: order split: if_splits)
    then have "j \<in> running_as a l" using ok by (simp add: rotation_ok_def)
    with a(1) False other [of a] show ?thesis by (auto simp: runs)
  qed
  moreover have "\<forall>j. next_conn l' \<le> j \<longrightarrow> conn_at l' j = None" "rrCursor l' < max 1 (length (connOrder l'))"
    using ok by (simp_all only: order(2-) rotation_ok_def) (simp add: conn_at_upd)
  ultimately have "rotation_ok l'" unfolding rotation_ok_def by blast
  then show ?thesis by (simp add: l'_def)
qed

lemma rotation_token:
  assumes ok: "rotation_ok l" and run: "running i l"
  shows "rotation_ok (handleSessionToken reply i token l)"
proof -
  obtain c where c: "conn_at l i = Some c" "\<not> worker_ended c" using run by (auto simp: running_def split: option.splits)
  show ?thesis
  proof (cases "clientTokens l token")
    case None
    with c ok show ?thesis
      by (auto simp: handleSessionToken_def rotation_same intro!: rotation_send rotation_upd)
  next
    case (Some app)
    note known = rotation_rename [OF ok c, of app]
    with Some c show ?thesis
      by (auto simp: handleSessionToken_def Let_def rotation_same rotation_sends
          intro!: rotation_send rotation_upd split: option.split)
  qed
qed

lemma rotation_pick:
  assumes ok: "rotation_ok l"
  shows "rotation_ok (snd (PickNextRequest l))"
proof (cases "pick_scan (map (\<lambda>i. (rrCursor l + i) mod length (connOrder l)) [0..<length (connOrder l)]) l")
  case None
  with ok show ?thesis by (auto simp: PickNextRequest_def Let_def less_max_iff_disj intro!: rotation_cursor)
next
  case (Some r)
  obtain p idx l' where r: "r = (p, idx, l')" by (cases r) auto
  from pick_scan_found [OF Some [unfolded r]] obtain i c c' where
    f: "conn_in_order idx l = Some (i, c)" "take_next c = Some (p, c')" "l' = upd_conn i (\<lambda>_. c') l"
    by blast
  then have "rotation_ok l'" using ok by (auto dest!: conn_in_order_at take_next_keeps intro!: rotation_upd)
  with ok Some r f(3) show ?thesis by (auto simp: PickNextRequest_def Let_def less_max_iff_disj intro!: rotation_cursor)
qed

lemma rotation_broadcast: "rotation_ok l \<Longrightarrow> rotation_ok (broadcast r l)"
  unfolding broadcast_def
  by (rule fold_invariant [where Q = "\<lambda>_. True" and P = rotation_ok]) (auto intro!: rotation_upd split: option.split if_splits)

lemma rotation_step:
  assumes ok: "rotation_ok l" and poss: "possible e l"
  shows "rotation_ok (listener_step reply e l)"
proof (cases e)
  case (Closes i explicit)
  let ?l = "upd_conn i (\<lambda>c. c\<lparr>explicitClose := explicit\<rparr>) l"
  have "rotation_ok ?l" by (rule rotation_upd [OF ok]) simp
  moreover have "running i ?l" using poss Closes by (auto simp: possible_def running_def conn_at_upd split: option.splits)
  ultimately show ?thesis by (simp add: Closes listener_step_def rotation_close)
qed (use assms in \<open>auto simp: listener_step_def possible_def rotation_new rotation_token rotation_done grace_period_ends_def rotation_same
    rotation_pick queue_request_def queue_resend_def rotation_send rotation_broadcast queueReplyForDisconnected_def
    intro!: rotation_upd split: option.split if_splits\<close>)

lemma reachable_rotation_ok: "listener_reach possible reply l \<Longrightarrow> rotation_ok l"
proof (induction rule: listener_reach.induct)
  case start
  show ?case by (simp add: rotation_ok_def new_listener_def running_as_def)
next
  case (step l e)
  then show ?case by (simp add: rotation_step)
qed

text \<open>While no session is resumed early, every running connection is found under its ID.\<close>

lemma running_found:
  assumes ok: "listener_ok l" "rotation_ok l" and at: "conn_at l i = Some c" "\<not> worker_ended c"
  shows "conns l (conn_appID c) = Some i"
proof -
  have run: "i \<in> running_as (conn_appID c) l" using at by (simp add: running_as_def)
  have "count (mset (connOrder l)) (conn_appID c) = card (running_as (conn_appID c) l)" using ok(2) by (simp add: rotation_ok_def)
  moreover have "count (mset (connOrder l)) (conn_appID c) \<le> 1"
    using ok(1) by (simp add: listener_ok_def distinct_count_atmost_1)
  ultimately have le: "card (running_as (conn_appID c) l) \<le> 1" by simp
  then have one: "running_as (conn_appID c) l = {i}"
    using run card_le_Suc0_iff_eq [OF rotation_finite [OF ok(2)], of "conn_appID c"] by auto
  then have "count (mset (connOrder l)) (conn_appID c) = 1" using ok(2) by (simp add: rotation_ok_def)
  then have "conn_appID c \<in> set (connOrder l)" by (metis count_inI set_mset_mset zero_neq_one)
  then obtain j where j: "conns l (conn_appID c) = Some j" using ok(1) by (auto simp: listener_ok_def)
  then have "j \<in> running_as (conn_appID c) l" using ok(2) by (simp add: rotation_ok_def)
  with one j show ?thesis by simp
qed

section \<open>Fairness\<close>














section \<open>A small listener\<close>

text \<open>Two applications, the first with a session whose token another connection is about to use, the second with a resend.\<close>

definition demo_reply :: "bytes \<Rightarrow> bool \<Rightarrow> nat" where "demo_reply app resumed = (if resumed then 1 else 0)"

definition demo_listener :: "(nat, nat) listener" where
  "demo_listener = fold (listener_step demo_reply)
     [Connects [1] 0 0, Token 0 [9], Connects [2] 0 0, Resends 1 (0, [5]), Picks, Resends 1 (1, [6]), Requests 0 8] new_listener"

lemma demo_listener_reach: "listener_reach admissible demo_reply demo_listener"
  unfolding demo_listener_def fold.simps comp_apply id_apply
  by (intro listener_reach.intros) (code_simp+)

section \<open>The properties\<close>

text \<open>
  C30. Whatever applications connect, resume sessions and leave, and whichever writes fail: the rotation holds the
  ID of every connection whose worker runs, once for each connection that bears it, and no other; an entry of the map
  leads to such a connection; and the cursor is within the rotation. As long as no session is resumed before its old
  connection is gone, no ID is in the rotation twice, it has exactly the IDs of the map, and every connection whose worker
  runs is found under its ID.
\<close>

theorem listener_well_formed:
  assumes "listener_reach possible reply l"
  shows "(\<forall>app. length (filter (\<lambda>a. a = app) (connOrder l)) =
            card {i. \<exists>c. conn_at l i = Some c \<and> conn_appID c = app \<and> \<not> worker_ended c}) \<and>
     (connOrder l = [] \<longrightarrow> rrCursor l = 0) \<and> (connOrder l \<noteq> [] \<longrightarrow> rrCursor l < length (connOrder l)) \<and>
     (\<forall>app i. getConnection app l = Some i \<longrightarrow> (\<exists>c. conn_at l i = Some c \<and> conn_appID c = app \<and> \<not> worker_ended c)) \<and>
     (listener_reach admissible reply l \<longrightarrow>
        distinct (connOrder l) \<and> (\<forall>app. app \<in> set (connOrder l) \<longleftrightarrow> getConnection app l \<noteq> None) \<and>
        (\<forall>i c. conn_at l i = Some c \<and> \<not> worker_ended c \<longrightarrow> getConnection (conn_appID c) l = Some i))"
proof -
  have ok: "rotation_ok l" by (rule reachable_rotation_ok [OF assms])
  have "length (filter (\<lambda>a. a = app) (connOrder l)) = count (mset (connOrder l)) app" for app
    by (simp add: count_mset count_list_eq_length_filter) (metis (mono_tags) eq_commute)
  moreover have "distinct (connOrder l) \<and> (\<forall>app. app \<in> set (connOrder l) \<longleftrightarrow> getConnection app l \<noteq> None)"
    if "listener_reach admissible reply l"
    using reachable_listener_ok [OF that] by (auto simp: listener_ok_def getConnection_def)
  moreover have "getConnection (conn_appID c) l = Some i"
    if "listener_reach admissible reply l" "conn_at l i = Some c" "\<not> worker_ended c" for i c
    using running_found [OF reachable_listener_ok [OF that(1)] ok that(2,3)] by (simp add: getConnection_def)
  ultimately show ?thesis
    using ok by (auto simp: rotation_ok_def running_as_def getConnection_def max_def split: if_splits)
qed

text \<open>
  The session is resumed over the second connection while the first is still registered: the ID is in the rotation twice. A
  write to the first has failed before.
\<close>

definition demo_early :: "(nat, nat) listener" where
  "demo_early = fold (listener_step demo_reply)
     [Connects [1] 0 0, Token 0 [9], Connects [2] 0 0, Unwritable 0, Token 1 [9]] new_listener"

lemma demo_early_reach: "listener_reach possible demo_reply demo_early"
  unfolding demo_early_def fold.simps comp_apply id_apply
  by (intro listener_reach.intros) (code_simp+)

lemma demo_listener_possible: "listener_reach possible demo_reply demo_listener"
  unfolding demo_listener_def fold.simps comp_apply id_apply
  by (intro listener_reach.intros) (code_simp+)

lemma listener_well_formed_witness:
  "connOrder demo_early = [[1], [1]] \<and> card {i. \<exists>c. conn_at demo_early i = Some c \<and> conn_appID c = [1] \<and> \<not> worker_ended c} = 2
     \<and> ([1] \<in> set (connOrder demo_listener) \<longleftrightarrow> getConnection [1] demo_listener \<noteq> None)"
proof -
  have two: "connOrder demo_early = [[1], [1]]" by code_simp
  have "length (filter (\<lambda>a. a = [1]) (connOrder demo_early)) =
      card {i. \<exists>c. conn_at demo_early i = Some c \<and> conn_appID c = [1] \<and> \<not> worker_ended c}"
    using listener_well_formed [OF demo_early_reach] by blast
  moreover have "[1] \<in> set (connOrder demo_listener) \<longleftrightarrow> getConnection [1] demo_listener \<noteq> None"
    using listener_well_formed [OF demo_listener_possible] demo_listener_reach by blast
  ultimately show ?thesis by (simp add: two)
qed



text \<open>
  A session resumed over a new connection while the daemon has not yet seen the end of the old one ends up
  without a connection: when the old one closes, the new one, though open and bearing the session's ID, can no longer
  be found, so nothing reaches the application any more, and the time after which its state is destroyed
  starts.
\<close>

lemma early_resume_unreachable:
  assumes reach: "listener_reach admissible reply l" and token: "clientTokens l token = Some app"
    and old: "getConnection app l = Some i" "conn_at l i = Some c" "\<not> explicitClose c" "clientToken c = Some token"
    and new: "conn_at l j = Some c'" "open_conn j l" "j \<noteq> i" and kept: "disconnectedSessions l app = None"
  shows "let l' = snd (onClosedConn i (handleSessionToken reply j token l)) in
     (\<exists>c'. conn_at l' j = Some c' \<and> conn_appID c' = app \<and> \<not> worker_ended c') \<and> getConnection app l' = None
     \<and> disconnectedSessions l' app \<noteq> None"
proof -
  have ok: "listener_ok l" by (rule reachable_listener_ok [OF reach])
  have app: "conn_appID c = app" using ok old unfolding listener_ok_def getConnection_def by force
  have live: "\<not> worker_ended c'" using ok new unfolding listener_ok_def open_conn_def by force
  show ?thesis
    using token old new kept app live
    by (simp add: handleSessionToken_def onClosedConn_def closeDone_def Let_def conn_at_upd sendResponse_def unregisterConn_def getConnection_def)
qed

lemma early_resume_unreachable_witness:
  "getConnection [1] (snd (onClosedConn 0 (handleSessionToken demo_reply 1 [9] demo_listener))) = None"
proof -
  have "clientTokens demo_listener [9] = Some [1]" "getConnection [1] demo_listener = Some 0" "open_conn 1 demo_listener"
    "disconnectedSessions demo_listener [1] = None" by code_simp+
  moreover have "\<not> explicitClose (the (conn_at demo_listener 0))" "clientToken (the (conn_at demo_listener 0)) = Some [9]"
    "conn_at demo_listener 0 \<noteq> None" "conn_at demo_listener 1 \<noteq> None" by code_simp+
  ultimately show ?thesis
    using early_resume_unreachable [OF demo_listener_reach, of "[9]" "[1]" 0 "the (conn_at demo_listener 0)" 1 "the (conn_at demo_listener 1)"]
    by (auto simp: Let_def)
qed


end
