(* ===== verification/ClientArqInv.thy ===== *)
theory ClientArqInv
  imports ClientSteps ClientListenerProps
begin

text \<open>
  The invariant of the client daemon: the two maps of the retransmission are inverse to each other and to what the
  messages themselves say, as long as no SURB ID is drawn twice and no operation is started whose hash is that of
  one still alive. It is stated over the parts of the state it is about, so that every handler preserves it
  by one of seven lemmas.
\<close>

section \<open>The maps\<close>

definition alone :: "(nat \<rightharpoonup> 'rc ARQMessage) \<Rightarrow> (bytes \<times> nat) list \<Rightarrow> nat \<Rightarrow> bytes \<Rightarrow> bool" where
  "alone M T a h \<longleftrightarrow> (\<forall>s b m. map_of T s = Some b \<and> M b = Some m \<and> EnvelopeHash m = h \<longrightarrow> b = a)"

definition core_ok :: "(nat \<rightharpoonup> 'rc ARQMessage) \<Rightarrow> nat \<Rightarrow> (bytes \<times> nat) list \<Rightarrow> (bytes \<rightharpoonup> surb_ref) \<Rightarrow> nat set \<Rightarrow> bool" where
  "core_ok M n T H W \<longleftrightarrow> distinct (map fst T) \<and> (\<forall>a. n \<le> a \<longrightarrow> M a = None) \<and>
     (\<forall>s a. map_of T s = Some a \<longrightarrow> (\<exists>m. M a = Some m \<and> snd (SURBID m) = s \<and> H (EnvelopeHash m) = Some (SURBID m))) \<and>
     (\<forall>h ref. H h = Some ref \<longrightarrow> (\<exists>a m. map_of T (snd ref) = Some a \<and> M a = Some m \<and> EnvelopeHash m = h \<and> SURBID m = ref)) \<and>
     (\<forall>a b m m'. M a = Some m \<and> M b = Some m' \<and> snd (SURBID m) = snd (SURBID m') \<longrightarrow> a = b) \<and>
     (\<forall>a \<in> W. \<exists>m. M a = Some m \<and> alone M T a (EnvelopeHash m)) \<and>
     (\<forall>a \<in> W. \<forall>b \<in> W. \<forall>m m'. M a = Some m \<and> M b = Some m' \<and> EnvelopeHash m = EnvelopeHash m' \<longrightarrow> a = b)"

lemma core_held_distinct:
  "core_ok M n T H W \<Longrightarrow> a \<in> W \<Longrightarrow> b \<in> W \<Longrightarrow> M a = Some m \<Longrightarrow> M b = Some m' \<Longrightarrow> EnvelopeHash m = EnvelopeHash m' \<Longrightarrow> a = b"
  unfolding core_ok_def by blast

lemma core_tracked:
  "core_ok M n T H W \<Longrightarrow> map_of T s = Some a \<Longrightarrow> \<exists>m. M a = Some m \<and> snd (SURBID m) = s \<and> H (EnvelopeHash m) = Some (SURBID m)"
  unfolding core_ok_def by blast

lemma core_hashed:
  "core_ok M n T H W \<Longrightarrow> H h = Some ref \<Longrightarrow>
     \<exists>a m. map_of T (snd ref) = Some a \<and> M a = Some m \<and> EnvelopeHash m = h \<and> SURBID m = ref"
  unfolding core_ok_def by blast

lemma core_distinct:
  "core_ok M n T H W \<Longrightarrow> M a = Some m \<Longrightarrow> M b = Some m' \<Longrightarrow> snd (SURBID m) = snd (SURBID m') \<Longrightarrow> a = b"
  unfolding core_ok_def by blast

lemma core_held: "core_ok M n T H W \<Longrightarrow> a \<in> W \<Longrightarrow> M a = Some m \<Longrightarrow> alone M T a (EnvelopeHash m)"
  unfolding core_ok_def by fastforce

lemma core_bound: "core_ok M n T H W \<Longrightarrow> M a = Some m \<Longrightarrow> a < n"
  unfolding core_ok_def by (metis leI option.distinct(1))

lemma core_alone:
  assumes ok: "core_ok M n T H W" and s: "map_of T s = Some a" and a: "M a = Some m"
  shows "alone M T a (EnvelopeHash m)"
  unfolding alone_def
proof (intro allI impI, elim conjE)
  fix s' b m' assume b: "map_of T s' = Some b" "M b = Some m'" "EnvelopeHash m' = EnvelopeHash m"
  have "H (EnvelopeHash m) = Some (SURBID m)" "H (EnvelopeHash m') = Some (SURBID m')"
    using core_tracked [OF ok s] core_tracked [OF ok b(1)] a b(2) by auto
  then have "SURBID m = SURBID m'" using b(3) by simp
  then show "b = a" using core_distinct [OF ok a b(2)] by simp
qed

lemma core_key:
  assumes "core_ok M n T H W" "map_of T s = Some b" "M a = Some m" "s = snd (SURBID m)"
  shows "b = a"
  using core_tracked [OF assms(1,2)] core_distinct [OF assms(1)] assms(3,4) by blast

lemma core_unhold: "core_ok M n T H W \<Longrightarrow> W' \<subseteq> W \<Longrightarrow> core_ok M n T H W'"
  unfolding core_ok_def by blast

lemma core_hold:
  assumes ok: "core_ok M n T H W" and s: "map_of T s = Some a"
  shows "core_ok M n T H (insert a W)"
proof -
  obtain m where m: "M a = Some m" using core_tracked [OF ok s] by blast
  have "b = a" if "b \<in> W" "M b = Some m'" "EnvelopeHash m' = EnvelopeHash m" for b m'
    using core_held [OF ok that(1,2)] s m that(3) unfolding alone_def by metis
  with ok m core_alone [OF ok s m] show ?thesis unfolding core_ok_def by (auto simp: m)
qed

lemma core_alloc: "core_ok M n T H W \<Longrightarrow> n \<le> n' \<Longrightarrow> core_ok M n' T H W"
  unfolding core_ok_def by (meson le_trans)

text \<open>A message whose address and hash stay as they are.\<close>

lemma core_upd:
  assumes "core_ok M n T H W" and f: "\<And>m. SURBID (f m) = SURBID m \<and> EnvelopeHash (f m) = EnvelopeHash m"
  shows "core_ok (M(a := map_option f (M a))) n T H W"
proof -
  let ?M = "M(a := map_option f (M a))"
  have m: "?M b = None \<longleftrightarrow> M b = None" for b by simp
  have eq: "\<exists>m. M b = Some m \<and> SURBID m = SURBID m' \<and> EnvelopeHash m = EnvelopeHash m'" if "?M b = Some m'" for b m'
    using that f by (auto split: if_splits)
  have ex: "\<exists>m'. ?M b = Some m' \<and> SURBID m' = SURBID m \<and> EnvelopeHash m' = EnvelopeHash m" if "M b = Some m" for b m
    using that f by auto
  have al: "alone ?M T b h" if "alone M T b h" for b h
    using that eq unfolding alone_def by metis
  show ?thesis
    unfolding core_ok_def
  proof (intro conjI)
    show "distinct (map fst T)" "\<forall>a. n \<le> a \<longrightarrow> ?M a = None" using assms(1) by (auto simp: core_ok_def)
    show "\<forall>s b. map_of T s = Some b \<longrightarrow> (\<exists>m. ?M b = Some m \<and> snd (SURBID m) = s \<and> H (EnvelopeHash m) = Some (SURBID m))"
      using core_tracked [OF assms(1)] ex by metis
    show "\<forall>h ref. H h = Some ref \<longrightarrow> (\<exists>b m. map_of T (snd ref) = Some b \<and> ?M b = Some m \<and> EnvelopeHash m = h \<and> SURBID m = ref)"
      using core_hashed [OF assms(1)] ex by metis
    show "\<forall>b c m m'. ?M b = Some m \<and> ?M c = Some m' \<and> snd (SURBID m) = snd (SURBID m') \<longrightarrow> b = c"
      using core_distinct [OF assms(1)] eq by metis
    show "\<forall>b \<in> W. \<exists>m. ?M b = Some m \<and> alone ?M T b (EnvelopeHash m)"
      using assms(1) ex al unfolding core_ok_def by metis
    show "\<forall>b \<in> W. \<forall>c \<in> W. \<forall>m m'. ?M b = Some m \<and> ?M c = Some m' \<and> EnvelopeHash m = EnvelopeHash m' \<longrightarrow> b = c"
      using core_held_distinct [OF assms(1)] eq by metis
  qed
qed

lemma map_of_delete: "map_of (AList.delete k T) s = (if s = k then None else map_of T s)"
  by (simp add: delete_conv')

lemma map_of_update: "map_of (AList.update k v T) s = (if s = k then Some v else map_of T s)"
  by (simp add: update_conv')

lemma alone_delete: "alone M T a h \<Longrightarrow> alone M (AList.delete k T) a h"
  by (auto simp: alone_def map_of_delete)

text \<open>Both entries of a message are deleted.\<close>

lemma core_drop:
  assumes ok: "core_ok M n T H W" and m: "M a = Some m" and al: "alone M T a (EnvelopeHash m)"
  shows "core_ok M n (AList.delete (snd (SURBID m)) T) (H(EnvelopeHash m := None)) W"
  unfolding core_ok_def
proof (intro conjI)
  let ?T = "AList.delete (snd (SURBID m)) T" and ?H = "H(EnvelopeHash m := None)"
  show "distinct (map fst ?T)" using ok by (simp add: core_ok_def distinct_delete)
  show "\<forall>a. n \<le> a \<longrightarrow> M a = None" using ok by (simp add: core_ok_def)
  show "\<forall>s b. map_of ?T s = Some b \<longrightarrow> (\<exists>m. M b = Some m \<and> snd (SURBID m) = s \<and> ?H (EnvelopeHash m) = Some (SURBID m))"
  proof (intro allI impI)
    fix s b assume "map_of ?T s = Some b"
    then have s: "map_of T s = Some b" "s \<noteq> snd (SURBID m)" by (auto simp: map_of_delete split: if_splits)
    obtain m' where m': "M b = Some m'" "snd (SURBID m') = s" "H (EnvelopeHash m') = Some (SURBID m')"
      using core_tracked [OF ok s(1)] by blast
    have "EnvelopeHash m' \<noteq> EnvelopeHash m"
    proof
      assume "EnvelopeHash m' = EnvelopeHash m"
      with al s(1) m'(1) have "b = a" by (auto simp: alone_def)
      with m m' s(2) show False by simp
    qed
    with m' show "\<exists>m'. M b = Some m' \<and> snd (SURBID m') = s \<and> ?H (EnvelopeHash m') = Some (SURBID m')" by auto
  qed
  show "\<forall>h ref. ?H h = Some ref \<longrightarrow> (\<exists>b m'. map_of ?T (snd ref) = Some b \<and> M b = Some m' \<and> EnvelopeHash m' = h \<and> SURBID m' = ref)"
  proof (intro allI impI)
    fix h ref assume "?H h = Some ref"
    then have h: "H h = Some ref" "h \<noteq> EnvelopeHash m" by (auto split: if_splits)
    obtain b m' where b: "map_of T (snd ref) = Some b" "M b = Some m'" "EnvelopeHash m' = h" "SURBID m' = ref"
      using core_hashed [OF ok h(1)] by blast
    have "snd ref \<noteq> snd (SURBID m)" using core_distinct [OF ok m b(2)] b h(2) m by auto
    with b show "\<exists>b m'. map_of ?T (snd ref) = Some b \<and> M b = Some m' \<and> EnvelopeHash m' = h \<and> SURBID m' = ref"
      by (auto simp: map_of_delete)
  qed
  show "\<forall>a b m m'. M a = Some m \<and> M b = Some m' \<and> snd (SURBID m) = snd (SURBID m') \<longrightarrow> a = b"
    using ok by (simp add: core_ok_def)
  show "\<forall>b \<in> W. \<exists>m'. M b = Some m' \<and> alone M ?T b (EnvelopeHash m')"
    using ok alone_delete by (fastforce simp: core_ok_def)
  show "\<forall>b \<in> W. \<forall>c \<in> W. \<forall>m m'. M b = Some m \<and> M c = Some m' \<and> EnvelopeHash m = EnvelopeHash m' \<longrightarrow> b = c"
    using core_held_distinct [OF ok] by blast
qed

text \<open>A message that is not in the maps is entered under a SURB ID that no message has.\<close>

lemma core_put:
  assumes ok: "core_ok M n T H W" and a: "a < n" and untracked: "\<And>s. map_of T s \<noteq> Some a"
    and hash: "\<And>s b m. map_of T s = Some b \<Longrightarrow> M b = Some m \<Longrightarrow> EnvelopeHash m \<noteq> EnvelopeHash m'"
    and held: "\<And>b m. b \<in> W \<Longrightarrow> M b = Some m \<Longrightarrow> EnvelopeHash m = EnvelopeHash m' \<Longrightarrow> b = a"
    and self: "\<And>m. a \<in> W \<Longrightarrow> M a = Some m \<Longrightarrow> EnvelopeHash m = EnvelopeHash m'"
    and fresh: "\<And>b m. M b = Some m \<Longrightarrow> snd (SURBID m) \<noteq> snd (SURBID m')"
  shows "core_ok (M(a \<mapsto> m')) n (AList.update (snd (SURBID m')) a T) (H(EnvelopeHash m' \<mapsto> SURBID m')) W"
  unfolding core_ok_def
proof (intro conjI)
  let ?M = "M(a \<mapsto> m')" and ?s = "snd (SURBID m')"
  let ?T = "AList.update ?s a T" and ?H = "H(EnvelopeHash m' \<mapsto> SURBID m')"
  have key: "s \<noteq> ?s \<and> b \<noteq> a" if "map_of T s = Some b" for s b
    using core_tracked [OF ok that] fresh untracked that by blast
  show "distinct (map fst ?T)" using ok by (simp add: core_ok_def distinct_update)
  show "\<forall>b. n \<le> b \<longrightarrow> ?M b = None" using ok a by (auto simp: core_ok_def)
  show "\<forall>s b. map_of ?T s = Some b \<longrightarrow> (\<exists>m. ?M b = Some m \<and> snd (SURBID m) = s \<and> ?H (EnvelopeHash m) = Some (SURBID m))"
  proof (intro allI impI)
    fix s b assume s: "map_of ?T s = Some b"
    show "\<exists>m. ?M b = Some m \<and> snd (SURBID m) = s \<and> ?H (EnvelopeHash m) = Some (SURBID m)"
    proof (cases "s = ?s")
      case True
      with s show ?thesis by (simp add: map_of_update)
    next
      case False
      with s have t: "map_of T s = Some b" by (simp add: map_of_update)
      obtain m where m: "M b = Some m" "snd (SURBID m) = s" "H (EnvelopeHash m) = Some (SURBID m)"
        using core_tracked [OF ok t] by blast
      with key [OF t] hash [OF t m(1)] show ?thesis by simp
    qed
  qed
  show "\<forall>h ref. ?H h = Some ref \<longrightarrow> (\<exists>b m. map_of ?T (snd ref) = Some b \<and> ?M b = Some m \<and> EnvelopeHash m = h \<and> SURBID m = ref)"
  proof (intro allI impI)
    fix h ref assume h: "?H h = Some ref"
    show "\<exists>b m. map_of ?T (snd ref) = Some b \<and> ?M b = Some m \<and> EnvelopeHash m = h \<and> SURBID m = ref"
    proof (cases "h = EnvelopeHash m'")
      case True
      with h have "ref = SURBID m'" by simp
      with True show ?thesis by (intro exI [of _ a] exI [of _ m']) (simp add: map_of_update)
    next
      case False
      with h have "H h = Some ref" by simp
      then obtain b m where b: "map_of T (snd ref) = Some b" "M b = Some m" "EnvelopeHash m = h" "SURBID m = ref"
        using core_hashed [OF ok] by blast
      with key [OF b(1)] show ?thesis by (intro exI [of _ b] exI [of _ m]) (simp add: map_of_update)
    qed
  qed
  show "\<forall>b c m m'. ?M b = Some m \<and> ?M c = Some m' \<and> snd (SURBID m) = snd (SURBID m') \<longrightarrow> b = c"
  proof (intro allI impI, elim conjE)
    fix b c m1 m2 assume "?M b = Some m1" "?M c = Some m2" "snd (SURBID m1) = snd (SURBID m2)"
    then show "b = c" using core_distinct [OF ok, of b m1 c m2] fresh by (auto split: if_splits dest: sym)
  qed
  have al: "alone ?M ?T b (EnvelopeHash m)" if "b \<in> W" "?M b = Some m" for b m
    unfolding alone_def
  proof (intro allI impI, elim conjE)
    fix s c m1 assume c: "map_of ?T s = Some c" "?M c = Some m1" "EnvelopeHash m1 = EnvelopeHash m"
    have bh: "EnvelopeHash m = EnvelopeHash m' \<longrightarrow> b = a"
      using held [OF that(1)] that(2) by (auto split: if_splits)
    show "c = b"
    proof (cases "s = ?s")
      case True
      with c have "c = a" "m1 = m'" by (auto simp: map_of_update)
      with c(3) bh show ?thesis by simp
    next
      case False
      with c(1) have t: "map_of T s = Some c" by (simp add: map_of_update)
      from key [OF t] c(2) have m1: "M c = Some m1" by simp
      have "b \<noteq> a" using hash [OF t m1] c(3) that(2) by auto
      with that(2) have "M b = Some m" by simp
      from core_held [OF ok that(1) this] t m1 c(3) show ?thesis by (auto simp: alone_def)
    qed
  qed
  show "\<forall>b \<in> W. \<exists>m. ?M b = Some m \<and> alone ?M ?T b (EnvelopeHash m)"
  proof
    fix b assume b: "b \<in> W"
    then obtain m0 where "M b = Some m0" using ok unfolding core_ok_def by blast
    then obtain m where "?M b = Some m" by (cases "b = a") auto
    with al [OF b] show "\<exists>m. ?M b = Some m \<and> alone ?M ?T b (EnvelopeHash m)" by blast
  qed
  show "\<forall>b \<in> W. \<forall>c \<in> W. \<forall>m m'. ?M b = Some m \<and> ?M c = Some m' \<and> EnvelopeHash m = EnvelopeHash m' \<longrightarrow> b = c"
  proof (intro ballI allI impI, elim conjE)
    fix b c m1 m2 assume b: "b \<in> W" "c \<in> W" "?M b = Some m1" "?M c = Some m2" "EnvelopeHash m1 = EnvelopeHash m2"
    show "b = c"
    proof (cases "b = a \<or> c = a")
      case True
      with b held show ?thesis by (auto split: if_splits dest: sym)
    next
      case False
      with b core_held_distinct [OF ok b(1,2)] show ?thesis by simp
    qed
  qed
qed

lemma core_add:
  assumes ok: "core_ok M n T H W" and ref: "SURBID m' = (Suc n, s)"
    and hash: "\<And>b m. M b = Some m \<Longrightarrow> (\<exists>s. map_of T s = Some b) \<or> b \<in> W \<Longrightarrow> EnvelopeHash m \<noteq> EnvelopeHash m'"
    and fresh: "\<And>b m. M b = Some m \<Longrightarrow> snd (SURBID m) \<noteq> s"
  shows "core_ok (M(n \<mapsto> m')) (Suc (Suc n)) (AList.update s n T) (H(EnvelopeHash m' \<mapsto> SURBID m')) W"
proof -
  have none: "M n = None" using ok unfolding core_ok_def by blast
  have "core_ok (M(n \<mapsto> m')) (Suc (Suc n)) (AList.update (snd (SURBID m')) n T) (H(EnvelopeHash m' \<mapsto> SURBID m')) W"
  proof (rule core_put)
    show "core_ok M (Suc (Suc n)) T H W" by (rule core_alloc [OF ok]) simp
    show "n < Suc (Suc n)" by simp
    show "map_of T s \<noteq> Some n" for s using core_tracked [OF ok, of s n] none by auto
    show "EnvelopeHash m \<noteq> EnvelopeHash m'" if "map_of T s = Some b" "M b = Some m" for s b m
      using hash that by blast
    show "b = n" if "b \<in> W" "M b = Some m" "EnvelopeHash m = EnvelopeHash m'" for b m
      using hash that by blast
    show "EnvelopeHash m = EnvelopeHash m'" if "M n = Some m" for m using none that by simp
    show "snd (SURBID m) \<noteq> snd (SURBID m')" if "M b = Some m" for b m using fresh ref that by simp
  qed
  then show ?thesis using ref by simp
qed

lemma core_rekey:
  assumes ok: "core_ok M n T H W" and m: "M a = Some m" and al: "alone M T a (EnvelopeHash m)"
    and held: "a \<in> W \<or> (\<exists>s. map_of T s = Some a)"
    and ref: "SURBID m' = (n, s)" "EnvelopeHash m' = EnvelopeHash m" and fresh: "\<And>b m. M b = Some m \<Longrightarrow> snd (SURBID m) \<noteq> s"
  shows "core_ok (M(a \<mapsto> m')) (Suc n) (AList.update s a (AList.delete (snd (SURBID m)) T)) (H(EnvelopeHash m \<mapsto> SURBID m')) W"
proof -
  let ?T = "AList.delete (snd (SURBID m)) T"
  have dropped: "core_ok M (Suc n) ?T (H(EnvelopeHash m := None)) W"
    by (rule core_alloc [OF core_drop [OF ok m al]]) simp
  have unt: "map_of ?T s \<noteq> Some a" for s
    using core_tracked [OF ok, of s a] m by (auto simp: map_of_delete)
  have "core_ok (M(a \<mapsto> m')) (Suc n) (AList.update (snd (SURBID m')) a ?T) (H(EnvelopeHash m := None, EnvelopeHash m' \<mapsto> SURBID m')) W"
  proof (rule core_put [OF dropped])
    show "map_of ?T s \<noteq> Some a" for s by (rule unt)
    show "a < Suc n" using core_bound [OF ok m] by simp
    show "EnvelopeHash m1 \<noteq> EnvelopeHash m'" if "map_of ?T s = Some b" "M b = Some m1" for s b m1
      using al unt that ref(2) unfolding alone_def map_of_delete by (metis option.distinct(1))
    show "b = a" if "b \<in> W" "M b = Some m1" "EnvelopeHash m1 = EnvelopeHash m'" for b m1
      using held core_held_distinct [OF ok that(1) _ that(2) m] core_held [OF ok that(1,2)] that(3) ref(2) m
      unfolding alone_def by metis
    show "EnvelopeHash m1 = EnvelopeHash m'" if "M a = Some m1" for m1 using m ref that by simp
    show "snd (SURBID m1) \<noteq> snd (SURBID m')" if "M b = Some m1" for b m1 using fresh ref that by simp
  qed
  then show ?thesis using ref by simp
qed

text \<open>All messages of an application are taken out.\<close>

lemma map_of_filter_distinct:
  "distinct (map fst T) \<Longrightarrow> map_of (filter P T) s = (case map_of T s of None \<Rightarrow> None | Some a \<Rightarrow> if P (s, a) then Some a else None)"
proof (induction T)
  case (Cons e T)
  have "map_of T (fst e) = None" using Cons.prems by (simp add: map_of_eq_None_iff)
  with Cons show ?case by (cases e) auto
qed simp

lemma fold_forget: "fold (\<lambda>m h. h(EnvelopeHash m := None)) ms H h = (if h \<in> EnvelopeHash ` set ms then None else H h)"
  by (induction ms arbitrary: H) auto

lemma core_cleanup:
  assumes ok: "core_ok M n T H W"
    and ms: "set ms = {m. \<exists>s a. map_of T s = Some a \<and> M a = Some m \<and> mine a}"
  shows "core_ok M n (filter (\<lambda>(s, a). \<not> mine a) T) (fold (\<lambda>m h. h(EnvelopeHash m := None)) ms H) W"
proof -
  let ?T = "filter (\<lambda>(s, a). \<not> mine a) T" and ?H = "fold (\<lambda>m h. h(EnvelopeHash m := None)) ms H"
  have T: "map_of ?T s = (case map_of T s of None \<Rightarrow> None | Some a \<Rightarrow> if mine a then None else Some a)" for s
    using ok map_of_filter_distinct [of T "\<lambda>(s, a). \<not> mine a" s] by (auto simp: core_ok_def split: option.split)
  have T': "map_of T s = Some a \<and> \<not> mine a" if "map_of ?T s = Some a" for s a
    using that T by (auto split: option.splits if_splits)
  show ?thesis
    unfolding core_ok_def
  proof (intro conjI)
    show "distinct (map fst ?T)" using ok by (simp add: core_ok_def distinct_map_filter)
    show "\<forall>a. n \<le> a \<longrightarrow> M a = None" "\<forall>a b m m'. M a = Some m \<and> M b = Some m' \<and> snd (SURBID m) = snd (SURBID m') \<longrightarrow> a = b"
      "\<forall>b \<in> W. \<forall>c \<in> W. \<forall>m m'. M b = Some m \<and> M c = Some m' \<and> EnvelopeHash m = EnvelopeHash m' \<longrightarrow> b = c"
      by (use ok in \<open>unfold core_ok_def, blast\<close>)+
    show "\<forall>s a. map_of ?T s = Some a \<longrightarrow> (\<exists>m. M a = Some m \<and> snd (SURBID m) = s \<and> ?H (EnvelopeHash m) = Some (SURBID m))"
    proof (intro allI impI)
      fix s a assume "map_of ?T s = Some a"
      then have t: "map_of T s = Some a" "\<not> mine a" by (blast dest: T')+
      obtain m where m: "M a = Some m" "snd (SURBID m) = s" "H (EnvelopeHash m) = Some (SURBID m)"
        using core_tracked [OF ok t(1)] by blast
      have "EnvelopeHash m \<noteq> EnvelopeHash m'" if "m' \<in> set ms" for m'
      proof
        assume h: "EnvelopeHash m = EnvelopeHash m'"
        obtain s' a' where a': "map_of T s' = Some a'" "M a' = Some m'" "mine a'" using \<open>m' \<in> set ms\<close> unfolding ms by blast
        with core_alone [OF ok t(1) m(1)] h have "a' = a" unfolding alone_def by metis
        with a'(3) t(2) show False by simp
      qed
      then have "EnvelopeHash m \<notin> EnvelopeHash ` set ms" by blast
      with m show "\<exists>m. M a = Some m \<and> snd (SURBID m) = s \<and> ?H (EnvelopeHash m) = Some (SURBID m)"
        by (simp add: fold_forget)
    qed
    show "\<forall>h ref. ?H h = Some ref \<longrightarrow> (\<exists>a m. map_of ?T (snd ref) = Some a \<and> M a = Some m \<and> EnvelopeHash m = h \<and> SURBID m = ref)"
    proof (intro allI impI)
      fix h ref assume "?H h = Some ref"
      then have h: "H h = Some ref" "h \<notin> EnvelopeHash ` set ms" by (auto simp: fold_forget split: if_splits)
      obtain a m where m: "map_of T (snd ref) = Some a" "M a = Some m" "EnvelopeHash m = h" "SURBID m = ref"
        using core_hashed [OF ok h(1)] by blast
      have "\<not> mine a"
      proof
        assume "mine a"
        then have "m \<in> set ms" unfolding ms using m(1,2) by blast
        with h(2) m(3) show False by blast
      qed
      with m T show "\<exists>a m. map_of ?T (snd ref) = Some a \<and> M a = Some m \<and> EnvelopeHash m = h \<and> SURBID m = ref" by auto
    qed
    show "\<forall>a \<in> W. \<exists>m. M a = Some m \<and> alone M ?T a (EnvelopeHash m)"
    proof
      fix a assume a: "a \<in> W"
      then obtain m where m: "M a = Some m" using ok unfolding core_ok_def by blast
      from core_held [OF ok a m] T' have "alone M ?T a (EnvelopeHash m)" unfolding alone_def by blast
      with m show "\<exists>m. M a = Some m \<and> alone M ?T a (EnvelopeHash m)" by blast
    qed
  qed
qed

section \<open>The daemon\<close>

definition held :: "('rc, 'wc, 'ix) daemon \<Rightarrow> nat set" where
  "held d = (case in_reply d of None \<Rightarrow> {} | Some (a, _) \<Rightarrow> {a}) \<union> (case in_resend d of None \<Rightarrow> {} | Some a \<Rightarrow> {a})"

definition daemon_ok :: "('rc, 'wc, 'ix) daemon \<Rightarrow> bool" where
  "daemon_ok d \<longleftrightarrow> core_ok (arqMessages d) (next_addr d) (arqSurbIDMap d) (arqEnvelopeHashMap d) (held d)"

text \<open>What the environment keeps to: SURB IDs are not drawn twice, and no operation is started whose hash is alive.\<close>

definition fresh_surb :: "bytes \<Rightarrow> ('rc, 'wc, 'ix) daemon \<Rightarrow> bool" where
  "fresh_surb s d \<longleftrightarrow> (\<forall>b < next_addr d. case arqMessages d b of None \<Rightarrow> True | Some m \<Rightarrow> snd (SURBID m) \<noteq> s)"

definition alive :: "bytes \<Rightarrow> ('rc, 'wc, 'ix) daemon \<Rightarrow> bool" where
  "alive h d \<longleftrightarrow> (\<exists>b \<in> snd ` set (arqSurbIDMap d) \<union> held d. case arqMessages d b of None \<Rightarrow> False | Some m \<Rightarrow> EnvelopeHash m = h)"

definition started_hash :: "('pub, 'priv, 'np, 'ns, 'v, 'rc, 'wc, 'ix) client_env \<Rightarrow> ('rc, 'wc, 'ix) Request \<Rightarrow> bytes option" where
  "started_hash E r =
     (case rq_StartResendingEncryptedMessage r of Some req \<Rightarrow> sr_EnvelopeHash req
      | None \<Rightarrow> (case rq_StartResendingCopyCommand r of None \<Rightarrow> None
          | Some req \<Rightarrow> Option.bind (sc_WriteCap req) (\<lambda>wc. map_option (Sum256 (rpki (crep E))) (wc_MarshalBinary E wc))))"

definition careful ::
  "('pub, 'priv, 'np, 'ns, 'v, 'rc, 'wc, 'ix) client_env \<Rightarrow> inputs \<Rightarrow> ('rc, 'wc, 'ix) event \<Rightarrow> ('rc, 'wc, 'ix) daemon \<Rightarrow> bool" where
  "careful E q e d \<longleftrightarrow> fresh_surb (i_surb q) d \<and>
     (case e of Dispatch \<Rightarrow> (case egressCh d of [] \<Rightarrow> True
        | r # _ \<Rightarrow> (case started_hash E r of None \<Rightarrow> True | Some h \<Rightarrow> \<not> alive h d)) | _ \<Rightarrow> True)"

lemma fresh_surbD: "daemon_ok d \<Longrightarrow> fresh_surb s d \<Longrightarrow> arqMessages d b = Some m \<Longrightarrow> snd (SURBID m) \<noteq> s"
  using core_bound [of "arqMessages d" "next_addr d" _ _ _ b m] by (fastforce simp: fresh_surb_def daemon_ok_def)

lemma aliveI: "arqMessages d b = Some m \<Longrightarrow> map_of (arqSurbIDMap d) s = Some b \<or> b \<in> held d \<Longrightarrow> alive (EnvelopeHash m) d"
  unfolding alive_def by (rule bexI [of _ b]) (auto dest: map_of_SomeD intro: rev_image_eqI)

lemma respond_fields [simp]:
  "arqMessages (respond app r d) = arqMessages d" "next_addr (respond app r d) = next_addr d"
  "arqSurbIDMap (respond app r d) = arqSurbIDMap d" "arqEnvelopeHashMap (respond app r d) = arqEnvelopeHashMap d"
  "in_reply (respond app r d) = in_reply d" "in_resend (respond app r d) = in_resend d" "held (respond app r d) = held d"
  "arqTimerQueue (respond app r d) = arqTimerQueue d" "egressCh (respond app r d) = egressCh d"
  by (auto simp: respond_def held_def split: option.split)

lemma timer_fields [simp]:
  "arqMessages (push_timer at s d) = arqMessages d" "next_addr (push_timer at s d) = next_addr d"
  "arqSurbIDMap (push_timer at s d) = arqSurbIDMap d" "arqEnvelopeHashMap (push_timer at s d) = arqEnvelopeHashMap d"
  "in_reply (push_timer at s d) = in_reply d" "in_resend (push_timer at s d) = in_resend d" "held (push_timer at s d) = held d"
  "egressCh (push_timer at s d) = egressCh d" "lst (push_timer at s d) = lst d"
  "arqMessages (cancel_timer s d) = arqMessages d" "next_addr (cancel_timer s d) = next_addr d"
  "arqSurbIDMap (cancel_timer s d) = arqSurbIDMap d" "arqEnvelopeHashMap (cancel_timer s d) = arqEnvelopeHashMap d"
  "in_reply (cancel_timer s d) = in_reply d" "in_resend (cancel_timer s d) = in_resend d" "held (cancel_timer s d) = held d"
  "egressCh (cancel_timer s d) = egressCh d" "lst (cancel_timer s d) = lst d"
  by (simp_all add: push_timer_def cancel_timer_def held_def)

lemma daemon_ok_fields [simp]:
  "daemon_ok (respond app r d) = daemon_ok d" "daemon_ok (push_timer at s d) = daemon_ok d"
  "daemon_ok (cancel_timer s d) = daemon_ok d" "daemon_ok (d\<lparr>lst := l\<rparr>) = daemon_ok d"
  "daemon_ok (d\<lparr>arqTimerQueue := t\<rparr>) = daemon_ok d" "daemon_ok (d\<lparr>egressCh := eg\<rparr>) = daemon_ok d"
  "daemon_ok (d\<lparr>timerQueue := tq\<rparr>) = daemon_ok d" "daemon_ok (d\<lparr>replies := rs\<rparr>) = daemon_ok d"
  "daemon_ok (d\<lparr>decoys := ds\<rparr>) = daemon_ok d" "daemon_ok (d\<lparr>packets := ps\<rparr>) = daemon_ok d"
  by (simp_all add: daemon_ok_def held_def)

lemma drop_ok:
  assumes ok: "daemon_ok d" and m: "arqMessages d a = Some m0" "SURBID m = SURBID m0" "EnvelopeHash m = EnvelopeHash m0"
    and al: "a \<in> held d \<or> map_of (arqSurbIDMap d) s = Some a"
  shows "daemon_ok (dropARQMessage m d)"
proof -
  have "alone (arqMessages d) (arqSurbIDMap d) a (EnvelopeHash m0)"
    using al core_held core_alone ok m(1) unfolding daemon_ok_def by blast
  from core_drop [OF ok [unfolded daemon_ok_def] m(1) this] m(2,3) show ?thesis
    by (simp add: daemon_ok_def dropARQMessage_def held_def)
qed

lemma upd_message_ok:
  assumes ok: "daemon_ok d" and f: "\<And>m. SURBID (f m) = SURBID m \<and> EnvelopeHash (f m) = EnvelopeHash m"
  shows "daemon_ok (upd_message a f d)"
  using core_upd [OF ok [unfolded daemon_ok_def] f] by (simp add: daemon_ok_def upd_message_def held_def)

lemma rekey_ok:
  assumes ok: "daemon_ok d" and m: "arqMessages d a = Some m" and al: "a \<in> held d \<or> map_of (arqSurbIDMap d) s = Some a"
    and f: "\<And>m. EnvelopeHash (f m) = EnvelopeHash m" and fresh: "fresh_surb surb d"
  shows "daemon_ok (rekey a m surb f d)"
proof -
  have "alone (arqMessages d) (arqSurbIDMap d) a (EnvelopeHash m)"
    using al core_held core_alone ok m unfolding daemon_ok_def by blast
  from core_rekey [OF ok [unfolded daemon_ok_def] m this _, of "(f m)\<lparr>SURBID := (next_addr d, surb)\<rparr>" surb] al f fresh
  show ?thesis using fresh_surbD [OF ok fresh] by (auto simp: daemon_ok_def rekey_def Let_def held_def)
qed

lemma arqSend_ok:
  assumes ok: "daemon_ok d" and fresh: "fresh_surb (i_surb q) d" and new: "\<not> alive (EnvelopeHash m) d"
    and sent: "arqSend q m d = Some d'"
  shows "daemon_ok d'"
proof -
  obtain pkt key rtt where c: "i_compose q (DestinationIdHash m) (RecipientQueueID m) (arq_Payload m) (i_surb q) = Some (pkt, key, rtt)"
    using sent by (auto simp: arqSend_def split: option.splits)
  let ?m = "m\<lparr>SURBID := (Suc (next_addr d), i_surb q), SURBDecryptionKeys := key, SentAt := i_now q, ReplyETA := rtt, Retransmissions := 0\<rparr>"
  have "core_ok ((arqMessages d)(next_addr d \<mapsto> ?m)) (Suc (Suc (next_addr d))) (AList.update (i_surb q) (next_addr d) (arqSurbIDMap d))
     ((arqEnvelopeHashMap d)(EnvelopeHash ?m \<mapsto> SURBID ?m)) (held d)"
  proof (rule core_add [OF ok [unfolded daemon_ok_def]])
    show "EnvelopeHash m' \<noteq> EnvelopeHash ?m"
      if "arqMessages d b = Some m'" "(\<exists>s. map_of (arqSurbIDMap d) s = Some b) \<or> b \<in> held d" for b m'
      using new aliveI [OF that(1)] that(2) by fastforce
  qed (use fresh_surbD [OF ok fresh] in auto)
  with c sent show ?thesis
    by (auto simp: arqSend_def Let_def daemon_ok_def held_def push_timer_def)
qed

section \<open>Every step keeps it\<close>

lemma daemon_ok_tracked:
  "daemon_ok d \<Longrightarrow> map_of (arqSurbIDMap d) s = Some a \<Longrightarrow>
     \<exists>m. arqMessages d a = Some m \<and> snd (SURBID m) = s \<and> arqEnvelopeHashMap d (EnvelopeHash m) = Some (SURBID m)"
  unfolding daemon_ok_def by (rule core_tracked)

lemma daemon_ok_hashed:
  "daemon_ok d \<Longrightarrow> arqEnvelopeHashMap d h = Some ref \<Longrightarrow>
     \<exists>a m. map_of (arqSurbIDMap d) (snd ref) = Some a \<and> arqMessages d a = Some m \<and> EnvelopeHash m = h \<and> SURBID m = ref"
  unfolding daemon_ok_def by (rule core_hashed)

lemma daemon_ok_held: "daemon_ok d \<Longrightarrow> a \<in> held d \<Longrightarrow> \<exists>m. arqMessages d a = Some m"
  unfolding daemon_ok_def core_ok_def by blast

lemma held_simps [simp]:
  "held (d\<lparr>lst := l\<rparr>) = held d" "held (d\<lparr>arqSurbIDMap := t\<rparr>) = held d" "held (d\<lparr>arqEnvelopeHashMap := h\<rparr>) = held d"
  "held (d\<lparr>egressCh := eg\<rparr>) = held d" "held (d\<lparr>arqTimerQueue := tq\<rparr>) = held d" "held (d\<lparr>packets := ps\<rparr>) = held d"
  by (simp_all add: held_def)

lemma release_reply_ok: "daemon_ok d \<Longrightarrow> daemon_ok (d\<lparr>in_reply := None\<rparr>)"
  unfolding daemon_ok_def by (rule core_unhold [where W = "held d"]) (auto simp: held_def)

lemma release_resend_ok: "daemon_ok d \<Longrightarrow> daemon_ok (d\<lparr>in_resend := None\<rparr>)"
  unfolding daemon_ok_def by (rule core_unhold [where W = "held d"]) (auto simp: held_def)

lemma hold_ok:
  assumes ok: "daemon_ok d" and s: "map_of (arqSurbIDMap d) s = Some a"
  shows "daemon_ok (d\<lparr>in_reply := Some (a, c)\<rparr>)" "daemon_ok (d\<lparr>in_resend := Some a\<rparr>)"
proof -
  have *: "core_ok (arqMessages d) (next_addr d) (arqSurbIDMap d) (arqEnvelopeHashMap d) (insert a (held d))"
    by (rule core_hold [OF _ s]) (use ok in \<open>simp add: daemon_ok_def\<close>)
  have "held (d\<lparr>in_reply := Some (a, c)\<rparr>) \<subseteq> insert a (held d)" "held (d\<lparr>in_resend := Some a\<rparr>) \<subseteq> insert a (held d)"
    by (auto simp: held_def split: option.splits)
  from this [THEN core_unhold [OF *]]
  show "daemon_ok (d\<lparr>in_reply := Some (a, c)\<rparr>)" "daemon_ok (d\<lparr>in_resend := Some a\<rparr>)" by (simp_all add: daemon_ok_def)
qed

lemma cancel_hash_drops:
  assumes ok: "daemon_ok d" and h: "arqEnvelopeHashMap d h = Some ref"
  obtains a m where "map_of (arqSurbIDMap d) (snd ref) = Some a" "arqMessages d a = Some m" "EnvelopeHash m = h" "SURBID m = ref"
    "cancel_hash app h cancelled d = respond app (cancelled m) (cancel_timer ref (dropARQMessage m d))"
proof -
  from daemon_ok_hashed [OF ok h] obtain a m where
    m: "map_of (arqSurbIDMap d) (snd ref) = Some a" "arqMessages d a = Some m" "EnvelopeHash m = h" "SURBID m = ref" by blast
  then have "cancel_hash app h cancelled d = respond app (cancelled m) (cancel_timer ref (dropARQMessage m d))"
    using h by (simp add: cancel_hash_def dropARQMessage_def)
  with m that show thesis by blast
qed

lemma cancel_hash_ok: "daemon_ok d \<Longrightarrow> daemon_ok (cancel_hash app h cancelled d)"
proof (cases "arqEnvelopeHashMap d h")
  case None
  then show "daemon_ok d \<Longrightarrow> ?thesis" by (simp add: cancel_hash_def)
next
  case (Some ref)
  assume ok: "daemon_ok d"
  show ?thesis by (rule cancel_hash_drops [OF ok Some, of app cancelled]) (use ok in \<open>auto intro!: drop_ok\<close>)
qed

lemma cancels_ok:
  "daemon_ok d \<Longrightarrow> daemon_ok (cancelResendingEncryptedMessage app req d)"
  "daemon_ok d \<Longrightarrow> daemon_ok (cancelResendingCopyCommand app req' d)"
  by (auto simp: cancelResendingEncryptedMessage_def cancelResendingCopyCommand_def cancel_hash_ok split: option.split)

lemma enqueueResend_ok [simp]: "daemon_ok (enqueueResend now ref d) = daemon_ok d"
  by (auto simp: enqueueResend_def split: option.split)

lemma answer_ok [simp]: "daemon_ok (answer app r d) = daemon_ok d"
  by (auto simp: answer_def split: option.split sum.split)

lemma dispatchLocal_ok: "daemon_ok d \<Longrightarrow> daemon_ok (dispatchLocal E q r d)"
  by (simp add: dispatchLocal_def Let_def cancels_ok split: option.split)

lemma app_request_ok: "daemon_ok d \<Longrightarrow> daemon_ok (app_request E q i r d)"
  by (auto simp: app_request_def Let_def dispatchLocal_ok split: option.split)

lemma cleanup_ok:
  assumes ok: "daemon_ok d"
  shows "daemon_ok (cleanupForAppID app d)"
proof -
  let ?mine = "\<lambda>a. case arqMessages d a of None \<Rightarrow> False | Some m \<Rightarrow> AppID m = app"
  let ?ms = "List.map_filter (\<lambda>(s, a). arqMessages d a) (filter (\<lambda>(s, a). ?mine a) (arqSurbIDMap d))"
  have dist: "distinct (map fst (arqSurbIDMap d))" using ok by (simp add: daemon_ok_def core_ok_def)
  have "set ?ms = {m. \<exists>s a. map_of (arqSurbIDMap d) s = Some a \<and> arqMessages d a = Some m \<and> ?mine a}"
    using map_of_eq_Some_iff [OF dist] by (force simp: List.map_filter_def)
  from core_cleanup [OF ok [unfolded daemon_ok_def] this]
  have *: "core_ok (arqMessages d) (next_addr d) (filter (\<lambda>(s, a). \<not> ?mine a) (arqSurbIDMap d))
     (fold (\<lambda>m h. h(EnvelopeHash m := None)) ?ms (arqEnvelopeHashMap d)) (held d)" .
  have f: "daemon_ok (fold (\<lambda>m. cancel_timer (SURBID m)) xs e) = daemon_ok e" for xs and e :: "('a, 'b, 'c) daemon"
    by (induction xs arbitrary: e) simp_all
  show ?thesis
    unfolding cleanupForAppID_def Let_def f using * by (simp add: daemon_ok_def held_def case_prod_unfold)
qed

lemma failed_ok [simp]: "daemon_ok (failed_start app req code d) = daemon_ok d" "daemon_ok (failed_copy app req' code d) = daemon_ok d"
  by (simp_all add: failed_start_def failed_copy_def)

lemma alloc_ok:
  assumes ok: "daemon_ok d"
  shows "daemon_ok (d\<lparr>next_addr := Suc (next_addr d)\<rparr>)"
  using core_alloc [OF ok [unfolded daemon_ok_def], of "Suc (next_addr d)"] by (simp add: daemon_ok_def held_def)

lemma sent_ok:
  assumes "daemon_ok d" "fresh_surb (i_surb q) d" "arqSend q m d = Some d'" "EnvelopeHash m = h" "\<not> alive h d"
  shows "daemon_ok d'"
  using arqSend_ok [OF assms(1,2) _ assms(3)] assms(4,5) by simp

lemma start_ok:
  assumes ok: "daemon_ok d" and fresh: "fresh_surb (i_surb q) d" and new: "\<And>h. sr_EnvelopeHash req = Some h \<Longrightarrow> \<not> alive h d"
  shows "daemon_ok (startResendingEncryptedMessage E q app req d)"
proof (cases "validateStartResendingRequest req")
  case None
  with ok show ?thesis by (simp add: startResendingEncryptedMessage_def)
next
  case (Some r)
  then obtain qid h' where v: "validateStartResendingRequest req = Some (qid, h')" and h: "sr_EnvelopeHash req = Some h'"
    by (auto simp: validateStartResendingRequest_def split: option.splits if_splits)
  have "\<not> alive h' d" by (rule new [OF h])
  with ok v show ?thesis
    by (auto simp: startResendingEncryptedMessage_def split: option.split sum.split fail.split)
       (erule sent_ok [OF ok fresh], simp)
qed

lemma start_copy_ok:
  assumes ok: "daemon_ok d" and fresh: "fresh_surb (i_surb q) d"
    and new: "\<And>wc b. sc_WriteCap req = Some wc \<Longrightarrow> wc_MarshalBinary E wc = Some b \<Longrightarrow> \<not> alive (Sum256 (rpki (crep E)) b) d"
  shows "daemon_ok (startResendingCopyCommand E q app req d)"
  using ok
  by (auto simp: startResendingCopyCommand_def split: option.split sum.split fail.split)
     (erule sent_ok [OF ok fresh], simp, rule new, assumption+)

lemma doResend_ok:
  assumes ok: "daemon_ok d" and fresh: "fresh_surb (i_surb q) d"
  shows "daemon_ok (arqDoResend q ref d)"
proof (cases "map_of (arqSurbIDMap d) (snd ref)")
  case None
  with ok show ?thesis by (simp add: arqDoResend_def)
next
  case (Some a)
  then obtain m where m: "arqMessages d a = Some m" "snd (SURBID m) = snd ref" using daemon_ok_tracked [OF ok] by blast
  have gone: "daemon_ok (d\<lparr>arqSurbIDMap := AList.delete (snd ref) (arqSurbIDMap d), arqEnvelopeHashMap := (arqEnvelopeHashMap d)(EnvelopeHash m := None)\<rparr>)"
    using drop_ok [OF ok m(1) refl refl, of "snd ref"] Some m(2) by (simp add: dropARQMessage_def)
  have rotated: "daemon_ok (rotateARQSurbIDLocked a m (i_surb q) key rtt now d)" for key rtt now
    unfolding rotateARQSurbIDLocked_def by (rule rekey_ok [OF ok m(1) disjI2 [OF Some] _ fresh]) simp
  show ?thesis
    using Some m(1) gone rotated hold_ok(2) [OF ok Some] by (auto simp: arqDoResend_def Let_def split: option.split)
qed

lemma reschedule_ok:
  assumes ok: "daemon_ok d" and fresh: "fresh_surb (i_surb q) d"
  shows "daemon_ok (rescheduleARQAfterComposeFailure q d)"
proof (cases "in_resend d")
  case None
  with ok show ?thesis by (simp add: rescheduleARQAfterComposeFailure_def)
next
  case (Some a)
  then have held: "a \<in> held d" by (simp add: held_def)
  obtain m where m: "arqMessages d a = Some m" using daemon_ok_held [OF ok held] by blast
  have "daemon_ok (rekey a m (i_surb q) id d)" by (rule rekey_ok [OF ok m disjI1 [OF held] _ fresh]) simp
  with Some m show ?thesis by (simp add: rescheduleARQAfterComposeFailure_def release_resend_ok)
qed

lemma timer_fires_ok: "daemon_ok d \<Longrightarrow> daemon_ok (timer_fires now j d)"
  by (simp add: timer_fires_def)

lemma finish_ok [simp]: "daemon_ok (finishARQMessage m code p d) = daemon_ok d"
  by (simp add: finishARQMessage_def)

text \<open>A message being answered is held, whatever its state and its place in the maps.\<close>

lemma payload_ok:
  assumes ok: "daemon_ok d" and m: "arqMessages d a = Some m0" "SURBID m = SURBID m0" "EnvelopeHash m = EnvelopeHash m0"
    and held: "a \<in> held d"
  shows "daemon_ok (handlePayloadReply E q a m env d)"
proof -
  have "daemon_ok (dropARQMessage m d)" by (rule drop_ok [OF ok m disjI1 [OF held]])
  moreover have "daemon_ok (upd_message a (\<lambda>m. m\<lparr>arq_State := ARQStateWaitingForACK\<rparr>) d)"
    by (rule upd_message_ok [OF ok]) simp
  ultimately show ?thesis
    by (auto simp: handlePayloadReply_def Let_def scheduleARQFollowUp_def split: sum.split payloadErrorAction.split)
qed

lemma poll_ok:
  assumes ok: "daemon_ok d" and m: "arqMessages d a = Some m" and fresh: "fresh_surb (i_surb q) d"
  shows "daemon_ok (scheduleCopyCommandPoll q a m d)"
  using ok rekey_ok [OF ok m disjI2 _ fresh, of _ id] by (auto simp: scheduleCopyCommandPoll_def)

lemma copy_reply_ok:
  assumes ok: "daemon_ok d" and m: "arqMessages d a = Some m" and held: "a \<in> held d" and fresh: "fresh_surb (i_surb q) d"
  shows "daemon_ok (handleCopyCommandARQReply q a m r d)"
  using ok poll_ok [OF ok m fresh] drop_ok [OF ok m refl refl disjI1 [OF held]]
  by (auto simp: handleCopyCommandARQReply_def copy_finish_def split: option.split)

lemma held_upd_message [simp]: "held (upd_message a f d) = held d"
  by (simp add: held_def upd_message_def)

lemma envelope_reply_ok:
  assumes ok: "daemon_ok d" and m: "arqMessages d a = Some m" and held: "a \<in> held d"
  shows "daemon_ok (handleEnvelopeARQReply E q a m env d)"
proof -
  have upd: "daemon_ok (upd_message a (\<lambda>m. m\<lparr>arq_State := s\<rparr>) d)" for s
    by (rule upd_message_ok [OF ok]) simp
  have "daemon_ok (handlePayloadReply E q a (m\<lparr>arq_State := s\<rparr>) env (upd_message a (\<lambda>m. m\<lparr>arq_State := s\<rparr>) d))" for s
    by (rule payload_ok [OF upd, where ?m0.0 = "m\<lparr>arq_State := s\<rparr>"]) (use m held in \<open>simp_all add: upd_message_def held_def\<close>)
  with ok upd drop_ok [OF ok m refl refl disjI1 [OF held]] show ?thesis
    by (auto simp: handleEnvelopeARQReply_def Let_def scheduleARQFollowUp_def split: ARQAction.split)
qed

lemma arq_reply_ok:
  assumes ok: "daemon_ok d" and held: "a \<in> held d" and fresh: "fresh_surb (i_surb q) d"
  shows "daemon_ok (handlePigeonholeARQReply E open_surb q a c d)"
proof -
  obtain m where m: "arqMessages d a = Some m" using daemon_ok_held [OF ok held] by blast
  show ?thesis
    using m ok copy_reply_ok [OF ok m held fresh] envelope_reply_ok [OF ok m held] drop_ok [OF ok m refl refl disjI1 [OF held]]
    by (auto simp: handlePigeonholeARQReply_def split: option.split sum.split)
qed

lemma handleReply_ok:
  assumes ok: "daemon_ok d"
  shows "daemon_ok (handleReply open_surb s c d)"
proof -
  have "daemon_ok ((cancel_timer r d)\<lparr>in_reply := Some (a, c)\<rparr>)" if "map_of (arqSurbIDMap d) s = Some a" for a r
    using hold_ok(1) [of "cancel_timer r d" s a c] ok that by simp
  with ok show ?thesis by (auto simp: handleReply_def Let_def split: option.split)
qed

lemma single_ok: "daemon_ok d \<Longrightarrow> daemon_ok (send_single q loop app sm d)"
  by (simp add: send_single_def Let_def split: prod.split option.split)

lemma sendLoopDecoy_ok: "daemon_ok d \<Longrightarrow> daemon_ok (sendLoopDecoy E n q app d)"
  by (auto simp: sendLoopDecoy_def Let_def single_ok alloc_ok split: option.split sum.split prod.split)

lemma dispatchMixnet_ok:
  assumes ok: "daemon_ok d" and fresh: "fresh_surb (i_surb q) d" and new: "\<And>h. started_hash E r = Some h \<Longrightarrow> \<not> alive h d"
  shows "daemon_ok (dispatchMixnet E n q r d)"
proof -
  have "daemon_ok (startResendingEncryptedMessage E q app req d)" if "rq_StartResendingEncryptedMessage r = Some req" for app req
    by (rule start_ok [OF ok fresh]) (use new that in \<open>auto simp: started_hash_def\<close>)
  moreover have "daemon_ok (startResendingCopyCommand E q app req d)"
    if "rq_StartResendingEncryptedMessage r = None" "rq_StartResendingCopyCommand r = Some req" for app req
    by (rule start_copy_ok [OF ok fresh]) (use new that in \<open>auto simp: started_hash_def\<close>)
  ultimately show ?thesis
    using ok fresh by (simp add: dispatchMixnet_def Let_def doResend_ok single_ok sendLoopDecoy_ok split: option.split)
qed

lemma cleanup_after_ok: "daemon_ok d \<Longrightarrow> daemon_ok (cleanup_after r d)"
  by (auto simp: cleanup_after_def cleanup_ok split: option.split)

lemma collected_ok: "daemon_ok d \<Longrightarrow> daemon_ok (surb_collected now j d)"
  by (auto simp: surb_collected_def Let_def split: option.split)

lemma fresh_egress [simp]: "fresh_surb s (d\<lparr>egressCh := eg\<rparr>) = fresh_surb s d" "alive h (d\<lparr>egressCh := eg\<rparr>) = alive h d"
  by (simp_all add: fresh_surb_def alive_def)

lemma dispatch_step_ok:
  assumes ok: "daemon_ok d" and care: "careful E q Dispatch d"
  shows "daemon_ok (daemon_step E open_surb n q Dispatch d)"
proof (cases "egressCh d")
  case Nil
  with ok show ?thesis by (simp add: daemon_step_def)
next
  case (Cons r rest)
  have "daemon_ok (dispatchMixnet E n q r (d\<lparr>egressCh := rest\<rparr>))"
    by (rule dispatchMixnet_ok) (use ok care Cons in \<open>auto simp: careful_def\<close>)
  with ok Cons show ?thesis by (auto simp: daemon_step_def)
qed

lemma daemon_step_ok:
  assumes ok: "daemon_ok d" and care: "careful E q e d"
  shows "daemon_ok (daemon_step E open_surb n q e d)"
proof -
  have fresh: "fresh_surb (i_surb q) d" using care by (simp add: careful_def)
  show ?thesis
  proof (cases e)
    case Dispatch
    with dispatch_step_ok [OF ok] care show ?thesis by simp
  next
    case ReplyHandled
    have "daemon_ok ((handlePigeonholeARQReply E open_surb q a c d)\<lparr>in_reply := None\<rparr>)" if "in_reply d = Some (a, c)" for a c
      by (rule release_reply_ok [OF arq_reply_ok [OF ok _ fresh]]) (use that in \<open>simp add: held_def\<close>)
    with ok ReplyHandled show ?thesis by (auto simp: daemon_step_def split: option.split)
  qed (use ok fresh in \<open>auto simp: daemon_step_def app_request_ok cleanup_after_ok reschedule_ok timer_fires_ok handleReply_ok
        collected_ok split: prod.split option.split\<close>)
qed

lemma reachable_daemon_ok: "daemon_reach (careful E) E open_surb n d \<Longrightarrow> daemon_ok d"
proof (induction rule: daemon_reach.induct)
  case start
  show ?case by (simp add: daemon_ok_def core_ok_def new_daemon_def held_def)
next
  case (step d q e)
  then show ?case by (simp add: daemon_step_ok)
qed

end
