(* ===== verification/ClientArqLive.thy ===== *)
theory ClientArqLive
  imports ClientArqInv
begin

text \<open>
  No query is forgotten: as long as the connections of the applications with queries stay, a message that is tracked
  has a timer entry, a resend in the queue of its application's connection or on its way to the sender of packets,
  or is in the hands of a worker. The part about waiting is kept apart from who holds a message, so that an operation is
  described by the messages it stops or starts to wait for.
\<close>

section \<open>Waiting\<close>

definition queued_resend :: "bytes \<Rightarrow> bytes \<Rightarrow> ('q, 'r) listener \<Rightarrow> bool" where
  "queued_resend app s l = (case conns l app of None \<Rightarrow> False
     | Some i \<Rightarrow> (case conn_at l i of None \<Rightarrow> False | Some c \<Rightarrow> s \<in> snd ` set (resendCh c)))"

definition waiting :: "bytes \<Rightarrow> bytes \<Rightarrow> ('rc, 'wc, 'ix) daemon \<Rightarrow> bool" where
  "waiting app s d \<longleftrightarrow> (\<exists>e \<in> set (arqTimerQueue d). snd (snd e) = s) \<or> queued_resend app s (lst d)
     \<or> (\<exists>r \<in> set (egressCh d). map_option snd (rq_ResendARQ r) = Some s)"

definition waits :: "('rc, 'wc, 'ix) daemon \<Rightarrow> nat set \<Rightarrow> bool" where
  "waits d X \<longleftrightarrow> (\<forall>s a m. map_of (arqSurbIDMap d) s = Some a \<and> arqMessages d a = Some m \<and> a \<notin> X \<longrightarrow> waiting (AppID m) s d)"

definition undecided :: "'rc ARQMessage \<Rightarrow> bool" where
  "undecided m \<longleftrightarrow> arq_State m = ARQStateWaitingForACK \<or> arq_State m = ARQStateACKReceived"

definition open_only :: "('rc, 'wc, 'ix) daemon \<Rightarrow> nat set \<Rightarrow> bool" where
  "open_only d Y \<longleftrightarrow> (\<forall>s a m. map_of (arqSurbIDMap d) s = Some a \<and> arqMessages d a = Some m \<and> a \<notin> Y \<longrightarrow> undecided m)"

definition linked :: "('rc, 'wc, 'ix) daemon \<Rightarrow> bool" where
  "linked d \<longleftrightarrow> listener_ok (lst d) \<and> (\<forall>s a m. map_of (arqSurbIDMap d) s = Some a \<and> arqMessages d a = Some m \<longrightarrow>
     getConnection (AppID m) (lst d) \<noteq> None)"

lemma waits_mono: "waits d X \<Longrightarrow> X \<subseteq> Y \<Longrightarrow> waits d Y"
  unfolding waits_def by blast

lemma waits_insert:
  assumes w: "waits d (insert a X)" and a: "\<And>s m. map_of (arqSurbIDMap d) s = Some a \<Longrightarrow> arqMessages d a = Some m \<Longrightarrow> waiting (AppID m) s d"
  shows "waits d X"
  unfolding waits_def
proof (intro allI impI, elim conjE)
  fix s b m assume "map_of (arqSurbIDMap d) s = Some b" "arqMessages d b = Some m" "b \<notin> X"
  with w a show "waiting (AppID m) s d" unfolding waits_def by (cases "b = a") auto
qed

text \<open>An operation that leaves the maps alone and removes nothing that is waited for.\<close>

lemma waits_keep:
  assumes "waits d X" "arqSurbIDMap d' = arqSurbIDMap d" "arqMessages d' = arqMessages d"
    and "\<And>app s. waiting app s d \<Longrightarrow> waiting app s d'"
  shows "waits d' X"
  using assms unfolding waits_def by metis

lemma queued_upd:
  "queued_resend app s l \<Longrightarrow> (\<And>c. set (resendCh c) \<subseteq> set (resendCh (f c))) \<Longrightarrow> queued_resend app s (upd_conn i f l)"
  by (fastforce simp: queued_resend_def conn_at_upd split: option.splits)

lemma conns_respond [simp]: "conns (lst (respond app r d)) = conns (lst d)"
  by (simp add: respond_def sendResponse_def split: option.split)

lemma waiting_respond: "waiting app s d \<Longrightarrow> waiting app s (respond app' r d)"
  by (auto simp: waiting_def respond_def sendResponse_def split: option.split intro!: queued_upd)

lemma waits_respond: "waits d X \<Longrightarrow> waits (respond app r d) X"
  by (erule waits_keep) (simp_all add: waiting_respond)

lemma waits_push: "waits d X \<Longrightarrow> waits (push_timer at ref d) X"
  by (erule waits_keep) (auto simp: waiting_def push_timer_def)

lemma waits_push_for:
  assumes w: "waits d (insert a X)" and ok: "daemon_ok d" and s: "map_of (arqSurbIDMap d) (snd ref) = Some a"
  shows "waits (push_timer at ref d) X"
proof (rule waits_insert [OF waits_push [OF w]])
  fix s' m assume "map_of (arqSurbIDMap (push_timer at ref d)) s' = Some a"
  with s have "s' = snd ref" using daemon_ok_tracked [OF ok] by (metis option.inject timer_fields(3))
  then show "waiting (AppID m) s' (push_timer at ref d)" by (simp add: waiting_def push_timer_def)
qed

lemma upd_message_maps [simp]: "arqSurbIDMap (upd_message a f d) = arqSurbIDMap d"
  by (simp add: upd_message_def)

lemma waits_upd_message:
  assumes w: "waits d X" and f: "\<And>m. AppID (f m) = AppID m"
  shows "waits (upd_message a f d) X"
  unfolding waits_def
proof (intro allI impI, elim conjE)
  fix s b m assume b: "map_of (arqSurbIDMap (upd_message a f d)) s = Some b" "arqMessages (upd_message a f d) b = Some m" "b \<notin> X"
  then obtain m0 where "arqMessages d b = Some m0" "AppID m0 = AppID m"
    using f by (auto simp: upd_message_def split: if_splits)
  with w b have "waiting (AppID m) s d" unfolding waits_def by (metis (no_types) upd_message_maps)
  then show "waiting (AppID m) s (upd_message a f d)" by (simp add: waiting_def upd_message_def)
qed

lemma waits_egress: "waits d X \<Longrightarrow> waits (d\<lparr>egressCh := egressCh d @ rs\<rparr>) X"
  by (erule waits_keep) (auto simp: waiting_def)

lemma cancel_timer_keeps:
  assumes e: "e \<in> set (arqTimerQueue d)" "snd e \<noteq> ref"
  shows "e \<in> set (arqTimerQueue (cancel_timer ref d))"
proof -
  let ?q = "arqTimerQueue d" and ?P = "\<lambda>e :: int \<times> surb_ref. snd e \<noteq> ref"
  have "e \<in> set (takeWhile ?P ?q @ dropWhile ?P ?q)" using e by simp
  moreover have "e \<in> set (tl (dropWhile ?P ?q))" if "e \<in> set (dropWhile ?P ?q)"
    using that e(2) hd_dropWhile [of ?P ?q] by (cases "dropWhile ?P ?q") auto
  ultimately show ?thesis unfolding cancel_timer_def by (simp del: takeWhile_dropWhile_id) blast
qed

text \<open>Only the message whose timer it is stops waiting.\<close>

lemma waits_cancel:
  assumes w: "waits d X" and a: "\<And>a. map_of (arqSurbIDMap d) (snd ref) = Some a \<Longrightarrow> a \<in> X"
  shows "waits (cancel_timer ref d) X"
  unfolding waits_def
proof (intro allI impI, elim conjE)
  fix s b m assume b: "map_of (arqSurbIDMap (cancel_timer ref d)) s = Some b" "arqMessages (cancel_timer ref d) b = Some m" "b \<notin> X"
  then have "s \<noteq> snd ref" using a by auto
  moreover have "waiting (AppID m) s d" using w b by (auto simp: waits_def)
  moreover have "egressCh (cancel_timer ref d) = egressCh d" "lst (cancel_timer ref d) = lst d" by simp_all
  ultimately show "waiting (AppID m) s (cancel_timer ref d)"
    unfolding waiting_def by (metis cancel_timer_keeps)
qed


lemma waits_untrack:
  assumes "waits d X" "map_of T \<subseteq>\<^sub>m map_of (arqSurbIDMap d)"
  shows "waits (d\<lparr>arqSurbIDMap := T, arqEnvelopeHashMap := H\<rparr>) X"
  using assms unfolding waits_def by (fastforce simp: map_le_def waiting_def dom_def)

lemma waits_untracked:
  assumes w: "waits d (insert a X)" and a: "\<And>s. map_of (arqSurbIDMap d) s \<noteq> Some a"
  shows "waits d X"
  using w by (rule waits_insert) (use a in simp)

lemma tracked_key:
  "daemon_ok d \<Longrightarrow> arqMessages d a = Some m \<Longrightarrow> map_of (arqSurbIDMap d) s = Some a \<Longrightarrow> s = snd (SURBID m)"
  using daemon_ok_tracked [of d s a] by auto

lemma tracked_at:
  "daemon_ok d \<Longrightarrow> arqMessages d a = Some m \<Longrightarrow> map_of (arqSurbIDMap d) (snd (SURBID m)) = Some b \<Longrightarrow> b = a"
  unfolding daemon_ok_def using core_key by blast

lemma delete_le: "map_of (AList.delete k T) \<subseteq>\<^sub>m map_of T"
  by (auto simp: map_le_def map_of_delete)

text \<open>What becomes of a message: it is forgotten, it gets a new SURB ID and a timer, or its resend is enqueued.\<close>

lemma waits_drop:
  assumes w: "waits d (insert a X)" and ok: "daemon_ok d" and m: "arqMessages d a = Some m0" "SURBID m = SURBID m0"
  shows "waits (dropARQMessage m d) X"
proof -
  have "waits (dropARQMessage m d) (insert a X)"
    unfolding dropARQMessage_def by (rule waits_untrack [OF w delete_le])
  then show ?thesis
    by (rule waits_untracked) (use tracked_key [OF ok m(1)] m(2) in \<open>auto simp: dropARQMessage_def map_of_delete\<close>)
qed

lemma waits_rekey:
  assumes w: "waits d (insert a X)" and ok: "daemon_ok (rekey a m surb f d)"
  shows "waits (push_timer at (next_addr d, surb) (rekey a m surb f d)) X"
proof (rule waits_push_for [OF _ ok])
  show "waits (rekey a m surb f d) (insert a X)"
    unfolding waits_def
  proof (intro allI impI, elim conjE)
    fix s b m' assume b: "map_of (arqSurbIDMap (rekey a m surb f d)) s = Some b" "arqMessages (rekey a m surb f d) b = Some m'" "b \<notin> insert a X"
    then have "map_of (arqSurbIDMap d) s = Some b" "arqMessages d b = Some m'"
      by (auto simp: rekey_def Let_def map_of_update map_of_delete split: if_splits)
    with w b(3) have "waiting (AppID m') s d" unfolding waits_def by blast
    then show "waiting (AppID m') s (rekey a m surb f d)" by (simp add: waiting_def rekey_def Let_def)
  qed
  show "map_of (arqSurbIDMap (rekey a m surb f d)) (snd (next_addr d, surb)) = Some a"
    by (simp add: rekey_def Let_def map_of_update)
qed

lemma queue_resend_keeps: "waits d X \<Longrightarrow> waits (d\<lparr>lst := queue_resend i ref (lst d)\<rparr>) X"
  by (erule waits_keep) (auto simp: waiting_def queue_resend_def intro!: queued_upd)

lemma queue_resend_waits:
  "getConnection app (lst d) = Some i \<Longrightarrow> resend_room i (lst d) \<Longrightarrow> waiting app (snd ref) (d\<lparr>lst := queue_resend i ref (lst d)\<rparr>)"
  by (auto simp: waiting_def queued_resend_def getConnection_def queue_resend_def resend_room_def conn_at_upd split: option.splits)

lemma waits_enqueue: "waits d X \<Longrightarrow> waits (enqueueResend now ref d) X"
  by (simp add: enqueueResend_def queue_resend_keeps waits_push split: option.split)

lemma waits_enqueue_for:
  assumes w: "waits d (insert a X)" and ok: "daemon_ok d" and m: "arqMessages d a = Some m" "snd ref = snd (SURBID m)"
    and conn: "map_of (arqSurbIDMap d) (snd ref) = Some a \<Longrightarrow> getConnection (AppID m) (lst d) \<noteq> None"
  shows "waits (enqueueResend now ref d) X"
proof (cases "map_of (arqSurbIDMap d) (snd ref) = Some a")
  case True
  then obtain i where i: "getConnection (AppID m) (lst d) = Some i" using conn by blast
  show ?thesis
  proof (cases "resend_room i (lst d)")
    case room: True
    let ?d = "d\<lparr>lst := queue_resend i ref (lst d)\<rparr>"
    have "waiting (AppID m) (snd ref) ?d" by (rule queue_resend_waits [OF i room])
    moreover have "s = snd ref" if "map_of (arqSurbIDMap ?d) s = Some a" for s
      using tracked_key [OF ok m(1)] m(2) that by simp
    ultimately have "waits ?d X"
      using m(1) by (intro waits_insert [OF queue_resend_keeps [OF w]]) auto
    with True i room m(1) show ?thesis by (simp add: enqueueResend_def)
  next
    case False
    with waits_push_for [OF w ok True, of "now + resendQueueFullBackoff"] True i m(1) show ?thesis
      by (simp add: enqueueResend_def)
  qed
next
  case False
  then have "map_of (arqSurbIDMap d) (snd ref) = None"
    using tracked_at [OF ok m(1)] m(2) by (cases "map_of (arqSurbIDMap d) (snd ref)") auto
  moreover have "map_of (arqSurbIDMap d) s \<noteq> Some a" for s
    using False tracked_key [OF ok m(1)] m(2) by metis
  ultimately show ?thesis using waits_untracked [OF w] by (simp add: enqueueResend_def)
qed


section \<open>Connections and states\<close>

text \<open>No message becomes tracked that was not, and each stays with its application.\<close>

definition no_new :: "('rc, 'wc, 'ix) daemon \<Rightarrow> ('rc, 'wc, 'ix) daemon \<Rightarrow> nat set \<Rightarrow> bool" where
  "no_new d d' Y \<longleftrightarrow> (\<forall>s a m'. map_of (arqSurbIDMap d') s = Some a \<and> arqMessages d' a = Some m' \<longrightarrow>
     (\<exists>s m. map_of (arqSurbIDMap d) s = Some a \<and> arqMessages d a = Some m \<and> AppID m' = AppID m \<and> (a \<notin> Y \<longrightarrow> arq_State m' = arq_State m)))"

lemma linked_step:
  "linked d \<Longrightarrow> no_new d d' Y \<Longrightarrow> listener_ok (lst d') \<Longrightarrow>
     (\<And>app. getConnection app (lst d) \<noteq> None \<Longrightarrow> getConnection app (lst d') \<noteq> None) \<Longrightarrow> linked d'"
  unfolding linked_def no_new_def by metis

lemma open_step: "open_only d Y \<Longrightarrow> no_new d d' Y \<Longrightarrow> open_only d' Y"
  unfolding open_only_def no_new_def undecided_def by metis

lemma no_new_same:
  "arqSurbIDMap d' = arqSurbIDMap d \<Longrightarrow> arqMessages d' = arqMessages d \<Longrightarrow> no_new d d' Y"
  unfolding no_new_def by auto

lemma no_new_drop: "no_new d (dropARQMessage m d) Y"
  by (auto simp: no_new_def dropARQMessage_def map_of_delete split: if_splits)

lemma no_new_rekey:
  assumes "map_of (arqSurbIDMap d) s = Some a" "arqMessages d a = Some m" "AppID (f m) = AppID m" "arq_State (f m) = arq_State m"
  shows "no_new d (rekey a m surb f d) Y"
  using assms unfolding no_new_def rekey_def Let_def by (auto simp: map_of_delete map_of_update split: if_splits)

lemma no_new_upd: "(\<And>m. AppID (f m) = AppID m) \<Longrightarrow> a \<in> Y \<Longrightarrow> no_new d (upd_message a f d) Y"
  unfolding no_new_def upd_message_def by (auto split: if_splits)

lemma open_drop:
  assumes w: "open_only d (insert a Y)" and ok: "daemon_ok d" and m: "arqMessages d a = Some m0" "SURBID m = SURBID m0"
  shows "open_only (dropARQMessage m d) Y"
proof -
  have "map_of (arqSurbIDMap (dropARQMessage m d)) s \<noteq> Some a" for s
    using tracked_key [OF ok m(1)] m(2) by (auto simp: dropARQMessage_def map_of_delete)
  with open_step [OF w no_new_drop] show ?thesis unfolding open_only_def by (metis insert_iff)
qed

lemma open_upd:
  assumes "open_only d (insert a Y)" "\<And>m. undecided (f m)"
  shows "open_only (upd_message a f d) Y"
  using assms unfolding open_only_def by (auto simp: upd_message_def)

lemma lst_upd [simp]: "lst (upd_message a f d) = lst d" "lst (dropARQMessage m d) = lst d" "lst (rekey a m surb f d) = lst d"
  by (simp_all add: upd_message_def dropARQMessage_def rekey_def Let_def)

lemma respond_listener_ok: "listener_ok (lst d) \<Longrightarrow> listener_ok (lst (respond app r d))"
  by (simp add: respond_def sendResponse_ok split: option.split)

text \<open>The three parts together: the exceptions are messages that do not wait, and those whose outcome is known.\<close>

definition live_but :: "('rc, 'wc, 'ix) daemon \<Rightarrow> nat set \<Rightarrow> nat set \<Rightarrow> bool" where
  "live_but d X Y \<longleftrightarrow> daemon_ok d \<and> linked d \<and> waits d X \<and> open_only d Y"

lemma live_respond [simp]:
  assumes "live_but d X Y" shows "live_but (respond app r d) X Y"
proof -
  have nn: "no_new d (respond app r d) Y" by (rule no_new_same) simp_all
  have "linked (respond app r d)"
    by (rule linked_step [OF _ nn]) (use assms in \<open>auto simp: live_but_def linked_def getConnection_def respond_listener_ok\<close>)
  with assms open_step [OF _ nn] show ?thesis by (simp add: live_but_def waits_respond)
qed

lemma live_drop:
  assumes l: "live_but d (insert a X) (insert a Y)" and m: "arqMessages d a = Some m0" "SURBID m = SURBID m0" "EnvelopeHash m = EnvelopeHash m0"
    and al: "a \<in> held d \<or> map_of (arqSurbIDMap d) s = Some a"
  shows "live_but (dropARQMessage m d) X Y"
proof -
  have "linked (dropARQMessage m d)"
    by (rule linked_step [OF _ no_new_drop]) (use l in \<open>auto simp: live_but_def linked_def\<close>)
  with l drop_ok [OF _ m al] waits_drop [OF _ _ m(1,2)] open_drop [OF _ _ m(1,2)] show ?thesis
    by (simp add: live_but_def)
qed

lemma live_enqueue_for:
  assumes l: "live_but d (insert a X) Y" and m: "arqMessages d a = Some m" "snd ref = snd (SURBID m)"
  shows "live_but (enqueueResend now ref d) X Y"
proof -
  have c: "getConnection (AppID m) (lst d) \<noteq> None" if "map_of (arqSurbIDMap d) (snd ref) = Some a"
    using l m(1) that unfolding live_but_def linked_def by blast
  have nn: "no_new d (enqueueResend now ref d) Y"
    by (rule no_new_same) (auto simp: enqueueResend_def split: option.split)
  have "listener_ok (lst (enqueueResend now ref d))" "conns (lst (enqueueResend now ref d)) = conns (lst d)"
    using l by (auto simp: live_but_def linked_def enqueueResend_def queue_resend_def intro!: upd_conn_ok split: option.split)
  then have "linked (enqueueResend now ref d)"
    by (intro linked_step [OF _ nn]) (use l in \<open>auto simp: live_but_def getConnection_def\<close>)
  with l waits_enqueue_for [OF _ _ m c] open_step [OF _ nn] show ?thesis by (simp add: live_but_def)
qed

lemma live_rekey:
  assumes l: "live_but d (insert a X) Y" and s: "map_of (arqSurbIDMap d) s = Some a" and m: "arqMessages d a = Some m"
    and f: "\<And>m. EnvelopeHash (f m) = EnvelopeHash m \<and> AppID (f m) = AppID m \<and> arq_State (f m) = arq_State m" and fresh: "fresh_surb surb d"
  shows "live_but (push_timer at (next_addr d, surb) (rekey a m surb f d)) X Y"
proof -
  have ok: "daemon_ok (rekey a m surb f d)"
    by (rule rekey_ok [OF _ m disjI2 [OF s] _ fresh]) (use l f in \<open>auto simp: live_but_def\<close>)
  have nn: "no_new d (push_timer at (next_addr d, surb) (rekey a m surb f d)) Y"
    using no_new_rekey [OF s m, of f surb Y] f by (simp add: no_new_def)
  have "linked (push_timer at (next_addr d, surb) (rekey a m surb f d))"
    by (rule linked_step [OF _ nn]) (use l in \<open>auto simp: live_but_def linked_def\<close>)
  with ok l waits_rekey [OF _ ok] open_step [OF _ nn] show ?thesis by (simp add: live_but_def)
qed

lemma live_upd:
  assumes l: "live_but d X (insert a Y)" and f: "\<And>m. SURBID (f m) = SURBID m \<and> EnvelopeHash (f m) = EnvelopeHash m \<and> AppID (f m) = AppID m"
  shows "live_but (upd_message a f d) X (insert a Y)" "(\<And>m. undecided (f m)) \<Longrightarrow> live_but (upd_message a f d) X Y"
proof -
  have ok: "daemon_ok (upd_message a f d)" by (rule upd_message_ok) (use l f in \<open>auto simp: live_but_def\<close>)
  have nn: "no_new d (upd_message a f d) (insert a Y)" by (rule no_new_upd) (use f in auto)
  have "linked (upd_message a f d)" by (rule linked_step [OF _ nn]) (use l in \<open>auto simp: live_but_def linked_def\<close>)
  then show "live_but (upd_message a f d) X (insert a Y)" "(\<And>m. undecided (f m)) \<Longrightarrow> live_but (upd_message a f d) X Y"
    using ok l f waits_upd_message [of d X f a] open_step [OF _ nn] open_upd [of d a Y f] by (simp_all add: live_but_def)
qed


lemma live_mono: "live_but d X Y \<Longrightarrow> X \<subseteq> X' \<Longrightarrow> Y \<subseteq> Y' \<Longrightarrow> live_but d X' Y'"
  unfolding live_but_def waits_def open_only_def by blast

lemma live_untracked:
  assumes "live_but d (insert a X) Y" "arqMessages d a = Some m" "map_of (arqSurbIDMap d) (snd (SURBID m)) \<noteq> Some a"
  shows "live_but d X Y"
proof -
  have "waits d X"
    by (rule waits_untracked) (use assms tracked_key [of d a m] in \<open>auto simp: live_but_def\<close>)
  with assms(1) show ?thesis by (simp add: live_but_def)
qed

section \<open>A reply is handled\<close>

lemma live_finish [simp]: "live_but d X Y \<Longrightarrow> live_but (finishARQMessage m code p d) X Y"
  by (simp add: finishARQMessage_def)

lemma payload_live:
  assumes l: "live_but d (insert a X) (insert a Y)" and m: "arqMessages d a = Some m0" "SURBID m = SURBID m0" "EnvelopeHash m = EnvelopeHash m0"
    and held: "a \<in> held d"
  shows "live_but (handlePayloadReply E q a m env d) X Y"
proof -
  have drop: "live_but (dropARQMessage m d) X Y" by (rule live_drop [OF l m disjI1 [OF held]])
  have "live_but (upd_message a (\<lambda>m. m\<lparr>arq_State := ARQStateWaitingForACK\<rparr>) d) (insert a X) Y"
    by (rule live_upd(2) [OF l]) (simp_all add: undecided_def)
  then have "live_but (enqueueResend now (SURBID m) (upd_message a (\<lambda>m. m\<lparr>arq_State := ARQStateWaitingForACK\<rparr>) d)) X Y" for now
    by (rule live_enqueue_for [where m = "m0\<lparr>arq_State := ARQStateWaitingForACK\<rparr>"]) (use m in \<open>simp_all add: upd_message_def\<close>)
  with drop show ?thesis
    by (auto simp: handlePayloadReply_def Let_def scheduleARQFollowUp_def split: sum.split payloadErrorAction.split)
qed

lemma envelope_live:
  assumes l: "live_but d (insert a X) Y" and m: "arqMessages d a = Some m" and held: "a \<in> held d" and Y: "a \<notin> Y"
  shows "live_but (handleEnvelopeARQReply E q a m env d) X Y"
proof -
  let ?t = "computeARQStateTransition (arq_State m) (cer_ReplyType env) (courierEnvelopeErrorToThinError (cer_ErrorCode env))
                (IsRead m) (NoIdempotentBoxAlreadyExists m)"
  have l': "live_but d (insert a X) (insert a Y)" by (rule live_mono [OF l]) auto
  have drop: "live_but (dropARQMessage m d) X Y" by (rule live_drop [OF l' m refl refl disjI1 [OF held]])
  have payload: "live_but (handlePayloadReply E q a (m\<lparr>arq_State := NewState ?t\<rparr>) env (upd_message a (\<lambda>m. m\<lparr>arq_State := NewState ?t\<rparr>) d)) X Y"
    by (rule payload_live [where ?m0.0 = "m\<lparr>arq_State := NewState ?t\<rparr>"], rule live_upd(1) [OF l'])
       (use m held in \<open>simp_all add: upd_message_def held_def\<close>)
  have again: "live_but (enqueueResend now (SURBID m) (upd_message a (\<lambda>m. m\<lparr>arq_State := NewState ?t\<rparr>) d)) X Y"
    if "Action ?t = ARQActionSendNewSURB" for now
  proof (rule live_enqueue_for)
    have "NewState ?t = ARQStateACKReceived"
      using that by (auto simp: computeARQStateTransition_def transition_to_def split: if_splits)
    then show "live_but (upd_message a (\<lambda>m. m\<lparr>arq_State := NewState ?t\<rparr>) d) (insert a X) Y"
      by (intro live_upd(2) [OF l']) (simp_all add: undecided_def)
    show "arqMessages (upd_message a (\<lambda>m. m\<lparr>arq_State := NewState ?t\<rparr>) d) a = Some (m\<lparr>arq_State := NewState ?t\<rparr>)"
      "snd (SURBID m) = snd (SURBID (m\<lparr>arq_State := NewState ?t\<rparr>))" using m by (simp_all add: upd_message_def)
  qed
  have ignore: "live_but d X Y" if "Action ?t = ARQActionIgnore"
  proof (rule live_untracked [OF l m], rule notI)
    assume "map_of (arqSurbIDMap d) (snd (SURBID m)) = Some a"
    then have "undecided m" using l m Y unfolding live_but_def open_only_def by blast
    with that show False
      by (auto simp: undecided_def computeARQStateTransition_def transition_to_def split: if_splits)
  qed
  show ?thesis
    using drop payload again ignore l
    by (auto simp: handleEnvelopeARQReply_def Let_def scheduleARQFollowUp_def split: ARQAction.split)
qed


lemma copy_live:
  assumes l: "live_but d (insert a X) Y" and m: "arqMessages d a = Some m" and held: "a \<in> held d" and fresh: "fresh_surb (i_surb q) d"
    and proper: "map_of (arqSurbIDMap d) (snd (SURBID m)) = Some a \<Longrightarrow> cqr_CopyCommandReply r \<noteq> None \<and> cqr_ReplyType r = 1"
  shows "live_but (handleCopyCommandARQReply q a m r d) X Y"
proof -
  have drop: "live_but (dropARQMessage m d) X Y"
    by (rule live_drop [OF live_mono [OF l] m refl refl disjI1 [OF held]]) auto
  have poll: "live_but (scheduleCopyCommandPoll q a m d) X Y"
    using live_untracked [OF l m] live_rekey [OF l _ m, of _ id] fresh by (auto simp: scheduleCopyCommandPoll_def)
  have "live_but d X Y" if "cqr_CopyCommandReply r = None \<or> cqr_ReplyType r \<noteq> 1"
    using that proper by (intro live_untracked [OF l m]) auto
  with drop poll show ?thesis
    by (auto simp: handleCopyCommandARQReply_def copy_finish_def split: option.split)
qed

text \<open>The courier answers a copy command with a copy command's reply, when the command is still wanted.\<close>

definition proper_reply :: "(bytes \<Rightarrow> bytes \<Rightarrow> bytes option) \<Rightarrow> nat \<Rightarrow> bytes \<Rightarrow> ('rc, 'wc, 'ix) daemon \<Rightarrow> bool" where
  "proper_reply open_surb a c d \<longleftrightarrow> (case arqMessages d a of None \<Rightarrow> True
     | Some m \<Rightarrow> MessageType m \<noteq> ARQMessageTypeCopyCommand \<or> map_of (arqSurbIDMap d) (snd (SURBID m)) \<noteq> Some a \<or>
         (case open_surb c (SURBDecryptionKeys m) of None \<Rightarrow> True
          | Some p \<Rightarrow> (case ParseCourierQueryReply p of Inl _ \<Rightarrow> True
              | Inr r \<Rightarrow> cqr_CopyCommandReply r \<noteq> None \<and> cqr_ReplyType r = 1)))"

lemma arq_reply_live:
  assumes l: "live_but d (insert a X) {}" and held: "a \<in> held d" and fresh: "fresh_surb (i_surb q) d"
    and proper: "proper_reply open_surb a c d"
  shows "live_but (handlePigeonholeARQReply E open_surb q a c d) X {}"
proof -
  obtain m where m: "arqMessages d a = Some m" using daemon_ok_held [OF _ held] l unfolding live_but_def by blast
  have drop: "live_but (dropARQMessage m d) X {}"
    by (rule live_drop [OF live_mono [OF l] m refl refl disjI1 [OF held]]) auto
  have away: "live_but d X {}" if "getConnection (AppID m) (lst d) = None"
  proof (rule live_untracked [OF l m], rule notI)
    assume "map_of (arqSurbIDMap d) (snd (SURBID m)) = Some a"
    with l m that show False unfolding live_but_def linked_def by blast
  qed
  have copy: "live_but (handleCopyCommandARQReply q a m r d) X {}"
    if "MessageType m = ARQMessageTypeCopyCommand" "open_surb c (SURBDecryptionKeys m) = Some p" "ParseCourierQueryReply p = Inr r" for p r
    by (rule copy_live [OF l m held fresh]) (use proper m that in \<open>auto simp: proper_reply_def\<close>)
  show ?thesis
    using m drop away copy envelope_live [OF l m held]
    by (auto simp: handlePigeonholeARQReply_def split: option.split sum.split)
qed

section \<open>The other steps\<close>

lemma live_fields [simp]:
  "live_but (d\<lparr>replies := rs\<rparr>) X Y = live_but d X Y" "live_but (d\<lparr>decoys := ds\<rparr>) X Y = live_but d X Y"
  "live_but (d\<lparr>timerQueue := tq\<rparr>) X Y = live_but d X Y" "live_but (d\<lparr>packets := ps\<rparr>) X Y = live_but d X Y"
  by (simp_all add: live_but_def linked_def waits_def waiting_def open_only_def)

lemma live_frame:
  assumes "live_but d X Y" "daemon_ok d'" "lst d' = lst d" "arqSurbIDMap d' = arqSurbIDMap d" "arqMessages d' = arqMessages d"
    "arqTimerQueue d' = arqTimerQueue d" "egressCh d' = egressCh d"
  shows "live_but d' X Y"
proof -
  have "linked d' = linked d" "waits d' X = waits d X" "open_only d' Y = open_only d Y"
    using assms(3-7) by (simp_all add: linked_def waits_def waiting_def open_only_def)
  with assms(1,2) show ?thesis by (simp add: live_but_def)
qed

lemma live_daemon_ok: "live_but d X Y \<Longrightarrow> daemon_ok d"
  by (simp add: live_but_def)

lemma live_release:
  assumes "live_but d X Y" shows "live_but (d\<lparr>in_reply := None\<rparr>) X Y" "live_but (d\<lparr>in_resend := None\<rparr>) X Y"
  by (rule live_frame [OF assms], rule release_reply_ok release_resend_ok, rule live_daemon_ok [OF assms], simp_all)+

lemma live_hold:
  assumes l: "live_but d X Y" and s: "map_of (arqSurbIDMap d) s = Some a"
  shows "live_but (d\<lparr>in_reply := Some (a, c)\<rparr>) X Y" "live_but (d\<lparr>in_resend := Some a\<rparr>) X Y"
  by (rule live_frame [OF l], rule hold_ok [OF live_daemon_ok [OF l] s], simp_all)+

lemma live_cancel:
  assumes l: "live_but d X Y" and a: "\<And>a. map_of (arqSurbIDMap d) (snd ref) = Some a \<Longrightarrow> a \<in> X"
  shows "live_but (cancel_timer ref d) X Y"
proof -
  have nn: "no_new d (cancel_timer ref d) Y" by (rule no_new_same) simp_all
  have "linked (cancel_timer ref d)" by (rule linked_step [OF _ nn]) (use l in \<open>auto simp: live_but_def linked_def\<close>)
  moreover have "waits (cancel_timer ref d) X" by (rule waits_cancel [OF _ a]) (use l in \<open>simp add: live_but_def\<close>)
  ultimately show ?thesis using l open_step [OF _ nn] by (simp add: live_but_def)
qed

text \<open>A step of the listener, which keeps the connections that are needed and their resends.\<close>

lemma live_lst:
  assumes l: "live_but d X Y" and ok: "listener_ok l'"
    and kept: "\<And>s a m. map_of (arqSurbIDMap d) s = Some a \<Longrightarrow> arqMessages d a = Some m \<Longrightarrow> getConnection (AppID m) (lst d) \<noteq> None \<Longrightarrow>
      getConnection (AppID m) l' \<noteq> None \<and> (queued_resend (AppID m) s (lst d) \<longrightarrow> queued_resend (AppID m) s l' \<or> (\<exists>r \<in> set rs. map_option snd (rq_ResendARQ r) = Some s))"
  shows "live_but (d\<lparr>lst := l', egressCh := egressCh d @ rs\<rparr>) X Y"
proof -
  let ?d = "d\<lparr>lst := l', egressCh := egressCh d @ rs\<rparr>"
  have conn: "getConnection (AppID m) (lst d) \<noteq> None" if "map_of (arqSurbIDMap d) s = Some a" "arqMessages d a = Some m" for s a m
    using l that unfolding live_but_def linked_def by blast
  have "linked ?d" using kept conn ok unfolding linked_def by auto
  moreover have "waits ?d X"
    unfolding waits_def
  proof (intro allI impI, elim conjE)
    fix s a m assume a: "map_of (arqSurbIDMap ?d) s = Some a" "arqMessages ?d a = Some m" "a \<notin> X"
    with l have "waiting (AppID m) s d" by (auto simp: live_but_def waits_def)
    with kept [of s a m] conn a show "waiting (AppID m) s ?d" unfolding waiting_def by auto
  qed
  ultimately show ?thesis using l by (simp add: live_but_def open_only_def)
qed

lemma live_lst_only:
  assumes "live_but d X Y" "listener_ok l'"
    and "\<And>s a m. map_of (arqSurbIDMap d) s = Some a \<Longrightarrow> arqMessages d a = Some m \<Longrightarrow> getConnection (AppID m) (lst d) \<noteq> None \<Longrightarrow>
      getConnection (AppID m) l' \<noteq> None \<and> (queued_resend (AppID m) s (lst d) \<longrightarrow> queued_resend (AppID m) s l')"
  shows "live_but (d\<lparr>lst := l'\<rparr>) X Y"
  using live_lst [OF assms(1,2), of "[]"] assms(3) by simp

lemma live_enqueue:
  assumes l: "live_but d X Y"
  shows "live_but (enqueueResend now ref d) X Y"
proof -
  have nn: "no_new d (enqueueResend now ref d) Y" by (rule no_new_same) (auto simp: enqueueResend_def split: option.split)
  have "listener_ok (lst (enqueueResend now ref d))" "conns (lst (enqueueResend now ref d)) = conns (lst d)"
    using l by (auto simp: live_but_def linked_def enqueueResend_def queue_resend_def intro!: upd_conn_ok split: option.split)
  then have "linked (enqueueResend now ref d)"
    by (intro linked_step [OF _ nn]) (use l in \<open>auto simp: live_but_def getConnection_def\<close>)
  moreover have "waits (enqueueResend now ref d) X" by (rule waits_enqueue) (use l in \<open>simp add: live_but_def\<close>)
  ultimately show ?thesis using l open_step [OF _ nn] by (simp add: live_but_def)
qed

end
