(* ===== verification/ClientArqKept.thy ===== *)
theory ClientArqKept
  imports ClientArqLive
begin

text \<open>
  Every step of the client daemon keeps track of the queries of the applications that stay connected: the
  conditions on the environment, the steps in the order of the model, and the states reached.
\<close>

section \<open>What the environment keeps to\<close>

definition busy_on :: "nat \<Rightarrow> ('rc, 'wc, 'ix) daemon \<Rightarrow> bool" where
  "busy_on i d \<longleftrightarrow> (\<exists>a \<in> snd ` set (arqSurbIDMap d). case arqMessages d a of None \<Rightarrow> False
     | Some m \<Rightarrow> getConnection (AppID m) (lst d) = Some i)"

text \<open>
  SURB IDs and hashes as before; application IDs are new, a connection is closed or given a session of another
  while none of its queries is under way, a query starts while its application is there, a resend is put off
  while the query is still wanted, and copy commands are answered as such.
\<close>

definition steadfast ::
  "('pub, 'priv, 'np, 'ns, 'v, 'rc, 'wc, 'ix) client_env \<Rightarrow> (bytes \<Rightarrow> bytes \<Rightarrow> bytes option) \<Rightarrow> inputs
     \<Rightarrow> ('rc, 'wc, 'ix) event \<Rightarrow> ('rc, 'wc, 'ix) daemon \<Rightarrow> bool" where
  "steadfast E open_surb q e d \<longleftrightarrow> careful E q e d \<and> (case e of
       AppConnects app _ _ \<Rightarrow> app \<notin> set (connOrder (lst d))
     | AppToken i token \<Rightarrow> open_conn i (lst d) \<and> (case clientTokens (lst d) token of None \<Rightarrow> True
         | Some app \<Rightarrow> (conns (lst d) app = None \<or> conns (lst d) app = Some i) \<and> \<not> busy_on i d)
     | AppCloses i _ \<Rightarrow> open_conn i (lst d) \<and> \<not> busy_on i d
     | Dispatch \<Rightarrow> (case egressCh d of [] \<Rightarrow> True
         | r # _ \<Rightarrow> started_hash E r = None \<or> getConnection (rq_AppID r) (lst d) \<noteq> None)
     | Reschedule \<Rightarrow> (case in_resend d of None \<Rightarrow> True | Some a \<Rightarrow> a \<in> snd ` set (arqSurbIDMap d))
     | ReplyHandled \<Rightarrow> (case in_reply d of None \<Rightarrow> True | Some (a, c) \<Rightarrow> proper_reply open_surb a c d)
     | _ \<Rightarrow> True)"

definition live :: "('rc, 'wc, 'ix) daemon \<Rightarrow> bool" where
  "live d \<longleftrightarrow> live_but d (held d) {}"

lemma busy_onI:
  "map_of (arqSurbIDMap d) s = Some a \<Longrightarrow> arqMessages d a = Some m \<Longrightarrow> getConnection (AppID m) (lst d) = Some i \<Longrightarrow> busy_on i d"
  unfolding busy_on_def by (rule bexI [of _ a]) (auto dest: map_of_SomeD intro: rev_image_eqI)

section \<open>Connections\<close>

lemma queued_other:
  assumes "queued_resend app s l" "conns l' app = conns l app" "\<And>i. conns l app = Some i \<Longrightarrow> conn_at l' i = conn_at l i"
  shows "queued_resend app s l'"
  using assms by (auto simp: queued_resend_def split: option.splits)

lemma queued_send: "queued_resend app s l \<Longrightarrow> queued_resend app s (sendResponse i r l)"
  unfolding sendResponse_def by (rule queued_upd) auto

lemma queued_fold: "queued_resend app s l \<Longrightarrow> queued_resend app s (fold (sendResponse i) rs l)"
  by (induction rs arbitrary: l) (simp_all add: queued_send)

lemma queued_fields [simp]:
  "queued_resend app s (l\<lparr>disconnectedSessions := ds\<rparr>) = queued_resend app s l"
  "queued_resend app s (l\<lparr>clientTokens := t\<rparr>) = queued_resend app s l"
  "queued_resend app s (l\<lparr>rrCursor := n\<rparr>) = queued_resend app s l"
  by (simp_all add: queued_resend_def cong: option.case_cong)

lemma connects_kept:
  assumes ok: "listener_ok l" and new: "app \<notin> set (connOrder l)" and conn: "getConnection app' l \<noteq> None"
  shows "getConnection app' (onNewConn app status doc l) \<noteq> None"
    "queued_resend app' s l \<Longrightarrow> queued_resend app' s (onNewConn app status doc l)"
proof -
  have "app' \<noteq> app" using ok new conn by (auto simp: listener_ok_def getConnection_def)
  moreover have "i < next_conn l" if "conns l app' = Some i" for i using ok that by (simp add: listener_ok_def)
  ultimately show "getConnection app' (onNewConn app status doc l) \<noteq> None"
    "queued_resend app' s l \<Longrightarrow> queued_resend app' s (onNewConn app status doc l)"
    using conn
    by (auto simp: onNewConn_def Let_def registerConn_def getConnection_def sendResponse_def conn_at_upd elim!: queued_other)
qed

lemma closes_kept:
  fixes e :: bool
  assumes op: "open_conn i l" and conn: "getConnection app l \<noteq> None" "getConnection app l \<noteq> Some i"
  defines "l' \<equiv> snd (onClosedConn i (upd_conn i (\<lambda>c. c\<lparr>explicitClose := e\<rparr>) l))"
  shows "getConnection app l' \<noteq> None" "queued_resend app s l \<Longrightarrow> queued_resend app s l'"
proof -
  obtain c where c: "conn_at l i = Some c" "conns l (conn_appID c) = Some i"
    using op by (auto simp: open_conn_def split: option.splits)
  then have other: "app \<noteq> conn_appID c" using conn by (auto simp: getConnection_def)
  have f: "conns l' app = conns l app" "j \<noteq> i \<Longrightarrow> conn_at l' j = conn_at l j" for j
    using c other by (auto simp: l'_def onClosedConn_def closeDone_def Let_def conn_at_upd unregisterConn_def split: option.split)
  then show "getConnection app l' \<noteq> None" "queued_resend app s l \<Longrightarrow> queued_resend app s l'"
    using conn by (auto simp: getConnection_def elim!: queued_other)
qed

lemma token_kept:
  assumes op: "open_conn i l" and conn: "getConnection app l \<noteq> None"
    and known: "\<And>app'. clientTokens l token = Some app' \<Longrightarrow> (conns l app' = None \<or> conns l app' = Some i) \<and> getConnection app l \<noteq> Some i"
  shows "getConnection app (handleSessionToken reply i token l) \<noteq> None"
    "queued_resend app s l \<Longrightarrow> queued_resend app s (handleSessionToken reply i token l)"
proof -
  obtain c where c: "conn_at l i = Some c" "conns l (conn_appID c) = Some i"
    using op by (auto simp: open_conn_def split: option.splits)
  have "getConnection app (handleSessionToken reply i token l) \<noteq> None
    \<and> (queued_resend app s l \<longrightarrow> queued_resend app s (handleSessionToken reply i token l))"
  proof (cases "clientTokens l token")
    case None
    with c conn show ?thesis
      by (auto simp: handleSessionToken_def getConnection_def sendResponse_def intro!: queued_upd)
  next
    case (Some app')
    let ?l1 = "(upd_conn i (\<lambda>c. c\<lparr>conn_appID := app'\<rparr>) l)
      \<lparr>conns := (conns l)(conn_appID c := None, app' \<mapsto> i),
       connOrder := (if conn_appID c \<in> set (connOrder l)
         then (connOrder l)[length (takeWhile (\<lambda>x. x \<noteq> conn_appID c) (connOrder l)) := app'] else connOrder l)\<rparr>"
    have ne: "app \<noteq> conn_appID c" "app \<noteq> app'" using known [OF Some] conn c by (auto simp: getConnection_def)
    have q: "queued_resend app s ?l1" if "queued_resend app s l"
      by (rule queued_other [OF that]) (use ne conn known [OF Some] in \<open>auto simp: getConnection_def conn_at_upd\<close>)
    have f: "conns (fold (sendResponse i) rs l') = conns l'" for rs and l' :: "('a, 'b) listener"
      by (induction rs arbitrary: l') (simp_all add: sendResponse_def)
    from Some c ne conn q show ?thesis
      by (auto simp: handleSessionToken_def Let_def getConnection_def sendResponse_def f queued_fold
          intro!: queued_upd queued_fold split: option.split)
  qed
  then show "getConnection app (handleSessionToken reply i token l) \<noteq> None"
    "queued_resend app s l \<Longrightarrow> queued_resend app s (handleSessionToken reply i token l)" by blast+
qed

lemma pick_kept:
  assumes "PickNextRequest l = (p, l')"
  shows "conns l' = conns l" "queued_resend app s l \<Longrightarrow> queued_resend app s l' \<or> (\<exists>app' ref. p = Some (PickResend app' ref) \<and> snd ref = s)"
proof -
  have "conns l' = conns l \<and> (queued_resend app s l \<longrightarrow> queued_resend app s l' \<or> (\<exists>app' ref. p = Some (PickResend app' ref) \<and> snd ref = s))"
  proof (cases "pick_scan (map (\<lambda>i. (rrCursor l + i) mod length (connOrder l)) [0..<length (connOrder l)]) l")
    case None
    with assms show ?thesis by (auto simp: PickNextRequest_def Let_def split: if_splits)
  next
    case (Some r)
    then obtain p0 idx l0 where r: "r = (p0, idx, l0)" by (cases r)
    from pick_scan_found [OF Some [unfolded r]] obtain i c c' where
      c: "conn_in_order idx l = Some (i, c)" "take_next c = Some (p0, c')" "l0 = upd_conn i (\<lambda>_. c') l" by blast
    have "queued_resend app s l0 \<or> (\<exists>app' ref. p0 = PickResend app' ref \<and> snd ref = s)" if "queued_resend app s l"
    proof -
      have "set (resendCh c) \<subseteq> set (resendCh c') \<union> {ref. \<exists>app'. p0 = PickResend app' ref}"
        using c(2) by (auto simp: take_next_def split: list.splits)
      with that c(3) conn_in_order_at [OF c(1)] show ?thesis
        by (fastforce simp: queued_resend_def conn_at_upd split: option.splits if_splits)
    qed
    with assms Some r c(3) show ?thesis by (auto simp: PickNextRequest_def Let_def split: if_splits)
  qed
  then show "conns l' = conns l" "queued_resend app s l \<Longrightarrow> queued_resend app s l' \<or> (\<exists>app' ref. p = Some (PickResend app' ref) \<and> snd ref = s)"
    by blast+
qed


section \<open>The steps\<close>

lemma live_respond_if [simp]: "live_but d X Y \<Longrightarrow> live_but (answer app r d) X Y"
  by (auto simp: answer_def split: option.split sum.split)

lemma cancel_hash_live:
  assumes l: "live_but d X {}"
  shows "live_but (cancel_hash app h cancelled d) X {}"
proof (cases "arqEnvelopeHashMap d h")
  case None
  with l show ?thesis by (simp add: cancel_hash_def)
next
  case (Some ref)
  note ok = live_daemon_ok [OF l]
  from cancel_hash_drops [OF ok Some, of app cancelled] obtain a m where
    m: "map_of (arqSurbIDMap d) (snd ref) = Some a" "arqMessages d a = Some m" "SURBID m = ref"
    and eq: "cancel_hash app h cancelled d = respond app (cancelled m) (cancel_timer ref (dropARQMessage m d))" by metis
  have "live_but (dropARQMessage m d) X {}"
    by (rule live_drop [OF live_mono [OF l] m(2) refl refl disjI2 [OF m(1)]]) auto
  then have "live_but (cancel_timer ref (dropARQMessage m d)) X {}"
    by (rule live_cancel) (use m(3) in \<open>simp add: dropARQMessage_def map_of_delete\<close>)
  then show ?thesis unfolding eq by simp
qed

lemma cancels_live:
  assumes "live_but d X {}"
  shows "live_but (cancelResendingEncryptedMessage app req d) X {}" "live_but (cancelResendingCopyCommand app req' d) X {}"
  using assms by (simp_all add: cancelResendingEncryptedMessage_def cancelResendingCopyCommand_def cancel_hash_live split: option.split)

lemma local_live: "live_but d X {} \<Longrightarrow> live_but (dispatchLocal E q r d) X {}"
  by (simp add: dispatchLocal_def Let_def cancels_live split: option.split)

lemma request_live:
  assumes l: "live_but d X {}"
  shows "live_but (app_request E q i r d) X {}"
proof -
  have "live_but (d\<lparr>lst := queue_request i r' (lst d)\<rparr>) X {}" for r'
    by (rule live_lst_only [OF l])
       (use l in \<open>auto simp: live_but_def linked_def queue_request_def getConnection_def intro!: upd_conn_ok queued_upd split: if_splits\<close>)
  with l show ?thesis by (auto simp: app_request_def Let_def local_live split: option.split)
qed

lemma fold_cancel:
  "(\<forall>m \<in> set ms. map_of (arqSurbIDMap d) (snd (SURBID m)) = None) \<Longrightarrow> waits d X \<Longrightarrow>
     waits (fold (\<lambda>m. cancel_timer (SURBID m)) ms d) X \<and> lst (fold (\<lambda>m. cancel_timer (SURBID m)) ms d) = lst d
     \<and> arqSurbIDMap (fold (\<lambda>m. cancel_timer (SURBID m)) ms d) = arqSurbIDMap d
     \<and> arqMessages (fold (\<lambda>m. cancel_timer (SURBID m)) ms d) = arqMessages d"
proof (induction ms arbitrary: d)
  case (Cons m ms)
  have "waits (cancel_timer (SURBID m) d) X" by (rule waits_cancel) (use Cons.prems in auto)
  with Cons show ?case by simp
qed simp

lemma no_new_less:
  "map_of (arqSurbIDMap d') \<subseteq>\<^sub>m map_of (arqSurbIDMap d) \<Longrightarrow> arqMessages d' = arqMessages d \<Longrightarrow> no_new d d' Y"
  unfolding no_new_def map_le_def dom_def by (metis (mono_tags, lifting) mem_Collect_eq option.distinct(1))

lemma cleanup_live:
  assumes l: "live_but d X {}"
  shows "live_but (cleanupForAppID app d) X {}"
proof -
  let ?mine = "\<lambda>(s, a). case arqMessages d a of None \<Rightarrow> False | Some m \<Rightarrow> AppID m = app"
  let ?T = "filter (\<lambda>e. \<not> ?mine e) (arqSurbIDMap d)"
  let ?ms = "List.map_filter (\<lambda>(s, a). arqMessages d a) (filter ?mine (arqSurbIDMap d))"
  let ?not_mine = "\<lambda>m. \<lambda>s. case m s of None \<Rightarrow> None | Some desc \<Rightarrow> if rd_appID desc = app then None else Some desc"
  let ?d1 = "d\<lparr>arqSurbIDMap := ?T, arqEnvelopeHashMap := fold (\<lambda>m h. h(EnvelopeHash m := None)) ?ms (arqEnvelopeHashMap d),
    replies := ?not_mine (replies d), decoys := ?not_mine (decoys d)\<rparr>"
  note ok = live_daemon_ok [OF l]
  have dist: "distinct (map fst (arqSurbIDMap d))" using ok by (simp add: daemon_ok_def core_ok_def)
  have le: "map_of ?T \<subseteq>\<^sub>m map_of (arqSurbIDMap d)"
    using dist by (force simp: map_le_def dom_def map_of_eq_Some_iff distinct_map_filter)
  have gone: "map_of ?T (snd (SURBID m)) = None" if m: "m \<in> set ?ms" for m
  proof (rule ccontr)
    assume "map_of ?T (snd (SURBID m)) \<noteq> None"
    then obtain b where b: "map_of ?T (snd (SURBID m)) = Some b" by blast
    then have "map_of (arqSurbIDMap d) (snd (SURBID m)) = Some b" using le by (auto simp: map_le_def dom_def)
    moreover have "\<exists>s a. (s, a) \<in> set (arqSurbIDMap d) \<and> arqMessages d a = Some m \<and> AppID m = app"
      using m by (force simp: List.map_filter_def split: option.splits)
    ultimately obtain s where "arqMessages d b = Some m" "AppID m = app" using tracked_at [OF ok] by blast
    with map_of_SomeD [OF b] show False by auto
  qed
  have "waits (d\<lparr>arqSurbIDMap := ?T, arqEnvelopeHashMap := fold (\<lambda>m h. h(EnvelopeHash m := None)) ?ms (arqEnvelopeHashMap d)\<rparr>) X"
    by (rule waits_untrack [OF _ le]) (use l in \<open>simp add: live_but_def\<close>)
  then have "waits ?d1 X" by (simp add: waits_def waiting_def)
  with fold_cancel [of ?ms ?d1 X] gone
  have f: "waits (cleanupForAppID app d) X" "lst (cleanupForAppID app d) = lst d"
    "arqSurbIDMap (cleanupForAppID app d) = ?T" "arqMessages (cleanupForAppID app d) = arqMessages d"
    by (simp_all add: cleanupForAppID_def Let_def)
  have nn: "no_new d (cleanupForAppID app d) {}" by (rule no_new_less) (use le f(3,4) in simp_all)
  have "linked (cleanupForAppID app d)" by (rule linked_step [OF _ nn]) (use l f(2) in \<open>auto simp: live_but_def linked_def\<close>)
  with l f(1) cleanup_ok [OF ok] open_step [OF _ nn] show ?thesis by (simp add: live_but_def)
qed


lemma arqSend_live:
  assumes l: "live_but d X {}" and fresh: "fresh_surb (i_surb q) d" and new: "\<not> alive (EnvelopeHash m) d"
    and sent: "arqSend q m d = Some d'" and conn: "getConnection (AppID m) (lst d) \<noteq> None" and und: "undecided m"
  shows "live_but d' X {}"
proof -
  obtain pkt key rtt where c: "i_compose q (DestinationIdHash m) (RecipientQueueID m) (arq_Payload m) (i_surb q) = Some (pkt, key, rtt)"
    using sent by (auto simp: arqSend_def split: option.splits)
  let ?a = "next_addr d" and ?ref = "(Suc (next_addr d), i_surb q)"
  let ?m = "m\<lparr>SURBID := ?ref, SURBDecryptionKeys := key, SentAt := i_now q, ReplyETA := rtt, Retransmissions := 0\<rparr>"
  let ?d1 = "d\<lparr>next_addr := Suc (Suc ?a), arqMessages := (arqMessages d)(?a \<mapsto> ?m),
     arqSurbIDMap := AList.update (i_surb q) ?a (arqSurbIDMap d),
     arqEnvelopeHashMap := (arqEnvelopeHashMap d)(EnvelopeHash m \<mapsto> ?ref), packets := packets d @ [pkt]\<rparr>"
  have d': "d' = push_timer (i_now q + rtt + RoundTripTimeSlop) ?ref ?d1"
    using sent c by (simp add: arqSend_def Let_def)
  have ok': "daemon_ok d'" by (rule arqSend_ok [OF live_daemon_ok [OF l] fresh new sent])
  then have ok1: "daemon_ok ?d1" by (simp only: d' daemon_ok_fields)
  have tr: "map_of (arqSurbIDMap ?d1) s = (if s = i_surb q then Some ?a else map_of (arqSurbIDMap d) s)" for s
    by (simp add: map_of_update)
  have "waits ?d1 (insert ?a X)"
    unfolding waits_def
  proof (intro allI impI, elim conjE)
    fix s b m' assume b: "map_of (arqSurbIDMap ?d1) s = Some b" "arqMessages ?d1 b = Some m'" "b \<notin> insert ?a X"
    then have "map_of (arqSurbIDMap d) s = Some b" "arqMessages d b = Some m'" by (auto simp: map_of_update split: if_splits)
    with l b(3) have "waiting (AppID m') s d" unfolding live_but_def waits_def by blast
    then show "waiting (AppID m') s ?d1" by (simp add: waiting_def)
  qed
  then have "waits d' X" unfolding d' by (rule waits_push_for [OF _ ok1]) (simp add: map_of_update)
  moreover have old: "map_of (arqSurbIDMap d) s = Some b \<and> arqMessages d b = Some m' \<or> m' = ?m"
    if "map_of (arqSurbIDMap d') s = Some b" "arqMessages d' b = Some m'" for s b m'
    using that unfolding d' by (auto simp: map_of_update split: if_splits)
  moreover have "linked d'"
  proof -
    have "getConnection (AppID m') (lst d) \<noteq> None" if "map_of (arqSurbIDMap d') s = Some b" "arqMessages d' b = Some m'" for s b m'
      using old [OF that] l conn unfolding live_but_def linked_def by auto
    moreover have "lst d' = lst d" by (simp add: d')
    ultimately show ?thesis using l unfolding live_but_def linked_def by auto
  qed
  moreover have "open_only d' {}"
    using l und unfolding live_but_def open_only_def by (auto dest!: old simp: undecided_def)
  ultimately show ?thesis using ok' by (simp add: live_but_def)
qed

lemma sent_live:
  assumes "live_but d X {}" "fresh_surb (i_surb q) d" "arqSend q m d = Some d'" "EnvelopeHash m = h" "\<not> alive h d"
    "AppID m = app" "getConnection app (lst d) \<noteq> None" "arq_State m = ARQStateWaitingForACK"
  shows "live_but d' X {}"
  using arqSend_live [OF assms(1,2) _ assms(3)] assms(4-) by (simp add: undecided_def)

lemma failed_live [simp]:
  "live_but d X Y \<Longrightarrow> live_but (failed_start app req code d) X Y" "live_but d X Y \<Longrightarrow> live_but (failed_copy app req' code d) X Y"
  by (simp_all add: failed_start_def failed_copy_def)

lemma start_live:
  assumes l: "live_but d X {}" and fresh: "fresh_surb (i_surb q) d"
    and new: "\<And>h. sr_EnvelopeHash req = Some h \<Longrightarrow> \<not> alive h d \<and> getConnection app (lst d) \<noteq> None"
  shows "live_but (startResendingEncryptedMessage E q app req d) X {}"
proof (cases "validateStartResendingRequest req")
  case None
  with l show ?thesis by (simp add: startResendingEncryptedMessage_def)
next
  case (Some r)
  then obtain qid h where v: "validateStartResendingRequest req = Some (qid, h)" and h: "sr_EnvelopeHash req = Some h"
    by (auto simp: validateStartResendingRequest_def split: option.splits if_splits)
  with l v show ?thesis
    by (auto simp: startResendingEncryptedMessage_def split: option.split sum.split fail.split)
       (erule sent_live [OF l fresh], simp, simp add: new [OF h], simp, simp only: new [OF h], simp, simp)
qed

lemma start_copy_live:
  assumes l: "live_but d X {}" and fresh: "fresh_surb (i_surb q) d"
    and new: "\<And>wc b. sc_WriteCap req = Some wc \<Longrightarrow> wc_MarshalBinary E wc = Some b \<Longrightarrow>
      \<not> alive (Sum256 (rpki (crep E)) b) d \<and> getConnection app (lst d) \<noteq> None"
  shows "live_but (startResendingCopyCommand E q app req d) X {}"
  using l
  by (auto simp: startResendingCopyCommand_def split: option.split sum.split fail.split)
     (erule sent_live [OF l fresh], simp, simp add: new, simp, simp only: new, simp, simp)

lemma alloc_live: "live_but d X Y \<Longrightarrow> live_but (d\<lparr>next_addr := Suc (next_addr d)\<rparr>) X Y"
  by (frule live_frame [OF _ alloc_ok [OF live_daemon_ok]]) simp_all

lemma single_live: "live_but d X Y \<Longrightarrow> live_but (send_single q loop app sm d) X Y"
  by (simp add: send_single_def Let_def split: prod.split option.split)

lemma sendLoopDecoy_live: "live_but d X Y \<Longrightarrow> live_but (sendLoopDecoy E n q app d) X Y"
  by (auto simp: sendLoopDecoy_def Let_def single_live alloc_live split: option.split sum.split prod.split)

text \<open>A resend taken from the channel: its message waits for nothing else until a packet is made.\<close>

lemma doResend_live:
  assumes l: "live_but d X {}" and fresh: "fresh_surb (i_surb q) d" and idle: "in_resend d = None"
    and X: "\<And>a. a \<in> X \<Longrightarrow> a \<in> held d \<or> map_of (arqSurbIDMap d) (snd ref) = Some a"
  shows "live (arqDoResend q ref d)"
proof (cases "map_of (arqSurbIDMap d) (snd ref)")
  case None
  with l X live_mono [OF l, of "held d" "{}"] show ?thesis by (auto simp: arqDoResend_def live_def)
next
  case (Some a)
  note ok = live_daemon_ok [OF l]
  obtain m where m: "arqMessages d a = Some m" using daemon_ok_tracked [OF ok Some] by blast
  have conn: "getConnection (AppID m) (lst d) \<noteq> None" using l Some m unfolding live_but_def linked_def by blast
  have l': "live_but d (insert a (held d)) {}" by (rule live_mono [OF l]) (use X Some in auto)
  have hold: "live (d\<lparr>in_resend := Some a\<rparr>)"
    unfolding live_def by (rule live_mono [OF live_hold(2) [OF l' Some]]) (use idle in \<open>auto simp: held_def\<close>)
  have "live (push_timer at (next_addr d, i_surb q) ((rotateARQSurbIDLocked a m (i_surb q) key rtt now d)\<lparr>packets := ps\<rparr>))" for key rtt now at ps
  proof -
    let ?d = "push_timer at (next_addr d, i_surb q) (rotateARQSurbIDLocked a m (i_surb q) key rtt now d)"
    have "live_but ?d (held d) {}"
      unfolding rotateARQSurbIDLocked_def by (rule live_rekey [OF l' Some m _ fresh]) simp
    moreover have "held ?d = held d" by (simp add: rotateARQSurbIDLocked_def rekey_def Let_def held_def push_timer_def)
    moreover have "push_timer at (next_addr d, i_surb q) ((rotateARQSurbIDLocked a m (i_surb q) key rtt now d)\<lparr>packets := ps\<rparr>) = ?d\<lparr>packets := ps\<rparr>"
      by (simp add: push_timer_def)
    ultimately show ?thesis by (simp add: live_def)
  qed
  with Some m conn hold show ?thesis by (auto simp: arqDoResend_def Let_def split: option.split)
qed


lemma held_more [simp]:
  "held (d\<lparr>replies := rs\<rparr>) = held d" "held (d\<lparr>decoys := ds\<rparr>) = held d" "held (d\<lparr>timerQueue := tq\<rparr>) = held d"
  "held (d\<lparr>next_addr := k\<rparr>) = held d" "held (failed_start app req code d) = held d" "held (failed_copy app req' code d) = held d"
  by (simp_all add: held_def failed_start_def failed_copy_def)

lemma held_sent: "arqSend q m d = Some d' \<Longrightarrow> held d' = held d"
  by (auto simp: arqSend_def Let_def held_def push_timer_def split: option.splits)

lemma held_single [simp]: "held (send_single q loop app sm d) = held d"
  by (simp add: send_single_def Let_def split: prod.split option.split)

lemma held_started [simp]:
  "held (startResendingEncryptedMessage E q app req d) = held d" "held (startResendingCopyCommand E q app req' d) = held d"
  by (auto simp: startResendingEncryptedMessage_def startResendingCopyCommand_def dest: held_sent
      split: option.split sum.split prod.split fail.split)

lemma held_decoy [simp]: "held (sendLoopDecoy E n q app d) = held d"
  by (simp add: sendLoopDecoy_def Let_def split: option.split sum.split prod.split)

lemma held_dispatch: "rq_ResendARQ r = None \<Longrightarrow> held (dispatchMixnet E n q r d) = held d"
  by (simp add: dispatchMixnet_def Let_def split: option.split)

lemma dispatch_live:
  assumes l: "live d" and guard: "steadfast E open_surb q Dispatch d"
  shows "live (daemon_step E open_surb n q Dispatch d)"
proof (cases "egressCh d = [] \<or> in_resend d \<noteq> None")
  case True
  with l show ?thesis by (auto simp: daemon_step_def split: list.split)
next
  case False
  then obtain r rest where eg: "egressCh d = r # rest" by (cases "egressCh d") auto
  let ?d = "d\<lparr>egressCh := rest\<rparr>"
  have held [simp]: "held ?d = held d" by simp
  have idle: "in_resend ?d = None" using False by simp
  have fresh: "fresh_surb (i_surb q) ?d" and new: "\<And>h. started_hash E r = Some h \<Longrightarrow> \<not> alive h ?d \<and> getConnection (rq_AppID r) (lst ?d) \<noteq> None"
    using guard eg by (auto simp: steadfast_def careful_def)
  have "live (dispatchMixnet E n q r ?d)"
  proof (cases "rq_ResendARQ r")
    case None
    have "waits ?d (held d)"
      unfolding waits_def
    proof (intro allI impI, elim conjE)
      fix s a m assume "map_of (arqSurbIDMap ?d) s = Some a" "arqMessages ?d a = Some m" "a \<notin> held d"
      then have "waiting (AppID m) s d" using l by (auto simp: live_def live_but_def waits_def)
      then show "waiting (AppID m) s ?d" using eg None by (auto simp: waiting_def)
    qed
    then have l': "live_but ?d (held ?d) {}"
      using l by (simp add: live_def live_but_def linked_def open_only_def)
    have start: "live_but (startResendingEncryptedMessage E q (rq_AppID r) req ?d) (held ?d) {}"
      if "rq_StartResendingEncryptedMessage r = Some req" for req
      by (rule start_live [OF l' fresh]) (use new that in \<open>auto simp: started_hash_def\<close>)
    have copy: "live_but (startResendingCopyCommand E q (rq_AppID r) req ?d) (held ?d) {}"
      if "rq_StartResendingEncryptedMessage r = None" "rq_StartResendingCopyCommand r = Some req" for req
      by (rule start_copy_live [OF l' fresh]) (use new that in \<open>auto simp: started_hash_def\<close>)
    have "live_but (dispatchMixnet E n q r ?d) (held ?d) {}"
      using l' start copy None by (auto simp: dispatchMixnet_def Let_def single_live sendLoopDecoy_live split: option.split)
    with None show ?thesis by (simp add: live_def held_dispatch)
  next
    case (Some ref)
    let ?X = "held d \<union> {a. map_of (arqSurbIDMap d) (snd ref) = Some a}"
    have "waits ?d ?X"
      unfolding waits_def
    proof (intro allI impI, elim conjE)
      fix s a m assume a: "map_of (arqSurbIDMap ?d) s = Some a" "arqMessages ?d a = Some m" "a \<notin> ?X"
      then have "waiting (AppID m) s d" using l by (auto simp: live_def live_but_def waits_def)
      moreover have "s \<noteq> snd ref" using a by auto
      ultimately show "waiting (AppID m) s ?d" using eg Some by (auto simp: waiting_def)
    qed
    then have "live_but ?d ?X {}" using l by (simp add: live_def live_but_def linked_def open_only_def)
    from doResend_live [OF this fresh idle] show ?thesis using Some by (simp add: dispatchMixnet_def)
  qed
  with eg False show ?thesis by (simp add: daemon_step_def)
qed


lemma live_step_lst:
  assumes l: "live d" and ok: "listener_ok l'"
    and kept: "\<And>s a m. map_of (arqSurbIDMap d) s = Some a \<Longrightarrow> arqMessages d a = Some m \<Longrightarrow> getConnection (AppID m) (lst d) \<noteq> None \<Longrightarrow>
      getConnection (AppID m) l' \<noteq> None \<and> (queued_resend (AppID m) s (lst d) \<longrightarrow> queued_resend (AppID m) s l')"
  shows "live (d\<lparr>lst := l'\<rparr>)"
  using live_lst_only [OF l [unfolded live_def] ok] kept by (simp add: live_def)

lemma held_fold_cancel [simp]: "held (fold (\<lambda>m. cancel_timer (SURBID m)) ms d) = held d"
  by (induction ms arbitrary: d) simp_all

lemma held_cleanup [simp]: "held (cleanupForAppID app d) = held d"
  by (simp add: cleanupForAppID_def Let_def)

lemma cleanup_after_live: "live (d\<lparr>lst := snd r\<rparr>) \<Longrightarrow> live (cleanup_after r d)"
  by (auto simp: cleanup_after_def live_def cleanup_live split: option.split)

lemma live_listener: "live d \<Longrightarrow> listener_ok (lst d)"
  by (simp add: live_def live_but_def linked_def)

lemma connects_live:
  assumes l: "live d" and new: "app \<notin> set (connOrder (lst d))"
  shows "live (d\<lparr>lst := onNewConn app status doc (lst d)\<rparr>)"
  using connects_kept [OF live_listener [OF l] new] register_ok [OF live_listener [OF l] new]
  by (intro live_step_lst [OF l]) auto

lemma token_live:
  assumes l: "live d" and op: "open_conn i (lst d)"
    and known: "\<And>app. clientTokens (lst d) token = Some app \<Longrightarrow> (conns (lst d) app = None \<or> conns (lst d) app = Some i) \<and> \<not> busy_on i d"
  shows "live (d\<lparr>lst := handleSessionToken reply i token (lst d)\<rparr>)"
proof (rule live_step_lst [OF l])
  show "listener_ok (handleSessionToken reply i token (lst d))"
    by (rule handleSessionToken_ok [OF live_listener [OF l]]) (use op known in \<open>auto simp: admissible_def split: option.split\<close>)
  fix s a m assume m: "map_of (arqSurbIDMap d) s = Some a" "arqMessages d a = Some m" "getConnection (AppID m) (lst d) \<noteq> None"
  have "(conns (lst d) app = None \<or> conns (lst d) app = Some i) \<and> getConnection (AppID m) (lst d) \<noteq> Some i"
    if "clientTokens (lst d) token = Some app" for app
    using known [OF that] busy_onI [OF m(1,2)] by blast
  from token_kept [OF op m(3) this] show "getConnection (AppID m) (handleSessionToken reply i token (lst d)) \<noteq> None \<and>
    (queued_resend (AppID m) s (lst d) \<longrightarrow> queued_resend (AppID m) s (handleSessionToken reply i token (lst d)))" by blast
qed

lemma done_live:
  assumes l: "live d"
  shows "live (d\<lparr>lst := closeDone i (lst d)\<rparr>)"
  using closeDone_ok [OF live_listener [OF l], of i]
  by (intro live_step_lst [OF l]) (auto simp: closeDone_def getConnection_def intro!: queued_upd)

lemma closes_live:
  assumes l: "live d" and op: "open_conn i (lst d)" and idle: "\<not> busy_on i d"
  shows "live (cleanup_after (onClosedConn i (upd_conn i (\<lambda>c. c\<lparr>explicitClose := e\<rparr>) (lst d))) d)"
proof (rule cleanup_after_live, rule live_step_lst [OF l])
  show "listener_ok (snd (onClosedConn i (upd_conn i (\<lambda>c. c\<lparr>explicitClose := e\<rparr>) (lst d))))"
    by (rule close_ok, rule upd_conn_ok [OF live_listener [OF l]]) simp
  fix s a m assume m: "map_of (arqSurbIDMap d) s = Some a" "arqMessages d a = Some m" "getConnection (AppID m) (lst d) \<noteq> None"
  have "getConnection (AppID m) (lst d) \<noteq> Some i" using busy_onI [OF m(1,2)] idle by blast
  from closes_kept [OF op m(3) this] show "getConnection (AppID m) (snd (onClosedConn i (upd_conn i (\<lambda>c. c\<lparr>explicitClose := e\<rparr>) (lst d)))) \<noteq> None \<and>
    (queued_resend (AppID m) s (lst d) \<longrightarrow> queued_resend (AppID m) s (snd (onClosedConn i (upd_conn i (\<lambda>c. c\<lparr>explicitClose := e\<rparr>) (lst d)))))" by blast
qed

lemma grace_live:
  assumes l: "live d"
  shows "live (cleanup_after (grace_period_ends app token (lst d)) d)"
proof (rule cleanup_after_live)
  have "live (d\<lparr>lst := lst d\<rparr>)" using l by simp
  moreover have "live (d\<lparr>lst := (lst d)\<lparr>disconnectedSessions := ds, clientTokens := ct\<rparr>\<rparr>)" for ds ct
    by (rule live_step_lst [OF l]) (use live_listener [OF l] in \<open>simp_all add: getConnection_def listener_ok_def\<close>)
  ultimately show "live (d\<lparr>lst := snd (grace_period_ends app token (lst d))\<rparr>)"
    by (auto simp: grace_period_ends_def split: option.split)
qed

lemma slot_live:
  assumes l: "live d"
  shows "live (daemon_step E open_surb n q (Slot dd) d)"
proof -
  obtain p l' where p: "PickNextRequest (lst d) = (p, l')" by (cases "PickNextRequest (lst d)")
  have ok: "listener_ok l'" using PickNextRequest_ok [OF live_listener [OF l]] p by simp
  have same: "getConnection app l' = getConnection app (lst d)" for app using pick_kept(1) [OF p] by (simp add: getConnection_def)
  have "live_but (d\<lparr>lst := l', egressCh := egressCh d @ [slot_request s]\<rparr>) (held d) {}"
    if "(\<exists>x. p = Some x \<and> s = SlotPick x) \<or> p = None" for s
  proof (rule live_lst [OF l [unfolded live_def] ok])
    fix u a m assume "getConnection (AppID m) (lst d) \<noteq> None"
    moreover have "queued_resend (AppID m) u l' \<or> (\<exists>r \<in> set [slot_request s]. map_option snd (rq_ResendARQ r) = Some u)"
      if "queued_resend (AppID m) u (lst d)"
      using pick_kept(2) [OF p that] \<open>(\<exists>x. p = Some x \<and> s = SlotPick x) \<or> p = None\<close> by (auto simp: slot_request_def)
    ultimately show "getConnection (AppID m) l' \<noteq> None \<and> (queued_resend (AppID m) u (lst d) \<longrightarrow>
      queued_resend (AppID m) u l' \<or> (\<exists>r \<in> set [slot_request s]. map_option snd (rq_ResendARQ r) = Some u))"
      using same by simp
  qed
  then have sent: "live (d\<lparr>lst := l', egressCh := egressCh d @ [slot_request s]\<rparr>)"
    if "(\<exists>x. p = Some x \<and> s = SlotPick x) \<or> p = None" for s
    using that by (simp add: live_def)
  have none: "live (d\<lparr>lst := l'\<rparr>)" if "p = None"
    by (rule live_step_lst [OF l ok]) (use pick_kept(2) [OF p] same that in auto)
  show ?thesis
    using p sent none by (auto simp: daemon_step_def pickAndSend_def split: option.split prod.split)
qed

lemma hands [simp]:
  "in_reply (rekey a m surb f d) = in_reply d" "in_resend (rekey a m surb f d) = in_resend d"
  "in_resend (dropARQMessage m d) = in_resend d" "in_resend (upd_message a f d) = in_resend d"
  "in_resend (enqueueResend now ref d) = in_resend d" "in_resend (finishARQMessage m code p d) = in_resend d"
  by (simp_all add: rekey_def Let_def dropARQMessage_def upd_message_def enqueueResend_def finishARQMessage_def split: option.split)

lemma push_resend: "push_timer at ref (d\<lparr>in_resend := r\<rparr>) = (push_timer at ref d)\<lparr>in_resend := r\<rparr>"
  by (simp add: push_timer_def)

lemma reschedule_live:
  assumes l: "live d" and fresh: "fresh_surb (i_surb q) d" and wanted: "\<And>a. in_resend d = Some a \<Longrightarrow> a \<in> snd ` set (arqSurbIDMap d)"
  shows "live (rescheduleARQAfterComposeFailure q d)"
proof (cases "in_resend d")
  case None
  with l show ?thesis by (simp add: rescheduleARQAfterComposeFailure_def)
next
  case (Some a)
  note ok = live_daemon_ok [OF l [unfolded live_def]]
  obtain m where m: "arqMessages d a = Some m" using daemon_ok_held [OF ok, of a] Some by (auto simp: held_def)
  have dist: "distinct (map fst (arqSurbIDMap d))" using ok by (simp add: daemon_ok_def core_ok_def)
  obtain s where s: "map_of (arqSurbIDMap d) s = Some a" using wanted [OF Some] map_of_eq_Some_iff [OF dist] by force
  let ?X = "case in_reply d of None \<Rightarrow> {} | Some (b, _) \<Rightarrow> {b}"
  have "live_but d (insert a ?X) {}" using l Some by (simp add: live_def held_def)
  from live_release(2) [OF live_rekey [OF this s m, of id "i_surb q" "i_now q + arqComposeRetryBackoff"]] fresh
  have "live_but ((push_timer (i_now q + arqComposeRetryBackoff) (next_addr d, i_surb q) (rekey a m (i_surb q) id d))\<lparr>in_resend := None\<rparr>) ?X {}"
    by simp
  with Some m show ?thesis
    by (simp add: rescheduleARQAfterComposeFailure_def live_def held_def push_resend)
qed

lemma timer_live:
  assumes l: "live d"
  shows "live (timer_fires now j d)"
proof (cases "j < length (arqTimerQueue d) \<and> (\<forall>e \<in> set (arqTimerQueue d). fst (arqTimerQueue d ! j) \<le> fst e)")
  case False
  with l show ?thesis by (auto simp: timer_fires_def)
next
  case True
  let ?q = "arqTimerQueue d" and ?ref = "snd (arqTimerQueue d ! j)"
  let ?d = "d\<lparr>arqTimerQueue := take j ?q @ drop (Suc j) ?q\<rparr>"
  note ok = live_daemon_ok [OF l [unfolded live_def]]
  have waiting: "waiting app s ?d" if "waiting app s d" "s \<noteq> snd ?ref" for app s
  proof -
    have "?q = take j ?q @ ?q ! j # drop (Suc j) ?q" using True id_take_nth_drop by blast
    then have "set ?q = set (take j ?q @ drop (Suc j) ?q) \<union> {?q ! j}"
      by (metis Un_insert_right list.simps(15) set_append sup_bot.right_neutral)
    with that show ?thesis by (auto simp: waiting_def)
  qed
  have base: "live_but ?d (held d \<union> {a. map_of (arqSurbIDMap d) (snd ?ref) = Some a}) {}"
  proof -
    have "waits ?d (held d \<union> {a. map_of (arqSurbIDMap d) (snd ?ref) = Some a})"
      unfolding waits_def
    proof (intro allI impI, elim conjE)
      fix s a m assume a: "map_of (arqSurbIDMap ?d) s = Some a" "arqMessages ?d a = Some m"
        "a \<notin> held d \<union> {a. map_of (arqSurbIDMap d) (snd ?ref) = Some a}"
      then have "waiting (AppID m) s d" using l by (auto simp: live_def live_but_def waits_def)
      then show "waiting (AppID m) s ?d" by (rule waiting) (use a in auto)
    qed
    with l show ?thesis by (simp add: live_def live_but_def linked_def open_only_def)
  qed
  have held: "held (enqueueResend now ?ref ?d) = held d" by (simp add: enqueueResend_def split: option.split)
  show ?thesis
  proof (cases "map_of (arqSurbIDMap d) (snd ?ref)")
    case None
    then have "live_but ?d (held d) {}" using base by simp
    then have "live (enqueueResend now ?ref ?d)" unfolding live_def held by (rule live_enqueue)
    with True show ?thesis by (simp add: timer_fires_def)
  next
    case (Some a)
    then obtain m where m: "arqMessages d a = Some m" "snd (SURBID m) = snd ?ref" using daemon_ok_tracked [OF ok] by blast
    have "live_but ?d (insert a (held d)) {}" by (rule live_mono [OF base]) (use Some in auto)
    then have "live (enqueueResend now ?ref ?d)" unfolding live_def held by (rule live_enqueue_for) (use m in auto)
    with True show ?thesis by (simp add: timer_fires_def)
  qed
qed

lemma arrives_live:
  assumes l: "live d" and idle: "in_reply d = None"
  shows "live (handleReply open_surb surbID c (d :: ('a, 'b, 'c) daemon))"
proof -
  note l' = l [unfolded live_def]
  have tracked: "live ((cancel_timer (SURBID m) d)\<lparr>in_reply := Some (a, c)\<rparr>)"
    if "map_of (arqSurbIDMap d) surbID = Some a" "arqMessages d a = Some m" for a m
  proof -
    have "live_but (cancel_timer (SURBID m) d) (insert a (held d)) {}"
      by (rule live_cancel [OF live_mono [OF l']]) (use tracked_at [OF live_daemon_ok [OF l'] that(2)] in auto)
    from live_hold(1) [OF this] that(1) have "live_but ((cancel_timer (SURBID m) d)\<lparr>in_reply := Some (a, c)\<rparr>) (insert a (held d)) {}"
      by simp
    moreover have "held ((cancel_timer (SURBID m) d)\<lparr>in_reply := Some (a, c)\<rparr>) = insert a (held d)"
      using idle by (simp add: held_def)
    ultimately show ?thesis by (simp add: live_def)
  qed
  have queue: "live (d'\<lparr>lst := snd (queueReplyForDisconnected app r (lst d'))\<rparr>)" if "live d'" for d' :: "('a, 'b, 'c) daemon" and app r
    by (rule live_step_lst [OF that]) (use live_listener [OF that] in \<open>auto simp: queueReplyForDisconnected_def getConnection_def sessions_ok split: option.split\<close>)
  have send: "live (d'\<lparr>lst := sendResponse i r (lst d')\<rparr>)" if "live d'" for d' :: "('a, 'b, 'c) daemon" and i r
    by (rule live_step_lst [OF that]) (use live_listener [OF that] in \<open>auto simp: sendResponse_ok queued_send, auto simp: sendResponse_def getConnection_def\<close>)
  have plain: "live (d\<lparr>replies := rs\<rparr>)" "live (d\<lparr>decoys := rs\<rparr>)" for rs using l by (simp_all add: live_def)
  show ?thesis
    using l tracked queue [OF plain(1)] send [OF plain(1)] plain by (auto simp: handleReply_def Let_def split: option.split)
qed

lemma resend_kept_parts [simp]:
  "in_resend (handlePayloadReply E q a m env d) = in_resend d" "in_resend (handleCopyCommandARQReply q a m r d) = in_resend d"
  by (simp_all add: handlePayloadReply_def handleCopyCommandARQReply_def copy_finish_def scheduleCopyCommandPoll_def Let_def scheduleARQFollowUp_def
      split: sum.split payloadErrorAction.split option.split)

lemma resend_kept: "in_resend (handlePigeonholeARQReply E open_surb q a c d) = in_resend d"
  by (simp add: handlePigeonholeARQReply_def handleEnvelopeARQReply_def Let_def scheduleARQFollowUp_def
      split: sum.split ARQAction.split option.split)

lemma handled_live:
  assumes l: "live d" and a: "in_reply d = Some (a, c)" and fresh: "fresh_surb (i_surb q) d" and proper: "proper_reply open_surb a c d"
  shows "live ((handlePigeonholeARQReply E open_surb q a c d)\<lparr>in_reply := None\<rparr>)"
proof -
  let ?X = "case in_resend d of None \<Rightarrow> {} | Some b \<Rightarrow> {b}"
  have "live_but d (insert a ?X) {}" using l a by (simp add: live_def held_def)
  from live_release(1) [OF arq_reply_live [OF this _ fresh proper]] a
  have "live_but ((handlePigeonholeARQReply E open_surb q a c d)\<lparr>in_reply := None\<rparr>) ?X {}" by (simp add: held_def)
  moreover have "in_resend (handlePigeonholeARQReply E open_surb q a c d) = in_resend d"
    by (simp add: resend_kept)
  ultimately show ?thesis by (simp add: live_def held_def)
qed


lemma held_cancels [simp]:
  "held (cancelResendingEncryptedMessage app req d) = held d" "held (cancelResendingCopyCommand app req' d) = held d"
  by (simp_all add: cancelResendingEncryptedMessage_def cancelResendingCopyCommand_def cancel_hash_def Let_def split: option.split)

lemma held_answer [simp]: "held (answer app r d) = held d"
  by (auto simp: answer_def split: option.split sum.split)

lemma held_local [simp]: "held (dispatchLocal E q r d) = held d"
  by (simp add: dispatchLocal_def Let_def split: option.split)

lemma held_request [simp]: "held (app_request E q i r d) = held d"
  by (auto simp: app_request_def Let_def split: option.split)

lemma step_live:
  assumes l: "live d" and guard: "steadfast E open_surb q e d"
  shows "live (daemon_step E open_surb n q e d)"
proof -
  have fresh: "fresh_surb (i_surb q) d" using guard by (simp add: steadfast_def careful_def)
  show ?thesis
  proof (cases e)
    case (AppConnects app c doc)
    with guard show ?thesis by (simp add: steadfast_def daemon_step_def connects_live [OF l])
  next
    case (AppToken i token)
    with guard show ?thesis by (auto simp: steadfast_def daemon_step_def intro!: token_live [OF l])
  next
    case (AppRequest i r)
    with request_live [OF l [unfolded live_def]] show ?thesis by (simp add: daemon_step_def live_def)
  next
    case (AppUnwritable i)
    with done_live [OF l] show ?thesis by (simp add: daemon_step_def)
  next
    case (AppCloses i x)
    with guard show ?thesis by (simp add: steadfast_def daemon_step_def closes_live [OF l])
  next
    case (GracePeriodEnds app token)
    with grace_live [OF l] show ?thesis by (simp add: daemon_step_def)
  next
    case (Slot dd)
    with slot_live [OF l] show ?thesis by simp
  next
    case Dispatch
    with dispatch_live [OF l] guard show ?thesis by simp
  next
    case Reschedule
    with guard show ?thesis by (auto simp: steadfast_def daemon_step_def intro!: reschedule_live [OF l fresh])
  next
    case (TimerFires j)
    with timer_live [OF l] show ?thesis by (simp add: daemon_step_def)
  next
    case (ReplyArrives s c)
    with arrives_live [OF l] l show ?thesis by (cases "in_reply d") (simp_all add: daemon_step_def)
  next
    case ReplyHandled
    with guard l show ?thesis
      by (auto simp: steadfast_def daemon_step_def intro!: handled_live [OF l _ fresh] split: option.split)
  next
    case (Collects j)
    with l show ?thesis by (auto simp: daemon_step_def surb_collected_def Let_def live_def split: option.split)
  qed
qed


lemma new_live: "live new_daemon"
  by (simp add: live_def live_but_def daemon_ok_def core_ok_def linked_def listener_ok_def waits_def open_only_def
      new_daemon_def new_listener_def held_def)

lemma reachable_live: "daemon_reach (steadfast E open_surb) E open_surb n d \<Longrightarrow> live d"
  by (induction rule: daemon_reach.induct) (simp_all add: new_live step_live)

end
