(* ===== verification/ClientArqProps.thy ===== *)
theory ClientArqProps
  imports ReplicaProps TrunnelProps ClientArqKept
begin

text \<open>
  Properties of the client daemon: its maps agree, a cancelled query is gone, a query of an application that stays
  is not forgotten; and what happens to one whose application is away when its timer fires, or that is cancelled
  while its reply is being handled.
\<close>

section \<open>A small daemon\<close>

text \<open>
  One courier, an application with one query. \<open>careful\<close> and \<open>steadfast\<close> are evaluated along a run.
\<close>

definition demo_client_env :: "(byte, byte, byte, byte, bytes, byte, byte, byte) client_env" where
  "demo_client_env = \<lparr>crep = demo_replica_env, cgeo = Some small_geometry, cPeriod = 1,
     desc_Marshal = (\<lambda>_. Some [1]), desc_Unmarshal = (\<lambda>_. None), priv_Bytes = (\<lambda>k. [k]), priv_Unmarshal = (\<lambda>_. None),
     client_Encapsulate = (\<lambda>r ks m. (0, 0, [], m)), new_WriteCap = (\<lambda>_. Some 0), ReadCap_of = (\<lambda>_. 0),
     FirstMessageBoxIndex = (\<lambda>_. 0), wc_MarshalBinary = (\<lambda>k. Some [k]), NextIndex = (\<lambda>i. Some (i + 1)), Idx64 = (\<lambda>_. 0),
     ix_FromBytes = (\<lambda>_. None), NewStatefulReaderWithIndex = (\<lambda>_ _. True), NextBoxID = (\<lambda>_ _. None),
     DecryptNext = (\<lambda>_ _ _ _ _. None), NewStatefulWriter = (\<lambda>_. True), NewStatefulWriterWithIndex = (\<lambda>_ _. True),
     PrepareNext = (\<lambda>_ _ _. None), EncryptNext = (\<lambda>_ _ _. None), SignBox = (\<lambda>_ _ _. ([], []))\<rparr>"

definition courier_document :: Document where
  "courier_document = demo_document\<lparr>ServiceNodes :=
     [(demo_node 4 False True)\<lparr>Kaetzchen := Some [(''courier'', Some [(''endpoint'', KString ''c'')])]\<rparr>]\<rparr>"

definition demo_inputs :: "int \<Rightarrow> bytes \<Rightarrow> inputs" where
  "demo_inputs now surb = \<lparr>i_doc = Some courier_document, i_signed = ((None, 0), Map.empty), i_now = now, i_epoch = 7,
     i_draws = (\<lambda>_. ([], [])), i_surb = surb, i_choice = 0, i_compose = (\<lambda>_ _ p s. Some (p @ s, [3], 10)),
     i_send = (\<lambda>_. ([3], 10, False))\<rparr>"

definition demo_query :: "(byte, byte, byte) Request" where
  "demo_query = (empty_request [])\<lparr>rq_StartResendingEncryptedMessage :=
     Some \<lparr>sr_QueryID = Some [7], sr_ReadCap = None, sr_WriteCap = Some 1, sr_MessageBoxIndex = None,
       sr_EnvelopeDescriptor = [1], sr_MessageCiphertext = [2], sr_EnvelopeHash = Some [9],
       sr_NoRetryOnBoxIDNotFound = False, sr_NoIdempotentBoxAlreadyExists = False\<rparr>\<rparr>"

text \<open>A SURB is opened to what it carries.\<close>

definition demo_open :: "bytes \<Rightarrow> bytes \<Rightarrow> bytes option" where "demo_open c k = Some c"

fun run :: "('pub, 'priv, 'np, 'ns, 'v, 'rc, 'wc, 'ix) client_env \<Rightarrow> (bytes \<Rightarrow> bytes \<Rightarrow> bytes option) \<Rightarrow> int
     \<Rightarrow> (inputs \<times> ('rc, 'wc, 'ix) event) list \<Rightarrow> ('rc, 'wc, 'ix) daemon \<Rightarrow> ('rc, 'wc, 'ix) daemon" where
  "run E os n [] d = d"
| "run E os n ((q, e) # es) d = run E os n es (daemon_step E os n q e d)"

fun run_keeps :: "(inputs \<Rightarrow> ('rc, 'wc, 'ix) event \<Rightarrow> ('rc, 'wc, 'ix) daemon \<Rightarrow> bool)
     \<Rightarrow> ('pub, 'priv, 'np, 'ns, 'v, 'rc, 'wc, 'ix) client_env \<Rightarrow> (bytes \<Rightarrow> bytes \<Rightarrow> bytes option) \<Rightarrow> int
     \<Rightarrow> (inputs \<times> ('rc, 'wc, 'ix) event) list \<Rightarrow> ('rc, 'wc, 'ix) daemon \<Rightarrow> bool" where
  "run_keeps g E os n [] d = True"
| "run_keeps g E os n ((q, e) # es) d \<longleftrightarrow> g q e d \<and> run_keeps g E os n es (daemon_step E os n q e d)"

lemma run_reach: "daemon_reach g E os n d \<Longrightarrow> run_keeps g E os n es d \<Longrightarrow> daemon_reach g E os n (run E os n es d)"
  by (induction es arbitrary: d) (auto, blast intro: daemon_reach.step)

definition demo_conn :: "((byte, byte, byte) Request, (byte, byte, byte) Response) conn" where
  "demo_conn = \<lparr>conn_appID = [5], clientToken = None, explicitClose = False, requestCh = [], resendCh = [],
     sendQueue = [ConnectionStatusEvent True, NewPKIDocumentEvent []], conn_done = False, worker_ended = False, initialSequenceDone = True\<rparr>"

definition demo_message :: "byte ARQMessage" where
  "demo_message = \<lparr>MessageType = ARQMessageTypeEnvelope, AppID = [5], QueryID = [7], EnvelopeHash = [9],
     DestinationIdHash = 4 # replicate 31 0, RecipientQueueID = map of_char ''c'', arq_Payload = [2], SURBID = (1, [14]),
     SURBDecryptionKeys = [3], Retransmissions = 0, SentAt = 4, ReplyETA = 10, arq_EnvelopeDescriptor = [1], IsRead = False,
     arq_State = ARQStateWaitingForACK, arq_ReadCap = None, arq_MessageBoxIndex = None, NoRetryOnBoxIDNotFound = False,
     NoIdempotentBoxAlreadyExists = False\<rparr>"

definition demo_connected :: "(byte, byte, byte) daemon" where
  "demo_connected = new_daemon\<lparr>lst := new_listener\<lparr>conn_at := [0 \<mapsto> demo_conn], next_conn := 1, conns := [[5] \<mapsto> 0],
     connOrder := [[5]]\<rparr>\<rparr>"

definition demo_asked :: "(byte, byte, byte) daemon" where
  "demo_asked = demo_connected\<lparr>egressCh := [FromThinRequest [5] demo_query]\<rparr>"

definition demo_daemon :: "(byte, byte, byte) daemon" where
  "demo_daemon = demo_connected\<lparr>arqMessages := [0 \<mapsto> demo_message], next_addr := 2, arqSurbIDMap := [([14], 0)],
     arqEnvelopeHashMap := [[9] \<mapsto> (1, [14])], arqTimerQueue := [(4 + 10 + RoundTripTimeSlop, (1, [14]))], packets := [[2, 14]]\<rparr>"

lemma demo_connects: "daemon_step demo_client_env demo_open 0 (demo_inputs 1 [11]) (AppConnects [5] True []) new_daemon = demo_connected"
  by (simp add: daemon_step_def demo_connected_def new_daemon_def new_listener_def onNewConn_def registerConn_def upd_conn_def
      sendResponse_def demo_conn_def Let_def fun_eq_iff)

lemma demo_request_slot:
  "daemon_step demo_client_env demo_open 0 (demo_inputs 3 [13]) (Slot True)
     (daemon_step demo_client_env demo_open 0 (demo_inputs 2 [12]) (AppRequest 0 demo_query) demo_connected) = demo_asked"
  by (simp add: daemon_step_def demo_connected_def demo_asked_def new_daemon_def new_listener_def app_request_def demo_conn_def
      demo_query_def empty_request_def FromThinRequest_def isLocalRequest_def queue_request_def upd_conn_def pickAndSend_def PickNextRequest_def
      conn_in_order_def take_next_def slot_request_def perClientRequestBuf_def Let_def fun_eq_iff)

lemma demo_dispatch: "daemon_step demo_client_env demo_open 0 (demo_inputs 4 [14]) Dispatch demo_asked = demo_daemon"
  by (simp add: daemon_step_def demo_asked_def demo_daemon_def demo_connected_def new_daemon_def dispatchMixnet_def demo_query_def
      empty_request_def FromThinRequest_def startResendingEncryptedMessage_def validateStartResendingRequest_def demo_inputs_def
      GetRandomCourier_def FindServices_def courier_document_def service_endpoint_def go_bind_def demo_node_def raw_key_def
      demo_client_env_def demo_replica_env_def demo_pki_def arqSend_def push_timer_def demo_message_def Let_def fun_eq_iff)


lemma demo_guards:
  "steadfast demo_client_env demo_open (demo_inputs 1 [11]) (AppConnects [5] True []) new_daemon"
  "steadfast demo_client_env demo_open (demo_inputs 2 [12]) (AppRequest 0 demo_query) demo_connected"
  "steadfast demo_client_env demo_open (demo_inputs 3 [13]) (Slot True)
     (daemon_step demo_client_env demo_open 0 (demo_inputs 2 [12]) (AppRequest 0 demo_query) demo_connected)"
  "steadfast demo_client_env demo_open (demo_inputs 4 [14]) Dispatch demo_asked"
  by (simp_all add: steadfast_def careful_def fresh_surb_def alive_def held_def new_daemon_def new_listener_def demo_connected_def
      demo_asked_def daemon_step_def app_request_def demo_conn_def demo_query_def empty_request_def FromThinRequest_def
      isLocalRequest_def queue_request_def upd_conn_def started_hash_def getConnection_def)

lemma demo_reach: "daemon_reach (steadfast demo_client_env demo_open) demo_client_env demo_open 0 demo_daemon"
  unfolding demo_dispatch [symmetric] demo_request_slot [symmetric] demo_connects [symmetric]
  by (intro daemon_reach.intros) (simp_all add: demo_guards demo_connects demo_request_slot)

lemma reach_weaken: "daemon_reach g E os n d \<Longrightarrow> (\<And>q e d. g q e d \<Longrightarrow> g' q e d) \<Longrightarrow> daemon_reach g' E os n d"
  by (induction rule: daemon_reach.induct) (auto intro: daemon_reach.intros)

lemma demo_careful: "daemon_reach (careful demo_client_env) demo_client_env demo_open 0 demo_daemon"
  by (rule reach_weaken [OF demo_reach]) (simp add: steadfast_def)

section \<open>The properties\<close>

text \<open>
  C12. As long as no SURB ID is drawn twice and no operation is started whose hash is that of one still alive, whatever
  applications do, whatever arrives and whichever worker comes next: the map from SURB IDs and the map from
  hashes name the same messages, each under the SURB ID and the hash it bears, so that a cancellation finds
  what a resend would send.
\<close>

theorem client_maps_agree:
  assumes "daemon_reach (careful E) E open_surb payloadLength d"
  shows "(\<forall>s a. map_of (arqSurbIDMap d) s = Some a \<longrightarrow>
       (\<exists>m. arqMessages d a = Some m \<and> snd (SURBID m) = s \<and> arqEnvelopeHashMap d (EnvelopeHash m) = Some (SURBID m))) \<and>
     (\<forall>h ref. arqEnvelopeHashMap d h = Some ref \<longrightarrow>
       (\<exists>a m. map_of (arqSurbIDMap d) (snd ref) = Some a \<and> arqMessages d a = Some m \<and> EnvelopeHash m = h \<and> SURBID m = ref))"
  using reachable_daemon_ok [OF assms] daemon_ok_tracked daemon_ok_hashed by blast

lemma client_maps_agree_witness:
  "\<exists>m. arqMessages demo_daemon 0 = Some m \<and> snd (SURBID m) = [14] \<and> arqEnvelopeHashMap demo_daemon (EnvelopeHash m) = Some (SURBID m)"
proof -
  have "map_of (arqSurbIDMap demo_daemon) [14] = Some 0" by (simp add: demo_daemon_def)
  with client_maps_agree [OF demo_careful] show ?thesis by blast
qed

text \<open>
  A query that is cancelled is gone: its hash names nothing, no message with the hash will be resent
  when a timer fires, and the application is told both that its call was cancelled and that the cancellation
  succeeded.
\<close>

lemma cancelled_is_gone:
  assumes reach: "daemon_reach (careful E) E open_surb payloadLength d" and conn: "getConnection app (lst d) = Some i"
    and req: "cr_QueryID req = Some qid" "cr_EnvelopeHash req = Some h"
    and tracked: "map_of (arqSurbIDMap d) s = Some a" "arqMessages d a = Some m" "EnvelopeHash m = h"
  shows "let d' = cancelResendingEncryptedMessage app req d in
     arqEnvelopeHashMap d' h = None \<and>
     (\<forall>s' a' m'. map_of (arqSurbIDMap d') s' = Some a' \<and> arqMessages d' a' = Some m' \<longrightarrow> EnvelopeHash m' \<noteq> h) \<and>
     lst d' = sendResponse i (CancelResendingEncryptedMessageReply (Some qid) ThinClientSuccess)
       (sendResponse i (StartResendingEncryptedMessageReply (Some (QueryID m)) None ThinClientErrorStartResendingCancelled
          (Some (DestinationIdHash m, RecipientQueueID m))) (lst d))"
proof -
  have ok: "daemon_ok d" by (rule reachable_daemon_ok [OF reach])
  have m: "snd (SURBID m) = s" "arqEnvelopeHashMap d h = Some (SURBID m)"
    using daemon_ok_tracked [OF ok tracked(1)] tracked(2,3) by auto
  have other: "EnvelopeHash m' \<noteq> h" if "map_of (arqSurbIDMap d) s' = Some a'" "arqMessages d a' = Some m'" "s' \<noteq> s" for s' a' m'
    using daemon_ok_tracked [OF ok that(1)] that(2,3) m by auto
  show ?thesis
    using conn req tracked m other
    by (auto simp: cancelResendingEncryptedMessage_def cancel_hash_def Let_def respond_def getConnection_def sendResponse_def map_of_delete
        cancel_timer_def)
qed

lemma cancelled_is_gone_witness:
  "arqEnvelopeHashMap (cancelResendingEncryptedMessage [5] \<lparr>cr_QueryID = Some [6], cr_EnvelopeHash = Some [9]\<rparr> demo_daemon) [9] = None"
proof -
  have "getConnection [5] (lst demo_daemon) = Some 0" "map_of (arqSurbIDMap demo_daemon) [14] = Some 0"
    "arqMessages demo_daemon 0 = Some demo_message" "EnvelopeHash demo_message = [9]"
    by (simp_all add: demo_daemon_def demo_connected_def getConnection_def demo_message_def)
  then show ?thesis
    using cancelled_is_gone [OF demo_careful, of "[5]" 0 "\<lparr>cr_QueryID = Some [6], cr_EnvelopeHash = Some [9]\<rparr>" "[6]" "[9]" "[14]" 0 demo_message]
    by (simp add: Let_def)
qed

text \<open>
  C11. No query is forgotten in a run that is \<open>steadfast\<close>: every query that is tracked has a timer entry, a resend
  in the queue of its application's connection or among the requests to be sent, or is in the hands of a worker.
  The run keeps to these conditions: the connection of an application with a query stays as it is; no SURB ID is
  drawn twice and no operation started whose hash is that of one still alive; no cancellation or answer falls between
  a resend that could not be composed and its being put off; and no copy command is answered with anything but a
  copy command's reply. Without the last two the code does lose or revive a query.
\<close>

theorem no_query_forgotten:
  assumes reach: "daemon_reach (steadfast E open_surb) E open_surb payloadLength d"
    and tracked: "map_of (arqSurbIDMap d) s = Some a" "arqMessages d a = Some m"
  shows "(\<exists>e \<in> set (arqTimerQueue d). snd (snd e) = s)
     \<or> (\<exists>i c. getConnection (AppID m) (lst d) = Some i \<and> conn_at (lst d) i = Some c \<and> s \<in> snd ` set (resendCh c))
     \<or> (\<exists>r \<in> set (egressCh d). map_option snd (rq_ResendARQ r) = Some s)
     \<or> (\<exists>c. in_reply d = Some (a, c)) \<or> in_resend d = Some a"
proof -
  have "waits d (held d)" using reachable_live [OF reach] by (simp add: live_def live_but_def)
  with tracked have "a \<in> held d \<or> waiting (AppID m) s d" by (auto simp: waits_def)
  then show ?thesis
  proof
    assume "a \<in> held d"
    then show ?thesis by (auto simp: held_def split: option.splits)
  next
    assume "waiting (AppID m) s d"
    then show ?thesis by (auto simp: waiting_def queued_resend_def getConnection_def split: option.splits)
  qed
qed

lemma no_query_forgotten_witness:
  "map_of (arqSurbIDMap demo_daemon) [14] = Some 0 \<and> (\<exists>e \<in> set (arqTimerQueue demo_daemon). snd (snd e) = [14])"
proof -
  have t: "map_of (arqSurbIDMap demo_daemon) [14] = Some 0" "arqMessages demo_daemon 0 = Some demo_message"
    "getConnection (AppID demo_message) (lst demo_daemon) = Some 0" "conn_at (lst demo_daemon) 0 = Some demo_conn"
    "egressCh demo_daemon = []" "in_reply demo_daemon = None" "in_resend demo_daemon = None"
    by (simp_all add: demo_daemon_def demo_connected_def getConnection_def demo_message_def new_daemon_def)
  from no_query_forgotten [OF demo_reach t(1,2)] t show ?thesis by (simp add: demo_conn_def)
qed

text \<open>The same application with a session, away: another connection has come, over which it is about to resume.\<close>

definition away_steps :: "(inputs \<times> (byte, byte, byte) event) list" where
  "away_steps = [(demo_inputs 5 [15], AppToken 0 [8]), (demo_inputs 6 [16], AppCloses 0 False), (demo_inputs 7 [17], AppConnects [6] True [])]"

definition away_daemon :: "(byte, byte, byte) daemon" where
  "away_daemon = run demo_client_env demo_open 0 away_steps demo_daemon"

lemma away_lst: "getConnection [5] (lst away_daemon) = None" "clientTokens (lst away_daemon) [8] = Some [5]"
  "\<exists>c. conn_at (lst away_daemon) 1 = Some c \<and> resendCh c = []"
  "arqSurbIDMap away_daemon = [([14], 0)]" "arqMessages away_daemon 0 = Some demo_message"
  "arqTimerQueue away_daemon = [(4 + 10 + RoundTripTimeSlop, (1, [14]))]" "egressCh away_daemon = []"
  by (simp_all add: away_daemon_def away_steps_def daemon_step_def demo_daemon_def demo_connected_def new_daemon_def new_listener_def
      handleSessionToken_def onClosedConn_def closeDone_def cleanup_after_def onNewConn_def registerConn_def unregisterConn_def upd_conn_def
      sendResponse_def demo_conn_def getConnection_def Let_def)

lemma sends_keep:
  "conn_at l i = Some c \<Longrightarrow> \<exists>c'. conn_at (fold (sendResponse i) rs l) i = Some c' \<and> resendCh c' = resendCh c \<and> conns (fold (sendResponse i) rs l) = conns l"
proof (induction rs arbitrary: l c)
  case (Cons r rs)
  have "\<exists>c'. conn_at (sendResponse i r l) i = Some c' \<and> resendCh c' = resendCh c" using Cons.prems by (simp add: sendResponse_def conn_at_upd)
  then obtain c' where c': "conn_at (sendResponse i r l) i = Some c'" "resendCh c' = resendCh c" by blast
  from Cons.IH [OF c'(1)] c'(2) show ?case by (simp add: sendResponse_def)
qed simp

lemma token_resumes:
  assumes "clientTokens l token = Some app" "conn_at l i = Some c"
  shows "getConnection app (handleSessionToken reply i token l) = Some i \<and>
    (\<forall>c'. conn_at (handleSessionToken reply i token l) i = Some c' \<longrightarrow> resendCh c' = resendCh c)"
proof -
  let ?l1 = "(upd_conn i (\<lambda>c. c\<lparr>conn_appID := app\<rparr>) l)
    \<lparr>conns := (conns l)(conn_appID c := None, app \<mapsto> i),
     connOrder := (if conn_appID c \<in> set (connOrder l)
       then (connOrder l)[length (takeWhile (\<lambda>x. x \<noteq> conn_appID c) (connOrder l)) := app] else connOrder l)\<rparr>"
  have "conn_at ?l1 i = Some (c\<lparr>conn_appID := app\<rparr>)" using assms(2) by (simp add: conn_at_upd)
  from sends_keep [OF this, of "case disconnectedSessions l app of None \<Rightarrow> [] | Some s \<Rightarrow> QueuedReplies s"] show ?thesis
    using assms by (auto simp: handleSessionToken_def getConnection_def Let_def sendResponse_def [of i "reply app True"] conn_at_upd split: option.split)
qed

text \<open>
  C33. A query whose application is away when its timer fires is not sent again: the timer entry is gone, nothing
  else brings the query on, and when the application resumes its session it is still tracked, with
  nothing that will send it.
\<close>

theorem resend_lost_while_away:
  assumes tracked: "map_of (arqSurbIDMap d) s = Some a" "arqMessages d a = Some m" and away: "getConnection (AppID m) (lst d) = None"
    and due: "j < length (arqTimerQueue d)" "snd (snd (arqTimerQueue d ! j)) = s" "\<forall>e \<in> set (arqTimerQueue d). fst (arqTimerQueue d ! j) \<le> fst e"
    and only: "\<And>e. e \<in> set (take j (arqTimerQueue d) @ drop (Suc j) (arqTimerQueue d)) \<Longrightarrow> snd (snd e) \<noteq> s"
      "\<And>r. r \<in> set (egressCh d) \<Longrightarrow> map_option snd (rq_ResendARQ r) \<noteq> Some s"
    and resumes: "clientTokens (lst d) token = Some (AppID m)" "conn_at (lst d) i = Some c" "resendCh c = []"
  shows "let d' = daemon_step E open_surb n q' (AppToken i token) (daemon_step E open_surb n q (TimerFires j) d) in
     map_of (arqSurbIDMap d') s = Some a \<and> arqMessages d' a = Some m \<and> getConnection (AppID m) (lst d') = Some i \<and>
     \<not> (\<exists>e \<in> set (arqTimerQueue d'). snd (snd e) = s) \<and> (\<forall>c. conn_at (lst d') i = Some c \<longrightarrow> resendCh c = []) \<and>
     \<not> (\<exists>r \<in> set (egressCh d'). map_option snd (rq_ResendARQ r) = Some s)"
proof -
  let ?q = "take j (arqTimerQueue d) @ drop (Suc j) (arqTimerQueue d)"
  have fired: "daemon_step E open_surb n q (TimerFires j) d = d\<lparr>arqTimerQueue := ?q\<rparr>"
    using tracked away due by (simp add: daemon_step_def timer_fires_def enqueueResend_def)
  have "map_of (arqSurbIDMap d) s = Some a" "arqMessages d a = Some m" by fact+
  with only token_resumes [OF resumes(1,2)] resumes(3) show ?thesis
    unfolding fired Let_def by (simp add: daemon_step_def)
qed

lemma resend_lost_while_away_witness:
  "let d' = daemon_step demo_client_env demo_open 0 (demo_inputs 8 [18]) (AppToken 1 [8])
       (daemon_step demo_client_env demo_open 0 (demo_inputs 30000000000 [19]) (TimerFires 0) away_daemon) in
     map_of (arqSurbIDMap d') [14] = Some 0 \<and> getConnection [5] (lst d') = Some 1 \<and> \<not> (\<exists>e \<in> set (arqTimerQueue d'). snd (snd e) = [14])"
proof -
  obtain c where c: "conn_at (lst away_daemon) 1 = Some c" "resendCh c = []" using away_lst(3) by blast
  have "map_of (arqSurbIDMap away_daemon) [14] = Some 0" "AppID demo_message = [5]"
    "\<forall>e \<in> set (arqTimerQueue away_daemon). fst (arqTimerQueue away_daemon ! 0) \<le> fst e"
    by (simp_all add: away_lst demo_message_def demo_inputs_def RoundTripTimeSlop_def)
  then show ?thesis
    using resend_lost_while_away [of away_daemon "[14]" 0 demo_message 0 "[8]" 1 c
        demo_client_env demo_open 0 "demo_inputs 8 [18]" "demo_inputs 30000000000 [19]"] away_lst c by (auto simp: Let_def)
qed

text \<open>
  A write that is cancelled between the moment its reply is matched and the moment it is acted on has two
  final answers: the application is told that it was cancelled, and then that it succeeded.
\<close>

lemma cancelled_then_answered:
  assumes hands: "in_reply d = Some (a, c)" "arqMessages d a = Some m"
    and named: "arqEnvelopeHashMap d (EnvelopeHash m) = Some (SURBID m)" "map_of (arqSurbIDMap d) (snd (SURBID m)) = Some a"
    and conn: "getConnection (AppID m) (lst d) = Some i" "conn_at (lst d) i = Some k" "conn_appID k = AppID m" "\<not> conn_done k" "\<not> worker_ended k"
    and acked: "open_surb c (SURBDecryptionKeys m) = Some p" "ParseCourierQueryReply p = Inr r" "cqr_ReplyType r = 0"
      "cqr_EnvelopeReply r = Some env" "cer_ReplyType env = 0" "courierEnvelopeErrorToThinError (cer_ErrorCode env) = 0"
    and plain_write: "MessageType m = ARQMessageTypeEnvelope" "\<not> IsRead m" "\<not> NoIdempotentBoxAlreadyExists m" "arq_State m = ARQStateWaitingForACK"
    and cancel: "req = (empty_request [])\<lparr>rq_CancelResendingEncryptedMessage := Some \<lparr>cr_QueryID = Some qid, cr_EnvelopeHash = Some (EnvelopeHash m)\<rparr>\<rparr>"
  shows "let d' = daemon_step E open_surb n q' ReplyHandled (daemon_step E open_surb n q (AppRequest i req) d) in
     \<exists>k'. conn_at (lst d') i = Some k' \<and> sendQueue k' = sendQueue k @
       [StartResendingEncryptedMessageReply (Some (QueryID m)) None ThinClientErrorStartResendingCancelled (Some (DestinationIdHash m, RecipientQueueID m)),
        CancelResendingEncryptedMessageReply (Some qid) ThinClientSuccess,
        StartResendingEncryptedMessageReply (Some (QueryID m)) None ThinClientSuccess (Some (DestinationIdHash m, RecipientQueueID m))]"
proof -
  let ?d1 = "daemon_step E open_surb n q (AppRequest i req) d"
  let ?cancelled = "[StartResendingEncryptedMessageReply (Some (QueryID m)) None ThinClientErrorStartResendingCancelled (Some (DestinationIdHash m, RecipientQueueID m)),
        CancelResendingEncryptedMessageReply (Some qid) ThinClientSuccess]"
  have r': "FromThinRequest (AppID m) req = (empty_request (AppID m))\<lparr>rq_CancelResendingEncryptedMessage :=
      Some \<lparr>cr_QueryID = Some qid, cr_EnvelopeHash = Some (EnvelopeHash m)\<rparr>\<rparr>"
    by (simp add: cancel FromThinRequest_def empty_request_def)
  have d1: "?d1 = dispatchLocal E q (FromThinRequest (AppID m) req) d"
    using conn unfolding daemon_step_def app_request_def by (simp add: r' isLocalRequest_def empty_request_def)
  have "in_reply ?d1 = Some (a, c) \<and> arqMessages ?d1 a = Some m \<and> conns (lst ?d1) = conns (lst d)
    \<and> conn_at (lst ?d1) i = Some (k\<lparr>sendQueue := sendQueue k @ ?cancelled\<rparr>)"
    unfolding d1 using hands named conn
    by (simp add: dispatchLocal_def r' empty_request_def cancelResendingEncryptedMessage_def cancel_hash_def Let_def respond_def
        getConnection_def sendResponse_def conn_at_upd)
  then have d1: "in_reply ?d1 = Some (a, c)" "arqMessages ?d1 a = Some m" "getConnection (AppID m) (lst ?d1) = Some i"
    "conn_at (lst ?d1) i = Some (k\<lparr>sendQueue := sendQueue k @ ?cancelled\<rparr>)" using conn(1) by (simp_all add: getConnection_def)
  have "lst (daemon_step E open_surb n q' ReplyHandled ?d1) = sendResponse i (StartResendingEncryptedMessageReply (Some (QueryID m)) None
      ThinClientSuccess (Some (DestinationIdHash m, RecipientQueueID m))) (lst ?d1)"
    using d1(1-3) acked plain_write
    by (simp add: daemon_step_def [of _ _ _ _ ReplyHandled] handlePigeonholeARQReply_def handleEnvelopeARQReply_def computeARQStateTransition_def
        transition_to_def Let_def ARQMessageTypeEnvelope_def ARQMessageTypeCopyCommand_def finishARQMessage_def respond_def)
  with d1(4) conn(4) show ?thesis by (simp add: sendResponse_def conn_at_upd Let_def)
qed

text \<open>The reply of the courier to a write.\<close>

definition demo_ack_reply :: CourierEnvelopeReply where
  "demo_ack_reply = \<lparr>cer_EnvelopeHash = replicate 32 0, cer_ReplyIndex = 0, cer_ReplyType = 0, cer_PayloadLen = 0, cer_Payload = [], cer_ErrorCode = 0\<rparr>"

definition demo_ack :: bytes where
  "demo_ack = CourierQueryReply_encodeBinary \<lparr>cqr_ReplyType = 0, cqr_EnvelopeReply = Some demo_ack_reply, cqr_CopyCommandReply = None\<rparr>"

lemma demo_ack_parsed:
  "ParseCourierQueryReply demo_ack = Inr \<lparr>cqr_ReplyType = 0, cqr_EnvelopeReply = Some demo_ack_reply, cqr_CopyCommandReply = None\<rparr>"
proof -
  let ?r = "\<lparr>cqr_ReplyType = 0, cqr_EnvelopeReply = Some demo_ack_reply, cqr_CopyCommandReply = None\<rparr>"
  have "CourierQueryReply_fits ?r"
    by (simp add: CourierQueryReply_fits_def tagged_def CourierEnvelopeReply_validate_def demo_ack_reply_def)
  moreover have "length demo_ack \<le> MaxParseSize"
    by (simp add: demo_ack_def demo_ack_reply_def CourierQueryReply_encodeBinary_def opt_encode_def CourierEnvelopeReply_encodeBinary_def
        put32_def MaxParseSize_def)
  ultimately show ?thesis
    unfolding ParseCourierQueryReply_def query_reply.parse_all_iff by (auto simp: demo_ack_def)
qed

text \<open>The daemon once the reply to its query has been matched.\<close>

definition answered_daemon :: "(byte, byte, byte) daemon" where
  "answered_daemon = daemon_step demo_client_env demo_open 0 (demo_inputs 5 [15]) (ReplyArrives [14] demo_ack) demo_daemon"

lemma answered_daemon_fields:
  "in_reply answered_daemon = Some (0, demo_ack)" "arqMessages answered_daemon 0 = Some demo_message"
  "arqEnvelopeHashMap answered_daemon [9] = Some (1, [14])" "map_of (arqSurbIDMap answered_daemon) [14] = Some 0"
  "getConnection [5] (lst answered_daemon) = Some 0" "conn_at (lst answered_daemon) 0 = Some demo_conn"
  by (simp_all add: answered_daemon_def daemon_step_def demo_daemon_def demo_connected_def new_daemon_def handleReply_def cancel_timer_def
      getConnection_def)

lemma cancelled_then_answered_witness:
  "\<exists>k'. conn_at (lst (daemon_step demo_client_env demo_open 0 (demo_inputs 7 [17]) ReplyHandled
       (daemon_step demo_client_env demo_open 0 (demo_inputs 6 [16]) (AppRequest 0 ((empty_request [])
          \<lparr>rq_CancelResendingEncryptedMessage := Some \<lparr>cr_QueryID = Some [6], cr_EnvelopeHash = Some [9]\<rparr>\<rparr>)) answered_daemon))) 0 = Some k'
     \<and> length (sendQueue k') = 5"
proof -
  have m: "EnvelopeHash demo_message = [9]" "SURBID demo_message = (1, [14])" "AppID demo_message = [5]"
    "MessageType demo_message = ARQMessageTypeEnvelope" "\<not> IsRead demo_message" "\<not> NoIdempotentBoxAlreadyExists demo_message"
    "arq_State demo_message = ARQStateWaitingForACK" "demo_open demo_ack (SURBDecryptionKeys demo_message) = Some demo_ack"
    "conn_appID demo_conn = [5]" "\<not> conn_done demo_conn" "\<not> worker_ended demo_conn" "length (sendQueue demo_conn) = 2" "cer_ReplyType demo_ack_reply = 0"
    by (simp_all add: demo_message_def demo_open_def demo_conn_def demo_ack_reply_def)
  have "courierEnvelopeErrorToThinError (cer_ErrorCode demo_ack_reply) = 0" by code_simp
  with m show ?thesis
    using cancelled_then_answered [of answered_daemon 0 demo_ack demo_message 0 demo_conn demo_open demo_ack
        "\<lparr>cqr_ReplyType = 0, cqr_EnvelopeReply = Some demo_ack_reply, cqr_CopyCommandReply = None\<rparr>" demo_ack_reply
        "(empty_request []) \<lparr>rq_CancelResendingEncryptedMessage := Some \<lparr>cr_QueryID = Some [6], cr_EnvelopeHash = Some [9]\<rparr>\<rparr>" "[6]"
        demo_client_env 0 "demo_inputs 7 [17]" "demo_inputs 6 [16]"]
      demo_ack_parsed answered_daemon_fields by (auto simp: Let_def)
qed

end
