(* ===== verification/Spec2Isabelle.thy ===== *)
theory Spec2Isabelle
  imports WireProps SphinxKemProps SphinxSafety CopyStreamProps CertProps EpochTime SharedRandom PKIProps AuthorityAgree AuthorityTopology
    TrunnelProps ReplicaRebalance CourierProps CoreTimer MixSchedProps MixDeliver SphinxRouteProps ClientArqProps
begin

text \<open>
  A verification library for the Katzenpost mix network, the Go code under src/katzenpost.

  The program. Clients send messages through mix nodes in Sphinx packets, and store and fetch boxes of data
  (Pigeonhole): a client sends an envelope to a courier, a courier passes it to two storage replicas, a
  replica keeps the boxes whose keys hash to it and passes other requests on. Directory authorities agree
  once per epoch on a document that lists the nodes and replicas. All of them talk over links that pad
  every command to one size.

  Theories, from the bottom up, with the code each of them models:

  \<^item> Prelude: byte strings, the result of a Go call (a value, an error, a panic), slices, copies and big-endian
    integers; the constant-time zero test (core/utils/ctIsZero.go). The interface of the integer codecs is the
    locale int_codec, interpreted for 2, 4 and 8 bytes.
  \<^item> SphinxGeometry (core/sphinx/geo, constants, sizes of internal/crypto), SphinxCommands
    (core/sphinx/commands), SphinxPacket (sphinx.go, kemsphinx.go, surb.go, new_sphinx.go): sizes, routing
    commands, the construction and unwrapping of packets and reply blocks for both kinds of key exchange. SphinxPath
    has the shared lemmas on the layers of a header, SphinxProps and SphinxKemProps delivery and replies,
    SphinxSafety what Unwrap accepts and that it does not panic. SphinxRoute (core/sphinx/path/path.go) chooses the hops, keys,
    delays and commands of a path, SphinxRouteProps has what a chosen path is (one node of each layer, each hop with its
    key of the epoch in which the packet arrives).
  \<^item> PigeonholeGeometry (pigeonhole/geo), CopyStream and CopyStreamProps (pigeonhole/copy_stream.go), Trunnel and
    TrunnelProps (trunnel_messages.go), PigeonholeHelpers and PigeonholeHelperProps (helpers.go, conversions.go,
    errors.go, pki.go): sizes, the stream of envelopes, the wire records, padding, the choice of relays. The two
    levels of framing are interpretations of the locale frame_stream, the thirteen records of wire_record.
  \<^item> WireTypes, WireEncode, WireDecode and WireProps (core/wire/commands): every link command, its encoding,
    padding and parser.
  \<^item> Cert and CertProps (core/cert), SharedRandom (core/pki/sharedrandom.go), EpochTime (core/epochtime),
    PKIDocument and PKIProps (core/pki/document.go, descriptor.go): what the directory protocol is made of.
  \<^item> AuthorityState, AuthorityUploads, AuthorityTally, AuthorityFsm (authority/voting/server/state.go,
    wire_handler.go, server.go) and AuthorityClient (authority/voting/client/client.go): the state of an authority,
    the handlers for what its peers upload, the making of documents, the schedule, the client. AuthorityProps (the
    locale upload_slots, interpreted for the four uploads), AuthorityInv (the invariant of the reachable states),
    AuthoritySchedule (the refinement of the clockwork), AuthorityConsensus, AuthorityAgree and AuthorityTopology
    hold the properties, AuthorityDemo a small configuration for the witnesses.
  \<^item> ReplicaShard (replica/common), ReplicaStore (replica/state.go, state_gc.go, state_rebalance_marker.go),
    ReplicaHandlers (handlers.go, envelope_epoch.go) and ReplicaConnector (connector.go, replication_reply.go): which
    replicas keep a box, the boxes, the handlers and the sending to other replicas. ReplicaProps has the
    invariant, ReplicaRefine the refinement of the store of two generations, ReplicaRebalance what rebalancing and the
    retry queue do to a deleted box.
  \<^item> CourierCache (the cache and dispatch of courier/server/plugin.go, envelope_epoch.go, connector.go) and CourierCopy
    (the copy commands of plugin.go, copy_errors.go): what the courier remembers of an envelope and answers, and how it
    reads a stream of envelopes from boxes, sends them on and cleans up. CourierProps and CourierCopyProps hold the
    properties.
  \<^item> The client daemon (client/): ClientListener (listener.go, incoming_conn.go, sender.go) with the connections, sessions
    and the round robin over them, ClientTypes (thin_messages.go, thin/thin_messages.go, the state machine of arq.go) with
    requests and responses, ClientEnvelope, ClientCopy and ClientReply (pigeonhole.go) with the making of envelopes and the
    reading of replies, ClientArq and ClientDaemon (pigeonhole.go, daemon.go) with the retransmission, ClientSteps with the
    dispatch and the steps of the whole daemon, each of them what a handler does under one hold of the lock (a
    connection may become unwritable at any step).
    ClientListenerProps has the listener's invariant and fairness, ClientArqInv the invariant of the two maps, ClientArqLive
    and ClientArqKept what keeps a query from being forgotten, ClientArqProps the properties.

  \<^item> CoreQueue and CoreTimer (core/queue): the binary heap, with the interface of a minimum queue as the locale min_queue,
    and the timer queue with its worker; the client daemon's timers and the scheduler of a mix rest on them.
  \<^item> The mix node (server/internal/): MixPacket (packet), MixKeys (mixkey, mixkeys) with keys, replay filters and reference
    counts, MixWorker (cryptoworker) with unwrapping and routing, MixScheduler (scheduler) with the delays. MixKeyProps has
    the invariant of the counts, MixProps the replay filter, MixSchedProps what becomes of a scheduled packet, and MixDeliver
    puts the packet format and the workers of a path together.

  Conventions. A Go function that can fail returns \<open>go\<close>: \<open>Inr\<close> the result, \<open>Inl (Err e)\<close> an error value,
  \<open>Inl Panic\<close> a panic, so that nil pointers, bad slices and missing keys of the code are branches of the model. Integers
  of fixed width are words; \<open>int\<close> stands for Go's int where the code adds lengths that are far from its bounds, and times
  are nanoseconds. A nil slice or pointer is \<open>None\<close> where the code tells it apart. A method that changes its receiver
  returns it. A Go map is a map where only single entries are read or written and an association list where it is
  traversed; the order of the traversal is then an argument, and a property says so if it holds for every order.
  Readings of the clock, numbers from the random source and what the network answers are arguments too. A
  mutex makes a step of its handler; concurrent handlers are sequences of such steps.

  Parameters and their laws. Code outside the repository is an argument of the definitions: the cryptography of
  hpqc (\<open>crypto\<close>, \<open>cert_env\<close>, \<open>pki_env\<close>, \<open>replica_env\<close>, \<open>copy_env\<close>, \<open>client_env\<close>), the bloom filter and key pairs of a mix (\<open>mix_env\<close>), CBOR, URL parsing and RocksDB (\<open>rocks\<close>). What a property needs
  of them is a named hypothesis: \<open>crypto_laws\<close> and \<open>nike_laws\<close> (decryption inverts encryption, both ends derive the
  same key, lengths), \<open>deks_law\<close> and \<open>reads_stream\<close> (two keys per envelope, a reader returns the boxes of its stream), \<open>scheme_law\<close> and \<open>cbor_law\<close> (what is signed verifies, what is encoded decodes), \<open>rocks_law\<close> and
  \<open>working\<close> (the database holds what was put, in the order of its keys; the first one allows every failure), \<open>bloom_law\<close> (the filter
  forgets no tag). Each such
  property has a witness on concrete functions that satisfy the laws. Nothing is assumed about the hardness of
  forging or inverting: the properties say which checks have been passed.

  What the lemmas show. Sphinx: a packet is delivered hop by hop at constant size, replies come back, Unwrap accepts
  only authentic headers and never panics. Links: encoding and parsing are inverse, the exact size of
  every command (what clients send is equally long, what gateways send not quite), and the exact inputs that panic the parser. Certificates: what a threshold of signatures proves.
  Authorities: every document served is signed by a quorum, two quorums intersect, the state keeps only authentic
  uploads and each of them once, the schedule is a clockwork, the tally is exact and, for votes that name no node twice,
  the same for all, and the topology is balanced as long as the number of layers stays. Pigeonhole: the records are coded canonically, messages of a kind are padded to one length, the copy
  stream loses nothing, relays differ, one pass finds the two replicas of a box. Replicas: every box is
  signed, and a replica is a store of two generations in which a box is written once and only a tombstone replaces it.
  The courier: its answers are authentic and never go back, a copy command has exactly one of its results, its tombstones delete nothing.
  Queues: the heap is a multiset with a least entry, and nothing is timed early unless something was cancelled. The mix
  node: the workers of a path deliver a packet, no packet is processed twice, the scheduler loses none and hands on none before
  its delay, and no key in use is closed.
  The client daemon: its maps agree and a cancelled query is gone as long as no operation is started with a hash that is still
  alive (\<open>careful\<close>), a query is not forgotten under the further conditions of \<open>steadfast\<close>, each of which names a behaviour of
  the code or of an application that breaks it, the listener's rotation is right whatever happens, and its map as long as no
  session is resumed early (\<open>admissible\<close>), and every application gets its turn; what happens to a query whose application is away, or that is cancelled
  while its reply is handled, is shown as it is.
  Where the code does not do what it means to, a theorem shows the behaviour it has (\<open>FromBytes_panics_iff\<close>,
  \<open>Verify_shifts_key_type\<close>, \<open>rebalance_revives_deleted\<close>, \<open>cancel_fires_next_early\<close>, \<open>failed_generate_strands_workers\<close>).

  Loops and bounds. Loops over a list are structural; \<open>parse_commands\<close>, \<open>drain_elements\<close> and \<open>drain_envelopes\<close> consume their
  input, \<open>pickRandomReplicaID\<close> its random numbers, \<open>fill_layers\<close> the nodes. The loops of the copy-stream encoder do not
  end for a chunk size of zero and are \<open>partial_function (option)\<close>; that they return otherwise is part of
  \<open>copy_stream_lossless\<close>. The courier reads at most 2 ^ 16 boxes of a stream, the client cuts a payload into chunks of positive size. No definition takes fuel. Lengths are bounded by the 32-bit fields of the formats and the limit of
  the parsers; where a theorem needs such a bound it is a hypothesis.

  Not modelled. The link handshake and sessions (core/wire/session.go), sockets, QUIC, logging, metrics and worker
  threads: input and output around the code above. Of the authority: connections, start and shutdown. Of the
  replica: connections, the opening of the database, key files, the configuration. Of the courier: its connections and
  decoy traffic. Of the client daemon: sockets and framing, the Poisson clock, vouchers (calls of a cryptographic
  library), start and shutdown. Of the mix node: the queue on disk, decoy traffic, its connections and services, and the
  fetching of documents. The thin client passes the messages modelled here over a socket. The
  configuration generator, the command-line tools and the demonstration programs (walletshield, kps) only
  read and write files and call the client. Timing side channels are outside the model.
\<close>

end
